(* ===== verification/Prelude.thy ===== *)
theory Prelude
  imports Main "HOL-Library.Char_ord" "HOL-Library.List_Lexorder" "HOL-Library.Word"
begin

text \<open>
  Shared vocabulary of the development: Go byte strings and the functions of the
  packages \<open>strings\<close> and \<open>strconv\<close> the sources call, 64-bit \<open>int\<close> arithmetic with
  its wrap-around, association lists for Go maps, SQL-like row updates, and the
  generic lemmas the components share.

  A Go \<open>string\<close> is a \<^typ>\<open>string\<close> of bytes; its order (\<open>List_Lexorder\<close> over
  \<open>Char_ord\<close>) is Go's byte-wise order. Case folding and white space are those of ASCII.
\<close>

section \<open>Collections of rules\<close>

named_theorems go_simps \<open>evaluation of the Go standard library functions\<close>
named_theorems sql_simps \<open>row updates and row selections\<close>

section \<open>Statement outcomes\<close>

text \<open>
  PostgreSQL and its driver are not part of the sources. An operation that sends SQL
  takes \<open>pg\<close>: \<open>pg i\<close> says whether the \<open>i\<close>-th statement it sends is executed; a
  statement that is not executed leaves the tables alone and makes the operation
  return its error.
\<close>

type_synonym pg = "nat \<Rightarrow> bool"

abbreviation all_ok :: pg where "all_ok \<equiv> (\<lambda>_. True)"

text \<open>Instants are integers (the zero \<open>time.Time\<close> is a \<^const>\<open>None\<close> where the code tests it).\<close>

type_synonym instant = int
type_synonym duration = int

section \<open>Strings\<close>

definition has_prefix :: "string \<Rightarrow> string \<Rightarrow> bool" where
  "has_prefix s p \<longleftrightarrow> take (length p) s = p"

definition has_suffix :: "string \<Rightarrow> string \<Rightarrow> bool" where
  "has_suffix s p \<longleftrightarrow> length p \<le> length s \<and> drop (length s - length p) s = p"

fun contains_str :: "string \<Rightarrow> string \<Rightarrow> bool" where
  "contains_str [] p \<longleftrightarrow> p = []"
| "contains_str (c # s) p \<longleftrightarrow> has_prefix (c # s) p \<or> contains_str s p"

text \<open>\<open>strings.Split\<close> on a one-byte separator: never empty.\<close>

fun split_on :: "char \<Rightarrow> string \<Rightarrow> string list" where
  "split_on d [] = [[]]"
| "split_on d (c # s) =
     (if c = d then [] # split_on d s
      else (case split_on d s of [] \<Rightarrow> [[c]] | w # ws \<Rightarrow> (c # w) # ws))"

text \<open>\<open>strings.Index\<close> of a one-byte needle, as the parts before and after it.\<close>

fun cut_at :: "char \<Rightarrow> string \<Rightarrow> (string \<times> string) option" where
  "cut_at d [] = None"
| "cut_at d (c # s) =
     (if c = d then Some ([], s)
      else map_option (\<lambda>(a, b). (c # a, b)) (cut_at d s))"

text \<open>\<open>strings.LastIndex\<close> of a one-byte needle, as the parts before and after it.\<close>

definition cut_last :: "char \<Rightarrow> string \<Rightarrow> (string \<times> string) option" where
  "cut_last d s = map_option (\<lambda>(a, b). (rev b, rev a)) (cut_at d (rev s))"

definition is_space :: "char \<Rightarrow> bool" where
  "is_space c \<longleftrightarrow> c \<in> {CHR '' '', CHR 0x09, CHR 0x0A, CHR 0x0B, CHR 0x0C, CHR 0x0D}"

definition trim_space :: "string \<Rightarrow> string" where
  "trim_space s = rev (dropWhile is_space (rev (dropWhile is_space s)))"

text \<open>\<open>strings.Fields\<close>: the maximal runs of non-space bytes.\<close>

function go_fields :: "string \<Rightarrow> string list" where
  "go_fields s =
     (let s' = dropWhile is_space s
      in if s' = [] then []
         else takeWhile (\<lambda>c. \<not> is_space c) s' # go_fields (dropWhile (\<lambda>c. \<not> is_space c) s'))"
  by pat_completeness auto

lemma dropWhile_nonspace_shorter:
  assumes "dropWhile is_space s \<noteq> []"
  shows "length (dropWhile (\<lambda>c. \<not> is_space c) (dropWhile is_space s)) < length s"
proof (cases "dropWhile is_space s")
  case Nil
  with assms show ?thesis by simp
next
  case (Cons c cs)
  then have "\<not> is_space c" by (metis hd_dropWhile list.distinct(1) list.sel(1))
  with Cons have "length (dropWhile (\<lambda>c. \<not> is_space c) (dropWhile is_space s)) \<le> length cs"
    by (simp add: length_dropWhile_le)
  moreover have "length cs < length s"
    using Cons length_dropWhile_le [of is_space s] by simp
  ultimately show ?thesis by simp
qed

termination go_fields
  by (relation "measure length") (auto simp: Let_def intro: dropWhile_nonspace_shorter)

declare go_fields.simps [simp del]

definition to_lower_char :: "char \<Rightarrow> char" where
  "to_lower_char c = (if CHR ''A'' \<le> c \<and> c \<le> CHR ''Z'' then char_of (of_char c + (32::nat)) else c)"

definition to_lower :: "string \<Rightarrow> string" where
  "to_lower s = map to_lower_char s"

definition equal_fold :: "string \<Rightarrow> string \<Rightarrow> bool" where
  "equal_fold s t \<longleftrightarrow> to_lower s = to_lower t"

fun join_with :: "string \<Rightarrow> string list \<Rightarrow> string" where
  "join_with sep [] = []"
| "join_with sep [w] = w"
| "join_with sep (w # v # ws) = w @ sep @ join_with sep (v # ws)"

fun first_non_empty :: "string list \<Rightarrow> string" where
  "first_non_empty [] = []"
| "first_non_empty (v # vs) = (if v \<noteq> [] then v else first_non_empty vs)"

section \<open>Integers of 64 bits\<close>

definition wrap64 :: "int \<Rightarrow> int" where
  "wrap64 k = (k + 2 ^ 63) mod 2 ^ 64 - 2 ^ 63"

definition wrap32 :: "int \<Rightarrow> int" where
  "wrap32 k = (k + 2 ^ 31) mod 2 ^ 32 - 2 ^ 31"

definition goint :: "int \<Rightarrow> bool" where
  "goint k \<longleftrightarrow> - (2 ^ 63) \<le> k \<and> k < 2 ^ 63"

definition int32 :: "int \<Rightarrow> bool" where
  "int32 k \<longleftrightarrow> - (2 ^ 31) \<le> k \<and> k < 2 ^ 31"

lemma wrap64_id [simp]: "goint k \<Longrightarrow> wrap64 k = k"
  by (simp add: wrap64_def goint_def)

lemma wrap32_id [simp]: "int32 k \<Longrightarrow> wrap32 k = k"
  by (simp add: wrap32_def int32_def)

lemma wrap64_above: "2 ^ 63 \<le> k \<Longrightarrow> k < 2 ^ 64 \<Longrightarrow> wrap64 k = k - 2 ^ 64"
proof -
  assume "2 ^ 63 \<le> k" "k < 2 ^ 64"
  then have "(k + 2 ^ 63) mod 2 ^ 64 = k + 2 ^ 63 - 2 ^ 64"
    by (subst minus_mod_self2 [symmetric]) (rule mod_pos_pos_trivial; simp)
  then show ?thesis by (simp add: wrap64_def)
qed

definition digit_val :: "char \<Rightarrow> int option" where
  "digit_val c = (if CHR ''0'' \<le> c \<and> c \<le> CHR ''9'' then Some (of_char c - 48) else None)"

fun digits_val :: "int \<Rightarrow> string \<Rightarrow> int option" where
  "digits_val acc [] = Some acc"
| "digits_val acc (c # s) =
     (case digit_val c of None \<Rightarrow> None | Some d \<Rightarrow> digits_val (10 * acc + d) s)"

text \<open>\<open>strconv.Atoi\<close>: an optional sign, at least one digit, and the range of \<open>int\<close>.\<close>

definition atoi :: "string \<Rightarrow> int option" where
  "atoi s =
     (let neg = (s \<noteq> [] \<and> hd s = CHR ''-'');
          body = (if s \<noteq> [] \<and> (hd s = CHR ''-'' \<or> hd s = CHR ''+'') then tl s else s)
      in if body = [] then None
         else (case digits_val 0 body of
                 None \<Rightarrow> None
               | Some n \<Rightarrow> let k = (if neg then - n else n) in if goint k then Some k else None))"

definition hex_digit :: "nat \<Rightarrow> char" where
  "hex_digit d = (if d < 10 then char_of (48 + d) else char_of (87 + d))"

text \<open>\<open>hex.EncodeToString\<close>: two lower-case digits for every byte.\<close>

definition hex_encode :: "string \<Rightarrow> string" where
  "hex_encode s = concat (map (\<lambda>c. [hex_digit (of_char c div 16), hex_digit (of_char c mod 16)]) s)"

lemma atoi_goint: "atoi s = Some k \<Longrightarrow> goint k"
  by (auto simp: atoi_def Let_def split: if_splits option.splits)

section \<open>Rows and association lists\<close>

text \<open>\<open>UPDATE \<dots> SET f WHERE p\<close> on a table kept as a list of rows.\<close>

definition update_where :: "('r \<Rightarrow> bool) \<Rightarrow> ('r \<Rightarrow> 'r) \<Rightarrow> 'r list \<Rightarrow> 'r list" where
  "update_where p f rows = map (\<lambda>r. if p r then f r else r) rows"

lemma set_update_where [sql_simps]:
  "set (update_where p f rows) = f ` {r \<in> set rows. p r} \<union> {r \<in> set rows. \<not> p r}"
  by (auto simp: update_where_def)

lemma length_update_where [simp]: "length (update_where p f rows) = length rows"
  by (simp add: update_where_def)

lemma map_update_where:
  assumes "\<And>r. p r \<Longrightarrow> g (f r) = g r"
  shows "map g (update_where p f rows) = map g rows"
  using assms by (simp add: update_where_def)

lemma image_update_where:
  assumes "\<And>r. p r \<Longrightarrow> g (f r) = g r"
  shows "g ` set (update_where p f rows) = g ` set rows"
  using map_update_where [of p g f rows] assms by (metis set_map)

lemma update_where_none: "(\<And>r. r \<in> set rows \<Longrightarrow> \<not> p r) \<Longrightarrow> update_where p f rows = rows"
  by (simp add: update_where_def map_idI)

lemma in_update_whereE:
  assumes "r \<in> set (update_where p f rows)"
  obtains r' where "r' \<in> set rows" "p r'" "r = f r'" | "r \<in> set rows" "\<not> p r"
  using assms by (auto simp: update_where_def split: if_splits)

text \<open>\<open>SELECT \<dots> WHERE key = i\<close> on a key column, and \<open>DELETE \<dots> WHERE key = i\<close>.\<close>

definition lookup_row :: "('r \<Rightarrow> 'k) \<Rightarrow> 'k \<Rightarrow> 'r list \<Rightarrow> 'r option" where
  "lookup_row key i rows = List.find (\<lambda>r. key r = i) rows"

definition delete_rows :: "('r \<Rightarrow> 'k) \<Rightarrow> 'k \<Rightarrow> 'r list \<Rightarrow> 'r list" where
  "delete_rows key i rows = filter (\<lambda>r. key r \<noteq> i) rows"

definition has_row :: "('r \<Rightarrow> 'k) \<Rightarrow> 'k \<Rightarrow> 'r list \<Rightarrow> bool" where
  "has_row key i rows \<longleftrightarrow> list_ex (\<lambda>r. key r = i) rows"

lemma lookup_row_Nil [sql_simps]: "lookup_row key i [] = None"
  by (simp add: lookup_row_def)

lemma lookup_row_Cons [sql_simps]:
  "lookup_row key i (r # rows) = (if key r = i then Some r else lookup_row key i rows)"
  by (simp add: lookup_row_def)

lemma lookup_row_append [sql_simps]:
  "lookup_row key i (xs @ ys) = (case lookup_row key i xs of None \<Rightarrow> lookup_row key i ys | Some r \<Rightarrow> Some r)"
  by (induction xs) (auto simp: sql_simps)

lemma lookup_row_delete [sql_simps]:
  "lookup_row key i (delete_rows key j rows) = (if i = j then None else lookup_row key i rows)"
  by (induction rows) (auto simp: sql_simps delete_rows_def)

lemma lookup_row_update [sql_simps]:
  assumes "\<And>r. key (f r) = key r"
  shows "lookup_row key i (update_where (\<lambda>r. key r = j) f rows) =
    (if i = j then map_option f (lookup_row key i rows) else lookup_row key i rows)"
  using assms by (induction rows) (auto simp: sql_simps update_where_def)

lemma lookup_row_update_where:
  assumes "\<And>r. key (f r) = key r"
  shows "lookup_row key i (update_where p f rows) =
    map_option (\<lambda>r. if p r then f r else r) (lookup_row key i rows)"
  using assms by (induction rows) (auto simp: sql_simps update_where_def)

lemma lookup_row_SomeD: "lookup_row key i rows = Some r \<Longrightarrow> r \<in> set rows \<and> key r = i"
  by (auto simp: lookup_row_def find_Some_iff)

lemma lookup_row_None_iff: "lookup_row key i rows = None \<longleftrightarrow> i \<notin> key ` set rows"
  by (auto simp: lookup_row_def find_None_iff)

lemma has_row_iff: "has_row key i rows \<longleftrightarrow> lookup_row key i rows \<noteq> None"
  by (induction rows) (auto simp: has_row_def sql_simps)

lemma lookup_row_distinct:
  "distinct (map key rows) \<Longrightarrow> r \<in> set rows \<Longrightarrow> lookup_row key (key r) rows = Some r"
  by (induction rows) (auto simp: sql_simps)

lemma distinct_map_filter: "distinct (map f xs) \<Longrightarrow> distinct (map f (filter p xs))"
  by (induction xs) auto

lemma distinct_delete_rows: "distinct (map key rows) \<Longrightarrow> distinct (map key (delete_rows key i rows))"
  by (simp add: delete_rows_def distinct_map_filter)

text \<open>A Go map as an association list in the order a \<open>range\<close> loop happens to take.\<close>

definition aput :: "'k \<Rightarrow> 'v \<Rightarrow> ('k \<times> 'v) list \<Rightarrow> ('k \<times> 'v) list" where
  "aput k v m = (k, v) # filter (\<lambda>(k', _). k' \<noteq> k) m"

definition adel :: "'k \<Rightarrow> ('k \<times> 'v) list \<Rightarrow> ('k \<times> 'v) list" where
  "adel k m = filter (\<lambda>(k', _). k' \<noteq> k) m"

lemma map_of_filter_key: "map_of (filter (\<lambda>(k', _). k' \<noteq> k) m) = (map_of m)(k := None)"
  by (induction m) (auto simp: fun_eq_iff)

lemma map_of_aput [simp]: "map_of (aput k v m) = (map_of m)(k \<mapsto> v)"
  by (simp add: aput_def map_of_filter_key)

lemma map_of_adel [simp]: "map_of (adel k m) = (map_of m)(k := None)"
  by (simp add: adel_def map_of_filter_key)

lemma keys_aput [simp]: "fst ` set (aput k v m) = insert k (fst ` set m)"
  by (force simp: aput_def)

lemma distinct_filter_keys: "distinct (map fst m) \<Longrightarrow> distinct (map fst (filter p m))"
  by (induction m) auto

lemma distinct_aput [simp]: "distinct (map fst m) \<Longrightarrow> distinct (map fst (aput k v m))"
  by (auto simp: aput_def distinct_filter_keys)

lemma distinct_adel [simp]: "distinct (map fst m) \<Longrightarrow> distinct (map fst (adel k m))"
  by (simp add: adel_def distinct_filter_keys)

section \<open>Lists\<close>

lemma distinct_map_unique:
  "distinct (map f xs) \<Longrightarrow> x \<in> set xs \<Longrightarrow> y \<in> set xs \<Longrightarrow> f x = f y \<Longrightarrow> x = y"
  by (simp add: distinct_map inj_on_def)

lemma find_Some_iff_first:
  "List.find p xs = Some x \<Longrightarrow> x \<in> set xs \<and> p x"
  by (auto simp: find_Some_iff)

lemma find_None_all: "List.find p xs = None \<longleftrightarrow> (\<forall>x \<in> set xs. \<not> p x)"
  by (auto simp: find_None_iff)

lemma length_filter_partition:
  "length (filter p xs) + length (filter (\<lambda>x. \<not> p x) xs) = length xs"
  by (rule sum_length_filter_compl)

end
