(* ===== verification/GoText.thy ===== *)
theory GoText
  imports Prelude
begin

text \<open>
  Text as the format verbs of \<^verbatim>\<open>fmt\<close> make it, and the steps of a function that may fail and that
  leaves a trace of what it asks of its surroundings.
\<close>

section \<open>Quoted text\<close>

text \<open>\<^verbatim>\<open>%q\<close> of an ASCII string: Go's escapes, any other control character as two hexadecimal digits.\<close>

definition go_escape :: "char \<Rightarrow> string" where
  "go_escape c =
     (if c = CHR 0x22 \<or> c = CHR 0x5C then [CHR 0x5C, c]
      else if c = CHR 0x07 then [CHR 0x5C, CHR ''a'']
      else if c = CHR 0x08 then [CHR 0x5C, CHR ''b'']
      else if c = CHR 0x09 then [CHR 0x5C, CHR ''t'']
      else if c = CHR 0x0A then [CHR 0x5C, CHR ''n'']
      else if c = CHR 0x0B then [CHR 0x5C, CHR ''v'']
      else if c = CHR 0x0C then [CHR 0x5C, CHR ''f'']
      else if c = CHR 0x0D then [CHR 0x5C, CHR ''r'']
      else if c < CHR 0x20 \<or> c = CHR 0x7F then [CHR 0x5C, CHR ''x'', hex_digit (of_char c div 16), hex_digit (of_char c mod 16)]
      else [c])"

definition quoted :: "string \<Rightarrow> string" where
  "quoted s = [CHR 0x22] @ concat (map go_escape s) @ [CHR 0x22]"

definition newline :: string where "newline = [CHR 0x0A]"

section \<open>Steps with a trace\<close>

text \<open>A step fails with a message or gives a value; either way it leaves a trace.\<close>

type_synonym ('a, 'w) act = "(string + 'a) \<times> 'w list"

definition act_return :: "'a \<Rightarrow> ('a, 'w) act" where
  "act_return x = (Inr x, [])"

definition act_fail :: "string \<Rightarrow> ('a, 'w) act" where
  "act_fail e = (Inl e, [])"

definition act_then :: "('a, 'w) act \<Rightarrow> ('a \<Rightarrow> ('b, 'w) act) \<Rightarrow> ('b, 'w) act" where
  "act_then m f =
     (case m of
        (Inl e, w) \<Rightarrow> (Inl e, w)
      | (Inr x, w) \<Rightarrow> (case f x of (r, w') \<Rightarrow> (r, w @ w')))"

lemma map_sum_Inr_iff: "map_sum f g x = Inr y \<longleftrightarrow> (\<exists>z. x = Inr z \<and> y = g z)"
  by (cases x) auto

lemma act_then_return [simp]: "act_then (act_return x) f = f x"
  by (simp add: act_then_def act_return_def split: prod.split)

lemma act_then_fail [simp]: "act_then (act_fail e) f = act_fail e"
  by (simp add: act_then_def act_fail_def)

lemma act_then_Inr [simp]: "act_then (Inr x, w) f = map_prod id ((@) w) (f x)"
  by (cases "f x") (simp add: act_then_def)

lemma act_then_Inl [simp]: "act_then (Inl e, w) f = (Inl e, w)"
  by (simp add: act_then_def)

lemma act_then_success:
  assumes "act_then m f = (Inr y, w)"
  obtains x w1 w2 where "m = (Inr x, w1)" "f x = (Inr y, w2)" "w = w1 @ w2"
  using assms by (cases m; cases "fst m") (auto simp: act_then_def split: prod.splits sum.splits)

lemma act_then_trace:
  assumes "act_then m f = (r, w)" "x \<in> set w"
  shows "x \<in> set (snd m) \<or> (\<exists>y. fst m = Inr y \<and> x \<in> set (snd (f y)))"
  using assms by (cases m; cases "fst m") (auto simp: act_then_def split: prod.splits sum.splits)

lemma act_return_success [simp]: "act_return x = (Inr y, w) \<longleftrightarrow> x = y \<and> w = []"
  by (auto simp: act_return_def)

lemma act_fail_success [simp]: "act_fail e \<noteq> (Inr y, w)"
  by (simp add: act_fail_def)

end
