(* ===== verification/Scaling.thy ===== *)
theory Scaling
  imports Prelude
begin

text \<open>
  How many pods an agent gets (\<^verbatim>\<open>operators/agent/internal/controller/scaling.go\<close>), on the fields of the Agent
  resource the decision reads. Counts are 32-bit, so the sum of waiting and claimed tasks
  wraps; instants and durations are integers of nanoseconds, zero times are absent.
\<close>

section \<open>The Agent resource\<close>

record agent_scaling =
  sc_replicas :: "int option"
  sc_min :: "int option"

record agent_cr =
  ag_scaling :: "agent_scaling option"
  ag_pending :: int
  ag_active :: int
  ag_observed :: "instant option"
  ag_last_invocation :: "instant option"

section \<open>Texts\<close>

fun decimal_digits :: "nat \<Rightarrow> string \<Rightarrow> string" where
  "decimal_digits n acc =
     (if n < 10 then char_of (48 + n) # acc else decimal_digits (n div 10) (char_of (48 + n mod 10) # acc))"

declare decimal_digits.simps [simp del]

definition decimal :: "int \<Rightarrow> string" where
  "decimal k = (if k < 0 then CHR ''-'' # decimal_digits (nat (- k)) [] else decimal_digits (nat k) [])"

definition second_ns :: duration where "second_ns = 10 ^ 9"

text \<open>\<^verbatim>\<open>Round(time.Second)\<close> of a duration that is not negative: to the nearest second, halves up.\<close>

definition round_seconds :: "duration \<Rightarrow> int" where
  "round_seconds d = (if 2 * (d mod second_ns) < second_ns then d div second_ns else d div second_ns + 1)"

text \<open>\<^verbatim>\<open>Duration.String\<close> of a whole number of seconds that is not negative.\<close>

definition duration_text :: "int \<Rightarrow> string" where
  "duration_text s =
     (if s < 60 then decimal s @ ''s''
      else if s < 3600 then decimal (s div 60) @ ''m'' @ decimal (s mod 60) @ ''s''
      else decimal (s div 3600) @ ''h'' @ decimal (s div 60 mod 60) @ ''m'' @ decimal (s mod 60) @ ''s'')"

definition active_label :: "int \<Rightarrow> string" where
  "active_label n =
     (if n = 0 then ''0 tasks in flight'' else if n = 1 then ''1 task in flight'' else decimal n @ '' tasks in flight'')"

definition pending_label :: "int \<Rightarrow> string" where
  "pending_label n = (if n = 0 then ''none waiting'' else if n = 1 then ''1 waiting'' else decimal n @ '' waiting'')"

definition queued_message :: "int \<Rightarrow> int \<Rightarrow> int \<Rightarrow> int \<Rightarrow> string" where
  "queued_message target pending active mx =
     active_label active @ '', '' @ pending_label pending @
     (if mx \<le> target \<and> mx < wrap32 (pending + active) then ''; capped at '' @ decimal mx @ '' pods'' else [])"

section \<open>The decision\<close>

datatype scale_reason =
    ReasonStatic | ReasonQueued | ReasonDormant | ReasonIdleGrace | ReasonQueueStale | ReasonScaledDown | ReasonDisabled

record scale_decision =
  sd_replicas :: int
  sd_reason :: scale_reason
  sd_message :: string
  sd_requeue :: duration

record scale_config =
  cf_scale_down_window :: duration
  cf_queue_signal_ttl :: duration

definition default_scale_down_window :: duration where "default_scale_down_window = 2 * 60 * second_ns"
definition default_queue_signal_ttl :: duration where "default_queue_signal_ttl = 5 * 60 * second_ns"
definition queue_stale_requeue :: duration where "queue_stale_requeue = 15 * second_ns"
definition clock_skew_tolerance :: duration where "clock_skew_tolerance = 30 * second_ns"

definition scale_down_window :: "scale_config \<Rightarrow> duration" where
  "scale_down_window cf = (if 0 < cf_scale_down_window cf then cf_scale_down_window cf else default_scale_down_window)"

definition queue_signal_ttl :: "scale_config \<Rightarrow> duration" where
  "queue_signal_ttl cf = (if 0 < cf_queue_signal_ttl cf then cf_queue_signal_ttl cf else default_queue_signal_ttl)"

definition max_replicas :: "agent_cr \<Rightarrow> int" where
  "max_replicas a =
     (case ag_scaling a of None \<Rightarrow> 1 | Some s \<Rightarrow> (case sc_replicas s of None \<Rightarrow> 1 | Some r \<Rightarrow> r))"

definition min_replicas :: "agent_cr \<Rightarrow> int option" where
  "min_replicas a =
     (case ag_scaling a of None \<Rightarrow> None
      | Some s \<Rightarrow> (case sc_min s of None \<Rightarrow> None | Some m \<Rightarrow> Some (if m < 0 then 0 else m)))"

definition queue_signal :: "agent_cr \<Rightarrow> instant \<Rightarrow> duration \<Rightarrow> (int \<times> int) option" where
  "queue_signal a now ttl =
     (case ag_observed a of
        None \<Rightarrow> None
      | Some t \<Rightarrow> if ttl < now - t \<or> now - t < - clock_skew_tolerance then None else Some (ag_pending a, ag_active a))"

definition quiet_for :: "agent_cr \<Rightarrow> instant \<Rightarrow> duration option" where
  "quiet_for a now =
     (case ag_last_invocation a of
        None \<Rightarrow> None | Some t \<Rightarrow> if now < t then Some 0 else Some (now - t))"

definition clamp_int32 :: "int \<Rightarrow> int \<Rightarrow> int \<Rightarrow> int" where
  "clamp_int32 v low high = (if v < low then low else if high < v then high else v)"

definition idle_decision :: "scale_config \<Rightarrow> agent_cr \<Rightarrow> int \<Rightarrow> int \<Rightarrow> instant \<Rightarrow> scale_decision" where
  "idle_decision cf a mn current now =
     (case quiet_for a now of
        None \<Rightarrow> \<lparr>sd_replicas = mn, sd_reason = ReasonDormant,
                 sd_message = ''no work has ever been queued for this agent'', sd_requeue = 0\<rparr>
      | Some idle \<Rightarrow>
          let window = scale_down_window cf in
          if window \<le> idle then
            \<lparr>sd_replicas = mn, sd_reason = (if mn = 0 then ReasonScaledDown else ReasonDormant),
             sd_message = ''quiet for '' @ duration_text (round_seconds idle), sd_requeue = 0\<rparr>
          else
            let hold = (if 1 < mn then mn else 1) in
            \<lparr>sd_replicas = (if current < hold then current else hold), sd_reason = ReasonIdleGrace,
             sd_message = ''quiet, holding one pod for '' @ duration_text (round_seconds (window - idle)),
             sd_requeue = window - idle\<rparr>)"

definition stale_target :: "int \<Rightarrow> int \<Rightarrow> int \<Rightarrow> int" where
  "stale_target current mn mx =
     (let t = (if current < mn then mn else current) in if mx < t then mx else t)"

definition resolve_replicas :: "scale_config \<Rightarrow> agent_cr \<Rightarrow> int \<Rightarrow> instant \<Rightarrow> scale_decision" where
  "resolve_replicas cf a current now =
     (let mx = max_replicas a in
      case min_replicas a of
        None \<Rightarrow> \<lparr>sd_replicas = mx, sd_reason = ReasonStatic, sd_message = ''static replica count'', sd_requeue = 0\<rparr>
      | Some m \<Rightarrow>
          let mn = (if mx < m then mx else m) in
          if mx = 0 then
            \<lparr>sd_replicas = 0, sd_reason = ReasonDisabled, sd_message = ''replicas set to 0'', sd_requeue = 0\<rparr>
          else (case queue_signal a now (queue_signal_ttl cf) of
              None \<Rightarrow>
                \<lparr>sd_replicas = stale_target current mn mx, sd_reason = ReasonQueueStale,
                 sd_message = ''no recent queue signal from the hub; holding instead of scaling to zero'',
                 sd_requeue = queue_stale_requeue\<rparr>
            | Some (pending, active) \<Rightarrow>
                let work = wrap32 (pending + active) in
                if 0 < work then
                  let target = clamp_int32 work mn mx in
                  \<lparr>sd_replicas = target, sd_reason = ReasonQueued,
                   sd_message = queued_message target pending active mx, sd_requeue = 0\<rparr>
                else idle_decision cf a mn current now))"

section \<open>Properties\<close>

lemmas scaling_simps = resolve_replicas_def idle_decision_def stale_target_def clamp_int32_def min_replicas_def Let_def

text \<open>The floor the operator works with: the configured one, never above the ceiling.\<close>

definition floor_of :: "agent_cr \<Rightarrow> int" where
  "floor_of a = (case min_replicas a of None \<Rightarrow> max_replicas a | Some m \<Rightarrow> min m (max_replicas a))"

lemma floor_of_nonneg: "0 \<le> max_replicas a \<Longrightarrow> 0 \<le> floor_of a \<and> floor_of a \<le> max_replicas a"
  by (auto simp: floor_of_def min_replicas_def split: option.splits)

text \<open>
  C14. For a ceiling that is not negative the operator never asks for a negative number of pods or for
  more than the ceiling, and never for fewer than the floor unless it is holding pods in
  the idle grace; there it asks for fewer than the floor exactly when fewer are running.
\<close>

theorem replicas_within_bounds:
  assumes "0 \<le> max_replicas a" "0 \<le> current"
  shows "0 \<le> sd_replicas (resolve_replicas cf a current now) \<and>
    sd_replicas (resolve_replicas cf a current now) \<le> max_replicas a \<and>
    (if sd_reason (resolve_replicas cf a current now) = ReasonIdleGrace
     then sd_replicas (resolve_replicas cf a current now) < floor_of a \<longleftrightarrow> current < floor_of a
     else floor_of a \<le> sd_replicas (resolve_replicas cf a current now))"
proof (cases "min_replicas a")
  case None
  then show ?thesis using assms by (simp add: resolve_replicas_def floor_of_def Let_def)
next
  case (Some m)
  then have m: "0 \<le> m" by (auto simp: min_replicas_def split: option.splits if_splits)
  show ?thesis
  proof (cases "max_replicas a = 0")
    case True
    then show ?thesis using Some m by (simp add: resolve_replicas_def floor_of_def Let_def)
  next
    case False
    define mn where "mn = min m (max_replicas a)"
    have mn: "(if max_replicas a < m then max_replicas a else m) = mn" "floor_of a = mn" "0 \<le> mn" "mn \<le> max_replicas a" "1 \<le> max_replicas a"
      using assms(1) m False Some by (auto simp: mn_def floor_of_def)
    show ?thesis
    proof (cases "queue_signal a now (queue_signal_ttl cf)")
      case None
      then show ?thesis using Some False mn assms(2) by (auto simp: resolve_replicas_def Let_def mn(1) stale_target_def)
    next
      case (Some s)
      obtain p ac where s: "s = (p, ac)" by fastforce
      show ?thesis
      proof (cases "0 < wrap32 (p + ac)")
        case True
        then show ?thesis using \<open>min_replicas a = Some m\<close> Some s False mn
          by (auto simp: resolve_replicas_def Let_def mn(1) clamp_int32_def)
      next
        case quiet: False
        have "resolve_replicas cf a current now = idle_decision cf a mn current now"
          using \<open>min_replicas a = Some m\<close> Some s False quiet by (simp add: resolve_replicas_def Let_def mn(1))
        then show ?thesis using mn assms(2) by (auto simp: idle_decision_def Let_def split: option.splits)
      qed
    qed
  qed
qed

text \<open>An agent with a floor of two pods, of which none runs yet, five seconds after its last task.\<close>

definition raised_floor :: agent_cr where
  "raised_floor = \<lparr>ag_scaling = Some \<lparr>sc_replicas = Some 3, sc_min = Some 2\<rparr>, ag_pending = 0, ag_active = 0,
     ag_observed = Some (99 * second_ns), ag_last_invocation = Some (95 * second_ns)\<rparr>"

theorem replicas_within_bounds_witness:
  "let d = resolve_replicas \<lparr>cf_scale_down_window = 0, cf_queue_signal_ttl = 0\<rparr> raised_floor 0 (100 * second_ns) in
     sd_reason d = ReasonIdleGrace \<and> floor_of raised_floor = 2 \<and> sd_replicas d < floor_of raised_floor \<and>
     sd_message d = ''quiet, holding one pod for 1m55s''"
proof -
  let ?d = "resolve_replicas \<lparr>cf_scale_down_window = 0, cf_queue_signal_ttl = 0\<rparr> raised_floor 0 (100 * second_ns)"
  have "sd_reason ?d = ReasonIdleGrace \<and> floor_of raised_floor = 2 \<and> max_replicas raised_floor = 3 \<and>
      sd_message ?d = ''quiet, holding one pod for 1m55s''" by code_simp
  then show ?thesis
    using replicas_within_bounds [of raised_floor 0 "\<lparr>cf_scale_down_window = 0, cf_queue_signal_ttl = 0\<rparr>" "100 * second_ns"]
    by (simp add: Let_def)
qed

end
