(* ===== verification/AgentPod.thy ===== *)
theory AgentPod
  imports GoText Scaling "HOL-Library.Product_Lexorder"
begin

text \<open>
  The pod an agent runs in, as the agent operator renders it
  (\<^verbatim>\<open>operators/agent/internal/controller/agent_controller.go\<close>, \<^verbatim>\<open>mcpservers/env.go\<close>, on the resource types of
  \<^verbatim>\<open>shared/api/api/v1alpha1\<close>): the effective runtime profile, environment, sidecars, volumes and the
  hashes on the pod template. Everything lives in the namespace of the agent, so other names carry none. The
  fields the operator does not read are left out; resource requirements are copied as they are
  and a temperature is its decimal text.
\<close>

section \<open>Resources\<close>

record env_var =
  ev_name :: string
  ev_value :: string

record mcp_server =
  ms_name :: string
  ms_url :: string
  ms_token_env :: string

record sidecar =
  sr_name :: string
  sr_image :: string
  sr_port :: int
  sr_mcp_path :: string
  sr_env :: "env_var list"

record agent_image =
  im_name :: string
  im_url :: string
  im_tools :: "(string \<times> string) list"
  im_env :: "env_var list"
  im_servers :: "mcp_server list"
  im_sidecars :: "sidecar list"
  im_skills :: "string list"

text \<open>A reference to a key of a secret.\<close>

record key_ref =
  kr_name :: string
  kr_key :: string

text \<open>A condition of a status: its type, status, reason, message and the time of its last transition.\<close>

record condition =
  cd_type :: string
  cd_status :: bool
  cd_reason :: string
  cd_message :: string
  cd_since :: instant

record scaling_status =
  st_mode :: string
  st_desired :: int
  st_reason :: scale_reason
  st_message :: string

text \<open>
  An Agent. A provider block that is absent is \<^const>\<open>None\<close>, one without a reference to a key \<^term>\<open>Some None\<close>;
  absent skills and servers are inherited from the image. \<open>an_queue\<close> holds the scaling policy and the queue signal of the hub.
\<close>

record agent_res =
  an_name :: string
  an_namespace :: string
  an_generation :: int
  an_deleting :: bool
  an_image :: string
  an_pull_policy :: string
  an_resources :: string
  an_hardened :: "bool option"
  an_provider :: string
  an_model :: string
  an_max_turns :: int
  an_temperature :: "string option"
  an_vision :: "bool option"
  an_persona :: string
  an_tools :: "string list"
  an_skills :: "string list option"
  an_mcp :: "mcp_server list option"
  an_env :: "env_var list"
  an_ollama :: "key_ref option option"
  an_opencode :: "key_ref option option"
  an_alibaba :: "key_ref option option"
  an_custom :: "(string \<times> key_ref option) option"
  an_queue :: agent_cr
  an_conditions :: "condition list"
  an_replicas :: int
  an_observed_generation :: int
  an_scaling :: "scaling_status option"

text \<open>The environment of the operator itself; a variable that is not set is empty.\<close>

record operator_env =
  oe_hub_url :: string
  oe_token :: string
  oe_chat_image :: string

section \<open>The effective runtime profile\<close>

definition effective_skills :: "agent_res \<Rightarrow> agent_image \<Rightarrow> string list" where
  "effective_skills a img = (case an_skills a of Some xs \<Rightarrow> xs | None \<Rightarrow> im_skills img)"

definition effective_servers :: "agent_res \<Rightarrow> agent_image \<Rightarrow> mcp_server list" where
  "effective_servers a img = (case an_mcp a of Some xs \<Rightarrow> xs | None \<Rightarrow> im_servers img)"

text \<open>The overrides by name, the last entry of a name counts, and the names in the order they come first.\<close>

definition override_of :: "env_var list \<Rightarrow> string \<Rightarrow> env_var option" where
  "override_of vs n = List.find (\<lambda>v. ev_name v = n) (rev vs)"

fun name_order :: "string list \<Rightarrow> env_var list \<Rightarrow> string list" where
  "name_order seen [] = []"
| "name_order seen (v # vs) =
     (if ev_name v \<in> set seen then name_order seen vs else ev_name v # name_order (ev_name v # seen) vs)"

definition effective_env :: "agent_res \<Rightarrow> agent_image \<Rightarrow> env_var list" where
  "effective_env a img =
     (if an_env a = [] then im_env img
      else map (\<lambda>v. case override_of (an_env a) (ev_name v) of Some o' \<Rightarrow> o' | None \<Rightarrow> v) (im_env img) @
           map (\<lambda>n. the (override_of (an_env a) n))
             (filter (\<lambda>n. n \<notin> set (map ev_name (im_env img))) (name_order [] (an_env a))))"

section \<open>MCP servers\<close>

text \<open>The name of an entry: what is before its first equals sign, unless that is at its start.\<close>

definition entry_name :: "string \<Rightarrow> string" where
  "entry_name e = (case cut_at (CHR ''='') e of Some (c # n, _) \<Rightarrow> c # n | _ \<Rightarrow> e)"

fun dedupe_loop :: "string list \<Rightarrow> string list \<Rightarrow> string list" where
  "dedupe_loop seen [] = []"
| "dedupe_loop seen (e # es) =
     (if entry_name e \<in> set seen then dedupe_loop seen es else e # dedupe_loop (entry_name e # seen) es)"

definition dedupe_entries :: "string list \<Rightarrow> string list" where
  "dedupe_entries es = dedupe_loop [] es"

definition mcp_env_value :: "string list \<Rightarrow> string" where
  "mcp_env_value es = join_with '','' es"

text \<open>The token references of the servers, and the servers whose variable is not there.\<close>

fun token_parts :: "mcp_server list \<Rightarrow> string list \<Rightarrow> string list \<times> (string \<times> string) list" where
  "token_parts [] names = ([], [])"
| "token_parts (s # ss) names =
     (case token_parts ss names of
        (parts, missing) \<Rightarrow>
          if ms_token_env s = [] then (parts, missing)
          else if ms_token_env s \<notin> set names then (parts, (ms_name s, ms_token_env s) # missing)
          else ((ms_name s @ ''=$('' @ ms_token_env s @ '')'') # parts, missing))"

definition token_env_value :: "mcp_server list \<Rightarrow> string list \<Rightarrow> string \<times> (string \<times> string) list" where
  "token_env_value ss names = (case token_parts ss names of (parts, missing) \<Rightarrow> (join_with '','' parts, missing))"

definition sidecar_port :: "sidecar \<Rightarrow> int" where
  "sidecar_port sc = (if sr_port sc = 0 then 8080 else sr_port sc)"

definition localhost_entry :: "string \<Rightarrow> int \<Rightarrow> string \<Rightarrow> string" where
  "localhost_entry name port path = name @ ''=http://localhost:'' @ decimal port @ path"

definition chat_name :: string where "chat_name = ''chat''"

definition chat_entry :: string where "chat_entry = ''chat=http://localhost:8081/mcp''"

text \<open>The entries before duplicates are removed: servers, sidecars with a path, the chat sidecar.\<close>

definition chat_injected :: "operator_env \<Rightarrow> agent_image \<Rightarrow> bool" where
  "chat_injected oe img \<longleftrightarrow>
     oe_chat_image oe \<noteq> [] \<and> \<not> list_ex (\<lambda>sc. sr_name sc = chat_name \<and> sr_mcp_path sc \<noteq> []) (im_sidecars img)"

definition mcp_entries :: "operator_env \<Rightarrow> agent_res \<Rightarrow> agent_image \<Rightarrow> string list" where
  "mcp_entries oe a img =
     map (\<lambda>s. ms_name s @ ''='' @ ms_url s) (effective_servers a img) @
     map (\<lambda>sc. localhost_entry (sr_name sc) (sidecar_port sc) (sr_mcp_path sc))
       (filter (\<lambda>sc. sr_mcp_path sc \<noteq> []) (im_sidecars img)) @
     (if chat_injected oe img then [chat_entry] else [])"

section \<open>Environment of the containers\<close>

text \<open>Where a variable gets its value: the text itself, or a key of a secret that may be declared optional.\<close>

datatype env_source = Literal string | FromSecret string string "bool option"

record env_entry =
  ee_name :: string
  ee_source :: env_source

definition lit :: "string \<Rightarrow> string \<Rightarrow> env_entry" where
  "lit n v = \<lparr>ee_name = n, ee_source = Literal v\<rparr>"

definition token_name :: string where "token_name = ''HUB_INTERNAL_VALIDATE_SECRET''"
definition hub_url_name :: string where "hub_url_name = ''HUB_URL''"

definition resource_name :: "agent_res \<Rightarrow> string" where
  "resource_name a = ''agent-'' @ an_name a"

definition image_env_secret :: "agent_res \<Rightarrow> string" where
  "image_env_secret a = resource_name a @ ''-image-env''"

text \<open>The names the platform owns, with their values; none without the internal token.\<close>

definition platform_managed_env :: "operator_env \<Rightarrow> (string \<times> string) list" where
  "platform_managed_env oe = (if oe_token oe = [] then [] else [(token_name, oe_token oe)])"

definition platform_sidecar_env :: "operator_env \<Rightarrow> env_entry list" where
  "platform_sidecar_env oe =
     (if oe_hub_url oe \<noteq> [] then [lit hub_url_name (oe_hub_url oe)] else []) @
     (if oe_token oe \<noteq> [] then [lit token_name (oe_token oe)] else [])"

text \<open>The secret of a provider's key: the one the agent refers to, or one named after the agent.\<close>

definition provider_secret :: "agent_res \<Rightarrow> string \<Rightarrow> key_ref option option \<Rightarrow> string" where
  "provider_secret a suffix cfg =
     (case cfg of Some (Some r) \<Rightarrow> kr_name r | _ \<Rightarrow> an_name a @ suffix)"

definition provider_key_env :: "agent_res \<Rightarrow> string \<Rightarrow> string \<Rightarrow> key_ref option option \<Rightarrow> env_entry" where
  "provider_key_env a var suffix cfg =
     \<lparr>ee_name = var, ee_source = FromSecret (provider_secret a suffix cfg) ''api-key'' (Some (cfg = None))\<rparr>"

text \<open>The providers with the variable and the suffix of the default secret.\<close>

definition provider_keys :: "agent_res \<Rightarrow> (string \<times> string \<times> key_ref option option) list" where
  "provider_keys a =
     [(''OLLAMA_API_KEY'', ''-ollama-key'', an_ollama a),
      (''OPENCODE_API_KEY'', ''-opencode-key'', an_opencode a),
      (''ALIBABA_CLOUD_API_KEY'', ''-alibaba-key'', an_alibaba a),
      (''CUSTOM_PROVIDER_API_KEY'', ''-custom-provider-key'', map_option snd (an_custom a))]"

record pi_provider =
  pv_name :: string
  pv_base_url :: string
  pv_key_env :: string
  pv_compat :: string
  pv_provider_compat :: string
  pv_model_compat :: string
  pv_thinking :: string

definition resolve_pi_provider :: "agent_res \<Rightarrow> pi_provider" where
  "resolve_pi_provider a =
     (if an_provider a = ''opencode'' then
        \<lparr>pv_name = ''opencode'', pv_base_url = ''https://opencode.ai/zen/go/v1'', pv_key_env = ''OPENCODE_API_KEY'',
         pv_compat = '','' @ quoted ''compat'' @ '':{'' @ quoted ''requiresReasoningContentOnAssistantMessages'' @ '':true}'',
         pv_provider_compat = [], pv_model_compat = [], pv_thinking = []\<rparr>
      else if an_provider a = ''alibaba-cloud'' then
        \<lparr>pv_name = ''alibaba-cloud'',
         pv_base_url = ''https://token-plan.ap-southeast-1.maas.aliyuncs.com/compatible-mode/v1'',
         pv_key_env = ''ALIBABA_CLOUD_API_KEY'', pv_compat = [],
         pv_provider_compat = quoted ''compat'' @ '':{'' @ quoted ''supportsDeveloperRole'' @ '':false,'' @
           quoted ''supportsUsageInStreaming'' @ '':false,'' @ quoted ''maxTokensField'' @ '':'' @ quoted ''max_tokens'' @ '','' @
           quoted ''supportsReasoningEffort'' @ '':false}'',
         pv_model_compat = quoted ''compat'' @ '':{'' @ quoted ''thinkingFormat'' @ '':'' @ quoted ''qwen'' @ ''}'',
         pv_thinking = quoted ''thinkingLevelMap'' @ '':{'' @ quoted ''off'' @ '':null,'' @ quoted ''minimal'' @ '':null,'' @
           quoted ''low'' @ '':null,'' @ quoted ''medium'' @ '':'' @ quoted ''medium'' @ '','' @ quoted ''high'' @ '':'' @
           quoted ''high'' @ '','' @ quoted ''xhigh'' @ '':null}''\<rparr>
      else if an_provider a = ''custom'' then
        \<lparr>pv_name = ''openai'', pv_base_url = (case an_custom a of None \<Rightarrow> [] | Some (url, _) \<Rightarrow> url),
         pv_key_env = ''CUSTOM_PROVIDER_API_KEY'', pv_compat = [], pv_provider_compat = [], pv_model_compat = [], pv_thinking = []\<rparr>
      else
        \<lparr>pv_name = ''ollama-api-key'', pv_base_url = ''https://ollama.com/v1'', pv_key_env = ''OLLAMA_API_KEY'',
         pv_compat = [], pv_provider_compat = [], pv_model_compat = [], pv_thinking = []\<rparr>)"


definition indent :: "nat \<Rightarrow> string" where
  "indent n = newline @ replicate n (CHR '' '')"

definition json_key :: "string \<Rightarrow> string" where
  "json_key k = quoted k @ '': ''"

text \<open>A key of the environment is referred to with a dollar sign.\<close>

definition api_key_ref :: "string \<Rightarrow> string" where
  "api_key_ref v = (if has_prefix v ''$'' then v else ''$'' @ v)"

definition optional_fragment :: "nat \<Rightarrow> string \<Rightarrow> string" where
  "optional_fragment n s = (if s = [] then [] else '','' @ indent n @ s)"

text \<open>The file \<^verbatim>\<open>models.json\<close>.\<close>

definition models_json :: "agent_res \<Rightarrow> string" where
  "models_json a =
     (let pp = resolve_pi_provider a;
          input = (if an_vision a = Some True then ''['' @ quoted ''text'' @ '', '' @ quoted ''image'' @ '']'' else ''['' @ quoted ''text'' @ '']'');
          ainsel = (case an_temperature a of None \<Rightarrow> []
                    | Some d \<Rightarrow> '','' @ indent 4 @ json_key ''ainsel'' @ ''{'' @ indent 8 @ json_key ''temperature'' @ d @ indent 4 @ ''}'')
      in ''{'' @ indent 4 @ json_key ''providers'' @ ''{'' @
         indent 8 @ quoted (pv_name pp) @ '': {'' @
         indent 12 @ json_key ''api'' @ quoted ''openai-completions'' @ '','' @
         indent 12 @ json_key ''apiKey'' @ quoted (api_key_ref (pv_key_env pp)) @ '','' @
         indent 12 @ json_key ''baseUrl'' @ quoted (pv_base_url pp) @ optional_fragment 12 (pv_provider_compat pp) @ '','' @
         indent 12 @ json_key ''models'' @ ''['' @
         indent 16 @ ''{'' @
         indent 20 @ json_key ''id'' @ quoted (an_model a) @ '','' @
         indent 20 @ json_key ''contextWindow'' @ ''202752,'' @
         indent 20 @ json_key ''input'' @ input @ '','' @
         indent 20 @ json_key ''reasoning'' @ ''true'' @ pv_compat pp @ optional_fragment 20 (pv_thinking pp) @
           optional_fragment 20 (pv_model_compat pp) @
         indent 16 @ ''}'' @
         indent 12 @ '']'' @
         indent 8 @ ''}'' @
         indent 4 @ ''}'' @ ainsel @ newline @ ''}'')"

text \<open>The variables the agent container always has.\<close>

definition base_env :: "operator_env \<Rightarrow> agent_res \<Rightarrow> env_entry list" where
  "base_env oe a =
     [lit ''AGENT_NAME'' (an_name a), lit ''PI_PROVIDER'' (pv_name (resolve_pi_provider a)), lit ''OLLAMA_CLOUD_MODEL'' (an_model a),
      lit ''AGENT_PERSONA_PATH'' ''/etc/agent/persona.md'', lit hub_url_name (oe_hub_url oe), lit token_name (oe_token oe),
      lit ''HUB_ENABLED'' ''true'']"

definition key_env :: "agent_res \<Rightarrow> env_entry list" where
  "key_env a = map (\<lambda>(var, suffix, cfg). provider_key_env a var suffix cfg) (provider_keys a)"

text \<open>The enabled tools of kind container; the last tool of a name decides its kind.\<close>

definition container_tools :: "agent_res \<Rightarrow> agent_image \<Rightarrow> string list" where
  "container_tools a img = filter (\<lambda>n. map_of (rev (im_tools img)) n = Some ''container'') (an_tools a)"

definition image_env :: "operator_env \<Rightarrow> agent_res \<Rightarrow> agent_image \<Rightarrow> env_entry list" where
  "image_env oe a img =
     map (\<lambda>v. \<lparr>ee_name = ev_name v, ee_source = FromSecret (image_env_secret a) (ev_name v) None\<rparr>)
       (filter (\<lambda>v. map_of (platform_managed_env oe) (ev_name v) = None) (effective_env a img))"

definition server_tokens :: "operator_env \<Rightarrow> agent_res \<Rightarrow> agent_image \<Rightarrow> string \<times> (string \<times> string) list" where
  "server_tokens oe a img = token_env_value (effective_servers a img) (map ee_name (image_env oe a img))"

definition missing_token_env :: "operator_env \<Rightarrow> agent_res \<Rightarrow> agent_image \<Rightarrow> (string \<times> string) list" where
  "missing_token_env oe a img = snd (server_tokens oe a img)"

text \<open>The environment of the agent container, in order; of entries with the same name Kubernetes takes the last.\<close>

definition agent_env :: "operator_env \<Rightarrow> agent_res \<Rightarrow> agent_image \<Rightarrow> env_entry list" where
  "agent_env oe a img =
     base_env oe a @ key_env a @
     (if 0 < an_max_turns a then [lit ''OLLAMA_CLOUD_MAX_TURNS'' (decimal (an_max_turns a))] else []) @
     [lit ''AGENT_TOOLS'' (join_with '','' (container_tools a img))] @
     image_env oe a img @
     [lit ''MCP_SERVERS'' (mcp_env_value (dedupe_entries (mcp_entries oe a img)))] @
     (let tokens = fst (server_tokens oe a img) in if tokens = [] then [] else [lit ''MCP_SERVER_TOKENS'' tokens])"

definition sidecar_env :: "operator_env \<Rightarrow> agent_res \<Rightarrow> sidecar \<Rightarrow> env_entry list" where
  "sidecar_env oe a sc =
     [lit ''AGENT_NAME'' (an_name a), lit ''PORT'' (decimal (sidecar_port sc))] @
     (if sr_mcp_path sc = [] then []
      else filter (\<lambda>e. ee_name e \<notin> set (map ev_name (sr_env sc))) (platform_sidecar_env oe)) @
     map (\<lambda>v. \<lparr>ee_name = ev_name v, ee_source = FromSecret (image_env_secret a) (ev_name v) None\<rparr>) (sr_env sc)"

text \<open>The data of the secret with the effective environment; a platform name has the platform's value.\<close>

definition image_env_data :: "operator_env \<Rightarrow> agent_res \<Rightarrow> agent_image \<Rightarrow> (string \<times> string) list" where
  "image_env_data oe a img =
     fold (\<lambda>v. aput (ev_name v) (case map_of (platform_managed_env oe) (ev_name v) of Some p \<Rightarrow> p | None \<Rightarrow> ev_value v))
       (effective_env a img) []"

section \<open>The pod template\<close>

datatype volume_source = EmptyDir | FromConfigMap string "(string \<times> string) list" bool

record mount =
  mt_name :: string
  mt_path :: string
  mt_read_only :: bool

text \<open>A security context of a container; a field that is not set is \<^const>\<open>None\<close>.\<close>

record security =
  sx_user :: "int option"
  sx_non_root :: "bool option"
  sx_escalation :: "bool option"
  sx_read_only_root :: "bool option"
  sx_drop :: "string list"

record pod_security =
  px_non_root :: "bool option"
  px_user :: "int option"
  px_group :: "int option"
  px_fs_group :: "int option"
  px_seccomp :: "string option"

record container =
  cn_name :: string
  cn_image :: string
  cn_command :: "string list"
  cn_pull_policy :: string
  cn_resources :: string
  cn_security :: "security option"
  cn_ports :: "(string \<times> int) list"
  cn_env :: "env_entry list"
  cn_mounts :: "mount list"

definition plain_container :: "string \<Rightarrow> string \<Rightarrow> container" where
  "plain_container name img =
     \<lparr>cn_name = name, cn_image = img, cn_command = [], cn_pull_policy = [], cn_resources = [], cn_security = None,
      cn_ports = [], cn_env = [], cn_mounts = []\<rparr>"

record pod_template =
  pt_labels :: "(string \<times> string) list"
  pt_annotations :: "(string \<times> string) list"
  pt_security :: pod_security
  pt_grace :: int
  pt_init :: "container list"
  pt_containers :: "container list"
  pt_volumes :: "(string \<times> volume_source) list"

definition pod_labels :: "agent_res \<Rightarrow> (string \<times> string) list" where
  "pod_labels a =
     [(''app.kubernetes.io/name'', resource_name a), (''app.kubernetes.io/managed-by'', ''agent-operator''),
      (''app.kubernetes.io/component'', ''agents''), (''ainsel.dev/agent'', an_name a)]"

definition persona_config_map :: "string \<Rightarrow> string" where
  "persona_config_map i = ''persona-'' @ i"

definition skills_config_map :: string where "skills_config_map = ''skills''"

definition hardened :: "agent_res \<Rightarrow> bool" where
  "hardened a \<longleftrightarrow> an_hardened a \<noteq> Some False"

definition tmp_volume :: "agent_res \<Rightarrow> (string \<times> volume_source) list" where
  "tmp_volume a = (if hardened a then [(''tmp'', EmptyDir)] else [])"

definition pod_volumes :: "agent_res \<Rightarrow> agent_image \<Rightarrow> (string \<times> volume_source) list" where
  "pod_volumes a img =
     [(''persona'', FromConfigMap (persona_config_map (an_persona a)) [] False), (''workspace'', EmptyDir), (''pi-home'', EmptyDir),
      (''pi-models'', FromConfigMap (resource_name a @ ''-pi-models'') [] False)] @
     (if effective_skills a img = [] then []
      else [(''agent-skills'', FromConfigMap skills_config_map (map (\<lambda>i. (i, i @ ''/SKILL.md'')) (effective_skills a img)) True)]) @
     tmp_volume a"

definition agent_mounts :: "agent_res \<Rightarrow> mount list" where
  "agent_mounts a =
     [\<lparr>mt_name = ''persona'', mt_path = ''/etc/agent/'', mt_read_only = True\<rparr>,
      \<lparr>mt_name = ''workspace'', mt_path = ''/workspace'', mt_read_only = False\<rparr>,
      \<lparr>mt_name = ''pi-home'', mt_path = ''/home/agent/.pi/agent'', mt_read_only = False\<rparr>] @
     (if hardened a then [\<lparr>mt_name = ''tmp'', mt_path = ''/tmp'', mt_read_only = False\<rparr>] else [])"

definition setup_command :: "agent_res \<Rightarrow> agent_image \<Rightarrow> string" where
  "setup_command a img =
     ''cp /var/pi-models/models.json /home/agent/.pi/agent/models.json'' @
     (if hardened a then [] else '' && chown 1000:1000 /home/agent/.pi/agent/models.json'') @
     (if effective_skills a img = [] then []
      else '' && cp -r /var/agent-skills/. /home/agent/.pi/agent/skills/'' @
           (if hardened a then [] else '' && chown -R 1000:1000 /home/agent/.pi/agent/skills''))"

definition hardened_context :: "int option \<Rightarrow> bool option \<Rightarrow> security" where
  "hardened_context user non_root =
     \<lparr>sx_user = user, sx_non_root = non_root, sx_escalation = Some False, sx_read_only_root = Some True, sx_drop = [''ALL'']\<rparr>"

definition init_container :: "agent_res \<Rightarrow> agent_image \<Rightarrow> container" where
  "init_container a img = (plain_container ''setup-pi-models'' ''busybox:1.37'')
     \<lparr>cn_command := [''sh'', ''-c'', setup_command a img],
      cn_security := (if hardened a then Some (hardened_context (Some 1000) (Some True)) else None),
      cn_mounts := [\<lparr>mt_name = ''pi-home'', mt_path = ''/home/agent/.pi/agent'', mt_read_only = False\<rparr>,
        \<lparr>mt_name = ''pi-models'', mt_path = ''/var/pi-models'', mt_read_only = True\<rparr>] @
        (if effective_skills a img = [] then [] else [\<lparr>mt_name = ''agent-skills'', mt_path = ''/var/agent-skills'', mt_read_only = True\<rparr>])\<rparr>"

definition agent_container :: "operator_env \<Rightarrow> agent_res \<Rightarrow> agent_image \<Rightarrow> container" where
  "agent_container oe a img = (plain_container ''agent'' (im_url img))
     \<lparr>cn_pull_policy := (if an_pull_policy a = [] then ''Always'' else an_pull_policy a), cn_resources := an_resources a,
      cn_security := (if hardened a then Some (hardened_context None None) else None),
      cn_ports := [(''health'', 8080), (''metrics'', 9090)], cn_env := agent_env oe a img, cn_mounts := agent_mounts a\<rparr>"

definition sidecar_containers :: "operator_env \<Rightarrow> agent_res \<Rightarrow> agent_image \<Rightarrow> container list" where
  "sidecar_containers oe a img =
     map (\<lambda>sc. (plain_container (sr_name sc) (sr_image sc))\<lparr>cn_env := sidecar_env oe a sc\<rparr>) (im_sidecars img)"

definition chat_container :: "operator_env \<Rightarrow> agent_res \<Rightarrow> agent_image \<Rightarrow> container list" where
  "chat_container oe a img =
     (if oe_chat_image oe \<noteq> [] \<and> \<not> list_ex (\<lambda>sc. sr_name sc = chat_name) (im_sidecars img)
      then [(plain_container chat_name (oe_chat_image oe))
              \<lparr>cn_env := [lit ''AGENT_NAME'' (an_name a), lit ''PORT'' ''8081''] @ platform_sidecar_env oe\<rparr>]
      else [])"

definition pod_context :: "agent_res \<Rightarrow> pod_security" where
  "pod_context a =
     (if hardened a
      then \<lparr>px_non_root = Some True, px_user = Some 1000, px_group = Some 1000, px_fs_group = Some 1000, px_seccomp = Some ''RuntimeDefault''\<rparr>
      else \<lparr>px_non_root = None, px_user = None, px_group = None, px_fs_group = Some 1000, px_seccomp = None\<rparr>)"

definition default_grace :: int where "default_grace = 1800"

definition grace_period :: "int \<Rightarrow> int" where
  "grace_period configured = (if 0 < configured then configured else default_grace)"

text \<open>The template without its annotations.\<close>

definition bare_template :: "operator_env \<Rightarrow> int \<Rightarrow> agent_res \<Rightarrow> agent_image \<Rightarrow> pod_template" where
  "bare_template oe grace a img =
     \<lparr>pt_labels = pod_labels a, pt_annotations = [], pt_security = pod_context a, pt_grace = grace_period grace,
      pt_init = [init_container a img],
      pt_containers = agent_container oe a img # sidecar_containers oe a img @ chat_container oe a img,
      pt_volumes = pod_volumes a img\<rparr>"

section \<open>Hashes on the template\<close>

datatype 'a lookup = Found 'a | Missing | LookupFailed string

text \<open>The secrets whose keys are hashed: per provider the reference of the agent, or the default.\<close>

definition hash_ref :: "agent_res \<Rightarrow> string \<Rightarrow> key_ref option option \<Rightarrow> key_ref" where
  "hash_ref a suffix cfg =
     (case cfg of Some (Some r) \<Rightarrow> r | _ \<Rightarrow> \<lparr>kr_name = an_name a @ suffix, kr_key = ''api-key''\<rparr>)"

definition hash_refs :: "agent_res \<Rightarrow> key_ref list" where
  "hash_refs a = map (\<lambda>(var, suffix, cfg). hash_ref a suffix cfg) (provider_keys a)"

definition hash_line :: "string \<Rightarrow> string \<Rightarrow> string \<Rightarrow> string" where
  "hash_line x y z = x @ '':'' @ y @ '':'' @ z @ newline"

text \<open>One line per reference; a secret or a key that is missing has a line of its own.\<close>

fun ref_lines :: "(string \<Rightarrow> (string \<times> string) list lookup) \<Rightarrow> key_ref list \<Rightarrow> string + string" where
  "ref_lines get [] = Inr []"
| "ref_lines get (r # rs) =
     (case (case get (kr_name r) of
              LookupFailed e \<Rightarrow> Inl e
            | Missing \<Rightarrow> Inr (hash_line ''__missing__'' (kr_name r) (kr_key r))
            | Found data \<Rightarrow>
                (case map_of data (kr_key r) of
                   None \<Rightarrow> Inr (hash_line ''__missing_key__'' (kr_name r) (kr_key r))
                 | Some v \<Rightarrow> Inr (hash_line (kr_name r) (kr_key r) (hex_encode v)))) of
        Inl e \<Rightarrow> Inl e
      | Inr l \<Rightarrow> (case ref_lines get rs of Inl e \<Rightarrow> Inl e | Inr ls \<Rightarrow> Inr (l @ ls)))"

definition env_lines :: "string \<Rightarrow> (string \<times> string) list lookup \<Rightarrow> string + string" where
  "env_lines name found =
     (case found of
        LookupFailed e \<Rightarrow> Inl e
      | Missing \<Rightarrow> Inr (hash_line ''__missing__'' name ''*'')
      | Found data \<Rightarrow>
          Inr (concat (map (\<lambda>k. hash_line name k (hex_encode (the (map_of data k)))) (sort (map fst data)))))"

definition digest_text :: "(string \<Rightarrow> string) \<Rightarrow> string \<Rightarrow> string" where
  "digest_text sha s = ''sha256:'' @ hex_encode (sha s)"

text \<open>What is hashed of the secrets, and the hash; \<open>sha\<close> is SHA-256.\<close>

definition secret_text ::
  "(string \<Rightarrow> (string \<times> string) list lookup) \<Rightarrow> key_ref list \<Rightarrow> string \<Rightarrow> string + string" where
  "secret_text get refs env_name =
     (case ref_lines get (sort_key (\<lambda>r. (kr_name r, kr_key r)) refs) of
        Inl e \<Rightarrow> Inl e
      | Inr ls \<Rightarrow> (case env_lines env_name (get env_name) of Inl e \<Rightarrow> Inl e | Inr es \<Rightarrow> Inr (ls @ es)))"

definition secret_hash ::
  "(string \<Rightarrow> string) \<Rightarrow> (string \<Rightarrow> (string \<times> string) list lookup) \<Rightarrow> key_ref list \<Rightarrow> string \<Rightarrow> string + string" where
  "secret_hash sha get refs env_name = map_sum id (digest_text sha) (secret_text get refs env_name)"

text \<open>What is hashed of a ConfigMap.\<close>

definition config_map_text :: "string \<Rightarrow> (string \<times> string) list lookup \<Rightarrow> string + string" where
  "config_map_text name found =
     (case found of
        LookupFailed e \<Rightarrow> Inl e
      | Missing \<Rightarrow> Inr (''__missing__:'' @ name @ newline)
      | Found data \<Rightarrow> Inr (concat (map (\<lambda>k. k @ '':'' @ the (map_of data k) @ newline) (sort (map fst data)))))"

definition config_map_hash ::
  "(string \<Rightarrow> string) \<Rightarrow> string \<Rightarrow> (string \<times> string) list lookup \<Rightarrow> string + string" where
  "config_map_hash sha name found = map_sum id (digest_text sha) (config_map_text name found)"

definition secret_hash_key :: string where "secret_hash_key = ''ainsel.dev/secret-hash''"
definition persona_hash_key :: string where "persona_hash_key = ''ainsel.dev/persona-hash''"
definition skill_hash_key :: string where "skill_hash_key = ''ainsel.dev/skill-hash''"
definition image_digest_key :: string where "image_digest_key = ''ainsel.dev/image-digest''"

text \<open>What the operator finds out for the annotations: secrets, ConfigMaps and the digest of the image.\<close>

record template_env =
  te_secret :: "string \<Rightarrow> (string \<times> string) list lookup"
  te_config_map :: "string \<Rightarrow> (string \<times> string) list lookup"
  te_digest :: "string + string"

definition annotations ::
  "(string \<Rightarrow> string) \<Rightarrow> template_env \<Rightarrow> agent_res \<Rightarrow> agent_image \<Rightarrow> string + (string \<times> string) list" where
  "annotations sha v a img =
     (case secret_hash sha (te_secret v) (hash_refs a) (image_env_secret a) of
        Inl e \<Rightarrow> Inl (''computing secret hash: '' @ e)
      | Inr h \<Rightarrow>
          (let persona = persona_config_map (an_persona a) in
           case config_map_hash sha persona (te_config_map v persona) of
             Inl e \<Rightarrow> Inl (''computing persona hash: '' @ e)
           | Inr p \<Rightarrow>
               (case (if effective_skills a img = [] then Inr []
                      else map_sum id (\<lambda>s. [(skill_hash_key, s)])
                             (config_map_hash sha skills_config_map (te_config_map v skills_config_map))) of
                  Inl e \<Rightarrow> Inl (''computing skill hash: '' @ e)
                | Inr skills \<Rightarrow>
                    Inr ([(secret_hash_key, h), (persona_hash_key, p)] @ skills @
                      (case te_digest v of Inl _ \<Rightarrow> [] | Inr d \<Rightarrow> [(image_digest_key, d)])))))"

definition pod_template_of ::
  "(string \<Rightarrow> string) \<Rightarrow> template_env \<Rightarrow> operator_env \<Rightarrow> int \<Rightarrow> agent_res \<Rightarrow> agent_image \<Rightarrow> string + pod_template" where
  "pod_template_of sha v oe grace a img =
     map_sum id (\<lambda>as. (bare_template oe grace a img)\<lparr>pt_annotations := as\<rparr>) (annotations sha v a img)"

end
