(* ===== verification/AgentOperator.thy ===== *)
theory AgentOperator
  imports AgentPod
begin

text \<open>
  One pass of the agent operator over an Agent (\<^verbatim>\<open>Reconcile\<close> in
  \<^verbatim>\<open>operators/agent/internal/controller/agent_controller.go\<close>) and the watches that trigger passes. The API
  server is not part of the sources: its answers are arguments, what it is asked to store is a trace, in which a request that was
  refused does not occur. The library that keeps conditions in a list is a parameter. One instant stands for all
  readings of the clock in a pass; log lines are left out.
\<close>

section \<open>Surroundings of a pass\<close>

record deployment =
  dp_labels :: "(string \<times> string) list"
  dp_selector :: "(string \<times> string) list option"
  dp_replicas :: "int option"
  dp_template :: pod_template
  dp_ready :: int

text \<open>The fields of the status the operator writes.\<close>

record status_patch =
  pa_replicas :: int
  pa_conditions :: "condition list"
  pa_generation :: int
  pa_scaling :: "scaling_status option"

datatype request =
    PutModels string string
  | PutEnvSecret string "(string \<times> string) list"
  | DropEnvSecret string
  | PutDeployment string deployment
  | PutService string "(string \<times> string) list"
  | PutMonitor string "(string \<times> string) list"
  | PatchStatus status_patch
  | WarnMissingEnv "string \<times> string"

datatype target = ModelsMap | EnvSecret | AgentDeployment | MetricsService | StatusOfAgent

datatype monitor_answer = MonitorStored | NoMonitorKind | MonitorFailed string

text \<open>
  What the API server answers: whether an object may be owned and stored (\<^const>\<open>None\<close>, or an error), and what lookups find; of the secret with the environment
  it matters whether the agent controls it.
\<close>

record pass_env =
  re_now :: instant
  re_agent :: "agent_res lookup"
  re_image :: "string \<Rightarrow> agent_image lookup"
  re_own :: "target \<Rightarrow> string option"
  re_write :: "target \<Rightarrow> string option"
  re_env_secret :: "bool lookup"
  re_deployment :: "string + deployment option"
  re_template :: template_env
  re_monitor :: monitor_answer
  re_recorder :: bool

record operator_config =
  oc_env :: operator_env
  oc_grace :: int
  oc_scale :: scale_config

text \<open>Setting and finding a condition in a list of conditions.\<close>

record condition_lib =
  lib_set :: "condition \<Rightarrow> condition list \<Rightarrow> condition list"
  lib_find :: "condition list \<Rightarrow> string \<Rightarrow> condition option"

type_synonym 'a pass = "('a, request) act"

text \<open>Own an object and store it.\<close>

definition own_object :: "pass_env \<Rightarrow> target \<Rightarrow> unit pass" where
  "own_object v k = (case re_own v k of None \<Rightarrow> act_return () | Some e \<Rightarrow> act_fail e)"

definition put_object :: "pass_env \<Rightarrow> target \<Rightarrow> request \<Rightarrow> unit pass" where
  "put_object v k r = (case re_write v k of None \<Rightarrow> (Inr (), [r]) | Some e \<Rightarrow> act_fail e)"

definition with_prefix :: "string \<Rightarrow> 'a pass \<Rightarrow> 'a pass" where
  "with_prefix p m = map_prod (map_sum (\<lambda>e. p @ e) id) id m"

section \<open>Conditions\<close>

definition set_condition ::
  "condition_lib \<Rightarrow> instant \<Rightarrow> string \<Rightarrow> bool \<Rightarrow> string \<Rightarrow> string \<Rightarrow> agent_res \<Rightarrow> agent_res" where
  "set_condition L now t b reason msg a =
     a\<lparr>an_conditions := lib_set L \<lparr>cd_type = t, cd_status = b, cd_reason = reason, cd_message = msg, cd_since = now\<rparr> (an_conditions a)\<rparr>"

definition cond_ready :: string where "cond_ready = ''Ready''"
definition cond_deployment :: string where "cond_deployment = ''DeploymentReady''"
definition cond_mcp :: string where "cond_mcp = ''MCPDiscoveryComplete''"
definition cond_persona :: string where "cond_persona = ''PersonaConfigMapReady''"
definition cond_env_secret :: string where "cond_env_secret = ''ImageEnvSecretReady''"
definition cond_degraded :: string where "cond_degraded = ''Degraded''"

definition holds_in :: "condition_lib \<Rightarrow> agent_res \<Rightarrow> string \<Rightarrow> bool" where
  "holds_in L a t = (case lib_find L (an_conditions a) t of None \<Rightarrow> False | Some c \<Rightarrow> cd_status c)"

definition missing_env_text :: "string \<times> string \<Rightarrow> string" where
  "missing_env_text m =
     ''MCP server '' @ quoted (fst m) @ '' references env var '' @ quoted (snd m) @ '' which is not defined on the AgentImage''"

text \<open>The degraded condition and a warning per server whose token variable is missing.\<close>

definition mcp_token_condition ::
  "condition_lib \<Rightarrow> pass_env \<Rightarrow> (string \<times> string) list \<Rightarrow> agent_res \<Rightarrow> agent_res pass" where
  "mcp_token_condition L v missing a =
     (if missing \<noteq> [] then
        (Inr (set_condition L (re_now v) cond_degraded True ''MCPTokenEnvMissing'' (join_with ''; '' (map missing_env_text missing)) a),
         if re_recorder v then map WarnMissingEnv missing else [])
      else act_return
        (if holds_in L a cond_degraded
         then set_condition L (re_now v) cond_degraded False ''AsExpected'' ''All MCP server token env vars are defined'' a
         else a))"

definition mcp_discovery_condition :: "condition_lib \<Rightarrow> instant \<Rightarrow> (string \<times> string) list \<Rightarrow> agent_res \<Rightarrow> agent_res" where
  "mcp_discovery_condition L now missing a =
     (if missing = [] then set_condition L now cond_mcp True ''AllResolved'' ''All enabled MCP servers resolved successfully'' a
      else set_condition L now cond_mcp False ''MissingEnvVars''
             (''MCP servers with missing env vars: '' @ join_with '', '' (map fst missing)) a)"

definition persona_condition :: "condition_lib \<Rightarrow> pass_env \<Rightarrow> agent_res \<Rightarrow> agent_res pass" where
  "persona_condition L v a =
     (let name = persona_config_map (an_persona a) in
      case te_config_map (re_template v) name of
        Missing \<Rightarrow> act_return (set_condition L (re_now v) cond_persona False ''NotFound''
                     (''Persona ConfigMap '' @ quoted name @ '' not found in namespace '' @ quoted (an_namespace a)) a)
      | LookupFailed e \<Rightarrow> act_fail e
      | Found _ \<Rightarrow> act_return (set_condition L (re_now v) cond_persona True ''Exists'' (''Persona ConfigMap '' @ quoted name @ '' exists'') a))"

section \<open>Objects\<close>

datatype create_answer = Created | AlreadyThere | CreateFailed string

text \<open>The ConfigMap with \<^verbatim>\<open>models.json\<close> is created, or updated when it is there.\<close>

definition reconcile_models :: "pass_env \<Rightarrow> create_answer \<Rightarrow> agent_res \<Rightarrow> unit pass" where
  "reconcile_models v created a =
     (let r = PutModels (resource_name a @ ''-pi-models'') (models_json a) in
      act_then (own_object v ModelsMap)
        (\<lambda>_. case created of
               Created \<Rightarrow> (Inr (), [r])
             | CreateFailed e \<Rightarrow> act_fail e
             | AlreadyThere \<Rightarrow> put_object v ModelsMap r))"

text \<open>Without variables the secret is removed, if the agent controls it.\<close>

definition reconcile_env_secret :: "pass_env \<Rightarrow> operator_env \<Rightarrow> agent_res \<Rightarrow> agent_image \<Rightarrow> unit pass" where
  "reconcile_env_secret v oe a img =
     (if effective_env a img = [] then
        (case re_env_secret v of
           Missing \<Rightarrow> act_return ()
         | LookupFailed e \<Rightarrow> act_fail (''getting image env secret for cleanup: '' @ e)
         | Found controlled \<Rightarrow>
             if controlled then with_prefix ''deleting unused image env secret: '' (put_object v EnvSecret (DropEnvSecret (image_env_secret a)))
             else act_return ())
      else with_prefix ''reconciling image env secret: ''
        (act_then (own_object v EnvSecret)
           (\<lambda>_. put_object v EnvSecret (PutEnvSecret (image_env_secret a) (image_env_data oe a img)))))"

text \<open>
  The mutation of the deployment. The number of pods is decided on the number that is asked for now, the
  selector of an existing deployment stays, everything else is rebuilt.
\<close>

definition current_replicas :: "deployment option \<Rightarrow> int" where
  "current_replicas old = (case old of None \<Rightarrow> 0 | Some d \<Rightarrow> (case dp_replicas d of None \<Rightarrow> 0 | Some n \<Rightarrow> n))"

definition kept_selector :: "agent_res \<Rightarrow> deployment option \<Rightarrow> (string \<times> string) list option" where
  "kept_selector a old = (case (case old of None \<Rightarrow> None | Some d \<Rightarrow> dp_selector d) of None \<Rightarrow> Some (pod_labels a) | Some s \<Rightarrow> Some s)"

definition mutate_deployment ::
  "(string \<Rightarrow> string) \<Rightarrow> template_env \<Rightarrow> operator_config \<Rightarrow> instant \<Rightarrow> agent_res \<Rightarrow> agent_image \<Rightarrow> deployment option \<Rightarrow>
   string + deployment \<times> scale_decision" where
  "mutate_deployment sha t oc now a img old =
     (let scale = resolve_replicas (oc_scale oc) (an_queue a) (current_replicas old) now in
      case pod_template_of sha t (oc_env oc) (oc_grace oc) a img of
        Inl e \<Rightarrow> Inl e
      | Inr template \<Rightarrow>
          Inr (\<lparr>dp_labels = pod_labels a, dp_selector = kept_selector a old, dp_replicas = Some (sd_replicas scale),
                dp_template = template, dp_ready = (case old of None \<Rightarrow> 0 | Some d \<Rightarrow> dp_ready d)\<rparr>, scale))"

definition reconcile_deployment ::
  "(string \<Rightarrow> string) \<Rightarrow> pass_env \<Rightarrow> operator_config \<Rightarrow> agent_res \<Rightarrow> agent_image \<Rightarrow>
   (deployment \<times> scale_decision \<times> (string \<times> string) list) pass" where
  "reconcile_deployment sha v oc a img =
     (case re_deployment v of
        Inl e \<Rightarrow> act_fail e
      | Inr old \<Rightarrow>
          act_then (own_object v AgentDeployment)
            (\<lambda>_. case mutate_deployment sha (re_template v) oc (re_now v) a img old of
                   Inl e \<Rightarrow> act_fail e
                 | Inr (d, scale) \<Rightarrow>
                     act_then (put_object v AgentDeployment (PutDeployment (resource_name a) d))
                       (\<lambda>_. act_return (d, scale, missing_token_env (oc_env oc) a img))))"

definition metrics_selector :: "agent_res \<Rightarrow> (string \<times> string) list" where
  "metrics_selector a =
     [(''app.kubernetes.io/name'', resource_name a), (''app.kubernetes.io/managed-by'', ''agent-operator''), (''ainsel.dev/agent'', an_name a)]"

definition reconcile_service :: "pass_env \<Rightarrow> agent_res \<Rightarrow> unit pass" where
  "reconcile_service v a =
     act_then (own_object v MetricsService)
       (\<lambda>_. put_object v MetricsService (PutService (resource_name a @ ''-metrics'') (metrics_selector a)))"

text \<open>Without the kind of the monitor in the cluster the registration is skipped.\<close>

definition reconcile_monitor :: "pass_env \<Rightarrow> agent_res \<Rightarrow> unit pass" where
  "reconcile_monitor v a =
     (case re_monitor v of
        MonitorStored \<Rightarrow> (Inr (), [PutMonitor (resource_name a @ ''-metrics'') (metrics_selector a)])
      | NoMonitorKind \<Rightarrow> act_return ()
      | MonitorFailed e \<Rightarrow> act_fail (''reconcile ServiceMonitor: '' @ e))"

section \<open>Status\<close>

definition status_of :: "agent_res \<Rightarrow> status_patch" where
  "status_of a =
     \<lparr>pa_replicas = an_replicas a, pa_conditions = an_conditions a, pa_generation = an_observed_generation a, pa_scaling = an_scaling a\<rparr>"

definition patch_status :: "pass_env \<Rightarrow> agent_res \<Rightarrow> unit pass" where
  "patch_status v a = put_object v StatusOfAgent (PatchStatus (status_of a))"

text \<open>What the API server does with the patch: the named fields only, the scaling status when it is named.\<close>

definition apply_status :: "status_patch \<Rightarrow> agent_res \<Rightarrow> agent_res" where
  "apply_status p a =
     a\<lparr>an_replicas := pa_replicas p, an_conditions := pa_conditions p, an_observed_generation := pa_generation p,
       an_scaling := (case pa_scaling p of None \<Rightarrow> an_scaling a | Some s \<Rightarrow> Some s)\<rparr>"

fun reason_text :: "scale_reason \<Rightarrow> string" where
  "reason_text ReasonStatic = ''Static''"
| "reason_text ReasonQueued = ''QueueDepth''"
| "reason_text ReasonDormant = ''Dormant''"
| "reason_text ReasonIdleGrace = ''IdleGrace''"
| "reason_text ReasonQueueStale = ''QueueSignalStale''"
| "reason_text ReasonScaledDown = ''ScaledToZero''"
| "reason_text ReasonDisabled = ''Disabled''"

definition scaling_status_of :: "scale_decision \<Rightarrow> scaling_status" where
  "scaling_status_of s =
     \<lparr>st_mode = (if sd_reason s \<noteq> ReasonStatic then ''queue'' else ''static''), st_desired = sd_replicas s,
      st_reason = sd_reason s, st_message = sd_message s\<rparr>"

definition ready_message :: "deployment \<Rightarrow> scale_decision \<Rightarrow> string" where
  "ready_message d s = ''Deployment has '' @ decimal (dp_ready d) @ ''/'' @ decimal (sd_replicas s) @ '' ready replicas''"

definition deployment_condition :: "condition_lib \<Rightarrow> instant \<Rightarrow> deployment \<Rightarrow> scale_decision \<Rightarrow> agent_res \<Rightarrow> agent_res" where
  "deployment_condition L now d s a =
     (if sd_replicas s = 0
      then set_condition L now cond_deployment True (reason_text (sd_reason s)) (''No replicas wanted ('' @ sd_message s @ '')'') a
      else if sd_replicas s \<le> dp_ready d
      then set_condition L now cond_deployment True ''MinimumReplicasAvailable'' (ready_message d s) a
      else set_condition L now cond_deployment False ''ReplicasNotReady'' (ready_message d s) a)"

definition sub_conditions :: "string list" where
  "sub_conditions = [cond_deployment, cond_mcp, cond_persona, cond_env_secret]"

definition ready_condition :: "condition_lib \<Rightarrow> instant \<Rightarrow> agent_res \<Rightarrow> agent_res" where
  "ready_condition L now a =
     (let waiting = filter (\<lambda>t. \<not> holds_in L a t) sub_conditions in
      if waiting = [] then set_condition L now cond_ready True ''AllReady'' ''All resources reconciled successfully'' a
      else set_condition L now cond_ready False ''SubConditionsNotReady'' (''Waiting on: '' @ join_with '', '' waiting) a)"

definition update_status :: "condition_lib \<Rightarrow> pass_env \<Rightarrow> deployment \<Rightarrow> scale_decision \<Rightarrow> agent_res \<Rightarrow> unit pass" where
  "update_status L v d s a =
     (let a1 = deployment_condition L (re_now v) d s (a\<lparr>an_scaling := Some (scaling_status_of s)\<rparr>);
          a2 = ready_condition L (re_now v) (a1\<lparr>an_replicas := dp_ready d\<rparr>)
      in patch_status v (a2\<lparr>an_observed_generation := an_generation a2\<rparr>))"

section \<open>The pass\<close>

definition image_missing_requeue :: duration where "image_missing_requeue = 30 * second_ns"
definition periodic_requeue :: duration where "periodic_requeue = 5 * 60 * second_ns"

definition requeue_after :: "scale_decision \<Rightarrow> duration" where
  "requeue_after s = (if 0 < sd_requeue s \<and> sd_requeue s < periodic_requeue then sd_requeue s else periodic_requeue)"

definition image_missing :: "condition_lib \<Rightarrow> pass_env \<Rightarrow> agent_res \<Rightarrow> duration option pass" where
  "image_missing L v a =
     act_then (patch_status v (set_condition L (re_now v) cond_ready False ''ImageNotFound''
                 (''AgentImage '' @ quoted (an_image a) @ '' not found in namespace '' @ quoted (an_namespace a)) a))
       (\<lambda>_. act_return (Some image_missing_requeue))"

text \<open>All after the deployment: conditions, the objects of the metrics, the status.\<close>

definition report_pass ::
  "condition_lib \<Rightarrow> pass_env \<Rightarrow> deployment \<Rightarrow> scale_decision \<Rightarrow> (string \<times> string) list \<Rightarrow> agent_res \<Rightarrow> duration option pass" where
  "report_pass L v d scale missing a =
     act_then (mcp_token_condition L v missing a) (\<lambda>a1.
     act_then (persona_condition L v (mcp_discovery_condition L (re_now v) missing a1)) (\<lambda>a2.
     act_then (reconcile_service v a2) (\<lambda>_.
     act_then (reconcile_monitor v a2) (\<lambda>_.
     act_then (update_status L v d scale a2) (\<lambda>_.
     act_return (Some (requeue_after scale)))))))"

definition reconcile_with_image ::
  "(string \<Rightarrow> string) \<Rightarrow> condition_lib \<Rightarrow> operator_config \<Rightarrow> pass_env \<Rightarrow> create_answer \<Rightarrow> agent_res \<Rightarrow> agent_image \<Rightarrow>
   duration option pass" where
  "reconcile_with_image sha L oc v created a img =
     act_then (with_prefix ''reconciling Pi models ConfigMap: '' (reconcile_models v created a)) (\<lambda>_.
     act_then (with_prefix ''reconciling image env secret: '' (reconcile_env_secret v (oc_env oc) a img)) (\<lambda>_.
     let a1 = set_condition L (re_now v) cond_env_secret True ''Reconciled'' ''Image env secret is up to date'' a in
     act_then (reconcile_deployment sha v oc a1 img) (\<lambda>(d, scale, missing). report_pass L v d scale missing a1)))"

definition reconcile ::
  "(string \<Rightarrow> string) \<Rightarrow> condition_lib \<Rightarrow> operator_config \<Rightarrow> pass_env \<Rightarrow> create_answer \<Rightarrow> duration option pass" where
  "reconcile sha L oc v created =
     (case re_agent v of
        Missing \<Rightarrow> act_return None
      | LookupFailed e \<Rightarrow> act_fail e
      | Found a \<Rightarrow>
          if an_deleting a then act_return None
          else (case re_image v (an_image a) of
                  Missing \<Rightarrow> image_missing L v a
                | LookupFailed e \<Rightarrow> act_fail e
                | Found img \<Rightarrow>
                    if an_persona a = [] then act_fail (''agent '' @ an_name a @ '': spec.persona.id is required'')
                    else reconcile_with_image sha L oc v created a img))"

section \<open>Watches\<close>

definition explicit_ref :: "key_ref option option \<Rightarrow> string \<Rightarrow> bool" where
  "explicit_ref cfg name = (case cfg of Some (Some r) \<Rightarrow> kr_name r = name | _ \<Rightarrow> False)"

definition references_secret :: "agent_res \<Rightarrow> string \<Rightarrow> bool" where
  "references_secret a name \<longleftrightarrow>
     explicit_ref (an_ollama a) name \<or> explicit_ref (an_opencode a) name \<or> explicit_ref (an_alibaba a) name \<or>
     explicit_ref (map_option snd (an_custom a)) name \<or> image_env_secret a = name"

text \<open>The agents to look at after a change of a secret, a ConfigMap or an image; a list that cannot be read is \<^const>\<open>None\<close>.\<close>

definition agents_of_secret :: "agent_res list option \<Rightarrow> string \<Rightarrow> string list" where
  "agents_of_secret listed name =
     (case listed of None \<Rightarrow> [] | Some as \<Rightarrow> map an_name (filter (\<lambda>a. references_secret a name) as))"

definition agents_of_config_map :: "agent_res list option \<Rightarrow> agent_image list option \<Rightarrow> string \<Rightarrow> string list" where
  "agents_of_config_map listed images name =
     (if has_prefix name ''persona-'' then
        (case listed of None \<Rightarrow> [] | Some as \<Rightarrow> map an_name (filter (\<lambda>a. persona_config_map (an_persona a) = name) as))
      else if name = skills_config_map then
        (case (images, listed) of
           (Some imgs, Some as) \<Rightarrow>
             (let with_skills = map im_name (filter (\<lambda>i. im_skills i \<noteq> []) imgs)
              in map an_name (filter (\<lambda>a. an_skills a \<noteq> None \<or> an_image a \<in> set with_skills) as))
         | _ \<Rightarrow> [])
      else [])"

definition agents_of_image :: "agent_res list option \<Rightarrow> string \<Rightarrow> string list" where
  "agents_of_image listed name =
     (case listed of None \<Rightarrow> [] | Some as \<Rightarrow> map an_name (filter (\<lambda>a. an_image a = name) as))"

end
