(* ===== verification/Stores.thy ===== *)
theory Stores
  imports Prelude
begin

text \<open>
  What the PostgreSQL stores of the hub have in common: their error values, and the
  contract of a table of records addressed by id (create, fetch, remove), stated once
  as a locale and interpreted on every store that offers it.
\<close>

text \<open>
  The sentinel errors of the stores. \<open>StatementError op\<close> is the wrapped failure of a
  statement sent by \<open>op\<close>.
\<close>

datatype store_error = NotFound | AlreadyExists | Invalid string | StatementError string

text \<open>A Go \<open>(value, error)\<close> result and the state the call leaves behind.\<close>

type_synonym ('a, 's) outcome = "(store_error + 'a) \<times> 's"

locale keyed_store =
  fixes create :: "'r \<Rightarrow> 's \<Rightarrow> ('r, 's) outcome"
    and fetch :: "string \<Rightarrow> 's \<Rightarrow> store_error + 'r"
    and remove :: "string \<Rightarrow> 's \<Rightarrow> (unit, 's) outcome"
    and key :: "'r \<Rightarrow> string"
    and stamp :: "'r \<Rightarrow> 'r"
    and reply :: "'r \<Rightarrow> 'r"
    and tbl :: "'s \<Rightarrow> string \<Rightarrow> 'r option"
  assumes create_fresh: "tbl s (key r) = None \<Longrightarrow>
      fst (create r s) = Inr (reply r) \<and> tbl (snd (create r s)) = (tbl s)(key r \<mapsto> stamp r)"
    and create_taken: "tbl s (key r) \<noteq> None \<Longrightarrow> create r s = (Inl AlreadyExists, s)"
    and fetch_tbl: "fetch i s = (case tbl s i of None \<Rightarrow> Inl NotFound | Some r \<Rightarrow> Inr r)"
    and remove_present: "tbl s i \<noteq> None \<Longrightarrow>
      fst (remove i s) = Inr () \<and> tbl (snd (remove i s)) = (tbl s)(i := None)"
    and remove_missing: "tbl s i = None \<Longrightarrow> remove i s = (Inl NotFound, s)"
    and key_stamp: "key (stamp r) = key r"
begin

lemma fetch_created:
  "tbl s (key r) = None \<Longrightarrow> fetch (key r) (snd (create r s)) = Inr (stamp r)"
  by (simp add: fetch_tbl create_fresh)

lemma fetch_other_created:
  "i \<noteq> key r \<Longrightarrow> fetch i (snd (create r s)) = fetch i s"
  by (cases "tbl s (key r)") (simp_all add: fetch_tbl create_fresh create_taken)

lemma create_again:
  "create r' (snd (create r s)) = (Inl AlreadyExists, snd (create r s))" if "key r' = key r"
proof (cases "tbl s (key r)")
  case None
  then show ?thesis using that by (intro create_taken) (simp add: create_fresh)
next
  case (Some x)
  then have "snd (create r s) = s" by (simp add: create_taken)
  with Some that show ?thesis by (simp add: create_taken)
qed

lemma removed_gone: "fetch i (snd (remove i s)) = Inl NotFound"
  by (cases "tbl s i") (simp_all add: fetch_tbl remove_present remove_missing)

lemma remove_other: "i \<noteq> j \<Longrightarrow> fetch i (snd (remove j s)) = fetch i s"
  by (cases "tbl s j") (simp_all add: fetch_tbl remove_present remove_missing)

lemma remove_twice: "fst (remove i (snd (remove i s))) = Inl NotFound"
  by (cases "tbl s i") (simp_all add: remove_present remove_missing)

lemma create_remove:
  assumes "tbl s (key r) = None"
  shows "tbl (snd (remove (key r) (snd (create r s)))) = tbl s"
  using assms create_fresh [OF assms] remove_present [of "snd (create r s)" "key r"]
  by (simp add: fun_upd_idem)

text \<open>The life of one record, in one statement.\<close>

lemma record_life_cycle:
  assumes "tbl s (key r) = None" and "key r' = key r"
  shows "fetch (key r) s = Inl NotFound \<and>
    fst (create r s) = Inr (reply r) \<and>
    fetch (key r) (snd (create r s)) = Inr (stamp r) \<and>
    fst (create r' (snd (create r s))) = Inl AlreadyExists \<and>
    fst (remove (key r) (snd (create r s))) = Inr () \<and>
    fetch (key r) (snd (remove (key r) (snd (create r s)))) = Inl NotFound \<and>
    fst (remove (key r) (snd (remove (key r) (snd (create r s))))) = Inl NotFound \<and>
    (\<forall>i. i \<noteq> key r \<longrightarrow> fetch i (snd (create r s)) = fetch i s \<and>
         fetch i (snd (remove (key r) (snd (create r s)))) = fetch i s)"
proof -
  have "fst (remove (key r) (snd (create r s))) = Inr ()"
    using create_fresh [OF assms(1)] remove_present [of "snd (create r s)" "key r"] by simp
  then show ?thesis
    using assms create_fresh [OF assms(1)] fetch_created [OF assms(1)] create_again [OF assms(2)]
      removed_gone remove_twice remove_other fetch_other_created
    by (simp add: fetch_tbl)
qed

end

end
