(* ===== verification/ImageDigest.thy ===== *)
theory ImageDigest
  imports GoText Scaling Stores
begin

text \<open>
  The digest behind the image of an agent (\<^verbatim>\<open>operators/agent/internal/controller/imagedigest.go\<close>): reading an
  image reference, the pull token of Docker Hub with its cache, and the request to the registry. What
  the servers answer is a parameter.
\<close>

section \<open>Image references\<close>

definition docker_hub_registry :: string where "docker_hub_registry = ''registry-1.docker.io''"

text \<open>The digest of a pinned reference: all after the first at sign.\<close>

definition split_digest :: "string \<Rightarrow> (string \<times> string) option" where
  "split_digest ref = cut_at (CHR ''@'') ref"

definition is_docker_hub :: "string \<Rightarrow> bool" where
  "is_docker_hub registry \<longleftrightarrow> registry = docker_hub_registry \<or> contains_str registry ''docker.io''"

text \<open>The tag: after the last colon, unless a slash follows it, which makes it the port of a registry.\<close>

definition split_tag :: "string \<Rightarrow> string \<times> string" where
  "split_tag ref =
     (case cut_last (CHR '':'') ref of
        Some (before, after) \<Rightarrow> if before \<noteq> [] \<and> CHR ''/'' \<notin> set after then (before, after) else (ref, ''latest'')
      | None \<Rightarrow> (ref, ''latest''))"

definition names_registry :: "string \<Rightarrow> bool" where
  "names_registry host \<longleftrightarrow> CHR ''.'' \<in> set host \<or> CHR '':'' \<in> set host \<or> host = ''localhost''"

definition parse_image_ref :: "string \<Rightarrow> string \<times> string \<times> string" where
  "parse_image_ref ref0 =
     (case split_tag ref0 of
        (ref, tag) \<Rightarrow>
          (case (case cut_at (CHR ''/'') ref of
                   Some (host, rest) \<Rightarrow> if names_registry host then (host, rest) else (docker_hub_registry, ref)
                 | None \<Rightarrow> (docker_hub_registry, ref)) of
             (registry, repository) \<Rightarrow>
               (registry,
                if registry = docker_hub_registry \<and> CHR ''/'' \<notin> set repository then ''library/'' @ repository else repository,
                tag)))"

section \<open>The pull token\<close>

type_synonym token_cache = "(string \<times> string \<times> instant) list"

text \<open>The answer of the token endpoint: no answer, a status other than 200, or a body with a token and its lifetime.\<close>

datatype auth_answer = AuthUnreachable string | AuthStatus int | AuthBody "string + string \<times> int"

datatype head_answer = BadRequest string | Unreachable string | Answered int string

text \<open>
  The surroundings of one resolution: the answers to both kinds of request, and the instants at which the cache is
  looked up and filled.
\<close>

record registry_env =
  rg_auth :: "string \<Rightarrow> auth_answer"
  rg_head :: "string \<Rightarrow> string option \<Rightarrow> head_answer"
  rg_lookup :: instant
  rg_store :: instant

definition token_safety_margin :: duration where "token_safety_margin = 10 * second_ns"

text \<open>How long a token is kept.\<close>

definition token_lifetime :: "int \<Rightarrow> duration" where
  "token_lifetime expires_in =
     (let ttl = wrap64 (expires_in * second_ns)
      in (if ttl \<le> token_safety_margin then 60 * second_ns else ttl) - token_safety_margin)"

definition cached_token :: "instant \<Rightarrow> string \<Rightarrow> token_cache \<Rightarrow> string option" where
  "cached_token now repository c =
     (case map_of c repository of Some (t, expiry) \<Rightarrow> if now < expiry then Some t else None | None \<Rightarrow> None)"

definition docker_hub_token :: "registry_env \<Rightarrow> string \<Rightarrow> token_cache \<Rightarrow> (string + string) \<times> token_cache" where
  "docker_hub_token v repository c =
     (case cached_token (rg_lookup v) repository c of
        Some t \<Rightarrow> (Inr t, c)
      | None \<Rightarrow>
          (case rg_auth v (''https://auth.docker.io/token?service=registry.docker.io&scope=repository:'' @ repository @ '':pull'') of
             AuthUnreachable e \<Rightarrow> (Inl e, c)
           | AuthStatus n \<Rightarrow> (Inl (''auth returned '' @ decimal n), c)
           | AuthBody (Inl e) \<Rightarrow> (Inl (''decoding auth response: '' @ e), c)
           | AuthBody (Inr (t, expires_in)) \<Rightarrow>
               if t = [] then (Inl ''empty token in auth response'', c)
               else (Inr t, aput repository (t, rg_store v + token_lifetime expires_in) c)))"

section \<open>The digest\<close>

definition manifest_url :: "string \<Rightarrow> string \<Rightarrow> string \<Rightarrow> string \<Rightarrow> string" where
  "manifest_url scheme registry repository tag = scheme @ ''://'' @ registry @ ''/v2/'' @ repository @ ''/manifests/'' @ tag"

text \<open>The schemes in turn: only a failed connection goes on to the next.\<close>

fun try_schemes :: "(string \<Rightarrow> head_answer) \<Rightarrow> string \<Rightarrow> string \<Rightarrow> string list \<Rightarrow> string + string" where
  "try_schemes ask ref err [] = Inl err"
| "try_schemes ask ref err (s # ss) =
     (case ask s of
        BadRequest e \<Rightarrow> Inl (''creating manifest request: '' @ e)
      | Unreachable e \<Rightarrow> try_schemes ask ref (''fetching manifest for '' @ ref @ '': '' @ e) ss
      | Answered n digest \<Rightarrow>
          if n \<noteq> 200 then Inl (''registry returned '' @ decimal n @ '' for '' @ ref)
          else if digest = [] then Inl (''no Docker-Content-Digest header for '' @ ref)
          else Inr digest)"

definition resolve_image_digest :: "registry_env \<Rightarrow> string \<Rightarrow> token_cache \<Rightarrow> (string + string) \<times> token_cache" where
  "resolve_image_digest v ref c =
     (case split_digest ref of
        Some (_, digest) \<Rightarrow> (Inr digest, c)
      | None \<Rightarrow>
          (case parse_image_ref ref of
             (registry, repository, tag) \<Rightarrow>
               (case (if registry = docker_hub_registry
                      then (case docker_hub_token v repository c of (r, c') \<Rightarrow> (map_sum id Some r, c'))
                      else (Inr None, c)) of
                  (Inl e, c') \<Rightarrow> (Inl (''docker hub auth for '' @ repository @ '': '' @ e), c')
                | (Inr t, c') \<Rightarrow>
                    (try_schemes (\<lambda>s. rg_head v (manifest_url s registry repository tag) t) ref []
                       (if is_docker_hub registry then [''https''] else [''https'', ''http'']), c'))))"

section \<open>Reading references back\<close>

lemma cut_at_append: "d \<notin> set a \<Longrightarrow> cut_at d (a @ d # b) = Some (a, b)"
  by (induction a) auto

lemma cut_at_none: "d \<notin> set a \<Longrightarrow> cut_at d a = None"
  by (induction a) auto

lemma cut_at_some: "cut_at d s = Some (a, b) \<Longrightarrow> s = a @ d # b \<and> d \<notin> set a"
  by (induction s arbitrary: a) (auto split: if_splits)

lemma cut_last_append: "d \<notin> set b \<Longrightarrow> cut_last d (a @ d # b) = Some (a, b)"
  by (simp add: cut_last_def cut_at_append)

lemma cut_last_some: "cut_last d s = Some (a, b) \<Longrightarrow> s = a @ d # b \<and> d \<notin> set b"
proof -
  assume "cut_last d s = Some (a, b)"
  then have "cut_at d (rev s) = Some (rev b, rev a)" by (auto simp: cut_last_def)
  from cut_at_some [OF this] have "rev (rev s) = rev (rev b @ d # rev a)" "d \<notin> set (rev b)" by simp_all
  then show ?thesis by simp
qed

lemma cut_last_none: "d \<notin> set s \<Longrightarrow> cut_last d s = None"
  by (simp add: cut_last_def cut_at_none)

text \<open>
  Image references are read back: a registry, a repository and a tag written the usual way are found
  again, whatever port the registry has, and without a tag the reference means the tag \<open>latest\<close>. The registry has to be recognizable by a dot or a port
  or be \<open>localhost\<close>, and a repository of Docker Hub needs its namespace. A plain name means Docker Hub and its library.
\<close>

theorem image_ref_round_trip:
  assumes "names_registry host" "CHR ''/'' \<notin> set host"
    and "CHR '':'' \<notin> set repo" "host = docker_hub_registry \<Longrightarrow> CHR ''/'' \<in> set repo"
    and "CHR ''/'' \<notin> set tag" "CHR '':'' \<notin> set tag"
    and "repo \<noteq> []"
    and "name \<noteq> []" "CHR ''/'' \<notin> set name" "CHR '':'' \<notin> set name"
  shows "parse_image_ref (host @ ''/'' @ repo @ '':'' @ tag) = (host, repo, tag) \<and>
    parse_image_ref (host @ ''/'' @ repo) = (host, repo, ''latest'') \<and>
    parse_image_ref (name @ '':'' @ tag) = (docker_hub_registry, ''library/'' @ name, tag)"
proof (intro conjI)
  have "split_tag (host @ ''/'' @ repo @ '':'' @ tag) = (host @ ''/'' @ repo, tag)"
    using cut_last_append [of "CHR '':''" tag "host @ ''/'' @ repo"] assms by (simp add: split_tag_def)
  then show "parse_image_ref (host @ ''/'' @ repo @ '':'' @ tag) = (host, repo, tag)"
    using cut_at_append [of "CHR ''/''" host repo] assms by (auto simp: parse_image_ref_def)
  have "split_tag (host @ ''/'' @ repo) = (host @ ''/'' @ repo, ''latest'')"
  proof (cases "cut_last (CHR '':'') (host @ ''/'' @ repo)")
    case None
    then show ?thesis by (simp add: split_tag_def)
  next
    case (Some p)
    then obtain a b where p: "p = (a, b)" by (cases p)
    with Some cut_last_some have *: "host @ ''/'' @ repo = a @ CHR '':'' # b" by blast
    have "CHR ''/'' \<in> set b"
    proof -
      from * consider us where "host = a @ us" "us @ ''/'' @ repo = CHR '':'' # b"
        | us where "CHR ''/'' # repo = us @ CHR '':'' # b"
        by (auto simp: append_eq_append_conv2)
      then show ?thesis
      proof cases
        case 1
        then show ?thesis by (cases us) auto
      next
        case 2
        then have "CHR '':'' \<in> set (CHR ''/'' # repo)" by simp
        with assms(3) show ?thesis by simp
      qed
    qed
    with Some p show ?thesis by (simp add: split_tag_def)
  qed
  then show "parse_image_ref (host @ ''/'' @ repo) = (host, repo, ''latest'')"
    using cut_at_append [of "CHR ''/''" host repo] assms by (auto simp: parse_image_ref_def)
  have "split_tag (name @ '':'' @ tag) = (name, tag)"
    using cut_last_append [of "CHR '':''" tag name] assms by (simp add: split_tag_def)
  then show "parse_image_ref (name @ '':'' @ tag) = (docker_hub_registry, ''library/'' @ name, tag)"
    using assms by (simp add: parse_image_ref_def cut_at_none)
qed


theorem image_ref_round_trip_witness:
  "parse_image_ref (''zot.platform.svc:5000'' @ ''/'' @ ''ainsel/pi'' @ '':'' @ ''main'') = (''zot.platform.svc:5000'', ''ainsel/pi'', ''main'') \<and>
   parse_image_ref (''zot.platform.svc:5000'' @ ''/'' @ ''ainsel/pi'') = (''zot.platform.svc:5000'', ''ainsel/pi'', ''latest'') \<and>
   parse_image_ref (''nginx'' @ '':'' @ ''main'') = (docker_hub_registry, ''library/'' @ ''nginx'', ''main'')"
  by (rule image_ref_round_trip) (simp_all add: names_registry_def docker_hub_registry_def)

section \<open>The pull token\<close>

text \<open>
  A token that lives longer than the margin is never presented in its last ten seconds; one that lives ten
  seconds or less is taken to live a minute.
\<close>

lemma token_lifetime_exact:
  assumes "goint (expires_in * second_ns)"
  shows "token_lifetime expires_in =
    (if 10 < expires_in then (expires_in - 10) * second_ns else 50 * second_ns)"
  using assms by (simp add: token_lifetime_def token_safety_margin_def second_ns_def)

text \<open>
  A short-lived token of Docker Hub outlives itself: the token endpoint states a lifetime between one and ten
  seconds, and the operator keeps presenting the token for fifty seconds, although the margin exists
  so that a token about to expire is never presented.
\<close>

lemma short_token_outlives_itself:
  assumes "0 < expires_in" "expires_in \<le> 10" "cached_token (rg_lookup v) repository c = None"
    and "rg_auth v (''https://auth.docker.io/token?service=registry.docker.io&scope=repository:'' @ repository @ '':pull'') =
      AuthBody (Inr (t, expires_in))" "t \<noteq> []"
    and "docker_hub_token v repository c = (r, c')"
    and "rg_store v + expires_in * second_ns \<le> now" "now < rg_store v + 50 * second_ns"
  shows "r = Inr t \<and> cached_token now repository c' = Some t"
proof -
  have "goint (expires_in * second_ns)" using assms(1,2) by (simp add: goint_def second_ns_def)
  then show ?thesis
    using assms by (auto simp: docker_hub_token_def cached_token_def token_lifetime_exact)
qed

text \<open>
  A reference that names Docker Hub as docker.io is asked there without a token and without the fallback, not at the registry
  that serves Docker Hub.
\<close>

lemma docker_io_without_token:
  assumes "CHR ''@'' \<notin> set repo" "CHR '':'' \<notin> set repo"
  shows "resolve_image_digest v (''docker.io/'' @ repo) c =
    (try_schemes (\<lambda>s. rg_head v (s @ ''://docker.io/v2/'' @ repo @ ''/manifests/latest'') None) (''docker.io/'' @ repo) [] [''https''], c)"
proof -
  have "cut_last (CHR '':'') (''docker.io/'' @ repo) = None"
    using assms(2) by (intro cut_last_none) simp
  moreover have "cut_at (CHR ''@'') (''docker.io/'' @ repo) = None" using assms(1) by (simp add: cut_at_none)
  ultimately show ?thesis
    by (simp add: resolve_image_digest_def split_digest_def parse_image_ref_def split_tag_def names_registry_def
        docker_hub_registry_def is_docker_hub_def has_prefix_def manifest_url_def)
qed

end
