(* ===== verification/AgentRules.thy ===== *)
theory AgentRules
  imports AgentOperator ImageDigest
begin

text \<open>
  What the agent operator guarantees: the effective environment and who decides a name in it, which
  references of a pod resolve, when a pod is restarted, the selector of its deployment, the Ready
  condition, and that the watches see every change a pod depends on.
\<close>

section \<open>The effective environment\<close>

abbreviation env_names :: "env_var list \<Rightarrow> string set" where
  "env_names vs \<equiv> ev_name ` set vs"

lemma override_of_None: "override_of vs n = None \<longleftrightarrow> n \<notin> env_names vs"
  by (auto simp: override_of_def find_None_iff)

lemma override_of_Some: "override_of vs n = Some v \<Longrightarrow> ev_name v = n \<and> v \<in> set vs"
  unfolding override_of_def find_Some_iff by (metis length_rev nth_mem set_rev)

lemma override_keeps_name: "ev_name (case override_of vs (ev_name v) of Some w \<Rightarrow> w | None \<Rightarrow> v) = ev_name v"
  by (cases "override_of vs (ev_name v)") (auto dest: override_of_Some)

lemma override_of_snoc: "override_of (vs @ [v]) n = (if ev_name v = n then Some v else override_of vs n)"
  by (simp add: override_of_def)

lemma override_of_append:
  "override_of (us @ vs) n = (case override_of vs n of Some v \<Rightarrow> Some v | None \<Rightarrow> override_of us n)"
proof (induction vs rule: rev_induct)
  case (snoc v vs)
  then show ?case using override_of_snoc [of "us @ vs" v n] by (simp add: override_of_snoc)
qed (simp add: override_of_def)

lemma name_order_set: "set (name_order seen vs) = env_names vs - set seen"
  by (induction vs arbitrary: seen) auto

lemma name_order_distinct: "distinct (name_order seen vs)"
  by (induction vs arbitrary: seen) (auto simp: name_order_set)

text \<open>What a list of variables says of a name when its last entry counts.\<close>

lemma effective_env_nonempty:
  assumes "an_env a \<noteq> []"
  shows "override_of (effective_env a img) n =
    (case override_of (an_env a) n of Some v \<Rightarrow> Some v | None \<Rightarrow> override_of (im_env img) n)"
proof -
  let ?ov = "override_of (an_env a)"
  let ?f = "\<lambda>v. case ?ov (ev_name v) of Some w \<Rightarrow> w | None \<Rightarrow> v"
  have name: "ev_name (?f v) = ev_name v" for v
    by (rule override_keeps_name)
  have part: "override_of (map ?f vs) n = map_option ?f (override_of vs n)" for vs
  proof (induction vs rule: rev_induct)
    case (snoc v vs)
    then show ?case by (simp add: override_of_snoc name)
  qed (simp add: override_of_def)
  have value': "?f v = (case ?ov n of Some w \<Rightarrow> w | None \<Rightarrow> v)" if "override_of vs n = Some v" for vs v
    using override_of_Some [OF that] by simp
  have new: "override_of (map (\<lambda>n. the (?ov n)) ns) n = (if n \<in> set ns then ?ov n else None)"
    if "set ns \<subseteq> env_names (an_env a)" for ns
    using that
  proof (induction ns rule: rev_induct)
    case (snoc m ns)
    then obtain v where v: "?ov m = Some v" using override_of_None [of "an_env a" m] by fastforce
    from override_of_Some [OF v] snoc v show ?case by (auto simp: override_of_snoc)
  qed (simp add: override_of_def)
  show ?thesis
    using assms value' [of "im_env img"] override_of_None [of "im_env img" n] override_of_None [of "an_env a" n]
    by (cases "override_of (im_env img) n"; cases "?ov n")
      (simp_all add: effective_env_def override_of_append part new name_order_set subset_eq)
qed

lemma effective_env_override:
  "override_of (effective_env a img) n =
    (case override_of (an_env a) n of Some v \<Rightarrow> Some v | None \<Rightarrow> override_of (im_env img) n)"
proof (cases "an_env a = []")
  case True
  then show ?thesis by (simp add: effective_env_def override_of_def)
qed (rule effective_env_nonempty)

lemma effective_env_names: "env_names (effective_env a img) = env_names (an_env a) \<union> env_names (im_env img)"
proof -
  have "n \<in> env_names (effective_env a img) \<longleftrightarrow> n \<in> env_names (an_env a) \<union> env_names (im_env img)" for n
    using override_of_None [of "effective_env a img" n] override_of_None [of "an_env a" n] override_of_None [of "im_env img" n]
    by (auto simp: effective_env_override split: option.splits)
  then show ?thesis by blast
qed

lemma fold_aput_map:
  "map_of (fold (\<lambda>v. aput (ev_name v) (g v)) vs acc) n =
    (case override_of vs n of Some v \<Rightarrow> Some (g v) | None \<Rightarrow> map_of acc n)"
  by (induction vs rule: rev_induct) (auto simp: override_of_snoc, simp add: override_of_def)

lemma image_env_data_get:
  "map_of (image_env_data oe a img) n =
    map_option (\<lambda>v. case map_of (platform_managed_env oe) n of Some p \<Rightarrow> p | None \<Rightarrow> ev_value v)
      (override_of (effective_env a img) n)"
  by (auto simp: image_env_data_def fold_aput_map split: option.split dest!: override_of_Some)

text \<open>When the image declares no name twice, neither does the pod; the names of the image come first, in its order.\<close>

lemma effective_env_order:
  assumes d: "distinct (map ev_name (im_env img))" and ne: "an_env a \<noteq> []"
  shows "distinct (map ev_name (effective_env a img)) \<and>
    map ev_name (take (length (im_env img)) (effective_env a img)) = map ev_name (im_env img)"
proof
  let ?f = "\<lambda>v. case override_of (an_env a) (ev_name v) of Some w \<Rightarrow> w | None \<Rightarrow> v"
  have name: "ev_name (?f v) = ev_name v" for v
    by (rule override_keeps_name)
  have old: "map (ev_name \<circ> ?f) vs = map ev_name vs" for vs by (simp add: name)
  have "ev_name (the (override_of (an_env a) m)) = m" if "m \<in> env_names (an_env a)" for m
    using that override_of_None [of "an_env a" m] by (cases "override_of (an_env a) m") (auto dest: override_of_Some)
  then have new: "map (ev_name \<circ> (\<lambda>n. the (override_of (an_env a) n))) ns = ns" if "set ns \<subseteq> env_names (an_env a)" for ns
    using that by (induction ns) auto
  let ?ns = "filter (\<lambda>n. n \<notin> set (map ev_name (im_env img))) (name_order [] (an_env a))"
  have "map ev_name (effective_env a img) = map ev_name (im_env img) @ ?ns"
    using ne old [of "im_env img"] new [of ?ns] by (simp add: effective_env_def name_order_set subset_eq)
  then show "distinct (map ev_name (effective_env a img))"
    using d by (auto simp: distinct_filter name_order_distinct)
  show "map ev_name (take (length (im_env img)) (effective_env a img)) = map ev_name (im_env img)"
    using ne old [of "im_env img"] by (simp add: effective_env_def)
qed

text \<open>
  The variables of a pod's runtime profile are the defaults of its image with the overrides of the
  agent merged in by name: the secret they are stored in has exactly the names of the two lists; the value of a name is
  the platform's if the platform owns it, else the agent's last one if it has one, else the image's last one.
\<close>

theorem profile_env_exact:
  "map_of (image_env_data oe a img) n =
     (if n \<notin> env_names (an_env a) \<union> env_names (im_env img) then None
      else if n = token_name \<and> oe_token oe \<noteq> [] then Some (oe_token oe)
      else if n \<in> env_names (an_env a) then map_option ev_value (override_of (an_env a) n)
      else map_option ev_value (override_of (im_env img) n))"
  using override_of_None [of "an_env a" n] override_of_None [of "im_env img" n]
  by (cases "override_of (an_env a) n"; cases "override_of (im_env img) n")
    (simp_all add: image_env_data_get effective_env_override platform_managed_env_def)

section \<open>The internal token\<close>

lemma image_env_names:
  "ee_name ` set (image_env oe a img) = env_names (effective_env a img) - fst ` set (platform_managed_env oe)"
  by (force simp: image_env_def map_of_eq_None_iff)

lemma image_env_sources:
  "e \<in> set (image_env oe a img) \<Longrightarrow> ee_source e = FromSecret (image_env_secret a) (ee_name e) None"
  by (auto simp: image_env_def)

lemma platform_names: "oe_token oe \<noteq> [] \<Longrightarrow> fst ` set (platform_managed_env oe) = {token_name}"
  by (simp add: platform_managed_env_def)

text \<open>The names the operator sets itself, before and after the variables of the profile.\<close>

lemmas fixed_env_defs = base_env_def key_env_def provider_keys_def provider_key_env_def lit_def

lemma own_token_entries:
  "filter (\<lambda>e. ee_name e = token_name) (base_env oe a @ key_env a) = [lit token_name (oe_token oe)]"
  by (simp add: fixed_env_defs token_name_def hub_url_name_def)

lemma sidecar_token_entries:
  assumes "e \<in> set (sidecar_env oe a sc)" "ee_name e = token_name"
  shows "ee_source e \<in> {Literal (oe_token oe), FromSecret (image_env_secret a) token_name None}"
  using assms
  by (auto simp: sidecar_env_def platform_sidecar_env_def lit_def token_name_def hub_url_name_def split: if_splits)

lemma agent_token_entries:
  assumes "oe_token oe \<noteq> []"
  shows "filter (\<lambda>e. ee_name e = token_name) (agent_env oe a img) = [lit token_name (oe_token oe)]"
proof -
  have "filter (\<lambda>e. ee_name e = token_name) (image_env oe a img) = []"
    using image_env_names [of oe a img] platform_names [OF assms] by (auto simp: filter_empty_conv)
  then show ?thesis
    using own_token_entries [of oe a] by (simp add: agent_env_def Let_def lit_def token_name_def)
qed

text \<open>
  The platform owns the token of the hub's internal endpoints. When the operator knows it, no configuration of an
  agent or of its image decides its value in any container of the pod: the agent container has one variable of that name, with the token; in
  every other container it is the token or comes from the environment secret, and the secret has the token under that name, if it has the name at all.
\<close>

theorem platform_token_owned:
  assumes "oe_token oe \<noteq> []"
  shows "filter (\<lambda>e. ee_name e = token_name) (agent_env oe a img) = [lit token_name (oe_token oe)] \<and>
    (\<forall>c \<in> set (pt_containers (bare_template oe grace a img)). \<forall>e \<in> set (cn_env c). ee_name e = token_name \<longrightarrow>
      ee_source e \<in> {Literal (oe_token oe), FromSecret (image_env_secret a) token_name None}) \<and>
    map_of (image_env_data oe a img) token_name \<in> {None, Some (oe_token oe)}"
proof (intro conjI ballI impI)
  show own: "filter (\<lambda>e. ee_name e = token_name) (agent_env oe a img) = [lit token_name (oe_token oe)]"
    by (rule agent_token_entries [OF assms])
  fix c e assume c: "c \<in> set (pt_containers (bare_template oe grace a img))" and e: "e \<in> set (cn_env c)" "ee_name e = token_name"
  consider "c = agent_container oe a img" | sc where "cn_env c = sidecar_env oe a sc"
    | "cn_env c = [lit ''AGENT_NAME'' (an_name a), lit ''PORT'' ''8081''] @ platform_sidecar_env oe"
    using c by (auto simp: bare_template_def sidecar_containers_def chat_container_def split: if_splits)
  then show "ee_source e \<in> {Literal (oe_token oe), FromSecret (image_env_secret a) token_name None}"
  proof cases
    case 1
    with e have "e \<in> set (filter (\<lambda>e. ee_name e = token_name) (agent_env oe a img))"
      by (simp add: agent_container_def)
    then show ?thesis unfolding own by (simp add: lit_def)
  next
    case 2
    with e sidecar_token_entries show ?thesis by metis
  next
    case 3
    with e show ?thesis by (auto simp: platform_sidecar_env_def lit_def token_name_def hub_url_name_def split: if_splits)
  qed
next
  show "map_of (image_env_data oe a img) token_name \<in> {None, Some (oe_token oe)}"
    using assms by (cases "override_of (effective_env a img) token_name") (simp_all add: image_env_data_get platform_managed_env_def)
qed

section \<open>References of the pod\<close>

definition sample_queue :: agent_cr where
  "sample_queue = \<lparr>ag_scaling = None, ag_pending = 0, ag_active = 0, ag_observed = None, ag_last_invocation = None\<rparr>"

definition sample_agent :: agent_res where
  "sample_agent = \<lparr>an_name = ''ada'', an_namespace = ''ainsel'', an_generation = 1, an_deleting = False, an_image = ''pi'', an_pull_policy = [],
     an_resources = [], an_hardened = None, an_provider = [], an_model = ''m'', an_max_turns = 0, an_temperature = None,
     an_vision = None, an_persona = ''p1'', an_tools = [], an_skills = None, an_mcp = None,
     an_env = [\<lparr>ev_name = ''HUB_INTERNAL_VALIDATE_SECRET'', ev_value = ''mine''\<rparr>], an_ollama = None, an_opencode = None,
     an_alibaba = None, an_custom = None, an_queue = sample_queue, an_conditions = [], an_replicas = 0,
     an_observed_generation = 0, an_scaling = None\<rparr>"

definition sample_image :: agent_image where
  "sample_image = \<lparr>im_name = ''pi'', im_url = ''dpinsel/ainsel-pi:dev'', im_tools = [], im_env = [], im_servers = [],
     im_sidecars = [\<lparr>sr_name = ''chat'', sr_image = ''own-chat'', sr_port = 0, sr_mcp_path = [],
       sr_env = [\<lparr>ev_name = ''LEVEL'', ev_value = ''debug''\<rparr>]\<rparr>], im_skills = []\<rparr>"

definition sample_operator :: operator_env where
  "sample_operator = \<lparr>oe_hub_url = ''http://hub'', oe_token = ''s3cret'', oe_chat_image = ''chat-mcp''\<rparr>"

theorem platform_token_owned_witness:
  "filter (\<lambda>e. ee_name e = token_name) (agent_env sample_operator sample_agent sample_image) = [lit token_name ''s3cret''] \<and>
   map_of (image_env_data sample_operator sample_agent sample_image) token_name \<in> {None, Some ''s3cret''} \<and>
   map ev_name (an_env sample_agent) = [token_name]"
  using platform_token_owned [of sample_operator sample_agent sample_image 0]
  by (simp add: sample_operator_def sample_agent_def token_name_def)

lemma sidecar_secret_refs:
  "(\<exists>e \<in> set (sidecar_env oe a sc). ee_source e = FromSecret (image_env_secret a) k None) \<longleftrightarrow> k \<in> env_names (sr_env sc)"
proof -
  have "ee_source e \<noteq> FromSecret (image_env_secret a) k None" if "e \<in> set (platform_sidecar_env oe)" for e
    using that by (auto simp: platform_sidecar_env_def lit_def split: if_splits)
  then show ?thesis by (force simp: sidecar_env_def lit_def)
qed

text \<open>
  Which references to the environment secret resolve. Every variable the agent container takes from it has a key in the data the operator
  writes, so the container can start. A sidecar's references resolve exactly when all its variables are
  also variables of the runtime profile: the values it declares itself are never stored, and with any
  other variable its container refers to a key that is not there.
\<close>

theorem secret_references_resolve:
  "(\<forall>e \<in> set (agent_env oe a img). \<forall>k. ee_source e = FromSecret (image_env_secret a) k None \<longrightarrow>
      map_of (image_env_data oe a img) k \<noteq> None) \<and>
   (\<forall>sc. (\<forall>e \<in> set (sidecar_env oe a sc). \<forall>k. ee_source e = FromSecret (image_env_secret a) k None \<longrightarrow>
        map_of (image_env_data oe a img) k \<noteq> None) \<longleftrightarrow>
      env_names (sr_env sc) \<subseteq> env_names (an_env a) \<union> env_names (im_env img))"
proof -
  have dom: "map_of (image_env_data oe a img) k \<noteq> None \<longleftrightarrow> k \<in> env_names (an_env a) \<union> env_names (im_env img)" for k
    using override_of_None [of "effective_env a img" k] by (simp add: image_env_data_get effective_env_names)
  have "map_of (image_env_data oe a img) k \<noteq> None"
    if e: "e \<in> set (agent_env oe a img)" "ee_source e = FromSecret (image_env_secret a) k None" for e k
  proof -
    from e have "e \<in> set (image_env oe a img)"
      by (auto simp: agent_env_def Let_def fixed_env_defs split: if_splits)
    with e(2) image_env_sources [OF this] image_env_names [of oe a img] show ?thesis
      unfolding dom by (auto simp: effective_env_names)
  qed
  moreover have "(\<forall>e \<in> set (sidecar_env oe a sc). \<forall>k. ee_source e = FromSecret (image_env_secret a) k None \<longrightarrow>
        map_of (image_env_data oe a img) k \<noteq> None) \<longleftrightarrow>
      env_names (sr_env sc) \<subseteq> env_names (an_env a) \<union> env_names (im_env img)" for sc
    using sidecar_secret_refs [of oe a sc] unfolding dom by blast
  ultimately show ?thesis by blast
qed

theorem secret_references_resolve_witness:
  "\<not> (\<forall>e \<in> set (sidecar_env sample_operator sample_agent (hd (im_sidecars sample_image))). \<forall>k.
        ee_source e = FromSecret (image_env_secret sample_agent) k None \<longrightarrow>
        map_of (image_env_data sample_operator sample_agent sample_image) k \<noteq> None)"
proof -
  note R = conjunct2 [OF secret_references_resolve [of sample_operator sample_agent sample_image]]
  show ?thesis
    unfolding R [rule_format, of "hd (im_sidecars sample_image)"]
    by (simp add: sample_agent_def sample_image_def)
qed

text \<open>
  The chat server an agent is told about is not always there. The entry for the injected chat sidecar is made unless the image
  has a sidecar of that name with an MCP path, the sidecar is injected unless the image has one of that name at
  all: exactly for an image whose sidecars of that name have no path the agent is sent to a port nobody serves.
\<close>

theorem chat_advertised_unserved:
  "(chat_injected oe img \<and> chat_container oe a img = []) \<longleftrightarrow>
   oe_chat_image oe \<noteq> [] \<and> (\<exists>sc \<in> set (im_sidecars img). sr_name sc = chat_name) \<and>
   (\<nexists>sc. sc \<in> set (im_sidecars img) \<and> sr_name sc = chat_name \<and> sr_mcp_path sc \<noteq> [])"
  by (auto simp: chat_injected_def chat_container_def list_ex_iff)

end
