(* ===== verification/AgentRestart.thy ===== *)
theory AgentRestart
  imports AgentRules
begin

text \<open>
  When the pod of an agent is restarted: what the hashes on the pod template tell apart, what a failed
  lookup in the registry does to the template, and that the watches of the operator see every change the
  template depends on.
\<close>

section \<open>Lines\<close>

lemma first_part:
  assumes "d \<notin> set x" "d \<notin> set y"
  shows "x @ (d::char) # r = y @ d # r' \<longleftrightarrow> x = y \<and> r = r'"
proof
  assume "x @ d # r = y @ d # r'"
  then have "cut_at d (x @ d # r) = cut_at d (y @ d # r')" by (rule arg_cong)
  then show "x = y \<and> r = r'" unfolding cut_at_append [OF assms(1)] cut_at_append [OF assms(2)] by simp
qed simp

lemma newline_first:
  assumes "CHR 0x0A \<notin> set x" "CHR 0x0A \<notin> set y"
  shows "x @ newline @ r = y @ newline @ r' \<longleftrightarrow> x = y \<and> r = r'"
  using first_part [OF assms] by (simp add: newline_def)

lemma all_lines_inj:
  assumes "\<forall>l \<in> set xs \<union> set ys. CHR 0x0A \<notin> set l"
    and "concat (map (\<lambda>l. l @ newline) xs) = concat (map (\<lambda>l. l @ newline) ys)"
  shows "xs = ys"
  using assms
proof (induction xs arbitrary: ys)
  case Nil
  then show ?case by (cases ys) (auto simp: newline_def)
next
  case (Cons x xs)
  then obtain y ys' where ys: "ys = y # ys'" by (cases ys) (auto simp: newline_def)
  with Cons.prems newline_first [of x y "concat (map (\<lambda>l. l @ newline) xs)" "concat (map (\<lambda>l. l @ newline) ys')"]
  have "x = y" "concat (map (\<lambda>l. l @ newline) xs) = concat (map (\<lambda>l. l @ newline) ys')" by simp_all
  with Cons.IH [of ys'] Cons.prems ys show ?case by simp
qed

lemma all_lines_iff:
  assumes "\<forall>l \<in> set xs \<union> set ys. CHR 0x0A \<notin> set l"
  shows "concat (map (\<lambda>l. l @ newline) xs) = concat (map (\<lambda>l. l @ newline) ys) \<longleftrightarrow> xs = ys"
  using all_lines_inj [OF assms] by (rule iffI) simp_all

lemma of_char_small: "of_char c < (256::nat)"
  using of_char_mod_256 [of c, where ?'a = nat] by (metis mod_less_divisor zero_less_numeral)

lemma of_hex_digit: "i < 16 \<Longrightarrow> of_char (hex_digit i) = (if i < 10 then 48 + i else 87 + i :: nat)"
  by (simp add: hex_digit_def)

lemma hex_digit_inj:
  assumes "i < 16" "j < 16" "hex_digit i = hex_digit j"
  shows "i = j"
proof -
  have "of_char (hex_digit i) = (of_char (hex_digit j) :: nat)" using assms(3) by (rule arg_cong)
  then show ?thesis
    unfolding of_hex_digit [OF assms(1)] of_hex_digit [OF assms(2)] using assms(1,2) by (auto split: if_splits)
qed

lemma hex_encode_Cons: "hex_encode (c # s) = hex_digit (of_char c div 16) # hex_digit (of_char c mod 16) # hex_encode s"
  by (simp add: hex_encode_def)

lemma hex_encode_inj: "hex_encode s = hex_encode t \<Longrightarrow> s = t"
proof (induction s arbitrary: t)
  case Nil
  then show ?case by (cases t) (auto simp: hex_encode_def)
next
  case (Cons c s)
  then obtain d t' where t: "t = d # t'" by (cases t) (auto simp: hex_encode_def)
  have small: "of_char x div 16 < (16::nat)" for x :: char
    using of_char_small [of x] by (simp add: less_mult_imp_div_less)
  from Cons.prems t have e: "hex_digit (of_char c div 16) = hex_digit (of_char d div 16)"
    "hex_digit (of_char c mod 16) = hex_digit (of_char d mod 16)" "hex_encode s = hex_encode t'"
    by (simp_all add: hex_encode_Cons)
  have "of_char c div 16 = (of_char d div 16 :: nat)" "of_char c mod 16 = (of_char d mod 16 :: nat)"
    using hex_digit_inj [OF small small e(1)] hex_digit_inj [OF _ _ e(2)] by simp_all
  then have "of_char c = (of_char d :: nat)" by (metis div_mult_mod_eq)
  with Cons.IH [OF e(3)] t show ?case by simp
qed

lemma hex_encode_plain: "CHR 0x0A \<notin> set (hex_encode s) \<and> CHR '':'' \<notin> set (hex_encode s)"
proof (induction s)
  case (Cons c s)
  have plain: "hex_digit i \<noteq> CHR 0x0A \<and> hex_digit i \<noteq> CHR '':''" if "i < 16" for i
  proof -
    have "of_char (hex_digit i) \<noteq> (10::nat) \<and> of_char (hex_digit i) \<noteq> (58::nat)"
      using that by (simp add: of_hex_digit split: if_splits)
    then show ?thesis by auto
  qed
  have "of_char c div 16 < (16::nat)" using of_char_small [of c] by (simp add: less_mult_imp_div_less)
  with plain [of "of_char c div 16"] plain [of "of_char c mod 16"] Cons show ?case
    by (simp add: hex_encode_Cons eq_commute)
qed (simp add: hex_encode_def)

section \<open>What the hashes tell apart\<close>

text \<open>What a reference and the environment secret show: nothing, or the value of the key, or all values.\<close>

definition ref_seen :: "(string \<Rightarrow> (string \<times> string) list lookup) \<Rightarrow> key_ref \<Rightarrow> string option option" where
  "ref_seen get r = (case get (kr_name r) of Found data \<Rightarrow> Some (map_of data (kr_key r)) | _ \<Rightarrow> None)"

definition env_seen :: "(string \<times> string) list lookup \<Rightarrow> (string \<Rightarrow> string option) option" where
  "env_seen found = (case found of Found data \<Rightarrow> Some (map_of data) | _ \<Rightarrow> None)"

text \<open>Names Kubernetes accepts have no underscore, names and keys no colon and no line break.\<close>

definition plain_key :: "string \<Rightarrow> bool" where
  "plain_key s \<longleftrightarrow> CHR '':'' \<notin> set s \<and> CHR 0x0A \<notin> set s"

definition plain_name :: "string \<Rightarrow> bool" where
  "plain_name s \<longleftrightarrow> plain_key s \<and> CHR ''_'' \<notin> set s"

definition hash_body :: "string \<Rightarrow> string \<Rightarrow> string \<Rightarrow> string" where
  "hash_body x y z = x @ '':'' @ y @ '':'' @ z"

lemma hash_line_body: "hash_line x y z = hash_body x y z @ newline"
  by (simp add: hash_line_def hash_body_def)

lemma hash_body_inj:
  assumes "CHR '':'' \<notin> set x" "CHR '':'' \<notin> set x'" "CHR '':'' \<notin> set y" "CHR '':'' \<notin> set y'"
  shows "hash_body x y z = hash_body x' y' z' \<longleftrightarrow> x = x' \<and> y = y' \<and> z = z'"
  unfolding hash_body_def append_Cons append_Nil first_part [OF assms(1,2)] first_part [OF assms(3,4)] by (rule refl)

definition ref_body :: "(string \<Rightarrow> (string \<times> string) list lookup) \<Rightarrow> key_ref \<Rightarrow> string" where
  "ref_body get r =
     (case ref_seen get r of
        None \<Rightarrow> hash_body ''__missing__'' (kr_name r) (kr_key r)
      | Some None \<Rightarrow> hash_body ''__missing_key__'' (kr_name r) (kr_key r)
      | Some (Some v) \<Rightarrow> hash_body (kr_name r) (kr_key r) (hex_encode v))"

lemma ref_lines_bodies: "ref_lines get rs = Inr ls \<Longrightarrow> ls = concat (map (\<lambda>l. l @ newline) (map (ref_body get) rs))"
  by (induction rs arbitrary: ls)
    (auto simp: ref_body_def ref_seen_def hash_line_body split: sum.splits lookup.splits option.splits)

lemma plain_hex: "plain_key (hex_encode v)"
  using hex_encode_plain by (simp add: plain_key_def)

lemma plain_names_differ: "plain_name n \<Longrightarrow> n \<noteq> ''__missing__'' \<and> n \<noteq> ''__missing_key__''"
  by (auto simp: plain_name_def)

lemma ref_body_eq:
  assumes "plain_name (kr_name r)" "plain_key (kr_key r)"
  shows "ref_body get r = ref_body get' r \<longleftrightarrow> ref_seen get r = ref_seen get' r"
proof -
  have inj: "hash_body x y z = hash_body x' y' z' \<longleftrightarrow> x = x' \<and> y = y' \<and> z = z'"
    if "{x, x', y, y'} \<subseteq> {kr_name r, kr_key r, ''__missing__'', ''__missing_key__''}" for x x' y y' z z'
    using that assms by (subst hash_body_inj) (auto simp: plain_name_def plain_key_def)
  have hex: "hex_encode v = hex_encode w \<longleftrightarrow> v = w" for v w using hex_encode_inj by blast
  show ?thesis
    using plain_names_differ [OF assms(1)]
    by (cases "ref_seen get r"; cases "ref_seen get' r"; cases "the (ref_seen get r)"; cases "the (ref_seen get' r)")
      (auto simp: ref_body_def inj hex)
qed

lemma ref_body_line:
  assumes "plain_name (kr_name r)" "plain_key (kr_key r)"
  shows "CHR 0x0A \<notin> set (ref_body get r)"
  using assms hex_encode_plain by (auto simp: ref_body_def hash_body_def plain_name_def plain_key_def split: option.splits)

definition env_bodies :: "string \<Rightarrow> (string \<times> string) list lookup \<Rightarrow> string list" where
  "env_bodies n found =
     (case found of
        Found data \<Rightarrow> map (\<lambda>k. hash_body n k (hex_encode (the (map_of data k)))) (sort (map fst data))
      | _ \<Rightarrow> [hash_body ''__missing__'' n ''*''])"

lemma env_lines_bodies: "env_lines n found = Inr ls \<Longrightarrow> ls = concat (map (\<lambda>l. l @ newline) (env_bodies n found))"
  by (auto simp: env_lines_def env_bodies_def hash_line_body comp_def split: lookup.splits)


lemma env_bodies_lines:
  assumes "plain_name n" "\<And>data. found = Found data \<Longrightarrow> \<forall>k \<in> fst ` set data. plain_key k"
  shows "\<forall>l \<in> set (env_bodies n found). CHR 0x0A \<notin> set l"
  using assms hex_encode_plain
  by (cases found) (auto simp: env_bodies_def hash_body_def plain_name_def plain_key_def)

text \<open>The data of a secret as the API server stores it: every key once, and only keys it accepts.\<close>

definition stored_data :: "(string \<times> string) list lookup \<Rightarrow> bool" where
  "stored_data found \<longleftrightarrow> (case found of Found data \<Rightarrow> distinct (map fst data) \<and> (\<forall>k \<in> fst ` set data. plain_key k) | _ \<Rightarrow> True)"

lemma env_bodies_found:
  assumes "plain_name n" "stored_data (Found d)" "stored_data (Found d')"
  shows "env_bodies n (Found d) = env_bodies n (Found d') \<longleftrightarrow> map_of d = map_of d'"
proof
  assume "map_of d = map_of d'"
  then have "fst ` set d = fst ` set d'" by (metis dom_map_of_conv_image_fst)
  then have "sort (map fst d) = sort (map fst d')"
    using assms(2,3) by (intro sorted_distinct_set_unique) (simp_all add: stored_data_def)
  with \<open>map_of d = map_of d'\<close> show "env_bodies n (Found d) = env_bodies n (Found d')" by (simp add: env_bodies_def)
next
  let ?b = "\<lambda>d k. hash_body n k (hex_encode (the (map_of d k)))"
  assume *: "env_bodies n (Found d) = env_bodies n (Found d')"
  have len: "length (sort (map fst d)) = length (sort (map fst d'))" using arg_cong [OF *, of length] by (simp add: env_bodies_def)
  have parts: "?b d k = ?b d' k' \<longleftrightarrow> k = k' \<and> hex_encode (the (map_of d k)) = hex_encode (the (map_of d' k'))"
    if "k \<in> fst ` set d" "k' \<in> fst ` set d'" for k k'
    using that assms by (subst hash_body_inj) (auto simp: plain_name_def plain_key_def stored_data_def)
  have each: "sort (map fst d) ! i = sort (map fst d') ! i \<and>
      the (map_of d (sort (map fst d) ! i)) = the (map_of d' (sort (map fst d) ! i))" if i: "i < length d" for i
  proof -
    let ?k = "sort (map fst d) ! i" and ?k' = "sort (map fst d') ! i"
    have mem: "?k \<in> fst ` set d" "?k' \<in> fst ` set d'"
      using nth_mem [of i "sort (map fst d)"] nth_mem [of i "sort (map fst d')"] i len by simp_all
    have "env_bodies n (Found d) ! i = env_bodies n (Found d') ! i" using * by simp
    then have "?b d ?k = ?b d' ?k'" using i len by (simp add: env_bodies_def)
    then have "?k = ?k'" "hex_encode (the (map_of d ?k)) = hex_encode (the (map_of d' ?k'))"
      unfolding parts [OF mem] by (rule conjunct1, rule conjunct2)
    then show ?thesis using hex_encode_inj [of "the (map_of d ?k)" "the (map_of d' ?k')"] by simp
  qed
  then have keys: "sort (map fst d) = sort (map fst d')" using len by (intro nth_equalityI) simp_all
  show "map_of d = map_of d'"
  proof
    fix k
    have same: "fst ` set d = fst ` set d'" using arg_cong [OF keys, of set] by simp
    show "map_of d k = map_of d' k"
    proof (cases "k \<in> fst ` set d")
      case True
      then obtain i where i: "i < length d" and k: "k = sort (map fst d) ! i"
        by (metis in_set_conv_nth length_map length_sort set_map set_sort)
      have "the (map_of d k) = the (map_of d' k)" unfolding k by (rule conjunct2 [OF each [OF i]])
      moreover have "map_of d k \<noteq> None" "map_of d' k \<noteq> None" using True same by (simp_all add: map_of_eq_None_iff)
      ultimately show ?thesis by auto
    next
      case False
      then have "map_of d k = None" "map_of d' k = None" using same by (simp_all add: map_of_eq_None_iff)
      then show ?thesis by simp
    qed
  qed
qed

lemma env_bodies_eq:
  assumes "plain_name n" "stored_data f" "stored_data f'" "\<nexists>e. f = LookupFailed e" "\<nexists>e. f' = LookupFailed e"
  shows "env_bodies n f = env_bodies n f' \<longleftrightarrow> env_seen f = env_seen f'"
proof -
  have "env_bodies n (Found d) \<noteq> [hash_body ''__missing__'' n ''*'']" if "stored_data (Found d)" for d
  proof
    assume *: "env_bodies n (Found d) = [hash_body ''__missing__'' n ''*'']"
    then obtain k where k: "sort (map fst d) = [k]" by (auto simp: env_bodies_def)
    have "set (sort (map fst d)) = set [k]" unfolding k by (rule refl)
    then have "k \<in> fst ` set d" by simp
    then have "plain_key k" using that by (auto simp: stored_data_def)
    then have "hash_body n k (hex_encode (the (map_of d k))) = hash_body ''__missing__'' n ''*'' \<longleftrightarrow> False"
      using assms(1) plain_names_differ [OF assms(1)] by (subst hash_body_inj) (auto simp: plain_name_def plain_key_def)
    with * k show False by (simp add: env_bodies_def)
  qed
  from this [THEN not_sym] this show ?thesis
    using assms env_bodies_found [OF assms(1)]
    by (cases f; cases f') (simp_all add: env_seen_def, simp_all add: env_bodies_def)
qed

lemma secret_text_bodies:
  assumes "secret_text get refs n = Inr s"
  shows "s = concat (map (\<lambda>l. l @ newline) (map (ref_body get) (sort_key (\<lambda>r. (kr_name r, kr_key r)) refs) @ env_bodies n (get n)))"
    and "\<nexists>e. get n = LookupFailed e"
proof -
  obtain ls es where ls: "ref_lines get (sort_key (\<lambda>r. (kr_name r, kr_key r)) refs) = Inr ls" and es: "env_lines n (get n) = Inr es"
    and s: "s = ls @ es"
    using assms by (auto simp: secret_text_def split: sum.splits)
  show "s = concat (map (\<lambda>l. l @ newline) (map (ref_body get) (sort_key (\<lambda>r. (kr_name r, kr_key r)) refs) @ env_bodies n (get n)))"
    unfolding s ref_lines_bodies [OF ls] env_lines_bodies [OF es] by simp
  show "\<nexists>e. get n = LookupFailed e" using es by (auto simp: env_lines_def)
qed

text \<open>The text that is hashed of the secrets tells apart exactly what the references and the secret show.\<close>

lemma secret_text_eq:
  assumes "secret_text get refs n = Inr s" "secret_text get' refs n = Inr s'"
    and refs: "\<forall>r \<in> set refs. plain_name (kr_name r) \<and> plain_key (kr_key r)" and n: "plain_name n"
    and data: "stored_data (get n)" "stored_data (get' n)"
  shows "s = s' \<longleftrightarrow> (\<forall>r \<in> set refs. ref_seen get r = ref_seen get' r) \<and> env_seen (get n) = env_seen (get' n)"
proof -
  let ?rs = "sort_key (\<lambda>r. (kr_name r, kr_key r)) refs"
  let ?L = "\<lambda>g. map (ref_body g) ?rs @ env_bodies n (g n)"
  have lines: "\<forall>l \<in> set (?L g). CHR 0x0A \<notin> set l" if "stored_data (g n)" for g
  proof -
    have "\<forall>k \<in> fst ` set data. plain_key k" if "g n = Found data" for data
      using that \<open>stored_data (g n)\<close> by (simp add: stored_data_def)
    from env_bodies_lines [OF n this] ref_body_line refs show ?thesis by auto
  qed
  have "\<forall>l \<in> set (?L get) \<union> set (?L get'). CHR 0x0A \<notin> set l" using lines [of get, OF data(1)] lines [of get', OF data(2)] by blast
  from all_lines_iff [OF this] have "s = s' \<longleftrightarrow> ?L get = ?L get'"
    unfolding secret_text_bodies(1) [OF assms(1)] secret_text_bodies(1) [OF assms(2)] .
  also have "\<dots> \<longleftrightarrow> (\<forall>r \<in> set refs. ref_body get r = ref_body get' r) \<and> env_bodies n (get n) = env_bodies n (get' n)"
    by auto
  also have "\<dots> \<longleftrightarrow> (\<forall>r \<in> set refs. ref_seen get r = ref_seen get' r) \<and> env_seen (get n) = env_seen (get' n)"
    using ref_body_eq refs env_bodies_eq [OF n data secret_text_bodies(2) [OF assms(1)] secret_text_bodies(2) [OF assms(2)]] by auto
  finally show ?thesis .
qed


section \<open>Restarts\<close>

lemma annotations_success:
  assumes "annotations sha t a img = Inr as"
  obtains s ps ss where "secret_text (te_secret t) (hash_refs a) (image_env_secret a) = Inr s"
    and "config_map_hash sha (persona_config_map (an_persona a)) (te_config_map t (persona_config_map (an_persona a))) = Inr ps"
    and "(if effective_skills a img = [] then Inr [] else map_sum id (\<lambda>s. [(skill_hash_key, s)])
            (config_map_hash sha skills_config_map (te_config_map t skills_config_map))) = Inr ss"
    and "as = [(secret_hash_key, digest_text sha s), (persona_hash_key, ps)] @ ss @
      (case te_digest t of Inl _ \<Rightarrow> [] | Inr d \<Rightarrow> [(image_digest_key, d)])"
  using assms by (auto simp: annotations_def secret_hash_def Let_def map_sum_Inr_iff split: sum.splits)

lemma template_success:
  assumes "pod_template_of sha t oe grace a img = Inr p"
  obtains as where "annotations sha t a img = Inr as" "p = (bare_template oe grace a img)\<lparr>pt_annotations := as\<rparr>"
  using assms by (auto simp: pod_template_of_def map_sum_Inr_iff)

lemma template_eq:
  "(bare_template oe grace a img)\<lparr>pt_annotations := x\<rparr> = (bare_template oe grace a img)\<lparr>pt_annotations := y\<rparr> \<longleftrightarrow> x = y"
  by (simp add: bare_template_def)

lemma plain_env_secret: "plain_name (an_name a) \<Longrightarrow> plain_name (image_env_secret a)"
  by (auto simp: plain_name_def plain_key_def image_env_secret_def resource_name_def)

text \<open>With the ConfigMaps and the digest unchanged, the texts of the secrets decide.\<close>

lemma template_eq_secret_text:
  assumes p: "pod_template_of sha t oe grace a img = Inr p" "pod_template_of sha t' oe grace a img = Inr p'"
    and same: "te_config_map t' = te_config_map t" "te_digest t' = te_digest t"
    and sha: "inj sha"
  obtains s s' where "secret_text (te_secret t) (hash_refs a) (image_env_secret a) = Inr s"
    "secret_text (te_secret t') (hash_refs a) (image_env_secret a) = Inr s'" "p = p' \<longleftrightarrow> s = s'"
proof -
  obtain as as' where as: "annotations sha t a img = Inr as" "annotations sha t' a img = Inr as'"
    and "p = p' \<longleftrightarrow> as = as'"
    using p by (elim template_success) (simp add: template_eq)
  moreover obtain s s' where s: "secret_text (te_secret t) (hash_refs a) (image_env_secret a) = Inr s"
      "secret_text (te_secret t') (hash_refs a) (image_env_secret a) = Inr s'"
    and "as = as' \<longleftrightarrow> digest_text sha s = digest_text sha s'"
    using annotations_success [OF as(1)] annotations_success [OF as(2)] same by (metis append_eq_append_conv list.inject prod.inject sum.inject(2) append_Cons)
  moreover have "digest_text sha s = digest_text sha s' \<longleftrightarrow> s = s'"
    using sha hex_encode_inj by (auto simp: digest_text_def dest: injD)
  ultimately show ?thesis using that by simp
qed

text \<open>
  C31. A rotated key restarts the pod, and nothing else about the secrets does: of two passes over the same agent and image
  that differ only in the secrets, the second renders the same pod template exactly when every key
  the agent's providers refer to shows the same value, or is missing in the same way, and the
  environment secret has the same data. SHA-256 is taken to be free of collisions.
\<close>

theorem secret_changes_are_seen:
  assumes p: "pod_template_of sha t oe grace a img = Inr p" "pod_template_of sha t' oe grace a img = Inr p'"
    and same: "te_config_map t' = te_config_map t" "te_digest t' = te_digest t"
    and plain: "plain_name (an_name a)" "\<forall>r \<in> set (hash_refs a). plain_name (kr_name r) \<and> plain_key (kr_key r)"
    and data: "stored_data (te_secret t (image_env_secret a))" "stored_data (te_secret t' (image_env_secret a))"
    and sha: "inj sha"
  shows "p = p' \<longleftrightarrow> (\<forall>r \<in> set (hash_refs a). ref_seen (te_secret t) r = ref_seen (te_secret t') r) \<and>
    env_seen (te_secret t (image_env_secret a)) = env_seen (te_secret t' (image_env_secret a))"
proof -
  obtain s s' where s: "secret_text (te_secret t) (hash_refs a) (image_env_secret a) = Inr s"
      "secret_text (te_secret t') (hash_refs a) (image_env_secret a) = Inr s'" and "p = p' \<longleftrightarrow> s = s'"
    using template_eq_secret_text [OF p same sha] by blast
  then show ?thesis
    using secret_text_eq [OF s plain(2) plain_env_secret [OF plain(1)] data] by simp
qed

text \<open>
  An outage of the registry restarts the pods. A pass that cannot resolve the digest of the image is meant to skip the annotation, but it rebuilds the
  template without the one the last pass has set: with everything else unchanged the template differs, which makes Kubernetes
  replace the pods, and differs again when the registry answers.
\<close>

theorem registry_outage_restarts_agent:
  assumes "mutate_deployment sha t oc now a img old = Inr (d, scale)" "te_digest t = Inr digest"
  shows "\<exists>d' scale'. mutate_deployment sha (t\<lparr>te_digest := Inl err\<rparr>) oc now' a img (Some d) = Inr (d', scale') \<and>
    map_of (pt_annotations (dp_template d)) image_digest_key = Some digest \<and>
    map_of (pt_annotations (dp_template d')) image_digest_key = None \<and> dp_template d' \<noteq> dp_template d"
proof -
  obtain p where p: "pod_template_of sha t (oc_env oc) (oc_grace oc) a img = Inr p" and d: "dp_template d = p"
    using assms(1) by (auto simp: mutate_deployment_def Let_def split: sum.splits)
  then obtain as where as: "annotations sha t a img = Inr as" "p = (bare_template (oc_env oc) (oc_grace oc) a img)\<lparr>pt_annotations := as\<rparr>"
    by (elim template_success)
  from as(1) obtain as0 where as0: "as = as0 @ [(image_digest_key, digest)]" "annotations sha (t\<lparr>te_digest := Inl err\<rparr>) a img = Inr as0"
    and keys: "image_digest_key \<notin> fst ` set as0"
    using assms(2)
    by (auto simp: annotations_def Let_def image_digest_key_def secret_hash_key_def persona_hash_key_def skill_hash_key_def map_sum_Inr_iff
        split: sum.splits if_splits)
  let ?p' = "(bare_template (oc_env oc) (oc_grace oc) a img)\<lparr>pt_annotations := as0\<rparr>"
  have p': "pod_template_of sha (t\<lparr>te_digest := Inl err\<rparr>) (oc_env oc) (oc_grace oc) a img = Inr ?p'"
    by (simp add: pod_template_of_def as0)
  obtain d' scale' where "mutate_deployment sha (t\<lparr>te_digest := Inl err\<rparr>) oc now' a img (Some d) = Inr (d', scale')" "dp_template d' = ?p'"
    by (simp add: mutate_deployment_def Let_def p')
  moreover have "map_of as0 image_digest_key = None" using keys by (simp add: map_of_eq_None_iff)
  then have "map_of as image_digest_key = Some digest" by (simp add: as0 map_add_def)
  ultimately show ?thesis using \<open>map_of as0 image_digest_key = None\<close> as(2) d
    by (intro exI [of _ d'] exI [of _ scale']) (auto simp: template_eq as0)
qed

end
