(* ===== verification/AgentWatch.thy ===== *)
theory AgentWatch
  imports AgentRestart
begin

text \<open>
  The selector of an agent's deployment over any number of passes, the Ready condition a pass reports, and
  the completeness of the watches.
\<close>

lemma ref_lines_total: "\<forall>n e. get n \<noteq> LookupFailed e \<Longrightarrow> \<exists>ls. ref_lines get rs = Inr ls"
proof (induction rs)
  case (Cons r rs)
  then obtain ls where "ref_lines get rs = Inr ls" by auto
  with Cons.prems show ?case by (cases "get (kr_name r)") (auto split: option.split)
qed simp

lemma config_map_total: "\<forall>e. found \<noteq> LookupFailed e \<Longrightarrow> \<exists>h. config_map_hash sha n found = Inr h"
  by (cases found) (auto simp: config_map_hash_def config_map_text_def)

lemma template_total:
  assumes "\<forall>n e. te_secret t n \<noteq> LookupFailed e" "\<forall>n e. te_config_map t n \<noteq> LookupFailed e"
  shows "\<exists>p. pod_template_of sha t oe grace a img = Inr p"
proof -
  obtain ls where "ref_lines (te_secret t) (sort_key (\<lambda>r. (kr_name r, kr_key r)) (hash_refs a)) = Inr ls"
    using ref_lines_total [OF assms(1)] by blast
  moreover obtain es where "env_lines (image_env_secret a) (te_secret t (image_env_secret a)) = Inr es"
    using assms(1) by (cases "te_secret t (image_env_secret a)") (auto simp: env_lines_def)
  moreover obtain h where "config_map_hash sha (persona_config_map (an_persona a)) (te_config_map t (persona_config_map (an_persona a))) = Inr h"
    using config_map_total assms(2) by blast
  moreover obtain h' where "config_map_hash sha skills_config_map (te_config_map t skills_config_map) = Inr h'"
    using config_map_total assms(2) by blast
  ultimately show ?thesis
    by (simp add: pod_template_of_def annotations_def secret_hash_def secret_text_def Let_def)
qed

section \<open>Witnesses of the restarts\<close>

definition sample_env :: "string \<Rightarrow> template_env" where
  "sample_env key =
     \<lparr>te_secret = (\<lambda>n. if n = ''ada-ollama-key'' then Found [(''api-key'', key)] else Missing),
      te_config_map = (\<lambda>_. Missing), te_digest = Inr ''sha256:1''\<rparr>"

definition sample_config :: operator_config where
  "sample_config = \<lparr>oc_env = sample_operator, oc_grace = 0, oc_scale = \<lparr>cf_scale_down_window = 0, cf_queue_signal_ttl = 0\<rparr>\<rparr>"

lemma sample_template: "\<exists>p. pod_template_of sha (sample_env k) oe g a img = Inr p"
  by (rule template_total) (simp_all add: sample_env_def)

lemma sample_texts:
  assumes "secret_text (te_secret (sample_env k)) (hash_refs sample_agent) (image_env_secret sample_agent) = Inr s"
    "secret_text (te_secret (sample_env k')) (hash_refs sample_agent) (image_env_secret sample_agent) = Inr s'" "s = s'"
  shows "k = k'"
  using assms
  by (auto simp: secret_text_def hash_refs_def hash_ref_def provider_keys_def sample_agent_def sample_env_def image_env_secret_def
      resource_name_def env_lines_def Let_def sort_key_def hash_line_def hex_encode_inj)

lemma sample_restart:
  assumes "pod_template_of id (sample_env k) sample_operator 0 sample_agent sample_image = Inr p"
    "pod_template_of id (sample_env k') sample_operator 0 sample_agent sample_image = Inr p'" "k \<noteq> k'"
  shows "p \<noteq> p'"
proof -
  have "te_config_map (sample_env k') = te_config_map (sample_env k)" "te_digest (sample_env k') = te_digest (sample_env k)"
    by (simp_all add: sample_env_def)
  from template_eq_secret_text [OF assms(1,2) this inj_on_id] assms(3) show ?thesis by (metis sample_texts)
qed

theorem secret_changes_are_seen_witness:
  "\<exists>p p'. pod_template_of id (sample_env ''one'') sample_operator 0 sample_agent sample_image = Inr p \<and>
    pod_template_of id (sample_env ''two'') sample_operator 0 sample_agent sample_image = Inr p' \<and> p \<noteq> p'"
proof -
  obtain p p' where p: "pod_template_of id (sample_env ''one'') sample_operator 0 sample_agent sample_image = Inr p"
    "pod_template_of id (sample_env ''two'') sample_operator 0 sample_agent sample_image = Inr p'"
    using sample_template by blast
  have "p = p' \<longleftrightarrow>
     (\<forall>r \<in> set (hash_refs sample_agent). ref_seen (te_secret (sample_env ''one'')) r = ref_seen (te_secret (sample_env ''two'')) r) \<and>
     env_seen (te_secret (sample_env ''one'') (image_env_secret sample_agent)) =
     env_seen (te_secret (sample_env ''two'') (image_env_secret sample_agent))"
  proof (rule secret_changes_are_seen [OF p])
    show "\<forall>r \<in> set (hash_refs sample_agent). plain_name (kr_name r) \<and> plain_key (kr_key r)"
      by (simp add: hash_refs_def hash_ref_def provider_keys_def sample_agent_def plain_name_def plain_key_def)
  qed (simp_all add: sample_env_def plain_name_def plain_key_def sample_agent_def stored_data_def image_env_secret_def resource_name_def)
  moreover have "\<lparr>kr_name = ''ada-ollama-key'', kr_key = ''api-key''\<rparr> \<in> set (hash_refs sample_agent)"
    by (simp add: hash_refs_def hash_ref_def provider_keys_def sample_agent_def)
  moreover have "ref_seen (te_secret (sample_env ''one'')) \<lparr>kr_name = ''ada-ollama-key'', kr_key = ''api-key''\<rparr> \<noteq>
      ref_seen (te_secret (sample_env ''two'')) \<lparr>kr_name = ''ada-ollama-key'', kr_key = ''api-key''\<rparr>"
    by (simp add: ref_seen_def sample_env_def)
  ultimately have "p \<noteq> p'" by blast
  with p show ?thesis by blast
qed

theorem registry_outage_restarts_agent_witness:
  "\<exists>d scale d' scale'.
     mutate_deployment id (sample_env ''one'') sample_config 0 sample_agent sample_image None = Inr (d, scale) \<and>
     mutate_deployment id ((sample_env ''one'')\<lparr>te_digest := Inl ''timeout''\<rparr>) sample_config 0 sample_agent sample_image (Some d) =
       Inr (d', scale') \<and> dp_template d' \<noteq> dp_template d"
proof -
  obtain d scale where d: "mutate_deployment id (sample_env ''one'') sample_config 0 sample_agent sample_image None = Inr (d, scale)"
    using sample_template [of id "''one''" sample_operator 0 sample_agent sample_image]
    by (auto simp: mutate_deployment_def Let_def sample_config_def)
  have "te_digest (sample_env ''one'') = Inr ''sha256:1''" by (simp add: sample_env_def)
  from registry_outage_restarts_agent [OF d this, of "''timeout''" 0] d show ?thesis by blast
qed

section \<open>The selector\<close>

text \<open>Passes over a deployment; a pass that fails leaves it alone.\<close>

fun passes ::
  "(string \<Rightarrow> string) \<Rightarrow> operator_config \<Rightarrow> (template_env \<times> instant \<times> agent_res \<times> agent_image) list \<Rightarrow> deployment option \<Rightarrow> deployment option" where
  "passes sha oc [] old = old"
| "passes sha oc ((t, now, a, img) # xs) old =
     passes sha oc xs (case mutate_deployment sha t oc now a img old of Inl _ \<Rightarrow> old | Inr (d, _) \<Rightarrow> Some d)"

definition matches_own_pods :: "(string \<times> string) list \<Rightarrow> deployment \<Rightarrow> bool" where
  "matches_own_pods s d \<longleftrightarrow> dp_selector d = Some s \<and> set s \<subseteq> set (pt_labels (dp_template d))"

lemma mutate_selector:
  assumes "mutate_deployment sha t oc now a img old = Inr (d, scale)"
  shows "dp_selector d = kept_selector a old \<and> pt_labels (dp_template d) = pod_labels a"
  using assms by (auto simp: mutate_deployment_def Let_def pod_template_of_def map_sum_Inr_iff bare_template_def split: sum.splits)

lemma passes_selector:
  assumes "\<forall>(t, now, a, img) \<in> set xs. an_name a = n" "old = Some d0" "matches_own_pods s d0"
    and "\<And>a. an_name a = n \<Longrightarrow> set s \<subseteq> set (pod_labels a)"
  shows "\<exists>d. passes sha oc xs old = Some d \<and> matches_own_pods s d"
  using assms
proof (induction xs arbitrary: old d0)
  case (Cons x xs)
  obtain t now a img where x: "x = (t, now, a, img)" by (cases x)
  show ?case
  proof (cases "mutate_deployment sha t oc now a img old")
    case (Inl e)
    with Cons x show ?thesis by simp
  next
    case (Inr r)
    then obtain d scale where r: "mutate_deployment sha t oc now a img old = Inr (d, scale)" by (cases r) auto
    have "matches_own_pods s d"
      using mutate_selector [OF r] Cons.prems x by (auto simp: matches_own_pods_def kept_selector_def)
    from Cons.IH [OF _ refl this] Cons.prems x r show ?thesis by simp
  qed
qed simp

text \<open>
  The immutable selector of an agent's deployment survives: whatever passes the operator makes over
  a deployment, with any versions of the agent and its image, the selector is the one it had, and the pods
  of the current template match it, if they did when it was created. A deployment the operator creates matches its own pods.
\<close>

theorem selector_survives:
  assumes "\<forall>(t, now, a, img) \<in> set xs. an_name a = an_name b"
    and "matches_own_pods s d0 \<and> set s \<subseteq> set (pod_labels b)"
  shows "\<exists>d. passes sha oc xs (Some d0) = Some d \<and> matches_own_pods s d"
proof (rule passes_selector [OF assms(1) refl])
  show "set s \<subseteq> set (pod_labels a)" if "an_name a = an_name b" for a
    using that assms(2) by (simp add: pod_labels_def resource_name_def)
qed (use assms(2) in simp)

lemma created_deployment_matches:
  "mutate_deployment sha t oc now a img None = Inr (d, scale) \<Longrightarrow> matches_own_pods (pod_labels a) d"
  using mutate_selector [of sha t oc now a img None d scale] by (simp add: matches_own_pods_def kept_selector_def)

theorem selector_survives_witness:
  "\<exists>d0 scale d. mutate_deployment id (sample_env ''one'') sample_config 0 sample_agent sample_image None = Inr (d0, scale) \<and>
    passes id sample_config [(sample_env ''two'', 5, sample_agent\<lparr>an_model := ''n''\<rparr>, sample_image)] (Some d0) = Some d \<and>
    matches_own_pods (pod_labels sample_agent) d"
proof -
  obtain d0 scale where d0: "mutate_deployment id (sample_env ''one'') sample_config 0 sample_agent sample_image None = Inr (d0, scale)"
    using sample_template [of id "''one''" sample_operator 0 sample_agent sample_image]
    by (auto simp: mutate_deployment_def Let_def sample_config_def)
  have "\<exists>d. passes id sample_config [(sample_env ''two'', 5, sample_agent\<lparr>an_model := ''n''\<rparr>, sample_image)] (Some d0) = Some d \<and>
    matches_own_pods (pod_labels sample_agent) d"
    by (rule selector_survives [where b = sample_agent]) (simp_all add: created_deployment_matches [OF d0])
  with d0 show ?thesis by blast
qed

section \<open>Watches\<close>

lemma ref_lines_cong:
  "\<forall>r \<in> set rs. get (kr_name r) = get' (kr_name r) \<Longrightarrow> ref_lines get rs = ref_lines get' rs"
  by (induction rs) (simp_all cong: sum.case_cong)

text \<open>The provider secrets an agent takes by default, without naming them.\<close>

definition default_secrets :: "agent_res \<Rightarrow> string set" where
  "default_secrets a = {an_name a @ suffix | suffix var cfg. (var, suffix, cfg) \<in> set (provider_keys a) \<and> (\<nexists>r. cfg = Some (Some r))}"

lemma hash_ref_watched:
  assumes "r \<in> set (hash_refs a)"
  shows "references_secret a (kr_name r) \<or> kr_name r \<in> default_secrets a"
proof -
  obtain var suffix cfg where k: "(var, suffix, cfg) \<in> set (provider_keys a)" and r: "r = hash_ref a suffix cfg"
    using assms by (auto simp: hash_refs_def)
  show ?thesis
  proof (cases "\<exists>r. cfg = Some (Some r)")
    case True
    with r have "explicit_ref cfg (kr_name r)" by (auto simp: hash_ref_def explicit_ref_def)
    with k show ?thesis by (auto simp: references_secret_def provider_keys_def)
  next
    case False
    then have "kr_name r = an_name a @ suffix"
      unfolding r hash_ref_def by (cases cfg; cases "the cfg") auto
    with k False show ?thesis unfolding default_secrets_def by blast
  qed
qed

text \<open>
  The watches see every change a pod depends on. When one secret and one ConfigMap change and the pod template of
  an agent comes out differently, the agent is among those the watches on the two look at again, unless the secret
  is one the agent takes by default: a provider key in a secret named after the agent is hashed and mounted, but its change is noticed by the
  periodic pass only.
\<close>

theorem watches_cover_template:
  assumes p: "pod_template_of sha t oe grace a img = Inr p" "pod_template_of sha t' oe grace a img = Inr p'" "p \<noteq> p'"
    and t': "te_secret t' = (te_secret t)(s := x)" "te_config_map t' = (te_config_map t)(c := y)" "te_digest t' = te_digest t"
    and listed: "a \<in> set as" "img \<in> set imgs" "im_name img = an_image a"
  shows "an_name a \<in> set (agents_of_secret (Some as) s) \<or> an_name a \<in> set (agents_of_config_map (Some as) (Some imgs) c) \<or>
    s \<in> default_secrets a"
proof (rule ccontr)
  assume no: "\<not> ?thesis"
  have unref: "\<not> references_secret a s" "s \<notin> default_secrets a" using no listed by (auto simp: agents_of_secret_def)
  have "\<forall>r \<in> set (hash_refs a). te_secret t (kr_name r) = te_secret t' (kr_name r)"
    using hash_ref_watched unref t'(1) by (metis fun_upd_apply)
  then have "secret_hash sha (te_secret t) (hash_refs a) (image_env_secret a) = secret_hash sha (te_secret t') (hash_refs a) (image_env_secret a)"
  proof -
    assume same: "\<forall>r \<in> set (hash_refs a). te_secret t (kr_name r) = te_secret t' (kr_name r)"
    have "te_secret t (image_env_secret a) = te_secret t' (image_env_secret a)"
      using unref(1) t'(1) by (simp add: references_secret_def)
    moreover have "ref_lines (te_secret t) (sort_key (\<lambda>r. (kr_name r, kr_key r)) (hash_refs a)) =
        ref_lines (te_secret t') (sort_key (\<lambda>r. (kr_name r, kr_key r)) (hash_refs a))"
      using same by (intro ref_lines_cong) simp
    ultimately show ?thesis by (simp only: secret_hash_def secret_text_def)
  qed
  moreover have "has_prefix (persona_config_map (an_persona a)) ''persona-''"
    by (simp add: persona_config_map_def has_prefix_def)
  with no listed have "c \<noteq> persona_config_map (an_persona a)" by (auto simp: agents_of_config_map_def)
  then have "te_config_map t' (persona_config_map (an_persona a)) = te_config_map t (persona_config_map (an_persona a))"
    using t'(2) by simp
  moreover have "effective_skills a img = [] \<or> te_config_map t' skills_config_map = te_config_map t skills_config_map"
  proof (rule disjCI)
    assume "te_config_map t' skills_config_map \<noteq> te_config_map t skills_config_map"
    then have "c = skills_config_map" using t'(2) by (auto split: if_splits)
    moreover have "\<not> has_prefix skills_config_map ''persona-''" by (simp add: skills_config_map_def has_prefix_def)
    ultimately have "set (agents_of_config_map (Some as) (Some imgs) c) =
        an_name ` {a \<in> set as. an_skills a \<noteq> None \<or> an_image a \<in> im_name ` {i \<in> set imgs. im_skills i \<noteq> []}}"
      by (simp add: agents_of_config_map_def Let_def)
    with no have "an_name a \<notin> an_name ` {a \<in> set as. an_skills a \<noteq> None \<or> an_image a \<in> im_name ` {i \<in> set imgs. im_skills i \<noteq> []}}"
      by simp
    then have "\<not> (an_skills a \<noteq> None \<or> an_image a \<in> im_name ` {i \<in> set imgs. im_skills i \<noteq> []})" using listed(1) by blast
    moreover from this have "im_skills img = []" unfolding listed(3) [symmetric] using listed(2) by blast
    ultimately show "effective_skills a img = []" by (simp add: effective_skills_def)
  qed
  ultimately have "annotations sha t a img = annotations sha t' a img"
    using t'(3) by (elim disjE) (simp_all only: annotations_def Let_def if_True simp_thms)
  with p show False by (simp add: pod_template_of_def)
qed


theorem watches_cover_template_witness:
  "\<exists>p p'. pod_template_of id (sample_env ''one'') sample_operator 0 sample_agent sample_image = Inr p \<and>
    pod_template_of id (sample_env ''two'') sample_operator 0 sample_agent sample_image = Inr p' \<and> p \<noteq> p' \<and>
    agents_of_secret (Some [sample_agent]) ''ada-ollama-key'' = [] \<and> ''ada-ollama-key'' \<in> default_secrets sample_agent"
proof -
  obtain p p' where p: "pod_template_of id (sample_env ''one'') sample_operator 0 sample_agent sample_image = Inr p"
      "pod_template_of id (sample_env ''two'') sample_operator 0 sample_agent sample_image = Inr p'"
    using sample_template by blast
  have p: "pod_template_of id (sample_env ''one'') sample_operator 0 sample_agent sample_image = Inr p"
      "pod_template_of id (sample_env ''two'') sample_operator 0 sample_agent sample_image = Inr p'" "p \<noteq> p'"
    by (fact p)+ (rule sample_restart [OF p], simp)
  have no: "agents_of_secret (Some [sample_agent]) ''ada-ollama-key'' = []" "agents_of_config_map (Some [sample_agent]) (Some [sample_image]) [] = []"
    by (simp_all add: agents_of_secret_def references_secret_def explicit_ref_def sample_agent_def image_env_secret_def resource_name_def
        agents_of_config_map_def has_prefix_def skills_config_map_def)
  have "an_name sample_agent \<in> set (agents_of_secret (Some [sample_agent]) ''ada-ollama-key'') \<or>
    an_name sample_agent \<in> set (agents_of_config_map (Some [sample_agent]) (Some [sample_image]) []) \<or>
    ''ada-ollama-key'' \<in> default_secrets sample_agent"
    by (rule watches_cover_template [OF p, where x = "Found [(''api-key'', ''two'')]" and y = Missing])
      (auto simp: sample_env_def sample_agent_def sample_image_def)
  with p no show ?thesis by auto
qed

section \<open>The Ready condition\<close>

text \<open>What the operator relies on: a condition that is set is found with what was set, the others stay.\<close>

definition condition_laws :: "condition_lib \<Rightarrow> bool" where
  "condition_laws L \<longleftrightarrow> (\<forall>c cs t. map_option cd_status (lib_find L (lib_set L c cs) t) =
     (if cd_type c = t then Some (cd_status c) else map_option cd_status (lib_find L cs t)))"

lemma holds_set_condition:
  assumes "condition_laws L"
  shows "holds_in L (set_condition L now t b r m a) t' = (if t = t' then b else holds_in L a t')"
proof -
  have "holds_in L a t = (map_option cd_status (lib_find L (an_conditions a) t) = Some True)" for a t
    by (cases "lib_find L (an_conditions a) t") (auto simp: holds_in_def)
  then show ?thesis
    using assms by (simp add: condition_laws_def set_condition_def del: map_option_eq_Some)
qed

lemma holds_in_fields:
  "holds_in L (a\<lparr>an_scaling := s\<rparr>) t = holds_in L a t" "holds_in L (a\<lparr>an_replicas := n\<rparr>) t = holds_in L a t"
  "holds_in L (a\<lparr>an_observed_generation := g\<rparr>) t = holds_in L a t"
  by (simp_all add: holds_in_def)

lemmas condition_names = cond_ready_def cond_deployment_def cond_mcp_def cond_persona_def cond_env_secret_def cond_degraded_def

lemma missing_token_env_conditions:
  "missing_token_env oe (set_condition L now t b r m a) img = missing_token_env oe a img"
  by (simp add: missing_token_env_def server_tokens_def effective_servers_def image_env_def effective_env_def
      image_env_secret_def resource_name_def set_condition_def)

lemma set_condition_fields [simp]:
  "an_name (set_condition L now t b r m a) = an_name a" "an_persona (set_condition L now t b r m a) = an_persona a"
  "resource_name (set_condition L now t b r m a) = resource_name a"
  by (simp_all add: set_condition_def resource_name_def)

lemma ready_condition_holds:
  assumes "condition_laws L"
  shows "holds_in L (ready_condition L now a) cond_ready \<longleftrightarrow> (\<forall>t \<in> set sub_conditions. holds_in L a t)"
  by (auto simp: ready_condition_def Let_def holds_set_condition [OF assms] filter_empty_conv)

lemma update_status_patch:
  assumes "condition_laws L" "update_status L v d s a = (Inr u, tr)"
    and "holds_in L a cond_env_secret"
  shows "\<exists>p. tr = [PatchStatus p] \<and> (case lib_find L (pa_conditions p) cond_ready of None \<Rightarrow> False | Some c \<Rightarrow> cd_status c) =
    ((sd_replicas s = 0 \<or> sd_replicas s \<le> dp_ready d) \<and> holds_in L a cond_mcp \<and> holds_in L a cond_persona)"
proof -
  let ?a1 = "deployment_condition L (re_now v) d s (a\<lparr>an_scaling := Some (scaling_status_of s)\<rparr>)"
  let ?a2 = "ready_condition L (re_now v) (?a1\<lparr>an_replicas := dp_ready d\<rparr>)"
  have tr: "tr = [PatchStatus (status_of (?a2\<lparr>an_observed_generation := an_generation ?a2\<rparr>))]"
    using assms(2) by (simp add: update_status_def patch_status_def put_object_def Let_def act_fail_def split: option.splits)
  have one: "holds_in L ?a1 t = (if t = cond_deployment then sd_replicas s = 0 \<or> sd_replicas s \<le> dp_ready d else holds_in L a t)" for t
    by (auto simp: deployment_condition_def holds_set_condition [OF assms(1)] holds_in_fields)
  have "holds_in L ?a2 cond_ready = ((sd_replicas s = 0 \<or> sd_replicas s \<le> dp_ready d) \<and> holds_in L a cond_mcp \<and> holds_in L a cond_persona)"
    unfolding ready_condition_holds [OF assms(1)]
    using assms(3) by (simp add: holds_in_fields one sub_conditions_def condition_names)
  with tr show ?thesis by (simp add: status_of_def holds_in_def)
qed


lemma persona_condition_success:
  assumes "condition_laws L" "persona_condition L v a = (Inr a', tr)"
  shows "holds_in L a' t =
      (if t = cond_persona then \<exists>data. te_config_map (re_template v) (persona_config_map (an_persona a)) = Found data else holds_in L a t) \<and>
    tr = []"
  using assms
  by (auto simp: persona_condition_def Let_def holds_set_condition [OF assms(1)] act_return_def act_fail_def split: lookup.splits)

lemma mcp_conditions:
  assumes "condition_laws L" "mcp_token_condition L v missing a = (Inr a', tr)" "t \<noteq> cond_degraded"
  shows "holds_in L (mcp_discovery_condition L now missing a') t = (if t = cond_mcp then missing = [] else holds_in L a t)"
  using assms
  by (auto simp: mcp_token_condition_def mcp_discovery_condition_def holds_set_condition [OF assms(1)] act_return_def split: if_splits)

lemma mcp_token_persona: "mcp_token_condition L v missing a = (Inr a', tr) \<Longrightarrow> an_persona a' = an_persona a"
  by (auto simp: mcp_token_condition_def act_return_def split: if_splits)

lemma mcp_discovery_persona [simp]: "an_persona (mcp_discovery_condition L now missing a) = an_persona a"
  by (simp add: mcp_discovery_condition_def)

lemma reconcile_deployment_success:
  assumes "reconcile_deployment sha v oc a img = (Inr (d, scale, missing), tr)"
  shows "tr = [PutDeployment (resource_name a) d] \<and> dp_replicas d = Some (sd_replicas scale) \<and>
    missing = missing_token_env (oc_env oc) a img"
  using assms
  by (auto simp: reconcile_deployment_def own_object_def put_object_def mutate_deployment_def Let_def act_fail_def act_return_def act_then_def
      split: sum.splits option.splits prod.splits)

text \<open>
  An agent is reported Ready exactly when it is: a pass that goes through asks for a deployment and then patches the status, and the
  Ready condition of that patch is true if and only if no token variable of an MCP server is missing, the ConfigMap of the persona is there, and
  either no pods are wanted or at least as many are ready as the deployment asks for.
\<close>

theorem ready_exact:
  assumes "condition_laws L"
    and "reconcile_with_image sha L oc v created a img = (Inr requeue, tr)"
  shows "\<exists>d p. PutDeployment (resource_name a) d \<in> set tr \<and> PatchStatus p \<in> set tr \<and>
    (case lib_find L (pa_conditions p) cond_ready of None \<Rightarrow> False | Some c \<Rightarrow> cd_status c) =
      (missing_token_env (oc_env oc) a img = [] \<and>
       (\<exists>data. te_config_map (re_template v) (persona_config_map (an_persona a)) = Found data) \<and>
       (dp_replicas d = Some 0 \<or> (\<exists>n. dp_replicas d = Some n \<and> n \<le> dp_ready d)))"
proof -
  let ?a1 = "set_condition L (re_now v) cond_env_secret True ''Reconciled'' ''Image env secret is up to date'' a"
  from assms(2) obtain d scale missing w2 w3 where
    r1: "reconcile_deployment sha v oc ?a1 img = (Inr (d, scale, missing), w2)"
    and rest: "report_pass L v d scale missing ?a1 = (Inr requeue, w3)" and tr: "set w2 \<subseteq> set tr" "set w3 \<subseteq> set tr"
    unfolding reconcile_with_image_def Let_def by (auto elim!: act_then_success) (metis UnCI subsetI)
  from rest obtain a2 a3 u w31 w32 w34 where m: "mcp_token_condition L v missing ?a1 = (Inr a2, w31)"
    and pc: "persona_condition L v (mcp_discovery_condition L (re_now v) missing a2) = (Inr a3, w32)"
    and us: "update_status L v d scale a3 = (Inr u, w34)" and w3: "set w34 \<subseteq> set w3"
    unfolding report_pass_def by (auto elim!: act_then_success) (metis UnCI subsetI)
  note holds = persona_condition_success [OF assms(1) pc] mcp_conditions [OF assms(1) m] mcp_token_persona [OF m] holds_set_condition [OF assms(1)]
  have "holds_in L a3 cond_env_secret"
    using holds by (simp add: condition_names)
  from update_status_patch [OF assms(1) us this] obtain p where p: "w34 = [PatchStatus p]"
    and ready: "(case lib_find L (pa_conditions p) cond_ready of None \<Rightarrow> False | Some c \<Rightarrow> cd_status c) =
      ((sd_replicas scale = 0 \<or> sd_replicas scale \<le> dp_ready d) \<and> holds_in L a3 cond_mcp \<and> holds_in L a3 cond_persona)" by blast
  have "holds_in L a3 cond_mcp = (missing = [])"
    "holds_in L a3 cond_persona = (\<exists>data. te_config_map (re_template v) (persona_config_map (an_persona a)) = Found data)"
    using holds by (simp_all add: condition_names)
  moreover have "w2 = [PutDeployment (resource_name a) d]" "dp_replicas d = Some (sd_replicas scale)"
    "missing = missing_token_env (oc_env oc) a img"
    using reconcile_deployment_success [OF r1] by (simp_all add: missing_token_env_conditions)
  ultimately show ?thesis
    using ready p w3 tr by (intro exI [of _ d] exI [of _ p]) auto
qed


text \<open>Conditions kept in a list, the first of a type counts.\<close>

definition list_conditions :: condition_lib where
  "list_conditions = \<lparr>lib_set = (\<lambda>c cs. c # filter (\<lambda>d. cd_type d \<noteq> cd_type c) cs), lib_find = (\<lambda>cs t. List.find (\<lambda>c. cd_type c = t) cs)\<rparr>"

lemma find_other_type:
  "cd_type c \<noteq> t \<Longrightarrow> List.find (\<lambda>d. cd_type d = t) (filter (\<lambda>d. cd_type d \<noteq> cd_type c) cs) = List.find (\<lambda>d. cd_type d = t) cs"
  by (induction cs) auto

lemma list_conditions_laws: "condition_laws list_conditions"
  by (simp add: condition_laws_def list_conditions_def find_other_type)

definition sample_pass :: pass_env where
  "sample_pass = \<lparr>re_now = 0, re_agent = Found sample_agent, re_image = (\<lambda>_. Found sample_image), re_own = (\<lambda>_. None), re_write = (\<lambda>_. None),
     re_env_secret = Missing, re_deployment = Inr None, re_template = sample_env ''one'', re_monitor = NoMonitorKind, re_recorder = False\<rparr>"

theorem ready_exact_witness:
  "\<exists>requeue tr p. reconcile_with_image id list_conditions sample_config sample_pass Created sample_agent sample_image = (Inr requeue, tr) \<and>
    PatchStatus p \<in> set tr \<and>
    \<not> (case lib_find list_conditions (pa_conditions p) cond_ready of None \<Rightarrow> False | Some c \<Rightarrow> cd_status c)"
proof -
  obtain t where "pod_template_of id (sample_env ''one'') (oc_env sample_config) (oc_grace sample_config)
      (set_condition list_conditions 0 cond_env_secret True ''Reconciled'' ''Image env secret is up to date'' sample_agent) sample_image = Inr t"
    using sample_template by blast
  then have "\<exists>requeue tr. reconcile_with_image id list_conditions sample_config sample_pass Created sample_agent sample_image = (Inr requeue, tr)"
    by (simp add: reconcile_with_image_def Let_def reconcile_models_def own_object_def put_object_def with_prefix_def sample_pass_def
        reconcile_env_secret_def reconcile_deployment_def mutate_deployment_def report_pass_def mcp_token_condition_def persona_condition_def
        reconcile_service_def reconcile_monitor_def update_status_def patch_status_def act_return_def sample_env_def split: prod.split)
  then obtain requeue tr where r: "reconcile_with_image id list_conditions sample_config sample_pass Created sample_agent sample_image = (Inr requeue, tr)"
    by blast
  from ready_exact [OF list_conditions_laws r] obtain p where "PatchStatus p \<in> set tr"
    "\<not> (case lib_find list_conditions (pa_conditions p) cond_ready of None \<Rightarrow> False | Some c \<Rightarrow> cd_status c)"
    by (auto simp: sample_pass_def sample_env_def)
  with r show ?thesis by blast
qed

end
