(* ===== verification/Authz.thy ===== *)
theory Authz
  imports Stores
begin

text \<open>
  Users, groups and the ownership of resources (\<^verbatim>\<open>services/hub/internal/authz\<close>): the PostgreSQL store on the
  tables of the migrations 0003, 0016 and 0017, the cache of group roles, the checks built on both,
  and the guards of the API server that call them (\<^verbatim>\<open>services/hub/internal/api/server.go\<close>). The table of API
  tokens (migration 0004) is a part of the database because deleting a user removes rows of it.
  Rows with equal order keys come in table order.
\<close>

section \<open>Tables\<close>

type_synonym group_role = string

definition role_reader :: group_role where "role_reader = ''reader''"
definition role_writer :: group_role where "role_writer = ''writer''"
definition role_owner :: group_role where "role_owner = ''owner''"

lemmas role_defs = role_reader_def role_writer_def role_owner_def

definition role_rank :: "group_role \<Rightarrow> nat" where
  "role_rank r = (if r = role_reader then 1 else if r = role_writer then 2 else if r = role_owner then 3 else 0)"

definition role_covers :: "group_role \<Rightarrow> group_role \<Rightarrow> bool" where
  "role_covers have need \<longleftrightarrow> role_rank need \<le> role_rank have"

record user =
  us_id :: string
  us_email :: string
  us_username :: string
  us_admin :: bool
  us_created :: instant
  us_updated :: instant

text \<open>A row also has the password hash, which no \<^verbatim>\<open>User\<close> carries.\<close>

record user_row = user +
  us_password :: string

definition scan_user :: "user_row \<Rightarrow> user" where
  "scan_user r = \<lparr>us_id = us_id r, us_email = us_email r, us_username = us_username r, us_admin = us_admin r,
     us_created = us_created r, us_updated = us_updated r\<rparr>"

record group =
  gr_id :: string
  gr_name :: string
  gr_description :: string
  gr_created :: instant
  gr_updated :: instant

record group_member =
  gm_group :: string
  gm_user :: string
  gm_role :: group_role

record resource_group =
  rg_type :: string
  rg_name :: string
  rg_group :: string
  rg_public :: bool
  rg_created :: instant

record user_token =
  ut_id :: string
  ut_user :: string
  ut_name :: string
  ut_hash :: string
  ut_expires :: instant
  ut_last_used :: "instant option"
  ut_created :: instant
  ut_revoked :: "instant option"

record authz_db =
  az_users :: "user_row list"
  az_groups :: "group list"
  az_members :: "group_member list"
  az_resources :: "resource_group list"
  az_tokens :: "user_token list"

section \<open>Users\<close>

definition upsert_user :: "pg \<Rightarrow> instant \<Rightarrow> string \<Rightarrow> string \<Rightarrow> string \<Rightarrow> authz_db \<Rightarrow> (user, authz_db) outcome" where
  "upsert_user pg now sub email username db =
     (if \<not> pg 0 then (Inl (StatementError ''upsert user''), db)
      else (case lookup_row us_id sub (az_users db) of
              None \<Rightarrow>
                let r = \<lparr>us_id = sub, us_email = email, us_username = username, us_admin = False,
                         us_created = now, us_updated = now, us_password = []\<rparr>
                in (Inr (scan_user r), db\<lparr>az_users := az_users db @ [r]\<rparr>)
            | Some r \<Rightarrow>
                let f = (\<lambda>r. r\<lparr>us_email := (if email = [] then us_email r else email),
                               us_username := (if username = [] then us_username r else username), us_updated := now\<rparr>)
                in (Inr (scan_user (f r)), db\<lparr>az_users := update_where (\<lambda>r. us_id r = sub) f (az_users db)\<rparr>)))"

definition get_user :: "pg \<Rightarrow> string \<Rightarrow> authz_db \<Rightarrow> store_error + user" where
  "get_user pg i db =
     (if \<not> pg 0 then Inl (StatementError ''authz.GetUser'')
      else (case lookup_row us_id i (az_users db) of None \<Rightarrow> Inl NotFound | Some r \<Rightarrow> Inr (scan_user r)))"

definition list_users :: "pg \<Rightarrow> authz_db \<Rightarrow> store_error + user list" where
  "list_users pg db =
     (if \<not> pg 0 then Inl (StatementError ''authz.ListUsers'')
      else Inr (map scan_user (sort_key us_username (az_users db))))"

text \<open>\<open>UPDATE users SET \<dots>, updated_at = now() WHERE id = i\<close>, which fails when no row is affected.\<close>

definition update_user :: "string \<Rightarrow> pg \<Rightarrow> instant \<Rightarrow> string \<Rightarrow> (user_row \<Rightarrow> user_row) \<Rightarrow> authz_db \<Rightarrow> (unit, authz_db) outcome" where
  "update_user op pg now i f db =
     (if \<not> pg 0 then (Inl (StatementError op), db)
      else if \<not> has_row us_id i (az_users db) then (Inl NotFound, db)
      else (Inr (), db\<lparr>az_users := update_where (\<lambda>r. us_id r = i) (\<lambda>r. (f r)\<lparr>us_updated := now\<rparr>) (az_users db)\<rparr>))"

definition set_admin :: "pg \<Rightarrow> instant \<Rightarrow> string \<Rightarrow> bool \<Rightarrow> authz_db \<Rightarrow> (unit, authz_db) outcome" where
  "set_admin pg now i is_admin = update_user ''authz.SetAdmin'' pg now i (\<lambda>r. r\<lparr>us_admin := is_admin\<rparr>)"

definition clear_username :: "pg \<Rightarrow> instant \<Rightarrow> string \<Rightarrow> authz_db \<Rightarrow> (unit, authz_db) outcome" where
  "clear_username pg now i = update_user ''authz.ClearUsername'' pg now i (\<lambda>r. r\<lparr>us_username := []\<rparr>)"

definition set_password :: "pg \<Rightarrow> instant \<Rightarrow> string \<Rightarrow> string \<Rightarrow> authz_db \<Rightarrow> (unit, authz_db) outcome" where
  "set_password pg now i hash = update_user ''authz.SetPassword'' pg now i (\<lambda>r. r\<lparr>us_password := hash\<rparr>)"

definition local_user_id_prefix :: string where "local_user_id_prefix = ''local:''"

definition create_local_user ::
  "pg \<Rightarrow> instant \<Rightarrow> string \<Rightarrow> string \<Rightarrow> string \<Rightarrow> string \<Rightarrow> bool \<Rightarrow> authz_db \<Rightarrow> (user, authz_db) outcome" where
  "create_local_user pg now i email username hash is_admin db =
     (if \<not> pg 0 then (Inl (StatementError ''authz.CreateLocalUser''), db)
      else if has_row us_id i (az_users db) then (Inl AlreadyExists, db)
      else (let r = \<lparr>us_id = i, us_email = email, us_username = username, us_admin = is_admin,
                     us_created = now, us_updated = now, us_password = hash\<rparr>
            in (Inr (scan_user r), db\<lparr>az_users := az_users db @ [r]\<rparr>)))"

definition user_password_hash :: "pg \<Rightarrow> string \<Rightarrow> authz_db \<Rightarrow> store_error + string" where
  "user_password_hash pg i db =
     (if \<not> pg 0 then Inl (StatementError ''authz.UserPasswordHash'')
      else (case lookup_row us_id i (az_users db) of None \<Rightarrow> Inl NotFound | Some r \<Rightarrow> Inr (us_password r)))"

text \<open>Memberships and tokens of the user go with the row (ON DELETE CASCADE).\<close>

definition delete_user :: "pg \<Rightarrow> string \<Rightarrow> authz_db \<Rightarrow> (unit, authz_db) outcome" where
  "delete_user pg i db =
     (if \<not> pg 0 then (Inl (StatementError ''authz.DeleteUser''), db)
      else if \<not> has_row us_id i (az_users db) then (Inl NotFound, db)
      else (Inr (), db\<lparr>az_users := delete_rows us_id i (az_users db),
                       az_members := delete_rows gm_user i (az_members db),
                       az_tokens := delete_rows ut_user i (az_tokens db)\<rparr>))"

section \<open>Groups\<close>

definition create_group :: "pg \<Rightarrow> string \<Rightarrow> instant \<Rightarrow> string \<Rightarrow> string \<Rightarrow> authz_db \<Rightarrow> (group, authz_db) outcome" where
  "create_group pg new_id now name description db =
     (if \<not> pg 0 \<or> has_row gr_id new_id (az_groups db) \<or> has_row gr_name name (az_groups db)
      then (Inl (StatementError ''create group''), db)
      else (let g = \<lparr>gr_id = new_id, gr_name = name, gr_description = description, gr_created = now, gr_updated = now\<rparr>
            in (Inr g, db\<lparr>az_groups := az_groups db @ [g]\<rparr>)))"

definition get_group :: "pg \<Rightarrow> string \<Rightarrow> authz_db \<Rightarrow> store_error + group" where
  "get_group pg i db =
     (if \<not> pg 0 then Inl (StatementError ''authz.GetGroup'')
      else (case lookup_row gr_id i (az_groups db) of None \<Rightarrow> Inl NotFound | Some g \<Rightarrow> Inr g))"

definition list_groups :: "pg \<Rightarrow> authz_db \<Rightarrow> store_error + group list" where
  "list_groups pg db =
     (if \<not> pg 0 then Inl (StatementError ''authz.ListGroups'') else Inr (sort_key gr_name (az_groups db)))"

text \<open>The new name must not be the name of another group.\<close>

definition update_group :: "pg \<Rightarrow> instant \<Rightarrow> string \<Rightarrow> string \<Rightarrow> string \<Rightarrow> authz_db \<Rightarrow> (group, authz_db) outcome" where
  "update_group pg now i name description db =
     (if \<not> pg 0 then (Inl (StatementError ''authz.UpdateGroup''), db)
      else (case lookup_row gr_id i (az_groups db) of
              None \<Rightarrow> (Inl NotFound, db)
            | Some g \<Rightarrow>
                if list_ex (\<lambda>h. gr_name h = name \<and> gr_id h \<noteq> i) (az_groups db)
                then (Inl (StatementError ''authz.UpdateGroup''), db)
                else let f = (\<lambda>g. g\<lparr>gr_name := name, gr_description := description, gr_updated := now\<rparr>)
                     in (Inr (f g), db\<lparr>az_groups := update_where (\<lambda>g. gr_id g = i) f (az_groups db)\<rparr>)))"

definition delete_group :: "pg \<Rightarrow> string \<Rightarrow> authz_db \<Rightarrow> (unit, authz_db) outcome" where
  "delete_group pg i db =
     (if \<not> pg 0 then (Inl (StatementError ''authz.DeleteGroup''), db)
      else if \<not> has_row gr_id i (az_groups db) then (Inl NotFound, db)
      else (Inr (), db\<lparr>az_groups := delete_rows gr_id i (az_groups db),
                       az_members := delete_rows gm_group i (az_members db),
                       az_resources := delete_rows rg_group i (az_resources db)\<rparr>))"

abbreviation member_key :: "group_member \<Rightarrow> string \<times> string" where
  "member_key m \<equiv> (gm_group m, gm_user m)"

text \<open>The role is checked and both ids are foreign keys.\<close>

definition add_group_member :: "pg \<Rightarrow> string \<Rightarrow> string \<Rightarrow> group_role \<Rightarrow> authz_db \<Rightarrow> (unit, authz_db) outcome" where
  "add_group_member pg gid uid role db =
     (if \<not> pg 0 \<or> role_rank role = 0 \<or> \<not> has_row gr_id gid (az_groups db) \<or> \<not> has_row us_id uid (az_users db)
      then (Inl (StatementError ''authz.AddGroupMember''), db)
      else if has_row member_key (gid, uid) (az_members db)
      then (Inr (), db\<lparr>az_members := update_where (\<lambda>m. member_key m = (gid, uid)) (\<lambda>m. m\<lparr>gm_role := role\<rparr>) (az_members db)\<rparr>)
      else (Inr (), db\<lparr>az_members := az_members db @ [\<lparr>gm_group = gid, gm_user = uid, gm_role = role\<rparr>]\<rparr>))"

definition remove_group_member :: "pg \<Rightarrow> string \<Rightarrow> string \<Rightarrow> authz_db \<Rightarrow> (unit, authz_db) outcome" where
  "remove_group_member pg gid uid db =
     (if \<not> pg 0 then (Inl (StatementError ''authz.RemoveGroupMember''), db)
      else if \<not> has_row member_key (gid, uid) (az_members db) then (Inl NotFound, db)
      else (Inr (), db\<lparr>az_members := delete_rows member_key (gid, uid) (az_members db)\<rparr>))"

definition list_group_members :: "pg \<Rightarrow> string \<Rightarrow> authz_db \<Rightarrow> store_error + (user \<times> group_role) list" where
  "list_group_members pg gid db =
     (if \<not> pg 0 then Inl (StatementError ''authz.ListGroupMembers'')
      else Inr (sort_key (\<lambda>(u, _). us_username u)
             [(scan_user r, gm_role m). m \<leftarrow> az_members db, gm_group m = gid, r \<leftarrow> az_users db, us_id r = gm_user m]))"

definition user_group_ids :: "pg \<Rightarrow> string \<Rightarrow> authz_db \<Rightarrow> store_error + string list" where
  "user_group_ids pg uid db =
     (if \<not> pg 0 then Inl (StatementError ''authz.UserGroupIDs'')
      else Inr (map gm_group (filter (\<lambda>m. gm_user m = uid) (az_members db))))"

type_synonym roles = "(string \<times> group_role) list"

definition user_group_roles :: "pg \<Rightarrow> string \<Rightarrow> authz_db \<Rightarrow> store_error + roles" where
  "user_group_roles pg uid db =
     (if \<not> pg 0 then Inl (StatementError ''authz.UserGroupRoles'')
      else Inr (map (\<lambda>m. (gm_group m, gm_role m)) (filter (\<lambda>m. gm_user m = uid) (az_members db))))"

section \<open>Resources\<close>

abbreviation resource_key :: "resource_group \<Rightarrow> string \<times> string" where
  "resource_key r \<equiv> (rg_type r, rg_name r)"

definition set_resource_group ::
  "pg \<Rightarrow> instant \<Rightarrow> string \<Rightarrow> string \<Rightarrow> string \<Rightarrow> bool \<Rightarrow> authz_db \<Rightarrow> (unit, authz_db) outcome" where
  "set_resource_group pg now rt rn gid public db =
     (if \<not> pg 0 \<or> \<not> has_row gr_id gid (az_groups db) then (Inl (StatementError ''authz.SetResourceGroup''), db)
      else if has_row resource_key (rt, rn) (az_resources db)
      then (Inr (), db\<lparr>az_resources := update_where (\<lambda>r. resource_key r = (rt, rn))
               (\<lambda>r. r\<lparr>rg_group := gid, rg_public := public\<rparr>) (az_resources db)\<rparr>)
      else (Inr (), db\<lparr>az_resources := az_resources db @
               [\<lparr>rg_type = rt, rg_name = rn, rg_group = gid, rg_public = public, rg_created = now\<rparr>]\<rparr>))"

definition get_resource_group :: "pg \<Rightarrow> string \<Rightarrow> string \<Rightarrow> authz_db \<Rightarrow> store_error + resource_group" where
  "get_resource_group pg rt rn db =
     (if \<not> pg 0 then Inl (StatementError ''authz.GetResourceGroup'')
      else (case lookup_row resource_key (rt, rn) (az_resources db) of None \<Rightarrow> Inl NotFound | Some r \<Rightarrow> Inr r))"

definition delete_resource_group :: "pg \<Rightarrow> string \<Rightarrow> string \<Rightarrow> authz_db \<Rightarrow> (unit, authz_db) outcome" where
  "delete_resource_group pg rt rn db =
     (if \<not> pg 0 then (Inl (StatementError ''authz.DeleteResourceGroup''), db)
      else (Inr (), db\<lparr>az_resources := delete_rows resource_key (rt, rn) (az_resources db)\<rparr>))"

definition set_resource_public :: "pg \<Rightarrow> string \<Rightarrow> string \<Rightarrow> bool \<Rightarrow> authz_db \<Rightarrow> (unit, authz_db) outcome" where
  "set_resource_public pg rt rn public db =
     (if \<not> pg 0 then (Inl (StatementError ''authz.SetResourcePublic''), db)
      else if \<not> has_row resource_key (rt, rn) (az_resources db) then (Inl NotFound, db)
      else (Inr (), db\<lparr>az_resources := update_where (\<lambda>r. resource_key r = (rt, rn)) (\<lambda>r. r\<lparr>rg_public := public\<rparr>)
               (az_resources db)\<rparr>))"

definition list_resources_by_groups :: "pg \<Rightarrow> string \<Rightarrow> string list \<Rightarrow> bool \<Rightarrow> authz_db \<Rightarrow> store_error + string list" where
  "list_resources_by_groups pg rt gids include_public db =
     (if \<not> pg 0 then Inl (StatementError ''authz.ListResourcesByGroups'')
      else Inr (sort (map rg_name (filter (\<lambda>r. rg_type r = rt \<and> (rg_group r \<in> set gids \<or> include_public \<and> rg_public r))
             (az_resources db)))))"

section \<open>The cache of group roles\<close>

record group_cache =
  gc_ttl :: duration
  gc_items :: "(string \<times> roles \<times> instant) list"

definition new_group_cache :: "duration \<Rightarrow> group_cache" where
  "new_group_cache ttl = \<lparr>gc_ttl = ttl, gc_items = []\<rparr>"

text \<open>\<open>load\<close> is what the loader answers, read between the instants \<open>now\<close> and \<open>later\<close>.\<close>

definition user_roles ::
  "instant \<Rightarrow> instant \<Rightarrow> store_error + roles \<Rightarrow> string \<Rightarrow> group_cache \<Rightarrow> (roles, group_cache) outcome" where
  "user_roles now later load uid c =
     (case map_of (gc_items c) uid of
        Some (roles, expires) \<Rightarrow>
          if now < expires then (Inr roles, c)
          else (case load of Inl e \<Rightarrow> (Inl e, c) | Inr rs \<Rightarrow> (Inr rs, c\<lparr>gc_items := aput uid (rs, later + gc_ttl c) (gc_items c)\<rparr>))
      | None \<Rightarrow>
          (case load of Inl e \<Rightarrow> (Inl e, c) | Inr rs \<Rightarrow> (Inr rs, c\<lparr>gc_items := aput uid (rs, later + gc_ttl c) (gc_items c)\<rparr>)))"

definition role_in :: "roles \<Rightarrow> string \<Rightarrow> group_role" where
  "role_in rs gid = (case map_of rs gid of None \<Rightarrow> [] | Some r \<Rightarrow> r)"

definition user_role ::
  "instant \<Rightarrow> instant \<Rightarrow> store_error + roles \<Rightarrow> string \<Rightarrow> string \<Rightarrow> group_cache \<Rightarrow> (group_role, group_cache) outcome" where
  "user_role now later load uid gid c =
     (case user_roles now later load uid c of (Inl e, c') \<Rightarrow> (Inl e, c') | (Inr rs, c') \<Rightarrow> (Inr (role_in rs gid), c'))"

definition group_ids ::
  "instant \<Rightarrow> instant \<Rightarrow> store_error + roles \<Rightarrow> string \<Rightarrow> group_cache \<Rightarrow> (string list, group_cache) outcome" where
  "group_ids now later load uid c =
     (case user_roles now later load uid c of (Inl e, c') \<Rightarrow> (Inl e, c') | (Inr rs, c') \<Rightarrow> (Inr (map fst rs), c'))"

definition invalidate :: "string \<Rightarrow> group_cache \<Rightarrow> group_cache" where
  "invalidate uid c = c\<lparr>gc_items := adel uid (gc_items c)\<rparr>"

definition invalidate_all :: "group_cache \<Rightarrow> group_cache" where
  "invalidate_all c = c\<lparr>gc_items := []\<rparr>"

section \<open>Checks\<close>

text \<open>
  The surroundings of one check: whether the query for the user, for the resource and
  for the roles is executed, and the two instants at which the cache reads the clock.
\<close>

record check_env =
  ck_user :: bool
  ck_resource :: bool
  ck_roles :: bool
  ck_now :: instant
  ck_later :: instant

definition is_admin :: "check_env \<Rightarrow> authz_db \<Rightarrow> string \<Rightarrow> store_error + bool" where
  "is_admin v db uid = (case get_user (\<lambda>_. ck_user v) uid db of Inl e \<Rightarrow> Inl e | Inr u \<Rightarrow> Inr (us_admin u))"

definition role_of :: "check_env \<Rightarrow> authz_db \<Rightarrow> string \<Rightarrow> string \<Rightarrow> group_cache \<Rightarrow> (group_role, group_cache) outcome" where
  "role_of v db uid gid c =
     user_role (ck_now v) (ck_later v) (user_group_roles (\<lambda>_. ck_roles v) uid db) uid gid c"

definition can_read ::
  "check_env \<Rightarrow> authz_db \<Rightarrow> string \<Rightarrow> string \<Rightarrow> string \<Rightarrow> group_cache \<Rightarrow> (bool, group_cache) outcome" where
  "can_read v db uid rt rn c =
     (case is_admin v db uid of
        Inl e \<Rightarrow> (Inl e, c)
      | Inr admin \<Rightarrow>
          if admin then (Inr True, c)
          else (case get_resource_group (\<lambda>_. ck_resource v) rt rn db of
                  Inl e \<Rightarrow> if e = NotFound then (Inr False, c) else (Inl e, c)
                | Inr rg \<Rightarrow>
                    if rg_public rg then (Inr True, c)
                    else (case role_of v db uid (rg_group rg) c of
                            (Inl e, c') \<Rightarrow> (Inl e, c')
                          | (Inr role, c') \<Rightarrow> (Inr (role_covers role role_reader), c'))))"

definition can_write ::
  "check_env \<Rightarrow> authz_db \<Rightarrow> string \<Rightarrow> string \<Rightarrow> string \<Rightarrow> group_cache \<Rightarrow> (bool, group_cache) outcome" where
  "can_write v db uid rt rn c =
     (case is_admin v db uid of
        Inl e \<Rightarrow> (Inl e, c)
      | Inr admin \<Rightarrow>
          if admin then (Inr True, c)
          else (case get_resource_group (\<lambda>_. ck_resource v) rt rn db of
                  Inl e \<Rightarrow> if e = NotFound then (Inr False, c) else (Inl e, c)
                | Inr rg \<Rightarrow>
                    (case role_of v db uid (rg_group rg) c of
                       (Inl e, c') \<Rightarrow> (Inl e, c')
                     | (Inr role, c') \<Rightarrow> (Inr (role_covers role role_writer), c'))))"

definition can_manage ::
  "check_env \<Rightarrow> authz_db \<Rightarrow> string \<Rightarrow> string \<Rightarrow> string \<Rightarrow> group_cache \<Rightarrow> (bool, group_cache) outcome" where
  "can_manage v db uid rt rn c =
     (case is_admin v db uid of
        Inl e \<Rightarrow> (Inl e, c)
      | Inr admin \<Rightarrow>
          if admin then (Inr True, c)
          else (case get_resource_group (\<lambda>_. ck_resource v) rt rn db of
                  Inl e \<Rightarrow> if e = NotFound then (Inr False, c) else (Inl e, c)
                | Inr rg \<Rightarrow>
                    (case role_of v db uid (rg_group rg) c of
                       (Inl e, c') \<Rightarrow> (Inl e, c')
                     | (Inr role, c') \<Rightarrow> (Inr (role_covers role role_owner), c'))))"

definition can_manage_group :: "check_env \<Rightarrow> authz_db \<Rightarrow> string \<Rightarrow> string \<Rightarrow> group_cache \<Rightarrow> (bool, group_cache) outcome" where
  "can_manage_group v db uid gid c =
     (case is_admin v db uid of
        Inl e \<Rightarrow> (Inl e, c)
      | Inr admin \<Rightarrow>
          if admin then (Inr True, c)
          else (case role_of v db uid gid c of
                  (Inl e, c') \<Rightarrow> (Inl e, c') | (Inr role, c') \<Rightarrow> (Inr (role = role_owner), c')))"

definition can_write_group :: "check_env \<Rightarrow> authz_db \<Rightarrow> string \<Rightarrow> string \<Rightarrow> group_cache \<Rightarrow> (bool, group_cache) outcome" where
  "can_write_group v db uid gid c =
     (case is_admin v db uid of
        Inl e \<Rightarrow> (Inl e, c)
      | Inr admin \<Rightarrow>
          if admin then (Inr True, c)
          else (case role_of v db uid gid c of
                  (Inl e, c') \<Rightarrow> (Inl e, c') | (Inr role, c') \<Rightarrow> (Inr (role_covers role role_writer), c')))"

section \<open>Guards of the API\<close>

text \<open>What a guard writes when it refuses a request.\<close>

datatype denial = Unauthorized | Forbidden string | InternalError store_error

definition denial_status :: "denial \<Rightarrow> nat" where
  "denial_status d = (case d of Unauthorized \<Rightarrow> 401 | Forbidden _ \<Rightarrow> 403 | InternalError _ \<Rightarrow> 500)"

text \<open>
  A guard lets the request pass when no checker is wired, and otherwise needs a caller the
  middleware has put into the request, and a check that answers true.
\<close>

definition guard ::
  "bool \<Rightarrow> string option \<Rightarrow> string \<Rightarrow> (string \<Rightarrow> group_cache \<Rightarrow> (bool, group_cache) outcome) \<Rightarrow> group_cache \<Rightarrow>
   (denial + unit) \<times> group_cache" where
  "guard wired caller msg check c =
     (if \<not> wired then (Inr (), c)
      else (case caller of
              None \<Rightarrow> (Inl Unauthorized, c)
            | Some sub \<Rightarrow>
                (case check sub c of
                   (Inl e, c') \<Rightarrow> (Inl (InternalError e), c')
                 | (Inr ok, c') \<Rightarrow> (if ok then Inr () else Inl (Forbidden msg), c'))))"

definition require_read where
  "require_read wired v db caller rt rn = guard wired caller ''forbidden'' (\<lambda>sub. can_read v db sub rt rn)"

definition require_write where
  "require_write wired v db caller rt rn = guard wired caller ''forbidden'' (\<lambda>sub. can_write v db sub rt rn)"

definition require_group_owner where
  "require_group_owner wired v db caller gid =
     guard wired caller ''group owner or admin required'' (\<lambda>sub. can_manage_group v db sub gid)"

definition require_group_write where
  "require_group_write wired v db caller gid =
     guard wired caller ''writer or owner of the group required'' (\<lambda>sub. can_write_group v db sub gid)"

text \<open>The admin guard needs a checker and answers every failure of it with 403.\<close>

definition require_admin :: "bool \<Rightarrow> check_env \<Rightarrow> authz_db \<Rightarrow> string option \<Rightarrow> denial + unit" where
  "require_admin wired v db caller =
     (case caller of
        None \<Rightarrow> Inl Unauthorized
      | Some sub \<Rightarrow>
          if \<not> wired then Inl (Forbidden ''admin required'')
          else (case is_admin v db sub of
                  Inl _ \<Rightarrow> Inl (Forbidden ''admin required'')
                | Inr admin \<Rightarrow> if admin then Inr () else Inl (Forbidden ''admin required'')))"

definition caller_is_admin :: "bool \<Rightarrow> check_env \<Rightarrow> authz_db \<Rightarrow> string option \<Rightarrow> bool" where
  "caller_is_admin wired v db caller =
     (wired \<and> (case caller of None \<Rightarrow> False
                | Some sub \<Rightarrow> (case is_admin v db sub of Inl _ \<Rightarrow> False | Inr admin \<Rightarrow> admin)))"

definition caller_group_ids :: "bool \<Rightarrow> pg \<Rightarrow> authz_db \<Rightarrow> string option \<Rightarrow> string list" where
  "caller_group_ids wired pg db caller =
     (if \<not> wired then []
      else (case caller of None \<Rightarrow> []
            | Some sub \<Rightarrow> (case user_group_ids pg sub db of Inl _ \<Rightarrow> [] | Inr ids \<Rightarrow> ids)))"

definition filter_by_access ::
  "bool \<Rightarrow> check_env \<Rightarrow> authz_db \<Rightarrow> string option \<Rightarrow> bool \<Rightarrow> string \<Rightarrow> string list \<Rightarrow> string list" where
  "filter_by_access wired v db caller include_public rt names =
     (if \<not> wired \<or> caller_is_admin wired v db caller then names
      else (case list_resources_by_groups (\<lambda>_. ck_resource v) rt
                   (caller_group_ids wired (\<lambda>_. ck_roles v) db caller) include_public db of
              Inl _ \<Rightarrow> []
            | Inr accessible \<Rightarrow> filter (\<lambda>n. n \<in> set accessible) names))"

end
