(* ===== verification/UserTokens.thy ===== *)
theory UserTokens
  imports Authz
begin

text \<open>
  API tokens of users (\<^verbatim>\<open>services/hub/internal/usertokens\<close>): the store on the table \<open>user_tokens\<close>, which keeps
  the SHA-256 of a token and never its text. The hash function is the parameter \<open>sha\<close>;
  random bytes and ids are arguments.
\<close>

definition token_prefix :: string where "token_prefix = ''ainsel_''"

definition token_hash :: "(string \<Rightarrow> string) \<Rightarrow> string \<Rightarrow> string" where
  "token_hash sha plaintext = hex_encode (sha plaintext)"

text \<open>The text and the hash of a token made of the random bytes, when they can be read.\<close>

definition generate_token :: "(string \<Rightarrow> string) \<Rightarrow> string option \<Rightarrow> (string \<times> string) option" where
  "generate_token sha rnd =
     (case rnd of None \<Rightarrow> None
      | Some b \<Rightarrow> let plaintext = token_prefix @ hex_encode b in Some (plaintext, token_hash sha plaintext))"

text \<open>The user is a foreign key; the id and the hash are unique.\<close>

definition create_token ::
  "(string \<Rightarrow> string) \<Rightarrow> string option \<Rightarrow> pg \<Rightarrow> string \<Rightarrow> instant \<Rightarrow> string \<Rightarrow> string \<Rightarrow> instant \<Rightarrow> authz_db \<Rightarrow>
   (user_token \<times> string, authz_db) outcome" where
  "create_token sha rnd pg new_id now uid name expires db =
     (case generate_token sha rnd of
        None \<Rightarrow> (Inl (StatementError ''generate token''), db)
      | Some (plaintext, hash) \<Rightarrow>
          if \<not> pg 0 \<or> \<not> has_row us_id uid (az_users db) \<or> has_row ut_id new_id (az_tokens db) \<or> has_row ut_hash hash (az_tokens db)
          then (Inl (StatementError ''insert user token''), db)
          else (let t = \<lparr>ut_id = new_id, ut_user = uid, ut_name = name, ut_hash = hash, ut_expires = expires,
                         ut_last_used = None, ut_created = now, ut_revoked = None\<rparr>
                in (Inr (t, plaintext), db\<lparr>az_tokens := az_tokens db @ [t]\<rparr>)))"

definition list_tokens :: "pg \<Rightarrow> string \<Rightarrow> authz_db \<Rightarrow> store_error + user_token list" where
  "list_tokens pg uid db =
     (if \<not> pg 0 then Inl (StatementError ''list user tokens'')
      else Inr (sort_key (\<lambda>t. - ut_created t) (filter (\<lambda>t. ut_user t = uid) (az_tokens db))))"

definition revocable :: "string \<Rightarrow> string \<Rightarrow> user_token \<Rightarrow> bool" where
  "revocable i uid t \<longleftrightarrow> ut_id t = i \<and> ut_user t = uid \<and> ut_revoked t = None"

definition revoke_token :: "pg \<Rightarrow> instant \<Rightarrow> string \<Rightarrow> string \<Rightarrow> authz_db \<Rightarrow> (unit, authz_db) outcome" where
  "revoke_token pg now i uid db =
     (if \<not> pg 0 then (Inl (StatementError ''revoke user token''), db)
      else if \<not> list_ex (revocable i uid) (az_tokens db) then (Inl NotFound, db)
      else (Inr (), db\<lparr>az_tokens := update_where (revocable i uid) (\<lambda>t. t\<lparr>ut_revoked := Some now\<rparr>) (az_tokens db)\<rparr>))"

text \<open>A token that is known, not revoked and not expired is stamped as used and returned.\<close>

definition usable :: "instant \<Rightarrow> string \<Rightarrow> user_token \<Rightarrow> bool" where
  "usable now hash t \<longleftrightarrow> ut_hash t = hash \<and> ut_revoked t = None \<and> now < ut_expires t"

definition validate_token ::
  "(string \<Rightarrow> string) \<Rightarrow> pg \<Rightarrow> instant \<Rightarrow> string \<Rightarrow> authz_db \<Rightarrow> (user_token, authz_db) outcome" where
  "validate_token sha pg now plaintext db =
     (let hash = token_hash sha plaintext; use = (\<lambda>t. t\<lparr>ut_last_used := Some now\<rparr>) in
      if \<not> pg 0 then (Inl (StatementError ''validate user token''), db)
      else (case List.find (usable now hash) (az_tokens db) of
              None \<Rightarrow> (Inl NotFound, db)
            | Some t \<Rightarrow> (Inr (use t), db\<lparr>az_tokens := update_where (usable now hash) use (az_tokens db)\<rparr>)))"

end
