(* ===== verification/PasswordHash.thy ===== *)
theory PasswordHash
  imports Prelude
begin

text \<open>
  Passwords of local accounts (\<^verbatim>\<open>services/hub/internal/localauth/hash.go\<close>): the self-describing text of an
  argon2id hash and its verification. The key derivation of the package argon2 is the
  parameter \<open>kdf password salt time memory threads length\<close>; \<open>encoding/base64\<close> is modelled. The blanks that
  \<open>fmt.Sscanf\<close> skips before a number are not modelled: a stored hash has none.
\<close>

type_synonym kdf = "string \<Rightarrow> string \<Rightarrow> nat \<Rightarrow> nat \<Rightarrow> nat \<Rightarrow> nat \<Rightarrow> string"

section \<open>Base64 without padding\<close>

definition b64_char :: "nat \<Rightarrow> char" where
  "b64_char i =
     (if i < 26 then char_of (65 + i) else if i < 52 then char_of (71 + i) else if i < 62 then char_of (i - 4)
      else if i = 62 then CHR ''+'' else CHR ''/'')"

definition b64_val :: "char \<Rightarrow> nat option" where
  "b64_val c =
     (let k = of_char c in
      if 65 \<le> k \<and> k \<le> 90 then Some (k - 65) else if 97 \<le> k \<and> k \<le> 122 then Some (k - 71)
      else if 48 \<le> k \<and> k \<le> 57 then Some (k + 4) else if c = CHR ''+'' then Some 62
      else if c = CHR ''/'' then Some 63 else None)"

fun sextets :: "nat list \<Rightarrow> nat list" where
  "sextets (a # b # c # bs) =
     [a div 4, a mod 4 * 16 + b div 16, b mod 16 * 4 + c div 64, c mod 64] @ sextets bs"
| "sextets [a, b] = [a div 4, a mod 4 * 16 + b div 16, b mod 16 * 4]"
| "sextets [a] = [a div 4, a mod 4 * 16]"
| "sextets [] = []"

definition b64_encode :: "string \<Rightarrow> string" where
  "b64_encode s = map b64_char (sextets (map of_char s))"

text \<open>A last group of two or three digits drops its surplus bits; one digit is an error.\<close>

fun octets :: "nat list \<Rightarrow> nat list option" where
  "octets (w # x # y # z # vs) =
     map_option ((@) [w * 4 + x div 16, x mod 16 * 16 + y div 4, y mod 4 * 64 + z]) (octets vs)"
| "octets [w, x, y] = Some [w * 4 + x div 16, x mod 16 * 16 + y div 4]"
| "octets [w, x] = Some [w * 4 + x div 16]"
| "octets [w] = None"
| "octets [] = Some []"

fun b64_vals :: "string \<Rightarrow> nat list option" where
  "b64_vals [] = Some []"
| "b64_vals (c # s) =
     (case b64_val c of None \<Rightarrow> None | Some v \<Rightarrow> (case b64_vals s of None \<Rightarrow> None | Some vs \<Rightarrow> Some (v # vs)))"

text \<open>Line breaks are skipped.\<close>

definition b64_decode :: "string \<Rightarrow> string option" where
  "b64_decode s =
     (case b64_vals (filter (\<lambda>c. c \<noteq> CHR 0x0A \<and> c \<noteq> CHR 0x0D) s) of
        None \<Rightarrow> None | Some vs \<Rightarrow> map_option (map char_of) (octets vs))"

section \<open>The text of a hash\<close>

definition argon_time :: nat where "argon_time = 2"
definition argon_memory :: nat where "argon_memory = 19456"
definition argon_threads :: nat where "argon_threads = 1"
definition argon_key_len :: nat where "argon_key_len = 32"
definition max_key_len :: nat where "max_key_len = 128"

text \<open>\<open>salt\<close> holds the random bytes, when they can be read.\<close>

definition hash_password :: "kdf \<Rightarrow> string option \<Rightarrow> string \<Rightarrow> string option" where
  "hash_password kdf salt password =
     (case salt of
        None \<Rightarrow> None
      | Some s \<Rightarrow>
          Some (''$argon2id$v=19$m=19456,t=2,p=1$'' @ b64_encode s @ ''$'' @
            b64_encode (kdf password s argon_time argon_memory argon_threads argon_key_len)))"

definition expect :: "string \<Rightarrow> string \<Rightarrow> string option" where
  "expect p s = (if has_prefix s p then Some (drop (length p) s) else None)"

definition scan_uint :: "nat \<Rightarrow> string \<Rightarrow> (nat \<times> string) option" where
  "scan_uint bits s =
     (let ds = takeWhile (\<lambda>c. digit_val c \<noteq> None) s in
      if ds = [] then None
      else (case digits_val 0 ds of
              None \<Rightarrow> None | Some n \<Rightarrow> if n < 2 ^ bits then Some (nat n, drop (length ds) s) else None))"

definition scan_field :: "string \<Rightarrow> nat \<Rightarrow> string \<Rightarrow> (nat \<times> string) option" where
  "scan_field p bits s = (case expect p s of None \<Rightarrow> None | Some s' \<Rightarrow> scan_uint bits s')"

definition scan_params :: "string \<Rightarrow> (nat \<times> nat \<times> nat) option" where
  "scan_params s =
     (case scan_field ''m='' 32 s of
        None \<Rightarrow> None
      | Some (m, s1) \<Rightarrow>
          (case scan_field '',t='' 32 s1 of
             None \<Rightarrow> None
           | Some (t, s2) \<Rightarrow> (case scan_field '',p='' 8 s2 of None \<Rightarrow> None | Some (p, _) \<Rightarrow> Some (m, t, p))))"

text \<open>\<open>RoundsPanic\<close>: argon2 panics when the number of rounds is zero, which is not checked.\<close>

datatype verify_error = NoCredentials | InvalidHash | PasswordMismatch | RoundsPanic

definition verify_key :: "kdf \<Rightarrow> string \<Rightarrow> nat \<times> nat \<times> nat \<Rightarrow> string \<Rightarrow> string \<Rightarrow> verify_error + unit" where
  "verify_key kdf password ps salt want =
     (case ps of (m, t, p) \<Rightarrow>
      if want = [] \<or> max_key_len < length want \<or> p = 0 then Inl InvalidHash
      else if t = 0 then Inl RoundsPanic
      else if kdf password salt t m p (length want) = want then Inr () else Inl PasswordMismatch)"

definition verify_password :: "kdf \<Rightarrow> string \<Rightarrow> string \<Rightarrow> verify_error + unit" where
  "verify_password kdf password encoded =
     (if encoded = [] then Inl NoCredentials
      else let parts = split_on (CHR ''$'') encoded in
        if length parts \<noteq> 6 \<or> parts ! 1 \<noteq> ''argon2id'' then Inl InvalidHash
        else (case scan_params (parts ! 3) of
                None \<Rightarrow> Inl InvalidHash
              | Some ps \<Rightarrow>
                  (case b64_decode (parts ! 4) of
                     None \<Rightarrow> Inl InvalidHash
                   | Some salt \<Rightarrow>
                       (case b64_decode (parts ! 5) of
                          None \<Rightarrow> Inl InvalidHash | Some want \<Rightarrow> verify_key kdf password ps salt want))))"

section \<open>Round trips\<close>

lemma b64_code:
  "i < 64 \<Longrightarrow> of_char (b64_char i) =
     (if i < 26 then 65 + i else if i < 52 then 71 + i else if i < 62 then i - 4 else if i = 62 then 43 else 47)"
  by (simp add: b64_char_def of_char_of)

lemma b64_val_char: "i < 64 \<Longrightarrow> b64_val (b64_char i) = Some i"
  unfolding b64_val_def Let_def b64_code by (auto simp: b64_char_def)

text \<open>The characters of the alphabet are not line breaks and not the separator of the hash.\<close>

lemma b64_char_plain: "i < 64 \<Longrightarrow> b64_char i \<noteq> CHR 0x0A \<and> b64_char i \<noteq> CHR 0x0D \<and> b64_char i \<noteq> CHR ''$''"
proof -
  assume i: "i < 64"
  have "of_char (b64_char i) \<noteq> (10::nat)" "of_char (b64_char i) \<noteq> (13::nat)" "of_char (b64_char i) \<noteq> (36::nat)"
    unfolding b64_code [OF i] by auto
  then show ?thesis by auto
qed

lemma sextets_small: "\<forall>b \<in> set bs. b < 256 \<Longrightarrow> \<forall>v \<in> set (sextets bs). v < 64"
  by (induction bs rule: sextets.induct) auto

lemma octets_sextets: "\<forall>b \<in> set bs. b < 256 \<Longrightarrow> octets (sextets bs) = Some bs"
proof (induction bs rule: sextets.induct)
  case (1 a b c bs)
  have "a div 4 * 4 + (a mod 4 * 16 + b div 16) div 16 = a" using 1(2) by auto
  moreover have "(a mod 4 * 16 + b div 16) mod 16 * 16 + (b mod 16 * 4 + c div 64) div 4 = b" using 1(2) by auto
  moreover have "(b mod 16 * 4 + c div 64) mod 4 * 64 + c mod 64 = c" using 1(2) by auto
  ultimately show ?case using 1 by simp
qed auto

lemma b64_vals_map: "\<forall>v \<in> set vs. v < 64 \<Longrightarrow> b64_vals (map b64_char vs) = Some vs"
  by (induction vs) (auto simp: b64_val_char)

lemma b64_round_trip: "b64_decode (b64_encode s) = Some s"
proof -
  let ?vs = "sextets (map of_char s) :: nat list"
  have small: "\<forall>b \<in> set (map of_char s). b < (256 :: nat)" by auto
  have vs: "\<forall>v \<in> set ?vs. v < 64" using sextets_small [OF small] .
  have "filter (\<lambda>c. c \<noteq> CHR 0x0A \<and> c \<noteq> CHR 0x0D) (map b64_char ?vs) = map b64_char ?vs"
    using vs b64_char_plain by (auto simp: filter_id_conv)
  then show ?thesis
    using octets_sextets [OF small] b64_vals_map [OF vs] by (simp add: b64_decode_def b64_encode_def comp_def)
qed

lemma b64_encode_plain: "CHR ''$'' \<notin> set (b64_encode s)"
proof -
  have "\<forall>v \<in> set (sextets (map of_char s)). v < 64" by (rule sextets_small) auto
  then show ?thesis using b64_char_plain by (fastforce simp: b64_encode_def)
qed

lemma split_on_plain: "d \<notin> set s \<Longrightarrow> split_on d s = [s]"
  by (induction s) auto

lemma split_on_append: "d \<notin> set s \<Longrightarrow> split_on d (s @ d # r) = s # split_on d r"
  by (induction s) auto

lemma hash_parts:
  "split_on (CHR ''$'') (''$argon2id$v=19$m=19456,t=2,p=1$'' @ b64_encode s @ ''$'' @ b64_encode k) =
     [[], ''argon2id'', ''v=19'', ''m=19456,t=2,p=1'', b64_encode s, b64_encode k]"
  by (simp add: split_on_append b64_encode_plain split_on_plain)

lemma hash_params: "scan_params ''m=19456,t=2,p=1'' = Some (19456, 2, 1)"
  by code_simp

lemma password_accepts:
  assumes "\<And>p s t m n l. length (kdf p s t m n l) = l"
    and "hash_password kdf (Some salt) password = Some encoded"
  shows "verify_password kdf other encoded = Inr () \<longleftrightarrow>
    kdf other salt argon_time argon_memory argon_threads argon_key_len =
    kdf password salt argon_time argon_memory argon_threads argon_key_len"
proof -
  let ?k = "kdf password salt argon_time argon_memory argon_threads argon_key_len"
  have e: "encoded = ''$argon2id$v=19$m=19456,t=2,p=1$'' @ b64_encode salt @ ''$'' @ b64_encode ?k"
    using assms(2) by (simp add: hash_password_def)
  have k: "length ?k = 32" by (simp add: assms(1) argon_key_len_def)
  then have "?k \<noteq> []" by (metis list.size(3) zero_neq_numeral)
  then have "verify_key kdf other (19456, 2, 1) salt ?k =
      (if kdf other salt 2 19456 1 32 = ?k then Inr () else Inl PasswordMismatch)"
    using k by (simp add: verify_key_def max_key_len_def)
  then show ?thesis
    unfolding verify_password_def e hash_parts Let_def
    by (simp add: hash_params b64_round_trip argon_time_def argon_memory_def argon_threads_def argon_key_len_def)
qed

text \<open>
  C21. A stored hash accepts exactly the passwords that derive the same key from its salt as the
  password it was made of: the text of the hash loses nothing. The key derivation returns as
  many bytes as it is asked for.
\<close>

theorem password_round_trip:
  assumes "\<And>p s t m n l. length (kdf p s t m n l) = l"
    and "hash_password kdf (Some salt) password = Some encoded"
  shows "verify_password kdf other encoded = Inr () \<longleftrightarrow>
    kdf other salt argon_time argon_memory argon_threads argon_key_len =
    kdf password salt argon_time argon_memory argon_threads argon_key_len"
  using assms by (rule password_accepts)

definition sample_kdf :: kdf where
  "sample_kdf p s t m n l = take l (p @ s @ replicate l CHR ''x'')"

theorem password_round_trip_witness:
  "\<exists>encoded. hash_password sample_kdf (Some ''salt'') ''secret'' = Some encoded \<and>
     verify_password sample_kdf ''secret'' encoded = Inr () \<and> verify_password sample_kdf ''guess'' encoded \<noteq> Inr ()"
proof -
  have l: "length (sample_kdf p s t m n l) = l" for p s t m n l by (simp add: sample_kdf_def)
  obtain encoded where e: "hash_password sample_kdf (Some ''salt'') ''secret'' = Some encoded"
    by (simp add: hash_password_def)
  show ?thesis
    using password_round_trip [of sample_kdf, OF l e, of "''secret''"] password_round_trip [of sample_kdf, OF l e, of "''guess''"] e
    by (auto simp: sample_kdf_def argon_key_len_def)
qed

text \<open>A stored hash with zero rounds is not reported as malformed: its verification panics.\<close>

lemma zero_rounds_panic: "verify_password kdf password ''$argon2id$v=19$m=8,t=0,p=1$c2FsdA$a2V5'' = Inl RoundsPanic"
proof -
  have "split_on (CHR ''$'') ''$argon2id$v=19$m=8,t=0,p=1$c2FsdA$a2V5'' = [[], ''argon2id'', ''v=19'', ''m=8,t=0,p=1'', ''c2FsdA'', ''a2V5'']"
    by code_simp
  moreover have "scan_params ''m=8,t=0,p=1'' = Some (8, 0, 1)" "b64_decode ''c2FsdA'' = Some ''salt''" "b64_decode ''a2V5'' = Some ''key''"
    by code_simp+
  ultimately show ?thesis by (simp add: verify_password_def verify_key_def max_key_len_def)
qed

end
