(* ===== verification/Replies.thy ===== *)
theory Replies
  imports Authz
begin

text \<open>
  What a handler of the hub's API writes when it refuses a request
  (\<^verbatim>\<open>writeError\<close> in \<^verbatim>\<open>services/hub/internal/api/server.go\<close>), and how store errors and denied guards become
  refusals. The bodies of accepted requests are the values the handlers return.
\<close>

text \<open>A refused request with its status and message, or a handler that panicked.\<close>

datatype refusal = Refused nat string | Aborted

fun error_text :: "store_error \<Rightarrow> string" where
  "error_text NotFound = ''not found''"
| "error_text AlreadyExists = ''already exists''"
| "error_text (Invalid s) = s"
| "error_text (StatementError op) = op"

definition internal :: "store_error \<Rightarrow> refusal" where
  "internal e = Refused 500 (error_text e)"

definition not_found_or_internal :: "string \<Rightarrow> store_error \<Rightarrow> refusal" where
  "not_found_or_internal msg e = (if e = NotFound then Refused 404 msg else internal e)"

definition refuse :: "denial \<Rightarrow> refusal" where
  "refuse d = (case d of Unauthorized \<Rightarrow> Refused 401 ''unauthorized'' | Forbidden m \<Rightarrow> Refused 403 m
     | InternalError e \<Rightarrow> internal e)"

end
