(* ===== verification/Accounts.thy ===== *)
theory Accounts
  imports UserTokens PasswordHash Replies
begin

text \<open>
  Accounts of the hub: local login with its back-off, passwords, the user endpoints of administrators,
  the authentication chain of the local mode and the upkeep of the user registry
  (\<^verbatim>\<open>services/hub/internal/api/handlers_auth.go\<close>, \<^verbatim>\<open>handlers_users.go\<close>, \<^verbatim>\<open>identity_persist.go\<close>,
  \<^verbatim>\<open>services/hub/internal/localauth\<close>, \<^verbatim>\<open>usertokens/middleware.go\<close>, \<^verbatim>\<open>cmd/hub/wire.go\<close>). Signing and parsing of session tokens
  are those of the package jwt and are parameters. A request body that does not decode is
  \<^const>\<open>None\<close>. A handler here serves the method it is for; the 405 of other methods is left out.
\<close>

section \<open>Back-off of failed logins\<close>

record throttle_entry =
  te_failures :: nat
  te_last :: instant

type_synonym throttle = "(string \<times> throttle_entry) list"

definition login_second :: duration where "login_second = 10 ^ 9"

definition throttle_threshold :: nat where "throttle_threshold = 3"

text \<open>The loop doubles the lockout \<open>n - 1\<close> times unless it has reached a minute before.\<close>

primrec double_lockout :: "nat \<Rightarrow> duration \<Rightarrow> duration" where
  "double_lockout 0 lock = lock"
| "double_lockout (Suc k) lock = (if lock < 60 * login_second then double_lockout k (2 * lock) else lock)"

definition throttle_lockout :: "nat \<Rightarrow> duration" where
  "throttle_lockout failures =
     (let lock = double_lockout (failures - throttle_threshold) (5 * login_second)
      in if 60 * login_second < lock then 60 * login_second else lock)"

text \<open>The remaining lockout, zero when there is none.\<close>

definition denied :: "instant \<Rightarrow> string \<Rightarrow> throttle \<Rightarrow> duration" where
  "denied now name th =
     (case map_of th name of
        None \<Rightarrow> 0
      | Some e \<Rightarrow>
          if te_failures e < throttle_threshold then 0
          else let remaining = throttle_lockout (te_failures e) - (now - te_last e)
               in if remaining \<le> 0 then 0 else remaining)"

definition record_failure :: "instant \<Rightarrow> string \<Rightarrow> throttle \<Rightarrow> throttle" where
  "record_failure now name th =
     aput name \<lparr>te_failures = Suc (case map_of th name of None \<Rightarrow> 0 | Some e \<Rightarrow> te_failures e), te_last = now\<rparr> th"

definition record_success :: "string \<Rightarrow> throttle \<Rightarrow> throttle" where
  "record_success name th = adel name th"

section \<open>Names and passwords\<close>

definition alnum :: "char \<Rightarrow> bool" where
  "alnum c \<longleftrightarrow> CHR ''a'' \<le> c \<and> c \<le> CHR ''z'' \<or> CHR ''0'' \<le> c \<and> c \<le> CHR ''9''"

definition name_char :: "char \<Rightarrow> bool" where
  "name_char c \<longleftrightarrow> alnum c \<or> c = CHR ''.'' \<or> c = CHR ''_'' \<or> c = CHR ''-''"

text \<open>The regular expression \<^verbatim>\<open>^[a-z0-9]([a-z0-9._-]{0,62}[a-z0-9])?$\<close>.\<close>

definition valid_username :: "string \<Rightarrow> bool" where
  "valid_username u \<longleftrightarrow> u \<noteq> [] \<and> length u \<le> 64 \<and> alnum (hd u) \<and> alnum (last u) \<and> list_all name_char u"

definition username_message :: string where
  "username_message = ''username must be 1-64 chars of lowercase a-z, 0-9, '' @ [CHR 0x27] @ ''.'' @ [CHR 0x27] @ '', '' @
     [CHR 0x27] @ ''_'' @ [CHR 0x27] @ '', '' @ [CHR 0x27] @ ''-'' @ [CHR 0x27] @ '' (no leading/trailing punctuation)''"

definition validate_username :: "string \<Rightarrow> string option" where
  "validate_username u = (if valid_username u then None else Some username_message)"

definition min_password_len :: nat where "min_password_len = 8"

definition validate_password :: "string \<Rightarrow> string option" where
  "validate_password p =
     (if length p < min_password_len then Some ''password must be at least 8 characters''
      else if 128 < length p then Some ''password must be at most 128 characters'' else None)"

section \<open>Session tokens\<close>

text \<open>The claims of a token; a claim of another type than expected is absent. The expiry is in seconds.\<close>

record jwt_claims =
  jc_iss :: string
  jc_sub :: "string option"
  jc_username :: "string option"
  jc_admin :: "bool option"
  jc_exp :: int

definition jwt_issuer :: string where "jwt_issuer = ''ainsel-hub''"
definition token_ttl :: duration where "token_ttl = 12 * 3600 * login_second"

definition issue_token :: "(jwt_claims \<Rightarrow> string option) \<Rightarrow> instant \<Rightarrow> user \<Rightarrow> (string \<times> instant) option" where
  "issue_token sign now u =
     (let expires = now + token_ttl in
      map_option (\<lambda>raw. (raw, expires))
        (sign \<lparr>jc_iss = jwt_issuer, jc_sub = Some (us_id u), jc_username = Some (us_username u),
               jc_admin = Some (us_admin u), jc_exp = expires div login_second\<rparr>))"

text \<open>
  \<open>parse now raw\<close> is the parser of the package jwt with the hub's secret, its issuer and the expiry
  required; \<open>peek raw\<close> is the issuer a token claims, unverified.
\<close>

record jwt_lib =
  jl_sign :: "jwt_claims \<Rightarrow> string option"
  jl_parse :: "instant \<Rightarrow> string \<Rightarrow> jwt_claims option"
  jl_peek :: "string \<Rightarrow> string"

record session_claims =
  sc_sub :: string
  sc_username :: string
  sc_admin :: bool

definition verify_token :: "jwt_lib \<Rightarrow> instant \<Rightarrow> string \<Rightarrow> session_claims option" where
  "verify_token jl now raw =
     (case jl_parse jl now raw of
        None \<Rightarrow> None
      | Some c \<Rightarrow>
          let s = (case jc_sub c of None \<Rightarrow> [] | Some v \<Rightarrow> v) in
          if s = [] then None
          else Some \<lparr>sc_sub = s, sc_username = (case jc_username c of None \<Rightarrow> [] | Some v \<Rightarrow> v),
                     sc_admin = (case jc_admin c of None \<Rightarrow> False | Some v \<Rightarrow> v)\<rparr>)"

definition looks_local :: "jwt_lib \<Rightarrow> string \<Rightarrow> bool" where
  "looks_local jl raw \<longleftrightarrow> jl_peek jl raw = jwt_issuer"

section \<open>Login\<close>

text \<open>Go rounds the remaining time down to seconds and adds one.\<close>

definition retry_after :: "duration \<Rightarrow> int" where
  "retry_after d = d div login_second + 1"

text \<open>
  The reply of a successful login is the token, its expiry and the user. The query for the
  hash is statement 0, the one for the user statement 1. The refusal of a locked name also has
  a Retry-After header, \<^const>\<open>retry_after\<close> of the remaining time.
\<close>

definition handle_login ::
  "kdf \<Rightarrow> jwt_lib \<Rightarrow> bool \<Rightarrow> pg \<Rightarrow> instant \<Rightarrow> (string \<times> string) option \<Rightarrow> authz_db \<Rightarrow> throttle \<Rightarrow>
   (refusal + string \<times> instant \<times> user) \<times> throttle" where
  "handle_login kdf jl enabled pg now body db th =
     (if \<not> enabled then (Inl (Refused 403 ''local login is not enabled on this hub''), th)
      else (case body of
        None \<Rightarrow> (Inl (Refused 400 ''invalid JSON''), th)
      | Some (name, password) \<Rightarrow>
          let username = to_lower (trim_space name);
              fail = (Inl (Refused 401 ''invalid credentials''), record_failure now username th);
              uid = local_user_id_prefix @ username
          in
          if 0 < denied now username th then (Inl (Refused 429 ''too many failed attempts, try again later''), th)
          else if username = [] \<or> password = [] \<or> validate_username username \<noteq> None then fail
          else (case user_password_hash (\<lambda>_. pg 0) uid db of
            Inl _ \<Rightarrow> fail
          | Inr hash \<Rightarrow>
              (case verify_password kdf password hash of
                 Inl e \<Rightarrow> if e = RoundsPanic then (Inl Aborted, th) else fail
               | Inr _ \<Rightarrow>
                   (case get_user (\<lambda>_. pg 1) uid db of
                      Inl _ \<Rightarrow> fail
                    | Inr u \<Rightarrow>
                        (case issue_token (jl_sign jl) now u of
                           None \<Rightarrow> (Inl (Refused 500 ''internal error''), th)
                         | Some (raw, expires) \<Rightarrow> (Inr (raw, expires, u), record_success username th)))))))"

definition handle_change_password ::
  "kdf \<Rightarrow> string option \<Rightarrow> pg \<Rightarrow> instant \<Rightarrow> string option \<Rightarrow> (string \<times> string) option \<Rightarrow> authz_db \<Rightarrow>
   (refusal + unit) \<times> authz_db" where
  "handle_change_password kdf salt pg now caller body db =
     (case caller of
        None \<Rightarrow> (Inl (Refused 401 ''unauthorized''), db)
      | Some sub \<Rightarrow>
          if \<not> has_prefix sub local_user_id_prefix then (Inl (Refused 400 ''password login is not available for this account''), db)
          else (case body of
            None \<Rightarrow> (Inl (Refused 400 ''invalid JSON''), db)
          | Some (current, new) \<Rightarrow>
              (case user_password_hash (\<lambda>_. pg 0) sub db of
                 Inl _ \<Rightarrow> (Inl (Refused 401 ''current password is incorrect''), db)
               | Inr hash \<Rightarrow>
                   (case verify_password kdf current hash of
                      Inl e \<Rightarrow> (if e = RoundsPanic then Inl Aborted else Inl (Refused 401 ''current password is incorrect''), db)
                    | Inr _ \<Rightarrow>
                        (case validate_password new of
                           Some m \<Rightarrow> (Inl (Refused 400 m), db)
                         | None \<Rightarrow>
                             (case hash_password kdf salt new of
                                None \<Rightarrow> (Inl (Refused 500 ''internal error''), db)
                              | Some h \<Rightarrow>
                                  (case set_password (\<lambda>_. pg 1) now sub h db of
                                     (Inl e, db') \<Rightarrow> (Inl (internal e), db') | (Inr _, db') \<Rightarrow> (Inr (), db'))))))))"

section \<open>User endpoints\<close>

record new_user_body =
  nu_username :: string
  nu_password :: string
  nu_email :: string
  nu_admin :: bool

definition handle_create_user ::
  "kdf \<Rightarrow> string option \<Rightarrow> bool \<Rightarrow> check_env \<Rightarrow> pg \<Rightarrow> instant \<Rightarrow> string option \<Rightarrow> new_user_body option \<Rightarrow> authz_db \<Rightarrow>
   (refusal + user) \<times> authz_db" where
  "handle_create_user kdf salt wired v pg now caller body db =
     (case require_admin wired v db caller of
        Inl d \<Rightarrow> (Inl (refuse d), db)
      | Inr _ \<Rightarrow>
     (case body of
        None \<Rightarrow> (Inl (Refused 400 ''invalid JSON''), db)
      | Some b \<Rightarrow>
          let username = to_lower (trim_space (nu_username b)) in
     (case validate_username username of
        Some m \<Rightarrow> (Inl (Refused 400 m), db)
      | None \<Rightarrow>
     (case validate_password (nu_password b) of
        Some m \<Rightarrow> (Inl (Refused 400 m), db)
      | None \<Rightarrow>
     (case hash_password kdf salt (nu_password b) of
        None \<Rightarrow> (Inl (Refused 500 ''internal error''), db)
      | Some h \<Rightarrow>
     (case create_local_user (\<lambda>_. pg 0) now (local_user_id_prefix @ username) (trim_space (nu_email b)) username h (nu_admin b) db of
        (Inl e, db') \<Rightarrow> (Inl (if e = AlreadyExists then Refused 409 ''user already exists'' else internal e), db')
      | (Inr u, db') \<Rightarrow> (Inr u, db')))))))"

definition count_admins :: "pg \<Rightarrow> authz_db \<Rightarrow> store_error + nat" where
  "count_admins pg db = (case list_users pg db of Inl e \<Rightarrow> Inl e | Inr us \<Rightarrow> Inr (length (filter us_admin us)))"

text \<open>The last administrator is protected: \<open>msg\<close> is the conflict the endpoint reports.\<close>

definition last_admin_guard :: "pg \<Rightarrow> string \<Rightarrow> string \<Rightarrow> authz_db \<Rightarrow> refusal + unit" where
  "last_admin_guard pg msg i db =
     (case get_user (\<lambda>_. pg 0) i db of
        Inl e \<Rightarrow> Inl (not_found_or_internal ''user not found'' e)
      | Inr u \<Rightarrow>
          if \<not> us_admin u then Inr ()
          else (case count_admins (\<lambda>_. pg 1) db of
                  Inl e \<Rightarrow> Inl (internal e)
                | Inr n \<Rightarrow> if n \<le> 1 then Inl (Refused 409 msg) else Inr ()))"

definition patch_password ::
  "kdf \<Rightarrow> string option \<Rightarrow> pg \<Rightarrow> instant \<Rightarrow> string \<Rightarrow> string option \<Rightarrow> authz_db \<Rightarrow> (refusal + unit) \<times> authz_db" where
  "patch_password kdf salt pg now i password db =
     (case password of
        None \<Rightarrow> (Inr (), db)
      | Some p \<Rightarrow>
          (case validate_password p of
             Some m \<Rightarrow> (Inl (Refused 400 m), db)
           | None \<Rightarrow>
               (case hash_password kdf salt p of
                  None \<Rightarrow> (Inl (Refused 500 ''internal error''), db)
                | Some h \<Rightarrow>
                    (case set_password (\<lambda>_. pg 3) now i h db of
                       (Inl e, db') \<Rightarrow> (Inl (not_found_or_internal ''user not found'' e), db')
                     | (Inr _, db') \<Rightarrow> (Inr (), db')))))"

text \<open>
  \<open>env\<close> is what other requests do to the tables between the check of the last administrator
  and the write; the two are separate statements.
\<close>

definition patch_admin ::
  "(authz_db \<Rightarrow> authz_db) \<Rightarrow> pg \<Rightarrow> instant \<Rightarrow> string \<Rightarrow> bool option \<Rightarrow> authz_db \<Rightarrow> (refusal + unit) \<times> authz_db" where
  "patch_admin env pg now i flag db =
     (case flag of
        None \<Rightarrow> (Inr (), db)
      | Some b \<Rightarrow>
          (case (if b then Inr () else last_admin_guard pg ''cannot demote the last admin'' i db) of
             Inl r \<Rightarrow> (Inl r, db)
           | Inr _ \<Rightarrow>
               (case set_admin (\<lambda>_. pg 2) now i b (env db) of
                  (Inl e, db') \<Rightarrow> (Inl (not_found_or_internal ''user not found'' e), db')
                | (Inr _, db') \<Rightarrow> (Inr (), db'))))"

definition handle_patch_user ::
  "(authz_db \<Rightarrow> authz_db) \<Rightarrow> kdf \<Rightarrow> string option \<Rightarrow> bool \<Rightarrow> check_env \<Rightarrow> pg \<Rightarrow> instant \<Rightarrow> string option \<Rightarrow> string \<Rightarrow>
   (bool option \<times> string option) option \<Rightarrow> authz_db \<Rightarrow> (refusal + user) \<times> authz_db" where
  "handle_patch_user env kdf salt wired v pg now caller i body db =
     (case require_admin wired v db caller of
        Inl d \<Rightarrow> (Inl (refuse d), db)
      | Inr _ \<Rightarrow>
     (case body of
        None \<Rightarrow> (Inl (Refused 400 ''invalid JSON''), db)
      | Some (flag, password) \<Rightarrow>
     (case patch_admin env pg now i flag db of
        (Inl r, db1) \<Rightarrow> (Inl r, db1)
      | (Inr _, db1) \<Rightarrow>
     (case patch_password kdf salt pg now i password db1 of
        (Inl r, db2) \<Rightarrow> (Inl r, db2)
      | (Inr _, db2) \<Rightarrow>
          (case get_user (\<lambda>_. pg 4) i db2 of Inl e \<Rightarrow> (Inl (internal e), db2) | Inr u \<Rightarrow> (Inr u, db2))))))"

definition handle_delete_user ::
  "(authz_db \<Rightarrow> authz_db) \<Rightarrow> bool \<Rightarrow> check_env \<Rightarrow> pg \<Rightarrow> string option \<Rightarrow> string \<Rightarrow> authz_db \<Rightarrow> (refusal + unit) \<times> authz_db" where
  "handle_delete_user env wired v pg caller i db =
     (case require_admin wired v db caller of
        Inl d \<Rightarrow> (Inl (refuse d), db)
      | Inr _ \<Rightarrow>
          if caller = Some i then (Inl (Refused 409 ''cannot delete your own account''), db)
          else (case last_admin_guard pg ''cannot delete the last admin'' i db of
                  Inl r \<Rightarrow> (Inl r, db)
                | Inr _ \<Rightarrow>
                    (case delete_user (\<lambda>_. pg 2) i (env db) of
                       (Inl e, db') \<Rightarrow> (Inl (internal e), db') | (Inr _, db') \<Rightarrow> (Inr (), db'))))"

section \<open>The first administrator\<close>

text \<open>The account named by the environment, made at start-up when it does not exist.\<close>

definition bootstrap_local_admin ::
  "kdf \<Rightarrow> string option \<Rightarrow> pg \<Rightarrow> instant \<Rightarrow> string \<Rightarrow> string \<Rightarrow> authz_db \<Rightarrow> (string + unit) \<times> authz_db" where
  "bootstrap_local_admin kdf salt pg now name password db =
     (let admin_user = (if name = [] then ''admin'' else name); i = local_user_id_prefix @ admin_user in
      case get_user (\<lambda>_. pg 0) i db of
        Inr _ \<Rightarrow> (Inr (), db)
      | Inl e \<Rightarrow>
          if e \<noteq> NotFound then (Inl (error_text e), db)
          else if password = [] then (Inl (''admin user '' @ i @ '' does not exist and HUB_LOCAL_ADMIN_PASSWORD is empty''), db)
          else (case hash_password kdf salt password of
                  None \<Rightarrow> (Inl ''generate salt'', db)
                | Some h \<Rightarrow>
                    (case create_local_user (\<lambda>_. pg 1) now i [] admin_user h True db of
                       (Inl e, db') \<Rightarrow> (if e = AlreadyExists then Inr () else Inl (error_text e), db')
                     | (Inr _, db') \<Rightarrow> (Inr (), db'))))"

section \<open>Authentication of a request\<close>

record oidc_user =
  ou_sub :: string
  ou_email :: string
  ou_username :: string
  ou_roles :: "string list"

definition bearer_prefix :: string where "bearer_prefix = ''Bearer ''"

definition extract_bearer :: "string \<Rightarrow> string" where
  "extract_bearer header =
     (if length header \<le> length bearer_prefix \<or> \<not> equal_fold (take (length bearer_prefix) header) bearer_prefix then []
      else trim_space (drop (length bearer_prefix) header))"

text \<open>
  A middleware answers itself or passes the request on with the user in its context.
  The name of the user of an API token is looked up with statement 1.
\<close>

definition user_token_mw ::
  "(string \<Rightarrow> string) \<Rightarrow> pg \<Rightarrow> instant \<Rightarrow> string \<Rightarrow> oidc_user option \<Rightarrow> authz_db \<Rightarrow> (refusal + oidc_user option) \<times> authz_db" where
  "user_token_mw sha pg now header ctx db =
     (let tok = extract_bearer header in
      if tok = [] \<or> \<not> has_prefix tok token_prefix then (Inr ctx, db)
      else (case validate_token sha (\<lambda>_. pg 0) now tok db of
              (Inl e, db') \<Rightarrow>
                (Inl (if e = NotFound then Refused 401 ''invalid token'' else Refused 500 ''token validation error''), db')
            | (Inr t, db') \<Rightarrow>
                (case get_user (\<lambda>_. pg 1) (ut_user t) db' of
                   Inl _ \<Rightarrow> (Inl (Refused 500 ''user lookup failed''), db')
                 | Inr u \<Rightarrow>
                     (Inr (Some \<lparr>ou_sub = ut_user t, ou_email = [], ou_username = us_username u, ou_roles = []\<rparr>), db'))))"

definition local_mw :: "jwt_lib \<Rightarrow> instant \<Rightarrow> string \<Rightarrow> oidc_user option \<Rightarrow> refusal + oidc_user option" where
  "local_mw jl now header ctx =
     (let tok = extract_bearer header in
      if tok = [] \<or> \<not> looks_local jl tok then Inr ctx
      else (case verify_token jl now tok of
              None \<Rightarrow> Inl (Refused 401 ''invalid token'')
            | Some c \<Rightarrow> Inr (Some \<lparr>ou_sub = sc_sub c, ou_email = [], ou_username = sc_username c,
                                    ou_roles = (if sc_admin c then [''admin''] else [])\<rparr>)))"

definition require_auth :: "oidc_user option \<Rightarrow> refusal + oidc_user" where
  "require_auth ctx = (case ctx of None \<Rightarrow> Inl (Refused 401 ''unauthorized'') | Some u \<Rightarrow> Inr u)"

type_synonym identity_tracker = "(string \<times> instant) list"

definition identity_persist_ttl :: duration where "identity_persist_ttl = 5 * 60 * login_second"

definition should_persist :: "instant \<Rightarrow> string \<Rightarrow> identity_tracker \<Rightarrow> bool \<times> identity_tracker" where
  "should_persist now sub tr =
     (if (case map_of tr sub of None \<Rightarrow> True | Some t \<Rightarrow> identity_persist_ttl \<le> now - t)
      then (True, aput sub now tr) else (False, tr))"

definition forget_identity :: "string \<Rightarrow> identity_tracker \<Rightarrow> identity_tracker" where
  "forget_identity sub tr = adel sub tr"

text \<open>A failed upsert is logged; the request goes on.\<close>

definition identity_persist ::
  "bool \<Rightarrow> instant \<Rightarrow> oidc_user \<Rightarrow> identity_tracker \<Rightarrow> authz_db \<Rightarrow> identity_tracker \<times> authz_db" where
  "identity_persist ok now u tr db =
     (case should_persist now (ou_sub u) tr of
        (persist, tr') \<Rightarrow>
          if persist \<and> (ou_email u \<noteq> [] \<or> ou_username u \<noteq> [])
          then (tr', snd (upsert_user (\<lambda>_. ok) now (ou_sub u) (ou_email u) (ou_username u) db))
          else (tr', db))"

text \<open>The chain of the local mode; the upsert of the identity is statement 2.\<close>

definition local_chain ::
  "(string \<Rightarrow> string) \<Rightarrow> jwt_lib \<Rightarrow> pg \<Rightarrow> instant \<Rightarrow> string \<Rightarrow> identity_tracker \<times> authz_db \<Rightarrow>
   (refusal + oidc_user) \<times> identity_tracker \<times> authz_db" where
  "local_chain sha jl pg now header st =
     (case st of (tr, db) \<Rightarrow>
     (case user_token_mw sha pg now header None db of
        (Inl r, db1) \<Rightarrow> (Inl r, tr, db1)
      | (Inr ctx, db1) \<Rightarrow>
     (case local_mw jl now header ctx of
        Inl r \<Rightarrow> (Inl r, tr, db1)
      | Inr ctx' \<Rightarrow>
     (case require_auth ctx' of
        Inl r \<Rightarrow> (Inl r, tr, db1)
      | Inr u \<Rightarrow> (Inr u, identity_persist (pg 2) now u tr db1)))))"

section \<open>Refreshing an identity\<close>

text \<open>
  \<open>userinfo\<close> is what the userinfo endpoint answers for the caller's token: \<^const>\<open>None\<close> when none is configured
  or there is no token, \<open>Some None\<close> when the request fails. The eviction of the endpoint's
  cache (\<^verbatim>\<open>oidc.ClearUserInfoCacheEntry\<close>) is not modelled.
\<close>

definition sync_me ::
  "pg \<Rightarrow> instant \<Rightarrow> oidc_user \<Rightarrow> (string \<times> string \<times> string) option option \<Rightarrow> authz_db \<Rightarrow> (refusal + user) \<times> authz_db" where
  "sync_me pg now u userinfo db =
     (case (case userinfo of Some (Some r) \<Rightarrow> r | _ \<Rightarrow> (ou_sub u, ou_email u, ou_username u)) of
        (sub, email, username) \<Rightarrow>
          (case upsert_user (\<lambda>_. pg 0) now sub email username db of
             (Inl e, db') \<Rightarrow> (Inl (internal e), db') | (Inr r, db') \<Rightarrow> (Inr r, db')))"

definition handle_user_sync ::
  "bool \<Rightarrow> check_env \<Rightarrow> pg \<Rightarrow> instant \<Rightarrow> oidc_user option \<Rightarrow> string \<Rightarrow> (string \<times> string \<times> string) option option \<Rightarrow>
   identity_tracker \<times> authz_db \<Rightarrow> (refusal + user) \<times> identity_tracker \<times> authz_db" where
  "handle_user_sync wired v pg now caller i userinfo st =
     (case st of (tr, db) \<Rightarrow>
     (case caller of
        None \<Rightarrow> (Inl (Refused 401 ''unauthorized''), tr, db)
      | Some u \<Rightarrow>
          if i = ''me'' then (case sync_me pg now u userinfo db of (r, db') \<Rightarrow> (r, tr, db'))
          else
     (case require_admin wired v db (Some (ou_sub u)) of
        Inl d \<Rightarrow> (Inl (refuse d), tr, db)
      | Inr _ \<Rightarrow>
     (case clear_username (\<lambda>_. pg 0) now i db of
        (Inl e, db') \<Rightarrow> (Inl (not_found_or_internal ''user not found'' e), tr, db')
      | (Inr _, db') \<Rightarrow>
          (case get_user (\<lambda>_. pg 1) i db' of
             Inl e \<Rightarrow> (Inl (internal e), forget_identity i tr, db')
           | Inr r \<Rightarrow> (Inr r, forget_identity i tr, db'))))))"

end
