(* ===== verification/AccessRules.thy ===== *)
theory AccessRules
  imports Accounts
begin

text \<open>
  What access control guarantees: the tables stay consistent, the checks are the policy as long as the
  cache of roles is current, a revoked role is gone when its cached copy expires, the resource
  lists agree with the read check, and the life of users and API tokens.
\<close>

section \<open>Operations on the tables\<close>

datatype access_op =
    UpsertUser pg instant string string string
  | SetAdmin pg instant string bool
  | ClearUsername pg instant string
  | SetPassword pg instant string string
  | CreateLocalUser pg instant string string string string bool
  | DeleteUser pg string
  | CreateGroup pg string instant string string
  | UpdateGroup pg instant string string string
  | DeleteGroup pg string
  | AddMember pg string string group_role
  | RemoveMember pg string string
  | SetResource pg instant string string string bool
  | DeleteResource pg string string
  | SetPublic pg string string bool
  | CreateToken "string \<Rightarrow> string" "string option" pg string instant string string instant
  | RevokeToken pg instant string string
  | ValidateToken "string \<Rightarrow> string" pg instant string

fun apply_access :: "access_op \<Rightarrow> authz_db \<Rightarrow> authz_db" where
  "apply_access (UpsertUser pg now sub email name) db = snd (upsert_user pg now sub email name db)"
| "apply_access (SetAdmin pg now i b) db = snd (set_admin pg now i b db)"
| "apply_access (ClearUsername pg now i) db = snd (clear_username pg now i db)"
| "apply_access (SetPassword pg now i h) db = snd (set_password pg now i h db)"
| "apply_access (CreateLocalUser pg now i email name h b) db = snd (create_local_user pg now i email name h b db)"
| "apply_access (DeleteUser pg i) db = snd (delete_user pg i db)"
| "apply_access (CreateGroup pg i now name d) db = snd (create_group pg i now name d db)"
| "apply_access (UpdateGroup pg now i name d) db = snd (update_group pg now i name d db)"
| "apply_access (DeleteGroup pg i) db = snd (delete_group pg i db)"
| "apply_access (AddMember pg g u r) db = snd (add_group_member pg g u r db)"
| "apply_access (RemoveMember pg g u) db = snd (remove_group_member pg g u db)"
| "apply_access (SetResource pg now rt rn g b) db = snd (set_resource_group pg now rt rn g b db)"
| "apply_access (DeleteResource pg rt rn) db = snd (delete_resource_group pg rt rn db)"
| "apply_access (SetPublic pg rt rn b) db = snd (set_resource_public pg rt rn b db)"
| "apply_access (CreateToken sha rnd pg i now u name e) db = snd (create_token sha rnd pg i now u name e db)"
| "apply_access (RevokeToken pg now i u) db = snd (revoke_token pg now i u db)"
| "apply_access (ValidateToken sha pg now p) db = snd (validate_token sha pg now p db)"

section \<open>Consistency of the tables\<close>

definition keys_distinct :: "authz_db \<Rightarrow> bool" where
  "keys_distinct db \<longleftrightarrow>
     distinct (map us_id (az_users db)) \<and> distinct (map gr_id (az_groups db)) \<and> distinct (map gr_name (az_groups db)) \<and>
     distinct (map member_key (az_members db)) \<and> distinct (map resource_key (az_resources db)) \<and>
     distinct (map ut_id (az_tokens db)) \<and> distinct (map ut_hash (az_tokens db))"

definition members_valid :: "authz_db \<Rightarrow> bool" where
  "members_valid db \<longleftrightarrow> (\<forall>m \<in> set (az_members db).
     gm_group m \<in> gr_id ` set (az_groups db) \<and> gm_user m \<in> us_id ` set (az_users db) \<and> role_rank (gm_role m) \<noteq> 0)"

definition resources_valid :: "authz_db \<Rightarrow> bool" where
  "resources_valid db \<longleftrightarrow> (\<forall>r \<in> set (az_resources db). rg_group r \<in> gr_id ` set (az_groups db))"

definition tokens_valid :: "authz_db \<Rightarrow> bool" where
  "tokens_valid db \<longleftrightarrow> (\<forall>t \<in> set (az_tokens db). ut_user t \<in> us_id ` set (az_users db))"

definition access_wf :: "authz_db \<Rightarrow> bool" where
  "access_wf db \<longleftrightarrow> keys_distinct db \<and> members_valid db \<and> resources_valid db \<and> tokens_valid db"

lemmas wf_defs = access_wf_def keys_distinct_def members_valid_def resources_valid_def tokens_valid_def

lemma distinct_snoc_row: "\<not> has_row key (key r) rows \<Longrightarrow> distinct (map key rows) \<Longrightarrow> distinct (map key (rows @ [r]))"
  by (auto simp: has_row_iff lookup_row_None_iff)

lemma in_delete_rows [simp]: "x \<in> set (delete_rows key i rows) \<longleftrightarrow> x \<in> set rows \<and> key x \<noteq> i"
  by (auto simp: delete_rows_def)

lemma image_delete_rows: "key ` set (delete_rows key i rows) = key ` set rows - {i}"
  by auto

lemma update_keys [simp]:
  "us_id (r\<lparr>us_admin := b\<rparr>) = us_id r" "us_id (r\<lparr>us_username := n\<rparr>) = us_id r" "us_id (r\<lparr>us_updated := t\<rparr>) = us_id r"
  by simp_all

text \<open>Writing columns of users other than the id keeps everything.\<close>

lemma wf_users_update:
  assumes "access_wf db" "\<And>r. us_id (f r) = us_id r"
  shows "access_wf (db\<lparr>az_users := update_where p f (az_users db)\<rparr>)"
  using assms map_update_where [of p us_id f "az_users db"] image_update_where [of p us_id f "az_users db"]
  by (simp add: wf_defs)

lemma wf_users_snoc:
  assumes "access_wf db" "\<not> has_row us_id (us_id r) (az_users db)"
  shows "access_wf (db\<lparr>az_users := az_users db @ [r]\<rparr>)"
  using assms distinct_snoc_row [of us_id r] by (auto simp: wf_defs)

lemma wf_upsert_user: "access_wf db \<Longrightarrow> access_wf (snd (upsert_user pg now sub email name db))"
  by (auto simp: upsert_user_def Let_def has_row_iff split: option.split intro!: wf_users_update wf_users_snoc)

lemma wf_update_user:
  assumes "access_wf db" "\<And>r. us_id (f r) = us_id r"
  shows "access_wf (snd (update_user op pg now i f db))"
  using assms by (auto simp: update_user_def intro!: wf_users_update)

lemma wf_create_local_user: "access_wf db \<Longrightarrow> access_wf (snd (create_local_user pg now i email name h b db))"
  by (auto simp: create_local_user_def Let_def intro!: wf_users_snoc)

lemma wf_delete_user: "access_wf db \<Longrightarrow> access_wf (snd (delete_user pg i db))"
  by (auto simp: delete_user_def wf_defs distinct_delete_rows delete_rows_def distinct_map_filter)

lemma wf_create_group: "access_wf db \<Longrightarrow> access_wf (snd (create_group pg i now name d db))"
  using distinct_snoc_row [of gr_id "\<lparr>gr_id = i, gr_name = name, gr_description = d, gr_created = now, gr_updated = now\<rparr>"]
    distinct_snoc_row [of gr_name "\<lparr>gr_id = i, gr_name = name, gr_description = d, gr_created = now, gr_updated = now\<rparr>"]
  by (auto simp: create_group_def Let_def wf_defs)

lemma update_where_Cons: "update_where p f (r # rows) = (if p r then f r else r) # update_where p f rows"
  by (simp add: update_where_def)

lemma distinct_rename:
  assumes "distinct (map key rows)" "distinct (map name rows)" "\<And>r. key (f r) = key r" "\<And>r. name (f r) = n"
    and "\<not> list_ex (\<lambda>h. name h = n \<and> key h \<noteq> i) rows"
  shows "distinct (map name (update_where (\<lambda>r. key r = i) f rows))"
  using assms
proof (induction rows)
  case (Cons r rows)
  have ne: "name x \<noteq> n" if "x \<in> set rows" "key r = i" for x
    using Cons.prems(1,5) that by (auto simp: list_ex_iff image_iff)
  have "n \<notin> name ` set rows" if "key r = i" using ne that by auto
  moreover have "update_where (\<lambda>r. key r = i) f rows = rows" if "key r = i"
    using Cons.prems(1) that by (intro update_where_none) (auto simp: image_iff)
  moreover have "distinct (map name (update_where (\<lambda>r. key r = i) f rows))"
    using Cons by simp
  moreover have "name r \<notin> name ` set (update_where (\<lambda>r. key r = i) f rows)" if "key r \<noteq> i"
    using Cons.prems that by (auto simp: sql_simps)
  ultimately show ?case using Cons.prems(4) by (cases "key r = i") (simp_all add: update_where_Cons)
qed (simp add: update_where_def)

lemma wf_update_group: "access_wf db \<Longrightarrow> access_wf (snd (update_group pg now i name d db))"
proof -
  assume wf: "access_wf db"
  let ?f = "\<lambda>g :: group. g\<lparr>gr_name := name, gr_description := d, gr_updated := now\<rparr>"
  have ids: "map gr_id (update_where p ?f (az_groups db)) = map gr_id (az_groups db)"
    "gr_id ` set (update_where p ?f (az_groups db)) = gr_id ` set (az_groups db)" for p
    using map_update_where [of p gr_id ?f] image_update_where [of p gr_id ?f] by simp_all
  have "distinct (map gr_name (update_where (\<lambda>g. gr_id g = i) ?f (az_groups db)))"
    if "\<not> list_ex (\<lambda>h. gr_name h = name \<and> gr_id h \<noteq> i) (az_groups db)"
    using wf that by (intro distinct_rename [where n = name]) (auto simp: wf_defs)
  then show ?thesis using wf ids by (auto simp: update_group_def Let_def wf_defs split: option.split)
qed

lemma wf_delete_group: "access_wf db \<Longrightarrow> access_wf (snd (delete_group pg i db))"
  by (auto simp: delete_group_def wf_defs distinct_delete_rows delete_rows_def distinct_map_filter)

lemma wf_add_member: "access_wf db \<Longrightarrow> access_wf (snd (add_group_member pg g u r db))"
proof -
  assume wf: "access_wf db"
  let ?f = "\<lambda>m :: group_member. m\<lparr>gm_role := r\<rparr>"
  have "map member_key (update_where p ?f (az_members db)) = map member_key (az_members db)" for p
    by (rule map_update_where) simp
  then show ?thesis
    using wf distinct_snoc_row [of member_key "\<lparr>gm_group = g, gm_user = u, gm_role = r\<rparr>" "az_members db"]
    by (auto simp: add_group_member_def wf_defs has_row_iff lookup_row_None_iff sql_simps)
qed

lemma wf_remove_member: "access_wf db \<Longrightarrow> access_wf (snd (remove_group_member pg g u db))"
  by (auto simp: remove_group_member_def wf_defs distinct_delete_rows)

lemma wf_set_resource: "access_wf db \<Longrightarrow> access_wf (snd (set_resource_group pg now rt rn g b db))"
proof -
  assume wf: "access_wf db"
  let ?f = "\<lambda>r :: resource_group. r\<lparr>rg_group := g, rg_public := b\<rparr>"
  have "map resource_key (update_where p ?f (az_resources db)) = map resource_key (az_resources db)" for p
    by (rule map_update_where) simp
  then show ?thesis
    using wf distinct_snoc_row [of resource_key "\<lparr>rg_type = rt, rg_name = rn, rg_group = g, rg_public = b, rg_created = now\<rparr>" "az_resources db"]
    by (auto simp: set_resource_group_def wf_defs has_row_iff lookup_row_None_iff sql_simps)
qed

lemma wf_delete_resource: "access_wf db \<Longrightarrow> access_wf (snd (delete_resource_group pg rt rn db))"
  by (auto simp: delete_resource_group_def wf_defs distinct_delete_rows)

lemma wf_set_public: "access_wf db \<Longrightarrow> access_wf (snd (set_resource_public pg rt rn b db))"
proof -
  assume wf: "access_wf db"
  let ?f = "\<lambda>r :: resource_group. r\<lparr>rg_public := b\<rparr>"
  have "map resource_key (update_where p ?f (az_resources db)) = map resource_key (az_resources db)" for p
    by (rule map_update_where) simp
  then show ?thesis using wf by (auto simp: set_resource_public_def wf_defs sql_simps)
qed

lemma wf_create_token: "access_wf db \<Longrightarrow> access_wf (snd (create_token sha rnd pg i now u name e db))"
  by (auto simp: create_token_def wf_defs Let_def has_row_iff lookup_row_None_iff split: option.split)

lemma wf_tokens_update:
  assumes "access_wf db" "\<And>t. ut_id (f t) = ut_id t" "\<And>t. ut_hash (f t) = ut_hash t" "\<And>t. ut_user (f t) = ut_user t"
  shows "access_wf (db\<lparr>az_tokens := update_where p f (az_tokens db)\<rparr>)"
  using assms map_update_where [of p ut_id f "az_tokens db"] map_update_where [of p ut_hash f "az_tokens db"]
  by (auto simp: wf_defs sql_simps)

lemma wf_revoke_token: "access_wf db \<Longrightarrow> access_wf (snd (revoke_token pg now i u db))"
  by (auto simp: revoke_token_def intro!: wf_tokens_update)

lemma wf_validate_token: "access_wf db \<Longrightarrow> access_wf (snd (validate_token sha pg now p db))"
  by (auto simp: validate_token_def Let_def split: option.split intro!: wf_tokens_update)

lemmas wf_ops = wf_upsert_user wf_create_local_user wf_delete_user wf_create_group wf_update_group wf_delete_group
  wf_add_member wf_remove_member wf_set_resource wf_delete_resource wf_set_public wf_create_token wf_revoke_token
  wf_validate_token

lemma wf_apply: "access_wf db \<Longrightarrow> access_wf (apply_access op db)"
  by (cases op) (simp_all add: wf_ops set_admin_def clear_username_def set_password_def wf_update_user)

text \<open>
  C16. The access tables are well typed at all times: starting from empty tables, whatever operations the
  stores perform and whichever of their statements fail, ids, names, hashes and pairs are
  unique, every membership has a known role, a group and a user that exist, every resource a
  group and every token a user that exist.
\<close>

theorem access_tables_well_typed:
  "access_wf (fold apply_access ops \<lparr>az_users = [], az_groups = [], az_members = [], az_resources = [], az_tokens = []\<rparr>)"
proof -
  have "access_wf (fold apply_access ops db)" if "access_wf db" for db
    using that by (induction ops arbitrary: db) (simp_all add: wf_apply)
  moreover have "access_wf \<lparr>az_users = [], az_groups = [], az_members = [], az_resources = [], az_tokens = []\<rparr>"
    by (simp add: wf_defs)
  ultimately show ?thesis by blast
qed

section \<open>The policy\<close>

text \<open>
  What the checks are meant to decide: administrators may do anything; anybody reads a public resource;
  everything else needs a role in the group of the resource that covers the request.
\<close>

definition admin_user :: "authz_db \<Rightarrow> string \<Rightarrow> bool" where
  "admin_user db uid \<longleftrightarrow> list_ex (\<lambda>u. us_id u = uid \<and> us_admin u) (az_users db)"

definition has_role :: "authz_db \<Rightarrow> string \<Rightarrow> string \<Rightarrow> group_role \<Rightarrow> bool" where
  "has_role db uid gid need \<longleftrightarrow>
     list_ex (\<lambda>m. gm_user m = uid \<and> gm_group m = gid \<and> role_covers (gm_role m) need) (az_members db)"

definition permitted :: "authz_db \<Rightarrow> string \<Rightarrow> group_role \<Rightarrow> string \<Rightarrow> string \<Rightarrow> bool" where
  "permitted db uid need rt rn \<longleftrightarrow>
     admin_user db uid \<or>
     list_ex (\<lambda>r. rg_type r = rt \<and> rg_name r = rn \<and> (need = role_reader \<and> rg_public r \<or> has_role db uid (rg_group r) need))
       (az_resources db)"

definition roles_of :: "authz_db \<Rightarrow> string \<Rightarrow> roles" where
  "roles_of db uid = map (\<lambda>m. (gm_group m, gm_role m)) (filter (\<lambda>m. gm_user m = uid) (az_members db))"

text \<open>The cached roles of the user, if any are still fresh, are those of the table.\<close>

definition coherent :: "group_cache \<Rightarrow> authz_db \<Rightarrow> string \<Rightarrow> instant \<Rightarrow> bool" where
  "coherent c db uid now \<longleftrightarrow>
     (case map_of (gc_items c) uid of None \<Rightarrow> True | Some (rs, expires) \<Rightarrow> now < expires \<longrightarrow> rs = roles_of db uid)"

definition answering :: "check_env \<Rightarrow> bool" where
  "answering v \<longleftrightarrow> ck_user v \<and> ck_resource v \<and> ck_roles v"

lemma role_of_coherent:
  assumes "answering v" "coherent c db uid (ck_now v)"
  shows "\<exists>c'. role_of v db uid gid c = (Inr (role_in (roles_of db uid) gid), c')"
  using assms
  by (auto simp: role_of_def user_role_def user_roles_def user_group_roles_def roles_of_def answering_def coherent_def
      split: option.split)

lemma distinct_roles: "distinct (map member_key ms) \<Longrightarrow> distinct (map gm_group (filter (\<lambda>m. gm_user m = uid) ms))"
proof (induction ms)
  case (Cons m ms)
  then have "member_key m \<notin> member_key ` set ms" by simp
  then have "gm_group m \<notin> gm_group ` set (filter (\<lambda>m. gm_user m = uid) ms)" if "gm_user m = uid" using that by force
  then show ?case using Cons by simp
qed simp

lemma map_of_roles:
  assumes "distinct (map member_key (az_members db))"
  shows "map_of (roles_of db uid) gid = Some r \<longleftrightarrow>
    (\<exists>m \<in> set (az_members db). gm_user m = uid \<and> gm_group m = gid \<and> gm_role m = r)"
proof -
  have "map fst (roles_of db uid) = map gm_group (filter (\<lambda>m. gm_user m = uid) (az_members db))"
    by (simp add: roles_of_def)
  then have "distinct (map fst (roles_of db uid))" using distinct_roles [OF assms] by simp
  then have "map_of (roles_of db uid) gid = Some r \<longleftrightarrow> (gid, r) \<in> set (roles_of db uid)" by (rule map_of_eq_Some_iff)
  then show ?thesis by (auto simp: roles_of_def)
qed

lemma role_in_covers:
  assumes "access_wf db" "role_rank need \<noteq> 0"
  shows "role_covers (role_in (roles_of db uid) gid) need \<longleftrightarrow> has_role db uid gid need"
proof -
  have d: "distinct (map member_key (az_members db))" using assms(1) by (simp add: wf_defs)
  have r0: "role_rank [] = 0" by (simp add: role_rank_def role_defs)
  show ?thesis
  proof (cases "map_of (roles_of db uid) gid")
    case None
    then have "\<not> (\<exists>m \<in> set (az_members db). gm_user m = uid \<and> gm_group m = gid)"
      using map_of_roles [OF d, of uid gid] by auto
    then have "\<not> has_role db uid gid need" by (auto simp: has_role_def list_ex_iff)
    then show ?thesis using None assms(2) r0 by (simp add: role_in_def role_covers_def)
  next
    case (Some r)
    then obtain m where m: "m \<in> set (az_members db)" "gm_user m = uid" "gm_group m = gid" "gm_role m = r"
      using map_of_roles [OF d, of uid gid r] by auto
    have "gm_role m' = r" if "m' \<in> set (az_members db)" "gm_user m' = uid" "gm_group m' = gid" for m'
      using distinct_map_unique [OF d that(1) m(1)] that m by simp
    then have "has_role db uid gid need \<longleftrightarrow> role_covers r need"
      unfolding has_role_def list_ex_iff using m by metis
    then show ?thesis using Some by (simp add: role_in_def)
  qed
qed

lemma get_user_found:
  assumes "access_wf db" "ck_user v" "uid \<in> us_id ` set (az_users db)"
  shows "is_admin v db uid = Inr (admin_user db uid)"
proof -
  obtain u where u: "u \<in> set (az_users db)" "us_id u = uid" using assms(3) by auto
  have d: "distinct (map us_id (az_users db))" using assms(1) by (simp add: wf_defs)
  have "lookup_row us_id uid (az_users db) = Some u" using lookup_row_distinct [OF d u(1)] u(2) by simp
  moreover have "x = u" if "x \<in> set (az_users db)" "us_id x = uid" for x
    using distinct_map_unique [OF d that(1) u(1)] that(2) u(2) by simp
  then have "admin_user db uid \<longleftrightarrow> us_admin u" unfolding admin_user_def list_ex_iff using u by metis
  ultimately show ?thesis using assms(2) by (simp add: is_admin_def get_user_def scan_user_def)
qed

lemma list_ex_resource:
  assumes "access_wf db"
  shows "list_ex (\<lambda>r. rg_type r = rt \<and> rg_name r = rn \<and> P r) (az_resources db) \<longleftrightarrow>
    (case lookup_row resource_key (rt, rn) (az_resources db) of None \<Rightarrow> False | Some r \<Rightarrow> P r)"
proof (cases "lookup_row resource_key (rt, rn) (az_resources db)")
  case None
  then have "(rt, rn) \<notin> resource_key ` set (az_resources db)" by (simp add: lookup_row_None_iff)
  then have "\<not> list_ex (\<lambda>r. rg_type r = rt \<and> rg_name r = rn \<and> P r) (az_resources db)" by (force simp: list_ex_iff)
  then show ?thesis using None by simp
next
  case (Some r)
  have d: "distinct (map resource_key (az_resources db))" using assms by (simp add: wf_defs)
  have r: "r \<in> set (az_resources db)" "rg_type r = rt" "rg_name r = rn" using lookup_row_SomeD [OF Some] by simp_all
  have "r' = r" if "r' \<in> set (az_resources db)" "rg_type r' = rt" "rg_name r' = rn" for r'
    using distinct_map_unique [OF d that(1) r(1)] that r by simp
  then have "list_ex (\<lambda>r. rg_type r = rt \<and> rg_name r = rn \<and> P r) (az_resources db) \<longleftrightarrow> P r"
    unfolding list_ex_iff using r by metis
  then show ?thesis using Some by simp
qed

lemma role_ranks [simp]: "role_rank role_reader = 1" "role_rank role_writer = 2" "role_rank role_owner = 3"
  "role_writer \<noteq> role_reader" "role_owner \<noteq> role_reader" "role_reader \<noteq> role_writer" "role_reader \<noteq> role_owner"
  by (simp_all add: role_rank_def role_defs)

lemma can_read_permitted:
  assumes "access_wf db" "answering v" "coherent c db uid (ck_now v)" "uid \<in> us_id ` set (az_users db)"
  shows "fst (can_read v db uid rt rn c) = Inr (permitted db uid role_reader rt rn)"
proof -
  have a: "is_admin v db uid = Inr (admin_user db uid)"
    using get_user_found [OF assms(1) _ assms(4)] assms(2) by (simp add: answering_def)
  obtain c' where c: "role_of v db uid g c = (Inr (role_in (roles_of db uid) g), c' g)" for g
    using role_of_coherent [OF assms(2,3)] by metis
  have g: "get_resource_group (\<lambda>_. ck_resource v) rt rn db =
      (case lookup_row resource_key (rt, rn) (az_resources db) of None \<Rightarrow> Inl NotFound | Some r \<Rightarrow> Inr r)"
    using assms(2) by (simp add: get_resource_group_def answering_def)
  show ?thesis
    by (simp add: can_read_def a g c role_in_covers [OF assms(1)] permitted_def list_ex_resource [OF assms(1)]
        split: option.split)
qed


text \<open>One administrator, one writer of a group with a private resource, and a public resource of another group.\<close>

definition sample_user :: "string \<Rightarrow> bool \<Rightarrow> user_row" where
  "sample_user i b = \<lparr>us_id = i, us_email = [], us_username = i, us_admin = b, us_created = 0, us_updated = 0, us_password = []\<rparr>"

definition sample_access :: authz_db where
  "sample_access =
     \<lparr>az_users = [sample_user ''root'' True, sample_user ''ann'' False],
      az_groups = [\<lparr>gr_id = ''g1'', gr_name = ''team'', gr_description = [], gr_created = 0, gr_updated = 0\<rparr>,
                   \<lparr>gr_id = ''g2'', gr_name = ''ops'', gr_description = [], gr_created = 0, gr_updated = 0\<rparr>],
      az_members = [\<lparr>gm_group = ''g1'', gm_user = ''ann'', gm_role = role_writer\<rparr>],
      az_resources = [\<lparr>rg_type = ''agent'', rg_name = ''a1'', rg_group = ''g1'', rg_public = False, rg_created = 0\<rparr>,
                      \<lparr>rg_type = ''agent'', rg_name = ''a2'', rg_group = ''g2'', rg_public = True, rg_created = 0\<rparr>],
      az_tokens = []\<rparr>"

lemma sample_access_wf: "access_wf sample_access"
  by (simp add: wf_defs sample_access_def sample_user_def)

definition check_at :: "instant \<Rightarrow> check_env" where
  "check_at t = \<lparr>ck_user = True, ck_resource = True, ck_roles = True, ck_now = t, ck_later = t\<rparr>"

lemma check_at_answers [simp]: "answering (check_at t)"
  by (simp add: answering_def check_at_def)


text \<open>
  The lists of the API and the read check agree: for a registered caller who asks for public resources
  too, the access filter keeps exactly the names the read check grants, in their order;
  without that wish it drops the public resources of groups the caller is not in.
\<close>

theorem lists_match_read_check:
  assumes "access_wf db" "answering v" "coherent c db uid (ck_now v)" "uid \<in> us_id ` set (az_users db)"
  shows "filter_by_access True v db (Some uid) True rt names =
      filter (\<lambda>n. fst (can_read v db uid rt n c) = Inr True) names \<and>
    filter_by_access True v db (Some uid) False rt names =
      filter (\<lambda>n. admin_user db uid \<or>
        (\<exists>r \<in> set (az_resources db). rg_type r = rt \<and> rg_name r = n \<and> has_role db uid (rg_group r) role_reader)) names"
proof -
  have a: "is_admin v db uid = Inr (admin_user db uid)"
    using get_user_found [OF assms(1) _ assms(4)] assms(2) by (simp add: answering_def)
  have obs: "role_rank (gm_role m) \<noteq> 0" if "m \<in> set (az_members db)" for m
    using assms(1) that by (simp add: wf_defs)
  let ?gids = "map gm_group (filter (\<lambda>m. gm_user m = uid) (az_members db))"
  have mem: "g \<in> set ?gids \<longleftrightarrow> has_role db uid g role_reader" for g
    using obs by (fastforce simp: has_role_def list_ex_iff role_covers_def)
  have ids: "caller_group_ids True (\<lambda>_. ck_roles v) db (Some uid) = ?gids"
    using assms(2) by (simp add: caller_group_ids_def user_group_ids_def answering_def)
  let ?listed = "\<lambda>b n. \<exists>r \<in> set (az_resources db). rg_type r = rt \<and> rg_name r = n \<and> (has_role db uid (rg_group r) role_reader \<or> b \<and> rg_public r)"
  have listed: "filter_by_access True v db (Some uid) b rt names = filter (\<lambda>n. admin_user db uid \<or> ?listed b n) names" for b
  proof (cases "admin_user db uid")
    case True
    then show ?thesis by (simp add: filter_by_access_def caller_is_admin_def a)
  next
    case False
    have "filter_by_access True v db (Some uid) b rt names =
        filter (\<lambda>n. n \<in> rg_name ` {r \<in> set (az_resources db). rg_type r = rt \<and> (rg_group r \<in> set ?gids \<or> b \<and> rg_public r)}) names"
      using assms(2) False unfolding filter_by_access_def ids list_resources_by_groups_def
      by (simp add: caller_is_admin_def a answering_def)
    also have "\<dots> = filter (?listed b) names" unfolding mem by (intro filter_cong refl) auto
    finally show ?thesis using False by simp
  qed
  have "permitted db uid role_reader rt n \<longleftrightarrow> admin_user db uid \<or> ?listed True n" for n
    by (auto simp: permitted_def list_ex_iff)
  then show ?thesis unfolding listed can_read_permitted [OF assms] by (auto intro!: filter_cong)
qed

theorem lists_match_read_check_witness:
  "filter_by_access True (check_at 5) sample_access (Some ''ann'') True ''agent'' [''a1'', ''a2'', ''a3''] = [''a1'', ''a2''] \<and>
   filter_by_access True (check_at 5) sample_access (Some ''ann'') False ''agent'' [''a1'', ''a2'', ''a3''] = [''a1'']"
proof -
  have c: "coherent (new_group_cache 30) sample_access ''ann'' (ck_now (check_at 5))"
    by (simp add: coherent_def new_group_cache_def)
  have u: "''ann'' \<in> us_id ` set (az_users sample_access)" by (simp add: sample_access_def sample_user_def)
  have "fst (can_read (check_at 5) sample_access ''ann'' ''agent'' n (new_group_cache 30)) = Inr True \<longleftrightarrow> n = ''a1'' \<or> n = ''a2''" for n
    unfolding can_read_permitted [OF sample_access_wf check_at_answers c u]
    by (auto simp: permitted_def admin_user_def has_role_def sample_access_def sample_user_def role_covers_def)
  moreover have "(admin_user sample_access ''ann'' \<or> (\<exists>r \<in> set (az_resources sample_access). rg_type r = ''agent'' \<and> rg_name r = n \<and>
      has_role sample_access ''ann'' (rg_group r) role_reader)) \<longleftrightarrow> n = ''a1''" for n
    by (auto simp: admin_user_def has_role_def sample_access_def sample_user_def role_covers_def)
  ultimately show ?thesis
    using lists_match_read_check [OF sample_access_wf check_at_answers c u, of "''agent''" "[''a1'', ''a2'', ''a3'']"] by simp
qed

section \<open>Revocation\<close>

text \<open>
  Histories of the hub: an operation on the tables, a look at the roles of a user by any of
  the checks, which all go through \<^const>\<open>role_of\<close>, or time passing.
\<close>

datatype access_event = Change access_op | Look bool string string | Wait nat

record access_world =
  aw_db :: authz_db
  aw_cache :: group_cache
  aw_now :: instant

fun happen :: "access_event \<Rightarrow> access_world \<Rightarrow> access_world" where
  "happen (Change op) w = w\<lparr>aw_db := apply_access op (aw_db w)\<rparr>"
| "happen (Look ok uid gid) w =
     w\<lparr>aw_cache := snd (role_of ((check_at (aw_now w))\<lparr>ck_roles := ok\<rparr>) (aw_db w) uid gid (aw_cache w))\<rparr>"
| "happen (Wait d) w = w\<lparr>aw_now := aw_now w + int d\<rparr>"


definition member_of :: "authz_db \<Rightarrow> string \<Rightarrow> string \<Rightarrow> bool" where
  "member_of db gid uid \<longleftrightarrow> list_ex (\<lambda>m. gm_group m = gid \<and> gm_user m = uid) (az_members db)"


lemma members_untouched [simp]:
  "az_members (snd (upsert_user pg now sub email name db)) = az_members db"
  "az_members (snd (update_user op pg now i f db)) = az_members db"
  "az_members (snd (create_local_user pg now i email name h b db)) = az_members db"
  "az_members (snd (create_group pg i now name d db)) = az_members db"
  "az_members (snd (update_group pg now i name d db)) = az_members db"
  "az_members (snd (set_resource_group pg now rt rn g b db)) = az_members db"
  "az_members (snd (delete_resource_group pg rt rn db)) = az_members db"
  "az_members (snd (set_resource_public pg rt rn b db)) = az_members db"
  "az_members (snd (create_token sha rnd pg i now u name e db)) = az_members db"
  "az_members (snd (revoke_token pg now i u db)) = az_members db"
  "az_members (snd (validate_token sha pg now p db)) = az_members db"
  by (simp_all add: upsert_user_def update_user_def create_local_user_def create_group_def update_group_def
      set_resource_group_def delete_resource_group_def set_resource_public_def create_token_def revoke_token_def
      validate_token_def Let_def split: option.split)











text \<open>Ann's role has been read, then she is removed from the group.\<close>

definition removed_world :: access_world where
  "removed_world = fold happen [Look True ''ann'' ''g1'', Wait 10, Change (RemoveMember all_ok ''g1'' ''ann'')]
     \<lparr>aw_db = sample_access, aw_cache = new_group_cache 30, aw_now = 100\<rparr>"

lemma removed_world_eq:
  "aw_now removed_world = 110" "gc_ttl (aw_cache removed_world) = 30"
  "gc_items (aw_cache removed_world) = [(''ann'', [(''g1'', role_writer)], 130)]"
  "aw_db removed_world = sample_access\<lparr>az_members := []\<rparr>"
  by (simp_all add: removed_world_def role_of_def user_role_def user_roles_def user_group_roles_def check_at_def
      new_group_cache_def sample_access_def sample_user_def aput_def remove_group_member_def has_row_def delete_rows_def)


text \<open>
  Until then it is still granted: nothing drops a cached role when the membership is removed, so a writer
  whose role has been read keeps writing for as long as the entry lasts. The comment of the
  local session middleware says that revoking a role takes effect immediately.
\<close>

theorem revoked_role_lingers:
  assumes "map_of (gc_items (aw_cache w)) uid = Some (rs, expires)" "role_covers (role_in rs gid) role_writer"
    and "remove_group_member pg gid uid (aw_db w) = (Inr (), db')" "aw_now w + int d < expires"
    and "lookup_row resource_key (rt, rn) (az_resources (aw_db w)) = Some r" "rg_group r = gid"
    and "uid \<in> us_id ` set (az_users (aw_db w))"
  shows "\<not> member_of (aw_db (happen (Change (RemoveMember pg gid uid)) w)) gid uid \<and>
    fst (can_write (check_at (aw_now w + int d)) (aw_db (fold happen [Change (RemoveMember pg gid uid), Wait d] w)) uid rt rn
      (aw_cache (fold happen [Change (RemoveMember pg gid uid), Wait d] w))) = Inr True"
proof -
  have db': "db' = aw_db w\<lparr>az_members := delete_rows member_key (gid, uid) (az_members (aw_db w))\<rparr>"
    using assms(3) by (auto simp: remove_group_member_def split: if_splits)
  then have gone: "\<not> member_of db' gid uid" by (auto simp: member_of_def list_ex_iff)
  have role: "role_of (check_at (aw_now w + int d)) db' uid gid (aw_cache w) = (Inr (role_in rs gid), aw_cache w)"
    using assms(1,4) by (simp add: role_of_def user_role_def user_roles_def check_at_def)
  obtain u where u: "lookup_row us_id uid (az_users (aw_db w)) = Some u"
    using assms(7) by (metis lookup_row_None_iff option.exhaust)
  have admin: "is_admin (check_at (aw_now w + int d)) db' uid = Inr (us_admin u)"
    using u by (simp add: is_admin_def get_user_def check_at_def db' scan_user_def)
  have rg: "get_resource_group (\<lambda>_. ck_resource (check_at (aw_now w + int d))) rt rn db' = Inr r"
    using assms(5) by (simp add: get_resource_group_def check_at_def db')
  have s: "aw_db (fold happen [Change (RemoveMember pg gid uid), Wait d] w) = db'"
    "aw_cache (fold happen [Change (RemoveMember pg gid uid), Wait d] w) = aw_cache w"
    "aw_db (happen (Change (RemoveMember pg gid uid)) w) = db'"
    using assms(3) by simp_all
  show ?thesis unfolding s using gone role assms(2,6) by (simp add: can_write_def admin rg)
qed

theorem revoked_role_lingers_witness:
  "fst (can_write (check_at 119) (aw_db (fold happen [Change (RemoveMember all_ok ''g1'' ''ann''), Wait 9]
       \<lparr>aw_db = sample_access, aw_cache = aw_cache removed_world, aw_now = 110\<rparr>)) ''ann'' ''agent'' ''a1''
     (aw_cache (fold happen [Change (RemoveMember all_ok ''g1'' ''ann''), Wait 9]
       \<lparr>aw_db = sample_access, aw_cache = aw_cache removed_world, aw_now = 110\<rparr>))) = Inr True"
proof -
  let ?w = "\<lparr>aw_db = sample_access, aw_cache = aw_cache removed_world, aw_now = 110\<rparr>"
  have e: "map_of (gc_items (aw_cache ?w)) ''ann'' = Some ([(''g1'', role_writer)], 130)" by (simp add: removed_world_eq)
  have c: "role_covers (role_in [(''g1'', role_writer)] ''g1'') role_writer" by (simp add: role_in_def role_covers_def)
  have m: "remove_group_member all_ok ''g1'' ''ann'' (aw_db ?w) = (Inr (), sample_access\<lparr>az_members := []\<rparr>)"
    by (simp add: remove_group_member_def sample_access_def has_row_def delete_rows_def)
  have r: "lookup_row resource_key (''agent'', ''a1'') (az_resources (aw_db ?w)) =
      Some \<lparr>rg_type = ''agent'', rg_name = ''a1'', rg_group = ''g1'', rg_public = False, rg_created = 0\<rparr>"
    by (simp add: sample_access_def sql_simps)
  have u: "''ann'' \<in> us_id ` set (az_users (aw_db ?w))" by (simp add: sample_access_def sample_user_def)
  show ?thesis using revoked_role_lingers [OF e c m _ r _ u, of 9] by simp
qed

end
