(* ===== verification/GuardedApi.thy ===== *)
theory GuardedApi
  imports AccessRules
begin

text \<open>
  What the endpoints of the hub that serve resources have in common
  (\<^verbatim>\<open>services/hub/internal/api/server.go\<close>): the state they work on, the guards in front of a handler and the group
  bookkeeping; that a guard which lets a request pass is the policy; and the contract of a guarded
  endpoint, a locale that the endpoints interpret.
\<close>

section \<open>State shared by the resource endpoints\<close>

text \<open>The authorization tables with the cache of the checker, and the data of the resource.\<close>

record 'd api =
  ap_authz :: authz_db
  ap_cache :: group_cache
  ap_data :: 'd

text \<open>
  The surroundings of one request: whether authorization is wired, the caller the middleware found, the
  outcome of the check, the statements of the data store and of the group bookkeeping, and the instant.
\<close>

record call =
  cl_wired :: bool
  cl_caller :: "string option"
  cl_check :: check_env
  cl_data :: pg
  cl_more :: pg
  cl_group :: bool
  cl_now :: instant

type_synonym ('r, 'd) reply = "(refusal + 'r) \<times> 'd api"

text \<open>Run a guard; go on with what it left of the cache.\<close>

definition with_guard ::
  "(group_cache \<Rightarrow> (denial + unit) \<times> group_cache) \<Rightarrow> ('d api \<Rightarrow> ('r, 'd) reply) \<Rightarrow> 'd api \<Rightarrow> ('r, 'd) reply" where
  "with_guard g k s =
     (case g (ap_cache s) of
        (Inl d, c) \<Rightarrow> (Inl (refuse d), s\<lparr>ap_cache := c\<rparr>)
      | (Inr _, c) \<Rightarrow> k (s\<lparr>ap_cache := c\<rparr>))"

definition guard_read where
  "guard_read v rt rn k s = with_guard (require_read (cl_wired v) (cl_check v) (ap_authz s) (cl_caller v) rt rn) k s"

definition guard_write where
  "guard_write v rt rn k s = with_guard (require_write (cl_wired v) (cl_check v) (ap_authz s) (cl_caller v) rt rn) k s"

definition guard_group_write where
  "guard_group_write v gid k s = with_guard (require_group_write (cl_wired v) (cl_check v) (ap_authz s) (cl_caller v) gid) k s"

text \<open>A new resource needs a group, and a role in it that may write, when authorization is wired.\<close>

definition guard_creation :: "call \<Rightarrow> string \<Rightarrow> ('d api \<Rightarrow> ('r, 'd) reply) \<Rightarrow> 'd api \<Rightarrow> ('r, 'd) reply" where
  "guard_creation v gid k s =
     (if \<not> cl_wired v then k s
      else if gid = [] then (Inl (Refused 400 ''groupId is required''), s)
      else guard_group_write v gid k s)"

text \<open>The group row of a new or a deleted resource; a failure is only logged.\<close>

definition assign_group :: "call \<Rightarrow> string \<Rightarrow> string \<Rightarrow> string \<Rightarrow> 'd api \<Rightarrow> 'd api" where
  "assign_group v rt i gid s =
     (if \<not> cl_wired v then s
      else s\<lparr>ap_authz := snd (set_resource_group (\<lambda>_. cl_group v) (cl_now v) rt i
               (if gid = [] then ''legacy'' else gid) False (ap_authz s))\<rparr>)"

definition release_group :: "call \<Rightarrow> string \<Rightarrow> string \<Rightarrow> 'd api \<Rightarrow> 'd api" where
  "release_group v rt i s =
     (if \<not> cl_wired v then s
      else s\<lparr>ap_authz := snd (delete_resource_group (\<lambda>_. cl_group v) rt i (ap_authz s))\<rparr>)"

text \<open>The rows a caller may see, in the order of their ids.\<close>

definition visible :: "call \<Rightarrow> bool \<Rightarrow> string \<Rightarrow> ('x \<Rightarrow> string) \<Rightarrow> authz_db \<Rightarrow> 'x list \<Rightarrow> 'x list" where
  "visible v public rt name db xs =
     (let ys = sort_key name xs in
      if cl_wired v \<and> \<not> caller_is_admin (cl_wired v) (cl_check v) db (cl_caller v)
      then (let names = filter_by_access (cl_wired v) (cl_check v) db (cl_caller v) public rt (map name ys)
            in filter (\<lambda>y. name y \<in> set names) ys)
      else ys)"

definition bad_method :: refusal where "bad_method = Refused 405 ''method not allowed''"

definition opt_if :: "string \<Rightarrow> string option" where
  "opt_if s = (if s \<noteq> [] then Some s else None)"

abbreviation map_reply :: "('a \<Rightarrow> 'b) \<Rightarrow> ('a, 'd) reply \<Rightarrow> ('b, 'd) reply" where
  "map_reply f r \<equiv> map_prod (map_sum id f) id r"

section \<open>A check that passes is the policy\<close>

text \<open>
  Whatever queries fail on the way: an answer that lets a request pass is never wrong, as long as the
  cached roles are current.
\<close>

lemma is_admin_sound: "is_admin v db uid = Inr True \<Longrightarrow> admin_user db uid"
  using lookup_row_SomeD [of us_id uid "az_users db"]
  by (force simp: is_admin_def get_user_def admin_user_def list_ex_iff scan_user_def split: if_splits option.splits)

lemma role_of_sound:
  assumes "role_of v db uid gid c = (Inr r, c')" "coherent c db uid (ck_now v)"
  shows "r = role_in (roles_of db uid) gid"
  using assms
  by (auto simp: role_of_def user_role_def user_roles_def user_group_roles_def roles_of_def coherent_def
      split: option.splits if_splits sum.splits)

lemma resource_permitted:
  assumes "lookup_row resource_key (rt, rn) (az_resources db) = Some r" "has_role db uid (rg_group r) need"
  shows "permitted db uid need rt rn"
  using lookup_row_SomeD [OF assms(1)] assms(2) by (auto simp: permitted_def list_ex_iff)

lemma can_write_sound:
  assumes "can_write v db uid rt rn c = (Inr True, c')" "access_wf db" "coherent c db uid (ck_now v)"
  shows "permitted db uid role_writer rt rn"
proof (cases "is_admin v db uid")
  case (Inl e)
  then show ?thesis using assms(1) by (simp add: can_write_def)
next
  case (Inr a)
  show ?thesis
  proof (cases a)
    case True
    then show ?thesis using is_admin_sound Inr by (simp add: permitted_def)
  next
    case False
    then obtain rg role where g: "get_resource_group (\<lambda>_. ck_resource v) rt rn db = Inr rg"
      "role_of v db uid (rg_group rg) c = (Inr role, c')" "role_covers role role_writer"
      using assms(1) Inr by (auto simp: can_write_def split: sum.splits prod.splits if_splits)
    then have "lookup_row resource_key (rt, rn) (az_resources db) = Some rg"
      by (simp add: get_resource_group_def split: if_splits option.splits)
    moreover have "has_role db uid (rg_group rg) role_writer"
      using role_in_covers [OF assms(2)] role_of_sound [OF g(2) assms(3)] g(3) by simp
    ultimately show ?thesis by (rule resource_permitted)
  qed
qed

lemma can_write_group_sound:
  assumes "can_write_group v db uid gid c = (Inr True, c')" "access_wf db" "coherent c db uid (ck_now v)"
  shows "admin_user db uid \<or> has_role db uid gid role_writer"
proof (cases "is_admin v db uid")
  case (Inl e)
  then show ?thesis using assms(1) by (simp add: can_write_group_def)
next
  case (Inr a)
  show ?thesis
  proof (cases a)
    case True
    then show ?thesis using is_admin_sound Inr by simp
  next
    case False
    then obtain role where "role_of v db uid gid c = (Inr role, c')" "role_covers role role_writer"
      using assms(1) Inr by (auto simp: can_write_group_def split: sum.splits prod.splits if_splits)
    then show ?thesis using role_in_covers [OF assms(2)] role_of_sound [OF _ assms(3)] by fastforce
  qed
qed

lemma can_read_sound:
  assumes "can_read v db uid rt rn c = (Inr True, c')" "access_wf db" "coherent c db uid (ck_now v)"
  shows "permitted db uid role_reader rt rn"
proof (cases "is_admin v db uid")
  case (Inl e)
  then show ?thesis using assms(1) by (simp add: can_read_def)
next
  case (Inr a)
  show ?thesis
  proof (cases a)
    case True
    then show ?thesis using is_admin_sound Inr by (simp add: permitted_def)
  next
    case False
    then obtain rg where g: "get_resource_group (\<lambda>_. ck_resource v) rt rn db = Inr rg"
      using assms(1) Inr by (auto simp: can_read_def split: sum.splits if_splits)
    then have l: "lookup_row resource_key (rt, rn) (az_resources db) = Some rg"
      by (simp add: get_resource_group_def split: if_splits option.splits)
    show ?thesis
    proof (cases "rg_public rg")
      case True
      then show ?thesis using lookup_row_SomeD [OF l] by (auto simp: permitted_def list_ex_iff)
    next
      case False
      then obtain role where r: "role_of v db uid (rg_group rg) c = (Inr role, c')" "role_covers role role_reader"
        using assms(1) Inr g \<open>\<not> a\<close> by (auto simp: can_read_def split: sum.splits prod.splits if_splits)
      then have "has_role db uid (rg_group rg) role_reader"
        using role_in_covers [OF assms(2)] role_of_sound [OF r(1) assms(3)] by simp
      then show ?thesis using l by (rule resource_permitted [rotated])
    qed
  qed
qed

lemma filter_by_access_sound:
  assumes "n \<in> set (filter_by_access True v db (Some uid) public rt names)" "access_wf db"
  shows "permitted db uid role_reader rt n \<and> n \<in> set names"
proof (cases "caller_is_admin True v db (Some uid)")
  case True
  then have "admin_user db uid" by (auto simp: caller_is_admin_def split: sum.splits dest: is_admin_sound)
  then show ?thesis using assms(1) True by (simp add: permitted_def filter_by_access_def)
next
  case False
  then obtain r where r: "r \<in> set (az_resources db)" "rg_type r = rt" "rg_name r = n" and n: "n \<in> set names"
    and "rg_group r \<in> set (caller_group_ids True (\<lambda>_. ck_roles v) db (Some uid)) \<or> rg_public r"
    using assms(1) by (auto simp: filter_by_access_def list_resources_by_groups_def split: sum.splits if_splits)
  moreover have "has_role db uid g role_reader" if "g \<in> set (caller_group_ids True (\<lambda>_. ck_roles v) db (Some uid))" for g
  proof -
    from that obtain m where "m \<in> set (az_members db)" "gm_user m = uid" "gm_group m = g"
      by (auto simp: caller_group_ids_def user_group_ids_def split: sum.splits if_splits)
    moreover from this have "role_rank (gm_role m) \<noteq> 0" using assms(2) by (simp add: wf_defs)
    ultimately show ?thesis by (fastforce simp: has_role_def list_ex_iff role_covers_def)
  qed
  ultimately show ?thesis by (auto simp: permitted_def list_ex_iff)
qed

text \<open>Behind a wired guard the continuation only runs for a caller who passed.\<close>

lemma with_guard_cases:
  assumes "with_guard (guard True caller msg check) k s = (r, s')"
  obtains d c where "r = Inl (refuse d)" "s' = s\<lparr>ap_cache := c\<rparr>"
  | sub c where "caller = Some sub" "check sub (ap_cache s) = (Inr True, c)" "k (s\<lparr>ap_cache := c\<rparr>) = (r, s')"
proof (cases "guard True caller msg check (ap_cache s)")
  case (Pair x c)
  show ?thesis
  proof (cases x)
    case (Inl d)
    then have "r = Inl (refuse d)" "s' = s\<lparr>ap_cache := c\<rparr>" using assms Pair by (auto simp: with_guard_def)
    then show ?thesis by (rule that(1))
  next
    case (Inr u)
    then obtain sub where "caller = Some sub" "check sub (ap_cache s) = (Inr True, c)"
      using Pair by (auto simp: guard_def split: option.splits sum.splits prod.splits if_splits)
    moreover have "k (s\<lparr>ap_cache := c\<rparr>) = (r, s')" using assms Pair Inr by (simp add: with_guard_def)
    ultimately show ?thesis by (rule that(2))
  qed
qed

definition current :: "call \<Rightarrow> 'd api \<Rightarrow> bool" where
  "current v s \<longleftrightarrow> access_wf (ap_authz s) \<and>
     (\<forall>sub. cl_caller v = Some sub \<longrightarrow> coherent (ap_cache s) (ap_authz s) sub (ck_now (cl_check v)))"

definition changed :: "'d api \<Rightarrow> 'd api \<Rightarrow> bool" where
  "changed s s' \<longleftrightarrow> ap_data s' \<noteq> ap_data s \<or> ap_authz s' \<noteq> ap_authz s"

lemma changed_cache [simp]: "\<not> changed s (s\<lparr>ap_cache := c\<rparr>)" "\<not> changed s s"
  by (simp_all add: changed_def)

lemma guard_write_change:
  assumes "guard_write v rt rn k s = (r, s')" "changed s s'" "cl_wired v" "current v s"
  shows "\<exists>sub. cl_caller v = Some sub \<and> permitted (ap_authz s) sub role_writer rt rn"
proof -
  have w: "cl_wired v = True" using assms(3) by simp
  show ?thesis
  using assms(1)
  unfolding guard_write_def require_write_def w
proof (cases rule: with_guard_cases)
  case (1 d c)
  then show ?thesis using assms(2) by simp
next
  case (2 sub c)
  then show ?thesis using can_write_sound [OF 2(2)] assms(4) by (auto simp: current_def)
qed
qed

lemma guard_creation_change:
  assumes "guard_creation v gid k s = (r, s')" "changed s s'" "cl_wired v" "current v s"
  shows "\<exists>sub. cl_caller v = Some sub \<and> gid \<noteq> [] \<and> (admin_user (ap_authz s) sub \<or> has_role (ap_authz s) sub gid role_writer)"
proof -
  have g: "gid \<noteq> []" using assms(1-3) by (auto simp: guard_creation_def)
  then have "guard_group_write v gid k s = (r, s')" using assms(1,3) by (simp add: guard_creation_def)
  have w: "cl_wired v = True" using assms(3) by simp
  show ?thesis
    using \<open>guard_group_write v gid k s = (r, s')\<close>
    unfolding guard_group_write_def require_group_write_def w
  proof (cases rule: with_guard_cases)
    case (1 d c)
    then show ?thesis using assms(2) by simp
  next
    case (2 sub c)
    then show ?thesis using can_write_group_sound [OF 2(2)] assms(4) g by (auto simp: current_def)
  qed
qed

lemma guard_read_passes:
  assumes "guard_read v rt rn k s = (Inr x, s')" "cl_wired v" "current v s"
  obtains sub c where "cl_caller v = Some sub" "permitted (ap_authz s) sub role_reader rt rn" "k (s\<lparr>ap_cache := c\<rparr>) = (Inr x, s')"
proof -
  have w: "cl_wired v = True" using assms(2) by simp
  show ?thesis
    using assms(1)
    unfolding guard_read_def require_read_def w
  proof (cases rule: with_guard_cases)
    case (2 sub c)
    then show ?thesis using can_read_sound [OF 2(2)] assms(3) that by (auto simp: current_def)
  qed simp
qed

lemma guard_read_unchanged:
  assumes "guard_read v rt rn k s = (r, s')" "\<And>s1. \<not> changed s1 (snd (k s1))"
  shows "\<not> changed s s'"
proof (cases "require_read (cl_wired v) (cl_check v) (ap_authz s) (cl_caller v) rt rn (ap_cache s)")
  case (Pair x c)
  show ?thesis
  proof (cases x)
    case (Inl d)
    then show ?thesis using assms(1) Pair by (auto simp: guard_read_def with_guard_def)
  next
    case (Inr u)
    then have "k (s\<lparr>ap_cache := c\<rparr>) = (r, s')" using assms(1) Pair by (simp add: guard_read_def with_guard_def)
    then show ?thesis using assms(2) [of "s\<lparr>ap_cache := c\<rparr>"] by (simp add: changed_def)
  qed
qed

lemma snd_map_prod_id [simp]: "snd (map_prod f id p) = snd p"
  by (cases p) simp

section \<open>Guarded endpoints\<close>

text \<open>Requests one after another, each with its surroundings.\<close>

fun serve_all :: "(call \<Rightarrow> 'q \<Rightarrow> 'd api \<Rightarrow> ('r, 'd) reply) \<Rightarrow> (call \<times> 'q) list \<Rightarrow> 'd api \<Rightarrow> 'd api" where
  "serve_all handle [] s = s"
| "serve_all handle ((v, q) # xs) s = serve_all handle xs (snd (handle v q s))"

text \<open>The cached roles of every user are those of the tables, at any time.\<close>

definition fresh_cache :: "authz_db \<Rightarrow> group_cache \<Rightarrow> bool" where
  "fresh_cache db c \<longleftrightarrow> (\<forall>uid t. coherent c db uid t)"

definition fresh :: "'d api \<Rightarrow> bool" where
  "fresh s \<longleftrightarrow> fresh_cache (ap_authz s) (ap_cache s)"

lemma role_of_fresh: "role_of v db uid gid c = (r, c') \<Longrightarrow> fresh_cache db c \<Longrightarrow> fresh_cache db c'"
  by (auto simp: role_of_def user_role_def user_roles_def user_group_roles_def roles_of_def fresh_cache_def coherent_def
      split: option.splits if_splits sum.splits)

lemma checks_fresh:
  "can_read v db uid rt rn c = (x, c') \<Longrightarrow> fresh_cache db c \<Longrightarrow> fresh_cache db c'"
  "can_write v db uid rt rn c = (x, c') \<Longrightarrow> fresh_cache db c \<Longrightarrow> fresh_cache db c'"
  "can_write_group v db uid gid c = (x, c') \<Longrightarrow> fresh_cache db c \<Longrightarrow> fresh_cache db c'"
  "can_manage_group v db uid gid c = (x, c') \<Longrightarrow> fresh_cache db c \<Longrightarrow> fresh_cache db c'"
  by (auto simp: can_read_def can_write_def can_write_group_def can_manage_group_def split: sum.splits prod.splits if_splits dest: role_of_fresh)

lemma guard_fresh:
  assumes "guard wired caller msg check c = (x, c')" "fresh_cache db c"
    and "\<And>sub y c1. check sub c = (y, c1) \<Longrightarrow> fresh_cache db c1"
  shows "fresh_cache db c'"
  using assms by (auto simp: guard_def split: if_splits option.splits sum.splits prod.splits)

text \<open>A guarded handler is as steady as what it guards.\<close>

definition steady :: "'d api \<Rightarrow> ('r, 'd) reply \<Rightarrow> bool" where
  "steady s rep \<longleftrightarrow> (fresh s \<longrightarrow> ap_authz (snd rep) = ap_authz s \<longrightarrow> fresh (snd rep))"

lemma with_guard_steady:
  assumes "\<And>x c. g (ap_cache s) = (x, c) \<Longrightarrow> fresh s \<Longrightarrow> fresh_cache (ap_authz s) c"
    and "\<And>c. steady (s\<lparr>ap_cache := c\<rparr>) (k (s\<lparr>ap_cache := c\<rparr>))"
  shows "steady s (with_guard g k s)"
proof -
  obtain x c where x: "g (ap_cache s) = (x, c)" by (cases "g (ap_cache s)")
  then have f: "fresh s \<Longrightarrow> fresh (s\<lparr>ap_cache := c\<rparr>)" using assms(1) by (simp add: fresh_def)
  show ?thesis using assms(2) [of c] f x by (cases x) (simp_all add: steady_def with_guard_def)
qed

lemma guards_steady:
  assumes "\<And>c. steady (s\<lparr>ap_cache := c\<rparr>) (k (s\<lparr>ap_cache := c\<rparr>))"
  shows "steady s (guard_read v rt rn k s)" "steady s (guard_write v rt rn k s)" "steady s (guard_group_write v gid k s)"
  unfolding guard_read_def guard_write_def guard_group_write_def require_read_def require_write_def require_group_write_def
  by (rule with_guard_steady [OF _ assms], erule guard_fresh, simp add: fresh_def, rule checks_fresh, assumption, simp add: fresh_def)+

lemma guard_creation_steady:
  assumes "\<And>c. steady (s\<lparr>ap_cache := c\<rparr>) (k (s\<lparr>ap_cache := c\<rparr>))" "steady s (k s)"
  shows "steady s (guard_creation v gid k s)"
  using assms(2) guards_steady(3) [of s k v gid] assms(1) by (simp add: steady_def guard_creation_def)

lemma steady_same_cache: "ap_cache (snd rep) = ap_cache s \<Longrightarrow> steady s rep"
  by (simp add: steady_def fresh_def)

lemma steady_pair [simp]: "ap_cache s1 = ap_cache s \<Longrightarrow> steady s (x, s1)"
  by (simp add: steady_same_cache)

lemma steady_map_reply [simp]: "steady s (map_reply f rep) = steady s rep"
  by (simp add: steady_def)

lemma fresh_current: "access_wf (ap_authz s) \<Longrightarrow> fresh s \<Longrightarrow> current v s"
  by (simp add: current_def fresh_def fresh_cache_def)

text \<open>A call in which everything succeeds.\<close>

definition plain_call :: "string \<Rightarrow> call" where
  "plain_call sub = \<lparr>cl_wired = True, cl_caller = Some sub, cl_check = check_at 5, cl_data = all_ok, cl_more = all_ok,
     cl_group = True, cl_now = 5\<rparr>"

text \<open>
  The contract: a request that changes something is covered by what the policy needs of its
  caller, and one that changes nothing leaves the cached roles correct.
\<close>

locale guarded_endpoint =
  fixes handle :: "call \<Rightarrow> 'q \<Rightarrow> 'd api \<Rightarrow> ('r, 'd) reply"
    and needs :: "'q \<Rightarrow> authz_db \<Rightarrow> 'd \<Rightarrow> string \<Rightarrow> bool"
  assumes changes_need: "handle v q s = (r, s') \<Longrightarrow> changed s s' \<Longrightarrow> cl_wired v \<Longrightarrow> access_wf (ap_authz s) \<Longrightarrow> fresh s \<Longrightarrow>
      \<exists>sub. cl_caller v = Some sub \<and> needs q (ap_authz s) (ap_data s) sub"
    and stays_steady: "steady s (handle v q s)"
begin

lemma unpermitted_changes_nothing:
  assumes "access_wf (ap_authz s)" "fresh s"
    and "\<forall>(v, q) \<in> set xs. cl_wired v \<and> (\<forall>sub. cl_caller v = Some sub \<longrightarrow> \<not> needs q (ap_authz s) (ap_data s) sub)"
  shows "\<not> changed s (serve_all handle xs s)"
  using assms
proof (induction xs arbitrary: s)
  case (Cons x xs)
  obtain v q where x: "x = (v, q)" by (cases x)
  obtain r s' where h: "handle v q s = (r, s')" by (cases "handle v q s")
  have "\<not> changed s s'" using changes_need [OF h] Cons.prems x by auto
  then have same: "ap_authz s' = ap_authz s" "ap_data s' = ap_data s" by (simp_all add: changed_def)
  have "fresh s'" using stays_steady [of s v q] h same Cons.prems(2) by (simp add: steady_def)
  then have "\<not> changed s' (serve_all handle xs s')" using Cons same by simp
  then show ?case using same x h by (simp add: changed_def)
qed simp

end

end
