(* ===== verification/Paging.thy ===== *)
theory Paging
  imports GoText
begin

text \<open>
  Pages and sort orders of the list endpoints (\<^verbatim>\<open>services/hub/internal/api/pagination.go\<close>, \<^verbatim>\<open>sorting.go\<close>). An
  absent query parameter is the empty string. Products of \<open>int\<close>s are those of 64 bits.
\<close>

section \<open>Pages\<close>

definition default_page_size :: int where "default_page_size = 50"
definition max_page_size :: int where "max_page_size = 200"

record page_params =
  pp_page :: int
  pp_size :: int

definition parse_page_params :: "string \<Rightarrow> string \<Rightarrow> string + page_params" where
  "parse_page_params page page_size =
     (case (if page = [] then Some 1 else map_option (\<lambda>n. if n < 1 then 1 else n) (atoi page)) of
        None \<Rightarrow> Inl (''invalid page '' @ quoted page @ '': must be a positive integer'')
      | Some p \<Rightarrow>
          (case (if page_size = [] then Some default_page_size
                 else map_option (\<lambda>n. let m = (if n < 1 then 1 else n) in if max_page_size < m then max_page_size else m) (atoi page_size)) of
             None \<Rightarrow> Inl (''invalid pageSize '' @ quoted page_size @ '': must be a positive integer'')
           | Some s \<Rightarrow> Inr \<lparr>pp_page = p, pp_size = s\<rparr>))"

text \<open>The bounds of a page in a list of \<open>n\<close> items.\<close>

definition page_slice :: "page_params \<Rightarrow> nat \<Rightarrow> nat \<times> nat" where
  "page_slice p n =
     (if pp_size p \<le> 0 then (0, 0)
      else let lo0 = wrap64 (wrap64 (pp_page p - 1) * pp_size p);
               lo1 = (if int n < lo0 then int n else lo0);
               lo = (if lo1 < 0 then 0 else lo1);
               hi0 = wrap64 (lo + pp_size p);
               hi = (if int n < hi0 then int n else hi0)
           in (nat lo, nat hi))"

definition page_items :: "page_params \<Rightarrow> 'a list \<Rightarrow> 'a list" where
  "page_items p xs = (case page_slice p (length xs) of (lo, hi) \<Rightarrow> take (hi - lo) (drop lo xs))"

definition total_pages :: "page_params \<Rightarrow> nat \<Rightarrow> nat" where
  "total_pages p n =
     (if pp_size p \<le> 0 \<or> n = 0 then 0
      else n div nat (pp_size p) + (if n mod nat (pp_size p) \<noteq> 0 then 1 else 0))"

record page_meta =
  pm_total :: nat
  pm_page :: int
  pm_size :: int
  pm_pages :: nat

definition page_meta_of :: "page_params \<Rightarrow> nat \<Rightarrow> page_meta" where
  "page_meta_of p n = \<lparr>pm_total = n, pm_page = pp_page p, pm_size = pp_size p, pm_pages = total_pages p n\<rparr>"

section \<open>Sort orders\<close>

record sort_params =
  so_by :: string
  so_dir :: string

definition parse_sort_params :: "string \<Rightarrow> string \<Rightarrow> string list \<Rightarrow> string + sort_params" where
  "parse_sort_params by dir allowed =
     (if by = [] then Inr \<lparr>so_by = [], so_dir = []\<rparr>
      else if \<not> list_ex (\<lambda>a. to_lower a = to_lower by) allowed
      then Inl (''invalid orderBy '' @ quoted by @ '': allowed values are '' @ join_with '', '' allowed)
      else if to_lower dir \<noteq> [] \<and> to_lower dir \<noteq> ''asc'' \<and> to_lower dir \<noteq> ''desc''
      then Inl (''invalid orderDir '' @ quoted dir @ '': must be asc or desc'')
      else Inr \<lparr>so_by = to_lower by, so_dir = to_lower dir\<rparr>)"

section \<open>What pages show\<close>

lemma parse_page_params_bounds:
  "parse_page_params a b = Inr p \<Longrightarrow> 1 \<le> pp_page p \<and> 1 \<le> pp_size p \<and> pp_size p \<le> 200"
  by (auto simp: parse_page_params_def Let_def default_page_size_def max_page_size_def split: option.splits if_splits)

lemma parse_sort_params_allowed:
  "parse_sort_params by dir allowed = Inr s \<Longrightarrow>
   so_by s = [] \<or> (\<exists>a \<in> set allowed. to_lower a = so_by s) \<and> so_dir s \<in> {[], ''asc'', ''desc''}"
  by (auto simp: parse_sort_params_def list_ex_iff split: if_splits)

lemma in_page_items: "x \<in> set (page_items p xs) \<Longrightarrow> x \<in> set xs"
  by (auto simp: page_items_def split: prod.splits dest!: in_set_takeD in_set_dropD)

lemma goint_nat: "int n < 2 ^ 63 \<Longrightarrow> goint (int n)"
  unfolding goint_def using of_nat_0_le_iff [of n, where ?'a = int] by linarith

lemma page_items_exact:
  assumes "0 < sz" "goint (int k * int sz)" "goint (int (length xs) + int sz)"
  shows "page_items \<lparr>pp_page = int k + 1, pp_size = int sz\<rparr> xs = take sz (drop (k * sz) xs)"
proof -
  have g: "goint (int k)"
  proof -
    have "int k * 1 \<le> int k * int sz" using assms(1) by (intro mult_left_mono) auto
    then show ?thesis using assms(2) by (auto simp: goint_def)
  qed
  define m where "m = k * sz"
  have m: "int k * int sz = int m" by (simp add: m_def)
  have w: "wrap64 (int m) = int m" "wrap64 (int k) = int k" using assms(2) g m by simp_all
  show ?thesis
  proof (cases "length xs < m")
    case True
    have "wrap64 (int (length xs) + int sz) = int (length xs) + int sz" using assms(3) by simp
    then have "page_slice \<lparr>pp_page = int k + 1, pp_size = int sz\<rparr> (length xs) = (length xs, length xs)"
      using assms(1) True w m by (simp add: page_slice_def Let_def)
    then show ?thesis using True by (simp add: page_items_def m_def)
  next
    case False
    then have "int (m + sz) < 2 ^ 63" using assms(3) by (simp add: goint_def)
    then have "wrap64 (int m + int sz) = int m + int sz" using goint_nat [of "m + sz"] by simp
    then have "page_slice \<lparr>pp_page = int k + 1, pp_size = int sz\<rparr> (length xs) = (m, min (m + sz) (length xs))"
      using assms(1) False w m by (auto simp: page_slice_def Let_def)
    then show ?thesis using False by (simp add: page_items_def min_def m_def)
  qed
qed

lemma take_drop_tile: "concat (map (\<lambda>k. take sz (drop (k * sz) xs)) [0..<n]) = take (n * sz) xs"
proof (induction n)
  case (Suc n)
  have "take (Suc n * sz) xs = take (n * sz) xs @ take sz (drop (n * sz) xs)"
    using take_add [of "n * sz" sz xs] by (simp add: add.commute)
  then show ?case using Suc by simp
qed simp

lemma total_pages_cover: "0 < sz \<Longrightarrow> n \<le> total_pages \<lparr>pp_page = p, pp_size = int sz\<rparr> n * sz"
proof -
  assume "0 < sz"
  have n: "n = n div sz * sz + n mod sz" by simp
  show ?thesis
  proof (cases "n mod sz = 0")
    case True
    then have "n = n div sz * sz" using n by simp
    then show ?thesis using True \<open>0 < sz\<close> by (auto simp: total_pages_def)
  next
    case False
    have "(n div sz + 1) * sz = n div sz * sz + sz" by simp
    then have "n \<le> (n div sz + 1) * sz" using n mod_less_divisor [OF \<open>0 < sz\<close>, of n] by linarith
    then show ?thesis using False \<open>0 < sz\<close> by (auto simp: total_pages_def)
  qed
qed

text \<open>
  Pages tile a list: for every page size the API accepts, the pages from the first to the last the
  envelope announces, put together, are the list, and any later page is empty, as long as the index of its first item
  fits into 64 bits. A page number beyond that wraps around and shows the first page instead.
\<close>

theorem pages_tile_lists:
  assumes "0 < sz" "sz \<le> 200" "length xs < 2 ^ 62"
  shows "concat (map (\<lambda>k. page_items \<lparr>pp_page = int k + 1, pp_size = int sz\<rparr> xs)
      [0..<total_pages \<lparr>pp_page = 1, pp_size = int sz\<rparr> (length xs)]) = xs \<and>
    (\<forall>page. int (total_pages \<lparr>pp_page = 1, pp_size = int sz\<rparr> (length xs)) < page \<and> goint page \<and> (page - 1) * int sz < 2 ^ 64 \<longrightarrow>
       page_items \<lparr>pp_page = page, pp_size = int sz\<rparr> xs = (if (page - 1) * int sz < 2 ^ 63 then [] else take sz xs))"
proof (intro conjI allI impI)
  let ?n = "total_pages \<lparr>pp_page = 1, pp_size = int sz\<rparr> (length xs)"
  have g: "goint (int (length xs) + int sz)" using assms by (simp add: goint_def)
  have "?n * sz \<le> length xs + sz"
  proof -
    have "?n \<le> length xs div sz + 1" by (simp add: total_pages_def)
    then have "?n * sz \<le> (length xs div sz + 1) * sz" by (rule mult_right_mono) simp
    also have "\<dots> \<le> length xs + sz" using div_times_less_eq_dividend [of "length xs" sz] by simp
    finally show ?thesis .
  qed
  then have k: "goint (int k * int sz)" if "k < ?n" for k
  proof -
    have "k * sz \<le> ?n * sz" using that by (intro mult_right_mono) auto
    then have "k * sz \<le> length xs + sz" using \<open>?n * sz \<le> length xs + sz\<close> by (rule le_trans)
    then have "k * sz < 2 ^ 63" using assms(2,3) by simp
    then have "int (k * sz) < 2 ^ 63" by (metis of_nat_less_iff of_nat_numeral of_nat_power)
    then show ?thesis using goint_nat [of "k * sz"] by simp
  qed
  have "map (\<lambda>k. page_items \<lparr>pp_page = int k + 1, pp_size = int sz\<rparr> xs) [0..<?n] = map (\<lambda>k. take sz (drop (k * sz) xs)) [0..<?n]"
    using page_items_exact [OF assms(1) k g] by (intro map_cong) auto
  then show "concat (map (\<lambda>k. page_items \<lparr>pp_page = int k + 1, pp_size = int sz\<rparr> xs) [0..<?n]) = xs"
    using take_drop_tile [of sz xs ?n] total_pages_cover [OF assms(1), of "length xs" 1] by (simp only: take_all)
next
  fix page
  let ?n = "total_pages \<lparr>pp_page = 1, pp_size = int sz\<rparr> (length xs)"
  assume p: "int ?n < page \<and> goint page \<and> (page - 1) * int sz < 2 ^ 64"
  have g: "goint (int (length xs) + int sz)" using assms by (simp add: goint_def)
  have c: "length xs \<le> ?n * sz" using total_pages_cover [OF assms(1)] .
  define k where "k = nat (page - 1)"
  have k: "page = int k + 1" "?n \<le> k" using p by (auto simp: k_def)
  show "page_items \<lparr>pp_page = page, pp_size = int sz\<rparr> xs = (if (page - 1) * int sz < 2 ^ 63 then [] else take sz xs)"
  proof (cases "(page - 1) * int sz < 2 ^ 63")
    case True
    then have "goint (int k * int sz)" using k(1) goint_nat [of "k * sz"] by simp
    moreover have "length xs \<le> k * sz" using c k(2) by (meson le_trans mult_le_mono1)
    ultimately show ?thesis using True page_items_exact [OF assms(1) _ g] k(1) by simp
  next
    case False
    have "wrap64 (page - 1) = page - 1" using p by (intro wrap64_id) (auto simp: goint_def)
    then have w: "wrap64 (wrap64 (page - 1) * int sz) = (page - 1) * int sz - 2 ^ 64"
      using wrap64_above [of "(page - 1) * int sz"] p False by simp
    have "wrap64 (int sz) = int sz" using assms(2) by (intro wrap64_id) (simp add: goint_def)
    then have "page_slice \<lparr>pp_page = page, pp_size = int sz\<rparr> (length xs) = (0, min sz (length xs))"
      using assms(1) p w by (auto simp: page_slice_def Let_def)
    then show ?thesis using False by (simp add: page_items_def min_def)
  qed
qed

theorem pages_tile_lists_witness:
  "concat (map (\<lambda>k. page_items \<lparr>pp_page = int k + 1, pp_size = 2\<rparr> ''abcde'')
     [0..<total_pages \<lparr>pp_page = 1, pp_size = 2\<rparr> 5]) = ''abcde'' \<and>
   page_items \<lparr>pp_page = 2 ^ 62 + 1, pp_size = 2\<rparr> ''abcde'' = ''ab''"
proof -
  have n: "total_pages \<lparr>pp_page = 1, pp_size = int 2\<rparr> (length ''abcde'') = 3" by (simp add: total_pages_def)
  have g: "goint (2 ^ 62 + 1)" by (simp add: goint_def)
  note P = pages_tile_lists [of 2 "''abcde''", unfolded n]
  have "page_items \<lparr>pp_page = 2 ^ 62 + 1, pp_size = int 2\<rparr> ''abcde'' = take 2 ''abcde''"
    using P [THEN conjunct2, rule_format, of "2 ^ 62 + 1"] g by simp
  moreover have "concat (map (\<lambda>k. page_items \<lparr>pp_page = int k + 1, pp_size = int 2\<rparr> ''abcde'') [0..<3]) = ''abcde''"
    using P by simp
  moreover have "total_pages \<lparr>pp_page = 1, pp_size = 2\<rparr> 5 = 3" by (simp add: total_pages_def)
  ultimately show ?thesis by simp
qed

end
