(* ===== verification/FilterEngine.thy ===== *)
theory FilterEngine
  imports Prelude
begin

text \<open>
  The filter engine of \<^verbatim>\<open>shared/api/filter.go\<close>: decoded JSON values, the string forms
  Go gives them, dotted field paths, and the evaluation of one filter and of a filter
  list against an event payload.

  A decoded number is a \<open>float64\<close> that the code only ever prints with \<^verbatim>\<open>%g\<close> (or
  \<^verbatim>\<open>%v\<close>, the same for floats), so the model keeps that text. The regular expression
  engine is the parameter \<open>re\<close>: \<open>re pattern s\<close> is \<^const>\<open>None\<close> when the pattern does
  not compile.
\<close>

section \<open>Decoded JSON\<close>

datatype json =
    JNull
  | JBool bool
  | JNum string
  | JStr string
  | JArr "json list"
  | JObj "(string \<times> json) list"

definition fmt_bool :: "bool \<Rightarrow> string" where
  "fmt_bool b = (if b then ''true'' else ''false'')"

text \<open>\<^verbatim>\<open>fmt.Sprintf("%v")\<close>; a map prints in key order.\<close>

primrec fmt_v :: "json \<Rightarrow> string" where
  "fmt_v JNull = ''<nil>''"
| "fmt_v (JBool b) = fmt_bool b"
| "fmt_v (JNum n) = n"
| "fmt_v (JStr s) = s"
| "fmt_v (JArr xs) = ''['' @ join_with '' '' (map fmt_v xs) @ '']''"
| "fmt_v (JObj m) =
     ''map['' @ join_with '' '' (map (\<lambda>(k, t). k @ '':'' @ t) (sort_key fst (map (map_prod id fmt_v) m))) @ '']''"

definition stringify :: "json \<Rightarrow> string" where
  "stringify v =
     (case v of
        JStr s \<Rightarrow> s
      | JBool b \<Rightarrow> fmt_bool b
      | JNum n \<Rightarrow> n
      | JNull \<Rightarrow> []
      | _ \<Rightarrow> fmt_v v)"

definition stringify_equal :: "json \<Rightarrow> string \<Rightarrow> bool" where
  "stringify_equal v target \<longleftrightarrow> stringify v = target"

text \<open>A payload is the association list of a Go map.\<close>

type_synonym payload = "(string \<times> json) list"

fun walk_field :: "json \<Rightarrow> string list \<Rightarrow> json option" where
  "walk_field cur [] = Some cur"
| "walk_field cur (part # parts) =
     (case cur of
        JObj m \<Rightarrow> (case map_of m part of None \<Rightarrow> None | Some v \<Rightarrow> walk_field v parts)
      | _ \<Rightarrow> None)"

definition resolve_field :: "payload \<Rightarrow> string \<Rightarrow> json option" where
  "resolve_field m path = walk_field (JObj m) (split_on (CHR ''.'') path)"

section \<open>Filters\<close>

record flt =
  flt_field :: string
  flt_op :: string
  flt_value :: string
  flt_values :: "string list"

type_synonym regex_engine = "string \<Rightarrow> string \<Rightarrow> bool option"

definition match_null :: "flt \<Rightarrow> bool" where
  "match_null f =
     (if flt_op f = ''eq'' then flt_value f = [] \<or> flt_value f = ''null''
      else if flt_op f = ''neq'' then flt_value f \<noteq> [] \<and> flt_value f \<noteq> ''null''
      else if flt_op f = ''contains'' then False
      else if flt_op f = ''not-contains'' \<or> flt_op f = ''contains not'' then True
      else if flt_op f = ''in'' then False
      else if flt_op f = ''not-in'' \<or> flt_op f = ''not in'' then True
      else False)"

definition match_array :: "flt \<Rightarrow> json list \<Rightarrow> bool" where
  "match_array f arr =
     (if flt_op f = ''contains'' then list_ex (\<lambda>item. stringify_equal item (flt_value f)) arr
      else if flt_op f = ''not-contains'' \<or> flt_op f = ''contains not''
        then list_all (\<lambda>item. \<not> stringify_equal item (flt_value f)) arr
      else if flt_op f = ''in''
        then list_ex (\<lambda>item. list_ex (\<lambda>v. stringify item = v) (flt_values f)) arr
      else if flt_op f = ''not-in'' \<or> flt_op f = ''not in''
        then list_all (\<lambda>item. list_all (\<lambda>v. stringify item \<noteq> v) (flt_values f)) arr
      else if flt_op f = ''eq''
        then (case arr of [x] \<Rightarrow> stringify_equal x (flt_value f) | _ \<Rightarrow> False)
      else False)"

definition scalar_text :: "json \<Rightarrow> string option" where
  "scalar_text v =
     (case v of
        JStr s \<Rightarrow> Some s
      | JBool b \<Rightarrow> Some (fmt_bool b)
      | JNum n \<Rightarrow> Some n
      | _ \<Rightarrow> None)"

definition match_scalar :: "regex_engine \<Rightarrow> flt \<Rightarrow> string \<Rightarrow> bool" where
  "match_scalar re f s =
     (if flt_op f = ''eq'' then s = flt_value f
      else if flt_op f = ''neq'' then s \<noteq> flt_value f
      else if flt_op f = ''prefix'' then has_prefix s (flt_value f)
      else if flt_op f = ''suffix'' then has_suffix s (flt_value f)
      else if flt_op f = ''contains'' then contains_str s (flt_value f)
      else if flt_op f = ''not-contains'' \<or> flt_op f = ''contains not''
        then \<not> contains_str s (flt_value f)
      else if flt_op f = ''in'' then list_ex (\<lambda>v. s = v) (flt_values f)
      else if flt_op f = ''not-in'' \<or> flt_op f = ''not in'' then list_all (\<lambda>v. s \<noteq> v) (flt_values f)
      else if flt_op f = ''regex''
        then (case re (flt_value f) s of None \<Rightarrow> False | Some matched \<Rightarrow> matched)
      else False)"

definition match_filter :: "regex_engine \<Rightarrow> flt \<Rightarrow> payload \<Rightarrow> bool" where
  "match_filter re f payload =
     (case resolve_field payload (flt_field f) of
        None \<Rightarrow> False
      | Some JNull \<Rightarrow> match_null f
      | Some (JArr arr) \<Rightarrow> match_array f arr
      | Some v \<Rightarrow> (case scalar_text v of None \<Rightarrow> False | Some s \<Rightarrow> match_scalar re f s))"

fun match_filters :: "regex_engine \<Rightarrow> flt list \<Rightarrow> payload \<Rightarrow> bool" where
  "match_filters re [] payload = True"
| "match_filters re (f # fs) payload = (if \<not> match_filter re f payload then False else match_filters re fs payload)"

lemma match_filters_all: "match_filters re fs payload \<longleftrightarrow> (\<forall>f \<in> set fs. match_filter re f payload)"
  by (induction fs) auto

section \<open>Properties\<close>

text \<open>The operator that negates another one, under each spelling the code accepts.\<close>

definition negates :: "string \<Rightarrow> string \<Rightarrow> bool" where
  "negates n p \<longleftrightarrow>
     (p = ''contains'' \<and> n \<in> {''not-contains'', ''contains not''}) \<or>
     (p = ''in'' \<and> n \<in> {''not-in'', ''not in''})"

lemma negates_cases:
  assumes "negates n p"
  obtains "p = ''contains''" "n = ''not-contains''" | "p = ''contains''" "n = ''contains not''"
    | "p = ''in''" "n = ''not-in''" | "p = ''in''" "n = ''not in''"
  using assms unfolding negates_def by blast

lemma match_null_negation:
  "negates n p \<Longrightarrow> match_null (f\<lparr>flt_op := n\<rparr>) \<longleftrightarrow> \<not> match_null (f\<lparr>flt_op := p\<rparr>)"
  by (erule negates_cases) (simp_all add: match_null_def)

lemma match_array_negation:
  "negates n p \<Longrightarrow> match_array (f\<lparr>flt_op := n\<rparr>) xs \<longleftrightarrow> \<not> match_array (f\<lparr>flt_op := p\<rparr>) xs"
  by (erule negates_cases) (auto simp: match_array_def list_ex_iff list_all_iff)

lemma match_scalar_negation:
  "negates n p \<Longrightarrow> match_scalar re (f\<lparr>flt_op := n\<rparr>) s \<longleftrightarrow> \<not> match_scalar re (f\<lparr>flt_op := p\<rparr>) s"
  by (erule negates_cases) (auto simp: match_scalar_def list_ex_iff list_all_iff)

text \<open>
  On a payload that has the field (with any value but a nested object), the negated
  operators \<^verbatim>\<open>not-contains\<close> and \<^verbatim>\<open>not-in\<close>, under either spelling, are the complements
  of \<^verbatim>\<open>contains\<close> and \<^verbatim>\<open>in\<close>; on a payload without the field every operator, the
  negated ones included, fails.
\<close>

theorem match_filter_negation:
  assumes "negates n p"
  shows "(case resolve_field payload (flt_field f) of
            None \<Rightarrow> \<not> match_filter re (f\<lparr>flt_op := n\<rparr>) payload \<and> \<not> match_filter re (f\<lparr>flt_op := p\<rparr>) payload
          | Some (JObj _) \<Rightarrow>
              \<not> match_filter re (f\<lparr>flt_op := n\<rparr>) payload \<and> \<not> match_filter re (f\<lparr>flt_op := p\<rparr>) payload
          | Some _ \<Rightarrow> match_filter re (f\<lparr>flt_op := n\<rparr>) payload \<longleftrightarrow> \<not> match_filter re (f\<lparr>flt_op := p\<rparr>) payload)"
  using match_null_negation [OF assms] match_array_negation [OF assms] match_scalar_negation [OF assms]
  by (simp add: match_filter_def scalar_text_def split: option.split json.split)

theorem match_filter_negation_witness:
  "match_filter (\<lambda>_ _. None)
     \<lparr>flt_field = ''labels'', flt_op = ''contains not'', flt_value = ''bug'', flt_values = []\<rparr>
     [(''labels'', JArr [JStr ''feature''])]"
proof -
  have n: "negates ''contains not'' ''contains''" by (simp add: negates_def)
  show ?thesis
    using match_filter_negation [OF n, where re = "\<lambda>_ _. None"
        and payload = "[(''labels'', JArr [JStr ''feature''])]"
        and f = "\<lparr>flt_field = ''labels'', flt_op = ''contains'', flt_value = ''bug'', flt_values = []\<rparr>"]
    by (simp add: resolve_field_def match_filter_def match_array_def stringify_equal_def stringify_def)
qed

end
