(* ===== verification/TriggerIndex.thy ===== *)
theory TriggerIndex
  imports FilterEngine "HOL-Library.Multiset"
begin

text \<open>
  The shared event envelope (\<^verbatim>\<open>shared/api/event.go\<close>), the trigger record
  (\<^verbatim>\<open>services/hub/internal/triggers/types.go\<close>) and the in-memory trigger index of the
  router (\<^verbatim>\<open>services/hub/internal/trigger/index.go\<close>). The index and the headers are
  association lists in the order a Go \<^verbatim>\<open>range\<close> over the map happens to take.
\<close>

section \<open>Events and triggers\<close>

type_synonym headers = "(string \<times> string) list"

text \<open>
  \<open>Data\<close> is the raw JSON of the payload: \<^const>\<open>None\<close> for an empty \<open>RawMessage\<close>,
  otherwise the value it decodes to (the column is JSONB, so it always decodes).
\<close>

record event =
  evt_id :: string
  evt_version :: string
  evt_connector :: string
  evt_timestamp :: instant
  evt_headers :: headers
  evt_data :: "json option"
  evt_raw :: string

definition source_cron :: string where "source_cron = ''cron''"
definition source_chat :: string where "source_chat = ''chat''"

definition is_direct_source :: "string \<Rightarrow> bool" where
  "is_direct_source label \<longleftrightarrow> label = source_cron \<or> label = source_chat"

record trigger =
  tr_id :: string
  tr_display_name :: string
  tr_agent_ref :: string
  tr_connector_ref :: string
  tr_filters :: "flt list"
  tr_agent_valid :: bool
  tr_connector_valid :: bool
  tr_created_at :: instant
  tr_updated_at :: instant

record trigger_match =
  tm_trigger :: string
  tm_agent :: string

section \<open>The index\<close>

type_synonym index = "(string \<times> trigger) list"

definition new_index :: index where "new_index = []"

definition index_update :: "index \<Rightarrow> trigger \<Rightarrow> index" where
  "index_update idx t =
     aput (tr_id t)
       \<lparr>tr_id = tr_id t, tr_display_name = tr_display_name t, tr_agent_ref = tr_agent_ref t,
        tr_connector_ref = tr_connector_ref t, tr_filters = tr_filters t,
        tr_agent_valid = tr_agent_valid t, tr_connector_valid = tr_connector_valid t,
        tr_created_at = tr_created_at t, tr_updated_at = tr_updated_at t\<rparr> idx"

definition index_delete :: "index \<Rightarrow> string \<Rightarrow> index" where
  "index_delete idx i = adel i idx"

definition index_keys :: "index \<Rightarrow> string list" where
  "index_keys idx = map fst idx"

fun canonical_event_type_loop :: "headers \<Rightarrow> string option" where
  "canonical_event_type_loop [] = None"
| "canonical_event_type_loop ((h, v) # hs) =
     (if has_suffix h ''-Event'' \<and> v \<noteq> [] then Some v else canonical_event_type_loop hs)"

definition canonical_event_type :: "headers \<Rightarrow> string" where
  "canonical_event_type hs =
     (case canonical_event_type_loop hs of
        Some v \<Rightarrow> v
      | None \<Rightarrow> (case map_of hs ''type'' of Some v \<Rightarrow> v | None \<Rightarrow> []))"

text \<open>The run-time panic of a write into a nil map.\<close>

datatype panic = NilMapWrite

text \<open>
  \<open>json.Unmarshal\<close> into a non-nil \<^verbatim>\<open>map[string]any\<close> whose error is ignored: an object
  fills the map, the literal \<^verbatim>\<open>null\<close> sets it to nil (\<^const>\<open>None\<close>), anything else leaves it.
\<close>

definition unmarshal_map :: "json \<Rightarrow> payload \<Rightarrow> payload option" where
  "unmarshal_map v m =
     (case v of
        JObj kvs \<Rightarrow> Some (fold (\<lambda>(k, x) acc. aput k x acc) kvs m)
      | JNull \<Rightarrow> None
      | _ \<Rightarrow> Some m)"

definition build_filter_payload :: "event \<Rightarrow> panic + payload" where
  "build_filter_payload evt =
     (let payload = (case evt_data evt of None \<Rightarrow> Some [] | Some v \<Rightarrow> unmarshal_map v []);
          hs = evt_headers evt
      in if hs \<noteq> []
         then (case payload of
                 None \<Rightarrow> Inl NilMapWrite
               | Some p \<Rightarrow>
                   let p1 = aput ''headers'' (JObj (map (map_prod id JStr) hs)) p;
                       ty = canonical_event_type hs
                   in Inr (if ty \<noteq> [] then aput ''type'' (JStr ty) p1 else p1))
         else Inr (case payload of None \<Rightarrow> [] | Some p \<Rightarrow> p))"

definition trigger_is_valid :: "trigger \<Rightarrow> bool" where
  "trigger_is_valid t \<longleftrightarrow> tr_agent_valid t \<and> tr_connector_valid t"

definition trigger_accepts :: "regex_engine \<Rightarrow> event \<Rightarrow> payload \<Rightarrow> trigger \<Rightarrow> bool" where
  "trigger_accepts re evt payload t \<longleftrightarrow>
     trigger_is_valid t \<and> tr_connector_ref t = evt_connector evt \<and>
     (if tr_filters t \<noteq> [] then match_filters re (tr_filters t) payload else True)"

definition index_match :: "regex_engine \<Rightarrow> index \<Rightarrow> event \<Rightarrow> panic + trigger_match list" where
  "index_match re idx evt =
     (case build_filter_payload evt of
        Inl p \<Rightarrow> Inl p
      | Inr payload \<Rightarrow>
          Inr (map (\<lambda>(_, t). \<lparr>tm_trigger = tr_id t, tm_agent = tr_agent_ref t\<rparr>)
                 (filter (\<lambda>(_, t). trigger_accepts re evt payload t) idx)))"

fun dedup_loop :: "string list \<Rightarrow> trigger_match list \<Rightarrow> trigger_match list" where
  "dedup_loop seen [] = []"
| "dedup_loop seen (m # ms) =
     (if tm_agent m \<in> set seen then dedup_loop seen ms
      else m # dedup_loop (tm_agent m # seen) ms)"

definition deduplicate_by_agent :: "trigger_match list \<Rightarrow> trigger_match list" where
  "deduplicate_by_agent ms =
     (if length ms \<le> 1 then ms else dedup_loop [] (sort_key tm_trigger ms))"

section \<open>Lemmas\<close>

text \<open>The map invariant: one entry per key, each under its own id.\<close>

definition index_wf :: "index \<Rightarrow> bool" where
  "index_wf idx \<longleftrightarrow> distinct (map fst idx) \<and> (\<forall>(k, t) \<in> set idx. tr_id t = k)"

lemma index_wf_new: "index_wf new_index"
  by (simp add: index_wf_def new_index_def)

lemma index_wf_update: "index_wf idx \<Longrightarrow> index_wf (index_update idx t)"
  by (auto simp: index_wf_def index_update_def aput_def distinct_filter_keys)

lemma index_wf_delete: "index_wf idx \<Longrightarrow> index_wf (index_delete idx i)"
  by (auto simp: index_wf_def index_delete_def adel_def distinct_filter_keys)

lemma dedup_loop_set:
  "set (dedup_loop seen ms) \<subseteq> set ms"
  "tm_agent ` set (dedup_loop seen ms) = tm_agent ` set ms - set seen"
  by (induction ms arbitrary: seen) auto

lemma dedup_loop_distinct: "distinct (map tm_agent (dedup_loop seen ms))"
proof (induction ms arbitrary: seen)
  case Nil
  then show ?case by simp
next
  case (Cons m ms)
  have "tm_agent m \<notin> tm_agent ` set (dedup_loop (tm_agent m # seen) ms)"
    by (simp add: dedup_loop_set(2))
  with Cons show ?case by simp
qed

lemma dedup_loop_least:
  assumes "sorted (map tm_trigger ms)" "m \<in> set (dedup_loop seen ms)" "m' \<in> set ms"
    "tm_agent m' = tm_agent m"
  shows "tm_trigger m \<le> tm_trigger m'"
  using assms
proof (induction ms arbitrary: seen)
  case Nil
  then show ?case by simp
next
  case (Cons x ms)
  have rest: "tm_trigger m \<le> tm_trigger m'" if "m \<in> set (dedup_loop s ms)" for s
  proof (cases "m' = x")
    case False
    with Cons that show ?thesis by auto
  next
    case True
    with Cons.prems that show ?thesis
    proof (cases "tm_agent x \<in> set seen")
      case True
      with Cons.prems have "tm_agent m \<in> set seen" using \<open>m' = x\<close> by simp
      moreover have "tm_agent m \<notin> set seen"
        using dedup_loop_set(2) [of seen "x # ms"] Cons.prems(2) by blast
      ultimately show ?thesis by simp
    next
      case False
      have "m = x"
      proof (rule ccontr)
        assume "m \<noteq> x"
        with Cons.prems(2) False have "m \<in> set (dedup_loop (tm_agent x # seen) ms)" by simp
        then have "tm_agent m \<noteq> tm_agent x"
          using dedup_loop_set(2) [of "tm_agent x # seen" ms] by fastforce
        with Cons.prems(4) \<open>m' = x\<close> show False by simp
      qed
      with \<open>m' = x\<close> show ?thesis by simp
    qed
  qed
  show ?case
  proof (cases "tm_agent x \<in> set seen")
    case True
    with Cons.prems(2) rest show ?thesis by simp
  next
    case False
    with Cons.prems rest show ?thesis by (cases "m = x") auto
  qed
qed

lemma dedup_eq_loop:
  "deduplicate_by_agent ms = dedup_loop [] (sort_key tm_trigger ms)"
proof (cases "length ms \<le> 1")
  case True
  then consider "ms = []" | x where "ms = [x]" by (cases ms) auto
  then show ?thesis by cases (auto simp: deduplicate_by_agent_def)
next
  case False
  then show ?thesis by (simp add: deduplicate_by_agent_def)
qed

lemma index_match_triggers_distinct:
  assumes "index_wf idx" "index_match re idx evt = Inr ms"
  shows "distinct (map tm_trigger ms)"
proof -
  have sub: "map tm_trigger (map (\<lambda>(_, t). \<lparr>tm_trigger = tr_id t, tm_agent = tr_agent_ref t\<rparr>)
      (filter p idx)) = map fst (filter p idx)" for p
    using assms(1) unfolding index_wf_def by (intro trans [OF map_map]) (auto simp: case_prod_beta)
  from assms obtain p where
    "ms = map (\<lambda>(_, t). \<lparr>tm_trigger = tr_id t, tm_agent = tr_agent_ref t\<rparr>) (filter p idx)"
    by (auto simp: index_match_def split: sum.splits)
  with assms(1) sub show ?thesis by (simp only: index_wf_def distinct_filter_keys)
qed

lemma index_match_mset:
  assumes "mset idx = mset idx'" "index_match re idx evt = Inr ms"
  shows "\<exists>ms'. index_match re idx' evt = Inr ms' \<and> mset ms' = mset ms"
  using assms by (auto simp: index_match_def split: sum.splits)

lemma index_match_valid:
  assumes "index_wf idx" "build_filter_payload evt = Inr payload" "index_match re idx evt = Inr ms" "m \<in> set ms"
  shows "\<exists>t. map_of idx (tm_trigger m) = Some t \<and> tr_agent_ref t = tm_agent m \<and>
    trigger_accepts re evt payload t"
proof -
  from assms(2,3,4) obtain k t where t: "(k, t) \<in> set idx" "trigger_accepts re evt payload t"
    and m: "m = \<lparr>tm_trigger = tr_id t, tm_agent = tr_agent_ref t\<rparr>"
    by (auto simp: index_match_def)
  with assms(1) have "map_of idx (tr_id t) = Some t" by (auto simp: index_wf_def)
  with t m show ?thesis by simp
qed

lemma index_match_valid_flags:
  assumes "index_wf idx" "build_filter_payload evt = Inr payload" "index_match re idx evt = Inr ms" "m \<in> set ms"
  shows "\<exists>t. map_of idx (tm_trigger m) = Some t \<and> tr_agent_valid t \<and> tr_connector_valid t"
  using index_match_valid [OF assms] by (auto simp: trigger_accepts_def trigger_is_valid_def)

lemma sort_key_mset_unique:
  fixes f :: "'a \<Rightarrow> 'b :: linorder"
  assumes "mset xs = mset ys" "distinct (map f xs)"
  shows "sort_key f xs = sort_key f ys"
  by (rule sort_key_inj_key_eq) (use assms in \<open>auto simp: distinct_map\<close>)


section \<open>Properties\<close>



text \<open>
  Matching panics exactly on an event that carries headers and whose data is the JSON
  literal \<^verbatim>\<open>null\<close>, whatever triggers are registered.
\<close>

theorem index_match_panics_iff:
  "index_match re idx evt = Inl NilMapWrite \<longleftrightarrow> evt_data evt = Some JNull \<and> evt_headers evt \<noteq> []"
  by (auto simp: index_match_def build_filter_payload_def unmarshal_map_def Let_def
      split: option.splits json.splits sum.splits if_splits)

text \<open>
  Whatever the iteration order of the trigger map, the matches left after the
  per-agent deduplication are the same list, with one match per matched agent: the
  one of the trigger with the least id.
\<close>

theorem deduplicate_deterministic:
  assumes "index_wf idx" "mset idx = mset idx'" "index_match re idx evt = Inr ms"
  shows "\<exists>ms'. index_match re idx' evt = Inr ms' \<and>
    deduplicate_by_agent ms' = deduplicate_by_agent ms \<and>
    distinct (map tm_agent (deduplicate_by_agent ms)) \<and>
    tm_agent ` set (deduplicate_by_agent ms) = tm_agent ` set ms \<and>
    (\<forall>m \<in> set (deduplicate_by_agent ms). m \<in> set ms \<and>
       (\<forall>m' \<in> set ms. tm_agent m' = tm_agent m \<longrightarrow> tm_trigger m \<le> tm_trigger m'))"
proof -
  from index_match_mset [OF assms(2,3)] obtain ms' where
    ms': "index_match re idx' evt = Inr ms'" "mset ms' = mset ms" by blast
  have "distinct (map tm_trigger ms)"
    by (rule index_match_triggers_distinct [OF assms(1,3)])
  with ms' have "sort_key tm_trigger ms' = sort_key tm_trigger ms"
    by (intro sort_key_mset_unique [symmetric]) simp_all
  then have same: "deduplicate_by_agent ms' = deduplicate_by_agent ms"
    by (simp add: dedup_eq_loop)
  have least: "tm_trigger m \<le> tm_trigger m'"
    if "m \<in> set (deduplicate_by_agent ms)" "m' \<in> set ms" "tm_agent m' = tm_agent m" for m m'
    using that dedup_loop_least [of "sort_key tm_trigger ms" m "[]" m'] by (simp add: dedup_eq_loop)
  have "set (deduplicate_by_agent ms) \<subseteq> set ms"
    "tm_agent ` set (deduplicate_by_agent ms) = tm_agent ` set ms"
    using dedup_loop_set [of "[]" "sort_key tm_trigger ms"] by (auto simp: dedup_eq_loop)
  with ms'(1) same least dedup_loop_distinct [of "[]" "sort_key tm_trigger ms"] show ?thesis
    by (auto simp: dedup_eq_loop)
qed

theorem deduplicate_deterministic_witness:
  "\<exists>re idx evt ms. index_wf idx \<and> index_match re idx evt = Inr ms \<and>
     length ms = 2 \<and> length (deduplicate_by_agent ms) = 1 \<and> distinct (map tm_agent (deduplicate_by_agent ms))"
proof -
  define t where "t i = \<lparr>tr_id = i, tr_display_name = ''n'', tr_agent_ref = ''a'', tr_connector_ref = ''c'',
         tr_filters = [], tr_agent_valid = True, tr_connector_valid = True, tr_created_at = 0, tr_updated_at = 0\<rparr>" for i
  let ?idx = "[(''2'', t ''2''), (''1'', t ''1'')]"
  let ?evt = "\<lparr>evt_id = ''e'', evt_version = ''1'', evt_connector = ''c'', evt_timestamp = 0, evt_headers = [],
       evt_data = None, evt_raw = []\<rparr>"
  let ?ms = "[\<lparr>tm_trigger = ''2'', tm_agent = ''a''\<rparr>, \<lparr>tm_trigger = ''1'', tm_agent = ''a''\<rparr>]"
  have wf: "index_wf ?idx" by (simp add: index_wf_def t_def)
  have m: "index_match (\<lambda>_ _. None) ?idx ?evt = Inr ?ms"
    by (simp add: index_match_def build_filter_payload_def trigger_accepts_def trigger_is_valid_def t_def)
  have l: "length (deduplicate_by_agent ?ms) = 1" by (simp add: deduplicate_by_agent_def)
  from deduplicate_deterministic [OF wf refl m] have "distinct (map tm_agent (deduplicate_by_agent ?ms))"
    by blast
  with wf m l show ?thesis by (intro exI [of _ "\<lambda>_ _. None"] exI [of _ ?idx] exI [of _ ?evt] exI [of _ ?ms]) simp
qed

end
