(* ===== verification/EventQueue.thy ===== *)
theory EventQueue
  imports TriggerIndex "HOL-Library.Product_Lexorder"
begin

text \<open>
  The PostgreSQL event queue of \<^verbatim>\<open>services/hub/internal/eventqueue/store.go\<close> over the
  tables of migration 0014 (\<open>events\<close>, \<open>agent_tasks\<close>): rows as records, one function per
  store operation (its SQL statement as an update or a selection of the rows), the
  calls to the queue observer and the notifications it sends, and the long poll.
\<close>

section \<open>Rows\<close>

text \<open>The Go struct \<open>Event\<close>: raw JSON fields may be absent, the channel is empty when unknown.\<close>

record qevent =
  qe_id :: string
  qe_connector :: string
  qe_channel :: string
  qe_headers :: "headers option"
  qe_data :: "json option"
  qe_raw :: string
  qe_received :: "instant option"

record event_row =
  er_id :: string
  er_connector :: string
  er_channel :: "string option"
  er_headers :: headers
  er_data :: json
  er_raw :: string
  er_received :: instant
  er_routed :: "instant option"

datatype task_status = Pending | Claimed | Completed | Failed

text \<open>The Go struct \<open>Task\<close>; a field a SELECT does not read keeps its zero value.\<close>

record task =
  t_id :: nat
  t_event :: string
  t_agent :: string
  t_trigger :: string
  t_invocation :: string
  t_headers :: "headers option"
  t_payload :: "json option"
  t_attempts :: nat
  t_status :: "task_status option"
  t_error :: string
  t_created :: "instant option"
  t_completed :: "instant option"

record task_row =
  tk_id :: nat
  tk_event :: string
  tk_agent :: string
  tk_trigger :: string
  tk_invocation :: string
  tk_headers :: headers
  tk_payload :: json
  tk_status :: task_status
  tk_attempts :: nat
  tk_max :: nat
  tk_retry_after :: "instant option"
  tk_claimed_at :: "instant option"
  tk_completed_at :: "instant option"
  tk_error :: string
  tk_created :: instant

record queue_depth =
  qd_pending :: int
  qd_active :: int

text \<open>
  The store: its tables, the next value of the task id sequence, whether an observer is
  set, and the effects outside the tables, oldest first (observer calls and \<open>pg_notify\<close>
  payloads).
\<close>

record queue =
  q_events :: "event_row list"
  q_tasks :: "task_row list"
  q_next_id :: nat
  q_observer :: bool
  q_observed :: "string list"
  q_notified :: "string list"

type_synonym ('a) qresult = "(string + 'a) \<times> queue"

text \<open>\<open>max_attempts\<close> of a new row: the column default of migration 0014.\<close>

definition default_max_attempts :: nat where "default_max_attempts = 10"

definition empty_queue :: queue where
  "empty_queue = \<lparr>q_events = [], q_tasks = [], q_next_id = 1, q_observer = False,
     q_observed = [], q_notified = []\<rparr>"

definition set_queue_observer :: "queue \<Rightarrow> queue" where
  "set_queue_observer q = q\<lparr>q_observer := True\<rparr>"

definition observe :: "string \<Rightarrow> queue \<Rightarrow> queue" where
  "observe agent q = (if q_observer q \<and> agent \<noteq> [] then q\<lparr>q_observed := q_observed q @ [agent]\<rparr> else q)"

section \<open>Counting\<close>

definition depth_of :: "string \<Rightarrow> task_row list \<Rightarrow> queue_depth" where
  "depth_of agent rows =
     \<lparr>qd_pending = int (length (filter (\<lambda>t. tk_agent t = agent \<and> tk_status t = Pending) rows)),
      qd_active = int (length (filter (\<lambda>t. tk_agent t = agent \<and> tk_status t = Claimed) rows))\<rparr>"

definition queue_counts :: "pg \<Rightarrow> string \<Rightarrow> queue \<Rightarrow> string + queue_depth" where
  "queue_counts pg agent q =
     (if \<not> pg 0 then Inl ''eventqueue: queue counts'' else Inr (depth_of agent (q_tasks q)))"

definition in_flight :: "task_row \<Rightarrow> bool" where
  "in_flight t \<longleftrightarrow> tk_status t = Pending \<or> tk_status t = Claimed"

definition all_queue_counts :: "pg \<Rightarrow> queue \<Rightarrow> string + (string \<times> queue_depth) list" where
  "all_queue_counts pg q =
     (if \<not> pg 0 then Inl ''eventqueue: all queue counts''
      else Inr (map (\<lambda>a. (a, depth_of a (q_tasks q)))
                  (remdups (map tk_agent (filter in_flight (q_tasks q))))))"

section \<open>Events\<close>

definition nil_if_empty :: "string \<Rightarrow> string option" where
  "nil_if_empty v = (if v = [] then None else Some v)"

text \<open>
  \<open>fk c\<close> says whether the channel id \<open>c\<close> exists (the foreign key of migration 0020);
  \<open>headers\<close> and \<open>data\<close> are NOT NULL columns.
\<close>

definition insert_event :: "(string \<Rightarrow> bool) \<Rightarrow> pg \<Rightarrow> instant \<Rightarrow> qevent \<Rightarrow> queue \<Rightarrow> unit qresult" where
  "insert_event fk pg now evt q =
     (case (qe_headers evt, qe_data evt) of
        (Some hs, Some d) \<Rightarrow>
          if \<not> pg 0 then (Inl ''eventqueue: insert event'', q)
          else if has_row er_id (qe_id evt) (q_events q) then (Inr (), q)
          else if (case nil_if_empty (qe_channel evt) of None \<Rightarrow> False | Some c \<Rightarrow> \<not> fk c)
            then (Inl ''eventqueue: insert event'', q)
          else (Inr (), q\<lparr>q_events := q_events q @
                 [\<lparr>er_id = qe_id evt, er_connector = qe_connector evt,
                   er_channel = nil_if_empty (qe_channel evt), er_headers = hs, er_data = d,
                   er_raw = qe_raw evt, er_received = now, er_routed = None\<rparr>]\<rparr>)
      | _ \<Rightarrow> (Inl ''eventqueue: insert event'', q))"

definition scan_event :: "event_row \<Rightarrow> qevent" where
  "scan_event r =
     \<lparr>qe_id = er_id r, qe_connector = er_connector r,
      qe_channel = (case er_channel r of None \<Rightarrow> [] | Some c \<Rightarrow> c),
      qe_headers = Some (er_headers r), qe_data = Some (er_data r), qe_raw = er_raw r,
      qe_received = Some (er_received r)\<rparr>"

definition fetch_unrouted :: "pg \<Rightarrow> nat \<Rightarrow> queue \<Rightarrow> string + qevent list" where
  "fetch_unrouted pg limit q =
     (if \<not> pg 0 then Inl ''eventqueue: fetch unrouted''
      else Inr (map (\<lambda>r. (scan_event r)\<lparr>qe_received := None\<rparr>)
             (take limit (sort_key er_received (filter (\<lambda>r. er_routed r = None) (q_events q))))))"

definition mark_routed :: "pg \<Rightarrow> instant \<Rightarrow> string \<Rightarrow> queue \<Rightarrow> unit qresult" where
  "mark_routed pg now i q =
     (if \<not> pg 0 then (Inl ''eventqueue: mark routed'', q)
      else (Inr (), q\<lparr>q_events :=
             update_where (\<lambda>r. er_id r = i) (\<lambda>r. r\<lparr>er_routed := Some now\<rparr>) (q_events q)\<rparr>))"

definition get_event :: "pg \<Rightarrow> string \<Rightarrow> queue \<Rightarrow> string + qevent option" where
  "get_event pg i q =
     (if \<not> pg 0 then Inl ''eventqueue: get event''
      else Inr (map_option scan_event (lookup_row er_id i (q_events q))))"

section \<open>Tasks\<close>

definition notify_agent :: "bool \<Rightarrow> string \<Rightarrow> queue \<Rightarrow> unit qresult" where
  "notify_agent ok agent q =
     (if \<not> ok then (Inl ''eventqueue: notify agent'', q)
      else (Inr (), q\<lparr>q_notified := q_notified q @ [agent]\<rparr>))"

definition same_delivery :: "string \<Rightarrow> string \<Rightarrow> task_row \<Rightarrow> bool" where
  "same_delivery evt agent t \<longleftrightarrow> tk_event t = evt \<and> tk_agent t = agent"

text \<open>The row the INSERT of \<^verbatim>\<open>EnqueueTask\<close> writes: its columns and the column defaults.\<close>

definition new_task_row :: "nat \<Rightarrow> instant \<Rightarrow> task \<Rightarrow> headers \<Rightarrow> json \<Rightarrow> task_row" where
  "new_task_row i now t hs p =
     \<lparr>tk_id = i, tk_event = t_event t, tk_agent = t_agent t, tk_trigger = t_trigger t,
      tk_invocation = t_invocation t, tk_headers = hs, tk_payload = p, tk_status = Pending,
      tk_attempts = 0, tk_max = default_max_attempts, tk_retry_after = None, tk_claimed_at = None,
      tk_completed_at = None, tk_error = [], tk_created = now\<rparr>"

text \<open>
  Statement 0 is the INSERT (the id sequence advances even when the row conflicts),
  statement 1 the notification. \<open>event_id\<close> references \<open>events\<close>.
\<close>

definition enqueue_task :: "pg \<Rightarrow> instant \<Rightarrow> task \<Rightarrow> queue \<Rightarrow> unit qresult" where
  "enqueue_task pg now t q =
     (case (t_headers t, t_payload t) of
        (Some hs, Some p) \<Rightarrow>
          if \<not> pg 0 then (Inl ''eventqueue: enqueue task'', q)
          else
            let q0 = q\<lparr>q_next_id := Suc (q_next_id q)\<rparr> in
            if list_ex (same_delivery (t_event t) (t_agent t)) (q_tasks q)
              then notify_agent (pg 1) (t_agent t) (observe (t_agent t) q0)
            else if \<not> has_row er_id (t_event t) (q_events q)
              then (Inl ''eventqueue: enqueue task'', q0)
            else notify_agent (pg 1) (t_agent t) (observe (t_agent t)
                   (q0\<lparr>q_tasks := q_tasks q @ [new_task_row (q_next_id q) now t hs p]\<rparr>))
      | _ \<Rightarrow> (Inl ''eventqueue: enqueue task'', q))"

definition claimable :: "instant \<Rightarrow> string \<Rightarrow> task_row \<Rightarrow> bool" where
  "claimable now agent t \<longleftrightarrow> tk_agent t = agent \<and> tk_status t = Pending \<and>
     (case tk_retry_after t of None \<Rightarrow> True | Some r \<Rightarrow> r \<le> now)"

text \<open>The columns a claim and a lookup read back.\<close>

definition scan_task :: "task_row \<Rightarrow> task" where
  "scan_task r =
     \<lparr>t_id = tk_id r, t_event = tk_event r, t_agent = tk_agent r, t_trigger = tk_trigger r,
      t_invocation = tk_invocation r, t_headers = Some (tk_headers r), t_payload = Some (tk_payload r),
      t_attempts = tk_attempts r, t_status = None, t_error = [], t_created = None, t_completed = None\<rparr>"

definition claim_row :: "instant \<Rightarrow> task_row \<Rightarrow> task_row" where
  "claim_row now r =
     r\<lparr>tk_status := Claimed, tk_claimed_at := Some now, tk_attempts := Suc (tk_attempts r)\<rparr>"

definition next_claim :: "instant \<Rightarrow> string \<Rightarrow> task_row list \<Rightarrow> task_row option" where
  "next_claim now agent rows =
     (case sort_key tk_created (filter (claimable now agent) rows) of [] \<Rightarrow> None | r # _ \<Rightarrow> Some r)"

definition claim_task :: "pg \<Rightarrow> instant \<Rightarrow> string \<Rightarrow> queue \<Rightarrow> task option qresult" where
  "claim_task pg now agent q =
     (if \<not> pg 0 then (Inl ''eventqueue: claim task'', q)
      else (case next_claim now agent (q_tasks q) of
              None \<Rightarrow> (Inr None, q)
            | Some r \<Rightarrow>
                (Inr (Some (scan_task (claim_row now r))),
                 observe agent (q\<lparr>q_tasks :=
                   update_where (\<lambda>t. tk_id t = tk_id r) (claim_row now) (q_tasks q)\<rparr>))))"

definition ack_row :: "instant \<Rightarrow> task_row \<Rightarrow> task_row" where
  "ack_row now r = r\<lparr>tk_status := Completed, tk_completed_at := Some now\<rparr>"

definition ack_task :: "pg \<Rightarrow> instant \<Rightarrow> nat \<Rightarrow> queue \<Rightarrow> unit qresult" where
  "ack_task pg now i q =
     (if \<not> pg 0 then (Inl ''eventqueue: ack task'', q)
      else (case lookup_row tk_id i (q_tasks q) of
              None \<Rightarrow> (Inr (), q)
            | Some r \<Rightarrow>
                (Inr (), observe (tk_agent r) (q\<lparr>q_tasks :=
                   update_where (\<lambda>t. tk_id t = i) (ack_row now) (q_tasks q)\<rparr>))))"

text \<open>Back to pending, or failed when the attempts are used up.\<close>

definition release_row :: "instant \<Rightarrow> string \<Rightarrow> task_row \<Rightarrow> task_row" where
  "release_row retry msg r =
     r\<lparr>tk_status := (if tk_max r \<le> tk_attempts r then Failed else Pending),
       tk_retry_after := Some retry, tk_error := msg\<rparr>"

definition observe_agent_of_task :: "bool \<Rightarrow> nat \<Rightarrow> queue \<Rightarrow> queue" where
  "observe_agent_of_task ok i q =
     (if \<not> ok then q
      else (case lookup_row tk_id i (q_tasks q) of None \<Rightarrow> q | Some r \<Rightarrow> observe (tk_agent r) q))"

definition nak_task :: "pg \<Rightarrow> instant \<Rightarrow> nat \<Rightarrow> duration \<Rightarrow> string \<Rightarrow> queue \<Rightarrow> unit qresult" where
  "nak_task pg now i delay msg q =
     (if \<not> pg 0 then (Inl ''eventqueue: nak task'', q)
      else (Inr (), observe_agent_of_task (pg 1) i
             (q\<lparr>q_tasks := update_where (\<lambda>t. tk_id t = i) (release_row (now + delay) msg) (q_tasks q)\<rparr>)))"

definition get_task :: "pg \<Rightarrow> nat \<Rightarrow> string \<Rightarrow> queue \<Rightarrow> string + task option" where
  "get_task pg i agent q =
     (if \<not> pg 0 then Inl ''eventqueue: get task''
      else Inr (map_option scan_task
             (List.find (\<lambda>t. tk_id t = i \<and> tk_agent t = agent) (q_tasks q))))"

text \<open>
  The long poll. Each round of its loop takes what other connections did to the queue
  meanwhile (\<open>env\<close>), how the wait for a notification ended, and the outcome of the claim;
  an exhausted list is the passed deadline.
\<close>

datatype wake = WaitFailed | Notified string

record poll_round =
  pr_env :: "queue \<Rightarrow> queue"
  pr_wake :: wake
  pr_pg :: pg
  pr_now :: instant

fun wait_loop :: "string \<Rightarrow> poll_round list \<Rightarrow> queue \<Rightarrow> task option qresult" where
  "wait_loop agent [] q = (Inr None, q)"
| "wait_loop agent (r # rs) q =
     (let q1 = pr_env r q in
      case pr_wake r of
        WaitFailed \<Rightarrow> claim_task (pr_pg r) (pr_now r) agent q1
      | Notified payload \<Rightarrow>
          if payload = agent
          then (case claim_task (pr_pg r) (pr_now r) agent q1 of
                  (Inl e, q2) \<Rightarrow> (Inl e, q2)
                | (Inr (Some t), q2) \<Rightarrow> (Inr (Some t), q2)
                | (Inr None, q2) \<Rightarrow> wait_loop agent rs q2)
          else wait_loop agent rs q1)"

definition wait_for_task :: "pg \<Rightarrow> instant \<Rightarrow> string \<Rightarrow> poll_round list \<Rightarrow> queue \<Rightarrow> task option qresult" where
  "wait_for_task pg now agent rounds q =
     (case claim_task pg now agent q of
        (Inl e, q1) \<Rightarrow> (Inl e, q1)
      | (Inr (Some t), q1) \<Rightarrow> (Inr (Some t), q1)
      | (Inr None, q1) \<Rightarrow>
          if \<not> pg 1 then (Inl ''eventqueue: acquire conn for listen'', q1)
          else if \<not> pg 2 then (Inl ''eventqueue: listen'', q1)
          else wait_loop agent rounds q1)"

definition stale_claim :: "instant \<Rightarrow> duration \<Rightarrow> task_row \<Rightarrow> bool" where
  "stale_claim now timeout t \<longleftrightarrow> tk_status t = Claimed \<and>
     (case tk_claimed_at t of None \<Rightarrow> False | Some c \<Rightarrow> c < now - timeout)"

definition reap_message :: string where
  "reap_message = ''claim timeout: agent did not ack/nak within deadline''"

definition reap_retry_delay :: duration where "reap_retry_delay = 30 * 10 ^ 9"

text \<open>The observer is called once per agent, at the agent's first reaped task.\<close>

definition reap_stale_claims ::
  "pg \<Rightarrow> instant \<Rightarrow> duration \<Rightarrow> queue \<Rightarrow> (nat \<times> string) list qresult" where
  "reap_stale_claims pg now timeout q =
     (if \<not> pg 0 then (Inl ''eventqueue: reap stale claims'', q)
      else (let reaped = filter (stale_claim now timeout) (q_tasks q)
            in (Inr (map (\<lambda>t. (tk_id t, tk_agent t)) reaped),
                fold observe (rev (remdups (rev (map tk_agent reaped))))
                  (q\<lparr>q_tasks := update_where (stale_claim now timeout)
                       (release_row (now + reap_retry_delay) reap_message) (q_tasks q)\<rparr>))))"

record stream_info =
  si_events_total :: nat
  si_events_unrouted :: nat
  si_pending :: nat
  si_claimed :: nat
  si_completed :: nat
  si_failed :: nat

definition count_status :: "task_status \<Rightarrow> task_row list \<Rightarrow> nat" where
  "count_status st rows = length (filter (\<lambda>t. tk_status t = st) rows)"

definition get_stream_info :: "pg \<Rightarrow> queue \<Rightarrow> string + stream_info" where
  "get_stream_info pg q =
     (if \<not> pg 0 then Inl ''eventqueue: stream info''
      else Inr \<lparr>si_events_total = length (q_events q),
                si_events_unrouted = length (filter (\<lambda>e. er_routed e = None) (q_events q)),
                si_pending = count_status Pending (q_tasks q),
                si_claimed = count_status Claimed (q_tasks q),
                si_completed = count_status Completed (q_tasks q),
                si_failed = count_status Failed (q_tasks q)\<rparr>)"

definition scan_task_full :: "task_row \<Rightarrow> task" where
  "scan_task_full r =
     \<lparr>t_id = tk_id r, t_event = tk_event r, t_agent = tk_agent r, t_trigger = tk_trigger r,
      t_invocation = tk_invocation r, t_headers = None, t_payload = None, t_attempts = tk_attempts r,
      t_status = Some (tk_status r), t_error = tk_error r, t_created = Some (tk_created r),
      t_completed = tk_completed_at r\<rparr>"

definition tasks_for_events :: "pg \<Rightarrow> string list \<Rightarrow> queue \<Rightarrow> string + task list" where
  "tasks_for_events pg ids q =
     (if ids = [] then Inr []
      else if \<not> pg 0 then Inl ''eventqueue: tasks for events''
      else Inr (map scan_task_full (sort_key tk_id (filter (\<lambda>t. tk_event t \<in> set ids) (q_tasks q)))))"

end
