(* ===== verification/EventQuery.thy ===== *)
theory EventQuery
  imports EventQueue
begin

text \<open>
  The read side of \<^verbatim>\<open>services/hub/internal/eventqueue/store.go\<close>: subject patterns, the event filter
  and its SQL conditions, paging and counting, and the statistics and stamps that relate
  events and tasks to channels.
\<close>

section \<open>Subject patterns\<close>

record subject_filter =
  sf_connector :: string
  sf_event_type :: string
  sf_none :: bool

definition no_subject :: subject_filter where
  "no_subject = \<lparr>sf_connector = [], sf_event_type = [], sf_none = False\<rparr>"

definition never_subject :: subject_filter where
  "never_subject = \<lparr>sf_connector = [], sf_event_type = [], sf_none = True\<rparr>"

definition is_wildcard :: "string \<Rightarrow> bool" where
  "is_wildcard tok \<longleftrightarrow> tok = ''>'' \<or> tok = ''*''"

definition token_or_any :: "string \<Rightarrow> string" where
  "token_or_any tok = (if is_wildcard tok then [] else tok)"

definition parse_subject_filter :: "string \<Rightarrow> subject_filter" where
  "parse_subject_filter pattern =
     (let p = to_lower (trim_space pattern) in
      if p = [] \<or> p = ''>'' \<or> p = ''*'' then no_subject
      else let tokens = split_on CHR ''.'' p in
        if [] \<in> set tokens then never_subject
        else let sf = no_subject\<lparr>sf_connector := token_or_any (hd tokens)\<rparr> in
          if length tokens = 1 then sf
          else if \<exists>tok \<in> set (drop 2 tokens). \<not> is_wildcard tok then never_subject
          else sf\<lparr>sf_event_type := token_or_any (tokens ! 1)\<rparr>)"

definition subject_matches :: "subject_filter \<Rightarrow> string \<Rightarrow> string \<Rightarrow> bool" where
  "subject_matches sf connector event_type =
     (if sf_none sf then False
      else if sf_connector sf \<noteq> [] \<and> \<not> equal_fold (sf_connector sf) connector then False
      else if sf_event_type sf \<noteq> [] \<and> \<not> equal_fold (sf_event_type sf) event_type then False
      else True)"

section \<open>The event filter\<close>

record event_filter =
  ef_connector :: string
  ef_channel :: string
  ef_channels :: "string list"
  ef_since :: "instant option"
  ef_status :: string
  ef_outcome :: string
  ef_agent :: string
  ef_agents :: "string list"
  ef_connectors :: "string list"
  ef_subject :: string

definition no_event_filter :: event_filter where
  "no_event_filter = \<lparr>ef_connector = [], ef_channel = [], ef_channels = [], ef_since = None, ef_status = [],
     ef_outcome = [], ef_agent = [], ef_agents = [], ef_connectors = [], ef_subject = []\<rparr>"

text \<open>
  \<open>EXISTS (SELECT 1 FROM agent_tasks t WHERE t.event_id = e.id AND \<dots>)\<close>.
\<close>

definition has_task :: "task_row list \<Rightarrow> event_row \<Rightarrow> (task_row \<Rightarrow> bool) \<Rightarrow> bool" where
  "has_task tasks e p \<longleftrightarrow> list_ex (\<lambda>t. tk_event t = er_id e \<and> p t) tasks"

text \<open>The condition of the subject filter on the connector and the headers of an event.\<close>

definition subject_sql :: "subject_filter \<Rightarrow> (event_row \<Rightarrow> bool) list" where
  "subject_sql sf =
     (if sf_none sf then [\<lambda>e. False]
      else (if sf_connector sf \<noteq> [] then [\<lambda>e. to_lower (er_connector e) = sf_connector sf] else []) @
           (if sf_event_type sf \<noteq> []
            then [\<lambda>e. list_ex (\<lambda>(k, v). has_suffix (to_lower k) ''-event'' \<and> to_lower v = sf_event_type sf)
                        (er_headers e) \<or>
                      to_lower (case map_of (er_headers e) ''type'' of None \<Rightarrow> [] | Some v \<Rightarrow> v) = sf_event_type sf]
            else []))"

text \<open>The switch on the activity status.\<close>

definition status_conditions :: "task_row list \<Rightarrow> string \<Rightarrow> (event_row \<Rightarrow> bool) list" where
  "status_conditions tasks st =
     (if st = ''unmatched'' then [\<lambda>e. \<not> has_task tasks e (\<lambda>t. True)]
      else if st = ''matched''
        then [\<lambda>e. has_task tasks e (\<lambda>t. True), \<lambda>e. \<not> has_task tasks e (\<lambda>t. tk_status t = Failed)]
      else if st = ''error'' then [\<lambda>e. has_task tasks e (\<lambda>t. tk_status t = Failed)]
      else [])"

text \<open>
  \<open>tasks\<close> and \<open>invs\<close> (the id and status of every invocation) are the tables the conditions
  read besides the event row.
\<close>

definition conditions ::
  "task_row list \<Rightarrow> (string \<times> string) list \<Rightarrow> event_filter \<Rightarrow> (event_row \<Rightarrow> bool) list" where
  "conditions tasks invs f =
     (if ef_connector f \<noteq> [] then [\<lambda>e. er_connector e = ef_connector f] else []) @
     (if ef_channel f \<noteq> [] then [\<lambda>e. er_channel e = Some (ef_channel f)] else []) @
     (if ef_channels f \<noteq> [] then [\<lambda>e. case er_channel e of None \<Rightarrow> False | Some c \<Rightarrow> c \<in> set (ef_channels f)] else []) @
     (case ef_since f of None \<Rightarrow> [] | Some s \<Rightarrow> [\<lambda>e. s \<le> er_received e]) @
     (if ef_agent f \<noteq> [] then [\<lambda>e. has_task tasks e (\<lambda>t. tk_agent t = ef_agent f)] else []) @
     (if ef_connectors f \<noteq> [] \<or> ef_agents f \<noteq> []
      then [\<lambda>e. (ef_connectors f \<noteq> [] \<and> er_connector e \<in> set (ef_connectors f)) \<or>
                (ef_agents f \<noteq> [] \<and> has_task tasks e (\<lambda>t. tk_agent t \<in> set (ef_agents f)))]
      else []) @
     status_conditions tasks (ef_status f) @
     (if ef_outcome f \<noteq> []
      then [\<lambda>e. has_task tasks e (\<lambda>t. list_ex (\<lambda>(i, st). i = tk_invocation t \<and> st = ef_outcome f) invs)]
      else []) @
     (if ef_subject f \<noteq> [] then subject_sql (parse_subject_filter (ef_subject f)) else [])"

definition selected :: "(string \<times> string) list \<Rightarrow> event_filter \<Rightarrow> queue \<Rightarrow> event_row list" where
  "selected invs f q = filter (\<lambda>e. \<forall>c \<in> set (conditions (q_tasks q) invs f). c e) (q_events q)"

definition newest_first :: "event_row list \<Rightarrow> event_row list" where
  "newest_first rows = rev (sort_key (\<lambda>e. (er_received e, er_id e)) rows)"

text \<open>A negative LIMIT or OFFSET is an error of the server.\<close>

definition query_events ::
  "pg \<Rightarrow> (string \<times> string) list \<Rightarrow> event_filter \<Rightarrow> int \<Rightarrow> int \<Rightarrow> queue \<Rightarrow> string + qevent list" where
  "query_events pg invs f limit offset q =
     (if \<not> pg 0 \<or> limit < 0 \<or> offset < 0 then Inl ''eventqueue: query events''
      else Inr (map scan_event (take (nat limit) (drop (nat offset) (newest_first (selected invs f q))))))"

definition count_events :: "pg \<Rightarrow> (string \<times> string) list \<Rightarrow> event_filter \<Rightarrow> queue \<Rightarrow> string + nat" where
  "count_events pg invs f q =
     (if \<not> pg 0 then Inl ''eventqueue: count events'' else Inr (length (selected invs f q)))"

definition recent_events ::
  "pg \<Rightarrow> (string \<times> string) list \<Rightarrow> int \<Rightarrow> string \<Rightarrow> string \<Rightarrow> instant option \<Rightarrow> queue \<Rightarrow> string + qevent list" where
  "recent_events pg invs n connector subject since q =
     query_events pg invs
       (no_event_filter\<lparr>ef_connector := connector, ef_since := since, ef_subject := subject\<rparr>) n 0 q"

section \<open>Channel views\<close>

record birth_stat =
  bs_channel :: string
  bs_events :: nat
  bs_unmatched :: nat
  bs_failed :: nat

definition birth_stat_of :: "task_row list \<Rightarrow> event_row list \<Rightarrow> string \<Rightarrow> birth_stat" where
  "birth_stat_of tasks rows c =
     (let es = filter (\<lambda>e. er_channel e = Some c) rows in
      \<lparr>bs_channel = c, bs_events = length es,
       bs_unmatched = length (filter (\<lambda>e. \<not> has_task tasks e (\<lambda>t. True)) es),
       bs_failed = length (filter (\<lambda>e. has_task tasks e (\<lambda>t. tk_status t = Failed)) es)\<rparr>)"

definition birth_stats :: "pg \<Rightarrow> instant \<Rightarrow> queue \<Rightarrow> string + birth_stat list" where
  "birth_stats pg since q =
     (if \<not> pg 0 then Inl ''eventqueue: birth stats''
      else let rows = filter (\<lambda>e. er_channel e \<noteq> None \<and> since \<le> er_received e) (q_events q) in
        Inr (map (birth_stat_of (q_tasks q) rows) (remdups (map (the \<circ> er_channel) rows))))"

record delivery_stat =
  ds_agent :: string
  ds_events :: nat
  ds_failed :: nat

definition delivery_stat_of :: "task_row list \<Rightarrow> string \<Rightarrow> delivery_stat" where
  "delivery_stat_of rows a =
     (let ts = filter (\<lambda>t. tk_agent t = a) rows in
      \<lparr>ds_agent = a, ds_events = length (remdups (map tk_event ts)),
       ds_failed = length (remdups (map tk_event (filter (\<lambda>t. tk_status t = Failed) ts)))\<rparr>)"

definition delivery_stats :: "pg \<Rightarrow> instant \<Rightarrow> queue \<Rightarrow> string + delivery_stat list" where
  "delivery_stats pg since q =
     (if \<not> pg 0 then Inl ''eventqueue: delivery stats''
      else let rows = filter (\<lambda>t. since \<le> tk_created t) (q_tasks q) in
        Inr (map (delivery_stat_of rows) (remdups (map tk_agent rows))))"

record channel_stamp =
  cs_label :: string
  cs_channel :: string

text \<open>
  The channel an UPDATE \<open>\<dots>\<close> FROM picks for a row: the first stamp that joins (the server
  takes any one of them). The foreign key \<open>fk\<close> of \<open>channel_id\<close> fails the whole statement.
\<close>

definition stamp_pick ::
  "(event_row \<Rightarrow> channel_stamp \<Rightarrow> bool) \<Rightarrow> channel_stamp list \<Rightarrow> event_row \<Rightarrow> channel_stamp option" where
  "stamp_pick joins stamps e = (if er_channel e = None then List.find (joins e) stamps else None)"

definition stamp_row ::
  "(event_row \<Rightarrow> channel_stamp \<Rightarrow> bool) \<Rightarrow> channel_stamp list \<Rightarrow> event_row \<Rightarrow> event_row" where
  "stamp_row joins stamps e =
     (case stamp_pick joins stamps e of None \<Rightarrow> e | Some st \<Rightarrow> e\<lparr>er_channel := Some (cs_channel st)\<rparr>)"

definition stamp_events ::
  "(string \<Rightarrow> bool) \<Rightarrow> (event_row \<Rightarrow> channel_stamp \<Rightarrow> bool) \<Rightarrow> channel_stamp list \<Rightarrow> queue \<Rightarrow> (nat \<times> queue) option" where
  "stamp_events fk joins stamps q =
     (if list_ex (\<lambda>e. case stamp_pick joins stamps e of None \<Rightarrow> False | Some st \<Rightarrow> \<not> fk (cs_channel st)) (q_events q)
      then None
      else Some (length (filter (\<lambda>e. stamp_pick joins stamps e \<noteq> None) (q_events q)),
             q\<lparr>q_events := map (stamp_row joins stamps) (q_events q)\<rparr>))"

definition stamp_birth_channels ::
  "(string \<Rightarrow> bool) \<Rightarrow> pg \<Rightarrow> channel_stamp list \<Rightarrow> queue \<Rightarrow> nat qresult" where
  "stamp_birth_channels fk pg stamps q =
     (if stamps = [] then (Inr 0, q)
      else if \<not> pg 0 then (Inl ''eventqueue: stamp birth channels'', q)
      else (case stamp_events fk (\<lambda>e st. er_connector e = cs_label st) stamps q of
              None \<Rightarrow> (Inl ''eventqueue: stamp birth channels'', q)
            | Some (n, q') \<Rightarrow> (Inr n, q')))"

definition stamp_inbox_birth_channels ::
  "(string \<Rightarrow> bool) \<Rightarrow> pg \<Rightarrow> string list \<Rightarrow> channel_stamp list \<Rightarrow> queue \<Rightarrow> nat qresult" where
  "stamp_inbox_birth_channels fk pg labels stamps q =
     (if stamps = [] \<or> labels = [] then (Inr 0, q)
      else if \<not> pg 0 then (Inl ''eventqueue: stamp inbox birth channels'', q)
      else (case stamp_events fk
              (\<lambda>e st. er_connector e \<in> set labels \<and> has_task (q_tasks q) e (\<lambda>t. tk_agent t = cs_label st)) stamps q of
              None \<Rightarrow> (Inl ''eventqueue: stamp inbox birth channels'', q)
            | Some (n, q') \<Rightarrow> (Inr n, q')))"

definition unstamped_source_labels :: "pg \<Rightarrow> queue \<Rightarrow> string + string list" where
  "unstamped_source_labels pg q =
     (if \<not> pg 0 then Inl ''eventqueue: unstamped source labels''
      else Inr (sort (remdups (map er_connector (filter (\<lambda>e. er_channel e = None) (q_events q))))))"

definition unstamped_inbox_agents :: "pg \<Rightarrow> string list \<Rightarrow> queue \<Rightarrow> string + string list" where
  "unstamped_inbox_agents pg labels q =
     (if labels = [] then Inr []
      else if \<not> pg 0 then Inl ''eventqueue: unstamped inbox agents''
      else Inr (sort (remdups (map tk_agent (filter
             (\<lambda>t. list_ex (\<lambda>e. er_id e = tk_event t \<and> er_channel e = None \<and> er_connector e \<in> set labels)
                    (q_events q)) (q_tasks q))))))"

section \<open>Lemmas\<close>

lemma split_on_not_Nil [simp]: "split_on d s \<noteq> []"
  by (induction s) (auto split: list.splits)

lemma of_char_to_lower_char:
  "(of_char (to_lower_char c) :: nat) =
     (if 65 \<le> (of_char c :: nat) \<and> (of_char c :: nat) \<le> 90 then of_char c + 32 else of_char c)"
proof -
  have "(of_char c + 32) mod 256 = (of_char c + 32 :: nat)" if "(of_char c :: nat) \<le> 90"
    using that by simp
  then show ?thesis by (auto simp: to_lower_char_def less_eq_char_def of_char_of)
qed

lemma to_lower_char_idem [simp]: "to_lower_char (to_lower_char c) = to_lower_char c"
proof -
  have "(of_char (to_lower_char (to_lower_char c)) :: nat) = of_char (to_lower_char c)"
    by (simp add: of_char_to_lower_char)
  then show ?thesis by (simp add: of_char_eq_iff)
qed

lemma to_lower_idem [simp]: "to_lower (to_lower s) = to_lower s"
  by (simp add: to_lower_def)

lemma to_lower_Nil [simp]: "to_lower [] = []" by (simp add: to_lower_def)

lemma chars_split_on: "tok \<in> set (split_on d s) \<Longrightarrow> set tok \<subseteq> set s"
  by (induction s arbitrary: tok) (fastforce split: list.splits if_splits)+

lemma token_lowered: "tok \<in> set (split_on d (to_lower s)) \<Longrightarrow> to_lower tok = tok"
  using chars_split_on [of tok d "to_lower s"] by (auto simp: to_lower_def intro!: map_idI)

lemma token_or_any_lowered: "to_lower tok = tok \<Longrightarrow> to_lower (token_or_any tok) = token_or_any tok"
  by (simp add: token_or_any_def)

lemma parse_subject_filter_lowered:
  "to_lower (sf_connector (parse_subject_filter p)) = sf_connector (parse_subject_filter p) \<and>
   to_lower (sf_event_type (parse_subject_filter p)) = sf_event_type (parse_subject_filter p)"
proof -
  let ?toks = "split_on CHR ''.'' (to_lower (trim_space p))"
  have "to_lower (token_or_any (hd ?toks)) = token_or_any (hd ?toks)"
    by (intro token_or_any_lowered token_lowered [of _ "CHR ''.''" "trim_space p"]) simp
  moreover have "to_lower (token_or_any (?toks ! 1)) = token_or_any (?toks ! 1)" if "length ?toks \<noteq> 1"
    using that by (intro token_or_any_lowered token_lowered [of _ "CHR ''.''" "trim_space p"] nth_mem)
      (cases ?toks; simp)
  ultimately show ?thesis
    by (simp add: parse_subject_filter_def Let_def no_subject_def never_subject_def)
qed

lemma has_suffix_lower: "has_suffix k s \<Longrightarrow> has_suffix (to_lower k) (to_lower s)"
  by (auto simp: has_suffix_def to_lower_def drop_map)

lemma canonical_from_headers:
  "canonical_event_type hs = v \<Longrightarrow> v \<noteq> [] \<Longrightarrow>
     (\<exists>k. (k, v) \<in> set hs \<and> has_suffix k ''-Event'') \<or> map_of hs ''type'' = Some v"
proof -
  have "canonical_event_type_loop hs = Some v \<Longrightarrow> \<exists>k. (k, v) \<in> set hs \<and> has_suffix k ''-Event''" for v
    by (induction hs rule: canonical_event_type_loop.induct) (auto split: if_splits)
  then show "canonical_event_type hs = v \<Longrightarrow> v \<noteq> [] \<Longrightarrow> ?thesis"
    by (auto simp: canonical_event_type_def split: option.splits)
qed

text \<open>The pages of a list, one after the other.\<close>

lemma concat_pages: "concat (map (\<lambda>i. take k (drop (i * k) xs)) [0..<n]) = take (n * k) xs"
  by (induction n) (simp_all add: take_add [symmetric] add.commute)

lemma length_filter_three:
  "(\<And>x. p x \<longleftrightarrow> a x \<or> b x \<or> c x) \<Longrightarrow> (\<And>x. \<not> (a x \<and> b x) \<and> \<not> (a x \<and> c x) \<and> \<not> (b x \<and> c x)) \<Longrightarrow>
   length (filter a xs) + length (filter b xs) + length (filter c xs) = length (filter p xs)"
  by (induction xs) (simp, metis filter.simps(2) add_Suc add_Suc_right length_Cons)

lemma newest_first_facts:
  "set (newest_first rows) = set rows" "length (newest_first rows) = length rows"
  by (simp_all add: newest_first_def)

lemma newest_first_sorted:
  assumes "distinct (map er_id rows)"
  shows "sorted_wrt (\<lambda>a b. (er_received b, er_id b) < (er_received a, er_id a)) (newest_first rows)"
proof -
  let ?k = "\<lambda>e. (er_received e, er_id e)"
  have "distinct (map er_id (sort_key ?k rows))"
    using assms by (simp add: distinct_map)
  then have "distinct (map ?k (sort_key ?k rows))"
    by (auto simp: distinct_map inj_on_def)
  moreover have "sorted (map ?k (sort_key ?k rows))" by (rule sorted_sort_key)
  ultimately have "sorted_wrt (<) (map ?k (sort_key ?k rows))"
    by (simp add: strict_sorted_iff)
  then show ?thesis by (simp add: newest_first_def sorted_wrt_rev sorted_wrt_map)
qed

lemma conditions_status:
  "(\<forall>c \<in> set (conditions tasks invs (f\<lparr>ef_status := st\<rparr>)). c e) \<longleftrightarrow>
   (\<forall>c \<in> set (conditions tasks invs (f\<lparr>ef_status := []\<rparr>)). c e) \<and> (\<forall>c \<in> set (status_conditions tasks st). c e)"
proof -
  have none: "status_conditions tasks [] = []" by (simp add: status_conditions_def)
  show ?thesis
    unfolding conditions_def set_append ball_Un
    by (simp add: none cong: option.case_cong if_cong del: split_paired_All) argo
qed

lemma selected_status:
  "selected invs (f\<lparr>ef_status := st\<rparr>) q =
   filter (\<lambda>e. \<forall>c \<in> set (status_conditions (q_tasks q) st). c e) (selected invs (f\<lparr>ef_status := []\<rparr>) q)"
  unfolding selected_def filter_filter using conditions_status [of "q_tasks q" invs st f]
  by (intro filter_cong) auto

lemma find_map_key:
  "(\<And>x. g (h x) = x) \<Longrightarrow> List.find (\<lambda>y. g y = c) (map h xs) = (if c \<in> set xs then Some (h c) else None)"
  by (induction xs) auto

lemma has_task_mono: "has_task tasks e p \<Longrightarrow> has_task tasks e (\<lambda>t. True)"
  by (auto simp: has_task_def list_ex_iff)

lemma matches_simps:
  "\<not> subject_matches never_subject c ty"
  "a \<noteq> [] \<Longrightarrow> subject_matches (no_subject\<lparr>sf_connector := token_or_any a\<rparr>) c ty \<longleftrightarrow> is_wildcard a \<or> equal_fold a c"
  "a \<noteq> [] \<Longrightarrow> b \<noteq> [] \<Longrightarrow>
     subject_matches (no_subject\<lparr>sf_connector := token_or_any a, sf_event_type := token_or_any b\<rparr>) c ty \<longleftrightarrow>
     (is_wildcard a \<or> equal_fold a c) \<and> (is_wildcard b \<or> equal_fold b ty)"
  by (simp_all add: subject_matches_def never_subject_def no_subject_def token_or_any_def)

lemma subject_tokens:
  fixes pattern c ty
  defines "p \<equiv> to_lower (trim_space pattern)"
  defines "toks \<equiv> split_on CHR ''.'' p"
  shows "subject_matches (parse_subject_filter pattern) c ty \<longleftrightarrow>
    p = [] \<or> [] \<notin> set toks \<and> (is_wildcard (hd toks) \<or> equal_fold (hd toks) c) \<and>
     (length toks \<noteq> 1 \<longrightarrow> is_wildcard (toks ! 1) \<or> equal_fold (toks ! 1) ty) \<and>
     (\<forall>tok \<in> set (drop 2 toks). is_wildcard tok)"
proof -
  consider "p = []" | "p = ''>''" | "p = ''*''" | "p \<noteq> []" "p \<noteq> ''>''" "p \<noteq> ''*''" by blast
  then show ?thesis
  proof cases
    case 4
    then have parsed: "parse_subject_filter pattern =
       (if [] \<in> set toks then never_subject
        else if length toks = 1 then no_subject\<lparr>sf_connector := token_or_any (hd toks)\<rparr>
        else if \<exists>tok \<in> set (drop 2 toks). \<not> is_wildcard tok then never_subject
        else no_subject\<lparr>sf_connector := token_or_any (hd toks), sf_event_type := token_or_any (toks ! 1)\<rparr>)"
      unfolding parse_subject_filter_def Let_def p_def [symmetric] toks_def [symmetric] by simp
    obtain t ts where "toks = t # ts" by (metis list.exhaust split_on_not_Nil toks_def)
    then show ?thesis
      unfolding parsed using 4(1) by (cases ts) (auto simp: matches_simps)
  qed (unfold p_def [symmetric] toks_def parse_subject_filter_def Let_def,
      simp_all add: subject_matches_def no_subject_def is_wildcard_def)
qed

section \<open>Properties\<close>

text \<open>
  The meaning of a subject pattern, level by level: every token is a wildcard or stands at
  level 0 or 1 and equals the connector or the event type up to case.
\<close>

definition pattern_covers :: "string \<Rightarrow> string \<Rightarrow> string \<Rightarrow> bool" where
  "pattern_covers pattern c ty \<longleftrightarrow>
     (let toks = split_on CHR ''.'' pattern in
      \<forall>i < length toks. is_wildcard (toks ! i) \<or>
        (i < 2 \<and> toks ! i \<noteq> [] \<and> equal_fold (toks ! i) ([c, ty] ! i)))"

text \<open>
  A parsed subject pattern accepts a connector and an event type exactly when the
  trimmed, lower-cased pattern is empty or each of its tokens is a wildcard or equals, up
  to case, the level it stands at; so a missing second token accepts every event type, and
  a third token that is no wildcard accepts nothing.
\<close>

theorem subject_filter_meaning:
  "subject_matches (parse_subject_filter pattern) c ty \<longleftrightarrow>
    to_lower (trim_space pattern) = [] \<or> pattern_covers (to_lower (trim_space pattern)) c ty"
proof -
  let ?toks = "split_on CHR ''.'' (to_lower (trim_space pattern))"
  obtain t ts where toks: "?toks = t # ts" by (metis list.exhaust split_on_not_Nil)
  have wild: "is_wildcard tok \<Longrightarrow> tok \<noteq> []" for tok by (auto simp: is_wildcard_def)
  show ?thesis
  proof (cases ts)
    case Nil
    then show ?thesis
      by (auto simp: subject_tokens pattern_covers_def toks Let_def dest: wild)
  next
    case (Cons u us)
    have "(\<forall>i < length ?toks. is_wildcard (?toks ! i) \<or>
        (i < 2 \<and> ?toks ! i \<noteq> [] \<and> equal_fold (?toks ! i) ([c, ty] ! i))) \<longleftrightarrow>
      (is_wildcard t \<or> t \<noteq> [] \<and> equal_fold t c) \<and> (is_wildcard u \<or> u \<noteq> [] \<and> equal_fold u ty) \<and>
      (\<forall>v \<in> set us. is_wildcard v)"
      by (simp add: toks Cons All_less_Suc2 all_set_conv_all_nth)
    then show ?thesis
      by (auto simp: subject_tokens pattern_covers_def toks Cons Let_def dest: wild)
  qed
qed

text \<open>
  The SQL conditions of a subject filter select every event the Go matcher accepts for
  its connector and canonical event type, whichever \<open>-Event\<close> header the map iteration
  picks.
\<close>

theorem subject_sql_complete:
  assumes "subject_matches (parse_subject_filter pattern) (er_connector e) (canonical_event_type (er_headers e))"
  shows "\<forall>c \<in> set (subject_sql (parse_subject_filter pattern)). c e"
proof -
  let ?sf = "parse_subject_filter pattern"
  let ?v = "canonical_event_type (er_headers e)"
  have low: "to_lower (sf_connector ?sf) = sf_connector ?sf" "to_lower (sf_event_type ?sf) = sf_event_type ?sf"
    using parse_subject_filter_lowered by auto
  have ty: "list_ex (\<lambda>(k, v). has_suffix (to_lower k) ''-event'' \<and> to_lower v = sf_event_type ?sf) (er_headers e) \<or>
      to_lower (case map_of (er_headers e) ''type'' of None \<Rightarrow> [] | Some v \<Rightarrow> v) = sf_event_type ?sf"
    if "sf_event_type ?sf \<noteq> []"
  proof -
    have v: "to_lower ?v = sf_event_type ?sf"
      using assms that low by (auto simp: subject_matches_def equal_fold_def split: if_splits)
    then have "?v \<noteq> []" using that by auto
    then consider k where "(k, ?v) \<in> set (er_headers e)" "has_suffix k ''-Event''"
      | "map_of (er_headers e) ''type'' = Some ?v"
      using canonical_from_headers [OF refl] by blast
    then show ?thesis
    proof cases
      case 1
      have "to_lower ''-Event'' = ''-event''" by code_simp
      with has_suffix_lower [OF 1(2)] 1(1) v show ?thesis by (fastforce simp: list_ex_iff)
    qed (simp add: v)
  qed
  show ?thesis
    using assms low ty by (auto simp: subject_sql_def subject_matches_def equal_fold_def split: if_splits)
qed

definition push_event :: event_row where
  "push_event = \<lparr>er_id = ''e1'', er_connector = ''Forgejo'', er_channel = None,
     er_headers = [(''X-Forgejo-Event'', ''push''), (''type'', ''issues'')], er_data = JNull, er_raw = [],
     er_received = 0, er_routed = None\<rparr>"

theorem subject_sql_complete_witness:
  "\<forall>c \<in> set (subject_sql (parse_subject_filter ''forgejo.push'')). c push_event"
  by (rule subject_sql_complete) code_simp

text \<open>The converse fails: SQL also looks at \<open>type\<close> when an \<open>-Event\<close> header is present.\<close>

lemma subject_sql_wider:
  "(\<forall>c \<in> set (subject_sql (parse_subject_filter ''forgejo.issues'')). c push_event) \<and>
   \<not> subject_matches (parse_subject_filter ''forgejo.issues'') (er_connector push_event)
       (canonical_event_type (er_headers push_event))"
  by code_simp

text \<open>
  The pages of a query tile its result: reading pages of a fixed positive size from offset 0 on
  yields the selected events, newest first in a strict order, without gap or repetition,
  and \<open>CountEvents\<close> is their number.
\<close>

theorem query_pages_tile:
  assumes "distinct (map er_id (q_events q))" "0 < k"
  shows "\<exists>rows. set rows = {e \<in> set (q_events q). \<forall>c \<in> set (conditions (q_tasks q) invs f). c e} \<and>
    sorted_wrt (\<lambda>a b. (er_received b, er_id b) < (er_received a, er_id a)) rows \<and>
    count_events all_ok invs f q = Inr (length rows) \<and>
    (\<forall>n. concat (map (\<lambda>i. case query_events all_ok invs f (int k) (int (i * k)) q of
             Inl _ \<Rightarrow> [] | Inr page \<Rightarrow> page) [0..<n]) = map scan_event (take (n * k) rows))"
proof (intro exI conjI allI)
  let ?rows = "newest_first (selected invs f q)"
  show "set ?rows = {e \<in> set (q_events q). \<forall>c \<in> set (conditions (q_tasks q) invs f). c e}"
    by (auto simp: newest_first_facts selected_def)
  show "sorted_wrt (\<lambda>a b. (er_received b, er_id b) < (er_received a, er_id a)) ?rows"
    using assms(1) by (intro newest_first_sorted) (simp add: selected_def distinct_map_filter)
  show "count_events all_ok invs f q = Inr (length ?rows)"
    by (simp add: count_events_def newest_first_facts)
  have page: "query_events all_ok invs f (int k) (int (i * k)) q =
      Inr (map scan_event (take k (drop (i * k) ?rows)))" for i
    by (simp add: query_events_def del: of_nat_mult)
  show "concat (map (\<lambda>i. case query_events all_ok invs f (int k) (int (i * k)) q of
      Inl _ \<Rightarrow> [] | Inr page \<Rightarrow> page) [0..<n]) = map scan_event (take (n * k) ?rows)" for n
    unfolding page concat_pages [symmetric] map_concat by (simp add: o_def)
qed

theorem query_pages_tile_witness:
  "\<exists>rows. count_events all_ok [] no_event_filter (empty_queue\<lparr>q_events := [push_event]\<rparr>) = Inr (length rows) \<and>
     set rows = {push_event}"
  using query_pages_tile [of "empty_queue\<lparr>q_events := [push_event]\<rparr>" 2 "[]" no_event_filter]
  by (auto simp: no_event_filter_def conditions_def status_conditions_def)

text \<open>
  The activity statuses partition the events a filter selects: whatever the other
  fields of the filter, the counts for unmatched, matched and error add up to the count
  without a status.
\<close>

theorem status_partition:
  "count_events all_ok invs (f\<lparr>ef_status := []\<rparr>) q =
     (case (count_events all_ok invs (f\<lparr>ef_status := ''unmatched''\<rparr>) q,
            count_events all_ok invs (f\<lparr>ef_status := ''matched''\<rparr>) q,
            count_events all_ok invs (f\<lparr>ef_status := ''error''\<rparr>) q) of
        (Inr u, Inr m, Inr x) \<Rightarrow> Inr (u + m + x) | _ \<Rightarrow> Inl [])"
proof -
  let ?h = "\<lambda>st e. \<forall>c \<in> set (status_conditions (q_tasks q) st). c e"
  let ?all = "selected invs (f\<lparr>ef_status := []\<rparr>) q"
  have "length (filter (?h ''unmatched'') ?all) + length (filter (?h ''matched'') ?all) +
      length (filter (?h ''error'') ?all) = length (filter (\<lambda>e. True) ?all)"
    by (rule length_filter_three) (auto simp: status_conditions_def dest: has_task_mono)
  then show ?thesis
    by (simp add: count_events_def selected_status [of _ "''unmatched''"]
        selected_status [of _ "''matched''"] selected_status [of _ "''error''"])
qed

text \<open>
  The birth statistics of a channel are what counting the events of that channel since
  the same instant returns, in total, with status unmatched and with status error; a channel
  is listed exactly when it has such an event.
\<close>

theorem birth_stats_are_counts:
  assumes "birth_stats all_ok since q = Inr stats" "c \<noteq> []"
  shows "let f = no_event_filter\<lparr>ef_channel := c, ef_since := Some since\<rparr> in
    case List.find (\<lambda>st. bs_channel st = c) stats of
      None \<Rightarrow> count_events all_ok invs f q = Inr 0
    | Some st \<Rightarrow> 0 < bs_events st \<and> count_events all_ok invs f q = Inr (bs_events st) \<and>
        count_events all_ok invs (f\<lparr>ef_status := ''unmatched''\<rparr>) q = Inr (bs_unmatched st) \<and>
        count_events all_ok invs (f\<lparr>ef_status := ''error''\<rparr>) q = Inr (bs_failed st)"
proof -
  let ?f = "no_event_filter\<lparr>ef_channel := c, ef_since := Some since\<rparr>"
  let ?rows = "filter (\<lambda>e. er_channel e \<noteq> None \<and> since \<le> er_received e) (q_events q)"
  let ?es = "filter (\<lambda>e. er_channel e = Some c) ?rows"
  have stats: "stats = map (birth_stat_of (q_tasks q) ?rows) (remdups (map (the \<circ> er_channel) ?rows))"
    using assms(1) by (simp add: birth_stats_def Let_def)
  have listed: "c \<in> set (remdups (map (the \<circ> er_channel) ?rows)) \<longleftrightarrow> ?es \<noteq> []"
    by (force simp: filter_empty_conv)
  have find: "List.find (\<lambda>st. bs_channel st = c) stats =
      (if ?es \<noteq> [] then Some (birth_stat_of (q_tasks q) ?rows c) else None)"
    unfolding stats listed [symmetric] by (rule find_map_key) (simp add: birth_stat_of_def Let_def)
  have sel: "selected invs ?f q = ?es"
    using assms(2) by (auto simp: selected_def conditions_def status_conditions_def no_event_filter_def intro: filter_cong)
  have same: "?f\<lparr>ef_status := []\<rparr> = ?f" by (simp add: no_event_filter_def)
  have status: "selected invs (?f\<lparr>ef_status := st\<rparr>) q =
      filter (\<lambda>e. \<forall>c \<in> set (status_conditions (q_tasks q) st). c e) ?es" for st
    using selected_status [of invs st ?f q] unfolding same sel .
  have counts: "count_events all_ok invs ?f q = Inr (length ?es)"
    "count_events all_ok invs (?f\<lparr>ef_status := st\<rparr>) q =
      Inr (length (filter (\<lambda>e. \<forall>c \<in> set (status_conditions (q_tasks q) st). c e) ?es))" for st
    by (simp_all only: count_events_def sel status if_True not_True_eq_False if_False)
  show ?thesis
    unfolding Let_def find counts
    by (simp add: birth_stat_of_def Let_def status_conditions_def del: filter_filter)
qed

theorem birth_stats_are_counts_witness:
  "\<exists>st. birth_stats all_ok 0 (empty_queue\<lparr>q_events := [push_event\<lparr>er_channel := Some ''c''\<rparr>]\<rparr>) = Inr [st] \<and>
     count_events all_ok [] (no_event_filter\<lparr>ef_channel := ''c'', ef_since := Some 0\<rparr>)
       (empty_queue\<lparr>q_events := [push_event\<lparr>er_channel := Some ''c''\<rparr>]\<rparr>) = Inr (bs_events st)"
proof -
  let ?q = "empty_queue\<lparr>q_events := [push_event\<lparr>er_channel := Some ''c''\<rparr>]\<rparr>"
  have s: "birth_stats all_ok 0 ?q = Inr [birth_stat_of [] (q_events ?q) ''c'']"
    by (simp add: birth_stats_def push_event_def empty_queue_def Let_def)
  have "bs_channel (birth_stat_of [] (q_events ?q) ''c'') = ''c''" by (simp add: birth_stat_of_def Let_def)
  with birth_stats_are_counts [OF s, of "''c''" "[]"] s show ?thesis by (simp add: Let_def)
qed

end
