(* ===== verification/Invocations.thy ===== *)
theory Invocations
  imports Prelude "HOL-Library.Product_Lexorder"
begin

text \<open>
  The invocation history of \<^verbatim>\<open>services/hub/internal/invocations\<close>: the in-memory ring buffer and the
  PostgreSQL table behind the interface \<^verbatim>\<open>Store\<close>, whose contract is the locale
  \<open>invocation_store\<close>. The field \<open>task\<close> of an invocation is filled in by the API only and
  is left out.
\<close>

section \<open>Records\<close>

definition status_running :: string where "status_running = ''running''"
definition status_success :: string where "status_success = ''success''"
definition status_failure :: string where "status_failure = ''failure''"
definition status_timeout :: string where "status_timeout = ''timeout''"

lemmas status_defs = status_running_def status_success_def status_failure_def status_timeout_def

text \<open>\<open>iv_start\<close> is absent for the zero time.\<close>

record invocation =
  iv_id :: string
  iv_agent :: string
  iv_trigger :: string
  iv_event :: string
  iv_connector :: string
  iv_start :: "instant option"
  iv_end :: "instant option"
  iv_duration :: "int option"
  iv_status :: string
  iv_error :: string

definition is_terminal :: "invocation \<Rightarrow> bool" where
  "is_terminal i \<longleftrightarrow> iv_status i = status_success \<or> iv_status i = status_failure \<or> iv_status i = status_timeout"

text \<open>\<open>gen\<close> is the id \<^verbatim>\<open>generateID\<close> draws.\<close>

definition fill_defaults :: "string \<Rightarrow> instant \<Rightarrow> invocation \<Rightarrow> invocation" where
  "fill_defaults gen now rec =
     rec\<lparr>iv_id := (if iv_id rec = [] then gen else iv_id rec),
         iv_start := (case iv_start rec of None \<Rightarrow> Some now | Some t \<Rightarrow> Some t),
         iv_status := (if iv_status rec = [] then status_running else iv_status rec)\<rparr>"

text \<open>The zero time lies before every instant the hub records.\<close>

definition start_of :: "invocation \<Rightarrow> instant" where
  "start_of rec = (case iv_start rec of None \<Rightarrow> 0 | Some t \<Rightarrow> t)"

record list_options =
  lo_agent :: string
  lo_agents :: "string list"
  lo_status :: string
  lo_trigger :: string
  lo_event :: string
  lo_since :: "instant option"
  lo_until :: "instant option"
  lo_limit :: int

definition no_list_options :: list_options where
  "no_list_options = \<lparr>lo_agent = [], lo_agents = [], lo_status = [], lo_trigger = [], lo_event = [],
     lo_since = None, lo_until = None, lo_limit = 0\<rparr>"

section \<open>The ring buffer\<close>

record mem_store =
  ms_capacity :: nat
  ms_order :: "string list"
  ms_by_id :: "(string \<times> invocation) list"

definition default_capacity :: nat where "default_capacity = 1000"

definition new_memory_store :: "int \<Rightarrow> mem_store" where
  "new_memory_store capacity =
     \<lparr>ms_capacity = (if capacity \<le> 0 then default_capacity else nat capacity), ms_order = [], ms_by_id = []\<rparr>"

text \<open>The eviction loop; the constructor excludes the capacity 0, where it would run off the slice.\<close>

fun evict :: "nat \<Rightarrow> string list \<Rightarrow> (string \<times> invocation) list \<Rightarrow> string list \<times> (string \<times> invocation) list" where
  "evict cap [] m = ([], m)"
| "evict cap (i # is) m = (if cap \<le> length (i # is) then evict cap is (adel i m) else (i # is, m))"

definition mem_record :: "string \<Rightarrow> instant \<Rightarrow> invocation \<Rightarrow> mem_store \<Rightarrow> invocation \<times> mem_store" where
  "mem_record gen now rec s =
     (let stored = fill_defaults gen now rec;
          (order, m) = evict (ms_capacity s) (ms_order s) (ms_by_id s)
      in (stored, s\<lparr>ms_order := order @ [iv_id stored], ms_by_id := aput (iv_id stored) stored m\<rparr>))"

definition end_or_now :: "instant option \<Rightarrow> instant \<Rightarrow> instant" where
  "end_or_now t now = (case t of None \<Rightarrow> now | Some e \<Rightarrow> e)"

text \<open>\<^verbatim>\<open>Milliseconds\<close> truncates towards zero.\<close>

definition trunc_ms :: "duration \<Rightarrow> int" where
  "trunc_ms d = (if d < 0 then - ((- d) div 10 ^ 6) else d div 10 ^ 6)"

definition mem_finish :: "string \<Rightarrow> string \<Rightarrow> instant \<Rightarrow> invocation \<Rightarrow> invocation" where
  "mem_finish status msg t r =
     r\<lparr>iv_status := status, iv_end := Some t, iv_duration := Some (trunc_ms (t - start_of r)), iv_error := msg\<rparr>"

definition mem_get :: "string \<Rightarrow> mem_store \<Rightarrow> invocation option" where
  "mem_get i s = map_of (ms_by_id s) i"

definition mem_complete ::
  "string \<Rightarrow> string \<Rightarrow> string \<Rightarrow> instant option \<Rightarrow> instant \<Rightarrow> mem_store \<Rightarrow> bool \<times> mem_store" where
  "mem_complete i status msg t now s =
     (case map_of (ms_by_id s) i of
        None \<Rightarrow> (False, s)
      | Some r \<Rightarrow> (True, s\<lparr>ms_by_id := aput i (mem_finish status msg (end_or_now t now) r) (ms_by_id s)\<rparr>))"

definition mem_selects :: "list_options \<Rightarrow> invocation \<Rightarrow> bool" where
  "mem_selects o1 r =
     (if lo_agent o1 \<noteq> [] \<and> iv_agent r \<noteq> lo_agent o1 then False
      else if lo_agents o1 \<noteq> [] \<and> iv_agent r \<notin> set (lo_agents o1) then False
      else if lo_status o1 \<noteq> [] \<and> iv_status r \<noteq> lo_status o1 then False
      else if lo_trigger o1 \<noteq> [] \<and> iv_trigger r \<noteq> lo_trigger o1 then False
      else if lo_event o1 \<noteq> [] \<and> iv_event r \<noteq> lo_event o1 then False
      else if (case lo_since o1 of None \<Rightarrow> False | Some t \<Rightarrow> start_of r < t) then False
      else if (case lo_until o1 of None \<Rightarrow> False | Some t \<Rightarrow> \<not> start_of r < t) then False
      else True)"

definition cap_list :: "int \<Rightarrow> 'a list \<Rightarrow> 'a list" where
  "cap_list limit xs = (if 0 < limit \<and> limit < int (length xs) then take (nat limit) xs else xs)"

text \<open>Records that start at the same instant come in the order the unstable sort leaves them.\<close>

definition mem_list_with_total :: "list_options \<Rightarrow> mem_store \<Rightarrow> invocation list \<times> nat" where
  "mem_list_with_total o1 s =
     (let out = sort_key (\<lambda>r. - start_of r)
            (filter (mem_selects o1) (List.map_filter (map_of (ms_by_id s)) (ms_order s)))
      in (cap_list (lo_limit o1) out, length out))"

definition mem_list :: "list_options \<Rightarrow> mem_store \<Rightarrow> invocation list" where
  "mem_list o1 s = fst (mem_list_with_total o1 s)"

definition mem_len :: "mem_store \<Rightarrow> nat" where "mem_len s = length (ms_order s)"

definition mem_capacity :: "mem_store \<Rightarrow> nat" where "mem_capacity s = ms_capacity s"

definition mem_prune :: "duration \<Rightarrow> mem_store \<Rightarrow> nat \<times> mem_store" where
  "mem_prune retention s = (0, s)"

section \<open>The table\<close>

type_synonym inv_table = "invocation list"

text \<open>\<open>ok\<close>: the statement is executed. A failing INSERT is logged and the record returned anyway.\<close>

definition pg_record :: "bool \<Rightarrow> string \<Rightarrow> instant \<Rightarrow> invocation \<Rightarrow> inv_table \<Rightarrow> invocation \<times> inv_table" where
  "pg_record ok gen now rec rows =
     (let r = fill_defaults gen now rec in
      (r, if ok \<and> \<not> has_row iv_id (iv_id r) rows then rows @ [r\<lparr>iv_end := None, iv_duration := None\<rparr>] else rows))"

text \<open>A cast to \<open>bigint\<close> rounds to the nearest integer, halves away from zero.\<close>

definition round_ms :: "duration \<Rightarrow> int" where
  "round_ms d = (if d < 0 then - ((- d + 500000) div 10 ^ 6) else (d + 500000) div 10 ^ 6)"

definition pg_finish :: "string \<Rightarrow> string \<Rightarrow> instant \<Rightarrow> invocation \<Rightarrow> invocation" where
  "pg_finish status msg t r =
     r\<lparr>iv_status := status, iv_error := msg, iv_end := Some t, iv_duration := Some (round_ms (t - start_of r))\<rparr>"

definition pg_complete ::
  "bool \<Rightarrow> string \<Rightarrow> string \<Rightarrow> string \<Rightarrow> instant option \<Rightarrow> instant \<Rightarrow> inv_table \<Rightarrow> bool \<times> inv_table" where
  "pg_complete ok i status msg t now rows =
     (if \<not> ok then (False, rows)
      else (has_row iv_id i rows,
            update_where (\<lambda>r. iv_id r = i) (pg_finish status msg (end_or_now t now)) rows))"

definition pg_get :: "bool \<Rightarrow> string \<Rightarrow> inv_table \<Rightarrow> invocation option" where
  "pg_get ok i rows = (if \<not> ok then None else lookup_row iv_id i rows)"

text \<open>The WHERE clause of \<^verbatim>\<open>listFilterClause\<close>.\<close>

definition list_filter_clause :: "list_options \<Rightarrow> (invocation \<Rightarrow> bool) list" where
  "list_filter_clause o1 =
     (if lo_agent o1 \<noteq> [] then [\<lambda>r. iv_agent r = lo_agent o1] else []) @
     (if lo_status o1 \<noteq> [] then [\<lambda>r. iv_status r = lo_status o1] else []) @
     (if lo_trigger o1 \<noteq> [] then [\<lambda>r. iv_trigger r = lo_trigger o1] else []) @
     (if lo_event o1 \<noteq> [] then [\<lambda>r. iv_event r = lo_event o1] else []) @
     (case lo_since o1 of None \<Rightarrow> [] | Some t \<Rightarrow> [\<lambda>r. t \<le> start_of r]) @
     (case lo_until o1 of None \<Rightarrow> [] | Some t \<Rightarrow> [\<lambda>r. start_of r < t])"

definition pg_selected :: "list_options \<Rightarrow> inv_table \<Rightarrow> invocation list" where
  "pg_selected o1 rows = filter (\<lambda>r. \<forall>c \<in> set (list_filter_clause o1). c r) rows"

text \<open>Statement 0 counts, statement 1 selects.\<close>

definition pg_list_with_total :: "pg \<Rightarrow> list_options \<Rightarrow> inv_table \<Rightarrow> invocation list \<times> nat" where
  "pg_list_with_total pg o1 rows =
     (if \<not> pg 0 then ([], 0)
      else let out = rev (sort_key (\<lambda>r. (start_of r, iv_id r)) (pg_selected o1 rows)) in
        (if \<not> pg 1 then [] else if 0 < lo_limit o1 then take (nat (lo_limit o1)) out else out, length out))"

definition pg_list :: "pg \<Rightarrow> list_options \<Rightarrow> inv_table \<Rightarrow> invocation list" where
  "pg_list pg o1 rows = fst (pg_list_with_total pg o1 rows)"

definition pg_len :: "bool \<Rightarrow> inv_table \<Rightarrow> nat" where
  "pg_len ok rows = (if \<not> ok then 0 else length rows)"

definition pg_capacity :: nat where "pg_capacity = default_capacity"

definition whole_seconds :: "duration \<Rightarrow> int" where
  "whole_seconds d = (if d < 0 then - ((- d) div 10 ^ 9) else d div 10 ^ 9)"

definition pg_prune :: "bool \<Rightarrow> instant \<Rightarrow> duration \<Rightarrow> inv_table \<Rightarrow> (string + nat) \<times> inv_table" where
  "pg_prune ok now retention rows =
     (if \<not> ok then (Inl ''invocations.Prune'', rows)
      else let old = (\<lambda>r. start_of r < now - whole_seconds retention * 10 ^ 9) in
        (Inr (length (filter old rows)), filter (\<lambda>r. \<not> old r) rows))"

section \<open>The contract\<close>

locale invocation_store =
  fixes record_inv :: "string \<Rightarrow> instant \<Rightarrow> invocation \<Rightarrow> 's \<Rightarrow> invocation \<times> 's"
    and complete_inv :: "string \<Rightarrow> string \<Rightarrow> string \<Rightarrow> instant option \<Rightarrow> instant \<Rightarrow> 's \<Rightarrow> bool \<times> 's"
    and get_inv :: "string \<Rightarrow> 's \<Rightarrow> invocation option"
    and finish :: "string \<Rightarrow> string \<Rightarrow> instant \<Rightarrow> invocation \<Rightarrow> invocation"
  assumes record_reply: "fst (record_inv gen now rec s) = fill_defaults gen now rec"
    and record_get: "get_inv (iv_id (fill_defaults gen now rec)) s = None \<Longrightarrow> iv_end rec = None \<Longrightarrow> iv_duration rec = None \<Longrightarrow>
      get_inv (iv_id (fill_defaults gen now rec)) (snd (record_inv gen now rec s)) = Some (fill_defaults gen now rec)"
    and complete_present: "get_inv i s = Some r \<Longrightarrow>
      fst (complete_inv i st msg t now s) \<and>
      get_inv i (snd (complete_inv i st msg t now s)) = Some (finish st msg (end_or_now t now) r)"
    and complete_absent: "get_inv i s = None \<Longrightarrow> complete_inv i st msg t now s = (False, s)"
    and complete_other: "j \<noteq> i \<Longrightarrow> get_inv j (snd (complete_inv i st msg t now s)) = get_inv j s"
    and finish_status: "iv_status (finish st msg e r) = st \<and> iv_error (finish st msg e r) = msg \<and>
      iv_end (finish st msg e r) = Some e \<and> iv_id (finish st msg e r) = iv_id r \<and> iv_agent (finish st msg e r) = iv_agent r"
begin

text \<open>A dispatch: recorded as running, completed once, and readable under its id in between and after.\<close>

lemma dispatch_life_cycle:
  assumes "get_inv gen s = None" "iv_id rec = []" "iv_status rec = []" "iv_end rec = None" "iv_duration rec = None"
  shows "let s1 = snd (record_inv gen now rec s);
             s2 = snd (complete_inv gen st msg None now2 s1) in
    iv_id (fst (record_inv gen now rec s)) = gen \<and>
    (\<exists>r. get_inv gen s1 = Some r \<and> iv_status r = status_running \<and> iv_end r = None \<and> iv_agent r = iv_agent rec) \<and>
    fst (complete_inv gen st msg None now2 s1) \<and>
    (\<exists>r. get_inv gen s2 = Some r \<and> iv_status r = st \<and> iv_error r = msg \<and> iv_end r = Some now2 \<and> iv_agent r = iv_agent rec)"
proof -
  let ?r = "fill_defaults gen now rec"
  have r: "iv_id ?r = gen" "iv_status ?r = status_running" "iv_end ?r = None" "iv_agent ?r = iv_agent rec"
    using assms by (simp_all add: fill_defaults_def)
  then have s1: "get_inv gen (snd (record_inv gen now rec s)) = Some ?r"
    using record_get [of gen now rec s] assms by simp
  from complete_present [OF s1, of st msg None now2] show ?thesis
    using r s1 by (simp add: Let_def record_reply finish_status end_or_now_def)
qed

end

interpretation memory: invocation_store mem_record mem_complete mem_get mem_finish
proof
  fix gen now rec and s :: mem_store
  show "mem_get (iv_id (fill_defaults gen now rec)) (snd (mem_record gen now rec s)) = Some (fill_defaults gen now rec)"
    by (simp add: mem_record_def mem_get_def Let_def split: prod.split)
qed (auto simp: mem_record_def mem_complete_def mem_get_def mem_finish_def Let_def split: prod.splits option.splits)

interpretation table: invocation_store "pg_record True" "pg_complete True" "pg_get True" pg_finish
proof
  fix i st msg t now r and s :: inv_table
  assume "pg_get True i s = Some r"
  then show "fst (pg_complete True i st msg t now s) \<and>
      pg_get True i (snd (pg_complete True i st msg t now s)) = Some (pg_finish st msg (end_or_now t now) r)"
    by (simp add: pg_get_def pg_complete_def has_row_iff lookup_row_update pg_finish_def)
next
  fix i st msg t now and s :: inv_table
  assume "pg_get True i s = None"
  then have "\<not> has_row iv_id i s" "update_where (\<lambda>r. iv_id r = i) (pg_finish st msg (end_or_now t now)) s = s"
    by (auto simp: pg_get_def has_row_iff lookup_row_None_iff intro!: update_where_none)
  then show "pg_complete True i st msg t now s = (False, s)" by (simp add: pg_complete_def)
next
  fix i j :: string and st msg t now and s :: inv_table
  assume "j \<noteq> i"
  then show "pg_get True j (snd (pg_complete True i st msg t now s)) = pg_get True j s"
    by (simp add: pg_get_def pg_complete_def lookup_row_update pg_finish_def)
qed (auto simp: pg_record_def pg_get_def Let_def has_row_iff lookup_row_append lookup_row_Cons pg_finish_def fill_defaults_def)

section \<open>Properties\<close>

lemma keys_adel: "fst ` set (adel i m) = fst ` set m - {i}"
  by (force simp: adel_def)

lemma evict_drop:
  assumes "0 < cap" "distinct ids" "fst ` set m = set ids"
  shows "\<exists>m'. evict cap ids m = (drop (Suc (length ids) - cap) ids, m') \<and>
    fst ` set m' = set (drop (Suc (length ids) - cap) ids)"
  using assms
proof (induction cap ids m rule: evict.induct)
  case (2 cap i ids m)
  show ?case
  proof (cases "cap \<le> length (i # ids)")
    case True
    have "fst ` set (adel i m) = set ids" using 2(3,4) by (auto simp: keys_adel)
    moreover have "Suc (length (i # ids)) - cap = Suc (Suc (length ids) - cap)" using True by simp
    ultimately show ?thesis using 2(1) [OF True 2(2)] 2(3) True by simp
  qed (use 2 in simp)
qed simp

definition record_all :: "instant \<Rightarrow> invocation list \<Rightarrow> mem_store \<Rightarrow> mem_store" where
  "record_all now rs s = fold (\<lambda>r s. snd (mem_record [] now r s)) rs s"

lemma record_all_order:
  assumes "0 < ms_capacity s" "fst ` set (ms_by_id s) = set (ms_order s)"
    and "distinct (ms_order s @ map iv_id rs)" "[] \<notin> iv_id ` set rs" "length (ms_order s) \<le> ms_capacity s"
  shows "ms_order (record_all now rs s) =
      drop (length (ms_order s) + length rs - ms_capacity s) (ms_order s @ map iv_id rs) \<and>
    fst ` set (ms_by_id (record_all now rs s)) = set (ms_order (record_all now rs s)) \<and>
    ms_capacity (record_all now rs s) = ms_capacity s"
  using assms
proof (induction rs arbitrary: s)
  case Nil
  then show ?case by (simp add: record_all_def)
next
  case (Cons r rs)
  let ?k = "Suc (length (ms_order s)) - ms_capacity s"
  have "distinct (ms_order s)" using Cons.prems(3) by simp
  from evict_drop [OF Cons.prems(1) this Cons.prems(2)]
  obtain m' where e: "evict (ms_capacity s) (ms_order s) (ms_by_id s) = (drop ?k (ms_order s), m')"
    "fst ` set m' = set (drop ?k (ms_order s))" by blast
  let ?s = "snd (mem_record [] now r s)"
  have id: "iv_id (fill_defaults [] now r) = iv_id r" using Cons.prems(4) by (simp add: fill_defaults_def)
  have s: "ms_order ?s = drop ?k (ms_order s) @ [iv_id r]" "ms_capacity ?s = ms_capacity s"
    "fst ` set (ms_by_id ?s) = set (ms_order ?s)"
    using e by (simp_all add: mem_record_def id Let_def)
  have "set (drop ?k (ms_order s)) \<subseteq> set (ms_order s)" by (rule set_drop_subset)
  then have "distinct (ms_order ?s @ map iv_id rs)" using Cons.prems(3) by (auto simp: s(1))
  moreover have "length (ms_order ?s) \<le> ms_capacity ?s" using Cons.prems(1,5) by (simp add: s)
  ultimately have IH: "ms_order (record_all now rs ?s) =
      drop (length (ms_order ?s) + length rs - ms_capacity ?s) (ms_order ?s @ map iv_id rs) \<and>
    fst ` set (ms_by_id (record_all now rs ?s)) = set (ms_order (record_all now rs ?s)) \<and>
    ms_capacity (record_all now rs ?s) = ms_capacity ?s"
    using Cons.IH [of ?s] Cons.prems(1,4) s by simp
  have step: "record_all now (r # rs) s = record_all now rs ?s" by (simp add: record_all_def)
  have "drop (length (ms_order ?s) + length rs - ms_capacity ?s) (ms_order ?s @ map iv_id rs) =
      drop (length (ms_order s) + length (r # rs) - ms_capacity s) (ms_order s @ map iv_id (r # rs))"
  proof -
    have "ms_order ?s @ map iv_id rs = drop ?k (ms_order s @ map iv_id (r # rs))"
      using Cons.prems(1,5) by (simp add: s(1))
    moreover have "length (ms_order ?s) + length rs - ms_capacity ?s + ?k = length (ms_order s) + length (r # rs) - ms_capacity s"
      using Cons.prems(1,5) by (simp add: s)
    ultimately show ?thesis by (simp only: drop_drop)
  qed
  then show ?case using IH s(2) unfolding step by simp
qed

text \<open>
  The in-memory history is a ring buffer: after recording any invocations with fresh
  distinct ids it holds exactly the newest ones up to its capacity (1000 unless a positive
  capacity is asked for), in order, and an id is found exactly while it is held.
\<close>

theorem ring_keeps_newest:
  assumes "distinct (map iv_id rs)" "[] \<notin> iv_id ` set rs"
  shows "let s = record_all now rs (new_memory_store capacity);
             bound = (if capacity \<le> 0 then 1000 else nat capacity) in
    ms_order s = drop (length rs - bound) (map iv_id rs) \<and> mem_len s = min bound (length rs) \<and>
    (mem_get i s \<noteq> None \<longleftrightarrow> i \<in> set (drop (length rs - bound) (map iv_id rs)))"
proof -
  let ?s0 = "new_memory_store capacity"
  let ?bound = "if capacity \<le> 0 then 1000 else nat capacity"
  have s0: "ms_capacity ?s0 = ?bound" "ms_order ?s0 = []" "ms_by_id ?s0 = []"
    by (simp_all add: new_memory_store_def default_capacity_def)
  have o: "ms_order (record_all now rs ?s0) = drop (length rs - ?bound) (map iv_id rs)"
    "fst ` set (ms_by_id (record_all now rs ?s0)) = set (ms_order (record_all now rs ?s0))"
    using record_all_order [of ?s0 rs now] assms by (simp_all add: s0 split: if_splits)
  have "mem_get i (record_all now rs ?s0) \<noteq> None \<longleftrightarrow> i \<in> fst ` set (ms_by_id (record_all now rs ?s0))"
    by (simp add: mem_get_def map_of_eq_None_iff)
  then show ?thesis
    unfolding Let_def using o by (simp add: mem_len_def min_def)
qed

definition sample_invocation :: "string \<Rightarrow> string \<Rightarrow> invocation" where
  "sample_invocation i agent = \<lparr>iv_id = i, iv_agent = agent, iv_trigger = [], iv_event = [], iv_connector = [],
     iv_start = None, iv_end = None, iv_duration = None, iv_status = [], iv_error = []\<rparr>"

theorem ring_keeps_newest_witness:
  "ms_order (record_all 5 (map (\<lambda>i. sample_invocation i ''bot'') [''x'', ''y'', ''z'']) (new_memory_store 2)) = [''y'', ''z'']"
  using ring_keeps_newest [of "map (\<lambda>i. sample_invocation i ''bot'') [''x'', ''y'', ''z'']" 5 2]
  by (simp add: sample_invocation_def Let_def)

text \<open>
  In either store a dispatched invocation recorded under a fresh id is found under it as
  running, completing it succeeds and leaves it found with the terminal status, the error
  message, the end time and the same agent; completing an unknown id changes nothing and says so.
\<close>

theorem dispatch_is_tracked:
  assumes "iv_id r = []" "iv_status r = []" "iv_end r = None" "iv_duration r = None"
    and "mem_get gen s = None" "pg_get True gen rows = None"
  shows "(let s1 = snd (mem_record gen now r s); s2 = snd (mem_complete gen st msg None now2 s1) in
      map_option iv_status (mem_get gen s1) = Some status_running \<and> fst (mem_complete gen st msg None now2 s1) \<and>
      map_option (\<lambda>x. (iv_agent x, iv_status x, iv_error x, iv_end x)) (mem_get gen s2) = Some (iv_agent r, st, msg, Some now2)) \<and>
    (let t1 = snd (pg_record True gen now r rows); t2 = snd (pg_complete True gen st msg None now2 t1) in
      map_option iv_status (pg_get True gen t1) = Some status_running \<and> fst (pg_complete True gen st msg None now2 t1) \<and>
      map_option (\<lambda>x. (iv_agent x, iv_status x, iv_error x, iv_end x)) (pg_get True gen t2) = Some (iv_agent r, st, msg, Some now2)) \<and>
    mem_complete gen st msg None now2 s = (False, s) \<and> pg_complete True gen st msg None now2 rows = (False, rows)"
  using memory.dispatch_life_cycle [OF assms(5,1-4), of now st msg now2] memory.complete_absent [OF assms(5)]
    table.dispatch_life_cycle [OF assms(6,1-4), of now st msg now2] table.complete_absent [OF assms(6)]
  by (auto simp: Let_def)

theorem dispatch_is_tracked_witness:
  "pg_complete True ''inv-1'' status_failure ''boom'' None 9 [] = (False, []) \<and>
   map_option iv_status (pg_get True ''inv-1'' (snd (pg_record True ''inv-1'' 5 (sample_invocation [] ''bot'') []))) =
     Some status_running"
  using dispatch_is_tracked [of "sample_invocation [] ''bot''" "''inv-1''" "new_memory_store 3" "[]" 5 status_failure "''boom''" 9]
  by (simp add: sample_invocation_def new_memory_store_def mem_get_def pg_get_def lookup_row_Nil Let_def)

text \<open>
  The PostgreSQL list ignores the set of agents a caller is scoped to: its result is
  the same for every such set, so a query scoped to some agents returns the records of all others too, while
  the in-memory list, for the same options, returns records of the given agents only.
\<close>

theorem pg_list_ignores_agent_scope:
  assumes "r \<in> set rows" "agents \<noteq> []"
  shows "pg_list_with_total pg (o1\<lparr>lo_agents := agents\<rparr>) rows = pg_list_with_total pg (o1\<lparr>lo_agents := []\<rparr>) rows \<and>
    r \<in> set (pg_list all_ok (no_list_options\<lparr>lo_agents := agents\<rparr>) rows) \<and>
    iv_agent ` set (mem_list (o1\<lparr>lo_agents := agents\<rparr>) s) \<subseteq> set agents"
proof (intro conjI)
  show "pg_list_with_total pg (o1\<lparr>lo_agents := agents\<rparr>) rows = pg_list_with_total pg (o1\<lparr>lo_agents := []\<rparr>) rows"
  proof -
    have "list_filter_clause (o1\<lparr>lo_agents := a\<rparr>) = list_filter_clause o1" for a
      by (simp add: list_filter_clause_def)
    then show ?thesis by (simp add: pg_list_with_total_def pg_selected_def Let_def)
  qed
  show "r \<in> set (pg_list all_ok (no_list_options\<lparr>lo_agents := agents\<rparr>) rows)"
    using assms(1) by (simp add: pg_list_def pg_list_with_total_def pg_selected_def list_filter_clause_def no_list_options_def)
  have "iv_agent x \<in> set agents" if "mem_selects (o1\<lparr>lo_agents := agents\<rparr>) x" for x
    using that assms(2) by (simp add: mem_selects_def split: if_splits)
  then show "iv_agent ` set (mem_list (o1\<lparr>lo_agents := agents\<rparr>) s) \<subseteq> set agents"
    by (auto simp: mem_list_def mem_list_with_total_def Let_def cap_list_def split: if_splits dest!: in_set_takeD)
qed

theorem pg_list_ignores_agent_scope_witness:
  "sample_invocation ''inv-1'' ''secret'' \<in>
     set (pg_list all_ok (no_list_options\<lparr>lo_agents := [''mine'']\<rparr>) [sample_invocation ''inv-1'' ''secret''])"
  using pg_list_ignores_agent_scope [of "sample_invocation ''inv-1'' ''secret''"
      "[sample_invocation ''inv-1'' ''secret'']" "[''mine'']"] by simp

end
