(* ===== verification/TaskLogs.thy ===== *)
theory TaskLogs
  imports FilterEngine Stores "HOL-Library.Product_Lexorder"
begin

text \<open>
  The log lines and conversation messages agents publish while they work, as the hub keeps them
  (\<^verbatim>\<open>services/hub/internal/tasklogs/store.go\<close>, tables of the migrations 0012 and 0013): insertion, the
  filtered lists, pruning by age and the token totals. Rows that carry the same instant come in an
  order PostgreSQL leaves open; the model takes the one of a stable sort.
\<close>

section \<open>Rows\<close>

text \<open>A log line; its fields are \<^const>\<open>None\<close> for the nil map, stored as JSON null.\<close>

record log_entry =
  lg_id :: nat
  lg_invocation :: string
  lg_correlation :: string
  lg_agent :: string
  lg_level :: string
  lg_message :: string
  lg_fields :: "(string \<times> json) list option"
  lg_created :: instant

record conversation_message =
  cm_id :: nat
  cm_invocation :: string
  cm_correlation :: string
  cm_agent :: string
  cm_role :: string
  cm_content :: string
  cm_model :: string
  cm_input :: int
  cm_output :: int
  cm_stop :: string
  cm_created :: instant

text \<open>The two tables and the sequences behind their ids.\<close>

record log_db =
  ld_logs :: "log_entry list"
  ld_messages :: "conversation_message list"
  ld_next_log :: nat
  ld_next_message :: nat

definition empty_logs :: log_db where
  "empty_logs = \<lparr>ld_logs = [], ld_messages = [], ld_next_log = 1, ld_next_message = 1\<rparr>"

definition level_error :: string where "level_error = ''error''"

definition hour :: duration where "hour = 3600 * 10 ^ 9"

definition log_retention :: duration where "log_retention = 7 * 24 * hour"

definition conversation_retention :: duration where "conversation_retention = 48 * hour"

section \<open>Log lines\<close>

text \<open>The id and the instant of an inserted row come back from the database.\<close>

definition insert_log :: "pg \<Rightarrow> instant \<Rightarrow> log_entry \<Rightarrow> log_db \<Rightarrow> (log_entry, log_db) outcome" where
  "insert_log pg now e db =
     (if \<not> pg 0 then (Inl (StatementError ''tasklogs.Insert''), db)
      else let r = e\<lparr>lg_id := ld_next_log db, lg_created := now\<rparr> in
        (Inr r, db\<lparr>ld_logs := ld_logs db @ [r], ld_next_log := Suc (ld_next_log db)\<rparr>))"

record log_options =
  lo_name :: string
  lo_names :: "string list"
  lo_level :: string
  lo_since :: "instant option"
  lo_until :: "instant option"
  lo_limit :: int

definition log_conditions :: "log_options \<Rightarrow> (log_entry \<Rightarrow> bool) list" where
  "log_conditions o1 =
     (if lo_name o1 \<noteq> [] then [\<lambda>e. lg_agent e = lo_name o1] else []) @
     (if lo_names o1 \<noteq> [] then [\<lambda>e. lg_agent e \<in> set (lo_names o1)] else []) @
     (if lo_level o1 \<noteq> [] then [\<lambda>e. lg_level e = lo_level o1] else []) @
     (case lo_since o1 of None \<Rightarrow> [] | Some t \<Rightarrow> [\<lambda>e. t \<le> lg_created e]) @
     (case lo_until o1 of None \<Rightarrow> [] | Some t \<Rightarrow> [\<lambda>e. lg_created e < t])"

definition log_limit :: "int \<Rightarrow> nat" where
  "log_limit l = nat (let l1 = (if l \<le> 0 then 500 else l) in if 1000 < l1 then 1000 else l1)"

definition list_logs :: "pg \<Rightarrow> log_options \<Rightarrow> log_db \<Rightarrow> store_error + log_entry list" where
  "list_logs pg o1 db =
     (if \<not> pg 0 then Inl (StatementError ''tasklogs.List'')
      else Inr (take (log_limit (lo_limit o1))
        (sort_key (\<lambda>e. - lg_created e) (filter (\<lambda>e. list_all (\<lambda>c. c e) (log_conditions o1)) (ld_logs db)))))"

definition prune_logs :: "pg \<Rightarrow> instant \<Rightarrow> duration \<Rightarrow> log_db \<Rightarrow> (nat, log_db) outcome" where
  "prune_logs pg now retention db =
     (if \<not> pg 0 then (Inl (StatementError ''tasklogs.Prune''), db)
      else (Inr (length (filter (\<lambda>e. lg_created e < now - retention) (ld_logs db))),
            db\<lparr>ld_logs := filter (\<lambda>e. \<not> lg_created e < now - retention) (ld_logs db)\<rparr>))"

definition count_by_level_since :: "pg \<Rightarrow> string \<Rightarrow> instant \<Rightarrow> log_db \<Rightarrow> store_error + nat" where
  "count_by_level_since pg level since db =
     (if \<not> pg 0 then Inl (StatementError ''tasklogs.CountByLevelSince'')
      else Inr (length (filter (\<lambda>e. lg_level e = level \<and> since \<le> lg_created e) (ld_logs db))))"

section \<open>Conversations\<close>

text \<open>The token columns hold 32-bit integers; a value outside their range is not inserted.\<close>

definition insert_conversation ::
  "pg \<Rightarrow> instant \<Rightarrow> conversation_message \<Rightarrow> log_db \<Rightarrow> (conversation_message, log_db) outcome" where
  "insert_conversation pg now m db =
     (if \<not> pg 0 \<or> \<not> int32 (cm_input m) \<or> \<not> int32 (cm_output m)
      then (Inl (StatementError ''tasklogs.InsertConversation''), db)
      else let r = m\<lparr>cm_id := ld_next_message db, cm_created := now\<rparr> in
        (Inr r, db\<lparr>ld_messages := ld_messages db @ [r], ld_next_message := Suc (ld_next_message db)\<rparr>))"

record conversation_options =
  co_name :: string
  co_names :: "string list"
  co_invocation :: string
  co_correlation :: string
  co_limit :: int

definition conversation_conditions :: "conversation_options \<Rightarrow> (conversation_message \<Rightarrow> bool) list" where
  "conversation_conditions o1 =
     (if co_name o1 \<noteq> [] then [\<lambda>m. cm_agent m = co_name o1] else []) @
     (if co_names o1 \<noteq> [] then [\<lambda>m. cm_agent m \<in> set (co_names o1)] else []) @
     (if co_invocation o1 \<noteq> [] then [\<lambda>m. cm_invocation m = co_invocation o1] else []) @
     (if co_correlation o1 \<noteq> [] then [\<lambda>m. cm_correlation m = co_correlation o1] else [])"

definition list_conversations ::
  "pg \<Rightarrow> conversation_options \<Rightarrow> log_db \<Rightarrow> store_error + conversation_message list" where
  "list_conversations pg o1 db =
     (if \<not> pg 0 then Inl (StatementError ''tasklogs.ListConversations'')
      else Inr (take (nat (if co_limit o1 \<le> 0 then 100 else co_limit o1))
        (sort_key (\<lambda>m. (cm_created m, cm_id m))
          (filter (\<lambda>m. list_all (\<lambda>c. c m) (conversation_conditions o1)) (ld_messages db)))))"

definition prune_conversations :: "pg \<Rightarrow> instant \<Rightarrow> duration \<Rightarrow> log_db \<Rightarrow> (nat, log_db) outcome" where
  "prune_conversations pg now retention db =
     (if \<not> pg 0 then (Inl (StatementError ''tasklogs.PruneConversations''), db)
      else (Inr (length (filter (\<lambda>m. cm_created m < now - retention) (ld_messages db))),
            db\<lparr>ld_messages := filter (\<lambda>m. \<not> cm_created m < now - retention) (ld_messages db)\<rparr>))"

record invocation_tokens =
  it_invocation :: string
  it_input :: int
  it_output :: int

text \<open>One row per invocation that is named by a message of the window.\<close>

definition tokens_by_invocation_since :: "pg \<Rightarrow> instant option \<Rightarrow> log_db \<Rightarrow> store_error + invocation_tokens list" where
  "tokens_by_invocation_since pg since db =
     (if \<not> pg 0 then Inl (StatementError ''tasklogs.TokensByInvocationSince'')
      else let ms = filter (\<lambda>m. cm_invocation m \<noteq> [] \<and> (case since of None \<Rightarrow> True | Some t \<Rightarrow> t \<le> cm_created m))
             (ld_messages db) in
        Inr (map (\<lambda>i. \<lparr>it_invocation = i,
                   it_input = sum_list (map cm_input (filter (\<lambda>m. cm_invocation m = i) ms)),
                   it_output = sum_list (map cm_output (filter (\<lambda>m. cm_invocation m = i) ms))\<rparr>)
           (remdups (map cm_invocation ms))))"

section \<open>Rules\<close>

lemma log_limit_bounds: "0 < log_limit l" "log_limit l \<le> 1000"
  by (auto simp: log_limit_def Let_def)

text \<open>A grouped total is the total of the rows, whatever the key they are grouped by.\<close>

lemma sum_list_by_group:
  fixes v :: "'a \<Rightarrow> int"
  assumes "distinct ks" "set (map key xs) \<subseteq> set ks"
  shows "sum_list (map (\<lambda>k. sum_list (map v (filter (\<lambda>x. key x = k) xs))) ks) = sum_list (map v xs)"
  using assms(2)
proof (induction xs)
  case Nil
  then show ?case by simp
next
  case (Cons x xs)
  have "sum_list (map (\<lambda>k. sum_list (map v (filter (\<lambda>y. key y = k) (x # xs)))) ks) =
      sum_list (map (\<lambda>k. (if k = key x then v x else 0) + sum_list (map v (filter (\<lambda>y. key y = k) xs))) ks)"
    by (intro arg_cong [where f = sum_list] map_cong) auto
  also have "\<dots> = sum_list (map (\<lambda>k. if k = key x then v x else 0) ks) + sum_list (map v xs)"
    using Cons by (simp add: sum_list_addf)
  also have "sum_list (map (\<lambda>k. if k = key x then v x else 0) ks) = v x"
  proof -
    have "sum_list (map (\<lambda>k. if k = key x then v x else 0) ks) = (\<Sum>k \<in> set ks. if k = key x then v x else 0)"
      using assms(1) by (simp add: sum_list_distinct_conv_sum_set)
    then show ?thesis using Cons.prems by simp
  qed
  finally show ?case by simp
qed

lemma count_by_group:
  assumes "distinct ks" "set (map key xs) \<subseteq> set ks"
  shows "sum_list (map (\<lambda>k. length (filter (\<lambda>x. key x = k) xs)) ks) = length xs"
proof -
  have "int (sum_list (map (\<lambda>k. length (filter (\<lambda>x. key x = k) xs)) ks)) = int (length xs)"
    using sum_list_by_group [OF assms, of "\<lambda>_. 1"] by (simp add: sum_list_triv sum_list_of_nat [symmetric] o_def)
  then show ?thesis by simp
qed

text \<open>
  A list restricted to the agents a caller may read shows nothing of any other agent, is never
  longer than a thousand lines and starts with the newest.
\<close>

lemma scoped_log_list:
  assumes "list_logs pg o1 db = Inr es" "lo_names o1 \<noteq> []"
  shows "(\<forall>e \<in> set es. lg_agent e \<in> set (lo_names o1) \<and> e \<in> set (ld_logs db)) \<and> length es \<le> 1000 \<and>
    sorted_wrt (\<lambda>a b. lg_created b \<le> lg_created a) es"
proof -
  let ?xs = "sort_key (\<lambda>e. - lg_created e) (filter (\<lambda>e. list_all (\<lambda>c. c e) (log_conditions o1)) (ld_logs db))"
  have es: "es = take (log_limit (lo_limit o1)) ?xs" using assms(1) by (auto simp: list_logs_def split: if_splits)
  have "sorted (map (\<lambda>e. - lg_created e) ?xs)" by simp
  then have s: "sorted_wrt (\<lambda>a b. lg_created b \<le> lg_created a) ?xs" by (simp add: sorted_map)
  have "sorted_wrt (\<lambda>a b. lg_created b \<le> lg_created a) es" using s unfolding es by (rule sorted_wrt_take)
  moreover have "length es \<le> 1000" using log_limit_bounds(2) [of "lo_limit o1"] by (simp add: es)
  moreover have "lg_agent e \<in> set (lo_names o1) \<and> e \<in> set (ld_logs db)" if "e \<in> set es" for e
  proof -
    have "e \<in> set ?xs" using that unfolding es by (rule in_set_takeD)
    then show ?thesis using assms(2) by (simp add: log_conditions_def)
  qed
  ultimately show ?thesis by blast
qed

text \<open>The token totals of a window add up to the tokens of its messages.\<close>

lemma token_totals_add_up:
  assumes "tokens_by_invocation_since pg since db = Inr rs"
  shows "distinct (map it_invocation rs) \<and>
    sum_list (map it_input rs) = sum_list (map cm_input (filter (\<lambda>m. cm_invocation m \<noteq> [] \<and>
      (case since of None \<Rightarrow> True | Some t \<Rightarrow> t \<le> cm_created m)) (ld_messages db)))"
proof -
  define ms where "ms = filter (\<lambda>m. cm_invocation m \<noteq> [] \<and> (case since of None \<Rightarrow> True | Some t \<Rightarrow> t \<le> cm_created m)) (ld_messages db)"
  have "rs = map (\<lambda>i. \<lparr>it_invocation = i, it_input = sum_list (map cm_input (filter (\<lambda>m. cm_invocation m = i) ms)),
      it_output = sum_list (map cm_output (filter (\<lambda>m. cm_invocation m = i) ms))\<rparr>) (remdups (map cm_invocation ms))"
    using assms by (simp only: tokens_by_invocation_since_def Let_def ms_def split: if_splits) (auto)
  then show ?thesis
    using sum_list_by_group [of "remdups (map cm_invocation ms)" cm_invocation ms cm_input]
    unfolding ms_def [symmetric] by (simp add: o_def)
qed

end
