(* ===== verification/ActivityApi.thy ===== *)
theory ActivityApi
  imports GuardedApi Paging EventQuery Invocations TaskLogs
begin

text \<open>
  The activity and observability endpoints of the hub that show records: events, invocations, errors, log lines and
  conversations (\<^verbatim>\<open>services/hub/internal/api/telemetry_scope.go\<close>, \<^verbatim>\<open>handlers_events.go\<close>, \<^verbatim>\<open>handlers_invocations.go\<close>,
  \<^verbatim>\<open>handlers_errors.go\<close>, \<^verbatim>\<open>handlers_observability_logs.go\<close>, \<^verbatim>\<open>handlers_conversations.go\<close>). None of them belongs to one resource, so
  each computes what the caller may see, the telemetry scope, and restricts its query to it. Query parameters are
  strings, empty when absent; \<open>time.Parse\<close> and \<open>time.ParseDuration\<close> are parameters. Instants are
  given to the client as text, which the model leaves out.
\<close>

section \<open>The telemetry scope\<close>

record telemetry_scope =
  sc_unrestricted :: bool
  sc_agents :: "string list"
  sc_connectors :: "string list"

text \<open>
  The surroundings of the computation: the outcomes of the three checks it makes, the wish for public resources,
  the agents with their display names (none when they cannot be listed) and the connectors of the cluster.
\<close>

record scope_env =
  se_admin :: check_env
  se_agent_check :: check_env
  se_connector_check :: check_env
  se_public :: bool
  se_agents :: "(string \<times> string) list"
  se_connectors :: "string list option"

definition telemetry_scope_for :: "call \<Rightarrow> scope_env \<Rightarrow> authz_db \<Rightarrow> telemetry_scope" where
  "telemetry_scope_for v e db =
     (if \<not> cl_wired v \<or> caller_is_admin (cl_wired v) (se_admin e) db (cl_caller v)
      then \<lparr>sc_unrestricted = True, sc_agents = [], sc_connectors = []\<rparr>
      else \<lparr>sc_unrestricted = False,
            sc_agents = filter_by_access (cl_wired v) (se_agent_check e) db (cl_caller v) (se_public e) ''agent''
              (sort (map fst (se_agents e))),
            sc_connectors = filter_by_access (cl_wired v) (se_connector_check e) db (cl_caller v) (se_public e) ''connector''
              (case se_connectors e of None \<Rightarrow> [] | Some ns \<Rightarrow> sort ns)\<rparr>)"

definition allows_agent :: "telemetry_scope \<Rightarrow> string \<Rightarrow> bool" where
  "allows_agent sc n \<longleftrightarrow> sc_unrestricted sc \<or> n \<in> set (sc_agents sc)"

definition allows_connector :: "telemetry_scope \<Rightarrow> string \<Rightarrow> bool" where
  "allows_connector sc n \<longleftrightarrow> sc_unrestricted sc \<or> n \<in> set (sc_connectors sc)"

definition scope_is_empty :: "telemetry_scope \<Rightarrow> bool" where
  "scope_is_empty sc \<longleftrightarrow> \<not> sc_unrestricted sc \<and> length (sc_agents sc) = 0 \<and> length (sc_connectors sc) = 0"

text \<open>Events that were read without the scope are filtered; without their tasks only connectors count.\<close>

definition filter_events_by_scope :: "bool \<Rightarrow> telemetry_scope \<Rightarrow> qevent list \<Rightarrow> queue \<Rightarrow> qevent list" where
  "filter_events_by_scope ok sc es q =
     (if es = [] \<or> sc_unrestricted sc then es
      else let tasks = (case tasks_for_events (\<lambda>_. ok) (map qe_id es) q of Inl _ \<Rightarrow> [] | Inr ts \<Rightarrow> ts)
        in filter (\<lambda>e. allows_connector sc (qe_connector e) \<or>
             list_ex (\<lambda>t. t_event t = qe_id e \<and> allows_agent sc (t_agent t)) tasks) es)"

section \<open>The stores\<close>

text \<open>The history of invocations is kept in memory or in the database.\<close>

datatype history = InMemory mem_store | InDatabase inv_table

fun history_get :: "bool \<Rightarrow> string \<Rightarrow> history \<Rightarrow> invocation option" where
  "history_get ok i (InMemory m) = mem_get i m"
| "history_get ok i (InDatabase rows) = pg_get ok i rows"

fun history_list :: "pg \<Rightarrow> list_options \<Rightarrow> history \<Rightarrow> invocation list \<times> nat" where
  "history_list pg o1 (InMemory m) = mem_list_with_total o1 m"
| "history_list pg o1 (InDatabase rows) = pg_list_with_total pg o1 rows"

text \<open>The status of every invocation, which the outcome filter of events reads in the database.\<close>

fun history_statuses :: "history option \<Rightarrow> (string \<times> string) list" where
  "history_statuses (Some (InDatabase rows)) = map (\<lambda>r. (iv_id r, iv_status r)) rows"
| "history_statuses _ = []"

record activity_world =
  aw_queue :: "queue option"
  aw_history :: "history option"
  aw_logs :: "log_db option"

section \<open>Activity entries\<close>

record activity_match =
  am_trigger :: string
  am_agent :: string
  am_run :: string
  am_duration :: "int option"
  am_error :: string

record activity_entry =
  ae_id :: string
  ae_received :: "instant option"
  ae_connector :: string
  ae_channel :: string
  ae_status :: string
  ae_matches :: "activity_match list"
  ae_payload :: "json option"

text \<open>Data that is absent, null or an empty object is left out.\<close>

definition activity_payload :: "json option \<Rightarrow> json option" where
  "activity_payload d = (if d = None \<or> d = Some JNull \<or> d = Some (JObj []) then None else d)"

definition activity_match_of :: "(string \<Rightarrow> bool) \<Rightarrow> history option \<Rightarrow> task \<Rightarrow> activity_match" where
  "activity_match_of ok h t =
     (let m = \<lparr>am_trigger = t_trigger t, am_agent = t_agent t, am_run = [], am_duration = None, am_error = []\<rparr>
      in case h of
           None \<Rightarrow> m
         | Some hist \<Rightarrow>
             if t_invocation t = [] then m
             else (case history_get (ok (t_invocation t)) (t_invocation t) hist of
                     None \<Rightarrow> m
                   | Some rec \<Rightarrow> m\<lparr>am_run := iv_status rec, am_duration := iv_duration rec, am_error := iv_error rec\<rparr>))"

definition build_activity_entry :: "(string \<Rightarrow> bool) \<Rightarrow> history option \<Rightarrow> qevent \<Rightarrow> task list \<Rightarrow> activity_entry" where
  "build_activity_entry ok h e ts =
     \<lparr>ae_id = qe_id e, ae_received = qe_received e, ae_connector = qe_connector e, ae_channel = qe_channel e,
      ae_status = (if ts = [] then ''unmatched''
                   else if list_ex (\<lambda>t. t_status t = Some Failed) ts then ''error'' else ''matched''),
      ae_matches = map (activity_match_of ok h) ts, ae_payload = activity_payload (qe_data e)\<rparr>"

definition activity_entries ::
  "bool \<Rightarrow> (string \<Rightarrow> bool) \<Rightarrow> history option \<Rightarrow> qevent list \<Rightarrow> queue \<Rightarrow> string + activity_entry list" where
  "activity_entries tasks_ok ok h es q =
     (if es = [] then Inr []
      else (case tasks_for_events (\<lambda>_. tasks_ok) (map qe_id es) q of
              Inl e \<Rightarrow> Inl e
            | Inr ts \<Rightarrow> Inr (map (\<lambda>e. build_activity_entry ok h e (filter (\<lambda>t. t_event t = qe_id e) ts)) es)))"

section \<open>Events\<close>

definition default_event_limit :: int where "default_event_limit = 100"
definition max_event_limit :: int where "max_event_limit = 500"

definition event_limit :: "string \<Rightarrow> refusal + int" where
  "event_limit raw =
     map_sum id (\<lambda>n. if max_event_limit < n then max_event_limit else n)
       (if raw = [] then Inr default_event_limit
        else (case atoi raw of None \<Rightarrow> Inl (Refused 400 ''invalid limit'')
              | Some n \<Rightarrow> if n < 1 then Inl (Refused 400 ''invalid limit'') else Inr n))"

definition event_offset :: "string \<Rightarrow> refusal + int" where
  "event_offset raw =
     (if raw = [] then Inr 0
      else (case atoi raw of None \<Rightarrow> Inl (Refused 400 ''invalid offset'')
            | Some n \<Rightarrow> if n < 0 then Inl (Refused 400 ''invalid offset'') else Inr n))"

definition valid_activity_statuses :: "string list" where
  "valid_activity_statuses = [''unmatched'', ''matched'', ''error'']"

record event_request =
  rq_limit :: string
  rq_offset :: string
  rq_connector :: string
  rq_agent :: string
  rq_status :: string
  rq_outcome :: string
  rq_since :: string

type_synonym parse_time = "string \<Rightarrow> instant option"

text \<open>The filter a request asks for, or why it is refused; the parameters are checked in this order.\<close>

definition event_filter_of :: "parse_time \<Rightarrow> event_request \<Rightarrow> refusal + event_filter" where
  "event_filter_of parse r =
     (if rq_status r \<noteq> [] \<and> rq_status r \<notin> set valid_activity_statuses
      then Inl (Refused 400 ''invalid status: expected matched, unmatched or error'')
      else if rq_outcome r \<noteq> [] \<and> rq_outcome r \<notin> {status_running, status_success, status_failure, status_timeout}
      then Inl (Refused 400 ''invalid outcome: expected running, success, failure or timeout'')
      else if rq_since r \<noteq> [] \<and> parse (rq_since r) = None
      then Inl (Refused 400 ''invalid since: expected RFC 3339 timestamp'')
      else Inr (no_event_filter\<lparr>ef_connector := rq_connector r, ef_agent := rq_agent r, ef_status := rq_status r,
             ef_outcome := rq_outcome r, ef_since := (if rq_since r = [] then None else parse (rq_since r))\<rparr>))"

text \<open>What the scope leaves of a filter: nothing, or the filter restricted to it.\<close>

definition scoped_filter :: "telemetry_scope \<Rightarrow> event_filter \<Rightarrow> event_filter option" where
  "scoped_filter sc f =
     (if sc_unrestricted sc then Some f
      else if (ef_connector f \<noteq> [] \<and> \<not> allows_connector sc (ef_connector f)) \<or>
              (ef_agent f \<noteq> [] \<and> \<not> allows_agent sc (ef_agent f)) \<or> scope_is_empty sc then None
      else Some (f\<lparr>ef_connectors := sc_connectors sc, ef_agents := sc_agents sc\<rparr>))"

text \<open>The outcomes of the reads of a request: statement by statement, and for every invocation looked up.\<close>

record read_env =
  re_pg :: pg
  re_invocation :: "string \<Rightarrow> bool"

definition event_page ::
  "read_env \<Rightarrow> event_filter \<Rightarrow> int \<Rightarrow> int \<Rightarrow> history option \<Rightarrow> queue \<Rightarrow> refusal + activity_entry list \<times> nat" where
  "event_page x f limit offset h q =
     (case query_events (\<lambda>_. re_pg x 0) (history_statuses h) f limit offset q of
        Inl _ \<Rightarrow> Inl (Refused 500 ''failed to list events'')
      | Inr es \<Rightarrow>
          (case count_events (\<lambda>_. re_pg x 1) (history_statuses h) f q of
             Inl _ \<Rightarrow> Inl (Refused 500 ''failed to count events'')
           | Inr n_all \<Rightarrow>
               (case activity_entries (re_pg x 2) (re_invocation x) h es q of
                  Inl _ \<Rightarrow> Inl (Refused 500 ''failed to list event tasks'')
                | Inr entries \<Rightarrow> Inr (entries, n_all))))"

definition list_events ::
  "call \<Rightarrow> scope_env \<Rightarrow> read_env \<Rightarrow> parse_time \<Rightarrow> event_request \<Rightarrow> activity_world api \<Rightarrow> refusal + activity_entry list \<times> nat" where
  "list_events v e x parse r s =
     (case aw_queue (ap_data s) of
        None \<Rightarrow> Inl (Refused 503 ''event queue not configured'')
      | Some q \<Rightarrow>
          (case event_limit (rq_limit r) of Inl d \<Rightarrow> Inl d | Inr limit \<Rightarrow>
          (case event_offset (rq_offset r) of Inl d \<Rightarrow> Inl d | Inr offset \<Rightarrow>
          (case event_filter_of parse r of Inl d \<Rightarrow> Inl d | Inr f \<Rightarrow>
          (case scoped_filter (telemetry_scope_for v e (ap_authz s)) f of
             None \<Rightarrow> Inr ([], 0)
           | Some f \<Rightarrow> event_page x f limit offset (aw_history (ap_data s)) q)))))"

definition get_event_entry ::
  "call \<Rightarrow> scope_env \<Rightarrow> read_env \<Rightarrow> string \<Rightarrow> activity_world api \<Rightarrow> refusal + activity_entry" where
  "get_event_entry v e x i s =
     (if i = [] then Inl (Refused 400 ''missing event id'')
      else (case aw_queue (ap_data s) of
        None \<Rightarrow> Inl (Refused 503 ''event queue not configured'')
      | Some q \<Rightarrow>
          (case get_event (\<lambda>_. re_pg x 0) i q of
             Inl _ \<Rightarrow> Inl (Refused 500 ''failed to get event'')
           | Inr None \<Rightarrow> Inl (Refused 404 ''event not found'')
           | Inr (Some ev) \<Rightarrow>
               (case tasks_for_events (\<lambda>_. re_pg x 1) [i] q of
                  Inl _ \<Rightarrow> Inl (Refused 500 ''failed to get event tasks'')
                | Inr ts \<Rightarrow>
                    let sc = telemetry_scope_for v e (ap_authz s)
                    in if sc_unrestricted sc \<or> allows_connector sc (qe_connector ev) \<or> list_ex (\<lambda>t. allows_agent sc (t_agent t)) ts
                       then Inr (build_activity_entry (re_invocation x) (aw_history (ap_data s)) ev ts)
                       else Inl (Refused 404 ''event not found'')))))"

section \<open>Invocations\<close>

record task_state =
  ts_status :: "task_status option"
  ts_attempts :: nat
  ts_error :: string

definition task_state_of :: "task \<Rightarrow> task_state" where
  "task_state_of t = \<lparr>ts_status = t_status t, ts_attempts = t_attempts t, ts_error = t_error t\<rparr>"

definition invocation_status_of :: "task \<Rightarrow> string" where
  "invocation_status_of t =
     (if t_status t = Some Completed then status_success
      else if t_status t = Some Failed then status_failure else status_running)"

text \<open>The invocation a task stands for when the history has none.\<close>

definition synthetic_invocation :: "task \<Rightarrow> invocation" where
  "synthetic_invocation t =
     \<lparr>iv_id = t_invocation t, iv_agent = t_agent t, iv_trigger = t_trigger t, iv_event = t_event t, iv_connector = [],
      iv_start = t_created t, iv_end = t_completed t,
      iv_duration = (case (t_completed t, t_created t) of (Some e, Some b) \<Rightarrow> Some (trunc_ms (e - b)) | _ \<Rightarrow> None),
      iv_status = invocation_status_of t, iv_error = (if t_status t = Some Failed then t_error t else [])\<rparr>"

text \<open>Tasks, the newest first, whose invocation is neither listed nor added before.\<close>

fun missing_invocations :: "telemetry_scope \<Rightarrow> string list \<Rightarrow> task list \<Rightarrow> (invocation \<times> task_state option) list" where
  "missing_invocations sc known [] = []"
| "missing_invocations sc known (t # ts) =
     (if t_invocation t = [] \<or> t_invocation t \<in> set known \<or> \<not> allows_agent sc (t_agent t)
      then missing_invocations sc known ts
      else (synthetic_invocation t, Some (task_state_of t)) # missing_invocations sc (t_invocation t # known) ts)"

definition enrich_with_tasks ::
  "bool \<Rightarrow> telemetry_scope \<Rightarrow> invocation list \<Rightarrow> nat \<Rightarrow> string \<Rightarrow> queue \<Rightarrow> (invocation \<times> task_state option) list \<times> nat" where
  "enrich_with_tasks ok sc list n_all event q =
     (case tasks_for_events (\<lambda>_. ok) [event] q of
        Inl _ \<Rightarrow> (map (\<lambda>i. (i, None)) list, n_all)
      | Inr ts \<Rightarrow>
          let by = map_of (rev (map (\<lambda>t. (t_invocation t, t)) (filter (\<lambda>t. t_invocation t \<noteq> []) ts)));
              out = map (\<lambda>i. (i, map_option task_state_of (by (iv_id i)))) list @
                    missing_invocations sc (map iv_id list) (rev ts)
          in (out, length out))"

record invocation_request =
  nq_page :: string
  nq_size :: string
  nq_agent :: string
  nq_status :: string
  nq_trigger :: string
  nq_event :: string
  nq_since :: string
  nq_until :: string
  nq_limit :: string

text \<open>A time or a limit that does not parse is ignored.\<close>

definition invocation_options :: "parse_time \<Rightarrow> invocation_request \<Rightarrow> string list \<Rightarrow> list_options" where
  "invocation_options parse r agents =
     \<lparr>lo_agent = nq_agent r, lo_agents = agents, lo_status = nq_status r, lo_trigger = nq_trigger r, lo_event = nq_event r,
      lo_since = (if nq_since r = [] then None else parse (nq_since r)),
      lo_until = (if nq_until r = [] then None else parse (nq_until r)),
      lo_limit = (if nq_limit r = [] then 0 else case atoi (nq_limit r) of None \<Rightarrow> 0 | Some n \<Rightarrow> if 0 < n then n else 0)\<rparr>"

definition invocation_page ::
  "read_env \<Rightarrow> telemetry_scope \<Rightarrow> page_params \<Rightarrow> list_options \<Rightarrow> history \<Rightarrow> queue option \<Rightarrow>
   (invocation \<times> task_state option) list \<times> nat" where
  "invocation_page x sc p o1 h q =
     (case history_list (re_pg x) o1 h of (list, n_all) \<Rightarrow>
        (case (if lo_event o1 = [] then None else q) of
           None \<Rightarrow> (page_items p (map (\<lambda>i. (i, None)) list), n_all)
         | Some q \<Rightarrow>
             (case enrich_with_tasks (re_pg x 2) sc list n_all (lo_event o1) q of
                (out, n) \<Rightarrow> (page_items p out, n))))"

definition list_invocations ::
  "call \<Rightarrow> scope_env \<Rightarrow> read_env \<Rightarrow> parse_time \<Rightarrow> invocation_request \<Rightarrow> activity_world api \<Rightarrow>
   ((invocation \<times> task_state option) list \<times> nat, activity_world) reply" where
  "list_invocations v e x parse r s =
     (case aw_history (ap_data s) of
        None \<Rightarrow> (Inl (Refused 503 ''invocation history not configured''), s)
      | Some h \<Rightarrow>
          (case parse_page_params (nq_page r) (nq_size r) of
             Inl m \<Rightarrow> (Inl (Refused 400 m), s)
           | Inr p \<Rightarrow>
               let sc = telemetry_scope_for v e (ap_authz s);
                   answer = (\<lambda>agents s. (Inr (invocation_page x sc p (invocation_options parse r agents) h (aw_queue (ap_data s))), s))
               in if nq_agent r \<noteq> [] then guard_read v ''agent'' (nq_agent r) (answer []) s
                  else if sc_unrestricted sc then answer [] s
                  else if sc_agents sc = [] then (Inr ([], 0), s)
                  else answer (sc_agents sc) s))"

definition get_invocation ::
  "call \<Rightarrow> scope_env \<Rightarrow> read_env \<Rightarrow> string \<Rightarrow> activity_world api \<Rightarrow> (invocation, activity_world) reply" where
  "get_invocation v e x i s =
     (if i = [] then (Inl (Refused 400 ''missing invocation id''), s)
      else (case aw_history (ap_data s) of
        None \<Rightarrow> (Inl (Refused 503 ''invocation history not configured''), s)
      | Some h \<Rightarrow>
          (case history_get (re_pg x 0) i h of
             None \<Rightarrow> (Inl (Refused 404 ''invocation not found''), s)
           | Some rec \<Rightarrow>
               if iv_agent rec = []
               then (if sc_unrestricted (telemetry_scope_for v e (ap_authz s)) then (Inr rec, s) else (Inl (Refused 403 ''forbidden''), s))
               else guard_read v ''agent'' (iv_agent rec) (\<lambda>s. (Inr rec, s)) s)))"

section \<open>Logs, errors and conversations\<close>

text \<open>The rule the three share: a named agent is checked, and a list without one is restricted to the scope.\<close>

definition scoped_records ::
  "call \<Rightarrow> scope_env \<Rightarrow> string \<Rightarrow> (string list \<Rightarrow> refusal + 'r list) \<Rightarrow> 'd api \<Rightarrow> ('r list, 'd) reply" where
  "scoped_records v e agent read s =
     (if agent \<noteq> [] then guard_read v ''agent'' agent (\<lambda>s. (read [], s)) s
      else let sc = telemetry_scope_for v e (ap_authz s)
           in if sc_unrestricted sc then (read [], s)
              else if sc_agents sc = [] then (Inr [], s)
              else (read (sc_agents sc), s))"

definition no_log_store :: refusal where
  "no_log_store = Refused 503 (''hub database not configured: these panels read the hub'' @ [CHR 0x27] @ ''s own task log table'')"

record log_request =
  gq_limit :: string
  gq_since :: string
  gq_range :: string
  gq_agent :: string

definition read_logs :: "bool \<Rightarrow> string \<Rightarrow> log_options \<Rightarrow> log_db \<Rightarrow> string list \<Rightarrow> refusal + log_entry list" where
  "read_logs ok msg o1 db agents =
     map_sum (\<lambda>_. Refused 502 msg) id (list_logs (\<lambda>_. ok) (o1\<lparr>lo_names := agents\<rparr>) db)"

definition list_errors ::
  "call \<Rightarrow> scope_env \<Rightarrow> read_env \<Rightarrow> parse_time \<Rightarrow> log_request \<Rightarrow> activity_world api \<Rightarrow> (log_entry list, activity_world) reply" where
  "list_errors v e x parse r s =
     (case aw_logs (ap_data s) of
        None \<Rightarrow> (Inl no_log_store, s)
      | Some db \<Rightarrow>
          let limit = (if gq_limit r = [] then 50 else case atoi (gq_limit r) of None \<Rightarrow> 50 | Some n \<Rightarrow> if 0 < n then n else 50);
              start = (if gq_since r = [] then cl_now v - 24 * hour
                       else case parse (gq_since r) of None \<Rightarrow> cl_now v - 24 * hour | Some t \<Rightarrow> t);
              o1 = \<lparr>lo_name = gq_agent r, lo_names = [], lo_level = level_error, lo_since = Some start, lo_until = None, lo_limit = limit\<rparr>
          in scoped_records v e (gq_agent r) (read_logs (re_pg x 0) ''failed to query errors: '' o1 db) s)"

definition logs_default_limit :: int where "logs_default_limit = 500"
definition logs_max_limit :: int where "logs_max_limit = 1000"

definition parse_logs_limit :: "string \<Rightarrow> string + int" where
  "parse_logs_limit raw =
     (if raw = [] then Inr logs_default_limit
      else (case atoi raw of
              None \<Rightarrow> Inl (''invalid limit '' @ quoted raw @ '': must be a positive integer'')
            | Some n \<Rightarrow> if n \<le> 0 then Inl (''invalid limit '' @ quoted raw @ '': must be a positive integer'')
                else Inr (if logs_max_limit < n then logs_max_limit else n)))"

definition logs_supported_ranges :: "(string \<times> duration) list" where
  "logs_supported_ranges = [(''1h'', hour), (''6h'', 6 * hour), (''24h'', 24 * hour)]"

definition parse_logs_range :: "string \<Rightarrow> string + duration" where
  "parse_logs_range raw =
     (if raw = [] then Inr hour
      else (case map_of logs_supported_ranges raw of
              None \<Rightarrow> Inl (''invalid range '' @ quoted raw @ '': must be one of 1h, 6h, 24h'') | Some d \<Rightarrow> Inr d))"

type_synonym parse_duration = "string \<Rightarrow> duration option"

definition parse_logs_duration :: "parse_duration \<Rightarrow> string \<Rightarrow> string \<Rightarrow> string + duration" where
  "parse_logs_duration parse since token =
     (if since \<noteq> []
      then (case parse since of
              None \<Rightarrow> Inl (''invalid since '' @ quoted since @ '': must be a positive Go duration (e.g. 30m, 2h)'')
            | Some d \<Rightarrow> if d \<le> 0 then Inl (''invalid since '' @ quoted since @ '': must be a positive Go duration (e.g. 30m, 2h)'')
                else Inr d)
      else parse_logs_range token)"

record log_line =
  ll_entry :: log_entry
  ll_agent_name :: string

definition list_log_lines ::
  "call \<Rightarrow> scope_env \<Rightarrow> read_env \<Rightarrow> parse_duration \<Rightarrow> log_request \<Rightarrow> activity_world api \<Rightarrow> (log_line list, activity_world) reply" where
  "list_log_lines v e x parse r s =
     (case parse_logs_limit (gq_limit r) of
        Inl m \<Rightarrow> (Inl (Refused 400 m), s)
      | Inr limit \<Rightarrow>
          (case parse_logs_duration parse (gq_since r) (gq_range r) of
             Inl m \<Rightarrow> (Inl (Refused 400 m), s)
           | Inr d \<Rightarrow>
               (case aw_logs (ap_data s) of
                  None \<Rightarrow> (Inl no_log_store, s)
                | Some db \<Rightarrow>
                    let o1 = \<lparr>lo_name = gq_agent r, lo_names = [], lo_level = [], lo_since = Some (cl_now v - d), lo_until = None,
                              lo_limit = limit\<rparr>
                    in map_reply (map (\<lambda>l. \<lparr>ll_entry = l,
                           ll_agent_name = (case map_of (se_agents e) (lg_agent l) of None \<Rightarrow> [] | Some n \<Rightarrow> n)\<rparr>))
                         (scoped_records v e (gq_agent r) (read_logs (re_pg x 0) ''failed to query logs: '' o1 db) s))))"

record conversation_request =
  vq_agent :: string
  vq_invocation :: string
  vq_correlation :: string
  vq_limit :: string

definition list_messages ::
  "call \<Rightarrow> scope_env \<Rightarrow> read_env \<Rightarrow> conversation_request \<Rightarrow> activity_world api \<Rightarrow>
   (conversation_message list, activity_world) reply" where
  "list_messages v e x r s =
     (case aw_logs (ap_data s) of
        None \<Rightarrow> (Inl no_log_store, s)
      | Some db \<Rightarrow>
          let limit = (if vq_limit r = [] then 100
                       else case atoi (vq_limit r) of None \<Rightarrow> 100
                       | Some n \<Rightarrow> if 0 < n then (if 500 < n then 500 else n) else 100)
          in scoped_records v e (vq_agent r)
               (\<lambda>agents. map_sum (\<lambda>_. Refused 502 ''failed to query conversations: '') id
                  (list_conversations (\<lambda>_. re_pg x 0)
                    \<lparr>co_name = vq_agent r, co_names = agents, co_invocation = vq_invocation r, co_correlation = vq_correlation r,
                     co_limit = limit\<rparr> db)) s)"

section \<open>The endpoints\<close>

datatype activity_call =
    ListEvents event_request
  | GetEventEntry string
  | ListInvocations invocation_request
  | GetInvocation string
  | ListErrors log_request
  | ListLogLines log_request
  | ListMessages conversation_request

datatype activity_reply =
    EventPage "activity_entry list" nat
  | OneEvent activity_entry
  | InvocationPage "(invocation \<times> task_state option) list" nat
  | OneInvocation invocation
  | ErrorList "log_entry list"
  | LogLines "log_line list"
  | Messages "conversation_message list"

fun handle_activity ::
  "scope_env \<Rightarrow> read_env \<Rightarrow> parse_time \<Rightarrow> parse_duration \<Rightarrow> call \<Rightarrow> activity_call \<Rightarrow> activity_world api \<Rightarrow>
   (activity_reply, activity_world) reply" where
  "handle_activity e x pt pd v (ListEvents r) s = (map_sum id (\<lambda>(es, n). EventPage es n) (list_events v e x pt r s), s)"
| "handle_activity e x pt pd v (GetEventEntry i) s = (map_sum id OneEvent (get_event_entry v e x i s), s)"
| "handle_activity e x pt pd v (ListInvocations r) s = map_reply (\<lambda>(is, n). InvocationPage is n) (list_invocations v e x pt r s)"
| "handle_activity e x pt pd v (GetInvocation i) s = map_reply OneInvocation (get_invocation v e x i s)"
| "handle_activity e x pt pd v (ListErrors r) s = map_reply ErrorList (list_errors v e x pt r s)"
| "handle_activity e x pt pd v (ListLogLines r) s = map_reply LogLines (list_log_lines v e x pd r s)"
| "handle_activity e x pt pd v (ListMessages r) s = map_reply Messages (list_messages v e x r s)"

end
