(* ===== verification/GuardedWalk.thy ===== *)
theory GuardedWalk
  imports Prelude
begin

text \<open>
  Recursive queries (\<open>WITH RECURSIVE \<dots> UNION ALL\<close>) that follow the edges of a graph and do
  not enter a node twice on one path. The contract of such a step is a locale; the
  channel queries interpret it.
\<close>

text \<open>The working table of the query, round after round: \<open>n\<close> rounds after the first.\<close>

fun recursive_rows :: "nat \<Rightarrow> ('w \<Rightarrow> 'w list) \<Rightarrow> 'w list \<Rightarrow> 'w list" where
  "recursive_rows 0 step ws = ws"
| "recursive_rows (Suc n) step ws = ws @ recursive_rows n step (concat (map step ws))"

fun level :: "('w \<Rightarrow> 'w list) \<Rightarrow> nat \<Rightarrow> 'w list \<Rightarrow> 'w list" where
  "level step 0 ws = ws"
| "level step (Suc n) ws = concat (map step (level step n ws))"

lemma recursive_rows_Nil [simp]: "recursive_rows n step [] = []"
  by (induction n) simp_all

lemma level_shift: "level step n (concat (map step ws)) = level step (Suc n) ws"
  by (induction n) simp_all

lemma set_recursive_rows: "set (recursive_rows n step ws) = (\<Union>k \<le> n. set (level step k ws))"
proof (induction n arbitrary: ws)
  case (Suc n)
  have "(\<Union>k \<le> Suc n. set (level step k ws)) = set ws \<union> (\<Union>k \<le> n. set (level step (Suc k) ws))"
    by (auto simp: atMost_Suc_eq_insert_0 simp del: level.simps(2))
  then show ?case by (simp add: Suc level_shift del: level.simps(2))
qed simp

lemma level_Nil_mono: "level step n ws = [] \<Longrightarrow> n \<le> m \<Longrightarrow> level step m ws = []"
  by (induction m) (auto simp: le_Suc_eq)

lemma recursive_rows_exhausted:
  "level step (Suc n) ws = [] \<Longrightarrow> n \<le> m \<Longrightarrow> recursive_rows m step ws = recursive_rows n step ws"
proof (induction n arbitrary: m ws)
  case 0
  then have e: "concat (map step ws) = []" by simp
  show ?case by (cases m) (simp_all only: recursive_rows.simps e recursive_rows_Nil append_Nil2)
next
  case (Suc n)
  then obtain m' where m: "m = Suc m'" "n \<le> m'" by (cases m) auto
  have "level step (Suc n) (concat (map step ws)) = []"
    using Suc.prems(1) by (simp only: level_shift)
  then show ?case using Suc.IH [OF _ m(2)] by (simp add: m(1))
qed

locale guarded_walk =
  fixes step :: "'w \<Rightarrow> 'w list"
    and node :: "'w \<Rightarrow> 'n"
    and trail :: "'w \<Rightarrow> 'n list"
    and edges :: "('n \<times> 'n) set"
  assumes step_sound: "w' \<in> set (step w) \<Longrightarrow>
      (node w, node w') \<in> edges \<and> node w' \<notin> set (trail w) \<and> trail w' = trail w @ [node w']"
    and step_complete: "(node w, n) \<in> edges \<Longrightarrow> n \<notin> set (trail w) \<Longrightarrow> \<exists>w' \<in> set (step w). node w' = n"
begin

lemma level_sound:
  assumes "w \<in> set (level step n [w0])" "trail w0 = [node w0]"
  shows "(node w0, node w) \<in> edges ^^ n \<and> length (trail w) = Suc n \<and> distinct (trail w) \<and>
    set (trail w) \<subseteq> insert (node w0) (snd ` edges) \<and>
    (\<forall>y \<in> set (trail w). \<exists>k \<le> n. (node w0, y) \<in> edges ^^ k)"
  using assms(1)
proof (induction n arbitrary: w)
  case 0
  then show ?case using assms(2) by auto
next
  case (Suc n)
  then obtain v where v: "v \<in> set (level step n [w0])" "w \<in> set (step v)" by auto
  note IH = Suc.IH [OF v(1)] and st = step_sound [OF v(2)]
  have far: "(node w0, node w) \<in> edges ^^ Suc n" using IH st by auto
  have "\<exists>k \<le> Suc n. (node w0, y) \<in> edges ^^ k" if "y \<in> set (trail w)" for y
    using IH st that far by (metis Un_iff empty_iff insert_iff le_Suc_eq list.set set_append)
  moreover have "node w \<in> snd ` edges" using st by (metis image_eqI snd_conv)
  ultimately show ?case using IH st far by auto
qed

lemma level_complete:
  assumes "trail w0 = [node w0]" "(node w0, x) \<in> edges ^^ n" "\<And>k. k < n \<Longrightarrow> (node w0, x) \<notin> edges ^^ k"
  shows "\<exists>w \<in> set (level step n [w0]). node w = x"
  using assms(2,3)
proof (induction n arbitrary: x)
  case 0
  then show ?case by simp
next
  case (Suc n)
  from Suc.prems(1) obtain y where y: "(node w0, y) \<in> edges ^^ n" "(y, x) \<in> edges" by auto
  have "(node w0, y) \<notin> edges ^^ k" if "k < n" for k
    using Suc.prems(2) [of "Suc k"] that y(2) by (meson Suc_mono relpow_Suc_I)
  then obtain v where v: "v \<in> set (level step n [w0])" "node v = y" using Suc.IH [OF y(1)] by auto
  have "x \<notin> set (trail v)"
    using level_sound [OF v(1) assms(1)] Suc.prems(2) by (meson le_imp_less_Suc)
  then obtain w where "w \<in> set (step v)" "node w = x" using step_complete y(2) v(2) by blast
  with v(1) show ?case by auto
qed

text \<open>Within \<open>n\<close> rounds the walk enters exactly the nodes at most \<open>n\<close> edges away.\<close>

lemma rows_iff_relpow:
  assumes "trail w0 = [node w0]"
  shows "(\<exists>w \<in> set (recursive_rows n step [w0]). node w = x) \<longleftrightarrow> (\<exists>k \<le> n. (node w0, x) \<in> edges ^^ k)"
proof
  assume "\<exists>w \<in> set (recursive_rows n step [w0]). node w = x"
  then show "\<exists>k \<le> n. (node w0, x) \<in> edges ^^ k"
    using level_sound [OF _ assms] by (fastforce simp: set_recursive_rows)
next
  assume "\<exists>k \<le> n. (node w0, x) \<in> edges ^^ k"
  then obtain k where k: "k \<le> n" "(node w0, x) \<in> edges ^^ k" by blast
  let ?m = "LEAST m. (node w0, x) \<in> edges ^^ m"
  have "(node w0, x) \<in> edges ^^ ?m" "?m \<le> k" using k(2) by (rule LeastI, rule Least_le)
  moreover have "(node w0, x) \<notin> edges ^^ j" if "j < ?m" for j using that not_less_Least by blast
  ultimately obtain w where "w \<in> set (level step ?m [w0])" "node w = x"
    using level_complete [OF assms] by blast
  then show "\<exists>w \<in> set (recursive_rows n step [w0]). node w = x"
    using \<open>?m \<le> k\<close> k(1) by (auto simp: set_recursive_rows)
qed

lemma level_bound:
  assumes "trail w0 = [node w0]" "finite edges" "card edges < n"
  shows "level step n [w0] = []"
proof (rule ccontr)
  assume "level step n [w0] \<noteq> []"
  then obtain w where "w \<in> set (level step n [w0])" by (meson last_in_set)
  note s = level_sound [OF this assms(1)]
  have "Suc n = card (set (trail w))" using s by (metis distinct_card)
  also have "\<dots> \<le> card (insert (node w0) (snd ` edges))" using s assms(2) by (intro card_mono) auto
  also have "\<dots> \<le> Suc (card edges)"
    using card_insert_le_m1 assms(2) by (metis card_image_le card_insert_if finite_imageI le_SucI not_less_eq_eq)
  finally show False using assms(3) by simp
qed

text \<open>The query ends by itself, and then its rows are the reachable nodes.\<close>

lemma rows_iff_rtrancl:
  assumes "trail w0 = [node w0]" "finite edges" "card edges \<le> n"
  shows "(\<exists>w \<in> set (recursive_rows n step [w0]). node w = x) \<longleftrightarrow> (node w0, x) \<in> edges\<^sup>*"
proof -
  have "\<exists>k \<le> n. (node w0, x) \<in> edges ^^ k" if star: "(node w0, x) \<in> edges\<^sup>*"
  proof -
    let ?m = "LEAST m. (node w0, x) \<in> edges ^^ m"
    obtain m where "(node w0, x) \<in> edges ^^ m" using star rtrancl_imp_relpow by blast
    then have m: "(node w0, x) \<in> edges ^^ ?m" by (rule LeastI)
    moreover have "(node w0, x) \<notin> edges ^^ j" if "j < ?m" for j using that not_less_Least by blast
    ultimately obtain w where "w \<in> set (level step ?m [w0])"
      using level_complete [OF assms(1)] by blast
    then have "\<not> card edges < ?m" using level_bound [OF assms(1,2)] by force
    then show ?thesis using m assms(3) by (meson le_trans not_less)
  qed
  then show ?thesis
    using rows_iff_relpow [OF assms(1), of n x] by (meson relpow_imp_rtrancl)
qed

lemma rows_stable:
  assumes "trail w0 = [node w0]" "finite edges" "card edges \<le> n" "n \<le> m"
  shows "recursive_rows m step [w0] = recursive_rows n step [w0]"
  using level_bound [OF assms(1,2)] assms(3,4) by (intro recursive_rows_exhausted) (auto simp del: level.simps)

end

end
