(* ===== verification/Channels.thy ===== *)
theory Channels
  imports GuardedWalk "HOL-Library.Product_Lexorder"
begin

text \<open>
  The channel registry of \<^verbatim>\<open>services/hub/internal/channels\<close> (\<^verbatim>\<open>types.go\<close>, \<^verbatim>\<open>store.go\<close>): channels and
  bridges as rows, one function per store operation, and the recursive queries that follow
  bridges.
\<close>

section \<open>Kinds, rows, errors\<close>

type_synonym kind = string

definition kind_connector :: kind where "kind_connector = ''connector''"
definition kind_agent :: kind where "kind_agent = ''agent''"
definition kind_custom :: kind where "kind_custom = ''custom''"

lemmas kind_defs = kind_connector_def kind_agent_def kind_custom_def

definition kind_valid :: "kind \<Rightarrow> bool" where
  "kind_valid k \<longleftrightarrow> k = kind_connector \<or> k = kind_agent \<or> k = kind_custom"

record channel =
  ch_id :: string
  ch_kind :: kind
  ch_name :: string
  ch_description :: string
  ch_entity :: string
  ch_orphaned :: bool
  ch_created :: instant
  ch_updated :: instant

text \<open>A row of \<open>channels\<close>: \<open>entity_ref\<close> is nullable.\<close>

record channel_row =
  cr_id :: string
  cr_kind :: kind
  cr_name :: string
  cr_description :: string
  cr_entity :: "string option"
  cr_orphaned :: bool
  cr_created :: instant
  cr_updated :: instant

record bridge =
  br_id :: string
  br_name :: string
  br_from :: string
  br_to :: string
  br_created :: instant
  br_updated :: instant

record delivery =
  dl_channel :: string
  dl_agent :: string
  dl_bridge :: string
  dl_bridge_name :: string

record chan_db =
  cdb_channels :: "channel_row list"
  cdb_bridges :: "bridge list"

datatype chan_error =
    ChNotFound | InUse | NotCustom | BridgeExists | Cycle | SelfEdge | NoCustomEndpoint
  | ChInvalid string | ChStatement string

type_synonym 'a chan_result = "(chan_error + 'a) \<times> chan_db"

definition direct_source_labels :: "string list" where
  "direct_source_labels = [''cron'', ''chat'']"

definition default_description :: "kind \<Rightarrow> string \<Rightarrow> string" where
  "default_description k label =
     (if k = kind_connector then ''Where '' @ label @ '' events arrive''
      else if k = kind_agent then ''The inbox agent '' @ label @ '' drains''
      else if k = kind_custom then ''Grouping channel for '' @ label
      else [])"

definition max_walk_depth :: nat where "max_walk_depth = 8"

section \<open>Channels\<close>

definition scan_channel :: "channel_row \<Rightarrow> channel" where
  "scan_channel r =
     \<lparr>ch_id = cr_id r, ch_kind = cr_kind r, ch_name = cr_name r, ch_description = cr_description r,
      ch_entity = (case cr_entity r of None \<Rightarrow> [] | Some e \<Rightarrow> e), ch_orphaned = cr_orphaned r,
      ch_created = cr_created r, ch_updated = cr_updated r\<rparr>"

text \<open>\<open>COALESCE(NULLIF(a, ''), b)\<close>.\<close>

definition or_default :: "string \<Rightarrow> string \<Rightarrow> string" where
  "or_default a b = (if a \<noteq> [] then a else b)"

definition owns_entity :: "kind \<Rightarrow> string \<Rightarrow> channel_row \<Rightarrow> bool" where
  "owns_entity k ref r \<longleftrightarrow> cr_kind r = k \<and> cr_entity r = Some ref"

text \<open>The row the INSERT of \<^verbatim>\<open>Ensure\<close> proposes (\<open>EXCLUDED\<close>), and its ON CONFLICT update.\<close>

definition proposed_row :: "string \<Rightarrow> instant \<Rightarrow> kind \<Rightarrow> string \<Rightarrow> string \<Rightarrow> string \<Rightarrow> channel_row" where
  "proposed_row i now k ref name description =
     \<lparr>cr_id = i, cr_kind = k, cr_name = or_default name ref,
      cr_description = or_default description (default_description k ref), cr_entity = Some ref,
      cr_orphaned = False, cr_created = now, cr_updated = now\<rparr>"

definition refresh_row :: "instant \<Rightarrow> channel_row \<Rightarrow> channel_row \<Rightarrow> channel_row" where
  "refresh_row now excluded r =
     r\<lparr>cr_name := or_default (cr_name excluded) (cr_name r),
       cr_description := or_default (cr_description excluded) (cr_description r),
       cr_orphaned := False, cr_updated := now\<rparr>"

text \<open>\<open>i\<close> is the id \<^verbatim>\<open>newID\<close> draws; an id that is taken violates the primary key.\<close>

definition ensure ::
  "pg \<Rightarrow> string \<Rightarrow> instant \<Rightarrow> kind \<Rightarrow> string \<Rightarrow> string \<Rightarrow> string \<Rightarrow> chan_db \<Rightarrow> channel chan_result" where
  "ensure pg i now k ref name description db =
     (if \<not> kind_valid k then (Inl (ChInvalid ''unknown kind''), db)
      else if ref = [] then (Inl (ChInvalid ''entity_ref is required''), db)
      else if k = kind_custom then (Inl (ChInvalid ''custom channels are created with Create''), db)
      else if \<not> pg 0 then (Inl (ChStatement ''channels.Ensure''), db)
      else let ex = proposed_row i now k ref name description in
        (case List.find (owns_entity k ref) (cdb_channels db) of
           Some r \<Rightarrow>
             (Inr (scan_channel (refresh_row now ex r)),
              db\<lparr>cdb_channels := update_where (owns_entity k ref) (refresh_row now ex) (cdb_channels db)\<rparr>)
         | None \<Rightarrow>
             if has_row cr_id i (cdb_channels db) then (Inl (ChStatement ''channels.Ensure''), db)
             else (Inr (scan_channel ex), db\<lparr>cdb_channels := cdb_channels db @ [ex]\<rparr>)))"

definition create_channel :: "pg \<Rightarrow> string \<Rightarrow> instant \<Rightarrow> string \<Rightarrow> string \<Rightarrow> chan_db \<Rightarrow> channel chan_result" where
  "create_channel pg i now name description db =
     (let r = \<lparr>cr_id = i, cr_kind = kind_custom, cr_name = name,
               cr_description = (if description = [] then default_description kind_custom name else description),
               cr_entity = None, cr_orphaned = False, cr_created = now, cr_updated = now\<rparr>
      in if \<not> pg 0 \<or> has_row cr_id i (cdb_channels db) then (Inl (ChStatement ''channels.Create''), db)
         else (Inr (scan_channel r), db\<lparr>cdb_channels := cdb_channels db @ [r]\<rparr>))"

definition get_channel :: "bool \<Rightarrow> string \<Rightarrow> chan_db \<Rightarrow> chan_error + channel" where
  "get_channel ok i db =
     (if \<not> ok then Inl (ChStatement ''channels.Get'')
      else (case lookup_row cr_id i (cdb_channels db) of
              None \<Rightarrow> Inl ChNotFound | Some r \<Rightarrow> Inr (scan_channel r)))"

definition get_by_entity :: "pg \<Rightarrow> kind \<Rightarrow> string \<Rightarrow> chan_db \<Rightarrow> chan_error + channel" where
  "get_by_entity pg k ref db =
     (if \<not> pg 0 then Inl (ChStatement ''channels.GetByEntity'')
      else (case List.find (owns_entity k ref) (cdb_channels db) of
              None \<Rightarrow> Inl ChNotFound | Some r \<Rightarrow> Inr (scan_channel r)))"

definition list_channels :: "bool \<Rightarrow> kind \<Rightarrow> chan_db \<Rightarrow> chan_error + channel list" where
  "list_channels ok k db =
     (if \<not> ok then Inl (ChStatement ''channels.List'')
      else Inr (map scan_channel (sort_key (\<lambda>r. (cr_kind r, cr_name r, cr_id r))
             (filter (\<lambda>r. k \<noteq> [] \<longrightarrow> cr_kind r = k) (cdb_channels db)))))"

text \<open>Statement 0 is the guarded UPDATE, statement 1 the read that follows it either way.\<close>

definition update_channel ::
  "pg \<Rightarrow> instant \<Rightarrow> string \<Rightarrow> string option \<Rightarrow> string option \<Rightarrow> chan_db \<Rightarrow> channel chan_result" where
  "update_channel pg now i name description db =
     (if \<not> pg 0 then (Inl (ChStatement ''channels.Update''), db)
      else let hit = (\<lambda>r. cr_id r = i \<and> cr_kind r = kind_custom) in
        if \<not> list_ex hit (cdb_channels db) then
          (case get_channel (pg 1) i db of
             Inl ChNotFound \<Rightarrow> (Inl ChNotFound, db) | _ \<Rightarrow> (Inl NotCustom, db))
        else let db' = db\<lparr>cdb_channels := update_where hit
               (\<lambda>r. r\<lparr>cr_name := (case name of None \<Rightarrow> cr_name r | Some n \<Rightarrow> n),
                      cr_description := (case description of None \<Rightarrow> cr_description r | Some d \<Rightarrow> d),
                      cr_updated := now\<rparr>) (cdb_channels db)\<rparr>
             in (get_channel (pg 1) i db', db'))"

definition touches :: "string \<Rightarrow> bridge \<Rightarrow> bool" where
  "touches i b \<longleftrightarrow> br_from b = i \<or> br_to b = i"

text \<open>One transaction: statements 0 and 5 begin and commit it. Bridges cascade with their channel.\<close>

definition delete_channel :: "pg \<Rightarrow> string \<Rightarrow> chan_db \<Rightarrow> unit chan_result" where
  "delete_channel pg i db =
     (if \<not> pg 0 then (Inl (ChStatement ''channels.Delete: begin''), db)
      else if \<not> pg 1 then (Inl (ChStatement ''channels.Delete''), db)
      else (case lookup_row cr_id i (cdb_channels db) of
              None \<Rightarrow> (Inl ChNotFound, db)
            | Some r \<Rightarrow>
                if cr_kind r \<noteq> kind_custom then (Inl NotCustom, db)
                else if \<not> pg 2 then (Inl (ChStatement ''channels.Delete: count bridges''), db)
                else if list_ex (touches i) (cdb_bridges db) then (Inl InUse, db)
                else if \<not> pg 3 then (Inl (ChStatement ''channels.Delete''), db)
                else if \<not> pg 4 then (Inl (ChStatement ''commit''), db)
                else (Inr (), db\<lparr>cdb_channels := delete_rows cr_id i (cdb_channels db),
                                  cdb_bridges := filter (\<lambda>b. \<not> touches i b) (cdb_bridges db)\<rparr>)))"

definition newly_orphaned :: "kind \<Rightarrow> string list \<Rightarrow> channel_row \<Rightarrow> bool" where
  "newly_orphaned k live r \<longleftrightarrow> cr_kind r = k \<and> \<not> cr_orphaned r \<and>
     (case cr_entity r of None \<Rightarrow> False | Some e \<Rightarrow> e \<notin> set live)"

definition mark_orphans :: "pg \<Rightarrow> instant \<Rightarrow> kind \<Rightarrow> string list \<Rightarrow> chan_db \<Rightarrow> nat chan_result" where
  "mark_orphans pg now k live db =
     (if \<not> kind_valid k \<or> k = kind_custom then (Inl (ChInvalid ''kind is not provisioned from a registry''), db)
      else if \<not> pg 0 then (Inl (ChStatement ''channels.MarkOrphans''), db)
      else (Inr (length (filter (newly_orphaned k live) (cdb_channels db))),
            db\<lparr>cdb_channels := update_where (newly_orphaned k live)
                 (\<lambda>r. r\<lparr>cr_orphaned := True, cr_updated := now\<rparr>) (cdb_channels db)\<rparr>))"

section \<open>Traversal\<close>

text \<open>The rows of the query of \<^verbatim>\<open>Reaches\<close>: a channel id and the path that led to it.\<close>

definition reach_step :: "bridge list \<Rightarrow> string \<times> string list \<Rightarrow> (string \<times> string list) list" where
  "reach_step bs w =
     map (\<lambda>b. (br_to b, snd w @ [br_to b])) (filter (\<lambda>b. br_from b = fst w \<and> br_to b \<notin> set (snd w)) bs)"

definition reaches :: "bool \<Rightarrow> string \<Rightarrow> string \<Rightarrow> chan_db \<Rightarrow> chan_error + bool" where
  "reaches ok a b db =
     (if \<not> ok then Inl (ChStatement ''channels.Reaches'')
      else let rows = recursive_rows (length (cdb_bridges db)) (reach_step (cdb_bridges db)) [(a, [a])]
        in Inr (list_ex (\<lambda>w. fst w = b \<and> b \<noteq> a) rows))"

definition into_step :: "bridge list \<Rightarrow> string \<times> string list \<Rightarrow> (string \<times> string list) list" where
  "into_step bs w =
     map (\<lambda>b. (br_from b, snd w @ [br_from b])) (filter (\<lambda>b. br_to b = fst w \<and> br_from b \<notin> set (snd w)) bs)"

definition reaching_into :: "bool \<Rightarrow> string \<Rightarrow> chan_db \<Rightarrow> chan_error + string list" where
  "reaching_into ok i db =
     (if \<not> ok then Inl (ChStatement ''channels.ReachingInto'')
      else let start = (if has_row cr_id i (cdb_channels db) then [(i, [i])] else []);
               rows = recursive_rows (length (cdb_bridges db)) (into_step (cdb_bridges db)) start
        in Inr (sort (remdups (map fst rows))))"

record walk_row =
  w_channel :: string
  w_kind :: kind
  w_entity :: string
  w_depth :: nat
  w_path :: "string list"
  w_bridge :: string
  w_bridge_name :: string

definition entity_text :: "channel_row \<Rightarrow> string" where
  "entity_text c = (case cr_entity c of None \<Rightarrow> [] | Some e \<Rightarrow> e)"

text \<open>The join of \<open>channel_bridges\<close> and \<open>channels\<close> that extends one row of the walk.\<close>

definition walk_step :: "chan_db \<Rightarrow> walk_row \<Rightarrow> walk_row list" where
  "walk_step db w =
     (if w_depth w < max_walk_depth then
        concat (map (\<lambda>b. case lookup_row cr_id (br_to b) (cdb_channels db) of
            None \<Rightarrow> []
          | Some c \<Rightarrow> [\<lparr>w_channel = br_to b, w_kind = cr_kind c, w_entity = entity_text c,
                        w_depth = Suc (w_depth w), w_path = w_path w @ [br_to b],
                        w_bridge = br_id b, w_bridge_name = br_name b\<rparr>])
          (filter (\<lambda>b. br_from b = w_channel w \<and> br_to b \<notin> set (w_path w)) (cdb_bridges db)))
      else [])"

definition walk_start :: "channel_row \<Rightarrow> walk_row" where
  "walk_start c = \<lparr>w_channel = cr_id c, w_kind = cr_kind c, w_entity = entity_text c, w_depth = 0,
     w_path = [cr_id c], w_bridge = [], w_bridge_name = []\<rparr>"

text \<open>Rows that agree in depth and id come in the order the server produces them.\<close>

definition walk :: "bool \<Rightarrow> string \<Rightarrow> chan_db \<Rightarrow> chan_error + walk_row list" where
  "walk ok i db =
     (if \<not> ok then Inl (ChStatement ''channels.Walk'')
      else let start = (case lookup_row cr_id i (cdb_channels db) of None \<Rightarrow> [] | Some c \<Rightarrow> [walk_start c])
        in Inr (sort_key (\<lambda>w. (w_depth w, w_channel w))
             (filter (\<lambda>w. 0 < w_depth w) (recursive_rows max_walk_depth (walk_step db) start))))"

fun first_deliveries :: "string list \<Rightarrow> walk_row list \<Rightarrow> delivery list" where
  "first_deliveries seen [] = []"
| "first_deliveries seen (w # ws) =
     (if w_kind w \<noteq> kind_agent \<or> w_entity w = [] \<or> w_channel w \<in> set seen then first_deliveries seen ws
      else \<lparr>dl_channel = w_channel w, dl_agent = w_entity w, dl_bridge = w_bridge w,
            dl_bridge_name = w_bridge_name w\<rparr> # first_deliveries (w_channel w # seen) ws)"

definition deliveries :: "bool \<Rightarrow> string \<Rightarrow> chan_db \<Rightarrow> chan_error + delivery list" where
  "deliveries ok i db = (case walk ok i db of Inl e \<Rightarrow> Inl e | Inr ws \<Rightarrow> Inr (first_deliveries [] ws))"

section \<open>Bridges\<close>

definition get_bridge :: "bool \<Rightarrow> string \<Rightarrow> chan_db \<Rightarrow> chan_error + bridge" where
  "get_bridge ok i db =
     (if \<not> ok then Inl (ChStatement ''channels.GetBridge'')
      else (case lookup_row br_id i (cdb_bridges db) of None \<Rightarrow> Inl ChNotFound | Some b \<Rightarrow> Inr b))"

definition channel_pair :: "pg \<Rightarrow> string \<Rightarrow> string \<Rightarrow> chan_db \<Rightarrow> chan_error + channel \<times> channel" where
  "channel_pair pg a b db =
     (case get_channel (pg 0) a db of
        Inl e \<Rightarrow> Inl e
      | Inr x \<Rightarrow> (case get_channel (pg 1) b db of Inl e \<Rightarrow> Inl e | Inr y \<Rightarrow> Inr (x, y)))"

text \<open>
  The checks are reads (statements 0 to 2), the INSERT is statement 3 and the final read 4; they
  share no transaction, so \<open>env\<close> is what other connections do between the checks and the
  INSERT. The bridge name separator is the UTF-8 of a right arrow between two blanks.
\<close>

definition arrow :: string where
  "arrow = CHR '' '' # CHR 0xE2 # CHR 0x86 # CHR 0x92 # '' ''"

definition insert_bridge ::
  "pg \<Rightarrow> string \<Rightarrow> instant \<Rightarrow> string \<Rightarrow> string \<Rightarrow> string \<Rightarrow> chan_db \<Rightarrow> bridge chan_result" where
  "insert_bridge pg i now a b name db =
     (if \<not> pg 3 then (Inl (ChStatement ''channels.CreateBridge''), db)
      else if list_ex (\<lambda>x. br_from x = a \<and> br_to x = b) (cdb_bridges db) then (Inl BridgeExists, db)
      else if has_row br_id i (cdb_bridges db) then (Inl BridgeExists, db)
      else if \<not> has_row cr_id a (cdb_channels db) \<or> \<not> has_row cr_id b (cdb_channels db)
        then (Inl (ChStatement ''channels.CreateBridge''), db)
      else let db' = db\<lparr>cdb_bridges := cdb_bridges db @
             [\<lparr>br_id = i, br_name = name, br_from = a, br_to = b, br_created = now, br_updated = now\<rparr>]\<rparr>
        in (get_bridge (pg 4) i db', db'))"

definition create_bridge_env ::
  "pg \<Rightarrow> (chan_db \<Rightarrow> chan_db) \<Rightarrow> string \<Rightarrow> instant \<Rightarrow> string \<Rightarrow> string \<Rightarrow> string \<Rightarrow> chan_db \<Rightarrow> bridge chan_result" where
  "create_bridge_env pg env i now a b name db =
     (if a = b then (Inl SelfEdge, db)
      else (case channel_pair pg a b db of
              Inl e \<Rightarrow> (Inl e, db)
            | Inr (x, y) \<Rightarrow>
                if ch_kind x \<noteq> kind_custom \<and> ch_kind y \<noteq> kind_custom then (Inl NoCustomEndpoint, db)
                else (case reaches (pg 2) b a db of
                        Inl e \<Rightarrow> (Inl e, db)
                      | Inr True \<Rightarrow> (Inl Cycle, db)
                      | Inr False \<Rightarrow>
                          insert_bridge pg i now a b
                            (if name = [] then ch_name x @ arrow @ ch_name y else name) (env db))))"

definition create_bridge ::
  "pg \<Rightarrow> string \<Rightarrow> instant \<Rightarrow> string \<Rightarrow> string \<Rightarrow> string \<Rightarrow> chan_db \<Rightarrow> bridge chan_result" where
  "create_bridge pg i now a b name db = create_bridge_env pg (\<lambda>db. db) i now a b name db"

definition list_bridges :: "bool \<Rightarrow> string \<Rightarrow> chan_db \<Rightarrow> chan_error + bridge list" where
  "list_bridges ok i db =
     (if \<not> ok then Inl (ChStatement ''channels.ListBridges'')
      else Inr (sort_key (\<lambda>b. (br_created b, br_id b))
             (filter (\<lambda>b. i \<noteq> [] \<longrightarrow> touches i b) (cdb_bridges db))))"

definition delete_bridge :: "pg \<Rightarrow> string \<Rightarrow> chan_db \<Rightarrow> unit chan_result" where
  "delete_bridge pg i db =
     (if \<not> pg 0 then (Inl (ChStatement ''channels.DeleteBridge''), db)
      else if \<not> has_row br_id i (cdb_bridges db) then (Inl ChNotFound, db)
      else (Inr (), db\<lparr>cdb_bridges := delete_rows br_id i (cdb_bridges db)\<rparr>))"

end
