(* ===== verification/ChannelGraph.thy ===== *)
theory ChannelGraph
  imports Channels
begin

text \<open>
  The bridge graph of the channel registry: the invariant the store keeps, what its
  recursive queries compute, and which inboxes an event is delivered to.
\<close>

section \<open>The graph\<close>

definition edge_set :: "bridge list \<Rightarrow> (string \<times> string) set" where
  "edge_set bs = (\<lambda>b. (br_from b, br_to b)) ` set bs"

lemma edge_set_simps [simp]:
  "edge_set [] = {}" "edge_set (bs @ bs') = edge_set bs \<union> edge_set bs'" "finite (edge_set bs)"
  by (auto simp: edge_set_def)

lemma edge_setI: "b \<in> set bs \<Longrightarrow> (br_from b, br_to b) \<in> edge_set bs"
  by (simp add: edge_set_def)

lemma edge_setE:
  assumes "(a, c) \<in> edge_set bs"
  obtains b where "b \<in> set bs" "br_from b = a" "br_to b = c"
  using assms by (auto simp: edge_set_def)

lemma card_edge_set: "card (edge_set bs) \<le> length bs"
  unfolding edge_set_def by (rule le_trans [OF card_image_le card_length]) simp

interpretation forward: guarded_walk "reach_step bs" fst snd "edge_set bs" for bs
proof
  fix w' w :: "string \<times> string list"
  assume "w' \<in> set (reach_step bs w)"
  then show "(fst w, fst w') \<in> edge_set bs \<and> fst w' \<notin> set (snd w) \<and> snd w' = snd w @ [fst w']"
    by (auto simp: reach_step_def dest: edge_setI)
next
  fix w :: "string \<times> string list" and n
  assume "(fst w, n) \<in> edge_set bs" "n \<notin> set (snd w)"
  then show "\<exists>w' \<in> set (reach_step bs w). fst w' = n"
    by (auto simp: reach_step_def elim!: edge_setE)
qed

interpretation backward: guarded_walk "into_step bs" fst snd "(edge_set bs)\<inverse>" for bs
proof
  fix w' w :: "string \<times> string list"
  assume "w' \<in> set (into_step bs w)"
  then show "(fst w, fst w') \<in> (edge_set bs)\<inverse> \<and> fst w' \<notin> set (snd w) \<and> snd w' = snd w @ [fst w']"
    by (auto simp: into_step_def dest: edge_setI)
next
  fix w :: "string \<times> string list" and n
  assume "(fst w, n) \<in> (edge_set bs)\<inverse>" "n \<notin> set (snd w)"
  then show "\<exists>w' \<in> set (into_step bs w). fst w' = n"
    by (auto simp: into_step_def elim!: edge_setE)
qed

lemma reaches_star: "reaches True a b db = Inr (a \<noteq> b \<and> (a, b) \<in> (edge_set (cdb_bridges db))\<^sup>*)"
  using forward.rows_iff_rtrancl [of "(a, [a])" "cdb_bridges db" "length (cdb_bridges db)" b]
  by (auto simp: reaches_def Let_def list_ex_iff card_edge_set)

lemma reaching_into_star:
  assumes "reaching_into True i db = Inr ids"
  shows "set ids = (if has_row cr_id i (cdb_channels db) then {a. (a, i) \<in> (edge_set (cdb_bridges db))\<^sup>*} else {})"
proof -
  let ?rows = "recursive_rows (length (cdb_bridges db)) (into_step (cdb_bridges db)) [(i, [i])]"
  have "a \<in> fst ` set ?rows \<longleftrightarrow> (a, i) \<in> (edge_set (cdb_bridges db))\<^sup>*" for a
    using backward.rows_iff_rtrancl [of "(i, [i])" "cdb_bridges db" "length (cdb_bridges db)" a]
    by (auto simp: card_edge_set rtrancl_converse image_iff)
  then have "fst ` set ?rows = {a. (a, i) \<in> (edge_set (cdb_bridges db))\<^sup>*}" by blast
  then show ?thesis using assms by (auto simp: reaching_into_def Let_def split: if_splits)
qed

section \<open>The registry as a state machine\<close>

definition empty_chan_db :: chan_db where "empty_chan_db = \<lparr>cdb_channels = [], cdb_bridges = []\<rparr>"

datatype chan_op =
    OpEnsure pg string instant kind string string string
  | OpCreate pg string instant string string
  | OpUpdate pg instant string "string option" "string option"
  | OpDelete pg string
  | OpOrphans pg instant kind "string list"
  | OpBridge pg string instant string string string
  | OpUnbridge pg string

fun exec_chan_op :: "chan_op \<Rightarrow> chan_db \<Rightarrow> chan_db" where
  "exec_chan_op (OpEnsure pg i now k ref name d) db = snd (ensure pg i now k ref name d db)"
| "exec_chan_op (OpCreate pg i now name d) db = snd (create_channel pg i now name d db)"
| "exec_chan_op (OpUpdate pg now i name d) db = snd (update_channel pg now i name d db)"
| "exec_chan_op (OpDelete pg i) db = snd (delete_channel pg i db)"
| "exec_chan_op (OpOrphans pg now k live) db = snd (mark_orphans pg now k live db)"
| "exec_chan_op (OpBridge pg i now a b name) db = snd (create_bridge pg i now a b name db)"
| "exec_chan_op (OpUnbridge pg i) db = snd (delete_bridge pg i db)"

fun run_chan_ops :: "chan_op list \<Rightarrow> chan_db \<Rightarrow> chan_db" where
  "run_chan_ops [] db = db"
| "run_chan_ops (op # ops) db = run_chan_ops ops (exec_chan_op op db)"

text \<open>Channels: one row per id and per (kind, entity); only provisioned channels have an entity.\<close>

definition entity_key :: "channel_row \<Rightarrow> kind \<times> string" where
  "entity_key r = (cr_kind r, entity_text r)"

definition channel_ok :: "channel_row \<Rightarrow> bool" where
  "channel_ok r \<longleftrightarrow> kind_valid (cr_kind r) \<and> (cr_kind r = kind_custom \<longleftrightarrow> cr_entity r = None) \<and> cr_entity r \<noteq> Some []"

definition channels_wf :: "channel_row list \<Rightarrow> bool" where
  "channels_wf cs \<longleftrightarrow> distinct (map cr_id cs) \<and> (\<forall>c \<in> set cs. channel_ok c) \<and>
     distinct (map entity_key (filter (\<lambda>c. cr_entity c \<noteq> None) cs))"

definition endpoints_ok :: "channel_row list \<Rightarrow> bridge \<Rightarrow> bool" where
  "endpoints_ok cs b \<longleftrightarrow> (\<exists>x \<in> set cs. \<exists>y \<in> set cs. cr_id x = br_from b \<and> cr_id y = br_to b \<and>
     (cr_kind x = kind_custom \<or> cr_kind y = kind_custom))"

definition bridges_wf :: "chan_db \<Rightarrow> bool" where
  "bridges_wf db \<longleftrightarrow> distinct (map br_id (cdb_bridges db)) \<and>
     distinct (map (\<lambda>b. (br_from b, br_to b)) (cdb_bridges db)) \<and>
     (\<forall>b \<in> set (cdb_bridges db). endpoints_ok (cdb_channels db) b) \<and>
     acyclic (edge_set (cdb_bridges db))"

definition chan_wf :: "chan_db \<Rightarrow> bool" where
  "chan_wf db \<longleftrightarrow> channels_wf (cdb_channels db) \<and> bridges_wf db"

lemma chan_wf_empty: "chan_wf empty_chan_db"
  by (simp add: chan_wf_def channels_wf_def bridges_wf_def empty_chan_db_def acyclic_def)

lemma channels_wf_update:
  assumes "channels_wf cs"
    and "\<And>r. cr_id (f r) = cr_id r" "\<And>r. cr_kind (f r) = cr_kind r" "\<And>r. cr_entity (f r) = cr_entity r"
  shows "channels_wf (update_where p f cs)"
proof -
  have "filter (\<lambda>c. cr_entity c \<noteq> None) (update_where p f cs) =
      update_where p f (filter (\<lambda>c. cr_entity c \<noteq> None) cs)"
    using assms(4) by (induction cs) (auto simp: update_where_def)
  then show ?thesis
    using assms by (auto simp: channels_wf_def channel_ok_def map_update_where sql_simps entity_key_def entity_text_def)
qed

lemma endpoints_ok_update:
  assumes "\<And>r. cr_id (f r) = cr_id r" "\<And>r. cr_kind (f r) = cr_kind r" "endpoints_ok cs b"
  shows "endpoints_ok (update_where p f cs) b"
proof -
  have g: "(if p r then f r else r) \<in> set (update_where p f cs)" if "r \<in> set cs" for r
    using that by (auto simp: update_where_def)
  from assms(3) obtain x y where xy: "x \<in> set cs" "y \<in> set cs" "cr_id x = br_from b" "cr_id y = br_to b"
    "cr_kind x = kind_custom \<or> cr_kind y = kind_custom" by (auto simp: endpoints_ok_def)
  then show ?thesis
    unfolding endpoints_ok_def using assms(1,2) g [OF xy(1)] g [OF xy(2)]
    by (intro bexI [OF _ g [OF xy(1)]] bexI [OF _ g [OF xy(2)]]) auto
qed

lemma chan_wf_update:
  assumes "chan_wf db"
    and "\<And>r. cr_id (f r) = cr_id r" "\<And>r. cr_kind (f r) = cr_kind r" "\<And>r. cr_entity (f r) = cr_entity r"
  shows "chan_wf (db\<lparr>cdb_channels := update_where p f (cdb_channels db)\<rparr>)"
  using assms by (auto simp: chan_wf_def bridges_wf_def channels_wf_update endpoints_ok_update)

lemma chan_wf_append:
  assumes "chan_wf db" "cr_id r \<notin> cr_id ` set (cdb_channels db)" "channel_ok r"
    and "cr_entity r \<noteq> None \<Longrightarrow> entity_key r \<notin> entity_key ` set (filter (\<lambda>c. cr_entity c \<noteq> None) (cdb_channels db))"
  shows "chan_wf (db\<lparr>cdb_channels := cdb_channels db @ [r]\<rparr>)"
proof -
  have "channels_wf (cdb_channels db @ [r])"
    using assms by (simp add: chan_wf_def channels_wf_def)
  moreover have "endpoints_ok (cdb_channels db) b \<Longrightarrow> endpoints_ok (cdb_channels db @ [r]) b" for b
    by (auto simp: endpoints_ok_def)
  ultimately show ?thesis using assms(1) by (simp add: chan_wf_def bridges_wf_def)
qed

lemma acyclic_subset_edges: "acyclic (edge_set bs) \<Longrightarrow> set bs' \<subseteq> set bs \<Longrightarrow> acyclic (edge_set bs')"
  by (erule acyclic_subset) (auto simp: edge_set_def)

lemma chan_wf_fewer_bridges:
  assumes "chan_wf db"
  shows "chan_wf (db\<lparr>cdb_bridges := filter p (cdb_bridges db)\<rparr>)"
  using assms
  by (auto simp: chan_wf_def bridges_wf_def distinct_map_filter intro: acyclic_subset_edges)

lemma ensure_wf: "chan_wf db \<Longrightarrow> chan_wf (snd (ensure pg i now k ref name d db))"
proof (cases "kind_valid k \<and> ref \<noteq> [] \<and> k \<noteq> kind_custom \<and> pg 0")
  case False
  moreover assume "chan_wf db"
  ultimately show ?thesis by (auto simp: ensure_def)
next
  case True
  assume wf: "chan_wf db"
  let ?ex = "proposed_row i now k ref name d"
  show ?thesis
  proof (cases "List.find (owns_entity k ref) (cdb_channels db)")
    case (Some r)
    have "chan_wf (db\<lparr>cdb_channels := update_where (owns_entity k ref) (refresh_row now ?ex) (cdb_channels db)\<rparr>)"
      by (rule chan_wf_update [OF wf]) (simp_all add: refresh_row_def)
    with True Some show ?thesis by (simp add: ensure_def Let_def)
  next
    case None
    have "chan_wf (db\<lparr>cdb_channels := cdb_channels db @ [?ex]\<rparr>)" if "\<not> has_row cr_id i (cdb_channels db)"
      using that None True
      by (intro chan_wf_append [OF wf])
        (auto simp: proposed_row_def channel_ok_def has_row_def list_ex_iff find_None_iff owns_entity_def
          entity_key_def entity_text_def split: option.splits)
    with True None wf show ?thesis by (simp add: ensure_def Let_def)
  qed
qed

lemma create_channel_wf: "chan_wf db \<Longrightarrow> chan_wf (snd (create_channel pg i now name d db))"
  by (auto simp: create_channel_def Let_def has_row_def list_ex_iff channel_ok_def kind_valid_def
      intro!: chan_wf_append)

lemma update_channel_wf: "chan_wf db \<Longrightarrow> chan_wf (snd (update_channel pg now i name d db))"
  by (auto simp: update_channel_def Let_def intro!: chan_wf_update split: sum.split chan_error.split)

lemma mark_orphans_wf: "chan_wf db \<Longrightarrow> chan_wf (snd (mark_orphans pg now k live db))"
  by (auto simp: mark_orphans_def intro!: chan_wf_update)

lemma delete_bridge_wf: "chan_wf db \<Longrightarrow> chan_wf (snd (delete_bridge pg i db))"
  by (auto simp: delete_bridge_def delete_rows_def intro: chan_wf_fewer_bridges)

lemma delete_channel_wf:
  assumes "chan_wf db"
  shows "chan_wf (snd (delete_channel pg i db))"
proof -
  have "chan_wf (db\<lparr>cdb_channels := delete_rows cr_id i (cdb_channels db),
      cdb_bridges := filter (\<lambda>b. \<not> touches i b) (cdb_bridges db)\<rparr>)"
  proof -
    have "channels_wf (delete_rows cr_id i (cdb_channels db))"
      using assms distinct_map_filter [of entity_key "filter (\<lambda>c. cr_entity c \<noteq> None) (cdb_channels db)"]
      by (simp add: chan_wf_def channels_wf_def delete_rows_def distinct_map_filter conj_commute)
    moreover have "endpoints_ok (delete_rows cr_id i (cdb_channels db)) b"
      if "endpoints_ok (cdb_channels db) b" "\<not> touches i b" for b
      using that by (simp add: endpoints_ok_def touches_def delete_rows_def) metis
    ultimately show ?thesis
      using chan_wf_fewer_bridges [OF assms, of "\<lambda>b. \<not> touches i b"]
      by (simp add: chan_wf_def bridges_wf_def)
  qed
  with assms show ?thesis by (auto simp: delete_channel_def split: option.split)
qed

lemma lookup_cr_id: "get_channel ok i db = Inr c \<Longrightarrow>
    \<exists>r \<in> set (cdb_channels db). cr_id r = i \<and> ch_kind c = cr_kind r"
  by (auto simp: get_channel_def scan_channel_def split: if_splits option.splits dest!: lookup_row_SomeD)

lemma insert_bridge_wf:
  assumes "chan_wf db" "(b, a) \<notin> (edge_set (cdb_bridges db))\<^sup>*"
    and "endpoints_ok (cdb_channels db) \<lparr>br_id = i, br_name = name, br_from = a, br_to = b, br_created = now, br_updated = now\<rparr>"
  shows "chan_wf (snd (insert_bridge pg i now a b name db))"
proof -
  have "acyclic (insert (a, b) (edge_set (cdb_bridges db)))"
    using assms(1,2) by (simp add: acyclic_insert chan_wf_def bridges_wf_def)
  then show ?thesis
    using assms(1,3)
    by (auto simp: insert_bridge_def Let_def chan_wf_def bridges_wf_def edge_set_def has_row_def list_ex_iff)
qed

lemma create_bridge_wf:
  assumes "chan_wf db"
  shows "chan_wf (snd (create_bridge pg i now a b name db))"
proof (cases "a \<noteq> b \<and> pg 2")
  case False
  with assms show ?thesis
    by (auto simp: create_bridge_def create_bridge_env_def reaches_def split: sum.split)
next
  case True
  show ?thesis
  proof (cases "channel_pair pg a b db")
    case (Inl e)
    with assms True show ?thesis by (simp add: create_bridge_def create_bridge_env_def)
  next
    case (Inr xy)
    obtain x y where xy: "get_channel (pg 0) a db = Inr x" "get_channel (pg 1) b db = Inr y" "xy = (x, y)"
      using Inr by (auto simp: channel_pair_def split: sum.splits)
    let ?B = "\<lambda>n. \<lparr>br_id = i, br_name = n, br_from = a, br_to = b, br_created = now, br_updated = now\<rparr>"
    have ends: "endpoints_ok (cdb_channels db) (?B n)"
      if "ch_kind x = kind_custom \<or> ch_kind y = kind_custom" for n
      using that lookup_cr_id [OF xy(1)] lookup_cr_id [OF xy(2)] by (simp add: endpoints_ok_def) metis
    show ?thesis
      using Inr xy(3) True assms ends insert_bridge_wf [OF assms, of b a]
      by (auto simp: create_bridge_def create_bridge_env_def reaches_star split: bool.split)
  qed
qed

lemma exec_chan_op_wf: "chan_wf db \<Longrightarrow> chan_wf (exec_chan_op op db)"
  by (cases op) (simp_all add: ensure_wf create_channel_wf update_channel_wf delete_channel_wf
      mark_orphans_wf create_bridge_wf delete_bridge_wf)

lemma run_chan_ops_wf: "chan_wf db \<Longrightarrow> chan_wf (run_chan_ops ops db)"
  by (induction ops arbitrary: db) (simp_all add: exec_chan_op_wf)

section \<open>Deliveries\<close>

text \<open>The walk without its depth bound; up to the bound the two have the same rows.\<close>

definition free_step :: "chan_db \<Rightarrow> walk_row \<Rightarrow> walk_row list" where
  "free_step db w =
     concat (map (\<lambda>b. case lookup_row cr_id (br_to b) (cdb_channels db) of
            None \<Rightarrow> []
          | Some c \<Rightarrow> [\<lparr>w_channel = br_to b, w_kind = cr_kind c, w_entity = entity_text c,
                        w_depth = Suc (w_depth w), w_path = w_path w @ [br_to b],
                        w_bridge = br_id b, w_bridge_name = br_name b\<rparr>])
          (filter (\<lambda>b. br_from b = w_channel w \<and> br_to b \<notin> set (w_path w)) (cdb_bridges db)))"

definition live_edges :: "chan_db \<Rightarrow> (string \<times> string) set" where
  "live_edges db = {e \<in> edge_set (cdb_bridges db). snd e \<in> cr_id ` set (cdb_channels db)}"

text \<open>What a row of the walk says: its channel's columns and the bridge that ends its path.\<close>

definition row_says :: "chan_db \<Rightarrow> walk_row \<Rightarrow> walk_row \<Rightarrow> bool" where
  "row_says db v w \<longleftrightarrow> w_depth w = Suc (w_depth v) \<and>
     (\<exists>c. lookup_row cr_id (w_channel w) (cdb_channels db) = Some c \<and> w_kind w = cr_kind c \<and> w_entity w = entity_text c) \<and>
     (\<exists>b \<in> set (cdb_bridges db). br_id b = w_bridge w \<and> br_name b = w_bridge_name w \<and>
        br_from b = w_channel v \<and> br_to b = w_channel w)"

lemma free_stepE:
  assumes "w \<in> set (free_step db v)"
  obtains b c where "b \<in> set (cdb_bridges db)" "lookup_row cr_id (br_to b) (cdb_channels db) = Some c"
    "br_from b = w_channel v" "br_to b \<notin> set (w_path v)"
    "w = \<lparr>w_channel = br_to b, w_kind = cr_kind c, w_entity = entity_text c, w_depth = Suc (w_depth v),
          w_path = w_path v @ [br_to b], w_bridge = br_id b, w_bridge_name = br_name b\<rparr>"
proof -
  obtain b where b: "b \<in> set (cdb_bridges db)" "br_from b = w_channel v" "br_to b \<notin> set (w_path v)"
    "w \<in> set (case lookup_row cr_id (br_to b) (cdb_channels db) of None \<Rightarrow> []
      | Some c \<Rightarrow> [\<lparr>w_channel = br_to b, w_kind = cr_kind c, w_entity = entity_text c, w_depth = Suc (w_depth v),
          w_path = w_path v @ [br_to b], w_bridge = br_id b, w_bridge_name = br_name b\<rparr>])"
    using assms unfolding free_step_def by auto
  then show ?thesis
    by (cases "lookup_row cr_id (br_to b) (cdb_channels db)") (auto intro: that)
qed

lemma free_step_says: "w \<in> set (free_step db v) \<Longrightarrow> row_says db v w"
  by (erule free_stepE) (auto simp: row_says_def)

interpretation free: guarded_walk "free_step db" w_channel w_path "live_edges db" for db
proof
  fix w' w :: walk_row
  assume "w' \<in> set (free_step db w)"
  then obtain b c where "b \<in> set (cdb_bridges db)" "lookup_row cr_id (br_to b) (cdb_channels db) = Some c"
    "br_from b = w_channel w" "w_channel w' = br_to b" "br_to b \<notin> set (w_path w)" "w_path w' = w_path w @ [br_to b]"
    by (auto elim!: free_stepE)
  moreover have "br_to b \<in> cr_id ` set (cdb_channels db)"
    using lookup_row_SomeD [OF calculation(2)] by force
  moreover have "(br_from b, br_to b) \<in> edge_set (cdb_bridges db)"
    by (rule edge_setI [OF calculation(1)])
  ultimately show "(w_channel w, w_channel w') \<in> live_edges db \<and> w_channel w' \<notin> set (w_path w) \<and>
      w_path w' = w_path w @ [w_channel w']"
    by (simp add: live_edges_def)
next
  fix w :: walk_row and n
  assume n: "(w_channel w, n) \<in> live_edges db" "n \<notin> set (w_path w)"
  then obtain b where b: "b \<in> set (cdb_bridges db)" "br_from b = w_channel w" "br_to b = n"
    by (auto simp: live_edges_def elim: edge_setE)
  moreover obtain c where "lookup_row cr_id n (cdb_channels db) = Some c"
    using n(1) by (cases "lookup_row cr_id n (cdb_channels db)") (auto simp: live_edges_def lookup_row_None_iff)
  ultimately show "\<exists>w' \<in> set (free_step db w). w_channel w' = n"
    using n(2) by (force simp: free_step_def)
qed

lemma walk_step_free: "w_depth w < max_walk_depth \<Longrightarrow> walk_step db w = free_step db w"
  by (simp add: walk_step_def free_step_def)

lemma level_depth:
  "w \<in> set (level (free_step db) n [w0]) \<Longrightarrow> w_depth w = w_depth w0 + n"
  by (induction n arbitrary: w) (auto dest!: free_step_says simp: row_says_def)

lemma level_walk_free:
  "w_depth w0 + n \<le> max_walk_depth \<Longrightarrow> level (walk_step db) n [w0] = level (free_step db) n [w0]"
proof (induction n)
  case (Suc n)
  have "map (walk_step db) (level (free_step db) n [w0]) = map (free_step db) (level (free_step db) n [w0])"
    using Suc.prems by (intro map_cong walk_step_free) (auto dest!: level_depth)
  with Suc show ?case by (simp only: level.simps)
qed simp

lemma rows_walk_free:
  assumes "n \<le> max_walk_depth"
  shows "set (recursive_rows n (walk_step db) [walk_start c]) = set (recursive_rows n (free_step db) [walk_start c])"
  using assms by (auto simp: set_recursive_rows walk_start_def level_walk_free)

lemma walk_rows:
  assumes "chan_wf db" "lookup_row cr_id i (cdb_channels db) = Some c"
  obtains ws where "walk True i db = Inr ws"
    "sorted (map (\<lambda>w. (w_depth w, w_channel w)) ws)"
    "set ws = {w. \<exists>n. 0 < n \<and> n \<le> max_walk_depth \<and> w \<in> set (level (free_step db) n [walk_start c])}"
proof
  let ?rows = "recursive_rows max_walk_depth (walk_step db) [walk_start c]"
  let ?ws = "sort_key (\<lambda>w. (w_depth w, w_channel w)) (filter (\<lambda>w. 0 < w_depth w) ?rows)"
  show "walk True i db = Inr ?ws" using assms(2) by (simp add: walk_def Let_def)
  show "sorted (map (\<lambda>w. (w_depth w, w_channel w)) ?ws)" by (rule sorted_sort_key)
  have "set ?rows = (\<Union>n \<le> max_walk_depth. set (level (free_step db) n [walk_start c]))"
    using rows_walk_free [OF order_refl, of db c] by (simp only: set_recursive_rows)
  then have "w \<in> set ?ws \<longleftrightarrow> (\<exists>n \<le> max_walk_depth. w \<in> set (level (free_step db) n [walk_start c])) \<and> 0 < w_depth w" for w
    by auto
  moreover have "w_depth w = n" if "w \<in> set (level (free_step db) n [walk_start c])" for w n
    using level_depth [OF that] by (simp add: walk_start_def)
  ultimately show "set ?ws = {w. \<exists>n. 0 < n \<and> n \<le> max_walk_depth \<and> w \<in> set (level (free_step db) n [walk_start c])}"
    by blast
qed

lemma live_edges_wf: "chan_wf db \<Longrightarrow> live_edges db = edge_set (cdb_bridges db)"
proof -
  assume wf: "chan_wf db"
  have "snd e \<in> cr_id ` set (cdb_channels db)" if "e \<in> edge_set (cdb_bridges db)" for e
  proof -
    obtain b where b: "b \<in> set (cdb_bridges db)" "e = (br_from b, br_to b)"
      using \<open>e \<in> edge_set (cdb_bridges db)\<close> unfolding edge_set_def by blast
    then have "endpoints_ok (cdb_channels db) b" using wf by (simp add: chan_wf_def bridges_wf_def)
    then show ?thesis using b(2) by (simp add: endpoints_ok_def image_iff) metis
  qed
  then show ?thesis by (auto simp: live_edges_def)
qed

text \<open>The loop of \<^verbatim>\<open>Deliveries\<close> keeps the first row of every inbox.\<close>

lemma first_deliveries_channels:
  "set (map dl_channel (first_deliveries seen ws)) =
   {w_channel w | w. w \<in> set ws \<and> w_kind w = kind_agent \<and> w_entity w \<noteq> [] \<and> w_channel w \<notin> set seen}"
  by (induction seen ws rule: first_deliveries.induct) auto

lemma first_deliveries_distinct: "distinct (map dl_channel (first_deliveries seen ws))"
proof (induction seen ws rule: first_deliveries.induct)
  case (2 seen w ws)
  then show ?case using first_deliveries_channels [of "w_channel w # seen" ws] by auto
qed simp

lemma first_deliveries_first:
  "d \<in> set (first_deliveries seen ws) \<Longrightarrow> sorted (map (\<lambda>w. (w_depth w, w_channel w)) ws) \<Longrightarrow>
   \<exists>w \<in> set ws. w_kind w = kind_agent \<and> dl_channel d = w_channel w \<and> dl_agent d = w_entity w \<and> dl_bridge d = w_bridge w \<and>
     dl_bridge_name d = w_bridge_name w \<and>
     (\<forall>v \<in> set ws. w_channel v = w_channel w \<and> w_kind v = kind_agent \<and> w_entity v \<noteq> [] \<longrightarrow> w_depth w \<le> w_depth v)"
proof (induction seen ws rule: first_deliveries.induct)
  case (2 seen w ws)
  have seen: "dl_channel d \<notin> set seen'" if "d \<in> set (first_deliveries seen' ws)" for seen'
  proof -
    have "dl_channel d \<in> set (map dl_channel (first_deliveries seen' ws))" using that by simp
    then show ?thesis unfolding first_deliveries_channels by auto
  qed
  show ?case
  proof (cases "w_kind w \<noteq> kind_agent \<or> w_entity w = [] \<or> w_channel w \<in> set seen")
    case True
    then obtain u where "u \<in> set ws" "w_kind u = kind_agent" "dl_channel d = w_channel u" "dl_agent d = w_entity u"
      "dl_bridge d = w_bridge u" "dl_bridge_name d = w_bridge_name u"
      "\<forall>v \<in> set ws. w_channel v = w_channel u \<and> w_kind v = kind_agent \<and> w_entity v \<noteq> [] \<longrightarrow> w_depth u \<le> w_depth v"
      using 2 by auto
    moreover have "dl_channel d \<notin> set seen" using 2(3) True by (intro seen) simp
    ultimately show ?thesis using True by (intro bexI [of _ u]) auto
  next
    case False
    show ?thesis
    proof (cases "d \<in> set (first_deliveries (w_channel w # seen) ws)")
      case True
      then obtain u where "u \<in> set ws" "w_kind u = kind_agent" "dl_channel d = w_channel u" "dl_agent d = w_entity u"
        "dl_bridge d = w_bridge u" "dl_bridge_name d = w_bridge_name u"
        "\<forall>v \<in> set ws. w_channel v = w_channel u \<and> w_kind v = kind_agent \<and> w_entity v \<noteq> [] \<longrightarrow> w_depth u \<le> w_depth v"
        using 2(2) [OF False True] 2(4) by auto
      moreover have "dl_channel d \<noteq> w_channel w" using seen [OF True] by simp
      ultimately show ?thesis by (intro bexI [of _ u]) auto
    next
      case rest: False
      then have "dl_channel d = w_channel w" "dl_agent d = w_entity w" "dl_bridge d = w_bridge w"
        "dl_bridge_name d = w_bridge_name w" using 2(3) False by auto
      then show ?thesis using 2(4) False by (intro bexI [of _ w]) auto
    qed
  qed
qed simp

lemma level_row:
  assumes "w \<in> set (level (free_step db) n [walk_start c])" "0 < n"
  obtains r b where "lookup_row cr_id (w_channel w) (cdb_channels db) = Some r" "w_kind w = cr_kind r"
    "w_entity w = entity_text r" "b \<in> set (cdb_bridges db)" "br_id b = w_bridge w" "br_to b = w_channel w"
    "(cr_id c, br_from b) \<in> live_edges db ^^ (n - 1)" "w_depth w = n"
proof -
  obtain m where m: "n = Suc m" using assms(2) by (cases n) auto
  then obtain v where v: "v \<in> set (level (free_step db) m [walk_start c])" "w \<in> set (free_step db v)"
    using assms(1) by auto
  have "(cr_id c, w_channel v) \<in> live_edges db ^^ m"
    using free.level_sound [OF v(1)] by (simp add: walk_start_def)
  then show ?thesis
    using that free_step_says [OF v(2)] level_depth [OF v(1)] m
    by (auto simp: row_says_def walk_start_def)
qed

lemma entity_text_nonempty: "channel_ok r \<Longrightarrow> cr_kind r = kind_agent \<Longrightarrow> entity_text r \<noteq> []"
  by (auto simp: channel_ok_def entity_text_def kind_defs split: option.splits)

lemma same_entity:
  assumes "channels_wf cs" "r \<in> set cs" "r' \<in> set cs" "cr_entity r \<noteq> None \<and> cr_kind r = cr_kind r' \<and> cr_entity r = cr_entity r'"
  shows "r = r'"
proof (rule distinct_map_unique)
  show "distinct (map entity_key (filter (\<lambda>c. cr_entity c \<noteq> None) cs))"
    using assms(1) by (simp only: channels_wf_def)
  show "r \<in> set (filter (\<lambda>c. cr_entity c \<noteq> None) cs)" "r' \<in> set (filter (\<lambda>c. cr_entity c \<noteq> None) cs)"
    using assms(2-4) by auto
  show "entity_key r = entity_key r'" using assms(4) by (simp add: entity_key_def entity_text_def)
qed

lemma row_within:
  assumes "acyclic (live_edges db)" "(cr_id c, x) \<in> live_edges db ^^ j" "0 < j"
  obtains m w where "0 < m" "m \<le> j" "w \<in> set (level (free_step db) m [walk_start c])" "w_channel w = x"
proof -
  have "cr_id c \<noteq> x"
    using assms by (metis acyclic_def trancl_power)
  moreover obtain w where w: "w \<in> set (recursive_rows j (free_step db) [walk_start c])" "w_channel w = x"
    using free.rows_iff_relpow [of "walk_start c" j db x] assms(2) by (auto simp: walk_start_def)
  then obtain m where m: "m \<le> j" "w \<in> set (level (free_step db) m [walk_start c])"
    by (auto simp: set_recursive_rows)
  moreover have "m \<noteq> 0"
  proof
    assume "m = 0"
    then show False using m(2) w(2) \<open>cr_id c \<noteq> x\<close> by (simp add: walk_start_def)
  qed
  ultimately show ?thesis using that w(2) by simp
qed

text \<open>An inbox of a well-formed registry, seen through the rows of a walk.\<close>

lemma row_of_channel:
  assumes "chan_wf db" "r \<in> set (cdb_channels db)" "w_channel w = cr_id r"
    and "w \<in> set (level (free_step db) n [walk_start c])" "0 < n"
  shows "w_kind w = cr_kind r \<and> w_entity w = entity_text r"
proof -
  have "lookup_row cr_id (cr_id r) (cdb_channels db) = Some r"
    using assms(1,2) by (intro lookup_row_distinct) (simp_all add: chan_wf_def channels_wf_def)
  moreover obtain r' where "lookup_row cr_id (w_channel w) (cdb_channels db) = Some r'" "w_kind w = cr_kind r'"
    "w_entity w = entity_text r'" by (rule level_row [OF assms(4,5)])
  ultimately show ?thesis using assms(3) by simp
qed

lemma delivered_inbox:
  assumes "chan_wf db" "set ws = {w. \<exists>n. 0 < n \<and> n \<le> N \<and> w \<in> set (level (free_step db) n [walk_start c])}"
    and r: "r \<in> set (cdb_channels db)"
  shows "(\<exists>d \<in> set (first_deliveries [] ws). dl_channel d = cr_id r) \<longleftrightarrow>
    cr_kind r = kind_agent \<and> (\<exists>k. 0 < k \<and> k \<le> N \<and> (cr_id c, cr_id r) \<in> edge_set (cdb_bridges db) ^^ k)"
proof -
  have live: "live_edges db = edge_set (cdb_bridges db)" by (rule live_edges_wf [OF assms(1)])
  have acyc: "acyclic (live_edges db)" using assms(1) by (simp add: live chan_wf_def bridges_wf_def)
  have row: "w_kind w = cr_kind r \<and> w_entity w = entity_text r" if "w \<in> set ws" "w_channel w = cr_id r" for w
    using that assms(2) row_of_channel [OF assms(1) r that(2)] by auto
  have "entity_text r \<noteq> []" if "cr_kind r = kind_agent"
    using that assms(1) r by (intro entity_text_nonempty) (simp_all add: chan_wf_def channels_wf_def)
  then have "cr_id r \<in> set (map dl_channel (first_deliveries [] ws)) \<longleftrightarrow>
      cr_kind r = kind_agent \<and> (\<exists>w \<in> set ws. w_channel w = cr_id r)"
    unfolding first_deliveries_channels using row by (intro iffI; clarsimp) metis+
  moreover have "(\<exists>w \<in> set ws. w_channel w = cr_id r) \<longleftrightarrow>
      (\<exists>k. 0 < k \<and> k \<le> N \<and> (cr_id c, cr_id r) \<in> live_edges db ^^ k)" (is "?L \<longleftrightarrow> ?R")
  proof
    assume ?L
    then obtain w n where "0 < n" "n \<le> N" "w \<in> set (level (free_step db) n [walk_start c])" "w_channel w = cr_id r"
      using assms(2) by auto
    then show ?R using free.level_sound [of w db n "walk_start c"] by (auto simp: walk_start_def)
  next
    assume ?R
    then obtain k where k: "0 < k" "k \<le> N" "(cr_id c, cr_id r) \<in> live_edges db ^^ k" by auto
    obtain m w where "0 < m" "m \<le> k" "w \<in> set (level (free_step db) m [walk_start c])" "w_channel w = cr_id r"
      by (rule row_within [OF acyc k(3,1)])
    then show ?L using k(2) assms(2) by (intro bexI [of _ w]) auto
  qed
  moreover have "(\<exists>d \<in> set (first_deliveries [] ws). dl_channel d = cr_id r) \<longleftrightarrow>
      cr_id r \<in> set (map dl_channel (first_deliveries [] ws))"
    unfolding set_map by (metis imageE image_eqI)
  ultimately show ?thesis unfolding live by blast
qed

lemma delivery_detail:
  assumes wf: "chan_wf db" and ws: "set ws = {w. \<exists>n. 0 < n \<and> n \<le> N \<and> w \<in> set (level (free_step db) n [walk_start c])}"
    and "sorted (map (\<lambda>w. (w_depth w, w_channel w)) ws)" and d: "d \<in> set (first_deliveries [] ws)"
  shows "(\<exists>r \<in> set (cdb_channels db). cr_id r = dl_channel d \<and> cr_kind r = kind_agent \<and> cr_entity r = Some (dl_agent d)) \<and>
    (\<exists>b \<in> set (cdb_bridges db). \<exists>k. br_id b = dl_bridge d \<and> br_to b = dl_channel d \<and>
      (cr_id c, br_from b) \<in> edge_set (cdb_bridges db) ^^ k \<and>
      (\<forall>j. 0 < j \<and> j \<le> k \<longrightarrow> (cr_id c, dl_channel d) \<notin> edge_set (cdb_bridges db) ^^ j))"
proof -
  have live: "live_edges db = edge_set (cdb_bridges db)" by (rule live_edges_wf [OF wf])
  have acyc: "acyclic (live_edges db)" using wf by (simp add: live chan_wf_def bridges_wf_def)
  obtain w where w: "w \<in> set ws" "w_kind w = kind_agent" "dl_channel d = w_channel w" "dl_agent d = w_entity w"
    "dl_bridge d = w_bridge w"
    "\<forall>v \<in> set ws. w_channel v = w_channel w \<and> w_kind v = kind_agent \<and> w_entity v \<noteq> [] \<longrightarrow> w_depth w \<le> w_depth v"
    using first_deliveries_first [OF d assms(3)] by auto
  obtain n where n: "0 < n" "n \<le> N" "w \<in> set (level (free_step db) n [walk_start c])" using w(1) ws by auto
  obtain r b where rb: "lookup_row cr_id (w_channel w) (cdb_channels db) = Some r" "w_kind w = cr_kind r"
    "w_entity w = entity_text r" "b \<in> set (cdb_bridges db)" "br_id b = w_bridge w" "br_to b = w_channel w"
    "(cr_id c, br_from b) \<in> live_edges db ^^ (n - 1)" "w_depth w = n"
    by (rule level_row [OF n(3,1)])
  have r: "r \<in> set (cdb_channels db)" "cr_id r = w_channel w" using lookup_row_SomeD [OF rb(1)] by auto
  then have ok: "channel_ok r" using wf by (simp add: chan_wf_def channels_wf_def)
  have shortest: "(cr_id c, w_channel w) \<notin> live_edges db ^^ j" if j: "0 < j" "j \<le> n - 1" for j
  proof
    assume "(cr_id c, w_channel w) \<in> live_edges db ^^ j"
    then obtain m v where v: "0 < m" "m \<le> j" "v \<in> set (level (free_step db) m [walk_start c])" "w_channel v = w_channel w"
      by (rule row_within [OF acyc _ j(1)])
    have "w_kind v = cr_kind r \<and> w_entity v = entity_text r"
      using row_of_channel [OF wf r(1) _ v(3,1)] v(4) r(2) by simp
    moreover have "v \<in> set ws" using ws v(1-3) j n(2) by auto
    ultimately have "w_depth w \<le> w_depth v"
      using w(2,6) v(4) rb(2) entity_text_nonempty [OF ok] by auto
    then show False using level_depth [OF v(3)] rb(8) v(2) j n(1) by (simp add: walk_start_def)
  qed
  have "cr_entity r = Some (entity_text r)"
    using ok rb(2) w(2) by (auto simp: channel_ok_def entity_text_def kind_defs split: option.splits)
  then have "\<exists>r \<in> set (cdb_channels db). cr_id r = dl_channel d \<and> cr_kind r = kind_agent \<and> cr_entity r = Some (dl_agent d)"
    using r rb(2,3) w(2-4) by (intro bexI [OF _ r(1)]) auto
  moreover have "\<exists>k. br_id b = dl_bridge d \<and> br_to b = dl_channel d \<and> (cr_id c, br_from b) \<in> live_edges db ^^ k \<and>
      (\<forall>j. 0 < j \<and> j \<le> k \<longrightarrow> (cr_id c, dl_channel d) \<notin> live_edges db ^^ j)"
    using rb(5-7) w(3,5) shortest by (intro exI [of _ "n - 1"]) auto
  ultimately show ?thesis using rb(4) unfolding live by blast
qed

lemma filter_untouched:
  "(\<And>x. x \<in> set rows \<Longrightarrow> p x \<Longrightarrow> \<not> q x \<and> \<not> q (f x)) \<Longrightarrow> filter q (update_where p f rows) = filter q rows"
  by (induction rows) (auto simp: update_where_def)

lemma find_append: "List.find p (xs @ ys) = (case List.find p xs of None \<Rightarrow> List.find p ys | Some x \<Rightarrow> Some x)"
  by (induction xs) auto

section \<open>Properties\<close>

text \<open>The registry after any sequence of operations, each with its own statement outcomes.\<close>

abbreviation registry :: "chan_op list \<Rightarrow> chan_db" where
  "registry ops \<equiv> run_chan_ops ops empty_chan_db"

lemma registry_wf: "chan_wf (registry ops)"
  by (rule run_chan_ops_wf [OF chan_wf_empty])

abbreviation bridge_graph :: "chan_db \<Rightarrow> (string \<times> string) set" where
  "bridge_graph db \<equiv> edge_set (cdb_bridges db)"

definition sample_ops :: "chan_op list" where
  "sample_ops = [OpEnsure all_ok ''c1'' 1 ''connector'' ''forgejo'' ''Forgejo'' [],
     OpEnsure all_ok ''a1'' 2 ''agent'' ''bot'' ''Bot'' [], OpCreate all_ok ''x1'' 3 ''Group'' [],
     OpBridge all_ok ''b1'' 4 ''c1'' ''x1'' [], OpBridge all_ok ''b2'' 5 ''x1'' ''a1'' []]"

text \<open>
  C7. Whatever operations run one after the other, the registry keeps one channel per id
  and one provisioned channel per (kind, entity), every bridge joins two existing channels of which one is
  custom, no two bridges join the same pair, and the bridge graph has no cycle.
\<close>

theorem channel_registry_invariant:
  "let db = registry ops in
   distinct (map cr_id (cdb_channels db)) \<and>
   (\<forall>r \<in> set (cdb_channels db). \<forall>r' \<in> set (cdb_channels db).
      cr_entity r \<noteq> None \<and> cr_kind r = cr_kind r' \<and> cr_entity r = cr_entity r' \<longrightarrow> r = r') \<and>
   distinct (map (\<lambda>b. (br_from b, br_to b)) (cdb_bridges db)) \<and>
   (\<forall>b \<in> set (cdb_bridges db). \<exists>x \<in> set (cdb_channels db). \<exists>y \<in> set (cdb_channels db).
      cr_id x = br_from b \<and> cr_id y = br_to b \<and> (cr_kind x = kind_custom \<or> cr_kind y = kind_custom)) \<and>
   acyclic (bridge_graph db)"
proof -
  have wf: "chan_wf (registry ops)" by (rule registry_wf)
  have "\<forall>r \<in> set (cdb_channels (registry ops)). \<forall>r' \<in> set (cdb_channels (registry ops)).
      cr_entity r \<noteq> None \<and> cr_kind r = cr_kind r' \<and> cr_entity r = cr_entity r' \<longrightarrow> r = r'"
    using wf by (intro ballI impI same_entity) (auto simp: chan_wf_def)
  then show ?thesis
    using wf unfolding Let_def chan_wf_def channels_wf_def bridges_wf_def endpoints_ok_def by blast
qed

theorem channel_registry_invariant_witness:
  "length (cdb_bridges (registry sample_ops)) = 2 \<and> acyclic (bridge_graph (registry sample_ops))"
proof -
  have "length (cdb_bridges (registry sample_ops)) = 2" by code_simp
  then show ?thesis using channel_registry_invariant [of sample_ops] by (simp only: Let_def simp_thms)
qed

text \<open>
  The recursive query of \<^verbatim>\<open>Reaches\<close> ends by itself after at most one round per bridge and
  answers whether the two channels differ and a path of one or more bridges leads from
  the first to the second; \<^verbatim>\<open>ReachingInto\<close> lists an existing channel and every channel with such a path to it.
\<close>

theorem reaches_iff_path:
  "reaches True a b db = Inr (a \<noteq> b \<and> (a, b) \<in> (bridge_graph db)\<^sup>+) \<and>
   recursive_rows (length (cdb_bridges db) + extra) (reach_step (cdb_bridges db)) [(a, [a])] =
     recursive_rows (length (cdb_bridges db)) (reach_step (cdb_bridges db)) [(a, [a])] \<and>
   (case reaching_into True b db of
      Inl _ \<Rightarrow> False
    | Inr ids \<Rightarrow> set ids = (if has_row cr_id b (cdb_channels db) then {a. (a, b) \<in> (bridge_graph db)\<^sup>*} else {}))"
proof -
  have "(a, b) \<in> (bridge_graph db)\<^sup>* \<longleftrightarrow> (a, b) \<in> (bridge_graph db)\<^sup>+" if "a \<noteq> b"
    using that by (metis rtranclD trancl_into_rtrancl)
  moreover have "\<exists>ids. reaching_into True b db = Inr ids" by (simp add: reaching_into_def Let_def)
  ultimately show ?thesis
    using reaches_star [of a b db] reaching_into_star [of b db]
      forward.rows_stable [of "(a, [a])" "cdb_bridges db" "length (cdb_bridges db)" "length (cdb_bridges db) + extra"]
    by (auto simp: card_edge_set)
qed

text \<open>
  C8. In every reachable registry, bridges deliver an event born in an existing channel into an
  inbox exactly when a path of at most eight bridges leads there: one delivery per inbox
  and per agent, attributed to a bridge that ends a shortest path.
\<close>

theorem deliveries_exact:
  assumes "start \<in> cr_id ` set (cdb_channels (registry ops))"
  shows "\<exists>ds. deliveries True start (registry ops) = Inr ds \<and>
    distinct (map dl_channel ds) \<and> distinct (map dl_agent ds) \<and>
    (\<forall>r \<in> set (cdb_channels (registry ops)).
       (\<exists>d \<in> set ds. dl_channel d = cr_id r) \<longleftrightarrow>
       cr_kind r = kind_agent \<and> (\<exists>k. 0 < k \<and> k \<le> 8 \<and> (start, cr_id r) \<in> bridge_graph (registry ops) ^^ k)) \<and>
    (\<forall>d \<in> set ds.
       (\<exists>r \<in> set (cdb_channels (registry ops)). cr_id r = dl_channel d \<and> cr_entity r = Some (dl_agent d)) \<and>
       (\<exists>b \<in> set (cdb_bridges (registry ops)). \<exists>k. br_id b = dl_bridge d \<and> br_to b = dl_channel d \<and>
         (start, br_from b) \<in> bridge_graph (registry ops) ^^ k \<and>
         (\<forall>j. 0 < j \<and> j \<le> k \<longrightarrow> (start, dl_channel d) \<notin> bridge_graph (registry ops) ^^ j)))"
proof -
  let ?db = "registry ops"
  have wf: "chan_wf ?db" by (rule registry_wf)
  obtain c where c: "c \<in> set (cdb_channels ?db)" "cr_id c = start" using assms by auto
  have "lookup_row cr_id start (cdb_channels ?db) = Some c"
    using wf lookup_row_distinct [OF _ c(1), of cr_id] c(2) by (simp add: chan_wf_def channels_wf_def)
  then obtain ws where ws: "walk True start ?db = Inr ws" "sorted (map (\<lambda>w. (w_depth w, w_channel w)) ws)"
    "set ws = {w. \<exists>n. 0 < n \<and> n \<le> 8 \<and> w \<in> set (level (free_step ?db) n [walk_start c])}"
    by (rule walk_rows [OF wf, unfolded max_walk_depth_def])
  let ?ds = "first_deliveries [] ws"
  have detail: "(\<exists>r \<in> set (cdb_channels ?db). cr_id r = dl_channel d \<and> cr_kind r = kind_agent \<and> cr_entity r = Some (dl_agent d))"
    if "d \<in> set ?ds" for d using delivery_detail [OF wf ws(3,2) that] by (rule conjunct1)
  have "inj_on dl_agent (set ?ds)"
  proof (rule inj_onI)
    fix d d'
    assume dd: "d \<in> set ?ds" "d' \<in> set ?ds" "dl_agent d = dl_agent d'"
    obtain r r' where "r \<in> set (cdb_channels ?db)" "cr_id r = dl_channel d" "cr_kind r = kind_agent" "cr_entity r = Some (dl_agent d)"
      "r' \<in> set (cdb_channels ?db)" "cr_id r' = dl_channel d'" "cr_kind r' = kind_agent" "cr_entity r' = Some (dl_agent d')"
      using detail [OF dd(1)] detail [OF dd(2)] by blast
    then have "dl_channel d = dl_channel d'"
      using same_entity [of "cdb_channels ?db" r r'] wf dd(3) by (simp add: chan_wf_def)
    then show "d = d'" using distinct_map_unique [OF first_deliveries_distinct dd(1,2)] by simp
  qed
  then have "distinct (map dl_agent ?ds)"
    using first_deliveries_distinct [of "[]" ws] by (simp add: distinct_map)
  moreover have "deliveries True start ?db = Inr ?ds" using ws(1) by (simp add: deliveries_def)
  ultimately show ?thesis
    using first_deliveries_distinct [of "[]" ws] delivered_inbox [OF wf ws(3)] delivery_detail [OF wf ws(3,2)] c(2)
    by (intro exI [of _ ?ds] conjI ballI) blast+
qed

theorem deliveries_exact_witness:
  "\<exists>ds. deliveries True ''c1'' (registry sample_ops) = Inr ds \<and> map dl_agent ds = [''bot''] \<and> distinct (map dl_agent ds)"
proof -
  have "list_ex (\<lambda>r. cr_id r = ''c1'') (cdb_channels (registry sample_ops))" by code_simp
  then have "\<exists>r \<in> set (cdb_channels (registry sample_ops)). cr_id r = ''c1''" by (simp only: list_ex_iff)
  then have "''c1'' \<in> cr_id ` set (cdb_channels (registry sample_ops))" by (metis image_eqI)
  then obtain ds where ds: "deliveries True ''c1'' (registry sample_ops) = Inr ds" "distinct (map dl_agent ds)"
    using deliveries_exact by blast
  have "(case deliveries True ''c1'' (registry sample_ops) of Inl _ \<Rightarrow> [] | Inr ds \<Rightarrow> map dl_agent ds) = [''bot'']"
    by code_simp
  with ds show ?thesis by simp
qed

text \<open>
  Provisioning is idempotent per (kind, entity): after a successful \<^verbatim>\<open>Ensure\<close> exactly the
  returned channel is found for the entity, under its old id if it had one, no longer
  orphaned, and no other channel changes. The label becomes the given name or, when that is empty,
  the entity reference: a stored display label is never kept.
\<close>

theorem ensure_exact:
  assumes "ensure pg i now k ref name d (registry ops) = (Inr c, db')"
  shows "ch_name c = (if name = [] then ref else name) \<and> \<not> ch_orphaned c \<and>
    get_by_entity all_ok k ref db' = Inr c \<and>
    ch_id c = (case List.find (owns_entity k ref) (cdb_channels (registry ops)) of None \<Rightarrow> i | Some r \<Rightarrow> cr_id r) \<and>
    filter (\<lambda>r. cr_id r \<noteq> ch_id c) (cdb_channels db') =
      filter (\<lambda>r. cr_id r \<noteq> ch_id c) (cdb_channels (registry ops)) \<and>
    cdb_bridges db' = cdb_bridges (registry ops)"
proof -
  let ?db = "registry ops" and ?ex = "proposed_row i now k ref name d"
  have wf: "channels_wf (cdb_channels ?db)" using registry_wf [of ops] by (simp add: chan_wf_def)
  have ref: "ref \<noteq> []" using assms by (auto simp: ensure_def split: if_splits)
  have owner: "x = y" if "x \<in> set (cdb_channels ?db)" "y \<in> set (cdb_channels ?db)" "owns_entity k ref x" "owns_entity k ref y" for x y
    using same_entity [OF wf that(1,2)] that(3,4) by (simp add: owns_entity_def)
  show ?thesis
  proof (cases "List.find (owns_entity k ref) (cdb_channels ?db)")
    case None
    then have "c = scan_channel ?ex \<and> db' = ?db\<lparr>cdb_channels := cdb_channels ?db @ [?ex]\<rparr>"
      using assms by (auto simp: ensure_def Let_def split: if_splits)
    then show ?thesis
      using None ref
      by (auto simp: get_by_entity_def find_append owns_entity_def scan_channel_def proposed_row_def or_default_def)
  next
    case (Some r)
    let ?f = "refresh_row now ?ex"
    have r: "r \<in> set (cdb_channels ?db)" "owns_entity k ref r" using find_Some_iff_first [OF Some] by auto
    have res: "c = scan_channel (?f r)"
      "db' = ?db\<lparr>cdb_channels := update_where (owns_entity k ref) ?f (cdb_channels ?db)\<rparr>"
      using assms Some by (auto simp: ensure_def Let_def split: if_splits)
    have keeps: "owns_entity k ref (?f x) = owns_entity k ref x" for x by (simp add: owns_entity_def refresh_row_def)
    have "List.find (owns_entity k ref) (update_where (owns_entity k ref) ?f rows) =
        map_option ?f (List.find (owns_entity k ref) rows)" for rows
      by (induction rows) (auto simp: update_where_def keeps)
    then have "get_by_entity all_ok k ref db' = Inr c" using Some res by (simp add: get_by_entity_def)
    moreover have "filter (\<lambda>x. cr_id x \<noteq> cr_id r) (update_where (owns_entity k ref) ?f (cdb_channels ?db)) =
        filter (\<lambda>x. cr_id x \<noteq> cr_id r) (cdb_channels ?db)"
      by (rule filter_untouched) (use owner [OF _ r(1) _ r(2)] in \<open>auto simp: refresh_row_def\<close>)
    ultimately show ?thesis
      using Some ref res by (simp add: scan_channel_def refresh_row_def proposed_row_def or_default_def)
  qed
qed

theorem ensure_exact_witness:
  "\<exists>c db'. ensure all_ok ''c9'' 9 ''connector'' ''forgejo'' [] [] (registry sample_ops) = (Inr c, db') \<and>
     ch_id c = ''c1'' \<and> ch_name c = ''forgejo''"
proof -
  let ?e = "ensure all_ok ''c9'' 9 ''connector'' ''forgejo'' [] [] (registry sample_ops)"
  have "case fst ?e of Inr c \<Rightarrow> ch_id c = ''c1'' | Inl _ \<Rightarrow> False" by code_simp
  then obtain c db' where e: "?e = (Inr c, db')" "ch_id c = ''c1''" by (cases ?e) (auto split: sum.splits)
  then show ?thesis using ensure_exact [OF e(1)] by auto
qed

text \<open>
  The cycle check and the INSERT of \<^verbatim>\<open>CreateBridge\<close> share no transaction: for any two
  custom channels that do not reach each other, a call for one direction that runs between the
  check and the INSERT of a call for the other lets both succeed, and the graph has a cycle.
\<close>

theorem concurrent_bridges_close_cycle:
  assumes "chan_wf db" "a \<noteq> b"
    and "get_channel True a db = Inr x" "get_channel True b db = Inr y" "ch_kind x = kind_custom" "ch_kind y = kind_custom"
    and "(a, b) \<notin> (bridge_graph db)\<^sup>*" "(b, a) \<notin> (bridge_graph db)\<^sup>*"
    and "i \<noteq> j" "\<not> has_row br_id i (cdb_bridges db)" "\<not> has_row br_id j (cdb_bridges db)"
  shows "let other = create_bridge all_ok j now b a name';
             res = create_bridge_env all_ok (\<lambda>d. snd (other d)) i now a b name db in
    (\<exists>b1. fst (other db) = Inr b1) \<and> (\<exists>b2. fst res = Inr b2) \<and> \<not> acyclic (bridge_graph (snd res))"
proof -
  have present: "has_row cr_id a (cdb_channels db)" "has_row cr_id b (cdb_channels db)"
    using assms(3,4) by (auto simp: get_channel_def has_row_iff split: option.splits)
  have free: "\<not> list_ex (\<lambda>z. br_from z = u \<and> br_to z = v) (cdb_bridges db)" if "(u, v) \<notin> (bridge_graph db)\<^sup>*" for u v
    using that by (auto simp: list_ex_iff dest!: edge_setI)
  let ?n2 = "if name' = [] then ch_name y @ arrow @ ch_name x else name'"
  let ?b2 = "\<lparr>br_id = j, br_name = ?n2, br_from = b, br_to = a, br_created = now, br_updated = now\<rparr>"
  let ?n1 = "if name = [] then ch_name x @ arrow @ ch_name y else name"
  let ?b1 = "\<lparr>br_id = i, br_name = ?n1, br_from = a, br_to = b, br_created = now, br_updated = now\<rparr>"
  have other: "create_bridge all_ok j now b a name' db = (Inr ?b2, db\<lparr>cdb_bridges := cdb_bridges db @ [?b2]\<rparr>)"
    using assms present free [OF assms(8)]
    by (simp add: create_bridge_def create_bridge_env_def channel_pair_def reaches_star insert_bridge_def
        get_bridge_def Let_def sql_simps has_row_iff)
  have "create_bridge_env all_ok (\<lambda>d. snd (create_bridge all_ok j now b a name' d)) i now a b name db =
      (Inr ?b1, db\<lparr>cdb_bridges := cdb_bridges db @ [?b2, ?b1]\<rparr>)"
    using assms present free [OF assms(7)] other
    by (simp add: create_bridge_env_def channel_pair_def reaches_star insert_bridge_def
        get_bridge_def Let_def sql_simps has_row_iff)
  moreover have "\<not> acyclic (edge_set (cdb_bridges db @ [?b2, ?b1]))"
  proof -
    have "(a, b) \<in> edge_set (cdb_bridges db @ [?b2, ?b1])" "(b, a) \<in> edge_set (cdb_bridges db @ [?b2, ?b1])"
      by (auto simp: edge_set_def)
    then have "(a, a) \<in> (edge_set (cdb_bridges db @ [?b2, ?b1]))\<^sup>+" by (meson trancl.simps)
    then show ?thesis by (auto simp: acyclic_def)
  qed
  ultimately show ?thesis using other by (simp add: Let_def)
qed

theorem concurrent_bridges_close_cycle_witness:
  "\<not> acyclic (bridge_graph (snd (create_bridge_env all_ok
      (\<lambda>d. snd (create_bridge all_ok ''b2'' 3 ''y'' ''x'' [] d)) ''b1'' 3 ''x'' ''y'' []
      (registry [OpCreate all_ok ''x'' 1 ''X'' [], OpCreate all_ok ''y'' 2 ''Y'' []]))))"
proof -
  let ?db = "registry [OpCreate all_ok ''x'' 1 ''X'' [], OpCreate all_ok ''y'' 2 ''Y'' []]"
  have none: "cdb_bridges ?db = []" by code_simp
  have "case get_channel True ''x'' ?db of Inr c \<Rightarrow> ch_kind c = kind_custom | Inl _ \<Rightarrow> False" by code_simp
  moreover have "case get_channel True ''y'' ?db of Inr c \<Rightarrow> ch_kind c = kind_custom | Inl _ \<Rightarrow> False" by code_simp
  ultimately obtain x y where "get_channel True ''x'' ?db = Inr x" "get_channel True ''y'' ?db = Inr y"
    "ch_kind x = kind_custom" "ch_kind y = kind_custom" by (auto split: sum.splits)
  from concurrent_bridges_close_cycle [OF registry_wf _ this, of "''b1''" "''b2''" 3 "[]" "[]"]
  show ?thesis by (simp add: none Let_def has_row_def del: run_chan_ops.simps)
qed

end
