(* ===== verification/TriggerStore.thy ===== *)
theory TriggerStore
  imports Stores TriggerIndex
begin

text \<open>
  The trigger registry of \<^verbatim>\<open>services/hub/internal/triggers/store.go\<close>: the tables
  \<open>triggers\<close> and \<open>cron_triggers\<close> as lists of rows, and one function per operation.
  The \<open>filters\<close> column holds the JSON form of the filter list, which decodes to the list
  it was encoded from, so the row keeps the list.

  The two partial updates send a SELECT and then an UPDATE on the pool, outside a
  transaction; \<open>env\<close> is what other connections do to the tables between the two.
\<close>

section \<open>Records and tables\<close>

record cron_trigger =
  ct_id :: string
  ct_display_name :: string
  ct_agent_ref :: string
  ct_schedule :: string
  ct_prompt :: string
  ct_enabled :: bool
  ct_agent_valid :: bool
  ct_schedule_valid :: bool
  ct_last_run :: "instant option"
  ct_next_run :: "instant option"
  ct_created_at :: instant
  ct_updated_at :: instant

record trigger_db =
  trigger_rows :: "trigger list"
  cron_rows :: "cron_trigger list"

section \<open>Triggers\<close>

definition create_trigger :: "pg \<Rightarrow> instant \<Rightarrow> trigger \<Rightarrow> trigger_db \<Rightarrow> (trigger, trigger_db) outcome" where
  "create_trigger pg now t db =
     (if \<not> pg 0 then (Inl (StatementError ''insert trigger''), db)
      else if has_row tr_id (tr_id t) (trigger_rows db) then (Inl AlreadyExists, db)
      else (let t' = t\<lparr>tr_created_at := now, tr_updated_at := now\<rparr>
            in (Inr t', db\<lparr>trigger_rows := trigger_rows db @ [t']\<rparr>)))"

definition get_trigger :: "pg \<Rightarrow> string \<Rightarrow> trigger_db \<Rightarrow> store_error + trigger" where
  "get_trigger pg i db =
     (if \<not> pg 0 then Inl (StatementError ''triggers.GetTrigger'')
      else (case lookup_row tr_id i (trigger_rows db) of
              None \<Rightarrow> Inl NotFound
            | Some t \<Rightarrow> Inr t))"

definition list_triggers :: "pg \<Rightarrow> string \<Rightarrow> string \<Rightarrow> trigger_db \<Rightarrow> store_error + trigger list" where
  "list_triggers pg agent_ref connector_ref db =
     (if \<not> pg 0 then Inl (StatementError ''triggers.ListTriggers'')
      else Inr (sort_key tr_id
             (filter (\<lambda>t. (agent_ref \<noteq> [] \<longrightarrow> tr_agent_ref t = agent_ref) \<and>
                          (connector_ref \<noteq> [] \<longrightarrow> tr_connector_ref t = connector_ref))
                (trigger_rows db))))"

text \<open>The merge of the row that was read with the pointers that are not nil.\<close>

definition merge_trigger ::
  "trigger \<Rightarrow> string option \<Rightarrow> string option \<Rightarrow> string option \<Rightarrow> flt list option \<Rightarrow> instant \<Rightarrow> trigger" where
  "merge_trigger cur display_name agent_ref connector_ref filters now =
     cur\<lparr>tr_display_name := (case display_name of None \<Rightarrow> tr_display_name cur | Some v \<Rightarrow> v),
         tr_agent_ref := (case agent_ref of None \<Rightarrow> tr_agent_ref cur | Some v \<Rightarrow> v),
         tr_agent_valid := (case agent_ref of None \<Rightarrow> tr_agent_valid cur | Some _ \<Rightarrow> False),
         tr_connector_ref := (case connector_ref of None \<Rightarrow> tr_connector_ref cur | Some v \<Rightarrow> v),
         tr_connector_valid := (case connector_ref of None \<Rightarrow> tr_connector_valid cur | Some _ \<Rightarrow> False),
         tr_filters := (case filters of None \<Rightarrow> tr_filters cur | Some v \<Rightarrow> v),
         tr_updated_at := now\<rparr>"

text \<open>The UPDATE sets every column but the id and the creation time.\<close>

definition write_trigger :: "trigger \<Rightarrow> trigger \<Rightarrow> trigger" where
  "write_trigger new row =
     row\<lparr>tr_display_name := tr_display_name new, tr_agent_ref := tr_agent_ref new,
         tr_connector_ref := tr_connector_ref new, tr_filters := tr_filters new,
         tr_agent_valid := tr_agent_valid new, tr_connector_valid := tr_connector_valid new,
         tr_updated_at := tr_updated_at new\<rparr>"

definition update_trigger_env ::
  "(trigger_db \<Rightarrow> trigger_db) \<Rightarrow> pg \<Rightarrow> instant \<Rightarrow> string \<Rightarrow> string option \<Rightarrow> string option \<Rightarrow> string option \<Rightarrow>
   flt list option \<Rightarrow> trigger_db \<Rightarrow> (trigger, trigger_db) outcome" where
  "update_trigger_env env pg now i display_name agent_ref connector_ref filters db =
     (if \<not> pg 0 then (Inl (StatementError ''triggers.UpdateTrigger''), db)
      else (case lookup_row tr_id i (trigger_rows db) of
              None \<Rightarrow> (Inl NotFound, db)
            | Some cur \<Rightarrow>
                let new = merge_trigger cur display_name agent_ref connector_ref filters now;
                    db1 = env db
                in if \<not> pg 1 then (Inl (StatementError ''triggers.UpdateTrigger''), db1)
                   else (Inr new,
                         db1\<lparr>trigger_rows :=
                           update_where (\<lambda>r. tr_id r = i) (write_trigger new) (trigger_rows db1)\<rparr>)))"

definition update_trigger ::
  "pg \<Rightarrow> instant \<Rightarrow> string \<Rightarrow> string option \<Rightarrow> string option \<Rightarrow> string option \<Rightarrow> flt list option \<Rightarrow>
   trigger_db \<Rightarrow> (trigger, trigger_db) outcome" where
  "update_trigger = update_trigger_env (\<lambda>db. db)"

definition delete_trigger :: "pg \<Rightarrow> string \<Rightarrow> trigger_db \<Rightarrow> (unit, trigger_db) outcome" where
  "delete_trigger pg i db =
     (if \<not> pg 0 then (Inl (StatementError ''triggers.DeleteTrigger''), db)
      else if \<not> has_row tr_id i (trigger_rows db) then (Inl NotFound, db)
      else (Inr (), db\<lparr>trigger_rows := delete_rows tr_id i (trigger_rows db)\<rparr>))"

definition set_trigger_validity ::
  "pg \<Rightarrow> instant \<Rightarrow> string \<Rightarrow> bool \<Rightarrow> bool \<Rightarrow> trigger_db \<Rightarrow> (unit, trigger_db) outcome" where
  "set_trigger_validity pg now i agent_valid connector_valid db =
     (if \<not> pg 0 then (Inl (StatementError ''triggers.SetTriggerValidity''), db)
      else (Inr (), db\<lparr>trigger_rows :=
              update_where (\<lambda>r. tr_id r = i)
                (\<lambda>r. r\<lparr>tr_agent_valid := agent_valid, tr_connector_valid := connector_valid,
                       tr_updated_at := now\<rparr>) (trigger_rows db)\<rparr>))"

section \<open>Cron triggers\<close>

text \<open>\<open>last_run\<close> and \<open>next_run\<close> are not among the inserted columns, so they start as NULL.\<close>

definition create_cron_trigger ::
  "pg \<Rightarrow> instant \<Rightarrow> cron_trigger \<Rightarrow> trigger_db \<Rightarrow> (cron_trigger, trigger_db) outcome" where
  "create_cron_trigger pg now ct db =
     (if \<not> pg 0 then (Inl (StatementError ''insert cron trigger''), db)
      else if has_row ct_id (ct_id ct) (cron_rows db) then (Inl AlreadyExists, db)
      else (let ct' = ct\<lparr>ct_created_at := now, ct_updated_at := now\<rparr>
            in (Inr ct', db\<lparr>cron_rows := cron_rows db @ [ct'\<lparr>ct_last_run := None, ct_next_run := None\<rparr>]\<rparr>)))"

definition get_cron_trigger :: "pg \<Rightarrow> string \<Rightarrow> trigger_db \<Rightarrow> store_error + cron_trigger" where
  "get_cron_trigger pg i db =
     (if \<not> pg 0 then Inl (StatementError ''triggers.GetCronTrigger'')
      else (case lookup_row ct_id i (cron_rows db) of
              None \<Rightarrow> Inl NotFound
            | Some ct \<Rightarrow> Inr ct))"

definition list_cron_triggers :: "pg \<Rightarrow> string \<Rightarrow> trigger_db \<Rightarrow> store_error + cron_trigger list" where
  "list_cron_triggers pg agent_ref db =
     (if \<not> pg 0 then Inl (StatementError ''triggers.ListCronTriggers'')
      else Inr (sort_key ct_id
             (filter (\<lambda>ct. agent_ref \<noteq> [] \<longrightarrow> ct_agent_ref ct = agent_ref) (cron_rows db))))"

text \<open>The returned record has no run times: the SELECT does not read them.\<close>

definition merge_cron_trigger ::
  "cron_trigger \<Rightarrow> string option \<Rightarrow> string option \<Rightarrow> string option \<Rightarrow> string option \<Rightarrow> bool option \<Rightarrow>
   instant \<Rightarrow> cron_trigger" where
  "merge_cron_trigger cur display_name agent_ref schedule prompt enabled now =
     cur\<lparr>ct_display_name := (case display_name of None \<Rightarrow> ct_display_name cur | Some v \<Rightarrow> v),
         ct_agent_ref := (case agent_ref of None \<Rightarrow> ct_agent_ref cur | Some v \<Rightarrow> v),
         ct_agent_valid := (case agent_ref of None \<Rightarrow> ct_agent_valid cur | Some _ \<Rightarrow> False),
         ct_schedule := (case schedule of None \<Rightarrow> ct_schedule cur | Some v \<Rightarrow> v),
         ct_schedule_valid := (case schedule of None \<Rightarrow> ct_schedule_valid cur | Some _ \<Rightarrow> False),
         ct_prompt := (case prompt of None \<Rightarrow> ct_prompt cur | Some v \<Rightarrow> v),
         ct_enabled := (case enabled of None \<Rightarrow> ct_enabled cur | Some v \<Rightarrow> v),
         ct_last_run := None, ct_next_run := None, ct_updated_at := now\<rparr>"

definition write_cron_trigger :: "cron_trigger \<Rightarrow> cron_trigger \<Rightarrow> cron_trigger" where
  "write_cron_trigger new row =
     row\<lparr>ct_display_name := ct_display_name new, ct_agent_ref := ct_agent_ref new,
         ct_schedule := ct_schedule new, ct_prompt := ct_prompt new, ct_enabled := ct_enabled new,
         ct_agent_valid := ct_agent_valid new, ct_schedule_valid := ct_schedule_valid new,
         ct_updated_at := ct_updated_at new\<rparr>"

definition update_cron_trigger_env ::
  "(trigger_db \<Rightarrow> trigger_db) \<Rightarrow> pg \<Rightarrow> instant \<Rightarrow> string \<Rightarrow> string option \<Rightarrow> string option \<Rightarrow> string option \<Rightarrow>
   string option \<Rightarrow> bool option \<Rightarrow> trigger_db \<Rightarrow> (cron_trigger, trigger_db) outcome" where
  "update_cron_trigger_env env pg now i display_name agent_ref schedule prompt enabled db =
     (if \<not> pg 0 then (Inl (StatementError ''triggers.UpdateCronTrigger''), db)
      else (case lookup_row ct_id i (cron_rows db) of
              None \<Rightarrow> (Inl NotFound, db)
            | Some cur \<Rightarrow>
                let new = merge_cron_trigger cur display_name agent_ref schedule prompt enabled now;
                    db1 = env db
                in if \<not> pg 1 then (Inl (StatementError ''triggers.UpdateCronTrigger''), db1)
                   else (Inr new,
                         db1\<lparr>cron_rows :=
                           update_where (\<lambda>r. ct_id r = i) (write_cron_trigger new) (cron_rows db1)\<rparr>)))"

definition delete_cron_trigger :: "pg \<Rightarrow> string \<Rightarrow> trigger_db \<Rightarrow> (unit, trigger_db) outcome" where
  "delete_cron_trigger pg i db =
     (if \<not> pg 0 then (Inl (StatementError ''triggers.DeleteCronTrigger''), db)
      else if \<not> has_row ct_id i (cron_rows db) then (Inl NotFound, db)
      else (Inr (), db\<lparr>cron_rows := delete_rows ct_id i (cron_rows db)\<rparr>))"

definition set_cron_trigger_validity ::
  "pg \<Rightarrow> instant \<Rightarrow> string \<Rightarrow> bool \<Rightarrow> bool \<Rightarrow> trigger_db \<Rightarrow> (unit, trigger_db) outcome" where
  "set_cron_trigger_validity pg now i agent_valid schedule_valid db =
     (if \<not> pg 0 then (Inl (StatementError ''triggers.SetCronTriggerValidity''), db)
      else (Inr (), db\<lparr>cron_rows :=
              update_where (\<lambda>r. ct_id r = i)
                (\<lambda>r. r\<lparr>ct_agent_valid := agent_valid, ct_schedule_valid := schedule_valid,
                       ct_updated_at := now\<rparr>) (cron_rows db)\<rparr>))"

definition update_cron_trigger_run_times ::
  "pg \<Rightarrow> instant \<Rightarrow> string \<Rightarrow> instant option \<Rightarrow> instant option \<Rightarrow> trigger_db \<Rightarrow> (unit, trigger_db) outcome" where
  "update_cron_trigger_run_times pg now i last_run next_run db =
     (if \<not> pg 0 then (Inl (StatementError ''triggers.UpdateCronTriggerRunTimes''), db)
      else (Inr (), db\<lparr>cron_rows :=
              update_where (\<lambda>r. ct_id r = i)
                (\<lambda>r. r\<lparr>ct_last_run := last_run, ct_next_run := next_run, ct_updated_at := now\<rparr>)
                (cron_rows db)\<rparr>))"

section \<open>The tables as keyed stores\<close>

interpretation trigger_table: keyed_store
  "create_trigger all_ok now" "get_trigger all_ok" "delete_trigger all_ok" tr_id
  "\<lambda>t. t\<lparr>tr_created_at := now, tr_updated_at := now\<rparr>"
  "\<lambda>t. t\<lparr>tr_created_at := now, tr_updated_at := now\<rparr>"
  "\<lambda>db i. lookup_row tr_id i (trigger_rows db)"
  for now
  by unfold_locales
    (auto simp: create_trigger_def get_trigger_def delete_trigger_def has_row_iff sql_simps Let_def
      fun_eq_iff split: option.split)

interpretation cron_table: keyed_store
  "create_cron_trigger all_ok now" "get_cron_trigger all_ok" "delete_cron_trigger all_ok" ct_id
  "\<lambda>t. t\<lparr>ct_created_at := now, ct_updated_at := now, ct_last_run := None, ct_next_run := None\<rparr>"
  "\<lambda>t. t\<lparr>ct_created_at := now, ct_updated_at := now\<rparr>"
  "\<lambda>db i. lookup_row ct_id i (cron_rows db)"
  for now
  by unfold_locales
    (auto simp: create_cron_trigger_def get_cron_trigger_def delete_cron_trigger_def has_row_iff sql_simps
      Let_def fun_eq_iff split: option.split)

lemma write_trigger_id [simp]: "tr_id (write_trigger new r) = tr_id r"
  by (simp add: write_trigger_def)

lemma write_cron_trigger_id [simp]: "ct_id (write_cron_trigger new r) = ct_id r"
  by (simp add: write_cron_trigger_def)

section \<open>Properties\<close>

text \<open>
  The life of a trigger id: unknown ids answer not-found, a created trigger is
  returned with its timestamps, creating the id again is refused, deleting it makes it
  unknown again (and only once), and no other id is affected.
\<close>

theorem trigger_life_cycle:
  assumes "lookup_row tr_id (tr_id t) (trigger_rows db) = None"
  shows "get_trigger all_ok (tr_id t) db = Inl NotFound \<and>
    get_trigger all_ok (tr_id t) (snd (create_trigger all_ok now t db)) =
      Inr (t\<lparr>tr_created_at := now, tr_updated_at := now\<rparr>) \<and>
    fst (create_trigger all_ok now t (snd (create_trigger all_ok now t db))) = Inl AlreadyExists \<and>
    get_trigger all_ok (tr_id t) (snd (delete_trigger all_ok (tr_id t) (snd (create_trigger all_ok now t db))))
      = Inl NotFound \<and>
    (\<forall>i. i \<noteq> tr_id t \<longrightarrow> get_trigger all_ok i (snd (create_trigger all_ok now t db)) = get_trigger all_ok i db)"
  using trigger_table.record_life_cycle [OF assms refl] by blast

theorem trigger_life_cycle_witness:
  "get_trigger all_ok ''t'' (snd (create_trigger all_ok 5
      \<lparr>tr_id = ''t'', tr_display_name = ''n'', tr_agent_ref = ''a'', tr_connector_ref = ''c'', tr_filters = [],
       tr_agent_valid = False, tr_connector_valid = False, tr_created_at = 0, tr_updated_at = 0\<rparr>
      \<lparr>trigger_rows = [], cron_rows = []\<rparr>)) =
   Inr \<lparr>tr_id = ''t'', tr_display_name = ''n'', tr_agent_ref = ''a'', tr_connector_ref = ''c'', tr_filters = [],
       tr_agent_valid = False, tr_connector_valid = False, tr_created_at = 5, tr_updated_at = 5\<rparr>"
  (is "get_trigger _ _ (snd (create_trigger _ _ ?t ?db)) = _")
proof -
  have "lookup_row tr_id (tr_id ?t) (trigger_rows ?db) = None" by (simp add: sql_simps)
  from trigger_life_cycle [OF this, of 5] show ?thesis by simp
qed


text \<open>The row another operation finds after a partial update.\<close>

lemma update_trigger_env_row:
  assumes "lookup_row tr_id i (trigger_rows db) = Some cur"
    "lookup_row tr_id i (trigger_rows (env db)) = Some row"
  shows "lookup_row tr_id i (trigger_rows (snd (update_trigger_env env all_ok now i n a c fs db))) =
      Some (write_trigger (merge_trigger cur n a c fs now) row)"
    "fst (update_trigger_env env all_ok now i n a c fs db) = Inr (merge_trigger cur n a c fs now)"
  using assms by (simp_all add: update_trigger_env_def Let_def sql_simps)

text \<open>
  A partial update changes exactly the columns it was given, clears the validity flag
  of a reference it changes and keeps the other one, leaves every other trigger alone,
  and returns the row a later read finds.
\<close>

theorem update_trigger_partial:
  assumes "lookup_row tr_id i (trigger_rows db) = Some cur"
  shows "\<exists>new. fst (update_trigger all_ok now i n a c fs db) = Inr new \<and>
    get_trigger all_ok i (snd (update_trigger all_ok now i n a c fs db)) = Inr new \<and>
    tr_id new = i \<and> tr_created_at new = tr_created_at cur \<and> tr_updated_at new = now \<and>
    tr_display_name new = case_option (tr_display_name cur) id n \<and>
    tr_agent_ref new = case_option (tr_agent_ref cur) id a \<and>
    tr_connector_ref new = case_option (tr_connector_ref cur) id c \<and>
    tr_filters new = case_option (tr_filters cur) id fs \<and>
    (tr_agent_valid new \<longleftrightarrow> a = None \<and> tr_agent_valid cur) \<and>
    (tr_connector_valid new \<longleftrightarrow> c = None \<and> tr_connector_valid cur) \<and>
    (\<forall>j. j \<noteq> i \<longrightarrow> get_trigger all_ok j (snd (update_trigger all_ok now i n a c fs db)) = get_trigger all_ok j db)"
proof -
  let ?new = "merge_trigger cur n a c fs now"
  have ident: "tr_id cur = i" using lookup_row_SomeD [OF assms] by simp
  have row: "write_trigger ?new cur = ?new"
    by (simp add: write_trigger_def merge_trigger_def)
  have others: "get_trigger all_ok j (snd (update_trigger all_ok now i n a c fs db)) = get_trigger all_ok j db"
    if "j \<noteq> i" for j
    using that assms
    by (simp add: update_trigger_def update_trigger_env_def get_trigger_def Let_def sql_simps)
  have result: "fst (update_trigger all_ok now i n a c fs db) = Inr ?new"
    "get_trigger all_ok i (snd (update_trigger all_ok now i n a c fs db)) = Inr ?new"
    using update_trigger_env_row [OF assms, of "\<lambda>db. db" cur, OF assms] row
    by (simp_all add: update_trigger_def get_trigger_def)
  have columns: "tr_id ?new = i \<and> tr_created_at ?new = tr_created_at cur \<and> tr_updated_at ?new = now \<and>
    tr_display_name ?new = case_option (tr_display_name cur) id n \<and>
    tr_agent_ref ?new = case_option (tr_agent_ref cur) id a \<and>
    tr_connector_ref ?new = case_option (tr_connector_ref cur) id c \<and>
    tr_filters ?new = case_option (tr_filters cur) id fs \<and>
    (tr_agent_valid ?new \<longleftrightarrow> a = None \<and> tr_agent_valid cur) \<and>
    (tr_connector_valid ?new \<longleftrightarrow> c = None \<and> tr_connector_valid cur)"
    by (simp add: merge_trigger_def ident split: option.split)
  show ?thesis using result columns others by blast
qed

theorem update_trigger_partial_witness:
  "\<exists>new. get_trigger all_ok ''t'' (snd (update_trigger all_ok 9 ''t'' None (Some ''b'') None None
      \<lparr>trigger_rows = [\<lparr>tr_id = ''t'', tr_display_name = ''n'', tr_agent_ref = ''a'', tr_connector_ref = ''c'',
         tr_filters = [], tr_agent_valid = True, tr_connector_valid = True, tr_created_at = 0,
         tr_updated_at = 0\<rparr>], cron_rows = []\<rparr>)) = Inr new \<and>
   tr_agent_ref new = ''b'' \<and> \<not> tr_agent_valid new \<and> tr_connector_valid new"
  (is "\<exists>new. get_trigger _ _ (snd (update_trigger _ _ _ _ _ _ _ \<lparr>trigger_rows = [?t], cron_rows = []\<rparr>)) = _ \<and> _")
proof -
  have "lookup_row tr_id ''t'' (trigger_rows \<lparr>trigger_rows = [?t], cron_rows = []\<rparr>) = Some ?t"
    by (simp add: sql_simps)
  from update_trigger_partial [OF this, of 9 None "Some ''b''" None None] show ?thesis by auto
qed

text \<open>A second request that retargets a trigger, as a step of the environment.\<close>

definition retarget :: "instant \<Rightarrow> string \<Rightarrow> string \<Rightarrow> trigger_db \<Rightarrow> trigger_db" where
  "retarget now i a d = snd (update_trigger all_ok now i None (Some a) None None d)"

text \<open>
  The SELECT \<open>FOR UPDATE\<close> of a partial update holds no lock when its UPDATE runs, since
  the two are not in one transaction: when a second request retargets the trigger in
  between, both requests report success and the second one's agent reference is lost.
\<close>

theorem update_trigger_lost_update:
  assumes "lookup_row tr_id i (trigger_rows db) = Some cur"
  shows "fst (update_trigger all_ok now1 i None (Some a') None None db) =
      Inr (merge_trigger cur None (Some a') None None now1) \<and>
    fst (update_trigger_env (retarget now1 i a') all_ok now2 i (Some n) None None None db) =
      Inr (merge_trigger cur (Some n) None None None now2) \<and>
    (\<exists>row. get_trigger all_ok i
        (snd (update_trigger_env (retarget now1 i a') all_ok now2 i (Some n) None None None db)) = Inr row \<and>
       tr_agent_ref row = tr_agent_ref cur \<and> tr_agent_valid row = tr_agent_valid cur)"
proof -
  note first = update_trigger_env_row [OF assms(1), of "\<lambda>db. db" cur, OF assms(1)]
  from first(1) have mid: "lookup_row tr_id i (trigger_rows (retarget now1 i a' db)) =
      Some (write_trigger (merge_trigger cur None (Some a') None None now1) cur)"
    by (simp add: retarget_def update_trigger_def)
  from update_trigger_env_row [where env = "retarget now1 i a'", OF assms(1) mid] first(2) show ?thesis
    by (simp add: update_trigger_def get_trigger_def) (simp add: write_trigger_def merge_trigger_def)
qed

theorem update_trigger_lost_update_witness:
  "\<exists>row. get_trigger all_ok ''t''
      (snd (update_trigger_env (retarget 1 ''t'' ''b'') all_ok 2 ''t'' (Some ''x'') None None None
      \<lparr>trigger_rows = [\<lparr>tr_id = ''t'', tr_display_name = ''n'', tr_agent_ref = ''a'', tr_connector_ref = ''c'',
         tr_filters = [], tr_agent_valid = True, tr_connector_valid = True, tr_created_at = 0,
         tr_updated_at = 0\<rparr>], cron_rows = []\<rparr>)) = Inr row \<and> tr_agent_ref row = ''a''"
  (is "\<exists>row. get_trigger _ _ (snd (update_trigger_env _ _ _ _ _ _ _ _ \<lparr>trigger_rows = [?t], cron_rows = []\<rparr>)) = _ \<and> _")
proof -
  have "lookup_row tr_id ''t'' (trigger_rows \<lparr>trigger_rows = [?t], cron_rows = []\<rparr>) = Some ?t"
    by (simp add: sql_simps)
  from update_trigger_lost_update [OF this, of 1 "''b''" 2 "''x''"] show ?thesis by auto
qed

text \<open>
  After its agent or connector reference is changed, a trigger matches no event until
  its validity has been set again.
\<close>

theorem retargeted_trigger_is_inert:
  assumes "lookup_row tr_id i (trigger_rows db) = Some cur" "a \<noteq> None \<or> c \<noteq> None"
    and "fst (update_trigger all_ok now i n a c fs db) = Inr new"
    and "index_match re (index_update idx new) evt = Inr ms"
    and "index_wf idx"
  shows "i \<notin> tm_trigger ` set ms"
proof
  assume "i \<in> tm_trigger ` set ms"
  then obtain m where m: "m \<in> set ms" "tm_trigger m = i" by auto
  have new: "new = merge_trigger cur n a c fs now"
    using assms(3) update_trigger_env_row(2) [OF assms(1), of "\<lambda>db. db" cur, OF assms(1)]
    by (simp add: update_trigger_def)
  have ident: "tr_id new = i"
    using lookup_row_SomeD [OF assms(1)] by (simp add: new merge_trigger_def)
  obtain payload where p: "build_filter_payload evt = Inr payload"
    using assms(4) by (auto simp: index_match_def split: sum.splits)
  from index_match_valid_flags [OF index_wf_update [OF assms(5), of new] p assms(4) m(1)] m(2)
  obtain t where "map_of (index_update idx new) i = Some t" "tr_agent_valid t" "tr_connector_valid t" by auto
  then have "tr_agent_valid new" "tr_connector_valid new" by (auto simp: index_update_def ident)
  with assms(2) show False by (auto simp: new merge_trigger_def split: option.splits)
qed

theorem retargeted_trigger_is_inert_witness:
  "\<exists>new ms. fst (update_trigger all_ok 9 ''t'' None (Some ''b'') None None
      \<lparr>trigger_rows = [\<lparr>tr_id = ''t'', tr_display_name = ''n'', tr_agent_ref = ''a'', tr_connector_ref = ''c'',
         tr_filters = [], tr_agent_valid = True, tr_connector_valid = True, tr_created_at = 0,
         tr_updated_at = 0\<rparr>], cron_rows = []\<rparr>) = Inr new \<and>
    index_match (\<lambda>_ _. None) (index_update [] new)
      \<lparr>evt_id = ''e'', evt_version = ''1'', evt_connector = ''c'', evt_timestamp = 0, evt_headers = [],
       evt_data = None, evt_raw = []\<rparr> = Inr ms \<and> ''t'' \<notin> tm_trigger ` set ms"
  (is "\<exists>new ms. fst (update_trigger _ _ _ _ _ _ _ \<lparr>trigger_rows = [?t], cron_rows = []\<rparr>) = _ \<and>
     index_match _ _ ?evt = _ \<and> _")
proof -
  let ?db = "\<lparr>trigger_rows = [?t], cron_rows = []\<rparr>"
  have l: "lookup_row tr_id ''t'' (trigger_rows ?db) = Some ?t" by (simp add: sql_simps)
  obtain new where new: "fst (update_trigger all_ok 9 ''t'' None (Some ''b'') None None ?db) = Inr new"
    using update_trigger_env_row(2) [OF l, of "\<lambda>db. db" ?t, OF l] by (simp add: update_trigger_def)
  obtain ms where ms: "index_match (\<lambda>_ _. None) (index_update [] new) ?evt = Inr ms"
    by (simp add: index_match_def build_filter_payload_def)
  have wf: "index_wf []" by (simp add: index_wf_def)
  from retargeted_trigger_is_inert [OF l _ new ms wf] new ms show ?thesis by auto
qed

end
