(* ===== verification/ChannelService.thy ===== *)
theory ChannelService
  imports ChannelGraph EventQuery TriggerStore
begin

text \<open>
  The channel service and the reconciler (\<^verbatim>\<open>services/hub/internal/channels/service.go\<close>,
  \<^verbatim>\<open>reconcile.go\<close>): views over the channel registry, the event queue and the trigger
  registry, and the pass that provisions channels and adopts stored events.

  Calls into the three stores are numbered in the order the code makes them; \<open>io n\<close> is the outcome of the
  statements of the \<open>n\<close>-th call.
\<close>

type_synonym calls = "nat \<Rightarrow> pg"

abbreviation io_ok :: calls where "io_ok \<equiv> (\<lambda>_ _. True)"

text \<open>The stores the service is wired over; the trigger registry may be absent.\<close>

record channel_world =
  cw_db :: chan_db
  cw_queue :: queue
  cw_triggers :: "trigger_db option"

section \<open>Views\<close>

record subscription =
  su_source :: string
  su_ref :: string
  su_name :: string
  su_from :: string
  su_to :: string
  su_from_ref :: string
  su_to_ref :: string

definition source_trigger :: string where "source_trigger = ''trigger''"
definition source_bridge :: string where "source_bridge = ''bridge''"

record counts =
  cn_events :: nat
  cn_unmatched :: nat
  cn_failed :: nat

definition no_counts :: counts where "no_counts = \<lparr>cn_events = 0, cn_unmatched = 0, cn_failed = 0\<rparr>"

record channel_view =
  vw_channel :: channel
  vw_counts :: counts
  vw_bridges :: nat
  vw_subscriptions :: nat

record channel_detail =
  dt_view :: channel_view
  dt_incoming :: "subscription list"
  dt_outgoing :: "subscription list"

text \<open>\<open>kind#ref\<close>, the key of a provisioned channel in the map the subscriptions are resolved with.\<close>

definition chan_key :: "kind \<Rightarrow> string \<Rightarrow> string" where
  "chan_key k ref = k @ ''#'' @ ref"

definition by_entity :: "channel list \<Rightarrow> string \<Rightarrow> string" where
  "by_entity cs key =
     (case map_of (rev (map (\<lambda>c. (chan_key (ch_kind c) (ch_entity c), ch_id c)) (filter (\<lambda>c. ch_entity c \<noteq> []) cs))) key of
        None \<Rightarrow> [] | Some i \<Rightarrow> i)"

definition trigger_subscription :: "channel list \<Rightarrow> trigger \<Rightarrow> subscription" where
  "trigger_subscription cs t =
     \<lparr>su_source = source_trigger, su_ref = tr_id t, su_name = first_non_empty [tr_display_name t, tr_id t],
      su_from = by_entity cs (chan_key kind_connector (tr_connector_ref t)),
      su_to = by_entity cs (chan_key kind_agent (tr_agent_ref t)),
      su_from_ref = tr_connector_ref t, su_to_ref = tr_agent_ref t\<rparr>"

definition bridge_subscription :: "bridge \<Rightarrow> subscription" where
  "bridge_subscription b =
     \<lparr>su_source = source_bridge, su_ref = br_id b, su_name = br_name b, su_from = br_from b, su_to = br_to b,
      su_from_ref = [], su_to_ref = []\<rparr>"

definition subscriptions :: "calls \<Rightarrow> channel_world \<Rightarrow> chan_error + subscription list" where
  "subscriptions io w =
     (case list_channels (io 0 0) [] (cw_db w) of
        Inl e \<Rightarrow> Inl e
      | Inr cs \<Rightarrow>
          (case (case cw_triggers w of
                   None \<Rightarrow> Inr []
                 | Some tdb \<Rightarrow> (case list_triggers (io 1) [] [] tdb of
                     Inl _ \<Rightarrow> Inl (ChStatement ''channels: list trigger subscriptions'')
                   | Inr ts \<Rightarrow> Inr (map (trigger_subscription cs) (sort_key tr_id ts)))) of
             Inl e \<Rightarrow> Inl e
           | Inr out \<Rightarrow>
               (case list_bridges (io 2 0) [] (cw_db w) of
                  Inl e \<Rightarrow> Inl e
                | Inr bs \<Rightarrow> Inr (out @ map bridge_subscription bs))))"

text \<open>Both ends of an edge count; an end that was never provisioned does not.\<close>

definition degree :: "subscription list \<Rightarrow> string \<Rightarrow> nat" where
  "degree subs i =
     (if i = [] then 0 else length (filter (\<lambda>e. e = i) (concat (map (\<lambda>s. [su_from s, su_to s]) subs))))"

definition bridge_degree :: "subscription list \<Rightarrow> string \<Rightarrow> nat" where
  "bridge_degree subs i = degree (filter (\<lambda>s. su_source s = source_bridge) subs) i"

definition birth_by :: "birth_stat list \<Rightarrow> string \<Rightarrow> counts" where
  "birth_by bs i =
     (case map_of (rev (map (\<lambda>b. (bs_channel b, b)) bs)) i of
        None \<Rightarrow> no_counts
      | Some b \<Rightarrow> \<lparr>cn_events = bs_events b, cn_unmatched = bs_unmatched b, cn_failed = bs_failed b\<rparr>)"

definition delivery_by :: "delivery_stat list \<Rightarrow> string \<Rightarrow> counts" where
  "delivery_by ds a =
     (case map_of (rev (map (\<lambda>d. (ds_agent d, d)) ds)) a of
        None \<Rightarrow> no_counts
      | Some d \<Rightarrow> \<lparr>cn_events = ds_events d, cn_unmatched = 0, cn_failed = ds_failed d\<rparr>)"

text \<open>The reverse closures of the custom channels, one query each, from call \<open>n\<close> on.\<close>

fun closures :: "calls \<Rightarrow> nat \<Rightarrow> channel list \<Rightarrow> chan_db \<Rightarrow> chan_error + (string \<times> string list) list" where
  "closures io n [] db = Inr []"
| "closures io n (c # cs) db =
     (if ch_kind c = kind_custom then
        (case reaching_into (io n 0) (ch_id c) db of
           Inl e \<Rightarrow> Inl e
         | Inr ids \<Rightarrow> (case closures io (Suc n) cs db of Inl e \<Rightarrow> Inl e | Inr m \<Rightarrow> Inr ((ch_id c, ids) # m)))
      else closures io n cs db)"

definition default_window :: duration where "default_window = 24 * 3600 * 10 ^ 9"

definition count_of ::
  "birth_stat list \<Rightarrow> delivery_stat list \<Rightarrow> (string \<times> string list) list \<Rightarrow> channel \<Rightarrow> counts" where
  "count_of births deliv closure c =
     (if ch_kind c = kind_connector then birth_by births (ch_id c)
      else if ch_kind c = kind_agent then delivery_by deliv (ch_entity c)
      else if ch_kind c = kind_custom then
        no_counts\<lparr>cn_events := sum_list (map (\<lambda>i. cn_events (birth_by births i))
          (case map_of closure (ch_id c) of None \<Rightarrow> [] | Some ids \<Rightarrow> ids))\<rparr>
      else no_counts)"

definition counts_for ::
  "calls \<Rightarrow> instant \<Rightarrow> channel list \<Rightarrow> instant option \<Rightarrow> channel_world \<Rightarrow> chan_error + (channel \<Rightarrow> counts)" where
  "counts_for io now rows since w =
     (if rows = [] then Inr (\<lambda>_. no_counts)
      else let since = (case since of None \<Rightarrow> now - default_window | Some s \<Rightarrow> s) in
        (case birth_stats (io 0) since (cw_queue w) of
           Inl e \<Rightarrow> Inl (ChStatement e)
         | Inr births \<Rightarrow>
             (case delivery_stats (io 1) since (cw_queue w) of
                Inl e \<Rightarrow> Inl (ChStatement e)
              | Inr deliv \<Rightarrow>
                  (case closures io 2 rows (cw_db w) of
                     Inl e \<Rightarrow> Inl e
                   | Inr closure \<Rightarrow> Inr (count_of births deliv closure)))))"

definition view_of :: "(channel \<Rightarrow> counts) \<Rightarrow> subscription list \<Rightarrow> channel \<Rightarrow> channel_view" where
  "view_of counts subs c =
     \<lparr>vw_channel = c, vw_counts = counts c, vw_bridges = bridge_degree subs (ch_id c),
      vw_subscriptions = degree subs (ch_id c)\<rparr>"

definition service_list ::
  "calls \<Rightarrow> instant \<Rightarrow> kind \<Rightarrow> instant option \<Rightarrow> channel_world \<Rightarrow> chan_error + channel_view list" where
  "service_list io now k since w =
     (if k \<noteq> [] \<and> \<not> kind_valid k then Inl (ChInvalid ''unknown channel kind'')
      else (case list_channels (io 0 0) k (cw_db w) of
              Inl e \<Rightarrow> Inl e
            | Inr rows \<Rightarrow>
                (case subscriptions (\<lambda>n. io (n + 1)) w of
                   Inl e \<Rightarrow> Inl e
                 | Inr subs \<Rightarrow>
                     (case counts_for (\<lambda>n. io (n + 4)) now rows since w of
                        Inl e \<Rightarrow> Inl e
                      | Inr counts \<Rightarrow> Inr (map (view_of counts subs) rows)))))"

definition service_get ::
  "calls \<Rightarrow> instant \<Rightarrow> string \<Rightarrow> instant option \<Rightarrow> channel_world \<Rightarrow> chan_error + channel_detail" where
  "service_get io now i since w =
     (case get_channel (io 0 0) i (cw_db w) of
        Inl e \<Rightarrow> Inl e
      | Inr c \<Rightarrow>
          (case subscriptions (\<lambda>n. io (n + 1)) w of
             Inl e \<Rightarrow> Inl e
           | Inr subs \<Rightarrow>
               (case counts_for (\<lambda>n. io (n + 4)) now [c] since w of
                  Inl e \<Rightarrow> Inl e
                | Inr counts \<Rightarrow>
                    Inr \<lparr>dt_view = view_of counts subs c,
                         dt_incoming = filter (\<lambda>s. su_to s = i) subs,
                         dt_outgoing = filter (\<lambda>s. su_to s \<noteq> i \<and> su_from s = i) subs\<rparr>)))"

section \<open>Timelines\<close>

record channel_query =
  eq_since :: "instant option"
  eq_limit :: int
  eq_offset :: int
  eq_agent :: string
  eq_status :: string
  eq_subject :: string

definition timeline_filter :: "bool \<Rightarrow> channel \<Rightarrow> chan_db \<Rightarrow> chan_error + event_filter" where
  "timeline_filter ok c db =
     (if ch_kind c = kind_connector then Inr (no_event_filter\<lparr>ef_channel := ch_id c\<rparr>)
      else if ch_kind c = kind_agent then Inr (no_event_filter\<lparr>ef_agent := ch_entity c\<rparr>)
      else if ch_kind c = kind_custom then
        (case reaching_into ok (ch_id c) db of
           Inl e \<Rightarrow> Inl e | Inr ids \<Rightarrow> Inr (no_event_filter\<lparr>ef_channels := ids\<rparr>))
      else Inl (ChInvalid ''unknown channel kind''))"

definition narrow_filter :: "channel_query \<Rightarrow> event_filter \<Rightarrow> event_filter" where
  "narrow_filter cq f =
     f\<lparr>ef_since := (case eq_since cq of None \<Rightarrow> ef_since f | Some s \<Rightarrow> Some s),
       ef_agent := (if ef_agent f = [] then eq_agent cq else ef_agent f),
       ef_status := eq_status cq, ef_subject := eq_subject cq\<rparr>"

text \<open>\<open>invs\<close> is the invocation table the event conditions may read.\<close>

definition channel_events ::
  "calls \<Rightarrow> (string \<times> string) list \<Rightarrow> string \<Rightarrow> channel_query \<Rightarrow> channel_world \<Rightarrow> chan_error + qevent list \<times> nat" where
  "channel_events io invs i cq w =
     (case get_channel (io 0 0) i (cw_db w) of
        Inl e \<Rightarrow> Inl e
      | Inr c \<Rightarrow>
          (case timeline_filter (io 1 0) c (cw_db w) of
             Inl e \<Rightarrow> Inl e
           | Inr f0 \<Rightarrow>
               let f = narrow_filter cq f0; limit = (if eq_limit cq \<le> 0 then 100 else eq_limit cq) in
               (case query_events (io 2) invs f limit (eq_offset cq) (cw_queue w) of
                  Inl e \<Rightarrow> Inl (ChStatement e)
                | Inr evs \<Rightarrow>
                    (case count_events (io 3) invs f (cw_queue w) of
                       Inl e \<Rightarrow> Inl (ChStatement e) | Inr tot \<Rightarrow> Inr (evs, tot)))))"

section \<open>Mutations and lookups\<close>

definition create_custom :: "pg \<Rightarrow> string \<Rightarrow> instant \<Rightarrow> string \<Rightarrow> string \<Rightarrow> chan_db \<Rightarrow> channel chan_result" where
  "create_custom pg i now name d db =
     (if trim_space name = [] then (Inl (ChInvalid ''name is required''), db) else create_channel pg i now name d db)"

definition service_update ::
  "pg \<Rightarrow> instant \<Rightarrow> string \<Rightarrow> string option \<Rightarrow> string option \<Rightarrow> chan_db \<Rightarrow> channel chan_result" where
  "service_update pg now i name d db =
     (if (case name of None \<Rightarrow> False | Some n \<Rightarrow> trim_space n = []) then (Inl (ChInvalid ''name cannot be empty''), db)
      else update_channel pg now i name d db)"

text \<open>\<open>ON DELETE SET NULL\<close>: the events born in a deleted channel lose their birth channel.\<close>

definition forget_channel :: "string \<Rightarrow> queue \<Rightarrow> queue" where
  "forget_channel i q =
     q\<lparr>q_events := update_where (\<lambda>e. er_channel e = Some i) (\<lambda>e. e\<lparr>er_channel := None\<rparr>) (q_events q)\<rparr>"

definition service_delete :: "pg \<Rightarrow> string \<Rightarrow> channel_world \<Rightarrow> (chan_error + unit) \<times> channel_world" where
  "service_delete pg i w =
     (case delete_channel pg i (cw_db w) of
        (Inl e, db) \<Rightarrow> (Inl e, w)
      | (Inr (), db) \<Rightarrow> (Inr (), w\<lparr>cw_db := db, cw_queue := forget_channel i (cw_queue w)\<rparr>))"

definition connector_channel_for :: "pg \<Rightarrow> string \<Rightarrow> instant \<Rightarrow> string \<Rightarrow> chan_db \<Rightarrow> string chan_result" where
  "connector_channel_for pg i now label db =
     (case ensure pg i now kind_connector label label (default_description kind_connector label) db of
        (Inl e, db') \<Rightarrow> (Inl e, db') | (Inr c, db') \<Rightarrow> (Inr (ch_id c), db'))"

definition inbox_channel_for :: "pg \<Rightarrow> string \<Rightarrow> instant \<Rightarrow> string \<Rightarrow> chan_db \<Rightarrow> string chan_result" where
  "inbox_channel_for pg i now agent db =
     (case ensure pg i now kind_agent agent agent (default_description kind_agent agent) db of
        (Inl e, db') \<Rightarrow> (Inl e, db') | (Inr c, db') \<Rightarrow> (Inr (ch_id c), db'))"

text \<open>The channel that is looked up is the one of the entity asked for.\<close>

lemma ensure_owner:
  assumes "ensure pg i now k e name d db = (Inr ch, db')"
  shows "\<exists>r \<in> set (cdb_channels db'). cr_id r = ch_id ch \<and> owns_entity k e r"
proof (cases "List.find (owns_entity k e) (cdb_channels db)")
  case None
  let ?ex = "proposed_row i now k e name d"
  have "ch = scan_channel ?ex" "db' = db\<lparr>cdb_channels := cdb_channels db @ [?ex]\<rparr>"
    using assms None by (auto simp: ensure_def Let_def split: if_splits)
  then show ?thesis by (auto simp: scan_channel_def proposed_row_def owns_entity_def)
next
  case (Some r)
  let ?f = "refresh_row now (proposed_row i now k e name d)"
  have r: "r \<in> set (cdb_channels db)" "owns_entity k e r" using find_Some_iff_first [OF Some] by auto
  have "ch = scan_channel (?f r)" "cdb_channels db' = update_where (owns_entity k e) ?f (cdb_channels db)"
    using assms Some by (auto simp: ensure_def Let_def split: if_splits)
  then show ?thesis
    using r by (intro bexI [of _ "?f r"]) (auto simp: scan_channel_def refresh_row_def owns_entity_def sql_simps)
qed

lemma connector_channel_for_owner:
  "connector_channel_for pg i now label db = (Inr c, db') \<Longrightarrow> \<exists>r \<in> set (cdb_channels db'). cr_id r = c \<and> owns_entity kind_connector label r"
  by (auto simp: connector_channel_for_def split: sum.splits prod.splits dest!: ensure_owner)

lemma inbox_channel_for_owner:
  "inbox_channel_for pg i now agent db = (Inr c, db') \<Longrightarrow> \<exists>r \<in> set (cdb_channels db'). cr_id r = c \<and> owns_entity kind_agent agent r"
  by (auto simp: inbox_channel_for_def split: sum.splits prod.splits dest!: ensure_owner)

definition service_deliveries :: "bool \<Rightarrow> string \<Rightarrow> string list \<Rightarrow> chan_db \<Rightarrow> chan_error + delivery list" where
  "service_deliveries ok birth already db =
     (if birth = [] then Inr []
      else (case deliveries ok birth db of
              Inl e \<Rightarrow> Inl e | Inr ds \<Rightarrow> Inr (filter (\<lambda>d. dl_agent d \<notin> set already) ds)))"

definition bridges_into :: "bool \<Rightarrow> string \<Rightarrow> chan_db \<Rightarrow> chan_error + bridge list" where
  "bridges_into ok i db =
     (case list_bridges ok i db of Inl e \<Rightarrow> Inl e | Inr bs \<Rightarrow> Inr (filter (\<lambda>b. br_to b = i) bs))"

section \<open>The reconciler\<close>

record entity =
  en_ref :: string
  en_name :: string
  en_description :: string

record sync_result =
  sr_provisioned :: nat
  sr_orphaned :: nat
  sr_stamped :: nat

definition entity_description :: "kind \<Rightarrow> entity \<Rightarrow> string" where
  "entity_description k e = (if en_description e \<noteq> [] then en_description e else default_description k (en_name e))"

definition label_entity :: "kind \<Rightarrow> string \<Rightarrow> entity" where
  "label_entity k label = \<lparr>en_ref = label, en_name = label, en_description = default_description k label\<rparr>"

text \<open>One \<^verbatim>\<open>Ensure\<close> per entity, stopping at the first error; \<open>gen n\<close> is the id drawn by call \<open>n\<close>.\<close>

fun ensure_all ::
  "calls \<Rightarrow> (nat \<Rightarrow> string) \<Rightarrow> instant \<Rightarrow> nat \<Rightarrow> kind \<Rightarrow> entity list \<Rightarrow> chan_db \<Rightarrow> nat chan_result" where
  "ensure_all io gen now n k [] db = (Inr 0, db)"
| "ensure_all io gen now n k (e # es) db =
     (case ensure (io n) (gen n) now k (en_ref e) (en_name e) (entity_description k e) db of
        (Inl x, db') \<Rightarrow> (Inl x, db')
      | (Inr _, db') \<Rightarrow>
          (case ensure_all io gen now (Suc n) k es db' of
             (Inl x, db'') \<Rightarrow> (Inl x, db'') | (Inr m, db'') \<Rightarrow> (Inr (Suc m), db'')))"

definition stamps_of :: "kind \<Rightarrow> channel list \<Rightarrow> channel_stamp list" where
  "stamps_of k cs =
     map (\<lambda>c. \<lparr>cs_label = ch_entity c, cs_channel = ch_id c\<rparr>) (filter (\<lambda>c. ch_entity c \<noteq> [] \<and> ch_kind c = k) cs)"

definition channel_exists :: "chan_db \<Rightarrow> string \<Rightarrow> bool" where
  "channel_exists db i \<longleftrightarrow> has_row cr_id i (cdb_channels db)"

definition stamp_history :: "calls \<Rightarrow> channel_world \<Rightarrow> (chan_error + nat) \<times> channel_world" where
  "stamp_history io w =
     (case list_channels (io 0 0) [] (cw_db w) of
        Inl e \<Rightarrow> (Inl e, w)
      | Inr cs \<Rightarrow>
          (case stamp_birth_channels (channel_exists (cw_db w)) (io 1) (stamps_of kind_connector cs) (cw_queue w) of
             (Inl e, q) \<Rightarrow> (Inl (ChStatement e), w\<lparr>cw_queue := q\<rparr>)
           | (Inr n, q) \<Rightarrow>
               (case stamp_inbox_birth_channels (channel_exists (cw_db w)) (io 2) direct_source_labels
                       (stamps_of kind_agent cs) q of
                  (Inl e, q') \<Rightarrow> (Inl (ChStatement e), w\<lparr>cw_queue := q'\<rparr>)
                | (Inr m, q') \<Rightarrow> (Inr (n + m), w\<lparr>cw_queue := q'\<rparr>))))"

text \<open>
  The registry listings are arguments (\<open>Inl\<close> when the API server fails). The four ensure
  loops use the call streams 0 to 3, their listings and the remaining calls the streams
  after them.
\<close>

definition sync ::
  "(nat \<Rightarrow> calls) \<Rightarrow> (nat \<Rightarrow> nat \<Rightarrow> string) \<Rightarrow> instant \<Rightarrow> string + entity list \<Rightarrow> string + entity list \<Rightarrow>
    channel_world \<Rightarrow> (chan_error + sync_result) \<times> channel_world" where
  "sync io gen now agents connectors w =
     (case agents of Inl _ \<Rightarrow> (Inl (ChStatement ''channels.Sync: list agents''), w)
      | Inr as \<Rightarrow>
     (case connectors of Inl _ \<Rightarrow> (Inl (ChStatement ''channels.Sync: list connectors''), w)
      | Inr cs \<Rightarrow>
     (case ensure_all (io 0) (gen 0) now 0 kind_connector cs (cw_db w) of
        (Inl e, db) \<Rightarrow> (Inl e, w\<lparr>cw_db := db\<rparr>)
      | (Inr n0, db0) \<Rightarrow>
     (case ensure_all (io 1) (gen 1) now 0 kind_agent as db0 of
        (Inl e, db) \<Rightarrow> (Inl e, w\<lparr>cw_db := db\<rparr>)
      | (Inr n1, db1) \<Rightarrow>
     (case unstamped_source_labels (io 4 0) (cw_queue w) of
        Inl e \<Rightarrow> (Inl (ChStatement e), w\<lparr>cw_db := db1\<rparr>)
      | Inr labels \<Rightarrow>
     (case ensure_all (io 2) (gen 2) now 0 kind_connector
             (map (label_entity kind_connector) (filter (\<lambda>l. \<not> is_direct_source l) labels)) db1 of
        (Inl e, db) \<Rightarrow> (Inl e, w\<lparr>cw_db := db\<rparr>)
      | (Inr n2, db2) \<Rightarrow>
     (case unstamped_inbox_agents (io 4 1) direct_source_labels (cw_queue w) of
        Inl e \<Rightarrow> (Inl (ChStatement e), w\<lparr>cw_db := db2\<rparr>)
      | Inr names \<Rightarrow>
     (case ensure_all (io 3) (gen 3) now 0 kind_agent (map (label_entity kind_agent) names) db2 of
        (Inl e, db) \<Rightarrow> (Inl e, w\<lparr>cw_db := db\<rparr>)
      | (Inr n3, db3) \<Rightarrow>
     (case mark_orphans (io 4 2) now kind_connector (map en_ref cs) db3 of
        (Inl e, db) \<Rightarrow> (Inl e, w\<lparr>cw_db := db\<rparr>)
      | (Inr o1, db4) \<Rightarrow>
     (case mark_orphans (io 4 3) now kind_agent (map en_ref as) db4 of
        (Inl e, db) \<Rightarrow> (Inl e, w\<lparr>cw_db := db\<rparr>)
      | (Inr o2, db5) \<Rightarrow>
     (case stamp_history (io 5) (w\<lparr>cw_db := db5\<rparr>) of
        (Inl e, w') \<Rightarrow> (Inl e, w')
      | (Inr st, w') \<Rightarrow>
          (Inr \<lparr>sr_provisioned = n0 + n1 + n2 + n3, sr_orphaned = o1 + o2, sr_stamped = st\<rparr>, w'))))))))))))"

end
