(* ===== verification/ChannelApi.thy ===== *)
theory ChannelApi
  imports ActivityApi ChannelService
begin

text \<open>
  The endpoints of channels and bridges (\<^verbatim>\<open>services/hub/internal/api/handlers_channels.go\<close>): routing, guards, the channel service
  behind them and the group bookkeeping. A channel of a connector or an agent is guarded as that connector or agent, a
  grouping channel as itself. A request body is what the JSON decoder makes of it. The label of the
  window in a list is left out.
\<close>

section \<open>State and surroundings\<close>

text \<open>The stores behind the channel service, and the history the timeline shows runs from.\<close>

record channel_site =
  cd_world :: channel_world
  cd_history :: "history option"

text \<open>
  The surroundings of a request beside those of every call: the calls of the channel service, the second check of a request that
  needs two, the checks of the lists, the lookups of channels in a loop, the reads of the timeline, the queries of the group bookkeeping, the
  generated id, and what other connections do while a bridge is created.
\<close>

record channel_env =
  ce_io :: calls
  ce_second :: check_env
  ce_admin :: check_env
  ce_visible :: "string \<Rightarrow> check_env"
  ce_public :: bool
  ce_found :: "string \<Rightarrow> bool"
  ce_tasks :: bool
  ce_invocation :: "string \<Rightarrow> bool"
  ce_groups :: pg
  ce_owner :: bool
  ce_rehome :: "string \<Rightarrow> bool \<times> bool"
  ce_id :: string
  ce_race :: "chan_db \<Rightarrow> chan_db"

abbreviation site_world :: "channel_site api \<Rightarrow> channel_world" where
  "site_world s \<equiv> cd_world (ap_data s)"

abbreviation site_db :: "channel_site api \<Rightarrow> chan_db" where
  "site_db s \<equiv> cw_db (cd_world (ap_data s))"

definition put_world :: "channel_world \<Rightarrow> channel_site api \<Rightarrow> channel_site api" where
  "put_world w s = s\<lparr>ap_data := (ap_data s)\<lparr>cd_world := w\<rparr>\<rparr>"

definition put_db :: "chan_db \<Rightarrow> channel_site api \<Rightarrow> channel_site api" where
  "put_db db s = put_world ((site_world s)\<lparr>cw_db := db\<rparr>) s"

fun chan_error_text :: "chan_error \<Rightarrow> string" where
  "chan_error_text ChNotFound = ''channel not found''"
| "chan_error_text InUse = ''channel has bridges attached''"
| "chan_error_text NotCustom = ''channel is provisioned by its registry entity and cannot be edited here''"
| "chan_error_text BridgeExists = ''bridge between these channels already exists''"
| "chan_error_text Cycle = ''bridge would create a cycle in the channel graph''"
| "chan_error_text SelfEdge = ''a channel cannot be bridged to itself''"
| "chan_error_text NoCustomEndpoint = ''a bridge must attach at least one custom channel''"
| "chan_error_text (ChInvalid m) = m"
| "chan_error_text (ChStatement m) = m"

definition channel_error :: "chan_error \<Rightarrow> refusal" where
  "channel_error e =
     Refused (if e = ChNotFound then 404
              else if e \<in> {InUse, NotCustom, NoCustomEndpoint, SelfEdge, Cycle, BridgeExists} then 409 else 500) (chan_error_text e)"

section \<open>Who may see and change a channel\<close>

definition channel_target :: "channel \<Rightarrow> string \<times> string" where
  "channel_target c =
     (if ch_kind c = kind_connector then (''connector'', ch_entity c)
      else if ch_kind c = kind_agent then (''agent'', ch_entity c)
      else (''channel'', ch_id c))"

definition guard_channel_read where
  "guard_channel_read v c k s = guard_read v (fst (channel_target c)) (snd (channel_target c)) k s"

definition guard_channel_write where
  "guard_channel_write v c k s = guard_write v (fst (channel_target c)) (snd (channel_target c)) k s"

text \<open>The ids of the channels the caller may see; the key of a channel is its target, the last one counts.\<close>

definition visible_channels :: "call \<Rightarrow> channel_env \<Rightarrow> authz_db \<Rightarrow> channel list \<Rightarrow> string list" where
  "visible_channels v e db cs =
     (if \<not> cl_wired v \<or> caller_is_admin (cl_wired v) (ce_admin e) db (cl_caller v) then map ch_id cs
      else let key_of = map_of (rev (map (\<lambda>c. (channel_target c, ch_id c)) cs));
               types = remdups (map (fst \<circ> channel_target) cs);
               named = (\<lambda>rt. filter_by_access (cl_wired v) (ce_visible e rt) db (cl_caller v) (ce_public e) rt
                  (map (snd \<circ> channel_target) (filter (\<lambda>c. fst (channel_target c) = rt) cs)))
           in concat (map (\<lambda>rt. List.map_filter (\<lambda>n. key_of (rt, n)) (named rt)) types))"

definition channel_default_window :: duration where "channel_default_window = 24 * hour"

definition channel_since :: "parse_time \<Rightarrow> instant \<Rightarrow> string \<Rightarrow> refusal + instant" where
  "channel_since parse now raw =
     (if trim_space raw = [] then Inr (now - channel_default_window)
      else (case parse (trim_space raw) of
              None \<Rightarrow> Inl (Refused 400 ''invalid since: expected RFC 3339 timestamp'') | Some t \<Rightarrow> Inr t))"

text \<open>The channel of a path.\<close>

definition channel_from_path :: "channel_env \<Rightarrow> string \<Rightarrow> channel_site api \<Rightarrow> refusal + channel" where
  "channel_from_path e i s =
     (if i = [] then Inl (Refused 400 ''channel id required'')
      else map_sum channel_error id (get_channel (ce_io e 0 0) i (site_db s)))"

section \<open>Lists\<close>

definition activity_order :: "channel_view \<Rightarrow> int \<times> string" where
  "activity_order w = (- int (cn_events (vw_counts w)), ch_id (vw_channel w))"

definition list_channel_page ::
  "parse_time \<Rightarrow> call \<Rightarrow> channel_env \<Rightarrow> string \<Rightarrow> string \<Rightarrow> string \<Rightarrow> string \<Rightarrow> channel_site api \<Rightarrow>
   refusal + channel_view list \<times> page_meta" where
  "list_channel_page parse v e since kind page psize s =
     (case channel_since parse (cl_now v) since of
        Inl d \<Rightarrow> Inl d
      | Inr t \<Rightarrow>
          if trim_space kind \<noteq> [] \<and> \<not> kind_valid (trim_space kind)
          then Inl (Refused 400 ''invalid kind: expected connector, agent or custom'')
          else (case service_list (\<lambda>n. ce_io e (n + 1)) (cl_now v) (trim_space kind) (Some t) (site_world s) of
                  Inl er \<Rightarrow> Inl (Refused 500 (chan_error_text er))
                | Inr views \<Rightarrow>
                    let ids = visible_channels v e (ap_authz s) (map vw_channel views);
                        shown = sort_key activity_order (filter (\<lambda>w. ch_id (vw_channel w) \<in> set ids) views)
                    in (case parse_page_params page psize of
                          Inl m \<Rightarrow> Inl (Refused 400 m)
                        | Inr p \<Rightarrow> Inr (page_items p shown, page_meta_of p (length shown)))))"

text \<open>An edge is shown when both its ends are found and visible; the ends are looked up one by one.\<close>

definition edge_ends :: "subscription list \<Rightarrow> string list" where
  "edge_ends subs = remdups (filter (\<lambda>i. i \<noteq> []) (concat (map (\<lambda>u. [su_from u, su_to u]) subs)))"

definition list_subscriptions :: "call \<Rightarrow> channel_env \<Rightarrow> channel_site api \<Rightarrow> refusal + subscription list" where
  "list_subscriptions v e s =
     (case subscriptions (\<lambda>n. ce_io e (n + 1)) (site_world s) of
        Inl er \<Rightarrow> Inl (Refused 500 (chan_error_text er))
      | Inr subs \<Rightarrow>
          let cs = List.map_filter (\<lambda>i. case get_channel (ce_found e i) i (site_db s) of Inl _ \<Rightarrow> None | Inr c \<Rightarrow> Some c) (edge_ends subs);
              ids = visible_channels v e (ap_authz s) cs
          in Inr (filter (\<lambda>u. su_from u \<noteq> [] \<and> su_to u \<noteq> [] \<and> su_from u \<in> set ids \<and> su_to u \<in> set ids) subs))"

section \<open>One channel\<close>

definition get_channel_page ::
  "parse_time \<Rightarrow> call \<Rightarrow> channel_env \<Rightarrow> string \<Rightarrow> string \<Rightarrow> channel_site api \<Rightarrow> (channel_detail, channel_site) reply" where
  "get_channel_page parse v e i since s =
     (case channel_from_path e i s of
        Inl d \<Rightarrow> (Inl d, s)
      | Inr c \<Rightarrow> guard_channel_read v c (\<lambda>s.
          (case channel_since parse (cl_now v) since of
             Inl d \<Rightarrow> (Inl d, s)
           | Inr t \<Rightarrow> (map_sum channel_error id (service_get (\<lambda>n. ce_io e (n + 1)) (cl_now v) (ch_id c) (Some t) (site_world s)), s))) s)"

record channel_create_request =
  kq_name :: string
  kq_description :: string
  kq_group :: string

definition store_channel :: "call \<Rightarrow> channel_env \<Rightarrow> channel_create_request \<Rightarrow> channel_site api \<Rightarrow> (channel, channel_site) reply" where
  "store_channel v e r s =
     (case create_custom (ce_io e 1) (ce_id e) (cl_now v) (kq_name r) (kq_description r) (site_db s) of
        (Inl er, db) \<Rightarrow> (Inl (channel_error er), put_db db s)
      | (Inr c, db) \<Rightarrow>
          (Inr c, if kq_group r \<noteq> [] then assign_group v ''channel'' (ch_id c) (kq_group r) (put_db db s) else put_db db s))"

definition create_channel_page ::
  "call \<Rightarrow> channel_env \<Rightarrow> string + channel_create_request \<Rightarrow> channel_site api \<Rightarrow> (channel, channel_site) reply" where
  "create_channel_page v e body s =
     (case body of
        Inl m \<Rightarrow> (Inl (Refused 400 (''invalid JSON: '' @ m)), s)
      | Inr r \<Rightarrow>
          if trim_space (kq_name r) = [] then (Inl (Refused 400 ''name is required''), s)
          else guard_creation v (kq_group r) (store_channel v e r) s)"

definition update_channel_page ::
  "call \<Rightarrow> channel_env \<Rightarrow> string \<Rightarrow> string + string option \<times> string option \<Rightarrow> channel_site api \<Rightarrow> (channel, channel_site) reply" where
  "update_channel_page v e i body s =
     (case channel_from_path e i s of
        Inl d \<Rightarrow> (Inl d, s)
      | Inr c \<Rightarrow> guard_channel_write v c (\<lambda>s.
          (case body of
             Inl m \<Rightarrow> (Inl (Refused 400 (''invalid JSON: '' @ m)), s)
           | Inr (name, description) \<Rightarrow>
               (case service_update (ce_io e 1) (cl_now v) (ch_id c) name description (site_db s) of
                  (x, db) \<Rightarrow> (map_sum channel_error id x, put_db db s)))) s)"

text \<open>
  Channels that were reached through the deleted one, and by no other bridge any more, go to the first group of the
  caller. \<open>ce_rehome\<close> gives the outcomes of the two statements per channel.
\<close>

definition caller_group :: "call \<Rightarrow> channel_env \<Rightarrow> authz_db \<Rightarrow> string option" where
  "caller_group v e db =
     (case caller_group_ids (cl_wired v) (ce_groups e) db (cl_caller v) of [] \<Rightarrow> None | g # _ \<Rightarrow> Some g)"

definition rehome :: "call \<Rightarrow> channel_env \<Rightarrow> string \<Rightarrow> string \<Rightarrow> string \<Rightarrow> channel_site api \<Rightarrow> channel_site api" where
  "rehome v e gid deleted i s =
     (if i = deleted then s
      else (case bridges_into (fst (ce_rehome e i)) i (site_db s) of
              Inl _ \<Rightarrow> s
            | Inr bs \<Rightarrow>
                if bs \<noteq> [] then s
                else s\<lparr>ap_authz := snd (set_resource_group (\<lambda>_. snd (ce_rehome e i)) (cl_now v) ''channel'' i gid False (ap_authz s))\<rparr>))"

definition release_nested_channels :: "call \<Rightarrow> channel_env \<Rightarrow> string \<Rightarrow> string list \<Rightarrow> channel_site api \<Rightarrow> channel_site api" where
  "release_nested_channels v e deleted nested s =
     (if nested = [] then s
      else (case caller_group v e (ap_authz s) of None \<Rightarrow> s | Some gid \<Rightarrow> fold (rehome v e gid deleted) nested s))"

definition delete_channel_page :: "call \<Rightarrow> channel_env \<Rightarrow> string \<Rightarrow> channel_site api \<Rightarrow> (unit, channel_site) reply" where
  "delete_channel_page v e i s =
     (case channel_from_path e i s of
        Inl d \<Rightarrow> (Inl d, s)
      | Inr c \<Rightarrow> guard_channel_write v c (\<lambda>s.
          let nested = (case reaching_into (ce_io e 1 0) (ch_id c) (site_db s) of Inl _ \<Rightarrow> [] | Inr ids \<Rightarrow> ids) in
          (case service_delete (ce_io e 2) (ch_id c) (site_world s) of
             (Inl er, w) \<Rightarrow> (Inl (channel_error er), put_world w s)
           | (Inr _, w) \<Rightarrow>
               (Inr (), if cl_wired v
                  then release_group v ''channel'' (ch_id c) (release_nested_channels v e (ch_id c) nested (put_world w s))
                  else put_world w s))) s)"

record timeline_request =
  tl_limit :: string
  tl_offset :: string
  tl_since :: string
  tl_status :: string
  tl_agent :: string
  tl_subject :: string

definition timeline_query :: "parse_time \<Rightarrow> instant \<Rightarrow> timeline_request \<Rightarrow> refusal + channel_query" where
  "timeline_query parse now r =
     (case event_limit (tl_limit r) of Inl d \<Rightarrow> Inl d | Inr limit \<Rightarrow>
     (case event_offset (tl_offset r) of Inl d \<Rightarrow> Inl d | Inr offset \<Rightarrow>
     (case channel_since parse now (tl_since r) of Inl d \<Rightarrow> Inl d | Inr t \<Rightarrow>
        if tl_status r \<noteq> [] \<and> tl_status r \<notin> set valid_activity_statuses
        then Inl (Refused 400 ''invalid status: expected matched, unmatched or error'')
        else Inr \<lparr>eq_since = Some t, eq_limit = limit, eq_offset = offset, eq_agent = tl_agent r, eq_status = tl_status r,
          eq_subject = tl_subject r\<rparr>)))"

definition channel_timeline ::
  "parse_time \<Rightarrow> call \<Rightarrow> channel_env \<Rightarrow> string \<Rightarrow> timeline_request \<Rightarrow> channel_site api \<Rightarrow>
   (activity_entry list \<times> nat, channel_site) reply" where
  "channel_timeline parse v e i r s =
     (case channel_from_path e i s of
        Inl d \<Rightarrow> (Inl d, s)
      | Inr c \<Rightarrow> guard_channel_read v c (\<lambda>s.
          (case timeline_query parse (cl_now v) r of
             Inl d \<Rightarrow> (Inl d, s)
           | Inr cq \<Rightarrow>
               let h = cd_history (ap_data s) in
               (case channel_events (\<lambda>n. ce_io e (n + 1)) (history_statuses h) (ch_id c) cq (site_world s) of
                  Inl er \<Rightarrow> (Inl (channel_error er), s)
                | Inr (es, n) \<Rightarrow>
                    (case activity_entries (ce_tasks e) (ce_invocation e) h es (cw_queue (site_world s)) of
                       Inl _ \<Rightarrow> (Inl (Refused 500 ''failed to list event tasks''), s)
                     | Inr entries \<Rightarrow> (Inr (entries, n), s))))) s)"

section \<open>Bridges\<close>

definition adopt_bridge_group :: "call \<Rightarrow> channel_env \<Rightarrow> bridge \<Rightarrow> channel_site api \<Rightarrow> channel_site api" where
  "adopt_bridge_group v e b s =
     (if \<not> cl_wired v then s
      else (case get_channel (ce_io e 3 0) (br_to b) (site_db s) of
              Inl _ \<Rightarrow> s
            | Inr c \<Rightarrow>
                (case (case get_resource_group (\<lambda>_. ce_owner e) (fst (channel_target c)) (snd (channel_target c)) (ap_authz s) of
                         Inr rg \<Rightarrow> if rg_group rg = [] then caller_group v e (ap_authz s) else Some (rg_group rg)
                       | Inl _ \<Rightarrow> caller_group v e (ap_authz s)) of
                   None \<Rightarrow> s
                 | Some gid \<Rightarrow>
                     s\<lparr>ap_authz := snd (set_resource_group (\<lambda>_. cl_group v) (cl_now v) ''channel'' (br_id b) gid False (ap_authz s))\<rparr>)))"

definition attach_bridge ::
  "call \<Rightarrow> channel_env \<Rightarrow> string \<Rightarrow> string + string \<times> string \<Rightarrow> channel_site api \<Rightarrow> (bridge, channel_site) reply" where
  "attach_bridge v e i body s =
     (case channel_from_path e i s of
        Inl d \<Rightarrow> (Inl d, s)
      | Inr src \<Rightarrow> guard_channel_write v src (\<lambda>s.
          (case body of
             Inl m \<Rightarrow> (Inl (Refused 400 (''invalid JSON: '' @ m)), s)
           | Inr (to, name) \<Rightarrow>
               if trim_space to = [] then (Inl (Refused 400 ''to is required''), s)
               else (case get_channel (ce_io e 1 0) to (site_db s) of
                       Inl er \<Rightarrow> (Inl (channel_error er), s)
                     | Inr dst \<Rightarrow> guard_channel_write (v\<lparr>cl_check := ce_second e\<rparr>) dst (\<lambda>s.
                         (case create_bridge_env (ce_io e 2) (ce_race e) (ce_id e) (cl_now v) (ch_id src) (ch_id dst) name (site_db s) of
                            (Inl er, db) \<Rightarrow> (Inl (channel_error er), put_db db s)
                          | (Inr b, db) \<Rightarrow> (Inr b, adopt_bridge_group v e b (put_db db s)))) s))) s)"

definition detach_bridge :: "call \<Rightarrow> channel_env \<Rightarrow> string \<Rightarrow> string \<Rightarrow> channel_site api \<Rightarrow> (unit, channel_site) reply" where
  "detach_bridge v e i bid s =
     (if bid = [] then (Inl (Refused 400 ''missing bridge id''), s)
      else (case get_bridge (ce_io e 0 0) bid (site_db s) of
              Inl er \<Rightarrow> (Inl (channel_error er), s)
            | Inr b \<Rightarrow>
                if br_from b \<noteq> i \<and> br_to b \<noteq> i then (Inl (Refused 404 ''bridge not found on this channel''), s)
                else (case get_channel (ce_io e 1 0) (br_from b) (site_db s) of
                        Inl er \<Rightarrow> (Inl (channel_error er), s)
                      | Inr src \<Rightarrow> guard_channel_write v src (\<lambda>s.
                          (case get_channel (ce_io e 2 0) (br_to b) (site_db s) of
                             Inl er \<Rightarrow> (Inl (channel_error er), s)
                           | Inr dst \<Rightarrow> guard_channel_write (v\<lparr>cl_check := ce_second e\<rparr>) dst (\<lambda>s.
                               (case delete_bridge (ce_io e 3) bid (site_db s) of
                                  (Inl er, db) \<Rightarrow> (Inl (channel_error er), put_db db s)
                                | (Inr _, db) \<Rightarrow> (Inr (), release_group v ''channel'' bid (put_db db s)))) s)) s)))"

section \<open>Routes\<close>

datatype path_target =
    GetItem string | PutItem string | DeleteItem string | GetTimeline string | PostBridge string | DeleteBridge string string

text \<open>The bridge routes of one channel; what follows \<open>bridges\<close> in the path is \<open>tail\<close>.\<close>

definition bridge_route :: "string \<Rightarrow> string \<Rightarrow> string \<Rightarrow> refusal + path_target" where
  "bridge_route meth i tail =
     (let bid = (if has_prefix tail ''/'' then drop 1 tail else tail)
      in if meth = ''POST'' then (if bid \<noteq> [] then Inl (Refused 404 ''not found'') else Inr (PostBridge i))
         else if meth = ''DELETE'' then Inr (DeleteBridge i bid)
         else Inl bad_method)"

definition channel_route :: "string \<Rightarrow> string \<Rightarrow> refusal + path_target" where
  "channel_route meth rest =
     (if rest = [] then Inl (Refused 400 ''missing channel id'')
      else (case cut_at (CHR ''/'') rest of
              None \<Rightarrow>
                if meth = ''GET'' then Inr (GetItem rest)
                else if meth = ''PUT'' then Inr (PutItem rest)
                else if meth = ''DELETE'' then Inr (DeleteItem rest)
                else Inl bad_method
            | Some (i, sub) \<Rightarrow>
                if i = [] then Inl (Refused 400 ''missing channel id'')
                else if sub = ''events'' then (if meth = ''GET'' then Inr (GetTimeline i) else Inl bad_method)
                else if sub = ''bridges'' \<or> has_prefix sub ''bridges/'' then bridge_route meth i (drop 7 sub)
                else Inl (Refused 404 ''not found'')))"

datatype channel_call =
    ChannelList string string string string
  | ChannelPost "string + channel_create_request"
  | ChannelPath string string "string + string option \<times> string option" "string + string \<times> string" timeline_request
  | SubscriptionList

datatype channel_reply =
    ChannelPage "channel_view list" page_meta | OneChannel channel | ChannelDetail channel_detail | ChannelGone
  | Timeline "activity_entry list" nat | OneBridge bridge | BridgeGone | Edges "subscription list"

fun serve_target ::
  "parse_time \<Rightarrow> channel_env \<Rightarrow> call \<Rightarrow> string + string option \<times> string option \<Rightarrow> string + string \<times> string \<Rightarrow> timeline_request \<Rightarrow>
   path_target \<Rightarrow> channel_site api \<Rightarrow> (channel_reply, channel_site) reply" where
  "serve_target parse e v upd brg rq (GetItem i) s = map_reply ChannelDetail (get_channel_page parse v e i (tl_since rq) s)"
| "serve_target parse e v upd brg rq (PutItem i) s = map_reply OneChannel (update_channel_page v e i upd s)"
| "serve_target parse e v upd brg rq (DeleteItem i) s = map_reply (\<lambda>_. ChannelGone) (delete_channel_page v e i s)"
| "serve_target parse e v upd brg rq (GetTimeline i) s = map_reply (\<lambda>(es, n). Timeline es n) (channel_timeline parse v e i rq s)"
| "serve_target parse e v upd brg rq (PostBridge i) s = map_reply OneBridge (attach_bridge v e i brg s)"
| "serve_target parse e v upd brg rq (DeleteBridge i b) s = map_reply (\<lambda>_. BridgeGone) (detach_bridge v e i b s)"

text \<open>\<open>wired\<close> says whether the channel service is configured.\<close>

definition no_channels :: refusal where "no_channels = Refused 503 ''channels not configured''"

fun handle_channels ::
  "parse_time \<Rightarrow> channel_env \<Rightarrow> bool \<Rightarrow> call \<Rightarrow> channel_call \<Rightarrow> channel_site api \<Rightarrow> (channel_reply, channel_site) reply" where
  "handle_channels parse e wired v (ChannelList since kind page psize) s =
     (if \<not> wired then (Inl no_channels, s)
      else (map_sum id (\<lambda>(vs, m). ChannelPage vs m) (list_channel_page parse v e since kind page psize s), s))"
| "handle_channels parse e wired v (ChannelPost body) s =
     (if \<not> wired then (Inl no_channels, s) else map_reply OneChannel (create_channel_page v e body s))"
| "handle_channels parse e wired v (ChannelPath meth rest upd brg rq) s =
     (case channel_route meth rest of
        Inl d \<Rightarrow> (Inl d, s)
      | Inr t \<Rightarrow> if \<not> wired then (Inl no_channels, s) else serve_target parse e v upd brg rq t s)"
| "handle_channels parse e wired v SubscriptionList s =
     (if \<not> wired then (Inl no_channels, s) else (map_sum id Edges (list_subscriptions v e s), s))"

end
