(* ===== verification/ChannelRules.thy ===== *)
theory ChannelRules
  imports ChannelApi
begin

text \<open>
  What the channel endpoints guarantee: nothing about channels, bridges or groups changes without the permission to write every
  channel involved, over any number of requests; the lists show what their reader may read, and the detail of
  one channel shows more; and two behaviours of deletion and renaming.
\<close>

section \<open>Nothing changes without permission\<close>

definition writable :: "authz_db \<Rightarrow> string \<Rightarrow> chan_db \<Rightarrow> string \<Rightarrow> bool" where
  "writable db sub cdb i \<longleftrightarrow>
     (\<exists>c. get_channel True i cdb = Inr c \<and> permitted db sub role_writer (fst (channel_target c)) (snd (channel_target c)))"

fun target_needs :: "string + string \<times> string \<Rightarrow> path_target \<Rightarrow> authz_db \<Rightarrow> chan_db \<Rightarrow> string \<Rightarrow> bool" where
  "target_needs brg (PutItem i) db cdb sub = writable db sub cdb i"
| "target_needs brg (DeleteItem i) db cdb sub = writable db sub cdb i"
| "target_needs brg (PostBridge i) db cdb sub =
     (\<exists>to name. brg = Inr (to, name) \<and> writable db sub cdb i \<and> writable db sub cdb to)"
| "target_needs brg (DeleteBridge i b) db cdb sub =
     (\<exists>x. get_bridge True b cdb = Inr x \<and> i \<in> {br_from x, br_to x} \<and> writable db sub cdb (br_from x) \<and> writable db sub cdb (br_to x))"
| "target_needs brg _ db cdb sub = False"

fun channel_needs :: "channel_env \<times> channel_call \<Rightarrow> authz_db \<Rightarrow> channel_site \<Rightarrow> string \<Rightarrow> bool" where
  "channel_needs (e, ChannelPost (Inr r)) db d sub = (admin_user db sub \<or> has_role db sub (kq_group r) role_writer)"
| "channel_needs (e, ChannelPath meth rest upd brg rq) db d sub =
     (case channel_route meth rest of Inl _ \<Rightarrow> False | Inr t \<Rightarrow> target_needs brg t db (cw_db (cd_world d)) sub)"
| "channel_needs _ db d sub = False"

lemma channel_from_path_get:
  assumes "channel_from_path e i s = Inr c"
  shows "get_channel True i (site_db s) = Inr c"
  using assms by (auto simp: channel_from_path_def map_sum_Inr_iff get_channel_def split: if_splits)

lemma get_channel_ok: "get_channel ok i db = Inr c \<Longrightarrow> get_channel True i db = Inr c"
  by (simp add: get_channel_def split: if_splits)

lemma get_bridge_ok: "get_bridge ok i db = Inr b \<Longrightarrow> get_bridge True i db = Inr b"
  by (simp add: get_bridge_def split: if_splits)

text \<open>Behind the write guard of a channel the continuation runs for a caller who may write it.\<close>

lemma guard_channel_write_change:
  fixes v :: call
  assumes "guard_channel_write v c k s = (r, s')" "changed s s'" "cl_wired v" "access_wf (ap_authz s)" "fresh s"
  obtains sub s1 where "cl_caller v = Some sub" "permitted (ap_authz s) sub role_writer (fst (channel_target c)) (snd (channel_target c))"
    "k s1 = (r, s')" "ap_authz s1 = ap_authz s" "ap_data s1 = ap_data s" "fresh s1"
proof -
  have w: "cl_wired v = True" using assms(3) by simp
  have cur: "current v s" using assms(4,5) by (rule fresh_current)
  show ?thesis
    using assms(1)
    unfolding guard_channel_write_def guard_write_def require_write_def w
  proof (cases rule: with_guard_cases)
    case (1 d c)
    then show ?thesis using assms(2) by simp
  next
    case (2 sub c')
    show ?thesis
    proof (rule that [OF 2(1) _ 2(3)])
      show "permitted (ap_authz s) sub role_writer (fst (channel_target c)) (snd (channel_target c))"
        using can_write_sound [OF 2(2) assms(4)] cur 2(1) by (simp add: current_def)
      show "fresh (s\<lparr>ap_cache := c'\<rparr>)" using checks_fresh(2) [OF 2(2)] assms(5) by (simp add: fresh_def)
    qed simp_all
  qed
qed

lemma update_needs:
  assumes "update_channel_page v e i body s = (r, s')" "changed s s'" "cl_wired v" "access_wf (ap_authz s)" "fresh s"
  shows "\<exists>sub. cl_caller v = Some sub \<and> writable (ap_authz s) sub (site_db s) i"
proof (cases "channel_from_path e i s")
  case (Inl d)
  then show ?thesis using assms(1,2) by (simp add: update_channel_page_def)
next
  case (Inr c)
  obtain k where "guard_channel_write v c k s = (r, s')" using assms(1) Inr by (simp add: update_channel_page_def)
  then show ?thesis
    using channel_from_path_get [OF Inr] by (elim guard_channel_write_change [OF _ assms(2-5)]) (auto simp: writable_def)
qed

lemma delete_needs:
  assumes "delete_channel_page v e i s = (r, s')" "changed s s'" "cl_wired v" "access_wf (ap_authz s)" "fresh s"
  shows "\<exists>sub. cl_caller v = Some sub \<and> writable (ap_authz s) sub (site_db s) i"
proof (cases "channel_from_path e i s")
  case (Inl d)
  then show ?thesis using assms(1,2) by (simp add: delete_channel_page_def)
next
  case (Inr c)
  obtain k where "guard_channel_write v c k s = (r, s')" using assms(1) Inr by (simp add: delete_channel_page_def)
  then show ?thesis
    using channel_from_path_get [OF Inr] by (elim guard_channel_write_change [OF _ assms(2-5)]) (auto simp: writable_def)
qed

lemma attach_needs:
  assumes "attach_bridge v e i body s = (r, s')" "changed s s'" "cl_wired v" "access_wf (ap_authz s)" "fresh s"
  shows "\<exists>sub. cl_caller v = Some sub \<and>
    (\<exists>to name. body = Inr (to, name) \<and> writable (ap_authz s) sub (site_db s) i \<and> writable (ap_authz s) sub (site_db s) to)"
proof (cases "channel_from_path e i s")
  case (Inl d)
  then show ?thesis using assms(1,2) by (simp add: attach_bridge_def)
next
  case (Inr src)
  obtain k where k: "guard_channel_write v src k s = (r, s')"
    and k_def: "k = (\<lambda>s. (case body of
             Inl m \<Rightarrow> (Inl (Refused 400 (''invalid JSON: '' @ m)), s)
           | Inr (to, name) \<Rightarrow>
               if trim_space to = [] then (Inl (Refused 400 ''to is required''), s)
               else (case get_channel (ce_io e 1 0) to (site_db s) of
                       Inl er \<Rightarrow> (Inl (channel_error er), s)
                     | Inr dst \<Rightarrow> guard_channel_write (v\<lparr>cl_check := ce_second e\<rparr>) dst (\<lambda>s.
                         (case create_bridge_env (ce_io e 2) (ce_race e) (ce_id e) (cl_now v) (ch_id src) (ch_id dst) name (site_db s) of
                            (Inl er, db) \<Rightarrow> (Inl (channel_error er), put_db db s)
                          | (Inr b, db) \<Rightarrow> (Inr b, adopt_bridge_group v e b (put_db db s)))) s)))"
    using assms(1) Inr by (simp add: attach_bridge_def)
  from k obtain sub s1 where s1: "cl_caller v = Some sub"
      "permitted (ap_authz s) sub role_writer (fst (channel_target src)) (snd (channel_target src))"
      "k s1 = (r, s')" "ap_authz s1 = ap_authz s" "ap_data s1 = ap_data s" "fresh s1"
    by (elim guard_channel_write_change [OF _ assms(2-5)]) auto
  have "changed s1 s'" using assms(2) s1(4,5) by (simp add: changed_def)
  with s1(3) obtain to name dst g where body: "body = Inr (to, name)" "get_channel (ce_io e 1 0) to (site_db s1) = Inr dst"
      "guard_channel_write (v\<lparr>cl_check := ce_second e\<rparr>) dst g s1 = (r, s')"
    unfolding k_def by (auto split: sum.splits prod.splits if_splits)
  have wf: "access_wf (ap_authz s1)" "cl_wired (v\<lparr>cl_check := ce_second e\<rparr>)" using assms(3,4) s1(4) by simp_all
  from body(3) have "permitted (ap_authz s1) sub role_writer (fst (channel_target dst)) (snd (channel_target dst))"
    using s1(1) by (elim guard_channel_write_change [OF _ \<open>changed s1 s'\<close> wf(2,1) s1(6)]) auto
  then show ?thesis
    using s1 body(1) channel_from_path_get [OF Inr] get_channel_ok [OF body(2)] by (auto simp: writable_def)
qed

lemma detach_needs:
  assumes "detach_bridge v e i bid s = (r, s')" "changed s s'" "cl_wired v" "access_wf (ap_authz s)" "fresh s"
  shows "\<exists>sub. cl_caller v = Some sub \<and> (\<exists>x. get_bridge True bid (site_db s) = Inr x \<and> i \<in> {br_from x, br_to x} \<and>
    writable (ap_authz s) sub (site_db s) (br_from x) \<and> writable (ap_authz s) sub (site_db s) (br_to x))"
proof -
  obtain b src where b: "get_bridge (ce_io e 0 0) bid (site_db s) = Inr b" "i \<in> {br_from b, br_to b}"
      "get_channel (ce_io e 1 0) (br_from b) (site_db s) = Inr src"
    using assms(1,2) by (auto simp: detach_bridge_def split: if_splits sum.splits)
  obtain k where k: "guard_channel_write v src k s = (r, s')"
    and k_def: "k = (\<lambda>s. (case get_channel (ce_io e 2 0) (br_to b) (site_db s) of
                             Inl er \<Rightarrow> (Inl (channel_error er), s)
                           | Inr dst \<Rightarrow> guard_channel_write (v\<lparr>cl_check := ce_second e\<rparr>) dst (\<lambda>s.
                               (case delete_bridge (ce_io e 3) bid (site_db s) of
                                  (Inl er, db) \<Rightarrow> (Inl (channel_error er), put_db db s)
                                | (Inr _, db) \<Rightarrow> (Inr (), release_group v ''channel'' bid (put_db db s)))) s))"
    using assms(1,2) b by (auto simp: detach_bridge_def split: if_splits)
  from k obtain sub s1 where s1: "cl_caller v = Some sub"
      "permitted (ap_authz s) sub role_writer (fst (channel_target src)) (snd (channel_target src))"
      "k s1 = (r, s')" "ap_authz s1 = ap_authz s" "ap_data s1 = ap_data s" "fresh s1"
    by (elim guard_channel_write_change [OF _ assms(2-5)]) auto
  have "changed s1 s'" using assms(2) s1(4,5) by (simp add: changed_def)
  with s1(3) obtain dst g where dst: "get_channel (ce_io e 2 0) (br_to b) (site_db s1) = Inr dst"
      "guard_channel_write (v\<lparr>cl_check := ce_second e\<rparr>) dst g s1 = (r, s')"
    unfolding k_def by (auto split: sum.splits)
  have wf: "access_wf (ap_authz s1)" "cl_wired (v\<lparr>cl_check := ce_second e\<rparr>)" using assms(3,4) s1(4) by simp_all
  from dst(2) have "permitted (ap_authz s1) sub role_writer (fst (channel_target dst)) (snd (channel_target dst))"
    using s1(1) by (elim guard_channel_write_change [OF _ \<open>changed s1 s'\<close> wf(2,1) s1(6)]) auto
  then show ?thesis
    using s1 get_bridge_ok [OF b(1)] b(2) get_channel_ok [OF b(3)] get_channel_ok [OF dst(1)] by (auto simp: writable_def)
qed

lemma target_change_needs:
  assumes "serve_target parse e v upd brg rq t s = (r, s')" "changed s s'" "cl_wired v" "access_wf (ap_authz s)" "fresh s"
  shows "\<exists>sub. cl_caller v = Some sub \<and> target_needs brg t (ap_authz s) (site_db s) sub"
proof (cases t)
  case (GetItem i)
  have "\<not> changed s (snd (get_channel_page parse v e i (tl_since rq) s))"
    unfolding get_channel_page_def
  proof (cases "channel_from_path e i s")
    case (Inr c)
    then show "\<not> changed s (snd (case channel_from_path e i s of Inl d \<Rightarrow> (Inl d, s)
      | Inr c \<Rightarrow> guard_channel_read v c (\<lambda>s. (case channel_since parse (cl_now v) (tl_since rq) of
             Inl d \<Rightarrow> (Inl d, s)
           | Inr t \<Rightarrow> (map_sum channel_error id (service_get (\<lambda>n. ce_io e (n + 1)) (cl_now v) (ch_id c) (Some t) (site_world s)), s))) s))"
      by (simp only: sum.case guard_channel_read_def, intro guard_read_unchanged [OF surjective_pairing]) (auto split: sum.split)
  qed simp
  then show ?thesis using assms(1,2) GetItem by (cases "get_channel_page parse v e i (tl_since rq) s") (auto simp: changed_def)
next
  case (PutItem i)
  then show ?thesis using assms(1) update_needs [OF _ assms(2-5)] by (fastforce simp: map_prod_def split: prod.splits)
next
  case (DeleteItem i)
  then show ?thesis using assms(1) delete_needs [OF _ assms(2-5)] by (fastforce simp: map_prod_def split: prod.splits)
next
  case (GetTimeline i)
  have "\<not> changed s (snd (channel_timeline parse v e i rq s))"
  proof (cases "channel_from_path e i s")
    case (Inr c)
    then show ?thesis
      by (simp only: channel_timeline_def sum.case guard_channel_read_def, intro guard_read_unchanged [OF surjective_pairing])
        (auto simp: Let_def split: sum.split prod.split)
  qed (simp add: channel_timeline_def)
  then show ?thesis using assms(1,2) GetTimeline by (cases "channel_timeline parse v e i rq s") (auto simp: changed_def)
next
  case (PostBridge i)
  then show ?thesis using assms(1) attach_needs [OF _ assms(2-5)] by (fastforce simp: map_prod_def split: prod.splits)
next
  case (DeleteBridge i b)
  then show ?thesis using assms(1) detach_needs [OF _ assms(2-5)] by (fastforce simp: map_prod_def split: prod.splits)
qed

lemma create_needs:
  assumes "create_channel_page v e body s = (r, s')" "changed s s'" "cl_wired v" "access_wf (ap_authz s)" "fresh s"
  shows "\<exists>sub. cl_caller v = Some sub \<and> (\<exists>rq. body = Inr rq \<and> (admin_user (ap_authz s) sub \<or> has_role (ap_authz s) sub (kq_group rq) role_writer))"
proof (cases body)
  case (Inl m)
  then show ?thesis using assms(1,2) by (simp add: create_channel_page_def)
next
  case (Inr rq)
  then have "guard_creation v (kq_group rq) (store_channel v e rq) s = (r, s')"
    using assms(1,2) by (auto simp: create_channel_page_def split: if_splits)
  from guard_creation_change [OF this assms(2,3) fresh_current [OF assms(4,5)]] show ?thesis using Inr by auto
qed

lemma channel_change_needs:
  assumes "handle_channels parse (fst q) True v (snd q) s = (r, s')" "changed s s'" "cl_wired v" "access_wf (ap_authz s)" "fresh s"
  shows "\<exists>sub. cl_caller v = Some sub \<and> channel_needs q (ap_authz s) (ap_data s) sub"
proof -
  obtain e c where q: "q = (e, c)" by (cases q)
  show ?thesis
  proof (cases c)
    case (ChannelPost body)
    then show ?thesis using assms(1) q create_needs [OF _ assms(2-5)] by (fastforce simp: map_prod_def split: prod.splits)
  next
    case (ChannelPath meth rest upd brg rq)
    then show ?thesis using assms(1,2) q target_change_needs [OF _ assms(2-5)] by (fastforce split: sum.splits)
  qed (use assms(1,2) q in auto)
qed

lemma guard_channel_steady:
  assumes "\<And>c. steady (s\<lparr>ap_cache := c\<rparr>) (k (s\<lparr>ap_cache := c\<rparr>))"
  shows "steady s (guard_channel_read v ch k s)" "steady s (guard_channel_write v ch k s)"
  unfolding guard_channel_read_def guard_channel_write_def using assms by (rule guards_steady)+

lemma put_cache [simp]: "ap_cache (put_db db s) = ap_cache s" "ap_cache (put_world w s) = ap_cache s"
  by (simp_all add: put_db_def put_world_def)

lemma bookkeeping_cache [simp]:
  "ap_cache (assign_group v rt i gid s) = ap_cache s" "ap_cache (release_group v rt i s) = ap_cache s"
  "ap_cache (release_nested_channels v e d ids s) = ap_cache s" "ap_cache (adopt_bridge_group v e b s) = ap_cache s"
proof -
  have "ap_cache (fold (rehome v e gid d) ids s) = ap_cache s" for gid
    by (induction ids arbitrary: s) (auto simp: rehome_def split: sum.split)
  then show "ap_cache (release_nested_channels v e d ids s) = ap_cache s"
    by (simp add: release_nested_channels_def split: option.split)
qed (simp_all add: assign_group_def release_group_def adopt_bridge_group_def split: sum.split option.split)

lemma targets_steady: "steady s (serve_target parse e v upd brg rq t s)"
proof (cases t)
  case (GetItem i)
  then show ?thesis
    by (auto simp: get_channel_page_def intro!: guard_channel_steady intro: steady_same_cache split: sum.splits)
next
  case (PutItem i)
  then show ?thesis
    by (auto simp: update_channel_page_def intro!: guard_channel_steady intro: steady_same_cache split: sum.splits prod.splits)
next
  case (DeleteItem i)
  have "steady s (delete_channel_page v e i s)"
    unfolding delete_channel_page_def
    by (auto simp: Let_def intro!: guard_channel_steady intro: steady_same_cache split: sum.splits prod.splits)
  then show ?thesis using DeleteItem by simp
next
  case (GetTimeline i)
  have "steady s (channel_timeline parse v e i rq s)"
    unfolding channel_timeline_def
    by (auto simp: Let_def intro!: guard_channel_steady intro: steady_same_cache split: sum.splits prod.splits)
  then show ?thesis using GetTimeline by simp
next
  case (PostBridge i)
  have "steady s (attach_bridge v e i brg s)"
    unfolding attach_bridge_def
    by (auto intro!: guard_channel_steady intro: steady_same_cache split: sum.splits prod.splits)
  then show ?thesis using PostBridge by simp
next
  case (DeleteBridge i b)
  have "steady s (detach_bridge v e i b s)"
    unfolding detach_bridge_def
    by (auto intro!: guard_channel_steady intro: steady_same_cache split: sum.splits prod.splits)
  then show ?thesis using DeleteBridge by simp
qed

lemma channels_steady: "steady s (handle_channels parse e w v q s)"
proof (cases q)
  case (ChannelPost body)
  have "steady s (create_channel_page v e body s)"
    unfolding create_channel_page_def store_channel_def
    by (auto intro!: guard_creation_steady intro: steady_same_cache split: sum.splits prod.splits)
  then show ?thesis using ChannelPost by (auto intro: steady_same_cache)
next
  case (ChannelPath meth rest upd brg rq)
  then show ?thesis using targets_steady by (auto intro: steady_same_cache split: sum.split)
qed (auto intro: steady_same_cache)

interpretation channels: guarded_endpoint "\<lambda>v q. handle_channels parse (fst q) True v (snd q)" channel_needs for parse
  by unfold_locales (erule (4) channel_change_needs, rule channels_steady)

text \<open>
  C33. Nothing about channels changes without permission, however many requests are made: with access control wired,
  consistent access tables and a correct cache of roles, no sequence of requests to the channel endpoints changes a channel, a bridge, an event or the
  group of any resource, unless one of them comes from a caller with the right to it: an administrator or a writer of the group a new
  channel is created in, somebody who may write the channel that is renamed or deleted, and for a bridge somebody who
  may write the channels at both its ends. Here the channel of a connector or an agent is
  writable to whoever may write that connector or agent.
\<close>

theorem channel_changes_are_permitted:
  assumes "access_wf (ap_authz s)" "\<forall>uid t. coherent (ap_cache s) (ap_authz s) uid t"
    and "\<forall>(v, q) \<in> set xs. cl_wired v \<and>
      (\<forall>sub. cl_caller v = Some sub \<longrightarrow> \<not> channel_needs q (ap_authz s) (ap_data s) sub)"
  shows "let s' = serve_all (\<lambda>v q. handle_channels parse (fst q) True v (snd q)) xs s
    in ap_data s' = ap_data s \<and> ap_authz s' = ap_authz s"
  using channels.unpermitted_changes_nothing [OF assms(1) _ assms(3), where parse = parse] assms(2)
  by (simp add: changed_def fresh_def fresh_cache_def)

section \<open>What the lists show\<close>

definition readable :: "authz_db \<Rightarrow> string \<Rightarrow> channel \<Rightarrow> bool" where
  "readable db sub c \<longleftrightarrow> permitted db sub role_reader (fst (channel_target c)) (snd (channel_target c))"

lemma visible_channels_sound:
  assumes "i \<in> set (visible_channels v e db cs)" "cl_wired v" "cl_caller v = Some sub" "access_wf db"
  shows "\<exists>c \<in> set cs. ch_id c = i \<and> readable db sub c"
proof (cases "caller_is_admin True (ce_admin e) db (Some sub)")
  case True
  then have "admin_user db sub" by (auto simp: caller_is_admin_def split: sum.splits dest: is_admin_sound)
  then show ?thesis using assms(1-3) True by (auto simp: visible_channels_def readable_def permitted_def)
next
  case False
  let ?key = "map_of (rev (map (\<lambda>c. (channel_target c, ch_id c)) cs))"
  from assms(1-3) False obtain rt n names where n: "n \<in> set (filter_by_access True (ce_visible e rt) db (Some sub) (ce_public e) rt names)"
      "?key (rt, n) = Some i"
    by (auto simp: visible_channels_def Let_def map_filter_def split: if_splits)
  from map_of_SomeD [OF n(2)] obtain c where "c \<in> set cs" "channel_target c = (rt, n)" "ch_id c = i" by auto
  moreover have "permitted db sub role_reader rt n" using filter_by_access_sound [OF n(1) assms(4)] by blast
  ultimately show ?thesis by (auto simp: readable_def)
qed

lemma list_channels_ids:
  assumes "list_channels ok k db = Inr cs" "distinct (map cr_id (cdb_channels db))"
  shows "distinct (map ch_id cs)"
proof -
  have "distinct (map cr_id (sort_key f (filter P (cdb_channels db))))" for P and f :: "channel_row \<Rightarrow> kind \<times> string \<times> string"
    using assms(2) by (auto simp: distinct_map inj_on_def)
  then show ?thesis using assms(1) by (auto simp: list_channels_def o_def scan_channel_def split: if_splits)
qed

lemma service_list_ids:
  assumes "service_list io now k t w = Inr views" "distinct (map cr_id (cdb_channels (cw_db w)))"
  shows "distinct (map (ch_id \<circ> vw_channel) views)"
  using assms list_channels_ids [OF _ assms(2)]
  by (auto simp: service_list_def view_of_def o_def split: if_splits sum.splits)

text \<open>
  The lists of channels show what their reader may read: with access control wired and consistent tables, and whatever queries
  fail, every channel in a page is one the caller may read, and every edge in the list of subscriptions leads from a channel to a
  channel that exist and that the caller may read, both of them.
\<close>

theorem channel_lists_are_readable:
  assumes "cl_wired v" "cl_caller v = Some sub" "access_wf (ap_authz s)" "distinct (map cr_id (cdb_channels (site_db s)))"
  shows "(\<forall>ws m w. list_channel_page parse v e since kind page psize s = Inr (ws, m) \<longrightarrow> w \<in> set ws \<longrightarrow>
      readable (ap_authz s) sub (vw_channel w)) \<and>
    (\<forall>us u i. list_subscriptions v e s = Inr us \<longrightarrow> u \<in> set us \<longrightarrow> i \<in> {su_from u, su_to u} \<longrightarrow>
      (\<exists>c. get_channel True i (site_db s) = Inr c \<and> readable (ap_authz s) sub c))"
proof (intro conjI allI impI)
  fix ws m w
  assume p: "list_channel_page parse v e since kind page psize s = Inr (ws, m)" "w \<in> set ws"
  then obtain t views p where views: "service_list (\<lambda>n. ce_io e (n + 1)) (cl_now v) (trim_space kind) (Some t) (site_world s) = Inr views"
    and ws: "ws = page_items p (sort_key activity_order (filter (\<lambda>w. ch_id (vw_channel w) \<in>
        set (visible_channels v e (ap_authz s) (map vw_channel views))) views))"
    by (auto simp: list_channel_page_def Let_def split: sum.splits if_splits)
  from ws p(2) have w: "w \<in> set views" "ch_id (vw_channel w) \<in> set (visible_channels v e (ap_authz s) (map vw_channel views))"
    by (auto dest!: in_page_items)
  from visible_channels_sound [OF w(2) assms(1-3)] obtain w' where
    w': "w' \<in> set views" "ch_id (vw_channel w') = ch_id (vw_channel w)" "readable (ap_authz s) sub (vw_channel w')"
    by auto
  have "w' = w" using service_list_ids [OF views assms(4)] w(1) w'(1,2) by (auto simp: distinct_map inj_on_def)
  then show "readable (ap_authz s) sub (vw_channel w)" using w'(3) by simp
next
  fix us u i
  assume u: "list_subscriptions v e s = Inr us" "u \<in> set us" "i \<in> {su_from u, su_to u}"
  define look where "look = (\<lambda>j. case get_channel (ce_found e j) j (site_db s) of Inl _ \<Rightarrow> None | Inr c \<Rightarrow> Some c)"
  from u obtain ends where "i \<in> set (visible_channels v e (ap_authz s) (List.map_filter look ends))"
    by (auto simp: list_subscriptions_def Let_def look_def split: sum.splits)
  from visible_channels_sound [OF this assms(1-3)] obtain c j where c: "look j = Some c" "ch_id c = i" "readable (ap_authz s) sub c"
    by (auto simp: map_filter_def)
  then have g: "get_channel (ce_found e j) j (site_db s) = Inr c" by (simp add: look_def split: sum.splits)
  then have "ch_id c = j" by (auto simp: get_channel_def scan_channel_def split: if_splits option.splits dest!: lookup_row_SomeD)
  then have "get_channel True i (site_db s) = Inr c" using get_channel_ok [OF g] c(2) by simp
  then show "\<exists>c. get_channel True i (site_db s) = Inr c \<and> readable (ap_authz s) sub c" using c(3) by blast
qed

text \<open>
  The detail of a channel shows every edge. Whoever passes the read check of a channel gets the answer the hub gives
  with access control switched off: the subscriptions in and out of the channel are not filtered, so they name channels, bridges and triggers
  the caller may not see, which the list of subscriptions withholds.
\<close>

theorem channel_detail_shows_all_edges:
  assumes "get_channel_page parse v e i since s = (Inr d, s')"
  shows "fst (get_channel_page parse (v\<lparr>cl_wired := False\<rparr>) e i since s) = Inr d"
proof -
  obtain c where c: "channel_from_path e i s = Inr c" using assms by (auto simp: get_channel_page_def split: sum.splits)
  define k where "k = (\<lambda>s. (case channel_since parse (cl_now v) since of
             Inl d \<Rightarrow> (Inl d, s)
           | Inr t \<Rightarrow> (map_sum channel_error id (service_get (\<lambda>n. ce_io e (n + 1)) (cl_now v) (ch_id c) (Some t) (site_world s)), s))
      :: (channel_detail, channel_site) reply)"
  have "guard_channel_read v c k s = (Inr d, s')" using assms c by (simp add: get_channel_page_def k_def)
  then obtain c' where "k (s\<lparr>ap_cache := c'\<rparr>) = (Inr d, s')"
    by (auto simp: guard_channel_read_def guard_read_def with_guard_def split: sum.splits prod.splits)
  then have "fst (k (s\<lparr>ap_cache := ap_cache s\<rparr>)) = Inr d" by (auto simp: k_def split: sum.splits)
  moreover have "get_channel_page parse (v\<lparr>cl_wired := False\<rparr>) e i since s = k (s\<lparr>ap_cache := ap_cache s\<rparr>)"
    using c by (simp add: get_channel_page_def k_def guard_channel_read_def guard_read_def with_guard_def require_read_def guard_def
        cong: sum.case_cong)
  ultimately show ?thesis by simp
qed

text \<open>A site with the inbox of \<open>a1\<close>, which \<open>ann\<close> may read, and a grouping channel \<open>ann\<close> may not read that is bridged into it.\<close>

definition sample_site :: "channel_site api" where
  "sample_site = \<lparr>ap_authz = sample_access, ap_cache = new_group_cache 30,
     ap_data = \<lparr>cd_world = \<lparr>cw_db = \<lparr>cdb_channels =
         [\<lparr>cr_id = ''x1'', cr_kind = kind_agent, cr_name = ''Ada'', cr_description = [], cr_entity = Some ''a1'', cr_orphaned = False,
           cr_created = 0, cr_updated = 0\<rparr>,
          \<lparr>cr_id = ''x9'', cr_kind = kind_custom, cr_name = ''Ops'', cr_description = [], cr_entity = None, cr_orphaned = False,
           cr_created = 0, cr_updated = 0\<rparr>],
         cdb_bridges = [\<lparr>br_id = ''b1'', br_name = ''secret'', br_from = ''x9'', br_to = ''x1'', br_created = 0, br_updated = 0\<rparr>]\<rparr>,
       cw_queue = empty_queue, cw_triggers = None\<rparr>, cd_history = None\<rparr>\<rparr>"

definition plain_timeline :: timeline_request where
  "plain_timeline = \<lparr>tl_limit = [], tl_offset = [], tl_since = [], tl_status = [], tl_agent = [], tl_subject = []\<rparr>"

definition calm_channels :: channel_env where
  "calm_channels = \<lparr>ce_io = io_ok, ce_second = check_at 5, ce_admin = check_at 5, ce_visible = (\<lambda>_. check_at 5), ce_public = False,
     ce_found = (\<lambda>_. True), ce_tasks = True, ce_invocation = (\<lambda>_. True), ce_groups = all_ok, ce_owner = True,
     ce_rehome = (\<lambda>_. (True, True)), ce_id = ''n1'', ce_race = id\<rparr>"

theorem channel_detail_shows_all_edges_witness:
  "\<exists>d. fst (get_channel_page (\<lambda>_. None) ((plain_call ''ann'')\<lparr>cl_wired := False\<rparr>) calm_channels ''x1'' [] sample_site) = Inr d \<and>
     fst (get_channel_page (\<lambda>_. None) (plain_call ''ann'') calm_channels ''x1'' [] sample_site) = Inr d \<and>
     map su_from (dt_incoming d) = [''x9''] \<and> list_subscriptions (plain_call ''ann'') calm_channels sample_site = Inr []"
proof -
  have "case get_channel_page (\<lambda>_. None) (plain_call ''ann'') calm_channels ''x1'' [] sample_site of
      (Inl _, _) \<Rightarrow> False | (Inr d, _) \<Rightarrow> map su_from (dt_incoming d) = [''x9'']"
    by code_simp
  then obtain d s' where d: "get_channel_page (\<lambda>_. None) (plain_call ''ann'') calm_channels ''x1'' [] sample_site = (Inr d, s')"
      "map su_from (dt_incoming d) = [''x9'']"
    by (auto split: prod.splits sum.splits)
  moreover have "list_subscriptions (plain_call ''ann'') calm_channels sample_site = Inr []" by code_simp
  ultimately show ?thesis using channel_detail_shows_all_edges [OF d(1)] by simp
qed

theorem channel_changes_are_permitted_witness:
  "ap_data (serve_all (\<lambda>v q. handle_channels (\<lambda>_. None) (fst q) True v (snd q))
     [(plain_call ''ann'', (calm_channels, ChannelPath ''DELETE'' ''x9'' (Inl []) (Inl []) plain_timeline)),
      (plain_call ''bob'', (calm_channels, ChannelPath ''POST'' ''x9/bridges'' (Inl []) (Inr (''x1'', [])) plain_timeline))] sample_site) = ap_data sample_site"
proof -
  have [simp]: "channel_route ''DELETE'' ''x9'' = Inr (DeleteItem ''x9'')" "channel_route ''POST'' ''x9/bridges'' = Inr (PostBridge ''x9'')"
    by code_simp+
  have [simp]: "\<not> permitted sample_access sub role_writer ''channel'' ''x9''" if "sub \<in> {''ann'', ''bob''}" for sub
    using that by (auto simp: permitted_def admin_user_def sample_access_def sample_user_def)
  have no: "\<not> writable sample_access sub (site_db sample_site) ''x9''" if "sub \<in> {''ann'', ''bob''}" for sub
    using that by (auto simp: writable_def get_channel_def sample_site_def lookup_row_Cons scan_channel_def channel_target_def kind_custom_def
        kind_connector_def kind_agent_def)
  have "let s' = serve_all (\<lambda>v q. handle_channels (\<lambda>_. None) (fst q) True v (snd q))
     [(plain_call ''ann'', (calm_channels, ChannelPath ''DELETE'' ''x9'' (Inl []) (Inl []) plain_timeline)),
      (plain_call ''bob'', (calm_channels, ChannelPath ''POST'' ''x9/bridges'' (Inl []) (Inr (''x1'', [])) plain_timeline))] sample_site
    in ap_data s' = ap_data sample_site \<and> ap_authz s' = ap_authz sample_site"
    by (rule channel_changes_are_permitted)
      (use no in \<open>auto simp: sample_access_wf coherent_def new_group_cache_def plain_call_def sample_site_def [THEN arg_cong [where f = ap_authz]]
        sample_site_def [THEN arg_cong [where f = ap_cache]]\<close>)
  then show ?thesis by (simp add: Let_def)
qed

theorem channel_lists_are_readable_witness:
  "\<exists>w m. list_channel_page (\<lambda>_. None) (plain_call ''ann'') calm_channels [] [] [] [] sample_site = Inr ([w], m) \<and>
     ch_id (vw_channel w) = ''x1'' \<and> readable sample_access ''ann'' (vw_channel w)"
proof -
  have "case list_channel_page (\<lambda>_. None) (plain_call ''ann'') calm_channels [] [] [] [] sample_site of
      Inl _ \<Rightarrow> False | Inr (ws, m) \<Rightarrow> map (ch_id \<circ> vw_channel) ws = [''x1'']"
    by code_simp
  then obtain w m where w: "list_channel_page (\<lambda>_. None) (plain_call ''ann'') calm_channels [] [] [] [] sample_site = Inr ([w], m)"
      "ch_id (vw_channel w) = ''x1''"
    by (auto split: sum.splits)
  have "cl_wired (plain_call ''ann'')" "cl_caller (plain_call ''ann'') = Some ''ann''" "access_wf (ap_authz sample_site)"
      "distinct (map cr_id (cdb_channels (site_db sample_site)))" "ap_authz sample_site = sample_access"
    by (simp_all add: plain_call_def sample_site_def sample_access_wf)
  then show ?thesis using w channel_lists_are_readable [of "plain_call ''ann''" "''ann''" sample_site "\<lambda>_. None" calm_channels "[]" "[]" "[]" "[]"]
    by auto
qed

section \<open>Deleting and renaming\<close>

text \<open>
  A channel that is deleted has no bridge, so nothing is nested in it and the channels that were reached only
  through it, which the handler means to give to the caller's group, do not exist.
\<close>

lemma deletion_rehomes_nothing:
  assumes "delete_channel pg i db = (Inr (), db')" "reaching_into ok i db = Inr ids"
  shows "set ids \<subseteq> {i}"
proof
  fix x assume "x \<in> set ids"
  moreover have "reaching_into True i db = Inr ids" using assms(2) by (simp add: reaching_into_def split: if_splits)
  ultimately have "(x, i) \<in> (edge_set (cdb_bridges db))\<^sup>*" using reaching_into_star by (auto split: if_splits)
  moreover have "(y, i) \<notin> edge_set (cdb_bridges db)" for y
    using assms(1) by (auto simp: delete_channel_def touches_def list_ex_iff edge_set_def split: if_splits option.splits)
  ultimately show "x \<in> {i}" by (auto elim: rtranclE)
qed

lemma blank_rename_is_a_server_error:
  assumes "trim_space name = []"
  shows "channel_error (projl (fst (service_update pg now i (Some name) d db))) = Refused 500 ''name cannot be empty''"
  using assms by (simp add: service_update_def channel_error_def)

end
