(* ===== verification/ChannelViews.thy ===== *)
theory ChannelViews
  imports ChannelService
begin

text \<open>
  Properties of the channel service and the reconciler: the traffic counts of a channel
  agree with its timeline, and a reconcile pass reaches a fixed point.
\<close>

section \<open>Counts and timelines\<close>

definition events_since :: "instant \<Rightarrow> string \<Rightarrow> queue \<Rightarrow> event_row list" where
  "events_since s i q = filter (\<lambda>e. er_channel e = Some i \<and> s \<le> er_received e) (q_events q)"

lemma map_of_rev_distinct: "distinct (map fst xs) \<Longrightarrow> map_of (rev xs) = map_of xs"
proof (rule ext)
  fix k
  assume d: "distinct (map fst xs)"
  show "map_of (rev xs) k = map_of xs k"
  proof (cases "map_of xs k")
    case None
    then have "k \<notin> fst ` set xs" by (simp add: map_of_eq_None_iff)
    then have "map_of (rev xs) k = None" by (simp add: map_of_eq_None_iff)
    with None show ?thesis by simp
  next
    case (Some v)
    then have "(k, v) \<in> set (rev xs)" using map_of_SomeD by force
    moreover have "distinct (map fst (rev xs))" using d by (simp flip: rev_map)
    ultimately show ?thesis using Some by simp
  qed
qed

lemma map_of_rev_map_key:
  assumes "distinct xs" "\<And>x. key (h x) = x"
  shows "map_of (rev (map (\<lambda>b. (key b, b)) (map h xs))) i = (if i \<in> set xs then Some (h i) else None)"
proof -
  have "distinct (map fst (map (\<lambda>b. (key b, b)) (map h xs)))"
    using assms by (simp add: o_def)
  moreover have "map_of (map (\<lambda>b. (key b, b)) (map h xs)) i = (if i \<in> set xs then Some (h i) else None)"
    using assms(2) by (induction xs) auto
  ultimately show ?thesis by (simp only: map_of_rev_distinct)
qed

lemma birth_by_events:
  assumes "birth_stats all_ok s q = Inr births"
  shows "birth_by births i =
    \<lparr>cn_events = length (events_since s i q),
     cn_unmatched = length (filter (\<lambda>e. \<not> has_task (q_tasks q) e (\<lambda>t. True)) (events_since s i q)),
     cn_failed = length (filter (\<lambda>e. has_task (q_tasks q) e (\<lambda>t. tk_status t = Failed)) (events_since s i q))\<rparr>"
proof -
  let ?rows = "filter (\<lambda>e. er_channel e \<noteq> None \<and> s \<le> er_received e) (q_events q)"
  let ?keys = "remdups (map (the \<circ> er_channel) ?rows)"
  have births: "births = map (birth_stat_of (q_tasks q) ?rows) ?keys"
    using assms by (simp add: birth_stats_def Let_def)
  have rows: "filter (\<lambda>e. er_channel e = Some i) ?rows = events_since s i q"
    by (auto simp: events_since_def intro: filter_cong)
  have "map_of (rev (map (\<lambda>b. (bs_channel b, b)) births)) i =
      (if i \<in> set ?keys then Some (birth_stat_of (q_tasks q) ?rows i) else None)"
    unfolding births by (rule map_of_rev_map_key) (simp_all add: birth_stat_of_def Let_def)
  moreover have "events_since s i q = []" if "i \<notin> set ?keys"
    using that by (force simp: events_since_def filter_empty_conv)
  ultimately show ?thesis
    unfolding birth_by_def
    by (cases "i \<in> set ?keys")
      (simp_all only: birth_stat_of_def Let_def rows no_counts_def if_True if_False option.case birth_stat.simps
        filter.simps list.size not_False_eq_True simp_thms)
qed

text \<open>The events of a set of channels, channel by channel.\<close>

lemma sum_of_births:
  "distinct ids \<Longrightarrow> sum_list (map (\<lambda>i. length (events_since s i q)) ids) =
     length (filter (\<lambda>e. (case er_channel e of None \<Rightarrow> False | Some c \<Rightarrow> c \<in> set ids) \<and> s \<le> er_received e) (q_events q))"
proof (induction ids)
  case (Cons i ids)
  let ?in = "\<lambda>xs e. (case er_channel e of None \<Rightarrow> False | Some c \<Rightarrow> c \<in> set xs) \<and> s \<le> er_received e"
  have split: "length (filter (?in (i # ids)) rows) =
      length (filter (\<lambda>e. er_channel e = Some i \<and> s \<le> er_received e) rows) + length (filter (?in ids) rows)" for rows
    using Cons.prems by (induction rows) (auto split: option.splits)
  have "sum_list (map (\<lambda>i. length (events_since s i q)) ids) = length (filter (?in ids) (q_events q))"
    using Cons by simp
  then show ?case by (simp only: split list.map sum_list.Cons events_since_def)
qed (simp add: events_since_def split: option.split)

lemma selected_channels:
  assumes "ids \<noteq> []"
  shows "selected invs (no_event_filter\<lparr>ef_channels := ids, ef_since := Some s\<rparr>) q =
    filter (\<lambda>e. (case er_channel e of None \<Rightarrow> False | Some c \<Rightarrow> c \<in> set ids) \<and> s \<le> er_received e) (q_events q)"
  using assms
  by (simp add: selected_def conditions_def status_conditions_def no_event_filter_def cong: option.case_cong)

lemma selected_channel:
  assumes "i \<noteq> []"
  shows "selected invs (no_event_filter\<lparr>ef_channel := i, ef_since := Some s\<rparr>) q = events_since s i q"
  using assms by (simp add: selected_def conditions_def status_conditions_def no_event_filter_def events_since_def)

definition plain_query :: "instant \<Rightarrow> channel_query" where
  "plain_query s = \<lparr>eq_since = Some s, eq_limit = 0, eq_offset = 0, eq_agent = [], eq_status = [], eq_subject = []\<rparr>"

lemma reaching_into_self:
  assumes "reaching_into True i db = Inr ids" "has_row cr_id i (cdb_channels db)"
  shows "i \<in> set ids \<and> distinct ids"
  using reaching_into_star [OF assms(1)] assms by (auto simp: reaching_into_def Let_def)

text \<open>
  For a connector channel and for a custom channel the number of events the channel
  list reports since an instant is the total of the channel's timeline since that instant:
  for a connector the events born in it, for a custom channel those born in any channel
  that reaches it through bridges.
\<close>

theorem counts_match_timeline:
  assumes "get_channel True i (cw_db w) = Inr c" "i \<noteq> []" "ch_kind c = kind_connector \<or> ch_kind c = kind_custom"
  shows "\<exists>counts evs. counts_for io_ok now [c] (Some s) w = Inr counts \<and>
    channel_events io_ok invs i (plain_query s) w = Inr (evs, cn_events (counts c))"
proof -
  have id: "ch_id c = i" and row: "has_row cr_id i (cdb_channels (cw_db w))"
    using assms(1) by (auto simp: get_channel_def scan_channel_def has_row_iff split: option.splits dest!: lookup_row_SomeD)
  obtain births where births: "birth_stats all_ok s (cw_queue w) = Inr births" by (simp add: birth_stats_def Let_def)
  obtain deliv where deliv: "delivery_stats all_ok s (cw_queue w) = Inr deliv" by (simp add: delivery_stats_def Let_def)
  obtain ids where ids: "reaching_into True i (cw_db w) = Inr ids" by (simp add: reaching_into_def Let_def)
  have ids': "i \<in> set ids" "distinct ids" using reaching_into_self [OF ids row] by auto
  let ?f = "if ch_kind c = kind_connector then no_event_filter\<lparr>ef_channel := i, ef_since := Some s\<rparr>
    else no_event_filter\<lparr>ef_channels := ids, ef_since := Some s\<rparr>"
  let ?n = "length (selected invs ?f (cw_queue w))"
  have counts: "\<exists>counts. counts_for io_ok now [c] (Some s) w = Inr counts \<and> cn_events (counts c) = ?n"
  proof (cases "ch_kind c = kind_connector")
    case True
    then show ?thesis
      using births deliv assms(2)
      by (simp add: counts_for_def kind_defs count_of_def birth_by_events selected_channel id)
  next
    case False
    then have custom: "ch_kind c = kind_custom" using assms(3) by simp
    have "cn_events (count_of births deliv [(i, ids)] c) = sum_list (map (\<lambda>i. length (events_since s i (cw_queue w))) ids)"
      using births custom by (simp add: count_of_def id kind_defs birth_by_events)
    moreover have "ids \<noteq> []" using ids'(1) by auto
    ultimately show ?thesis
      using births deliv ids custom False
      by (simp add: counts_for_def id sum_of_births [OF ids'(2)] selected_channels)
  qed
  have "timeline_filter True c (cw_db w) = Inr (?f\<lparr>ef_since := None\<rparr>)"
    using assms(3) ids by (auto simp: timeline_filter_def id kind_defs no_event_filter_def)
  moreover have "narrow_filter (plain_query s) (?f\<lparr>ef_since := None\<rparr>) = ?f"
    by (simp add: narrow_filter_def plain_query_def no_event_filter_def)
  ultimately have "\<exists>evs. channel_events io_ok invs i (plain_query s) w = Inr (evs, ?n)"
    using assms(1) by (simp add: channel_events_def plain_query_def query_events_def count_events_def Let_def)
  then show ?thesis using counts by auto
qed

definition slack_world :: channel_world where
  "slack_world =
     \<lparr>cw_db = snd (ensure all_ok ''c1'' 1 kind_connector ''slack'' [] [] empty_chan_db),
      cw_queue = empty_queue
        \<lparr>q_events := [\<lparr>er_id = ''e'', er_connector = ''slack'', er_channel = Some ''c1'', er_headers = [],
           er_data = JNull, er_raw = [], er_received = 10, er_routed = None\<rparr>]\<rparr>,
      cw_triggers = None\<rparr>"

theorem counts_match_timeline_witness:
  "\<exists>c counts evs. get_channel True ''c1'' (cw_db slack_world) = Inr c \<and> ch_kind c = kind_connector \<and>
     counts_for io_ok 9 [c] (Some 5) slack_world = Inr counts \<and>
     channel_events io_ok [] ''c1'' (plain_query 5) slack_world = Inr (evs, cn_events (counts c))"
proof -
  have "case get_channel True ''c1'' (cw_db slack_world) of Inl _ \<Rightarrow> False | Inr c \<Rightarrow> ch_kind c = kind_connector"
    by code_simp
  then obtain c where c: "get_channel True ''c1'' (cw_db slack_world) = Inr c" "ch_kind c = kind_connector"
    by (cases "get_channel True ''c1'' (cw_db slack_world)") auto
  then show ?thesis using counts_match_timeline [OF c(1), where now = 9 and s = 5 and invs = "[]"] by auto
qed

text \<open>
  An agent's inbox is different: its count takes the tasks created since the instant, its
  timeline the events received since then, so an older event delivered now is counted but not listed.
\<close>

definition late_delivery :: channel_world where
  "late_delivery =
     \<lparr>cw_db = snd (ensure all_ok ''a1'' 1 kind_agent ''bot'' [] [] empty_chan_db),
      cw_queue = empty_queue
        \<lparr>q_events := [\<lparr>er_id = ''e'', er_connector = ''slack'', er_channel = None, er_headers = [], er_data = JNull,
           er_raw = [], er_received = 10, er_routed = None\<rparr>],
         q_tasks := [new_task_row 1 60 \<lparr>t_id = 0, t_event = ''e'', t_agent = ''bot'', t_trigger = [], t_invocation = [],
           t_headers = None, t_payload = None, t_attempts = 0, t_status = None, t_error = [], t_created = None,
           t_completed = None\<rparr> [] JNull]\<rparr>,
      cw_triggers = None\<rparr>"

lemma inbox_count_differs:
  "(case get_channel True ''a1'' (cw_db late_delivery) of Inl _ \<Rightarrow> False | Inr c \<Rightarrow>
     (case counts_for io_ok 100 [c] (Some 50) late_delivery of Inl _ \<Rightarrow> False | Inr counts \<Rightarrow>
        cn_events (counts c) = 1)) \<and>
   channel_events io_ok [] ''a1'' (plain_query 50) late_delivery = Inr ([], 0)"
proof
  show "case get_channel True ''a1'' (cw_db late_delivery) of Inl _ \<Rightarrow> False | Inr c \<Rightarrow>
     (case counts_for io_ok 100 [c] (Some 50) late_delivery of Inl _ \<Rightarrow> False | Inr counts \<Rightarrow> cn_events (counts c) = 1)"
    by code_simp
  have "(case channel_events io_ok [] ''a1'' (plain_query 50) late_delivery of Inl _ \<Rightarrow> False
     | Inr (evs, n) \<Rightarrow> length evs = 0 \<and> n = 0)" by code_simp
  then show "channel_events io_ok [] ''a1'' (plain_query 50) late_delivery = Inr ([], 0)"
    by (auto split: sum.splits)
qed

section \<open>Reconciling\<close>

text \<open>What identifies a channel: nothing but labels, flags and dates changes once it exists.\<close>

definition chan_ident :: "channel_row \<Rightarrow> string \<times> kind \<times> string option" where
  "chan_ident r = (cr_id r, cr_kind r, cr_entity r)"

definition idents :: "chan_db \<Rightarrow> (string \<times> kind \<times> string option) list" where
  "idents db = map chan_ident (cdb_channels db)"

definition provisioned :: "kind \<Rightarrow> string \<Rightarrow> chan_db \<Rightarrow> bool" where
  "provisioned k ref db \<longleftrightarrow> (\<exists>r \<in> set (cdb_channels db). owns_entity k ref r)"

lemma provisioned_idents: "provisioned k ref db \<longleftrightarrow> (\<exists>i. (i, k, Some ref) \<in> set (idents db))"
  by (force simp: provisioned_def idents_def chan_ident_def owns_entity_def)

text \<open>No channel of the kind outside the live references is still unflagged.\<close>

definition all_orphaned :: "kind \<Rightarrow> string list \<Rightarrow> chan_db \<Rightarrow> bool" where
  "all_orphaned k live db \<longleftrightarrow> (\<forall>r \<in> set (cdb_channels db). \<not> newly_orphaned k live r)"

lemma idents_update:
  assumes "\<And>r. cr_id (f r) = cr_id r" "\<And>r. cr_kind (f r) = cr_kind r" "\<And>r. cr_entity (f r) = cr_entity r"
  shows "idents (db\<lparr>cdb_channels := update_where p f (cdb_channels db)\<rparr>) = idents db"
  using assms by (simp add: idents_def map_update_where chan_ident_def)

lemma ensure_existing:
  assumes "provisioned k ref db" "kind_valid k" "k \<noteq> kind_custom" "ref \<noteq> []"
  shows "\<exists>c db'. ensure all_ok i now k ref name d db = (Inr c, db') \<and> idents db' = idents db \<and>
    (\<forall>k' live. (k' \<noteq> k \<or> ref \<in> set live) \<longrightarrow> all_orphaned k' live db \<longrightarrow> all_orphaned k' live db')"
proof -
  obtain r where r: "List.find (owns_entity k ref) (cdb_channels db) = Some r"
    using assms(1) by (cases "List.find (owns_entity k ref) (cdb_channels db)") (auto simp: find_None_iff provisioned_def)
  let ?f = "refresh_row now (proposed_row i now k ref name d)"
  let ?db = "db\<lparr>cdb_channels := update_where (owns_entity k ref) ?f (cdb_channels db)\<rparr>"
  have "ensure all_ok i now k ref name d db = (Inr (scan_channel (?f r)), ?db)"
    using r assms(2-4) by (simp add: ensure_def Let_def)
  moreover have "idents ?db = idents db" by (rule idents_update) (simp_all add: refresh_row_def)
  moreover have "all_orphaned k' live ?db" if "k' \<noteq> k \<or> ref \<in> set live" "all_orphaned k' live db" for k' live
    using that by (auto simp: all_orphaned_def sql_simps newly_orphaned_def refresh_row_def owns_entity_def)
  ultimately show ?thesis by blast
qed

lemma ensure_all_existing:
  assumes "kind_valid k" "k \<noteq> kind_custom" "\<forall>e \<in> set es. provisioned k (en_ref e) db \<and> en_ref e \<noteq> []"
  shows "\<exists>db'. ensure_all io_ok gen now n k es db = (Inr (length es), db') \<and> idents db' = idents db \<and>
    (\<forall>k' live. (k' \<noteq> k \<or> en_ref ` set es \<subseteq> set live) \<longrightarrow> all_orphaned k' live db \<longrightarrow> all_orphaned k' live db')"
  using assms(3)
proof (induction es arbitrary: n db)
  case (Cons e es)
  obtain c db1 where e: "ensure all_ok (gen n) now k (en_ref e) (en_name e) (entity_description k e) db = (Inr c, db1)"
    "idents db1 = idents db"
    "\<forall>k' live. (k' \<noteq> k \<or> en_ref e \<in> set live) \<longrightarrow> all_orphaned k' live db \<longrightarrow> all_orphaned k' live db1"
    using ensure_existing [OF _ assms(1,2), of "en_ref e" db "gen n" now "en_name e" "entity_description k e"] Cons.prems by auto
  have "\<forall>e' \<in> set es. provisioned k (en_ref e') db1 \<and> en_ref e' \<noteq> []"
    using Cons.prems e(2) by (simp add: provisioned_idents)
  from Cons.IH [OF this, of "Suc n"] obtain db2 where
    "ensure_all io_ok gen now (Suc n) k es db1 = (Inr (length es), db2)" "idents db2 = idents db1"
    "\<forall>k' live. (k' \<noteq> k \<or> en_ref ` set es \<subseteq> set live) \<longrightarrow> all_orphaned k' live db1 \<longrightarrow> all_orphaned k' live db2" by blast
  with e show ?case by auto
qed simp

text \<open>A loop that succeeds has provisioned all its entities, and never takes a channel away.\<close>

lemma ensure_success:
  assumes "ensure pg i now k ref name d db = (Inr c, db')"
  shows "ref \<noteq> [] \<and> provisioned k ref db' \<and> set (idents db) \<subseteq> set (idents db')"
proof (cases "List.find (owns_entity k ref) (cdb_channels db)")
  case None
  then show ?thesis
    using assms by (auto simp: ensure_def Let_def provisioned_def proposed_row_def owns_entity_def idents_def split: if_splits)
next
  case (Some r)
  let ?f = "refresh_row now (proposed_row i now k ref name d)"
  have db': "ref \<noteq> [] \<and> db' = db\<lparr>cdb_channels := update_where (owns_entity k ref) ?f (cdb_channels db)\<rparr>"
    using assms Some by (auto simp: ensure_def Let_def split: if_splits)
  have same: "idents db' = idents db"
    using db' idents_update [of ?f "owns_entity k ref" db] by (simp add: refresh_row_def)
  moreover have "provisioned k ref db" using find_Some_iff_first [OF Some] by (auto simp: provisioned_def)
  ultimately show ?thesis using db' by (simp add: provisioned_idents)
qed

lemma ensure_all_success:
  "ensure_all io gen now n k es db = (Inr m, db') \<Longrightarrow>
   (\<forall>e \<in> set es. en_ref e \<noteq> [] \<and> provisioned k (en_ref e) db') \<and> set (idents db) \<subseteq> set (idents db')"
proof (induction es arbitrary: n m db)
  case (Cons e es)
  obtain c db1 m' where s: "ensure (io n) (gen n) now k (en_ref e) (en_name e) (entity_description k e) db = (Inr c, db1)"
    "ensure_all io gen now (Suc n) k es db1 = (Inr m', db')"
    using Cons.prems by (auto split: prod.splits sum.splits)
  then show ?case using ensure_success [OF s(1)] Cons.IH [OF s(2)] by (auto simp: provisioned_idents)
qed simp

lemma mark_orphans_success:
  assumes "mark_orphans pg now k live db = (Inr n, db')"
  shows "idents db' = idents db \<and> all_orphaned k live db' \<and>
    (\<forall>k' live'. all_orphaned k' live' db \<longrightarrow> all_orphaned k' live' db') \<and> kind_valid k \<and> k \<noteq> kind_custom"
proof -
  let ?f = "\<lambda>r. r\<lparr>cr_orphaned := True, cr_updated := now\<rparr>"
  have db': "db' = db\<lparr>cdb_channels := update_where (newly_orphaned k live) ?f (cdb_channels db)\<rparr>"
    and k: "kind_valid k" "k \<noteq> kind_custom"
    using assms by (auto simp: mark_orphans_def split: if_splits)
  have "idents db' = idents db" unfolding db' by (rule idents_update) simp_all
  moreover have flagged: "\<not> newly_orphaned k' live' (?f r)" for k' live' r by (simp add: newly_orphaned_def)
  then have "all_orphaned k live db'" "\<And>k' live'. all_orphaned k' live' db \<Longrightarrow> all_orphaned k' live' db'"
    unfolding db' by (auto simp: all_orphaned_def sql_simps)
  ultimately show ?thesis using k by blast
qed

lemma mark_orphans_none:
  assumes "all_orphaned k live db" "kind_valid k" "k \<noteq> kind_custom"
  shows "mark_orphans all_ok now k live db = (Inr 0, db)"
proof -
  have "update_where (newly_orphaned k live) f (cdb_channels db) = cdb_channels db" for f
    using assms(1) by (intro update_where_none) (simp add: all_orphaned_def)
  then show ?thesis
    using assms by (simp add: mark_orphans_def all_orphaned_def filter_empty_conv)
qed

section \<open>Stamping\<close>

text \<open>No unstamped event of the queue joins one of the stamps.\<close>

definition unjoined :: "(event_row \<Rightarrow> channel_stamp \<Rightarrow> bool) \<Rightarrow> channel_stamp list \<Rightarrow> queue \<Rightarrow> bool" where
  "unjoined joins stamps q \<longleftrightarrow>
     (\<forall>e \<in> set (q_events q). er_channel e = None \<longrightarrow> (\<forall>st \<in> set stamps. \<not> joins e st))"

definition unstamped :: "queue \<Rightarrow> event_row set" where
  "unstamped q = {e \<in> set (q_events q). er_channel e = None}"

lemma stamp_row_unstamped:
  assumes "er_channel (stamp_row joins stamps e) = None"
  shows "stamp_row joins stamps e = e \<and> er_channel e = None \<and> (\<forall>st \<in> set stamps. \<not> joins e st)"
proof (cases "stamp_pick joins stamps e")
  case None
  then have "stamp_row joins stamps e = e" by (simp add: stamp_row_def)
  moreover from this have "er_channel e = None" using assms by simp
  ultimately show ?thesis using None by (simp add: stamp_pick_def find_None_all)
next
  case (Some st)
  then show ?thesis using assms by (simp add: stamp_row_def)
qed

lemma stamp_events_success:
  assumes "stamp_events fk joins stamps q = Some (n, q')"
  shows "q_tasks q' = q_tasks q \<and> unstamped q' \<subseteq> unstamped q \<and> unjoined joins stamps q'"
proof -
  have q': "q' = q\<lparr>q_events := map (stamp_row joins stamps) (q_events q)\<rparr>"
    using assms by (simp add: stamp_events_def split: if_splits)
  have ev: "e \<in> set (q_events q) \<and> (\<forall>st \<in> set stamps. \<not> joins e st)"
    if e: "e \<in> set (q_events q')" "er_channel e = None" for e
  proof -
    obtain e0 where e0: "e0 \<in> set (q_events q)" "e = stamp_row joins stamps e0" using e(1) q' by auto
    then show ?thesis using stamp_row_unstamped [of joins stamps e0] e(2) by simp
  qed
  then have "unstamped q' \<subseteq> unstamped q" by (auto simp: unstamped_def)
  moreover have "unjoined joins stamps q'" using ev by (simp add: unjoined_def)
  ultimately show ?thesis by (simp add: q')
qed

lemma stamp_events_none:
  assumes "unjoined joins stamps q"
  shows "stamp_events fk joins stamps q = Some (0, q)"
proof -
  have none: "stamp_pick joins stamps e = None" if "e \<in> set (q_events q)" for e
    using assms that by (simp add: unjoined_def stamp_pick_def find_None_all)
  have "map (stamp_row joins stamps) (q_events q) = q_events q"
    by (rule map_idI) (simp add: stamp_row_def none)
  moreover have "filter (\<lambda>e. stamp_pick joins stamps e \<noteq> None) (q_events q) = []"
    by (simp add: filter_empty_conv none)
  moreover have "\<not> list_ex (\<lambda>e. case stamp_pick joins stamps e of None \<Rightarrow> False | Some st \<Rightarrow> \<not> fk (cs_channel st)) (q_events q)"
    using none by (auto simp: list_ex_iff)
  ultimately show ?thesis by (simp add: stamp_events_def)
qed

abbreviation connector_join :: "event_row \<Rightarrow> channel_stamp \<Rightarrow> bool" where
  "connector_join \<equiv> (\<lambda>e st. er_connector e = cs_label st)"

abbreviation inbox_join :: "task_row list \<Rightarrow> event_row \<Rightarrow> channel_stamp \<Rightarrow> bool" where
  "inbox_join tasks \<equiv> (\<lambda>e st. er_connector e \<in> set direct_source_labels \<and> has_task tasks e (\<lambda>t. tk_agent t = cs_label st))"

lemma unjoined_subset:
  assumes "unjoined joins stamps q" "unstamped q' \<subseteq> unstamped q"
  shows "unjoined joins stamps q'"
  unfolding unjoined_def
proof (intro ballI impI)
  fix e st
  assume "e \<in> set (q_events q')" "er_channel e = None" "st \<in> set stamps"
  then have "e \<in> unstamped q" using assms(2) by (auto simp: unstamped_def)
  then show "\<not> joins e st" using assms(1) \<open>st \<in> set stamps\<close> by (simp add: unjoined_def unstamped_def)
qed

lemma stamp_birth_success:
  assumes "stamp_birth_channels fk pg stamps q = (Inr n, q')"
  shows "q_tasks q' = q_tasks q \<and> unstamped q' \<subseteq> unstamped q \<and> unjoined connector_join stamps q'"
proof (cases "stamps = []")
  case True
  then show ?thesis using assms by (simp add: stamp_birth_channels_def unjoined_def)
next
  case False
  then have "stamp_events fk connector_join stamps q = Some (n, q')"
    using assms by (auto simp: stamp_birth_channels_def split: if_splits option.splits)
  then show ?thesis by (rule stamp_events_success)
qed

lemma stamp_inbox_success:
  assumes "stamp_inbox_birth_channels fk pg direct_source_labels stamps q = (Inr n, q')"
  shows "q_tasks q' = q_tasks q \<and> unstamped q' \<subseteq> unstamped q \<and> unjoined (inbox_join (q_tasks q)) stamps q'"
proof (cases "stamps = []")
  case True
  then show ?thesis using assms by (simp add: stamp_inbox_birth_channels_def unjoined_def)
next
  case False
  moreover have "direct_source_labels \<noteq> []" by (simp add: direct_source_labels_def)
  ultimately have "stamp_events fk (inbox_join (q_tasks q)) stamps q = Some (n, q')"
    using assms unfolding stamp_inbox_birth_channels_def
    by (cases "pg 0"; cases "stamp_events fk (inbox_join (q_tasks q)) stamps q") auto
  then show ?thesis by (rule stamp_events_success)
qed

lemma scan_channel_fields [simp]:
  "ch_entity (scan_channel r) = entity_text r" "ch_kind (scan_channel r) = cr_kind r"
  by (simp_all add: scan_channel_def entity_text_def)

lemma entity_text_ref: "ref \<noteq> [] \<Longrightarrow> entity_text r = ref \<longleftrightarrow> cr_entity r = Some ref"
  by (auto simp: entity_text_def split: option.splits)

lemma stamps_labels:
  assumes "list_channels True [] db = Inr cs"
  shows "cs_label ` set (stamps_of k cs) = {ref. ref \<noteq> [] \<and> provisioned k ref db}"
proof -
  have cs: "set cs = scan_channel ` set (cdb_channels db)" using assms by (auto simp: list_channels_def)
  have "ref \<in> cs_label ` set (stamps_of k cs) \<longleftrightarrow>
      (\<exists>r \<in> set (cdb_channels db). entity_text r = ref \<and> ref \<noteq> [] \<and> cr_kind r = k)" for ref
    by (force simp: stamps_of_def cs image_iff)
  also have "\<dots> ref \<longleftrightarrow> ref \<noteq> [] \<and> provisioned k ref db" for ref
    by (auto simp: provisioned_def owns_entity_def simp flip: entity_text_ref)
  finally show ?thesis by blast
qed

text \<open>Events that no channel of the registry is the birth channel of.\<close>

definition homeless :: "chan_db \<Rightarrow> task_row list \<Rightarrow> event_row \<Rightarrow> bool" where
  "homeless db tasks e \<longleftrightarrow>
     (er_connector e \<noteq> [] \<longrightarrow> \<not> provisioned kind_connector (er_connector e) db) \<and>
     (er_connector e \<in> set direct_source_labels \<longrightarrow>
        (\<forall>t \<in> set tasks. tk_event t = er_id e \<longrightarrow> tk_agent t \<noteq> [] \<longrightarrow> \<not> provisioned kind_agent (tk_agent t) db))"

lemma stamp_history_success:
  assumes "stamp_history io w = (Inr n, w')"
  shows "\<exists>q'. w' = w\<lparr>cw_queue := q'\<rparr> \<and> q_tasks q' = q_tasks (cw_queue w) \<and> unstamped q' \<subseteq> unstamped (cw_queue w) \<and>
    (\<forall>e \<in> unstamped q'. homeless (cw_db w) (q_tasks q') e)"
proof -
  have ok: "io 0 0" using assms by (cases "io 0 0") (simp_all add: stamp_history_def list_channels_def)
  obtain cs where cs: "list_channels True [] (cw_db w) = Inr cs" by (simp add: list_channels_def)
  obtain n1 q1 where b: "stamp_birth_channels (channel_exists (cw_db w)) (io 1) (stamps_of kind_connector cs) (cw_queue w) = (Inr n1, q1)"
    using assms ok cs by (auto simp: stamp_history_def split: sum.splits prod.splits)
  obtain n2 q2 where i: "stamp_inbox_birth_channels (channel_exists (cw_db w)) (io 2) direct_source_labels (stamps_of kind_agent cs) q1 = (Inr n2, q2)"
    and w': "w' = w\<lparr>cw_queue := q2\<rparr>"
    using assms ok cs b by (auto simp: stamp_history_def split: sum.splits prod.splits)
  note B = stamp_birth_success [OF b] and I = stamp_inbox_success [OF i]
  have jc: "unjoined connector_join (stamps_of kind_connector cs) q2"
    using B I unjoined_subset by blast
  have "homeless (cw_db w) (q_tasks q2) e" if e: "e \<in> unstamped q2" for e
  proof -
    have ec: "e \<in> set (q_events q2)" "er_channel e = None" using e by (simp_all add: unstamped_def)
    have "er_connector e \<notin> cs_label ` set (stamps_of kind_connector cs)"
      using jc ec by (auto simp: unjoined_def)
    moreover have "tk_agent t \<notin> cs_label ` set (stamps_of kind_agent cs)"
      if "er_connector e \<in> set direct_source_labels" "t \<in> set (q_tasks q2)" "tk_event t = er_id e" for t
      using I ec that by (auto simp: unjoined_def has_task_def list_ex_iff)
    ultimately show ?thesis unfolding homeless_def stamps_labels [OF cs] by blast
  qed
  then show ?thesis using w' B I by (intro exI [of _ q2]) auto
qed

lemma stamp_history_none:
  assumes "\<forall>e \<in> unstamped (cw_queue w). homeless (cw_db w) (q_tasks (cw_queue w)) e"
  shows "stamp_history io_ok w = (Inr 0, w)"
proof -
  obtain cs where cs: "list_channels True [] (cw_db w) = Inr cs" by (simp add: list_channels_def)
  let ?q = "cw_queue w"
  have "unjoined connector_join (stamps_of kind_connector cs) ?q"
  proof -
    have "er_connector e \<notin> cs_label ` set (stamps_of kind_connector cs)" if "e \<in> unstamped ?q" for e
      using assms that by (auto simp: stamps_labels [OF cs] homeless_def)
    then show ?thesis by (auto simp: unjoined_def unstamped_def)
  qed
  then have b: "stamp_birth_channels fk all_ok (stamps_of kind_connector cs) ?q = (Inr 0, ?q)" for fk
    by (simp add: stamp_birth_channels_def stamp_events_none)
  have "unjoined (inbox_join (q_tasks ?q)) (stamps_of kind_agent cs) ?q"
  proof -
    have "tk_agent t \<notin> cs_label ` set (stamps_of kind_agent cs)"
      if "e \<in> unstamped ?q" "er_connector e \<in> set direct_source_labels" "t \<in> set (q_tasks ?q)" "tk_event t = er_id e" for e t
      using assms that by (auto simp: stamps_labels [OF cs] homeless_def)
    then show ?thesis by (force simp: unjoined_def unstamped_def has_task_def list_ex_iff)
  qed
  then have i: "stamp_inbox_birth_channels fk all_ok direct_source_labels (stamps_of kind_agent cs) ?q = (Inr 0, ?q)" for fk
    by (simp add: stamp_inbox_birth_channels_def stamp_events_none)
  show ?thesis by (simp add: stamp_history_def cs b i)
qed

section \<open>A fixed point\<close>

text \<open>What a successful pass leaves behind; all that the next one reads.\<close>

definition settled :: "entity list \<Rightarrow> entity list \<Rightarrow> channel_world \<Rightarrow> bool" where
  "settled as cs w \<longleftrightarrow>
     (\<forall>e \<in> set cs. provisioned kind_connector (en_ref e) (cw_db w) \<and> en_ref e \<noteq> []) \<and>
     (\<forall>e \<in> set as. provisioned kind_agent (en_ref e) (cw_db w) \<and> en_ref e \<noteq> []) \<and>
     all_orphaned kind_connector (map en_ref cs) (cw_db w) \<and>
     all_orphaned kind_agent (map en_ref as) (cw_db w) \<and>
     (\<forall>e \<in> unstamped (cw_queue w). homeless (cw_db w) (q_tasks (cw_queue w)) e \<and>
        er_connector e \<in> set direct_source_labels \<and> (\<forall>t \<in> set (q_tasks (cw_queue w)). tk_event t \<noteq> er_id e))"

lemma provisioned_mono:
  "provisioned k ref db \<Longrightarrow> set (idents db) \<subseteq> set (idents db') \<Longrightarrow> provisioned k ref db'"
  by (auto simp: provisioned_idents)

lemma direct_sources: "is_direct_source l \<longleftrightarrow> l \<in> set direct_source_labels"
  by (auto simp: is_direct_source_def direct_source_labels_def source_cron_def source_chat_def)

lemma kind_facts:
  "kind_valid kind_connector" "kind_valid kind_agent" "kind_connector \<noteq> kind_custom" "kind_agent \<noteq> kind_custom"
  "kind_connector \<noteq> kind_agent" "kind_agent \<noteq> kind_connector"
  by (simp_all add: kind_valid_def kind_defs)

lemma inbox_agents_set:
  "unstamped_inbox_agents pg direct_source_labels q = Inr ns \<Longrightarrow> set ns = tk_agent ` {t \<in> set (q_tasks q).
     \<exists>e \<in> set (q_events q). er_id e = tk_event t \<and> er_channel e = None \<and> er_connector e \<in> set direct_source_labels}"
  unfolding unstamped_inbox_agents_def list_ex_iff
  by (cases "pg 0"; cases "direct_source_labels = []") (simp_all add: direct_source_labels_def [THEN arg_cong [where f = "\<lambda>x. x = []"]], clarsimp)

lemma sync_settles:
  assumes "sync io gen now (Inr as) (Inr cs) w = (Inr r, w')"
  shows "settled as cs w'"
proof -
  obtain n0 db0 where e0: "ensure_all (io 0) (gen 0) now 0 kind_connector cs (cw_db w) = (Inr n0, db0)"
    using assms by (auto simp: sync_def split: sum.splits prod.splits)
  obtain n1 db1 where e1: "ensure_all (io 1) (gen 1) now 0 kind_agent as db0 = (Inr n1, db1)"
    using assms e0 by (auto simp: sync_def split: sum.splits prod.splits)
  obtain ls where ls: "unstamped_source_labels (io 4 0) (cw_queue w) = Inr ls"
    using assms e0 e1 by (auto simp: sync_def split: sum.splits prod.splits)
  obtain n2 db2 where e2: "ensure_all (io 2) (gen 2) now 0 kind_connector
      (map (label_entity kind_connector) (filter (\<lambda>l. \<not> is_direct_source l) ls)) db1 = (Inr n2, db2)"
    using assms e0 e1 ls by (auto simp: sync_def split: sum.splits prod.splits)
  obtain ns where ns: "unstamped_inbox_agents (io 4 1) direct_source_labels (cw_queue w) = Inr ns"
    using assms e0 e1 ls e2 by (auto simp: sync_def split: sum.splits prod.splits)
  obtain n3 db3 where e3: "ensure_all (io 3) (gen 3) now 0 kind_agent (map (label_entity kind_agent) ns) db2 = (Inr n3, db3)"
    using assms e0 e1 ls e2 ns by (auto simp: sync_def split: sum.splits prod.splits)
  obtain o1 db4 where m1: "mark_orphans (io 4 2) now kind_connector (map en_ref cs) db3 = (Inr o1, db4)"
    using assms e0 e1 ls e2 ns e3 by (auto simp: sync_def split: sum.splits prod.splits)
  obtain o2 db5 where m2: "mark_orphans (io 4 3) now kind_agent (map en_ref as) db4 = (Inr o2, db5)"
    using assms e0 e1 ls e2 ns e3 m1 by (auto simp: sync_def split: sum.splits prod.splits)
  obtain st where h: "stamp_history (io 5) (w\<lparr>cw_db := db5\<rparr>) = (Inr st, w')"
    using assms e0 e1 ls e2 ns e3 m1 m2 by (auto simp: sync_def split: sum.splits prod.splits)
  note E0 = ensure_all_success [OF e0] and E1 = ensure_all_success [OF e1] and E2 = ensure_all_success [OF e2]
    and E3 = ensure_all_success [OF e3] and M1 = mark_orphans_success [OF m1] and M2 = mark_orphans_success [OF m2]
  from stamp_history_success [OF h] obtain q' where q': "w' = w\<lparr>cw_db := db5, cw_queue := q'\<rparr>"
    "q_tasks q' = q_tasks (cw_queue w)" "unstamped q' \<subseteq> unstamped (cw_queue w)"
    "\<forall>e \<in> unstamped q'. homeless db5 (q_tasks q') e" by auto
  have idents: "idents db5 = idents db3" using M1 M2 by simp
  have grow: "set (idents db0) \<subseteq> set (idents db5)" "set (idents db1) \<subseteq> set (idents db5)" "set (idents db2) \<subseteq> set (idents db5)"
    using E1 E2 E3 idents by auto
  have "er_connector e \<in> set direct_source_labels \<and> (\<forall>t \<in> set (q_tasks q'). tk_event t \<noteq> er_id e)"
    if e: "e \<in> unstamped q'" for e
  proof
    have e': "e \<in> set (q_events (cw_queue w))" "er_channel e = None" using e q'(3) by (auto simp: unstamped_def)
    show direct: "er_connector e \<in> set direct_source_labels"
    proof (rule ccontr)
      assume n: "er_connector e \<notin> set direct_source_labels"
      have "er_connector e \<in> set ls" using ls e' by (auto simp: unstamped_source_labels_def split: if_splits)
      then have "er_connector e \<noteq> [] \<and> provisioned kind_connector (er_connector e) db2"
        using E2 n by (auto simp: label_entity_def direct_sources)
      then show False using q'(4) e provisioned_mono [OF _ grow(3)] by (auto simp: homeless_def)
    qed
    show "\<forall>t \<in> set (q_tasks q'). tk_event t \<noteq> er_id e"
    proof (intro ballI notI)
      fix t assume t: "t \<in> set (q_tasks q')" "tk_event t = er_id e"
      have "tk_agent t \<in> set ns"
        unfolding inbox_agents_set [OF ns] using e' t direct q'(2) by (intro rev_image_eqI [of t]) auto
      then have "tk_agent t \<noteq> [] \<and> provisioned kind_agent (tk_agent t) db3" using E3 by (auto simp: label_entity_def)
      then show False using q'(4) e t direct idents by (auto simp: homeless_def provisioned_idents)
    qed
  qed
  moreover have "\<forall>e \<in> set cs. provisioned kind_connector (en_ref e) db5 \<and> en_ref e \<noteq> []"
    using E0 provisioned_mono [OF _ grow(1)] by blast
  moreover have "\<forall>e \<in> set as. provisioned kind_agent (en_ref e) db5 \<and> en_ref e \<noteq> []"
    using E1 provisioned_mono [OF _ grow(2)] by blast
  ultimately show ?thesis using q' M1 M2 by (simp add: settled_def)
qed

lemma settled_listings:
  assumes "settled as cs w"
  shows "\<exists>ls. unstamped_source_labels all_ok (cw_queue w) = Inr ls \<and> filter (\<lambda>l. \<not> is_direct_source l) ls = []"
    and "unstamped_inbox_agents all_ok direct_source_labels (cw_queue w) = Inr []"
proof -
  have direct: "er_connector e \<in> set direct_source_labels" "\<forall>t \<in> set (q_tasks (cw_queue w)). tk_event t \<noteq> er_id e"
    if "e \<in> set (q_events (cw_queue w))" "er_channel e = None" for e
    using assms that by (auto simp: settled_def unstamped_def)
  show "\<exists>ls. unstamped_source_labels all_ok (cw_queue w) = Inr ls \<and> filter (\<lambda>l. \<not> is_direct_source l) ls = []"
    using direct(1) by (auto simp: unstamped_source_labels_def filter_empty_conv direct_sources)
  have "filter (\<lambda>t. list_ex (\<lambda>e. er_id e = tk_event t \<and> er_channel e = None \<and> er_connector e \<in> set direct_source_labels)
      (q_events (cw_queue w))) (q_tasks (cw_queue w)) = []"
    using direct(2) by (fastforce simp: filter_empty_conv list_ex_iff)
  then show "unstamped_inbox_agents all_ok direct_source_labels (cw_queue w) = Inr []"
    by (simp add: unstamped_inbox_agents_def direct_source_labels_def)
qed

text \<open>
  C15. A reconcile pass that succeeds reaches a fixed point: with the same registry listings
  the next pass whose statements go through succeeds as well, provisions again exactly the
  listed entities, flags no orphan, stamps no event, creates no channel and leaves the
  queue as it is, whatever failed or succeeded before.
\<close>

theorem sync_reaches_fixed_point:
  assumes "sync io gen now (Inr as) (Inr cs) w = (Inr r, w')"
  shows "\<exists>w''. sync (\<lambda>_. io_ok) gen' now' (Inr as) (Inr cs) w' =
      (Inr \<lparr>sr_provisioned = length cs + length as, sr_orphaned = 0, sr_stamped = 0\<rparr>, w'') \<and>
    idents (cw_db w'') = idents (cw_db w') \<and> cw_queue w'' = cw_queue w'"
proof -
  note S = sync_settles [OF assms]
  obtain db0 where d0: "ensure_all io_ok (gen' 0) now' 0 kind_connector cs (cw_db w') = (Inr (length cs), db0)"
    "idents db0 = idents (cw_db w')" "all_orphaned kind_connector (map en_ref cs) db0" "all_orphaned kind_agent (map en_ref as) db0"
    using ensure_all_existing [of kind_connector cs "cw_db w'" "gen' 0" now' 0] S
    by (auto simp: settled_def kind_facts)
  have "\<forall>e \<in> set as. provisioned kind_agent (en_ref e) db0 \<and> en_ref e \<noteq> []"
    using S d0(2) by (auto simp: settled_def provisioned_idents)
  then obtain db1 where d1: "ensure_all io_ok (gen' 1) now' 0 kind_agent as db0 = (Inr (length as), db1)"
    "idents db1 = idents db0" "all_orphaned kind_connector (map en_ref cs) db1" "all_orphaned kind_agent (map en_ref as) db1"
    using ensure_all_existing [of kind_agent as db0 "gen' 1" now' 0] d0
    by (auto simp: kind_facts)
  obtain ls where ls: "unstamped_source_labels all_ok (cw_queue w') = Inr ls" "filter (\<lambda>l. \<not> is_direct_source l) ls = []"
    using settled_listings(1) [OF S] by blast
  let ?w = "w'\<lparr>cw_db := db1\<rparr>"
  have "stamp_history io_ok ?w = (Inr 0, ?w)"
  proof (rule stamp_history_none)
    show "\<forall>e \<in> unstamped (cw_queue ?w). homeless (cw_db ?w) (q_tasks (cw_queue ?w)) e"
      using S d0(2) d1(2) by (auto simp: settled_def homeless_def provisioned_idents)
  qed
  then have "sync (\<lambda>_. io_ok) gen' now' (Inr as) (Inr cs) w' =
      (Inr \<lparr>sr_provisioned = length cs + length as, sr_orphaned = 0, sr_stamped = 0\<rparr>, ?w)"
    using d0(1) d1(1) ls settled_listings(2) [OF S] mark_orphans_none [OF d1(3)] mark_orphans_none [OF d1(4)]
    by (simp add: sync_def kind_facts)
  then show ?thesis using d0(2) d1(2) by auto
qed

definition legacy_world :: channel_world where
  "legacy_world =
     \<lparr>cw_db = empty_chan_db,
      cw_queue = empty_queue
        \<lparr>q_events := [\<lparr>er_id = ''e'', er_connector = ''slack'', er_channel = None, er_headers = [],
           er_data = JNull, er_raw = [], er_received = 10, er_routed = None\<rparr>]\<rparr>,
      cw_triggers = None\<rparr>"

definition bot :: entity where "bot = \<lparr>en_ref = ''bot'', en_name = ''Bot'', en_description = []\<rparr>"

definition draw :: "nat \<Rightarrow> nat \<Rightarrow> string" where
  "draw i n = replicate (Suc i) CHR ''i'' @ replicate (Suc n) CHR ''n''"

theorem sync_reaches_fixed_point_witness:
  "\<exists>r w' w''. sync (\<lambda>_. io_ok) draw 1 (Inr [bot]) (Inr []) legacy_world = (Inr r, w') \<and>
     sr_provisioned r = 2 \<and> sr_orphaned r = 1 \<and> sr_stamped r = 1 \<and>
     sync (\<lambda>_. io_ok) draw 2 (Inr [bot]) (Inr []) w' =
       (Inr \<lparr>sr_provisioned = 1, sr_orphaned = 0, sr_stamped = 0\<rparr>, w'')"
proof -
  let ?s = "sync (\<lambda>_. io_ok) draw 1 (Inr [bot]) (Inr []) legacy_world"
  have "case fst ?s of Inl _ \<Rightarrow> False | Inr r \<Rightarrow> sr_provisioned r = 2 \<and> sr_orphaned r = 1 \<and> sr_stamped r = 1"
    by code_simp
  then obtain r w' where s: "?s = (Inr r, w')" and r: "sr_provisioned r = 2" "sr_orphaned r = 1" "sr_stamped r = 1"
    by (cases ?s) (auto split: sum.splits)
  show ?thesis using sync_reaches_fixed_point [OF s, of draw 2] s r by auto
qed

end
