(* ===== verification/Router.thy ===== *)
theory Router
  imports ChannelService Invocations
begin

text \<open>
  Routing (\<^verbatim>\<open>services/hub/internal/router/router.go\<close>) and the transfer along bridges it shares with the
  cron and chat publishers (\<^verbatim>\<open>services/hub/internal/channels/transfer.go\<close>): the dispatch of one
  event into the inboxes of the matched triggers and of the agents its bridges reach, with
  the invocation records, broadcasts and counters on the way. The invocation store is the
  PostgreSQL one the hub wires; log lines are left out.
\<close>

section \<open>State\<close>

record match_result =
  mr_trigger :: string
  mr_agent :: string

datatype broadcast =
    ErrorSent string string string headers
  | EventSent string string "match_result list" "json option"
  | StatsSent

record metrics =
  mt_consumed :: nat
  mt_matched :: nat
  mt_routed :: nat
  mt_errors :: nat

text \<open>
  What the router is wired over. The invocation store and the transfer step may be absent;
  \<open>hb_sent\<close> is \<^const>\<open>None\<close> without a broadcaster, otherwise what it was given, oldest first.
\<close>

record hub =
  hb_index :: index
  hb_channels :: chan_db
  hb_queue :: queue
  hb_invocations :: "inv_table option"
  hb_transfers :: bool
  hb_sent :: "broadcast list option"
  hb_metrics :: metrics

definition send :: "broadcast list \<Rightarrow> hub \<Rightarrow> hub" where
  "send bs h = h\<lparr>hb_sent := map_option (\<lambda>sent. sent @ bs) (hb_sent h)\<rparr>"

definition bump :: "(metrics \<Rightarrow> metrics) \<Rightarrow> hub \<Rightarrow> hub" where
  "bump f h = h\<lparr>hb_metrics := f (hb_metrics h)\<rparr>"

text \<open>
  The surroundings of one dispatch: the id drawn for its invocation, its instant, and
  whether its three database calls go through.
\<close>

record dispatch_env =
  dv_gen :: string
  dv_now :: instant
  dv_record :: bool
  dv_enqueue :: pg
  dv_complete :: bool

definition smooth :: "string \<Rightarrow> instant \<Rightarrow> dispatch_env" where
  "smooth gen now = \<lparr>dv_gen = gen, dv_now = now, dv_record = True, dv_enqueue = all_ok, dv_complete = True\<rparr>"

section \<open>One dispatch\<close>

definition header_trigger_name :: string where "header_trigger_name = ''X-Trigger-Name''"
definition header_invocation_id :: string where "header_invocation_id = ''X-Invocation-ID''"
definition header_channel_bridge :: string where "header_channel_bridge = ''X-Channel-Bridge''"
definition header_channel_id :: string where "header_channel_id = ''X-Channel-ID''"
definition header_origin_channel :: string where "header_origin_channel = ''X-Channel-Origin''"

text \<open>The invocation recorded before a task is enqueued; the empty id without a store.\<close>

definition begin_dispatch ::
  "dispatch_env \<Rightarrow> string \<Rightarrow> string \<Rightarrow> string \<Rightarrow> string \<Rightarrow> inv_table option \<Rightarrow> string \<times> inv_table option" where
  "begin_dispatch v agent trig evt connector invs =
     (case invs of
        None \<Rightarrow> ([], None)
      | Some rows \<Rightarrow>
          (case pg_record (dv_record v) (dv_gen v) (dv_now v)
                  \<lparr>iv_id = [], iv_agent = agent, iv_trigger = trig, iv_event = evt, iv_connector = connector,
                   iv_start = None, iv_end = None, iv_duration = None, iv_status = [], iv_error = []\<rparr> rows of
             (rec, rows') \<Rightarrow> (iv_id rec, Some rows')))"

definition fail_dispatch :: "dispatch_env \<Rightarrow> string \<Rightarrow> string \<Rightarrow> inv_table option \<Rightarrow> inv_table option" where
  "fail_dispatch v i msg invs =
     map_option (\<lambda>rows. if i \<noteq> []
       then snd (pg_complete (dv_complete v) i status_failure msg None (dv_now v) rows) else rows) invs"

definition dispatch_task :: "string \<Rightarrow> string \<Rightarrow> string \<Rightarrow> string \<Rightarrow> headers \<Rightarrow> json option \<Rightarrow> task" where
  "dispatch_task evt agent trig i hs payload =
     \<lparr>t_id = 0, t_event = evt, t_agent = agent, t_trigger = trig, t_invocation = i, t_headers = Some hs,
      t_payload = payload, t_attempts = 0, t_status = None, t_error = [], t_created = None, t_completed = None\<rparr>"

text \<open>The canonical type goes under \<^verbatim>\<open>type\<close> when there is one.\<close>

definition stamp_type :: "headers \<Rightarrow> headers \<Rightarrow> headers" where
  "stamp_type from hs = (if canonical_event_type from \<noteq> [] then aput ''type'' (canonical_event_type from) hs else hs)"

definition stamp_invocation :: "string \<Rightarrow> headers \<Rightarrow> headers" where
  "stamp_invocation i hs = (if i \<noteq> [] then aput header_invocation_id i hs else hs)"

text \<open>A loop over deliveries: one step each, with its own surroundings, the results in order.\<close>

fun fan_out :: "('e \<Rightarrow> 'd \<Rightarrow> 's \<Rightarrow> 'r \<times> 's) \<Rightarrow> (nat \<Rightarrow> 'e) \<Rightarrow> nat \<Rightarrow> 'd list \<Rightarrow> 's \<Rightarrow> 'r list \<times> 's" where
  "fan_out step env n [] s = ([], s)"
| "fan_out step env n (d # ds) s =
     (case step (env n) d s of (r, s1) \<Rightarrow> (case fan_out step env (Suc n) ds s1 of (rs, s2) \<Rightarrow> (r # rs, s2)))"

section \<open>Transfers\<close>

record transfer_input =
  ti_event :: string
  ti_birth :: string
  ti_source :: string
  ti_headers :: headers
  ti_payload :: "json option"
  ti_delivered :: "string list"

record transfer_result =
  tx_agent :: string
  tx_bridge :: string
  tx_bridge_name :: string
  tx_invocation :: string
  tx_error :: "string option"

definition transfer_headers :: "transfer_input \<Rightarrow> delivery \<Rightarrow> string \<Rightarrow> headers" where
  "transfer_headers inp d i =
     stamp_invocation i
       (aput header_channel_bridge (dl_bridge d)
         (aput header_origin_channel (ti_birth inp)
           (aput header_channel_id (dl_channel d)
             (aput header_trigger_name (dl_bridge_name d)
               (stamp_type (ti_headers inp) (ti_headers inp))))))"

definition transfer_one :: "transfer_input \<Rightarrow> dispatch_env \<Rightarrow> delivery \<Rightarrow> hub \<Rightarrow> transfer_result \<times> hub" where
  "transfer_one inp v d h =
     (case begin_dispatch v (dl_agent d) (dl_bridge_name d) (ti_event inp) (ti_source inp) (hb_invocations h) of
        (i, invs) \<Rightarrow>
          let res = \<lparr>tx_agent = dl_agent d, tx_bridge = dl_bridge d, tx_bridge_name = dl_bridge_name d,
                     tx_invocation = i, tx_error = None\<rparr> in
          (case enqueue_task (dv_enqueue v) (dv_now v)
                  (dispatch_task (ti_event inp) (dl_agent d) (dl_bridge_name d) i (transfer_headers inp d i)
                     (ti_payload inp)) (hb_queue h) of
             (Inl e, q) \<Rightarrow>
               (res\<lparr>tx_error := Some e\<rparr>,
                h\<lparr>hb_queue := q, hb_invocations := fail_dispatch v i (''bridge transfer failed: '' @ e) invs\<rparr>)
           | (Inr _, q) \<Rightarrow> (res, h\<lparr>hb_queue := q, hb_invocations := invs\<rparr>)))"

text \<open>\<open>ok\<close> is the outcome of the walk. Marshalling a header map cannot fail.\<close>

definition transfer_apply ::
  "bool \<Rightarrow> (nat \<Rightarrow> dispatch_env) \<Rightarrow> transfer_input \<Rightarrow> hub \<Rightarrow> (chan_error + transfer_result list) \<times> hub" where
  "transfer_apply ok env inp h =
     (if ti_birth inp = [] then (Inr [], h)
      else (case service_deliveries ok (ti_birth inp) (ti_delivered inp) (hb_channels h) of
              Inl e \<Rightarrow> (Inl e, h)
            | Inr ds \<Rightarrow> (case fan_out (transfer_one inp) env 0 ds h of (rs, h') \<Rightarrow> (Inr rs, h'))))"

section \<open>The router\<close>

text \<open>The surroundings of one event: its trigger dispatches, the walk, its bridge dispatches, the mark.\<close>

record route_env =
  rv_triggers :: "nat \<Rightarrow> dispatch_env"
  rv_walk :: bool
  rv_bridges :: "nat \<Rightarrow> dispatch_env"
  rv_mark :: bool
  rv_now :: instant

definition event_headers :: "qevent \<Rightarrow> headers" where
  "event_headers evt = (case qe_headers evt of None \<Rightarrow> [] | Some hs \<Rightarrow> hs)"

definition shared_event :: "instant \<Rightarrow> qevent \<Rightarrow> event" where
  "shared_event now evt =
     \<lparr>evt_id = qe_id evt, evt_version = ''1'', evt_connector = qe_connector evt, evt_timestamp = now,
      evt_headers = event_headers evt, evt_data = qe_data evt, evt_raw = qe_raw evt\<rparr>"

definition trigger_headers :: "headers \<Rightarrow> trigger_match \<Rightarrow> string \<Rightarrow> headers" where
  "trigger_headers hs m i = stamp_invocation i (aput header_trigger_name (tm_trigger m) (stamp_type hs hs))"

definition route_one :: "qevent \<Rightarrow> dispatch_env \<Rightarrow> trigger_match \<Rightarrow> hub \<Rightarrow> (trigger_match \<times> bool) \<times> hub" where
  "route_one evt v m h =
     (case begin_dispatch v (tm_agent m) (tm_trigger m) (qe_id evt) (qe_connector evt) (hb_invocations h) of
        (i, invs) \<Rightarrow>
          (case enqueue_task (dv_enqueue v) (dv_now v)
                  (dispatch_task (qe_id evt) (tm_agent m) (tm_trigger m) i
                     (trigger_headers (event_headers evt) m i) (qe_data evt)) (hb_queue h) of
             (Inl e, q) \<Rightarrow>
               ((m, False),
                send [ErrorSent ''error'' ''router'' (''failed to route event to agent: '' @ e)
                    [(''agent'', tm_agent m), (''trigger'', tm_trigger m),
                     (''eventType'', case map_of (event_headers evt) ''type'' of None \<Rightarrow> [] | Some ty \<Rightarrow> ty), (''invocationId'', i)]]
                  (bump (\<lambda>c. c\<lparr>mt_errors := Suc (mt_errors c)\<rparr>)
                    (h\<lparr>hb_queue := q, hb_invocations := fail_dispatch v i (''enqueue task failed: '' @ e) invs\<rparr>)))
           | (Inr _, q) \<Rightarrow>
               ((m, True),
                bump (\<lambda>c. c\<lparr>mt_routed := Suc (mt_routed c)\<rparr>) (h\<lparr>hb_queue := q, hb_invocations := invs\<rparr>))))"

definition route_via_triggers ::
  "(nat \<Rightarrow> dispatch_env) \<Rightarrow> qevent \<Rightarrow> trigger_match list \<Rightarrow> hub \<Rightarrow> (match_result list \<times> string list \<times> bool) \<times> hub" where
  "route_via_triggers env evt ms h =
     (case fan_out (route_one evt) env 0 ms (bump (\<lambda>c. c\<lparr>mt_matched := mt_matched c + length ms\<rparr>) h) of
        (rs, h') \<Rightarrow>
          ((map (\<lambda>m. \<lparr>mr_trigger = tm_trigger m, mr_agent = tm_agent m\<rparr>) ms,
            map (tm_agent \<circ> fst) (filter snd rs), list_all snd rs), h'))"

definition route_via_bridges ::
  "bool \<Rightarrow> (nat \<Rightarrow> dispatch_env) \<Rightarrow> qevent \<Rightarrow> string list \<Rightarrow> hub \<Rightarrow> (match_result list \<times> bool) \<times> hub" where
  "route_via_bridges ok env evt delivered h =
     (if \<not> hb_transfers h \<or> qe_channel evt = [] then (([], True), h)
      else (case transfer_apply ok env
               \<lparr>ti_event = qe_id evt, ti_birth = qe_channel evt, ti_source = qe_connector evt,
                ti_headers = event_headers evt, ti_payload = qe_data evt, ti_delivered = delivered\<rparr> h of
              (Inl e, h') \<Rightarrow> (([], False), bump (\<lambda>c. c\<lparr>mt_errors := Suc (mt_errors c)\<rparr>) h')
            | (Inr rs, h') \<Rightarrow>
                let good = filter (\<lambda>r. tx_error r = None) rs in
                ((map (\<lambda>r. \<lparr>mr_trigger = tx_bridge_name r, mr_agent = tx_agent r\<rparr>) good, True),
                 bump (\<lambda>c. c\<lparr>mt_errors := mt_errors c + (length rs - length good),
                              mt_routed := mt_routed c + length good\<rparr>) h')))"

definition finish_event :: "route_env \<Rightarrow> qevent \<Rightarrow> hub \<Rightarrow> hub" where
  "finish_event v evt h = h\<lparr>hb_queue := snd (mark_routed (\<lambda>_. rv_mark v) (rv_now v) (qe_id evt) (hb_queue h))\<rparr>"

text \<open>A panic of the filter engine ends the process.\<close>

definition handle_event :: "regex_engine \<Rightarrow> route_env \<Rightarrow> qevent \<Rightarrow> hub \<Rightarrow> panic + hub" where
  "handle_event re v evt h =
     (case index_match re (hb_index h) (shared_event (rv_now v) evt) of
        Inl p \<Rightarrow> Inl p
      | Inr ms \<Rightarrow>
          let h0 = bump (\<lambda>c. c\<lparr>mt_consumed := Suc (mt_consumed c)\<rparr>) h in
          (case route_via_triggers (rv_triggers v) evt (deduplicate_by_agent ms) h0 of
             ((entries, delivered, enqueued), h1) \<Rightarrow>
               (case route_via_bridges (rv_walk v) (rv_bridges v) evt delivered h1 of
                  ((bridged, ok), h2) \<Rightarrow>
                    let matches = entries @ bridged;
                        status = (if matches = [] then ''unmatched'' else if enqueued \<and> ok then ''matched'' else ''error'')
                    in Inr (finish_event v evt
                             (send [EventSent (qe_connector evt) status matches (qe_data evt), StatsSent] h2)))))"

fun handle_events :: "regex_engine \<Rightarrow> (nat \<Rightarrow> route_env) \<Rightarrow> nat \<Rightarrow> qevent list \<Rightarrow> hub \<Rightarrow> panic + hub" where
  "handle_events re env n [] h = Inr h"
| "handle_events re env n (e # es) h =
     (case handle_event re (env n) e h of Inl p \<Rightarrow> Inl p | Inr h' \<Rightarrow> handle_events re env (Suc n) es h')"

definition poll :: "regex_engine \<Rightarrow> bool \<Rightarrow> (nat \<Rightarrow> route_env) \<Rightarrow> hub \<Rightarrow> panic + hub" where
  "poll re ok env h =
     (case fetch_unrouted (\<lambda>_. ok) 10 (hb_queue h) of
        Inl e \<Rightarrow> Inr h
      | Inr evts \<Rightarrow> handle_events re env 0 evts h)"

end
