(* ===== verification/QueueMachine.thy ===== *)
theory QueueMachine
  imports EventQueue
begin

text \<open>
  The event queue as a state machine: the operations of \<^theory_text>\<open>EventQueue\<close> in any order, the
  invariant they keep, and the delivery guarantees that follow.
\<close>

section \<open>The queue as a state machine\<close>

text \<open>
  The operations other components and the agents run against the queue, in any order;
  \<open>exec_op\<close> is the state after one of them.
\<close>

datatype queue_op =
    OpInsert "string \<Rightarrow> bool" pg instant qevent
  | OpRouted pg instant string
  | OpEnqueue pg instant task
  | OpClaim pg instant string
  | OpAck pg instant nat
  | OpNak pg instant nat duration string
  | OpReap pg instant duration

fun exec_op :: "queue_op \<Rightarrow> queue \<Rightarrow> queue" where
  "exec_op (OpInsert fk pg now evt) q = snd (insert_event fk pg now evt q)"
| "exec_op (OpRouted pg now i) q = snd (mark_routed pg now i q)"
| "exec_op (OpEnqueue pg now t) q = snd (enqueue_task pg now t q)"
| "exec_op (OpClaim pg now agent) q = snd (claim_task pg now agent q)"
| "exec_op (OpAck pg now i) q = snd (ack_task pg now i q)"
| "exec_op (OpNak pg now i delay msg) q = snd (nak_task pg now i delay msg q)"
| "exec_op (OpReap pg now timeout) q = snd (reap_stale_claims pg now timeout q)"

fun run_ops :: "queue_op list \<Rightarrow> queue \<Rightarrow> queue" where
  "run_ops [] q = q"
| "run_ops (op # ops) q = run_ops ops (exec_op op q)"

text \<open>Whether an operation hands out the task \<open>i\<close>, and whether it gives it back.\<close>

fun hands_out :: "nat \<Rightarrow> queue_op \<Rightarrow> queue \<Rightarrow> bool" where
  "hands_out i (OpClaim pg now agent) q =
     (case fst (claim_task pg now agent q) of Inr (Some t) \<Rightarrow> t_id t = i | _ \<Rightarrow> False)"
| "hands_out i _ q = False"

fun gives_back :: "nat \<Rightarrow> queue_op \<Rightarrow> queue \<Rightarrow> bool" where
  "gives_back i (OpNak pg now j delay msg) q = (j = i \<and> fst (nak_task pg now j delay msg q) = Inr ())"
| "gives_back i (OpReap pg now timeout) q =
     (case fst (reap_stale_claims pg now timeout q) of Inr xs \<Rightarrow> i \<in> fst ` set xs | _ \<Rightarrow> False)"
| "gives_back i _ q = False"

fun count_ops :: "(queue_op \<Rightarrow> queue \<Rightarrow> bool) \<Rightarrow> queue_op list \<Rightarrow> queue \<Rightarrow> nat" where
  "count_ops p [] q = 0"
| "count_ops p (op # ops) q = (if p op q then 1 else 0) + count_ops p ops (exec_op op q)"

section \<open>Invariant\<close>

definition task_ok :: "task_row \<Rightarrow> bool" where
  "task_ok t \<longleftrightarrow> tk_max t = default_max_attempts \<and> tk_attempts t \<le> tk_max t \<and>
     (tk_status t = Pending \<longrightarrow> tk_attempts t < tk_max t) \<and>
     (tk_status t = Claimed \<longrightarrow> 0 < tk_attempts t \<and> tk_claimed_at t \<noteq> None)"

definition delivery_of :: "task_row \<Rightarrow> string \<times> string" where
  "delivery_of t = (tk_event t, tk_agent t)"

definition queue_wf :: "queue \<Rightarrow> bool" where
  "queue_wf q \<longleftrightarrow>
     distinct (map tk_id (q_tasks q)) \<and> (\<forall>t \<in> set (q_tasks q). tk_id t < q_next_id q) \<and>
     distinct (map delivery_of (q_tasks q)) \<and> distinct (map er_id (q_events q)) \<and>
     (\<forall>t \<in> set (q_tasks q). tk_event t \<in> er_id ` set (q_events q)) \<and>
     (\<forall>t \<in> set (q_tasks q). task_ok t)"

lemma queue_wf_empty: "queue_wf empty_queue"
  by (simp add: queue_wf_def empty_queue_def)

lemma observe_tables [simp]:
  "q_tasks (observe a q) = q_tasks q" "q_events (observe a q) = q_events q"
  "q_next_id (observe a q) = q_next_id q" "q_observer (observe a q) = q_observer q"
  "q_notified (observe a q) = q_notified q"
  by (simp_all add: observe_def)

lemma fold_observe_tables [simp]:
  "q_tasks (fold observe as q) = q_tasks q" "q_events (fold observe as q) = q_events q"
  "q_next_id (fold observe as q) = q_next_id q"
  by (induction as arbitrary: q) simp_all

lemma notify_tables [simp]:
  "q_tasks (snd (notify_agent ok a q)) = q_tasks q" "q_events (snd (notify_agent ok a q)) = q_events q"
  "q_next_id (snd (notify_agent ok a q)) = q_next_id q"
  by (simp_all add: notify_agent_def)

lemma observe_agent_tables [simp]:
  "q_tasks (observe_agent_of_task ok i q) = q_tasks q"
  "q_events (observe_agent_of_task ok i q) = q_events q"
  "q_next_id (observe_agent_of_task ok i q) = q_next_id q"
  by (simp_all add: observe_agent_of_task_def split: option.split)

text \<open>The row functions keep the identity of a row, and its health.\<close>

lemma row_identity [simp]:
  "tk_id (claim_row now r) = tk_id r" "tk_id (ack_row now r) = tk_id r" "tk_id (release_row x m r) = tk_id r"
  "delivery_of (claim_row now r) = delivery_of r" "delivery_of (ack_row now r) = delivery_of r"
  "delivery_of (release_row x m r) = delivery_of r"
  "tk_event (claim_row now r) = tk_event r" "tk_event (ack_row now r) = tk_event r"
  "tk_event (release_row x m r) = tk_event r"
  "tk_agent (claim_row now r) = tk_agent r" "tk_agent (ack_row now r) = tk_agent r"
  "tk_agent (release_row x m r) = tk_agent r"
  by (simp_all add: claim_row_def ack_row_def release_row_def delivery_of_def)

lemma claim_row_ok: "task_ok r \<Longrightarrow> tk_status r = Pending \<Longrightarrow> task_ok (claim_row now r)"
  by (auto simp: task_ok_def claim_row_def)

lemma ack_row_ok: "task_ok r \<Longrightarrow> task_ok (ack_row now r)"
  by (auto simp: task_ok_def ack_row_def)

lemma release_row_ok: "task_ok r \<Longrightarrow> task_ok (release_row x m r)"
  by (auto simp: task_ok_def release_row_def)

lemma queue_wf_update:
  assumes "queue_wf q"
    and "\<And>r. tk_id (f r) = tk_id r" "\<And>r. delivery_of (f r) = delivery_of r" "\<And>r. tk_event (f r) = tk_event r"
    and "\<And>r. r \<in> set (q_tasks q) \<Longrightarrow> p r \<Longrightarrow> task_ok r \<Longrightarrow> task_ok (f r)"
  shows "queue_wf (q\<lparr>q_tasks := update_where p f (q_tasks q)\<rparr>)"
  using assms by (auto simp: queue_wf_def map_update_where sql_simps)

lemma queue_wf_tables:
  "q_tasks q' = q_tasks q \<Longrightarrow> q_events q' = q_events q \<Longrightarrow> q_next_id q \<le> q_next_id q' \<Longrightarrow>
   queue_wf q \<Longrightarrow> queue_wf q'"
  by (fastforce simp: queue_wf_def)

lemma next_claim_Some:
  assumes "next_claim now agent rows = Some r"
  shows "r \<in> set rows" "claimable now agent r"
    "\<And>r'. r' \<in> set rows \<Longrightarrow> claimable now agent r' \<Longrightarrow> tk_created r \<le> tk_created r'"
proof -
  obtain rs where s: "sort_key tk_created (filter (claimable now agent) rows) = r # rs"
    using assms by (auto simp: next_claim_def split: list.splits)
  then have set_eq: "insert r (set rs) = set (filter (claimable now agent) rows)"
    by (metis list.simps(15) set_sort)
  then show "r \<in> set rows" "claimable now agent r" by auto
  have "sorted (map tk_created (r # rs))"
    by (subst s [symmetric]) simp
  then show "\<And>r'. r' \<in> set rows \<Longrightarrow> claimable now agent r' \<Longrightarrow> tk_created r \<le> tk_created r'"
    using set_eq by auto
qed

lemma next_claim_None:
  "next_claim now agent rows = None \<longleftrightarrow> (\<forall>r \<in> set rows. \<not> claimable now agent r)"
proof -
  have "next_claim now agent rows = None \<longleftrightarrow> sort_key tk_created (filter (claimable now agent) rows) = []"
    by (auto simp: next_claim_def split: list.splits)
  also have "\<dots> \<longleftrightarrow> filter (claimable now agent) rows = []"
    by (metis length_0_conv length_sort)
  finally show ?thesis by (simp add: filter_empty_conv)
qed

lemma unique_row:
  "queue_wf q \<Longrightarrow> r \<in> set (q_tasks q) \<Longrightarrow> t \<in> set (q_tasks q) \<Longrightarrow> tk_id t = tk_id r \<Longrightarrow> t = r"
  by (auto simp: queue_wf_def dest: distinct_map_unique)

lemma claim_task_wf: "queue_wf q \<Longrightarrow> queue_wf (snd (claim_task pg now agent q))"
proof (cases "pg 0 \<and> next_claim now agent (q_tasks q) \<noteq> None")
  case False
  moreover assume "queue_wf q"
  ultimately show ?thesis by (auto simp: claim_task_def split: option.splits)
next
  case True
  assume wf: "queue_wf q"
  from True obtain r where r: "next_claim now agent (q_tasks q) = Some r" by auto
  have pend: "tk_status r = Pending" using next_claim_Some(2) [OF r] by (simp add: claimable_def)
  have "task_ok (claim_row now x)" if "x \<in> set (q_tasks q)" "tk_id x = tk_id r" "task_ok x" for x
    using unique_row [OF wf next_claim_Some(1) [OF r] that(1,2)] that(3) pend by (simp add: claim_row_ok)
  then have "queue_wf (q\<lparr>q_tasks := update_where (\<lambda>t. tk_id t = tk_id r) (claim_row now) (q_tasks q)\<rparr>)"
    by (intro queue_wf_update [OF wf]) simp_all
  then show ?thesis
    using True r by (auto simp: claim_task_def intro: queue_wf_tables [rotated 3])
qed

lemma queue_wf_append:
  assumes "queue_wf q" "tk_id r = q_next_id q" "task_ok r" "tk_event r \<in> er_id ` set (q_events q)"
    and "delivery_of r \<notin> delivery_of ` set (q_tasks q)"
  shows "queue_wf (q\<lparr>q_next_id := Suc (q_next_id q), q_tasks := q_tasks q @ [r]\<rparr>)"
  using assms by (auto simp: queue_wf_def less_Suc_eq)

lemma same_delivery_iff:
  "list_ex (same_delivery e a) rows \<longleftrightarrow> (e, a) \<in> delivery_of ` set rows"
  by (auto simp: list_ex_iff same_delivery_def delivery_of_def)

lemma has_row_image: "has_row key i rows \<longleftrightarrow> i \<in> key ` set rows"
  by (auto simp: has_row_def list_ex_iff)

lemma enqueue_task_cases:
  obtains (Failed) "fst (enqueue_task pg now t q) \<noteq> Inr ()" "q_tasks (snd (enqueue_task pg now t q)) = q_tasks q"
      "q_events (snd (enqueue_task pg now t q)) = q_events q"
      "q_next_id q \<le> q_next_id (snd (enqueue_task pg now t q))"
    | (Duplicate) "(t_event t, t_agent t) \<in> delivery_of ` set (q_tasks q)"
      "q_tasks (snd (enqueue_task pg now t q)) = q_tasks q"
      "q_events (snd (enqueue_task pg now t q)) = q_events q"
      "q_next_id q \<le> q_next_id (snd (enqueue_task pg now t q))"
    | (Stored) hs p where "(t_event t, t_agent t) \<notin> delivery_of ` set (q_tasks q)"
      "t_event t \<in> er_id ` set (q_events q)"
      "q_tasks (snd (enqueue_task pg now t q)) = q_tasks q @
         [new_task_row (q_next_id q) now t hs p]"
      "q_events (snd (enqueue_task pg now t q)) = q_events q"
      "q_next_id (snd (enqueue_task pg now t q)) = Suc (q_next_id q)"
proof (cases "t_headers t = None \<or> t_payload t = None \<or> \<not> pg 0")
  case True
  then show thesis by (intro that(1)) (auto simp: enqueue_task_def split: option.split)
next
  case False
  then obtain hs p where hp: "t_headers t = Some hs" "t_payload t = Some p" "pg 0" by auto
  show thesis
  proof (cases "list_ex (same_delivery (t_event t) (t_agent t)) (q_tasks q)")
    case True
    with hp show thesis
      by (intro that(2)) (simp_all add: enqueue_task_def Let_def same_delivery_iff)
  next
    case fresh: False
    show thesis
    proof (cases "has_row er_id (t_event t) (q_events q)")
      case False
      with hp fresh show thesis by (intro that(1)) (simp_all add: enqueue_task_def Let_def)
    next
      case True
      with hp fresh show thesis
        by (intro that(3) [of hs p])
          (simp_all add: enqueue_task_def Let_def same_delivery_iff has_row_image)
    qed
  qed
qed

lemma enqueue_task_wf: "queue_wf q \<Longrightarrow> queue_wf (snd (enqueue_task pg now t q))"
proof (cases rule: enqueue_task_cases [where pg = pg and now = now and t = t and q = q])
  case Failed
  assume "queue_wf q"
  with Failed show ?thesis using queue_wf_tables [OF Failed(2,3,4)] by simp
next
  case Duplicate
  assume "queue_wf q"
  then show ?thesis using queue_wf_tables [OF Duplicate(2,3,4)] by simp
next
  case (Stored hs p)
  assume wf: "queue_wf q"
  let ?r = "new_task_row (q_next_id q) now t hs p"
  have "queue_wf (q\<lparr>q_next_id := Suc (q_next_id q), q_tasks := q_tasks q @ [?r]\<rparr>)"
    using Stored(1,2) by (intro queue_wf_append [OF wf])
      (simp_all add: new_task_row_def task_ok_def default_max_attempts_def delivery_of_def)
  then show ?thesis by (rule queue_wf_tables [rotated 3]) (simp_all add: Stored(3-5))
qed

lemma exec_op_wf: "queue_wf q \<Longrightarrow> queue_wf (exec_op op q)"
proof (cases op)
  case (OpInsert fk pg now evt)
  assume "queue_wf q"
  then show ?thesis
    by (auto simp: OpInsert insert_event_def queue_wf_def has_row_def list_ex_iff split: option.splits)
next
  case (OpRouted pg now i)
  assume "queue_wf q"
  then show ?thesis
    by (auto simp: OpRouted mark_routed_def queue_wf_def map_update_where image_update_where)
next
  case (OpEnqueue pg now t)
  assume "queue_wf q"
  then show ?thesis by (simp add: OpEnqueue enqueue_task_wf)
next
  case (OpClaim pg now agent)
  assume "queue_wf q"
  then show ?thesis by (simp add: OpClaim claim_task_wf)
next
  case (OpAck pg now i)
  assume wf: "queue_wf q"
  have "queue_wf (q\<lparr>q_tasks := update_where (\<lambda>t. tk_id t = i) (ack_row now) (q_tasks q)\<rparr>)"
    by (intro queue_wf_update [OF wf]) (auto simp: ack_row_ok)
  with wf show ?thesis
    by (auto simp: OpAck ack_task_def intro: queue_wf_tables [rotated 3] split: option.split)
next
  case (OpNak pg now i delay msg)
  assume wf: "queue_wf q"
  have "queue_wf (q\<lparr>q_tasks := update_where (\<lambda>t. tk_id t = i) (release_row (now + delay) msg) (q_tasks q)\<rparr>)"
    by (intro queue_wf_update [OF wf]) (auto simp: release_row_ok)
  with wf show ?thesis
    by (auto simp: OpNak nak_task_def intro: queue_wf_tables [rotated 3])
next
  case (OpReap pg now timeout)
  assume wf: "queue_wf q"
  have "queue_wf (q\<lparr>q_tasks := update_where (stale_claim now timeout)
      (release_row (now + reap_retry_delay) reap_message) (q_tasks q)\<rparr>)"
    by (intro queue_wf_update [OF wf]) (auto simp: release_row_ok)
  with wf show ?thesis
    by (auto simp: OpReap reap_stale_claims_def Let_def intro: queue_wf_tables [rotated 3])
qed

lemma run_ops_wf: "queue_wf q \<Longrightarrow> queue_wf (run_ops ops q)"
  by (induction ops arbitrary: q) (auto simp: exec_op_wf)

section \<open>What the operations do to one task\<close>

definition attempts_of :: "nat \<Rightarrow> queue \<Rightarrow> nat" where
  "attempts_of i q = (case lookup_row tk_id i (q_tasks q) of None \<Rightarrow> 0 | Some r \<Rightarrow> tk_attempts r)"

text \<open>1 while the task may still be handed out without being given back first.\<close>

definition credit :: "nat \<Rightarrow> queue \<Rightarrow> nat" where
  "credit i q = (case lookup_row tk_id i (q_tasks q) of
     None \<Rightarrow> 1 | Some r \<Rightarrow> if tk_status r = Pending then 1 else 0)"

lemmas of_task = attempts_of_def credit_def

lemma lookup_none_if_fresh:
  "queue_wf q \<Longrightarrow> q_next_id q \<le> i \<Longrightarrow> lookup_row tk_id i (q_tasks q) = None"
  by (auto simp: queue_wf_def lookup_row_None_iff)

lemma claim_task_shape:
  assumes "queue_wf q"
  shows "(\<exists>r. pg 0 \<and> next_claim now agent (q_tasks q) = Some r \<and>
      fst (claim_task pg now agent q) = Inr (Some (scan_task (claim_row now r))) \<and>
      lookup_row tk_id (tk_id r) (q_tasks q) = Some r \<and> tk_status r = Pending \<and>
      q_tasks (snd (claim_task pg now agent q)) =
        update_where (\<lambda>t. tk_id t = tk_id r) (claim_row now) (q_tasks q)) \<or>
    (snd (claim_task pg now agent q) = q \<and> (\<forall>t. fst (claim_task pg now agent q) \<noteq> Inr (Some t)))"
proof (cases "pg 0 \<and> next_claim now agent (q_tasks q) \<noteq> None")
  case False
  then show ?thesis by (auto simp: claim_task_def split: option.splits)
next
  case True
  then obtain r where r: "next_claim now agent (q_tasks q) = Some r" by auto
  have "lookup_row tk_id (tk_id r) (q_tasks q) = Some r"
    using assms next_claim_Some(1) [OF r] by (auto simp: queue_wf_def intro: lookup_row_distinct)
  moreover have "tk_status r = Pending" using next_claim_Some(2) [OF r] by (simp add: claimable_def)
  ultimately show ?thesis using True r by (auto simp: claim_task_def)
qed

lemma attempts_claim:
  assumes "queue_wf q"
  shows "attempts_of i (snd (claim_task pg now agent q)) =
    attempts_of i q + (if hands_out i (OpClaim pg now agent) q then 1 else 0)"
  using claim_task_shape [OF assms, of pg now agent]
  by (auto simp: attempts_of_def lookup_row_update scan_task_def claim_row_def split: option.split sum.split)

lemma credit_claim:
  assumes "queue_wf q"
  shows "credit i (snd (claim_task pg now agent q)) +
    (if hands_out i (OpClaim pg now agent) q then 1 else 0) = credit i q"
  using claim_task_shape [OF assms, of pg now agent]
  by (auto simp: credit_def lookup_row_update scan_task_def claim_row_def
      split: option.split sum.split if_splits)

lemma lookup_enqueued:
  assumes "queue_wf q"
  shows "attempts_of i (snd (enqueue_task pg now t q)) = attempts_of i q \<and>
    credit i (snd (enqueue_task pg now t q)) = credit i q"
  using lookup_none_if_fresh [OF assms, of i]
  by (cases rule: enqueue_task_cases [where pg = pg and now = now and t = t and q = q])
    (auto simp: of_task lookup_row_append lookup_row_Cons lookup_row_Nil new_task_row_def split: option.split)

lemma attempts_step:
  assumes "queue_wf q"
  shows "attempts_of i (exec_op op q) = attempts_of i q + (if hands_out i op q then 1 else 0)"
proof (cases op)
  case (OpClaim pg now agent)
  then show ?thesis using attempts_claim [OF assms] by simp
next
  case (OpEnqueue pg now t)
  then show ?thesis using lookup_enqueued [OF assms] by simp
qed (auto simp: insert_event_def mark_routed_def ack_task_def nak_task_def reap_stale_claims_def Let_def
    attempts_of_def lookup_row_update_where ack_row_def release_row_def split: option.splits)

lemma credit_step:
  assumes "queue_wf q"
  shows "(if hands_out i op q then 1 else 0) + credit i (exec_op op q) \<le>
    credit i q + (if gives_back i op q then 1 else 0)"
proof (cases op)
  case (OpClaim pg now agent)
  then show ?thesis using credit_claim [OF assms, of i pg now agent] by simp
next
  case (OpEnqueue pg now t)
  then show ?thesis using lookup_enqueued [OF assms] by simp
next
  case (OpReap pg now timeout)
  then show ?thesis
    by (auto simp: reap_stale_claims_def Let_def credit_def lookup_row_update_where release_row_def
        stale_claim_def image_iff split: option.split dest!: lookup_row_SomeD)
next
  case (OpNak pg now j delay msg)
  then show ?thesis
    by (cases "lookup_row tk_id i (q_tasks q)")
      (auto simp: nak_task_def credit_def lookup_row_update_where release_row_def dest: lookup_row_SomeD)
qed (auto simp: insert_event_def mark_routed_def ack_task_def
    credit_def lookup_row_update_where ack_row_def split: option.splits)

lemma attempts_bounded: "queue_wf q \<Longrightarrow> attempts_of i q \<le> default_max_attempts"
  by (auto simp: attempts_of_def queue_wf_def task_ok_def split: option.split dest!: lookup_row_SomeD)

lemma attempts_run:
  "queue_wf q \<Longrightarrow> attempts_of i (run_ops ops q) = attempts_of i q + count_ops (hands_out i) ops q"
  by (induction ops arbitrary: q) (simp_all add: attempts_step exec_op_wf)

lemma credit_run:
  "queue_wf q \<Longrightarrow> count_ops (hands_out i) ops q + credit i (run_ops ops q) \<le>
     credit i q + count_ops (gives_back i) ops q"
proof (induction ops arbitrary: q)
  case (Cons op ops)
  show ?case using Cons.IH [OF exec_op_wf [OF Cons.prems, of op]] credit_step [OF Cons.prems, of i op]
    by simp
qed simp

lemma ack_tasks:
  "q_tasks (snd (ack_task all_ok now i q)) = update_where (\<lambda>t. tk_id t = i) (ack_row now) (q_tasks q)"
proof (cases "lookup_row tk_id i (q_tasks q)")
  case None
  then have "update_where (\<lambda>t. tk_id t = i) (ack_row now) (q_tasks q) = q_tasks q"
    by (intro update_where_none) (auto simp: lookup_row_None_iff)
  with None show ?thesis by (simp add: ack_task_def)
qed (simp add: ack_task_def)

lemma nak_tasks:
  "q_tasks (snd (nak_task all_ok now i delay msg q)) =
     update_where (\<lambda>t. tk_id t = i) (release_row (now + delay) msg) (q_tasks q)"
  by (simp add: nak_task_def)

lemma distinct_key_count:
  "distinct (map f xs) \<Longrightarrow> k \<in> f ` set xs \<Longrightarrow> length (filter (\<lambda>x. f x = k) xs) = 1"
  by (induction xs) (auto simp: filter_empty_conv image_iff)

section \<open>Properties\<close>

definition sample_event :: "string \<Rightarrow> qevent" where
  "sample_event i = \<lparr>qe_id = i, qe_connector = ''slack'', qe_channel = [], qe_headers = Some [],
     qe_data = Some JNull, qe_raw = [], qe_received = None\<rparr>"

definition sample_task :: "string \<Rightarrow> string \<Rightarrow> task" where
  "sample_task evt agent = \<lparr>t_id = 0, t_event = evt, t_agent = agent, t_trigger = ''t'',
     t_invocation = ''i'', t_headers = Some [], t_payload = Some JNull, t_attempts = 0,
     t_status = None, t_error = [], t_created = None, t_completed = None\<rparr>"

text \<open>Two events, one delivered to two agents.\<close>

definition sample_queue :: queue where
  "sample_queue = run_ops
     [OpInsert (\<lambda>_. True) all_ok 1 (sample_event ''e1''), OpInsert (\<lambda>_. True) all_ok 2 (sample_event ''e2''),
      OpEnqueue all_ok 3 (sample_task ''e1'' ''a''), OpEnqueue all_ok 4 (sample_task ''e1'' ''b''),
      OpEnqueue all_ok 5 (sample_task ''e2'' ''a'')] empty_queue"

lemma sample_queue_wf: "queue_wf sample_queue"
  unfolding sample_queue_def by (intro run_ops_wf queue_wf_empty)

text \<open>
  C1. Over any interleaving of the operations of the queue from its empty state, the tables
  stay consistent, and a task is handed to its agent at most \<open>max_attempts\<close> (10) times
  and at most once more than it was given back by a nak or by the reaper; the count the
  row keeps is exactly the number of hand-outs.
\<close>

theorem queue_delivery_bounds:
  "queue_wf (run_ops ops empty_queue) \<and>
   count_ops (hands_out i) ops empty_queue = attempts_of i (run_ops ops empty_queue) \<and>
   count_ops (hands_out i) ops empty_queue \<le> 10 \<and>
   count_ops (hands_out i) ops empty_queue \<le> Suc (count_ops (gives_back i) ops empty_queue)"
  using run_ops_wf [OF queue_wf_empty, of ops] attempts_run [OF queue_wf_empty, of i ops]
    credit_run [OF queue_wf_empty, of i ops] attempts_bounded [of "run_ops ops empty_queue" i]
  by (simp add: of_task empty_queue_def lookup_row_Nil default_max_attempts_def)

text \<open>
  A claim in a consistent queue returns nothing exactly when the agent has no pending
  task whose retry time has passed; otherwise it takes an oldest such task, returns it
  with its attempts incremented, marks that row claimed at \<open>now\<close> and changes no other row.
\<close>

theorem claim_task_exact:
  assumes "queue_wf q" "claim_task all_ok now agent q = (Inr res, q')"
  shows "case res of
      None \<Rightarrow> q' = q \<and> (\<forall>r \<in> set (q_tasks q). \<not> claimable now agent r)
    | Some t \<Rightarrow> \<exists>r \<in> set (q_tasks q). claimable now agent r \<and>
        (\<forall>r' \<in> set (q_tasks q). claimable now agent r' \<longrightarrow> tk_created r \<le> tk_created r') \<and>
        t_id t = tk_id r \<and> t_agent t = agent \<and> t_attempts t = Suc (tk_attempts r) \<and>
        lookup_row tk_id (tk_id r) (q_tasks q') = Some (claim_row now r) \<and>
        (\<forall>i. i \<noteq> tk_id r \<longrightarrow> lookup_row tk_id i (q_tasks q') = lookup_row tk_id i (q_tasks q))"
proof (cases "next_claim now agent (q_tasks q)")
  case None
  with assms(2) have "res = None \<and> q' = q" by (simp add: claim_task_def)
  with None show ?thesis by (simp add: next_claim_None)
next
  case (Some r)
  have "lookup_row tk_id (tk_id r) (q_tasks q) = Some r"
    using assms(1) next_claim_Some(1) [OF Some] by (auto simp: queue_wf_def intro: lookup_row_distinct)
  moreover have "res = Some (scan_task (claim_row now r))"
    "q_tasks q' = update_where (\<lambda>t. tk_id t = tk_id r) (claim_row now) (q_tasks q)"
    using Some assms(2) by (auto simp: claim_task_def)
  moreover have "tk_agent r = agent" using next_claim_Some(2) [OF Some] by (simp add: claimable_def)
  ultimately show ?thesis
    using next_claim_Some [OF Some]
    by (auto intro!: bexI [of _ r] simp: lookup_row_update scan_task_def)
      (simp add: claim_row_def)
qed

theorem claim_task_exact_witness:
  "\<exists>t q'. claim_task all_ok 9 ''a'' sample_queue = (Inr (Some t), q') \<and> t_event t = ''e1'' \<and>
     (\<exists>r \<in> set (q_tasks sample_queue). t_id t = tk_id r \<and> t_attempts t = Suc (tk_attempts r))"
proof -
  have "case fst (claim_task all_ok 9 ''a'' sample_queue) of
      Inr (Some t) \<Rightarrow> t_event t = ''e1'' | _ \<Rightarrow> False"
    by code_simp
  then obtain t q' where t: "claim_task all_ok 9 ''a'' sample_queue = (Inr (Some t), q')"
    "t_event t = ''e1''"
    by (cases "claim_task all_ok 9 ''a'' sample_queue") (auto split: sum.splits option.splits)
  show ?thesis using claim_task_exact [OF sample_queue_wf t(1)] t by auto
qed

text \<open>
  After a successful reap no claim is older than the timeout, the returned pairs are
  exactly the id and agent of the stale claims, each of them is pending again with a retry
  delay of 30 seconds or failed when its attempts are used up, and every other task is
  untouched.
\<close>

theorem reap_exact:
  assumes "reap_stale_claims all_ok now timeout q = (Inr xs, q')"
  shows "(\<forall>r \<in> set (q_tasks q'). \<not> stale_claim now timeout r) \<and>
    set xs = (\<lambda>r. (tk_id r, tk_agent r)) ` {r \<in> set (q_tasks q). stale_claim now timeout r} \<and>
    length (q_tasks q') = length (q_tasks q) \<and>
    (\<forall>n < length (q_tasks q). let r = q_tasks q ! n; r' = q_tasks q' ! n in
      if stale_claim now timeout r
      then tk_id r' = tk_id r \<and> tk_retry_after r' = Some (now + 30 * 10 ^ 9) \<and>
           tk_status r' = (if tk_attempts r < tk_max r then Pending else Failed)
      else r' = r)"
proof -
  have q': "q_tasks q' = update_where (stale_claim now timeout)
      (release_row (now + reap_retry_delay) reap_message) (q_tasks q)"
    and xs: "xs = map (\<lambda>t. (tk_id t, tk_agent t)) (filter (stale_claim now timeout) (q_tasks q))"
    using assms by (auto simp: reap_stale_claims_def Let_def)
  have "\<not> stale_claim now timeout (release_row x m r)" for x m r
    by (simp add: stale_claim_def release_row_def)
  then show ?thesis
    unfolding q' xs
    by (auto simp: sql_simps Let_def reap_retry_delay_def) (simp_all add: update_where_def release_row_def)
qed

theorem reap_exact_witness:
  "\<exists>xs q'. reap_stale_claims all_ok 100 50 (snd (claim_task all_ok 9 ''a'' sample_queue)) = (Inr xs, q') \<and>
     set xs = {(1, ''a'')} \<and> (\<forall>r \<in> set (q_tasks q'). \<not> stale_claim 100 50 r)"
proof -
  let ?q = "snd (claim_task all_ok 9 ''a'' sample_queue)"
  have "fst (reap_stale_claims all_ok 100 50 ?q) = Inr [(1, ''a'')]" by code_simp
  then obtain q' where q': "reap_stale_claims all_ok 100 50 ?q = (Inr [(1, ''a'')], q')"
    by (metis prod.collapse)
  show ?thesis using reap_exact [OF q'] q' by auto
qed

text \<open>
  C2. Enqueueing is idempotent per (event, agent): after a call that returns without error
  there is exactly one task for the pair, and a further call for it changes no table,
  whatever trigger, payload or invocation it carries.
\<close>

theorem enqueue_idempotent:
  assumes "queue_wf q" "fst (enqueue_task pg now t q) = Inr ()"
    and "t_event t' = t_event t" "t_agent t' = t_agent t"
  shows "length (filter (same_delivery (t_event t) (t_agent t)) (q_tasks (snd (enqueue_task pg now t q)))) = 1 \<and>
    q_tasks (snd (enqueue_task pg' now' t' (snd (enqueue_task pg now t q)))) =
      q_tasks (snd (enqueue_task pg now t q))"
proof -
  let ?q = "snd (enqueue_task pg now t q)"
  have mem: "(t_event t, t_agent t) \<in> delivery_of ` set (q_tasks ?q)"
    using assms(2) by (cases rule: enqueue_task_cases [where pg = pg and now = now and t = t and q = q])
      (auto simp: new_task_row_def delivery_of_def)
  have "distinct (map delivery_of (q_tasks ?q))"
    using enqueue_task_wf [OF assms(1)] by (simp add: queue_wf_def)
  then have "length (filter (\<lambda>r. delivery_of r = (t_event t, t_agent t)) (q_tasks ?q)) = 1"
    using mem by (intro distinct_key_count) auto
  moreover have "q_tasks (snd (enqueue_task pg' now' t' ?q)) = q_tasks ?q"
    using mem assms(3,4)
    by (cases rule: enqueue_task_cases [where pg = pg' and now = now' and t = t' and q = ?q]) auto
  ultimately show ?thesis by (simp add: same_delivery_def [abs_def] delivery_of_def)
qed

theorem enqueue_idempotent_witness:
  "length (filter (same_delivery ''e2'' ''b'')
     (q_tasks (snd (enqueue_task all_ok 6 (sample_task ''e2'' ''b'') sample_queue)))) = 1"
proof -
  have "fst (enqueue_task all_ok 6 (sample_task ''e2'' ''b'') sample_queue) = Inr ()" by code_simp
  from enqueue_idempotent [OF sample_queue_wf this, of "sample_task ''e2'' ''b''" all_ok 7]
  show ?thesis by (simp add: sample_task_def)
qed

text \<open>
  The per-agent and the all-agents reading of the queue depth agree: the list has one
  entry for each agent with a pending or claimed task, the entry is what \<open>QueueCounts\<close>
  returns for that agent, and every other agent has depth zero.
\<close>

theorem queue_counts_agree:
  "\<exists>counts. all_queue_counts all_ok q = Inr counts \<and> distinct (map fst counts) \<and>
     (case queue_counts all_ok agent q of
        Inl _ \<Rightarrow> False
      | Inr d \<Rightarrow> if d = \<lparr>qd_pending = 0, qd_active = 0\<rparr> then agent \<notin> fst ` set counts
                else map_of counts agent = Some d)"
proof -
  let ?agents = "remdups (map tk_agent (filter in_flight (q_tasks q)))"
  have map_of_agents: "map_of (map (\<lambda>a. (a, f a)) as) b = (if b \<in> set as then Some (f b) else None)"
    for f :: "string \<Rightarrow> queue_depth" and as b by (induction as) auto
  have "agent \<in> set ?agents \<longleftrightarrow> depth_of agent (q_tasks q) \<noteq> \<lparr>qd_pending = 0, qd_active = 0\<rparr>"
    by (auto simp: depth_of_def in_flight_def filter_empty_conv image_iff)
  then show ?thesis
    by (auto simp: all_queue_counts_def queue_counts_def map_of_agents o_def image_image)
qed

text \<open>
  Neither ack nor nak looks at the status: a nak that arrives after the ack makes a
  completed task pending again whenever attempts are left, and the agent's next claim is
  handed the task it had completed.
\<close>

theorem nak_after_ack_redelivers:
  assumes "queue_wf q" "lookup_row tk_id i (q_tasks q) = Some r" "tk_attempts r < tk_max r"
    and "0 \<le> delay" "now1 + delay \<le> now2"
    and "\<forall>r' \<in> set (q_tasks q). tk_id r' \<noteq> i \<longrightarrow> \<not> claimable now2 (tk_agent r) r'"
  shows "fst (claim_task all_ok now2 (tk_agent r)
      (snd (nak_task all_ok now1 i delay msg (snd (ack_task all_ok now0 i q))))) =
    Inr (Some ((scan_task r)\<lparr>t_attempts := Suc (tk_attempts r)\<rparr>))"
proof -
  let ?f = "\<lambda>r. release_row (now1 + delay) msg (ack_row now0 r)"
  let ?q = "snd (nak_task all_ok now1 i delay msg (snd (ack_task all_ok now0 i q)))"
  have rows: "q_tasks ?q = update_where (\<lambda>t. tk_id t = i) ?f (q_tasks q)"
    by (simp add: ack_tasks nak_tasks) (simp add: update_where_def)
  have r: "r \<in> set (q_tasks q)" "tk_id r = i" using lookup_row_SomeD [OF assms(2)] by simp_all
  have f: "claimable now2 (tk_agent r) (?f r)"
    using assms(3,5) by (simp add: claimable_def release_row_def ack_row_def)
  have mem: "?f r \<in> set (q_tasks ?q)" using r unfolding rows by (auto simp: sql_simps)
  have one: "x = ?f r" if "x \<in> set (q_tasks ?q)" "claimable now2 (tk_agent r) x" for x
    using that(1) unfolding rows
  proof (cases rule: in_update_whereE)
    case (1 y)
    then show ?thesis using unique_row [OF assms(1) r(1) 1(1)] r(2) by simp
  next
    case 2
    then show ?thesis using assms(6) that(2) by blast
  qed
  obtain x where x: "next_claim now2 (tk_agent r) (q_tasks ?q) = Some x"
    using f mem next_claim_None [of now2 "tk_agent r" "q_tasks ?q"] by (cases "next_claim now2 (tk_agent r) (q_tasks ?q)") auto
  have "x = ?f r" by (rule one [OF next_claim_Some(1,2) [OF x]])
  with x show ?thesis
    by (simp add: claim_task_def) (simp add: scan_task_def claim_row_def release_row_def ack_row_def)
qed

text \<open>The id of the task agent \<open>a\<close> is handed first in \<^const>\<open>sample_queue\<close> is 1.\<close>

theorem nak_after_ack_redelivers_witness:
  "\<exists>t. fst (claim_task all_ok 90 ''b''
      (snd (nak_task all_ok 20 2 30 [] (snd (ack_task all_ok 10 2
        (snd (claim_task all_ok 9 ''b'' sample_queue))))))) = Inr (Some t) \<and> t_id t = 2"
proof -
  let ?q = "snd (claim_task all_ok 9 ''b'' sample_queue)"
  have wf: "queue_wf ?q" by (rule claim_task_wf [OF sample_queue_wf])
  have "case lookup_row tk_id 2 (q_tasks ?q) of None \<Rightarrow> False
    | Some r \<Rightarrow> tk_agent r = ''b'' \<and> tk_attempts r < tk_max r \<and> tk_id r = 2" by code_simp
  then obtain r where r: "lookup_row tk_id 2 (q_tasks ?q) = Some r" "tk_agent r = ''b''"
    "tk_attempts r < tk_max r" "tk_id r = 2" by (auto split: option.splits)
  have "\<forall>r' \<in> set (q_tasks ?q). tk_id r' \<noteq> 2 \<longrightarrow> \<not> claimable 90 ''b'' r'" by code_simp
  then show ?thesis
    using nak_after_ack_redelivers [OF wf r(1,3), of 30 20 90 "[]" 10] r(2,4) by (simp add: scan_task_def)
qed

end
