(* ===== verification/Routing.thy ===== *)
theory Routing
  imports Router QueueMachine
begin

text \<open>
  What routing guarantees. The contract of one step of a fan-out is the locale
  \<open>fan_out_step\<close>, interpreted on the enqueue of the queue, on the dispatch to a trigger's
  agent and on the transfer along a bridge; the properties of \<^verbatim>\<open>handleEvent\<close> follow from its
  lemmas and from the reachability of inboxes in the channel graph.
\<close>

section \<open>Inboxes\<close>

lemma fan_out_Cons:
  "fst (fan_out step env n (d # ds) s) = fst (step (env n) d s) # fst (fan_out step env (Suc n) ds (snd (step (env n) d s)))"
  "snd (fan_out step env n (d # ds) s) = snd (fan_out step env (Suc n) ds (snd (step (env n) d s)))"
  by (simp_all split: prod.split)

lemmas fan_out_simps = fan_out.simps(1) fan_out_Cons

declare fan_out.simps [simp del]

definition inboxes :: "queue \<Rightarrow> (string \<times> string) set" where
  "inboxes q = delivery_of ` set (q_tasks q)"

text \<open>
  \<open>inbox\<close> is the set of deliveries made, \<open>target\<close> the delivery a step attempts, \<open>good\<close> a
  result without error, \<open>calm\<close> surroundings in which no statement fails, \<open>ready\<close> what a step
  needs to find, and \<open>frame\<close> what a step may only extend by its own delivery.
\<close>

locale fan_out_step =
  fixes step :: "'e \<Rightarrow> 'd \<Rightarrow> 's \<Rightarrow> 'r \<times> 's"
    and store :: "'s \<Rightarrow> queue"
    and target :: "'d \<Rightarrow> string \<times> string"
    and good :: "'r \<Rightarrow> bool"
    and calm :: "'e \<Rightarrow> bool"
    and ready :: "'d \<Rightarrow> 's \<Rightarrow> bool"
  assumes step_inbox: "inboxes (store s) \<subseteq> inboxes (store (snd (step e d s))) \<and>
      inboxes (store (snd (step e d s))) \<subseteq> insert (target d) (inboxes (store s))"
    and step_good: "good (fst (step e d s)) \<Longrightarrow> target d \<in> inboxes (store (snd (step e d s)))"
    and step_calm: "calm e \<Longrightarrow> ready d s \<Longrightarrow> good (fst (step e d s))"
    and step_ready: "ready d' s \<Longrightarrow> ready d' (snd (step e d s))"
    and step_known: "target d \<in> inboxes (store s) \<Longrightarrow> q_tasks (store (snd (step e d s))) = q_tasks (store s)"
    and step_events: "q_events (store (snd (step e d s))) = q_events (store s)"
    and step_wf: "queue_wf (store s) \<Longrightarrow> queue_wf (store (snd (step e d s)))"
begin

lemma fan_out_inbox:
  "inboxes (store s) \<subseteq> inboxes (store (snd (fan_out step env n ds s))) \<and>
   inboxes (store (snd (fan_out step env n ds s))) \<subseteq> target ` set ds \<union> inboxes (store s)"
proof (induction ds arbitrary: n s)
  case (Cons d ds)
  let ?s = "snd (step (env n) d s)"
  have "inboxes (store ?s) \<subseteq> inboxes (store (snd (fan_out step env (Suc n) ds ?s))) \<and>
    inboxes (store (snd (fan_out step env (Suc n) ds ?s))) \<subseteq> target ` set ds \<union> inboxes (store ?s)" by (rule Cons.IH)
  then show ?case using step_inbox [of s "env n" d] by (auto simp: fan_out_simps)
qed (simp add: fan_out_simps)

lemma fan_out_length: "length (fst (fan_out step env n ds s)) = length ds"
  by (induction ds arbitrary: n s) (simp_all add: fan_out_simps)

text \<open>A result without error is a delivery made.\<close>

lemma fan_out_good:
  "(d, r) \<in> set (zip ds (fst (fan_out step env n ds s))) \<Longrightarrow> good r \<Longrightarrow>
   target d \<in> inboxes (store (snd (fan_out step env n ds s)))"
proof (induction ds arbitrary: n s)
  case (Cons d' ds)
  let ?s = "snd (step (env n) d' s)"
  have "inboxes (store ?s) \<subseteq> inboxes (store (snd (fan_out step env (Suc n) ds ?s)))"
    using fan_out_inbox by blast
  then show ?case using Cons.prems Cons.IH [of "Suc n" ?s] step_good [of "env n" d' s] by (auto simp: fan_out_simps)
qed (simp add: fan_out_simps)

lemma fan_out_ready: "ready d s \<Longrightarrow> ready d (snd (fan_out step env n ds s))"
  by (induction ds arbitrary: n s) (simp_all add: fan_out_simps step_ready)

text \<open>Without failures every delivery is made and every result is good.\<close>

lemma fan_out_calm:
  assumes "\<And>n. calm (env n)" "\<forall>d \<in> set ds. ready d s"
  shows "list_all good (fst (fan_out step env n ds s)) \<and>
    inboxes (store (snd (fan_out step env n ds s))) = target ` set ds \<union> inboxes (store s)"
  using assms(2)
proof (induction ds arbitrary: n s)
  case (Cons d ds)
  let ?s = "snd (step (env n) d s)"
  have good: "good (fst (step (env n) d s))" using step_calm [OF assms(1), of d s n] Cons.prems by simp
  have "inboxes (store ?s) = insert (target d) (inboxes (store s))"
    using step_good [OF good] step_inbox [of s "env n" d] by blast
  moreover have "\<forall>d' \<in> set ds. ready d' ?s" using step_ready [of _ s "env n" d] Cons.prems by simp
  ultimately show ?case using Cons.IH [of ?s "Suc n"] good by (simp add: fan_out_simps)
qed (simp add: fan_out_simps)

text \<open>Deliveries already made change no task.\<close>

lemma fan_out_known:
  "target ` set ds \<subseteq> inboxes (store s) \<Longrightarrow>
   q_tasks (store (snd (fan_out step env n ds s))) = q_tasks (store s)"
proof (induction ds arbitrary: n s)
  case (Cons d ds)
  let ?s = "snd (step (env n) d s)"
  have "q_tasks (store ?s) = q_tasks (store s)" using step_known [of d s "env n"] Cons.prems by simp
  moreover from this have "target ` set ds \<subseteq> inboxes (store ?s)" using Cons.prems by (simp add: inboxes_def)
  ultimately show ?case using Cons.IH [of ?s "Suc n"] by (simp add: fan_out_simps)
qed (simp add: fan_out_simps)

lemma fan_out_store:
  "q_events (store (snd (fan_out step env n ds s))) = q_events (store s) \<and>
   (queue_wf (store s) \<longrightarrow> queue_wf (store (snd (fan_out step env n ds s))))"
  by (induction ds arbitrary: n s) (simp_all add: fan_out_simps step_events step_wf)

end

text \<open>A step that leaves a part of the state alone does so however often it is taken.\<close>

lemma fan_out_frame:
  assumes "\<And>e d s. f (snd (step e d s)) = f s"
  shows "f (snd (fan_out step env n ds s)) = f s"
  by (induction ds arbitrary: n s) (simp_all add: fan_out_simps assms)

section \<open>The three steps\<close>

definition storable :: "task \<Rightarrow> queue \<Rightarrow> bool" where
  "storable t q \<longleftrightarrow> t_headers t \<noteq> None \<and> t_payload t \<noteq> None \<and> has_row er_id (t_event t) (q_events q)"

definition calm :: "dispatch_env \<Rightarrow> bool" where "calm v \<longleftrightarrow> dv_enqueue v = all_ok"

lemma enqueue_calm: "storable t q \<Longrightarrow> fst (enqueue_task all_ok now t q) = Inr ()"
  by (auto simp: storable_def enqueue_task_def Let_def notify_agent_def)

lemma enqueue_good:
  "fst (enqueue_task pg now t q) = Inr () \<Longrightarrow> (t_event t, t_agent t) \<in> inboxes (snd (enqueue_task pg now t q))"
  by (cases rule: enqueue_task_cases [where pg = pg and now = now and t = t and q = q])
    (auto simp: inboxes_def new_task_row_def delivery_of_def)

lemma enqueue_inboxes:
  "inboxes q \<subseteq> inboxes (snd (enqueue_task pg now t q)) \<and>
   inboxes (snd (enqueue_task pg now t q)) \<subseteq> insert (t_event t, t_agent t) (inboxes q)"
  by (cases rule: enqueue_task_cases [where pg = pg and now = now and t = t and q = q])
    (auto simp: inboxes_def new_task_row_def delivery_of_def)

lemma enqueue_known:
  "(t_event t, t_agent t) \<in> inboxes q \<Longrightarrow> q_tasks (snd (enqueue_task pg now t q)) = q_tasks q"
  by (cases rule: enqueue_task_cases [where pg = pg and now = now and t = t and q = q])
    (auto simp: inboxes_def)

lemma enqueue_events: "q_events (snd (enqueue_task pg now t q)) = q_events q"
  by (cases rule: enqueue_task_cases [where pg = pg and now = now and t = t and q = q]) auto

interpretation tasks: fan_out_step
  "\<lambda>v t q. enqueue_task (dv_enqueue v) (dv_now v) t q" "\<lambda>q. q" "\<lambda>t. (t_event t, t_agent t)" "\<lambda>r. r = Inr ()" calm storable
  by unfold_locales
    (use enqueue_inboxes in \<open>auto simp: calm_def enqueue_calm enqueue_good enqueue_known enqueue_events enqueue_task_wf storable_def\<close>)

lemma send_bump_fields [simp]:
  "hb_queue (send bs h) = hb_queue h" "hb_queue (bump f h) = hb_queue h"
  "hb_channels (send bs h) = hb_channels h" "hb_channels (bump f h) = hb_channels h"
  "hb_transfers (send bs h) = hb_transfers h" "hb_transfers (bump f h) = hb_transfers h"
  "hb_index (send bs h) = hb_index h" "hb_index (bump f h) = hb_index h"
  "hb_sent (bump f h) = hb_sent h"
  by (simp_all add: send_def bump_def)

text \<open>Both dispatch steps change the queue by an enqueue, and leave the registry alone.\<close>

lemma route_one_queue:
  "\<exists>i. hb_queue (snd (route_one evt v m h)) =
      snd (enqueue_task (dv_enqueue v) (dv_now v) (dispatch_task (qe_id evt) (tm_agent m) (tm_trigger m) i
        (trigger_headers (event_headers evt) m i) (qe_data evt)) (hb_queue h)) \<and>
    (snd (fst (route_one evt v m h)) \<longleftrightarrow>
      fst (enqueue_task (dv_enqueue v) (dv_now v) (dispatch_task (qe_id evt) (tm_agent m) (tm_trigger m) i
        (trigger_headers (event_headers evt) m i) (qe_data evt)) (hb_queue h)) = Inr ())"
proof -
  obtain i invs where b: "begin_dispatch v (tm_agent m) (tm_trigger m) (qe_id evt) (qe_connector evt) (hb_invocations h) = (i, invs)"
    by fastforce
  obtain r q where e: "enqueue_task (dv_enqueue v) (dv_now v) (dispatch_task (qe_id evt) (tm_agent m) (tm_trigger m) i
      (trigger_headers (event_headers evt) m i) (qe_data evt)) (hb_queue h) = (r, q)" by fastforce
  show ?thesis
    by (rule exI [of _ i], cases r) (simp_all add: route_one_def b e)
qed

lemma transfer_one_queue:
  "\<exists>i. hb_queue (snd (transfer_one inp v d h)) =
      snd (enqueue_task (dv_enqueue v) (dv_now v) (dispatch_task (ti_event inp) (dl_agent d) (dl_bridge_name d) i
        (transfer_headers inp d i) (ti_payload inp)) (hb_queue h)) \<and>
    (tx_error (fst (transfer_one inp v d h)) = None \<longleftrightarrow>
      fst (enqueue_task (dv_enqueue v) (dv_now v) (dispatch_task (ti_event inp) (dl_agent d) (dl_bridge_name d) i
        (transfer_headers inp d i) (ti_payload inp)) (hb_queue h)) = Inr ())"
proof -
  obtain i invs where b: "begin_dispatch v (dl_agent d) (dl_bridge_name d) (ti_event inp) (ti_source inp) (hb_invocations h) = (i, invs)"
    by fastforce
  obtain r q where e: "enqueue_task (dv_enqueue v) (dv_now v) (dispatch_task (ti_event inp) (dl_agent d) (dl_bridge_name d) i
      (transfer_headers inp d i) (ti_payload inp)) (hb_queue h) = (r, q)" by fastforce
  show ?thesis by (rule exI [of _ i], cases r) (simp_all add: transfer_one_def b e Let_def)
qed

lemma dispatch_task_fields [simp]:
  "t_event (dispatch_task e a tr i hs p) = e" "t_agent (dispatch_task e a tr i hs p) = a"
  "t_headers (dispatch_task e a tr i hs p) = Some hs" "t_payload (dispatch_task e a tr i hs p) = p"
  by (simp_all add: dispatch_task_def)

definition deliverable :: "string \<Rightarrow> json option \<Rightarrow> hub \<Rightarrow> bool" where
  "deliverable i payload h \<longleftrightarrow> payload \<noteq> None \<and> has_row er_id i (q_events (hb_queue h))"

lemma step_by_enqueue:
  fixes good :: bool
  assumes q: "q' = snd (enqueue_task (dv_enqueue v) now t (hb_queue h))"
    and good: "good \<longleftrightarrow> fst (enqueue_task (dv_enqueue v) now t (hb_queue h)) = Inr ()"
    and t: "t_headers t \<noteq> None"
  shows "inboxes (hb_queue h) \<subseteq> inboxes q'" "inboxes q' \<subseteq> insert (t_event t, t_agent t) (inboxes (hb_queue h))"
    "good \<Longrightarrow> (t_event t, t_agent t) \<in> inboxes q'"
    "calm v \<Longrightarrow> deliverable (t_event t) (t_payload t) h \<Longrightarrow> good"
    "(t_event t, t_agent t) \<in> inboxes (hb_queue h) \<Longrightarrow> q_tasks q' = q_tasks (hb_queue h)"
    "q_events q' = q_events (hb_queue h)" "queue_wf (hb_queue h) \<Longrightarrow> queue_wf q'"
  using enqueue_inboxes [of "hb_queue h" "dv_enqueue v" now t] t
  by (auto simp: q good enqueue_good enqueue_known enqueue_events enqueue_task_wf calm_def deliverable_def
      intro: enqueue_calm [unfolded storable_def])

interpretation triggered: fan_out_step
  "route_one evt" hb_queue "\<lambda>m. (qe_id evt, tm_agent m)" snd calm "\<lambda>m. deliverable (qe_id evt) (qe_data evt)" for evt
proof
  fix v m h
  obtain i where i: "hb_queue (snd (route_one evt v m h)) =
      snd (enqueue_task (dv_enqueue v) (dv_now v) (dispatch_task (qe_id evt) (tm_agent m) (tm_trigger m) i
        (trigger_headers (event_headers evt) m i) (qe_data evt)) (hb_queue h))"
    "snd (fst (route_one evt v m h)) \<longleftrightarrow>
      fst (enqueue_task (dv_enqueue v) (dv_now v) (dispatch_task (qe_id evt) (tm_agent m) (tm_trigger m) i
        (trigger_headers (event_headers evt) m i) (qe_data evt)) (hb_queue h)) = Inr ()"
    using route_one_queue by blast
  note S = step_by_enqueue [OF i, simplified]
  show "inboxes (hb_queue h) \<subseteq> inboxes (hb_queue (snd (route_one evt v m h))) \<and>
      inboxes (hb_queue (snd (route_one evt v m h))) \<subseteq> insert (qe_id evt, tm_agent m) (inboxes (hb_queue h))"
    using S(1,2) by blast
  show "snd (fst (route_one evt v m h)) \<Longrightarrow> (qe_id evt, tm_agent m) \<in> inboxes (hb_queue (snd (route_one evt v m h)))"
    by (rule S(3))
  show "calm v \<Longrightarrow> deliverable (qe_id evt) (qe_data evt) h \<Longrightarrow> snd (fst (route_one evt v m h))" by (rule S(4))
  show "(qe_id evt, tm_agent m) \<in> inboxes (hb_queue h) \<Longrightarrow>
      q_tasks (hb_queue (snd (route_one evt v m h))) = q_tasks (hb_queue h)" by (rule S(5))
  show "q_events (hb_queue (snd (route_one evt v m h))) = q_events (hb_queue h)" by (rule S(6))
  then show "deliverable (qe_id evt) (qe_data evt) h \<Longrightarrow> deliverable (qe_id evt) (qe_data evt) (snd (route_one evt v m h))"
    by (simp add: deliverable_def)
  show "queue_wf (hb_queue h) \<Longrightarrow> queue_wf (hb_queue (snd (route_one evt v m h)))" by (rule S(7))
qed

interpretation bridged: fan_out_step
  "transfer_one inp" hb_queue "\<lambda>d. (ti_event inp, dl_agent d)" "\<lambda>r. tx_error r = None" calm
  "\<lambda>d. deliverable (ti_event inp) (ti_payload inp)" for inp
proof
  fix v d h
  obtain i where i: "hb_queue (snd (transfer_one inp v d h)) =
      snd (enqueue_task (dv_enqueue v) (dv_now v) (dispatch_task (ti_event inp) (dl_agent d) (dl_bridge_name d) i
        (transfer_headers inp d i) (ti_payload inp)) (hb_queue h))"
    "(tx_error (fst (transfer_one inp v d h)) = None) \<longleftrightarrow>
      fst (enqueue_task (dv_enqueue v) (dv_now v) (dispatch_task (ti_event inp) (dl_agent d) (dl_bridge_name d) i
        (transfer_headers inp d i) (ti_payload inp)) (hb_queue h)) = Inr ()"
    using transfer_one_queue by blast
  note S = step_by_enqueue [OF i, simplified]
  show "inboxes (hb_queue h) \<subseteq> inboxes (hb_queue (snd (transfer_one inp v d h))) \<and>
      inboxes (hb_queue (snd (transfer_one inp v d h))) \<subseteq> insert (ti_event inp, dl_agent d) (inboxes (hb_queue h))"
    using S(1,2) by blast
  show "tx_error (fst (transfer_one inp v d h)) = None \<Longrightarrow>
      (ti_event inp, dl_agent d) \<in> inboxes (hb_queue (snd (transfer_one inp v d h)))" by (rule S(3))
  show "calm v \<Longrightarrow> deliverable (ti_event inp) (ti_payload inp) h \<Longrightarrow> tx_error (fst (transfer_one inp v d h)) = None"
    by (rule S(4))
  show "(ti_event inp, dl_agent d) \<in> inboxes (hb_queue h) \<Longrightarrow>
      q_tasks (hb_queue (snd (transfer_one inp v d h))) = q_tasks (hb_queue h)" by (rule S(5))
  show "q_events (hb_queue (snd (transfer_one inp v d h))) = q_events (hb_queue h)" by (rule S(6))
  then show "deliverable (ti_event inp) (ti_payload inp) h \<Longrightarrow>
      deliverable (ti_event inp) (ti_payload inp) (snd (transfer_one inp v d h))" by (simp add: deliverable_def)
  show "queue_wf (hb_queue h) \<Longrightarrow> queue_wf (hb_queue (snd (transfer_one inp v d h)))" by (rule S(7))
qed

section \<open>Reachable inboxes\<close>

text \<open>The agents whose inbox a path of one to eight bridges joins to a channel.\<close>

definition bridged_to :: "chan_db \<Rightarrow> string \<Rightarrow> string \<Rightarrow> bool" where
  "bridged_to db c a \<longleftrightarrow>
     (\<exists>r \<in> set (cdb_channels db). cr_kind r = kind_agent \<and> cr_entity r = Some a \<and>
        (\<exists>k. 0 < k \<and> k \<le> 8 \<and> (c, cr_id r) \<in> edge_set (cdb_bridges db) ^^ k))"

lemma bridges_leave_channels:
  assumes "chan_wf db" "(c, x) \<in> edge_set (cdb_bridges db) ^^ k" "0 < k"
  shows "c \<in> cr_id ` set (cdb_channels db)"
proof -
  obtain j where "k = Suc j" using assms(3) by (cases k) auto
  then obtain y where "(c, y) \<in> edge_set (cdb_bridges db)" using assms(2) by (metis relpow_Suc_D2)
  then obtain b where "b \<in> set (cdb_bridges db)" "br_from b = c" unfolding edge_set_def by blast
  moreover from this(1) have "endpoints_ok (cdb_channels db) b" using assms(1) by (simp add: chan_wf_def bridges_wf_def)
  ultimately show ?thesis unfolding endpoints_ok_def by (metis image_eqI)
qed

lemma deliveries_agents:
  assumes wf: "chan_wf db"
  shows "\<exists>ds. deliveries True c db = Inr ds \<and> (\<forall>a. a \<in> dl_agent ` set ds \<longleftrightarrow> bridged_to db c a)"
proof (cases "lookup_row cr_id c (cdb_channels db)")
  case None
  then have "\<not> bridged_to db c a" for a
    using bridges_leave_channels [OF wf] unfolding bridged_to_def lookup_row_None_iff by blast
  moreover have "deliveries True c db = Inr []"
    using None by (simp add: deliveries_def walk_def Let_def max_walk_depth_def)
  ultimately show ?thesis by simp
next
  case (Some r0)
  have c: "cr_id r0 = c" using lookup_row_SomeD [OF Some] by simp
  obtain ws where ws: "walk True c db = Inr ws" "sorted (map (\<lambda>w. (w_depth w, w_channel w)) ws)"
    "set ws = {w. \<exists>n. 0 < n \<and> n \<le> 8 \<and> w \<in> set (level (free_step db) n [walk_start r0])}"
    by (rule walk_rows [OF wf Some, unfolded max_walk_depth_def])
  let ?ds = "first_deliveries [] ws"
  have inbox: "(\<exists>d \<in> set ?ds. dl_channel d = cr_id r) \<longleftrightarrow>
      cr_kind r = kind_agent \<and> (\<exists>k. 0 < k \<and> k \<le> 8 \<and> (c, cr_id r) \<in> edge_set (cdb_bridges db) ^^ k)"
    if "r \<in> set (cdb_channels db)" for r using delivered_inbox [OF wf ws(3) that] by (simp add: c)
  have detail: "\<exists>r \<in> set (cdb_channels db). cr_id r = dl_channel d \<and> cr_kind r = kind_agent \<and> cr_entity r = Some (dl_agent d)"
    if "d \<in> set ?ds" for d using delivery_detail [OF wf ws(3,2) that] by blast
  have "a \<in> dl_agent ` set ?ds \<longleftrightarrow> bridged_to db c a" for a
  proof
    assume "a \<in> dl_agent ` set ?ds"
    then obtain d where d: "d \<in> set ?ds" "dl_agent d = a" by auto
    obtain r where r: "r \<in> set (cdb_channels db)" "cr_id r = dl_channel d" "cr_kind r = kind_agent" "cr_entity r = Some a"
      using detail [OF d(1)] d(2) by blast
    then have "\<exists>d \<in> set ?ds. dl_channel d = cr_id r" using d(1) by metis
    then show "bridged_to db c a" using inbox [OF r(1)] r unfolding bridged_to_def by blast
  next
    assume "bridged_to db c a"
    then obtain r where r: "r \<in> set (cdb_channels db)" "cr_entity r = Some a" "\<exists>d \<in> set ?ds. dl_channel d = cr_id r"
      using inbox unfolding bridged_to_def by blast
    then obtain d r' where d: "d \<in> set ?ds" "dl_channel d = cr_id r" "r' \<in> set (cdb_channels db)" "cr_id r' = cr_id r"
      "cr_entity r' = Some (dl_agent d)" using detail by metis
    have "r' = r" using wf d(3,4) r(1) by (intro distinct_map_unique [of cr_id]) (simp_all add: chan_wf_def channels_wf_def)
    then show "a \<in> dl_agent ` set ?ds" using d(1,5) r(2) by auto
  qed
  then show ?thesis using ws(1) by (simp add: deliveries_def)
qed

section \<open>Steps of the router\<close>

definition calm_route :: "route_env \<Rightarrow> bool" where
  "calm_route v \<longleftrightarrow> (\<forall>n. calm (rv_triggers v n) \<and> calm (rv_bridges v n)) \<and> rv_walk v \<and> rv_mark v"

lemma dispatch_frame:
  "hb_channels (snd (route_one evt v m h)) = hb_channels h" "hb_transfers (snd (route_one evt v m h)) = hb_transfers h"
  "hb_index (snd (route_one evt v m h)) = hb_index h"
  "hb_channels (snd (transfer_one inp v d h)) = hb_channels h" "hb_transfers (snd (transfer_one inp v d h)) = hb_transfers h"
  "hb_index (snd (transfer_one inp v d h)) = hb_index h" "hb_sent (snd (transfer_one inp v d h)) = hb_sent h"
  by (simp_all add: route_one_def transfer_one_def Let_def split: prod.split sum.split)

lemmas dispatches_frame =
  fan_out_frame [where f = hb_channels] fan_out_frame [where f = hb_transfers] fan_out_frame [where f = hb_index]
  fan_out_frame [where f = hb_sent]

lemma route_via_triggers_effect:
  assumes "route_via_triggers env evt ms h = ((entries, delivered, enqueued), h')"
  shows "inboxes (hb_queue h) \<subseteq> inboxes (hb_queue h')"
    "inboxes (hb_queue h') \<subseteq> {(qe_id evt, a) |a. a \<in> tm_agent ` set ms} \<union> inboxes (hb_queue h)"
    "{(qe_id evt, a) |a. a \<in> set delivered} \<subseteq> inboxes (hb_queue h')"
    "set delivered \<subseteq> tm_agent ` set ms"
    "map mr_agent entries = map tm_agent ms"
    "q_events (hb_queue h') = q_events (hb_queue h)" "queue_wf (hb_queue h) \<Longrightarrow> queue_wf (hb_queue h')"
    "{(qe_id evt, a) |a. a \<in> tm_agent ` set ms} \<subseteq> inboxes (hb_queue h) \<Longrightarrow> q_tasks (hb_queue h') = q_tasks (hb_queue h)"
    "hb_channels h' = hb_channels h" "hb_transfers h' = hb_transfers h" "hb_index h' = hb_index h"
proof -
  define h0 where "h0 = bump (\<lambda>c. c\<lparr>mt_matched := mt_matched c + length ms\<rparr>) h"
  obtain rs where rs: "fan_out (route_one evt) env 0 ms h0 = (rs, h')"
    "entries = map (\<lambda>m. \<lparr>mr_trigger = tm_trigger m, mr_agent = tm_agent m\<rparr>) ms"
    "delivered = map (tm_agent \<circ> fst) (filter snd rs)"
    using assms by (auto simp: route_via_triggers_def h0_def split: prod.splits)
  have h0: "hb_queue h0 = hb_queue h" "hb_channels h0 = hb_channels h" "hb_transfers h0 = hb_transfers h" "hb_index h0 = hb_index h"
    by (simp_all add: h0_def)
  have fst_rs: "map fst (fst (fan_out (route_one evt) env n ms s)) = ms" for n s
  proof (induction ms arbitrary: n s)
    case (Cons m ms)
    have "fst (fst (route_one evt (env n) m s)) = m" by (simp add: route_one_def split: prod.split sum.split)
    then show ?case using Cons by (simp add: fan_out_simps)
  qed (simp add: fan_out_simps)
  have zip: "(fst r, r) \<in> set (zip ms rs)" if "r \<in> set rs" for r
    using that fst_rs [of 0 h0] rs(1) by (force simp: in_set_zip in_set_conv_nth)
  show "inboxes (hb_queue h) \<subseteq> inboxes (hb_queue h')"
    "inboxes (hb_queue h') \<subseteq> {(qe_id evt, a) |a. a \<in> tm_agent ` set ms} \<union> inboxes (hb_queue h)"
    using triggered.fan_out_inbox [of h0 evt env 0 ms] rs(1) h0 by auto
  show "{(qe_id evt, a) |a. a \<in> set delivered} \<subseteq> inboxes (hb_queue h')"
  proof -
    have "(qe_id evt, tm_agent (fst r)) \<in> inboxes (hb_queue h')" if "r \<in> set rs" "snd r" for r
      using triggered.fan_out_good [of "fst r" r ms evt env 0 h0] zip [OF that(1)] that(2) rs(1) by simp
    then show ?thesis using rs(3) by auto
  qed
  show "set delivered \<subseteq> tm_agent ` set ms"
    using zip rs(3) by (auto dest: set_zip_leftD)
  show "map mr_agent entries = map tm_agent ms" by (simp add: rs(2))
  show "q_events (hb_queue h') = q_events (hb_queue h)" "queue_wf (hb_queue h) \<Longrightarrow> queue_wf (hb_queue h')"
    using triggered.fan_out_store [of evt env 0 ms h0] rs(1) h0 by auto
  show "q_tasks (hb_queue h') = q_tasks (hb_queue h)"
    if "{(qe_id evt, a) |a. a \<in> tm_agent ` set ms} \<subseteq> inboxes (hb_queue h)"
    using triggered.fan_out_known [of evt ms h0 env 0] that rs(1) h0 by auto
  show "hb_channels h' = hb_channels h" "hb_transfers h' = hb_transfers h" "hb_index h' = hb_index h"
    using dispatches_frame(1-3) [of "route_one evt" env 0 ms h0] rs(1) h0 by (simp_all add: dispatch_frame)
qed

lemma route_via_triggers_all:
  assumes "route_via_triggers env evt ms h = ((entries, delivered, enqueued), h')" "enqueued"
  shows "{(qe_id evt, a) |a. a \<in> tm_agent ` set ms} \<subseteq> inboxes (hb_queue h')"
proof -
  define h0 where "h0 = bump (\<lambda>c. c\<lparr>mt_matched := mt_matched c + length ms\<rparr>) h"
  obtain rs where rs: "fan_out (route_one evt) env 0 ms h0 = (rs, h')" "list_all snd rs"
    using assms by (auto simp: route_via_triggers_def h0_def split: prod.splits)
  have "(qe_id evt, tm_agent m) \<in> inboxes (hb_queue h')" if m: "m \<in> set ms" for m
  proof -
    obtain i where i: "i < length ms" "ms ! i = m" using m by (auto simp: in_set_conv_nth)
    have "length rs = length ms" using triggered.fan_out_length [of evt env 0 ms h0] rs(1) by simp
    then have "(m, rs ! i) \<in> set (zip ms rs)" "snd (rs ! i)" using i rs(2) by (auto simp: in_set_zip list_all_length)
    then show ?thesis using triggered.fan_out_good [of m "rs ! i" ms evt env 0 h0] rs(1) by simp
  qed
  then show ?thesis by auto
qed

lemma route_via_triggers_calm:
  assumes "route_via_triggers env evt ms h = ((entries, delivered, enqueued), h')"
    and "\<And>n. calm (env n)" "deliverable (qe_id evt) (qe_data evt) h"
  shows "inboxes (hb_queue h') = {(qe_id evt, a) |a. a \<in> tm_agent ` set ms} \<union> inboxes (hb_queue h)"
    "enqueued"
proof -
  define h0 where "h0 = bump (\<lambda>c. c\<lparr>mt_matched := mt_matched c + length ms\<rparr>) h"
  obtain rs where rs: "fan_out (route_one evt) env 0 ms h0 = (rs, h')" "enqueued = list_all snd rs"
    using assms by (auto simp: route_via_triggers_def h0_def split: prod.splits)
  have "deliverable (qe_id evt) (qe_data evt) h0" using assms(3) by (simp add: h0_def deliverable_def)
  then show "inboxes (hb_queue h') = {(qe_id evt, a) |a. a \<in> tm_agent ` set ms} \<union> inboxes (hb_queue h)" "enqueued"
    using triggered.fan_out_calm [of env ms evt h0 0] assms(2) rs by (auto simp: h0_def)
qed

lemma transfer_agents: "map tx_agent (fst (fan_out (transfer_one inp) env n ds s)) = map dl_agent ds"
proof (induction ds arbitrary: n s)
  case (Cons d ds)
  have "tx_agent (fst (transfer_one inp (env n) d s)) = dl_agent d"
    by (simp add: transfer_one_def Let_def split: prod.split sum.split)
  then show ?case using Cons by (simp add: fan_out_simps)
qed (simp add: fan_out_simps)

lemma transfers_made:
  assumes "fan_out (transfer_one inp) env 0 ds h = (rs, h1)" "r \<in> set rs" "tx_error r = None"
  shows "(ti_event inp, tx_agent r) \<in> inboxes (hb_queue h1)"
proof -
  obtain i where i: "i < length rs" "rs ! i = r" using assms(2) by (auto simp: in_set_conv_nth)
  have len: "length rs = length ds" using bridged.fan_out_length [of inp env 0 ds h] assms(1) by simp
  have "tx_agent r = dl_agent (ds ! i)"
    using arg_cong [OF transfer_agents [of inp env 0 ds h], of "\<lambda>xs. xs ! i"] assms(1) i len by simp
  moreover have "(ds ! i, r) \<in> set (zip ds rs)" using i len by (auto simp: in_set_zip)
  ultimately show ?thesis
    using bridged.fan_out_good [of "ds ! i" r ds inp env 0 h] assms(1,3) by simp
qed

definition transfer_of :: "qevent \<Rightarrow> string list \<Rightarrow> transfer_input" where
  "transfer_of evt delivered =
     \<lparr>ti_event = qe_id evt, ti_birth = qe_channel evt, ti_source = qe_connector evt,
      ti_headers = event_headers evt, ti_payload = qe_data evt, ti_delivered = delivered\<rparr>"

lemma transfer_of_event [simp]: "ti_event (transfer_of evt delivered) = qe_id evt" "ti_payload (transfer_of evt delivered) = qe_data evt"
  by (simp_all add: transfer_of_def)

text \<open>Either nothing is transferred, or every agent the bridges reach and no trigger delivered to.\<close>

lemma route_via_bridges_cases:
  assumes "route_via_bridges ok env evt delivered h = ((entries, enqueued), h')" "chan_wf (hb_channels h)"
  obtains (Idle) "entries = []" "hb_queue h' = hb_queue h" "hb_channels h' = hb_channels h"
      "hb_transfers h' = hb_transfers h" "hb_index h' = hb_index h" "hb_sent h' = hb_sent h"
      "\<not> (ok \<and> hb_transfers h \<and> qe_channel evt \<noteq> [])"
    | (Moved) rs h1 ds where "hb_transfers h" "qe_channel evt \<noteq> []"
      "fan_out (transfer_one (transfer_of evt delivered)) env 0 ds h = (rs, h1)"
      "\<And>a. a \<in> dl_agent ` set ds \<longleftrightarrow> a \<notin> set delivered \<and> bridged_to (hb_channels h) (qe_channel evt) a"
      "mr_agent ` set entries = tx_agent ` {r \<in> set rs. tx_error r = None}"
      "hb_queue h' = hb_queue h1" "hb_channels h' = hb_channels h" "hb_transfers h' = hb_transfers h"
      "hb_index h' = hb_index h" "hb_sent h' = hb_sent h" "enqueued"
proof (cases "ok \<and> hb_transfers h \<and> qe_channel evt \<noteq> []")
  case False
  then show thesis
    using assms(1) by (intro that(1))
      (auto simp: route_via_bridges_def transfer_apply_def service_deliveries_def deliveries_def walk_def split: if_splits)
next
  case True
  obtain ds0 where ds0: "deliveries True (qe_channel evt) (hb_channels h) = Inr ds0"
    "\<And>a. a \<in> dl_agent ` set ds0 \<longleftrightarrow> bridged_to (hb_channels h) (qe_channel evt) a"
    using deliveries_agents [OF assms(2)] by blast
  let ?inp = "transfer_of evt delivered" and ?ds = "filter (\<lambda>d. dl_agent d \<notin> set delivered) ds0"
  obtain rs h1 where f: "fan_out (transfer_one ?inp) env 0 ?ds h = (rs, h1)" by fastforce
  have "transfer_apply ok env ?inp h = (Inr rs, h1)"
    using True ds0(1) f by (simp add: transfer_apply_def service_deliveries_def transfer_of_def)
  then have r: "entries = map (\<lambda>r. \<lparr>mr_trigger = tx_bridge_name r, mr_agent = tx_agent r\<rparr>) (filter (\<lambda>r. tx_error r = None) rs)"
    "hb_queue h' = hb_queue h1" "hb_channels h' = hb_channels h1" "hb_transfers h' = hb_transfers h1"
    "hb_index h' = hb_index h1" "hb_sent h' = hb_sent h1" "enqueued"
    using assms(1) True by (auto simp: route_via_bridges_def transfer_of_def Let_def)
  have frame: "hb_channels h1 = hb_channels h" "hb_transfers h1 = hb_transfers h" "hb_index h1 = hb_index h" "hb_sent h1 = hb_sent h"
    using dispatches_frame [of "transfer_one ?inp" env 0 ?ds h] f by (simp_all add: dispatch_frame)
  have agents: "a \<in> dl_agent ` set ?ds \<longleftrightarrow> a \<notin> set delivered \<and> bridged_to (hb_channels h) (qe_channel evt) a" for a
    using ds0(2) [of a] by (simp only: set_filter image_iff mem_Collect_eq) blast
  have "mr_agent ` set entries = tx_agent ` {r \<in> set rs. tx_error r = None}" using r(1) by (simp add: image_image)
  with True r frame show thesis by (intro that(2) [OF _ _ f agents]) simp_all
qed

lemma route_via_bridges_effect:
  assumes "route_via_bridges ok env evt delivered h = ((entries, enqueued), h')" "chan_wf (hb_channels h)"
  shows "inboxes (hb_queue h) \<subseteq> inboxes (hb_queue h') \<and>
    inboxes (hb_queue h') \<subseteq> {(qe_id evt, a) |a. hb_transfers h \<and> qe_channel evt \<noteq> [] \<and>
       bridged_to (hb_channels h) (qe_channel evt) a} \<union> inboxes (hb_queue h) \<and>
    {(qe_id evt, a) |a. a \<in> mr_agent ` set entries} \<subseteq> inboxes (hb_queue h') \<and>
    q_events (hb_queue h') = q_events (hb_queue h) \<and> (queue_wf (hb_queue h) \<longrightarrow> queue_wf (hb_queue h')) \<and>
    hb_channels h' = hb_channels h \<and> hb_transfers h' = hb_transfers h \<and> hb_index h' = hb_index h \<and> hb_sent h' = hb_sent h"
  using assms
proof (cases rule: route_via_bridges_cases)
  case (Moved rs h1 ds)
  have made: "{(qe_id evt, a) |a. a \<in> mr_agent ` set entries} \<subseteq> inboxes (hb_queue h')"
    using transfers_made [OF Moved(3)] Moved(5,6) by auto
  have targets: "(\<lambda>d. (qe_id evt, dl_agent d)) ` set ds \<subseteq>
      {(qe_id evt, a) |a. hb_transfers h \<and> qe_channel evt \<noteq> [] \<and> bridged_to (hb_channels h) (qe_channel evt) a}"
    using Moved(1,2,4) by blast
  have grows: "inboxes (hb_queue h) \<subseteq> inboxes (hb_queue h')"
    "inboxes (hb_queue h') \<subseteq> (\<lambda>d. (qe_id evt, dl_agent d)) ` set ds \<union> inboxes (hb_queue h)"
    using bridged.fan_out_inbox [of h "transfer_of evt delivered" env 0 ds] Moved(3,6) by simp_all
  have "q_events (hb_queue h') = q_events (hb_queue h)" "queue_wf (hb_queue h) \<longrightarrow> queue_wf (hb_queue h')"
    using bridged.fan_out_store [of "transfer_of evt delivered" env 0 ds h] Moved(3,6) by simp_all
  then show ?thesis
    using Moved(7-10) by (intro conjI grows(1) made subset_trans [OF grows(2) Un_mono [OF targets order_refl]])
qed simp

lemma route_via_bridges_calm:
  assumes "route_via_bridges True env evt delivered h = ((entries, enqueued), h')" "chan_wf (hb_channels h)"
    and "\<And>n. calm (env n)" "deliverable (qe_id evt) (qe_data evt) h"
    and "{(qe_id evt, a) |a. a \<in> set delivered} \<subseteq> inboxes (hb_queue h)"
  shows "inboxes (hb_queue h') = {(qe_id evt, a) |a. hb_transfers h \<and> qe_channel evt \<noteq> [] \<and>
      bridged_to (hb_channels h) (qe_channel evt) a} \<union> inboxes (hb_queue h) \<and> enqueued"
  using assms(1,2)
proof (cases rule: route_via_bridges_cases)
  case Idle
  then show ?thesis using assms(1) by (auto simp: route_via_bridges_def)
next
  case (Moved rs h1 ds)
  have "inboxes (hb_queue h') = (\<lambda>d. (qe_id evt, dl_agent d)) ` set ds \<union> inboxes (hb_queue h)"
    using bridged.fan_out_calm [of env ds "transfer_of evt delivered" h 0] assms(3,4) Moved(3,6) by simp
  also have "\<dots> = {(qe_id evt, a) |a. hb_transfers h \<and> qe_channel evt \<noteq> [] \<and>
      bridged_to (hb_channels h) (qe_channel evt) a} \<union> inboxes (hb_queue h)"
    using Moved(1,2,4) assms(5) by blast
  finally show ?thesis using Moved(11) by simp
qed

lemma route_via_bridges_known:
  assumes "route_via_bridges ok env evt delivered h = ((entries, enqueued), h')" "chan_wf (hb_channels h)"
    and "{(qe_id evt, a) |a. hb_transfers h \<and> qe_channel evt \<noteq> [] \<and>
      bridged_to (hb_channels h) (qe_channel evt) a} \<subseteq> inboxes (hb_queue h)"
  shows "q_tasks (hb_queue h') = q_tasks (hb_queue h)"
  using assms(1,2)
proof (cases rule: route_via_bridges_cases)
  case (Moved rs h1 ds)
  have "(\<lambda>d. (qe_id evt, dl_agent d)) ` set ds \<subseteq> inboxes (hb_queue h)" using assms(3) Moved(1,2,4) by blast
  then show ?thesis
    using bridged.fan_out_known [of "transfer_of evt delivered" ds h env 0] Moved(3,6) by simp
qed simp

section \<open>One event\<close>

lemma mark_routed_tables:
  "q_tasks (snd (mark_routed pg now i q)) = q_tasks q"
  "er_id ` set (q_events (snd (mark_routed pg now i q))) = er_id ` set (q_events q)"
  by (simp_all add: mark_routed_def image_update_where)

lemma mark_routed_wf: "queue_wf q \<Longrightarrow> queue_wf (snd (mark_routed pg now i q))"
proof -
  assume "queue_wf q"
  moreover have "map er_id (q_events (snd (mark_routed pg now i q))) = map er_id (q_events q)"
    by (simp add: mark_routed_def map_update_where)
  moreover have "q_next_id (snd (mark_routed pg now i q)) = q_next_id q" by (simp add: mark_routed_def)
  ultimately show ?thesis unfolding queue_wf_def mark_routed_tables by metis
qed

lemma matched_agents: "tm_agent ` set (deduplicate_by_agent ms) = tm_agent ` set ms"
  by (simp add: dedup_eq_loop dedup_loop_set(2))

text \<open>The passes of one event, in order.\<close>

lemma handle_event_passes:
  assumes "handle_event re v evt h = Inr h'"
  obtains ms entries delivered enqueued h1 bridged ok h2 where
    "index_match re (hb_index h) (shared_event (rv_now v) evt) = Inr ms"
    "route_via_triggers (rv_triggers v) evt (deduplicate_by_agent ms)
       (bump (\<lambda>c. c\<lparr>mt_consumed := Suc (mt_consumed c)\<rparr>) h) = ((entries, delivered, enqueued), h1)"
    "route_via_bridges (rv_walk v) (rv_bridges v) evt delivered h1 = ((bridged, ok), h2)"
    "h' = finish_event v evt (send [EventSent (qe_connector evt)
       (if entries @ bridged = [] then ''unmatched'' else if enqueued \<and> ok then ''matched'' else ''error'')
       (entries @ bridged) (qe_data evt), StatsSent] h2)"
  using assms unfolding handle_event_def Let_def by (auto split: sum.splits prod.splits)

lemma handle_event_total:
  "index_match re (hb_index h) (shared_event (rv_now v) evt) = Inr ms \<Longrightarrow> \<exists>h'. handle_event re v evt h = Inr h'"
  by (simp add: handle_event_def Let_def split: prod.split)

text \<open>Where an event may go: the agents of its matched triggers, and those its channel's bridges reach.\<close>

definition destination :: "regex_engine \<Rightarrow> hub \<Rightarrow> qevent \<Rightarrow> string \<Rightarrow> bool" where
  "destination re h evt a \<longleftrightarrow>
     (\<exists>ms m. index_match re (hb_index h) (shared_event 0 evt) = Inr ms \<and> m \<in> set ms \<and> tm_agent m = a) \<or>
     hb_transfers h \<and> qe_channel evt \<noteq> [] \<and> bridged_to (hb_channels h) (qe_channel evt) a"

lemma index_match_clock: "index_match re idx (shared_event now evt) = index_match re idx (shared_event 0 evt)"
proof -
  have "build_filter_payload (shared_event now evt) = build_filter_payload (shared_event 0 evt)"
    by (simp add: build_filter_payload_def shared_event_def)
  moreover have "trigger_accepts re (shared_event now evt) = trigger_accepts re (shared_event 0 evt)"
    by (intro ext) (simp add: trigger_accepts_def shared_event_def)
  ultimately show ?thesis by (simp only: index_match_def)
qed

lemma handle_event_effect:
  assumes "handle_event re v evt h = Inr h'" "chan_wf (hb_channels h)"
  shows "inboxes (hb_queue h) \<subseteq> inboxes (hb_queue h')"
    "inboxes (hb_queue h') \<subseteq> {(qe_id evt, a) |a. destination re h evt a} \<union> inboxes (hb_queue h)"
    "queue_wf (hb_queue h) \<Longrightarrow> queue_wf (hb_queue h')"
    "hb_channels h' = hb_channels h" "hb_transfers h' = hb_transfers h" "hb_index h' = hb_index h"
    "\<lbrakk>calm_route v; deliverable (qe_id evt) (qe_data evt) h\<rbrakk> \<Longrightarrow>
       {(qe_id evt, a) |a. destination re h evt a} \<subseteq> inboxes (hb_queue h')"
    "{(qe_id evt, a) |a. destination re h evt a} \<subseteq> inboxes (hb_queue h) \<Longrightarrow> q_tasks (hb_queue h') = q_tasks (hb_queue h)"
proof -
  define h0 where "h0 = bump (\<lambda>c. c\<lparr>mt_consumed := Suc (mt_consumed c)\<rparr>) h"
  have h0: "hb_queue h0 = hb_queue h" "hb_channels h0 = hb_channels h" "hb_transfers h0 = hb_transfers h" "hb_index h0 = hb_index h"
    by (simp_all add: h0_def)
  obtain ms entries delivered enqueued h1 bridged ok h2 where p:
    "index_match re (hb_index h) (shared_event 0 evt) = Inr ms"
    "route_via_triggers (rv_triggers v) evt (deduplicate_by_agent ms) h0 = ((entries, delivered, enqueued), h1)"
    "route_via_bridges (rv_walk v) (rv_bridges v) evt delivered h1 = ((bridged, ok), h2)"
    "h' = finish_event v evt (send [EventSent (qe_connector evt)
       (if entries @ bridged = [] then ''unmatched'' else if enqueued \<and> ok then ''matched'' else ''error'')
       (entries @ bridged) (qe_data evt), StatsSent] h2)"
    by (rule handle_event_passes [OF assms(1), folded h0_def]) (use index_match_clock [of re "hb_index h" "rv_now v"] in simp)
  note T = route_via_triggers_effect [OF p(2), unfolded matched_agents h0]
  have wf1: "chan_wf (hb_channels h1)" using assms(2) T(9) by simp
  note B = route_via_bridges_effect [OF p(3) wf1, unfolded T(9,10)]
  have dest: "destination re h evt a \<longleftrightarrow> a \<in> tm_agent ` set ms \<or>
      hb_transfers h \<and> qe_channel evt \<noteq> [] \<and> bridged_to (hb_channels h) (qe_channel evt) a" for a
    using p(1) by (auto simp: destination_def)
  have tasks: "q_tasks (hb_queue h') = q_tasks (hb_queue h2)" by (simp add: p(4) finish_event_def mark_routed_tables)
  then have boxes: "inboxes (hb_queue h') = inboxes (hb_queue h2)" by (simp add: inboxes_def)
  note B1 = B [THEN conjunct1] and B2 = B [THEN conjunct2, THEN conjunct1] and B3 = B [THEN conjunct2, THEN conjunct2, THEN conjunct2]
  define M where "M = {(qe_id evt, a) |a. a \<in> tm_agent ` set ms}"
  define R where "R = {(qe_id evt, a) |a. hb_transfers h \<and> qe_channel evt \<noteq> [] \<and> bridged_to (hb_channels h) (qe_channel evt) a}"
  have D: "{(qe_id evt, a) |a. destination re h evt a} = M \<union> R" unfolding M_def R_def by (auto simp: dest)
  note B2 = B2 [folded R_def] and T2 = T(2) [folded M_def] and T8 = T(8) [folded M_def]
  show "inboxes (hb_queue h) \<subseteq> inboxes (hb_queue h')" unfolding boxes by (rule subset_trans [OF T(1) B1])
  show "inboxes (hb_queue h') \<subseteq> {(qe_id evt, a) |a. destination re h evt a} \<union> inboxes (hb_queue h)"
    unfolding boxes D using B2 T2 by blast
  show "queue_wf (hb_queue h')" if "queue_wf (hb_queue h)"
    using T(7) B3 that by (simp add: p(4) finish_event_def mark_routed_wf)
  show "hb_channels h' = hb_channels h" "hb_transfers h' = hb_transfers h" "hb_index h' = hb_index h"
    using T(9-11) B3 by (simp_all add: p(4) finish_event_def)
  show "{(qe_id evt, a) |a. destination re h evt a} \<subseteq> inboxes (hb_queue h')"
    if "calm_route v" "deliverable (qe_id evt) (qe_data evt) h"
  proof -
    have calm: "\<And>n. calm (rv_triggers v n)" "\<And>n. calm (rv_bridges v n)" "rv_walk v" using that(1) by (simp_all add: calm_route_def)
    have "inboxes (hb_queue h1) = M \<union> inboxes (hb_queue h)" unfolding M_def
      using route_via_triggers_calm [OF p(2) calm(1)] that(2) by (simp add: matched_agents h0 deliverable_def)
    moreover have d1: "deliverable (qe_id evt) (qe_data evt) h1" using that(2) T(6) by (simp add: deliverable_def)
    have "route_via_bridges True (rv_bridges v) evt delivered h1 = ((bridged, ok), h2)" using p(3) calm(3) by simp
    from route_via_bridges_calm [OF this wf1 calm(2) d1 T(3), unfolded T(9,10), folded R_def]
    have "inboxes (hb_queue h2) = R \<union> inboxes (hb_queue h1)" by blast
    ultimately show ?thesis unfolding boxes D by blast
  qed
  show "q_tasks (hb_queue h') = q_tasks (hb_queue h)"
    if known: "{(qe_id evt, a) |a. destination re h evt a} \<subseteq> inboxes (hb_queue h)"
  proof -
    have t1: "q_tasks (hb_queue h1) = q_tasks (hb_queue h)" by (rule T8) (use known D in blast)
    have "R \<subseteq> inboxes (hb_queue h1)" using known T(1) unfolding D by blast
    from route_via_bridges_known [OF p(3) wf1, unfolded T(9,10), folded R_def, OF this] show ?thesis using t1 tasks by simp
  qed
qed

lemma handle_event_marks:
  assumes "handle_event re v evt h = Inr h'" "rv_mark v" "r \<in> set (q_events (hb_queue h'))" "er_id r = qe_id evt"
  shows "er_routed r = Some (rv_now v)"
proof -
  obtain h2 where "h' = finish_event v evt h2" by (rule handle_event_passes [OF assms(1)])
  then show ?thesis using assms(2-4) by (auto simp: finish_event_def mark_routed_def sql_simps)
qed

lemma one_task:
  assumes "queue_wf q" "(i, a) \<in> inboxes q"
  shows "length (filter (same_delivery i a) (q_tasks q)) = 1"
proof -
  have "length (filter (\<lambda>r. delivery_of r = (i, a)) (q_tasks q)) = 1"
    using assms by (intro distinct_key_count) (auto simp: queue_wf_def inboxes_def)
  then show ?thesis by (simp add: same_delivery_def [abs_def] delivery_of_def)
qed

text \<open>What the activity feed says of the event: the status and the matches of its entry.\<close>

lemma matched_status:
  assumes "handle_event re v evt h = Inr h'" "chan_wf (hb_channels h)" "hb_sent h = Some sent"
    "hb_sent h' = Some (sent' @ [EventSent c ''matched'' matches p, StatsSent])" "m \<in> set matches"
  shows "(qe_id evt, mr_agent m) \<in> inboxes (hb_queue h')"
proof -
  obtain ms entries delivered enqueued h1 bridged ok h2 where p:
    "route_via_triggers (rv_triggers v) evt (deduplicate_by_agent ms)
       (bump (\<lambda>c. c\<lparr>mt_consumed := Suc (mt_consumed c)\<rparr>) h) = ((entries, delivered, enqueued), h1)"
    "route_via_bridges (rv_walk v) (rv_bridges v) evt delivered h1 = ((bridged, ok), h2)"
    "h' = finish_event v evt (send [EventSent (qe_connector evt)
       (if entries @ bridged = [] then ''unmatched'' else if enqueued \<and> ok then ''matched'' else ''error'')
       (entries @ bridged) (qe_data evt), StatsSent] h2)"
    by (rule handle_event_passes [OF assms(1)])
  note T = route_via_triggers_effect [OF p(1), simplified]
  have "chan_wf (hb_channels h1)" using assms(2) T(9) by simp
  note B = route_via_bridges_effect [OF p(2) this]
  have m: "entries @ bridged = matches" "enqueued"
    using assms(4) p(3) by (auto simp: finish_event_def send_def map_option_case split: option.splits if_splits)
  have boxes: "inboxes (hb_queue h') = inboxes (hb_queue h2)"
    by (simp add: p(3) finish_event_def mark_routed_tables inboxes_def)
  show ?thesis
  proof (cases "m \<in> set bridged")
    case True
    then show ?thesis using B boxes by blast
  next
    case False
    then have "m \<in> set entries" using m(1) assms(5) by auto
    then have "mr_agent m \<in> mr_agent ` set entries" by (rule imageI)
    then have "mr_agent m \<in> tm_agent ` set (deduplicate_by_agent ms)" by (metis T(5) set_map)
    then show ?thesis using route_via_triggers_all [OF p(1) m(2)] B boxes by auto
  qed
qed

section \<open>Properties\<close>

text \<open>
  C9. When nothing fails, routing an event delivers it to exactly its destinations: one task
  for every agent a valid matching trigger names and for every agent whose inbox one to
  eight bridges join to the channel the event was born in, no other new delivery, and the
  event is marked routed.
\<close>

theorem routing_exact:
  assumes "handle_event re v evt h = Inr h'" "calm_route v" "hb_channels h = registry ops"
    and "queue_wf (hb_queue h)" "deliverable (qe_id evt) (qe_data evt) h"
  shows "inboxes (hb_queue h') = inboxes (hb_queue h) \<union> {(qe_id evt, a) |a. destination re h evt a} \<and>
    (\<forall>a. destination re h evt a \<longrightarrow> length (filter (same_delivery (qe_id evt) a) (q_tasks (hb_queue h'))) = 1) \<and>
    (\<forall>r \<in> set (q_events (hb_queue h')). er_id r = qe_id evt \<longrightarrow> er_routed r = Some (rv_now v))"
proof -
  have wf: "chan_wf (hb_channels h)" using registry_wf assms(3) by simp
  note E = handle_event_effect [OF assms(1) wf]
  have "inboxes (hb_queue h') = inboxes (hb_queue h) \<union> {(qe_id evt, a) |a. destination re h evt a}"
    using E(1,2) E(7) [OF assms(2,5)] by blast
  moreover have "rv_mark v" using assms(2) by (simp add: calm_route_def)
  ultimately show ?thesis
    using one_task [OF E(3) [OF assms(4)]] handle_event_marks [OF assms(1)] by auto
qed

definition calm_env :: route_env where
  "calm_env = \<lparr>rv_triggers = (\<lambda>n. smooth (''t'' @ replicate n CHR ''i'') 5), rv_walk = True,
     rv_bridges = (\<lambda>n. smooth (''b'' @ replicate n CHR ''i'') 5), rv_mark = True, rv_now = 6\<rparr>"

text \<open>An event of the channel \<^verbatim>\<open>c1\<close> of the sample registry, which two bridges join to the inbox of \<^verbatim>\<open>bot\<close>.\<close>

definition born_event :: qevent where
  "born_event = (sample_event ''e9'')\<lparr>qe_channel := ''c1''\<rparr>"

definition sample_hub :: hub where
  "sample_hub =
     \<lparr>hb_index = [], hb_channels = registry sample_ops,
      hb_queue = snd (insert_event (\<lambda>_. True) all_ok 1 born_event empty_queue),
      hb_invocations = Some [], hb_transfers = True, hb_sent = Some [],
      hb_metrics = \<lparr>mt_consumed = 0, mt_matched = 0, mt_routed = 0, mt_errors = 0\<rparr>\<rparr>"

lemma sample_hub_wf: "queue_wf (hb_queue sample_hub)" "deliverable (qe_id born_event) (qe_data born_event) sample_hub"
  "hb_channels sample_hub = registry sample_ops"
  by (simp_all add: sample_hub_def born_event_def sample_event_def insert_event_def empty_queue_def has_row_def
      nil_if_empty_def queue_wf_def deliverable_def)

theorem routing_exact_witness:
  "\<exists>h'. handle_event (\<lambda>_ _. None) calm_env born_event sample_hub = Inr h' \<and>
     inboxes (hb_queue h') = inboxes (hb_queue sample_hub) \<union> {(''e9'', a) |a. destination (\<lambda>_ _. None) sample_hub born_event a} \<and>
     map tk_agent (q_tasks (hb_queue h')) = [''bot'']"
proof -
  let ?r = "handle_event (\<lambda>_ _. None) calm_env born_event sample_hub"
  have "case ?r of Inl _ \<Rightarrow> False | Inr h' \<Rightarrow> map tk_agent (q_tasks (hb_queue h')) = [''bot'']" by code_simp
  then obtain h' where h': "?r = Inr h'" "map tk_agent (q_tasks (hb_queue h')) = [''bot'']" by (cases ?r) auto
  have "calm_route calm_env" by (simp add: calm_route_def calm_env_def calm_def smooth_def)
  from routing_exact [OF h'(1) this sample_hub_wf(3,1,2)] h' show ?thesis
    by (simp add: born_event_def sample_event_def)
qed

text \<open>
  C10. Whatever fails on the way, routing an event keeps the queue consistent, takes nothing
  back, delivers only to destinations of the event, and an activity entry of status
  \<open>matched\<close> lists only agents that have the event in their inbox.
\<close>

theorem routing_safe:
  assumes "handle_event re v evt h = Inr h'" "hb_channels h = registry ops" "queue_wf (hb_queue h)" "hb_sent h = Some sent"
  shows "queue_wf (hb_queue h') \<and> inboxes (hb_queue h) \<subseteq> inboxes (hb_queue h') \<and>
    inboxes (hb_queue h') \<subseteq> inboxes (hb_queue h) \<union> {(qe_id evt, a) |a. destination re h evt a} \<and>
    (\<forall>sent' c ms p. hb_sent h' = Some (sent' @ [EventSent c ''matched'' ms p, StatsSent]) \<longrightarrow>
       (\<forall>m \<in> set ms. (qe_id evt, mr_agent m) \<in> inboxes (hb_queue h')))"
proof -
  have wf: "chan_wf (hb_channels h)" using registry_wf assms(2) by simp
  show ?thesis
    using handle_event_effect(1-3) [OF assms(1) wf] assms(3) matched_status [OF assms(1) wf assms(4)] by blast
qed

definition broken_env :: route_env where
  "broken_env = calm_env\<lparr>rv_bridges := \<lambda>n. (smooth (''b'' @ replicate n CHR ''i'') 5)\<lparr>dv_enqueue := \<lambda>_. False\<rparr>\<rparr>"

theorem routing_safe_witness:
  "\<exists>h'. handle_event (\<lambda>_ _. None) broken_env born_event sample_hub = Inr h' \<and> queue_wf (hb_queue h') \<and>
     inboxes (hb_queue h') \<subseteq> inboxes (hb_queue sample_hub) \<union> {(''e9'', a) |a. destination (\<lambda>_ _. None) sample_hub born_event a}"
proof -
  let ?r = "handle_event (\<lambda>_ _. None) broken_env born_event sample_hub"
  have "case ?r of Inl _ \<Rightarrow> False | Inr h' \<Rightarrow> True" by code_simp
  then obtain h' where h': "?r = Inr h'" by (cases ?r) auto
  have "hb_sent sample_hub = Some []" by (simp add: sample_hub_def)
  from routing_safe [OF h' sample_hub_wf(3,1) this] h' show ?thesis by (simp add: born_event_def sample_event_def)
qed

text \<open>
  Routing an event again, as the hub does when it stops before the event is marked routed,
  changes no task: whatever fails the second time, every agent still has the task of the first.
\<close>

theorem rerouting_changes_no_task:
  assumes "handle_event re v evt h = Inr h1" "calm_route v" "hb_channels h = registry ops"
    and "deliverable (qe_id evt) (qe_data evt) h" "handle_event re v' evt h1 = Inr h2"
  shows "q_tasks (hb_queue h2) = q_tasks (hb_queue h1)"
proof -
  have wf: "chan_wf (hb_channels h)" using registry_wf assms(3) by simp
  note E = handle_event_effect [OF assms(1) wf]
  have "destination re h1 evt = destination re h evt" by (intro ext) (simp add: destination_def E(4-6))
  then have "{(qe_id evt, a) |a. destination re h1 evt a} \<subseteq> inboxes (hb_queue h1)"
    using E(7) [OF assms(2,4)] by simp
  then show ?thesis using handle_event_effect(8) [OF assms(5)] wf E(4) by simp
qed

theorem rerouting_changes_no_task_witness:
  "\<exists>h1 h2. handle_event (\<lambda>_ _. None) calm_env born_event sample_hub = Inr h1 \<and>
     handle_event (\<lambda>_ _. None) broken_env born_event h1 = Inr h2 \<and> q_tasks (hb_queue h2) = q_tasks (hb_queue h1) \<and>
     length (q_tasks (hb_queue h1)) = 1"
proof -
  let ?r = "handle_event (\<lambda>_ _. None) calm_env born_event sample_hub"
  let ?f = "handle_event (\<lambda>_ _. None) broken_env born_event"
  have "case ?r of Inl _ \<Rightarrow> False | Inr h1 \<Rightarrow> length (q_tasks (hb_queue h1)) = 1 \<and> (case ?f h1 of Inl _ \<Rightarrow> False | Inr _ \<Rightarrow> True)"
    by code_simp
  then obtain h1 h2 where h: "?r = Inr h1" "length (q_tasks (hb_queue h1)) = 1" "?f h1 = Inr h2"
    by (cases ?r; cases "?f (projr ?r)") auto
  have "calm_route calm_env" by (simp add: calm_route_def calm_env_def calm_def smooth_def)
  from rerouting_changes_no_task [OF h(1) this sample_hub_wf(3,2) h(3)] h show ?thesis by blast
qed

lemma enqueue_refused: "\<not> pg 0 \<Longrightarrow> fst (enqueue_task pg now t q) \<noteq> Inr () \<and> snd (enqueue_task pg now t q) = q"
  by (auto simp: enqueue_task_def split: option.split)

lemma transfers_refused:
  assumes "\<And>n. \<not> dv_enqueue (env n) 0"
  shows "list_all (\<lambda>r. tx_error r \<noteq> None) (fst (fan_out (transfer_one inp) env n ds h)) \<and>
    hb_queue (snd (fan_out (transfer_one inp) env n ds h)) = hb_queue h"
proof (induction ds arbitrary: n h)
  case (Cons d ds)
  have "tx_error (fst (transfer_one inp (env n) d h)) \<noteq> None \<and> hb_queue (snd (transfer_one inp (env n) d h)) = hb_queue h"
    using transfer_one_queue [of inp "env n" d h] enqueue_refused [of "dv_enqueue (env n)"] assms by metis
  then show ?case using Cons by (simp add: fan_out_simps)
qed (simp add: fan_out_simps)

text \<open>
  A failed transfer leaves no trace in the activity feed: when no trigger matches and the
  database refuses every bridge delivery, the event is reported as \<open>unmatched\<close> with no
  match, like an event nothing subscribes to, and marked routed without a task, although its
  bridges lead to an agent.
\<close>

theorem failed_transfers_look_unmatched:
  assumes "index_match re (hb_index h) (shared_event (rv_now v) evt) = Inr []" "hb_channels h = registry ops"
    and "\<And>n. \<not> dv_enqueue (rv_bridges v n) 0" "rv_walk v" "hb_sent h = Some sent"
    and "hb_transfers h" "qe_channel evt \<noteq> []" "bridged_to (registry ops) (qe_channel evt) a"
  shows "\<exists>h'. handle_event re v evt h = Inr h' \<and>
    hb_sent h' = Some (sent @ [EventSent (qe_connector evt) ''unmatched'' [] (qe_data evt), StatsSent]) \<and>
    q_tasks (hb_queue h') = q_tasks (hb_queue h) \<and> destination re h evt a \<and>
    (rv_mark v \<longrightarrow> (\<forall>r \<in> set (q_events (hb_queue h')). er_id r = qe_id evt \<longrightarrow> er_routed r \<noteq> None))"
proof -
  obtain h' where h': "handle_event re v evt h = Inr h'" using handle_event_total [OF assms(1)] by blast
  obtain entries delivered enqueued h1 bridged ok h2 where p:
    "route_via_triggers (rv_triggers v) evt [] (bump (\<lambda>c. c\<lparr>mt_consumed := Suc (mt_consumed c)\<rparr>) h) = ((entries, delivered, enqueued), h1)"
    "route_via_bridges (rv_walk v) (rv_bridges v) evt delivered h1 = ((bridged, ok), h2)"
    "h' = finish_event v evt (send [EventSent (qe_connector evt)
       (if entries @ bridged = [] then ''unmatched'' else if enqueued \<and> ok then ''matched'' else ''error'')
       (entries @ bridged) (qe_data evt), StatsSent] h2)"
    by (rule handle_event_passes [OF h']) (use assms(1) in \<open>simp add: deduplicate_by_agent_def\<close>)
  have h1: "entries = []" "hb_queue h1 = hb_queue h" "hb_channels h1 = registry ops" "hb_sent h1 = Some sent" "hb_transfers h1"
    using p(1) assms(2,5,6) by (auto simp: route_via_triggers_def fan_out_simps)
  have wf: "chan_wf (hb_channels h1)" using registry_wf h1(3) by simp
  have "bridged = [] \<and> hb_queue h2 = hb_queue h \<and> hb_sent h2 = Some sent"
    using p(2) wf
  proof (cases rule: route_via_bridges_cases)
    case Idle
    then show ?thesis using h1 assms(4,7) by simp
  next
    case (Moved rs hb ds)
    have "list_all (\<lambda>r. tx_error r \<noteq> None) rs" "hb_queue hb = hb_queue h1"
      using transfers_refused [of "rv_bridges v" "transfer_of evt delivered" 0 ds h1] assms(3) Moved(3) by simp_all
    then have "{r \<in> set rs. tx_error r = None} = {}" by (auto simp: list_all_iff)
    then have "mr_agent ` set bridged = {}" using Moved(5) by (simp only: image_empty)
    then have "bridged = []" by simp
    then show ?thesis using Moved(5,6,10) h1(2,4) \<open>hb_queue hb = hb_queue h1\<close> by simp
  qed
  then have "hb_sent h' = Some (sent @ [EventSent (qe_connector evt) ''unmatched'' [] (qe_data evt), StatsSent])"
    "q_tasks (hb_queue h') = q_tasks (hb_queue h)"
    using p(3) h1(1) by (simp_all add: finish_event_def send_def mark_routed_tables)
  moreover have "destination re h evt a" using assms(2,6-8) by (simp add: destination_def)
  ultimately show ?thesis using h' handle_event_marks [OF h'] by auto
qed

theorem failed_transfers_look_unmatched_witness:
  "\<exists>h'. handle_event (\<lambda>_ _. None) broken_env born_event sample_hub = Inr h' \<and>
     hb_sent h' = Some [EventSent ''slack'' ''unmatched'' [] (Some JNull), StatsSent] \<and>
     q_tasks (hb_queue h') = [] \<and> destination (\<lambda>_ _. None) sample_hub born_event ''bot''"
proof -
  have m: "index_match (\<lambda>_ _. None) (hb_index sample_hub) (shared_event (rv_now broken_env) born_event) = Inr []"
    by (simp add: sample_hub_def index_match_def build_filter_payload_def shared_event_def event_headers_def
        born_event_def sample_event_def unmarshal_map_def)
  have "bridged_to (registry sample_ops) ''c1'' ''bot''"
  proof -
    have "case deliveries True ''c1'' (registry sample_ops) of Inl _ \<Rightarrow> False | Inr ds \<Rightarrow> ''bot'' \<in> set (map dl_agent ds)"
      by code_simp
    then show ?thesis using deliveries_agents [OF registry_wf, of "''c1''" sample_ops] by auto
  qed
  moreover have "qe_channel born_event = ''c1''" "qe_connector born_event = ''slack''" "qe_data born_event = Some JNull"
    by (simp_all add: born_event_def sample_event_def)
  moreover have "\<And>n. \<not> dv_enqueue (rv_bridges broken_env n) 0" "rv_walk broken_env"
    by (simp_all add: broken_env_def calm_env_def smooth_def)
  moreover have "hb_sent sample_hub = Some []" "hb_transfers sample_hub" "q_tasks (hb_queue sample_hub) = []"
    by (simp_all add: sample_hub_def insert_event_def empty_queue_def born_event_def sample_event_def has_row_def nil_if_empty_def)
  ultimately show ?thesis
    using failed_transfers_look_unmatched [OF m sample_hub_wf(3), where sent = "[]" and a = "''bot''"] by auto
qed

end
