(* ===== verification/CronSchedule.thy ===== *)
theory CronSchedule
  imports Prelude
begin

unbundle bit_operations_syntax

text \<open>
  The cron parser and scheduler shared by the hub and the agent operator
  (\<^verbatim>\<open>shared/api/cron/schedule.go\<close>): the field masks as 64-bit words, \<open>Parse\<close> with
  its error branches (and the one panic it can run into), and \<open>Next\<close> over UTC instants
  in nanoseconds since 1970-01-01.
\<close>

section \<open>Masks\<close>

type_synonym bitmask = "64 word"

text \<open>A nil mask pointer (the field is a star) is \<^const>\<open>None\<close>.\<close>

record schedule =
  minute_f :: "bitmask option"
  hour_f :: "bitmask option"
  dom_f :: "bitmask option"
  month_f :: "bitmask option"
  dow_f :: "bitmask option"

definition has :: "bitmask \<Rightarrow> nat \<Rightarrow> bool" where
  "has b v \<longleftrightarrow> b AND push_bit v 1 \<noteq> 0"

lemma has_bit: "has b v \<longleftrightarrow> bit b v"
proof
  assume "has b v"
  then obtain n where "bit (b AND push_bit v 1) n"
    by (auto simp: has_def bit_eq_iff)
  then show "bit b v" by (auto simp: bit_simps)
next
  assume b: "bit b v"
  then have "v < 64" using bit_imp_le_length by fastforce
  with b have "bit (b AND push_bit v 1) v" by (simp add: bit_simps)
  then show "has b v" by (auto simp: has_def)
qed

section \<open>Parsing\<close>

text \<open>
  The errors in the order the code can return them. \<open>NegativeShift\<close> is not an error
  value of the code: it is the run-time panic of \<open>bitmask(1) << v\<close> for a negative \<open>v\<close>.
\<close>

datatype cron_error =
    FieldCount nat
  | InField string string cron_error
  | InvalidStep string
  | InvalidRange string
  | InvalidValue string
  | OutOfRange int int int int
  | NegativeShift

text \<open>
  The loop \<open>for v := low; v <= high; v += step\<close>. The addition wraps, as \<open>int\<close> addition
  does. The conjuncts after \<open>v \<le> high\<close> hold at every call the code makes (\<open>int\<close> is 64
  bits wide and a step below 1 has been refused); they are repeated for termination.
\<close>

function set_steps :: "int \<Rightarrow> int \<Rightarrow> int \<Rightarrow> bitmask \<Rightarrow> cron_error + bitmask" where
  "set_steps v high step bits =
     (if v \<le> high \<and> goint v \<and> goint step \<and> 0 < step
      then (if v < 0 then Inl NegativeShift
            else set_steps (wrap64 (v + step)) high step (bits OR push_bit (nat v) 1))
      else Inr bits)"
  by pat_completeness auto

lemma wrap64_step:
  assumes "0 \<le> v" "goint v" "goint step" "0 < step"
  shows "wrap64 (v + step) < 0 \<or> (v < wrap64 (v + step) \<and> wrap64 (v + step) = v + step)"
proof (cases "v + step < 2 ^ 63")
  case True
  with assms have "goint (v + step)" by (simp add: goint_def)
  with assms show ?thesis by simp
next
  case False
  then have "wrap64 (v + step) = v + step - 2 ^ 64"
    using assms by (intro wrap64_above) (simp_all add: goint_def)
  with assms show ?thesis by (simp add: goint_def)
qed

termination set_steps
proof (relation "measure (\<lambda>(v, high, step, bits). if v < 0 then 0 else nat (2 ^ 63 - v))", goal_cases)
  case 1
  show ?case by simp
next
  case (2 v high step bits)
  then have "0 \<le> v" "v < 2 ^ 63" by (simp_all add: goint_def)
  moreover from 2 have "wrap64 (v + step) < 0 \<or> v < wrap64 (v + step)"
    using wrap64_step [of v step] by auto
  ultimately show ?case by auto
qed

declare set_steps.simps [simp del]

text \<open>The two halves of an entry around its first slash, and the bounds its left half names.\<close>

definition split_step :: "string \<Rightarrow> string \<times> string option" where
  "split_step part =
     (case cut_at (CHR ''/'') part of None \<Rightarrow> (part, None) | Some (a, b) \<Rightarrow> (a, Some b))"

definition part_step :: "string option \<Rightarrow> cron_error + int" where
  "part_step sp =
     (case sp of
        None \<Rightarrow> Inr 1
      | Some txt \<Rightarrow>
          (case atoi txt of
             None \<Rightarrow> Inl (InvalidStep txt)
           | Some step \<Rightarrow> if step \<le> 0 then Inl (InvalidStep txt) else Inr step))"

definition part_bounds :: "string \<Rightarrow> int \<Rightarrow> int \<Rightarrow> cron_error + int \<times> int" where
  "part_bounds range_part mn mx =
     (if range_part = ''*'' then Inr (mn, mx)
      else (case cut_at (CHR ''-'') range_part of
              Some (a, b) \<Rightarrow>
                (case (atoi a, atoi b) of
                   (Some lo, Some hi) \<Rightarrow> Inr (lo, hi)
                 | _ \<Rightarrow> Inl (InvalidRange range_part))
            | None \<Rightarrow>
                (case atoi range_part of
                   None \<Rightarrow> Inl (InvalidValue range_part)
                 | Some n \<Rightarrow> Inr (n, n))))"

definition parse_part :: "string \<Rightarrow> int \<Rightarrow> int \<Rightarrow> cron_error + bitmask" where
  "parse_part part mn mx =
     (case split_step part of
        (range_part, step_part) \<Rightarrow>
          (case part_step step_part of
             Inl e \<Rightarrow> Inl e
           | Inr step \<Rightarrow>
               (case part_bounds range_part mn mx of
                  Inl e \<Rightarrow> Inl e
                | Inr (low, high) \<Rightarrow>
                    if low < mn \<or> high > mx \<or> low > high then Inl (OutOfRange low high mn mx)
                    else set_steps low high step 0)))"

fun parse_parts :: "string list \<Rightarrow> int \<Rightarrow> int \<Rightarrow> bitmask \<Rightarrow> cron_error + bitmask" where
  "parse_parts [] mn mx bits = Inr bits"
| "parse_parts (p # ps) mn mx bits =
     (case parse_part p mn mx of
        Inl e \<Rightarrow> Inl e
      | Inr b \<Rightarrow> parse_parts ps mn mx (bits OR b))"

definition parse_field :: "string \<Rightarrow> int \<Rightarrow> int \<Rightarrow> cron_error + bitmask option" where
  "parse_field field mn mx =
     (if field = ''*'' then Inr None
      else (case parse_parts (split_on (CHR '','') field) mn mx 0 of
              Inl e \<Rightarrow> Inl e
            | Inr bits \<Rightarrow> Inr (Some bits)))"

text \<open>An error is wrapped with the field it came from; a panic is not.\<close>

definition in_field :: "string \<Rightarrow> string \<Rightarrow> cron_error \<Rightarrow> cron_error" where
  "in_field name text e = (if e = NegativeShift then NegativeShift else InField name text e)"

text \<open>Seven becomes zero, so that Sunday has one bit.\<close>

definition normalize_dow :: "bitmask option \<Rightarrow> bitmask option" where
  "normalize_dow d =
     (case d of
        None \<Rightarrow> None
      | Some b \<Rightarrow> Some (if has b 7 then (b OR push_bit 0 1) AND NOT (push_bit 7 1) else b))"

definition parse :: "string \<Rightarrow> cron_error + schedule" where
  "parse expr =
     (case go_fields expr of
        [f0, f1, f2, f3, f4] \<Rightarrow>
          (case parse_field f0 0 59 of Inl e \<Rightarrow> Inl (in_field ''minute'' f0 e) | Inr minute \<Rightarrow>
          (case parse_field f1 0 23 of Inl e \<Rightarrow> Inl (in_field ''hour'' f1 e) | Inr hour \<Rightarrow>
          (case parse_field f2 1 31 of Inl e \<Rightarrow> Inl (in_field ''day-of-month'' f2 e) | Inr dm \<Rightarrow>
          (case parse_field f3 1 12 of Inl e \<Rightarrow> Inl (in_field ''month'' f3 e) | Inr month \<Rightarrow>
          (case parse_field f4 0 7 of Inl e \<Rightarrow> Inl (in_field ''day-of-week'' f4 e) | Inr dow \<Rightarrow>
             Inr \<lparr>minute_f = minute, hour_f = hour, dom_f = dm, month_f = month,
                  dow_f = normalize_dow dow\<rparr>)))))
      | fs \<Rightarrow> Inl (FieldCount (length fs)))"

text \<open>The helper the tests use to read a mask back.\<close>

definition describe :: "bitmask option \<Rightarrow> nat \<Rightarrow> nat list" where
  "describe b mx =
     (case b of None \<Rightarrow> [0..<Suc mx] | Some m \<Rightarrow> filter (has m) [0..<Suc mx])"

section \<open>Calendar\<close>

text \<open>
  \<open>time.Time\<close> in UTC: nanoseconds since the epoch, day numbers and the proleptic
  Gregorian calendar of package \<open>time\<close> (year, month, day of a day number and back).
\<close>

definition minute_ns :: int where "minute_ns = 60 * 10 ^ 9"
definition day_ns :: int where "day_ns = 1440 * minute_ns"

definition day_of :: "instant \<Rightarrow> int" where "day_of t = t div day_ns"

definition civil :: "int \<Rightarrow> int \<times> int \<times> int" where
  "civil days =
     (let z = days + 719468; era = z div 146097; doe = z mod 146097;
          yoe = (doe - doe div 1460 + doe div 36524 - doe div 146096) div 365;
          doy = doe - (365 * yoe + yoe div 4 - yoe div 100);
          mp = (5 * doy + 2) div 153;
          d = doy - (153 * mp + 2) div 5 + 1;
          m = (if mp < 10 then mp + 3 else mp - 9);
          y = yoe + era * 400 + (if m \<le> 2 then 1 else 0)
      in (y, m, d))"

definition days_from_civil :: "int \<Rightarrow> int \<Rightarrow> int \<Rightarrow> int" where
  "days_from_civil y0 m d =
     (let y = (if m \<le> 2 then y0 - 1 else y0); era = y div 400; yoe = y mod 400;
          doy = (153 * (if m > 2 then m - 3 else m + 9) + 2) div 5;
          doe = yoe * 365 + yoe div 4 - yoe div 100 + doy
      in era * 146097 + doe - 719468 + (d - 1))"

definition month_of :: "int \<Rightarrow> nat" where
  "month_of day = (case civil day of (y, m, d) \<Rightarrow> nat m)"

definition dom_of :: "int \<Rightarrow> nat" where
  "dom_of day = (case civil day of (y, m, d) \<Rightarrow> nat d)"

definition weekday_of :: "int \<Rightarrow> nat" where
  "weekday_of day = nat ((day + 4) mod 7)"

text \<open>\<open>AddDate(5, 0, 0)\<close> on a day: the same month and day five years on, normalised.\<close>

definition add_years :: "int \<Rightarrow> int \<Rightarrow> int" where
  "add_years k day = (case civil day of (y, m, d) \<Rightarrow> days_from_civil (y + k) m d)"

section \<open>Next\<close>

definition field_ok :: "bitmask option \<Rightarrow> nat \<Rightarrow> bool" where
  "field_ok f v \<longleftrightarrow> (case f of None \<Rightarrow> True | Some b \<Rightarrow> has b v)"

definition day_match :: "schedule \<Rightarrow> int \<Rightarrow> bool" where
  "day_match s day \<longleftrightarrow>
     field_ok (month_f s) (month_of day) \<and>
     (let dom_star = (dom_f s = None); dow_star = (dow_f s = None);
          dom_hit = field_ok (dom_f s) (dom_of day);
          dow_hit = field_ok (dow_f s) (weekday_of day)
      in if dom_star \<or> dow_star then dom_hit \<and> dow_hit else dom_hit \<or> dow_hit)"

definition at_time :: "int \<Rightarrow> nat \<Rightarrow> nat \<Rightarrow> instant" where
  "at_time day h m = day * day_ns + (int h * 60 + int m) * minute_ns"

text \<open>The candidates of one day in the order of the two inner loops.\<close>

definition day_candidates :: "schedule \<Rightarrow> int \<Rightarrow> instant list" where
  "day_candidates s day =
     [at_time day h m. h \<leftarrow> filter (field_ok (hour_f s)) [0..<24],
                       m \<leftarrow> filter (field_ok (minute_f s)) [0..<60]]"

text \<open>The outer loop, over the days that are left before the limit.\<close>

fun scan_days :: "schedule \<Rightarrow> instant \<Rightarrow> int \<Rightarrow> nat \<Rightarrow> instant option" where
  "scan_days s t day 0 = None"
| "scan_days s t day (Suc n) =
     (if day_match s day
      then (case List.find (\<lambda>c. c > t) (day_candidates s day) of
              Some c \<Rightarrow> Some c
            | None \<Rightarrow> scan_days s t (day + 1) n)
      else scan_days s t (day + 1) n)"

definition next_origin :: "instant \<Rightarrow> instant" where
  "next_origin t = t - t mod minute_ns + minute_ns"

definition scan_limit :: "instant \<Rightarrow> nat" where
  "scan_limit t = (let d = day_of (next_origin t) in nat (add_years 5 d - d))"

text \<open>\<^const>\<open>None\<close> is the zero time.\<close>

definition next_fire :: "schedule \<Rightarrow> instant \<Rightarrow> instant option" where
  "next_fire s t = scan_days s t (day_of (next_origin t)) (scan_limit t)"

section \<open>What a field selects\<close>

text \<open>
  The meaning of one comma-separated entry, as the comment at the head of the source
  file gives it: a lowest value, a highest value and a step.
\<close>

definition part_range :: "string \<Rightarrow> int \<Rightarrow> int \<Rightarrow> (int \<times> int \<times> int) option" where
  "part_range part mn mx =
     (case split_step part of
        (range_part, step_part) \<Rightarrow>
          (case (part_step step_part, part_bounds range_part mn mx) of
             (Inr st, Inr (lo, hi)) \<Rightarrow>
               if mn \<le> lo \<and> lo \<le> hi \<and> hi \<le> mx then Some (lo, hi, st) else None
           | _ \<Rightarrow> None))"

definition part_selects :: "string \<Rightarrow> int \<Rightarrow> int \<Rightarrow> nat \<Rightarrow> bool" where
  "part_selects part mn mx n \<longleftrightarrow>
     (case part_range part mn mx of
        None \<Rightarrow> False
      | Some (lo, hi, st) \<Rightarrow> lo \<le> int n \<and> int n \<le> hi \<and> (int n - lo) mod st = 0)"

text \<open>The last value the loop sets, after which it adds the step once more.\<close>

definition last_value :: "int \<Rightarrow> int \<Rightarrow> int \<Rightarrow> int" where
  "last_value lo hi st = hi - (hi - lo) mod st"

lemma set_steps_done: "high < v \<Longrightarrow> set_steps v high step bits = Inr bits"
  by (subst set_steps.simps) simp

lemma set_steps_next:
  assumes "0 \<le> v" "v \<le> high" "high < 64" "goint step" "0 < step"
  shows "set_steps v high step bits =
    (if v + step < 2 ^ 63 then set_steps (v + step) high step (bits OR push_bit (nat v) 1)
     else Inl NegativeShift)"
proof -
  have g: "goint v" using assms by (simp add: goint_def)
  have unfold: "set_steps v high step bits =
      set_steps (wrap64 (v + step)) high step (bits OR push_bit (nat v) 1)"
    using assms g by (subst set_steps.simps) simp
  show ?thesis
  proof (cases "v + step < 2 ^ 63")
    case True
    then have "goint (v + step)" using assms by (simp add: goint_def)
    with True unfold show ?thesis by simp
  next
    case False
    then have w: "wrap64 (v + step) = v + step - 2 ^ 64"
      using assms g by (intro wrap64_above) (simp_all add: goint_def)
    then have neg: "wrap64 (v + step) < 0" "goint (wrap64 (v + step))"
      using False assms g by (simp_all add: goint_def)
    then have "set_steps (wrap64 (v + step)) high step (bits OR push_bit (nat v) 1) = Inl NegativeShift"
      using assms by (subst set_steps.simps) simp
    with False unfold show ?thesis by simp
  qed
qed

lemma last_value_next:
  assumes "v + step \<le> high" "0 < step"
  shows "last_value (v + step) high step = last_value v high step"
proof -
  have "(high - v) mod step = (high - (v + step) + step) mod step" by simp
  also have "\<dots> = (high - (v + step)) mod step" by (rule mod_add_self2)
  finally show ?thesis by (simp add: last_value_def)
qed

lemma last_value_end:
  assumes "high < v + step" "v \<le> high" "0 < step"
  shows "last_value v high step = v"
  using assms by (simp add: last_value_def mod_pos_pos_trivial)

lemma set_steps_result:
  assumes "0 \<le> v" "v \<le> high" "high < 64" "goint step" "0 < step"
  shows "(last_value v high step + step < 2 ^ 63 \<longrightarrow>
            (\<exists>b. set_steps v high step bits = Inr b \<and>
               (\<forall>n. bit b n \<longleftrightarrow> bit bits n \<or>
                  (v \<le> int n \<and> int n \<le> high \<and> (int n - v) mod step = 0)))) \<and>
         (2 ^ 63 \<le> last_value v high step + step \<longrightarrow> set_steps v high step bits = Inl NegativeShift)"
  using assms
proof (induction "nat (high - v)" arbitrary: v bits rule: less_induct)
  case less
  have one: "bit (bits OR push_bit (nat v) (1 :: bitmask)) n \<longleftrightarrow> bit bits n \<or> int n = v" for n
    using less.prems(1-3) by (auto simp: bit_simps)
  show ?case
  proof (cases "v + step \<le> high")
    case True
    then have small: "v + step < 2 ^ 63" using less.prems by simp
    have step: "set_steps v high step bits = set_steps (v + step) high step (bits OR push_bit (nat v) 1)"
      using set_steps_next [OF less.prems] small by simp
    have sel: "int n = v \<or> (v + step \<le> int n \<and> int n \<le> high \<and> (int n - (v + step)) mod step = 0)
        \<longleftrightarrow> v \<le> int n \<and> int n \<le> high \<and> (int n - v) mod step = 0" for n
    proof -
      have "(int n - v) mod step = (int n - (v + step)) mod step"
        by (metis add_diff_cancel_left diff_add_eq_diff_diff_swap minus_mod_self2 add.commute)
      moreover have "int n = v" if "v \<le> int n" "int n < v + step" "(int n - v) mod step = 0"
        using that by (simp add: mod_pos_pos_trivial)
      ultimately show ?thesis using True less.prems(1,5) by (cases "int n < v + step") auto
    qed
    have "nat (high - (v + step)) < nat (high - v)" using True less.prems by simp
    from less.hyps [OF this _ True less.prems(3-5), of "bits OR push_bit (nat v) 1"] less.prems
    have "(last_value (v + step) high step + step < 2 ^ 63 \<longrightarrow>
            (\<exists>b. set_steps (v + step) high step (bits OR push_bit (nat v) 1) = Inr b \<and>
               (\<forall>n. bit b n \<longleftrightarrow> bit (bits OR push_bit (nat v) 1) n \<or>
                  (v + step \<le> int n \<and> int n \<le> high \<and> (int n - (v + step)) mod step = 0)))) \<and>
         (2 ^ 63 \<le> last_value (v + step) high step + step \<longrightarrow>
            set_steps (v + step) high step (bits OR push_bit (nat v) 1) = Inl NegativeShift)"
      by simp
    then show ?thesis
      by (simp only: step last_value_next [OF True less.prems(5)] one disj_assoc sel)
  next
    case False
    then have last: "last_value v high step = v"
      using less.prems by (intro last_value_end) auto
    have sel: "v \<le> int n \<and> int n \<le> high \<and> (int n - v) mod step = 0 \<longleftrightarrow> int n = v" for n
    proof -
      have "(int n - v) mod step = int n - v" if "v \<le> int n" "int n \<le> high"
        using that False by (intro mod_pos_pos_trivial) auto
      then show ?thesis using less.prems by auto
    qed
    define b where "b = bits OR push_bit (nat v) 1"
    have "set_steps v high step bits = (if v + step < 2 ^ 63 then Inr b else Inl NegativeShift)"
      using set_steps_next [OF less.prems, of bits] set_steps_done [of high "v + step" step] False
      by (simp only: b_def not_le)
    then show ?thesis
      using one [folded b_def] by (simp add: last sel)
  qed
qed

lemma part_step_range: "part_step sp = Inr st \<Longrightarrow> goint st \<and> 0 < st"
  by (auto simp: part_step_def goint_def dest: atoi_goint split: option.splits if_splits)

lemma part_step_no_panic: "part_step sp \<noteq> Inl NegativeShift"
  by (simp add: part_step_def split: option.splits)

lemma part_bounds_no_panic: "part_bounds r mn mx \<noteq> Inl NegativeShift"
  by (auto simp: part_bounds_def split: option.splits)

text \<open>An entry is refused, panics, or sets exactly the bits it selects.\<close>

lemma part_range_None:
  assumes "part_range part mn mx = None"
  shows "\<exists>e. parse_part part mn mx = Inl e \<and> e \<noteq> NegativeShift"
proof (cases "split_step part")
  case (Pair r sp)
  show ?thesis
  proof (cases "part_step sp")
    case (Inl e)
    then show ?thesis using part_step_no_panic [of sp] by (auto simp: parse_part_def Pair)
  next
    case (Inr st)
    note st = this
    show ?thesis
    proof (cases "part_bounds r mn mx")
      case (Inl e)
      then show ?thesis using part_bounds_no_panic [of r mn mx] by (auto simp: parse_part_def Pair st)
    next
      case (Inr b)
      then show ?thesis using assms
        by (cases b) (auto simp: parse_part_def part_range_def Pair st split: if_splits)
    qed
  qed
qed

lemma part_range_Some:
  assumes "part_range part mn mx = Some (lo, hi, st)"
  shows "goint st \<and> 0 < st \<and> mn \<le> lo \<and> lo \<le> hi \<and> hi \<le> mx \<and>
    parse_part part mn mx = set_steps lo hi st 0"
  using assms
  by (auto simp: part_range_def parse_part_def dest: part_step_range
      split: prod.splits sum.splits if_splits)

lemma parse_part_ok:
  assumes "0 \<le> mn" "mx < 64" "part_range part mn mx = Some (lo, hi, st)"
    and "last_value lo hi st + st < 2 ^ 63"
  obtains b where "parse_part part mn mx = Inr b" "\<And>n. bit b n \<longleftrightarrow> part_selects part mn mx n"
proof -
  note r = part_range_Some [OF assms(3)]
  from set_steps_result [of lo hi st 0] r assms
  obtain b where "parse_part part mn mx = Inr b"
    "\<And>n. bit b n \<longleftrightarrow> lo \<le> int n \<and> int n \<le> hi \<and> (int n - lo) mod st = 0"
    by auto
  then show ?thesis by (intro that) (simp_all add: part_selects_def assms(3))
qed

lemma parse_part_panic:
  assumes "0 \<le> mn" "mx < 64" "part_range part mn mx = Some (lo, hi, st)"
    and "2 ^ 63 \<le> last_value lo hi st + st"
  shows "parse_part part mn mx = Inl NegativeShift"
  using set_steps_result [of lo hi st 0] part_range_Some [OF assms(3)] assms by auto

lemma parse_part_Inr:
  assumes "0 \<le> mn" "mx < 64" "parse_part part mn mx = Inr b"
  shows "bit b n \<longleftrightarrow> part_selects part mn mx n"
proof -
  obtain lo hi st where r: "part_range part mn mx = Some (lo, hi, st)"
    using part_range_None [of part mn mx] assms(3) by (cases "part_range part mn mx") auto
  then have "last_value lo hi st + st < 2 ^ 63"
    using parse_part_panic [OF assms(1,2) r] assms(3) by (cases "last_value lo hi st + st < 2 ^ 63") auto
  from parse_part_ok [OF assms(1,2) r this] assms(3) show ?thesis by auto
qed

lemma parse_parts_Inr:
  assumes "0 \<le> mn" "mx < 64" "parse_parts ps mn mx bits = Inr b"
  shows "bit b n \<longleftrightarrow> bit bits n \<or> (\<exists>p \<in> set ps. part_selects p mn mx n)"
  using assms(3)
proof (induction ps arbitrary: bits)
  case Nil
  then show ?case by simp
next
  case (Cons p ps)
  then obtain b1 where "parse_part p mn mx = Inr b1" "parse_parts ps mn mx (bits OR b1) = Inr b"
    by (auto split: sum.splits)
  with Cons.IH parse_part_Inr [OF assms(1,2)] show ?case by (auto simp: bit_or_iff)
qed

definition field_selects :: "string \<Rightarrow> int \<Rightarrow> int \<Rightarrow> nat \<Rightarrow> bool" where
  "field_selects f mn mx n \<longleftrightarrow>
     f = ''*'' \<or> (\<exists>p \<in> set (split_on (CHR '','') f). part_selects p mn mx n)"

lemma parse_field_Inr:
  assumes "0 \<le> mn" "mx < 64" "parse_field f mn mx = Inr m"
  shows "field_ok m n \<longleftrightarrow> field_selects f mn mx n"
  using assms parse_parts_Inr [OF assms(1,2), of "split_on (CHR '','') f" 0]
  by (auto simp: parse_field_def field_ok_def field_selects_def has_bit split: if_splits sum.splits)

text \<open>Day-of-week 7 is Sunday again, so its bit moves to 0.\<close>

definition dow_selects :: "string \<Rightarrow> nat \<Rightarrow> bool" where
  "dow_selects f n \<longleftrightarrow>
     f = ''*'' \<or> (n \<noteq> 7 \<and> (field_selects f 0 7 n \<or> (n = 0 \<and> field_selects f 0 7 7)))"

lemma bit_normalized:
  "n < 64 \<Longrightarrow> bit ((b OR push_bit 0 1) AND NOT (push_bit 7 1) :: bitmask) n \<longleftrightarrow> n \<noteq> 7 \<and> (bit b n \<or> n = 0)"
  by (simp only: bit_and_iff bit_or_iff bit_not_iff bit_push_bit_iff bit_1_iff possible_bit_word) auto

lemma normalize_dow_ok:
  "field_ok (normalize_dow (Some b)) n \<longleftrightarrow> n \<noteq> 7 \<and> (bit b n \<or> (n = 0 \<and> bit b 7))"
proof (cases "n < 64")
  case True
  show ?thesis
  proof (cases "bit b 7")
    case b7: True
    show ?thesis using bit_normalized [OF True, of b] b7
      by (simp only: normalize_dow_def field_ok_def has_bit option.case if_True) blast
  next
    case False
    then show ?thesis by (auto simp: normalize_dow_def field_ok_def has_bit)
  qed
next
  case False
  then have "\<not> bit (w :: bitmask) n" for w using bit_imp_le_length [of w n] by fastforce
  with False show ?thesis by (simp add: field_ok_def normalize_dow_def has_bit)
qed

lemma parse_field_dow:
  assumes "parse_field f 0 7 = Inr m"
  shows "field_ok (normalize_dow m) n \<longleftrightarrow> dow_selects f n"
proof (cases m)
  case None
  with assms have "f = ''*''" by (auto simp: parse_field_def split: if_splits sum.splits)
  then show ?thesis by (simp add: None normalize_dow_def field_ok_def dow_selects_def)
next
  case (Some b)
  with assms have star: "f \<noteq> ''*''" by (auto simp: parse_field_def)
  have "bit b k \<longleftrightarrow> field_selects f 0 7 k" for k
    using parse_field_Inr [OF _ _ assms, of k] by (simp add: Some field_ok_def has_bit)
  then show ?thesis by (simp add: Some normalize_dow_ok dow_selects_def star)
qed

section \<open>The schedule as a set of instants\<close>

definition minute_of :: "instant \<Rightarrow> nat" where
  "minute_of t = nat (t div minute_ns mod 60)"

definition hour_of :: "instant \<Rightarrow> nat" where
  "hour_of t = nat (t div minute_ns div 60 mod 24)"

text \<open>What it means for a schedule to fire at an instant, without any search.\<close>

definition fires :: "schedule \<Rightarrow> instant \<Rightarrow> bool" where
  "fires s u \<longleftrightarrow>
     u mod minute_ns = 0 \<and> day_match s (day_of u) \<and>
     field_ok (hour_f s) (hour_of u) \<and> field_ok (minute_f s) (minute_of u)"

lemma at_time_alt: "at_time day h m = (day * 1440 + int h * 60 + int m) * minute_ns"
  by (simp add: at_time_def day_ns_def algebra_simps)

lemma at_time_parts:
  assumes "h < 24" "m < 60"
  shows "at_time day h m mod minute_ns = 0" "day_of (at_time day h m) = day"
    "hour_of (at_time day h m) = h" "minute_of (at_time day h m) = m"
proof -
  define k where "k = day * 1440 + int h * 60 + int m"
  have k: "at_time day h m = k * minute_ns"
    by (simp add: at_time_alt k_def)
  have kd: "at_time day h m div minute_ns = k"
    by (simp add: k minute_ns_def)
  show "at_time day h m mod minute_ns = 0" by (simp add: k)
  have "int h * 60 + int m < 1440" using assms by auto
  then have "k div 1440 = day" by (simp add: k_def add.assoc)
  then show "day_of (at_time day h m) = day"
    by (simp add: day_of_def day_ns_def k minute_ns_def)
  have "k div 60 = day * 24 + int h" using assms by (simp add: k_def)
  then show "hour_of (at_time day h m) = h"
    using assms by (simp add: hour_of_def kd)
  have "k = (day * 24 + int h) * 60 + int m" by (simp add: k_def)
  then have "k mod 60 = int m mod 60" by (simp only: mod_mult_self3)
  then have "k mod 60 = int m" using assms by simp
  then show "minute_of (at_time day h m) = m"
    using assms by (simp add: minute_of_def kd)
qed

lemma at_time_of:
  assumes "u mod minute_ns = 0"
  shows "at_time (day_of u) (hour_of u) (minute_of u) = u"
proof -
  define k where "k = u div minute_ns"
  have u: "u = k * minute_ns" using assms by (metis k_def mult_div_mod_eq add.right_neutral mult.commute)
  have day: "day_of u = k div 1440"
    by (simp add: day_of_def day_ns_def u minute_ns_def)
  have "k div 60 div 24 = k div 1440" by (simp add: zdiv_zmult2_eq [symmetric])
  moreover have "k = k div 60 * 60 + k mod 60" "k div 60 = k div 60 div 24 * 24 + k div 60 mod 24"
    by simp_all
  ultimately have k: "k div 1440 * 1440 + (k div 60 mod 24) * 60 + k mod 60 = k" by presburger
  have "int (hour_of u) = k div 60 mod 24" "int (minute_of u) = k mod 60"
    by (simp_all add: hour_of_def minute_of_def k_def)
  then show ?thesis
    by (simp only: at_time_alt day k) (simp only: u)
qed

lemma hour_minute_bounds: "hour_of u < 24" "minute_of u < 60"
  by (simp_all add: hour_of_def minute_of_def nat_less_iff)

lemma in_day_candidates:
  assumes "day_match s day"
  shows "u \<in> set (day_candidates s day) \<longleftrightarrow> fires s u \<and> day_of u = day"
proof
  assume "u \<in> set (day_candidates s day)"
  then obtain h m where hm: "h < 24" "m < 60" "field_ok (hour_f s) h" "field_ok (minute_f s) m"
    and u: "u = at_time day h m"
    by (auto simp: day_candidates_def)
  with assms show "fires s u \<and> day_of u = day"
    by (simp add: fires_def u at_time_parts [OF hm(1,2)])
next
  assume u: "fires s u \<and> day_of u = day"
  then have "u = at_time day (hour_of u) (minute_of u)"
    using at_time_of [of u] by (simp add: fires_def)
  with u show "u \<in> set (day_candidates s day)"
    using hour_minute_bounds [of u] by (auto simp: day_candidates_def fires_def intro!: image_eqI)
qed

lemma at_time_mono: "h < h' \<or> (h = h' \<and> m < m') \<Longrightarrow> m < 60 \<Longrightarrow> at_time day h m < at_time day h' m'"
  by (auto simp: at_time_alt minute_ns_def)

lemma sorted_day_candidates: "sorted (day_candidates s day)"
proof -
  have inner: "sorted (map (at_time day h) (filter p [0..<60]))" for h p
    by (rule sorted_map_mono [OF sorted_wrt_filter]) (auto simp: mono_on_def at_time_alt minute_ns_def)
  have "sorted (concat (map (\<lambda>h. map (at_time day h) (filter (field_ok (minute_f s)) [0..<60])) hs))"
    if "sorted_wrt (<) hs" for hs
    using that
  proof (induction hs)
    case Nil
    then show ?case by simp
  next
    case (Cons h hs)
    then show ?case
      by (auto simp: sorted_append inner intro!: less_imp_le at_time_mono)
  qed
  then show ?thesis
    by (simp add: day_candidates_def sorted_wrt_filter)
qed

lemma find_sorted_least:
  assumes "sorted xs" "List.find p xs = Some x" "y \<in> set xs" "p y"
  shows "x \<le> y"
  using assms by (induction xs) (auto split: if_splits dest: find_Some_iff_first)

lemma day_of_mono: "u \<le> v \<Longrightarrow> day_of u \<le> day_of v"
  by (simp add: day_of_def day_ns_def minute_ns_def zdiv_mono1)

lemma scan_days_Some:
  assumes "scan_days s t day n = Some u"
  shows "fires s u \<and> t < u \<and> (\<forall>v. fires s v \<and> t < v \<and> day \<le> day_of v \<longrightarrow> u \<le> v)"
  using assms
proof (induction n arbitrary: day)
  case 0
  then show ?case by simp
next
  case (Suc n)
  have later: "u \<le> v" if "fires s v" "t < v" "day \<le> day_of v" "day_of v \<noteq> day"
      "scan_days s t (day + 1) n = Some u" for v
    using Suc.IH [OF that(5)] that by auto
  show ?case
  proof (cases "day_match s day")
    case False
    with Suc.prems have rest: "scan_days s t (day + 1) n = Some u" by simp
    moreover have "day_of v \<noteq> day" if "fires s v" for v using that False by (auto simp: fires_def)
    ultimately show ?thesis using Suc.IH [OF rest] later by blast
  next
    case True
    note cands = in_day_candidates [OF True]
    show ?thesis
    proof (cases "List.find (\<lambda>c. c > t) (day_candidates s day)")
      case None
      with Suc.prems True have rest: "scan_days s t (day + 1) n = Some u" by simp
      have "day_of v \<noteq> day" if "fires s v" "t < v" for v
        using that None cands by (auto simp: find_None_all)
      then show ?thesis using Suc.IH [OF rest] later rest by blast
    next
      case (Some c)
      with Suc.prems True have c: "c = u" by simp
      have u: "fires s u" "day_of u = day" "t < u"
        using find_Some_iff_first [OF Some] cands by (auto simp: c)
      have "u \<le> v" if "fires s v" "t < v" "day \<le> day_of v" for v
      proof (cases "day_of v = day")
        case True
        with that show ?thesis
          using find_sorted_least [OF sorted_day_candidates Some] cands by (simp add: c)
      next
        case False
        with that u(2) have "\<not> v \<le> u" using day_of_mono [of v u] by auto
        then show ?thesis by simp
      qed
      with u show ?thesis by blast
    qed
  qed
qed



lemma fires_after_origin:
  assumes "fires s v" "t < v"
  shows "day_of (next_origin t) \<le> day_of v"
proof -
  have v: "v = v div minute_ns * minute_ns"
    using minus_mod_eq_div_mult [of v minute_ns] assms(1) by (simp add: fires_def)
  have o: "t - t mod minute_ns = t div minute_ns * minute_ns"
    by (rule minus_mod_eq_div_mult)
  have "t div minute_ns \<noteq> v div minute_ns"
  proof
    assume "t div minute_ns = v div minute_ns"
    with v o have "v = t - t mod minute_ns" by simp
    moreover have "0 \<le> t mod minute_ns" by (simp add: minute_ns_def)
    ultimately show False using assms(2) by simp
  qed
  moreover have "t div minute_ns \<le> v div minute_ns"
    using assms(2) by (intro zdiv_mono1) (auto simp: minute_ns_def)
  ultimately have "t div minute_ns * minute_ns + minute_ns \<le> v div minute_ns * minute_ns"
    by (simp add: minute_ns_def)
  with v o have "next_origin t \<le> v" by (simp add: next_origin_def)
  then show ?thesis by (rule day_of_mono)
qed

section \<open>Properties\<close>

text \<open>
  C4. A parsed schedule means what its five fields say: a value is admitted by a field
  mask exactly when some comma-separated entry of the field selects it (a star, a value,
  a range, each with an optional step counted from the low end), with day-of-week 7
  read as Sunday.
\<close>

theorem parse_meaning:
  assumes "parse expr = Inr s"
  shows "\<exists>f0 f1 f2 f3 f4. go_fields expr = [f0, f1, f2, f3, f4] \<and>
    (\<forall>n. (field_ok (minute_f s) n \<longleftrightarrow> field_selects f0 0 59 n) \<and>
         (field_ok (hour_f s) n \<longleftrightarrow> field_selects f1 0 23 n) \<and>
         (field_ok (dom_f s) n \<longleftrightarrow> field_selects f2 1 31 n) \<and>
         (field_ok (month_f s) n \<longleftrightarrow> field_selects f3 1 12 n) \<and>
         (field_ok (dow_f s) n \<longleftrightarrow> dow_selects f4 n))"
proof -
  obtain f0 f1 f2 f3 f4 where fs: "go_fields expr = [f0, f1, f2, f3, f4]"
    using assms by (auto simp: parse_def split: list.splits)
  with assms obtain m0 m1 m2 m3 m4 where
    "parse_field f0 0 59 = Inr m0" "parse_field f1 0 23 = Inr m1" "parse_field f2 1 31 = Inr m2"
    "parse_field f3 1 12 = Inr m3" "parse_field f4 0 7 = Inr m4"
    and "s = \<lparr>minute_f = m0, hour_f = m1, dom_f = m2, month_f = m3, dow_f = normalize_dow m4\<rparr>"
    by (auto simp: parse_def split: sum.splits)
  then show ?thesis
    using fs parse_field_Inr [of 0 59] parse_field_Inr [of 0 23] parse_field_Inr [of 1 31]
      parse_field_Inr [of 1 12] parse_field_dow by simp
qed

theorem parse_meaning_witness:
  "parse ''*/15 3 1,15 * 5-7'' =
     Inr \<lparr>minute_f = Some 35185445863425, hour_f = Some 8, dom_f = Some 32770,
          month_f = None, dow_f = Some 97\<rparr> \<and>
   (\<exists>f0 f1 f2 f3 f4. go_fields ''*/15 3 1,15 * 5-7'' = [f0, f1, f2, f3, f4])"
proof -
  have p: "parse ''*/15 3 1,15 * 5-7'' =
     Inr \<lparr>minute_f = Some 35185445863425, hour_f = Some 8, dom_f = Some 32770,
          month_f = None, dow_f = Some 97\<rparr>"
    by code_simp
  from parse_meaning [OF p] p show ?thesis by blast
qed

text \<open>
  The entry parser panics (a negative shift) exactly when adding the step to the last
  value it sets leaves the range of \<open>int\<close>; on every other accepted entry it returns the
  mask. A schedule such as \<^verbatim>\<open>1-59/9223372036854775807 * * * *\<close> is such an input.
\<close>

theorem parse_part_panics_iff:
  assumes "0 \<le> mn" "mx < 64"
  shows "parse_part part mn mx = Inl NegativeShift \<longleftrightarrow>
    (\<exists>lo hi st. part_range part mn mx = Some (lo, hi, st) \<and> 2 ^ 63 \<le> last_value lo hi st + st)"
proof (cases "part_range part mn mx")
  case None
  then show ?thesis using part_range_None by fastforce
next
  case (Some r)
  obtain lo hi st where r: "r = (lo, hi, st)" by (cases r)
  show ?thesis
  proof (cases "last_value lo hi st + st < 2 ^ 63")
    case True
    then obtain b where "parse_part part mn mx = Inr b"
      using parse_part_ok [OF assms Some [unfolded r]] by blast
    with True Some r show ?thesis by auto
  next
    case False
    then have "parse_part part mn mx = Inl NegativeShift"
      by (intro parse_part_panic [OF assms Some [unfolded r]]) simp
    with False Some r show ?thesis by auto
  qed
qed

theorem parse_part_panics_iff_witness:
  "parse_part ''1-59/9223372036854775807'' 0 59 = Inl NegativeShift \<and>
   parse ''1-59/9223372036854775807 * * * *'' = Inl NegativeShift \<and>
   part_range ''1-59/9223372036854775807'' 0 59 = Some (1, 59, 9223372036854775807)"
proof -
  have r: "part_range ''1-59/9223372036854775807'' 0 59 = Some (1, 59, 9223372036854775807)"
    by code_simp
  have "(2::int) ^ 63 \<le> last_value 1 59 9223372036854775807 + 9223372036854775807"
    by (simp add: last_value_def)
  with r have "parse_part ''1-59/9223372036854775807'' 0 59 = Inl NegativeShift"
    by (subst parse_part_panics_iff) auto
  moreover have "parse ''1-59/9223372036854775807 * * * *'' = Inl NegativeShift" by code_simp
  ultimately show ?thesis using r by simp
qed

text \<open>
  C5. \<open>Next\<close> returns the least instant strictly after its argument at which the
  schedule fires, and a fire always has whole-minute precision.
\<close>

theorem next_fire_least:
  assumes "next_fire s t = Some u"
  shows "fires s u \<and> t < u \<and> (\<forall>v. fires s v \<and> t < v \<longrightarrow> u \<le> v)"
  using scan_days_Some [OF assms [unfolded next_fire_def]] fires_after_origin by blast

theorem next_fire_least_witness:
  "next_fire \<lparr>minute_f = Some 1, hour_f = Some 16, dom_f = None, month_f = None, dow_f = None\<rparr> 0
     = Some 14400000000000 \<and>
   fires \<lparr>minute_f = Some 1, hour_f = Some 16, dom_f = None, month_f = None, dow_f = None\<rparr>
     14400000000000"
proof -
  have n: "next_fire \<lparr>minute_f = Some 1, hour_f = Some 16, dom_f = None, month_f = None, dow_f = None\<rparr> 0
     = Some 14400000000000"
    by code_simp
  from next_fire_least [OF n] n show ?thesis by simp
qed



end
