(* ===== verification/CronEmitter.thy ===== *)
theory CronEmitter
  imports Routing CronSchedule
begin

text \<open>
  Scheduled prompts (\<^verbatim>\<open>services/hub/internal/cron/emitter.go\<close>) and the loop that loads triggers and cron
  triggers from the database into memory (\<^verbatim>\<open>services/hub/cmd/hub/sync.go\<close>). A prompt is an event born in its
  agent's inbox, queued for the agent directly and carried along the bridges of the inbox.
\<close>

section \<open>Entries\<close>

record cron_entry =
  ce_id :: string
  ce_agent :: string
  ce_prompt :: string
  ce_schedule :: schedule
  ce_enabled :: bool
  ce_last :: instant
  ce_next :: "instant option"

type_synonym cron_entries = "(string \<times> cron_entry) list"

text \<open>The one error of the schedule parser that is a run-time panic, possibly inside the error of a field.\<close>

fun is_panic :: "cron_error \<Rightarrow> bool" where
  "is_panic (InField _ _ e) = is_panic e"
| "is_panic NegativeShift = True"
| "is_panic _ = False"

text \<open>\<open>Inl\<close> is a panic; a schedule that does not parse removes the entry.\<close>

definition cron_upsert :: "instant \<Rightarrow> cron_trigger \<Rightarrow> cron_entries \<Rightarrow> cron_error + cron_entries" where
  "cron_upsert now ct es =
     (case parse (ct_schedule ct) of
        Inl e \<Rightarrow> if is_panic e then Inl e else Inr (adel (ct_id ct) es)
      | Inr s \<Rightarrow>
          let last = (case map_of es (ct_id ct) of None \<Rightarrow> now | Some prev \<Rightarrow> ce_last prev)
          in Inr (aput (ct_id ct)
               \<lparr>ce_id = ct_id ct, ce_agent = ct_agent_ref ct, ce_prompt = ct_prompt ct, ce_schedule = s,
                ce_enabled = ct_enabled ct, ce_last = last, ce_next = next_fire s last\<rparr> es))"

definition cron_delete :: "string \<Rightarrow> cron_entries \<Rightarrow> cron_entries" where
  "cron_delete i es = adel i es"

definition cron_keys :: "cron_entries \<Rightarrow> string list" where
  "cron_keys es = map fst es"

definition entry_count :: "cron_entries \<Rightarrow> nat" where
  "entry_count es = length es"



section \<open>Firing\<close>

text \<open>
  JSON strings as \<^verbatim>\<open>encoding/json\<close> writes them, for ASCII text: quotes, backslashes, control characters and the
  three HTML characters are escaped.
\<close>

definition json_escape :: "char \<Rightarrow> string" where
  "json_escape c =
     (if c = CHR 0x22 then [CHR 0x5C, CHR 0x22]
      else if c = CHR 0x5C then [CHR 0x5C, CHR 0x5C]
      else if c = CHR 0x08 then [CHR 0x5C, CHR ''b'']
      else if c = CHR 0x0C then [CHR 0x5C, CHR ''f'']
      else if c = CHR 0x0A then [CHR 0x5C, CHR ''n'']
      else if c = CHR 0x0D then [CHR 0x5C, CHR ''r'']
      else if c = CHR 0x09 then [CHR 0x5C, CHR ''t'']
      else if (of_char c :: nat) < 32 \<or> c \<in> {CHR ''<'', CHR ''>'', CHR ''&''}
        then [CHR 0x5C] @ ''u00'' @ [hex_digit (of_char c div 16), hex_digit (of_char c mod 16)]
      else [c])"

definition json_quote :: "string \<Rightarrow> string" where
  "json_quote s = [CHR 0x22] @ concat (map json_escape s) @ [CHR 0x22]"

text \<open>The data of a cron event and its text; Go writes the keys of a map in sorted order.\<close>

definition cron_data :: "cron_entry \<Rightarrow> json" where
  "cron_data en = JObj [(''cronTrigger'', JStr (ce_id en)), (''prompt'', JStr (ce_prompt en))]"

definition cron_raw :: "cron_entry \<Rightarrow> string" where
  "cron_raw en = ''{'' @ json_quote ''cronTrigger'' @ '':'' @ json_quote (ce_id en) @ '','' @
     json_quote ''prompt'' @ '':'' @ json_quote (ce_prompt en) @ ''}''"

text \<open>
  The emitter: its entries, the stores it shares with the router, whether the channel
  registry and the transfer step are wired, and the counter of fires.
\<close>

record emitter =
  em_entries :: cron_entries
  em_hub :: hub
  em_wired :: bool
  em_fires :: nat

text \<open>
  The surroundings of one fire: the drawn event id and channel id, the outcomes of the
  inbox lookup, of the INSERT and the mark, the dispatch to the agent, and the transfer;
  \<open>cv_meanwhile\<close> is what the sync loop does to the entries while the event is published.
\<close>

record cron_env =
  cv_event :: string
  cv_channel :: string
  cv_inbox :: pg
  cv_insert :: bool
  cv_mark :: bool
  cv_dispatch :: dispatch_env
  cv_walk :: bool
  cv_bridges :: "nat \<Rightarrow> dispatch_env"
  cv_meanwhile :: "cron_entries \<Rightarrow> cron_entries"

definition cron_headers :: headers where
  "cron_headers = [(''type'', source_cron)]"

text \<open>The birth channel of the event, empty when the inbox cannot be resolved.\<close>

definition resolve_inbox :: "cron_env \<Rightarrow> string \<Rightarrow> bool \<Rightarrow> hub \<Rightarrow> string \<times> hub" where
  "resolve_inbox v agent wired h =
     (if \<not> wired then ([], h)
      else (case inbox_channel_for (cv_inbox v) (cv_channel v) (dv_now (cv_dispatch v)) agent (hb_channels h) of
              (Inl _, db) \<Rightarrow> ([], h\<lparr>hb_channels := db\<rparr>)
            | (Inr c, db) \<Rightarrow> (c, h\<lparr>hb_channels := db\<rparr>)))"

definition transfer_from_inbox :: "cron_env \<Rightarrow> cron_entry \<Rightarrow> string \<Rightarrow> bool \<Rightarrow> hub \<Rightarrow> hub" where
  "transfer_from_inbox v en birth wired h =
     (if \<not> wired \<or> birth = [] then h
      else snd (transfer_apply (cv_walk v) (cv_bridges v)
             \<lparr>ti_event = cv_event v, ti_birth = birth, ti_source = source_cron, ti_headers = cron_headers,
              ti_payload = Some (cron_data en), ti_delivered = [ce_agent en]\<rparr> h))"

definition cron_task :: "cron_env \<Rightarrow> cron_entry \<Rightarrow> string \<Rightarrow> task" where
  "cron_task v en i =
     dispatch_task (cv_event v) (ce_agent en) (ce_id en) i
       (stamp_invocation i [(''type'', source_cron), (header_trigger_name, ce_id en)]) (Some (cron_data en))"

definition publish :: "cron_env \<Rightarrow> cron_entry \<Rightarrow> string \<Rightarrow> bool \<Rightarrow> hub \<Rightarrow> (string + unit) \<times> hub" where
  "publish v en i wired h =
     (case resolve_inbox v (ce_agent en) wired h of
        (birth, h1) \<Rightarrow>
     (case insert_event (channel_exists (hb_channels h1)) (\<lambda>_. cv_insert v) (dv_now (cv_dispatch v))
             \<lparr>qe_id = cv_event v, qe_connector = source_cron, qe_channel = birth, qe_headers = Some cron_headers,
              qe_data = Some (cron_data en), qe_raw = cron_raw en, qe_received = None\<rparr> (hb_queue h1) of
        (Inl e, q) \<Rightarrow> (Inl (''insert cron event: '' @ e), h1\<lparr>hb_queue := q\<rparr>)
      | (Inr _, q1) \<Rightarrow>
     (case mark_routed (\<lambda>_. cv_mark v) (dv_now (cv_dispatch v)) (cv_event v) q1 of
        (Inl e, q) \<Rightarrow> (Inl (''mark cron event routed: '' @ e), h1\<lparr>hb_queue := q\<rparr>)
      | (Inr _, q2) \<Rightarrow>
     (case enqueue_task (dv_enqueue (cv_dispatch v)) (dv_now (cv_dispatch v)) (cron_task v en i) q2 of
        (Inl e, q) \<Rightarrow> (Inl (''enqueue cron task for agent '' @ ce_agent en @ '': '' @ e), h1\<lparr>hb_queue := q\<rparr>)
      | (Inr _, q3) \<Rightarrow> (Inr (), transfer_from_inbox v en birth wired (h1\<lparr>hb_queue := q3\<rparr>))))))"

text \<open>The entry that was due is a snapshot; the entry that is advanced is the one the map holds afterwards.\<close>

definition advance_entry :: "instant \<Rightarrow> string \<Rightarrow> cron_entries \<Rightarrow> cron_entries" where
  "advance_entry t i es =
     map (\<lambda>(k, en). if k = i then (k, en\<lparr>ce_last := t, ce_next := next_fire (ce_schedule en) t\<rparr>) else (k, en)) es"

definition fire_entry :: "cron_env \<Rightarrow> cron_entry \<Rightarrow> emitter \<Rightarrow> emitter" where
  "fire_entry v en m =
     (case next_fire (ce_schedule en) (ce_last en) of
        None \<Rightarrow> m
      | Some t \<Rightarrow>
          (case begin_dispatch (cv_dispatch v) (ce_agent en) (ce_id en) (cv_event v) source_cron
                  (hb_invocations (em_hub m)) of
             (i, invs) \<Rightarrow>
               (case publish v en i (em_wired m) ((em_hub m)\<lparr>hb_invocations := invs\<rparr>) of
                  (Inl e, h) \<Rightarrow>
                    m\<lparr>em_hub := bump (\<lambda>c. c\<lparr>mt_errors := Suc (mt_errors c)\<rparr>)
                        (h\<lparr>hb_invocations := fail_dispatch (cv_dispatch v) i (''cron publish failed: '' @ e) (hb_invocations h)\<rparr>),
                      em_entries := cv_meanwhile v (em_entries m)\<rparr>
                | (Inr _, h) \<Rightarrow>
                    m\<lparr>em_hub := h, em_fires := Suc (em_fires m),
                      em_entries := advance_entry t (ce_id en) (cv_meanwhile v (em_entries m))\<rparr>)))"



section \<open>The sync loop\<close>

fun upsert_all :: "instant \<Rightarrow> cron_trigger list \<Rightarrow> cron_entries \<Rightarrow> cron_error + cron_entries" where
  "upsert_all now [] es = Inr es"
| "upsert_all now (ct # cts) es =
     (case cron_upsert now ct es of Inl e \<Rightarrow> Inl e | Inr es' \<Rightarrow> upsert_all now cts es')"

definition sync_index :: "pg \<Rightarrow> trigger_db \<Rightarrow> index \<Rightarrow> index" where
  "sync_index pg db idx =
     (case list_triggers pg [] [] db of
        Inl _ \<Rightarrow> idx
      | Inr ts \<Rightarrow>
          let idx1 = fold (\<lambda>t i. index_update i t) ts idx
          in fold (\<lambda>k i. if k \<in> set (map tr_id ts) then i else index_delete i k) (index_keys idx1) idx1)"

definition sync_entries :: "pg \<Rightarrow> instant \<Rightarrow> trigger_db \<Rightarrow> cron_entries \<Rightarrow> cron_error + cron_entries" where
  "sync_entries pg now db es =
     (case list_cron_triggers pg [] db of
        Inl _ \<Rightarrow> Inr es
      | Inr cts \<Rightarrow>
          (case upsert_all now cts es of
             Inl e \<Rightarrow> Inl e
           | Inr es1 \<Rightarrow>
               Inr (fold (\<lambda>k i. if k \<in> set (map ct_id cts) then i else cron_delete k i) (cron_keys es1) es1)))"

definition sync_triggers_from_db ::
  "pg \<Rightarrow> pg \<Rightarrow> instant \<Rightarrow> trigger_db \<Rightarrow> index \<times> cron_entries \<Rightarrow> index \<times> (cron_error + cron_entries)" where
  "sync_triggers_from_db pg1 pg2 now db m = (sync_index pg1 db (fst m), sync_entries pg2 now db (snd m))"

section \<open>Publishing\<close>

lemma resolve_inbox_channel:
  assumes "resolve_inbox v agent wired h = (birth, h1)"
  shows "birth = [] \<or> (\<exists>r \<in> set (cdb_channels (hb_channels h1)). cr_id r = birth \<and> owns_entity kind_agent agent r)"
    "birth = [] \<or> channel_exists (hb_channels h1) birth" "hb_queue h1 = hb_queue h" "hb_invocations h1 = hb_invocations h"
proof -
  show own: "birth = [] \<or> (\<exists>r \<in> set (cdb_channels (hb_channels h1)). cr_id r = birth \<and> owns_entity kind_agent agent r)"
    using assms by (auto simp: resolve_inbox_def split: if_splits prod.splits sum.splits dest!: inbox_channel_for_owner)
  then show "birth = [] \<or> channel_exists (hb_channels h1) birth" by (auto simp: channel_exists_def has_row_image)
  show "hb_queue h1 = hb_queue h" "hb_invocations h1 = hb_invocations h"
    using assms by (auto simp: resolve_inbox_def split: if_splits prod.splits sum.splits)
qed

text \<open>The transfer leaves the deliveries made so far, and everything else of the queue, alone.\<close>

lemma transfer_apply_keeps:
  "inboxes (hb_queue h) \<subseteq> inboxes (hb_queue (snd (transfer_apply ok env inp h)))"
  "q_events (hb_queue (snd (transfer_apply ok env inp h))) = q_events (hb_queue h)"
  "queue_wf (hb_queue h) \<Longrightarrow> queue_wf (hb_queue (snd (transfer_apply ok env inp h)))"
proof -
  consider "snd (transfer_apply ok env inp h) = h"
    | ds where "snd (transfer_apply ok env inp h) = snd (fan_out (transfer_one inp) env 0 ds h)"
  proof (cases "ti_birth inp = []")
    case False
    show thesis
    proof (cases "service_deliveries ok (ti_birth inp) (ti_delivered inp) (hb_channels h)")
      case (Inr ds)
      with False show thesis by (intro that(2) [of ds]) (simp add: transfer_apply_def split: prod.split)
    qed (intro that(1), simp add: transfer_apply_def False)
  qed (intro that(1), simp add: transfer_apply_def)
  then have "inboxes (hb_queue h) \<subseteq> inboxes (hb_queue (snd (transfer_apply ok env inp h))) \<and>
      q_events (hb_queue (snd (transfer_apply ok env inp h))) = q_events (hb_queue h) \<and>
      (queue_wf (hb_queue h) \<longrightarrow> queue_wf (hb_queue (snd (transfer_apply ok env inp h))))"
    by cases (use bridged.fan_out_inbox bridged.fan_out_store in auto)
  then show "inboxes (hb_queue h) \<subseteq> inboxes (hb_queue (snd (transfer_apply ok env inp h)))"
    "q_events (hb_queue (snd (transfer_apply ok env inp h))) = q_events (hb_queue h)"
    "queue_wf (hb_queue h) \<Longrightarrow> queue_wf (hb_queue (snd (transfer_apply ok env inp h)))"
    by blast+
qed

lemma transfer_from_inbox_keeps:
  "inboxes (hb_queue h) \<subseteq> inboxes (hb_queue (transfer_from_inbox v en birth wired h))"
  "q_events (hb_queue (transfer_from_inbox v en birth wired h)) = q_events (hb_queue h)"
  "queue_wf (hb_queue h) \<Longrightarrow> queue_wf (hb_queue (transfer_from_inbox v en birth wired h))"
  by (auto simp: transfer_from_inbox_def transfer_apply_keeps subset_eq intro: transfer_apply_keeps(1) [THEN subsetD])

text \<open>The event a fire stores.\<close>

definition stored_event :: "cron_env \<Rightarrow> cron_entry \<Rightarrow> string \<Rightarrow> queue \<Rightarrow> queue" where
  "stored_event v en birth q = q\<lparr>q_events := q_events q @
     [\<lparr>er_id = cv_event v, er_connector = source_cron, er_channel = nil_if_empty birth, er_headers = cron_headers,
       er_data = cron_data en, er_raw = cron_raw en, er_received = dv_now (cv_dispatch v),
       er_routed = Some (dv_now (cv_dispatch v))\<rparr>]\<rparr>"

text \<open>Up to the enqueue a publish cannot fail when the event is new and its two statements go through.\<close>

lemma publish_reaches_enqueue:
  assumes "cv_insert v" "cv_mark v" "\<not> has_row er_id (cv_event v) (q_events (hb_queue h))"
    and "resolve_inbox v (ce_agent en) wired h = (birth, h1)"
  shows "publish v en i wired h =
    (case enqueue_task (dv_enqueue (cv_dispatch v)) (dv_now (cv_dispatch v)) (cron_task v en i)
            (stored_event v en birth (hb_queue h)) of
       (Inl e, q) \<Rightarrow> (Inl (''enqueue cron task for agent '' @ ce_agent en @ '': '' @ e), h1\<lparr>hb_queue := q\<rparr>)
     | (Inr _, q3) \<Rightarrow> (Inr (), transfer_from_inbox v en birth wired (h1\<lparr>hb_queue := q3\<rparr>)))"
proof -
  note R = resolve_inbox_channel [OF assms(4)]
  let ?evt = "\<lparr>qe_id = cv_event v, qe_connector = source_cron, qe_channel = birth, qe_headers = Some cron_headers,
    qe_data = Some (cron_data en), qe_raw = cron_raw en, qe_received = None\<rparr>"
  let ?row = "\<lparr>er_id = cv_event v, er_connector = source_cron, er_channel = nil_if_empty birth, er_headers = cron_headers,
    er_data = cron_data en, er_raw = cron_raw en, er_received = dv_now (cv_dispatch v), er_routed = None\<rparr>"
  have "\<not> (case nil_if_empty birth of None \<Rightarrow> False | Some c \<Rightarrow> \<not> channel_exists (hb_channels h1) c)"
    using R(2) by (auto simp: nil_if_empty_def split: if_splits)
  then have ins: "insert_event (channel_exists (hb_channels h1)) (\<lambda>_. cv_insert v) (dv_now (cv_dispatch v)) ?evt (hb_queue h1) =
      (Inr (), (hb_queue h)\<lparr>q_events := q_events (hb_queue h) @ [?row]\<rparr>)"
    using assms(1,3) R(3) by (simp add: insert_event_def)
  have "update_where (\<lambda>r. er_id r = cv_event v) f (q_events (hb_queue h)) = q_events (hb_queue h)" for f
    using assms(3) by (intro update_where_none) (metis has_row_image image_eqI)
  then have mark: "mark_routed (\<lambda>_. cv_mark v) (dv_now (cv_dispatch v)) (cv_event v)
      ((hb_queue h)\<lparr>q_events := q_events (hb_queue h) @ [?row]\<rparr>) = (Inr (), stored_event v en birth (hb_queue h))"
    using assms(2) by (simp add: mark_routed_def stored_event_def update_where_def)
  show ?thesis
    by (simp only: publish_def assms(4) prod.case ins mark sum.case)
qed

lemma cron_task_fields [simp]:
  "t_event (cron_task v en i) = cv_event v" "t_agent (cron_task v en i) = ce_agent en"
  "t_headers (cron_task v en i) \<noteq> None" "t_payload (cron_task v en i) = Some (cron_data en)"
  by (simp_all add: cron_task_def)

lemma stored_event_wf:
  assumes "queue_wf q" "\<not> has_row er_id (cv_event v) (q_events q)"
  shows "queue_wf (stored_event v en birth q)"
  using assms by (auto simp: queue_wf_def stored_event_def has_row_image)

lemma storable_cron: "storable (cron_task v en i) (stored_event v en birth q)"
  by (auto simp: storable_def stored_event_def has_row_image)

text \<open>Surroundings in which a fire goes through.\<close>

definition cron_calm :: "cron_env \<Rightarrow> bool" where
  "cron_calm v \<longleftrightarrow> cv_insert v \<and> cv_mark v \<and> calm (cv_dispatch v) \<and> cv_meanwhile v = (\<lambda>es. es)"

lemma publish_calm:
  assumes "cron_calm v" "\<not> has_row er_id (cv_event v) (q_events (hb_queue h))"
  obtains h' birth where "publish v en i wired h = (Inr (), h')" "(cv_event v, ce_agent en) \<in> inboxes (hb_queue h')"
    "inboxes (hb_queue h) \<subseteq> inboxes (hb_queue h')"
    "q_events (hb_queue h') = q_events (stored_event v en birth (hb_queue h))"
    "queue_wf (hb_queue h) \<Longrightarrow> queue_wf (hb_queue h')"
proof -
  obtain birth h1 where r: "resolve_inbox v (ce_agent en) wired h = (birth, h1)" by fastforce
  let ?e = "enqueue_task (dv_enqueue (cv_dispatch v)) (dv_now (cv_dispatch v)) (cron_task v en i) (stored_event v en birth (hb_queue h))"
  have ok: "fst ?e = Inr ()"
    using assms(1) enqueue_calm [OF storable_cron] by (simp add: cron_calm_def calm_def)
  let ?h = "transfer_from_inbox v en birth wired (h1\<lparr>hb_queue := snd ?e\<rparr>)"
  show thesis
  proof (rule that [of ?h birth])
    show "publish v en i wired h = (Inr (), ?h)"
      using publish_reaches_enqueue [OF _ _ assms(2) r] assms(1) ok
      by (cases ?e) (simp add: cron_calm_def)
    show "(cv_event v, ce_agent en) \<in> inboxes (hb_queue ?h)"
      using enqueue_good [OF ok] transfer_from_inbox_keeps(1) [of "h1\<lparr>hb_queue := snd ?e\<rparr>" v en birth wired] by auto
    show "inboxes (hb_queue h) \<subseteq> inboxes (hb_queue ?h)"
      using enqueue_inboxes [of "stored_event v en birth (hb_queue h)"]
        transfer_from_inbox_keeps(1) [of "h1\<lparr>hb_queue := snd ?e\<rparr>" v en birth wired]
      by (fastforce simp: inboxes_def stored_event_def)
    show "q_events (hb_queue ?h) = q_events (stored_event v en birth (hb_queue h))"
      by (simp add: transfer_from_inbox_keeps(2) enqueue_events)
    show "queue_wf (hb_queue h) \<Longrightarrow> queue_wf (hb_queue ?h)"
      by (intro transfer_from_inbox_keeps(3)) (simp add: enqueue_task_wf stored_event_wf assms(2))
  qed
qed

section \<open>Ticks\<close>



lemma fire_entry_calm:
  assumes "cron_calm v" "\<not> has_row er_id (cv_event v) (q_events (hb_queue (em_hub m)))"
    and "next_fire (ce_schedule en) (ce_last en) = Some t"
  shows "em_fires (fire_entry v en m) = Suc (em_fires m)"
    "em_entries (fire_entry v en m) = advance_entry t (ce_id en) (em_entries m)"
    "(cv_event v, ce_agent en) \<in> inboxes (hb_queue (em_hub (fire_entry v en m)))"
    "inboxes (hb_queue (em_hub m)) \<subseteq> inboxes (hb_queue (em_hub (fire_entry v en m)))"
    "er_id ` set (q_events (hb_queue (em_hub (fire_entry v en m)))) =
       insert (cv_event v) (er_id ` set (q_events (hb_queue (em_hub m))))"
    "queue_wf (hb_queue (em_hub m)) \<Longrightarrow> queue_wf (hb_queue (em_hub (fire_entry v en m)))"
proof -
  obtain i invs where b: "begin_dispatch (cv_dispatch v) (ce_agent en) (ce_id en) (cv_event v) source_cron
      (hb_invocations (em_hub m)) = (i, invs)" by fastforce
  let ?h = "(em_hub m)\<lparr>hb_invocations := invs\<rparr>"
  have "\<not> has_row er_id (cv_event v) (q_events (hb_queue ?h))" using assms(2) by simp
  then obtain h' birth where h': "publish v en i (em_wired m) ?h = (Inr (), h')"
    "(cv_event v, ce_agent en) \<in> inboxes (hb_queue h')" "inboxes (hb_queue ?h) \<subseteq> inboxes (hb_queue h')"
    "q_events (hb_queue h') = q_events (stored_event v en birth (hb_queue ?h))"
    "queue_wf (hb_queue ?h) \<Longrightarrow> queue_wf (hb_queue h')"
    using publish_calm [OF assms(1), of ?h en i "em_wired m"] by metis
  have f: "fire_entry v en m = m\<lparr>em_hub := h', em_fires := Suc (em_fires m),
      em_entries := advance_entry t (ce_id en) (em_entries m)\<rparr>"
    using assms(1,3) b h'(1) by (simp add: fire_entry_def cron_calm_def)
  show "em_fires (fire_entry v en m) = Suc (em_fires m)"
    "em_entries (fire_entry v en m) = advance_entry t (ce_id en) (em_entries m)"
    "(cv_event v, ce_agent en) \<in> inboxes (hb_queue (em_hub (fire_entry v en m)))"
    "inboxes (hb_queue (em_hub m)) \<subseteq> inboxes (hb_queue (em_hub (fire_entry v en m)))"
    "er_id ` set (q_events (hb_queue (em_hub (fire_entry v en m)))) =
       insert (cv_event v) (er_id ` set (q_events (hb_queue (em_hub m))))"
    "queue_wf (hb_queue (em_hub m)) \<Longrightarrow> queue_wf (hb_queue (em_hub (fire_entry v en m)))"
    using h'(2-5) by (simp_all add: f stored_event_def)
qed


definition entries_wf :: "cron_entries \<Rightarrow> bool" where
  "entries_wf es \<longleftrightarrow> distinct (map fst es) \<and> (\<forall>(k, en) \<in> set es. ce_id en = k)"





definition sample_cron_env :: "nat \<Rightarrow> cron_env" where
  "sample_cron_env i =
     \<lparr>cv_event = ''cron-'' @ replicate i CHR ''0'', cv_channel = ''inbox'', cv_inbox = all_ok, cv_insert = True, cv_mark = True,
      cv_dispatch = smooth (''inv-'' @ replicate i CHR ''0'') 9, cv_walk = True, cv_bridges = (\<lambda>n. smooth ''b'' 9),
      cv_meanwhile = (\<lambda>es. es)\<rparr>"

text \<open>An entry that fires every minute, last fired at the epoch.\<close>

definition minutely :: cron_entry where
  "minutely = \<lparr>ce_id = ''report'', ce_agent = ''bot'', ce_prompt = ''go'',
     ce_schedule = \<lparr>minute_f = None, hour_f = None, dom_f = None, month_f = None, dow_f = None\<rparr>,
     ce_enabled = True, ce_last = 0, ce_next = None\<rparr>"

definition sample_emitter :: emitter where
  "sample_emitter = \<lparr>em_entries = [(''report'', minutely)], em_hub = sample_hub, em_wired = True, em_fires = 0\<rparr>"

lemma sample_emitter_ok:
  "entries_wf (em_entries sample_emitter)" "\<And>i. cron_calm (sample_cron_env i)" "inj (\<lambda>i. cv_event (sample_cron_env i))"
  "\<And>i. \<not> has_row er_id (cv_event (sample_cron_env i)) (q_events (hb_queue (em_hub sample_emitter)))"
proof -
  have "i = j" if "replicate i c = replicate j c" for i j and c :: char using arg_cong [OF that, of length] by simp
  then show "inj (\<lambda>i. cv_event (sample_cron_env i))" by (auto simp: inj_def sample_cron_env_def)
qed (simp_all add: entries_wf_def sample_emitter_def minutely_def cron_calm_def calm_def smooth_def sample_cron_env_def
    sample_hub_def born_event_def sample_event_def insert_event_def empty_queue_def has_row_def nil_if_empty_def)


text \<open>
  When only the notification of a queued cron task fails, the task stays in the queue but the
  fire counts as failed and the entry is not advanced: the next tick fires the same
  scheduled instant once more, and the agent has two tasks for it.
\<close>

theorem lost_notification_fires_twice:
  assumes "next_fire (ce_schedule en) (ce_last en) = Some t" "cv_insert v" "cv_mark v" "cv_meanwhile v = (\<lambda>es. es)"
    and "dv_enqueue (cv_dispatch v) = (\<lambda>i. i = 0)" "\<not> has_row er_id (cv_event v) (q_events (hb_queue (em_hub m)))"
    and "cron_calm v'" "cv_event v' \<noteq> cv_event v" "\<not> has_row er_id (cv_event v') (q_events (hb_queue (em_hub m)))"
  shows "let m1 = fire_entry v en m; m2 = fire_entry v' en m1 in
    em_entries m1 = em_entries m \<and> em_fires m1 = em_fires m \<and>
    {(cv_event v, ce_agent en), (cv_event v', ce_agent en)} \<subseteq> inboxes (hb_queue (em_hub m2)) \<and>
    em_entries m2 = advance_entry t (ce_id en) (em_entries m)"
proof -
  obtain i invs where b: "begin_dispatch (cv_dispatch v) (ce_agent en) (ce_id en) (cv_event v) source_cron
      (hb_invocations (em_hub m)) = (i, invs)" by fastforce
  let ?h = "(em_hub m)\<lparr>hb_invocations := invs\<rparr>"
  obtain birth h1 where r: "resolve_inbox v (ce_agent en) (em_wired m) ?h = (birth, h1)" by fastforce
  let ?q = "stored_event v en birth (hb_queue ?h)"
  let ?e = "enqueue_task (dv_enqueue (cv_dispatch v)) (dv_now (cv_dispatch v)) (cron_task v en i) ?q"
  obtain msg where e: "fst ?e = Inl msg" "(cv_event v, ce_agent en) \<in> inboxes (snd ?e)" "q_events (snd ?e) = q_events ?q"
  proof -
    have st: "has_row er_id (cv_event v) (q_events ?q)" by (simp add: stored_event_def has_row_image)
    obtain hs p where hp: "t_headers (cron_task v en i) = Some hs" "t_payload (cron_task v en i) = Some p"
      by (simp add: cron_task_def)
    have "\<exists>msg. fst ?e = Inl msg" using hp st assms(5) by (auto simp: enqueue_task_def Let_def notify_agent_def)
    moreover have "(cv_event v, ce_agent en) \<in> inboxes (snd ?e)"
      using hp st assms(5)
      by (auto simp: enqueue_task_def Let_def inboxes_def same_delivery_iff new_task_row_def delivery_of_def)
    ultimately show thesis using that enqueue_events by blast
  qed
  have "\<not> has_row er_id (cv_event v) (q_events (hb_queue ?h))" using assms(6) by simp
  note pub = publish_reaches_enqueue [OF assms(2,3) this r, of i]
  define m1 where "m1 = fire_entry v en m"
  have m1: "em_entries m1 = em_entries m" "em_fires m1 = em_fires m" "hb_queue (em_hub m1) = snd ?e"
    using b pub e(1) assms(1,4) by (cases ?e; simp add: m1_def fire_entry_def)+
  have "\<not> has_row er_id (cv_event v') (q_events (hb_queue (em_hub m1)))"
    using assms(8,9) unfolding m1(3) e(3) by (simp add: stored_event_def has_row_image)
  note F = fire_entry_calm [OF assms(7) this assms(1)]
  have "(cv_event v, ce_agent en) \<in> inboxes (hb_queue (em_hub (fire_entry v' en m1)))"
    using e(2) F(4) m1(3) by auto
  then show ?thesis using F(2,3) m1 by (simp add: Let_def m1_def [symmetric])
qed

theorem lost_notification_fires_twice_witness:
  "let v = (sample_cron_env 0)\<lparr>cv_dispatch := (smooth ''i0'' 9)\<lparr>dv_enqueue := \<lambda>i. i = 0\<rparr>\<rparr>;
       m2 = fire_entry (sample_cron_env 1) minutely (fire_entry v minutely sample_emitter) in
     {(''cron-'', ''bot''), (''cron-0'', ''bot'')} \<subseteq> inboxes (hb_queue (em_hub m2)) \<and> em_fires m2 = 1"
proof -
  let ?v = "(sample_cron_env 0)\<lparr>cv_dispatch := (smooth ''i0'' 9)\<lparr>dv_enqueue := \<lambda>i. i = 0\<rparr>\<rparr>"
  have n: "next_fire (ce_schedule minutely) (ce_last minutely) = Some minute_ns"
  proof -
    have "(case next_fire (ce_schedule minutely) (ce_last minutely) of None \<Rightarrow> False | Some t \<Rightarrow> t = minute_ns)" by code_simp
    then show ?thesis by (auto split: option.splits)
  qed
  have v: "cv_insert ?v" "cv_mark ?v" "cv_meanwhile ?v = (\<lambda>es. es)" "dv_enqueue (cv_dispatch ?v) = (\<lambda>i. i = 0)"
    "cv_event ?v = ''cron-''" "cv_event (sample_cron_env (Suc 0)) = ''cron-0''" "ce_agent minutely = ''bot''"
    by (simp_all add: sample_cron_env_def smooth_def minutely_def)
  have fresh: "\<not> has_row er_id (cv_event ?v) (q_events (hb_queue (em_hub sample_emitter)))"
    using sample_emitter_ok(4) [of 0] by (simp add: sample_cron_env_def)
  have "em_fires (fire_entry (sample_cron_env 1) minutely (fire_entry ?v minutely sample_emitter)) = 1" by code_simp
  then show ?thesis
    using lost_notification_fires_twice [OF n v(1-4) fresh sample_emitter_ok(2) [of 1] _ sample_emitter_ok(4) [of 1]] v(5-7)
    by (simp add: Let_def)
qed

section \<open>Loading the database\<close>

lemma lookup_row_sort:
  assumes "distinct (map key rows)"
  shows "lookup_row key i (sort_key f rows) = lookup_row key i rows"
proof (cases "lookup_row key i rows")
  case None
  then have "lookup_row key i (sort_key f rows) = None" by (simp add: lookup_row_None_iff)
  with None show ?thesis by simp
next
  case (Some r)
  then have r: "r \<in> set (sort_key f rows)" "key r = i" using lookup_row_SomeD [OF Some] by auto
  have "mset (map key (sort_key f rows)) = mset (map key rows)" by simp
  then have "distinct (map key (sort_key f rows))" using assms by (metis mset_eq_imp_distinct_iff)
  then show ?thesis using lookup_row_distinct r Some by metis
qed

lemma map_of_fold_delete:
  "map_of (fold (\<lambda>k m. if k \<in> S then m else adel k m) ks m) i = (if i \<in> set ks \<and> i \<notin> S then None else map_of m i)"
  by (induction ks arbitrary: m) auto

lemma map_of_fold_update:
  assumes "distinct (map key xs)" "\<And>x m. map_of (put x m) = (map_of m)(key x := f (key x) x (map_of m (key x)))"
  shows "map_of (fold put xs m) i = (case lookup_row key i xs of None \<Rightarrow> map_of m i | Some x \<Rightarrow> f i x (map_of m i))"
  using assms(1)
proof (induction xs arbitrary: m)
  case (Cons x xs)
  have "lookup_row key (key x) xs = None" using Cons.prems by (simp add: lookup_row_None_iff)
  then show ?case using Cons by (cases "lookup_row key i xs") (auto simp: assms(2) sql_simps)
qed (simp add: sql_simps)

lemma index_update_map: "map_of (index_update idx t) = (map_of idx)(tr_id t \<mapsto> t)"
proof -
  have "index_update idx t = aput (tr_id t) t idx" unfolding index_update_def by (cases t) simp
  then show ?thesis by simp
qed

lemma keys_iff: "k \<in> set (map fst m) \<longleftrightarrow> map_of m k \<noteq> None"
  by (simp add: map_of_eq_None_iff)

lemma sync_index_map:
  assumes "distinct (map tr_id (trigger_rows db))"
  shows "map_of (sync_index all_ok db idx) i = lookup_row tr_id i (trigger_rows db)"
proof -
  let ?ts = "sort_key tr_id (trigger_rows db)" and ?idx = "fold (\<lambda>t i. index_update i t) (sort_key tr_id (trigger_rows db)) idx"
  have "mset (map tr_id ?ts) = mset (map tr_id (trigger_rows db))" by simp
  then have d: "distinct (map tr_id ?ts)" using assms by (metis mset_eq_imp_distinct_iff)
  have up: "map_of ?idx i = (case lookup_row tr_id i (trigger_rows db) of None \<Rightarrow> map_of idx i | Some t \<Rightarrow> Some t)" for i
    using map_of_fold_update [OF d, of "\<lambda>t i. index_update i t" "\<lambda>_ t _. Some t" idx i]
    by (simp add: index_update_map lookup_row_sort [OF assms])
  have "sync_index all_ok db idx = fold (\<lambda>k i. if k \<in> tr_id ` set (trigger_rows db) then i else adel k i) (map fst ?idx) ?idx"
    unfolding sync_index_def list_triggers_def index_delete_def index_keys_def Let_def by simp
  then have "map_of (sync_index all_ok db idx) i =
      (if map_of ?idx i \<noteq> None \<and> i \<notin> tr_id ` set (trigger_rows db) then None else map_of ?idx i)"
    by (simp only: map_of_fold_delete keys_iff)
  then show ?thesis by (auto simp: up lookup_row_None_iff [symmetric] split: option.splits)
qed

text \<open>The entry the emitter keeps for a cron trigger; the time of its last fire survives.\<close>

definition entry_of :: "instant \<Rightarrow> cron_trigger \<Rightarrow> cron_entry option \<Rightarrow> cron_entry option" where
  "entry_of now ct prev =
     (case parse (ct_schedule ct) of
        Inl _ \<Rightarrow> None
      | Inr s \<Rightarrow>
          let last = (case prev of None \<Rightarrow> now | Some en \<Rightarrow> ce_last en) in
          Some \<lparr>ce_id = ct_id ct, ce_agent = ct_agent_ref ct, ce_prompt = ct_prompt ct, ce_schedule = s,
                ce_enabled = ct_enabled ct, ce_last = last, ce_next = next_fire s last\<rparr>)"

definition schedule_panics :: "cron_trigger \<Rightarrow> bool" where
  "schedule_panics ct \<longleftrightarrow> (case parse (ct_schedule ct) of Inl e \<Rightarrow> is_panic e | Inr _ \<Rightarrow> False)"

lemma cron_upsert_map:
  assumes "\<not> schedule_panics ct"
  shows "\<exists>es'. cron_upsert now ct es = Inr es' \<and> map_of es' = (map_of es)(ct_id ct := entry_of now ct (map_of es (ct_id ct)))"
  using assms by (auto simp: cron_upsert_def schedule_panics_def entry_of_def Let_def split: sum.splits)

lemma upsert_all_map:
  assumes "\<forall>ct \<in> set cts. \<not> schedule_panics ct" "distinct (map ct_id cts)"
  shows "\<exists>es'. upsert_all now cts es = Inr es' \<and>
    (\<forall>i. map_of es' i = (case lookup_row ct_id i cts of None \<Rightarrow> map_of es i | Some ct \<Rightarrow> entry_of now ct (map_of es i)))"
  using assms
proof (induction cts arbitrary: es)
  case (Cons ct cts)
  obtain es1 where e1: "cron_upsert now ct es = Inr es1" "map_of es1 = (map_of es)(ct_id ct := entry_of now ct (map_of es (ct_id ct)))"
    using cron_upsert_map Cons.prems(1) by fastforce
  obtain es2 where e2: "upsert_all now cts es1 = Inr es2"
    "\<And>i. map_of es2 i = (case lookup_row ct_id i cts of None \<Rightarrow> map_of es1 i | Some ct \<Rightarrow> entry_of now ct (map_of es1 i))"
    using Cons.IH [of es1] Cons.prems by auto
  have "lookup_row ct_id (ct_id ct) cts = None" using Cons.prems(2) by (simp add: lookup_row_None_iff)
  then have "map_of es2 i = (case lookup_row ct_id i (ct # cts) of None \<Rightarrow> map_of es i | Some ct \<Rightarrow> entry_of now ct (map_of es i))" for i
    unfolding e2(2) e1(2) by (cases "lookup_row ct_id i cts") (auto simp: sql_simps)
  then show ?case using e1(1) e2(1) by simp
qed (simp add: sql_simps)

text \<open>
  C12. A pass of the sync loop that reads both tables makes the memory mirror the database: the
  trigger index holds exactly the stored triggers, and the scheduler exactly the cron triggers whose
  schedule parses, as they are stored, each with the last fire it had before or, when it is
  new, with the current instant, from which its next run follows.
\<close>

theorem sync_mirrors_database:
  assumes "distinct (map tr_id (trigger_rows db))" "distinct (map ct_id (cron_rows db))"
    and "\<forall>ct \<in> set (cron_rows db). \<not> schedule_panics ct"
  shows "\<exists>idx' es'. sync_triggers_from_db all_ok all_ok now db (idx, es) = (idx', Inr es') \<and>
    (\<forall>i. map_of idx' i = lookup_row tr_id i (trigger_rows db)) \<and>
    (\<forall>i. map_of es' i = (case lookup_row ct_id i (cron_rows db) of None \<Rightarrow> None | Some ct \<Rightarrow> entry_of now ct (map_of es i)))"
proof -
  let ?cts = "sort_key ct_id (cron_rows db)"
  have "mset (map ct_id ?cts) = mset (map ct_id (cron_rows db))" by simp
  then have d: "distinct (map ct_id ?cts)" using assms(2) by (metis mset_eq_imp_distinct_iff)
  obtain es1 where es1: "upsert_all now ?cts es = Inr es1"
    "\<And>i. map_of es1 i = (case lookup_row ct_id i (cron_rows db) of None \<Rightarrow> map_of es i | Some ct \<Rightarrow> entry_of now ct (map_of es i))"
    using upsert_all_map [of ?cts now es] assms(3) d by (auto simp only: lookup_row_sort [OF assms(2)] set_sort)
  let ?es = "fold (\<lambda>k i. if k \<in> ct_id ` set (cron_rows db) then i else adel k i) (map fst es1) es1"
  have "sync_entries all_ok now db es = Inr ?es"
    unfolding sync_entries_def list_cron_triggers_def cron_delete_def cron_keys_def using es1(1) by simp
  moreover have "map_of ?es i = (case lookup_row ct_id i (cron_rows db) of None \<Rightarrow> None | Some ct \<Rightarrow> entry_of now ct (map_of es i))" for i
    unfolding map_of_fold_delete keys_iff es1(2)
    by (auto simp: lookup_row_None_iff [symmetric] split: option.splits)
  ultimately show ?thesis
    using sync_index_map [OF assms(1)] by (simp add: sync_triggers_from_db_def)
qed

theorem sync_mirrors_database_witness:
  "let ct = \<lparr>ct_id = ''c'', ct_display_name = [], ct_agent_ref = ''bot'', ct_schedule = ''0 * * * *'', ct_prompt = ''go'',
        ct_enabled = True, ct_agent_valid = True, ct_schedule_valid = True, ct_last_run = None, ct_next_run = None,
        ct_created_at = 0, ct_updated_at = 0\<rparr>;
       db = \<lparr>trigger_rows = [], cron_rows = [ct]\<rparr> in
     \<exists>idx' es'. sync_triggers_from_db all_ok all_ok 7 db ([], []) = (idx', Inr es') \<and>
       map_of es' ''c'' = entry_of 7 ct None"
proof -
  define ct where "ct = \<lparr>ct_id = ''c'', ct_display_name = [], ct_agent_ref = ''bot'', ct_schedule = ''0 * * * *'', ct_prompt = ''go'',
        ct_enabled = True, ct_agent_valid = True, ct_schedule_valid = True, ct_last_run = None, ct_next_run = None,
        ct_created_at = 0, ct_updated_at = 0\<rparr>"
  define db where "db = \<lparr>trigger_rows = [], cron_rows = [ct]\<rparr>"
  have "\<not> schedule_panics ct" unfolding ct_def by code_simp
  then have "\<forall>c \<in> set (cron_rows db). \<not> schedule_panics c" by (simp add: db_def)
  from sync_mirrors_database [OF _ _ this, of 7 "[]" "[]"]
  have "\<exists>idx' es'. sync_triggers_from_db all_ok all_ok 7 db ([], []) = (idx', Inr es') \<and> map_of es' ''c'' = entry_of 7 ct None"
    by (auto simp: db_def ct_def sql_simps)
  then show ?thesis by (simp add: Let_def ct_def db_def)
qed

end
