(* ===== verification/Chat.thy ===== *)
theory Chat
  imports CronEmitter GuardedApi Paging Scaling
begin

text \<open>
  Chats between users and agents: the store of sessions and messages (\<^verbatim>\<open>services/hub/internal/chat/store.go\<close>) and the
  endpoints (\<^verbatim>\<open>services/hub/internal/api/handlers_chat.go\<close>) for users and, on the internal surface, for the sidecars of agents. A user message becomes an event
  in the inbox of the agent, with a task for it, and goes on along the bridges as in \<^theory_text>\<open>Router\<close>. Generated ids, the clock and the
  outcomes of statements and of requests to the API server are arguments.
\<close>

section \<open>The store\<close>

record chat_session =
  cs_id :: string
  cs_name :: string
  cs_agent :: string
  cs_user :: string
  cs_created :: instant
  cs_updated :: instant

record chat_message =
  cg_id :: nat
  cg_session :: string
  cg_role :: string
  cg_content :: string
  cg_tokens :: int
  cg_created :: instant

record chat_db =
  ct_sessions :: "chat_session list"
  ct_messages :: "chat_message list"
  ct_next :: nat

datatype chat_error = SessionNotFound | ChatFailed string

fun chat_error_text :: "chat_error \<Rightarrow> string" where
  "chat_error_text SessionNotFound = ''chat session not found''"
| "chat_error_text (ChatFailed op) = op"

type_synonym 'a chat_result = "(chat_error + 'a) \<times> chat_db"

definition role_user :: string where "role_user = ''user''"
definition role_assistant :: string where "role_assistant = ''assistant''"
definition role_status :: string where "role_status = ''status''"

definition create_session :: "bool \<Rightarrow> string \<Rightarrow> instant \<Rightarrow> string \<Rightarrow> string \<Rightarrow> chat_db \<Rightarrow> chat_session chat_result" where
  "create_session ok i now agent user db =
     (if \<not> ok \<or> has_row cs_id i (ct_sessions db) then (Inl (ChatFailed ''create chat session''), db)
      else let s = \<lparr>cs_id = i, cs_name = i, cs_agent = agent, cs_user = user, cs_created = now, cs_updated = now\<rparr>
           in (Inr s, db\<lparr>ct_sessions := ct_sessions db @ [s]\<rparr>))"

text \<open>The messages of a session, oldest first.\<close>

definition session_messages :: "string \<Rightarrow> chat_db \<Rightarrow> chat_message list" where
  "session_messages i db = sort_key cg_created (filter (\<lambda>m. cg_session m = i) (ct_messages db))"

definition get_session :: "pg \<Rightarrow> string \<Rightarrow> chat_db \<Rightarrow> chat_error + chat_session \<times> chat_message list" where
  "get_session pg i db =
     (if \<not> pg 0 then Inl (ChatFailed ''get chat session'')
      else (case lookup_row cs_id i (ct_sessions db) of
              None \<Rightarrow> Inl SessionNotFound
            | Some s \<Rightarrow> if \<not> pg 1 then Inl (ChatFailed ''get chat messages'') else Inr (s, session_messages i db)))"

definition list_sessions :: "bool \<Rightarrow> string \<Rightarrow> string \<Rightarrow> int \<Rightarrow> chat_db \<Rightarrow> chat_error + chat_session list" where
  "list_sessions ok agent user limit db =
     (if \<not> ok then Inl (ChatFailed ''list chat sessions'')
      else let xs = sort_key (\<lambda>s. - cs_updated s)
                 (filter (\<lambda>s. (agent = [] \<or> cs_agent s = agent) \<and> (user = [] \<or> cs_user s = user)) (ct_sessions db))
           in Inr (if 0 < limit then take (nat limit) xs else xs))"

definition update_session_name :: "bool \<Rightarrow> string \<Rightarrow> string \<Rightarrow> chat_db \<Rightarrow> unit chat_result" where
  "update_session_name ok i name db =
     (if \<not> ok then (Inl (ChatFailed ''update chat session name''), db)
      else if \<not> has_row cs_id i (ct_sessions db) then (Inl SessionNotFound, db)
      else (Inr (), db\<lparr>ct_sessions := update_where (\<lambda>s. cs_id s = i) (\<lambda>s. s\<lparr>cs_name := name\<rparr>) (ct_sessions db)\<rparr>))"

text \<open>The messages go with the session (ON DELETE CASCADE).\<close>

definition delete_session :: "bool \<Rightarrow> string \<Rightarrow> chat_db \<Rightarrow> unit chat_result" where
  "delete_session ok i db =
     (if \<not> ok then (Inl (ChatFailed ''delete chat session''), db)
      else if \<not> has_row cs_id i (ct_sessions db) then (Inl SessionNotFound, db)
      else (Inr (), db\<lparr>ct_sessions := delete_rows cs_id i (ct_sessions db), ct_messages := delete_rows cg_session i (ct_messages db)\<rparr>))"

text \<open>Two statements outside a transaction: when the second fails the message stays.\<close>

definition add_message :: "pg \<Rightarrow> instant \<Rightarrow> string \<Rightarrow> string \<Rightarrow> string \<Rightarrow> int \<Rightarrow> chat_db \<Rightarrow> chat_message chat_result" where
  "add_message pg now i role content tokens db =
     (let m = \<lparr>cg_id = ct_next db, cg_session = i, cg_role = role, cg_content = content, cg_tokens = tokens, cg_created = now\<rparr>;
          drawn = db\<lparr>ct_next := Suc (ct_next db)\<rparr>;
          stored = drawn\<lparr>ct_messages := ct_messages db @ [m]\<rparr>
      in if \<not> pg 0 then (Inl (ChatFailed ''add chat message''), db)
         else if \<not> has_row cs_id i (ct_sessions db) then (Inl (ChatFailed ''add chat message''), drawn)
         else if \<not> pg 1 then (Inl (ChatFailed ''update session timestamp''), stored)
         else (Inr m, stored\<lparr>ct_sessions := update_where (\<lambda>s. cs_id s = i) (\<lambda>s. s\<lparr>cs_updated := now\<rparr>) (ct_sessions db)\<rparr>))"

section \<open>The endpoints\<close>

text \<open>
  What the handlers use: the store and the event queue when they are wired, whether inboxes can be resolved, the agents as names with
  display names, what the WebSocket clients were sent (owner, session and message) when there is a hub for them, and whether
  authentication is configured.
\<close>

record chat_site =
  cw_chat :: "chat_db option"
  cw_hub :: hub
  cw_queue :: bool
  cw_inboxes :: bool
  cw_agents :: "(string \<times> string) list"
  cw_sent :: "(string \<times> string \<times> chat_message) list option"
  cw_auth :: bool

text \<open>
  The surroundings of one request: the statements of the access check, of the operation and of the read after it, the API
  server's answers, the drawn ids, and the delivery as in the cron emitter.
\<close>

record chat_env =
  wv_access :: pg
  wv_store :: pg
  wv_reload :: pg
  wv_get :: "string \<Rightarrow> bool"
  wv_list :: bool
  wv_session :: string
  wv_now :: instant
  wv_channel :: string
  wv_inbox :: pg
  wv_insert :: bool
  wv_mark :: bool
  wv_dispatch :: dispatch_env
  wv_walk :: bool
  wv_bridges :: "nat \<Rightarrow> dispatch_env"

definition anonymous_chat_user :: string where "anonymous_chat_user = ''anonymous''"

definition chat_missing :: refusal where "chat_missing = Refused 503 ''chat not configured''"
definition session_missing :: refusal where "session_missing = Refused 404 ''session not found''"

type_synonym 'r chat_reply = "('r, chat_site) reply"

definition put_chat :: "chat_db \<Rightarrow> chat_site api \<Rightarrow> chat_site api" where
  "put_chat db s = s\<lparr>ap_data := (ap_data s)\<lparr>cw_chat := Some db\<rparr>\<rparr>"

definition chat_admin :: "call \<Rightarrow> chat_site api \<Rightarrow> bool" where
  "chat_admin v s = caller_is_admin (cl_wired v) (cl_check v) (ap_authz s) (cl_caller v)"

definition chat_caller_may_access :: "call \<Rightarrow> string \<Rightarrow> chat_site api \<Rightarrow> bool" where
  "chat_caller_may_access v owner s =
     (case cl_caller v of None \<Rightarrow> \<not> cw_auth (ap_data s) | Some sub \<Rightarrow> sub = owner \<or> chat_admin v s)"

text \<open>Whose sessions a list may show; the empty owner stands for all, and \<^const>\<open>None\<close> refuses.\<close>

definition chat_list_owner_filter :: "call \<Rightarrow> chat_site api \<Rightarrow> string option" where
  "chat_list_owner_filter v s =
     (case cl_caller v of None \<Rightarrow> if cw_auth (ap_data s) then None else Some []
      | Some sub \<Rightarrow> if chat_admin v s then Some [] else Some sub)"

definition resolve_agent_name_for_routing :: "chat_env \<Rightarrow> string \<Rightarrow> chat_site \<Rightarrow> string option" where
  "resolve_agent_name_for_routing e name d =
     (if has_prefix name ''a-'' then Some name
      else if \<not> wv_list e then None
      else map_option fst (List.find (\<lambda>(n, display). display = name) (cw_agents d)))"

definition enrich_session :: "chat_env \<Rightarrow> chat_site \<Rightarrow> chat_session \<Rightarrow> chat_session" where
  "enrich_session e d x =
     (case (if wv_get e (cs_agent x) then map_of (cw_agents d) (cs_agent x) else None) of
        None \<Rightarrow> x | Some display \<Rightarrow> if display = [] then x else x\<lparr>cs_agent := display\<rparr>)"

definition require_chat_session_access :: "call \<Rightarrow> chat_env \<Rightarrow> string \<Rightarrow> chat_site api \<Rightarrow> refusal + chat_session" where
  "require_chat_session_access v e i s =
     (case cw_chat (ap_data s) of
        None \<Rightarrow> Inl chat_missing
      | Some db \<Rightarrow>
          (case get_session (wv_access e) i db of
             Inl err \<Rightarrow> Inl (if err = SessionNotFound then session_missing else Refused 500 (''failed to get session: '' @ chat_error_text err))
           | Inr (x, _) \<Rightarrow> if chat_caller_may_access v (cs_user x) s then Inr x else Inl (Refused 403 ''forbidden'')))"

definition create_chat_session :: "call \<Rightarrow> chat_env \<Rightarrow> string + string \<Rightarrow> chat_site api \<Rightarrow> chat_session chat_reply" where
  "create_chat_session v e body s =
     (case cw_chat (ap_data s) of
        None \<Rightarrow> (Inl chat_missing, s)
      | Some db \<Rightarrow>
          (case body of
             Inl m \<Rightarrow> (Inl (Refused 400 (''invalid JSON: '' @ m)), s)
           | Inr agent \<Rightarrow>
               if agent = [] then (Inl (Refused 400 ''agentName is required''), s)
               else let user = (case cl_caller v of None \<Rightarrow> [] | Some sub \<Rightarrow> sub)
                    in if user = [] \<and> cw_auth (ap_data s) then (Inl (Refused 401 ''unauthorized''), s)
                       else (case create_session (wv_store e 0) (wv_session e) (wv_now e) agent (if user = [] then anonymous_chat_user else user) db of
                               (Inl err, db') \<Rightarrow> (Inl (Refused 500 (''failed to create session: '' @ chat_error_text err)), put_chat db' s)
                             | (Inr x, db') \<Rightarrow> (Inr x, put_chat db' s))))"

text \<open>The rows asked for are those of the pages up to the requested one, and their number is the total.\<close>

definition list_chat_sessions ::
  "chat_env \<Rightarrow> string \<Rightarrow> string \<Rightarrow> string \<Rightarrow> string \<Rightarrow> string \<Rightarrow> chat_site api \<Rightarrow> (chat_session list \<times> page_meta) chat_reply" where
  "list_chat_sessions e owner agent user page page_size s =
     (case cw_chat (ap_data s) of
        None \<Rightarrow> (Inl chat_missing, s)
      | Some db \<Rightarrow>
          (case parse_page_params page page_size of
             Inl m \<Rightarrow> (Inl (Refused 400 m), s)
           | Inr p \<Rightarrow>
               (case list_sessions (wv_store e 0) agent (if owner \<noteq> [] then owner else user) (wrap64 (pp_size p * pp_page p)) db of
                  Inl err \<Rightarrow> (Inl (Refused 500 (''failed to list sessions: '' @ chat_error_text err)), s)
                | Inr xs \<Rightarrow> (Inr (map (enrich_session e (ap_data s)) (page_items p xs), page_meta_of p (length xs)), s))))"

definition get_chat_session :: "chat_env \<Rightarrow> string \<Rightarrow> chat_site api \<Rightarrow> (chat_session \<times> chat_message list) chat_reply" where
  "get_chat_session e i s =
     (case cw_chat (ap_data s) of
        None \<Rightarrow> (Inl chat_missing, s)
      | Some db \<Rightarrow>
          (case get_session (wv_store e) i db of
             Inl err \<Rightarrow> (Inl (if err = SessionNotFound then session_missing else Refused 500 (''failed to get session: '' @ chat_error_text err)), s)
           | Inr (x, ms) \<Rightarrow> (Inr (enrich_session e (ap_data s) x, ms), s)))"

definition update_chat_session ::
  "chat_env \<Rightarrow> string \<Rightarrow> string + string \<Rightarrow> chat_site api \<Rightarrow> (chat_session \<times> chat_message list) chat_reply" where
  "update_chat_session e i body s =
     (case cw_chat (ap_data s) of
        None \<Rightarrow> (Inl chat_missing, s)
      | Some db \<Rightarrow>
          (case body of
             Inl m \<Rightarrow> (Inl (Refused 400 (''invalid JSON: '' @ m)), s)
           | Inr raw \<Rightarrow>
               let name = trim_space raw in
               if name = [] then (Inl (Refused 400 ''name is required and must not be empty''), s)
               else (case update_session_name (wv_store e 0) i name db of
                       (Inl err, db') \<Rightarrow> (Inl (if err = SessionNotFound then session_missing
                                                else Refused 500 (''failed to update session: '' @ chat_error_text err)), put_chat db' s)
                     | (Inr _, db') \<Rightarrow>
                         (case get_session (wv_reload e) i db' of
                            Inl err \<Rightarrow> (Inl (Refused 500 (''failed to fetch updated session: '' @ chat_error_text err)), put_chat db' s)
                          | Inr (x, ms) \<Rightarrow> (Inr (enrich_session e (ap_data s) x, ms), put_chat db' s)))))"

definition delete_chat_session :: "chat_env \<Rightarrow> string \<Rightarrow> chat_site api \<Rightarrow> unit chat_reply" where
  "delete_chat_session e i s =
     (case cw_chat (ap_data s) of
        None \<Rightarrow> (Inl chat_missing, s)
      | Some db \<Rightarrow>
          (case delete_session (wv_store e 0) i db of
             (Inl err, db') \<Rightarrow> (Inl (if err = SessionNotFound then session_missing
                                      else Refused 500 (''failed to delete session: '' @ chat_error_text err)), put_chat db' s)
           | (Inr _, db') \<Rightarrow> (Inr (), put_chat db' s)))"

section \<open>Messages\<close>

definition chat_type :: string where "chat_type = ''chat.message''"

definition chat_event_id :: "string \<Rightarrow> nat \<Rightarrow> string" where
  "chat_event_id i n = ''chat-'' @ i @ ''-'' @ decimal (int n)"

definition chat_data :: "string \<Rightarrow> string \<Rightarrow> json" where
  "chat_data i content = JObj [(''message'', JStr content), (''session_id'', JStr i)]"

definition chat_raw :: "string \<Rightarrow> string \<Rightarrow> string" where
  "chat_raw i content = ''{'' @ json_quote ''message'' @ '':'' @ json_quote content @ '','' @ json_quote ''session_id'' @ '':'' @ json_quote i @ ''}''"

definition chat_headers :: headers where "chat_headers = [(''type'', chat_type)]"

definition chat_task :: "string \<Rightarrow> string \<Rightarrow> string \<Rightarrow> string \<Rightarrow> task" where
  "chat_task evt agent i content =
     dispatch_task evt agent source_chat [] [(''type'', chat_type), (header_trigger_name, source_chat)] (Some (chat_data i content))"

text \<open>The birth channel of the event, empty when the inbox cannot be resolved.\<close>

definition chat_inbox :: "chat_env \<Rightarrow> string \<Rightarrow> bool \<Rightarrow> hub \<Rightarrow> string \<times> hub" where
  "chat_inbox e agent wired h =
     (if \<not> wired then ([], h)
      else (case inbox_channel_for (wv_inbox e) (wv_channel e) (wv_now e) agent (hb_channels h) of
              (Inl _, db) \<Rightarrow> ([], h\<lparr>hb_channels := db\<rparr>)
            | (Inr c, db) \<Rightarrow> (c, h\<lparr>hb_channels := db\<rparr>)))"

definition transfer_chat_message :: "chat_env \<Rightarrow> string \<Rightarrow> string \<Rightarrow> string \<Rightarrow> json \<Rightarrow> hub \<Rightarrow> hub" where
  "transfer_chat_message e evt birth agent payload h =
     (if \<not> hb_transfers h \<or> birth = [] then h
      else snd (transfer_apply (wv_walk e) (wv_bridges e)
             \<lparr>ti_event = evt, ti_birth = birth, ti_source = source_chat, ti_headers = chat_headers, ti_payload = Some payload, ti_delivered = [agent]\<rparr> h))"

text \<open>
  A user message on its way to the agent. The mark comes before the task and its failure is ignored.
\<close>

definition deliver_chat_message ::
  "chat_env \<Rightarrow> bool \<Rightarrow> string \<Rightarrow> string \<Rightarrow> string \<Rightarrow> string \<Rightarrow> hub \<Rightarrow> (refusal + unit) \<times> hub" where
  "deliver_chat_message e wired evt agent i content h =
     (case chat_inbox e agent wired h of
        (birth, h1) \<Rightarrow>
     (case insert_event (channel_exists (hb_channels h1)) (\<lambda>_. wv_insert e) (wv_now e)
             \<lparr>qe_id = evt, qe_connector = source_chat, qe_channel = birth, qe_headers = Some chat_headers,
              qe_data = Some (chat_data i content), qe_raw = chat_raw i content, qe_received = None\<rparr> (hb_queue h1) of
        (Inl m, q) \<Rightarrow> (Inl (Refused 502 (''failed to store chat event: '' @ m)), h1\<lparr>hb_queue := q\<rparr>)
      | (Inr _, q1) \<Rightarrow>
          let q2 = snd (mark_routed (\<lambda>_. wv_mark e) (wv_now e) evt q1) in
          (case enqueue_task (dv_enqueue (wv_dispatch e)) (wv_now e) (chat_task evt agent i content) q2 of
             (Inl m, q) \<Rightarrow> (Inl (Refused 502 (''failed to enqueue chat event for agent: '' @ m)), h1\<lparr>hb_queue := q\<rparr>)
           | (Inr _, q3) \<Rightarrow> (Inr (), transfer_chat_message e evt birth agent (chat_data i content) (h1\<lparr>hb_queue := q3\<rparr>)))))"

record message_request =
  mq_role :: string
  mq_content :: string
  mq_tokens :: int

definition message_problem :: "message_request \<Rightarrow> string option" where
  "message_problem m =
     (if mq_role m = [] then Some ''role is required''
      else if mq_role m \<notin> {role_user, role_assistant, role_status} then Some ''invalid role: must be user, assistant, or status''
      else if mq_content m = [] then Some ''content is required'' else None)"

definition add_chat_message :: "chat_env \<Rightarrow> string \<Rightarrow> string + message_request \<Rightarrow> chat_site api \<Rightarrow> chat_message chat_reply" where
  "add_chat_message e i body s =
     (case cw_chat (ap_data s) of
        None \<Rightarrow> (Inl chat_missing, s)
      | Some db \<Rightarrow>
          (case body of
             Inl m \<Rightarrow> (Inl (Refused 400 (''invalid JSON: '' @ m)), s)
           | Inr req \<Rightarrow>
               (case message_problem req of
                  Some p \<Rightarrow> (Inl (Refused 400 p), s)
                | None \<Rightarrow>
                    (case add_message (wv_store e) (wv_now e) i (mq_role req) (mq_content req) (mq_tokens req) db of
                       (Inl err, db') \<Rightarrow> (Inl (Refused 500 (''failed to add message: '' @ chat_error_text err)), put_chat db' s)
                     | (Inr msg, db') \<Rightarrow>
                         let s1 = put_chat db' s in
                         (case get_session (wv_reload e) i db' of
                            Inl _ \<Rightarrow> (Inr msg, s1)
                          | Inr (x, _) \<Rightarrow>
                              let d1 = (ap_data s1)\<lparr>cw_sent := map_option (\<lambda>sent. sent @ [(cs_user x, i, msg)]) (cw_sent (ap_data s1))\<rparr>;
                                  agent = (case resolve_agent_name_for_routing e (cs_agent x) d1 of None \<Rightarrow> cs_agent x | Some n \<Rightarrow> n)
                              in if mq_role req \<noteq> role_user \<or> \<not> cw_queue d1 then (Inr msg, s1\<lparr>ap_data := d1\<rparr>)
                                 else (case deliver_chat_message e (cw_inboxes d1) (chat_event_id i (cg_id msg)) agent i (mq_content req) (cw_hub d1) of
                                         (Inl r, h) \<Rightarrow> (Inl r, s1\<lparr>ap_data := d1\<lparr>cw_hub := h\<rparr>\<rparr>)
                                       | (Inr _, h) \<Rightarrow> (Inr msg, s1\<lparr>ap_data := d1\<lparr>cw_hub := h\<rparr>\<rparr>)))))))"

section \<open>Routes\<close>

definition chat_prefix :: string where "chat_prefix = ''/api/v1/chat/sessions/''"
definition internal_chat_prefix :: string where "internal_chat_prefix = ''/api/internal/chat/sessions/''"

text \<open>The id in a path without its prefix, and whether the whole path is one of messages.\<close>

definition chat_path :: "string \<Rightarrow> string \<Rightarrow> string \<times> bool" where
  "chat_path prefix path =
     (case cut_at (CHR ''/'') path of None \<Rightarrow> path | Some (i, _) \<Rightarrow> i, contains_str (prefix @ path) ''/messages'')"

datatype chat_call =
    NewChat "string + string"
  | ListChats string string string string
  | GetChat string
  | RenameChat string "string + string"
  | DeleteChat string
  | PostChat string "string + message_request"

datatype chat_answer =
    OneChat chat_session | ChatPage "chat_session list" page_meta | ChatWithMessages chat_session "chat_message list" | NewMessage chat_message | ChatGone

definition missing_session_id :: refusal where "missing_session_id = Refused 400 ''missing session id''"

text \<open>Every verb on a session passes the check of its owner first.\<close>

definition at_chat :: "call \<Rightarrow> chat_env \<Rightarrow> string \<Rightarrow> (string \<Rightarrow> bool \<Rightarrow> chat_site api \<Rightarrow> chat_answer chat_reply) \<Rightarrow> chat_site api \<Rightarrow> chat_answer chat_reply" where
  "at_chat v e path k s =
     (case chat_path chat_prefix path of
        (i, messages) \<Rightarrow>
          if i = [] then (Inl missing_session_id, s)
          else (case require_chat_session_access v e i s of Inl r \<Rightarrow> (Inl r, s) | Inr _ \<Rightarrow> k i messages s))"

fun handle_chat :: "call \<Rightarrow> chat_env \<Rightarrow> chat_call \<Rightarrow> chat_site api \<Rightarrow> chat_answer chat_reply" where
  "handle_chat v e (NewChat body) s = map_reply OneChat (create_chat_session v e body s)"
| "handle_chat v e (ListChats agent user page page_size) s =
     (case chat_list_owner_filter v s of
        None \<Rightarrow> (Inl (Refused 401 ''unauthorized''), s)
      | Some owner \<Rightarrow> map_reply (\<lambda>(xs, m). ChatPage xs m) (list_chat_sessions e owner agent user page page_size s))"
| "handle_chat v e (GetChat path) s =
     at_chat v e path (\<lambda>i messages s. if messages then (Inl bad_method, s)
       else map_reply (\<lambda>(x, ms). ChatWithMessages x ms) (get_chat_session e i s)) s"
| "handle_chat v e (RenameChat path body) s =
     at_chat v e path (\<lambda>i messages s. if messages then (Inl bad_method, s)
       else map_reply (\<lambda>(x, ms). ChatWithMessages x ms) (update_chat_session e i body s)) s"
| "handle_chat v e (DeleteChat path) s =
     at_chat v e path (\<lambda>i messages s. if messages then (Inl bad_method, s) else map_reply (\<lambda>_. ChatGone) (delete_chat_session e i s)) s"
| "handle_chat v e (PostChat path body) s =
     at_chat v e path (\<lambda>i messages s. if messages then map_reply NewMessage (add_chat_message e i body s) else (Inl bad_method, s)) s"

text \<open>The internal surface, for callers with the shared token: lists, one session, and new messages.\<close>

definition handle_internal_chat :: "string \<Rightarrow> string \<Rightarrow> chat_env \<Rightarrow> chat_call \<Rightarrow> chat_site api \<Rightarrow> chat_answer chat_reply" where
  "handle_internal_chat secret token e q s =
     (if secret = [] then (Inl (Refused 503 ''internal endpoints disabled''), s)
      else if token \<noteq> secret then (Inl (Refused 401 ''invalid internal token''), s)
      else (case q of
              ListChats agent user page page_size \<Rightarrow> map_reply (\<lambda>(xs, m). ChatPage xs m) (list_chat_sessions e [] agent user page page_size s)
            | GetChat path \<Rightarrow>
                (case chat_path internal_chat_prefix path of
                   (i, messages) \<Rightarrow>
                     if i = [] then (Inl missing_session_id, s)
                     else if messages then (Inl bad_method, s)
                     else map_reply (\<lambda>(x, ms). ChatWithMessages x ms) (get_chat_session e i s))
            | PostChat path body \<Rightarrow>
                (case chat_path internal_chat_prefix path of
                   (i, messages) \<Rightarrow>
                     if i = [] then (Inl missing_session_id, s)
                     else if messages then map_reply NewMessage (add_chat_message e i body s)
                     else (Inl bad_method, s))
            | RenameChat path _ \<Rightarrow> (Inl (if fst (chat_path internal_chat_prefix path) = [] then missing_session_id else bad_method), s)
            | DeleteChat path \<Rightarrow> (Inl (if fst (chat_path internal_chat_prefix path) = [] then missing_session_id else bad_method), s)
            | NewChat _ \<Rightarrow> (Inl bad_method, s)))"

end
