(* ===== verification/AccountRules.thy ===== *)
theory AccountRules
  imports AccessRules "HOL-Library.Multiset"
begin

text \<open>
  What holds of accounts: the life of an API token, the round trip from login to an authenticated request,
  the back-off of failed logins, and the protection of the last administrator, with the gaps
  the sources leave.
\<close>

section \<open>Local users as a keyed store\<close>

definition user_table :: "authz_db \<Rightarrow> string \<Rightarrow> user option" where
  "user_table db i = map_option scan_user (lookup_row us_id i (az_users db))"

definition insert_local :: "instant \<Rightarrow> string \<Rightarrow> user \<Rightarrow> authz_db \<Rightarrow> (user, authz_db) outcome" where
  "insert_local now hash u db = create_local_user all_ok now (us_id u) (us_email u) (us_username u) hash (us_admin u) db"

definition stamp_user :: "instant \<Rightarrow> user \<Rightarrow> user" where
  "stamp_user now u = u\<lparr>us_created := now, us_updated := now\<rparr>"

interpretation local_users: keyed_store "insert_local now hash" "get_user all_ok" "delete_user all_ok"
  us_id "stamp_user now" "stamp_user now" user_table
  by unfold_locales
    (auto simp: user_table_def insert_local_def stamp_user_def create_local_user_def get_user_def delete_user_def
      scan_user_def has_row_iff fun_eq_iff sql_simps Let_def split: option.split)

text \<open>
  The life of a local account: an unknown id is not found, a created account is found as it was
  given, its id cannot be taken again, and after its deletion it is not found and can be
  neither deleted again nor mistaken for another account.
\<close>

lemma local_user_life_cycle:
  assumes "user_table db (us_id u) = None" "us_id u' = us_id u"
  shows "get_user all_ok (us_id u) db = Inl NotFound \<and>
    fst (insert_local now hash u db) = Inr (stamp_user now u) \<and>
    get_user all_ok (us_id u) (snd (insert_local now hash u db)) = Inr (stamp_user now u) \<and>
    fst (insert_local now hash u' (snd (insert_local now hash u db))) = Inl AlreadyExists \<and>
    get_user all_ok (us_id u) (snd (delete_user all_ok (us_id u) (snd (insert_local now hash u db)))) = Inl NotFound"
  using local_users.record_life_cycle [of db u u' now hash, OF assms] by simp

section \<open>API tokens\<close>

lemma find_append_new: "\<not> list_ex p xs \<Longrightarrow> List.find p (xs @ [x]) = (if p x then Some x else None)"
  by (induction xs) auto

lemma list_ex_append_new: "list_ex p (xs @ [x]) \<longleftrightarrow> list_ex p xs \<or> p x"
  by simp

text \<open>
  A token that has just been made validates to its owner until it expires, and from then on it does not; it
  stops to validate when its owner revokes it or is deleted; nobody else can revoke it; and no
  text with another hash validates as it.
\<close>

theorem token_round_trip:
  assumes "access_wf db" "create_token sha (Some b) pg i now uid name expires db = (Inr (t, plaintext), db1)"
  shows "validate_token sha all_ok later plaintext db1 =
      (if later < expires
       then (Inr (t\<lparr>ut_last_used := Some later\<rparr>), db1\<lparr>az_tokens := az_tokens db @ [t\<lparr>ut_last_used := Some later\<rparr>]\<rparr>)
       else (Inl NotFound, db1)) \<and>
    (fst (revoke_token all_ok later i uid db1) = Inr () \<and>
     fst (validate_token sha all_ok later plaintext (snd (revoke_token all_ok later i uid db1))) = Inl NotFound) \<and>
    (\<forall>other. other \<noteq> uid \<longrightarrow> revoke_token all_ok later i other db1 = (Inl NotFound, db1)) \<and>
    fst (validate_token sha all_ok later plaintext (snd (delete_user all_ok uid db1))) = Inl NotFound \<and>
    (\<forall>raw. token_hash sha raw \<noteq> token_hash sha plaintext \<longrightarrow>
       validate_token sha all_ok later raw db1 \<noteq> (Inr (t\<lparr>ut_last_used := Some later\<rparr>), snd (validate_token sha all_ok later raw db1)))"
proof -
  let ?h = "token_hash sha (token_prefix @ hex_encode b)"
  have t: "t = \<lparr>ut_id = i, ut_user = uid, ut_name = name, ut_hash = ?h, ut_expires = expires,
      ut_last_used = None, ut_created = now, ut_revoked = None\<rparr>"
    and p: "plaintext = token_prefix @ hex_encode b" and db1: "db1 = db\<lparr>az_tokens := az_tokens db @ [t]\<rparr>"
    and new: "\<not> has_row ut_id i (az_tokens db)" "\<not> has_row ut_hash ?h (az_tokens db)" "has_row us_id uid (az_users db)"
    using assms(2) by (auto simp: create_token_def generate_token_def Let_def split: if_splits)
  have no: "\<not> usable k ?h x" "ut_id x \<noteq> i" if "x \<in> set (az_tokens db)" for x k
    using new(1,2) that by (auto simp: usable_def has_row_def list_ex_iff)
  have rest: "\<not> list_ex (usable k ?h) (az_tokens db)" "\<not> list_ex (revocable i o') (az_tokens db)" for k o'
    using no by (auto simp: list_ex_iff revocable_def)
  have keep: "update_where (usable k ?h) f (az_tokens db) = az_tokens db" "update_where (revocable i o') f (az_tokens db) = az_tokens db" for k o' f
    using no by (intro update_where_none; auto simp: revocable_def)+
  have upd: "update_where q f (xs @ [x]) = update_where q f xs @ [if q x then f x else x]" for q f and xs :: "user_token list" and x
    by (simp add: update_where_def)
  have 1: "validate_token sha all_ok later plaintext db1 =
      (if later < expires
       then (Inr (t\<lparr>ut_last_used := Some later\<rparr>), db1\<lparr>az_tokens := az_tokens db @ [t\<lparr>ut_last_used := Some later\<rparr>]\<rparr>)
       else (Inl NotFound, db1))"
    unfolding validate_token_def Let_def p db1 using rest(1) [of later]
    by (simp add: find_append_new upd keep) (simp add: t usable_def)
  have r: "revoke_token all_ok later i uid db1 = (Inr (), db\<lparr>az_tokens := az_tokens db @ [t\<lparr>ut_revoked := Some later\<rparr>]\<rparr>)"
    unfolding revoke_token_def db1 using rest(2) by (simp add: upd keep) (simp add: t revocable_def)
  have 2: "fst (validate_token sha all_ok later plaintext (snd (revoke_token all_ok later i uid db1))) = Inl NotFound"
    unfolding r validate_token_def Let_def p using rest(1) [of later] by (simp add: find_append_new) (simp add: usable_def)
  have 3: "revoke_token all_ok later i other db1 = (Inl NotFound, db1)" if "other \<noteq> uid" for other
    unfolding revoke_token_def db1 using rest(2) [of other] that by (simp add: t revocable_def)
  have "az_tokens (snd (delete_user all_ok uid db1)) = delete_rows ut_user uid (az_tokens db)"
    using new(3) by (simp add: delete_user_def db1 delete_rows_def t)
  moreover have "List.find (usable later ?h) (delete_rows ut_user uid (az_tokens db)) = None"
    using no(1) by (auto simp: find_None_iff delete_rows_def)
  ultimately have 4: "fst (validate_token sha all_ok later plaintext (snd (delete_user all_ok uid db1))) = Inl NotFound"
    by (simp add: validate_token_def Let_def p)
  have 5: "fst (validate_token sha all_ok later raw db1) \<noteq> Inr (t\<lparr>ut_last_used := Some later\<rparr>)"
    if "token_hash sha raw \<noteq> token_hash sha plaintext" for raw
  proof
    assume "fst (validate_token sha all_ok later raw db1) = Inr (t\<lparr>ut_last_used := Some later\<rparr>)"
    then obtain x where x: "List.find (usable later (token_hash sha raw)) (az_tokens db1) = Some x"
      "x\<lparr>ut_last_used := Some later\<rparr> = t\<lparr>ut_last_used := Some later\<rparr>"
      by (auto simp: validate_token_def Let_def split: option.splits)
    have "ut_hash x = token_hash sha raw" using find_Some_iff_first [OF x(1)] by (simp add: usable_def)
    moreover have "ut_hash (x\<lparr>ut_last_used := Some later\<rparr>) = ut_hash (t\<lparr>ut_last_used := Some later\<rparr>)" using x(2) by simp
    then have "ut_hash x = ut_hash t" by simp
    ultimately show False using that by (simp add: t p)
  qed
  have wrong: "validate_token sha all_ok later raw db1 \<noteq> (Inr (t\<lparr>ut_last_used := Some later\<rparr>), s)"
    if "token_hash sha raw \<noteq> token_hash sha plaintext" for raw s
    using 5 [OF that] by (metis fst_conv)
  show ?thesis using 1 2 3 4 wrong r by simp
qed

theorem token_round_trip_witness:
  "fst (validate_token (\<lambda>s. s) all_ok 50 ''ainsel_6b''
     (snd (create_token (\<lambda>s. s) (Some ''k'') all_ok ''t1'' 0 ''ann'' ''laptop'' 60 sample_access))) \<noteq> Inl NotFound \<and>
   fst (validate_token (\<lambda>s. s) all_ok 60 ''ainsel_6b''
     (snd (create_token (\<lambda>s. s) (Some ''k'') all_ok ''t1'' 0 ''ann'' ''laptop'' 60 sample_access))) = Inl NotFound"
proof -
  have hex: "hex_encode ''k'' = ''6b''" by code_simp
  obtain t db1 where c: "create_token (\<lambda>s. s) (Some ''k'') all_ok ''t1'' 0 ''ann'' ''laptop'' 60 sample_access = (Inr (t, ''ainsel_6b''), db1)"
    by (simp add: create_token_def generate_token_def token_hash_def Let_def sample_access_def sample_user_def
        has_row_def hex token_prefix_def)
  show ?thesis
    using token_round_trip [OF sample_access_wf c, of 50] token_round_trip [OF sample_access_wf c, of 60] by (simp add: c)
qed

section \<open>Back-off\<close>

lemma double_lockout_closed:
  "0 < lock \<Longrightarrow> min (60 * login_second) (double_lockout k lock) = min (60 * login_second) (lock * 2 ^ k)"
proof (induction k arbitrary: lock)
  case (Suc k)
  show ?case
  proof (cases "lock < 60 * login_second")
    case True
    then show ?thesis using Suc.IH [of "2 * lock"] Suc.prems by (simp add: mult.commute mult.left_commute)
  next
    case False
    have "(1::int) \<le> 2 ^ Suc k" by (rule one_le_power) simp
    then have "lock * 1 \<le> lock * 2 ^ Suc k" using Suc.prems by (intro mult_left_mono) simp_all
    then show ?thesis using False by simp
  qed
qed simp

lemma throttle_lockout_closed:
  "throttle_lockout n = min (60 * login_second) (5 * login_second * 2 ^ (n - throttle_threshold))"
  using double_lockout_closed [of "5 * login_second" "n - throttle_threshold"]
  by (simp add: throttle_lockout_def Let_def login_second_def min_def split: if_splits)

lemma login_outcomes:
  assumes "handle_login kdf jl True pg now (Some (name, password)) db th = (r, th')"
  shows "if 0 < denied now (to_lower (trim_space name)) th
    then r = Inl (Refused 429 ''too many failed attempts, try again later'') \<and> th' = th
    else r = Inl (Refused 401 ''invalid credentials'') \<and> th' = record_failure now (to_lower (trim_space name)) th \<or>
      (\<exists>x. r = Inr x) \<and> th' = record_success (to_lower (trim_space name)) th \<or>
      (r = Inl Aborted \<or> r = Inl (Refused 500 ''internal error'')) \<and> th' = th"
  using assms by (auto simp: handle_login_def Let_def split: if_splits sum.splits option.splits)

text \<open>
  C22. Failed logins back off: from the third failure in a row on, the name is refused for five seconds
  doubled with every further failure and a minute at most, whatever the password, and the
  refusals do not count; afterwards, and for fewer failures, the credentials decide, a
  wrong one counts as one more failure and a right one clears the name.
\<close>

theorem login_back_off:
  assumes "username = to_lower (trim_space name)"
    and "failures = (case map_of th username of None \<Rightarrow> 0 | Some e \<Rightarrow> te_failures e)"
    and "since = (case map_of th username of None \<Rightarrow> 0 | Some e \<Rightarrow> now - te_last e)"
    and "handle_login kdf jl True pg now (Some (name, password)) db th = (r, th')"
  shows "if 3 \<le> failures \<and> since < min (60 * login_second) (5 * login_second * 2 ^ (failures - 3))
    then r = Inl (Refused 429 ''too many failed attempts, try again later'') \<and> th' = th
    else (\<forall>m. r \<noteq> Inl (Refused 429 m)) \<and>
      (case r of
         Inr _ \<Rightarrow> map_of th' username = None
       | Inl e \<Rightarrow>
           if e = Refused 401 ''invalid credentials''
           then map_of th' username = Some \<lparr>te_failures = Suc failures, te_last = now\<rparr> else th' = th)"
proof -
  have "0 < denied now username th \<longleftrightarrow> 3 \<le> failures \<and> since < min (60 * login_second) (5 * login_second * 2 ^ (failures - 3))"
    using assms(2,3)
    by (auto simp: denied_def throttle_lockout_closed throttle_threshold_def Let_def split: option.splits)
  moreover have "map_of (record_failure now username th) username = Some \<lparr>te_failures = Suc failures, te_last = now\<rparr>"
    using assms(2) by (simp add: record_failure_def)
  moreover have "map_of (record_success username th) username = None" by (simp add: record_success_def)
  ultimately show ?thesis
    using login_outcomes [OF assms(4)] unfolding assms(1) [symmetric] by (cases "0 < denied now username th") auto
qed

definition sample_jwt :: jwt_lib where
  "sample_jwt = \<lparr>jl_sign = (\<lambda>c. if jc_sub c = Some ''local:ann'' then Some ''eyJ'' else None),
     jl_parse = (\<lambda>now raw. if raw = ''eyJ'' \<and> now < 100 * login_second
       then Some \<lparr>jc_iss = jwt_issuer, jc_sub = Some ''local:ann'', jc_username = Some ''ann'', jc_admin = Some False, jc_exp = 100\<rparr>
       else None),
     jl_peek = (\<lambda>raw. if raw = ''eyJ'' then jwt_issuer else [])\<rparr>"

theorem login_back_off_witness:
  "handle_login sample_kdf sample_jwt True all_ok (20 * login_second) (Some (''Ann'', ''guess'')) sample_access
     [(''ann'', \<lparr>te_failures = 4, te_last = 11 * login_second\<rparr>)] =
   (Inl (Refused 429 ''too many failed attempts, try again later''), [(''ann'', \<lparr>te_failures = 4, te_last = 11 * login_second\<rparr>)])"
proof -
  let ?th = "[(''ann'', \<lparr>te_failures = 4, te_last = 11 * login_second\<rparr>)]"
  obtain r th' where l: "handle_login sample_kdf sample_jwt True all_ok (20 * login_second) (Some (''Ann'', ''guess'')) sample_access ?th = (r, th')"
    by fastforce
  have n: "to_lower (trim_space ''Ann'') = ''ann''" by code_simp
  show ?thesis using login_back_off [OF refl refl refl l] l by (simp add: n login_second_def)
qed

section \<open>From login to a request\<close>

text \<open>
  What the package jwt documents: a signed token parses to its claims until it expires and is
  refused afterwards, and its claimed issuer can be read. A token is no API token and has
  no blanks around it.
\<close>

definition jwt_laws :: "jwt_lib \<Rightarrow> bool" where
  "jwt_laws jl \<longleftrightarrow> (\<forall>c raw. jl_sign jl c = Some raw \<and> jc_iss c = jwt_issuer \<longrightarrow>
     (\<forall>now. jl_parse jl now raw = (if now < jc_exp c * login_second then Some c else None)) \<and>
     jl_peek jl raw = jwt_issuer \<and> raw \<noteq> [] \<and> trim_space raw = raw \<and> \<not> has_prefix raw token_prefix)"

lemma bearer_of: "raw \<noteq> [] \<Longrightarrow> trim_space raw = raw \<Longrightarrow> extract_bearer (bearer_prefix @ raw) = raw"
  by (simp add: extract_bearer_def equal_fold_def)

lemma local_session:
  assumes "jl_peek jl raw = jwt_issuer" "raw \<noteq> []" "trim_space raw = raw" "\<not> has_prefix raw token_prefix"
  shows "local_chain sha jl pg now (bearer_prefix @ raw) (tr, db) =
    (case verify_token jl now raw of
       None \<Rightarrow> (Inl (Refused 401 ''invalid token''), tr, db)
     | Some c \<Rightarrow>
         let u = \<lparr>ou_sub = sc_sub c, ou_email = [], ou_username = sc_username c, ou_roles = (if sc_admin c then [''admin''] else [])\<rparr>
         in (Inr u, identity_persist (pg 2) now u tr db))"
  using assms
  by (simp add: local_chain_def user_token_mw_def local_mw_def looks_local_def require_auth_def bearer_of Let_def split: option.split)

lemma login_user:
  assumes "handle_login kdf jl enabled pg now (Some (name, password)) db th = (Inr (raw, expires, u), th')"
  shows "us_id u = local_user_id_prefix @ to_lower (trim_space name)"
    "issue_token (jl_sign jl) now u = Some (raw, expires)"
    "get_user (\<lambda>_. pg 1) (us_id u) db = Inr u"
    "\<exists>hash. user_password_hash (\<lambda>_. pg 0) (us_id u) db = Inr hash \<and> verify_password kdf password hash = Inr ()"
proof -
  let ?n = "to_lower (trim_space name)"
  have u: "get_user (\<lambda>_. pg 1) (local_user_id_prefix @ ?n) db = Inr u" "issue_token (jl_sign jl) now u = Some (raw, expires)"
    "\<exists>hash. user_password_hash (\<lambda>_. pg 0) (local_user_id_prefix @ ?n) db = Inr hash \<and> verify_password kdf password hash = Inr ()"
    using assms by (auto simp: handle_login_def Let_def split: if_splits sum.splits option.splits)
  have i: "us_id u = local_user_id_prefix @ ?n"
    using u(1) lookup_row_SomeD [of us_id "local_user_id_prefix @ ?n" "az_users db"]
    by (auto simp: get_user_def scan_user_def split: if_splits option.splits)
  show "us_id u = local_user_id_prefix @ ?n" "issue_token (jl_sign jl) now u = Some (raw, expires)" by (rule i, rule u(2))
  show "get_user (\<lambda>_. pg 1) (us_id u) db = Inr u" using u(1) i by simp
  show "\<exists>hash. user_password_hash (\<lambda>_. pg 0) (us_id u) db = Inr hash \<and> verify_password kdf password hash = Inr ()"
    using u(3) i by simp
qed

text \<open>
  C20. Login and the authentication chain fit together: the token a login returns authenticates every request
  it comes with as the account that logged in, with the role it had then, until the second its
  expiry falls into, twelve hours after the login, and is refused with 401 from then on.
\<close>

theorem login_round_trip:
  assumes "jwt_laws jl" "handle_login kdf jl enabled pg now (Some (name, password)) db th = (Inr (raw, expires, u), th')"
  shows "expires = now + 12 * 3600 * login_second \<and>
    fst (local_chain sha jl pg' later (bearer_prefix @ raw) st) =
      (if later < expires div login_second * login_second
       then Inr \<lparr>ou_sub = local_user_id_prefix @ to_lower (trim_space name), ou_email = [], ou_username = us_username u,
                 ou_roles = (if us_admin u then [''admin''] else [])\<rparr>
       else Inl (Refused 401 ''invalid token''))"
proof -
  let ?c = "\<lparr>jc_iss = jwt_issuer, jc_sub = Some (us_id u), jc_username = Some (us_username u), jc_admin = Some (us_admin u),
    jc_exp = (now + token_ttl) div login_second\<rparr>"
  have s: "jl_sign jl ?c = Some raw" "expires = now + token_ttl"
    using login_user(2) [OF assms(2)] by (auto simp: issue_token_def Let_def)
  have laws: "jl_parse jl t raw = (if t < jc_exp ?c * login_second then Some ?c else None)" "jl_peek jl raw = jwt_issuer"
    "raw \<noteq> []" "trim_space raw = raw" "\<not> has_prefix raw token_prefix" for t
    using assms(1) s(1) unfolding jwt_laws_def by (metis jwt_claims.select_convs(1))+
  have "us_id u \<noteq> []" using login_user(1) [OF assms(2)] by (simp add: local_user_id_prefix_def)
  then have v: "verify_token jl later raw = (if later < expires div login_second * login_second
      then Some \<lparr>sc_sub = us_id u, sc_username = us_username u, sc_admin = us_admin u\<rparr> else None)"
    by (simp add: verify_token_def laws(1) s(2))
  obtain tr db' where st: "st = (tr, db')" by fastforce
  show ?thesis
    unfolding st local_session [OF laws(2-5)] v using s(2) login_user(1) [OF assms(2)]
    by (simp add: token_ttl_def Let_def)
qed

text \<open>Ann with a password, and a signer that knows one token.\<close>

definition ann_hash :: string where
  "ann_hash = the (hash_password sample_kdf (Some ''salt'') ''secret'')"

definition ann_row :: user_row where
  "ann_row = \<lparr>us_id = ''local:ann'', us_email = [], us_username = ''ann'', us_admin = False, us_created = 0, us_updated = 0,
     us_password = ann_hash\<rparr>"

definition ann_db :: authz_db where
  "ann_db = \<lparr>az_users = [ann_row], az_groups = [], az_members = [], az_resources = [], az_tokens = []\<rparr>"

definition ann_claims :: jwt_claims where
  "ann_claims = \<lparr>jc_iss = jwt_issuer, jc_sub = Some ''local:ann'', jc_username = Some ''ann'', jc_admin = Some False, jc_exp = 43200\<rparr>"

definition ann_jwt :: jwt_lib where
  "ann_jwt = \<lparr>jl_sign = (\<lambda>c. if c = ann_claims then Some ''eyJ'' else None),
     jl_parse = (\<lambda>now raw. if raw = ''eyJ'' \<and> now < 43200 * login_second then Some ann_claims else None),
     jl_peek = (\<lambda>raw. if raw = ''eyJ'' then jwt_issuer else [])\<rparr>"

lemma ann_jwt_laws: "jwt_laws ann_jwt"
proof -
  have t: "trim_space ''eyJ'' = ''eyJ''" "\<not> has_prefix ''eyJ'' token_prefix" by code_simp+
  have "jwt_laws ann_jwt \<longleftrightarrow> trim_space ''eyJ'' = ''eyJ'' \<and> \<not> has_prefix ''eyJ'' token_prefix"
    by (auto simp: jwt_laws_def ann_jwt_def ann_claims_def)
  then show ?thesis using t by blast
qed

lemma ann_logs_in:
  "handle_login sample_kdf ann_jwt True all_ok 0 (Some (''ann'', ''secret'')) ann_db [] = (Inr (''eyJ'', token_ttl, scan_user ann_row), [])"
proof -
  have n: "to_lower (trim_space ''ann'') = ''ann''" "valid_username ''ann''" by code_simp+
  have l: "length (sample_kdf p s t m n l) = l" for p s t m n l by (simp add: sample_kdf_def)
  have "hash_password sample_kdf (Some ''salt'') ''secret'' = Some ann_hash" by (simp add: ann_hash_def hash_password_def)
  from password_accepts [of sample_kdf, OF l this, of "''secret''"]
  have v: "verify_password sample_kdf ''secret'' ann_hash = Inr ()" by simp
  have "local_user_id_prefix @ ''ann'' = ''local:ann''" by (simp add: local_user_id_prefix_def)
  then show ?thesis
    using n v
    by (simp add: handle_login_def Let_def denied_def validate_username_def user_password_hash_def get_user_def ann_db_def ann_row_def
        sql_simps issue_token_def ann_jwt_def ann_claims_def scan_user_def token_ttl_def login_second_def record_success_def adel_def)
qed

theorem login_round_trip_witness:
  "fst (local_chain (\<lambda>s. s) ann_jwt all_ok 7 (bearer_prefix @ ''eyJ'') ([], ann_db)) =
     Inr \<lparr>ou_sub = ''local:ann'', ou_email = [], ou_username = ''ann'', ou_roles = []\<rparr> \<and>
   fst (local_chain (\<lambda>s. s) ann_jwt all_ok token_ttl (bearer_prefix @ ''eyJ'') ([], ann_db)) = Inl (Refused 401 ''invalid token'')"
proof -
  have n: "to_lower (trim_space ''ann'') = ''ann''" by code_simp
  show ?thesis
    using login_round_trip [OF ann_jwt_laws ann_logs_in, of "\<lambda>s. s" all_ok 7 "([], ann_db)"]
      login_round_trip [OF ann_jwt_laws ann_logs_in, of "\<lambda>s. s" all_ok token_ttl "([], ann_db)"]
    by (simp add: n token_ttl_def login_second_def local_user_id_prefix_def scan_user_def ann_row_def)
qed

section \<open>Administrators\<close>

definition admins :: "authz_db \<Rightarrow> user_row list" where
  "admins db = filter us_admin (az_users db)"

lemma count_admins_eq: "count_admins all_ok' db = Inr n \<Longrightarrow> n = length (admins db)"
proof -
  assume "count_admins all_ok' db = Inr n"
  then have n: "n = length (filter us_admin (map scan_user (sort_key us_username (az_users db))))"
    by (auto simp: count_admins_def list_users_def split: if_splits)
  have "filter us_admin (map scan_user rows) = map scan_user (filter us_admin rows)" for rows
    by (induction rows) (simp_all add: scan_user_def)
  then have "n = length (filter us_admin (sort_key us_username (az_users db)))" by (simp add: n)
  also have "\<dots> = length (filter us_admin (az_users db))"
    by (metis mset_filter mset_sort size_mset)
  finally show ?thesis by (simp add: admins_def)
qed

text \<open>Passing the guard leaves another administrator.\<close>

lemma guard_leaves_admin:
  assumes "access_wf db" "admins db \<noteq> []" "last_admin_guard pg msg i db = Inr ()"
  shows "\<exists>u \<in> set (az_users db). us_admin u \<and> us_id u \<noteq> i"
proof (rule ccontr)
  assume none: "\<not> ?thesis"
  obtain a where a: "a \<in> set (az_users db)" "us_admin a" using assms(2) by (auto simp: admins_def filter_empty_conv)
  have d: "distinct (map us_id (az_users db))" using assms(1) by (simp add: wf_defs)
  have "us_id a = i" using none a by blast
  then have "lookup_row us_id i (az_users db) = Some a" using lookup_row_distinct [OF d a(1)] by simp
  then have "\<exists>n. count_admins (\<lambda>_. pg 1) db = Inr n \<and> 1 < n"
    using assms(3) a(2) by (auto simp: last_admin_guard_def get_user_def scan_user_def split: if_splits sum.splits)
  then have "1 < length (admins db)" using count_admins_eq by blast
  moreover have "length (admins db) \<le> 1"
  proof -
    have "x = a" if "x \<in> set (az_users db)" "us_admin x" for x
    proof -
      have "us_id x = i" using none that by blast
      then show ?thesis using distinct_map_unique [OF d that(1) a(1)] \<open>us_id a = i\<close> by simp
    qed
    then have "set (admins db) \<subseteq> {a}" unfolding admins_def set_filter by blast
    moreover have "distinct (admins db)" using d by (auto simp: admins_def distinct_map)
    ultimately show ?thesis using card_mono [of "{a}" "set (admins db)"] distinct_card [of "admins db"] by simp
  qed
  ultimately show False by simp
qed

datatype user_request =
    CreateUserReq kdf "string option" bool check_env pg instant "string option" "new_user_body option"
  | PatchUserReq kdf "string option" bool check_env pg instant "string option" string "(bool option \<times> string option) option"
  | DeleteUserReq bool check_env pg "string option" string
  | ChangePasswordReq kdf "string option" pg instant "string option" "(string \<times> string) option"
  | SyncReq bool check_env pg instant "oidc_user option" string "(string \<times> string \<times> string) option option"

text \<open>The requests are served one after the other.\<close>

fun serve :: "user_request \<Rightarrow> identity_tracker \<times> authz_db \<Rightarrow> identity_tracker \<times> authz_db" where
  "serve (CreateUserReq kdf salt wired v pg now caller body) (tr, db) =
     (tr, snd (handle_create_user kdf salt wired v pg now caller body db))"
| "serve (PatchUserReq kdf salt wired v pg now caller i body) (tr, db) =
     (tr, snd (handle_patch_user (\<lambda>d. d) kdf salt wired v pg now caller i body db))"
| "serve (DeleteUserReq wired v pg caller i) (tr, db) = (tr, snd (handle_delete_user (\<lambda>d. d) wired v pg caller i db))"
| "serve (ChangePasswordReq kdf salt pg now caller body) (tr, db) =
     (tr, snd (handle_change_password kdf salt pg now caller body db))"
| "serve (SyncReq wired v pg now caller i info) (tr, db) = snd (handle_user_sync wired v pg now caller i info (tr, db))"

definition guarded :: "authz_db \<Rightarrow> bool" where
  "guarded db \<longleftrightarrow> access_wf db \<and> (\<exists>u \<in> set (az_users db). us_admin u)"

lemma guarded_update:
  assumes "guarded db" "\<And>r. us_admin (f r) = us_admin r" "\<And>r. us_id (f r) = us_id r"
  shows "guarded (snd (update_user op pg now i f db))"
proof -
  have "us_admin ((f r)\<lparr>us_updated := now\<rparr>) = us_admin r" for r using assms(2) by simp
  then show ?thesis
    using assms wf_update_user [of db f op pg now i]
    by (auto simp: guarded_def update_user_def sql_simps bex_Un)
qed

lemma guarded_set_password: "guarded db \<Longrightarrow> guarded (snd (set_password pg now i h db))"
  unfolding set_password_def by (rule guarded_update) simp_all

lemma guarded_clear: "guarded db \<Longrightarrow> guarded (snd (clear_username pg now i db))"
  unfolding clear_username_def by (rule guarded_update) simp_all

lemma guarded_upsert: "guarded db \<Longrightarrow> guarded (snd (upsert_user pg now sub email name db))"
  using wf_upsert_user [of db pg now sub email name]
  by (auto simp: guarded_def upsert_user_def Let_def sql_simps bex_Un split: option.split)

lemma guarded_create: "guarded db \<Longrightarrow> guarded (snd (create_local_user pg now i email name h b db))"
  using wf_create_local_user [of db pg now i email name h b] by (auto simp: guarded_def create_local_user_def Let_def)

lemma guarded_set_admin:
  assumes "guarded db" "b \<or> (\<exists>u \<in> set (az_users db). us_admin u \<and> us_id u \<noteq> i)"
  shows "guarded (snd (set_admin pg now i b db))"
proof -
  have "access_wf (snd (set_admin pg now i b db))"
    using assms(1) by (simp add: guarded_def set_admin_def wf_update_user)
  moreover have "\<exists>u \<in> set (az_users (snd (set_admin pg now i b db))). us_admin u"
    using assms by (auto simp: guarded_def set_admin_def update_user_def sql_simps bex_Un)
  ultimately show ?thesis by (simp add: guarded_def)
qed

lemma guarded_delete:
  assumes "guarded db" "\<exists>u \<in> set (az_users db). us_admin u \<and> us_id u \<noteq> i"
  shows "guarded (snd (delete_user pg i db))"
  using assms wf_delete_user [of db pg i] by (auto simp: guarded_def delete_user_def)

text \<open>Relaying the outcome of an operation does not change the state it leaves.\<close>

lemma snd_relay [simp]:
  "snd (case x of (Inl e, s) \<Rightarrow> (F e, s) | (Inr u, s) \<Rightarrow> (G u, s)) = snd x"
  by (auto split: prod.split sum.split)

lemma snd_relay_if [simp]:
  "snd (case x of (Inl e, s) \<Rightarrow> (F e, s) | (Inr u, s) \<Rightarrow> H u s) = (case x of (Inl e, s) \<Rightarrow> s | (Inr u, s) \<Rightarrow> snd (H u s))"
  by (auto split: prod.split sum.split)

lemma guarded_patch_admin:
  assumes "guarded db"
  shows "guarded (snd (patch_admin (\<lambda>d. d) pg now i flag db))"
proof (cases flag)
  case (Some b)
  have ne: "access_wf db" "admins db \<noteq> []" using assms by (auto simp: guarded_def admins_def filter_empty_conv)
  show ?thesis
  proof (cases "if b then Inr () else last_admin_guard pg ''cannot demote the last admin'' i db")
    case (Inl r)
    then show ?thesis using assms Some by (simp add: patch_admin_def)
  next
    case (Inr x)
    then have "b \<or> (\<exists>u \<in> set (az_users db). us_admin u \<and> us_id u \<noteq> i)"
      using guard_leaves_admin [OF ne] by (cases b) auto
    then have "guarded (snd (set_admin (\<lambda>_. pg 2) now i b db))" by (rule guarded_set_admin [OF assms])
    then show ?thesis using Some Inr by (simp add: patch_admin_def)
  qed
qed (simp add: assms patch_admin_def)

lemma guarded_patch_password: "guarded db \<Longrightarrow> guarded (snd (patch_password kdf salt pg now i p db))"
  by (simp add: patch_password_def guarded_set_password split: option.split)

lemma guarded_patch_user: "guarded db \<Longrightarrow> guarded (snd (handle_patch_user (\<lambda>d. d) kdf salt wired v pg now caller i body db))"
proof -
  assume g: "guarded db"
  have g1: "guarded db1" if "patch_admin (\<lambda>d. d) pg now i flag db = (r, db1)" for flag r db1
    using guarded_patch_admin [OF g, of pg now i flag] that by simp
  have g2: "guarded db2" if "patch_admin (\<lambda>d. d) pg now i flag db = (r, db1)" "patch_password kdf salt pg now i p db1 = (r', db2)"
    for flag r db1 p r' db2
    using guarded_patch_password [OF g1 [OF that(1)], of kdf salt pg now i p] that(2) by simp
  show ?thesis
    using g g1 g2 by (auto simp: handle_patch_user_def split: sum.split option.split prod.split)
qed

lemma guarded_delete_user: "guarded db \<Longrightarrow> guarded (snd (handle_delete_user (\<lambda>d. d) wired v pg caller i db))"
proof -
  assume g: "guarded db"
  then have ne: "access_wf db" "admins db \<noteq> []" by (auto simp: guarded_def admins_def filter_empty_conv)
  have "guarded (snd (delete_user (\<lambda>_. pg 2) i db))" if "last_admin_guard pg ''cannot delete the last admin'' i db = Inr x" for x
    using guarded_delete [OF g] guard_leaves_admin [OF ne] that by simp
  then show ?thesis using g by (simp add: handle_delete_user_def split: sum.split)
qed

lemma guarded_serve: "guarded db \<Longrightarrow> guarded (snd (serve req (tr, db)))"
proof (cases req)
  case (CreateUserReq kdf salt wired v pg now caller body)
  then show "guarded db \<Longrightarrow> ?thesis"
    by (simp add: handle_create_user_def Let_def guarded_create split: sum.split option.split)
next
  case (ChangePasswordReq kdf salt pg now caller body)
  then show "guarded db \<Longrightarrow> ?thesis"
    by (simp add: handle_change_password_def guarded_set_password split: sum.split option.split)
next
  case (SyncReq wired v pg now caller i info)
  assume g: "guarded db"
  have u: "guarded db'" if "upsert_user pg' now sub email name db = (r, db')" for pg' sub email name r db'
    using guarded_upsert [OF g, of pg' now sub email name] that by simp
  have c: "guarded db'" if "clear_username pg' now i db = (r, db')" for pg' r db'
    using guarded_clear [OF g, of pg' now i] that by simp
  show ?thesis using g u c SyncReq
    by (auto simp: handle_user_sync_def sync_me_def split: sum.split option.split prod.split)
qed (simp_all add: guarded_patch_user guarded_delete_user)

text \<open>
  C19. The hub keeps an administrator: as long as the user requests are served one after the other, whoever sends
  them and whatever fails, a registry that has an administrator has one afterwards, and its
  tables stay consistent.
\<close>

theorem administrators_remain:
  assumes "access_wf db" "\<exists>u \<in> set (az_users db). us_admin u"
  shows "access_wf (snd (fold serve reqs (tr, db))) \<and> (\<exists>u \<in> set (az_users (snd (fold serve reqs (tr, db)))). us_admin u)"
proof -
  have "guarded (snd (fold serve reqs (tr, db)))" if "guarded db" for tr db
    using that
  proof (induction reqs arbitrary: tr db)
    case (Cons req reqs)
    obtain tr' db' where s: "serve req (tr, db) = (tr', db')" by fastforce
    then have "guarded db'" using guarded_serve [OF Cons.prems, of req tr] by simp
    then show ?case using Cons.IH s by simp
  qed simp
  then show ?thesis using assms by (auto simp: guarded_def)
qed

definition demote :: "string \<Rightarrow> string \<Rightarrow> user_request" where
  "demote caller i = PatchUserReq sample_kdf None True (check_at 0) all_ok 0 (Some caller) i (Some (Some False, None))"

theorem administrators_remain_witness:
  "\<exists>u \<in> set (az_users (snd (fold serve [demote ''root'' ''ann'', demote ''root'' ''root''] ([], sample_access)))). us_admin u"
  using administrators_remain [OF sample_access_wf, of "[demote ''root'' ''ann'', demote ''root'' ''root'']" "[]"]
  by (simp add: sample_access_def sample_user_def)

text \<open>
  Served at the same time, two requests can remove the last administrators: the count and the write are
  separate statements, so when two administrators demote each other and the second request
  runs between the count and the write of the first, both succeed and nobody is left who
  could undo it.
\<close>

theorem demotions_race:
  assumes "az_users db = [a, b]" "us_id a \<noteq> us_id b" "us_admin a" "us_admin b"
    and "other = (\<lambda>d. snd (handle_patch_user (\<lambda>d. d) kdf salt True (check_at t) all_ok t (Some (us_id a)) (us_id b) (Some (Some False, None)) d))"
    and "handle_patch_user other kdf salt True (check_at t) all_ok t (Some (us_id b)) (us_id a) (Some (Some False, None)) db = (r, db')"
  shows "(\<exists>u. r = Inr u \<and> us_id u = us_id a) \<and> (\<forall>u \<in> set (az_users db'). \<not> us_admin u) \<and>
    (\<forall>caller body. handle_patch_user (\<lambda>d. d) kdf salt True (check_at t) all_ok t caller (us_id a) body db' = (Inl (Refused 403 ''admin required''), db') \<or>
       caller = None)"
proof -
  let ?low = "\<lambda>r :: user_row. r\<lparr>us_admin := False, us_updated := t\<rparr>"
  have n: "length (filter us_admin (map scan_user (sort_key us_username [a, b]))) = 2"
    using assms(3,4) by (simp add: scan_user_def insort_key.simps)
  have other: "other db = db\<lparr>az_users := [a, ?low b]\<rparr>"
    using assms(1-4) n
    by (simp add: assms(5) handle_patch_user_def require_admin_def is_admin_def get_user_def check_at_def patch_admin_def
        last_admin_guard_def count_admins_def list_users_def set_admin_def update_user_def has_row_def update_where_def
        patch_password_def sql_simps scan_user_def)
  have "r = Inr (scan_user (?low a)) \<and> db' = db\<lparr>az_users := [?low a, ?low b]\<rparr>"
    using assms(1-4,6) n other
    by (simp add: handle_patch_user_def require_admin_def is_admin_def get_user_def check_at_def patch_admin_def
        last_admin_guard_def count_admins_def list_users_def set_admin_def update_user_def has_row_def update_where_def
        patch_password_def sql_simps scan_user_def)
  then have res: "r = Inr (scan_user (?low a))" "db' = db\<lparr>az_users := [?low a, ?low b]\<rparr>" by simp_all
  have "require_admin True (check_at t) db' (Some c) = Inl (Forbidden ''admin required'')" for c
    by (simp add: require_admin_def is_admin_def get_user_def check_at_def res(2) sql_simps scan_user_def)
  then have "handle_patch_user (\<lambda>d. d) kdf salt True (check_at t) all_ok t (Some c) (us_id a) body db' = (Inl (Refused 403 ''admin required''), db')" for c body
    by (simp add: handle_patch_user_def refuse_def)
  then have "handle_patch_user (\<lambda>d. d) kdf salt True (check_at t) all_ok t caller (us_id a) body db' = (Inl (Refused 403 ''admin required''), db') \<or> caller = None" for caller body
    by (cases caller) simp_all
  then show ?thesis using res by (simp add: scan_user_def)
qed

theorem demotions_race_witness:
  "\<exists>r db'. handle_patch_user
       (\<lambda>d. snd (handle_patch_user (\<lambda>d. d) sample_kdf None True (check_at 0) all_ok 0 (Some ''root'') ''ann'' (Some (Some False, None)) d))
       sample_kdf None True (check_at 0) all_ok 0 (Some ''ann'') ''root'' (Some (Some False, None))
       (sample_access\<lparr>az_users := [sample_user ''root'' True, sample_user ''ann'' True]\<rparr>) = (r, db') \<and>
     (\<forall>u \<in> set (az_users db'). \<not> us_admin u)"
proof -
  let ?other = "\<lambda>d. snd (handle_patch_user (\<lambda>d. d) sample_kdf None True (check_at 0) all_ok 0 (Some ''root'') ''ann'' (Some (Some False, None)) d)"
  let ?db = "sample_access\<lparr>az_users := [sample_user ''root'' True, sample_user ''ann'' True]\<rparr>"
  obtain r db' where h: "handle_patch_user ?other sample_kdf None True (check_at 0) all_ok 0 (Some ''ann'') ''root'' (Some (Some False, None)) ?db = (r, db')"
    by fastforce
  have u: "az_users ?db = [sample_user ''root'' True, sample_user ''ann'' True]" by simp
  have i: "us_id (sample_user ''root'' True) = ''root''" "us_id (sample_user ''ann'' True) = ''ann''"
    "us_admin (sample_user ''root'' True)" "us_admin (sample_user ''ann'' True)"
    by (simp_all add: sample_user_def)
  have "(\<forall>u \<in> set (az_users db'). \<not> us_admin u)"
    using demotions_race [OF u _ i(3,4), of ?other sample_kdf None 0 r db'] h by (simp add: i(1,2))
  then show ?thesis using h by blast
qed

section \<open>Accounts that come back, accounts nobody can use\<close>

text \<open>
  Deleting a local user does not revoke its sessions and does not last: a request with a session token
  that has not expired still authenticates, and, unless the identity was persisted within the
  last five minutes, writes the user back into the registry, with no password and no
  rights, so that the name can be neither logged in with nor created again. The comment of
  DeleteUser says that deleting a local user revokes it.
\<close>

theorem deleted_user_returns:
  assumes "delete_user pg (sc_sub c) db = (Inr (), db1)" "verify_token jl now raw = Some c" "sc_username c \<noteq> []"
    and "jl_peek jl raw = jwt_issuer" "raw \<noteq> []" "trim_space raw = raw" "\<not> has_prefix raw token_prefix"
    and "case map_of tr (sc_sub c) of None \<Rightarrow> True | Some t \<Rightarrow> identity_persist_ttl \<le> now - t"
    and "local_chain sha jl all_ok now (bearer_prefix @ raw) (tr, db1) = (r, tr', db2)"
  shows "get_user all_ok (sc_sub c) db1 = Inl NotFound \<and> (\<exists>u. r = Inr u \<and> ou_sub u = sc_sub c) \<and>
    (\<exists>u. get_user all_ok (sc_sub c) db2 = Inr u \<and> \<not> us_admin u \<and> us_username u = sc_username c) \<and>
    user_password_hash all_ok (sc_sub c) db2 = Inr [] \<and>
    fst (create_local_user all_ok later (sc_sub c) email name hash b db2) = Inl AlreadyExists"
proof -
  have gone: "lookup_row us_id (sc_sub c) (az_users db1) = None"
    using assms(1) by (auto simp: delete_user_def sql_simps split: if_splits)
  let ?u = "\<lparr>ou_sub = sc_sub c, ou_email = [], ou_username = sc_username c, ou_roles = (if sc_admin c then [''admin''] else [])\<rparr>"
  let ?row = "\<lparr>us_id = sc_sub c, us_email = [], us_username = sc_username c, us_admin = False, us_created = now, us_updated = now, us_password = []\<rparr>"
  have "local_chain sha jl all_ok now (bearer_prefix @ raw) (tr, db1) = (Inr ?u, identity_persist True now ?u tr db1)"
    using local_session [OF assms(4-7), of sha all_ok now tr db1] assms(2) by (simp add: Let_def)
  then have "r = Inr ?u \<and> db2 = db1\<lparr>az_users := az_users db1 @ [?row]\<rparr>"
    using assms(3,8,9) gone by (simp add: identity_persist_def should_persist_def upsert_user_def Let_def)
  then have r: "r = Inr ?u" "db2 = db1\<lparr>az_users := az_users db1 @ [?row]\<rparr>" by simp_all
  have l: "lookup_row us_id (sc_sub c) (az_users db2) = Some ?row" using gone by (simp add: r(2) sql_simps)
  show ?thesis
    using gone l by (simp add: get_user_def user_password_hash_def create_local_user_def has_row_iff r(1) scan_user_def)
qed

theorem deleted_user_returns_witness:
  "\<exists>r tr' db2. local_chain (\<lambda>s. s) ann_jwt all_ok 7 (bearer_prefix @ ''eyJ'') ([], snd (delete_user all_ok ''local:ann'' ann_db)) = (r, tr', db2) \<and>
     user_password_hash all_ok ''local:ann'' db2 = Inr []"
proof -
  let ?c = "\<lparr>sc_sub = ''local:ann'', sc_username = ''ann'', sc_admin = False\<rparr>"
  have t: "trim_space ''eyJ'' = ''eyJ''" "\<not> has_prefix ''eyJ'' token_prefix" by code_simp+
  have v: "verify_token ann_jwt 7 ''eyJ'' = Some ?c"
    by (simp add: verify_token_def ann_jwt_def ann_claims_def login_second_def)
  have d: "delete_user all_ok (sc_sub ?c) ann_db = (Inr (), snd (delete_user all_ok ''local:ann'' ann_db))"
    by (simp add: delete_user_def ann_db_def ann_row_def has_row_def)
  have p: "jl_peek ann_jwt ''eyJ'' = jwt_issuer" by (simp add: ann_jwt_def)
  obtain r tr' db2 where l: "local_chain (\<lambda>s. s) ann_jwt all_ok 7 (bearer_prefix @ ''eyJ'')
      ([], snd (delete_user all_ok ''local:ann'' ann_db)) = (r, tr', db2)"
    using prod_cases3 by blast
  show ?thesis using deleted_user_returns [OF d v _ p _ t _ l] l by simp
qed

text \<open>
  The administrator made at start-up is unusable when its configured name is not in lower case or has blanks
  around it: the account is stored under the name as given, and every login looks the name up
  trimmed and in lower case, so that no login ever returns that account.
\<close>

theorem bootstrap_needs_plain_name:
  assumes "bootstrap_local_admin kdf salt all_ok now name password db = (Inr (), db')"
    and "get_user all_ok (local_user_id_prefix @ name) db = Inl NotFound" "name \<noteq> []"
    and "\<And>n. name \<noteq> to_lower (trim_space n)"
  shows "(\<exists>u. get_user all_ok (local_user_id_prefix @ name) db' = Inr u \<and> us_admin u) \<and>
    fst (bootstrap_local_admin kdf salt all_ok now name password db') = Inr () \<and>
    (\<forall>body raw expires u. fst (handle_login kdf jl enabled pg later body db' th) = Inr (raw, expires, u) \<longrightarrow>
       us_id u \<noteq> local_user_id_prefix @ name)"
proof -
  have gone: "lookup_row us_id (local_user_id_prefix @ name) (az_users db) = None"
    using assms(2) by (auto simp: get_user_def split: option.splits)
  obtain h where h: "db' = db\<lparr>az_users := az_users db @ [\<lparr>us_id = local_user_id_prefix @ name, us_email = [], us_username = name,
      us_admin = True, us_created = now, us_updated = now, us_password = h\<rparr>]\<rparr>"
    using assms(1,2,3) gone
    by (auto simp: bootstrap_local_admin_def create_local_user_def has_row_iff Let_def split: if_splits option.splits)
  have u: "\<exists>u. get_user all_ok (local_user_id_prefix @ name) db' = Inr u \<and> us_admin u"
    using gone by (simp add: h get_user_def sql_simps scan_user_def)
  then have "fst (bootstrap_local_admin kdf salt all_ok now name password db') = Inr ()"
    using assms(3) by (auto simp: bootstrap_local_admin_def)
  moreover have "us_id u \<noteq> local_user_id_prefix @ name"
    if l: "fst (handle_login kdf jl enabled pg later body db' th) = Inr (raw, expires, u)" for body raw expires u
  proof -
    obtain n p where b: "body = Some (n, p)" using l by (cases body) (auto simp: handle_login_def split: if_splits)
    obtain th' where "handle_login kdf jl enabled pg later (Some (n, p)) db' th = (Inr (raw, expires, u), th')"
      using l b by (metis prod.collapse)
    from login_user(1) [OF this] show ?thesis using assms(4) [of n] by simp
  qed
  ultimately show ?thesis using u by blast
qed

theorem bootstrap_needs_plain_name_witness:
  "fst (handle_login sample_kdf ann_jwt True all_ok 1 (Some (''Admin'', ''secret''))
     (snd (bootstrap_local_admin sample_kdf (Some ''salt'') all_ok 0 ''Admin'' ''secret'' ann_db)) []) \<noteq>
   Inr (''eyJ'', token_ttl, \<lparr>us_id = ''local:Admin'', us_email = [], us_username = ''Admin'', us_admin = True, us_created = 0, us_updated = 0\<rparr>)"
proof -
  have "CHR ''A'' \<notin> set (to_lower n)" for n
  proof
    assume "CHR ''A'' \<in> set (to_lower n)"
    then obtain c where c: "c \<in> set n" "to_lower_char c = CHR ''A''" by (auto simp: to_lower_def)
    from c(2) have "of_char (to_lower_char c) = (65 :: nat)" by simp
    then show False by (auto simp: to_lower_char_def less_eq_char_def of_char_of split: if_splits)
  qed
  then have n: "''Admin'' \<noteq> to_lower (trim_space n)" for n by (metis list.set_intros(1))
  have b: "bootstrap_local_admin sample_kdf (Some ''salt'') all_ok 0 ''Admin'' ''secret'' ann_db =
      (Inr (), snd (bootstrap_local_admin sample_kdf (Some ''salt'') all_ok 0 ''Admin'' ''secret'' ann_db))"
    by (simp add: bootstrap_local_admin_def get_user_def ann_db_def ann_row_def sql_simps local_user_id_prefix_def hash_password_def
        create_local_user_def has_row_def Let_def)
  have g: "get_user all_ok (local_user_id_prefix @ ''Admin'') ann_db = Inl NotFound"
    by (simp add: get_user_def ann_db_def ann_row_def sql_simps local_user_id_prefix_def)
  show ?thesis
  proof
    assume "fst (handle_login sample_kdf ann_jwt True all_ok 1 (Some (''Admin'', ''secret''))
       (snd (bootstrap_local_admin sample_kdf (Some ''salt'') all_ok 0 ''Admin'' ''secret'' ann_db)) []) =
     Inr (''eyJ'', token_ttl, \<lparr>us_id = ''local:Admin'', us_email = [], us_username = ''Admin'', us_admin = True, us_created = 0, us_updated = 0\<rparr>)"
    then show False
      using bootstrap_needs_plain_name [OF b g _ n, of ann_jwt True all_ok 1 "[]"]
      by (fastforce simp: local_user_id_prefix_def)
  qed
qed

end
