(* ===== verification/ActivityRules.thy ===== *)
theory ActivityRules
  imports ActivityApi
begin

text \<open>
  What the activity endpoints disclose: every record they show belongs to a resource its reader may read, with one
  exception, the history of invocations in the database; the event list shows exactly those events; and an event
  is listed to a caller just when that caller can fetch it.
\<close>

section \<open>Every record has a reader\<close>

text \<open>The resources any one of which makes a record visible.\<close>

definition entry_owners :: "activity_entry \<Rightarrow> (string \<times> string) list" where
  "entry_owners a = (''connector'', ae_connector a) # map (\<lambda>m. (''agent'', am_agent m)) (ae_matches a)"

fun owners :: "activity_reply \<Rightarrow> (string \<times> string) list list" where
  "owners (EventPage es n) = map entry_owners es"
| "owners (OneEvent a) = [entry_owners a]"
| "owners (InvocationPage is n) = map (\<lambda>(i, t). [(''agent'', iv_agent i)]) is"
| "owners (OneInvocation i) = [if iv_agent i = [] then [] else [(''agent'', iv_agent i)]]"
| "owners (ErrorList es) = map (\<lambda>l. [(''agent'', lg_agent l)]) es"
| "owners (LogLines ls) = map (\<lambda>l. [(''agent'', lg_agent (ll_entry l))]) ls"
| "owners (Messages ms) = map (\<lambda>m. [(''agent'', cm_agent m)]) ms"

definition may_see :: "authz_db \<Rightarrow> string \<Rightarrow> (string \<times> string) list \<Rightarrow> bool" where
  "may_see db sub os \<longleftrightarrow> admin_user db sub \<or> (\<exists>(rt, rn) \<in> set os. permitted db sub role_reader rt rn)"

lemma may_see_agent: "permitted db sub role_reader ''agent'' n \<Longrightarrow> may_see db sub [(''agent'', n)]"
  by (simp add: may_see_def)

text \<open>The scope of a caller holds what the caller may read.\<close>

lemma scope_sound:
  assumes "cl_wired v" "cl_caller v = Some sub" "access_wf db"
  shows "sc_unrestricted (telemetry_scope_for v e db) \<Longrightarrow> admin_user db sub"
    and "allows_agent (telemetry_scope_for v e db) n \<Longrightarrow> permitted db sub role_reader ''agent'' n"
    and "allows_connector (telemetry_scope_for v e db) n \<Longrightarrow> permitted db sub role_reader ''connector'' n"
  using assms
  by (auto simp: telemetry_scope_for_def allows_agent_def allows_connector_def caller_is_admin_def permitted_def
      split: if_splits sum.splits option.splits dest: is_admin_sound dest!: filter_by_access_sound)

lemma listed_agents_sound:
  assumes "cl_wired v" "cl_caller v = Some sub" "access_wf db" "n \<in> set (sc_agents (telemetry_scope_for v e db))"
  shows "permitted db sub role_reader ''agent'' n"
  using scope_sound(2) [OF assms(1-3), of e n] assms(4) by (simp add: allows_agent_def)

lemma am_agent_match [simp]: "am_agent (activity_match_of ok h t) = t_agent t"
  by (simp add: activity_match_of_def Let_def split: option.split)

lemma entry_owners_built:
  "entry_owners (build_activity_entry ok h e ts) = (''connector'', qe_connector e) # map (\<lambda>t. (''agent'', t_agent t)) ts"
  by (simp add: entry_owners_def build_activity_entry_def o_def)

lemma tasks_for_events_set:
  assumes "tasks_for_events pg ids q = Inr ts"
  shows "t \<in> set ts \<longleftrightarrow> (\<exists>r \<in> set (q_tasks q). t = scan_task_full r \<and> tk_event r \<in> set ids)"
  using assms by (auto simp: tasks_for_events_def split: if_splits)

text \<open>An event the scoped filter selects has an owner in the scope.\<close>

lemma scoped_selected:
  assumes "scoped_filter sc f = Some f'" "\<not> sc_unrestricted sc" "r \<in> set (selected invs f' q)"
  shows "er_connector r \<in> set (sc_connectors sc) \<or> (\<exists>t \<in> set (q_tasks q). tk_event t = er_id r \<and> tk_agent t \<in> set (sc_agents sc))"
proof -
  have f: "f' = f\<lparr>ef_connectors := sc_connectors sc, ef_agents := sc_agents sc\<rparr>" "sc_connectors sc \<noteq> [] \<or> sc_agents sc \<noteq> []"
    using assms(1,2) by (auto simp: scoped_filter_def scope_is_empty_def split: if_splits)
  have "(ef_connectors f' \<noteq> [] \<and> er_connector r \<in> set (ef_connectors f')) \<or>
      (ef_agents f' \<noteq> [] \<and> has_task (q_tasks q) r (\<lambda>t. tk_agent t \<in> set (ef_agents f')))"
    using assms(3) f unfolding selected_def conditions_def by auto
  then show ?thesis unfolding f(1) by (auto simp: has_task_def list_ex_iff)
qed

lemma activity_entries_set:
  assumes "activity_entries tok ok h es q = Inr as" "a \<in> set as"
  obtains e ts where "e \<in> set es" "a = build_activity_entry ok h e ts"
    "\<And>r. r \<in> set (q_tasks q) \<Longrightarrow> tk_event r = qe_id e \<Longrightarrow> scan_task_full r \<in> set ts"
proof (cases "es = []")
  case False
  then obtain ts where ts: "tasks_for_events (\<lambda>_. tok) (map qe_id es) q = Inr ts"
    and as: "as = map (\<lambda>e. build_activity_entry ok h e (filter (\<lambda>t. t_event t = qe_id e) ts)) es"
    using assms(1) by (auto simp: activity_entries_def split: sum.splits)
  from as assms(2) obtain e where e: "e \<in> set es" "a = build_activity_entry ok h e (filter (\<lambda>t. t_event t = qe_id e) ts)" by auto
  show ?thesis
  proof (rule that [OF e])
    fix r assume "r \<in> set (q_tasks q)" "tk_event r = qe_id e"
    then show "scan_task_full r \<in> set (filter (\<lambda>t. t_event t = qe_id e) ts)"
      using e(1) by (auto simp: tasks_for_events_set [OF ts] scan_task_full_def)
  qed
qed (use assms in \<open>simp add: activity_entries_def\<close>)

lemma newest_first_set [simp]: "set (newest_first rows) = set rows"
  by (simp add: newest_first_def)

lemma event_page_entries:
  assumes "event_page x f limit offset h q = Inr (as, n)" "a \<in> set as"
  obtains r ts where "r \<in> set (selected (history_statuses h) f q)" "a = build_activity_entry (re_invocation x) h (scan_event r) ts"
    "\<And>t. t \<in> set (q_tasks q) \<Longrightarrow> tk_event t = er_id r \<Longrightarrow> scan_task_full t \<in> set ts"
proof -
  obtain es where es: "query_events (\<lambda>_. re_pg x 0) (history_statuses h) f limit offset q = Inr es"
    and as: "activity_entries (re_pg x 2) (re_invocation x) h es q = Inr as"
    using assms(1) by (auto simp: event_page_def split: sum.splits)
  from as assms(2) obtain e ts where e: "e \<in> set es" "a = build_activity_entry (re_invocation x) h e ts"
    "\<And>r. r \<in> set (q_tasks q) \<Longrightarrow> tk_event r = qe_id e \<Longrightarrow> scan_task_full r \<in> set ts"
    by (rule activity_entries_set) blast
  from es e(1) obtain r where r: "e = scan_event r" "r \<in> set (selected (history_statuses h) f q)"
    by (auto simp: query_events_def split: if_splits dest!: in_set_takeD in_set_dropD)
  show ?thesis by (rule that [OF r(2)]) (use e r in \<open>auto simp: scan_event_def\<close>)
qed

lemma listed_event_visible:
  assumes "list_events v e x parse rq s = Inr (as, n)" "a \<in> set as"
    and "cl_wired v" "cl_caller v = Some sub" "access_wf (ap_authz s)"
  shows "may_see (ap_authz s) sub (entry_owners a)"
proof (cases "sc_unrestricted (telemetry_scope_for v e (ap_authz s))")
  case True
  then show ?thesis using scope_sound(1) [OF assms(3-5)] by (auto simp: may_see_def)
next
  case False
  let ?sc = "telemetry_scope_for v e (ap_authz s)"
  obtain q limit offset f f' where f: "scoped_filter ?sc f = Some f'" "event_page x f' limit offset (aw_history (ap_data s)) q = Inr (as, n)"
    using assms(1,2) by (auto simp: list_events_def split: option.splits sum.splits)
  from f(2) assms(2) obtain r ts where r: "r \<in> set (selected (history_statuses (aw_history (ap_data s))) f' q)"
      "a = build_activity_entry (re_invocation x) (aw_history (ap_data s)) (scan_event r) ts"
      "\<And>t. t \<in> set (q_tasks q) \<Longrightarrow> tk_event t = er_id r \<Longrightarrow> scan_task_full t \<in> set ts"
    by (rule event_page_entries) blast
  from scoped_selected [OF f(1) False r(1)] show ?thesis
  proof (elim disjE bexE conjE)
    assume "er_connector r \<in> set (sc_connectors ?sc)"
    then have "permitted (ap_authz s) sub role_reader ''connector'' (er_connector r)"
      using scope_sound(3) [OF assms(3-5), of e "er_connector r"] by (simp add: allows_connector_def)
    then show ?thesis by (simp add: may_see_def r(2) entry_owners_built scan_event_def)
  next
    fix t assume t: "t \<in> set (q_tasks q)" "tk_event t = er_id r" "tk_agent t \<in> set (sc_agents ?sc)"
    then have "permitted (ap_authz s) sub role_reader ''agent'' (tk_agent t)"
      using listed_agents_sound [OF assms(3-5)] by blast
    moreover have "scan_task_full t \<in> set ts" "t_agent (scan_task_full t) = tk_agent t" using r(3) t by (simp_all add: scan_task_full_def)
    ultimately show ?thesis unfolding may_see_def r(2) entry_owners_built
      by (auto intro!: bexI [of _ "scan_task_full t"])
  qed
qed

lemma fetched_event_visible:
  assumes "get_event_entry v e x i s = Inr a"
    and "cl_wired v" "cl_caller v = Some sub" "access_wf (ap_authz s)"
  shows "may_see (ap_authz s) sub (entry_owners a)"
proof -
  let ?sc = "telemetry_scope_for v e (ap_authz s)"
  obtain ev ts where a: "a = build_activity_entry (re_invocation x) (aw_history (ap_data s)) ev ts"
    and "sc_unrestricted ?sc \<or> allows_connector ?sc (qe_connector ev) \<or> list_ex (\<lambda>t. allows_agent ?sc (t_agent t)) ts"
    using assms(1) by (auto simp: get_event_entry_def Let_def split: if_splits option.splits sum.splits)
  then show ?thesis
    using scope_sound [OF assms(2-4), of e] unfolding a entry_owners_built may_see_def list_ex_iff by fastforce
qed

lemma in_cap_list: "x \<in> set (cap_list l xs) \<Longrightarrow> x \<in> set xs"
  by (auto simp: cap_list_def split: if_splits dest: in_set_takeD)

lemma ring_list_selects:
  assumes "i \<in> set (fst (history_list pg o1 (InMemory m)))"
  shows "mem_selects o1 i"
  using in_cap_list [of i] assms by (fastforce simp: mem_list_with_total_def Let_def)

lemma ring_selects_agents:
  "mem_selects (invocation_options parse r agents) i \<Longrightarrow> nq_agent r \<noteq> [] \<Longrightarrow> iv_agent i = nq_agent r"
  "mem_selects (invocation_options parse r agents) i \<Longrightarrow> agents \<noteq> [] \<Longrightarrow> iv_agent i \<in> set agents"
  by (auto simp: mem_selects_def invocation_options_def split: if_splits)

lemma missing_invocations_scoped:
  "(i, t) \<in> set (missing_invocations sc known ts) \<Longrightarrow> allows_agent sc (iv_agent i)"
  by (induction sc known ts rule: missing_invocations.induct) (auto simp: synthetic_invocation_def split: if_splits)

lemma enriched_invocations:
  assumes "enrich_with_tasks ok sc list n event q = (out, m)" "(i, t) \<in> set out"
  shows "i \<in> set list \<or> allows_agent sc (iv_agent i)"
  using assms by (auto simp: enrich_with_tasks_def Let_def split: sum.splits dest: missing_invocations_scoped)

lemma page_invocations:
  assumes "(i, t) \<in> set (fst (invocation_page x sc p o1 h q))"
  shows "i \<in> set (fst (history_list (re_pg x) o1 h)) \<or> allows_agent sc (iv_agent i)"
  using assms enriched_invocations [of "re_pg x 2" sc "fst (history_list (re_pg x) o1 h)" "snd (history_list (re_pg x) o1 h)" "lo_event o1" _ _ _ i t]
  by (auto simp: invocation_page_def split: prod.splits option.splits if_splits dest!: in_page_items)

lemma ring_page_visible:
  assumes "list_invocations v e x parse r s = (Inr (is, n), s')" "(i, t) \<in> set is" "aw_history (ap_data s) = Some (InMemory m)"
    and "cl_wired v" "cl_caller v = Some sub" "access_wf (ap_authz s)" "current v s"
  shows "may_see (ap_authz s) sub [(''agent'', iv_agent i)]"
proof -
  let ?sc = "telemetry_scope_for v e (ap_authz s)"
  define answer where "answer = (\<lambda>p agents s1. (Inr (invocation_page x ?sc p (invocation_options parse r agents) (InMemory m)
    (aw_queue (ap_data s1))), s1) :: (refusal + (invocation \<times> task_state option) list \<times> nat) \<times> activity_world api)"
  have page: "mem_selects (invocation_options parse r agents) i \<or> allows_agent ?sc (iv_agent i)"
    if "is = fst (invocation_page x ?sc p (invocation_options parse r agents) (InMemory m) q)" for p agents q
    using page_invocations [of i t] assms(2) ring_list_selects unfolding that by blast
  have sound: "allows_agent ?sc k \<Longrightarrow> may_see (ap_authz s) sub [(''agent'', k)]" for k
    using scope_sound(2) [OF assms(4-6), of e k] may_see_agent by blast
  show ?thesis
  proof (cases "nq_agent r = []")
    case False
    then obtain p where "guard_read v ''agent'' (nq_agent r) (answer p []) s = (Inr (is, n), s')"
      using assms(1,3) by (auto simp: list_invocations_def answer_def Let_def split: sum.splits)
    then obtain c where c: "permitted (ap_authz s) sub role_reader ''agent'' (nq_agent r)"
        "answer p [] (s\<lparr>ap_cache := c\<rparr>) = (Inr (is, n), s')"
      using assms(5) by (elim guard_read_passes [OF _ assms(4,7)]) auto
    from c(2) have "is = fst (invocation_page x ?sc p (invocation_options parse r []) (InMemory m) (aw_queue (ap_data s)))"
      by (auto simp: answer_def)
    from page [OF this] have "iv_agent i = nq_agent r \<or> allows_agent ?sc (iv_agent i)"
      using ring_selects_agents(1) False by blast
    then show ?thesis using may_see_agent [OF c(1)] sound by auto
  next
    case True
    show ?thesis
    proof (cases "sc_unrestricted ?sc")
      case True
      then show ?thesis using scope_sound(1) [OF assms(4-6)] by (auto simp: may_see_def)
    next
      case False
      with True assms(1-3) obtain p where ne: "sc_agents ?sc \<noteq> []"
          and pg: "invocation_page x ?sc p (invocation_options parse r (sc_agents ?sc)) (InMemory m) (aw_queue (ap_data s)) = (is, n)"
        by (auto simp: list_invocations_def Let_def split: sum.splits if_splits)
      from pg have "is = fst (invocation_page x ?sc p (invocation_options parse r (sc_agents ?sc)) (InMemory m) (aw_queue (ap_data s)))"
        by simp
      with ne have "iv_agent i \<in> set (sc_agents ?sc) \<or> allows_agent ?sc (iv_agent i)"
        using page ring_selects_agents(2) by blast
      then show ?thesis using sound by (auto simp: allows_agent_def)
    qed
  qed
qed

lemma fetched_invocation_visible:
  assumes "get_invocation v e x i s = (Inr rec, s')"
    and "cl_wired v" "cl_caller v = Some sub" "access_wf (ap_authz s)" "current v s"
  shows "may_see (ap_authz s) sub (if iv_agent rec = [] then [] else [(''agent'', iv_agent rec)])"
proof -
  obtain h rec0 where h: "history_get (re_pg x 0) i h = Some rec0"
    and r: "(if iv_agent rec0 = [] then (if sc_unrestricted (telemetry_scope_for v e (ap_authz s)) then (Inr rec0, s)
        else (Inl (Refused 403 ''forbidden''), s))
      else guard_read v ''agent'' (iv_agent rec0) (\<lambda>s. (Inr rec0, s)) s) = (Inr rec, s')"
    using assms(1) by (auto simp: get_invocation_def split: if_splits option.splits)
  show ?thesis
  proof (cases "iv_agent rec0 = []")
    case True
    then show ?thesis using r scope_sound(1) [OF assms(2-4)] by (auto simp: may_see_def split: if_splits)
  next
    case False
    then have "guard_read v ''agent'' (iv_agent rec0) (\<lambda>s. (Inr rec0, s)) s = (Inr rec, s')" using r by simp
    then show ?thesis
      using assms(3) False by (elim guard_read_passes [OF _ assms(2,5)]) (auto simp: may_see_def)
  qed
qed

text \<open>The rule of logs, errors and conversations.\<close>

lemma scoped_records_visible:
  assumes "scoped_records v e agent read s = (Inr rs, s')" "r \<in> set rs"
    and "cl_wired v" "cl_caller v = Some sub" "access_wf (ap_authz s)" "current v s"
    and named: "\<And>rs r. agent \<noteq> [] \<Longrightarrow> read [] = Inr rs \<Longrightarrow> r \<in> set rs \<Longrightarrow> owner r = agent"
    and listed: "\<And>ns rs r. agent = [] \<Longrightarrow> ns \<noteq> [] \<Longrightarrow> read ns = Inr rs \<Longrightarrow> r \<in> set rs \<Longrightarrow> owner r \<in> set ns"
  shows "may_see (ap_authz s) sub [(''agent'', owner r)]"
proof (cases "agent = []")
  case False
  then have "guard_read v ''agent'' agent (\<lambda>s. (read [], s)) s = (Inr rs, s')" using assms(1) by (simp add: scoped_records_def)
  then show ?thesis
    using assms(2,4) named [OF False] by (elim guard_read_passes [OF _ assms(3,6)]) (auto simp: may_see_def)
next
  case True
  let ?sc = "telemetry_scope_for v e (ap_authz s)"
  show ?thesis
  proof (cases "sc_unrestricted ?sc")
    case True
    then show ?thesis using scope_sound(1) [OF assms(3-5)] by (auto simp: may_see_def)
  next
    case False
    then have "sc_agents ?sc \<noteq> []" "read (sc_agents ?sc) = Inr rs"
      using True assms(1,2) by (auto simp: scoped_records_def Let_def split: if_splits)
    then have "owner r \<in> set (sc_agents ?sc)" using listed [OF True] assms(2) by blast
    then show ?thesis using listed_agents_sound [OF assms(3-5)] may_see_agent by blast
  qed
qed

lemma read_logs_named: "read_logs ok msg o1 db [] = Inr es \<Longrightarrow> lo_name o1 \<noteq> [] \<Longrightarrow> l \<in> set es \<Longrightarrow> lg_agent l = lo_name o1"
  by (auto simp: read_logs_def list_logs_def map_sum_Inr_iff log_conditions_def split: if_splits option.splits dest!: in_set_takeD)

lemma read_logs_listed: "read_logs ok msg o1 db ns = Inr es \<Longrightarrow> ns \<noteq> [] \<Longrightarrow> l \<in> set es \<Longrightarrow> lg_agent l \<in> set ns"
  by (auto simp: read_logs_def list_logs_def map_sum_Inr_iff log_conditions_def split: if_splits option.splits dest!: in_set_takeD)

lemma log_lines_visible:
  assumes "list_log_lines v e x pd r s = (Inr ls, s')" "l \<in> set ls"
    and "cl_wired v" "cl_caller v = Some sub" "access_wf (ap_authz s)" "current v s"
  shows "may_see (ap_authz s) sub [(''agent'', lg_agent (ll_entry l))]"
proof -
  obtain o1 db es where es: "scoped_records v e (gq_agent r) (read_logs (re_pg x 0) ''failed to query logs: '' o1 db) s = (Inr es, s')"
      "lo_name o1 = gq_agent r" "ll_entry l \<in> set es"
  proof -
    obtain d limit db where "map_reply (map (\<lambda>l. \<lparr>ll_entry = l,
          ll_agent_name = (case map_of (se_agents e) (lg_agent l) of None \<Rightarrow> [] | Some n \<Rightarrow> n)\<rparr>))
        (scoped_records v e (gq_agent r) (read_logs (re_pg x 0) ''failed to query logs: ''
          \<lparr>lo_name = gq_agent r, lo_names = [], lo_level = [], lo_since = Some (cl_now v - d), lo_until = None, lo_limit = limit\<rparr> db) s) = (Inr ls, s')"
      using assms(1) by (auto simp: list_log_lines_def Let_def split: sum.splits option.splits)
    moreover from this obtain es where "scoped_records v e (gq_agent r) (read_logs (re_pg x 0) ''failed to query logs: ''
          \<lparr>lo_name = gq_agent r, lo_names = [], lo_level = [], lo_since = Some (cl_now v - d), lo_until = None, lo_limit = limit\<rparr> db) s = (Inr es, s')"
        "ls = map (\<lambda>l. \<lparr>ll_entry = l, ll_agent_name = (case map_of (se_agents e) (lg_agent l) of None \<Rightarrow> [] | Some n \<Rightarrow> n)\<rparr>) es"
      by (auto simp: map_prod_def map_sum_Inr_iff split: prod.splits)
    ultimately show ?thesis using that assms(2) by fastforce
  qed
  show ?thesis
    by (rule scoped_records_visible [OF es(1,3) assms(3-6)])
      (use es(2) read_logs_named [of "re_pg x 0" "''failed to query logs: ''" o1 db] read_logs_listed [of "re_pg x 0" "''failed to query logs: ''" o1 db] in auto)
qed

lemma errors_visible:
  assumes "list_errors v e x pt r s = (Inr es, s')" "l \<in> set es"
    and "cl_wired v" "cl_caller v = Some sub" "access_wf (ap_authz s)" "current v s"
  shows "may_see (ap_authz s) sub [(''agent'', lg_agent l)]"
proof -
  obtain o1 db where o: "scoped_records v e (gq_agent r) (read_logs (re_pg x 0) ''failed to query errors: '' o1 db) s = (Inr es, s')"
      "lo_name o1 = gq_agent r"
  proof -
    obtain db where "scoped_records v e (gq_agent r) (read_logs (re_pg x 0) ''failed to query errors: ''
        \<lparr>lo_name = gq_agent r, lo_names = [], lo_level = level_error,
          lo_since = Some (if gq_since r = [] then cl_now v - 24 * hour
            else case pt (gq_since r) of None \<Rightarrow> cl_now v - 24 * hour | Some t \<Rightarrow> t), lo_until = None,
          lo_limit = (if gq_limit r = [] then 50 else case atoi (gq_limit r) of None \<Rightarrow> 50 | Some n \<Rightarrow> if 0 < n then n else 50)\<rparr> db) s = (Inr es, s')"
      using assms(1) by (simp add: list_errors_def Let_def split: option.splits)
    then show ?thesis by (rule that) simp
  qed
  show ?thesis
    by (rule scoped_records_visible [OF o(1) assms(2-6)])
      (use o(2) read_logs_named [of "re_pg x 0" "''failed to query errors: ''" o1 db] read_logs_listed [of "re_pg x 0" "''failed to query errors: ''" o1 db] in auto)
qed

lemma messages_visible:
  assumes "list_messages v e x r s = (Inr ms, s')" "m \<in> set ms"
    and "cl_wired v" "cl_caller v = Some sub" "access_wf (ap_authz s)" "current v s"
  shows "may_see (ap_authz s) sub [(''agent'', cm_agent m)]"
proof -
  obtain db limit where o: "scoped_records v e (vq_agent r)
      (\<lambda>agents. map_sum (\<lambda>_. Refused 502 ''failed to query conversations: '') id (list_conversations (\<lambda>_. re_pg x 0)
        \<lparr>co_name = vq_agent r, co_names = agents, co_invocation = vq_invocation r, co_correlation = vq_correlation r,
         co_limit = limit\<rparr> db)) s = (Inr ms, s')"
    using assms(1) by (simp add: list_messages_def Let_def split: option.splits)
  show ?thesis
    by (rule scoped_records_visible [OF o assms(2-6)])
      (auto simp: map_sum_Inr_iff list_conversations_def conversation_conditions_def split: if_splits dest!: in_set_takeD)
qed

text \<open>
  C32. Every record the activity endpoints show has a reader: with access control wired, consistent tables and current
  cached roles, and whatever queries fail, an event that is listed or fetched comes from a connector or went to an agent the caller may
  read, and an invocation, an error, a log line or a message belongs to an agent the caller may read; an invocation
  without an agent is shown to administrators only. For the list of invocations this needs the history in memory.
\<close>

theorem records_are_scoped:
  assumes "handle_activity e x pt pd v q s = (Inr rep, s')" "os \<in> set (owners rep)"
    and "cl_wired v" "cl_caller v = Some sub" "access_wf (ap_authz s)"
    and "coherent (ap_cache s) (ap_authz s) sub (ck_now (cl_check v))"
    and "\<And>r. q = ListInvocations r \<Longrightarrow> \<exists>m. aw_history (ap_data s) = Some (InMemory m)"
  shows "may_see (ap_authz s) sub os"
proof -
  have c: "current v s" using assms(4-6) by (simp add: current_def)
  note wf = assms(3-5)
  show ?thesis
  proof (cases q)
    case (ListEvents r)
    then show ?thesis using assms(1,2) listed_event_visible [OF _ _ wf] by (auto simp: map_sum_Inr_iff)
  next
    case (GetEventEntry i)
    then show ?thesis using assms(1,2) fetched_event_visible [OF _ wf] by (auto simp: map_sum_Inr_iff)
  next
    case (ListInvocations r)
    then show ?thesis using assms(1,2,7) ring_page_visible [OF _ _ _ wf c] by (fastforce simp: map_sum_Inr_iff map_prod_def split: prod.splits)
  next
    case (GetInvocation i)
    then show ?thesis using assms(1,2) fetched_invocation_visible [OF _ wf c] by (fastforce simp: map_sum_Inr_iff map_prod_def split: prod.splits)
  next
    case (ListErrors r)
    then show ?thesis using assms(1,2) errors_visible [OF _ _ wf c] by (fastforce simp: map_sum_Inr_iff map_prod_def split: prod.splits)
  next
    case (ListLogLines r)
    then show ?thesis using assms(1,2) log_lines_visible [OF _ _ wf c] by (fastforce simp: map_sum_Inr_iff map_prod_def split: prod.splits)
  next
    case (ListMessages r)
    then show ?thesis using assms(1,2) messages_visible [OF _ _ wf c] by (fastforce simp: map_sum_Inr_iff map_prod_def split: prod.splits)
  qed
qed

text \<open>A hub whose access tables are those of the examples: \<open>ann\<close> may read the agent \<open>a1\<close> and nothing of \<open>a9\<close>.\<close>

definition sample_scope :: scope_env where
  "sample_scope = \<lparr>se_admin = check_at 5, se_agent_check = check_at 5, se_connector_check = check_at 5, se_public = False,
     se_agents = [(''a1'', ''Ada''), (''a9'', ''Nin'')], se_connectors = None\<rparr>"

definition sample_reads :: read_env where
  "sample_reads = \<lparr>re_pg = all_ok, re_invocation = (\<lambda>_. True)\<rparr>"

definition sample_line :: "string \<Rightarrow> log_entry" where
  "sample_line a = \<lparr>lg_id = 1, lg_invocation = [], lg_correlation = [], lg_agent = a, lg_level = level_error, lg_message = ''boom'',
     lg_fields = None, lg_created = 5\<rparr>"

definition sample_task_row :: "string \<Rightarrow> string \<Rightarrow> task_row" where
  "sample_task_row ev a = \<lparr>tk_id = 1, tk_event = ev, tk_agent = a, tk_trigger = ''t1'', tk_invocation = [], tk_headers = [],
     tk_payload = JNull, tk_status = Completed, tk_attempts = 1, tk_max = 10, tk_retry_after = None, tk_claimed_at = None,
     tk_completed_at = None, tk_error = [], tk_created = 1\<rparr>"

definition sample_event_row :: "string \<Rightarrow> event_row" where
  "sample_event_row i = \<lparr>er_id = i, er_connector = ''c9'', er_channel = None, er_headers = [], er_data = JNull, er_raw = [],
     er_received = 1, er_routed = None\<rparr>"

definition sample_activity :: "history \<Rightarrow> activity_world api" where
  "sample_activity h = \<lparr>ap_authz = sample_access, ap_cache = new_group_cache 30,
     ap_data = \<lparr>aw_queue = Some (empty_queue\<lparr>q_events := [sample_event_row ''e1''], q_tasks := [sample_task_row ''e1'' ''a1'']\<rparr>),
       aw_history = Some h,
       aw_logs = Some \<lparr>ld_logs = [sample_line ''a1'', sample_line ''a9''], ld_messages = [], ld_next_log = 1, ld_next_message = 1\<rparr>\<rparr>\<rparr>"

lemma sample_telemetry_scope:
  "telemetry_scope_for (plain_call ''ann'') sample_scope sample_access = \<lparr>sc_unrestricted = False, sc_agents = [''a1''], sc_connectors = []\<rparr>"
  by code_simp

theorem records_are_scoped_witness:
  "\<exists>es s'. handle_activity sample_scope sample_reads (\<lambda>_. None) (\<lambda>_. None) (plain_call ''ann'')
      (ListErrors \<lparr>gq_limit = [], gq_since = [], gq_range = [], gq_agent = []\<rparr>) (sample_activity (InDatabase [])) =
      (Inr (ErrorList es), s') \<and> map lg_agent es = [''a1''] \<and> may_see sample_access ''ann'' [(''agent'', ''a1'')]"
proof -
  let ?q = "ListErrors \<lparr>gq_limit = [], gq_since = [], gq_range = [], gq_agent = []\<rparr>" and ?s = "sample_activity (InDatabase [])"
  have h: "handle_activity sample_scope sample_reads (\<lambda>_. None) (\<lambda>_. None) (plain_call ''ann'') ?q ?s = (Inr (ErrorList [sample_line ''a1'']), ?s)"
    using sample_telemetry_scope
    by (simp add: list_errors_def sample_activity_def scoped_records_def Let_def read_logs_def list_logs_def sample_reads_def
        log_conditions_def sample_line_def plain_call_def hour_def log_limit_def)
  have "may_see (ap_authz ?s) ''ann'' [(''agent'', ''a1'')]"
    by (rule records_are_scoped [OF h])
      (simp_all add: sample_line_def plain_call_def sample_activity_def sample_access_wf coherent_def new_group_cache_def)
  then show ?thesis using h by (auto simp: sample_line_def sample_activity_def)
qed

section \<open>What is listed is what can be fetched\<close>

definition in_scope :: "telemetry_scope \<Rightarrow> queue \<Rightarrow> event_row \<Rightarrow> bool" where
  "in_scope sc q r \<longleftrightarrow> sc_unrestricted sc \<or> er_connector r \<in> set (sc_connectors sc) \<or>
     has_task (q_tasks q) r (\<lambda>t. tk_agent t \<in> set (sc_agents sc))"

lemma scoped_filter_none:
  assumes "scoped_filter sc f = None" "ef_connector f = []" "ef_agent f = []"
  shows "\<not> in_scope sc q r"
  using assms by (auto simp: scoped_filter_def scope_is_empty_def in_scope_def has_task_def list_ex_iff split: if_splits)

lemma scoped_filter_selects:
  assumes "scoped_filter sc f = Some f'" "ef_connectors f = []" "ef_agents f = []"
  shows "selected invs f' q = filter (in_scope sc q) (selected invs f q)"
proof (cases "sc_unrestricted sc")
  case True
  then show ?thesis using assms(1) by (simp add: scoped_filter_def in_scope_def)
next
  case False
  then have f: "f' = f\<lparr>ef_connectors := sc_connectors sc, ef_agents := sc_agents sc\<rparr>" "sc_connectors sc \<noteq> [] \<or> sc_agents sc \<noteq> []"
    using assms(1) by (auto simp: scoped_filter_def scope_is_empty_def split: if_splits)
  let ?T = "q_tasks q"
  define before where "before =
     (if ef_connector f \<noteq> [] then [\<lambda>e. er_connector e = ef_connector f] else []) @
     (if ef_channel f \<noteq> [] then [\<lambda>e. er_channel e = Some (ef_channel f)] else []) @
     (if ef_channels f \<noteq> [] then [\<lambda>e. case er_channel e of None \<Rightarrow> False | Some c \<Rightarrow> c \<in> set (ef_channels f)] else []) @
     (case ef_since f of None \<Rightarrow> [] | Some s \<Rightarrow> [\<lambda>e. s \<le> er_received e]) @
     (if ef_agent f \<noteq> [] then [\<lambda>e. has_task ?T e (\<lambda>t. tk_agent t = ef_agent f)] else [])"
  define after where "after = status_conditions ?T (ef_status f) @
     (if ef_outcome f \<noteq> []
      then [\<lambda>e. has_task ?T e (\<lambda>t. list_ex (\<lambda>(i, st). i = tk_invocation t \<and> st = ef_outcome f) invs)] else []) @
     (if ef_subject f \<noteq> [] then subject_sql (parse_subject_filter (ef_subject f)) else [])"
  have "conditions ?T invs f = before @ after"
    using assms(2,3) by (simp add: conditions_def before_def after_def)
  moreover have "conditions ?T invs f' = before @ (\<lambda>e. (ef_connectors f' \<noteq> [] \<and> er_connector e \<in> set (ef_connectors f')) \<or>
      (ef_agents f' \<noteq> [] \<and> has_task ?T e (\<lambda>t. tk_agent t \<in> set (ef_agents f')))) # after"
  proof -
    have same: "ef_connector f' = ef_connector f" "ef_channel f' = ef_channel f" "ef_channels f' = ef_channels f"
      "ef_since f' = ef_since f" "ef_agent f' = ef_agent f" "ef_status f' = ef_status f" "ef_outcome f' = ef_outcome f"
      "ef_subject f' = ef_subject f" and "(ef_connectors f' \<noteq> [] \<or> ef_agents f' \<noteq> []) = True"
      using f by simp_all
    then show ?thesis unfolding conditions_def before_def after_def same by (simp only: if_True append_assoc append.simps)
  qed
  moreover have "((ef_connectors f' \<noteq> [] \<and> er_connector e \<in> set (ef_connectors f')) \<or>
      (ef_agents f' \<noteq> [] \<and> has_task ?T e (\<lambda>t. tk_agent t \<in> set (ef_agents f')))) = in_scope sc q e" for e
    using False by (auto simp: f(1) in_scope_def has_task_def list_ex_iff)
  ultimately show ?thesis by (auto simp: selected_def ball_Un intro!: filter_cong)
qed

lemma newest_first_filter: "newest_first (filter P rows) = filter P (newest_first rows)"
  by (simp add: newest_first_def filter_sort [symmetric] rev_filter)

definition entry_of :: "read_env \<Rightarrow> history option \<Rightarrow> queue \<Rightarrow> event_row \<Rightarrow> activity_entry" where
  "entry_of x h q r = build_activity_entry (re_invocation x) h (scan_event r)
     (map scan_task_full (sort_key tk_id (filter (\<lambda>t. tk_event t = er_id r) (q_tasks q))))"

lemma activity_entries_of:
  assumes "tok"
  shows "activity_entries tok ok h (map scan_event rows) q =
    Inr (map (\<lambda>r. build_activity_entry ok h (scan_event r)
      (map scan_task_full (sort_key tk_id (filter (\<lambda>t. tk_event t = er_id r) (q_tasks q))))) rows)"
proof -
  have ids: "map qe_id (map scan_event rows) = map er_id rows" by (simp add: scan_event_def)
  have "filter (\<lambda>t. t_event t = er_id r) (map scan_task_full (sort_key tk_id (filter (\<lambda>t. tk_event t \<in> set (map er_id rows)) (q_tasks q)))) =
      map scan_task_full (sort_key tk_id (filter (\<lambda>t. tk_event t = er_id r) (q_tasks q)))" if "r \<in> set rows" for r
    using that by (auto simp: filter_map filter_sort o_def scan_task_full_def intro!: arg_cong [where f = "map _"] arg_cong [where f = "sort_key _"] filter_cong)
  then show ?thesis
    using assms unfolding activity_entries_def ids tasks_for_events_def by (auto simp: scan_event_def)
qed

lemma get_event_entry_row:
  assumes "aw_queue (ap_data s) = Some q" "r \<in> set (q_events q)" "distinct (map er_id (q_events q))" "er_id r \<noteq> []"
    and "re_pg x 0" "re_pg x 1"
  shows "get_event_entry v e x (er_id r) s =
    (if in_scope (telemetry_scope_for v e (ap_authz s)) q r then Inr (entry_of x (aw_history (ap_data s)) q r)
     else Inl (Refused 404 ''event not found''))"
proof -
  have l: "lookup_row er_id (er_id r) (q_events q) = Some r" using assms(2,3) by (rule lookup_row_distinct [rotated])
  have ts: "tasks_for_events (\<lambda>_. re_pg x 1) [er_id r] q =
      Inr (map scan_task_full (sort_key tk_id (filter (\<lambda>t. tk_event t = er_id r) (q_tasks q))))"
    using assms(6) by (simp add: tasks_for_events_def)
  have "list_ex (\<lambda>t. allows_agent sc (t_agent t)) (map scan_task_full (sort_key tk_id (filter (\<lambda>t. tk_event t = er_id r) (q_tasks q)))) \<longleftrightarrow>
      has_task (q_tasks q) r (\<lambda>t. allows_agent sc (tk_agent t))" for sc
    by (auto simp: has_task_def list_ex_iff scan_task_full_def)
  then show ?thesis
    using assms(1,4,5) l ts
    by (simp add: get_event_entry_def get_event_def Let_def entry_of_def scan_event_def in_scope_def allows_connector_def allows_agent_def
        has_task_def list_ex_iff)
qed

definition fetched :: "refusal + 'a \<Rightarrow> 'a list" where
  "fetched rep = (case rep of Inl _ \<Rightarrow> [] | Inr a \<Rightarrow> [a])"

text \<open>
  An event is listed to a caller just when that caller can fetch it. When the reads succeed, a list
  of events that names no connector and no agent is the page asked for of exactly those events that match the filter and that the
  caller can fetch one by one, the newest first and each shown as it is fetched, and its total is their number. So
  a page never has holes, and no event is hidden in the list that its id would reveal.
\<close>

theorem listed_events_are_fetchable:
  assumes "aw_queue (ap_data s) = Some q" "distinct (map er_id (q_events q))" "\<forall>r \<in> set (q_events q). er_id r \<noteq> []"
    and "event_limit (rq_limit rq) = Inr limit" "event_offset (rq_offset rq) = Inr offset"
    and "event_filter_of parse rq = Inr f" "rq_connector rq = []" "rq_agent rq = []"
    and "re_pg x 0" "re_pg x 1" "re_pg x 2"
  shows "list_events v e x parse rq s =
    (let entries = concat (map (\<lambda>r. fetched (get_event_entry v e x (er_id r) s))
           (newest_first (selected (history_statuses (aw_history (ap_data s))) f q)))
     in Inr (take (nat limit) (drop (nat offset) entries), length entries))"
proof -
  let ?sc = "telemetry_scope_for v e (ap_authz s)" and ?h = "aw_history (ap_data s)"
  let ?rows = "selected (history_statuses ?h) f q"
  have f: "ef_connector f = []" "ef_agent f = []" "ef_connectors f = []" "ef_agents f = []"
    using assms(6-8) by (auto simp: event_filter_of_def no_event_filter_def split: if_splits)
  have nonneg: "0 \<le> limit" "0 \<le> offset"
    using assms(4,5) by (auto simp: event_limit_def event_offset_def default_event_limit_def max_event_limit_def map_sum_Inr_iff split: if_splits option.splits)
  have sub: "set rows \<subseteq> set (q_events q) \<Longrightarrow> concat (map (\<lambda>r. fetched (get_event_entry v e x (er_id r) s)) rows) =
      map (entry_of x ?h q) (filter (in_scope ?sc q) rows)" for rows
    using assms(1-3,9,10) by (induction rows) (simp_all add: get_event_entry_row fetched_def)
  have entries: "concat (map (\<lambda>r. fetched (get_event_entry v e x (er_id r) s)) (newest_first ?rows)) =
      map (entry_of x ?h q) (newest_first (filter (in_scope ?sc q) ?rows))"
    unfolding newest_first_filter by (rule sub) (auto simp: selected_def)
  show ?thesis
  proof (cases "scoped_filter ?sc f")
    case None
    then have "filter (in_scope ?sc q) ?rows = []" using scoped_filter_none [OF None f(1,2)] by simp
    then show ?thesis using assms(1,4-6) None unfolding entries by (simp add: list_events_def newest_first_def)
  next
    case (Some f')
    have sel: "selected (history_statuses ?h) f' q = filter (in_scope ?sc q) ?rows"
      by (rule scoped_filter_selects [OF Some f(3,4)])
    have "length (newest_first xs) = length xs" for xs by (simp add: newest_first_def)
    then show ?thesis
      using assms(1,4-6,9-11) Some nonneg unfolding entries
      by (simp add: list_events_def event_page_def query_events_def count_events_def sel activity_entries_of entry_of_def [abs_def]
          take_map drop_map)
  qed
qed

definition plain_event_request :: event_request where
  "plain_event_request = \<lparr>rq_limit = [], rq_offset = [], rq_connector = [], rq_agent = [], rq_status = [], rq_outcome = [], rq_since = []\<rparr>"

theorem listed_events_are_fetchable_witness:
  "\<exists>a. list_events (plain_call ''ann'') sample_scope sample_reads (\<lambda>_. None) plain_event_request (sample_activity (InDatabase [])) = Inr ([a], 1) \<and>
     get_event_entry (plain_call ''ann'') sample_scope sample_reads ''e1'' (sample_activity (InDatabase [])) = Inr a"
proof -
  let ?s = "sample_activity (InDatabase [])"
  obtain a where a: "get_event_entry (plain_call ''ann'') sample_scope sample_reads ''e1'' ?s = Inr a"
    using sample_telemetry_scope
    by (simp add: get_event_entry_def sample_activity_def get_event_def lookup_row_Cons sample_event_row_def sample_reads_def
        tasks_for_events_def sample_task_row_def scan_task_full_def allows_agent_def)
  have "list_events (plain_call ''ann'') sample_scope sample_reads (\<lambda>_. None) plain_event_request ?s =
    (let entries = concat (map (\<lambda>r. fetched (get_event_entry (plain_call ''ann'') sample_scope sample_reads (er_id r) ?s))
           (newest_first (selected (history_statuses (aw_history (ap_data ?s))) no_event_filter
             (empty_queue\<lparr>q_events := [sample_event_row ''e1''], q_tasks := [sample_task_row ''e1'' ''a1'']\<rparr>))))
     in Inr (take (nat 100) (drop (nat 0) entries), length entries))"
    by (rule listed_events_are_fetchable)
      (simp_all add: sample_activity_def sample_event_row_def plain_event_request_def event_limit_def event_offset_def event_filter_of_def
        default_event_limit_def max_event_limit_def sample_reads_def no_event_filter_def)
  then show ?thesis
    using a by (simp add: Let_def selected_def conditions_def no_event_filter_def newest_first_def fetched_def status_conditions_def
        sample_event_row_def)
qed

section \<open>The history in the database\<close>

text \<open>
  The scope does not reach the history of invocations in the database. A caller who may read at least one agent and asks for
  invocations without naming an agent or an event gets the very answer the hub gives with access control switched off: the
  records of every agent, with their errors.
\<close>

theorem database_history_ignores_scope:
  assumes "aw_history (ap_data s) = Some (InDatabase rows)" "nq_agent r = []" "nq_event r = []"
    and "sc_agents (telemetry_scope_for v e (ap_authz s)) \<noteq> []"
  shows "list_invocations v e x parse r s = list_invocations (v\<lparr>cl_wired := False\<rparr>) e x parse r s"
proof -
  have o: "list_filter_clause (invocation_options parse r agents) = list_filter_clause (invocation_options parse r [])"
      "list_options.lo_limit (invocation_options parse r agents) = list_options.lo_limit (invocation_options parse r [])"
      "list_options.lo_event (invocation_options parse r agents) = []" for agents
    using assms(3) by (simp_all add: list_filter_clause_def invocation_options_def)
  have h: "history_list pg (invocation_options parse r agents) (InDatabase rows) = history_list pg (invocation_options parse r []) (InDatabase rows)"
    for pg agents
    unfolding history_list.simps pg_list_with_total_def pg_selected_def o(1) [of agents] o(2) [of agents] by (rule refl)
  have "invocation_page x sc p (invocation_options parse r agents) (InDatabase rows) q =
      invocation_page x sc' p (invocation_options parse r []) (InDatabase rows) q" for sc sc' p agents q
    unfolding invocation_page_def h [of "re_pg x" agents] by (simp add: o(3) split: prod.split)
  then show ?thesis
    using assms by (auto simp: list_invocations_def Let_def telemetry_scope_for_def split: sum.split)
qed

definition plain_invocation_request :: invocation_request where
  "plain_invocation_request = \<lparr>nq_page = [], nq_size = [], nq_agent = [], nq_status = [], nq_trigger = [], nq_event = [],
     nq_since = [], nq_until = [], nq_limit = []\<rparr>"

theorem database_history_ignores_scope_witness:
  "let s = sample_activity (InDatabase [sample_invocation ''i1'' ''a9'']) in
   list_invocations (plain_call ''ann'') sample_scope sample_reads (\<lambda>_. None) plain_invocation_request s =
     (Inr ([(sample_invocation ''i1'' ''a9'', None)], 1), s) \<and>
   \<not> permitted sample_access ''ann'' role_reader ''agent'' ''a9''"
proof -
  let ?s = "sample_activity (InDatabase [sample_invocation ''i1'' ''a9''])"
  have "list_invocations ((plain_call ''ann'')\<lparr>cl_wired := False\<rparr>) sample_scope sample_reads (\<lambda>_. None) plain_invocation_request ?s =
      (Inr ([(sample_invocation ''i1'' ''a9'', None)], 1), ?s)"
    by code_simp
  moreover have "list_invocations (plain_call ''ann'') sample_scope sample_reads (\<lambda>_. None) plain_invocation_request ?s =
      list_invocations ((plain_call ''ann'')\<lparr>cl_wired := False\<rparr>) sample_scope sample_reads (\<lambda>_. None) plain_invocation_request ?s"
    by (rule database_history_ignores_scope) (use sample_telemetry_scope in \<open>simp_all add: sample_activity_def plain_invocation_request_def\<close>)
  moreover have "\<not> permitted sample_access ''ann'' role_reader ''agent'' ''a9''" by code_simp
  ultimately show ?thesis unfolding Let_def by simp
qed

end
