(* ===== verification/ChatRules.thy ===== *)
theory ChatRules
  imports Chat AccountRules ActivityRules
begin

text \<open>
  What the chat endpoints guarantee: conversations of other people are neither shown nor changed, and a user message reaches its agent; and
  where they fall short: they do not ask whether the user may use the agent.
\<close>

section \<open>The tables\<close>

text \<open>Ids are unique and every message has its session.\<close>

definition chat_wf :: "chat_db \<Rightarrow> bool" where
  "chat_wf db \<longleftrightarrow> distinct (map cs_id (ct_sessions db)) \<and> (\<forall>m \<in> set (ct_messages db). has_row cs_id (cg_session m) (ct_sessions db))"

definition chat_owner :: "chat_db \<Rightarrow> string \<Rightarrow> string option" where
  "chat_owner db i = map_option cs_user (lookup_row cs_id i (ct_sessions db))"

text \<open>What the database holds of people outside a set.\<close>

definition chats_outside :: "string set \<Rightarrow> chat_db \<Rightarrow> chat_session list \<times> chat_message list" where
  "chats_outside U db =
     (filter (\<lambda>x. cs_user x \<notin> U) (ct_sessions db), filter (\<lambda>m. \<forall>u \<in> U. chat_owner db (cg_session m) \<noteq> Some u) (ct_messages db))"

text \<open>What an operation on behalf of somebody in the set has to do for this to stay.\<close>

lemma outside_same:
  assumes "filter (\<lambda>x. cs_user x \<notin> U) (ct_sessions db') = filter (\<lambda>x. cs_user x \<notin> U) (ct_sessions db)"
    and "ct_messages db' = ct_messages db" "\<And>m. m \<in> set (ct_messages db) \<Longrightarrow> chat_owner db' (cg_session m) = chat_owner db (cg_session m)"
  shows "chats_outside U db' = chats_outside U db"
  using assms by (auto simp: chats_outside_def intro!: filter_cong)

lemma create_session_outside:
  assumes "create_session ok i now agent u db = (r, db')" "chat_wf db" "u \<in> U"
  shows "chat_wf db' \<and> chats_outside U db' = chats_outside U db \<and> (\<forall>x. r = Inr x \<longrightarrow> cs_user x = u)"
proof (cases "\<not> ok \<or> has_row cs_id i (ct_sessions db)")
  case False
  have o: "chat_owner db' (cg_session m) = chat_owner db (cg_session m)" if "m \<in> set (ct_messages db)" for m
    using assms(1,2) False that by (auto simp: create_session_def chat_owner_def chat_wf_def sql_simps Let_def split: option.split)
  have "chats_outside U db' = chats_outside U db"
    by (rule outside_same) (use assms(1,3) False o in \<open>auto simp: create_session_def Let_def\<close>)
  then show ?thesis
    using assms False by (auto simp: create_session_def Let_def chat_wf_def has_row_iff sql_simps lookup_row_None_iff split: option.splits)
qed (use assms in \<open>auto simp: create_session_def\<close>)

text \<open>A change of one row keeps who owns which session.\<close>

lemma update_session_outside:
  assumes "chat_owner db i = Some u" "u \<in> U" "chat_wf db" "\<And>x. cs_id (f x) = cs_id x" "\<And>x. cs_user (f x) = cs_user x"
    and "db' = db\<lparr>ct_sessions := update_where (\<lambda>x. cs_id x = i) f (ct_sessions db)\<rparr>"
  shows "chat_wf db' \<and> chats_outside U db' = chats_outside U db \<and> chat_owner db' = chat_owner db"
proof -
  have mine: "cs_user x = u" if "x \<in> set (ct_sessions db)" "cs_id x = i" for x
    using assms(1,3) that by (auto simp: chat_owner_def chat_wf_def lookup_row_distinct)
  have owner: "chat_owner db' j = chat_owner db j" for j
    using assms(4-6) by (auto simp: chat_owner_def lookup_row_update option.map_comp o_def)
  have "filter (\<lambda>x. cs_user x \<notin> U) (update_where (\<lambda>x. cs_id x = i) f rows) = filter (\<lambda>x. cs_user x \<notin> U) rows"
    if "set rows \<subseteq> set (ct_sessions db)" for rows
    using that by (induction rows) (auto simp: update_where_def assms(5) mine assms(2))
  then have "chats_outside U db' = chats_outside U db" by (intro outside_same) (simp_all add: assms(6) owner [unfolded assms(6)])
  moreover have "map cs_id (update_where (\<lambda>x. cs_id x = i) f rows) = map cs_id rows" for rows
    by (induction rows) (auto simp: update_where_def assms(4))
  then have "chat_wf db'" using assms(3) by (simp add: chat_wf_def assms(6) has_row_iff lookup_row_None_iff flip: set_map)
  ultimately show ?thesis using owner by blast
qed

lemma delete_session_outside:
  assumes "delete_session ok i db = (r, db')" "chat_owner db i = Some u" "u \<in> U" "chat_wf db"
  shows "chat_wf db' \<and> chats_outside U db' = chats_outside U db"
proof (cases "ok \<and> has_row cs_id i (ct_sessions db)")
  case True
  then have db': "db' = db\<lparr>ct_sessions := delete_rows cs_id i (ct_sessions db), ct_messages := delete_rows cg_session i (ct_messages db)\<rparr>"
    using assms(1) by (simp add: delete_session_def)
  then have messages: "ct_messages db' = delete_rows cg_session i (ct_messages db)" by simp
  have mine: "cs_user x = u" if "x \<in> set (ct_sessions db)" "cs_id x = i" for x
    using assms(2,4) that by (auto simp: chat_owner_def chat_wf_def lookup_row_distinct)
  have owner: "chat_owner db' j = (if j = i then None else chat_owner db j)" for j by (simp add: db' chat_owner_def sql_simps)
  have "filter (\<lambda>x. cs_user x \<notin> U) (ct_sessions db') = filter (\<lambda>x. cs_user x \<notin> U) (ct_sessions db)"
    by (auto simp: db' delete_rows_def mine assms(3) intro!: filter_cong)
  moreover have "filter (\<lambda>m. \<forall>u \<in> U. chat_owner db' (cg_session m) \<noteq> Some u) (ct_messages db') =
      filter (\<lambda>m. \<forall>u \<in> U. chat_owner db (cg_session m) \<noteq> Some u) (ct_messages db)"
    using assms(2,3) by (auto simp: messages delete_rows_def owner intro!: filter_cong)
  moreover have "chat_wf db'" using assms(4) by (auto simp: chat_wf_def db' distinct_delete_rows has_row_iff sql_simps)
  ultimately show ?thesis by (simp add: chats_outside_def)
qed (use assms in \<open>auto simp: delete_session_def split: if_splits\<close>)

lemma add_message_outside:
  assumes "add_message pg now i role content tokens db = (r, db')" "chat_owner db i = Some u" "u \<in> U" "chat_wf db"
  shows "chat_wf db' \<and> chats_outside U db' = chats_outside U db \<and> chat_owner db' = chat_owner db \<and> (\<forall>m. r = Inr m \<longrightarrow> cg_session m = i)"
proof -
  let ?m = "\<lparr>cg_id = ct_next db, cg_session = i, cg_role = role, cg_content = content, cg_tokens = tokens, cg_created = now\<rparr>"
  let ?s = "db\<lparr>ct_next := Suc (ct_next db), ct_messages := ct_messages db @ [?m]\<rparr>"
  have row: "has_row cs_id i (ct_sessions db)" using assms(2) by (auto simp: chat_owner_def has_row_iff)
  have s: "chat_wf ?s" "chats_outside U ?s = chats_outside U db" "chat_owner ?s = chat_owner db"
    using assms(2-4) row by (auto simp: chat_wf_def chats_outside_def chat_owner_def)
  consider "db' = db" | "db' = ?s" | "db' = ?s\<lparr>ct_sessions := update_where (\<lambda>s. cs_id s = i) (\<lambda>s. s\<lparr>cs_updated := now\<rparr>) (ct_sessions ?s)\<rparr>"
    using assms(1) row by (auto simp: add_message_def Let_def split: if_splits)
  then have "chat_wf db' \<and> chats_outside U db' = chats_outside U db \<and> chat_owner db' = chat_owner db"
  proof cases
    case 3
    show ?thesis
      using update_session_outside [of ?s i u U "\<lambda>s. s\<lparr>cs_updated := now\<rparr>", OF _ assms(3) s(1) _ _ 3] s assms(2) by simp
  qed (use s assms(4) in auto)
  then show ?thesis using assms(1) by (auto simp: add_message_def Let_def split: if_splits)
qed

section \<open>Conversations are private\<close>

lemma enrich_session_keeps [simp]: "cs_user (enrich_session e d x) = cs_user x" "cs_id (enrich_session e d x) = cs_id x"
  by (simp_all add: enrich_session_def split: option.split)

lemma put_chat_simps [simp]:
  "ap_authz (put_chat db s) = ap_authz s" "ap_cache (put_chat db s) = ap_cache s" "cw_chat (ap_data (put_chat db s)) = Some db"
  "cw_sent (ap_data (put_chat db s)) = cw_sent (ap_data s)" "cw_hub (ap_data (put_chat db s)) = cw_hub (ap_data s)"
  "cw_auth (ap_data (put_chat db s)) = cw_auth (ap_data s)" "cw_queue (ap_data (put_chat db s)) = cw_queue (ap_data s)"
  "cw_inboxes (ap_data (put_chat db s)) = cw_inboxes (ap_data s)" "cw_agents (ap_data (put_chat db s)) = cw_agents (ap_data s)"
  by (simp_all add: put_chat_def)

text \<open>What an answer shows is the caller's.\<close>

fun shows_own :: "string \<Rightarrow> chat_db \<Rightarrow> chat_answer \<Rightarrow> bool" where
  "shows_own u db (OneChat x) \<longleftrightarrow> cs_user x = u"
| "shows_own u db (ChatPage xs m) \<longleftrightarrow> (\<forall>x \<in> set xs. cs_user x = u)"
| "shows_own u db (ChatWithMessages x ms) \<longleftrightarrow> cs_user x = u \<and> (\<forall>m \<in> set ms. cg_session m = cs_id x)"
| "shows_own u db (NewMessage m) \<longleftrightarrow> chat_owner db (cg_session m) = Some u"
| "shows_own u db ChatGone \<longleftrightarrow> True"

text \<open>A caller without privileges, and what one request of such a caller may do to a database and to the sockets.\<close>

definition plain_user :: "call \<Rightarrow> chat_site api \<Rightarrow> string \<Rightarrow> bool" where
  "plain_user v s u \<longleftrightarrow> cl_caller v = Some u \<and> u \<noteq> [] \<and> \<not> chat_admin v s"

definition keeps_private :: "string set \<Rightarrow> string \<Rightarrow> chat_site api \<Rightarrow> chat_db \<Rightarrow> chat_answer chat_reply \<Rightarrow> bool" where
  "keeps_private U u s db rep \<longleftrightarrow>
     (case rep of (r, s') \<Rightarrow> ap_authz s' = ap_authz s \<and>
        (\<exists>db'. cw_chat (ap_data s') = Some db' \<and> chat_wf db' \<and> chats_outside U db' = chats_outside U db \<and>
           (case r of Inl _ \<Rightarrow> True | Inr a \<Rightarrow> shows_own u db' a)) \<and>
        (\<exists>new. cw_sent (ap_data s') = map_option (\<lambda>sent. sent @ new) (cw_sent (ap_data s)) \<and> fst ` set new \<subseteq> {u}))"

lemma keeps_private_refused: "chat_wf db \<Longrightarrow> cw_chat (ap_data s) = Some db \<Longrightarrow> keeps_private U u s db (Inl r, s)"
  by (simp add: keeps_private_def option.map_ident exI [of _ "[]"])

lemma get_session_owner:
  assumes "get_session pg i db = Inr (x, ms)" "chat_owner db i = Some u"
  shows "cs_user x = u \<and> cs_id x = i \<and> (\<forall>m \<in> set ms. cg_session m = i)"
  using assms by (auto simp: get_session_def session_messages_def chat_owner_def split: if_splits option.splits dest: lookup_row_SomeD)

lemma session_access_owner:
  assumes "require_chat_session_access v e i s = Inr x" "plain_user v s u" "cw_chat (ap_data s) = Some db"
  shows "chat_owner db i = Some u"
  using assms
  by (auto simp: require_chat_session_access_def get_session_def plain_user_def chat_caller_may_access_def chat_owner_def
      split: if_splits sum.splits option.splits prod.splits)

lemma add_chat_message_private:
  assumes "cw_chat (ap_data s) = Some db" "chat_wf db" "chat_owner db i = Some u" "u \<in> U"
  shows "keeps_private U u s db (map_reply NewMessage (add_chat_message e i body s))"
proof (cases "\<exists>req. body = Inr req \<and> message_problem req = None")
  case False
  then have "\<exists>r. add_chat_message e i body s = (Inl r, s)" using assms(1) by (auto simp: add_chat_message_def split: sum.split option.split)
  then show ?thesis using keeps_private_refused [OF assms(2,1)] by (auto simp:)
next
  case True
  then obtain req where req: "body = Inr req" "message_problem req = None" by blast
  obtain r db' where a: "add_message (wv_store e) (wv_now e) i (mq_role req) (mq_content req) (mq_tokens req) db = (r, db')" by fastforce
  note A = add_message_outside [OF a assms(3,4,2)]
  have own: "chat_owner db' i = Some u" using A assms(3) by simp
  show ?thesis
  proof (cases r)
    case (Inl err)
    then show ?thesis
      using A req a assms(1) by (simp add: add_chat_message_def keeps_private_def option.map_ident exI [of _ "[]"])
  next
    case (Inr msg)
    show ?thesis
    proof (cases "get_session (wv_reload e) i db'")
      case (Inl err)
      then show ?thesis
        using A req a Inr own assms(1) by (auto simp: add_chat_message_def keeps_private_def option.map_ident intro!: exI [of _ "[]"])
    next
      case loaded: (Inr p)
      obtain x ms where p: "p = (x, ms)" by fastforce
      have "cs_user x = u" using get_session_owner [OF loaded [unfolded p] own] by simp
      then show ?thesis
        using A req a Inr own assms(1) loaded p
        by (auto simp: add_chat_message_def keeps_private_def Let_def intro!: exI [of _ "[(u, i, msg)]"] split: if_splits prod.splits sum.splits)
    qed
  qed
qed

lemma own_session_private:
  assumes "cw_chat (ap_data s) = Some db" "chat_wf db" "chat_owner db i = Some u" "u \<in> U"
  shows "keeps_private U u s db (map_reply (\<lambda>(x, ms). ChatWithMessages x ms) (get_chat_session e i s))"
    "keeps_private U u s db (map_reply (\<lambda>(x, ms). ChatWithMessages x ms) (update_chat_session e i body s))"
    "keeps_private U u s db (map_reply (\<lambda>_. ChatGone) (delete_chat_session e i s))"
proof -
  show "keeps_private U u s db (map_reply (\<lambda>(x, ms). ChatWithMessages x ms) (get_chat_session e i s))"
  proof (cases "get_session (wv_store e) i db")
    case (Inr p)
    then show ?thesis
      using get_session_owner [of _ i db "fst p" "snd p"] assms
      by (cases p) (simp add: get_chat_session_def keeps_private_def option.map_ident exI [of _ "[]"])
  qed (use assms in \<open>simp add: get_chat_session_def keeps_private_def option.map_ident exI [of _ "[]"]\<close>)
  show "keeps_private U u s db (map_reply (\<lambda>(x, ms). ChatWithMessages x ms) (update_chat_session e i body s))"
  proof (cases "\<exists>raw. body = Inr raw \<and> trim_space raw \<noteq> []")
    case True
    then obtain raw where raw: "body = Inr raw" "trim_space raw \<noteq> []" by blast
    obtain r db' where w: "update_session_name (wv_store e 0) i (trim_space raw) db = (r, db')" by fastforce
    have same: "chat_wf db' \<and> chats_outside U db' = chats_outside U db \<and> chat_owner db' = chat_owner db"
    proof (cases "db' = db")
      case False
      then show ?thesis
        using w by (intro update_session_outside [OF assms(3,4,2), where f = "\<lambda>s. s\<lparr>cs_name := trim_space raw\<rparr>"]) (auto simp: update_session_name_def split: if_splits)
    qed (use assms in simp)
    then have own: "chat_owner db' i = Some u" using assms(3) by simp
    have "keeps_private U u s db (map_reply (\<lambda>(x, ms). ChatWithMessages x ms)
        (case get_session (wv_reload e) i db' of
           Inl err \<Rightarrow> (Inl (Refused 500 (''failed to fetch updated session: '' @ chat_error_text err)), put_chat db' s)
         | Inr (x, ms) \<Rightarrow> (Inr (enrich_session e (ap_data s) x, ms), put_chat db' s)))"
      using get_session_owner [OF _ own, of "wv_reload e"] same assms(1)
      by (auto simp: keeps_private_def option.map_ident exI [of _ "[]"] split: sum.split)
    then show ?thesis
      using raw w same assms(1)
      by (cases r) (simp_all add: update_chat_session_def keeps_private_def option.map_ident exI [of _ "[]"])
  next
    case False
    then have "\<exists>r. update_chat_session e i body s = (Inl r, s)" using assms(1) by (auto simp: update_chat_session_def split: sum.split)
    then show ?thesis using keeps_private_refused [OF assms(2,1)] by auto
  qed
  obtain r db' where d: "delete_session (wv_store e 0) i db = (r, db')" by fastforce
  then show "keeps_private U u s db (map_reply (\<lambda>_. ChatGone) (delete_chat_session e i s))"
    using delete_session_outside [OF d assms(3,4,2)] assms(1)
    by (cases r) (simp_all add: delete_chat_session_def keeps_private_def option.map_ident exI [of _ "[]"])
qed

lemma at_chat_private:
  assumes "cw_chat (ap_data s) = Some db" "chat_wf db" "plain_user v s u"
    and "\<And>i m. chat_owner db i = Some u \<Longrightarrow> keeps_private U u s db (k i m s)"
  shows "keeps_private U u s db (at_chat v e path k s)"
  using assms session_access_owner [OF _ assms(3,1)] keeps_private_refused [OF assms(2,1)]
  by (auto simp: at_chat_def split: prod.split sum.split)

lemma chat_step_private:
  assumes "cw_chat (ap_data s) = Some db" "chat_wf db" "plain_user v s u" "u \<in> U"
  shows "keeps_private U u s db (handle_chat v e q s)"
proof (cases q)
  case (NewChat body)
  note R = keeps_private_refused [OF assms(2,1)]
  show ?thesis
  proof (cases "\<exists>agent. body = Inr agent \<and> agent \<noteq> []")
    case True
    then obtain agent where agent: "body = Inr agent" "agent \<noteq> []" by blast
    obtain r db' where c: "create_session (wv_store e 0) (wv_session e) (wv_now e) agent u db = (r, db')" by fastforce
    show ?thesis
      using create_session_outside [OF c assms(2,4)] c agent assms(1,3)
      by (cases r) (simp_all add: NewChat create_chat_session_def plain_user_def keeps_private_def option.map_ident exI [of _ "[]"])
  next
    case False
    then have "\<exists>r. create_chat_session v e body s = (Inl r, s)" using assms(1) by (auto simp: create_chat_session_def split: sum.split)
    then show ?thesis using R NewChat by auto
  qed
next
  case (ListChats agent user page page_size)
  have o: "chat_list_owner_filter v s = Some u" using assms(3) by (simp add: plain_user_def chat_list_owner_filter_def)
  have u: "u \<noteq> []" using assms(3) by (simp add: plain_user_def)
  have own: "\<forall>x \<in> set xs. cs_user x = u" if "list_sessions ok agent u n db = Inr xs" for xs n ok
    using that u by (auto simp: list_sessions_def Let_def split: if_splits dest: in_set_takeD)
  show ?thesis
    using assms(1,2) u own
    by (auto simp: ListChats o list_chat_sessions_def keeps_private_def option.map_ident exI [of _ "[]"] split: sum.split dest!: in_page_items)
next
  case (GetChat path)
  then show ?thesis using own_session_private(1) [OF assms(1,2) _ assms(4)] keeps_private_refused [OF assms(2,1)]
    by (auto intro!: at_chat_private [OF assms(1-3)])
next
  case (RenameChat path body)
  then show ?thesis using own_session_private(2) [OF assms(1,2) _ assms(4)] keeps_private_refused [OF assms(2,1)]
    by (auto intro!: at_chat_private [OF assms(1-3)])
next
  case (DeleteChat path)
  then show ?thesis using own_session_private(3) [OF assms(1,2) _ assms(4)] keeps_private_refused [OF assms(2,1)]
    by (auto intro!: at_chat_private [OF assms(1-3)])
next
  case (PostChat path body)
  then show ?thesis using add_chat_message_private [OF assms(1,2) _ assms(4)] keeps_private_refused [OF assms(2,1)]
    by (auto intro!: at_chat_private [OF assms(1-3)])
qed

text \<open>
  C34. Chats are personal. Whatever users without the admin flag send to the chat endpoints, one request after another and whatever fails in them, the
  sessions of everybody else and their messages stay as they are, and what the next request of such a user is answered, and what the sockets are sent
  for it, are sessions and messages of that user.
\<close>

theorem chat_is_private:
  assumes "cw_chat (ap_data s) = Some db" "chat_wf db"
    and "\<forall>(v, e, q) \<in> set xs. \<exists>u \<in> U. plain_user v s u" and "plain_user v s u" "u \<in> U"
  shows "\<exists>db'. cw_chat (ap_data (serve_all (\<lambda>v (e, q). handle_chat v e q) xs s)) = Some db' \<and> chat_wf db' \<and>
    chats_outside U db' = chats_outside U db \<and>
    keeps_private U u (serve_all (\<lambda>v (e, q). handle_chat v e q) xs s) db' (handle_chat v e q (serve_all (\<lambda>v (e, q). handle_chat v e q) xs s))"
  using assms
proof (induction xs arbitrary: s db)
  case (Cons x xs)
  obtain v' e' q' where x: "x = (v', e', q')" by (cases x)
  obtain w where w: "w \<in> U" "plain_user v' s w" using Cons.prems(3) x by auto
  obtain r s' where h: "handle_chat v' e' q' s = (r, s')" by fastforce
  have "keeps_private U w s db (r, s')" using chat_step_private [OF Cons.prems(1,2) w(2,1), of e' q'] by (simp add: h)
  then obtain db' where s': "cw_chat (ap_data s') = Some db'" "chat_wf db'" "chats_outside U db' = chats_outside U db" "ap_authz s' = ap_authz s"
    by (auto simp: keeps_private_def)
  have "plain_user v'' s' u'' = plain_user v'' s u''" for v'' u'' by (simp add: plain_user_def chat_admin_def s'(4))
  then show ?case using Cons.IH [OF s'(1,2)] Cons.prems(3-5) s'(3) x h by simp
next
  case Nil
  then show ?case using chat_step_private [OF Nil.prems(1,2,4,5)] by simp
qed

definition sample_chat :: chat_db where
  "sample_chat =
     \<lparr>ct_sessions = [\<lparr>cs_id = ''sess-1'', cs_name = ''sess-1'', cs_agent = ''a-1'', cs_user = ''ann'', cs_created = 1, cs_updated = 1\<rparr>,
                     \<lparr>cs_id = ''sess-2'', cs_name = ''sess-2'', cs_agent = ''a1'', cs_user = ''bob'', cs_created = 2, cs_updated = 3\<rparr>],
      ct_messages = [\<lparr>cg_id = 1, cg_session = ''sess-2'', cg_role = role_user, cg_content = ''hi'', cg_tokens = 0, cg_created = 3\<rparr>], ct_next = 2\<rparr>"

definition chat_console :: "chat_site api" where
  "chat_console = \<lparr>ap_authz = sample_access, ap_cache = new_group_cache 30,
     ap_data = \<lparr>cw_chat = Some sample_chat, cw_hub = sample_hub, cw_queue = True, cw_inboxes = True, cw_agents = [(''a-1'', ''bot'')],
       cw_sent = Some [], cw_auth = True\<rparr>\<rparr>"

definition sample_chat_env :: chat_env where
  "sample_chat_env = \<lparr>wv_access = all_ok, wv_store = all_ok, wv_reload = all_ok, wv_get = (\<lambda>_. True), wv_list = True, wv_session = ''sess-3'',
     wv_now = 7, wv_channel = ''inbox'', wv_inbox = all_ok, wv_insert = True, wv_mark = True, wv_dispatch = smooth ''c'' 7, wv_walk = True,
     wv_bridges = (\<lambda>n. smooth ''b'' 7)\<rparr>"

definition prying_requests :: "(call \<times> chat_env \<times> chat_call) list" where
  "prying_requests = [(plain_call ''ann'', sample_chat_env, DeleteChat ''sess-2''),
     (plain_call ''ann'', sample_chat_env, PostChat ''sess-2/messages'' (Inr \<lparr>mq_role = role_status, mq_content = ''x'', mq_tokens = 0\<rparr>)),
     (plain_call ''ann'', sample_chat_env, NewChat (Inr ''a1''))]"

lemma sample_chat_wf: "chat_wf sample_chat" by code_simp

lemma ann_is_plain: "plain_user (plain_call ''ann'') chat_console ''ann''" by code_simp

lemma sample_access_refused:
  "require_chat_session_access (plain_call ''ann'') sample_chat_env ''sess-2'' chat_console = Inl (Refused 403 ''forbidden'')"
  by code_simp

theorem chat_is_private_witness:
  "\<exists>db'. cw_chat (ap_data (serve_all (\<lambda>v (e, q). handle_chat v e q) prying_requests chat_console)) = Some db' \<and>
     chats_outside {''ann''} db' = chats_outside {''ann''} sample_chat \<and> snd (chats_outside {''ann''} sample_chat) = ct_messages sample_chat"
proof -
  have "\<forall>(v, e, q) \<in> set prying_requests. \<exists>u \<in> {''ann''}. plain_user v chat_console u"
    using ann_is_plain by (simp add: prying_requests_def)
  moreover have "snd (chats_outside {''ann''} sample_chat) = ct_messages sample_chat" by code_simp
  moreover have "cw_chat (ap_data chat_console) = Some sample_chat" by (simp add: chat_console_def)
  ultimately show ?thesis
    using chat_is_private [OF _ sample_chat_wf _ ann_is_plain, of prying_requests "{''ann''}" sample_chat_env "ListChats [] [] [] []"] by blast
qed

section \<open>A message reaches its agent\<close>

text \<open>The inbox is resolved as in the cron emitter.\<close>

definition inbox_env :: "chat_env \<Rightarrow> cron_env" where
  "inbox_env e = \<lparr>cv_event = [], cv_channel = wv_channel e, cv_inbox = wv_inbox e, cv_insert = True, cv_mark = True,
     cv_dispatch = (wv_dispatch e)\<lparr>dv_now := wv_now e\<rparr>, cv_walk = True, cv_bridges = wv_bridges e, cv_meanwhile = id\<rparr>"

lemma chat_inbox_channel:
  assumes "chat_inbox e agent wired h = (birth, h1)"
  shows "birth = [] \<or> (\<exists>r \<in> set (cdb_channels (hb_channels h1)). cr_id r = birth \<and> owns_entity kind_agent agent r)"
    "birth = [] \<or> channel_exists (hb_channels h1) birth" "hb_queue h1 = hb_queue h"
proof -
  have "chat_inbox e agent wired h = resolve_inbox (inbox_env e) agent wired h" by (simp add: chat_inbox_def resolve_inbox_def inbox_env_def)
  note r = resolve_inbox_channel [OF this [symmetric, unfolded assms]]
  show "birth = [] \<or> (\<exists>r \<in> set (cdb_channels (hb_channels h1)). cr_id r = birth \<and> owns_entity kind_agent agent r)"
    "birth = [] \<or> channel_exists (hb_channels h1) birth" "hb_queue h1 = hb_queue h" using r by blast+
qed

text \<open>The event of a message, as it is stored.\<close>

definition chat_event_row :: "chat_env \<Rightarrow> string \<Rightarrow> string \<Rightarrow> string \<Rightarrow> string \<Rightarrow> event_row" where
  "chat_event_row e evt birth i content =
     \<lparr>er_id = evt, er_connector = source_chat, er_channel = nil_if_empty birth, er_headers = chat_headers, er_data = chat_data i content,
      er_raw = chat_raw i content, er_received = wv_now e, er_routed = Some (wv_now e)\<rparr>"

definition chat_calm :: "chat_env \<Rightarrow> bool" where
  "chat_calm e \<longleftrightarrow> wv_access e = all_ok \<and> wv_store e = all_ok \<and> wv_reload e = all_ok \<and> wv_insert e \<and> wv_mark e \<and> calm (wv_dispatch e)"

lemma chat_task_fields [simp]:
  "t_event (chat_task evt agent i content) = evt" "t_agent (chat_task evt agent i content) = agent"
  "t_headers (chat_task evt agent i content) \<noteq> None" "t_payload (chat_task evt agent i content) = Some (chat_data i content)"
  by (simp_all add: chat_task_def)

lemma deliver_reaches_enqueue:
  assumes "wv_insert e" "\<not> has_row er_id evt (q_events (hb_queue h))" "chat_inbox e agent wired h = (birth, h1)"
  shows "deliver_chat_message e wired evt agent i content h =
    (case enqueue_task (dv_enqueue (wv_dispatch e)) (wv_now e) (chat_task evt agent i content)
        ((hb_queue h)\<lparr>q_events := q_events (hb_queue h) @
           [(chat_event_row e evt birth i content)\<lparr>er_routed := (if wv_mark e then Some (wv_now e) else None)\<rparr>]\<rparr>) of
       (Inl m, q) \<Rightarrow> (Inl (Refused 502 (''failed to enqueue chat event for agent: '' @ m)), h1\<lparr>hb_queue := q\<rparr>)
     | (Inr _, q3) \<Rightarrow> (Inr (), transfer_chat_message e evt birth agent (chat_data i content) (h1\<lparr>hb_queue := q3\<rparr>)))"
proof -
  note R = chat_inbox_channel [OF assms(3)]
  let ?evt = "\<lparr>qe_id = evt, qe_connector = source_chat, qe_channel = birth, qe_headers = Some chat_headers, qe_data = Some (chat_data i content),
    qe_raw = chat_raw i content, qe_received = None\<rparr>"
  let ?row = "(chat_event_row e evt birth i content)\<lparr>er_routed := None\<rparr>"
  have "\<not> (case nil_if_empty birth of None \<Rightarrow> False | Some c \<Rightarrow> \<not> channel_exists (hb_channels h1) c)"
    using R(2) by (auto simp: nil_if_empty_def split: if_splits)
  then have ins: "insert_event (channel_exists (hb_channels h1)) (\<lambda>_. wv_insert e) (wv_now e) ?evt (hb_queue h1) =
      (Inr (), (hb_queue h)\<lparr>q_events := q_events (hb_queue h) @ [?row]\<rparr>)"
    using assms(1,2) R(3) by (simp add: insert_event_def chat_event_row_def)
  have "update_where (\<lambda>r. er_id r = evt) f (q_events (hb_queue h)) = q_events (hb_queue h)" for f
    using assms(2) by (intro update_where_none) (metis has_row_image image_eqI)
  then have mark: "snd (mark_routed (\<lambda>_. wv_mark e) (wv_now e) evt ((hb_queue h)\<lparr>q_events := q_events (hb_queue h) @ [?row]\<rparr>)) =
      (hb_queue h)\<lparr>q_events := q_events (hb_queue h) @
           [(chat_event_row e evt birth i content)\<lparr>er_routed := (if wv_mark e then Some (wv_now e) else None)\<rparr>]\<rparr>"
    by (simp add: mark_routed_def update_where_def chat_event_row_def)
  show ?thesis
    by (simp only: deliver_chat_message_def assms(3) prod.case ins sum.case mark Let_def)
qed

lemma transfer_chat_message_keeps:
  "inboxes (hb_queue h) \<subseteq> inboxes (hb_queue (transfer_chat_message e evt birth agent payload h))"
  "q_events (hb_queue (transfer_chat_message e evt birth agent payload h)) = q_events (hb_queue h)"
  by (auto simp: transfer_chat_message_def transfer_apply_keeps subset_eq intro: transfer_apply_keeps(1) [THEN subsetD])

lemma transfer_apply_channels: "hb_channels (snd (transfer_apply ok env inp h)) = hb_channels h"
proof (cases "service_deliveries ok (ti_birth inp) (ti_delivered inp) (hb_channels h)")
  case (Inr ds)
  then show ?thesis
    using fan_out_frame [where f = hb_channels and step = "transfer_one inp" and env = env and n = 0 and ds = ds and s = h]
    by (cases "fan_out (transfer_one inp) env 0 ds h") (simp add: transfer_apply_def dispatch_frame)
qed (simp add: transfer_apply_def)

lemma deliver_calm:
  assumes "chat_calm e" "\<not> has_row er_id evt (q_events (hb_queue h))"
  obtains h' birth where "deliver_chat_message e wired evt agent i content h = (Inr (), h')" "(evt, agent) \<in> inboxes (hb_queue h')"
    "q_events (hb_queue h') = q_events (hb_queue h) @ [chat_event_row e evt birth i content]"
    "birth = fst (chat_inbox e agent wired h)"
    "birth = [] \<or> (\<exists>r \<in> set (cdb_channels (hb_channels h')). cr_id r = birth \<and> owns_entity kind_agent agent r)"
proof -
  obtain birth h1 where b: "chat_inbox e agent wired h = (birth, h1)" by fastforce
  let ?q = "(hb_queue h)\<lparr>q_events := q_events (hb_queue h) @ [chat_event_row e evt birth i content]\<rparr>"
  let ?t = "chat_task evt agent i content"
  have env: "wv_insert e" "wv_mark e" "dv_enqueue (wv_dispatch e) = all_ok" using assms(1) by (auto simp: chat_calm_def calm_def)
  have "storable ?t ?q" by (simp add: storable_def has_row_image chat_event_row_def)
  then have ok: "fst (enqueue_task all_ok (wv_now e) ?t ?q) = Inr ()" by (rule enqueue_calm)
  then obtain q3 where q3: "enqueue_task all_ok (wv_now e) ?t ?q = (Inr (), q3)" by (metis prod.collapse)
  let ?h = "transfer_chat_message e evt birth agent (chat_data i content) (h1\<lparr>hb_queue := q3\<rparr>)"
  have "(chat_event_row e evt birth i content)\<lparr>er_routed := Some (wv_now e)\<rparr> = chat_event_row e evt birth i content" by (simp add: chat_event_row_def)
  then have d: "deliver_chat_message e wired evt agent i content h = (Inr (), ?h)"
    using deliver_reaches_enqueue [OF env(1) assms(2) b] q3 by (simp add: env)
  have "hb_channels ?h = hb_channels h1" by (simp add: transfer_chat_message_def transfer_apply_channels)
  note K = transfer_chat_message_keeps [where h = "h1\<lparr>hb_queue := q3\<rparr>" and e = e and evt = evt and birth = birth and agent = agent
      and payload = "chat_data i content"]
  show thesis
  proof (rule that [OF d, of birth])
    show "(evt, agent) \<in> inboxes (hb_queue ?h)" using enqueue_good [OF ok] q3 K(1) by (simp add: subsetD)
    show "q_events (hb_queue ?h) = q_events (hb_queue h) @ [chat_event_row e evt birth i content]"
      using enqueue_events [of all_ok "wv_now e" ?t ?q] q3 K(2) by simp
    show "birth = fst (chat_inbox e agent wired h)" by (simp add: b)
    show "birth = [] \<or> (\<exists>r \<in> set (cdb_channels (hb_channels ?h)). cr_id r = birth \<and> owns_entity kind_agent agent r)"
      using chat_inbox_channel(1) [OF b] \<open>hb_channels ?h = hb_channels h1\<close> by simp
  qed
qed

lemma chat_message_reaches_agent_step:
  assumes "cw_chat (ap_data s) = Some db" "chat_wf db" "lookup_row cs_id i (ct_sessions db) = Some x" "cs_user x = u"
    and "cl_caller v = Some u" "chat_path chat_prefix path = (i, True)" "i \<noteq> []" "chat_calm e" "cw_queue (ap_data s)"
    and "has_prefix (cs_agent x) ''a-''" "content \<noteq> []"
    and "\<not> has_row er_id (chat_event_id i (ct_next db)) (q_events (hb_queue (cw_hub (ap_data s))))"
  shows "\<exists>s' m db' birth. handle_chat v e (PostChat path (Inr \<lparr>mq_role = role_user, mq_content = content, mq_tokens = n\<rparr>)) s = (Inr (NewMessage m), s') \<and>
    cw_chat (ap_data s') = Some db' \<and> set (session_messages i db') = insert m (set (session_messages i db)) \<and> cg_content m = content \<and>
    q_events (hb_queue (cw_hub (ap_data s'))) = q_events (hb_queue (cw_hub (ap_data s))) @ [chat_event_row e (chat_event_id i (cg_id m)) birth i content] \<and>
    birth = fst (chat_inbox e (cs_agent x) (cw_inboxes (ap_data s)) (cw_hub (ap_data s))) \<and>
    (birth = [] \<or> (\<exists>r \<in> set (cdb_channels (hb_channels (cw_hub (ap_data s')))). cr_id r = birth \<and> owns_entity kind_agent (cs_agent x) r)) \<and>
    (chat_event_id i (cg_id m), cs_agent x) \<in> inboxes (hb_queue (cw_hub (ap_data s')))"
proof -
  let ?rq = "\<lparr>mq_role = role_user, mq_content = content, mq_tokens = n\<rparr>"
  let ?m = "\<lparr>cg_id = ct_next db, cg_session = i, cg_role = role_user, cg_content = content, cg_tokens = n, cg_created = wv_now e\<rparr>"
  let ?db = "db\<lparr>ct_next := Suc (ct_next db), ct_messages := ct_messages db @ [?m],
      ct_sessions := update_where (\<lambda>s. cs_id s = i) (\<lambda>s. s\<lparr>cs_updated := wv_now e\<rparr>) (ct_sessions db)\<rparr>"
  have env: "wv_access e = all_ok" "wv_store e = all_ok" "wv_reload e = all_ok" using assms(8) by (simp_all add: chat_calm_def)
  have access: "require_chat_session_access v e i s = Inr x"
    using assms(1,3-5) by (simp add: require_chat_session_access_def get_session_def env chat_caller_may_access_def)
  have row: "has_row cs_id i (ct_sessions db)" using assms(3) by (simp add: has_row_iff)
  have add: "add_message all_ok (wv_now e) i role_user content n db = (Inr ?m, ?db)" using row by (simp add: add_message_def Let_def)
  have x': "lookup_row cs_id i (ct_sessions ?db) = Some (x\<lparr>cs_updated := wv_now e\<rparr>)" using assms(3) by (simp add: lookup_row_update)
  have problem: "message_problem ?rq = None" using assms(11) by (simp add: message_problem_def role_user_def)
  let ?evt = "chat_event_id i (ct_next db)" and ?h = "cw_hub (ap_data s)"
  obtain h' birth where d: "deliver_chat_message e (cw_inboxes (ap_data s)) ?evt (cs_agent x) i content ?h = (Inr (), h')"
      "(?evt, cs_agent x) \<in> inboxes (hb_queue h')"
      "q_events (hb_queue h') = q_events (hb_queue ?h) @ [chat_event_row e ?evt birth i content]" "birth = fst (chat_inbox e (cs_agent x) (cw_inboxes (ap_data s)) ?h)"
      "birth = [] \<or> (\<exists>r \<in> set (cdb_channels (hb_channels h')). cr_id r = birth \<and> owns_entity kind_agent (cs_agent x) r)"
    using deliver_calm [OF assms(8,12)] by metis
  let ?s1 = "put_chat ?db s"
  let ?d = "(ap_data ?s1)\<lparr>cw_sent := map_option (\<lambda>sent. sent @ [(u, i, ?m)]) (cw_sent (ap_data s))\<rparr>"
  have "add_chat_message e i (Inr ?rq) s = (Inr ?m, ?s1\<lparr>ap_data := ?d\<lparr>cw_hub := h'\<rparr>\<rparr>)"
    using d(1) assms(1,4,9,10) x' by (simp add: add_chat_message_def problem env add get_session_def resolve_agent_name_for_routing_def Let_def)
  then have "handle_chat v e (PostChat path (Inr ?rq)) s = (Inr (NewMessage ?m), ?s1\<lparr>ap_data := ?d\<lparr>cw_hub := h'\<rparr>\<rparr>)"
    using assms(6,7) access by (simp add: at_chat_def)
  moreover have "set (session_messages i ?db) = insert ?m (set (session_messages i db))" by (auto simp: session_messages_def)
  ultimately show ?thesis using d by (intro exI conjI) (assumption | simp)+
qed


lemma sample_chat_calm: "chat_calm sample_chat_env" by (simp add: chat_calm_def sample_chat_env_def calm_def smooth_def)

lemma fresh_chat_event:
  "\<not> has_row er_id ''chat-sess-2-2'' (q_events (hb_queue sample_hub))" "\<not> has_row er_id (chat_event_id ''sess-1'' 2) (q_events (hb_queue sample_hub))"
  "\<not> has_row er_id (chat_event_id ''sess-3'' 2) (q_events (hb_queue sample_hub))"
  by code_simp+


section \<open>Gaps\<close>

text \<open>
  C36. The text of a chat is shown to the readers of its agent. Once a message is delivered, the event it became is answered to whoever may see
  the records of that agent, with the text of the message in it, although the session itself is refused to them.
\<close>

theorem chat_text_reaches_readers:
  assumes "deliver_chat_message e wired evt agent i content h = (Inr (), h')"
    and "chat_calm e" "\<not> has_row er_id evt (q_events (hb_queue h))" "evt \<noteq> []"
    and "aw_queue (ap_data s) = Some (hb_queue h')" "allows_agent (telemetry_scope_for v sc (ap_authz s)) agent" "re_pg x = all_ok"
  shows "\<exists>entry. get_event_entry v sc x evt s = Inr entry \<and> ae_payload entry = Some (chat_data i content)"
proof -
  obtain birth where d: "(evt, agent) \<in> inboxes (hb_queue h')"
      "q_events (hb_queue h') = q_events (hb_queue h) @ [chat_event_row e evt birth i content]"
    using deliver_calm [OF assms(2,3), of wired agent i content] assms(1) by (metis Pair_inject)
  have row: "lookup_row er_id evt (q_events (hb_queue h')) = Some (chat_event_row e evt birth i content)"
    using assms(3) by (simp add: d(2) sql_simps has_row_iff chat_event_row_def)
  obtain t where t: "t \<in> set (q_tasks (hb_queue h'))" "tk_event t = evt" "tk_agent t = agent"
    using d(1) by (auto simp: inboxes_def delivery_of_def)
  let ?ts = "map scan_task_full (sort_key tk_id (filter (\<lambda>t. tk_event t \<in> set [evt]) (q_tasks (hb_queue h'))))"
  have "list_ex (\<lambda>t. allows_agent (telemetry_scope_for v sc (ap_authz s)) (t_agent t)) ?ts"
    using t assms(6) by (auto simp: list_ex_iff scan_task_full_def intro!: bexI [of _ t])
  then show ?thesis
    using assms(4,5,7) row
    by (simp add: get_event_entry_def get_event_def tasks_for_events_def Let_def build_activity_entry_def scan_event_def
        chat_event_row_def activity_payload_def chat_data_def)
qed

theorem chat_text_reaches_readers_witness:
  "\<exists>h' entry. deliver_chat_message sample_chat_env True ''chat-sess-2-2'' ''a1'' ''sess-2'' ''secret'' sample_hub = (Inr (), h') \<and>
     get_event_entry (plain_call ''ann'') sample_scope sample_reads ''chat-sess-2-2''
       \<lparr>ap_authz = sample_access, ap_cache = new_group_cache 30, ap_data = \<lparr>aw_queue = Some (hb_queue h'), aw_history = None, aw_logs = None\<rparr>\<rparr> = Inr entry \<and>
     ae_payload entry = Some (chat_data ''sess-2'' ''secret'') \<and>
     require_chat_session_access (plain_call ''ann'') sample_chat_env ''sess-2'' chat_console = Inl (Refused 403 ''forbidden'')"
proof -
  obtain h' where h: "deliver_chat_message sample_chat_env True ''chat-sess-2-2'' ''a1'' ''sess-2'' ''secret'' sample_hub = (Inr (), h')"
    using deliver_calm [OF sample_chat_calm fresh_chat_event(1)] by metis
  have a: "allows_agent (telemetry_scope_for (plain_call ''ann'') sample_scope sample_access) ''a1''"
    by (simp add: sample_telemetry_scope allows_agent_def)
  have no: "require_chat_session_access (plain_call ''ann'') sample_chat_env ''sess-2'' chat_console = Inl (Refused 403 ''forbidden'')"
    using sample_access_refused by simp
  show ?thesis
    using chat_text_reaches_readers [OF h sample_chat_calm fresh_chat_event(1), of "\<lparr>ap_authz = sample_access, ap_cache = new_group_cache 30,
        ap_data = \<lparr>aw_queue = Some (hb_queue h'), aw_history = None, aw_logs = None\<rparr>\<rparr>" "plain_call ''ann''" sample_scope
        "sample_reads"] h a no by (auto simp: sample_reads_def)
qed

text \<open>
  C37. Chatting with an agent asks for no permission on it. Any user may open a session with any agent and post to it, and the agent gets the task, whatever the
  access tables say.
\<close>

theorem chat_asks_no_permission:
  assumes "cw_chat (ap_data s) = Some db" "chat_wf db" "cl_caller v = Some u" "u \<noteq> []" "has_prefix agent ''a-''" "content \<noteq> []"
    and "chat_calm e" "cw_queue (ap_data s)" "\<not> has_row cs_id (wv_session e) (ct_sessions db)"
    and "chat_path chat_prefix path = (wv_session e, True)" "wv_session e \<noteq> []"
    and "\<not> has_row er_id (chat_event_id (wv_session e) (ct_next db)) (q_events (hb_queue (cw_hub (ap_data s))))"
  shows "\<exists>x m s1 s2. handle_chat v e (NewChat (Inr agent)) s = (Inr (OneChat x), s1) \<and>
    handle_chat v e (PostChat path (Inr \<lparr>mq_role = role_user, mq_content = content, mq_tokens = n\<rparr>)) s1 = (Inr (NewMessage m), s2) \<and>
    (chat_event_id (cs_id x) (cg_id m), agent) \<in> inboxes (hb_queue (cw_hub (ap_data s2)))"
proof -
  let ?i = "wv_session e"
  let ?x = "\<lparr>cs_id = ?i, cs_name = ?i, cs_agent = agent, cs_user = u, cs_created = wv_now e, cs_updated = wv_now e\<rparr>"
  let ?db = "db\<lparr>ct_sessions := ct_sessions db @ [?x]\<rparr>"
  have c: "create_session (wv_store e 0) ?i (wv_now e) agent u db = (Inr ?x, ?db)"
    using assms(7,9) by (simp add: create_session_def chat_calm_def Let_def)
  have "agent \<noteq> []" using assms(5) by (auto simp: has_prefix_def)
  then have new: "handle_chat v e (NewChat (Inr agent)) s = (Inr (OneChat ?x), put_chat ?db s)"
    using assms(1,3,4) c by (simp add: create_chat_session_def)
  have wf: "chat_wf ?db" using create_session_outside [OF c assms(2), of "{u}"] by simp
  have row: "lookup_row cs_id ?i (ct_sessions ?db) = Some ?x" using assms(9) by (simp add: sql_simps has_row_iff)
  show ?thesis
    using chat_message_reaches_agent_step [of "put_chat ?db s" ?db ?i ?x u v path e content n] wf row assms(3,5-8,10-12) new by fastforce
qed

theorem chat_asks_no_permission_witness:
  "\<exists>x m s1 s2. handle_chat (plain_call ''ann'') sample_chat_env (NewChat (Inr ''a-secret'')) chat_console = (Inr (OneChat x), s1) \<and>
     handle_chat (plain_call ''ann'') sample_chat_env
       (PostChat ''sess-3/messages'' (Inr \<lparr>mq_role = role_user, mq_content = ''do it'', mq_tokens = 0\<rparr>)) s1 = (Inr (NewMessage m), s2) \<and>
     (chat_event_id (cs_id x) (cg_id m), ''a-secret'') \<in> inboxes (hb_queue (cw_hub (ap_data s2))) \<and>
     fst (guard_read (plain_call ''ann'') ''agent'' ''a-secret'' (\<lambda>s. (Inr (), s)) chat_console) = Inl (Refused 403 ''forbidden'')"
proof -
  have "chat_path chat_prefix ''sess-3/messages'' = (''sess-3'', True)" by code_simp
  moreover have "has_prefix ''a-secret'' ''a-''" by code_simp
  moreover have "fst (guard_read (plain_call ''ann'') ''agent'' ''a-secret'' (\<lambda>s. (Inr (), s)) chat_console) = Inl (Refused 403 ''forbidden'')" by code_simp
  ultimately show ?thesis
    using chat_asks_no_permission [of chat_console sample_chat "plain_call ''ann''" "''ann''" "''a-secret''" "''do it''" sample_chat_env "''sess-3/messages''" 0,
        OF _ sample_chat_wf _ _ _ _ sample_chat_calm] fresh_chat_event(3)
    by (fastforce simp: chat_console_def sample_chat_def sample_chat_env_def has_row_def plain_call_def)
qed

text \<open>The total of a list ends with the requested page: however many sessions there are, the pages announced never go beyond it.\<close>

lemma rounded_up_bound: "a \<le> n * k \<Longrightarrow> 0 < n \<Longrightarrow> a div n + (if a mod n \<noteq> 0 then 1 else 0) \<le> (k :: nat)"
proof (cases "a mod n = 0")
  case False
  assume a: "a \<le> n * k" "0 < n"
  then have "a < k * n" using False by (metis le_neq_implies_less mod_mult_self1_is_0 mult.commute)
  then show ?thesis using less_mult_imp_div_less [of a k n] by simp
qed (auto simp: div_le_mono dest: div_le_mono [of a "n * k" n])

lemma chat_pages_end_here:
  assumes "list_chat_sessions e owner agent user page page_size s = (Inr (xs, m), s')" "goint (pm_size m * pm_page m)"
  shows "int (pm_pages m) \<le> pm_page m"
proof -
  obtain db p ys where p: "parse_page_params page page_size = Inr p" "m = page_meta_of p (length ys)"
      "list_sessions (wv_store e 0) agent (if owner \<noteq> [] then owner else user) (wrap64 (pp_size p * pp_page p)) db = Inr ys"
    using assms(1) by (auto simp: list_chat_sessions_def split: option.splits sum.splits)
  have pos: "0 < pp_size p" "0 < pp_page p" using parse_page_params_bounds [OF p(1)] by auto
  then have "0 < pp_size p * pp_page p" by simp
  then have len: "int (length ys) \<le> pp_size p * pp_page p"
    using p(2,3) assms(2) by (auto simp: list_sessions_def Let_def page_meta_of_def split: if_splits)
  have "total_pages p (length ys) \<le> nat (pp_page p)"
  proof -
    let ?n = "nat (pp_size p)" and ?k = "nat (pp_page p)"
    have "length ys \<le> ?n * ?k" using len pos by (simp add: nat_mult_distrib [symmetric] zle_int [symmetric] nat_0_le del: zle_int)
    then have "length ys div ?n + (if length ys mod ?n \<noteq> 0 then 1 else 0) \<le> ?k"
      using pos(1) by (intro rounded_up_bound) simp_all
    then show ?thesis by (simp add: total_pages_def)
  qed
  then show ?thesis using pos by (simp add: p(2) page_meta_of_def nat_le_iff le_nat_iff)
qed

text \<open>
  The mark precedes the task: when the task cannot be stored the request fails, but the message is in the session and its event is stored as routed, so
  that nothing ever delivers it.
\<close>

lemma failed_enqueue_loses_message:
  assumes "wv_insert e" "wv_mark e" "\<not> dv_enqueue (wv_dispatch e) 0" "\<not> has_row er_id evt (q_events (hb_queue h))"
    and "queue_wf (hb_queue h)"
  shows "\<exists>msg h' birth. deliver_chat_message e wired evt agent i content h = (Inl (Refused 502 msg), h') \<and>
    chat_event_row e evt birth i content \<in> set (q_events (hb_queue h')) \<and> (\<forall>a. (evt, a) \<notin> inboxes (hb_queue h'))"
proof -
  obtain birth h1 where b: "chat_inbox e agent wired h = (birth, h1)" by fastforce
  let ?q = "(hb_queue h)\<lparr>q_events := q_events (hb_queue h) @ [chat_event_row e evt birth i content]\<rparr>"
  let ?en = "enqueue_task (dv_enqueue (wv_dispatch e)) (wv_now e) (chat_task evt agent i content) ?q"
  have "fst ?en \<noteq> Inr () \<and> snd ?en = ?q" using assms(3) by (intro enqueue_refused)
  then obtain m where m: "?en = (Inl m, ?q)" by (cases ?en; cases "fst ?en") auto
  have "(chat_event_row e evt birth i content)\<lparr>er_routed := Some (wv_now e)\<rparr> = chat_event_row e evt birth i content" by (simp add: chat_event_row_def)
  then have "deliver_chat_message e wired evt agent i content h =
      (Inl (Refused 502 (''failed to enqueue chat event for agent: '' @ m)), h1\<lparr>hb_queue := ?q\<rparr>)"
    using deliver_reaches_enqueue [OF assms(1,4) b] m assms(2) by simp
  moreover have "(evt, a) \<notin> inboxes (hb_queue h)" for a
    using assms(4,5) by (force simp: inboxes_def delivery_of_def queue_wf_def has_row_image)
  ultimately show ?thesis by (auto simp: inboxes_def)
qed

end
