(* ===== verification/GroupApi.thy ===== *)
theory GroupApi
  imports GuardedApi UserTokens
begin

text \<open>
  The endpoints of groups and their members (\<^verbatim>\<open>services/hub/internal/api/handlers_groups.go\<close>) and of API tokens
  (\<^verbatim>\<open>handlers_user_tokens.go\<close>). The routes exist whether or not access control is wired; without it the store is a nil
  interface, and a handler that reaches it panics. Statement \<open>i\<close> of a request is carried out when \<open>cl_data v i\<close> holds.
\<close>

section \<open>Groups\<close>

definition bad_json :: refusal where "bad_json = Refused 400 ''invalid JSON''"
definition name_required :: refusal where "name_required = Refused 400 ''name is required''"
definition group_missing :: string where "group_missing = ''group not found''"
definition no_group_page :: refusal where "no_group_page = Refused 404 ''404 page not found''"

type_synonym ('r, 'd) group_reply = "('r, 'd) reply"

definition from_statement :: "nat \<Rightarrow> call \<Rightarrow> pg" where
  "from_statement i v = (\<lambda>n. cl_data v (i + n))"

text \<open>Use the store of the access tables.\<close>

definition with_store :: "call \<Rightarrow> (authz_db \<Rightarrow> (refusal + 'r) \<times> authz_db) \<Rightarrow> 'd api \<Rightarrow> ('r, 'd) group_reply" where
  "with_store v f s =
     (if \<not> cl_wired v then (Inl Aborted, s) else (case f (ap_authz s) of (r, db) \<Rightarrow> (r, s\<lparr>ap_authz := db\<rparr>)))"

definition guard_group_owner where
  "guard_group_owner v gid k s = with_guard (require_group_owner (cl_wired v) (cl_check v) (ap_authz s) (cl_caller v) gid) k s"

definition list_group_page :: "call \<Rightarrow> 'd api \<Rightarrow> (group list, 'd) group_reply" where
  "list_group_page v = with_store v (\<lambda>db. (map_sum internal id (list_groups (cl_data v) db), db))"

text \<open>Any caller may create a group and becomes its owner.\<close>

definition post_group :: "call \<Rightarrow> string \<Rightarrow> string + string \<times> string \<Rightarrow> 'd api \<Rightarrow> (group, 'd) group_reply" where
  "post_group v new_id body s =
     (case cl_caller v of
        None \<Rightarrow> (Inl (Refused 401 ''unauthorized''), s)
      | Some sub \<Rightarrow>
          (case body of
             Inl _ \<Rightarrow> (Inl bad_json, s)
           | Inr (name, description) \<Rightarrow>
               if name = [] then (Inl name_required, s)
               else with_store v (\<lambda>db.
                 (case create_group (from_statement 0 v) new_id (cl_now v) name description db of
                    (Inl e, db') \<Rightarrow> (Inl (internal e), db')
                  | (Inr g, db') \<Rightarrow>
                      (case add_group_member (from_statement 1 v) (gr_id g) sub role_owner db' of
                         (Inl e, db2) \<Rightarrow> (Inl (internal e), db2)
                       | (Inr _, db2) \<Rightarrow> (Inr g, db2)))) s))"

definition get_group_page :: "call \<Rightarrow> string \<Rightarrow> 'd api \<Rightarrow> (group \<times> (user \<times> group_role) list, 'd) group_reply" where
  "get_group_page v i =
     with_store v (\<lambda>db.
       ((case get_group (from_statement 0 v) i db of
           Inl e \<Rightarrow> Inl (not_found_or_internal group_missing e)
         | Inr g \<Rightarrow> (case list_group_members (from_statement 1 v) i db of Inl e \<Rightarrow> Inl (internal e) | Inr ms \<Rightarrow> Inr (g, ms))), db))"

definition patch_group :: "call \<Rightarrow> string \<Rightarrow> string + string \<times> string \<Rightarrow> 'd api \<Rightarrow> (group, 'd) group_reply" where
  "patch_group v i body s =
     (case body of
        Inl _ \<Rightarrow> (Inl bad_json, s)
      | Inr (name, description) \<Rightarrow>
          with_store v (\<lambda>db. map_prod (map_sum (not_found_or_internal group_missing) id) id
            (update_group (cl_data v) (cl_now v) i name description db)) s)"

definition drop_group :: "call \<Rightarrow> string \<Rightarrow> 'd api \<Rightarrow> (unit, 'd) group_reply" where
  "drop_group v i =
     with_store v (\<lambda>db. map_prod (map_sum (not_found_or_internal group_missing) id) id (delete_group (cl_data v) i db))"

section \<open>Members\<close>

text \<open>One statement per user; the first failure ends the request and keeps what was done before it.\<close>

fun add_members :: "call \<Rightarrow> nat \<Rightarrow> string \<Rightarrow> group_role \<Rightarrow> string list \<Rightarrow> authz_db \<Rightarrow> (refusal + unit) \<times> authz_db" where
  "add_members v i gid role [] db = (Inr (), db)"
| "add_members v i gid role (uid # us) db =
     (case add_group_member (from_statement i v) gid uid role db of
        (Inl e, db') \<Rightarrow> (Inl (internal e), db')
      | (Inr _, db') \<Rightarrow> add_members v (Suc i) gid role us db')"

definition bad_role :: refusal where "bad_role = Refused 400 ''role must be reader, writer, or owner''"

definition post_members :: "call \<Rightarrow> string \<Rightarrow> string + string list \<times> group_role \<Rightarrow> 'd api \<Rightarrow> (unit, 'd) group_reply" where
  "post_members v gid body s =
     (case body of
        Inl _ \<Rightarrow> (Inl bad_json, s)
      | Inr (uids, role) \<Rightarrow>
          let role = (if role = [] then role_reader else role) in
          if role \<noteq> role_reader \<and> role \<noteq> role_writer \<and> role \<noteq> role_owner then (Inl bad_role, s)
          else if uids = [] then (Inr (), s)
          else with_store v (add_members v 0 gid role uids) s)"

definition drop_member :: "call \<Rightarrow> string \<Rightarrow> string \<Rightarrow> 'd api \<Rightarrow> (unit, 'd) group_reply" where
  "drop_member v gid uid =
     with_store v (\<lambda>db. map_prod (map_sum (not_found_or_internal ''member not found'') id) id (remove_group_member (cl_data v) gid uid db))"

section \<open>Routes\<close>

datatype group_target = GroupRoot string | GroupMembers string string | NoGroupPage

text \<open>What a path below \<^verbatim>\<open>/api/v1/groups/\<close> names; of the members, what follows the prefix without its first slash.\<close>

definition group_target_of :: "string \<Rightarrow> group_target" where
  "group_target_of path =
     (let (i, rest) = (case cut_at (CHR ''/'') path of None \<Rightarrow> (path, []) | Some p \<Rightarrow> p)
      in if rest = [] \<or> rest = ''/'' then GroupRoot i
         else if has_prefix rest ''members''
         then (let user = drop (length ''members'') rest
               in GroupMembers i (if has_prefix user ''/'' then drop 1 user else user))
         else NoGroupPage)"

datatype group_call =
    ListGroups
  | PostGroup string "string + string \<times> string"
  | GetGroupPath string
  | PatchGroupPath string "string + string \<times> string"
  | PostGroupPath string "string + string list \<times> group_role"
  | DeleteGroupPath string

datatype group_answer = GroupList "group list" | OneGroup group | GroupDetail group "(user \<times> group_role) list" | GroupDone

fun handle_groups :: "call \<Rightarrow> group_call \<Rightarrow> 'd api \<Rightarrow> (group_answer, 'd) group_reply" where
  "handle_groups v ListGroups s = map_reply GroupList (list_group_page v s)"
| "handle_groups v (PostGroup new_id body) s = map_reply OneGroup (post_group v new_id body s)"
| "handle_groups v (GetGroupPath path) s =
     (case group_target_of path of
        GroupRoot i \<Rightarrow> map_reply (\<lambda>(g, ms). GroupDetail g ms) (get_group_page v i s)
      | GroupMembers i user \<Rightarrow> guard_group_owner v i (\<lambda>s. (Inl bad_method, s)) s
      | NoGroupPage \<Rightarrow> (Inl no_group_page, s))"
| "handle_groups v (PatchGroupPath path body) s =
     (case group_target_of path of
        GroupRoot i \<Rightarrow> guard_group_owner v i (\<lambda>s. map_reply OneGroup (patch_group v i body s)) s
      | GroupMembers i user \<Rightarrow> guard_group_owner v i (\<lambda>s. (Inl bad_method, s)) s
      | NoGroupPage \<Rightarrow> (Inl no_group_page, s))"
| "handle_groups v (PostGroupPath path body) s =
     (case group_target_of path of
        GroupRoot i \<Rightarrow> (Inl bad_method, s)
      | GroupMembers i user \<Rightarrow>
          guard_group_owner v i (\<lambda>s. if user = [] then map_reply (\<lambda>_. GroupDone) (post_members v i body s) else (Inl bad_method, s)) s
      | NoGroupPage \<Rightarrow> (Inl no_group_page, s))"
| "handle_groups v (DeleteGroupPath path) s =
     (case group_target_of path of
        GroupRoot i \<Rightarrow> guard_group_owner v i (\<lambda>s. map_reply (\<lambda>_. GroupDone) (drop_group v i s)) s
      | GroupMembers i user \<Rightarrow>
          guard_group_owner v i (\<lambda>s. if user \<noteq> [] then map_reply (\<lambda>_. GroupDone) (drop_member v i user s) else (Inl bad_method, s)) s
      | NoGroupPage \<Rightarrow> (Inl no_group_page, s))"

section \<open>API tokens\<close>

text \<open>What of a token is shown: everything except its hash and its owner.\<close>

record token_view =
  tv_id :: string
  tv_name :: string
  tv_expires :: instant
  tv_last_used :: "instant option"
  tv_created :: instant
  tv_revoked :: "instant option"

definition to_token_response :: "user_token \<Rightarrow> token_view" where
  "to_token_response t = \<lparr>tv_id = ut_id t, tv_name = ut_name t, tv_expires = ut_expires t, tv_last_used = ut_last_used t,
     tv_created = ut_created t, tv_revoked = ut_revoked t\<rparr>"

text \<open>
  Whether the store of tokens is configured, the shared secret of the internal surface, the hash function and the random bytes.
\<close>

record token_site =
  ts_on :: bool
  ts_secret :: string
  ts_sha :: "string \<Rightarrow> string"
  ts_random :: "string option"

definition no_tokens :: refusal where "no_tokens = Refused 503 ''user tokens not configured''"

definition token_day :: duration where "token_day = 24 * 3600 * 10 ^ 9"

definition list_token_page :: "call \<Rightarrow> string \<Rightarrow> 'd api \<Rightarrow> (token_view list, 'd) reply" where
  "list_token_page v sub s = (map_sum internal (map to_token_response) (list_tokens (cl_data v) sub (ap_authz s)), s)"

definition post_token ::
  "token_site \<Rightarrow> call \<Rightarrow> string \<Rightarrow> string \<Rightarrow> string + string \<times> int \<Rightarrow> 'd api \<Rightarrow> (token_view \<times> string, 'd) reply" where
  "post_token t v sub new_id body s =
     (case body of
        Inl _ \<Rightarrow> (Inl bad_json, s)
      | Inr (name, days) \<Rightarrow>
          if name = [] then (Inl name_required, s)
          else if days \<noteq> 30 \<and> days \<noteq> 60 \<and> days \<noteq> 90 then (Inl (Refused 400 ''expiresInDays must be 30, 60, or 90''), s)
          else (case create_token (ts_sha t) (ts_random t) (cl_data v) new_id (cl_now v) sub name (cl_now v + days * token_day) (ap_authz s) of
                  (Inl e, db) \<Rightarrow> (Inl (internal e), s\<lparr>ap_authz := db\<rparr>)
                | (Inr (tok, plaintext), db) \<Rightarrow> (Inr (to_token_response tok, plaintext), s\<lparr>ap_authz := db\<rparr>)))"

definition drop_token :: "call \<Rightarrow> string \<Rightarrow> string \<Rightarrow> 'd api \<Rightarrow> (unit, 'd) reply" where
  "drop_token v sub i s =
     (if i = [] then (Inl (Refused 400 ''token id required''), s)
      else (case revoke_token (cl_data v) (cl_now v) i sub (ap_authz s) of
              (Inl e, db) \<Rightarrow> (Inl (not_found_or_internal ''token not found'' e), s\<lparr>ap_authz := db\<rparr>)
            | (Inr _, db) \<Rightarrow> (Inr (), s\<lparr>ap_authz := db\<rparr>)))"

datatype token_call = ListTokens | PostToken string "string + string \<times> int" | DeleteToken string

datatype token_answer = TokenList "token_view list" | NewToken token_view string | TokenGone

definition handle_tokens :: "token_site \<Rightarrow> call \<Rightarrow> token_call \<Rightarrow> 'd api \<Rightarrow> (token_answer, 'd) reply" where
  "handle_tokens t v q s =
     (if \<not> ts_on t then (Inl no_tokens, s)
      else (case cl_caller v of
              None \<Rightarrow> (Inl (Refused 401 ''unauthorized''), s)
            | Some sub \<Rightarrow>
                (case q of
                   ListTokens \<Rightarrow> map_reply TokenList (list_token_page v sub s)
                 | PostToken new_id body \<Rightarrow> map_reply (\<lambda>(w, p). NewToken w p) (post_token t v sub new_id body s)
                 | DeleteToken i \<Rightarrow> map_reply (\<lambda>_. TokenGone) (drop_token v sub i s))))"

text \<open>The internal surface resolves the text of a token to its user; \<open>header\<close> is the token of the internal caller.\<close>

definition handle_token_validate ::
  "token_site \<Rightarrow> call \<Rightarrow> string \<Rightarrow> string + string \<Rightarrow> 'd api \<Rightarrow> (string \<times> string, 'd) reply" where
  "handle_token_validate t v header body s =
     (if \<not> ts_on t then (Inl no_tokens, s)
      else if ts_secret t = [] \<or> header \<noteq> ts_secret t then (Inl (Refused 401 ''unauthorized''), s)
      else (case body of
              Inl _ \<Rightarrow> (Inl bad_json, s)
            | Inr token \<Rightarrow>
                if token = [] then (Inl (Refused 400 ''token is required''), s)
                else (case validate_token (ts_sha t) (from_statement 0 v) (cl_now v) token (ap_authz s) of
                        (Inl e, db) \<Rightarrow> (Inl (if e = NotFound then Refused 401 ''invalid or expired token'' else internal e), s\<lparr>ap_authz := db\<rparr>)
                      | (Inr tok, db) \<Rightarrow>
                          if \<not> cl_wired v then (Inl Aborted, s\<lparr>ap_authz := db\<rparr>)
                          else (case get_user (from_statement 1 v) (ut_user tok) db of
                                  Inl e \<Rightarrow> (Inl (Refused 500 ''user lookup failed''), s\<lparr>ap_authz := db\<rparr>)
                                | Inr u \<Rightarrow> (Inr (ut_user tok, us_username u), s\<lparr>ap_authz := db\<rparr>)))))"

end
