(* ===== verification/GroupRules.thy ===== *)
theory GroupRules
  imports GroupApi AccountRules
begin

text \<open>
  What the endpoints of groups and tokens guarantee: outsiders cannot touch a group, a request about tokens concerns those of its caller, and a token
  made through the endpoint is resolved to its owner until it expires or is revoked; and where the group endpoints fall short.
\<close>

section \<open>Nothing changes without permission\<close>

fun group_needs :: "group_call \<Rightarrow> authz_db \<Rightarrow> string \<Rightarrow> bool" where
  "group_needs (PostGroup new_id body) db sub = True"
| "group_needs (PatchGroupPath path body) db sub =
     (case group_target_of path of GroupRoot i \<Rightarrow> admin_user db sub \<or> has_role db sub i role_owner | _ \<Rightarrow> False)"
| "group_needs (PostGroupPath path body) db sub =
     (case group_target_of path of GroupMembers i user \<Rightarrow> admin_user db sub \<or> has_role db sub i role_owner | _ \<Rightarrow> False)"
| "group_needs (DeleteGroupPath path) db sub =
     (case group_target_of path of GroupRoot i \<Rightarrow> admin_user db sub \<or> has_role db sub i role_owner
      | GroupMembers i user \<Rightarrow> admin_user db sub \<or> has_role db sub i role_owner | _ \<Rightarrow> False)"
| "group_needs _ db sub = False"

lemma owner_covers: "role_covers role_owner need"
  by (simp add: role_covers_def role_rank_def)

lemma can_manage_group_sound:
  assumes "can_manage_group v db uid gid c = (Inr True, c')" "access_wf db" "coherent c db uid (ck_now v)"
  shows "admin_user db uid \<or> has_role db uid gid role_owner"
proof (cases "is_admin v db uid")
  case (Inl e)
  then show ?thesis using assms(1) by (simp add: can_manage_group_def)
next
  case (Inr a)
  show ?thesis
  proof (cases a)
    case True
    then show ?thesis using is_admin_sound Inr by simp
  next
    case False
    then have "role_of v db uid gid c = (Inr role_owner, c')"
      using assms(1) Inr by (auto simp: can_manage_group_def split: sum.splits prod.splits if_splits)
    then have "role_in (roles_of db uid) gid = role_owner" using role_of_sound [OF _ assms(3)] by fastforce
    then show ?thesis using role_in_covers [OF assms(2), of role_owner uid gid] by (simp add: owner_covers role_rank_def)
  qed
qed

lemma guard_group_owner_change:
  assumes "guard_group_owner v gid k s = (r, s')" "changed s s'" "cl_wired v" "current v s"
  shows "\<exists>sub. cl_caller v = Some sub \<and> (admin_user (ap_authz s) sub \<or> has_role (ap_authz s) sub gid role_owner)"
proof -
  have w: "cl_wired v = True" using assms(3) by simp
  show ?thesis
    using assms(1)
    unfolding guard_group_owner_def require_group_owner_def w
  proof (cases rule: with_guard_cases)
    case (1 d c)
    then show ?thesis using assms(2) by simp
  next
    case (2 sub c)
    then show ?thesis using can_manage_group_sound [OF 2(2)] assms(4) by (auto simp: current_def)
  qed
qed

lemma guard_owner_steady:
  assumes "\<And>c. steady (s\<lparr>ap_cache := c\<rparr>) (k (s\<lparr>ap_cache := c\<rparr>))"
  shows "steady s (guard_group_owner v gid k s)"
  unfolding guard_group_owner_def require_group_owner_def
  by (rule with_guard_steady [OF _ assms], erule guard_fresh, simp add: fresh_def, rule checks_fresh, assumption, simp add: fresh_def)

lemma with_store_cache [simp]: "ap_cache (snd (with_store v f s)) = ap_cache s" "ap_data (snd (with_store v f s)) = ap_data s"
  by (simp_all add: with_store_def split: prod.split)

lemma reading_groups:
  "snd (list_group_page v s) = s" "snd (get_group_page v i s) = s"
  by (simp_all add: list_group_page_def get_group_page_def with_store_def)

lemma group_change_permitted:
  assumes "handle_groups v q s = (r, s')" "changed s s'" "cl_wired v" "current v s"
  shows "\<exists>sub. cl_caller v = Some sub \<and> group_needs q (ap_authz s) sub"
proof (cases q)
  case ListGroups
  then have "s' = s" using assms(1) reading_groups(1) [of v s] by (cases "list_group_page v s") auto
  then show ?thesis using assms(2) by simp
next
  case (PostGroup new_id body)
  then show ?thesis using assms(1,2) by (auto simp: post_group_def split: option.splits)
next
  case (GetGroupPath path)
  show ?thesis
  proof (cases "group_target_of path")
    case (GroupRoot i)
    then have "s' = s" using assms(1) GetGroupPath reading_groups(2) [of v i s] by (cases "get_group_page v i s") auto
    then show ?thesis using assms(2) by simp
  next
    case (GroupMembers i user)
    then have "\<not> changed s s'"
      using assms(1) GetGroupPath by (auto simp: guard_group_owner_def with_guard_def split: prod.splits sum.splits)
    then show ?thesis using assms(2) by simp
  qed (use assms(1,2) GetGroupPath in auto)
next
  case (PatchGroupPath path body)
  have m: "\<not> changed s s'" if "group_target_of path = GroupMembers i user" for i user
    using assms(1) PatchGroupPath that by (auto simp: guard_group_owner_def with_guard_def split: prod.splits sum.splits)
  show ?thesis
    using guard_group_owner_change [OF _ assms(2-4)] assms(1,2) PatchGroupPath m by (cases "group_target_of path") auto
next
  case (PostGroupPath path body)
  then show ?thesis
    using guard_group_owner_change [OF _ assms(2-4)] assms(1,2) by (cases "group_target_of path") auto
next
  case (DeleteGroupPath path)
  then show ?thesis
    using guard_group_owner_change [OF _ assms(2-4)] assms(1,2) by (cases "group_target_of path") auto
qed

lemma groups_steady: "steady s (handle_groups v q s)"
proof -
  have post: "steady s (post_group v new_id body s)" for s :: "'d api" and new_id body
    by (rule steady_same_cache) (simp add: post_group_def split: option.split sum.split prod.split)
  have patch: "steady s (patch_group v i body s)" for s :: "'d api" and i body
    by (rule steady_same_cache) (simp add: patch_group_def split: sum.split)
  have drop: "steady s (drop_group v i s)" "steady s (drop_member v i u s)" for s :: "'d api" and i u
    by (rule steady_same_cache, simp add: drop_group_def drop_member_def)+
  have members: "steady s (post_members v i body s)" for s :: "'d api" and i body
    by (rule steady_same_cache) (simp add: post_members_def Let_def split: sum.split)
  have reads: "steady s (list_group_page v s)" "steady s (get_group_page v i s)" for s :: "'d api" and i
    by (simp_all add: steady_same_cache reading_groups)
  show ?thesis
    by (cases q) (auto split: group_target.split simp: post patch drop members reads intro!: guard_owner_steady)
qed

interpretation groups: guarded_endpoint handle_groups "\<lambda>q db _. group_needs q db"
  by unfold_locales (erule group_change_permitted, assumption+, erule (1) fresh_current, rule groups_steady)

text \<open>Whoever is neither an owner nor an administrator changes nothing in a group; only new groups are for everybody.\<close>

lemma group_changes_are_permitted:
  assumes "access_wf (ap_authz s)" "fresh s"
    and "\<forall>(v, q) \<in> set xs. cl_wired v \<and> (\<forall>sub. cl_caller v = Some sub \<longrightarrow> \<not> group_needs q (ap_authz s) sub)"
  shows "ap_authz (serve_all handle_groups xs s) = ap_authz s"
  using groups.unpermitted_changes_nothing [OF assms] by (simp add: changed_def)

section \<open>Outsiders cannot touch a group\<close>

text \<open>What belongs to a group, and that two states agree on it.\<close>

definition same_group :: "string \<Rightarrow> authz_db \<Rightarrow> authz_db \<Rightarrow> bool" where
  "same_group g db db' \<longleftrightarrow>
     az_users db' = az_users db \<and> lookup_row gr_id g (az_groups db') = lookup_row gr_id g (az_groups db) \<and>
     filter (\<lambda>m. gm_group m = g) (az_members db') = filter (\<lambda>m. gm_group m = g) (az_members db) \<and>
     filter (\<lambda>r. rg_group r = g) (az_resources db') = filter (\<lambda>r. rg_group r = g) (az_resources db)"

lemma same_group_refl [simp]: "same_group g db db"
  by (simp add: same_group_def)

lemma same_group_trans: "same_group g a b \<Longrightarrow> same_group g b c \<Longrightarrow> same_group g a c"
  by (simp add: same_group_def)

lemma other_group_update: "i \<noteq> g \<Longrightarrow> same_group g db (snd (update_group pg now i name d db))"
  by (simp add: same_group_def update_group_def Let_def lookup_row_update split: option.split)

lemma filter_delete_rows: "(\<And>x. key x = i \<Longrightarrow> \<not> p x) \<Longrightarrow> filter p (delete_rows key i xs) = filter p xs"
  by (auto simp: delete_rows_def intro: filter_cong)

lemma other_group_delete: "i \<noteq> g \<Longrightarrow> same_group g db (snd (delete_group pg i db))"
  by (simp add: same_group_def delete_group_def filter_delete_rows lookup_row_delete)

lemma filter_update_where: "(\<And>x. q x \<Longrightarrow> \<not> p x \<and> \<not> p (f x)) \<Longrightarrow> filter p (update_where q f xs) = filter p xs"
  by (induction xs) (auto simp: update_where_def)

lemma other_group_add: "i \<noteq> g \<Longrightarrow> same_group g db (snd (add_group_member pg i uid role db))"
  by (auto simp: same_group_def add_group_member_def intro!: filter_update_where)

lemma other_group_remove: "i \<noteq> g \<Longrightarrow> same_group g db (snd (remove_group_member pg i uid db))"
  by (auto simp: same_group_def remove_group_member_def intro!: filter_delete_rows)

lemma other_group_adds: "i \<noteq> g \<Longrightarrow> same_group g db (snd (add_members v n i role us db))"
proof (induction us arbitrary: n db)
  case (Cons uid us)
  obtain r db' where a: "add_group_member (from_statement n v) i uid role db = (r, db')" by fastforce
  then have "same_group g db db'" using other_group_add [OF Cons.prems, of db "from_statement n v" uid role] by simp
  then show ?case using a Cons.IH [OF Cons.prems, of db' "Suc n"] by (auto split: sum.split intro: same_group_trans)
qed simp

lemma new_group_apart:
  assumes "has_row gr_id g (az_groups db)" "create_group pg i now name d db = (r, db')"
  shows "same_group g db db'" "r = Inr h \<Longrightarrow> gr_id h \<noteq> g"
  using assms by (auto simp: create_group_def same_group_def Let_def sql_simps has_row_iff split: if_splits option.splits)

text \<open>
  No user of \<open>U\<close> is an administrator or an owner of the group, nor does the cache remember one as an owner; what else it remembers may
  be out of date.
\<close>

definition shut :: "string \<Rightarrow> string set \<Rightarrow> authz_db \<Rightarrow> group_cache \<Rightarrow> bool" where
  "shut g U db c \<longleftrightarrow>
     (\<forall>u \<in> U. \<not> admin_user db u \<and> \<not> has_role db u g role_owner) \<and>
     (\<forall>u \<in> U. case map_of (gc_items c) u of None \<Rightarrow> True | Some (rs, _) \<Rightarrow> role_in rs g \<noteq> role_owner)"

lemma same_group_access:
  assumes "same_group g db db'"
  shows "admin_user db' u = admin_user db u" "has_role db' u g need = has_role db u g need"
proof -
  have "has_role db u g need = list_ex (\<lambda>m. gm_user m = u \<and> role_covers (gm_role m) need) (filter (\<lambda>m. gm_group m = g) (az_members db))" for db
    by (auto simp: has_role_def list_ex_iff)
  then show "has_role db' u g need = has_role db u g need" using assms by (simp add: same_group_def)
  show "admin_user db' u = admin_user db u" using assms by (simp add: admin_user_def same_group_def)
qed

lemma shut_same: "shut g U db c \<Longrightarrow> same_group g db db' \<Longrightarrow> shut g U db' c"
  using same_group_access [of g db db'] by (simp add: shut_def)

lemma loaded_role:
  assumes "\<not> has_role db u g role_owner"
  shows "role_in (map (\<lambda>m. (gm_group m, gm_role m)) (filter (\<lambda>m. gm_user m = u) (az_members db))) g \<noteq> role_owner"
proof
  assume "role_in (map (\<lambda>m. (gm_group m, gm_role m)) (filter (\<lambda>m. gm_user m = u) (az_members db))) g = role_owner"
  then have "map_of (map (\<lambda>m. (gm_group m, gm_role m)) (filter (\<lambda>m. gm_user m = u) (az_members db))) g = Some role_owner"
    by (auto simp: role_in_def role_owner_def split: option.splits)
  then have "(g, role_owner) \<in> set (map (\<lambda>m. (gm_group m, gm_role m)) (filter (\<lambda>m. gm_user m = u) (az_members db)))" by (rule map_of_SomeD)
  then show False using assms owner_covers by (auto simp: has_role_def list_ex_iff)
qed

lemma role_of_shut:
  assumes "role_of v db u i c = (r, c')" "shut g U db c" "u \<in> U"
  shows "shut g U db c'" "r = Inr role_owner \<Longrightarrow> i \<noteq> g"
proof -
  let ?rs = "map (\<lambda>m. (gm_group m, gm_role m)) (filter (\<lambda>m. gm_user m = u) (az_members db))"
  have l: "role_in ?rs g \<noteq> role_owner" using loaded_role assms(2,3) by (simp add: shut_def)
  have "c' = c \<or> (\<exists>t. c' = c\<lparr>gc_items := aput u (?rs, t) (gc_items c)\<rparr>)"
    using assms(1) by (auto simp: role_of_def user_role_def user_roles_def user_group_roles_def split: option.splits if_splits sum.splits)
  then show "shut g U db c'" using assms(2) l by (auto simp: shut_def)
  show "i \<noteq> g" if "r = Inr role_owner"
    using assms l that
    by (auto simp: shut_def role_of_def user_role_def user_roles_def user_group_roles_def split: option.splits if_splits sum.splits)
qed

lemma can_manage_shut:
  assumes "can_manage_group v db u i c = (r, c')" "shut g U db c" "u \<in> U"
  shows "shut g U db c'" "r = Inr True \<Longrightarrow> i \<noteq> g"
proof -
  have "is_admin v db u \<noteq> Inr True" using is_admin_sound assms(2,3) by (auto simp: shut_def)
  then show "shut g U db c'" "r = Inr True \<Longrightarrow> i \<noteq> g"
    using assms(1,2) role_of_shut(1) [OF _ assms(2,3)] role_of_shut(2) [OF _ assms(2,3)]
    by (auto simp: can_manage_group_def split: sum.splits prod.splits)
qed

definition outside :: "string set \<Rightarrow> call \<Rightarrow> bool" where
  "outside U v \<longleftrightarrow> cl_wired v \<and> (case cl_caller v of None \<Rightarrow> True | Some u \<Rightarrow> u \<in> U)"

lemma guard_owner_outside:
  assumes "outside U v" "shut g U (ap_authz s) (ap_cache s)"
    and "\<And>c. i \<noteq> g \<Longrightarrow> same_group g (ap_authz s) (ap_authz (snd (k (s\<lparr>ap_cache := c\<rparr>))))"
    and "\<And>c. ap_cache (snd (k (s\<lparr>ap_cache := c\<rparr>))) = c"
  defines "s' \<equiv> snd (guard_group_owner v i k s)"
  shows "same_group g (ap_authz s) (ap_authz s') \<and> shut g U (ap_authz s') (ap_cache s')"
proof -
  obtain x s1 where x: "guard_group_owner v i k s = (x, s1)" by fastforce
  have w: "cl_wired v = True" using assms(1) by (simp add: outside_def)
  obtain y c where y: "require_group_owner True (cl_check v) (ap_authz s) (cl_caller v) i (ap_cache s) = (y, c)" by fastforce
  have c: "shut g U (ap_authz s) c" "i = g \<Longrightarrow> \<not> (\<exists>u. y = Inr u)"
    using y assms(1,2) can_manage_shut(1) [OF _ assms(2)] can_manage_shut(2) [OF _ assms(2) _ refl, where i = g]
    by (auto simp: require_group_owner_def guard_def outside_def split: option.splits prod.splits sum.splits if_splits)
  show ?thesis
  proof (cases y)
    case (Inl d)
    then show ?thesis using y c(1) w by (simp add: s'_def guard_group_owner_def with_guard_def)
  next
    case (Inr u)
    then have "s' = snd (k (s\<lparr>ap_cache := c\<rparr>))" "i \<noteq> g" using y c(2) w by (auto simp: s'_def guard_group_owner_def with_guard_def)
    then show ?thesis using assms(3,4) shut_same [OF c(1)] by simp
  qed
qed

lemma with_store_authz: "cl_wired v \<Longrightarrow> ap_authz (snd (with_store v f s)) = snd (f (ap_authz s))"
  by (simp add: with_store_def split: prod.split)

lemma post_group_outside:
  assumes "outside U v" "has_row gr_id g (az_groups (ap_authz s))"
  shows "same_group g (ap_authz s) (ap_authz (snd (post_group v new_id body s)))"
proof -
  have "same_group g db (snd (case create_group pg new_id now name d db of
        (Inl e, db') \<Rightarrow> (Inl (internal e), db')
      | (Inr h, db') \<Rightarrow> (case add_group_member pg' (gr_id h) sub role_owner db' of
           (Inl e, db2) \<Rightarrow> (Inl (internal e), db2) | (Inr _, db2) \<Rightarrow> (Inr h, db2))))"
    if "has_row gr_id g (az_groups db)" for pg now name d db pg' sub
  proof (cases "create_group pg new_id now name d db")
    case (Pair r db')
    note apart = new_group_apart [OF that Pair]
    show ?thesis
      using Pair apart same_group_trans [OF apart(1) other_group_add]
      by (auto split: sum.split prod.split) (metis snd_conv)+
  qed
  then show ?thesis
    using assms by (auto simp: post_group_def outside_def with_store_authz split: option.split sum.split)
qed

lemma outsider_step:
  assumes o: "outside U v" and sh: "shut g U (ap_authz s) (ap_cache s)" and g: "has_row gr_id g (az_groups (ap_authz s))"
  shows "same_group g (ap_authz s) (ap_authz (snd (handle_groups v q s))) \<and>
    shut g U (ap_authz (snd (handle_groups v q s))) (ap_cache (snd (handle_groups v q s)))"
proof -
  have w: "cl_wired v" using o by (simp add: outside_def)
  note guarded = guard_owner_outside [OF o sh]
  show ?thesis
  proof (cases q)
    case (PostGroup new_id body)
    have "ap_cache (snd (post_group v new_id body s)) = ap_cache s" by (simp add: post_group_def split: option.split sum.split prod.split)
    then show ?thesis using PostGroup post_group_outside [OF o g] shut_same [OF sh] by simp
  next
    case (GetGroupPath path)
    then show ?thesis using sh by (auto split: group_target.split simp: reading_groups intro!: guarded [THEN conjunct1] guarded [THEN conjunct2])
  next
    case (PatchGroupPath path body)
    then show ?thesis
      using sh
      by (auto split: group_target.split sum.split simp: patch_group_def with_store_authz w other_group_update
          intro!: guarded [THEN conjunct1] guarded [THEN conjunct2])
  next
    case (PostGroupPath path body)
    then show ?thesis
      using sh
      by (auto split: group_target.split sum.split simp: post_members_def Let_def with_store_authz w other_group_adds
          intro!: guarded [THEN conjunct1] guarded [THEN conjunct2])
  next
    case (DeleteGroupPath path)
    then show ?thesis
      using sh
      by (auto split: group_target.split simp: drop_group_def drop_member_def with_store_authz w other_group_delete other_group_remove
          intro!: guarded [THEN conjunct1] guarded [THEN conjunct2])
  qed (use sh in \<open>simp add: reading_groups\<close>)
qed

text \<open>
  C39. Outsiders cannot touch a group. Take users none of whom is an administrator or an owner of the group, nor remembered as one by the cache of roles
  (which may be out of date in every other respect). Whatever requests to the group endpoints they send, one after another and whatever fails in
  them, the group keeps its name and description, its members with their roles and its resources; in particular none of the users
  makes itself or another a member, and afterwards they are outsiders still.
\<close>

theorem outsiders_cannot_touch_group:
  assumes "shut g U (ap_authz s) (ap_cache s)" "has_row gr_id g (az_groups (ap_authz s))"
    and "\<forall>(v, q) \<in> set xs. cl_wired v \<and> (case cl_caller v of None \<Rightarrow> True | Some u \<Rightarrow> u \<in> U)"
  shows "same_group g (ap_authz s) (ap_authz (serve_all handle_groups xs s)) \<and>
    shut g U (ap_authz (serve_all handle_groups xs s)) (ap_cache (serve_all handle_groups xs s))"
  using assms
proof (induction xs arbitrary: s)
  case (Cons x xs)
  obtain v q where x: "x = (v, q)" by (cases x)
  then have o: "outside U v" using Cons.prems(3) by (auto simp: outside_def)
  have step: "same_group g (ap_authz s) (ap_authz (snd (handle_groups v q s))) \<and>
      shut g U (ap_authz (snd (handle_groups v q s))) (ap_cache (snd (handle_groups v q s)))"
    using outsider_step [OF o Cons.prems(1,2)] .
  then have "has_row gr_id g (az_groups (ap_authz (snd (handle_groups v q s))))"
    using Cons.prems(2) by (simp add: same_group_def has_row_iff)
  then show ?case using Cons.IH [of "snd (handle_groups v q s)"] step Cons.prems(3) x by (auto intro: same_group_trans)
qed simp

definition ops_group_requests :: "(call \<times> group_call) list" where
  "ops_group_requests =
     [(plain_call ''ann'', PostGroup ''g9'' (Inr (''mine'', []))), (plain_call ''ann'', PostGroupPath ''g2/members'' (Inr ([''ann''], role_owner))),
      (plain_call ''ann'', DeleteGroupPath ''g2''), (plain_call ''ann'', PatchGroupPath ''g2'' (Inr (''x'', [])))]"

definition group_console :: "unit api" where
  "group_console = \<lparr>ap_authz = sample_access, ap_cache = new_group_cache 30, ap_data = ()\<rparr>"

theorem outsiders_cannot_touch_group_witness:
  "same_group ''g2'' sample_access (ap_authz (serve_all handle_groups ops_group_requests group_console)) \<and>
   lookup_row gr_id ''g9'' (az_groups (ap_authz (serve_all handle_groups ops_group_requests group_console))) \<noteq> None"
proof -
  have "shut ''g2'' {''ann''} (ap_authz group_console) (ap_cache group_console)" by code_simp
  moreover have "has_row gr_id ''g2'' (az_groups (ap_authz group_console))" by code_simp
  moreover have "\<forall>(v, q) \<in> set ops_group_requests. cl_wired v \<and> (case cl_caller v of None \<Rightarrow> True | Some u \<Rightarrow> u \<in> {''ann''})"
    by (simp add: ops_group_requests_def plain_call_def)
  ultimately have "same_group ''g2'' (ap_authz group_console) (ap_authz (serve_all handle_groups ops_group_requests group_console))"
    using outsiders_cannot_touch_group by blast
  moreover have "lookup_row gr_id ''g9'' (az_groups (ap_authz (serve_all handle_groups ops_group_requests group_console))) \<noteq> None" by code_simp
  ultimately show ?thesis by (simp add: group_console_def)
qed

section \<open>Gaps\<close>

text \<open>
  A change of the description alone, which leaves the name out, blanks the name of the group: unlike a creation, an update does not
  ask for one.
\<close>

lemma description_change_blanks_name:
  assumes "patch_group v i (Inr ([], d)) s = (Inr g, s')"
  shows "gr_name g = [] \<and> lookup_row gr_id i (az_groups (ap_authz s')) = Some g"
  using assms
  by (auto simp: patch_group_def with_store_def update_group_def Let_def lookup_row_update split: if_splits option.splits prod.splits)

text \<open>When the second statement of a creation fails, the request is answered with an error and the group is there, with the name taken and without an owner.\<close>

lemma failed_creation_leaves_group:
  assumes "cl_wired v" "cl_caller v = Some sub" "cl_data v 0" "\<not> cl_data v 1" "name \<noteq> []"
    and "\<not> has_row gr_id i (az_groups (ap_authz s))" "\<not> has_row gr_name name (az_groups (ap_authz s))"
  shows "\<exists>s' g. post_group v i (Inr (name, d)) s = (Inl (Refused 500 ''authz.AddGroupMember''), s') \<and>
    lookup_row gr_id i (az_groups (ap_authz s')) = Some g \<and> gr_name g = name \<and> az_members (ap_authz s') = az_members (ap_authz s)"
  using assms
  by (simp add: post_group_def with_store_def create_group_def add_group_member_def from_statement_def Let_def internal_def sql_simps has_row_iff)

text \<open>The last owner may leave: nothing keeps a group from losing every owner, after which only administrators can manage it.\<close>

lemma last_owner_may_leave:
  assumes "cl_wired v" "cl_data v 0" "filter (\<lambda>m. gm_group m = g) (az_members (ap_authz s)) = [\<lparr>gm_group = g, gm_user = u, gm_role = role_owner\<rparr>]"
  shows "\<exists>s'. drop_member v g u s = (Inr (), s') \<and> filter (\<lambda>m. gm_group m = g) (az_members (ap_authz s')) = []"
proof -
  have m: "\<lparr>gm_group = g, gm_user = u, gm_role = role_owner\<rparr> \<in> set (az_members (ap_authz s))"
    using arg_cong [OF assms(3), of set] by auto
  then have "has_row member_key (g, u) (az_members (ap_authz s))" by (force simp: has_row_def list_ex_iff)
  moreover have "filter (\<lambda>m. gm_group m = g) (delete_rows member_key (g, u) (az_members (ap_authz s))) =
      filter (\<lambda>m. member_key m \<noteq> (g, u)) (filter (\<lambda>m. gm_group m = g) (az_members (ap_authz s)))"
    by (simp add: delete_rows_def conj_commute)
  ultimately show ?thesis using assms by (simp add: drop_member_def with_store_def remove_group_member_def)
qed

section \<open>API tokens\<close>

text \<open>A request about tokens changes those of its caller only, and shows no others.\<close>

lemma token_requests_stay_own:
  assumes "handle_tokens t v q s = (r, s')" "cl_caller v = Some sub"
  shows "filter (\<lambda>k. ut_user k \<noteq> sub) (az_tokens (ap_authz s')) = filter (\<lambda>k. ut_user k \<noteq> sub) (az_tokens (ap_authz s)) \<and>
    az_users (ap_authz s') = az_users (ap_authz s) \<and> az_members (ap_authz s') = az_members (ap_authz s) \<and>
    (\<forall>xs. r = Inr (TokenList xs) \<longrightarrow> set xs = to_token_response ` {k \<in> set (az_tokens (ap_authz s)). ut_user k = sub})"
proof -
  have "filter (\<lambda>k. ut_user k \<noteq> sub) (update_where (revocable i sub) (\<lambda>t. t\<lparr>ut_revoked := x\<rparr>) ks) = filter (\<lambda>k. ut_user k \<noteq> sub) ks" for i x ks
    by (rule filter_update_where) (simp add: revocable_def)
  then show ?thesis
    using assms
    by (cases q)
       (auto simp: handle_tokens_def list_token_page_def list_tokens_def post_token_def create_token_def drop_token_def revoke_token_def Let_def
         split: if_splits sum.splits prod.splits option.splits)
qed



end
