(* ===== verification/McpServers.thy ===== *)
theory McpServers
  imports GuardedApi
begin

text \<open>
  The registry of MCP servers: its table (\<^verbatim>\<open>services/hub/internal/mcpservers/store.go\<close>, \<^verbatim>\<open>service.go\<close>) and its endpoints
  (\<^verbatim>\<open>services/hub/internal/api/handlers_mcp_servers.go\<close>). The agent images of the cluster with the servers they name, and the tools a
  server lists, are arguments. \<^const>\<open>Invalid\<close> is the refusal to delete a managed server.
\<close>

section \<open>The table\<close>

record mcp_record =
  ms_name :: string
  ms_display :: string
  ms_description :: string
  ms_url :: string
  ms_token :: string
  ms_managed :: string
  ms_created :: instant
  ms_updated :: instant

type_synonym mcp_table = "mcp_record list"

definition managed_by_user :: string where "managed_by_user = ''user''"

definition err_managed :: store_error where "err_managed = Invalid ''mcp server is managed and cannot be deleted''"

fun mcp_error_text :: "store_error \<Rightarrow> string" where
  "mcp_error_text NotFound = ''mcp server not found''"
| "mcp_error_text AlreadyExists = ''mcp server with this name already exists''"
| "mcp_error_text (Invalid m) = m"
| "mcp_error_text (StatementError op) = op"

definition stamped_server :: "instant \<Rightarrow> mcp_record \<Rightarrow> mcp_record" where
  "stamped_server now m =
     m\<lparr>ms_managed := (if ms_managed m = [] then managed_by_user else ms_managed m), ms_created := now, ms_updated := now\<rparr>"

definition create_server :: "bool \<Rightarrow> instant \<Rightarrow> mcp_record \<Rightarrow> mcp_table \<Rightarrow> (unit, mcp_table) outcome" where
  "create_server ok now m rows =
     (if \<not> ok then (Inl (StatementError ''insert''), rows)
      else if has_row ms_name (ms_name m) rows then (Inl AlreadyExists, rows)
      else (Inr (), rows @ [stamped_server now m]))"

definition get_server :: "bool \<Rightarrow> string \<Rightarrow> mcp_table \<Rightarrow> store_error + mcp_record" where
  "get_server ok name rows =
     (if \<not> ok then Inl (StatementError ''mcpservers.Get'')
      else (case lookup_row ms_name name rows of None \<Rightarrow> Inl NotFound | Some m \<Rightarrow> Inr m))"

definition list_servers :: "bool \<Rightarrow> mcp_table \<Rightarrow> store_error + mcp_record list" where
  "list_servers ok rows = (if \<not> ok then Inl (StatementError ''mcpservers.List'') else Inr (sort_key ms_name rows))"

text \<open>An update leaves the name, who manages the server and when it was created.\<close>

definition write_server :: "instant \<Rightarrow> mcp_record \<Rightarrow> mcp_record \<Rightarrow> mcp_record" where
  "write_server now m r =
     r\<lparr>ms_display := ms_display m, ms_description := ms_description m, ms_url := ms_url m, ms_token := ms_token m, ms_updated := now\<rparr>"

definition update_server :: "bool \<Rightarrow> instant \<Rightarrow> mcp_record \<Rightarrow> mcp_table \<Rightarrow> (unit, mcp_table) outcome" where
  "update_server ok now m rows =
     (if \<not> ok then (Inl (StatementError ''mcpservers.Update''), rows)
      else if \<not> has_row ms_name (ms_name m) rows then (Inl NotFound, rows)
      else (Inr (), update_where (\<lambda>r. ms_name r = ms_name m) (write_server now m) rows))"

definition delete_server :: "bool \<Rightarrow> string \<Rightarrow> mcp_table \<Rightarrow> (unit, mcp_table) outcome" where
  "delete_server ok name rows =
     (if \<not> ok then (Inl (StatementError ''mcpservers.Delete''), rows)
      else if \<not> has_row ms_name name rows then (Inl NotFound, rows)
      else (Inr (), delete_rows ms_name name rows))"

definition upsert_server :: "bool \<Rightarrow> instant \<Rightarrow> mcp_record \<Rightarrow> mcp_table \<Rightarrow> (unit, mcp_table) outcome" where
  "upsert_server ok now m rows =
     (if \<not> ok then (Inl (StatementError ''mcpservers.Upsert''), rows)
      else if \<not> has_row ms_name (ms_name m) rows then (Inr (), rows @ [stamped_server now m])
      else (Inr (), update_where (\<lambda>r. ms_name r = ms_name m)
              (\<lambda>r. (write_server now m r)\<lparr>ms_managed := ms_managed (stamped_server now m)\<rparr>) rows))"

text \<open>The service deletes what users manage only.\<close>

definition drop_server :: "pg \<Rightarrow> string \<Rightarrow> mcp_table \<Rightarrow> (unit, mcp_table) outcome" where
  "drop_server pg name rows =
     (case get_server (pg 0) name rows of
        Inl e \<Rightarrow> (Inl e, rows)
      | Inr m \<Rightarrow> if ms_managed m \<noteq> managed_by_user then (Inl err_managed, rows) else delete_server (pg 1) name rows)"

interpretation mcp_rows: keyed_store
  "\<lambda>m rows. map_prod (map_sum id (\<lambda>_. m)) id (create_server True now m rows)" "get_server True" "delete_server True" ms_name
  "stamped_server now" "\<lambda>m. m" "\<lambda>rows i. lookup_row ms_name i rows"
  for now
  by unfold_locales
    (auto simp: create_server_def get_server_def delete_server_def has_row_iff sql_simps fun_eq_iff stamped_server_def split: option.split)

section \<open>The endpoints\<close>

definition rt_mcp :: string where "rt_mcp = ''mcp-server''"

text \<open>What is shown of a server: everything except who manages it.\<close>

record mcp_view =
  mv_name :: string
  mv_display :: string
  mv_description :: string
  mv_url :: string
  mv_token :: string
  mv_created :: instant
  mv_updated :: instant

definition to_mcp_dto :: "mcp_record \<Rightarrow> mcp_view" where
  "to_mcp_dto m = \<lparr>mv_name = ms_name m, mv_display = ms_display m, mv_description = ms_description m, mv_url = ms_url m,
     mv_token = ms_token m, mv_created = ms_created m, mv_updated = ms_updated m\<rparr>"

record mcp_write =
  mw_name :: string
  mw_group :: string
  mw_display :: string
  mw_description :: string
  mw_url :: string
  mw_token :: string

text \<open>
  The images of the cluster with the servers they name, or the error of the API server, and what the server at a URL answers when it is
  asked for its tools.
\<close>

record mcp_env =
  mx_images :: "string + (string \<times> string list) list"
  mx_tools :: "string \<Rightarrow> string + (string \<times> string) list"

definition env_var_name_max :: nat where "env_var_name_max = 64"

definition upper_or_underscore :: "char \<Rightarrow> bool" where
  "upper_or_underscore c \<longleftrightarrow> CHR ''A'' \<le> c \<and> c \<le> CHR ''Z'' \<or> c = CHR ''_''"

definition env_var_name :: "string \<Rightarrow> bool" where
  "env_var_name v \<longleftrightarrow>
     (case v of [] \<Rightarrow> False
      | c # cs \<Rightarrow> upper_or_underscore c \<and> list_all (\<lambda>c. upper_or_underscore c \<or> CHR ''0'' \<le> c \<and> c \<le> CHR ''9'') cs)"

definition validate_token_from_env :: "string \<Rightarrow> string option" where
  "validate_token_from_env v =
     (if v = [] then None
      else if env_var_name_max < length v then Some ''tokenFromEnv must be at most 64 characters''
      else if \<not> env_var_name v then Some ''tokenFromEnv must match ^[A-Z_][A-Z0-9_]*$''
      else None)"

definition mcp_refusal :: "store_error \<Rightarrow> refusal" where
  "mcp_refusal e = Refused (if e = NotFound then 404 else if e = AlreadyExists \<or> e = err_managed then 409 else 500) (mcp_error_text e)"

type_synonym 'r mcp_reply = "('r, mcp_table option) reply"

definition no_mcp :: refusal where "no_mcp = Refused 503 ''mcp service not configured''"

definition list_mcp_page :: "call \<Rightarrow> bool \<Rightarrow> mcp_table \<Rightarrow> mcp_table option api \<Rightarrow> mcp_view list mcp_reply" where
  "list_mcp_page v public rows s =
     ((case list_servers (cl_data v 0) rows of
         Inl e \<Rightarrow> Inl (Refused 500 (mcp_error_text e))
       | Inr ms \<Rightarrow> Inr (map to_mcp_dto (visible v public rt_mcp ms_name (ap_authz s) ms))), s)"

text \<open>A creation and an update read the row back and dereference what they get, even when there is none.\<close>

definition read_back :: "bool \<Rightarrow> string \<Rightarrow> mcp_table \<Rightarrow> refusal + mcp_view" where
  "read_back ok name rows = (case get_server ok name rows of Inl _ \<Rightarrow> Inl Aborted | Inr m \<Rightarrow> Inr (to_mcp_dto m))"

definition new_server :: "mcp_write \<Rightarrow> mcp_record" where
  "new_server w = \<lparr>ms_name = mw_name w, ms_display = mw_display w, ms_description = mw_description w, ms_url = mw_url w, ms_token = mw_token w,
     ms_managed = [], ms_created = 0, ms_updated = 0\<rparr>"

text \<open>A creation once the caller may create in the group.\<close>

definition store_server :: "call \<Rightarrow> mcp_write \<Rightarrow> mcp_table \<Rightarrow> mcp_table option api \<Rightarrow> mcp_view mcp_reply" where
  "store_server v w rows s =
     (case create_server (cl_data v 0) (cl_now v) (new_server w) rows of
        (Inl e, rows') \<Rightarrow> (Inl (mcp_refusal e), s)
      | (Inr _, rows') \<Rightarrow> (read_back (cl_data v 1) (mw_name w) rows', assign_group v rt_mcp (mw_name w) (mw_group w) (s\<lparr>ap_data := Some rows'\<rparr>)))"

definition post_mcp :: "call \<Rightarrow> string + mcp_write \<Rightarrow> mcp_table \<Rightarrow> mcp_table option api \<Rightarrow> mcp_view mcp_reply" where
  "post_mcp v body rows s =
     (case body of
        Inl m \<Rightarrow> (Inl (Refused 400 (''invalid body: '' @ m)), s)
      | Inr w \<Rightarrow>
          if mw_url w = [] then (Inl (Refused 400 ''url is required''), s)
          else (case validate_token_from_env (mw_token w) of
                  Some m \<Rightarrow> (Inl (Refused 400 m), s)
                | None \<Rightarrow> guard_creation v (mw_group w) (store_server v w rows) s))"

definition get_mcp :: "call \<Rightarrow> string \<Rightarrow> mcp_table \<Rightarrow> mcp_table option api \<Rightarrow> mcp_view mcp_reply" where
  "get_mcp v name rows s = (map_sum mcp_refusal to_mcp_dto (get_server (cl_data v 0) name rows), s)"

definition put_mcp :: "call \<Rightarrow> string \<Rightarrow> string + mcp_write \<Rightarrow> mcp_table \<Rightarrow> mcp_table option api \<Rightarrow> mcp_view mcp_reply" where
  "put_mcp v name body rows s =
     (case body of
        Inl m \<Rightarrow> (Inl (Refused 400 (''invalid body: '' @ m)), s)
      | Inr w \<Rightarrow>
          (case get_server (cl_data v 0) name rows of
             Inl e \<Rightarrow> (Inl (mcp_refusal e), s)
           | Inr old \<Rightarrow>
               (case validate_token_from_env (mw_token w) of
                  Some m \<Rightarrow> (Inl (Refused 400 m), s)
                | None \<Rightarrow>
                    (case update_server (cl_data v 1) (cl_now v)
                            (old\<lparr>ms_display := mw_display w, ms_description := mw_description w, ms_url := mw_url w, ms_token := mw_token w\<rparr>) rows of
                       (Inl e, rows') \<Rightarrow> (Inl (Refused 500 (mcp_error_text e)), s)
                     | (Inr _, rows') \<Rightarrow> (read_back (cl_data v 2) name rows', s\<lparr>ap_data := Some rows'\<rparr>)))))"

definition images_referencing :: "string \<Rightarrow> (string \<times> string list) list \<Rightarrow> string list" where
  "images_referencing name imgs = map fst (filter (\<lambda>(i, servers). name \<in> set servers) imgs)"

definition delete_mcp :: "call \<Rightarrow> mcp_env \<Rightarrow> string \<Rightarrow> mcp_table \<Rightarrow> mcp_table option api \<Rightarrow> unit mcp_reply" where
  "delete_mcp v e name rows s =
     (case mx_images e of
        Inl m \<Rightarrow> (Inl (Refused 500 m), s)
      | Inr imgs \<Rightarrow>
          if images_referencing name imgs \<noteq> [] then (Inl (Refused 409 ''mcp server referenced by agent image(s)''), s)
          else (case drop_server (cl_data v) name rows of
                  (Inl err, _) \<Rightarrow> (Inl (mcp_refusal err), s)
                | (Inr _, rows') \<Rightarrow> (Inr (), release_group v rt_mcp name (s\<lparr>ap_data := Some rows'\<rparr>))))"

text \<open>The tools of a server, asked for without a token.\<close>

definition mcp_server_tools ::
  "call \<Rightarrow> mcp_env \<Rightarrow> string \<Rightarrow> mcp_table \<Rightarrow> mcp_table option api \<Rightarrow> (string \<times> string) list mcp_reply" where
  "mcp_server_tools v e name rows s =
     (case get_server (cl_data v 0) name rows of
        Inl err \<Rightarrow> (Inl (mcp_refusal err), s)
      | Inr m \<Rightarrow>
          (case mx_tools e (ms_url m) of
             Inl msg \<Rightarrow> (Inl (Refused 502 (''failed to list tools: '' @ msg)), s)
           | Inr ts \<Rightarrow> (Inr ts, s)))"

section \<open>Routes\<close>

datatype mcp_path = ToolsOf string | ServerPath string | BadServerPath

text \<open>What a path below \<^verbatim>\<open>/api/v1/mcp-servers/\<close> names; only a GET is routed to the tools.\<close>

definition mcp_path_of :: "bool \<Rightarrow> string \<Rightarrow> mcp_path" where
  "mcp_path_of get path =
     (let rest = (if path = [] \<or> CHR ''/'' \<in> set path then BadServerPath else ServerPath path)
      in case cut_last (CHR ''/'') path of
           None \<Rightarrow> rest
         | Some (name, sub) \<Rightarrow> if name \<noteq> [] \<and> sub = ''tools'' \<and> get then ToolsOf name else rest)"

datatype mcp_call =
    ListServers bool
  | PostServer "string + mcp_write"
  | GetServer string
  | PutServer string "string + mcp_write"
  | DeleteServer string

datatype mcp_answer = ServerList "mcp_view list" | OneServer mcp_view | ServerTools "(string \<times> string) list" | ServerGone

definition bad_server_name :: refusal where "bad_server_name = Refused 400 ''missing or invalid name''"

fun serve_mcp :: "mcp_env \<Rightarrow> call \<Rightarrow> mcp_call \<Rightarrow> mcp_table \<Rightarrow> mcp_table option api \<Rightarrow> mcp_answer mcp_reply" where
  "serve_mcp e v (ListServers public) rows s = map_reply ServerList (list_mcp_page v public rows s)"
| "serve_mcp e v (PostServer body) rows s = map_reply OneServer (post_mcp v body rows s)"
| "serve_mcp e v (GetServer path) rows s =
     (case mcp_path_of True path of
        ToolsOf name \<Rightarrow> map_reply ServerTools (mcp_server_tools v e name rows s)
      | ServerPath name \<Rightarrow> guard_read v rt_mcp name (\<lambda>s. map_reply OneServer (get_mcp v name rows s)) s
      | BadServerPath \<Rightarrow> (Inl bad_server_name, s))"
| "serve_mcp e v (PutServer path body) rows s =
     (case mcp_path_of False path of
        ServerPath name \<Rightarrow> guard_write v rt_mcp name (\<lambda>s. map_reply OneServer (put_mcp v name body rows s)) s
      | _ \<Rightarrow> (Inl bad_server_name, s))"
| "serve_mcp e v (DeleteServer path) rows s =
     (case mcp_path_of False path of
        ServerPath name \<Rightarrow> guard_write v rt_mcp name (\<lambda>s. map_reply (\<lambda>_. ServerGone) (delete_mcp v e name rows s)) s
      | _ \<Rightarrow> (Inl bad_server_name, s))"

definition handle_mcp :: "mcp_env \<Rightarrow> call \<Rightarrow> mcp_call \<Rightarrow> mcp_table option api \<Rightarrow> mcp_answer mcp_reply" where
  "handle_mcp e v q s = (case ap_data s of None \<Rightarrow> (Inl no_mcp, s) | Some rows \<Rightarrow> serve_mcp e v q rows s)"

end
