(* ===== verification/McpServerRules.thy ===== *)
theory McpServerRules
  imports McpServers AccountRules
begin

text \<open>
  What the endpoints of the MCP registry guarantee: nothing changes without permission, managed servers and those in use stay. And what they let
  through: the tools of any server, and servers without a name or a URL.
\<close>

section \<open>Nothing changes without permission\<close>

fun mcp_needs :: "mcp_call \<Rightarrow> authz_db \<Rightarrow> string \<Rightarrow> bool" where
  "mcp_needs (PostServer (Inr w)) db sub \<longleftrightarrow> admin_user db sub \<or> has_role db sub (mw_group w) role_writer"
| "mcp_needs (PutServer path body) db sub \<longleftrightarrow> permitted db sub role_writer ''mcp-server'' path"
| "mcp_needs (DeleteServer path) db sub \<longleftrightarrow> permitted db sub role_writer ''mcp-server'' path"
| "mcp_needs _ db sub \<longleftrightarrow> False"

lemma reading_servers [simp]:
  "snd (list_mcp_page v public rows s) = s" "snd (get_mcp v name rows s) = s" "snd (mcp_server_tools v e name rows s) = s"
  by (simp_all add: list_mcp_page_def get_mcp_def mcp_server_tools_def split: sum.split)

lemma server_path: "mcp_path_of get path = ServerPath name \<Longrightarrow> name = path"
  by (auto simp: mcp_path_of_def Let_def split: option.splits prod.splits if_splits)

lemma mcp_change_permitted:
  assumes "handle_mcp e v q s = (r, s')" "changed s s'" "cl_wired v" "current v s"
  shows "\<exists>sub. cl_caller v = Some sub \<and> mcp_needs q (ap_authz s) sub"
proof (cases "ap_data s")
  case None
  then show ?thesis using assms(1,2) by (simp add: handle_mcp_def)
next
  case (Some rows)
  then have h: "serve_mcp e v q rows s = (r, s')" using assms(1) by (simp add: handle_mcp_def)
  show ?thesis
  proof (cases q)
    case (ListServers public)
    then have "s' = s" using h reading_servers(1) [of v public rows s] by (cases "list_mcp_page v public rows s") simp
    then show ?thesis using assms(2) by simp
  next
    case (PostServer body)
    show ?thesis
    proof (cases "\<exists>w. body = Inr w \<and> mw_url w \<noteq> [] \<and> validate_token_from_env (mw_token w) = None")
      case True
      then obtain w where w: "body = Inr w" "mw_url w \<noteq> []" "validate_token_from_env (mw_token w) = None" by blast
      then obtain r0 where "guard_creation v (mw_group w) (store_server v w rows) s = (r0, s')"
        using h PostServer by (cases "guard_creation v (mw_group w) (store_server v w rows) s") (auto simp: post_mcp_def)
      from guard_creation_change [OF this assms(2-4)] show ?thesis using PostServer w by auto
    next
      case False
      then have "s' = s" using h PostServer by (auto simp: post_mcp_def split: sum.splits if_splits option.splits)
      then show ?thesis using assms(2) by simp
    qed
  next
    case (GetServer path)
    have "\<not> changed s s'"
    proof (cases "mcp_path_of True path")
      case (ServerPath name)
      then show ?thesis using h GetServer by (auto elim!: guard_read_unchanged)
    next
      case (ToolsOf name)
      then have "s' = s" using h GetServer reading_servers(3) [of v e name rows s] by (cases "mcp_server_tools v e name rows s") simp
      then show ?thesis by simp
    qed (use h GetServer in simp)
    then show ?thesis using assms(2) by simp
  next
    case (PutServer path body)
    then show ?thesis
      using guard_write_change [OF _ assms(2-4)] assms(2) h server_path by (cases "mcp_path_of False path") (fastforce simp: rt_mcp_def)+
  next
    case (DeleteServer path)
    then show ?thesis
      using guard_write_change [OF _ assms(2-4)] assms(2) h server_path by (cases "mcp_path_of False path") (fastforce simp: rt_mcp_def)+
  qed
qed

lemma group_rows_cache [simp]:
  "ap_cache (assign_group v rt i gid s) = ap_cache s" "ap_cache (release_group v rt i s) = ap_cache s"
  by (simp_all add: assign_group_def release_group_def)

lemma mcp_steady: "steady s (handle_mcp e v q s)"
proof -
  have "steady s (serve_mcp e v q rows s)" for rows
  proof -
    have store: "steady s (store_server v w rows s)" for s w
      by (rule steady_same_cache) (simp add: store_server_def split: sum.split prod.split)
    have create: "steady s (post_mcp v body rows s)" for s body
      by (auto simp: post_mcp_def intro!: guard_creation_steady store split: sum.splits option.splits)
    have put: "steady s (put_mcp v name body rows s)" for s name body
      by (rule steady_same_cache) (simp add: put_mcp_def split: sum.split option.split prod.split)
    have delete: "steady s (delete_mcp v e name rows s)" for s name
      by (rule steady_same_cache) (simp add: delete_mcp_def split: sum.split prod.split)
    show ?thesis
      by (cases q) (auto split: mcp_path.split simp: create put delete steady_same_cache intro!: guards_steady)
  qed
  then show ?thesis by (simp add: handle_mcp_def split: option.split)
qed

interpretation mcp_registry: guarded_endpoint "\<lambda>v (e, q). handle_mcp e v q" "\<lambda>(e, q) db _. mcp_needs q db"
  by unfold_locales (auto simp: mcp_steady dest: mcp_change_permitted [OF _ _ _ fresh_current])

definition serve_registry :: "(call \<times> mcp_env \<times> mcp_call) list \<Rightarrow> mcp_table option api \<Rightarrow> mcp_table option api" where
  "serve_registry = serve_all (\<lambda>v (e, q). handle_mcp e v q)"

lemma server_changes_are_permitted:
  assumes "access_wf (ap_authz s)" "fresh s"
    and "\<forall>(v, e, q) \<in> set xs. cl_wired v \<and> (\<forall>sub. cl_caller v = Some sub \<longrightarrow> \<not> mcp_needs q (ap_authz s) sub)"
  shows "ap_data (serve_registry xs s) = ap_data s \<and> ap_authz (serve_registry xs s) = ap_authz s"
proof -
  have "\<forall>(v, q) \<in> set xs. cl_wired v \<and> (\<forall>sub. cl_caller v = Some sub \<longrightarrow>
      \<not> (case q of (e, q) \<Rightarrow> \<lambda>db _. mcp_needs q db) (ap_authz s) (ap_data s) sub)"
    using assms(3) by (auto split: prod.splits)
  then show ?thesis
    using mcp_registry.unpermitted_changes_nothing [OF assms(1,2)] by (simp add: changed_def serve_registry_def)
qed

section \<open>What stays\<close>

text \<open>The table after a request: names stay distinct, and a protected server stays with who manages it.\<close>

definition server_in_use :: "string \<Rightarrow> mcp_env \<Rightarrow> bool" where
  "server_in_use n e \<longleftrightarrow> (\<forall>imgs. mx_images e = Inr imgs \<longrightarrow> images_referencing n imgs \<noteq> [])"

definition kept_server :: "string \<Rightarrow> mcp_record \<Rightarrow> mcp_table option \<Rightarrow> bool" where
  "kept_server n m t \<longleftrightarrow>
     (case t of None \<Rightarrow> False
      | Some rows \<Rightarrow> distinct (map ms_name rows) \<and>
          (case lookup_row ms_name n rows of None \<Rightarrow> False | Some m' \<Rightarrow> ms_managed m' = ms_managed m \<and> ms_created m' = ms_created m))"

lemma kept_data: "ap_data (assign_group v rt i g s) = ap_data s" "ap_data (release_group v rt i s) = ap_data s"
  by (simp_all add: assign_group_def release_group_def)

lemma create_keeps:
  assumes "kept_server n m (Some rows)" "create_server ok now x rows = (r, rows')"
  shows "kept_server n m (Some rows')"
  using assms
  by (auto simp: create_server_def kept_server_def sql_simps has_row_iff lookup_row_None_iff stamped_server_def
      split: if_splits option.splits dest: lookup_row_SomeD)

lemma update_keeps:
  assumes "kept_server n m (Some rows)" "update_server ok now x rows = (r, rows')"
  shows "kept_server n m (Some rows')"
proof (cases "rows' = rows")
  case False
  then have "rows' = update_where (\<lambda>r. ms_name r = ms_name x) (write_server now x) rows"
    using assms(2) by (auto simp: update_server_def split: if_splits)
  moreover have "map ms_name (update_where p (write_server now x) rows) = map ms_name rows" for p
    by (rule map_update_where) (simp add: write_server_def)
  ultimately show ?thesis
    using assms(1) by (auto simp: kept_server_def write_server_def lookup_row_update split: option.splits)
qed (use assms in simp)

lemma drop_keeps:
  assumes "kept_server n m (Some rows)" "drop_server pg i rows = (r, rows')" "i \<noteq> n \<or> ms_managed m \<noteq> managed_by_user"
  shows "kept_server n m (Some rows')"
proof (cases "rows' = rows")
  case False
  then have d: "rows' = delete_rows ms_name i rows" and u: "\<exists>x. lookup_row ms_name i rows = Some x \<and> ms_managed x = managed_by_user"
    using assms(2) by (auto simp: drop_server_def delete_server_def get_server_def split: if_splits option.splits sum.splits)
  have "i \<noteq> n" using u assms(1,3) by (auto simp: kept_server_def split: option.splits)
  then show ?thesis using assms(1) by (simp add: d kept_server_def distinct_delete_rows sql_simps split: option.splits)
qed (use assms in simp)

lemma with_guard_data:
  assumes "\<And>c. P (ap_data (snd (k (s\<lparr>ap_cache := c\<rparr>))))" "P (ap_data s)"
  shows "P (ap_data (snd (guard_write v rt rn k s)))" "P (ap_data (snd (guard_read v rt rn k s)))" "P (ap_data (snd (guard_creation v g k s)))"
proof -
  have guarded: "P (ap_data (snd (with_guard f k s)))" for f
    using assms by (cases "f (ap_cache s)"; cases "fst (f (ap_cache s))") (simp_all add: with_guard_def)
  show "P (ap_data (snd (guard_write v rt rn k s)))" "P (ap_data (snd (guard_read v rt rn k s)))"
    unfolding guard_write_def guard_read_def by (rule guarded)+
  have "k (s\<lparr>ap_cache := ap_cache s\<rparr>) = k s" by simp
  then have "P (ap_data (snd (k s)))" using assms(1) [of "ap_cache s"] by (simp only:)
  then show "P (ap_data (snd (guard_creation v g k s)))"
    using guarded assms(2) by (simp add: guard_creation_def guard_group_write_def)
qed

lemma serve_keeps:
  assumes "kept_server n m (ap_data s)" "ms_managed m \<noteq> managed_by_user \<or> server_in_use n e"
  shows "kept_server n m (ap_data (snd (handle_mcp e v q s)))"
proof -
  obtain rows where rows: "ap_data s = Some rows" using assms(1) by (cases "ap_data s") (auto simp: kept_server_def)
  note k = assms(1) [unfolded rows]
  have store: "kept_server n m (ap_data (snd (store_server v w rows (s\<lparr>ap_cache := c\<rparr>))))" for w c
    using k create_keeps [OF k] rows by (auto simp: store_server_def kept_data split: sum.split prod.split)
  have post: "kept_server n m (ap_data (snd (post_mcp v body rows s)))" for body
    using k rows by (auto simp: post_mcp_def intro!: with_guard_data(3) [where P = "kept_server n m"] store split: sum.split option.split)
  have put: "kept_server n m (ap_data (snd (put_mcp v i body rows (s\<lparr>ap_cache := c\<rparr>))))" for i body c
    using k update_keeps [OF k] rows by (auto simp: put_mcp_def split: sum.split option.split prod.split)
  have delete: "kept_server n m (ap_data (snd (delete_mcp v e i rows (s\<lparr>ap_cache := c\<rparr>))))" for i c
  proof (cases "i = n \<and> server_in_use n e")
    case True
    then show ?thesis using k rows by (auto simp: delete_mcp_def server_in_use_def split: sum.split)
  next
    case False
    then have "i \<noteq> n \<or> ms_managed m \<noteq> managed_by_user" using assms(2) by blast
    then show ?thesis using k drop_keeps [OF k] rows by (auto simp: delete_mcp_def kept_data split: sum.split prod.split)
  qed
  have "kept_server n m (ap_data (snd (serve_mcp e v q rows s)))"
    using k rows by (cases q) (auto simp: post put delete intro!: with_guard_data [where P = "kept_server n m"] split: mcp_path.split)
  then show ?thesis using rows by (simp add: handle_mcp_def)
qed

text \<open>
  C38. Managed servers and servers in use stay. Whatever requests the endpoints get, from administrators too and whatever fails in them, a
  server that the installation manages is neither deleted nor turned into one of the users, and a server that the images of the cluster
  name at every request is not deleted; no name ever gets two rows.
\<close>

theorem protected_servers_stay:
  assumes "ap_data s = Some rows" "distinct (map ms_name rows)" "lookup_row ms_name n rows = Some m"
    and "ms_managed m \<noteq> managed_by_user \<or> (\<forall>(v, e, q) \<in> set xs. server_in_use n e)"
  shows "\<exists>rows' m'. ap_data (serve_registry xs s) = Some rows' \<and> distinct (map ms_name rows') \<and>
    lookup_row ms_name n rows' = Some m' \<and> ms_managed m' = ms_managed m \<and> ms_created m' = ms_created m"
proof -
  have "kept_server n m (ap_data (serve_registry xs s))" if "kept_server n m (ap_data s)"
    using that assms(4)
  proof (induction xs arbitrary: s)
    case (Cons x xs)
    obtain v e q where x: "x = (v, e, q)" by (cases x)
    have "kept_server n m (ap_data (snd (handle_mcp e v q s)))" using Cons.prems x by (intro serve_keeps) auto
    then show ?case using Cons.IH Cons.prems(2) x by (auto simp: serve_registry_def)
  qed (simp add: serve_registry_def)
  then have "kept_server n m (ap_data (serve_registry xs s))" using assms(1-3) by (simp add: kept_server_def)
  then show ?thesis by (auto simp: kept_server_def split: option.splits)
qed

definition bundled_server :: mcp_record where
  "bundled_server = \<lparr>ms_name = ''forge'', ms_display = ''Forge'', ms_description = [], ms_url = ''http://forge'', ms_token = [], ms_managed = ''helm'',
     ms_created = 1, ms_updated = 1\<rparr>"

definition mcp_console :: "mcp_table option api" where
  "mcp_console = \<lparr>ap_authz = sample_access, ap_cache = new_group_cache 30, ap_data = Some [bundled_server]\<rparr>"

definition idle_cluster :: mcp_env where
  "idle_cluster = \<lparr>mx_images = Inr [], mx_tools = (\<lambda>_. Inr [(''push'', [])])\<rparr>"

definition root_requests :: "(call \<times> mcp_env \<times> mcp_call) list" where
  "root_requests = [(plain_call ''root'', idle_cluster, DeleteServer ''forge''),
     (plain_call ''root'', idle_cluster, PutServer ''forge'' (Inr \<lparr>mw_name = [], mw_group = [], mw_display = ''F'', mw_description = [], mw_url = [], mw_token = []\<rparr>))]"

theorem protected_servers_stay_witness:
  "\<exists>rows' m'. ap_data (serve_registry root_requests mcp_console) = Some rows' \<and> lookup_row ms_name ''forge'' rows' = Some m' \<and>
     ms_managed m' = ''helm'' \<and> ap_data (serve_registry root_requests mcp_console) \<noteq> ap_data mcp_console"
proof -
  have "lookup_row ms_name ''forge'' [bundled_server] = Some bundled_server" by (simp add: sql_simps bundled_server_def)
  moreover have "ap_data (serve_registry root_requests mcp_console) \<noteq> ap_data mcp_console" by code_simp
  ultimately show ?thesis
    using protected_servers_stay [of mcp_console "[bundled_server]" "''forge''" bundled_server root_requests]
    by (auto simp: mcp_console_def bundled_server_def managed_by_user_def)
qed

section \<open>Gaps\<close>

text \<open>The tools of a server are answered before any check: neither the caller nor the access tables have any influence on them.\<close>

lemma tools_ask_no_permission:
  assumes "mcp_path_of True path = ToolsOf n" "ap_data s = Some rows" "lookup_row ms_name n rows = Some m" "cl_data v 0"
    and "mx_tools e (ms_url m) = Inr ts"
  shows "handle_mcp e v (GetServer path) s = (Inr (ServerTools ts), s)"
  using assms by (simp add: handle_mcp_def mcp_server_tools_def get_server_def)

lemma refused_server_shows_tools:
  "fst (handle_mcp idle_cluster (plain_call ''ann'') (GetServer ''forge'') mcp_console) = Inl (Refused 403 ''forbidden'') \<and>
   fst (handle_mcp idle_cluster (plain_call ''ann'') (GetServer ''forge/tools'') mcp_console) = Inr (ServerTools [(''push'', [])])"
  by code_simp

text \<open>A creation takes a server without a name, which no path can reach afterwards; only a creation asks for a URL.\<close>

lemma nameless_server_is_stored:
  assumes "mw_name w = []" "cl_data v 0" "\<not> has_row ms_name [] rows"
  shows "ap_data (snd (store_server v w rows s)) = Some (rows @ [stamped_server (cl_now v) (new_server w)]) \<and> mcp_path_of get [] = BadServerPath"
  using assms by (simp add: store_server_def create_server_def new_server_def kept_data mcp_path_of_def cut_last_def)

lemma update_clears_url:
  assumes "cl_data v 0" "cl_data v 1" "lookup_row ms_name n rows = Some old" "mw_url w = []" "mw_token w = []"
  shows "\<exists>rows' m. ap_data (snd (put_mcp v n (Inr w) rows s)) = Some rows' \<and> lookup_row ms_name n rows' = Some m \<and> ms_url m = []"
  using assms lookup_row_SomeD [OF assms(3)]
  by (auto simp: put_mcp_def get_server_def validate_token_from_env_def update_server_def has_row_iff lookup_row_update write_server_def)

text \<open>When the row cannot be read back after a creation the handler dereferences nothing: the server exists and the request ends in a panic.\<close>

lemma failed_read_back_panics:
  assumes "cl_data v 0" "\<not> cl_data v 1" "\<not> has_row ms_name (mw_name w) rows"
  shows "fst (store_server v w rows s) = Inl Aborted \<and>
    ap_data (snd (store_server v w rows s)) = Some (rows @ [stamped_server (cl_now v) (new_server w)])"
  using assms by (simp add: store_server_def create_server_def new_server_def kept_data read_back_def get_server_def)

end
