(* ===== verification/Personas.thy ===== *)
theory Personas
  imports AgentPod
begin

text \<open>
  The persona registry of the hub (\<^verbatim>\<open>services/hub/internal/personas\<close>): the versioned table with its transactions
  (\<^verbatim>\<open>store.go\<close>), the ConfigMaps the agents mount (\<^verbatim>\<open>reconciler.go\<close>) and the service over both (\<^verbatim>\<open>service.go\<close>). The schema is that of the
  migrations 0002 and 0019: names are unique among the personas nobody owns, version numbers per persona. A transaction that fails
  leaves the tables as they were, except that a drawn sequence number stays drawn. Rows that a query leaves in no order come in the
  order of their insertion.
\<close>

section \<open>Tables\<close>

record persona_row =
  pr_id :: string
  pr_name :: string
  pr_description :: string
  pr_current :: nat
  pr_owner :: "string option"
  pr_created :: instant
  pr_updated :: instant

record version_row =
  vr_id :: nat
  vr_persona :: string
  vr_number :: nat
  vr_text :: string
  vr_created :: instant

record persona_db =
  pd_rows :: "persona_row list"
  pd_versions :: "version_row list"
  pd_next :: nat

text \<open>A persona with the text of its current version.\<close>

record persona =
  ps_id :: string
  ps_name :: string
  ps_description :: string
  ps_version :: nat
  ps_text :: string
  ps_owner :: string
  ps_created :: instant
  ps_updated :: instant

datatype persona_error =
    PersonaNotFound
  | NameTaken
  | NotOwned
  | BadField string string
  | InUseBy "string list"
  | PersonaFailed string

record persona_change =
  pc_name :: "string option"
  pc_description :: "string option"
  pc_text :: "string option"

text \<open>The join of a persona with its current version.\<close>

definition current_version :: "persona_db \<Rightarrow> persona_row \<Rightarrow> version_row option" where
  "current_version db p = lookup_row vr_id (pr_current p) (pd_versions db)"

definition scan_persona :: "persona_row \<Rightarrow> version_row \<Rightarrow> persona" where
  "scan_persona p v =
     \<lparr>ps_id = pr_id p, ps_name = pr_name p, ps_description = pr_description p, ps_version = vr_number v, ps_text = vr_text v,
      ps_owner = (case pr_owner p of None \<Rightarrow> [] | Some a \<Rightarrow> a), ps_created = pr_created p, ps_updated = pr_updated p\<rparr>"

definition joined :: "persona_db \<Rightarrow> (persona_row \<times> version_row) list" where
  "joined db = List.map_filter (\<lambda>p. map_option (Pair p) (current_version db p)) (pd_rows db)"

definition versions_of :: "persona_db \<Rightarrow> string \<Rightarrow> version_row list" where
  "versions_of db i = filter (\<lambda>v. vr_persona v = i) (pd_versions db)"

section \<open>The store\<close>

type_synonym 'a persona_result = "(persona_error + 'a) \<times> persona_db"

definition name_conflict :: "string \<Rightarrow> string option \<Rightarrow> string \<Rightarrow> persona_db \<Rightarrow> bool" where
  "name_conflict i owner name db \<longleftrightarrow>
     owner = None \<and> list_ex (\<lambda>p. pr_id p \<noteq> i \<and> pr_owner p = None \<and> pr_name p = name) (pd_rows db)"

definition draw_id :: "persona_db \<Rightarrow> persona_db" where
  "draw_id db = db\<lparr>pd_next := pd_next db + 1\<rparr>"

text \<open>Insert a version; the new row's id. \<^const>\<open>None\<close> when the number is taken.\<close>

definition add_version :: "string \<Rightarrow> nat \<Rightarrow> string \<Rightarrow> instant \<Rightarrow> persona_db \<Rightarrow> (nat \<times> persona_db) option" where
  "add_version i n text now db =
     (if list_ex (\<lambda>v. vr_number v = n) (versions_of db i) then None
      else Some (pd_next db, (draw_id db)\<lparr>pd_versions := pd_versions db @
             [\<lparr>vr_id = pd_next db, vr_persona = i, vr_number = n, vr_text = text, vr_created = now\<rparr>]\<rparr>))"

definition create_persona :: "pg \<Rightarrow> instant \<Rightarrow> persona \<Rightarrow> persona_db \<Rightarrow> persona persona_result" where
  "create_persona pg now p db =
     (let owner = (if ps_owner p = [] then None else Some (ps_owner p));
          row = (\<lambda>vid. \<lparr>pr_id = ps_id p, pr_name = ps_name p, pr_description = ps_description p, pr_current = vid, pr_owner = owner,
                  pr_created = now, pr_updated = now\<rparr>)
      in if \<not> pg 0 then (Inl (PersonaFailed ''begin''), db)
         else if \<not> pg 1 then (Inl (PersonaFailed ''insert persona''), db)
         else if has_row pr_id (ps_id p) (pd_rows db) \<or> name_conflict (ps_id p) owner (ps_name p) db then (Inl NameTaken, db)
         else if \<not> pg 2 then (Inl (PersonaFailed ''insert version''), db)
         else (case add_version (ps_id p) 1 (ps_text p) now db of
                 None \<Rightarrow> (Inl (PersonaFailed ''insert version''), draw_id db)
               | Some (vid, db') \<Rightarrow>
                   if \<not> pg 3 then (Inl (PersonaFailed ''update current_version_id''), draw_id db)
                   else if \<not> pg 4 then (Inl (PersonaFailed ''commit''), draw_id db)
                   else (Inr (p\<lparr>ps_version := 1, ps_created := now, ps_updated := now\<rparr>),
                         db'\<lparr>pd_rows := pd_rows db @ [row vid]\<rparr>)))"

definition get_persona :: "bool \<Rightarrow> string \<Rightarrow> persona_db \<Rightarrow> persona_error + persona" where
  "get_persona ok i db =
     (if \<not> ok then Inl (PersonaFailed ''personas.Get'')
      else (case List.find (\<lambda>(p, v). pr_id p = i) (joined db) of
              None \<Rightarrow> Inl PersonaNotFound | Some (p, v) \<Rightarrow> Inr (scan_persona p v)))"

definition get_by_owner :: "bool \<Rightarrow> string \<Rightarrow> persona_db \<Rightarrow> persona_error + persona" where
  "get_by_owner ok agent db =
     (if \<not> ok then Inl (PersonaFailed ''personas.GetByOwner'')
      else (case List.find (\<lambda>(p, v). pr_owner p = Some agent) (joined db) of
              None \<Rightarrow> Inl PersonaNotFound | Some (p, v) \<Rightarrow> Inr (scan_persona p v)))"

text \<open>The list leaves out the text.\<close>

definition summary :: "persona \<Rightarrow> persona" where
  "summary p = p\<lparr>ps_text := [], ps_owner := []\<rparr>"

definition list_personas :: "bool \<Rightarrow> persona_db \<Rightarrow> persona_error + persona list" where
  "list_personas ok db =
     (if \<not> ok then Inl (PersonaFailed ''personas.List'')
      else Inr (map (\<lambda>(p, v). summary (scan_persona p v))
             (sort_key (\<lambda>(p, v). - pr_created p) (filter (\<lambda>(p, v). pr_owner p = None) (joined db)))))"

definition write_row :: "string \<Rightarrow> (persona_row \<Rightarrow> persona_row) \<Rightarrow> persona_db \<Rightarrow> persona_db" where
  "write_row i f db = db\<lparr>pd_rows := update_where (\<lambda>p. pr_id p = i) f (pd_rows db)\<rparr>"

definition update_persona :: "pg \<Rightarrow> instant \<Rightarrow> string \<Rightarrow> persona_change \<Rightarrow> persona_db \<Rightarrow> persona persona_result" where
  "update_persona pg now i req db =
     (if \<not> pg 0 \<or> \<not> pg 1 then (Inl (PersonaFailed ''personas.Update''), db)
      else (case List.find (\<lambda>(p, v). pr_id p = i) (joined db) of
              None \<Rightarrow> (Inl PersonaNotFound, db)
            | Some (p, v) \<Rightarrow>
                let name = (case pc_name req of None \<Rightarrow> pr_name p | Some s \<Rightarrow> s);
                    description = (case pc_description req of None \<Rightarrow> pr_description p | Some s \<Rightarrow> s);
                    text = (case pc_text req of None \<Rightarrow> vr_text v | Some s \<Rightarrow> s);
                    touch = (\<lambda>r. r\<lparr>pr_name := name, pr_description := description, pr_updated := now\<rparr>);
                    reply = (\<lambda>n. \<lparr>ps_id = i, ps_name = name, ps_description = description, ps_version = n, ps_text = text,
                               ps_owner = [], ps_created = pr_created p, ps_updated = now\<rparr>)
                in if text \<noteq> vr_text v
                   then (if \<not> pg 2 then (Inl (PersonaFailed ''insert version''), db)
                         else (case add_version i (vr_number v + 1) text now db of
                                 None \<Rightarrow> (Inl (PersonaFailed ''insert version''), draw_id db)
                               | Some (vid, db') \<Rightarrow>
                                   if \<not> pg 3 then (Inl (PersonaFailed ''personas.Update''), draw_id db)
                                   else if name_conflict i (pr_owner p) name db then (Inl NameTaken, draw_id db)
                                   else if \<not> pg 4 then (Inl (PersonaFailed ''personas.Update''), draw_id db)
                                   else (Inr (reply (vr_number v + 1)), write_row i (\<lambda>r. touch (r\<lparr>pr_current := vid\<rparr>)) db')))
                   else if \<not> pg 2 then (Inl (PersonaFailed ''personas.Update''), db)
                   else if name_conflict i (pr_owner p) name db then (Inl NameTaken, db)
                   else if \<not> pg 3 then (Inl (PersonaFailed ''personas.Update''), db)
                   else (Inr (reply (vr_number v)), write_row i touch db)))"

definition list_versions :: "bool \<Rightarrow> string \<Rightarrow> persona_db \<Rightarrow> persona_error + version_row list" where
  "list_versions ok i db =
     (if \<not> ok then Inl (PersonaFailed ''personas.ListVersions'')
      else Inr (map (\<lambda>v. v\<lparr>vr_text := []\<rparr>) (rev (sort_key vr_number (versions_of db i)))))"

definition get_version :: "bool \<Rightarrow> string \<Rightarrow> int \<Rightarrow> persona_db \<Rightarrow> persona_error + version_row" where
  "get_version ok i n db =
     (if \<not> ok then Inl (PersonaFailed ''personas.GetVersion'')
      else (case List.find (\<lambda>v. int (vr_number v) = n) (versions_of db i) of None \<Rightarrow> Inl PersonaNotFound | Some v \<Rightarrow> Inr v))"

definition rollback_persona :: "pg \<Rightarrow> instant \<Rightarrow> string \<Rightarrow> int \<Rightarrow> persona_db \<Rightarrow> persona persona_result" where
  "rollback_persona pg now i n db =
     (if \<not> pg 0 \<or> \<not> pg 1 then (Inl (PersonaFailed ''personas.Rollback''), db)
      else (case get_version True i n db of
              Inl e \<Rightarrow> (Inl e, db)
            | Inr source \<Rightarrow>
                if \<not> pg 2 then (Inl (PersonaFailed ''personas.Rollback''), db)
                else (case List.find (\<lambda>(p, v). pr_id p = i) (joined db) of
                        None \<Rightarrow> (Inl PersonaNotFound, db)
                      | Some (p, v) \<Rightarrow>
                          if \<not> pg 3 then (Inl (PersonaFailed ''personas.Rollback''), db)
                          else (case add_version i (vr_number v + 1) (vr_text source) now db of
                                  None \<Rightarrow> (Inl (PersonaFailed ''personas.Rollback''), draw_id db)
                                | Some (vid, db') \<Rightarrow>
                                    if \<not> pg 4 \<or> \<not> pg 5 then (Inl (PersonaFailed ''personas.Rollback''), draw_id db)
                                    else let db2 = write_row i (\<lambda>r. r\<lparr>pr_current := vid, pr_updated := now\<rparr>) db'
                                         in (get_persona (pg 6) i db2, db2)))))"

definition delete_persona :: "bool \<Rightarrow> string \<Rightarrow> persona_db \<Rightarrow> unit persona_result" where
  "delete_persona ok i db =
     (if \<not> ok then (Inl (PersonaFailed ''personas.Delete''), db)
      else if \<not> has_row pr_id i (pd_rows db) then (Inl PersonaNotFound, db)
      else (Inr (), db\<lparr>pd_rows := delete_rows pr_id i (pd_rows db),
             pd_versions := filter (\<lambda>v. vr_persona v \<noteq> i) (pd_versions db)\<rparr>))"

section \<open>ConfigMaps\<close>

record config_map =
  cm_labels :: "(string \<times> string) list"
  cm_annotations :: "(string \<times> string) list"
  cm_data :: "(string \<times> string) list"

text \<open>The ConfigMaps of the hub's namespace by name.\<close>

type_synonym config_maps = "(string \<times> config_map) list"

definition render_persona :: "persona \<Rightarrow> config_map \<Rightarrow> config_map" where
  "render_persona p cm =
     \<lparr>cm_labels = aput ''ainsel.dev/resource'' ''persona'' (aput ''ainsel.dev/managed-by'' ''hub'' (cm_labels cm)),
      cm_annotations = aput ''ainsel.dev/persona-version'' (decimal (int (ps_version p)))
        (aput ''ainsel.dev/persona-name'' (ps_name p) (cm_annotations cm)),
      cm_data = aput ''persona.md'' (ps_text p) (cm_data cm)\<rparr>"

definition no_config_map :: config_map where
  "no_config_map = \<lparr>cm_labels = [], cm_annotations = [], cm_data = []\<rparr>"

text \<open>\<open>got\<close> and \<open>put\<close>: whether the API server answers the read, and carries out the write.\<close>

definition ensure_map :: "bool \<Rightarrow> bool \<Rightarrow> persona \<Rightarrow> config_maps \<Rightarrow> (persona_error + unit) \<times> config_maps" where
  "ensure_map got put p maps =
     (let name = persona_config_map (ps_id p)
      in if \<not> got then (Inl (PersonaFailed (''get configmap '' @ name)), maps)
         else (case map_of maps name of
                 None \<Rightarrow> if put then (Inr (), aput name (render_persona p no_config_map) maps)
                   else (Inl (PersonaFailed (''create configmap '' @ name)), maps)
               | Some cm \<Rightarrow> if put then (Inr (), aput name (render_persona p cm) maps)
                   else (Inl (PersonaFailed (''update configmap '' @ name)), maps)))"

definition drop_map :: "bool \<Rightarrow> string \<Rightarrow> config_maps \<Rightarrow> (persona_error + unit) \<times> config_maps" where
  "drop_map put i maps =
     (if put then (Inr (), adel (persona_config_map i) maps)
      else (Inl (PersonaFailed (''delete configmap '' @ persona_config_map i)), maps))"

text \<open>The agents that reference a persona; \<open>agents\<close> are their names with the persona each references.\<close>

definition list_referrers :: "bool \<Rightarrow> (string \<times> string) list \<Rightarrow> string \<Rightarrow> persona_error + string list" where
  "list_referrers ok agents i =
     (if \<not> ok then Inl (PersonaFailed ''check referrers'') else Inr (map fst (filter (\<lambda>(a, r). r = i) agents)))"

section \<open>The service\<close>

record persona_world =
  pw_db :: persona_db
  pw_maps :: config_maps

text \<open>
  The surroundings of a call: the statements of the main store operation, the outcome of a lookup before it and of
  the deletion that undoes it, the ConfigMap's read and write, the listing of the agents, the generated id and the time.
\<close>

record persona_env =
  pe_pg :: pg
  pe_lookup :: bool
  pe_undo :: bool
  pe_got :: bool
  pe_put :: bool
  pe_agents :: bool
  pe_id :: string
  pe_now :: instant

record create_persona_request =
  cp_name :: string
  cp_group :: string
  cp_description :: string
  cp_text :: string
  cp_owner :: string

type_synonym 'a persona_reply = "(persona_error + 'a) \<times> persona_world"

definition max_name_len :: int where "max_name_len = 200"
definition max_description_len :: int where "max_description_len = 2000"
definition max_text_len :: int where "max_text_len = 100000"

definition validate_name :: "string \<Rightarrow> persona_error option" where
  "validate_name s =
     (if s = [] then Some (BadField ''name'' ''is required'')
      else if max_name_len < int (length s) then Some (BadField ''name'' ''must be <= 200 chars'') else None)"

definition validate_description :: "string \<Rightarrow> persona_error option" where
  "validate_description s =
     (if max_description_len < int (length s) then Some (BadField ''description'' ''must be <= 2000 chars'') else None)"

definition validate_text :: "string \<Rightarrow> persona_error option" where
  "validate_text s =
     (if s = [] then Some (BadField ''text'' ''is required'')
      else if max_text_len < int (length s) then Some (BadField ''text'' ''must be <= 100000 chars'') else None)"

fun first_problem :: "persona_error option list \<Rightarrow> persona_error option" where
  "first_problem [] = None"
| "first_problem (Some e # xs) = Some e"
| "first_problem (None # xs) = first_problem xs"

definition add_persona :: "persona_env \<Rightarrow> create_persona_request \<Rightarrow> persona_world \<Rightarrow> persona persona_reply" where
  "add_persona e req w =
     (case first_problem [validate_name (cp_name req), validate_description (cp_description req), validate_text (cp_text req)] of
        Some err \<Rightarrow> (Inl err, w)
      | None \<Rightarrow>
          let p = \<lparr>ps_id = pe_id e, ps_name = cp_name req, ps_description = cp_description req, ps_version = 0, ps_text = cp_text req,
                 ps_owner = cp_owner req, ps_created = 0, ps_updated = 0\<rparr>
          in (case create_persona (pe_pg e) (pe_now e) p (pw_db w) of
                (Inl err, db) \<Rightarrow> (Inl err, w\<lparr>pw_db := db\<rparr>)
              | (Inr p', db) \<Rightarrow>
                  (case ensure_map (pe_got e) (pe_put e) p' (pw_maps w) of
                     (Inl _, m) \<Rightarrow> (Inl (PersonaFailed ''render configmap''),
                        \<lparr>pw_db = snd (delete_persona (pe_undo e) (ps_id p') db), pw_maps = m\<rparr>)
                   | (Inr _, m) \<Rightarrow> (Inr p', \<lparr>pw_db = db, pw_maps = m\<rparr>))))"

text \<open>Store a changed persona and render it.\<close>

definition rendered_reply :: "persona_env \<Rightarrow> persona persona_result \<Rightarrow> persona_world \<Rightarrow> persona persona_reply" where
  "rendered_reply e x w =
     (case x of
        (Inl err, db) \<Rightarrow> (Inl err, w\<lparr>pw_db := db\<rparr>)
      | (Inr p, db) \<Rightarrow>
          (case ensure_map (pe_got e) (pe_put e) p (pw_maps w) of
             (Inl _, m) \<Rightarrow> (Inl (PersonaFailed ''render configmap''), \<lparr>pw_db = db, pw_maps = m\<rparr>)
           | (Inr _, m) \<Rightarrow> (Inr p, \<lparr>pw_db = db, pw_maps = m\<rparr>)))"

definition change_persona :: "persona_env \<Rightarrow> string \<Rightarrow> persona_change \<Rightarrow> persona_world \<Rightarrow> persona persona_reply" where
  "change_persona e i req w =
     (case first_problem [case pc_name req of None \<Rightarrow> None | Some s \<Rightarrow> validate_name s,
             case pc_description req of None \<Rightarrow> None | Some s \<Rightarrow> validate_description s,
             case pc_text req of None \<Rightarrow> None | Some s \<Rightarrow> validate_text s] of
        Some err \<Rightarrow> (Inl err, w)
      | None \<Rightarrow> rendered_reply e (update_persona (pe_pg e) (pe_now e) i req (pw_db w)) w)"

definition revert_persona :: "persona_env \<Rightarrow> string \<Rightarrow> int \<Rightarrow> persona_world \<Rightarrow> persona persona_reply" where
  "revert_persona e i n w = rendered_reply e (rollback_persona (pe_pg e) (pe_now e) i n (pw_db w)) w"

definition owned_by :: "persona_env \<Rightarrow> string \<Rightarrow> persona_world \<Rightarrow> persona_error + persona option" where
  "owned_by e agent w =
     (case get_by_owner (pe_lookup e) agent (pw_db w) of
        Inr p \<Rightarrow> Inr (Some p) | Inl err \<Rightarrow> if err = PersonaNotFound then Inr None else Inl err)"

definition ensure_owned ::
  "persona_env \<Rightarrow> string \<Rightarrow> string \<Rightarrow> persona_change \<Rightarrow> persona_world \<Rightarrow> persona persona_reply" where
  "ensure_owned e agent fallback req w =
     (case pc_text req of
        None \<Rightarrow> (Inl (BadField ''text'' ''is required''), w)
      | Some text \<Rightarrow>
          (case get_by_owner (pe_lookup e) agent (pw_db w) of
             Inr p \<Rightarrow> change_persona e (ps_id p) req w
           | Inl err \<Rightarrow>
               if err \<noteq> PersonaNotFound then (Inl err, w)
               else add_persona e
                 \<lparr>cp_name = (case pc_name req of None \<Rightarrow> fallback | Some s \<Rightarrow> if s = [] then fallback else s), cp_group = [],
                  cp_description = (case pc_description req of None \<Rightarrow> [] | Some s \<Rightarrow> s), cp_text = text, cp_owner = agent\<rparr> w))"

text \<open>Remove the row, then the ConfigMap.\<close>

definition delete_rendered :: "persona_env \<Rightarrow> bool \<Rightarrow> string \<Rightarrow> persona_world \<Rightarrow> unit persona_reply" where
  "delete_rendered e missing_ok i w =
     (case delete_persona (pe_pg e 0) i (pw_db w) of
        (Inl err, db) \<Rightarrow> (if missing_ok \<and> err = PersonaNotFound then Inr () else Inl err, w\<lparr>pw_db := db\<rparr>)
      | (Inr _, db) \<Rightarrow>
          (case drop_map (pe_put e) i (pw_maps w) of
             (Inl _, m) \<Rightarrow> (Inl (PersonaFailed ''delete configmap''), \<lparr>pw_db = db, pw_maps = m\<rparr>)
           | (Inr _, m) \<Rightarrow> (Inr (), \<lparr>pw_db = db, pw_maps = m\<rparr>)))"

definition delete_owned :: "persona_env \<Rightarrow> string \<Rightarrow> string \<Rightarrow> persona_world \<Rightarrow> unit persona_reply" where
  "delete_owned e i agent w =
     (case get_persona (pe_lookup e) i (pw_db w) of
        Inl err \<Rightarrow> (if err = PersonaNotFound then Inr () else Inl err, w)
      | Inr p \<Rightarrow> if ps_owner p \<noteq> agent then (Inl NotOwned, w) else delete_rendered e True i w)"

definition remove_persona :: "persona_env \<Rightarrow> (string \<times> string) list \<Rightarrow> string \<Rightarrow> persona_world \<Rightarrow> unit persona_reply" where
  "remove_persona e agents i w =
     (case list_referrers (pe_agents e) agents i of
        Inl err \<Rightarrow> (Inl err, w)
      | Inr refs \<Rightarrow> if refs \<noteq> [] then (Inl (InUseBy refs), w) else delete_rendered e False i w)"

end
