(* ===== verification/AgentApi.thy ===== *)
theory AgentApi
  imports GuardedApi Paging Personas
begin

text \<open>
  The endpoints of agents (\<^verbatim>\<open>services/hub/internal/api/handlers_agents.go\<close>) and of the persona of an agent
  (\<^verbatim>\<open>handlers_agent_persona.go\<close>): they validate a request, store provider keys as secrets, write the Agent resource and keep the group and
  the agent's own persona in step. The resources of the Kubernetes API are state; whether the API server carries out a request is an argument, as are the
  generated id, the time stamp and the check of variable names (\<^verbatim>\<open>k8s.io/apimachinery\<close>). A request body is what the JSON decoder makes of it. The
  task routes below an agent are those of \<^theory_text>\<open>TaskApi\<close>.
\<close>

section \<open>Resources\<close>

record llm =
  lm_model :: string
  lm_provider :: string
  lm_turns :: int
  lm_temperature :: "string option"
  lm_vision :: "bool option"

record hub_env =
  he_name :: string
  he_value :: string
  he_secret :: bool

record agent_state =
  as_ready :: bool
  as_replicas :: int
  as_scaling :: "(int \<times> string \<times> string \<times> string) option"

text \<open>
  An Agent as the hub sees it. A provider block that is absent is \<^const>\<open>None\<close>, one without a reference \<^term>\<open>Some None\<close>. \<open>ga_scaling\<close> has the replicas
  and the floor, \<open>ga_updated\<close> the annotation and \<open>ga_created\<close> the creation time, both as text.
\<close>

record hub_agent =
  ga_name :: string
  ga_display :: string
  ga_description :: string
  ga_image :: string
  ga_llm :: llm
  ga_persona :: string
  ga_tools :: "string list"
  ga_skills :: "string list option"
  ga_mcp :: "mcp_server list option"
  ga_env :: "hub_env list"
  ga_scaling :: "(int option \<times> int option) option"
  ga_memory :: "(bool \<times> string) option"
  ga_ollama :: "key_ref option option"
  ga_opencode :: "key_ref option option"
  ga_alibaba :: "key_ref option option"
  ga_custom :: "(string \<times> key_ref option) option"
  ga_updated :: "string option"
  ga_created :: string
  ga_status :: agent_state

record hub_image =
  hi_name :: string
  hi_display :: string
  hi_tools :: "string list"

text \<open>Secrets by name with their data. The stores of personas, MCP servers and skills may be missing.\<close>

record agent_site =
  st_agents :: "hub_agent list"
  st_images :: "hub_image list"
  st_secrets :: "(string \<times> (string \<times> string) list) list"
  st_personas :: "persona_world option"
  st_servers :: "mcp_server list option"
  st_skills :: "string list option"

datatype provider = Ollama | OpenCode | Alibaba | CustomLLM

text \<open>Which requests to the API server and the stores are carried out.\<close>

record kube_env =
  ke_get :: bool
  ke_list :: bool
  ke_image :: bool
  ke_images :: bool
  ke_display :: bool
  ke_server :: "string \<Rightarrow> bool"
  ke_skill :: "string \<Rightarrow> bool"
  ke_secret :: "provider \<Rightarrow> bool"
  ke_resecret :: "provider \<Rightarrow> bool"
  ke_write :: bool
  ke_id :: string
  ke_stamp :: string
  ke_persona :: persona_env
  ke_cleanup :: persona_env
  ke_names :: "string \<Rightarrow> string option"

section \<open>Requests\<close>

record agent_request =
  aq_name :: string
  aq_group :: string
  aq_description :: string
  aq_image :: string
  aq_llm :: llm
  aq_persona :: "string option"
  aq_tools :: "string list"
  aq_skills :: "string list option"
  aq_mcp :: "string list option"
  aq_env :: "hub_env list"
  aq_replicas :: "int option"
  aq_floor :: "int option"
  aq_memory :: "(bool \<times> string) option"
  aq_ollama :: "string option"
  aq_opencode :: "string option"
  aq_alibaba :: "string option"
  aq_custom :: "(string \<times> string) option"

record agent_change =
  au_name :: "string option"
  au_description :: "string option"
  au_image :: "string option"
  au_llm :: "llm option"
  au_persona :: "string option"
  au_tools :: "string list option"
  au_skills :: "string list option"
  au_mcp :: "string list option"
  au_env :: "hub_env list option"
  au_replicas :: "int option"
  au_floor :: "int option"
  au_memory :: "(bool \<times> string) option"
  au_ollama :: "string option"
  au_opencode :: "string option"
  au_alibaba :: "string option"
  au_custom :: "(string \<times> string) option"

text \<open>The registry names of a selection, resolved; \<^const>\<open>None\<close> leaves the selection alone.\<close>

fun resolve_servers :: "kube_env \<Rightarrow> mcp_server list \<Rightarrow> string list \<Rightarrow> refusal + mcp_server list" where
  "resolve_servers v reg [] = Inr []"
| "resolve_servers v reg (n # ns) =
     (if \<not> ke_server v n then Inl (Refused 500 ''mcpservers.Get'')
      else (case lookup_row ms_name n reg of
              None \<Rightarrow> Inl (Refused 400 (''mcp server not found: '' @ n))
            | Some m \<Rightarrow> map_sum id ((#) m) (resolve_servers v reg ns)))"

definition resolve_mcp_request :: "kube_env \<Rightarrow> agent_site \<Rightarrow> string list option \<Rightarrow> refusal + mcp_server list option" where
  "resolve_mcp_request v s req =
     (case req of None \<Rightarrow> Inr None
      | Some ns \<Rightarrow> (case st_servers s of None \<Rightarrow> Inl (Refused 503 ''mcp service not configured'')
                   | Some reg \<Rightarrow> map_sum id Some (resolve_servers v reg ns)))"

fun check_skills :: "kube_env \<Rightarrow> string list \<Rightarrow> string list \<Rightarrow> refusal option" where
  "check_skills v known [] = None"
| "check_skills v known (i # is) =
     (if \<not> ke_skill v i then Some (Refused 500 ''skills.Get'')
      else if i \<notin> set known then Some (Refused 400 (''skill not found: '' @ i))
      else check_skills v known is)"

definition validate_enabled_skills :: "kube_env \<Rightarrow> agent_site \<Rightarrow> string list option \<Rightarrow> refusal option" where
  "validate_enabled_skills v s req =
     (case (req, st_skills s) of (Some is, Some known) \<Rightarrow> check_skills v known is | _ \<Rightarrow> None)"

text \<open>The value stored under a name among the secret variables; the last one counts.\<close>

definition kept_secret :: "hub_env list \<Rightarrow> string \<Rightarrow> string" where
  "kept_secret existing n =
     (case List.find (\<lambda>e. he_secret e \<and> he_name e = n) (rev existing) of None \<Rightarrow> [] | Some e \<Rightarrow> he_value e)"

fun env_loop :: "(string \<Rightarrow> string option) \<Rightarrow> hub_env list \<Rightarrow> string list \<Rightarrow> hub_env list \<Rightarrow> refusal + hub_env list" where
  "env_loop names existing seen [] = Inr []"
| "env_loop names existing seen (e # es) =
     (let n = trim_space (he_name e)
      in if n = [] then Inl (Refused 400 ''env name is required'')
         else (case names n of
                 Some problem \<Rightarrow> Inl (Refused 400 (''invalid env name '' @ n @ '': '' @ problem))
               | None \<Rightarrow>
                   if n \<in> set seen then Inl (Refused 400 (''duplicate env name: '' @ n))
                   else map_sum id ((#) \<lparr>he_name = n,
                          he_value = (if he_secret e \<and> he_value e = [] then kept_secret existing n else he_value e), he_secret = he_secret e\<rparr>)
                        (env_loop names existing (n # seen) es)))"

definition agent_env_from_request :: "(string \<Rightarrow> string option) \<Rightarrow> hub_env list \<Rightarrow> hub_env list \<Rightarrow> refusal + hub_env list" where
  "agent_env_from_request names req existing = env_loop names existing [] req"

definition scaling_problem :: "(int option \<times> int option) option \<Rightarrow> string" where
  "scaling_problem sc =
     (case sc of None \<Rightarrow> []
      | Some (replicas, floor) \<Rightarrow>
          if (case replicas of None \<Rightarrow> False | Some n \<Rightarrow> n < 0) then ''replicas must not be negative''
          else (case floor of None \<Rightarrow> []
                | Some m \<Rightarrow>
                    if m < 0 then ''minReplicas must not be negative''
                    else let most = (case replicas of None \<Rightarrow> 1 | Some n \<Rightarrow> n)
                         in if most < m then ''minReplicas '' @ decimal m @ '' cannot exceed replicas '' @ decimal most else []))"

text \<open>The display name of the image, when it exists and has the tools.\<close>

definition validate_agent_image_ref :: "kube_env \<Rightarrow> agent_site \<Rightarrow> string \<Rightarrow> string list \<Rightarrow> refusal + string" where
  "validate_agent_image_ref v s ref tools =
     (if trim_space ref = [] then Inl (Refused 400 ''imageRef.name is required'')
      else if \<not> ke_image v then Inl (Refused 500 ''lookup image: '')
      else (case lookup_row hi_name ref (st_images s) of
              None \<Rightarrow> Inl (Refused 400 (''imageRef.name '' @ quoted ref @ '' does not match any AgentImage''))
            | Some img \<Rightarrow>
                let unknown = filter (\<lambda>t. t \<notin> set (hi_tools img)) tools
                in if unknown \<noteq> [] then Inl (Refused 400 (''enabledTools not in image: '' @ join_with '','' unknown))
                   else Inr (hi_display img)))"

definition resolve_image_display_name :: "kube_env \<Rightarrow> agent_site \<Rightarrow> string \<Rightarrow> string" where
  "resolve_image_display_name v s i =
     (if \<not> ke_display v then [] else (case lookup_row hi_name i (st_images s) of None \<Rightarrow> [] | Some img \<Rightarrow> hi_display img))"

section \<open>Responses\<close>

record agent_response =
  sa_id :: string
  sa_name :: string
  sa_description :: string
  sa_image :: "string \<times> string"
  sa_llm :: llm
  sa_persona :: "string option"
  sa_tools :: "string list"
  sa_skills :: "string list option"
  sa_mcp :: "mcp_server list option"
  sa_env :: "hub_env list"
  sa_replicas :: "int option"
  sa_floor :: "int option"
  sa_memory :: "(bool \<times> string) option"
  sa_ollama :: bool
  sa_opencode :: bool
  sa_alibaba :: bool
  sa_custom :: "string option"
  sa_status :: agent_state
  sa_updated :: string

definition mask_env :: "hub_env \<Rightarrow> hub_env" where
  "mask_env e = (if he_secret e then e\<lparr>he_value := []\<rparr> else e)"

definition agent_updated_at :: "hub_agent \<Rightarrow> string" where
  "agent_updated_at a = (case ga_updated a of Some t \<Rightarrow> t | None \<Rightarrow> ga_created a)"

definition to_simple_agent_response :: "hub_agent \<Rightarrow> string \<Rightarrow> agent_response" where
  "to_simple_agent_response a display =
     \<lparr>sa_id = ga_name a, sa_name = ga_display a, sa_description = ga_description a, sa_image = (ga_image a, display), sa_llm = ga_llm a,
      sa_persona = (if ga_persona a = [] then None else Some (ga_persona a)), sa_tools = ga_tools a, sa_skills = ga_skills a, sa_mcp = ga_mcp a,
      sa_env = map mask_env (ga_env a),
      sa_replicas = (case ga_scaling a of None \<Rightarrow> None | Some (r, m) \<Rightarrow> r), sa_floor = (case ga_scaling a of None \<Rightarrow> None | Some (r, m) \<Rightarrow> m),
      sa_memory = ga_memory a, sa_ollama = (ga_ollama a \<noteq> None), sa_opencode = (ga_opencode a \<noteq> None), sa_alibaba = (ga_alibaba a \<noteq> None),
      sa_custom = map_option fst (ga_custom a), sa_status = ga_status a, sa_updated = agent_updated_at a\<rparr>"

section \<open>Provider keys\<close>

definition key_suffix :: "provider \<Rightarrow> string" where
  "key_suffix k = (case k of Ollama \<Rightarrow> ''-llm-key'' | OpenCode \<Rightarrow> ''-opencode-key'' | Alibaba \<Rightarrow> ''-alibaba-key'' | CustomLLM \<Rightarrow> ''-custom-provider-key'')"

definition provider_text :: "provider \<Rightarrow> string" where
  "provider_text k = (case k of Ollama \<Rightarrow> ''Ollama Cloud'' | OpenCode \<Rightarrow> ''OpenCode'' | Alibaba \<Rightarrow> ''Alibaba Token Plan'' | CustomLLM \<Rightarrow> ''custom provider'')"

type_synonym secrets = "(string \<times> (string \<times> string) list) list"

text \<open>Store a key; an update may replace the secret there is.\<close>

definition store_key ::
  "kube_env \<Rightarrow> bool \<Rightarrow> provider \<Rightarrow> string \<Rightarrow> string \<Rightarrow> secrets \<Rightarrow> (refusal + key_ref) \<times> secrets" where
  "store_key v replace k agent key m =
     (let name = agent @ key_suffix k;
          done = (Inr \<lparr>kr_name = name, kr_key = ''api-key''\<rparr>, aput name [(''api-key'', key)] m);
          failed = (Inl (Refused 500 (''failed to create '' @ provider_text k @ '' secret: '')), m)
      in if \<not> ke_secret v k then failed
         else if map_of m name = None then done
         else if \<not> replace then failed
         else if ke_resecret v k then done
         else (Inl (Refused 500 (''failed to update '' @ provider_text k @ '' secret: '')), m))"

text \<open>The key of a request, if it has one that is not empty.\<close>

definition key_step ::
  "kube_env \<Rightarrow> bool \<Rightarrow> provider \<Rightarrow> string \<Rightarrow> string option \<Rightarrow> secrets \<Rightarrow> (refusal + key_ref option) \<times> secrets" where
  "key_step v replace k agent key m =
     (case key of
        Some x \<Rightarrow> if x = [] then (Inr None, m) else map_prod (map_sum id Some) id (store_key v replace k agent x m)
      | None \<Rightarrow> (Inr None, m))"

text \<open>The three keys in the order of the code, then the custom provider.\<close>

definition provider_steps ::
  "kube_env \<Rightarrow> bool \<Rightarrow> string \<Rightarrow> string option \<Rightarrow> string option \<Rightarrow> string option \<Rightarrow> (string \<times> string) option \<Rightarrow>
   (string \<times> key_ref option) option \<Rightarrow> secrets \<Rightarrow>
   (refusal + key_ref option \<times> key_ref option \<times> key_ref option \<times> (string \<times> key_ref option) option) \<times> secrets" where
  "provider_steps v replace agent ollama opencode alibaba custom before m =
     (case key_step v replace Ollama agent ollama m of
        (Inl e, m) \<Rightarrow> (Inl e, m)
      | (Inr o1, m) \<Rightarrow>
          (case key_step v replace OpenCode agent opencode m of
             (Inl e, m) \<Rightarrow> (Inl e, m)
           | (Inr o2, m) \<Rightarrow>
               (case key_step v replace Alibaba agent alibaba m of
                  (Inl e, m) \<Rightarrow> (Inl e, m)
                | (Inr o3, m) \<Rightarrow>
                    (case custom of
                       None \<Rightarrow> (Inr (o1, o2, o3, before), m)
                     | Some (url, key) \<Rightarrow>
                         if before = None \<and> url = [] then (Inl (Refused 400 ''custom provider URL is required''), m)
                         else (case key_step v replace CustomLLM agent (Some key) m of
                                 (Inl e, m) \<Rightarrow> (Inl e, m)
                               | (Inr r, m) \<Rightarrow>
                                   (Inr (o1, o2, o3,
                                      Some (if url = [] then fst (the before) else url,
                                            case r of Some x \<Rightarrow> Some x | None \<Rightarrow> (case before of None \<Rightarrow> None | Some (_, old) \<Rightarrow> old))), m))))))"

section \<open>Agents\<close>

type_synonym 'r agent_reply = "('r, agent_site) reply"

definition rt_agent :: string where "rt_agent = ''agent''"

definition put_site :: "agent_site \<Rightarrow> agent_site api \<Rightarrow> agent_site api" where
  "put_site d s = s\<lparr>ap_data := d\<rparr>"

definition list_agents :: "call \<Rightarrow> kube_env \<Rightarrow> bool \<Rightarrow> string \<Rightarrow> string \<Rightarrow> agent_site api \<Rightarrow> (agent_response list \<times> page_meta) agent_reply" where
  "list_agents v k public page page_size s =
     (case parse_page_params page page_size of
        Inl e \<Rightarrow> (Inl (Refused 400 e), s)
      | Inr p \<Rightarrow>
          if \<not> ke_list k then (Inl (Refused 500 ''list agents''), s)
          else let xs = visible v public rt_agent ga_name (ap_authz s) (st_agents (ap_data s));
                   display = (\<lambda>i. if \<not> ke_images k then []
                     else (case lookup_row hi_name i (st_images (ap_data s)) of None \<Rightarrow> [] | Some img \<Rightarrow> hi_display img))
               in (Inr (map (\<lambda>a. to_simple_agent_response a (display (ga_image a))) (page_items p xs), page_meta_of p (length xs)), s))"

definition find_agent :: "kube_env \<Rightarrow> string \<Rightarrow> agent_site \<Rightarrow> hub_agent option" where
  "find_agent k n d = (if ke_get k then lookup_row ga_name n (st_agents d) else None)"

definition get_agent :: "kube_env \<Rightarrow> string \<Rightarrow> agent_site api \<Rightarrow> agent_response agent_reply" where
  "get_agent k n s =
     (case find_agent k n (ap_data s) of
        None \<Rightarrow> (Inl (Refused 404 ''agent not found''), s)
      | Some a \<Rightarrow> (Inr (to_simple_agent_response a (resolve_image_display_name k (ap_data s) (ga_image a))), s))"

definition no_status :: agent_state where
  "no_status = \<lparr>as_ready = False, as_replicas = 0, as_scaling = None\<rparr>"

text \<open>The resource of a creation, without the provider blocks.\<close>

definition new_agent :: "kube_env \<Rightarrow> agent_request \<Rightarrow> mcp_server list option \<Rightarrow> hub_env list \<Rightarrow> hub_agent" where
  "new_agent k req servers env =
     \<lparr>ga_name = ke_id k, ga_display = aq_name req, ga_description = aq_description req, ga_image = aq_image req, ga_llm = aq_llm req,
      ga_persona = (case aq_persona req of None \<Rightarrow> [] | Some i \<Rightarrow> i), ga_tools = aq_tools req, ga_skills = aq_skills req, ga_mcp = servers,
      ga_env = env, ga_scaling = (if aq_replicas req = None \<and> aq_floor req = None then None else Some (aq_replicas req, aq_floor req)),
      ga_memory = aq_memory req, ga_ollama = None, ga_opencode = None, ga_alibaba = None, ga_custom = None,
      ga_updated = Some (ke_stamp k), ga_created = ke_stamp k, ga_status = no_status\<rparr>"

text \<open>A block is set to the new reference, or left alone.\<close>

definition set_key :: "key_ref option \<Rightarrow> key_ref option option \<Rightarrow> key_ref option option" where
  "set_key r before = (case r of None \<Rightarrow> before | Some x \<Rightarrow> Some (Some x))"

definition with_providers ::
  "key_ref option \<times> key_ref option \<times> key_ref option \<times> (string \<times> key_ref option) option \<Rightarrow> hub_agent \<Rightarrow> hub_agent" where
  "with_providers ps a =
     (case ps of (o1, o2, o3, custom) \<Rightarrow>
        a\<lparr>ga_ollama := set_key o1 (ga_ollama a), ga_opencode := set_key o2 (ga_opencode a), ga_alibaba := set_key o3 (ga_alibaba a), ga_custom := custom\<rparr>)"

text \<open>What a creation does once the caller may create in the group.\<close>

definition store_agent :: "call \<Rightarrow> kube_env \<Rightarrow> agent_request \<Rightarrow> string \<Rightarrow> agent_site api \<Rightarrow> agent_response agent_reply" where
  "store_agent v k req display s =
     (let d = ap_data s in
      case validate_enabled_skills k d (aq_skills req) of
        Some e \<Rightarrow> (Inl e, s)
      | None \<Rightarrow>
          (case resolve_mcp_request k d (aq_mcp req) of
             Inl e \<Rightarrow> (Inl e, s)
           | Inr servers \<Rightarrow>
               (case agent_env_from_request (ke_names k) (aq_env req) [] of
                  Inl e \<Rightarrow> (Inl e, s)
                | Inr env \<Rightarrow>
                    let a = new_agent k req servers env in
                    if scaling_problem (ga_scaling a) \<noteq> [] then (Inl (Refused 400 (scaling_problem (ga_scaling a))), s)
                    else (case provider_steps k False (ga_name a) (aq_ollama req) (aq_opencode req) (aq_alibaba req) (aq_custom req) None (st_secrets d) of
                            (Inl e, m) \<Rightarrow> (Inl e, put_site (d\<lparr>st_secrets := m\<rparr>) s)
                          | (Inr ps, m) \<Rightarrow>
                              let a' = with_providers ps a; d' = d\<lparr>st_secrets := m\<rparr> in
                              if \<not> ke_write k \<or> has_row ga_name (ga_name a) (st_agents d)
                              then (Inl (Refused 500 ''create agent''), put_site d' s)
                              else (Inr (to_simple_agent_response a' display),
                                    assign_group v rt_agent (ga_name a) (aq_group req) (put_site (d'\<lparr>st_agents := st_agents d @ [a']\<rparr>) s))))))"

definition create_agent :: "call \<Rightarrow> kube_env \<Rightarrow> string + agent_request \<Rightarrow> agent_site api \<Rightarrow> agent_response agent_reply" where
  "create_agent v k body s =
     (case body of
        Inl e \<Rightarrow> (Inl (Refused 400 (''invalid JSON: '' @ e)), s)
      | Inr req \<Rightarrow>
          (case validate_agent_image_ref k (ap_data s) (aq_image req) (aq_tools req) of
             Inl e \<Rightarrow> (Inl e, s)
           | Inr display \<Rightarrow> guard_creation v (aq_group req) (store_agent v k req display) s))"

definition merge_llm :: "llm \<Rightarrow> llm \<Rightarrow> llm" where
  "merge_llm new old =
     \<lparr>lm_model = (if lm_model new = [] then lm_model old else lm_model new),
      lm_provider = (if lm_provider new = [] then lm_provider old else lm_provider new),
      lm_turns = (if lm_turns new = 0 then lm_turns old else lm_turns new),
      lm_temperature = (case lm_temperature new of None \<Rightarrow> lm_temperature old | Some t \<Rightarrow> Some t),
      lm_vision = (case lm_vision new of None \<Rightarrow> lm_vision old | Some b \<Rightarrow> Some b)\<rparr>"

definition given :: "'a option \<Rightarrow> 'a \<Rightarrow> 'a" where
  "given x y = (case x of None \<Rightarrow> y | Some z \<Rightarrow> z)"

definition merge_scaling :: "int option \<Rightarrow> int option \<Rightarrow> (int option \<times> int option) option \<Rightarrow> (int option \<times> int option) option" where
  "merge_scaling replicas floor old =
     (if replicas = None \<and> floor = None then old
      else (case given old (None, None) of
              (r, m) \<Rightarrow> Some (if replicas = None then r else replicas, if floor = None then m else floor)))"

definition merge_agent :: "agent_change \<Rightarrow> mcp_server list option \<Rightarrow> hub_env list option \<Rightarrow> hub_agent \<Rightarrow> hub_agent" where
  "merge_agent req servers env a =
     a\<lparr>ga_display := given (au_name req) (ga_display a), ga_description := given (au_description req) (ga_description a),
       ga_image := given (au_image req) (ga_image a), ga_tools := given (au_tools req) (ga_tools a),
       ga_skills := (case au_skills req of None \<Rightarrow> ga_skills a | Some is \<Rightarrow> Some is),
       ga_mcp := (case servers of None \<Rightarrow> ga_mcp a | Some ms \<Rightarrow> Some ms), ga_env := given env (ga_env a),
       ga_llm := (case au_llm req of None \<Rightarrow> ga_llm a | Some l \<Rightarrow> merge_llm l (ga_llm a)),
       ga_persona := (case au_persona req of None \<Rightarrow> ga_persona a | Some i \<Rightarrow> if i = [] then ga_persona a else i),
       ga_scaling := merge_scaling (au_replicas req) (au_floor req) (ga_scaling a),
       ga_memory := (case au_memory req of None \<Rightarrow> ga_memory a | Some x \<Rightarrow> Some x)\<rparr>"

text \<open>Delete the persona the agent owns, unless it is the one to keep; failures are only logged.\<close>

definition cleanup_owned_persona :: "kube_env \<Rightarrow> string \<Rightarrow> string \<Rightarrow> agent_site \<Rightarrow> agent_site" where
  "cleanup_owned_persona k agent keep d =
     (case st_personas d of
        None \<Rightarrow> d
      | Some w \<Rightarrow>
          (case owned_by (ke_cleanup k) agent w of
             Inr (Some p) \<Rightarrow>
               if ps_id p = keep then d else d\<lparr>st_personas := Some (snd (delete_owned (ke_cleanup k) (ps_id p) agent w))\<rparr>
           | _ \<Rightarrow> d))"

definition write_agent :: "hub_agent \<Rightarrow> agent_site \<Rightarrow> agent_site" where
  "write_agent a d = d\<lparr>st_agents := update_where (\<lambda>x. ga_name x = ga_name a) (\<lambda>_. a) (st_agents d)\<rparr>"

definition update_agent :: "kube_env \<Rightarrow> string \<Rightarrow> string + agent_change \<Rightarrow> agent_site api \<Rightarrow> agent_response agent_reply" where
  "update_agent k n body s =
     (let d = ap_data s in
      case find_agent k n d of
        None \<Rightarrow> (Inl (Refused 404 ''agent not found''), s)
      | Some a \<Rightarrow>
          (case body of
             Inl e \<Rightarrow> (Inl (Refused 400 (''invalid JSON: '' @ e)), s)
           | Inr req \<Rightarrow>
               (case (if au_image req = None \<and> au_tools req = None then Inr []
                      else validate_agent_image_ref k d (given (au_image req) (ga_image a)) (given (au_tools req) (ga_tools a))) of
                  Inl e \<Rightarrow> (Inl e, s)
                | Inr display \<Rightarrow>
                    (case validate_enabled_skills k d (au_skills req) of
                       Some e \<Rightarrow> (Inl e, s)
                     | None \<Rightarrow>
                         (case resolve_mcp_request k d (au_mcp req) of
                            Inl e \<Rightarrow> (Inl e, s)
                          | Inr servers \<Rightarrow>
                              (case (case au_env req of None \<Rightarrow> Inr None
                                     | Some es \<Rightarrow> map_sum id Some (agent_env_from_request (ke_names k) es (ga_env a))) of
                                 Inl e \<Rightarrow> (Inl e, s)
                               | Inr env \<Rightarrow>
                                   let a1 = merge_agent req servers env a in
                                   if scaling_problem (ga_scaling a1) \<noteq> [] then (Inl (Refused 400 (scaling_problem (ga_scaling a1))), s)
                                   else (case provider_steps k True (ga_name a) (au_ollama req) (au_opencode req) (au_alibaba req) (au_custom req)
                                            (ga_custom a) (st_secrets d) of
                                           (Inl e, m) \<Rightarrow> (Inl e, put_site (d\<lparr>st_secrets := m\<rparr>) s)
                                         | (Inr ps, m) \<Rightarrow>
                                             let a2 = (with_providers ps a1)\<lparr>ga_updated := Some (ke_stamp k)\<rparr>; d1 = d\<lparr>st_secrets := m\<rparr> in
                                             if \<not> ke_write k then (Inl (Refused 500 ''update agent''), put_site d1 s)
                                             else let d2 = write_agent a2 d1;
                                                      d3 = (case au_persona req of
                                                              Some i \<Rightarrow> if i = [] then d2 else cleanup_owned_persona k n i d2 | None \<Rightarrow> d2);
                                                      shown = (if display = [] \<and> au_image req = None
                                                               then resolve_image_display_name k d3 (ga_image a2) else display)
                                                  in (Inr (to_simple_agent_response a2 shown), put_site d3 s))))))))"

definition delete_agent :: "call \<Rightarrow> kube_env \<Rightarrow> string \<Rightarrow> agent_site api \<Rightarrow> unit agent_reply" where
  "delete_agent v k n s =
     (if \<not> ke_write k \<or> \<not> has_row ga_name n (st_agents (ap_data s)) then (Inl (Refused 404 ''agent not found''), s)
      else let d = (ap_data s)\<lparr>st_agents := delete_rows ga_name n (st_agents (ap_data s))\<rparr>
           in (Inr (), release_group v rt_agent n (put_site (cleanup_owned_persona k n [] d) s)))"

section \<open>The persona of an agent\<close>

record agent_persona =
  pa_owned :: bool
  pa_ref :: string
  pa_persona :: "persona option"

fun persona_refusal :: "persona_error \<Rightarrow> refusal" where
  "persona_refusal (BadField f m) = Refused 400 (''validation: '' @ f @ '': '' @ m)"
| "persona_refusal (InUseBy refs) = Refused 409 ''persona in use''"
| "persona_refusal NotOwned = Refused 409 ''persona is not owned by this agent''"
| "persona_refusal NameTaken = Refused 409 ''persona name already in use''"
| "persona_refusal PersonaNotFound = Refused 404 ''not found''"
| "persona_refusal (PersonaFailed op) = Refused 500 (''internal error: '' @ op)"

definition no_personas :: refusal where "no_personas = Refused 503 ''persona service not configured''"

definition get_agent_persona :: "kube_env \<Rightarrow> string \<Rightarrow> agent_site api \<Rightarrow> agent_persona agent_reply" where
  "get_agent_persona k n s =
     (case st_personas (ap_data s) of
        None \<Rightarrow> (Inl no_personas, s)
      | Some w \<Rightarrow>
          (case find_agent k n (ap_data s) of
             None \<Rightarrow> (Inl (Refused 404 ''agent not found''), s)
           | Some a \<Rightarrow>
               if ga_persona a = [] then (Inr \<lparr>pa_owned = False, pa_ref = [], pa_persona = None\<rparr>, s)
               else (case get_persona (pe_lookup (ke_persona k)) (ga_persona a) (pw_db w) of
                       Inl _ \<Rightarrow> (Inr \<lparr>pa_owned = False, pa_ref = ga_persona a, pa_persona = None\<rparr>, s)
                     | Inr p \<Rightarrow> (Inr \<lparr>pa_owned = (ps_owner p = n), pa_ref = ga_persona a, pa_persona = Some p\<rparr>, s))))"

definition default_owned_persona_name :: "hub_agent \<Rightarrow> string" where
  "default_owned_persona_name a = (let d = trim_space (ga_display a) in (if d = [] then ga_name a else d) @ '' (own)'')"

text \<open>The body has the name, the description and the text.\<close>

definition put_agent_persona :: "kube_env \<Rightarrow> string \<Rightarrow> string + string \<times> string \<times> string \<Rightarrow> agent_site api \<Rightarrow> agent_persona agent_reply" where
  "put_agent_persona k n body s =
     (let d = ap_data s in
      case st_personas d of
        None \<Rightarrow> (Inl no_personas, s)
      | Some w \<Rightarrow>
          (case body of
             Inl e \<Rightarrow> (Inl (Refused 400 ''invalid JSON body''), s)
           | Inr (name, description, txt) \<Rightarrow>
               (case find_agent k n d of
                  None \<Rightarrow> (Inl (Refused 404 ''agent not found''), s)
                | Some a \<Rightarrow>
                    (case ensure_owned (ke_persona k) n (default_owned_persona_name a)
                            \<lparr>pc_name = Some (trim_space name), pc_description = Some description, pc_text = Some txt\<rparr> w of
                       (Inl e, w') \<Rightarrow> (Inl (persona_refusal e), put_site (d\<lparr>st_personas := Some w'\<rparr>) s)
                     | (Inr p, w') \<Rightarrow>
                         let d' = d\<lparr>st_personas := Some w'\<rparr>; r = \<lparr>pa_owned = True, pa_ref = ps_id p, pa_persona = Some p\<rparr> in
                         if ga_persona a = ps_id p then (Inr r, put_site d' s)
                         else if \<not> ke_write k then (Inl (Refused 500 ''failed to link persona: ''), put_site d' s)
                         else (Inr r, put_site (write_agent (a\<lparr>ga_persona := ps_id p, ga_updated := Some (ke_stamp k)\<rparr>) d') s)))))"

section \<open>Routes\<close>

text \<open>What a path below \<^verbatim>\<open>/api/v1/agents/\<close> names.\<close>

datatype agent_target = NoAgent | TaskRoute | PersonaOf string | OneAgent string

definition agent_target_of :: "string \<Rightarrow> agent_target" where
  "agent_target_of name =
     (if name = [] then NoAgent
      else if has_suffix name ''/next-task'' \<or>
        contains_str name ''/tasks/'' \<and> (has_suffix name ''/ack'' \<or> has_suffix name ''/nack'') then TaskRoute
      else if has_suffix name ''/persona'' then PersonaOf (take (length name - length ''/persona'') name)
      else OneAgent name)"

datatype agent_request_kind =
    ListAgents bool string string
  | PostAgent "string + agent_request"
  | GetAt string
  | PutAt string "string + agent_change" "string + string \<times> string \<times> string"
  | DeleteAt string

datatype agent_answer = AgentPage "agent_response list" page_meta | AgentReply agent_response | PersonaReply agent_persona | NoReply | TaskEndpoint

definition no_agent :: refusal where "no_agent = Refused 400 ''missing agent name''"

fun handle_agents :: "kube_env \<Rightarrow> call \<Rightarrow> agent_request_kind \<Rightarrow> agent_site api \<Rightarrow> agent_answer agent_reply" where
  "handle_agents k v (ListAgents public page page_size) s = map_reply (\<lambda>(xs, m). AgentPage xs m) (list_agents v k public page page_size s)"
| "handle_agents k v (PostAgent body) s = map_reply AgentReply (create_agent v k body s)"
| "handle_agents k v (GetAt path) s =
     (case agent_target_of path of
        NoAgent \<Rightarrow> (Inl no_agent, s)
      | TaskRoute \<Rightarrow> (Inr TaskEndpoint, s)
      | PersonaOf n \<Rightarrow> guard_read v rt_agent n (\<lambda>s. map_reply PersonaReply (get_agent_persona k n s)) s
      | OneAgent n \<Rightarrow> guard_read v rt_agent n (\<lambda>s. map_reply AgentReply (get_agent k n s)) s)"
| "handle_agents k v (PutAt path body persona) s =
     (case agent_target_of path of
        NoAgent \<Rightarrow> (Inl no_agent, s)
      | TaskRoute \<Rightarrow> (Inr TaskEndpoint, s)
      | PersonaOf n \<Rightarrow> guard_write v rt_agent n (\<lambda>s. map_reply PersonaReply (put_agent_persona k n persona s)) s
      | OneAgent n \<Rightarrow> guard_write v rt_agent n (\<lambda>s. map_reply AgentReply (update_agent k n body s)) s)"
| "handle_agents k v (DeleteAt path) s =
     (case agent_target_of path of
        NoAgent \<Rightarrow> (Inl no_agent, s)
      | TaskRoute \<Rightarrow> (Inr TaskEndpoint, s)
      | PersonaOf n \<Rightarrow> (Inl bad_method, s)
      | OneAgent n \<Rightarrow> guard_write v rt_agent n (\<lambda>s. map_reply (\<lambda>_. NoReply) (delete_agent v k n s)) s)"

end
