(* ===== verification/PersonaApi.thy ===== *)
theory PersonaApi
  imports AgentApi
begin

text \<open>
  The endpoints of the persona library (\<^verbatim>\<open>services/hub/internal/api/handlers_personas.go\<close>). They share the state of the agent endpoints,
  whose resources decide whether a persona may be deleted. A body is what the JSON decoder makes of it; the routes are
  there only when the registry is configured.
\<close>

definition rt_persona :: string where "rt_persona = ''persona''"

definition page_not_found :: refusal where "page_not_found = Refused 404 ''404 page not found''"

definition bad_persona_body :: refusal where "bad_persona_body = Refused 400 ''invalid JSON body''"

type_synonym 'r persona_page = "('r, agent_site) reply"

text \<open>Run an operation of the registry on its part of the state.\<close>

definition in_registry :: "(persona_world \<Rightarrow> 'a persona_reply) \<Rightarrow> agent_site api \<Rightarrow> 'a persona_page" where
  "in_registry f s =
     (case st_personas (ap_data s) of
        None \<Rightarrow> (Inl page_not_found, s)
      | Some w \<Rightarrow>
          (case f w of
             (Inl e, w') \<Rightarrow> (Inl (persona_refusal e), put_site ((ap_data s)\<lparr>st_personas := Some w'\<rparr>) s)
           | (Inr x, w') \<Rightarrow> (Inr x, put_site ((ap_data s)\<lparr>st_personas := Some w'\<rparr>) s)))"

text \<open>The personas a caller can read; \<^const>\<open>None\<close> means all of them.\<close>

definition accessible_set :: "call \<Rightarrow> bool \<Rightarrow> authz_db \<Rightarrow> string list option" where
  "accessible_set v public db =
     (if \<not> cl_wired v then None
      else (case cl_caller v of
              None \<Rightarrow> Some []
            | Some sub \<Rightarrow>
                if caller_is_admin True (cl_check v) db (Some sub) then None
                else (case list_resources_by_groups (\<lambda>_. ck_resource (cl_check v)) rt_persona
                             (caller_group_ids True (\<lambda>_. ck_roles (cl_check v)) db (Some sub)) public db of
                        Inl _ \<Rightarrow> Some [] | Inr names \<Rightarrow> Some names)))"

definition list_persona_page ::
  "call \<Rightarrow> persona_env \<Rightarrow> bool \<Rightarrow> string \<Rightarrow> string \<Rightarrow> agent_site api \<Rightarrow> (persona list \<times> page_meta) persona_page" where
  "list_persona_page v e public page page_size s =
     (case parse_page_params page page_size of
        Inl m \<Rightarrow> (Inl (Refused 400 m), s)
      | Inr p \<Rightarrow>
          (case in_registry (\<lambda>w. (list_personas (pe_lookup e) (pw_db w), w)) s of
             (Inl r, s) \<Rightarrow> (Inl r, s)
           | (Inr xs, s) \<Rightarrow>
               let ys = (case accessible_set v public (ap_authz s) of None \<Rightarrow> xs | Some names \<Rightarrow> filter (\<lambda>x. ps_id x \<in> set names) xs)
               in (Inr (page_items p ys, page_meta_of p (length ys)), s)))"

text \<open>A creation once the caller may create in the group.\<close>

definition store_persona :: "call \<Rightarrow> persona_env \<Rightarrow> create_persona_request \<Rightarrow> agent_site api \<Rightarrow> persona persona_page" where
  "store_persona v e req s =
     (case in_registry (add_persona e req) s of
        (Inl r, s') \<Rightarrow> (Inl r, s')
      | (Inr p, s') \<Rightarrow> (Inr p, assign_group v rt_persona (ps_id p) (cp_group req) s'))"

definition post_persona :: "call \<Rightarrow> persona_env \<Rightarrow> string + create_persona_request \<Rightarrow> agent_site api \<Rightarrow> persona persona_page" where
  "post_persona v e body s =
     (case body of Inl _ \<Rightarrow> (Inl bad_persona_body, s)
      | Inr req \<Rightarrow> guard_creation v (cp_group req) (store_persona v e req) s)"

definition get_persona_page :: "persona_env \<Rightarrow> string \<Rightarrow> agent_site api \<Rightarrow> persona persona_page" where
  "get_persona_page e i = in_registry (\<lambda>w. (get_persona (pe_lookup e) i (pw_db w), w))"

definition put_persona_page :: "persona_env \<Rightarrow> string \<Rightarrow> string + persona_change \<Rightarrow> agent_site api \<Rightarrow> persona persona_page" where
  "put_persona_page e i body s =
     (case body of Inl _ \<Rightarrow> (Inl bad_persona_body, s) | Inr req \<Rightarrow> in_registry (change_persona e i req) s)"

definition delete_persona_page :: "call \<Rightarrow> persona_env \<Rightarrow> string \<Rightarrow> agent_site api \<Rightarrow> unit persona_page" where
  "delete_persona_page v e i s =
     (case in_registry (remove_persona e (map (\<lambda>a. (ga_name a, ga_persona a)) (st_agents (ap_data s))) i) s of
        (Inl r, s') \<Rightarrow> (Inl r, s')
      | (Inr _, s') \<Rightarrow> (Inr (), release_group v rt_persona i s'))"

definition list_version_page ::
  "persona_env \<Rightarrow> string \<Rightarrow> string \<Rightarrow> string \<Rightarrow> agent_site api \<Rightarrow> (version_row list \<times> page_meta) persona_page" where
  "list_version_page e i page page_size s =
     (case parse_page_params page page_size of
        Inl m \<Rightarrow> (Inl (Refused 400 m), s)
      | Inr p \<Rightarrow>
          map_reply (\<lambda>xs. (page_items p xs, page_meta_of p (length xs)))
            (in_registry (\<lambda>w. (list_versions (pe_lookup e) i (pw_db w), w)) s))"

definition get_version_page :: "persona_env \<Rightarrow> string \<Rightarrow> int \<Rightarrow> agent_site api \<Rightarrow> version_row persona_page" where
  "get_version_page e i n = in_registry (\<lambda>w. (get_version (pe_lookup e) i n (pw_db w), w))"

definition bad_rollback :: refusal where
  "bad_rollback = Refused 400 ''invalid body: expected {\"toVersion\": <positive int>}''"

definition rollback_page :: "persona_env \<Rightarrow> string \<Rightarrow> string + int \<Rightarrow> agent_site api \<Rightarrow> persona persona_page" where
  "rollback_page e i body s =
     (case body of
        Inl _ \<Rightarrow> (Inl bad_rollback, s)
      | Inr n \<Rightarrow> if n \<le> 0 then (Inl bad_rollback, s) else in_registry (revert_persona e i n) s)"

section \<open>Routes\<close>

datatype persona_path = NoPage | ItemRoot string | ItemVersions string | ItemVersion string int | BadVersion | ItemRollback string

text \<open>What a path below \<^verbatim>\<open>/api/v1/personas/\<close> names.\<close>

definition persona_path_of :: "string \<Rightarrow> persona_path" where
  "persona_path_of path =
     (case split_on (CHR ''/'') path of
        [] \<Rightarrow> NoPage
      | i # rest \<Rightarrow>
          if i = [] then NoPage
          else (case rest of
                  [] \<Rightarrow> ItemRoot i
                | [x] \<Rightarrow> if x = ''versions'' then ItemVersions i else if x = ''rollback'' then ItemRollback i else NoPage
                | [x, y] \<Rightarrow> if x = ''versions'' then (case atoi y of None \<Rightarrow> BadVersion | Some n \<Rightarrow> ItemVersion i n) else NoPage
                | _ \<Rightarrow> NoPage))"

datatype persona_request =
    ListLibrary bool string string
  | PostLibrary "string + create_persona_request"
  | GetItem string string string
  | PutItem string "string + persona_change"
  | PostItem string "string + int"
  | DeleteItem string

datatype persona_answer =
    Library "persona list" page_meta | OnePersona persona | Versions "version_row list" page_meta | OneVersion version_row | Gone

definition bad_version :: refusal where "bad_version = Refused 400 ''invalid version number''"

fun handle_personas :: "persona_env \<Rightarrow> call \<Rightarrow> persona_request \<Rightarrow> agent_site api \<Rightarrow> persona_answer persona_page" where
  "handle_personas e v (ListLibrary public page page_size) s = map_reply (\<lambda>(xs, m). Library xs m) (list_persona_page v e public page page_size s)"
| "handle_personas e v (PostLibrary body) s = map_reply OnePersona (post_persona v e body s)"
| "handle_personas e v (GetItem path page page_size) s =
     (case persona_path_of path of
        NoPage \<Rightarrow> (Inl page_not_found, s)
      | BadVersion \<Rightarrow> (Inl bad_version, s)
      | ItemRoot i \<Rightarrow> guard_read v rt_persona i (\<lambda>s. map_reply OnePersona (get_persona_page e i s)) s
      | ItemVersions i \<Rightarrow> guard_read v rt_persona i (\<lambda>s. map_reply (\<lambda>(xs, m). Versions xs m) (list_version_page e i page page_size s)) s
      | ItemVersion i n \<Rightarrow> guard_read v rt_persona i (\<lambda>s. map_reply OneVersion (get_version_page e i n s)) s
      | ItemRollback i \<Rightarrow> (Inl bad_method, s))"
| "handle_personas e v (PutItem path body) s =
     (case persona_path_of path of
        NoPage \<Rightarrow> (Inl page_not_found, s)
      | BadVersion \<Rightarrow> (Inl bad_version, s)
      | ItemRoot i \<Rightarrow> guard_write v rt_persona i (\<lambda>s. map_reply OnePersona (put_persona_page e i body s)) s
      | _ \<Rightarrow> (Inl bad_method, s))"
| "handle_personas e v (PostItem path body) s =
     (case persona_path_of path of
        NoPage \<Rightarrow> (Inl page_not_found, s)
      | BadVersion \<Rightarrow> (Inl bad_version, s)
      | ItemRollback i \<Rightarrow> guard_write v rt_persona i (\<lambda>s. map_reply OnePersona (rollback_page e i body s)) s
      | _ \<Rightarrow> (Inl bad_method, s))"
| "handle_personas e v (DeleteItem path) s =
     (case persona_path_of path of
        NoPage \<Rightarrow> (Inl page_not_found, s)
      | BadVersion \<Rightarrow> (Inl bad_version, s)
      | ItemRoot i \<Rightarrow> guard_write v rt_persona i (\<lambda>s. map_reply (\<lambda>_. Gone) (delete_persona_page v e i s)) s
      | _ \<Rightarrow> (Inl bad_method, s))"

end
