(* ===== verification/PersonaRules.thy ===== *)
theory PersonaRules
  imports Personas
begin

text \<open>
  What the persona registry promises: an append-only history of versions, rollback as one more version, and
  ConfigMaps that hold the current texts.
\<close>

section \<open>The invariant of the tables\<close>

definition persona_wf :: "persona_db \<Rightarrow> bool" where
  "persona_wf db \<longleftrightarrow>
     distinct (map pr_id (pd_rows db)) \<and> distinct (map vr_id (pd_versions db)) \<and>
     (\<forall>v \<in> set (pd_versions db). vr_id v < pd_next db \<and> has_row pr_id (vr_persona v) (pd_rows db)) \<and>
     (\<forall>p \<in> set (pd_rows db). versions_of db (pr_id p) \<noteq> [] \<and>
        map vr_number (versions_of db (pr_id p)) = map Suc [0..<length (versions_of db (pr_id p))] \<and>
        pr_current p = vr_id (last (versions_of db (pr_id p)))) \<and>
     (\<forall>p \<in> set (pd_rows db). \<forall>q \<in> set (pd_rows db).
        pr_owner p = None \<and> pr_owner q = None \<and> pr_name p = pr_name q \<longrightarrow> pr_id p = pr_id q)"

lemma persona_wfD:
  assumes "persona_wf db"
  shows "distinct (map pr_id (pd_rows db))" "distinct (map vr_id (pd_versions db))"
    "v \<in> set (pd_versions db) \<Longrightarrow> vr_id v < pd_next db"
    "v \<in> set (pd_versions db) \<Longrightarrow> has_row pr_id (vr_persona v) (pd_rows db)"
    "p \<in> set (pd_rows db) \<Longrightarrow> versions_of db (pr_id p) \<noteq> []"
    "p \<in> set (pd_rows db) \<Longrightarrow> map vr_number (versions_of db (pr_id p)) = map Suc [0..<length (versions_of db (pr_id p))]"
    "p \<in> set (pd_rows db) \<Longrightarrow> pr_current p = vr_id (last (versions_of db (pr_id p)))"
    "p \<in> set (pd_rows db) \<Longrightarrow> q \<in> set (pd_rows db) \<Longrightarrow> pr_owner p = None \<Longrightarrow> pr_owner q = None \<Longrightarrow> pr_name p = pr_name q \<Longrightarrow> pr_id p = pr_id q"
  using assms unfolding persona_wf_def by blast+

lemma persona_wfI:
  assumes "distinct (map pr_id (pd_rows db))" "distinct (map vr_id (pd_versions db))"
    and "\<And>v. v \<in> set (pd_versions db) \<Longrightarrow> vr_id v < pd_next db"
    and "\<And>v. v \<in> set (pd_versions db) \<Longrightarrow> has_row pr_id (vr_persona v) (pd_rows db)"
    and "\<And>p. p \<in> set (pd_rows db) \<Longrightarrow> versions_of db (pr_id p) \<noteq> []"
    and "\<And>p. p \<in> set (pd_rows db) \<Longrightarrow> map vr_number (versions_of db (pr_id p)) = map Suc [0..<length (versions_of db (pr_id p))]"
    and "\<And>p. p \<in> set (pd_rows db) \<Longrightarrow> pr_current p = vr_id (last (versions_of db (pr_id p)))"
    and "\<And>p q. p \<in> set (pd_rows db) \<Longrightarrow> q \<in> set (pd_rows db) \<Longrightarrow> pr_owner p = None \<Longrightarrow> pr_owner q = None \<Longrightarrow>
      pr_name p = pr_name q \<Longrightarrow> pr_id p = pr_id q"
  shows "persona_wf db"
  unfolding persona_wf_def using assms by blast

lemma persona_wf_empty: "persona_wf \<lparr>pd_rows = [], pd_versions = [], pd_next = n\<rparr>"
  by (simp add: persona_wf_def)

lemma draw_id_tables [simp]: "pd_rows (draw_id db) = pd_rows db" "pd_versions (draw_id db) = pd_versions db" "pd_next (draw_id db) = pd_next db + 1"
  "versions_of (draw_id db) = versions_of db"
  by (simp_all add: draw_id_def versions_of_def fun_eq_iff)

lemma persona_wf_draw: "persona_wf db \<Longrightarrow> persona_wf (draw_id db)"
  by (rule persona_wfI; unfold draw_id_tables; (erule (4) persona_wfD(8) | erule (1) persona_wfD | erule persona_wfD |
      rule trans_less_add1, erule (1) persona_wfD))

lemma current_version_wf:
  assumes "persona_wf db" "p \<in> set (pd_rows db)"
  shows "current_version db p = Some (last (versions_of db (pr_id p)))"
proof -
  have "last (versions_of db (pr_id p)) \<in> set (versions_of db (pr_id p))" using persona_wfD(5) [OF assms] by simp
  then have "last (versions_of db (pr_id p)) \<in> set (pd_versions db)" by (simp add: versions_of_def)
  from lookup_row_distinct [OF persona_wfD(2) [OF assms(1)] this] show ?thesis
    by (simp add: current_version_def persona_wfD(7) [OF assms])
qed

lemma map_filter_all: "(\<And>x. x \<in> set xs \<Longrightarrow> f x = Some (g x)) \<Longrightarrow> List.map_filter f xs = map g xs"
  by (induction xs) (simp_all add: List.map_filter_simps)

lemma find_paired: "List.find (\<lambda>(p, v). P p) (map (\<lambda>p. (p, f p)) xs) = map_option (\<lambda>p. (p, f p)) (List.find P xs)"
  by (induction xs) simp_all

lemma joined_wf: "persona_wf db \<Longrightarrow> joined db = map (\<lambda>p. (p, last (versions_of db (pr_id p)))) (pd_rows db)"
  unfolding joined_def by (rule map_filter_all) (simp add: current_version_wf)

lemma find_joined:
  "persona_wf db \<Longrightarrow> List.find (\<lambda>(p, v). P p) (joined db) =
     map_option (\<lambda>p. (p, last (versions_of db (pr_id p)))) (List.find P (pd_rows db))"
  by (simp add: joined_wf find_paired)

lemma last_number:
  assumes "persona_wf db" "p \<in> set (pd_rows db)"
  shows "vr_number (last (versions_of db (pr_id p))) = length (versions_of db (pr_id p))"
proof -
  have "vr_number (last (versions_of db (pr_id p))) = last (map vr_number (versions_of db (pr_id p)))"
    using persona_wfD(5) [OF assms] by (simp add: last_map)
  then show ?thesis using persona_wfD(5) [OF assms] by (simp add: persona_wfD(6) [OF assms] last_map)
qed

section \<open>One operation\<close>

text \<open>What the tables of a persona's row and versions can become: the steps of the store.\<close>

inductive persona_step :: "persona_db \<Rightarrow> persona_db \<Rightarrow> bool" where
  stay: "persona_step db db"
| drawn: "persona_step db (draw_id db)"
| made: "\<not> has_row pr_id (pr_id p) (pd_rows db) \<Longrightarrow> \<not> name_conflict (pr_id p) (pr_owner p) (pr_name p) db \<Longrightarrow>
    add_version (pr_id p) 1 text now db = Some (pr_current p, db') \<Longrightarrow> persona_step db (db'\<lparr>pd_rows := pd_rows db @ [p]\<rparr>)"
| touched: "p \<in> set (pd_rows db) \<Longrightarrow> \<not> name_conflict (pr_id p) (pr_owner p) name db \<Longrightarrow>
    persona_step db (write_row (pr_id p) (\<lambda>r. r\<lparr>pr_name := name, pr_description := d, pr_updated := now\<rparr>) db)"
| extended: "p \<in> set (pd_rows db) \<Longrightarrow> \<not> name_conflict (pr_id p) (pr_owner p) name db \<Longrightarrow>
    add_version (pr_id p) (length (versions_of db (pr_id p)) + 1) text now db = Some (vid, db') \<Longrightarrow>
    persona_step db (write_row (pr_id p) (\<lambda>r. r\<lparr>pr_current := vid, pr_name := name, pr_description := d, pr_updated := now\<rparr>) db')"

lemma add_version_fields:
  "add_version i n text now db = Some (vid, db') \<Longrightarrow> vid = pd_next db \<and> pd_rows db' = pd_rows db \<and> pd_next db' = pd_next db + 1 \<and>
     pd_versions db' = pd_versions db @ [\<lparr>vr_id = pd_next db, vr_persona = i, vr_number = n, vr_text = text, vr_created = now\<rparr>]"
  by (auto simp: add_version_def split: if_splits)

lemma write_row_tables [simp]: "pd_rows (write_row i f db) = update_where (\<lambda>p. pr_id p = i) f (pd_rows db)"
  "pd_versions (write_row i f db) = pd_versions db" "pd_next (write_row i f db) = pd_next db" "versions_of (write_row i f db) = versions_of db"
  by (simp_all add: write_row_def versions_of_def fun_eq_iff)

lemma next_id_fresh: "persona_wf db \<Longrightarrow> pd_next db \<notin> vr_id ` set (pd_versions db)"
  by (auto dest: persona_wfD(3))

lemma versions_of_append:
  "pd_versions db' = pd_versions db @ new \<Longrightarrow> versions_of db' j = versions_of db j @ filter (\<lambda>v. vr_persona v = j) new"
  by (simp add: versions_of_def)

lemma no_versions: "persona_wf db \<Longrightarrow> \<not> has_row pr_id i (pd_rows db) \<Longrightarrow> versions_of db i = []"
  using persona_wfD(4) [of db] by (fastforce simp: versions_of_def filter_empty_conv)

lemma written_row:
  assumes "persona_wf db" "p \<in> set (pd_rows db)" "r \<in> set (update_where (\<lambda>r. pr_id r = pr_id p) f (pd_rows db))"
  shows "r = f p \<or> r \<in> set (pd_rows db) \<and> pr_id r \<noteq> pr_id p"
  using assms(3)
proof (rule in_update_whereE)
  fix r' assume "r' \<in> set (pd_rows db)" "pr_id r' = pr_id p" "r = f r'"
  then show ?thesis using distinct_map_unique [OF persona_wfD(1) [OF assms(1)] _ assms(2)] by blast
qed simp

lemma written_wf:
  assumes wf: "persona_wf db" and p: "p \<in> set (pd_rows db)"
    and rows: "pd_rows db2 = update_where (\<lambda>r. pr_id r = pr_id p) f (pd_rows db)"
    and f: "\<And>r. pr_id (f r) = pr_id r" "\<And>r. pr_owner (f r) = pr_owner r" "\<And>r. pr_name (f r) = name"
    and nc: "\<not> name_conflict (pr_id p) (pr_owner p) name db"
    and vs: "pd_versions db2 = pd_versions db @ new" "\<And>v. v \<in> set new \<Longrightarrow> vr_persona v = pr_id p"
    and ids: "distinct (map vr_id (pd_versions db2))" "\<And>v. v \<in> set (pd_versions db2) \<Longrightarrow> vr_id v < pd_next db2"
    and num: "map vr_number (versions_of db2 (pr_id p)) = map Suc [0..<length (versions_of db2 (pr_id p))]"
    and cur: "pr_current (f p) = vr_id (last (versions_of db2 (pr_id p)))"
  shows "persona_wf db2"
proof (rule persona_wfI)
  note row = written_row [OF wf p, of _ f, folded rows]
  have other: "versions_of db2 j = versions_of db j" if "j \<noteq> pr_id p" for j
    using that vs(2) by (auto simp: versions_of_append [OF vs(1)] filter_empty_conv)
  have ids': "map pr_id (pd_rows db2) = map pr_id (pd_rows db)" unfolding rows by (rule map_update_where) (rule f(1))
  show "distinct (map pr_id (pd_rows db2))" unfolding ids' by (rule persona_wfD(1) [OF wf])
  have hr: "has_row pr_id i (pd_rows db2) = has_row pr_id i (pd_rows db)" for i
    using ids' by (simp add: has_row_iff lookup_row_None_iff flip: set_map)
  show "has_row pr_id (vr_persona v) (pd_rows db2)" if "v \<in> set (pd_versions db2)" for v
    using that vs persona_wfD(4) [OF wf] p by (auto simp: hr) (auto simp: has_row_def list_ex_iff)
  show "versions_of db2 (pr_id q) \<noteq> []" if "q \<in> set (pd_rows db2)" for q
    using row [OF that] persona_wfD(5) [OF wf] p f(1) by (auto simp: versions_of_append [OF vs(1)])
  show "map vr_number (versions_of db2 (pr_id q)) = map Suc [0..<length (versions_of db2 (pr_id q))]" if "q \<in> set (pd_rows db2)" for q
    using row [OF that] num f(1) persona_wfD(6) [OF wf] other by auto
  show "pr_current q = vr_id (last (versions_of db2 (pr_id q)))" if "q \<in> set (pd_rows db2)" for q
    using row [OF that] cur f(1) persona_wfD(7) [OF wf] other by auto
  have mixed: "pr_id p = pr_id q" if "q \<in> set (pd_rows db)" "pr_owner p = None" "pr_owner q = None" "pr_name q = name" for q
    using nc that by (auto simp: name_conflict_def list_ex_iff)
  show "pr_id q = pr_id r" if "q \<in> set (pd_rows db2)" "r \<in> set (pd_rows db2)" "pr_owner q = None" "pr_owner r = None" "pr_name q = pr_name r" for q r
    using row [OF that(1)] row [OF that(2)] that(3-5) f mixed persona_wfD(8) [OF wf, of q r] by metis
qed (rule ids(1), erule ids(2))

lemma made_wf:
  assumes wf: "persona_wf db" and new: "\<not> has_row pr_id (pr_id p) (pd_rows db)" "\<not> name_conflict (pr_id p) (pr_owner p) (pr_name p) db"
    and v: "add_version (pr_id p) 1 text now db = Some (pr_current p, db')"
  shows "persona_wf (db'\<lparr>pd_rows := pd_rows db @ [p]\<rparr>)"
proof (rule persona_wfI)
  let ?db = "db'\<lparr>pd_rows := pd_rows db @ [p]\<rparr>"
  let ?v = "\<lparr>vr_id = pd_next db, vr_persona = pr_id p, vr_number = 1, vr_text = text, vr_created = now\<rparr>"
  have f: "pr_current p = pd_next db" "pd_versions ?db = pd_versions db @ [?v]" "pd_next ?db = pd_next db + 1"
    using add_version_fields [OF v] by simp_all
  have vs: "versions_of ?db j = versions_of db j @ (if j = pr_id p then [?v] else [])" for j
    using versions_of_append [OF f(2), of j] by simp
  have mine: "versions_of ?db (pr_id p) = [?v]" using vs no_versions [OF wf new(1)] by simp
  have other: "versions_of ?db (pr_id q) = versions_of db (pr_id q)" if "q \<in> set (pd_rows db)" for q
    using vs new(1) that by (auto simp: has_row_def list_ex_iff)
  show "distinct (map pr_id (pd_rows ?db))"
    using persona_wfD(1) [OF wf] new(1) by (auto simp: has_row_def list_ex_iff)
  show "distinct (map vr_id (pd_versions ?db))"
    using persona_wfD(2) [OF wf] next_id_fresh [OF wf] f(2) by simp
  show "vr_id v < pd_next ?db" if "v \<in> set (pd_versions ?db)" for v
    using that f persona_wfD(3) [OF wf] by (auto intro: less_SucI)
  show "has_row pr_id (vr_persona v) (pd_rows ?db)" if "v \<in> set (pd_versions ?db)" for v
    using that f persona_wfD(4) [OF wf] by (auto simp: has_row_def)
  show "versions_of ?db (pr_id q) \<noteq> []" if "q \<in> set (pd_rows ?db)" for q
    using that mine other persona_wfD(5) [OF wf] by auto
  show "map vr_number (versions_of ?db (pr_id q)) = map Suc [0..<length (versions_of ?db (pr_id q))]" if "q \<in> set (pd_rows ?db)" for q
    using that mine other persona_wfD(6) [OF wf] by auto
  show "pr_current q = vr_id (last (versions_of ?db (pr_id q)))" if "q \<in> set (pd_rows ?db)" for q
    using that mine other persona_wfD(7) [OF wf] f(1) by auto
  have mixed: "pr_id p = pr_id q" if "q \<in> set (pd_rows db)" "pr_owner p = None" "pr_owner q = None" "pr_name q = pr_name p" for q
    using new(2) that by (auto simp: name_conflict_def list_ex_iff)
  show "pr_id q = pr_id r" if "q \<in> set (pd_rows ?db)" "r \<in> set (pd_rows ?db)" "pr_owner q = None" "pr_owner r = None" "pr_name q = pr_name r" for q r
  proof -
    have "q = p \<or> q \<in> set (pd_rows db)" "r = p \<or> r \<in> set (pd_rows db)" using that(1,2) by auto
    then show ?thesis using that(3-5) mixed persona_wfD(8) [OF wf, of q r] by metis
  qed
qed

lemma dropped_wf:
  assumes wf: "persona_wf db"
  shows "persona_wf (db\<lparr>pd_rows := delete_rows pr_id i (pd_rows db), pd_versions := filter (\<lambda>v. vr_persona v \<noteq> i) (pd_versions db)\<rparr>)"
proof (rule persona_wfI)
  let ?db = "db\<lparr>pd_rows := delete_rows pr_id i (pd_rows db), pd_versions := filter (\<lambda>v. vr_persona v \<noteq> i) (pd_versions db)\<rparr>"
  have vs: "versions_of ?db j = versions_of db j" if "j \<noteq> i" for j
    using that by (auto simp: versions_of_def intro!: filter_cong)
  have r: "q \<in> set (pd_rows ?db) \<longleftrightarrow> q \<in> set (pd_rows db) \<and> pr_id q \<noteq> i" for q by (auto simp: delete_rows_def)
  show "distinct (map pr_id (pd_rows ?db))" by (simp add: distinct_delete_rows persona_wfD(1) [OF wf])
  show "distinct (map vr_id (pd_versions ?db))" by (simp add: distinct_map_filter persona_wfD(2) [OF wf])
  show "vr_id v < pd_next ?db" if "v \<in> set (pd_versions ?db)" for v using that persona_wfD(3) [OF wf] by simp
  show "has_row pr_id (vr_persona v) (pd_rows ?db)" if "v \<in> set (pd_versions ?db)" for v
    using that persona_wfD(4) [OF wf, of v] by (auto simp: has_row_def list_ex_iff delete_rows_def)
  show "versions_of ?db (pr_id q) \<noteq> []" if "q \<in> set (pd_rows ?db)" for q
    using that r [of q] vs [of "pr_id q"] persona_wfD(5) [OF wf] by simp
  show "map vr_number (versions_of ?db (pr_id q)) = map Suc [0..<length (versions_of ?db (pr_id q))]" if "q \<in> set (pd_rows ?db)" for q
    using that r [of q] vs [of "pr_id q"] persona_wfD(6) [OF wf] by simp
  show "pr_current q = vr_id (last (versions_of ?db (pr_id q)))" if "q \<in> set (pd_rows ?db)" for q
    using that r [of q] vs [of "pr_id q"] persona_wfD(7) [OF wf] by simp
  show "pr_id q = pr_id s" if "q \<in> set (pd_rows ?db)" "s \<in> set (pd_rows ?db)" "pr_owner q = None" "pr_owner s = None" "pr_name q = pr_name s" for q s
    using that(1,2)[unfolded r] that(3-5) persona_wfD(8) [OF wf, of q s] by blast
qed

lemma persona_step_wf: "persona_step db db' \<Longrightarrow> persona_wf db \<Longrightarrow> persona_wf db'"
proof (induction rule: persona_step.induct)
  case (touched p db name now d)
  then show ?case
    by (intro written_wf [OF touched(3,1), where new = "[]" and name = name and f = "\<lambda>r. r\<lparr>pr_name := name, pr_description := d, pr_updated := now\<rparr>"])
       (simp_all add: persona_wfD)
next
  case (extended p db name tx now vid db' d)
  let ?v = "\<lparr>vr_id = pd_next db, vr_persona = pr_id p, vr_number = length (versions_of db (pr_id p)) + 1, vr_text = tx, vr_created = now\<rparr>"
  have f: "vid = pd_next db" "pd_rows db' = pd_rows db" "pd_next db' = pd_next db + 1" "pd_versions db' = pd_versions db @ [?v]"
    using add_version_fields [OF extended(3)] by simp_all
  let ?f = "\<lambda>r. r\<lparr>pr_current := vid, pr_name := name, pr_description := d, pr_updated := now\<rparr>"
  let ?db = "write_row (pr_id p) ?f db'"
  have mine: "versions_of db' (pr_id p) = versions_of db (pr_id p) @ [?v]"
    by (simp add: versions_of_append [OF f(4)])
  show ?case
  proof (rule written_wf [OF extended(4,1), where new = "[?v]" and name = name and f = ?f])
    show "\<not> name_conflict (pr_id p) (pr_owner p) name db" by (rule extended(2))
    show "distinct (map vr_id (pd_versions ?db))" using persona_wfD(2) [OF extended(4)] next_id_fresh [OF extended(4)] f(4) by simp
    show "vr_id v < pd_next ?db" if "v \<in> set (pd_versions ?db)" for v
      using that persona_wfD(3) [OF extended(4)] f by (auto intro: less_SucI)
    show "map vr_number (versions_of ?db (pr_id p)) = map Suc [0..<length (versions_of ?db (pr_id p))]"
      by (simp add: mine persona_wfD(6) [OF extended(4,1)])
    show "pr_current (?f p) = vr_id (last (versions_of ?db (pr_id p)))" by (simp add: mine f(1))
  qed (simp_all add: f)
qed (assumption | rule persona_wf_draw made_wf)+

section \<open>Operations\<close>

text \<open>An operation that deletes nothing keeps the invariant and every version.\<close>

definition keeps :: "persona_db \<Rightarrow> persona_db \<Rightarrow> bool" where
  "keeps db db' \<longleftrightarrow> persona_wf db' \<and> set (pd_versions db) \<subseteq> set (pd_versions db')"

lemma persona_step_keeps: "persona_step db db' \<Longrightarrow> persona_wf db \<Longrightarrow> keeps db db'"
proof -
  assume s: "persona_step db db'" and "persona_wf db"
  moreover from s have "set (pd_versions db) \<subseteq> set (pd_versions db')"
    by (cases rule: persona_step.cases) (auto dest: add_version_fields)
  ultimately show ?thesis by (simp add: keeps_def persona_step_wf)
qed

lemma create_step:
  assumes "create_persona pg now p db = (r, db')"
  shows "persona_step db db'"
proof (cases "add_version (ps_id p) 1 (ps_text p) now db")
  case None
  then show ?thesis using assms by (auto simp: create_persona_def Let_def intro: persona_step.intros split: if_splits)
next
  case (Some y)
  obtain vid db1 where y: "y = (vid, db1)" by (cases y)
  let ?p = "\<lparr>pr_id = ps_id p, pr_name = ps_name p, pr_description = ps_description p, pr_current = vid,
      pr_owner = (if ps_owner p = [] then None else Some (ps_owner p)), pr_created = now, pr_updated = now\<rparr>"
  have m: "persona_step db (db1\<lparr>pd_rows := pd_rows db @ [?p]\<rparr>)"
    if "\<not> has_row pr_id (ps_id p) (pd_rows db)" "\<not> name_conflict (ps_id p) (pr_owner ?p) (ps_name p) db"
    using made [of ?p db "ps_text p" now db1] that Some y by simp
  show ?thesis using assms Some y m by (auto simp: create_persona_def Let_def intro: persona_step.intros split: if_splits)
qed

lemma find_persona:
  assumes "persona_wf db"
  shows "List.find (\<lambda>(p, v). pr_id p = i) (joined db) = map_option (\<lambda>p. (p, last (versions_of db i))) (lookup_row pr_id i (pd_rows db))"
proof (cases "lookup_row pr_id i (pd_rows db)")
  case (Some p)
  then have "pr_id p = i" using lookup_row_SomeD by fast
  then show ?thesis using Some find_joined [OF assms, of "\<lambda>p. pr_id p = i"] by (simp add: lookup_row_def)
qed (use find_joined [OF assms, of "\<lambda>p. pr_id p = i"] in \<open>simp add: lookup_row_def\<close>)

lemma get_persona_wf:
  "persona_wf db \<Longrightarrow> get_persona ok i db =
     (if \<not> ok then Inl (PersonaFailed ''personas.Get'')
      else case lookup_row pr_id i (pd_rows db) of None \<Rightarrow> Inl PersonaNotFound
        | Some p \<Rightarrow> Inr (scan_persona p (last (versions_of db i))))"
  by (simp add: get_persona_def find_persona split: option.split)

text \<open>What an update does, and a rollback.\<close>

lemma update_cases:
  assumes "update_persona pg now i req db = (r, db')" "persona_wf db"
  obtains e where "r = Inl e" "db' = db \<or> db' = draw_id db"
  | p where "lookup_row pr_id i (pd_rows db) = Some p" "r = Inr (scan_persona
        (p\<lparr>pr_name := (case pc_name req of None \<Rightarrow> pr_name p | Some s \<Rightarrow> s),
           pr_description := (case pc_description req of None \<Rightarrow> pr_description p | Some s \<Rightarrow> s), pr_owner := None, pr_updated := now\<rparr>)
        (last (versions_of db i)))"
      "pc_text req = None \<or> pc_text req = Some (vr_text (last (versions_of db i)))"
      "db' = write_row i (\<lambda>r. r\<lparr>pr_name := (case pc_name req of None \<Rightarrow> pr_name p | Some s \<Rightarrow> s),
         pr_description := (case pc_description req of None \<Rightarrow> pr_description p | Some s \<Rightarrow> s), pr_updated := now\<rparr>) db"
      "\<not> name_conflict i (pr_owner p) (case pc_name req of None \<Rightarrow> pr_name p | Some s \<Rightarrow> s) db"
  | p t v db1 where "lookup_row pr_id i (pd_rows db) = Some p" "pc_text req = Some t" "t \<noteq> vr_text (last (versions_of db i))"
      "add_version i (length (versions_of db i) + 1) t now db = Some (vr_id v, db1)" "versions_of db1 i = versions_of db i @ [v]"
      "vr_text v = t" "vr_number v = length (versions_of db i) + 1"
      "r = Inr (scan_persona
        (p\<lparr>pr_name := (case pc_name req of None \<Rightarrow> pr_name p | Some s \<Rightarrow> s),
           pr_description := (case pc_description req of None \<Rightarrow> pr_description p | Some s \<Rightarrow> s), pr_owner := None, pr_updated := now\<rparr>) v)"
      "db' = write_row i (\<lambda>r. r\<lparr>pr_current := vr_id v, pr_name := (case pc_name req of None \<Rightarrow> pr_name p | Some s \<Rightarrow> s),
         pr_description := (case pc_description req of None \<Rightarrow> pr_description p | Some s \<Rightarrow> s), pr_updated := now\<rparr>) db1"
      "\<not> name_conflict i (pr_owner p) (case pc_name req of None \<Rightarrow> pr_name p | Some s \<Rightarrow> s) db"
proof -
  show ?thesis
  proof (cases "lookup_row pr_id i (pd_rows db)")
    case None
    then show ?thesis using assms that(1) by (auto simp: update_persona_def find_persona split: if_splits)
  next
    case (Some p)
    then have p: "p \<in> set (pd_rows db)" "pr_id p = i" using lookup_row_SomeD by metis+
    have n: "vr_number (last (versions_of db i)) = length (versions_of db i)" using last_number [OF assms(2) p(1)] p(2) by simp
    define t where "t = (case pc_text req of None \<Rightarrow> vr_text (last (versions_of db i)) | Some s \<Rightarrow> s)"
    show ?thesis
    proof (cases "t = vr_text (last (versions_of db i))")
      case True
      then have "pc_text req = None \<or> pc_text req = Some (vr_text (last (versions_of db i)))" by (auto simp: t_def split: option.splits)
      moreover have "(\<exists>e. r = Inl e) \<and> (db' = db \<or> db' = draw_id db) \<or>
          r = Inr (scan_persona (p\<lparr>pr_name := (case pc_name req of None \<Rightarrow> pr_name p | Some s \<Rightarrow> s), pr_description := (case pc_description req of None \<Rightarrow> pr_description p | Some s \<Rightarrow> s), pr_owner := None, pr_updated := now\<rparr>) (last (versions_of db i))) \<and>
          db' = write_row i (\<lambda>r. r\<lparr>pr_name := (case pc_name req of None \<Rightarrow> pr_name p | Some s \<Rightarrow> s), pr_description := (case pc_description req of None \<Rightarrow> pr_description p | Some s \<Rightarrow> s), pr_updated := now\<rparr>) db \<and>
          \<not> name_conflict i (pr_owner p) (case pc_name req of None \<Rightarrow> pr_name p | Some s \<Rightarrow> s) db"
        using assms(1) True unfolding update_persona_def find_persona [OF assms(2)] Some
        by (auto simp: t_def [symmetric] p(2) scan_persona_def Let_def split: if_splits)
      ultimately show ?thesis using that(1) that(2) [OF Some] by fastforce
    next
      case False
      then have tx: "pc_text req = Some t" by (auto simp: t_def split: option.splits)
      show ?thesis
      proof (cases "add_version i (length (versions_of db i) + 1) t now db")
        case None
        then show ?thesis using assms Some False n tx that(1) by (auto simp: update_persona_def find_persona Let_def split: if_splits)
      next
        case add: (Some y)
        obtain vid db1 where y: "y = (vid, db1)" by (cases y)
        let ?v = "\<lparr>vr_id = pd_next db, vr_persona = i, vr_number = length (versions_of db i) + 1, vr_text = t, vr_created = now\<rparr>"
        have v: "vid = vr_id ?v" "versions_of db1 i = versions_of db i @ [?v]"
          using add_version_fields [OF add [unfolded y]] by (simp_all add: versions_of_append)
        have "(\<exists>e. r = Inl e) \<and> (db' = db \<or> db' = draw_id db) \<or>
            r = Inr (scan_persona (p\<lparr>pr_name := (case pc_name req of None \<Rightarrow> pr_name p | Some s \<Rightarrow> s), pr_description := (case pc_description req of None \<Rightarrow> pr_description p | Some s \<Rightarrow> s), pr_owner := None, pr_updated := now\<rparr>) ?v) \<and>
            db' = write_row i (\<lambda>r. r\<lparr>pr_current := vr_id ?v, pr_name := (case pc_name req of None \<Rightarrow> pr_name p | Some s \<Rightarrow> s), pr_description := (case pc_description req of None \<Rightarrow> pr_description p | Some s \<Rightarrow> s), pr_updated := now\<rparr>) db1 \<and>
            \<not> name_conflict i (pr_owner p) (case pc_name req of None \<Rightarrow> pr_name p | Some s \<Rightarrow> s) db"
          using assms(1) False v(1) unfolding update_persona_def find_persona [OF assms(2)] Some
          by (auto simp: n tx add [unfolded y, simplified] p(2) scan_persona_def Let_def split: if_splits)
        then show ?thesis
          using that(1) that(3) [OF Some tx False, of ?v db1] add y v by fastforce
      qed
    qed
  qed
qed

lemma rollback_cases:
  assumes "rollback_persona pg now i n db = (r, db')" "persona_wf db"
  obtains e where "r = Inl e" "db' = db \<or> db' = draw_id db"
  | p v source db1 where "lookup_row pr_id i (pd_rows db) = Some p" "source \<in> set (versions_of db i)" "int (vr_number source) = n"
      "add_version i (length (versions_of db i) + 1) (vr_text source) now db = Some (vr_id v, db1)" "versions_of db1 i = versions_of db i @ [v]"
      "vr_text v = vr_text source" "vr_number v = length (versions_of db i) + 1"
      "db' = write_row i (\<lambda>r. r\<lparr>pr_current := vr_id v, pr_updated := now\<rparr>) db1" "r = get_persona (pg 6) i db'"
proof (cases "List.find (\<lambda>v. int (vr_number v) = n) (versions_of db i)")
  case None
  then show ?thesis using assms that(1) by (auto simp: rollback_persona_def get_version_def split: if_splits)
next
  case source: (Some source)
  then have s: "source \<in> set (versions_of db i)" "int (vr_number source) = n" using find_Some_iff_first by fastforce+
  show ?thesis
  proof (cases "lookup_row pr_id i (pd_rows db)")
    case None
    then show ?thesis using assms source that(1) by (auto simp: rollback_persona_def get_version_def find_persona split: if_splits)
  next
    case (Some p)
    then have p: "p \<in> set (pd_rows db)" "pr_id p = i" using lookup_row_SomeD by metis+
    have n: "vr_number (last (versions_of db i)) = length (versions_of db i)" using last_number [OF assms(2) p(1)] p(2) by simp
    show ?thesis
    proof (cases "add_version i (length (versions_of db i) + 1) (vr_text source) now db")
      case None
      then show ?thesis using assms Some source n that(1) by (auto simp: rollback_persona_def get_version_def find_persona split: if_splits)
    next
      case add: (Some y)
      obtain vid db1 where y: "y = (vid, db1)" by (cases y)
      let ?v = "\<lparr>vr_id = pd_next db, vr_persona = i, vr_number = length (versions_of db i) + 1, vr_text = vr_text source, vr_created = now\<rparr>"
      have v: "vid = vr_id ?v" "versions_of db1 i = versions_of db i @ [?v]"
        using add_version_fields [OF add [unfolded y]] by (simp_all add: versions_of_append)
      have "(\<exists>e. r = Inl e) \<and> (db' = db \<or> db' = draw_id db) \<or>
          db' = write_row i (\<lambda>r. r\<lparr>pr_current := vr_id ?v, pr_updated := now\<rparr>) db1 \<and> r = get_persona (pg 6) i db'"
        using assms(1) v(1) unfolding rollback_persona_def get_version_def find_persona [OF assms(2)] Some source
        by (auto simp: n add [unfolded y, simplified] Let_def split: if_splits)
      then show ?thesis using that(1) that(2) [OF Some s, of ?v db1] add y v by fastforce
    qed
  qed
qed

lemma write_row_cong:
  assumes "persona_wf db" "lookup_row pr_id i (pd_rows db) = Some p" "f p = g p" "pd_rows db1 = pd_rows db"
  shows "write_row i f db1 = write_row i g db1"
proof -
  have p: "p \<in> set (pd_rows db)" "pr_id p = i" using lookup_row_SomeD [OF assms(2)] by simp_all
  have "f r = g r" if "r \<in> set (pd_rows db)" "pr_id r = i" for r
    using distinct_map_unique [OF persona_wfD(1) [OF assms(1)] that(1) p(1)] p(2) that(2) assms(3) by simp
  then have "update_where (\<lambda>p. pr_id p = i) f (pd_rows db) = update_where (\<lambda>p. pr_id p = i) g (pd_rows db)"
    by (auto simp: update_where_def)
  then show ?thesis by (simp add: write_row_def assms(4))
qed

lemma own_name_free:
  assumes "persona_wf db" "p \<in> set (pd_rows db)"
  shows "\<not> name_conflict (pr_id p) (pr_owner p) (pr_name p) db"
proof
  assume "name_conflict (pr_id p) (pr_owner p) (pr_name p) db"
  then obtain q where "q \<in> set (pd_rows db)" "pr_id q \<noteq> pr_id p" "pr_owner p = None" "pr_owner q = None" "pr_name p = pr_name q"
    by (auto simp: name_conflict_def list_ex_iff)
  then show False using persona_wfD(8) [OF assms, of q] by simp
qed

lemma update_step: "update_persona pg now i req db = (r, db') \<Longrightarrow> persona_wf db \<Longrightarrow> persona_step db db'"
proof (erule (1) update_cases)
  fix e assume "db' = db \<or> db' = draw_id db"
  then show ?thesis by (auto intro: persona_step.intros)
next
  fix p assume "lookup_row pr_id i (pd_rows db) = Some p" and nc: "\<not> name_conflict i (pr_owner p) (case pc_name req of None \<Rightarrow> pr_name p | Some s \<Rightarrow> s) db"
    and db': "db' = write_row i (\<lambda>r. r\<lparr>pr_name := (case pc_name req of None \<Rightarrow> pr_name p | Some s \<Rightarrow> s),
         pr_description := (case pc_description req of None \<Rightarrow> pr_description p | Some s \<Rightarrow> s), pr_updated := now\<rparr>) db"
  then have "p \<in> set (pd_rows db)" "pr_id p = i" using lookup_row_SomeD by metis+
  then show ?thesis unfolding db' using touched nc by blast
next
  fix p t v db1 assume "lookup_row pr_id i (pd_rows db) = Some p" and nc: "\<not> name_conflict i (pr_owner p) (case pc_name req of None \<Rightarrow> pr_name p | Some s \<Rightarrow> s) db"
    and db': "db' = write_row i (\<lambda>r. r\<lparr>pr_current := vr_id v, pr_name := (case pc_name req of None \<Rightarrow> pr_name p | Some s \<Rightarrow> s),
         pr_description := (case pc_description req of None \<Rightarrow> pr_description p | Some s \<Rightarrow> s), pr_updated := now\<rparr>) db1"
    and v: "add_version i (length (versions_of db i) + 1) t now db = Some (vr_id v, db1)"
  then have "p \<in> set (pd_rows db)" "pr_id p = i" using lookup_row_SomeD by metis+
  then show ?thesis unfolding db' using extended [of p db] nc v by blast
qed

lemma rollback_step: "rollback_persona pg now i n db = (r, db') \<Longrightarrow> persona_wf db \<Longrightarrow> persona_step db db'"
proof (erule (1) rollback_cases)
  fix e assume "db' = db \<or> db' = draw_id db"
  then show ?thesis by (auto intro: persona_step.intros)
next
  fix p v source db1
  assume wf: "persona_wf db" and l: "lookup_row pr_id i (pd_rows db) = Some p" and db': "db' = write_row i (\<lambda>r. r\<lparr>pr_current := vr_id v, pr_updated := now\<rparr>) db1"
    and v: "add_version i (length (versions_of db i) + 1) (vr_text source) now db = Some (vr_id v, db1)"
  have p: "p \<in> set (pd_rows db)" "pr_id p = i" using lookup_row_SomeD [OF l] by simp_all
  have "db' = write_row i (\<lambda>r. r\<lparr>pr_current := vr_id v, pr_name := pr_name p, pr_description := pr_description p, pr_updated := now\<rparr>) db1"
    unfolding db' using add_version_fields [OF v] by (intro write_row_cong [OF wf l]) simp_all
  then show ?thesis using extended [of p db "pr_name p"] own_name_free [OF wf p(1)] p v by metis
qed

section \<open>Calls of the service\<close>

datatype persona_op =
    CreatePersona persona_env create_persona_request
  | UpdatePersona persona_env string persona_change
  | RollbackPersona persona_env string int
  | OwnPersona persona_env string string persona_change
  | DropOwned persona_env string string
  | DeletePersona persona_env "(string \<times> string) list" string

definition succeeded :: "'e + 'a \<Rightarrow> bool" where
  "succeeded r \<longleftrightarrow> (case r of Inl _ \<Rightarrow> False | Inr _ \<Rightarrow> True)"

fun exec_persona :: "persona_op \<Rightarrow> persona_world \<Rightarrow> bool \<times> persona_world" where
  "exec_persona (CreatePersona e req) w = map_prod succeeded id (add_persona e req w)"
| "exec_persona (UpdatePersona e i req) w = map_prod succeeded id (change_persona e i req w)"
| "exec_persona (RollbackPersona e i n) w = map_prod succeeded id (revert_persona e i n w)"
| "exec_persona (OwnPersona e agent fallback req) w = map_prod succeeded id (ensure_owned e agent fallback req w)"
| "exec_persona (DropOwned e i agent) w = map_prod succeeded id (delete_owned e i agent w)"
| "exec_persona (DeletePersona e agents i) w = map_prod succeeded id (remove_persona e agents i w)"

fun run_personas :: "persona_op list \<Rightarrow> persona_world \<Rightarrow> persona_world" where
  "run_personas [] w = w"
| "run_personas (op # ops) w = run_personas ops (snd (exec_persona op w))"

fun deletes :: "persona_op \<Rightarrow> string option" where
  "deletes (DropOwned e i agent) = Some i"
| "deletes (DeletePersona e agents i) = Some i"
| "deletes _ = None"

text \<open>The ConfigMap of a persona that exists holds its current text.\<close>

definition rendered :: "persona_world \<Rightarrow> string \<Rightarrow> bool" where
  "rendered w i \<longleftrightarrow>
     (case get_persona True i (pw_db w) of
        Inl _ \<Rightarrow> True
      | Inr p \<Rightarrow> (\<exists>cm. map_of (pw_maps w) (persona_config_map i) = Some cm \<and> map_of (cm_data cm) ''persona.md'' = Some (ps_text p)))"

text \<open>Two states that differ at most at one persona.\<close>

definition apart :: "string \<Rightarrow> persona_world \<Rightarrow> persona_world \<Rightarrow> bool" where
  "apart j w w' \<longleftrightarrow>
     (\<forall>i. i \<noteq> j \<longrightarrow> lookup_row pr_id i (pd_rows (pw_db w')) = lookup_row pr_id i (pd_rows (pw_db w)) \<and>
        versions_of (pw_db w') i = versions_of (pw_db w) i \<and>
        map_of (pw_maps w') (persona_config_map i) = map_of (pw_maps w) (persona_config_map i))"

definition db_apart :: "string \<Rightarrow> persona_db \<Rightarrow> persona_db \<Rightarrow> bool" where
  "db_apart j db db' \<longleftrightarrow>
     (\<forall>i. i \<noteq> j \<longrightarrow> lookup_row pr_id i (pd_rows db') = lookup_row pr_id i (pd_rows db) \<and> versions_of db' i = versions_of db i)"

lemma config_map_name [simp]: "persona_config_map i = persona_config_map j \<longleftrightarrow> i = j"
  by (simp add: persona_config_map_def)

lemma apart_rendered:
  "apart j w w' \<Longrightarrow> persona_wf (pw_db w) \<Longrightarrow> persona_wf (pw_db w') \<Longrightarrow> i \<noteq> j \<Longrightarrow> rendered w' i = rendered w i"
  by (auto simp: rendered_def get_persona_wf apart_def split: option.split)

lemma db_apart_simps [simp]: "db_apart j db db" "db_apart j db (draw_id db)"
  by (simp_all add: db_apart_def)

lemma db_apart_trans: "db_apart j a b \<Longrightarrow> db_apart j b c \<Longrightarrow> db_apart j a c"
  by (simp add: db_apart_def)

lemma db_apart_write:
  assumes "\<And>r. pr_id (f r) = pr_id r"
  shows "db_apart i db (write_row i f db)"
  by (simp add: db_apart_def lookup_row_update [where key = pr_id and f = f, OF assms])

lemma db_apart_version: "add_version i n t now db = Some (vid, db') \<Longrightarrow> db_apart i db db'"
  by (auto simp: db_apart_def versions_of_append dest!: add_version_fields)

lemma filter_other: "j \<noteq> i \<Longrightarrow> filter (\<lambda>v. vr_persona v = j) (filter (\<lambda>v. vr_persona v \<noteq> i) vs) = filter (\<lambda>v. vr_persona v = j) vs"
  by (induction vs) auto

lemma db_apart_delete: "delete_persona ok i db = (r, db') \<Longrightarrow> db_apart i db db'"
  by (auto simp: delete_persona_def db_apart_def lookup_row_delete versions_of_def filter_other simp del: filter_filter split: if_splits)

lemma db_apart_create: "create_persona pg now p db = (r, db') \<Longrightarrow> db_apart (ps_id p) db db'"
  by (auto simp: create_persona_def db_apart_def Let_def sql_simps versions_of_append
      split: if_splits option.splits prod.splits dest!: add_version_fields)

lemma db_apart_update: "update_persona pg now i req db = (r, db') \<Longrightarrow> persona_wf db \<Longrightarrow> db_apart i db db'"
  by (erule (1) update_cases) (auto intro: db_apart_write db_apart_trans [OF db_apart_version db_apart_write])

lemma db_apart_rollback: "rollback_persona pg now i n db = (r, db') \<Longrightarrow> persona_wf db \<Longrightarrow> db_apart i db db'"
  by (erule (1) rollback_cases) (auto intro: db_apart_write db_apart_trans [OF db_apart_version db_apart_write])

lemma ensure_map_result:
  assumes "ensure_map got put p m = (r, m')"
  shows "i \<noteq> ps_id p \<Longrightarrow> map_of m' (persona_config_map i) = map_of m (persona_config_map i)"
    "succeeded r \<Longrightarrow> \<exists>cm. map_of m' (persona_config_map (ps_id p)) = Some cm \<and> map_of (cm_data cm) ''persona.md'' = Some (ps_text p)"
  using assms by (auto simp: ensure_map_def Let_def succeeded_def render_persona_def split: if_splits option.splits)

text \<open>The current text of a persona after a successful change is the one that was answered.\<close>

definition tells :: "string \<Rightarrow> persona_error + persona \<Rightarrow> persona_db \<Rightarrow> bool" where
  "tells i r db \<longleftrightarrow> (case r of Inl _ \<Rightarrow> True
     | Inr p \<Rightarrow> ps_id p = i \<and> (\<exists>q. get_persona True i db = Inr q \<and> ps_text q = ps_text p \<and> ps_version q = ps_version p))"

lemma get_persona_ok: "get_persona ok i db = Inr p \<Longrightarrow> get_persona True i db = Inr p"
  by (auto simp: get_persona_def split: if_splits)

lemma get_persona_id: "get_persona ok i db = Inr p \<Longrightarrow> ps_id p = i"
  using find_Some_iff_first [of "\<lambda>(p, v). pr_id p = i" "joined db"]
  by (auto simp: get_persona_def scan_persona_def split: if_splits option.splits prod.splits)

lemma create_tells:
  assumes "create_persona pg now p db = (r, db')" "persona_wf db"
  shows "tells (ps_id p) r db'"
proof (cases r)
  case (Inr p')
  have wf: "persona_wf db'" using persona_step_wf [OF create_step [OF assms(1)] assms(2)] .
  obtain vid db1 where a: "add_version (ps_id p) 1 (ps_text p) now db = Some (vid, db1)" "\<not> has_row pr_id (ps_id p) (pd_rows db)"
    and e: "p' = p\<lparr>ps_version := 1, ps_created := now, ps_updated := now\<rparr>"
      "db' = db1\<lparr>pd_rows := pd_rows db @ [\<lparr>pr_id = ps_id p, pr_name = ps_name p, pr_description = ps_description p, pr_current = vid,
      pr_owner = (if ps_owner p = [] then None else Some (ps_owner p)), pr_created = now, pr_updated = now\<rparr>]\<rparr>"
    using assms(1) Inr by (auto simp: create_persona_def Let_def split: if_splits option.splits)
  have v: "versions_of db' (ps_id p) =
      [\<lparr>vr_id = pd_next db, vr_persona = ps_id p, vr_number = 1, vr_text = ps_text p, vr_created = now\<rparr>]"
    using add_version_fields [OF a(1)] no_versions [OF assms(2) a(2)] by (simp add: e(2) versions_of_def)
  have "lookup_row pr_id (ps_id p) (pd_rows db) = None" using a(2) by (simp add: has_row_iff)
  then have "lookup_row pr_id (ps_id p) (pd_rows db') = Some (last (pd_rows db'))" by (simp add: e(2) sql_simps)
  then show ?thesis using Inr by (simp add: tells_def get_persona_wf [OF wf] v e(1) scan_persona_def)
qed (simp add: tells_def)

lemma lookup_written:
  assumes "lookup_row pr_id i (pd_rows db) = Some p" "pd_rows db1 = pd_rows db" "\<And>r. pr_id (f r) = pr_id r"
  shows "lookup_row pr_id i (pd_rows (write_row i f db1)) = Some (f p)"
  by (simp add: assms(1,2) lookup_row_update [where key = pr_id and f = f, OF assms(3)])

lemma tells_by:
  assumes "persona_wf db" "lookup_row pr_id i (pd_rows db) = Some p" "last (versions_of db i) = v"
    and "ps_id q = i" "ps_text q = vr_text v" "ps_version q = vr_number v"
  shows "tells i (Inr q) db"
  using assms by (simp add: tells_def get_persona_wf scan_persona_def)

lemma update_tells:
  assumes "update_persona pg now i req db = (r, db')" "persona_wf db"
  shows "tells i r db'"
proof -
  have wf: "persona_wf db'" using persona_step_wf [OF update_step [OF assms] assms(2)] .
  from assms show ?thesis
  proof (cases rule: update_cases)
    case (1 e)
    then show ?thesis by (simp add: tells_def)
  next
    case (2 p)
    have p: "pr_id p = i" using lookup_row_SomeD [OF 2(1)] by simp
    show ?thesis
      unfolding 2(2)
      by (rule tells_by [OF wf], subst 2(4), rule lookup_written [OF 2(1) refl]) (simp_all add: 2(4) p scan_persona_def)
  next
    case (3 p t v db1)
    have p: "pr_id p = i" using lookup_row_SomeD [OF 3(1)] by simp
    have rows: "pd_rows db1 = pd_rows db" using add_version_fields [OF 3(4)] by simp
    show ?thesis
      unfolding 3(8)
      by (rule tells_by [OF wf], subst 3(9), rule lookup_written [OF 3(1) rows]) (simp_all add: 3(5,9) p scan_persona_def)
  qed
qed

lemma rollback_tells: "rollback_persona pg now i n db = (r, db') \<Longrightarrow> persona_wf db \<Longrightarrow> tells i r db'"
  by (erule (1) rollback_cases) (auto simp: tells_def split: sum.split dest: get_persona_ok get_persona_id)

text \<open>What one call does to the two stores.\<close>

definition orderly :: "(persona_error + 'a) \<times> persona_world \<Rightarrow> persona_world \<Rightarrow> bool" where
  "orderly x w \<longleftrightarrow> persona_wf (pw_db (snd x)) \<and> (\<exists>j. apart j w (snd x) \<and> (succeeded (fst x) \<longrightarrow> snd x = w \<or> rendered (snd x) j))"

lemma orderly_same [simp]: "persona_wf (pw_db w) \<Longrightarrow> orderly (r, w) w"
  by (auto simp: orderly_def apart_def)

lemma rendered_reply_orderly:
  assumes "persona_wf db" "tells i r db" "db_apart i (pw_db w) db"
  shows "orderly (rendered_reply e (r, db) w) w"
proof (cases r)
  case (Inl err)
  then show ?thesis using assms by (auto simp: rendered_reply_def orderly_def apart_def db_apart_def succeeded_def)
next
  case (Inr p)
  obtain s m where m: "ensure_map (pe_got e) (pe_put e) p (pw_maps w) = (s, m)" by fastforce
  obtain q where i: "ps_id p = i" "get_persona True i db = Inr q" "ps_text q = ps_text p" using assms(2) Inr by (auto simp: tells_def)
  have a: "apart i w \<lparr>pw_db = db, pw_maps = m\<rparr>"
    using assms(3) ensure_map_result(1) [OF m] i(1) by (simp add: apart_def db_apart_def)
  have "rendered \<lparr>pw_db = db, pw_maps = m\<rparr> i" if "succeeded s"
    using ensure_map_result(2) [OF m that] i by (simp add: rendered_def)
  then show ?thesis using a assms(1) Inr m
    by (cases s) (auto simp: rendered_reply_def orderly_def succeeded_def)
qed

lemma change_persona_orderly: "persona_wf (pw_db w) \<Longrightarrow> orderly (change_persona e i req w) w"
  unfolding change_persona_def
  by (cases "update_persona (pe_pg e) (pe_now e) i req (pw_db w)")
     (auto split: option.split intro!: rendered_reply_orderly dest: update_tells db_apart_update persona_step_wf [OF update_step])

lemma revert_persona_orderly: "persona_wf (pw_db w) \<Longrightarrow> orderly (revert_persona e i n w) w"
  unfolding revert_persona_def
  by (cases "rollback_persona (pe_pg e) (pe_now e) i n (pw_db w)")
     (auto intro!: rendered_reply_orderly dest: rollback_tells db_apart_rollback persona_step_wf [OF rollback_step])

lemma delete_db:
  "delete_persona ok i db = (r, db') \<Longrightarrow> persona_wf db \<Longrightarrow> persona_wf db' \<and> (succeeded r \<longrightarrow> lookup_row pr_id i (pd_rows db') = None) \<and>
     (\<forall>v \<in> set (pd_versions db). vr_persona v \<noteq> i \<longrightarrow> v \<in> set (pd_versions db'))"
  using dropped_wf [of db i] by (auto simp: delete_persona_def succeeded_def sql_simps split: if_splits)

lemma drop_map_result: "drop_map put i m = (r, m') \<Longrightarrow> j \<noteq> i \<Longrightarrow> map_of m' (persona_config_map j) = map_of m (persona_config_map j)"
  by (auto simp: drop_map_def split: if_splits)

lemma delete_rendered_orderly:
  assumes "persona_wf (pw_db w)"
  shows "orderly (delete_rendered e b i w) w"
proof -
  obtain r db where d: "delete_persona (pe_pg e 0) i (pw_db w) = (r, db)" by fastforce
  obtain s m where m: "drop_map (pe_put e) i (pw_maps w) = (s, m)" by fastforce
  note D = delete_db [OF d assms] db_apart_delete [OF d]
  show ?thesis
  proof (cases r)
    case (Inl err)
    then have "db = pw_db w" using d by (auto simp: delete_persona_def split: if_splits)
    then show ?thesis using Inl d assms by (auto simp: delete_rendered_def)
  next
    case (Inr u)
    then have "rendered \<lparr>pw_db = db, pw_maps = m\<rparr> i" using D by (simp add: rendered_def get_persona_wf succeeded_def)
    moreover have "apart i w \<lparr>pw_db = db, pw_maps = m\<rparr>" using D(2) drop_map_result [OF m] by (simp add: apart_def db_apart_def)
    ultimately show ?thesis using Inr d m D(1) by (auto simp: delete_rendered_def orderly_def split: sum.split)
  qed
qed

lemma deletions_orderly:
  assumes "persona_wf (pw_db w)"
  shows "orderly (delete_owned e i agent w) w" "orderly (remove_persona e agents i w) w"
  using assms delete_rendered_orderly [OF assms] by (simp_all add: delete_owned_def remove_persona_def split: sum.split)

lemma add_persona_orderly:
  assumes "persona_wf (pw_db w)"
  shows "orderly (add_persona e req w) w"
proof -
  let ?p = "\<lparr>ps_id = pe_id e, ps_name = cp_name req, ps_description = cp_description req, ps_version = 0, ps_text = cp_text req,
      ps_owner = cp_owner req, ps_created = 0, ps_updated = 0\<rparr>"
  obtain r db where c: "create_persona (pe_pg e) (pe_now e) ?p (pw_db w) = (r, db)" by fastforce
  have wf: "persona_wf db" using persona_step_wf [OF create_step [OF c] assms] .
  have a: "db_apart (pe_id e) (pw_db w) db" using db_apart_create [OF c] by simp
  have tells: "tells (pe_id e) r db" using create_tells [OF c assms] by simp
  have render: "orderly (rendered_reply e (r, db) w) w" by (rule rendered_reply_orderly [OF wf tells a])
  show ?thesis
  proof (cases "first_problem [validate_name (cp_name req), validate_description (cp_description req), validate_text (cp_text req)]")
    case (Some err)
    then show ?thesis using assms by (simp add: add_persona_def)
  next
    case ok: None
    show ?thesis
    proof (cases r)
      case (Inl err)
      then show ?thesis using render c ok by (simp add: add_persona_def rendered_reply_def)
    next
      case (Inr p)
      obtain s m where m: "ensure_map (pe_got e) (pe_put e) p (pw_maps w) = (s, m)" by fastforce
      have i: "ps_id p = pe_id e" using tells Inr by (simp add: tells_def)
      show ?thesis
      proof (cases s)
        case Inr
        then show ?thesis using render c ok \<open>r = Inr p\<close> m by (simp add: add_persona_def rendered_reply_def)
      next
        case Inl
        obtain x db2 where d: "delete_persona (pe_undo e) (pe_id e) db = (x, db2)" by fastforce
        have "apart (pe_id e) w \<lparr>pw_db = db2, pw_maps = m\<rparr>"
          using db_apart_trans [OF a db_apart_delete [OF d]] ensure_map_result(1) [OF m] i by (simp add: apart_def db_apart_def)
        then show ?thesis using delete_db [OF d wf] c ok \<open>r = Inr p\<close> m Inl d i
          by (auto simp: add_persona_def orderly_def succeeded_def)
      qed
    qed
  qed
qed

lemma ensure_owned_orderly: "persona_wf (pw_db w) \<Longrightarrow> orderly (ensure_owned e agent fallback req w) w"
  by (simp add: ensure_owned_def add_persona_orderly change_persona_orderly split: option.split sum.split)

lemma exec_persona_orderly:
  assumes "persona_wf (pw_db w)" "exec_persona op w = (ok, w')"
  shows "persona_wf (pw_db w')" "\<exists>j. apart j w w' \<and> (ok \<longrightarrow> w' = w \<or> rendered w' j)"
proof -
  have o: "succeeded r = ok \<Longrightarrow> orderly (r, w') w \<Longrightarrow> persona_wf (pw_db w') \<and> (\<exists>j. apart j w w' \<and> (ok \<longrightarrow> w' = w \<or> rendered w' j))"
    for r :: "persona_error + persona"
    by (auto simp: orderly_def)
  have o': "succeeded r = ok \<Longrightarrow> orderly (r, w') w \<Longrightarrow> persona_wf (pw_db w') \<and> (\<exists>j. apart j w w' \<and> (ok \<longrightarrow> w' = w \<or> rendered w' j))"
    for r :: "persona_error + unit"
    by (auto simp: orderly_def)
  have "persona_wf (pw_db w') \<and> (\<exists>j. apart j w w' \<and> (ok \<longrightarrow> w' = w \<or> rendered w' j))"
  proof (cases op)
    case (CreatePersona e req)
    then show ?thesis using assms(2) add_persona_orderly [OF assms(1), of e req]
      by (cases "add_persona e req w") (simp add: o)
  next
    case (UpdatePersona e i req)
    then show ?thesis using assms(2) change_persona_orderly [OF assms(1), of e i req]
      by (cases "change_persona e i req w") (simp add: o)
  next
    case (RollbackPersona e i n)
    then show ?thesis using assms(2) revert_persona_orderly [OF assms(1), of e i n]
      by (cases "revert_persona e i n w") (simp add: o)
  next
    case (OwnPersona e agent fallback req)
    then show ?thesis using assms(2) ensure_owned_orderly [OF assms(1), of e agent fallback req]
      by (cases "ensure_owned e agent fallback req w") (simp add: o)
  next
    case (DropOwned e i agent)
    then show ?thesis using assms(2) deletions_orderly(1) [OF assms(1), of e i agent]
      by (cases "delete_owned e i agent w") (simp add: o')
  next
    case (DeletePersona e agents i)
    then show ?thesis using assms(2) deletions_orderly(2) [OF assms(1), of e agents i]
      by (cases "remove_persona e agents i w") (simp add: o')
  qed
  then show "persona_wf (pw_db w')" "\<exists>j. apart j w w' \<and> (ok \<longrightarrow> w' = w \<or> rendered w' j)" by blast+
qed

text \<open>
  C26. The ConfigMaps follow the registry: whatever statements and writes fail, a call of the service concerns one persona at
  most, so the ConfigMap of every other persona that held the current text still does; and a call that succeeds leaves no persona behind whose ConfigMap does
  not hold its current text, if none was before.
\<close>

theorem config_maps_follow_registry:
  assumes "persona_wf (pw_db w)" "exec_persona op w = (ok, w')"
  shows "(\<exists>j. \<forall>i. i \<noteq> j \<longrightarrow> rendered w' i = rendered w i) \<and> (ok \<longrightarrow> (\<forall>i. rendered w i \<longrightarrow> rendered w' i))"
proof -
  obtain j where j: "apart j w w'" "ok \<Longrightarrow> w' = w \<or> rendered w' j" using exec_persona_orderly(2) [OF assms] by blast
  have "rendered w' i = rendered w i" if "i \<noteq> j" for i
    by (rule apart_rendered [OF j(1) assms(1) exec_persona_orderly(1) [OF assms] that])
  then show ?thesis using j(2) by metis
qed

section \<open>The history\<close>

lemma rendered_reply_db [simp]: "pw_db (snd (rendered_reply e x w)) = snd x"
  by (simp add: rendered_reply_def split: prod.split sum.split)

lemma add_persona_keeps:
  assumes "persona_wf (pw_db w)"
  shows "set (pd_versions (pw_db w)) \<subseteq> set (pd_versions (pw_db (snd (add_persona e req w))))"
proof -
  let ?p = "\<lparr>ps_id = pe_id e, ps_name = cp_name req, ps_description = cp_description req, ps_version = 0, ps_text = cp_text req,
      ps_owner = cp_owner req, ps_created = 0, ps_updated = 0\<rparr>"
  obtain r db where c: "create_persona (pe_pg e) (pe_now e) ?p (pw_db w) = (r, db)" by fastforce
  have k: "keeps (pw_db w) db" using persona_step_keeps [OF create_step [OF c] assms] .
  have undone: "v \<in> set (pd_versions (snd (delete_persona ok (pe_id e) db)))" if r: "r = Inr p" and v: "v \<in> set (pd_versions (pw_db w))" for ok p v
  proof -
    have "\<not> has_row pr_id (pe_id e) (pd_rows (pw_db w))" using c r by (auto simp: create_persona_def Let_def split: if_splits option.splits)
    then have "vr_persona v \<noteq> pe_id e" using persona_wfD(4) [OF assms v] by metis
    then show ?thesis
      using k v delete_db [of ok "pe_id e" db] by (cases "delete_persona ok (pe_id e) db") (auto simp: keeps_def)
  qed
  have i: "ps_id p = pe_id e" if "r = Inr p" for p using create_tells [OF c assms] that by (simp add: tells_def)
  show ?thesis
    using c k undone i
    by (auto simp: add_persona_def keeps_def split: option.split sum.split prod.split)
qed

lemma change_persona_keeps:
  "persona_wf (pw_db w) \<Longrightarrow> set (pd_versions (pw_db w)) \<subseteq> set (pd_versions (pw_db (snd (change_persona e i req w))))"
  using persona_step_keeps [OF update_step, of "pe_pg e" "pe_now e" i req "pw_db w"]
  by (cases "update_persona (pe_pg e) (pe_now e) i req (pw_db w)") (auto simp: change_persona_def keeps_def split: option.split)

lemma revert_persona_keeps:
  "persona_wf (pw_db w) \<Longrightarrow> set (pd_versions (pw_db w)) \<subseteq> set (pd_versions (pw_db (snd (revert_persona e i n w))))"
  using persona_step_keeps [OF rollback_step, of "pe_pg e" "pe_now e" i n "pw_db w"]
  by (cases "rollback_persona (pe_pg e) (pe_now e) i n (pw_db w)") (auto simp: revert_persona_def keeps_def)

lemma delete_rendered_keeps:
  assumes "persona_wf (pw_db w)" "v \<in> set (pd_versions (pw_db w))" "vr_persona v \<noteq> i"
  shows "v \<in> set (pd_versions (pw_db (snd (delete_rendered e b i w))))"
  using delete_db [of "pe_pg e 0" i "pw_db w"] assms
  by (cases "delete_persona (pe_pg e 0) i (pw_db w)") (auto simp: delete_rendered_def split: sum.split prod.split)

lemma exec_persona_keeps:
  assumes "persona_wf (pw_db w)" "v \<in> set (pd_versions (pw_db w))" "deletes op \<noteq> Some (vr_persona v)"
  shows "v \<in> set (pd_versions (pw_db (snd (exec_persona op w))))"
proof (cases op)
  case (OwnPersona e agent fallback req)
  have "set (pd_versions (pw_db w)) \<subseteq> set (pd_versions (pw_db (snd (ensure_owned e agent fallback req w))))"
    by (simp add: ensure_owned_def add_persona_keeps change_persona_keeps assms(1) split: option.split sum.split)
  then show ?thesis using assms(2) OwnPersona by auto
next
  case (DropOwned e i agent)
  then show ?thesis using assms delete_rendered_keeps [OF assms(1,2), of i e True] by (simp add: delete_owned_def split: sum.split)
next
  case (DeletePersona e agents i)
  then show ?thesis using assms delete_rendered_keeps [OF assms(1,2), of i e False] by (simp add: remove_persona_def split: sum.split)
qed (use assms add_persona_keeps change_persona_keeps revert_persona_keeps in \<open>simp_all, blast+\<close>)

text \<open>
  C25. The history of a persona is append-only: whatever calls come one after another, and whatever fails in them, the tables keep
  their invariant (every persona has the versions \<open>1, \<dots>, n\<close>, the last of which is its current one, and templates have different names), and
  every version there was is still there, with its number and its text, unless its persona was deleted.
\<close>

theorem persona_history_append_only:
  assumes "persona_wf (pw_db w)"
  shows "persona_wf (pw_db (run_personas ops w)) \<and>
    (\<forall>v \<in> set (pd_versions (pw_db w)). v \<in> set (pd_versions (pw_db (run_personas ops w))) \<or> Some (vr_persona v) \<in> deletes ` set ops)"
  using assms
proof (induction ops arbitrary: w)
  case (Cons op ops)
  let ?w = "snd (exec_persona op w)"
  have wf: "persona_wf (pw_db ?w)" using exec_persona_orderly(1) [OF Cons.prems] by (cases "exec_persona op w") simp
  have "v \<in> set (pd_versions (pw_db ?w)) \<or> Some (vr_persona v) = deletes op" if "v \<in> set (pd_versions (pw_db w))" for v
    using exec_persona_keeps [OF Cons.prems that, of op] by metis
  then show ?case using Cons.IH [OF wf] by auto
qed simp

section \<open>Rollback\<close>

definition calm_persona :: "string \<Rightarrow> instant \<Rightarrow> persona_env" where
  "calm_persona i now = \<lparr>pe_pg = all_ok, pe_lookup = True, pe_undo = True, pe_got = True, pe_put = True, pe_agents = True, pe_id = i, pe_now = now\<rparr>"

lemma calm_ensure: "fst (ensure_map True True p m) = Inr ()"
  by (simp add: ensure_map_def Let_def split: option.split)

lemma found_row:
  assumes "persona_wf db" "get_persona True i db = Inr p"
  obtains r where "r \<in> set (pd_rows db)" "pr_id r = i" "lookup_row pr_id i (pd_rows db) = Some r"
    "ps_text p = vr_text (last (versions_of db i))" "ps_version p = length (versions_of db i)"
proof -
  obtain r where r: "lookup_row pr_id i (pd_rows db) = Some r" "p = scan_persona r (last (versions_of db i))"
    using assms by (auto simp: get_persona_wf split: option.splits)
  then have "r \<in> set (pd_rows db)" "pr_id r = i" using lookup_row_SomeD by metis+
  then show ?thesis using that r last_number [OF assms(1)] by (auto simp: scan_persona_def)
qed

lemma version_numbers:
  assumes "persona_wf db" "r \<in> set (pd_rows db)" "v \<in> set (versions_of db (pr_id r))"
  shows "get_version True (pr_id r) (int (vr_number v)) db = Inr v" "1 \<le> vr_number v" "vr_number v \<le> length (versions_of db (pr_id r))"
proof -
  let ?vs = "versions_of db (pr_id r)"
  have num: "map vr_number ?vs = map Suc [0..<length ?vs]" by (rule persona_wfD(6) [OF assms(1,2)])
  have "distinct (map vr_number ?vs)" unfolding num by (simp add: distinct_map)
  then have "List.find (\<lambda>x. int (vr_number x) = int (vr_number v)) ?vs = Some v"
    using lookup_row_distinct [of vr_number ?vs v] assms(3) by (simp add: lookup_row_def)
  then show "get_version True (pr_id r) (int (vr_number v)) db = Inr v" by (simp add: get_version_def)
  have "vr_number v \<in> set (map vr_number ?vs)" using assms(3) by simp
  then show "1 \<le> vr_number v" "vr_number v \<le> length ?vs" unfolding num by auto
qed

lemma add_version_next:
  assumes "persona_wf db" "r \<in> set (pd_rows db)"
  shows "\<exists>vid db'. add_version (pr_id r) (length (versions_of db (pr_id r)) + 1) t now db = Some (vid, db')"
  using version_numbers(3) [OF assms] by (fastforce simp: add_version_def list_ex_iff)

lemma rollback_once:
  assumes "persona_wf (pw_db w)" "get_persona True i (pw_db w) = Inr p" "get_version True i n (pw_db w) = Inr v"
  shows "\<exists>p' w'. revert_persona (calm_persona x now) i n w = (Inr p', w') \<and> ps_text p' = vr_text v \<and>
    ps_version p' = ps_version p + 1 \<and> rendered w' i \<and> persona_wf (pw_db w') \<and> get_persona True i (pw_db w') = Inr p' \<and>
    set (pd_versions (pw_db w)) \<subseteq> set (pd_versions (pw_db w'))"
proof -
  let ?db = "pw_db w"
  obtain r where r: "r \<in> set (pd_rows ?db)" "pr_id r = i" "lookup_row pr_id i (pd_rows ?db) = Some r" "ps_version p = length (versions_of ?db i)"
    using found_row [OF assms(1,2)] by metis
  obtain vid db1 where a: "add_version i (length (versions_of ?db i) + 1) (vr_text v) now ?db = Some (vid, db1)"
    using add_version_next [OF assms(1) r(1)] r(2) by metis
  let ?db' = "write_row i (\<lambda>r. r\<lparr>pr_current := vid, pr_updated := now\<rparr>) db1"
  have n: "vr_number (last (versions_of ?db i)) = length (versions_of ?db i)" using last_number [OF assms(1) r(1)] r(2) by simp
  have rb: "rollback_persona all_ok now i n ?db = (get_persona True i ?db', ?db')"
    using assms(3) by (simp add: rollback_persona_def find_persona [OF assms(1)] r(3) n a [simplified] Let_def)
  have wf: "persona_wf ?db'" by (rule persona_step_wf [OF rollback_step [OF rb assms(1)] assms(1)])
  have rows: "pd_rows db1 = pd_rows ?db" using add_version_fields [OF a] by simp
  obtain nv where nv: "versions_of db1 i = versions_of ?db i @ [nv]" "vr_text nv = vr_text v" "vr_number nv = length (versions_of ?db i) + 1"
    using add_version_fields [OF a] by (auto simp: versions_of_append)
  have "lookup_row pr_id i (pd_rows ?db') = Some (r\<lparr>pr_current := vid, pr_updated := now\<rparr>)"
    by (rule lookup_written [OF r(3) rows]) simp
  then obtain p' where g: "get_persona True i ?db' = Inr p'" "ps_text p' = vr_text v" "ps_version p' = ps_version p + 1"
    by (simp add: get_persona_wf [OF wf] nv scan_persona_def r(4))
  obtain w' where w': "revert_persona (calm_persona x now) i n w = (Inr p', w')" "pw_db w' = ?db'"
    using calm_ensure [of p' "pw_maps w"] rb g(1)
    by (cases "ensure_map True True p' (pw_maps w)") (simp add: revert_persona_def rendered_reply_def calm_persona_def)
  have "set (pd_versions ?db) \<subseteq> set (pd_versions ?db')" using persona_step_keeps [OF rollback_step [OF rb assms(1)] assms(1)] by (simp add: keeps_def)
  moreover have "rendered w' i"
  proof -
    have o: "orderly (rendered_reply (calm_persona x now) (Inr p', ?db') w) w"
      using rendered_reply_orderly [OF wf _ db_apart_rollback [OF rb assms(1)]] rollback_tells [OF rb assms(1)] g(1) by simp
    obtain m where m: "ensure_map True True p' (pw_maps w) = (Inr (), m)" "w' = \<lparr>pw_db = ?db', pw_maps = m\<rparr>"
      using w'(1) rb g(1) by (auto simp: revert_persona_def rendered_reply_def calm_persona_def split: sum.splits prod.splits)
    show ?thesis using ensure_map_result(2) [OF m(1)] g(1) get_persona_id [OF g(1)] m(2) by (simp add: rendered_def succeeded_def)
  qed
  ultimately show ?thesis using w' g wf by metis
qed

text \<open>
  A rollback can be rolled back: when nothing fails, rolling a persona back to an earlier version makes the text of that version its current one, as
  one more version that the ConfigMap holds, and rolling back to the version that was current before
  brings the old text back. Neither changes a version there was.
\<close>

theorem rollback_round_trip:
  assumes "persona_wf (pw_db w)" "get_persona True i (pw_db w) = Inr p" "get_version True i n (pw_db w) = Inr v"
  shows "\<exists>p1 w1 p2 w2. revert_persona (calm_persona x now) i n w = (Inr p1, w1) \<and>
    ps_text p1 = vr_text v \<and> ps_version p1 = ps_version p + 1 \<and> rendered w1 i \<and>
    revert_persona (calm_persona x later) i (int (ps_version p)) w1 = (Inr p2, w2) \<and>
    ps_text p2 = ps_text p \<and> ps_version p2 = ps_version p + 2 \<and> rendered w2 i \<and>
    set (pd_versions (pw_db w)) \<subseteq> set (pd_versions (pw_db w2))"
proof -
  obtain p1 w1 where one: "revert_persona (calm_persona x now) i n w = (Inr p1, w1)" "ps_text p1 = vr_text v"
      "ps_version p1 = ps_version p + 1" "rendered w1 i" "persona_wf (pw_db w1)" "get_persona True i (pw_db w1) = Inr p1"
      "set (pd_versions (pw_db w)) \<subseteq> set (pd_versions (pw_db w1))"
    using rollback_once [OF assms] by blast
  let ?last = "last (versions_of (pw_db w) i)"
  obtain r where r: "r \<in> set (pd_rows (pw_db w))" "pr_id r = i" "ps_text p = vr_text ?last" "ps_version p = length (versions_of (pw_db w) i)"
    using found_row [OF assms(1,2)] by metis
  have l: "?last \<in> set (versions_of (pw_db w) i)" "vr_number ?last = ps_version p"
    using persona_wfD(5) [OF assms(1) r(1)] last_number [OF assms(1) r(1)] r(2,4) by simp_all
  obtain r1 where r1: "r1 \<in> set (pd_rows (pw_db w1))" "pr_id r1 = i" using found_row [OF one(5,6)] by metis
  have "?last \<in> set (versions_of (pw_db w1) i)" using l(1) one(7) by (auto simp: versions_of_def)
  then have "get_version True i (int (ps_version p)) (pw_db w1) = Inr ?last"
    using version_numbers(1) [OF one(5) r1(1)] r1(2) l(2) by metis
  from rollback_once [OF one(5,6) this, of x later] obtain p2 w2 where
    "revert_persona (calm_persona x later) i (int (ps_version p)) w1 = (Inr p2, w2)" "ps_text p2 = vr_text ?last"
      "ps_version p2 = ps_version p1 + 1" "rendered w2 i" "set (pd_versions (pw_db w1)) \<subseteq> set (pd_versions (pw_db w2))" by blast
  then show ?thesis using one r(3) by (intro exI [of _ p1] exI [of _ w1] exI [of _ p2] exI [of _ w2]) auto
qed

section \<open>Samples\<close>

definition persona_zero :: persona_world where
  "persona_zero = \<lparr>pw_db = \<lparr>pd_rows = [], pd_versions = [], pd_next = 1\<rparr>, pw_maps = []\<rparr>"

definition new_persona :: "string \<Rightarrow> string \<Rightarrow> string \<Rightarrow> create_persona_request" where
  "new_persona name owner t = \<lparr>cp_name = name, cp_group = ''g1'', cp_description = [], cp_text = t, cp_owner = owner\<rparr>"

definition persona_one :: persona_world where
  "persona_one = run_personas [CreatePersona (calm_persona ''p1'' 1) (new_persona ''Reviewer'' [] ''first''),
     UpdatePersona (calm_persona [] 2) ''p1'' \<lparr>pc_name = None, pc_description = None, pc_text = Some ''second''\<rparr>] persona_zero"

lemma persona_zero_wf: "persona_wf (pw_db persona_zero)"
  by (simp add: persona_zero_def persona_wf_empty)

lemma run_personas_wf: "persona_wf (pw_db w) \<Longrightarrow> persona_wf (pw_db (run_personas ops w))"
proof (induction ops arbitrary: w)
  case (Cons op ops)
  then show ?case using exec_persona_orderly(1) [OF Cons.prems, of op] by (cases "exec_persona op w") simp
qed simp

lemma persona_one_wf: "persona_wf (pw_db persona_one)"
  unfolding persona_one_def by (rule run_personas_wf [OF persona_zero_wf])

theorem persona_history_append_only_witness:
  "persona_wf (pw_db (run_personas [RollbackPersona (calm_persona [] 3) ''p1'' 1] persona_one)) \<and>
   set (pd_versions (pw_db persona_one)) \<subseteq> set (pd_versions (pw_db (run_personas [RollbackPersona (calm_persona [] 3) ''p1'' 1] persona_one)))"
  using persona_history_append_only [OF persona_one_wf, of "[RollbackPersona (calm_persona [] 3) ''p1'' 1]"] by auto

theorem config_maps_follow_registry_witness:
  "\<exists>w'. exec_persona (RollbackPersona (calm_persona [] 3) ''p1'' 1) persona_one = (True, w') \<and> {i. rendered persona_one i} \<subseteq> {i. rendered w' i}"
proof -
  let ?x = "exec_persona (RollbackPersona (calm_persona [] 3) ''p1'' 1) persona_one"
  have "fst ?x = True" by code_simp
  then have x: "?x = (True, snd ?x)" by (metis prod.collapse)
  show ?thesis using x config_maps_follow_registry [OF persona_one_wf x] by blast
qed

theorem rollback_round_trip_witness:
  "\<exists>p1 w1 p2 w2. revert_persona (calm_persona [] 3) ''p1'' 1 persona_one = (Inr p1, w1) \<and> ps_text p1 = ''first'' \<and>
     revert_persona (calm_persona [] 4) ''p1'' 2 w1 = (Inr p2, w2) \<and> ps_text p2 = ''second''"
proof -
  have "map_sum id (\<lambda>p. (ps_text p, ps_version p)) (get_persona True ''p1'' (pw_db persona_one)) = Inr (''second'', 2)" by code_simp
  then obtain p where p: "get_persona True ''p1'' (pw_db persona_one) = Inr p" "ps_text p = ''second''" "ps_version p = 2"
    by (auto simp: map_sum_Inr_iff)
  have "map_sum id vr_text (get_version True ''p1'' 1 (pw_db persona_one)) = Inr ''first''" by code_simp
  then obtain v where v: "get_version True ''p1'' 1 (pw_db persona_one) = Inr v" "vr_text v = ''first''" by (auto simp: map_sum_Inr_iff)
  show ?thesis
    using rollback_round_trip [OF persona_one_wf p(1) v(1), of "[]" 3 4] p(2,3) v(2) by auto
qed

text \<open>An update whose ConfigMap cannot be written is an error, but the registry has the new text: the agents keep the old one until the next change.\<close>

lemma failed_rendering_leaves_stale_text:
  "let w' = snd (change_persona ((calm_persona [] 3)\<lparr>pe_put := False\<rparr>) ''p1'' \<lparr>pc_name = None, pc_description = None, pc_text = Some ''third''\<rparr> persona_one)
   in map_sum id ps_text (get_persona True ''p1'' (pw_db w')) = Inr ''third'' \<and>
      map_option (\<lambda>cm. map_of (cm_data cm) ''persona.md'') (map_of (pw_maps w') (persona_config_map ''p1'')) = Some (Some ''second'')"
  by code_simp

end
