(* ===== verification/TriggerApi.thy ===== *)
theory TriggerApi
  imports GuardedApi Paging TriggerStore CronSchedule
begin

text \<open>
  The endpoints of triggers and cron triggers
  (\<^verbatim>\<open>services/hub/internal/api/handlers_triggers.go\<close>, \<^verbatim>\<open>handlers_cron_triggers.go\<close>): each runs the guard of its resource, the
  store and the bookkeeping of the resource's group. The agents and connectors that exist are those of
  the Kubernetes API and a parameter. A request body is what the JSON decoder makes of it. The trigger and
  authorization stores are wired; \<open>wired\<close> says whether the checker and the authorization store are.
\<close>

section \<open>Triggers\<close>

definition rt_trigger :: string where "rt_trigger = ''trigger''"

record trigger_request =
  tq_name :: string
  tq_group :: string
  tq_agent :: string
  tq_connector :: string
  tq_filters :: "flt list option"

text \<open>What exists in the cluster: agents and connectors by name.\<close>

record cluster =
  cx_agent :: "string \<Rightarrow> bool"
  cx_connector :: "string \<Rightarrow> bool"

definition validate_trigger_refs :: "cluster \<Rightarrow> string \<Rightarrow> string \<Rightarrow> bool \<times> bool" where
  "validate_trigger_refs x agent connector = (cx_agent x agent, cx_connector x connector)"

definition list_trigger_page ::
  "call \<Rightarrow> bool \<Rightarrow> string \<Rightarrow> string \<Rightarrow> string \<Rightarrow> string \<Rightarrow> trigger_db api \<Rightarrow> (trigger list \<times> page_meta, trigger_db) reply" where
  "list_trigger_page v public page page_size agent connector s =
     (case parse_page_params page page_size of
        Inl e \<Rightarrow> (Inl (Refused 400 e), s)
      | Inr p \<Rightarrow>
          (case list_triggers (cl_data v) agent connector (ap_data s) of
             Inl e \<Rightarrow> (Inl (internal e), s)
           | Inr ts \<Rightarrow>
               let xs = visible v public rt_trigger tr_id (ap_authz s) ts
               in (Inr (page_items p xs, page_meta_of p (length xs)), s)))"

definition get_trigger_page :: "call \<Rightarrow> string \<Rightarrow> trigger_db api \<Rightarrow> (trigger, trigger_db) reply" where
  "get_trigger_page v i s =
     (case get_trigger (cl_data v) i (ap_data s) of Inl _ \<Rightarrow> (Inl (Refused 404 ''trigger not found''), s) | Inr t \<Rightarrow> (Inr t, s))"

definition store_trigger ::
  "call \<Rightarrow> cluster \<Rightarrow> string \<Rightarrow> trigger_request \<Rightarrow> trigger_db api \<Rightarrow> (trigger, trigger_db) reply" where
  "store_trigger v x i req s =
     (case validate_trigger_refs x (tq_agent req) (tq_connector req) of
        (a, c) \<Rightarrow>
          (case create_trigger (cl_data v) (cl_now v)
                  \<lparr>tr_id = i, tr_display_name = tq_name req, tr_agent_ref = tq_agent req, tr_connector_ref = tq_connector req,
                   tr_filters = (case tq_filters req of None \<Rightarrow> [] | Some fs \<Rightarrow> fs), tr_agent_valid = a, tr_connector_valid = c,
                   tr_created_at = 0, tr_updated_at = 0\<rparr> (ap_data s) of
             (Inl e, d) \<Rightarrow> (Inl (internal e), s\<lparr>ap_data := d\<rparr>)
           | (Inr t, d) \<Rightarrow> (Inr t, assign_group v rt_trigger i (tq_group req) (s\<lparr>ap_data := d\<rparr>))))"

definition post_trigger ::
  "call \<Rightarrow> cluster \<Rightarrow> string \<Rightarrow> string + trigger_request \<Rightarrow> trigger_db api \<Rightarrow> (trigger, trigger_db) reply" where
  "post_trigger v x i body s =
     (case body of
        Inl e \<Rightarrow> (Inl (Refused 400 (''invalid JSON: '' @ e)), s)
      | Inr req \<Rightarrow> guard_creation v (tq_group req) (store_trigger v x i req) s)"

text \<open>\<open>env\<close> is what other connections do between the two statements of the update.\<close>

definition put_trigger ::
  "call \<Rightarrow> (trigger_db \<Rightarrow> trigger_db) \<Rightarrow> cluster \<Rightarrow> string \<Rightarrow> string + trigger_request \<Rightarrow> trigger_db api \<Rightarrow> (trigger, trigger_db) reply" where
  "put_trigger v env x i body s =
     (case body of
        Inl e \<Rightarrow> (Inl (Refused 400 (''invalid JSON: '' @ e)), s)
      | Inr req \<Rightarrow>
          (case update_trigger_env env (cl_data v) (cl_now v) i (opt_if (tq_name req)) (opt_if (tq_agent req)) (opt_if (tq_connector req))
                  (tq_filters req) (ap_data s) of
             (Inl _, d) \<Rightarrow> (Inl (Refused 404 ''trigger not found''), s\<lparr>ap_data := d\<rparr>)
           | (Inr t, d) \<Rightarrow>
               (case validate_trigger_refs x (tr_agent_ref t) (tr_connector_ref t) of
                  (a, c) \<Rightarrow> (Inr (t\<lparr>tr_agent_valid := a, tr_connector_valid := c\<rparr>),
                     s\<lparr>ap_data := snd (set_trigger_validity (cl_more v) (cl_now v) i a c d)\<rparr>))))"

definition drop_trigger :: "call \<Rightarrow> string \<Rightarrow> trigger_db api \<Rightarrow> (unit, trigger_db) reply" where
  "drop_trigger v i s =
     (case delete_trigger (cl_data v) i (ap_data s) of
        (Inl _, d) \<Rightarrow> (Inl (Refused 404 ''trigger not found''), s\<lparr>ap_data := d\<rparr>)
      | (Inr _, d) \<Rightarrow> (Inr (), release_group v rt_trigger i (s\<lparr>ap_data := d\<rparr>)))"

text \<open>The methods of \<^verbatim>\<open>/api/v1/triggers\<close> and of \<^verbatim>\<open>/api/v1/triggers/{id}\<close>.\<close>

datatype trigger_call =
    ListTriggers bool string string string string
  | PostTrigger cluster string "string + trigger_request"
  | GetTrigger string
  | PutTrigger "trigger_db \<Rightarrow> trigger_db" cluster string "string + trigger_request"
  | DeleteTrigger string

datatype trigger_reply = TriggerPage "trigger list" page_meta | OneTrigger trigger | NoTrigger

fun handle_triggers :: "call \<Rightarrow> trigger_call \<Rightarrow> trigger_db api \<Rightarrow> (trigger_reply, trigger_db) reply" where
  "handle_triggers v (ListTriggers public page page_size agent connector) s =
     map_reply (\<lambda>(ts, m). TriggerPage ts m) (list_trigger_page v public page page_size agent connector s)"
| "handle_triggers v (PostTrigger x i body) s = map_reply OneTrigger (post_trigger v x i body s)"
| "handle_triggers v (GetTrigger i) s =
     (if i = [] then (Inl (Refused 400 ''missing trigger id''), s)
      else guard_read v rt_trigger i (\<lambda>s. map_reply OneTrigger (get_trigger_page v i s)) s)"
| "handle_triggers v (PutTrigger env x i body) s =
     (if i = [] then (Inl (Refused 400 ''missing trigger id''), s)
      else guard_write v rt_trigger i (\<lambda>s. map_reply OneTrigger (put_trigger v env x i body s)) s)"
| "handle_triggers v (DeleteTrigger i) s =
     (if i = [] then (Inl (Refused 400 ''missing trigger id''), s)
      else guard_write v rt_trigger i (\<lambda>s. map_reply (\<lambda>_. NoTrigger) (drop_trigger v i s)) s)"

section \<open>Cron triggers\<close>

definition rt_cron_trigger :: string where "rt_cron_trigger = ''cron-trigger''"

record cron_request =
  cq_name :: string
  cq_group :: string
  cq_agent :: string
  cq_schedule :: string
  cq_prompt :: string
  cq_enabled :: "bool option"

definition list_cron_page ::
  "call \<Rightarrow> bool \<Rightarrow> string \<Rightarrow> string \<Rightarrow> string \<Rightarrow> trigger_db api \<Rightarrow> (cron_trigger list \<times> page_meta, trigger_db) reply" where
  "list_cron_page v public page page_size agent s =
     (case parse_page_params page page_size of
        Inl e \<Rightarrow> (Inl (Refused 400 e), s)
      | Inr p \<Rightarrow>
          (case list_cron_triggers (cl_data v) agent (ap_data s) of
             Inl e \<Rightarrow> (Inl (internal e), s)
           | Inr ts \<Rightarrow>
               let xs = visible v public rt_cron_trigger ct_id (ap_authz s) ts
               in (Inr (page_items p xs, page_meta_of p (length xs)), s)))"

definition get_cron_page :: "call \<Rightarrow> string \<Rightarrow> trigger_db api \<Rightarrow> (cron_trigger, trigger_db) reply" where
  "get_cron_page v i s =
     (case get_cron_trigger (cl_data v) i (ap_data s) of
        Inl _ \<Rightarrow> (Inl (Refused 404 ''cron trigger not found''), s) | Inr t \<Rightarrow> (Inr t, s))"

definition schedule_ok :: "string \<Rightarrow> bool" where
  "schedule_ok e = (case parse e of Inl _ \<Rightarrow> False | Inr _ \<Rightarrow> True)"

definition store_cron ::
  "call \<Rightarrow> cluster \<Rightarrow> string \<Rightarrow> cron_request \<Rightarrow> trigger_db api \<Rightarrow> (cron_trigger, trigger_db) reply" where
  "store_cron v x i req s =
     (if \<not> schedule_ok (cq_schedule req) then (Inl (Refused 400 ''invalid schedule''), s)
      else (case create_cron_trigger (cl_data v) (cl_now v)
                  \<lparr>ct_id = i, ct_display_name = cq_name req, ct_agent_ref = cq_agent req, ct_schedule = cq_schedule req,
                   ct_prompt = cq_prompt req, ct_enabled = (case cq_enabled req of None \<Rightarrow> True | Some b \<Rightarrow> b),
                   ct_agent_valid = cx_agent x (cq_agent req), ct_schedule_valid = True, ct_last_run = None, ct_next_run = None,
                   ct_created_at = 0, ct_updated_at = 0\<rparr> (ap_data s) of
              (Inl e, d) \<Rightarrow> (Inl (internal e), s\<lparr>ap_data := d\<rparr>)
            | (Inr t, d) \<Rightarrow> (Inr t, assign_group v rt_cron_trigger i (cq_group req) (s\<lparr>ap_data := d\<rparr>))))"

definition post_cron ::
  "call \<Rightarrow> cluster \<Rightarrow> string \<Rightarrow> string + cron_request \<Rightarrow> trigger_db api \<Rightarrow> (cron_trigger, trigger_db) reply" where
  "post_cron v x i body s =
     (case body of
        Inl e \<Rightarrow> (Inl (Refused 400 (''invalid JSON: '' @ e)), s)
      | Inr req \<Rightarrow>
          if cq_agent req = [] \<or> cq_schedule req = [] \<or> cq_prompt req = []
          then (Inl (Refused 400 ''agentRef, schedule, and prompt are required''), s)
          else guard_creation v (cq_group req) (store_cron v x i req) s)"

text \<open>The schedule counts as valid after every update.\<close>

definition put_cron ::
  "call \<Rightarrow> (trigger_db \<Rightarrow> trigger_db) \<Rightarrow> cluster \<Rightarrow> string \<Rightarrow> string + cron_request \<Rightarrow> trigger_db api \<Rightarrow> (cron_trigger, trigger_db) reply" where
  "put_cron v env x i body s =
     (case body of
        Inl e \<Rightarrow> (Inl (Refused 400 (''invalid JSON: '' @ e)), s)
      | Inr req \<Rightarrow>
          if cq_schedule req \<noteq> [] \<and> \<not> schedule_ok (cq_schedule req) then (Inl (Refused 400 ''invalid schedule''), s)
          else (case update_cron_trigger_env env (cl_data v) (cl_now v) i (opt_if (cq_name req)) (opt_if (cq_agent req))
                       (opt_if (cq_schedule req)) (opt_if (cq_prompt req)) (cq_enabled req) (ap_data s) of
                  (Inl _, d) \<Rightarrow> (Inl (Refused 404 ''cron trigger not found''), s\<lparr>ap_data := d\<rparr>)
                | (Inr t, d) \<Rightarrow>
                    (Inr (t\<lparr>ct_agent_valid := cx_agent x (ct_agent_ref t), ct_schedule_valid := True\<rparr>),
                     s\<lparr>ap_data := snd (set_cron_trigger_validity (cl_more v) (cl_now v) i (cx_agent x (ct_agent_ref t)) True d)\<rparr>)))"

definition drop_cron :: "call \<Rightarrow> string \<Rightarrow> trigger_db api \<Rightarrow> (unit, trigger_db) reply" where
  "drop_cron v i s =
     (case delete_cron_trigger (cl_data v) i (ap_data s) of
        (Inl _, d) \<Rightarrow> (Inl (Refused 404 ''cron trigger not found''), s\<lparr>ap_data := d\<rparr>)
      | (Inr _, d) \<Rightarrow> (Inr (), release_group v rt_cron_trigger i (s\<lparr>ap_data := d\<rparr>)))"

datatype cron_call =
    ListCrons bool string string string
  | PostCron cluster string "string + cron_request"
  | GetCron string
  | PutCron "trigger_db \<Rightarrow> trigger_db" cluster string "string + cron_request"
  | DeleteCron string

datatype cron_reply = CronPage "cron_trigger list" page_meta | OneCron cron_trigger | NoCron

fun handle_crons :: "call \<Rightarrow> cron_call \<Rightarrow> trigger_db api \<Rightarrow> (cron_reply, trigger_db) reply" where
  "handle_crons v (ListCrons public page page_size agent) s =
     map_reply (\<lambda>(ts, m). CronPage ts m) (list_cron_page v public page page_size agent s)"
| "handle_crons v (PostCron x i body) s = map_reply OneCron (post_cron v x i body s)"
| "handle_crons v (GetCron i) s =
     (if i = [] then (Inl (Refused 400 ''missing cron trigger id''), s)
      else guard_read v rt_cron_trigger i (\<lambda>s. map_reply OneCron (get_cron_page v i s)) s)"
| "handle_crons v (PutCron env x i body) s =
     (if i = [] then (Inl (Refused 400 ''missing cron trigger id''), s)
      else guard_write v rt_cron_trigger i (\<lambda>s. map_reply OneCron (put_cron v env x i body s)) s)"
| "handle_crons v (DeleteCron i) s =
     (if i = [] then (Inl (Refused 400 ''missing cron trigger id''), s)
      else guard_write v rt_cron_trigger i (\<lambda>s. map_reply (\<lambda>_. NoCron) (drop_cron v i s)) s)"

end
