(* ===== verification/TriggerRules.thy ===== *)
theory TriggerRules
  imports TriggerApi
begin

text \<open>
  What the trigger endpoints guarantee: nothing changes without a permission that covers the change, a
  new trigger belongs to the group it was created for; and what they do not ask for: a permission for
  the connector and the agent a trigger joins.
\<close>

section \<open>Nothing changes without permission\<close>

text \<open>What the policy asks of the caller of a request that changes something.\<close>

fun trigger_needs :: "trigger_call \<Rightarrow> authz_db \<Rightarrow> string \<Rightarrow> bool" where
  "trigger_needs (PostTrigger x i (Inr req)) db sub = (admin_user db sub \<or> has_role db sub (tq_group req) role_writer)"
| "trigger_needs (PutTrigger env x i body) db sub = permitted db sub role_writer ''trigger'' i"
| "trigger_needs (DeleteTrigger i) db sub = permitted db sub role_writer ''trigger'' i"
| "trigger_needs _ db sub = False"

fun cron_needs :: "cron_call \<Rightarrow> authz_db \<Rightarrow> string \<Rightarrow> bool" where
  "cron_needs (PostCron x i (Inr req)) db sub = (admin_user db sub \<or> has_role db sub (cq_group req) role_writer)"
| "cron_needs (PutCron env x i body) db sub = permitted db sub role_writer ''cron-trigger'' i"
| "cron_needs (DeleteCron i) db sub = permitted db sub role_writer ''cron-trigger'' i"
| "cron_needs _ db sub = False"

lemma trigger_change_permitted:
  assumes "handle_triggers v q s = (r, s')" "changed s s'" "cl_wired v" "current v s"
  shows "\<exists>sub. cl_caller v = Some sub \<and> trigger_needs q (ap_authz s) sub"
proof (cases q)
  case (ListTriggers public page page_size agent connector)
  have "s' = s"
    using assms(1) unfolding ListTriggers handle_triggers.simps list_trigger_page_def Let_def
    by (auto split: sum.splits)
  then show ?thesis using assms(2) by simp
next
  case (PostTrigger x i body)
  show ?thesis
  proof (cases body)
    case (Inl e)
    then show ?thesis using assms(1,2) PostTrigger by (auto simp: post_trigger_def)
  next
    case (Inr req)
    obtain r0 where "guard_creation v (tq_group req) (store_trigger v x i req) s = (r0, s')"
      using assms(1) PostTrigger Inr by (cases "guard_creation v (tq_group req) (store_trigger v x i req) s") (auto simp: post_trigger_def)
    from guard_creation_change [OF this assms(2-4)] show ?thesis using PostTrigger Inr by auto
  qed
next
  case (GetTrigger i)
  show ?thesis
  proof (cases "i = []")
    case True
    then show ?thesis using assms(1,2) GetTrigger by auto
  next
    case False
    then have "guard_read v rt_trigger i (\<lambda>s. map_reply OneTrigger (get_trigger_page v i s)) s = (r, s')"
      using assms(1) GetTrigger by simp
    then have "\<not> changed s s'" by (rule guard_read_unchanged) (simp add: get_trigger_page_def split: sum.split)
    then show ?thesis using assms(2) by simp
  qed
next
  case (PutTrigger env x i body)
  show ?thesis
  proof (cases "i = []")
    case True
    then show ?thesis using assms(1,2) PutTrigger by auto
  next
    case False
    then show ?thesis using guard_write_change [OF _ assms(2-4)] assms(1) PutTrigger by (fastforce simp: rt_trigger_def)
  qed
next
  case (DeleteTrigger i)
  show ?thesis
  proof (cases "i = []")
    case True
    then show ?thesis using assms(1,2) DeleteTrigger by auto
  next
    case False
    then show ?thesis using guard_write_change [OF _ assms(2-4)] assms(1) DeleteTrigger by (fastforce simp: rt_trigger_def)
  qed
qed

lemma cron_change_permitted:
  assumes "handle_crons v q s = (r, s')" "changed s s'" "cl_wired v" "current v s"
  shows "\<exists>sub. cl_caller v = Some sub \<and> cron_needs q (ap_authz s) sub"
proof (cases q)
  case (ListCrons public page page_size agent)
  have "s' = s"
    using assms(1) unfolding ListCrons handle_crons.simps list_cron_page_def Let_def
    by (auto split: sum.splits)
  then show ?thesis using assms(2) by simp
next
  case (PostCron x i body)
  show ?thesis
  proof (cases "\<exists>req. body = Inr req \<and> \<not> (cq_agent req = [] \<or> cq_schedule req = [] \<or> cq_prompt req = [])")
    case False
    then have "s' = s" using assms(1) PostCron by (cases body) (auto simp: post_cron_def)
    then show ?thesis using assms(2) by simp
  next
    case True
    then obtain req where req: "body = Inr req" "\<not> (cq_agent req = [] \<or> cq_schedule req = [] \<or> cq_prompt req = [])" by blast
    obtain r0 where "guard_creation v (cq_group req) (store_cron v x i req) s = (r0, s')"
      using assms(1) PostCron req by (cases "guard_creation v (cq_group req) (store_cron v x i req) s") (auto simp: post_cron_def)
    from guard_creation_change [OF this assms(2-4)] show ?thesis using PostCron req by auto
  qed
next
  case (GetCron i)
  show ?thesis
  proof (cases "i = []")
    case True
    then show ?thesis using assms(1,2) GetCron by auto
  next
    case False
    then have "guard_read v rt_cron_trigger i (\<lambda>s. map_reply OneCron (get_cron_page v i s)) s = (r, s')"
      using assms(1) GetCron by simp
    then have "\<not> changed s s'" by (rule guard_read_unchanged) (simp add: get_cron_page_def split: sum.split)
    then show ?thesis using assms(2) by simp
  qed
next
  case (PutCron env x i body)
  show ?thesis
  proof (cases "i = []")
    case True
    then show ?thesis using assms(1,2) PutCron by auto
  next
    case False
    then show ?thesis using guard_write_change [OF _ assms(2-4)] assms(1) PutCron by (fastforce simp: rt_cron_trigger_def)
  qed
next
  case (DeleteCron i)
  show ?thesis
  proof (cases "i = []")
    case True
    then show ?thesis using assms(1,2) DeleteCron by auto
  next
    case False
    then show ?thesis using guard_write_change [OF _ assms(2-4)] assms(1) DeleteCron by (fastforce simp: rt_cron_trigger_def)
  qed
qed

lemma assign_release_cache [simp]: "ap_cache (assign_group v rt i gid s) = ap_cache s" "ap_cache (release_group v rt i s) = ap_cache s"
  by (simp_all add: assign_group_def release_group_def)

lemma triggers_steady: "steady s (handle_triggers v q s)"
proof -
  have put: "steady s (put_trigger v env x i body s)" for s env x i body
    by (rule steady_same_cache) (auto simp: put_trigger_def split: sum.splits prod.splits)
  have drop: "steady s (drop_trigger v i s)" for s i
    by (rule steady_same_cache) (auto simp: drop_trigger_def split: sum.splits prod.splits)
  have post: "steady s (post_trigger v x i body s)" for s x i body
    unfolding post_trigger_def
    by (auto simp: store_trigger_def split: sum.splits prod.splits intro!: guard_creation_steady intro: steady_same_cache)
  show ?thesis
  proof (cases q)
    case (ListTriggers public page page_size agent connector)
    then show ?thesis by (auto simp: list_trigger_page_def Let_def intro!: steady_same_cache split: sum.splits)
  next
    case (PostTrigger x i body)
    then show ?thesis using post by simp
  next
    case (GetTrigger i)
    then show ?thesis by (auto simp: get_trigger_page_def intro!: guards_steady intro: steady_same_cache split: sum.splits)
  next
    case (PutTrigger env x i body)
    then show ?thesis using put by (auto intro!: guards_steady intro: steady_same_cache)
  next
    case (DeleteTrigger i)
    then show ?thesis using drop by (auto intro!: guards_steady intro: steady_same_cache)
  qed
qed

lemma crons_steady: "steady s (handle_crons v q s)"
proof -
  have put: "steady s (put_cron v env x i body s)" for s env x i body
    by (rule steady_same_cache) (auto simp: put_cron_def split: sum.splits prod.splits)
  have drop: "steady s (drop_cron v i s)" for s i
    by (rule steady_same_cache) (auto simp: drop_cron_def split: sum.splits prod.splits)
  have post: "steady s (post_cron v x i body s)" for s x i body
    unfolding post_cron_def
    by (auto simp: store_cron_def split: sum.splits prod.splits intro!: guard_creation_steady intro: steady_same_cache)
  show ?thesis
  proof (cases q)
    case (ListCrons public page page_size agent)
    then show ?thesis by (auto simp: list_cron_page_def Let_def intro!: steady_same_cache split: sum.splits)
  next
    case (PostCron x i body)
    then show ?thesis using post by simp
  next
    case (GetCron i)
    then show ?thesis by (auto simp: get_cron_page_def intro!: guards_steady intro: steady_same_cache split: sum.splits)
  next
    case (PutCron env x i body)
    then show ?thesis using put by (auto intro!: guards_steady intro: steady_same_cache)
  next
    case (DeleteCron i)
    then show ?thesis using drop by (auto intro!: guards_steady intro: steady_same_cache)
  qed
qed

interpretation triggers: guarded_endpoint handle_triggers "\<lambda>q db _. trigger_needs q db"
  by unfold_locales (erule trigger_change_permitted, assumption+, erule (1) fresh_current, rule triggers_steady)

interpretation crons: guarded_endpoint handle_crons "\<lambda>q db _. cron_needs q db"
  by unfold_locales (erule cron_change_permitted, assumption+, erule (1) fresh_current, rule crons_steady)

text \<open>
  Nothing about triggers or cron triggers changes without permission: with access control wired,
  consistent tables and current cached roles, a request that changes the trigger tables or the access
  tables comes from a caller who may do so: a creation from an administrator or a writer of the
  group it names, an update or a deletion from somebody the policy lets write that very resource. Every
  other request leaves both as they were, whatever else fails.
\<close>

theorem trigger_changes_are_permitted:
  assumes "access_wf (ap_authz s)" "cl_wired v"
    and "case cl_caller v of None \<Rightarrow> True | Some sub \<Rightarrow> coherent (ap_cache s) (ap_authz s) sub (ck_now (cl_check v))"
  shows "(case handle_triggers v q s of (r, s') \<Rightarrow>
      ap_data s' = ap_data s \<and> ap_authz s' = ap_authz s \<or>
      (\<exists>sub. cl_caller v = Some sub \<and> trigger_needs q (ap_authz s) sub)) \<and>
    (case handle_crons v p s of (r, s') \<Rightarrow>
      ap_data s' = ap_data s \<and> ap_authz s' = ap_authz s \<or>
      (\<exists>sub. cl_caller v = Some sub \<and> cron_needs p (ap_authz s) sub))"
proof -
  have c: "current v s" using assms(1,3) by (simp add: current_def split: option.splits)
  show ?thesis
    using trigger_change_permitted [OF _ _ assms(2) c, of q] cron_change_permitted [OF _ _ assms(2) c, of p]
    by (auto simp: changed_def split: prod.split)
qed

definition trigger_console :: "trigger_db api" where
  "trigger_console = \<lparr>ap_authz = sample_access, ap_cache = new_group_cache 30, ap_data = \<lparr>trigger_rows = [], cron_rows = []\<rparr>\<rparr>"

theorem trigger_changes_are_permitted_witness:
  "ap_data (snd (handle_triggers (plain_call ''eve'') (DeleteTrigger ''t1'') trigger_console)) = ap_data trigger_console"
proof -
  have "access_wf (ap_authz trigger_console)" "cl_wired (plain_call ''eve'')"
    "case cl_caller (plain_call ''eve'') of None \<Rightarrow> True
      | Some sub \<Rightarrow> coherent (ap_cache trigger_console) (ap_authz trigger_console) sub (ck_now (cl_check (plain_call ''eve'')))"
    by (simp_all add: trigger_console_def sample_access_wf plain_call_def coherent_def new_group_cache_def)
  note P = trigger_changes_are_permitted [OF this, of "DeleteTrigger ''t1''" "DeleteCron ''t1''"]
  have "\<not> permitted sample_access ''eve'' role_writer ''trigger'' ''t1''" by code_simp
  then show ?thesis using P by (auto simp: trigger_console_def plain_call_def split: prod.splits)
qed

section \<open>Whose a new trigger is\<close>

lemma creation_passes:
  assumes "cl_wired v" "answering (cl_check v)" "current v s" "cl_caller v = Some sub"
    and "sub \<in> us_id ` set (az_users (ap_authz s))" "gid \<noteq> []" "has_role (ap_authz s) sub gid role_writer"
  shows "\<exists>c. guard_creation v gid k s = k (s\<lparr>ap_cache := c\<rparr>)"
proof -
  have co: "coherent (ap_cache s) (ap_authz s) sub (ck_now (cl_check v))" and wf: "access_wf (ap_authz s)"
    using assms(3,4) by (auto simp: current_def)
  have a: "is_admin (cl_check v) (ap_authz s) sub = Inr (admin_user (ap_authz s) sub)"
    using get_user_found [OF wf _ assms(5)] assms(2) by (simp add: answering_def)
  obtain c' where c: "role_of (cl_check v) (ap_authz s) sub gid (ap_cache s) = (Inr (role_in (roles_of (ap_authz s) sub) gid), c')"
    using role_of_coherent [OF assms(2) co] by metis
  have "fst (can_write_group (cl_check v) (ap_authz s) sub gid (ap_cache s)) = Inr True"
    using assms(7) by (simp add: can_write_group_def a c role_in_covers [OF wf])
  then obtain c2 where "can_write_group (cl_check v) (ap_authz s) sub gid (ap_cache s) = (Inr True, c2)"
    by (cases "can_write_group (cl_check v) (ap_authz s) sub gid (ap_cache s)") auto
  then show ?thesis
    using assms(1,4,6) by (auto simp: guard_creation_def guard_group_write_def with_guard_def require_group_write_def guard_def)
qed

definition stored_trigger :: "call \<Rightarrow> cluster \<Rightarrow> string \<Rightarrow> trigger_request \<Rightarrow> trigger" where
  "stored_trigger v x i req =
     \<lparr>tr_id = i, tr_display_name = tq_name req, tr_agent_ref = tq_agent req, tr_connector_ref = tq_connector req,
      tr_filters = (case tq_filters req of None \<Rightarrow> [] | Some fs \<Rightarrow> fs), tr_agent_valid = cx_agent x (tq_agent req),
      tr_connector_valid = cx_connector x (tq_connector req), tr_created_at = cl_now v, tr_updated_at = cl_now v\<rparr>"

lemma post_trigger_stored:
  assumes "cl_wired v" "answering (cl_check v)" "current v s" "cl_caller v = Some sub" "cl_data v 0"
    and "sub \<in> us_id ` set (az_users (ap_authz s))" "tq_group req \<noteq> []" "has_role (ap_authz s) sub (tq_group req) role_writer"
    and "\<not> has_row tr_id i (trigger_rows (ap_data s))"
  shows "\<exists>c. post_trigger v x i (Inr req) s = (Inr (stored_trigger v x i req),
    s\<lparr>ap_cache := c, ap_data := (ap_data s)\<lparr>trigger_rows := trigger_rows (ap_data s) @ [stored_trigger v x i req]\<rparr>,
      ap_authz := snd (set_resource_group (\<lambda>_. cl_group v) (cl_now v) ''trigger'' i (tq_group req) False (ap_authz s))\<rparr>)"
  using creation_passes [OF assms(1-4,6-8), of "store_trigger v x i req"] assms(1,5,7,9)
  by (auto simp: post_trigger_def store_trigger_def validate_trigger_refs_def create_trigger_def assign_group_def
      stored_trigger_def rt_trigger_def Let_def)

text \<open>
  A new trigger belongs to the group it was created for. When a writer of the group posts it, it is stored as requested,
  and from then on exactly the administrators and the members of that group whose role covers
  the access may read or write it. When the row of the group cannot be written the reply is the same, but the trigger is
  out of reach for everybody except administrators, its creator included.
\<close>

theorem new_trigger_belongs_to_group:
  assumes "access_wf (ap_authz s)" "coherent (ap_cache s) (ap_authz s) sub (ck_now (cl_check v))"
    and "cl_wired v" "cl_caller v = Some sub" "answering (cl_check v)" "cl_data v 0" "sub \<in> us_id ` set (az_users (ap_authz s))"
    and "tq_group req \<noteq> []" "has_role (ap_authz s) sub (tq_group req) role_writer"
    and "\<not> has_row tr_id i (trigger_rows (ap_data s))" "\<not> has_row resource_key (''trigger'', i) (az_resources (ap_authz s))"
  shows "\<exists>t s'. post_trigger v x i (Inr req) s = (Inr t, s') \<and> lookup_row tr_id i (trigger_rows (ap_data s')) = Some t \<and>
    tr_agent_ref t = tq_agent req \<and> tr_connector_ref t = tq_connector req \<and>
    (\<forall>uid need. permitted (ap_authz s') uid need ''trigger'' i \<longleftrightarrow>
       admin_user (ap_authz s) uid \<or> cl_group v \<and> has_role (ap_authz s) uid (tq_group req) need)"
proof -
  have cur: "current v s" using assms(1,2,4) by (simp add: current_def)
  obtain c where p: "post_trigger v x i (Inr req) s = (Inr (stored_trigger v x i req),
    s\<lparr>ap_cache := c, ap_data := (ap_data s)\<lparr>trigger_rows := trigger_rows (ap_data s) @ [stored_trigger v x i req]\<rparr>,
      ap_authz := snd (set_resource_group (\<lambda>_. cl_group v) (cl_now v) ''trigger'' i (tq_group req) False (ap_authz s))\<rparr>)"
    using post_trigger_stored [OF assms(3,5) cur assms(4,6,7,8,9,10)] by metis
  let ?db = "ap_authz s" and ?db' = "snd (set_resource_group (\<lambda>_. cl_group v) (cl_now v) ''trigger'' i (tq_group req) False (ap_authz s))"
  have "has_row gr_id (tq_group req) (az_groups ?db)"
  proof -
    obtain m where "m \<in> set (az_members ?db)" "gm_group m = tq_group req"
      using assms(9) by (auto simp: has_role_def list_ex_iff)
    moreover have "\<forall>m \<in> set (az_members ?db). gm_group m \<in> gr_id ` set (az_groups ?db)" using assms(1) by (simp add: wf_defs)
    ultimately have "tq_group req \<in> gr_id ` set (az_groups ?db)" by metis
    then show ?thesis by (auto simp: has_row_iff lookup_row_None_iff)
  qed
  then have db': "az_resources ?db' = az_resources ?db @ (if cl_group v then [\<lparr>rg_type = ''trigger'', rg_name = i,
      rg_group = tq_group req, rg_public = False, rg_created = cl_now v\<rparr>] else [])"
    "az_users ?db' = az_users ?db" "az_members ?db' = az_members ?db"
    using assms(11) by (simp_all add: set_resource_group_def)
  have fresh: "\<not> list_ex (\<lambda>r. rg_type r = ''trigger'' \<and> rg_name r = i \<and> P r) (az_resources ?db)" for P
    using assms(11) by (auto simp: has_row_def list_ex_iff)
  have "permitted ?db' uid need ''trigger'' i \<longleftrightarrow> admin_user ?db uid \<or> cl_group v \<and> has_role ?db uid (tq_group req) need" for uid need
    using fresh by (simp add: permitted_def db' admin_user_def has_role_def)
  moreover have "lookup_row tr_id i (trigger_rows (ap_data s) @ [stored_trigger v x i req]) = Some (stored_trigger v x i req)"
    using assms(10) by (simp add: sql_simps has_row_iff stored_trigger_def)
  ultimately show ?thesis using p by (auto simp: stored_trigger_def)
qed

theorem new_trigger_belongs_to_group_witness:
  "\<exists>t s'. post_trigger (plain_call ''ann'') \<lparr>cx_agent = (\<lambda>_. True), cx_connector = (\<lambda>_. True)\<rparr> ''t1''
       (Inr \<lparr>tq_name = ''n'', tq_group = ''g1'', tq_agent = ''a1'', tq_connector = ''git'', tq_filters = None\<rparr>) trigger_console = (Inr t, s') \<and>
     permitted (ap_authz s') ''ann'' role_writer ''trigger'' ''t1'' \<and> \<not> permitted (ap_authz s') ''bob'' role_reader ''trigger'' ''t1''"
proof -
  let ?req = "\<lparr>tq_name = ''n'', tq_group = ''g1'', tq_agent = ''a1'', tq_connector = ''git'', tq_filters = None\<rparr>"
  have a: "access_wf (ap_authz trigger_console)" "coherent (ap_cache trigger_console) (ap_authz trigger_console) ''ann'' (ck_now (cl_check (plain_call ''ann'')))"
    "cl_wired (plain_call ''ann'')" "cl_caller (plain_call ''ann'') = Some ''ann''" "answering (cl_check (plain_call ''ann''))" "cl_data (plain_call ''ann'') 0"
    "tq_group ?req \<noteq> []" "\<not> has_row tr_id ''t1'' (trigger_rows (ap_data trigger_console))" "cl_group (plain_call ''ann'')"
    by (simp_all add: trigger_console_def sample_access_wf plain_call_def coherent_def new_group_cache_def has_row_def)
  have b: "''ann'' \<in> us_id ` set (az_users (ap_authz trigger_console))"
    by (simp add: trigger_console_def sample_access_def sample_user_def)
  have r: "has_role (ap_authz trigger_console) ''ann'' (tq_group ?req) role_writer" by code_simp
  have f: "\<not> has_row resource_key (''trigger'', ''t1'') (az_resources (ap_authz trigger_console))" by code_simp
  have n: "\<not> admin_user (ap_authz trigger_console) ''bob''" "\<not> has_role (ap_authz trigger_console) ''bob'' (tq_group ?req) role_reader" by code_simp+
  show ?thesis
    using new_trigger_belongs_to_group [OF a(1-6) b a(7) r a(8) f] r n a(9) by blast
qed

section \<open>What a trigger joins\<close>

text \<open>
  A trigger needs no permission for what it joins. A writer of any group who may not even read a connector
  can post a trigger from it to an agent of choice: it is accepted as long as both exist, and once it is in
  the index every event of that connector, with its raw payload, is matched to the agent. (A bridge between two channels
  needs the write permission at both ends.)
\<close>

theorem trigger_taps_foreign_connector:
  assumes "access_wf (ap_authz s)" "coherent (ap_cache s) (ap_authz s) sub (ck_now (cl_check v))"
    and "cl_wired v" "cl_caller v = Some sub" "answering (cl_check v)" "cl_data v 0" "sub \<in> us_id ` set (az_users (ap_authz s))"
    and "tq_group req \<noteq> []" "has_role (ap_authz s) sub (tq_group req) role_writer" "\<not> has_row tr_id i (trigger_rows (ap_data s))"
    and "cx_agent x (tq_agent req)" "cx_connector x (tq_connector req)" "tq_filters req = None"
    and "\<not> permitted (ap_authz s) sub role_reader ''connector'' (tq_connector req)"
  shows "\<exists>t s'. post_trigger v x i (Inr req) s = (Inr t, s') \<and>
    \<not> permitted (ap_authz s') sub role_reader ''connector'' (tq_connector req) \<and>
    (\<forall>re evt payload. evt_connector evt = tq_connector req \<and> build_filter_payload evt = Inr payload \<longrightarrow>
       index_match re (index_update new_index t) evt = Inr [\<lparr>tm_trigger = i, tm_agent = tq_agent req\<rparr>])"
proof -
  have cur: "current v s" using assms(1,2,4) by (simp add: current_def)
  obtain c where p: "post_trigger v x i (Inr req) s = (Inr (stored_trigger v x i req),
    s\<lparr>ap_cache := c, ap_data := (ap_data s)\<lparr>trigger_rows := trigger_rows (ap_data s) @ [stored_trigger v x i req]\<rparr>,
      ap_authz := snd (set_resource_group (\<lambda>_. cl_group v) (cl_now v) ''trigger'' i (tq_group req) False (ap_authz s))\<rparr>)"
    using post_trigger_stored [OF assms(3,5) cur assms(4,6,7,8,9,10)] by metis
  let ?db = "ap_authz s" and ?db' = "snd (set_resource_group (\<lambda>_. cl_group v) (cl_now v) ''trigger'' i (tq_group req) False (ap_authz s))"
  have u: "az_users ?db' = az_users ?db" "az_members ?db' = az_members ?db" by (simp_all add: set_resource_group_def)
  have r: "r \<in> set (az_resources ?db)" if "r \<in> set (az_resources ?db')" "rg_type r = ''connector''" for r
    using that by (auto simp: set_resource_group_def sql_simps split: if_splits)
  have "\<not> permitted ?db' sub role_reader ''connector'' (tq_connector req)"
    using assms(14) r by (auto simp: permitted_def list_ex_iff admin_user_def has_role_def u)
  moreover have "index_match re (index_update new_index (stored_trigger v x i req)) evt = Inr [\<lparr>tm_trigger = i, tm_agent = tq_agent req\<rparr>]"
    if "evt_connector evt = tq_connector req" "build_filter_payload evt = Inr payload" for re evt payload
    using that assms(11-13)
    by (simp add: index_match_def index_update_def new_index_def aput_def stored_trigger_def trigger_accepts_def trigger_is_valid_def)
  ultimately show ?thesis using p by auto
qed

theorem trigger_taps_foreign_connector_witness:
  "\<exists>t s'. post_trigger (plain_call ''ann'') \<lparr>cx_agent = (\<lambda>_. True), cx_connector = (\<lambda>_. True)\<rparr> ''t1''
       (Inr \<lparr>tq_name = ''n'', tq_group = ''g1'', tq_agent = ''a1'', tq_connector = ''payroll'', tq_filters = None\<rparr>) trigger_console = (Inr t, s') \<and>
     \<not> permitted (ap_authz s') ''ann'' role_reader ''connector'' ''payroll''"
proof -
  let ?req = "\<lparr>tq_name = ''n'', tq_group = ''g1'', tq_agent = ''a1'', tq_connector = ''payroll'', tq_filters = None\<rparr>"
  let ?x = "\<lparr>cx_agent = (\<lambda>_. True), cx_connector = (\<lambda>_. True)\<rparr>"
  have a: "access_wf (ap_authz trigger_console)" "coherent (ap_cache trigger_console) (ap_authz trigger_console) ''ann'' (ck_now (cl_check (plain_call ''ann'')))"
    "cl_wired (plain_call ''ann'')" "cl_caller (plain_call ''ann'') = Some ''ann''" "answering (cl_check (plain_call ''ann''))" "cl_data (plain_call ''ann'') 0"
    "tq_group ?req \<noteq> []" "\<not> has_row tr_id ''t1'' (trigger_rows (ap_data trigger_console))"
    "cx_agent ?x (tq_agent ?req)" "cx_connector ?x (tq_connector ?req)" "tq_filters ?req = None"
    by (simp_all add: trigger_console_def sample_access_wf plain_call_def coherent_def new_group_cache_def has_row_def)
  have b: "''ann'' \<in> us_id ` set (az_users (ap_authz trigger_console))"
    by (simp add: trigger_console_def sample_access_def sample_user_def)
  have r: "has_role (ap_authz trigger_console) ''ann'' (tq_group ?req) role_writer" by code_simp
  have n: "\<not> permitted (ap_authz trigger_console) ''ann'' role_reader ''connector'' (tq_connector ?req)" by code_simp
  show ?thesis using trigger_taps_foreign_connector [OF a(1-6) b a(7) r a(8-11) n] by auto
qed

end
