(* ===== verification/AgentApiRules.thy ===== *)
theory AgentApiRules
  imports AgentApi TriggerRules
begin

text \<open>
  What the agent endpoints guarantee and what they do not: nothing changes without a permission that covers the change, an
  answer never depends on a stored secret and can be sent back unchanged, and a refused update leaves every agent as it was;
  but a refused update may have replaced a provider key, a persona edited without a name is refused from the second time
  on, and the text of a persona is open to whoever may create an agent.
\<close>

section \<open>Nothing changes without permission\<close>

fun agent_needs :: "agent_request_kind \<Rightarrow> authz_db \<Rightarrow> string \<Rightarrow> bool" where
  "agent_needs (PostAgent (Inr req)) db sub = (admin_user db sub \<or> has_role db sub (aq_group req) role_writer)"
| "agent_needs (PutAt path body persona) db sub =
     (case agent_target_of path of PersonaOf n \<Rightarrow> permitted db sub role_writer ''agent'' n
      | OneAgent n \<Rightarrow> permitted db sub role_writer ''agent'' n | _ \<Rightarrow> False)"
| "agent_needs (DeleteAt path) db sub = (case agent_target_of path of OneAgent n \<Rightarrow> permitted db sub role_writer ''agent'' n | _ \<Rightarrow> False)"
| "agent_needs _ db sub = False"

lemma reading_changes_nothing:
  "snd (list_agents v k public page page_size s) = s" "snd (get_agent k n s) = s" "snd (get_agent_persona k n s) = s"
  by (simp_all add: list_agents_def get_agent_def get_agent_persona_def Let_def split: sum.split option.split)

lemma agent_change_permitted:
  assumes "handle_agents k v q s = (r, s')" "changed s s'" "cl_wired v" "current v s"
  shows "\<exists>sub. cl_caller v = Some sub \<and> agent_needs q (ap_authz s) sub"
proof (cases q)
  case (ListAgents public page page_size)
  then have "s' = s" using assms(1) reading_changes_nothing(1) by (metis handle_agents.simps(1) snd_conv snd_map_prod_id)
  then show ?thesis using assms(2) by simp
next
  case (PostAgent body)
  show ?thesis
  proof (cases body)
    case (Inl e)
    then show ?thesis using assms(1,2) PostAgent by (auto simp: create_agent_def)
  next
    case (Inr req)
    show ?thesis
    proof (cases "validate_agent_image_ref k (ap_data s) (aq_image req) (aq_tools req)")
      case (Inl e)
      then show ?thesis using assms(1,2) PostAgent \<open>body = Inr req\<close> by (auto simp: create_agent_def)
    next
      case (Inr display)
      then obtain r0 where "guard_creation v (aq_group req) (store_agent v k req display) s = (r0, s')"
        using assms(1) PostAgent \<open>body = Inr req\<close>
        by (cases "guard_creation v (aq_group req) (store_agent v k req display) s") (auto simp: create_agent_def)
      from guard_creation_change [OF this assms(2-4)] show ?thesis using PostAgent \<open>body = Inr req\<close> by auto
    qed
  qed
next
  case (GetAt path)
  have "\<not> changed s s'"
  proof (cases "agent_target_of path")
    case (PersonaOf n)
    then have "guard_read v rt_agent n (\<lambda>s. map_reply PersonaReply (get_agent_persona k n s)) s = (r, s')"
      using assms(1) GetAt by simp
    then show ?thesis by (rule guard_read_unchanged) (simp add: reading_changes_nothing)
  next
    case (OneAgent n)
    then have "guard_read v rt_agent n (\<lambda>s. map_reply AgentReply (get_agent k n s)) s = (r, s')"
      using assms(1) GetAt by simp
    then show ?thesis by (rule guard_read_unchanged) (simp add: reading_changes_nothing)
  qed (use assms(1) GetAt in auto)
  then show ?thesis using assms(2) by simp
next
  case (PutAt path body persona)
  then show ?thesis
    using guard_write_change [OF _ assms(2-4)] assms(1,2) by (cases "agent_target_of path") (fastforce simp: rt_agent_def)+
next
  case (DeleteAt path)
  then show ?thesis
    using guard_write_change [OF _ assms(2-4)] assms(1,2) by (cases "agent_target_of path") (fastforce simp: rt_agent_def)+
qed

lemma put_site_simps [simp]:
  "ap_cache (put_site d s) = ap_cache s" "ap_authz (put_site d s) = ap_authz s" "ap_data (put_site d s) = d"
  by (simp_all add: put_site_def)

lemma group_row_cache [simp]: "ap_cache (assign_group v rt i g s) = ap_cache s" "ap_cache (release_group v rt i s) = ap_cache s"
  by (simp_all add: assign_group_def release_group_def)

lemma agents_steady: "steady s (handle_agents k v q s)"
proof -
  have store: "steady s (store_agent v k req display s)" for s req display
    by (rule steady_same_cache) (auto simp: store_agent_def Let_def split: sum.splits prod.splits option.splits)
  have create: "steady s (create_agent v k body s)" for s body
    by (auto simp: create_agent_def intro!: guard_creation_steady store split: sum.splits)
  have update: "steady s (update_agent k n body s)" for s n body
    by (rule steady_same_cache) (simp add: update_agent_def Let_def split: sum.split prod.split option.split)
  have delete: "steady s (delete_agent v k n s)" for s n
    by (rule steady_same_cache) (simp add: delete_agent_def Let_def)
  have persona: "steady s (put_agent_persona k n body s)" for s n body
    by (rule steady_same_cache) (simp add: put_agent_persona_def Let_def split: sum.split prod.split option.split)
  have reads: "steady s (list_agents v k public page page_size s)" "steady s (get_agent k n s)" "steady s (get_agent_persona k n s)"
    for s public page page_size n
    by (simp_all add: steady_same_cache reading_changes_nothing)
  show ?thesis
    by (cases q) (auto split: agent_target.split simp: create update delete persona reads intro!: guards_steady)
qed

text \<open>Every request comes with its own surroundings.\<close>

definition serve_agents :: "(call \<times> kube_env \<times> agent_request_kind) list \<Rightarrow> agent_site api \<Rightarrow> agent_site api" where
  "serve_agents = serve_all (\<lambda>v (k, q). handle_agents k v q)"

interpretation agents: guarded_endpoint "\<lambda>v (k, q). handle_agents k v q" "\<lambda>(k, q) db _. agent_needs q db"
  by unfold_locales (auto simp: agents_steady dest: agent_change_permitted [OF _ _ _ fresh_current])

text \<open>
  C27. Nothing about agents changes without permission: with access control wired, consistent tables and current cached roles, any
  number of requests whose callers the policy does not let change what they ask for (a creation needs an administrator or a writer of
  the group it names, an update, a deletion or an inline edit of the persona needs write permission for that very agent) leave every
  agent, provider secret, persona and ConfigMap and the access tables as they were, whatever else fails.
\<close>

theorem agent_changes_are_permitted:
  assumes "access_wf (ap_authz s)" "fresh s"
    and "\<forall>(v, k, q) \<in> set xs. cl_wired v \<and> (\<forall>sub. cl_caller v = Some sub \<longrightarrow> \<not> agent_needs q (ap_authz s) sub)"
  shows "ap_data (serve_agents xs s) = ap_data s \<and> ap_authz (serve_agents xs s) = ap_authz s"
proof -
  have "\<forall>(v, q) \<in> set xs. cl_wired v \<and> (\<forall>sub. cl_caller v = Some sub \<longrightarrow>
      \<not> (case q of (k, q) \<Rightarrow> \<lambda>db _. agent_needs q db) (ap_authz s) (ap_data s) sub)"
    using assms(3) by (auto split: prod.splits)
  then show ?thesis
    using agents.unpermitted_changes_nothing [OF assms(1,2)] by (simp add: changed_def serve_agents_def)
qed

section \<open>What an agent shows can be sent back\<close>

lemma map_sum_Inr [simp]: "map_sum f g x = Inr y \<longleftrightarrow> (\<exists>z. x = Inr z \<and> y = g z)"
  by (cases x) auto

lemma find_unique: "x \<in> set xs \<Longrightarrow> p x \<Longrightarrow> (\<And>y. y \<in> set xs \<Longrightarrow> p y \<Longrightarrow> y = x) \<Longrightarrow> List.find p xs = Some x"
  by (metis find_None_all find_Some_iff_first option.exhaust)

lemma trim_space_idem [simp]: "trim_space (trim_space s) = trim_space s"
proof -
  let ?t = "dropWhile is_space s"
  let ?u = "dropWhile is_space (rev ?t)"
  have t: "?t = rev ?u @ rev (takeWhile is_space (rev ?t))"
    by (metis rev_append rev_rev_ident takeWhile_dropWhile_id)
  have "dropWhile is_space (rev ?u) = rev ?u"
  proof (cases "rev ?u")
    case (Cons c cs)
    then have "\<not> is_space c" using t hd_dropWhile [of is_space s] by (metis append_Cons list.distinct(1) list.sel(1))
    then show ?thesis using Cons by simp
  qed (simp only: dropWhile.simps)
  then show ?thesis by (simp add: trim_space_def dropWhile_idem)
qed

text \<open>Variables a request may set.\<close>

definition valid_env :: "(string \<Rightarrow> string option) \<Rightarrow> hub_env list \<Rightarrow> bool" where
  "valid_env names es \<longleftrightarrow> distinct (map he_name es) \<and>
     (\<forall>e \<in> set es. he_name e \<noteq> [] \<and> trim_space (he_name e) = he_name e \<and> names (he_name e) = None)"

lemma valid_env_Nil [simp]: "valid_env names []"
  by (simp add: valid_env_def)

lemma env_loop_valid:
  "env_loop names existing seen es = Inr r \<Longrightarrow> valid_env names r \<and> he_name ` set r \<inter> set seen = {}"
proof (induction es arbitrary: seen r)
  case (Cons e es)
  let ?n = "trim_space (he_name e)"
  obtain r' where r: "env_loop names existing (?n # seen) es = Inr r'"
    "r = \<lparr>he_name = ?n, he_value = (if he_secret e \<and> he_value e = [] then kept_secret existing ?n else he_value e), he_secret = he_secret e\<rparr> # r'"
    "?n \<noteq> []" "names ?n = None" "?n \<notin> set seen"
    using Cons.prems by (auto simp: Let_def split: if_splits option.splits)
  from Cons.IH [OF r(1)] show ?case using r(2-5) by (auto simp: valid_env_def)
qed simp

lemma kept_secret_own:
  assumes "distinct (map he_name es)" "e \<in> set es" "he_secret e"
  shows "kept_secret es (he_name e) = he_value e"
proof -
  have "List.find (\<lambda>x. he_secret x \<and> he_name x = he_name e) (rev es) = Some e"
    using assms distinct_map_unique [OF assms(1) _ assms(2)] by (intro find_unique) auto
  then show ?thesis by (simp add: kept_secret_def)
qed

lemma masked [simp]:
  "he_name (mask_env e) = he_name e" "he_secret (mask_env e) = he_secret e" "he_value (mask_env e) = (if he_secret e then [] else he_value e)"
  by (simp_all add: mask_env_def)

lemma env_loop_echo:
  assumes "valid_env names es" "he_name ` set es \<inter> set seen = {}"
    and "\<And>e. e \<in> set es \<Longrightarrow> he_secret e \<Longrightarrow> kept_secret existing (he_name e) = he_value e"
  shows "env_loop names existing seen (map mask_env es) = Inr es"
  using assms
proof (induction es arbitrary: seen)
  case (Cons e es)
  have "env_loop names existing (he_name e # seen) (map mask_env es) = Inr es"
    using Cons.prems by (intro Cons.IH) (auto simp: valid_env_def)
  then show ?case
    using Cons.prems(1,2) Cons.prems(3) [of e] by (cases "he_secret e") (simp_all add: valid_env_def)
qed simp

lemma env_echo: "valid_env names es \<Longrightarrow> agent_env_from_request names (map mask_env es) es = Inr es"
  unfolding agent_env_from_request_def by (rule env_loop_echo) (simp_all add: kept_secret_own valid_env_def)

text \<open>What every stored agent satisfies, for a fixed check of variable names.\<close>

definition agent_ok :: "(string \<Rightarrow> string option) \<Rightarrow> hub_agent \<Rightarrow> bool" where
  "agent_ok names a \<longleftrightarrow> valid_env names (ga_env a) \<and> scaling_problem (ga_scaling a) = []"

definition site_ok :: "(string \<Rightarrow> string option) \<Rightarrow> agent_site \<Rightarrow> bool" where
  "site_ok names d \<longleftrightarrow> (\<forall>a \<in> set (st_agents d). agent_ok names a)"

lemma with_providers_fields [simp]:
  "ga_name (with_providers ps a) = ga_name a" "ga_env (with_providers ps a) = ga_env a" "ga_scaling (with_providers ps a) = ga_scaling a"
  by (simp_all add: with_providers_def split: prod.split)

lemma merge_agent_fields [simp]:
  "ga_name (merge_agent req servers env a) = ga_name a" "ga_env (merge_agent req servers env a) = given env (ga_env a)"
  "ga_scaling (merge_agent req servers env a) = merge_scaling (au_replicas req) (au_floor req) (ga_scaling a)"
  "ga_custom (merge_agent req servers env a) = ga_custom a"
  by (simp_all add: merge_agent_def)

lemma agent_ok_simps [simp]:
  "agent_ok names (with_providers ps a) = agent_ok names a" "agent_ok names (a\<lparr>ga_updated := t\<rparr>) = agent_ok names a"
  "agent_ok names (a\<lparr>ga_persona := i\<rparr>) = agent_ok names a"
  by (simp_all add: agent_ok_def)

lemma site_ok_simps [simp]:
  "site_ok names (d\<lparr>st_secrets := m\<rparr>) = site_ok names d" "site_ok names (d\<lparr>st_personas := w\<rparr>) = site_ok names d"
  "site_ok names (cleanup_owned_persona k n i d) = site_ok names d"
  by (simp_all add: site_ok_def cleanup_owned_persona_def split: option.split sum.split)

lemma site_ok_write: "site_ok names d \<Longrightarrow> agent_ok names a \<Longrightarrow> site_ok names (write_agent a d)"
  by (auto simp: site_ok_def write_agent_def update_where_def)

lemma env_request_valid: "agent_env_from_request names es old = Inr r \<Longrightarrow> valid_env names r"
  using env_loop_valid [of names old "[]" es r] by (simp add: agent_env_from_request_def)

lemma group_row_data [simp]: "ap_data (assign_group v rt i g s) = ap_data s" "ap_data (release_group v rt i s) = ap_data s"
  by (simp_all add: assign_group_def release_group_def)

lemma found_ok: "find_agent k n d = Some a \<Longrightarrow> site_ok names d \<Longrightarrow> agent_ok names a"
  using lookup_row_SomeD [of ga_name n "st_agents d" a] by (auto simp: find_agent_def site_ok_def split: if_splits)

lemma with_guard_keeps:
  assumes "\<And>c. P (ap_data (snd (h (s\<lparr>ap_cache := c\<rparr>))))" "P (ap_data s)"
  shows "P (ap_data (snd (with_guard g h s)))"
  using assms by (auto simp: with_guard_def split: prod.split sum.split)

lemma guards_keep:
  assumes "\<And>c. P (ap_data (snd (h (s\<lparr>ap_cache := c\<rparr>))))" "P (ap_data s)"
  shows "P (ap_data (snd (guard_read v rt n h s)))" "P (ap_data (snd (guard_write v rt n h s)))"
  unfolding guard_read_def guard_write_def using assms by (rule with_guard_keeps)+

lemma guard_creation_keeps:
  assumes "\<And>c. P (ap_data (snd (h (s\<lparr>ap_cache := c\<rparr>))))" "P (ap_data (snd (h s)))" "P (ap_data s)"
  shows "P (ap_data (snd (guard_creation v g h s)))"
  using assms(2) with_guard_keeps [of P h s] assms(1,3) by (auto simp: guard_creation_def guard_group_write_def)

lemma store_agent_ok:
  assumes "site_ok (ke_names k) (ap_data s)"
  shows "site_ok (ke_names k) (ap_data (snd (store_agent v k req display s)))"
proof -
  have "site_ok (ke_names k) (d\<lparr>st_agents := st_agents (ap_data s) @ [with_providers ps (new_agent k req servers env)]\<rparr>)"
    if "agent_env_from_request (ke_names k) (aq_env req) [] = Inr env"
      "scaling_problem (ga_scaling (new_agent k req servers env)) = []" for d ps servers env
    using env_request_valid [OF that(1)] that(2) assms by (auto simp: site_ok_def agent_ok_def new_agent_def)
  then show ?thesis
    using assms by (simp add: store_agent_def Let_def split: option.split sum.split prod.split)
qed

lemma update_agent_ok:
  assumes "site_ok (ke_names k) (ap_data s)"
  shows "site_ok (ke_names k) (ap_data (snd (update_agent k n body s)))"
proof -
  have "agent_ok (ke_names k) (merge_agent req servers env a)"
    if "find_agent k n (ap_data s) = Some a" "scaling_problem (merge_scaling (au_replicas req) (au_floor req) (ga_scaling a)) = []"
      "(case au_env req of None \<Rightarrow> Inr None
        | Some es \<Rightarrow> map_sum id Some (agent_env_from_request (ke_names k) es (ga_env a))) = Inr env" for a req servers env
    using that(2,3) found_ok [OF that(1) assms] env_request_valid [of "ke_names k"]
    by (auto simp: agent_ok_def given_def split: option.splits)
  then show ?thesis
    using assms by (auto simp: update_agent_def Let_def intro!: site_ok_write split: option.split sum.split prod.split)
qed

lemma persona_edit_ok: "site_ok names (ap_data s) \<Longrightarrow> site_ok names (ap_data (snd (put_agent_persona k n body s)))"
  by (auto simp: put_agent_persona_def Let_def dest: found_ok intro!: site_ok_write split: option.split sum.split prod.split)

lemma delete_agent_ok: "site_ok names (ap_data s) \<Longrightarrow> site_ok names (ap_data (snd (delete_agent v k n s)))"
  by (auto simp: delete_agent_def Let_def site_ok_def delete_rows_def cleanup_owned_persona_def split: option.split sum.split)

lemma handle_agents_ok:
  assumes ok: "site_ok (ke_names k) (ap_data s)"
  shows "site_ok (ke_names k) (ap_data (snd (handle_agents k v q s)))"
proof -
  let ?P = "site_ok (ke_names k)"
  note reads = guards_keep(1) [where P = ?P] and writes = guards_keep(2) [where P = ?P]
  have create: "?P (ap_data (snd (create_agent v k body s)))" for body
  proof (cases "\<exists>req display. body = Inr req \<and> validate_agent_image_ref k (ap_data s) (aq_image req) (aq_tools req) = Inr display")
    case True
    then obtain req display where "create_agent v k body s = guard_creation v (aq_group req) (store_agent v k req display) s"
      by (auto simp: create_agent_def)
    then show ?thesis
      by (simp only:) (intro guard_creation_keeps [where P = ?P]; simp add: store_agent_ok ok)
  next
    case False
    then show ?thesis using ok by (auto simp: create_agent_def split: sum.split)
  qed
  show ?thesis
  proof (cases q)
    case (GetAt path)
    then show ?thesis by (auto split: agent_target.split simp: ok reading_changes_nothing intro!: reads)
  next
    case (PutAt path body persona)
    then show ?thesis by (auto split: agent_target.split simp: ok update_agent_ok persona_edit_ok intro!: writes)
  next
    case (DeleteAt path)
    then show ?thesis by (auto split: agent_target.split simp: ok delete_agent_ok intro!: writes)
  qed (simp_all add: create reading_changes_nothing ok)
qed

lemma served_agents_ok:
  assumes "site_ok names (ap_data s)" "\<forall>(v, k, q) \<in> set xs. ke_names k = names"
  shows "site_ok names (ap_data (serve_agents xs s))"
  using assms
proof (induction xs arbitrary: s)
  case (Cons x xs)
  obtain v k q where x: "x = (v, k, q)" by (cases x) auto
  then have "site_ok names (ap_data (snd (handle_agents k v q s)))" using Cons.prems handle_agents_ok [of k s v q] by auto
  then show ?case using Cons.IH Cons.prems(2) x by (simp add: serve_agents_def)
qed (simp add: serve_agents_def)

text \<open>The update a client sends that returns what it was shown; it has no provider key to return.\<close>

definition echo :: "agent_response \<Rightarrow> agent_change" where
  "echo r =
     \<lparr>au_name = Some (sa_name r), au_description = Some (sa_description r), au_image = Some (fst (sa_image r)), au_llm = Some (sa_llm r),
      au_persona = sa_persona r, au_tools = Some (sa_tools r), au_skills = sa_skills r, au_mcp = map_option (map ms_name) (sa_mcp r),
      au_env = Some (sa_env r), au_replicas = sa_replicas r, au_floor = sa_floor r, au_memory = sa_memory r,
      au_ollama = (if sa_ollama r then Some [] else None), au_opencode = (if sa_opencode r then Some [] else None),
      au_alibaba = (if sa_alibaba r then Some [] else None), au_custom = map_option (\<lambda>url. (url, [])) (sa_custom r)\<rparr>"

lemma merge_llm_same: "merge_llm l l = l"
  by (cases l) (simp add: merge_llm_def split: option.split)

lemma merge_scaling_same:
  "merge_scaling (case sc of None \<Rightarrow> None | Some (r, m) \<Rightarrow> r) (case sc of None \<Rightarrow> None | Some (r, m) \<Rightarrow> m) sc = sc"
  by (auto simp: merge_scaling_def given_def split: option.split)

lemma merge_echo: "merge_agent (echo (to_simple_agent_response a display)) (ga_mcp a) (Some (ga_env a)) a = a"
  by (cases a) (auto simp: merge_agent_def echo_def to_simple_agent_response_def given_def merge_llm_same merge_scaling_same split: option.split)

lemma provider_echo:
  "provider_steps v True n (if x then Some [] else None) (if y then Some [] else None) (if z then Some [] else None)
     (map_option (\<lambda>url. (url, [])) (map_option fst c)) c m = (Inr (None, None, None, c), m)"
  by (auto simp: provider_steps_def key_step_def split: option.split)

lemma resolve_same:
  assumes "\<And>i. ke_server k i" "\<forall>m \<in> set ms. lookup_row ms_name (ms_name m) reg = Some m"
  shows "resolve_servers k reg (map ms_name ms) = Inr ms"
  using assms(2) by (induction ms) (auto simp: assms(1))

lemma known_skills:
  assumes "\<And>i. ke_skill k i" "set is \<subseteq> set known"
  shows "check_skills k known is = None"
  using assms(2) by (induction "is") (auto simp: assms(1))

text \<open>The registry, the images and the skills an agent refers to are there.\<close>

definition backed :: "agent_site \<Rightarrow> hub_agent \<Rightarrow> bool" where
  "backed d a \<longleftrightarrow> trim_space (ga_image a) \<noteq> [] \<and>
     (\<exists>img. lookup_row hi_name (ga_image a) (st_images d) = Some img \<and> set (ga_tools a) \<subseteq> set (hi_tools img)) \<and>
     (case ga_skills a of None \<Rightarrow> True | Some is \<Rightarrow> (case st_skills d of None \<Rightarrow> True | Some known \<Rightarrow> set is \<subseteq> set known)) \<and>
     (case ga_mcp a of None \<Rightarrow> True | Some ms \<Rightarrow>
        (case st_servers d of None \<Rightarrow> False | Some reg \<Rightarrow> (\<forall>m \<in> set ms. lookup_row ms_name (ms_name m) reg = Some m)))"

definition answering_kube :: "kube_env \<Rightarrow> bool" where
  "answering_kube k \<longleftrightarrow> ke_get k \<and> ke_list k \<and> ke_image k \<and> ke_images k \<and> ke_display k \<and> ke_write k \<and>
     (\<forall>i. ke_server k i) \<and> (\<forall>i. ke_skill k i) \<and> (\<forall>p. ke_secret k p) \<and> (\<forall>p. ke_resecret k p)"

lemma answering_kubeD:
  assumes "answering_kube k"
  shows "ke_get k" "ke_list k" "ke_image k" "ke_images k" "ke_display k" "ke_write k" "ke_server k i" "ke_skill k i" "ke_secret k p" "ke_resecret k p"
  using assms by (simp_all add: answering_kube_def)

lemma echo_checks:
  assumes "answering_kube k" "backed d a" "agent_ok (ke_names k) a" "r = to_simple_agent_response a display"
    and "lookup_row hi_name (ga_image a) (st_images d) = Some img"
  shows "validate_agent_image_ref k d (ga_image a) (ga_tools a) = Inr (hi_display img)"
    "au_image (echo r) = Some (ga_image a)" "au_tools (echo r) = Some (ga_tools a)"
    "validate_enabled_skills k d (au_skills (echo r)) = None" "resolve_mcp_request k d (au_mcp (echo r)) = Inr (ga_mcp a)"
    "au_env (echo r) = Some (map mask_env (ga_env a))"
  using assms(2-5) resolve_same [of k] known_skills [of k] answering_kubeD [OF assms(1)]
  by (auto simp: backed_def validate_agent_image_ref_def validate_enabled_skills_def resolve_mcp_request_def echo_def given_def
      to_simple_agent_response_def filter_empty_conv split: option.splits)

text \<open>
  C28. What an agent shows can be sent back. Whatever requests were served before (so that every agent carries valid variables and a
  workable scaling), an update that returns everything a read has just shown succeeds, as long as the image, the skills and
  the MCP servers of the agent still are what it refers to and the API server answers. It leaves everything stored of the agent as it
  was except the time stamp: the values of the secret variables, which the answer hides, and the provider keys
  survive, and the answer is the same again.
\<close>

theorem shown_agent_can_be_sent_back:
  assumes "site_ok (ke_names k) (ap_data s0)" "\<forall>(v, k', q) \<in> set xs. ke_names k' = ke_names k" "s = serve_agents xs s0"
    and "answering_kube k" "find_agent k n (ap_data s) = Some a" "backed (ap_data s) a"
    and "get_agent k n s = (Inr r, s)"
  shows "\<exists>s'. update_agent k n (Inr (echo r)) s = (Inr (r\<lparr>sa_updated := ke_stamp k\<rparr>), s') \<and>
    st_agents (ap_data s') = update_where (\<lambda>x. ga_name x = n) (\<lambda>_. a\<lparr>ga_updated := Some (ke_stamp k)\<rparr>) (st_agents (ap_data s)) \<and>
    st_secrets (ap_data s') = st_secrets (ap_data s) \<and> ap_authz s' = ap_authz s"
proof -
  let ?d = "ap_data s"
  have ok: "agent_ok (ke_names k) a"
    using found_ok [OF assms(5)] served_agents_ok [OF assms(1,2)] assms(3) by simp
  have n: "ga_name a = n"
    using assms(5) lookup_row_SomeD [of ga_name n "st_agents ?d" a] by (auto simp: find_agent_def split: if_splits)
  obtain img where img: "lookup_row hi_name (ga_image a) (st_images ?d) = Some img" using assms(6) by (auto simp: backed_def)
  have r: "r = to_simple_agent_response a (hi_display img)"
    using assms(7) answering_kubeD [OF assms(4)] by (auto simp: get_agent_def assms(5) resolve_image_display_name_def img)
  note c = echo_checks [OF assms(4,6) ok r img]
  have env: "agent_env_from_request (ke_names k) (map mask_env (ga_env a)) (ga_env a) = Inr (ga_env a)"
    using ok by (simp add: env_echo agent_ok_def)
  have m: "merge_agent (echo r) (ga_mcp a) (Some (ga_env a)) a = a" by (simp add: r merge_echo)
  have p: "provider_steps k True n (au_ollama (echo r)) (au_opencode (echo r)) (au_alibaba (echo r)) (au_custom (echo r)) (ga_custom a) (st_secrets ?d) =
      (Inr (None, None, None, ga_custom a), st_secrets ?d)"
    by (simp add: r echo_def to_simple_agent_response_def provider_echo)
  have w: "with_providers (None, None, None, ga_custom a) a = a"
    by (cases a) (simp add: with_providers_def set_key_def)
  let ?a = "a\<lparr>ga_updated := Some (ke_stamp k)\<rparr>"
  have resp: "to_simple_agent_response ?a (hi_display img) = r\<lparr>sa_updated := ke_stamp k\<rparr>"
    by (simp add: r to_simple_agent_response_def agent_updated_at_def)
  have same: "st_agents (cleanup_owned_persona k n i d) = st_agents d" "st_secrets (cleanup_owned_persona k n i d) = st_secrets d" for i d
    by (simp_all add: cleanup_owned_persona_def split: option.split sum.split)
  have sc: "scaling_problem (ga_scaling a) = []" using ok by (simp add: agent_ok_def)
  show ?thesis
    using answering_kubeD [OF assms(4)]
    by (simp add: update_agent_def Let_def assms(5) c env m p w resp sc n same write_agent_def given_def del: merge_agent_fields split: option.split)
qed

section \<open>Refused updates\<close>

text \<open>Every secret is as it was or holds a key that was asked for.\<close>

definition keys_asked :: "string \<Rightarrow> (provider \<Rightarrow> string option) \<Rightarrow> secrets \<Rightarrow> secrets \<Rightarrow> bool" where
  "keys_asked agent asked m m' \<longleftrightarrow>
     (\<forall>i. map_of m' i = map_of m i \<or>
        (\<exists>p x. i = agent @ key_suffix p \<and> asked p = Some x \<and> x \<noteq> [] \<and> map_of m' i = Some [(''api-key'', x)]))"

lemma keys_asked_refl [simp]: "keys_asked agent asked m m"
  by (simp add: keys_asked_def)

lemma keys_asked_trans: "keys_asked agent asked m m1 \<Longrightarrow> keys_asked agent asked m1 m2 \<Longrightarrow> keys_asked agent asked m m2"
  unfolding keys_asked_def by metis

lemma key_step_asked:
  assumes "key_step v replace p agent key m = (r, m')" "asked p = key"
  shows "keys_asked agent asked m m'"
proof -
  have "m' = m \<or> (\<exists>x. key = Some x \<and> x \<noteq> [] \<and> m' = aput (agent @ key_suffix p) [(''api-key'', x)] m)"
    using assms(1) by (cases key) (auto simp: key_step_def store_key_def Let_def split: if_splits)
  then show ?thesis
  proof (elim disjE exE conjE)
    fix x assume x: "key = Some x" "x \<noteq> []" "m' = aput (agent @ key_suffix p) [(''api-key'', x)] m"
    then have "i = agent @ key_suffix p \<and> asked p = Some x \<and> map_of m' i = Some [(''api-key'', x)] \<or> map_of m' i = map_of m i" for i
      using assms(2) by simp
    then show ?thesis using x(2) by (meson keys_asked_def)
  qed simp
qed

fun asked_key :: "string option \<Rightarrow> string option \<Rightarrow> string option \<Rightarrow> (string \<times> string) option \<Rightarrow> provider \<Rightarrow> string option" where
  "asked_key ollama opencode alibaba custom Ollama = ollama"
| "asked_key ollama opencode alibaba custom OpenCode = opencode"
| "asked_key ollama opencode alibaba custom Alibaba = alibaba"
| "asked_key ollama opencode alibaba custom CustomLLM = map_option snd custom"

lemma provider_steps_asked:
  assumes "provider_steps v replace agent ollama opencode alibaba custom before m = (r, m')"
  shows "keys_asked agent (asked_key ollama opencode alibaba custom) m m'"
proof -
  let ?asked = "asked_key ollama opencode alibaba custom"
  obtain r1 m1 where 1: "key_step v replace Ollama agent ollama m = (r1, m1)" by fastforce
  obtain r2 m2 where 2: "key_step v replace OpenCode agent opencode m1 = (r2, m2)" by fastforce
  obtain r3 m3 where 3: "key_step v replace Alibaba agent alibaba m2 = (r3, m3)" by fastforce
  have a: "keys_asked agent ?asked m m1" "keys_asked agent ?asked m1 m2" "keys_asked agent ?asked m2 m3"
    using key_step_asked [OF 1] key_step_asked [OF 2] key_step_asked [OF 3] by simp_all
  then have a3: "keys_asked agent ?asked m m2" "keys_asked agent ?asked m m3" by (blast intro: keys_asked_trans)+
  show ?thesis
  proof (cases custom)
    case None
    then show ?thesis using assms 1 2 3 a a3 by (auto simp: provider_steps_def split: sum.splits)
  next
    case (Some uk)
    obtain url key where uk: "uk = (url, key)" by fastforce
    obtain r4 m4 where 4: "key_step v replace CustomLLM agent (Some key) m3 = (r4, m4)" by fastforce
    have "keys_asked agent ?asked m3 m4" using key_step_asked [OF 4] Some uk by simp
    then have "keys_asked agent ?asked m m4" using a3 by (blast intro: keys_asked_trans)
    then show ?thesis using assms 1 2 3 4 a a3 Some uk by (auto simp: provider_steps_def split: sum.splits if_splits)
  qed
qed

text \<open>
  C29. A refused update keeps every agent. When an update is answered with an error, whatever failed, the agents, the personas and the access
  tables are exactly as they were, and a secret differs at most when it is the one of this agent for a provider
  whose key the request brought, and then it holds that key.
\<close>

theorem refused_update_keeps_agents:
  assumes "update_agent k n body s = (Inl e, s')"
  shows "ap_authz s' = ap_authz s \<and> st_agents (ap_data s') = st_agents (ap_data s) \<and> st_personas (ap_data s') = st_personas (ap_data s) \<and>
    (\<forall>i. map_of (st_secrets (ap_data s')) i \<noteq> map_of (st_secrets (ap_data s)) i \<longrightarrow>
       (\<exists>p x req. body = Inr req \<and> i = n @ key_suffix p \<and>
          asked_key (au_ollama req) (au_opencode req) (au_alibaba req) (au_custom req) p = Some x \<and> x \<noteq> [] \<and>
          map_of (st_secrets (ap_data s')) i = Some [(''api-key'', x)]))"
proof -
  have "s' = s \<or> (\<exists>req a ps m. body = Inr req \<and> find_agent k n (ap_data s) = Some a \<and>
      provider_steps k True (ga_name a) (au_ollama req) (au_opencode req) (au_alibaba req) (au_custom req) (ga_custom a) (st_secrets (ap_data s)) = (ps, m) \<and>
      s' = put_site ((ap_data s)\<lparr>st_secrets := m\<rparr>) s)"
    using assms by (auto simp: update_agent_def Let_def split: option.splits sum.splits prod.splits if_splits)
  then show ?thesis
  proof (elim disjE exE conjE)
    fix req a ps m
    assume b: "body = Inr req" and f: "find_agent k n (ap_data s) = Some a"
      and p: "provider_steps k True (ga_name a) (au_ollama req) (au_opencode req) (au_alibaba req) (au_custom req) (ga_custom a) (st_secrets (ap_data s)) = (ps, m)"
      and s': "s' = put_site ((ap_data s)\<lparr>st_secrets := m\<rparr>) s"
    have "ga_name a = n" using f lookup_row_SomeD [of ga_name n "st_agents (ap_data s)" a] by (auto simp: find_agent_def split: if_splits)
    then show ?thesis using provider_steps_asked [OF p] b s' by (auto simp: keys_asked_def)
  qed simp
qed

text \<open>
  It is not free of effects, though: an update that brings a new key of one provider and a custom provider without a URL, for an agent that has none,
  is refused as a bad request, and the stored key, which the agent goes on using, has been replaced.
\<close>

lemma refused_update_replaces_key:
  assumes "answering_kube k" "find_agent k n (ap_data s) = Some a" "agent_ok (ke_names k) a" "ga_custom a = None"
    and "au_image req = None" "au_tools req = None" "au_skills req = None" "au_mcp req = None" "au_env req = None"
    and "au_replicas req = None" "au_floor req = None" "au_opencode req = None" "au_alibaba req = None"
    and "au_ollama req = Some x" "x \<noteq> []" "au_custom req = Some ([], y)"
  shows "\<exists>s'. update_agent k n (Inr req) s = (Inl (Refused 400 ''custom provider URL is required''), s') \<and>
    st_agents (ap_data s') = st_agents (ap_data s) \<and> map_of (st_secrets (ap_data s')) (n @ ''-llm-key'') = Some [(''api-key'', x)]"
proof -
  have n: "ga_name a = n" using assms(2) lookup_row_SomeD [of ga_name n "st_agents (ap_data s)" a] by (auto simp: find_agent_def split: if_splits)
  have sc: "scaling_problem (ga_scaling a) = []" using assms(3) by (simp add: agent_ok_def)
  show ?thesis
    using answering_kubeD [OF assms(1)] assms(4-)
    by (simp add: update_agent_def assms(2) Let_def validate_enabled_skills_def resolve_mcp_request_def merge_scaling_def sc n
        provider_steps_def key_step_def store_key_def key_suffix_def map_of_aput)
qed

section \<open>The persona of an agent\<close>

lemma find_is_found: "x \<in> set xs \<Longrightarrow> p x \<Longrightarrow> \<exists>y. List.find p xs = Some y \<and> p y"
  by (metis find_None_all find_Some_iff_first option.exhaust)

lemma created_is_owned:
  assumes "add_persona e req w = (Inr p, w')" "cp_owner req \<noteq> []"
  shows "\<exists>p'. get_by_owner True (cp_owner req) (pw_db w') = Inr p'"
proof -
  have "\<exists>row ver rows vers. pd_rows (pw_db w') = rows @ [row] \<and> pd_versions (pw_db w') = vers @ [ver] \<and>
      pr_owner row = Some (cp_owner req) \<and> pr_current row = vr_id ver"
    using assms
    by (auto simp: add_persona_def create_persona_def add_version_def Let_def split: option.splits if_splits prod.splits sum.splits)
  then obtain row ver vers where d: "row \<in> set (pd_rows (pw_db w'))" "pr_owner row = Some (cp_owner req)"
    "pd_versions (pw_db w') = vers @ [ver]" "pr_current row = vr_id ver"
    by (metis in_set_conv_decomp)
  then obtain v where "current_version (pw_db w') row = Some v"
    by (cases "lookup_row vr_id (vr_id ver) vers") (auto simp: current_version_def sql_simps)
  note r = d(1,2) this
  then have "(row, v) \<in> set (joined (pw_db w'))" by (force simp: joined_def List.map_filter_def image_iff)
  then obtain y where "List.find (\<lambda>(p, v). pr_owner p = Some (cp_owner req)) (joined (pw_db w')) = Some y"
    using find_is_found [of "(row, v)" "joined (pw_db w')" "\<lambda>(p, v). pr_owner p = Some (cp_owner req)"] r(2) by auto
  then show ?thesis by (auto simp: get_by_owner_def split: prod.split)
qed

lemma find_agent_Some_iff: "find_agent k n d \<noteq> None \<longleftrightarrow> ke_get k \<and> n \<in> ga_name ` set (st_agents d)"
  using lookup_row_None_iff [of ga_name n "st_agents d"] by (auto simp: find_agent_def)

lemma written_names: "ga_name ` set (st_agents (write_agent a d)) = ga_name ` set (st_agents d)"
proof -
  have "map ga_name (update_where (\<lambda>x. ga_name x = ga_name a) (\<lambda>_. a) (st_agents d)) = map ga_name (st_agents d)"
    by (auto simp: update_where_def)
  then show ?thesis by (metis agent_site.select_convs(1) agent_site.surjective agent_site.update_convs(1) set_map write_agent_def)
qed

lemma write_agent_personas [simp]: "st_personas (write_agent a d) = st_personas d"
  by (simp add: write_agent_def)

text \<open>
  An inline edit needs a name, from the second one on. The first edit of the persona of an agent may leave the name blank and
  gets one from the agent, as documented; the very same request sent again is refused as a bad request.
\<close>

theorem inline_edit_needs_name:
  assumes "put_agent_persona k n (Inr (name, d, t)) s = (Inr r, s1)" "trim_space name = []" "n \<noteq> []"
    and "ke_get k2" "pe_lookup (ke_persona k2)"
  shows "pa_owned r \<and> put_agent_persona k2 n (Inr (name, d, t)) s1 = (Inl (Refused 400 ''validation: name: is required''), s1)"
proof -
  let ?req = "\<lparr>pc_name = Some (trim_space name), pc_description = Some d, pc_text = Some t\<rparr>"
  have blank: "change_persona e i ?req w = (Inl (BadField ''name'' ''is required''), w)" for e i w
    by (simp add: change_persona_def assms(2) validate_name_def)
  obtain w a p w1 where w: "st_personas (ap_data s) = Some w" "find_agent k n (ap_data s) = Some a"
    "ensure_owned (ke_persona k) n (default_owned_persona_name a) ?req w = (Inr p, w1)" "pa_owned r"
    and s1: "st_personas (ap_data s1) = Some w1" "ga_name ` set (st_agents (ap_data s1)) = ga_name ` set (st_agents (ap_data s))"
    using assms(1)
    by (auto simp: put_agent_persona_def Let_def written_names split: option.splits sum.splits prod.splits if_splits)
  then obtain req where "add_persona (ke_persona k) req w = (Inr p, w1)" "cp_owner req = n"
    by (auto simp: ensure_owned_def blank split: sum.splits if_splits)
  then obtain p' where own: "get_by_owner True n (pw_db w1) = Inr p'" using created_is_owned assms(3) by blast
  have "n \<in> ga_name ` set (st_agents (ap_data s))" using w(2) find_agent_Some_iff [of k n "ap_data s"] by simp
  then obtain a1 where a1: "find_agent k2 n (ap_data s1) = Some a1" using find_agent_Some_iff [of k2 n "ap_data s1"] s1 assms(4) by auto
  have same: "put_site ((ap_data s1)\<lparr>st_personas := Some w1\<rparr>) s1 = s1"
    using s1(1) by (simp add: put_site_def)
  show ?thesis
    using w(4) same by (simp add: put_agent_persona_def s1 a1 ensure_owned_def own assms(5) blank)
qed

text \<open>Where a path ends decides what it names.\<close>

lemma ends_in: "has_suffix (x @ y) z \<longleftrightarrow> has_suffix y z \<or> length y < length z \<and> has_suffix (x @ y) z"
  by (auto simp: has_suffix_def)

lemma persona_path: "agent_target_of (n @ ''/persona'') = PersonaOf n"
proof -
  have "has_suffix (n @ ''/persona'') ''/persona''" "\<not> has_suffix (n @ ''/persona'') ''/ack''" "\<not> has_suffix (n @ ''/persona'') ''/nack''"
    by (simp_all add: has_suffix_def)
  moreover have "\<not> has_suffix (n @ ''/persona'') ''/next-task''"
  proof
    assume "has_suffix (n @ ''/persona'') ''/next-task''"
    then obtain x where "n @ ''/persona'' = x @ ''/next-task''" by (metis append_take_drop_id has_suffix_def)
    then have "last (n @ ''/persona'') = last (x @ ''/next-task'')" by simp
    then show False by simp
  qed
  ultimately show ?thesis by (simp add: agent_target_of_def)
qed

lemma creation_passed:
  assumes "guard_creation v gid k s = (Inr x, s')" "fresh s"
  obtains c where "fresh_cache (ap_authz s) c" "k (s\<lparr>ap_cache := c\<rparr>) = (Inr x, s')"
proof (cases "cl_wired v")
  case False
  then show ?thesis using assms that [of "ap_cache s"] by (simp add: guard_creation_def fresh_def)
next
  case True
  then have g: "guard_group_write v gid k s = (Inr x, s')" using assms(1) by (auto simp: guard_creation_def split: if_splits)
  then obtain u c where c: "require_group_write (cl_wired v) (cl_check v) (ap_authz s) (cl_caller v) gid (ap_cache s) = (Inr u, c)"
    "k (s\<lparr>ap_cache := c\<rparr>) = (Inr x, s')"
    by (auto simp: guard_group_write_def with_guard_def split: prod.splits sum.splits)
  have "fresh_cache (ap_authz s) c"
    using c(1) assms(2) unfolding require_group_write_def fresh_def by (rule guard_fresh) (erule checks_fresh, use assms(2) in \<open>simp add: fresh_def\<close>)
  then show ?thesis using c(2) that by blast
qed

lemma stored_agent:
  assumes "store_agent v k req display s = (Inr r, s')" "st_personas (ap_data s) = Some w"
  shows "sa_id r = ke_id k \<and> ap_cache s' = ap_cache s \<and> st_personas (ap_data s') = Some w \<and>
    (\<exists>a. st_agents (ap_data s') = st_agents (ap_data s) @ [a] \<and> ga_name a = ke_id k \<and> \<not> has_row ga_name (ke_id k) (st_agents (ap_data s)) \<and>
       ga_persona a = (case aq_persona req of None \<Rightarrow> [] | Some i \<Rightarrow> i)) \<and>
    ap_authz s' = ap_authz (assign_group v rt_agent (ke_id k) (aq_group req) s)"
proof -
  have "ap_authz (assign_group v rt_agent i g (put_site d s)) = ap_authz (assign_group v rt_agent i g s)" for i g d
    by (simp add: assign_group_def put_site_def)
  moreover have "ga_persona (with_providers ps a) = ga_persona a" for ps a by (simp add: with_providers_def split: prod.split)
  ultimately show ?thesis
    using assms by (auto simp: store_agent_def Let_def to_simple_agent_response_def new_agent_def
        split: option.splits sum.splits prod.splits if_splits)
qed

lemma new_resource_row:
  assumes "access_wf db" "has_role db sub g need" "g \<noteq> []" "cl_wired v" "cl_group v" "ap_authz s = db"
    and "\<not> has_row resource_key (rt, i) (az_resources db)"
  defines "db' \<equiv> ap_authz (assign_group v rt i g s)"
  shows "az_users db' = az_users db" "az_members db' = az_members db" "az_groups db' = az_groups db"
    "az_resources db' = az_resources db @ [\<lparr>rg_type = rt, rg_name = i, rg_group = g, rg_public = False, rg_created = cl_now v\<rparr>]"
proof -
  have "has_row gr_id g (az_groups db)"
  proof -
    obtain m where "m \<in> set (az_members db)" "gm_group m = g" using assms(2) by (auto simp: has_role_def list_ex_iff)
    moreover have "\<forall>m \<in> set (az_members db). gm_group m \<in> gr_id ` set (az_groups db)" using assms(1) by (simp add: wf_defs)
    ultimately have "g \<in> gr_id ` set (az_groups db)" by metis
    then show ?thesis by (auto simp: has_row_iff lookup_row_None_iff)
  qed
  then show "az_users db' = az_users db" "az_members db' = az_members db" "az_groups db' = az_groups db"
    "az_resources db' = az_resources db @ [\<lparr>rg_type = rt, rg_name = i, rg_group = g, rg_public = False, rg_created = cl_now v\<rparr>]"
    using assms(3-7) by (simp_all add: db'_def assign_group_def set_resource_group_def)
qed

text \<open>
  C30. Whoever may create an agent may read every persona. A caller who is not allowed to read a persona creates an agent that refers to it,
  which asks for no permission on the persona, and then reads its name and its whole text through the new agent.
  The persona stays unreadable for the caller by the policy.
\<close>

theorem agent_reference_reveals_persona:
  assumes "access_wf (ap_authz s)" "fresh s" "cl_wired v" "cl_caller v = Some sub" "cl_group v" "sub \<in> us_id ` set (az_users (ap_authz s))"
    and "handle_agents k v (PostAgent (Inr req)) s = (Inr (AgentReply r), s1)" "aq_persona req = Some pid" "pid \<noteq> []"
    and "\<not> has_row resource_key (''agent'', ke_id k) (az_resources (ap_authz s))"
    and "st_personas (ap_data s) = Some w" "get_persona True pid (pw_db w) = Inr p" "\<not> permitted (ap_authz s) sub role_reader ''persona'' pid"
    and "cl_wired v2" "cl_caller v2 = Some sub" "answering (cl_check v2)" "ke_get k2" "pe_lookup (ke_persona k2)"
  shows "fst (handle_agents k2 v2 (GetAt (sa_id r @ ''/persona'')) s1) =
      Inr (PersonaReply \<lparr>pa_owned = (ps_owner p = sa_id r), pa_ref = pid, pa_persona = Some p\<rparr>) \<and>
    \<not> permitted (ap_authz s1) sub role_reader ''persona'' pid"
proof -
  let ?db = "ap_authz s"
  have cur: "current v s" using assms(1,2) by (rule fresh_current)
  obtain x y where x: "create_agent v k (Inr req) s = (x, y)" by (cases "create_agent v k (Inr req) s")
  then have "x = Inr r" "y = s1" using assms(7) by (cases x; simp)+
  then obtain display where g: "guard_creation v (aq_group req) (store_agent v k req display) s = (Inr r, s1)"
    using x by (auto simp: create_agent_def split: sum.splits)
  obtain c where c: "fresh_cache ?db c" "store_agent v k req display (s\<lparr>ap_cache := c\<rparr>) = (Inr r, s1)"
    by (rule creation_passed [OF g assms(2)])
  then obtain a where a: "sa_id r = ke_id k" "ap_cache s1 = c" "st_personas (ap_data s1) = Some w" "st_agents (ap_data s1) = st_agents (ap_data s) @ [a]"
    "ga_name a = ke_id k" "\<not> has_row ga_name (ke_id k) (st_agents (ap_data s))" "ga_persona a = pid"
    "ap_authz s1 = ap_authz (assign_group v rt_agent (ke_id k) (aq_group req) (s\<lparr>ap_cache := c\<rparr>))"
    using stored_agent [OF c(2)] assms(8,11) by auto
  have "ap_data s1 \<noteq> ap_data s" using a(4) by auto
  then have "changed s s1" by (simp add: changed_def)
  from guard_creation_change [OF g this assms(3) cur] have role: "aq_group req \<noteq> []" "has_role ?db sub (aq_group req) role_writer"
    using assms(4,13) by (auto simp: permitted_def)
  have "ap_authz (s\<lparr>ap_cache := c\<rparr>) = ?db" by simp
  note db1 = new_resource_row [OF assms(1) role(2,1) assms(3,5) this assms(10), folded rt_agent_def, folded a(8)]
  have same: "admin_user (ap_authz s1) sub = admin_user ?db sub" "has_role (ap_authz s1) sub g need = has_role ?db sub g need" for g need
    by (simp_all add: admin_user_def has_role_def db1)
  have hidden: "\<not> permitted (ap_authz s1) sub role_reader ''persona'' pid"
    using assms(13) by (auto simp: permitted_def same db1(4) rt_agent_def)
  have "has_role ?db sub (aq_group req) role_reader"
    using role(2) by (fastforce simp: has_role_def list_ex_iff role_covers_def)
  then have shown: "permitted (ap_authz s1) sub role_reader ''agent'' (ke_id k)" by (simp add: permitted_def same db1(4) rt_agent_def)
  have wf: "access_wf (ap_authz s1)"
    using assms(1) by (simp add: a(8) assign_group_def wf_set_resource)
  have "roles_of (ap_authz s1) sub = roles_of ?db sub" by (simp add: roles_of_def db1)
  moreover have "coherent c ?db sub (ck_now (cl_check v2))" using c(1) by (simp add: fresh_cache_def)
  ultimately have "coherent c (ap_authz s1) sub (ck_now (cl_check v2))" by (simp add: coherent_def split: option.splits prod.splits)
  then have "fst (can_read (cl_check v2) (ap_authz s1) sub ''agent'' (ke_id k) c) = Inr True"
    using can_read_permitted [OF wf assms(16)] assms(6) shown by (simp add: db1)
  then obtain c2 where "can_read (cl_check v2) (ap_authz s1) sub ''agent'' (ke_id k) c = (Inr True, c2)"
    by (cases "can_read (cl_check v2) (ap_authz s1) sub ''agent'' (ke_id k) c") auto
  moreover have "find_agent k2 (ke_id k) (ap_data s1) = Some a"
    using a(4-6) assms(17) by (simp add: find_agent_def sql_simps has_row_iff)
  ultimately show ?thesis
    using hidden assms(9,12,14,15,18)
    by (simp add: a persona_path guard_read_def with_guard_def require_read_def guard_def rt_agent_def get_agent_persona_def)
qed

section \<open>Sample requests\<close>

definition sample_agent :: hub_agent where
  "sample_agent =
     \<lparr>ga_name = ''a1'', ga_display = ''Ada'', ga_description = [], ga_image = ''i1'',
      ga_llm = \<lparr>lm_model = ''m'', lm_provider = [], lm_turns = 0, lm_temperature = None, lm_vision = None\<rparr>, ga_persona = [],
      ga_tools = [''git''], ga_skills = None, ga_mcp = None,
      ga_env = [\<lparr>he_name = ''TOKEN'', he_value = ''hush'', he_secret = True\<rparr>, \<lparr>he_name = ''MODE'', he_value = ''x'', he_secret = False\<rparr>],
      ga_scaling = None, ga_memory = None, ga_ollama = Some (Some \<lparr>kr_name = ''a1-llm-key'', kr_key = ''api-key''\<rparr>), ga_opencode = None,
      ga_alibaba = None, ga_custom = None, ga_updated = None, ga_created = ''t0'', ga_status = no_status\<rparr>"

definition calm_store :: persona_env where
  "calm_store = \<lparr>pe_pg = all_ok, pe_lookup = True, pe_undo = True, pe_got = True, pe_put = True, pe_agents = True, pe_id = ''p2'', pe_now = 2\<rparr>"

definition calm_kube :: "string \<Rightarrow> string \<Rightarrow> kube_env" where
  "calm_kube i t =
     \<lparr>ke_get = True, ke_list = True, ke_image = True, ke_images = True, ke_display = True, ke_server = (\<lambda>_. True), ke_skill = (\<lambda>_. True),
      ke_secret = (\<lambda>_. True), ke_resecret = (\<lambda>_. True), ke_write = True, ke_id = i, ke_stamp = t, ke_persona = calm_store,
      ke_cleanup = calm_store, ke_names = (\<lambda>_. None)\<rparr>"

definition sample_personas :: persona_world where
  "sample_personas =
     \<lparr>pw_db = \<lparr>pd_rows = [\<lparr>pr_id = ''p1'', pr_name = ''Judge'', pr_description = [], pr_current = 1, pr_owner = None, pr_created = 0, pr_updated = 0\<rparr>],
               pd_versions = [\<lparr>vr_id = 1, vr_persona = ''p1'', vr_number = 1, vr_text = ''be fair'', vr_created = 0\<rparr>], pd_next = 2\<rparr>,
      pw_maps = []\<rparr>"

definition agent_console :: "agent_site api" where
  "agent_console =
     \<lparr>ap_authz = sample_access, ap_cache = new_group_cache 30,
      ap_data = \<lparr>st_agents = [sample_agent], st_images = [\<lparr>hi_name = ''i1'', hi_display = ''Base'', hi_tools = [''git'']\<rparr>],
        st_secrets = [(''a1-llm-key'', [(''api-key'', ''old'')])], st_personas = Some sample_personas, st_servers = None, st_skills = None\<rparr>\<rparr>"

lemma agent_console_fresh: "access_wf (ap_authz agent_console)" "fresh agent_console"
  by (simp_all add: agent_console_def sample_access_wf fresh_def fresh_cache_def coherent_def new_group_cache_def)

lemma calm_kube_answers [simp]: "answering_kube (calm_kube i t)" "ke_names (calm_kube i t) = (\<lambda>_. None)"
  by (simp_all add: answering_kube_def calm_kube_def)

theorem agent_changes_are_permitted_witness:
  "ap_data (serve_agents [(plain_call ''eve'', calm_kube [] ''t1'', DeleteAt ''a1''), (plain_call ''bob'', calm_kube [] ''t1'', GetAt ''a1'')] agent_console) =
     ap_data agent_console"
proof -
  have "\<not> agent_needs (DeleteAt ''a1'') (ap_authz agent_console) ''eve''" by code_simp
  then show ?thesis
    using agent_changes_are_permitted [OF agent_console_fresh,
        of "[(plain_call ''eve'', calm_kube [] ''t1'', DeleteAt ''a1''), (plain_call ''bob'', calm_kube [] ''t1'', GetAt ''a1'')]"]
    by (simp add: plain_call_def)
qed

lemma sample_agent_found: "find_agent (calm_kube i t) ''a1'' (ap_data agent_console) = Some sample_agent"
  by (simp add: find_agent_def calm_kube_def agent_console_def sample_agent_def sql_simps)

lemma sample_agent_ok: "agent_ok (\<lambda>_. None) sample_agent"
  by (simp add: agent_ok_def valid_env_def sample_agent_def scaling_problem_def trim_space_def is_space_def)

theorem shown_agent_can_be_sent_back_witness:
  "\<exists>r s'. get_agent (calm_kube [] ''t1'') ''a1'' agent_console = (Inr r, agent_console) \<and> map he_value (sa_env r) = [[], ''x''] \<and>
     update_agent (calm_kube [] ''t1'') ''a1'' (Inr (echo r)) agent_console = (Inr (r\<lparr>sa_updated := ''t1''\<rparr>), s') \<and>
     map ga_env (st_agents (ap_data s')) = [ga_env sample_agent] \<and> st_secrets (ap_data s') = [(''a1-llm-key'', [(''api-key'', ''old'')])]"
proof -
  let ?r = "to_simple_agent_response sample_agent (resolve_image_display_name (calm_kube [] ''t1'') (ap_data agent_console) ''i1'')"
  have g: "get_agent (calm_kube [] ''t1'') ''a1'' agent_console = (Inr ?r, agent_console)"
    by (simp add: get_agent_def sample_agent_found) (simp add: sample_agent_def)
  have o: "site_ok (ke_names (calm_kube [] ''t1'')) (ap_data agent_console)"
    using sample_agent_ok by (simp add: site_ok_def agent_console_def)
  have b: "backed (ap_data agent_console) sample_agent"
    by (simp add: backed_def agent_console_def sample_agent_def sql_simps trim_space_def is_space_def)
  have e: "agent_console = serve_agents [] agent_console" by (simp add: serve_agents_def)
  have n: "\<forall>(v, k', q) \<in> set []. ke_names k' = ke_names (calm_kube [] ''t1'')" by simp
  obtain s' where "update_agent (calm_kube [] ''t1'') ''a1'' (Inr (echo ?r)) agent_console = (Inr (?r\<lparr>sa_updated := ''t1''\<rparr>), s')"
    "st_agents (ap_data s') = update_where (\<lambda>x. ga_name x = ''a1'') (\<lambda>_. sample_agent\<lparr>ga_updated := Some ''t1''\<rparr>) (st_agents (ap_data agent_console))"
    "st_secrets (ap_data s') = st_secrets (ap_data agent_console)"
    using shown_agent_can_be_sent_back [OF o n e calm_kube_answers(1) sample_agent_found b g] by (auto simp: calm_kube_def)
  moreover have "map he_value (sa_env ?r) = [[], ''x'']" by (simp add: to_simple_agent_response_def sample_agent_def)
  ultimately show ?thesis using g by (auto simp: update_where_def agent_console_def sample_agent_def)
qed

definition no_change :: agent_change where
  "no_change = \<lparr>au_name = None, au_description = None, au_image = None, au_llm = None, au_persona = None, au_tools = None, au_skills = None,
     au_mcp = None, au_env = None, au_replicas = None, au_floor = None, au_memory = None, au_ollama = None, au_opencode = None,
     au_alibaba = None, au_custom = None\<rparr>"

theorem refused_update_keeps_agents_witness:
  "\<exists>s'. update_agent (calm_kube [] ''t1'') ''a1'' (Inr (no_change\<lparr>au_ollama := Some ''new'', au_custom := Some ([], [])\<rparr>)) agent_console =
     (Inl (Refused 400 ''custom provider URL is required''), s') \<and> st_agents (ap_data s') = [sample_agent] \<and>
     map_of (st_secrets (ap_data s')) ''a1-llm-key'' = Some [(''api-key'', ''new'')]"
proof -
  let ?req = "no_change\<lparr>au_ollama := Some ''new'', au_custom := Some ([], [])\<rparr>"
  have "\<exists>s'. update_agent (calm_kube [] ''t1'') ''a1'' (Inr ?req) agent_console = (Inl (Refused 400 ''custom provider URL is required''), s') \<and>
    st_agents (ap_data s') = st_agents (ap_data agent_console) \<and> map_of (st_secrets (ap_data s')) (''a1'' @ ''-llm-key'') = Some [(''api-key'', ''new'')]"
    by (rule refused_update_replaces_key [OF calm_kube_answers(1) sample_agent_found]) (use sample_agent_ok in \<open>simp_all add: no_change_def sample_agent_def\<close>)
  then obtain s' where s': "update_agent (calm_kube [] ''t1'') ''a1'' (Inr ?req) agent_console = (Inl (Refused 400 ''custom provider URL is required''), s')"
    "map_of (st_secrets (ap_data s')) ''a1-llm-key'' = Some [(''api-key'', ''new'')]"
    by auto
  show ?thesis using s' refused_update_keeps_agents [OF s'(1)] by (auto simp: agent_console_def)
qed

theorem inline_edit_needs_name_witness:
  "\<exists>r s1. put_agent_persona (calm_kube [] ''t1'') ''a1'' (Inr ([], [], ''be kind'')) agent_console = (Inr r, s1) \<and>
     put_agent_persona (calm_kube [] ''t2'') ''a1'' (Inr ([], [], ''be kind'')) s1 = (Inl (Refused 400 ''validation: name: is required''), s1)"
proof -
  let ?x = "put_agent_persona (calm_kube [] ''t1'') ''a1'' (Inr ([], [], ''be kind'')) agent_console"
  have "\<not> isl (fst ?x)" by code_simp
  then obtain r s1 where x: "?x = (Inr r, s1)" by (cases ?x; cases "fst ?x") auto
  show ?thesis using x inline_edit_needs_name [OF x, of "calm_kube [] ''t2''"] by (simp add: trim_space_def calm_kube_def calm_store_def)
qed

definition sample_creation :: agent_request where
  "sample_creation =
     \<lparr>aq_name = ''Spy'', aq_group = ''g1'', aq_description = [], aq_image = ''i1'',
      aq_llm = \<lparr>lm_model = ''m'', lm_provider = [], lm_turns = 0, lm_temperature = None, lm_vision = None\<rparr>, aq_persona = Some ''p1'', aq_tools = [],
      aq_skills = None, aq_mcp = None, aq_env = [], aq_replicas = None, aq_floor = None, aq_memory = None, aq_ollama = None,
      aq_opencode = None, aq_alibaba = None, aq_custom = None\<rparr>"

theorem agent_reference_reveals_persona_witness:
  "\<exists>s1 p. fst (handle_agents (calm_kube [] ''t2'') (plain_call ''ann'') (GetAt ''a9/persona'') s1) =
     Inr (PersonaReply \<lparr>pa_owned = False, pa_ref = ''p1'', pa_persona = Some p\<rparr>) \<and> ps_text p = ''be fair'' \<and>
     \<not> permitted (ap_authz s1) ''ann'' role_reader ''persona'' ''p1''"
proof -
  let ?x = "handle_agents (calm_kube ''a9'' ''t1'') (plain_call ''ann'') (PostAgent (Inr sample_creation)) agent_console"
  have "case fst ?x of Inr (AgentReply r) \<Rightarrow> sa_id r = ''a9'' | _ \<Rightarrow> False" by code_simp
  then obtain r s1 where x: "?x = (Inr (AgentReply r), s1)" "sa_id r = ''a9''"
    by (cases ?x; cases "fst ?x") (auto simp del: handle_agents.simps split: agent_answer.splits)
  have "map_sum id (\<lambda>p. (ps_text p, ps_owner p)) (get_persona True ''p1'' (pw_db sample_personas)) = Inr (''be fair'', [])" by code_simp
  then obtain p where p: "get_persona True ''p1'' (pw_db sample_personas) = Inr p" "ps_text p = ''be fair''" "ps_owner p = []" by auto
  have a: "cl_wired (plain_call ''ann'')" "cl_caller (plain_call ''ann'') = Some ''ann''" "cl_group (plain_call ''ann'')"
    "answering (cl_check (plain_call ''ann''))" "st_personas (ap_data agent_console) = Some sample_personas"
    "ke_get (calm_kube [] ''t2'')" "pe_lookup (ke_persona (calm_kube [] ''t2''))" "aq_persona sample_creation = Some ''p1''"
    by (simp_all add: plain_call_def agent_console_def calm_kube_def calm_store_def sample_creation_def)
  have u: "''ann'' \<in> us_id ` set (az_users (ap_authz agent_console))"
    by (simp add: agent_console_def sample_access_def sample_user_def)
  have n: "\<not> has_row resource_key (''agent'', ke_id (calm_kube ''a9'' ''t1'')) (az_resources (ap_authz agent_console))" by code_simp
  have h: "\<not> permitted (ap_authz agent_console) ''ann'' role_reader ''persona'' ''p1''" by code_simp
  show ?thesis
    using agent_reference_reveals_persona [OF agent_console_fresh a(1-3) u x(1) a(8) _ n a(5) p(1) h a(1,2,4,6,7)] x(2) p(2,3) by auto
qed

end
