(* ===== verification/PersonaApiRules.thy ===== *)
theory PersonaApiRules
  imports PersonaApi PersonaRules AgentApiRules
begin

text \<open>
  What the persona library guarantees, that nothing changes without permission, and what it leaves open: whoever may create a persona
  in some group may create the one an agent will adopt as its own.
\<close>

section \<open>Nothing changes without permission\<close>

fun persona_needs :: "persona_request \<Rightarrow> authz_db \<Rightarrow> string \<Rightarrow> bool" where
  "persona_needs (PostLibrary (Inr req)) db sub = (admin_user db sub \<or> has_role db sub (cp_group req) role_writer)"
| "persona_needs (PutItem path body) db sub =
     (case persona_path_of path of ItemRoot i \<Rightarrow> permitted db sub role_writer ''persona'' i | _ \<Rightarrow> False)"
| "persona_needs (PostItem path body) db sub =
     (case persona_path_of path of ItemRollback i \<Rightarrow> permitted db sub role_writer ''persona'' i | _ \<Rightarrow> False)"
| "persona_needs (DeleteItem path) db sub =
     (case persona_path_of path of ItemRoot i \<Rightarrow> permitted db sub role_writer ''persona'' i | _ \<Rightarrow> False)"
| "persona_needs _ db sub = False"

lemma put_site_same [simp]: "put_site ((ap_data s)\<lparr>st_personas := st_personas (ap_data s)\<rparr>) s = s"
  by (simp add: put_site_def)

lemma in_registry_reads:
  assumes "\<And>w. snd (f w) = w"
  shows "snd (in_registry f s) = s"
proof (cases "st_personas (ap_data s)")
  case (Some w)
  obtain x where "f w = (x, w)" using assms [of w] by (cases "f w") auto
  then show ?thesis using Some put_site_same [of s] by (simp add: in_registry_def split: sum.split)
qed (simp add: in_registry_def)

lemma reading_personas:
  "snd (list_persona_page v e public page page_size s) = s" "snd (get_persona_page e i s) = s"
  "snd (list_version_page e i page page_size s) = s" "snd (get_version_page e i n s) = s"
proof -
  have r: "snd (in_registry (\<lambda>w. (f w, w)) s) = s" for f :: "persona_world \<Rightarrow> persona_error + 'a" by (rule in_registry_reads) simp
  have r': "in_registry (\<lambda>w. (f w, w)) s = (y, s') \<Longrightarrow> s' = s" for f :: "persona_world \<Rightarrow> persona_error + persona list" and y s'
    using in_registry_reads [of "\<lambda>w. (f w, w)" s] by simp
  show "snd (list_persona_page v e public page page_size s) = s"
    by (auto simp: list_persona_page_def Let_def dest: r' split: sum.split prod.split)
  show "snd (get_persona_page e i s) = s" "snd (get_version_page e i n s) = s"
    by (simp_all add: get_persona_page_def get_version_page_def in_registry_reads)
  show "snd (list_version_page e i page page_size s) = s"
    by (simp add: list_version_page_def in_registry_reads split: sum.split)
qed

lemma persona_change_permitted:
  assumes "handle_personas e v q s = (r, s')" "changed s s'" "cl_wired v" "current v s"
  shows "\<exists>sub. cl_caller v = Some sub \<and> persona_needs q (ap_authz s) sub"
proof (cases q)
  case (ListLibrary public page page_size)
  then have "s' = s" using assms(1) reading_personas(1) by (metis handle_personas.simps(1) snd_conv snd_map_prod_id)
  then show ?thesis using assms(2) by simp
next
  case (PostLibrary body)
  show ?thesis
  proof (cases body)
    case (Inl m)
    then show ?thesis using assms(1,2) PostLibrary by (auto simp: post_persona_def)
  next
    case (Inr req)
    then obtain r0 where "guard_creation v (cp_group req) (store_persona v e req) s = (r0, s')"
      using assms(1) PostLibrary by (cases "guard_creation v (cp_group req) (store_persona v e req) s") (auto simp: post_persona_def)
    from guard_creation_change [OF this assms(2-4)] show ?thesis using PostLibrary Inr by auto
  qed
next
  case (GetItem path page page_size)
  have keeps: "\<not> changed s s'" if "guard_read v rt_persona i k s = (r, s')" "\<And>s1. snd (k s1) = s1" for i k
    using that(1) by (rule guard_read_unchanged) (simp add: that(2))
  have "\<not> changed s s'"
    using assms(1) GetItem
    by (auto split: persona_path.splits elim!: keeps simp: reading_personas)
  then show ?thesis using assms(2) by simp
next
  case (PutItem path body)
  then show ?thesis
    using guard_write_change [OF _ assms(2-4)] assms(1,2) by (cases "persona_path_of path") (fastforce simp: rt_persona_def)+
next
  case (PostItem path body)
  then show ?thesis
    using guard_write_change [OF _ assms(2-4)] assms(1,2) by (cases "persona_path_of path") (fastforce simp: rt_persona_def)+
next
  case (DeleteItem path)
  then show ?thesis
    using guard_write_change [OF _ assms(2-4)] assms(1,2) by (cases "persona_path_of path") (fastforce simp: rt_persona_def)+
qed

lemma in_registry_cache [simp]: "ap_cache (snd (in_registry f s)) = ap_cache s"
  by (simp add: in_registry_def split: option.split sum.split prod.split)

lemma in_registry_result_cache: "in_registry f s = (x, s') \<Longrightarrow> ap_cache s' = ap_cache s"
  using in_registry_cache [of f s] by simp

lemma personas_steady: "steady s (handle_personas e v q s)"
proof -
  have store: "steady s (store_persona v e req s)" for s req
    by (rule steady_same_cache) (auto simp: store_persona_def dest: in_registry_result_cache split: sum.split prod.split)
  have create: "steady s (post_persona v e body s)" for s body
    by (auto simp: post_persona_def intro!: guard_creation_steady store split: sum.splits)
  have put: "steady s (put_persona_page e i body s)" for s i body
    by (rule steady_same_cache) (simp add: put_persona_page_def split: sum.split)
  have revert: "steady s (rollback_page e i body s)" for s i body
    by (rule steady_same_cache) (simp add: rollback_page_def split: sum.split)
  have delete: "steady s (delete_persona_page v e i s)" for s i
    by (rule steady_same_cache) (auto simp: delete_persona_page_def dest: in_registry_result_cache split: sum.split prod.split)
  have reads: "steady s (list_persona_page v e public page page_size s)" "steady s (get_persona_page e i s)"
    "steady s (list_version_page e i page page_size s)" "steady s (get_version_page e i n s)" for s public page page_size i n
    by (simp_all add: steady_same_cache reading_personas)
  show ?thesis
    by (cases q) (auto split: persona_path.split simp: create put revert delete reads intro!: guards_steady)
qed

definition serve_personas :: "(call \<times> persona_env \<times> persona_request) list \<Rightarrow> agent_site api \<Rightarrow> agent_site api" where
  "serve_personas = serve_all (\<lambda>v (e, q). handle_personas e v q)"

interpretation library: guarded_endpoint "\<lambda>v (e, q). handle_personas e v q" "\<lambda>(e, q) db _. persona_needs q db"
  by unfold_locales (auto simp: personas_steady dest: persona_change_permitted [OF _ _ _ fresh_current])

text \<open>Without a permission that covers it, no request to the library changes anything.\<close>

lemma persona_changes_are_permitted:
  assumes "access_wf (ap_authz s)" "fresh s"
    and "\<forall>(v, e, q) \<in> set xs. cl_wired v \<and> (\<forall>sub. cl_caller v = Some sub \<longrightarrow> \<not> persona_needs q (ap_authz s) sub)"
  shows "ap_data (serve_personas xs s) = ap_data s \<and> ap_authz (serve_personas xs s) = ap_authz s"
proof -
  have "\<forall>(v, q) \<in> set xs. cl_wired v \<and> (\<forall>sub. cl_caller v = Some sub \<longrightarrow>
      \<not> (case q of (e, q) \<Rightarrow> \<lambda>db _. persona_needs q db) (ap_authz s) (ap_data s) sub)"
    using assms(3) by (auto split: prod.splits)
  then show ?thesis
    using library.unpermitted_changes_nothing [OF assms(1,2)] by (simp add: changed_def serve_personas_def)
qed

section \<open>Personas planted on an agent\<close>

lemma get_by_owner_wf:
  "persona_wf db \<Longrightarrow> get_by_owner ok agent db =
     (if \<not> ok then Inl (PersonaFailed ''personas.GetByOwner'')
      else case List.find (\<lambda>p. pr_owner p = Some agent) (pd_rows db) of None \<Rightarrow> Inl PersonaNotFound
        | Some p \<Rightarrow> Inr (scan_persona p (last (versions_of db (pr_id p)))))"
  using find_joined [of db "\<lambda>p. pr_owner p = Some agent"] by (simp add: get_by_owner_def split: option.split)

lemma added_persona:
  assumes "add_persona e req w = (Inr p, w1)" "persona_wf (pw_db w)"
  shows "ps_id p = pe_id e" "persona_wf (pw_db w1)"
    "\<exists>row. pd_rows (pw_db w1) = pd_rows (pw_db w) @ [row] \<and> pr_id row = pe_id e \<and>
       pr_owner row = (if cp_owner req = [] then None else Some (cp_owner req))"
proof -
  show "ps_id p = pe_id e"
    "\<exists>row. pd_rows (pw_db w1) = pd_rows (pw_db w) @ [row] \<and> pr_id row = pe_id e \<and>
       pr_owner row = (if cp_owner req = [] then None else Some (cp_owner req))"
    using assms(1)
    by (auto simp: add_persona_def create_persona_def add_version_def Let_def split: option.splits if_splits prod.splits sum.splits)
  show "persona_wf (pw_db w1)"
    using add_persona_orderly [OF assms(2), of e req] assms(1) by (simp add: orderly_def)
qed

lemma find_in_either: "List.find p (xs @ ys) = (case List.find p xs of None \<Rightarrow> List.find p ys | Some x \<Rightarrow> Some x)"
  by (induction xs) simp_all

lemma changed_text:
  assumes "change_persona e i req w = (Inr p, w')" "pc_text req = Some t" "persona_wf (pw_db w)"
  shows "ps_id p = i \<and> (\<exists>q. get_persona True i (pw_db w') = Inr q \<and> ps_text q = t)"
proof -
  obtain x db where u: "update_persona (pe_pg e) (pe_now e) i req (pw_db w) = (x, db)"
    by (cases "update_persona (pe_pg e) (pe_now e) i req (pw_db w)")
  then have "x = Inr p" "pw_db w' = db"
    using assms(1) by (auto simp: change_persona_def rendered_reply_def split: option.splits sum.splits prod.splits)
  moreover have "ps_text p = t"
    using u assms(2) \<open>x = Inr p\<close> by (auto simp: update_persona_def Let_def split: if_splits option.splits)
  ultimately show ?thesis using update_tells [OF u assms(3)] by (auto simp: tells_def)
qed

lemma adopted_persona:
  assumes "add_persona e req w = (Inr p, w1)" "persona_wf (pw_db w)" "cp_owner req = n" "n \<noteq> []"
    and "get_by_owner True n (pw_db w) = Inl PersonaNotFound"
    and "ensure_owned e2 n fallback ch w1 = (Inr p2, w2)" "pc_text ch = Some t"
  shows "ps_id p2 = ps_id p \<and> (\<exists>q. get_persona True (ps_id p) (pw_db w2) = Inr q \<and> ps_text q = t)"
proof -
  note add = added_persona [OF assms(1,2)]
  obtain row where row: "pd_rows (pw_db w1) = pd_rows (pw_db w) @ [row]" "pr_id row = pe_id e" "pr_owner row = Some n"
    using add(3) assms(3,4) by auto
  have "List.find (\<lambda>p. pr_owner p = Some n) (pd_rows (pw_db w)) = None"
    using assms(5) by (simp add: get_by_owner_wf [OF assms(2)] split: option.splits)
  then have "List.find (\<lambda>p. pr_owner p = Some n) (pd_rows (pw_db w1)) = Some row" using row by (simp add: find_in_either)
  then have "get_by_owner ok n (pw_db w1) =
      (if \<not> ok then Inl (PersonaFailed ''personas.GetByOwner'') else Inr (scan_persona row (last (versions_of (pw_db w1) (pr_id row)))))" for ok
    by (simp add: get_by_owner_wf [OF add(2)])
  then have "change_persona e2 (ps_id p) ch w1 = (Inr p2, w2)"
    using assms(6,7) row(2) add(1) by (simp add: ensure_owned_def scan_persona_def split: if_splits)
  then show ?thesis using changed_text assms(7) add(2) by blast
qed

lemma in_registry_done:
  assumes "in_registry f s = (Inr x, s')"
  obtains w w' where "st_personas (ap_data s) = Some w" "f w = (Inr x, w')" "s' = put_site ((ap_data s)\<lparr>st_personas := Some w'\<rparr>) s"
  using assms by (auto simp: in_registry_def split: option.splits prod.splits sum.splits)

lemma edited_persona:
  assumes "put_agent_persona k n (Inr (name, d, t)) s = (Inr r, s')"
  obtains w p w' fallback where "st_personas (ap_data s) = Some w"
    "ensure_owned (ke_persona k) n fallback \<lparr>pc_name = Some (trim_space name), pc_description = Some d, pc_text = Some t\<rparr> w = (Inr p, w')"
    "pa_ref r = ps_id p" "st_personas (ap_data s') = Some w'" "ap_authz s' = ap_authz s"
  using assms by (auto simp: put_agent_persona_def Let_def split: option.splits sum.splits prod.splits if_splits)

text \<open>
  An agent adopts a persona somebody else planted. The request that creates a persona in the library may name any agent as its
  owner, and asks only for a group of the caller's. When the agent has no persona of its own yet, the next inline edit of its
  persona, by somebody who may edit the agent, does not make a private one but writes the new text into the planted persona:
  the caller who planted it, and who may not even read the agent, can from then on read that text and replace it.
\<close>

theorem planted_persona_is_adopted:
  assumes "access_wf (ap_authz s)" "fresh s" "cl_wired v" "cl_caller v = Some sub" "cl_group v"
    and "st_personas (ap_data s) = Some w" "persona_wf (pw_db w)" "get_by_owner True n (pw_db w) = Inl PersonaNotFound"
    and "handle_personas e v (PostLibrary (Inr req)) s = (Inr (OnePersona p), s1)" "cp_owner req = n" "n \<noteq> []"
    and "\<not> has_row resource_key (''persona'', pe_id e) (az_resources (ap_authz s))" "\<not> permitted (ap_authz s) sub role_reader ''agent'' n"
    and "put_agent_persona k n (Inr (name, d, t)) s1 = (Inr r, s2)"
  shows "pa_ref r = ps_id p \<and>
    (\<exists>w2 q. st_personas (ap_data s2) = Some w2 \<and> get_persona True (ps_id p) (pw_db w2) = Inr q \<and> ps_text q = t) \<and>
    permitted (ap_authz s2) sub role_writer ''persona'' (ps_id p) \<and> \<not> permitted (ap_authz s2) sub role_reader ''agent'' n"
proof -
  let ?db = "ap_authz s"
  have cur: "current v s" using assms(1,2) by (rule fresh_current)
  obtain x y where x: "post_persona v e (Inr req) s = (x, y)" by (cases "post_persona v e (Inr req) s")
  then have "x = Inr p" "y = s1" using assms(9) by (cases x; simp)+
  then have g: "guard_creation v (cp_group req) (store_persona v e req) s = (Inr p, s1)" using x by (simp add: post_persona_def)
  obtain c where c: "store_persona v e req (s\<lparr>ap_cache := c\<rparr>) = (Inr p, s1)" by (rule creation_passed [OF g assms(2)])
  then obtain sx where reg: "in_registry (add_persona e req) (s\<lparr>ap_cache := c\<rparr>) = (Inr p, sx)"
    and s1: "s1 = assign_group v rt_persona (ps_id p) (cp_group req) sx"
    by (auto simp: store_persona_def split: prod.splits sum.splits)
  obtain w0 w1 where w0: "st_personas (ap_data (s\<lparr>ap_cache := c\<rparr>)) = Some w0" "add_persona e req w0 = (Inr p, w1)"
    and sx: "sx = put_site ((ap_data (s\<lparr>ap_cache := c\<rparr>))\<lparr>st_personas := Some w1\<rparr>) (s\<lparr>ap_cache := c\<rparr>)"
    by (rule in_registry_done [OF reg])
  have w1: "add_persona e req w = (Inr p, w1)" using w0 assms(6) by simp
  note add = added_persona [OF w1 assms(7)]
  have "pd_rows (pw_db w1) \<noteq> pd_rows (pw_db w)" using add(3) by auto
  moreover have "st_personas (ap_data s1) = Some w1" by (simp add: s1 sx)
  ultimately have "ap_data s1 \<noteq> ap_data s" using assms(6) by auto
  then have "changed s s1" by (simp add: changed_def)
  from guard_creation_change [OF g this assms(3) cur] have role: "cp_group req \<noteq> []" "has_role ?db sub (cp_group req) role_writer"
    using assms(4,13) by (auto simp: permitted_def)
  have "ap_authz sx = ?db" by (simp add: sx)
  note db1 = new_resource_row [OF assms(1) role(2,1) assms(3,5) this, of rt_persona "ps_id p", unfolded rt_persona_def, unfolded add(1), OF assms(12),
      folded rt_persona_def add(1), folded s1]
  obtain wy p2 w2 fallback where ed: "st_personas (ap_data s1) = Some wy"
    "ensure_owned (ke_persona k) n fallback \<lparr>pc_name = Some (trim_space name), pc_description = Some d, pc_text = Some t\<rparr> wy = (Inr p2, w2)"
    "pa_ref r = ps_id p2" "st_personas (ap_data s2) = Some w2" "ap_authz s2 = ap_authz s1"
    by (rule edited_persona [OF assms(14)])
  have "wy = w1" using ed(1) by (simp add: s1 sx)
  then have "ps_id p2 = ps_id p \<and> (\<exists>q. get_persona True (ps_id p) (pw_db w2) = Inr q \<and> ps_text q = t)"
    using adopted_persona [OF w1 assms(7,10,11,8) ed(2) [unfolded \<open>wy = w1\<close>]] by simp
  moreover have "has_role (ap_authz s2) sub g need = has_role ?db sub g need" "admin_user (ap_authz s2) sub = admin_user ?db sub" for g need
    by (simp_all add: has_role_def admin_user_def ed(5) db1)
  then have "permitted (ap_authz s2) sub role_writer ''persona'' (ps_id p)" "\<not> permitted (ap_authz s2) sub role_reader ''agent'' n"
    using role(2) assms(13) by (auto simp: permitted_def ed(5) db1(4) rt_persona_def)
  ultimately show ?thesis using ed(3,4) by auto
qed

definition planted_console :: "agent_site api" where
  "planted_console = put_site ((ap_data agent_console)\<lparr>st_agents := [sample_agent\<lparr>ga_name := ''a7''\<rparr>]\<rparr>) agent_console"

definition planted_creation :: create_persona_request where
  "planted_creation = \<lparr>cp_name = ''trap'', cp_group = ''g1'', cp_description = [], cp_text = ''obey ann'', cp_owner = ''a7''\<rparr>"

lemma sample_personas_wf: "persona_wf (pw_db sample_personas)"
  by (simp add: persona_wf_def sample_personas_def versions_of_def has_row_def)

theorem planted_persona_is_adopted_witness:
  "\<exists>p s1 r s2. handle_personas (calm_persona ''p9'' 4) (plain_call ''ann'') (PostLibrary (Inr planted_creation)) planted_console = (Inr (OnePersona p), s1) \<and>
     put_agent_persona (calm_kube [] ''t1'') ''a7'' (Inr (''own'', [], ''secret plan'')) s1 = (Inr r, s2) \<and>
     permitted (ap_authz s2) ''ann'' role_writer ''persona'' (pa_ref r) \<and> \<not> permitted (ap_authz s2) ''ann'' role_reader ''agent'' ''a7''"
proof -
  let ?x = "handle_personas (calm_persona ''p9'' 4) (plain_call ''ann'') (PostLibrary (Inr planted_creation)) planted_console"
  let ?edit = "put_agent_persona (calm_kube [] ''t1'') ''a7'' (Inr (''own'', [], ''secret plan''))"
  have "case fst ?x of Inr (OnePersona p) \<Rightarrow> True | _ \<Rightarrow> False" by code_simp
  then obtain p s1 where x: "?x = (Inr (OnePersona p), s1)"
    by (cases ?x; cases "fst ?x") (auto simp del: handle_personas.simps split: persona_answer.splits)
  have "\<not> isl (fst (?edit (snd ?x)))" by code_simp
  then have "\<not> isl (fst (?edit s1))" by (simp add: x del: handle_personas.simps)
  then obtain r s2 where y: "?edit s1 = (Inr r, s2)" by (cases "?edit s1"; cases "fst (?edit s1)") auto
  have a: "access_wf (ap_authz planted_console)" "fresh planted_console" "st_personas (ap_data planted_console) = Some sample_personas"
    using agent_console_fresh by (simp_all add: planted_console_def fresh_def agent_console_def)
  have c: "cl_wired (plain_call ''ann'')" "cl_caller (plain_call ''ann'') = Some ''ann''" "cl_group (plain_call ''ann'')"
    "cp_owner planted_creation = ''a7''" by (simp_all add: plain_call_def planted_creation_def)
  have o: "get_by_owner True ''a7'' (pw_db sample_personas) = Inl PersonaNotFound" by code_simp
  have n: "\<not> has_row resource_key (''persona'', pe_id (calm_persona ''p9'' 4)) (az_resources (ap_authz planted_console))" by code_simp
  have h: "\<not> permitted (ap_authz planted_console) ''ann'' role_reader ''agent'' ''a7''" by code_simp
  show ?thesis
    using planted_persona_is_adopted [OF a(1,2) c(1-3) a(3) sample_personas_wf o x c(4) _ n h y] x y by auto
qed

end
