(* ===== verification/QueueSignal.thy ===== *)
theory QueueSignal
  imports Scaling QueueMachine
begin

text \<open>
  The queue signal publisher (\<^verbatim>\<open>services/hub/internal/queuesignal/queuesignal.go\<close>): it coalesces the observer calls
  of the event queue into writes of the queue fields on the Agent resources, which the
  operator scales by. The Agent resources are an association list by name; a call to the API server
  has its outcome as an argument. Instants on a resource are whole seconds, as their JSON text is.
\<close>

section \<open>State\<close>

record signal =
  sg_pending :: int
  sg_active :: int
  sg_observed :: instant
  sg_last_invocation :: "instant option"

definition signal_empty :: "signal \<Rightarrow> bool" where
  "signal_empty s \<longleftrightarrow> sg_pending s = 0 \<and> sg_active s = 0"

definition same_counts :: "signal \<Rightarrow> signal \<Rightarrow> bool" where
  "same_counts a b \<longleftrightarrow> sg_pending a = sg_pending b \<and> sg_active a = sg_active b"

text \<open>\<open>pb_dirty\<close> is the set of marked agents, in the order the loop over the map takes them.\<close>

record publisher =
  pb_debounce :: duration
  pb_lister :: bool
  pb_dirty :: "string list"
  pb_last :: "(string \<times> signal) list"
  pb_next :: "(string \<times> instant) list"

definition default_debounce :: duration where "default_debounce = 2 * second_ns"

definition new_publisher :: "duration option \<Rightarrow> bool \<Rightarrow> publisher" where
  "new_publisher debounce lister =
     \<lparr>pb_debounce = (case debounce of None \<Rightarrow> default_debounce | Some d \<Rightarrow> d), pb_lister = lister,
      pb_dirty = [], pb_last = [], pb_next = []\<rparr>"

definition mark :: "string \<Rightarrow> publisher \<Rightarrow> publisher" where
  "mark name p = p\<lparr>pb_dirty := List.insert name (pb_dirty p)\<rparr>"

definition observe_queue :: "string \<Rightarrow> publisher \<Rightarrow> publisher" where
  "observe_queue name p = (if name = [] then p else mark name p)"

section \<open>The Agent resources\<close>

type_synonym cluster = "(string \<times> agent_cr) list"

definition whole_second :: "instant \<Rightarrow> instant" where
  "whole_second t = t div second_ns * second_ns"

text \<open>The merge patch names the counts and the observation always, the last invocation when there is one.\<close>

definition merge_patch :: "signal \<Rightarrow> agent_cr \<Rightarrow> agent_cr" where
  "merge_patch s a =
     a\<lparr>ag_pending := sg_pending s, ag_active := sg_active s, ag_observed := Some (whole_second (sg_observed s)),
       ag_last_invocation := (case sg_last_invocation s of None \<Rightarrow> ag_last_invocation a | Some t \<Rightarrow> Some (whole_second t))\<rparr>"

datatype patch_outcome = Patched | AgentNotFound | PatchFailed

definition patch_agent :: "bool \<Rightarrow> string \<Rightarrow> signal \<Rightarrow> cluster \<Rightarrow> patch_outcome \<times> cluster" where
  "patch_agent ok name s c =
     (if \<not> ok then (PatchFailed, c)
      else (case map_of c name of
              None \<Rightarrow> (AgentNotFound, c) | Some a \<Rightarrow> (Patched, aput name (merge_patch s a) c)))"

definition opted_in :: "agent_cr \<Rightarrow> bool" where
  "opted_in a \<longleftrightarrow> (case ag_scaling a of None \<Rightarrow> False | Some s \<Rightarrow> sc_min s \<noteq> None)"

definition queue_scaled_agents :: "bool \<Rightarrow> cluster \<Rightarrow> string list option" where
  "queue_scaled_agents ok c = (if \<not> ok then None else Some (map fst (filter (\<lambda>(_, a). opted_in a) c)))"

section \<open>Publishing\<close>

definition measure_signal :: "instant \<Rightarrow> queue_depth \<Rightarrow> signal option \<Rightarrow> signal" where
  "measure_signal now d prev =
     \<lparr>sg_pending = qd_pending d, sg_active = qd_active d, sg_observed = now,
      sg_last_invocation =
        (if 0 < qd_pending d \<and> (case prev of None \<Rightarrow> True | Some s \<Rightarrow> sg_pending s < qd_pending d)
         then Some now else None)\<rparr>"

definition is_edge :: "signal option \<Rightarrow> signal \<Rightarrow> bool" where
  "is_edge prev s =
     (case prev of None \<Rightarrow> True | Some p \<Rightarrow> signal_empty p \<noteq> signal_empty s \<or> sg_active p \<noteq> sg_active s)"

text \<open>The surroundings of one publish: the queue as it is measured, the instant, and the two outcomes.\<close>

record publish_env =
  pe_queue :: queue
  pe_now :: instant
  pe_count :: bool
  pe_patch :: bool

definition publish_one ::
  "publish_env \<Rightarrow> string \<Rightarrow> bool \<Rightarrow> publisher \<times> cluster \<Rightarrow> (string + bool) \<times> publisher \<times> cluster" where
  "publish_one v name force st =
     (case st of (p, c) \<Rightarrow>
      (case queue_counts (\<lambda>_. pe_count v) name (pe_queue v) of
         Inl e \<Rightarrow> (Inl (''count: '' @ e), p, c)
       | Inr d \<Rightarrow>
           let prev = map_of (pb_last p) name; s = measure_signal (pe_now v) d prev; edge = is_edge prev s in
           if (case prev of None \<Rightarrow> False | Some q \<Rightarrow> same_counts q s) \<and> \<not> force \<and> \<not> edge then (Inr True, p, c)
           else if \<not> edge \<and> \<not> force \<and> (case map_of (pb_next p) name of None \<Rightarrow> False | Some t \<Rightarrow> pe_now v < t)
             then (Inr False, p, c)
           else
             let p1 = p\<lparr>pb_next := aput name (pe_now v + pb_debounce p) (pb_next p)\<rparr> in
             (case patch_agent (pe_patch v) name s c of
                (PatchFailed, c') \<Rightarrow> (Inl ''patch'', p1, c')
              | (AgentNotFound, c') \<Rightarrow>
                  (Inr True, p1\<lparr>pb_last := adel name (pb_last p1), pb_next := adel name (pb_next p1)\<rparr>, c')
              | (Patched, c') \<Rightarrow> (Inr True, p1\<lparr>pb_last := aput name s (pb_last p1)\<rparr>, c'))))"

fun publish_names ::
  "(nat \<Rightarrow> publish_env) \<Rightarrow> nat \<Rightarrow> bool \<Rightarrow> string list \<Rightarrow> publisher \<times> cluster \<Rightarrow> publisher \<times> cluster" where
  "publish_names env n force [] st = st"
| "publish_names env n force (name # names) st =
     (case publish_one (env n) name force st of
        (Inl _, p, c) \<Rightarrow> publish_names env (Suc n) force names (mark name p, c)
      | (Inr False, p, c) \<Rightarrow> publish_names env (Suc n) force names (mark name p, c)
      | (Inr True, p, c) \<Rightarrow> publish_names env (Suc n) force names (p, c))"

text \<open>Calls of \<^verbatim>\<open>Observe\<close> during a round only mark agents for the next one.\<close>

definition publish_round :: "(nat \<Rightarrow> publish_env) \<Rightarrow> bool \<Rightarrow> publisher \<times> cluster \<Rightarrow> publisher \<times> cluster" where
  "publish_round env force st =
     (case st of (p, c) \<Rightarrow> publish_names env 0 force (pb_dirty p) (p\<lparr>pb_dirty := []\<rparr>, c))"

definition mark_all :: "bool \<Rightarrow> bool \<Rightarrow> queue \<Rightarrow> publisher \<times> cluster \<Rightarrow> publisher \<times> cluster" where
  "mark_all ok_counts ok_list q st =
     (case st of (p, c) \<Rightarrow>
      (case all_queue_counts (\<lambda>_. ok_counts) q of
         Inl _ \<Rightarrow> (p, c)
       | Inr cs \<Rightarrow>
           let opted = (if pb_lister p then (case queue_scaled_agents ok_list c of None \<Rightarrow> [] | Some ns \<Rightarrow> ns) else [])
           in (fold mark opted (fold mark (map fst (pb_last p)) (fold mark (map fst cs) p)), c)))"

text \<open>What the ticker of the sweep does.\<close>

definition sweep :: "bool \<Rightarrow> bool \<Rightarrow> (nat \<Rightarrow> publish_env) \<Rightarrow> queue \<Rightarrow> publisher \<times> cluster \<Rightarrow> publisher \<times> cluster" where
  "sweep ok_counts ok_list env q st = publish_round env True (mark_all ok_counts ok_list q st)"

text \<open>The sweep at start-up, which respects the debounce; nothing has been published yet, so every count is an edge.\<close>

definition first_sweep :: "bool \<Rightarrow> bool \<Rightarrow> (nat \<Rightarrow> publish_env) \<Rightarrow> queue \<Rightarrow> publisher \<times> cluster \<Rightarrow> publisher \<times> cluster" where
  "first_sweep ok_counts ok_list env q st = publish_round env False (mark_all ok_counts ok_list q st)"

definition published :: "string \<Rightarrow> publisher \<Rightarrow> signal option" where
  "published name p = map_of (pb_last p) name"

section \<open>Marks\<close>

lemma dirty_marks: "set (pb_dirty (fold mark ns p)) = set ns \<union> set (pb_dirty p)"
  by (induction ns arbitrary: p) (auto simp: mark_def)

lemma marks_keep [simp]:
  "pb_last (fold mark ns p) = pb_last p" "pb_next (fold mark ns p) = pb_next p" "pb_lister (fold mark ns p) = pb_lister p"
  "pb_debounce (fold mark ns p) = pb_debounce p"
  by (induction ns arbitrary: p) (simp_all add: mark_def)

lemma mark_keeps [simp]:
  "pb_last (mark n p) = pb_last p" "pb_next (mark n p) = pb_next p" "pb_lister (mark n p) = pb_lister p"
  by (simp_all add: mark_def)

lemma distinct_marks: "distinct (pb_dirty p) \<Longrightarrow> distinct (pb_dirty (fold mark ns p))"
  by (induction ns arbitrary: p) (simp_all add: mark_def)

section \<open>A forced round\<close>

text \<open>The queue part of a resource says what the queue held at the instant.\<close>

definition reports :: "queue \<Rightarrow> instant \<Rightarrow> string \<Rightarrow> agent_cr \<Rightarrow> bool" where
  "reports q now name a \<longleftrightarrow>
     ag_pending a = qd_pending (depth_of name (q_tasks q)) \<and> ag_active a = qd_active (depth_of name (q_tasks q)) \<and>
     ag_observed a = Some (whole_second now)"

lemma publish_one_forced:
  assumes "pe_count v" "pe_patch v" "map_of c name = Some a"
  shows "\<exists>p' a'. publish_one v name True (p, c) = (Inr True, p', aput name a' c) \<and>
    reports (pe_queue v) (pe_now v) name a' \<and> ag_scaling a' = ag_scaling a \<and> map_of (pb_last p') name \<noteq> None \<and>
    pb_dirty p' = pb_dirty p \<and>
    ag_last_invocation a' =
      (if 0 < ag_pending a' \<and> (case map_of (pb_last p) name of None \<Rightarrow> True | Some s \<Rightarrow> sg_pending s < ag_pending a')
       then Some (whole_second (pe_now v)) else ag_last_invocation a)"
proof -
  let ?s = "measure_signal (pe_now v) (depth_of name (q_tasks (pe_queue v))) (map_of (pb_last p) name)"
  let ?p = "p\<lparr>pb_next := aput name (pe_now v + pb_debounce p) (pb_next p), pb_last := aput name ?s (pb_last p)\<rparr>"
  have "publish_one v name True (p, c) = (Inr True, ?p, aput name (merge_patch ?s a) c)"
    using assms by (simp add: publish_one_def queue_counts_def patch_agent_def Let_def)
  then show ?thesis
    by (intro exI [of _ ?p] exI [of _ "merge_patch ?s a"])
      (auto simp: reports_def merge_patch_def measure_signal_def split: option.split)
qed

lemma publish_one_other:
  assumes "publish_one v name force (p, c) = (r, p', c')" "m \<noteq> name"
  shows "map_of c' m = map_of c m \<and> map_of (pb_last p') m = map_of (pb_last p) m"
  using assms
  by (auto simp: publish_one_def patch_agent_def Let_def split: sum.splits option.splits if_splits)

lemma publish_names_other:
  "m \<notin> set names \<Longrightarrow> map_of (snd (publish_names env n force names (p, c))) m = map_of c m"
proof (induction names arbitrary: n p c)
  case (Cons name names)
  obtain r p' c' where r: "publish_one (env n) name force (p, c) = (r, p', c')" by (cases "publish_one (env n) name force (p, c)") auto
  have "map_of c' m = map_of c m" using publish_one_other [OF r] Cons.prems by simp
  then show ?case using Cons r by (auto split: sum.split bool.split)
qed simp

lemma publish_names_forced:
  assumes "\<And>n. pe_count (env n) \<and> pe_patch (env n) \<and> pe_queue (env n) = q \<and> pe_now (env n) = now"
    and "name \<in> set names" "distinct names" "map_of c name = Some a"
  shows "\<exists>a'. map_of (snd (publish_names env n True names (p, c))) name = Some a' \<and> reports q now name a' \<and>
    ag_scaling a' = ag_scaling a \<and>
    ag_last_invocation a' =
      (if 0 < ag_pending a' \<and> (case map_of (pb_last p) name of None \<Rightarrow> True | Some s \<Rightarrow> sg_pending s < ag_pending a')
       then Some (whole_second now) else ag_last_invocation a)"
  using assms(2-4)
proof (induction names arbitrary: n p c)
  case (Cons m names)
  show ?case
  proof (cases "m = name")
    case True
    obtain p' a' where p': "publish_one (env n) name True (p, c) = (Inr True, p', aput name a' c)" "reports q now name a'"
      "ag_scaling a' = ag_scaling a"
      "ag_last_invocation a' =
        (if 0 < ag_pending a' \<and> (case map_of (pb_last p) name of None \<Rightarrow> True | Some s \<Rightarrow> sg_pending s < ag_pending a')
         then Some (whole_second now) else ag_last_invocation a)"
      using publish_one_forced [of "env n" c name a p] assms(1) [of n] Cons.prems(3) by auto
    have "name \<notin> set names" using Cons.prems(2) True by simp
    then show ?thesis using p' True publish_names_other [of name names env "Suc n" True p' "aput name a' c"] by simp
  next
    case False
    obtain r p' c' where r: "publish_one (env n) m True (p, c) = (r, p', c')" by (cases "publish_one (env n) m True (p, c)") auto
    have o: "map_of c' name = Some a" "map_of (pb_last p') name = map_of (pb_last p) name"
      using publish_one_other [OF r] Cons.prems(3) False by auto
    have mem: "name \<in> set names" "distinct names" using Cons.prems False by auto
    show ?thesis
    proof (cases "r = Inr True")
      case True
      then show ?thesis using Cons.IH [OF mem o(1), of "Suc n" p'] r o(2) by simp
    next
      case False
      then have "publish_names env n True (m # names) (p, c) = publish_names env (Suc n) True names (mark m p', c')"
        using r by (auto split: sum.split bool.split)
      then show ?thesis using Cons.IH [OF mem o(1), of "Suc n" "mark m p'"] o(2) by simp
    qed
  qed
qed simp

section \<open>Properties\<close>

text \<open>The agents a sweep owes a heartbeat.\<close>

definition owed :: "queue \<Rightarrow> publisher \<Rightarrow> cluster \<Rightarrow> string \<Rightarrow> bool" where
  "owed q p c name \<longleftrightarrow>
     list_ex (\<lambda>t. tk_agent t = name \<and> in_flight t) (q_tasks q) \<or> map_of (pb_last p) name \<noteq> None \<or>
     pb_lister p \<and> list_ex (\<lambda>(n, a). n = name \<and> opted_in a) c"

lemma sweep_marks:
  "set (pb_dirty (fst (mark_all True True q (p, c)))) =
     (if pb_lister p then set (map fst (filter (\<lambda>(_, a). opted_in a) c)) else {}) \<union>
     (set (map fst (pb_last p)) \<union>
     (set (map fst (projr (all_queue_counts (\<lambda>_. True) q))) \<union> set (pb_dirty p)))"
proof (cases "all_queue_counts (\<lambda>_. True) q")
  case (Inl e)
  then show ?thesis by (simp add: all_queue_counts_def Let_def)
next
  case (Inr cs)
  then show ?thesis
    by (simp only: mark_all_def queue_scaled_agents_def Let_def prod.case sum.case option.case not_True_eq_False if_False
      fst_conv dirty_marks marks_keep sum.sel split: if_split) simp
qed

lemma sweep_covers:
  assumes "owed q p c name"
  shows "name \<in> set (pb_dirty (fst (mark_all True True q (p, c))))"
proof -
  have busy: "set (map fst (projr (all_queue_counts (\<lambda>_. True) q))) = tk_agent ` {t \<in> set (q_tasks q). in_flight t}"
    unfolding all_queue_counts_def by (auto simp: Let_def)
  consider "list_ex (\<lambda>t. tk_agent t = name \<and> in_flight t) (q_tasks q)" | "map_of (pb_last p) name \<noteq> None"
    | "pb_lister p" "list_ex (\<lambda>(n, a). n = name \<and> opted_in a) c"
    using assms unfolding owed_def by blast
  then show ?thesis
  proof cases
    case 1
    then have "name \<in> tk_agent ` {t \<in> set (q_tasks q). in_flight t}" by (auto simp: list_ex_iff)
    then show ?thesis unfolding sweep_marks busy by blast
  next
    case 2
    then have "name \<in> set (map fst (pb_last p))" by (simp add: map_of_eq_None_iff)
    then show ?thesis unfolding sweep_marks by blast
  next
    case 3
    then have "name \<in> set (map fst (filter (\<lambda>(_, a). opted_in a) c))" by (force simp: list_ex_iff)
    then show ?thesis unfolding sweep_marks using 3(1) by simp
  qed
qed

lemma sweep_distinct:
  "distinct (pb_dirty p) \<Longrightarrow> distinct (pb_dirty (fst (mark_all True True q (p, c))))"
  by (simp add: mark_all_def all_queue_counts_def Let_def distinct_marks)

text \<open>
  After a sweep whose calls go through, every Agent resource the hub owes a heartbeat (work in flight,
  published before, or opted into queue scaling) reports the queue as it is: its waiting and claimed
  counts and the instant of the sweep. Its idle clock moves exactly when work is waiting and
  more of it than the hub last published.
\<close>

theorem sweep_reports_queue:
  assumes "\<And>n. pe_count (env n) \<and> pe_patch (env n) \<and> pe_queue (env n) = q \<and> pe_now (env n) = now"
    and "distinct (pb_dirty p)" "owed q p c name" "map_of c name = Some a"
  shows "\<exists>a'. map_of (snd (sweep True True env q (p, c))) name = Some a' \<and>
    ag_pending a' = int (length (filter (\<lambda>t. tk_agent t = name \<and> tk_status t = Pending) (q_tasks q))) \<and>
    ag_active a' = int (length (filter (\<lambda>t. tk_agent t = name \<and> tk_status t = Claimed) (q_tasks q))) \<and>
    ag_observed a' = Some (whole_second now) \<and> ag_scaling a' = ag_scaling a \<and>
    ag_last_invocation a' =
      (if 0 < ag_pending a' \<and> (case map_of (pb_last p) name of None \<Rightarrow> True | Some s \<Rightarrow> sg_pending s < ag_pending a')
       then Some (whole_second now) else ag_last_invocation a)"
proof -
  obtain p1 where p1: "mark_all True True q (p, c) = (p1, c)" "pb_last p1 = pb_last p"
    by (simp add: mark_all_def all_queue_counts_def Let_def)
  have "name \<in> set (pb_dirty p1)" "distinct (pb_dirty p1)"
    using sweep_covers [OF assms(3)] sweep_distinct [OF assms(2), of q c] p1(1) by simp_all
  from publish_names_forced [where env = env and n = 0 and p = "p1\<lparr>pb_dirty := []\<rparr>", OF assms(1) this assms(4)] show ?thesis
    using p1 by (auto simp: sweep_def publish_round_def reports_def depth_of_def)
qed

definition sleepy :: agent_cr where
  "sleepy = \<lparr>ag_scaling = Some \<lparr>sc_replicas = Some 2, sc_min = Some 0\<rparr>, ag_pending = 0, ag_active = 0,
     ag_observed = None, ag_last_invocation = None\<rparr>"

theorem sweep_reports_queue_witness:
  "\<exists>a'. map_of (snd (sweep True True (\<lambda>n. \<lparr>pe_queue = sample_queue, pe_now = 77 * second_ns, pe_count = True, pe_patch = True\<rparr>)
      sample_queue (new_publisher None True, [(''b'', sleepy)]))) ''b'' = Some a' \<and> ag_pending a' = 1 \<and>
    ag_last_invocation a' = Some (77 * second_ns)"
proof -
  let ?env = "\<lambda>n. \<lparr>pe_queue = sample_queue, pe_now = 77 * second_ns, pe_count = True, pe_patch = True\<rparr>"
  have o: "owed sample_queue (new_publisher None True) [(''b'', sleepy)] ''b''"
    by (simp add: owed_def new_publisher_def sleepy_def opted_in_def)
  have n: "length (filter (\<lambda>t. tk_agent t = ''b'' \<and> tk_status t = Pending) (q_tasks sample_queue)) = 1" by code_simp
  have "distinct (pb_dirty (new_publisher None True))" by (simp add: new_publisher_def)
  from sweep_reports_queue [of ?env sample_queue "77 * second_ns", OF _ this o, of sleepy] n show ?thesis
    by (auto simp: new_publisher_def whole_second_def second_ns_def)
qed




end
