(* ===== verification/Telemetry.thy ===== *)
theory Telemetry
  imports Complex_Main TaskLogs EventQueue Replies
begin

text \<open>
  The event metrics of the console, read from the hub's own tables or from Prometheus
  (\<^verbatim>\<open>services/hub/internal/telemetry/store.go\<close>, \<^verbatim>\<open>services/hub/internal/api/handlers_observability.go\<close>): the four
  totals, the bucketed series, the zero-filled chart, the choice of the backend and the cached
  endpoints. Prometheus is not part of the sources; its answers are a parameter, and its sample values
  are rational numbers. Instants are nanoseconds; PostgreSQL keeps microseconds, which only matters for the drift the chart
  tolerates.
\<close>

section \<open>The metrics\<close>

definition metric_events_consumed :: string where "metric_events_consumed = ''events_consumed''"
definition metric_triggers_matched :: string where "metric_triggers_matched = ''triggers_matched''"
definition metric_events_routed :: string where "metric_events_routed = ''events_routed''"
definition metric_routing_errors :: string where "metric_routing_errors = ''routing_errors''"

lemmas metric_names = metric_events_consumed_def metric_triggers_matched_def metric_events_routed_def metric_routing_errors_def

datatype metric_table = EventsTable | TasksTable | LogsTable

text \<open>The table with its time column, whether the count is over distinct events, and the level filtered for.\<close>

record metric_spec =
  sp_table :: metric_table
  sp_distinct :: bool
  sp_level :: "string option"

definition metric_specs :: "(string \<times> metric_spec) list" where
  "metric_specs =
     [(metric_events_consumed, \<lparr>sp_table = EventsTable, sp_distinct = False, sp_level = None\<rparr>),
      (metric_triggers_matched, \<lparr>sp_table = TasksTable, sp_distinct = False, sp_level = None\<rparr>),
      (metric_events_routed, \<lparr>sp_table = TasksTable, sp_distinct = True, sp_level = None\<rparr>),
      (metric_routing_errors, \<lparr>sp_table = LogsTable, sp_distinct = False, sp_level = Some level_error\<rparr>)]"

definition supports_metric :: "string \<Rightarrow> bool" where
  "supports_metric name \<longleftrightarrow> map_of metric_specs name \<noteq> None"

text \<open>The columns the metrics read of a row.\<close>

record metric_row =
  rw_time :: instant
  rw_event :: string
  rw_level :: string

type_synonym metric_tables = "queue \<times> log_db"

fun table_rows :: "metric_table \<Rightarrow> metric_tables \<Rightarrow> metric_row list" where
  "table_rows EventsTable (q, l) = map (\<lambda>e. \<lparr>rw_time = er_received e, rw_event = er_id e, rw_level = []\<rparr>) (q_events q)"
| "table_rows TasksTable (q, l) = map (\<lambda>t. \<lparr>rw_time = tk_created t, rw_event = tk_event t, rw_level = []\<rparr>) (q_tasks q)"
| "table_rows LogsTable (q, l) = map (\<lambda>e. \<lparr>rw_time = lg_created e, rw_event = [], rw_level = lg_level e\<rparr>) (ld_logs l)"

definition window_predicate :: "metric_spec \<Rightarrow> instant \<Rightarrow> instant \<Rightarrow> metric_row \<Rightarrow> bool" where
  "window_predicate spec since until r \<longleftrightarrow> since \<le> rw_time r \<and> rw_time r < until \<and>
     (case sp_level spec of None \<Rightarrow> True | Some lv \<Rightarrow> rw_level r = lv)"

definition window_rows :: "metric_spec \<Rightarrow> instant \<Rightarrow> instant \<Rightarrow> metric_tables \<Rightarrow> metric_row list" where
  "window_rows spec since until tb = filter (window_predicate spec since until) (table_rows (sp_table spec) tb)"

definition count_expr :: "metric_spec \<Rightarrow> metric_row list \<Rightarrow> nat" where
  "count_expr spec rows = (if sp_distinct spec then length (remdups (map rw_event rows)) else length rows)"

definition subcount :: "metric_spec \<Rightarrow> instant \<Rightarrow> instant \<Rightarrow> metric_tables \<Rightarrow> nat" where
  "subcount spec since until tb = count_expr spec (window_rows spec since until tb)"

section \<open>The store\<close>

text \<open>A store without a pool has no tables.\<close>

type_synonym telemetry_store = "metric_tables option"

datatype telemetry_error = NoDatabase | UnknownMetric string | BadStep duration | QueryFailed string

record totals =
  to_consumed :: nat
  to_matched :: nat
  to_routed :: nat
  to_errors :: nat

definition ready :: "telemetry_store \<Rightarrow> bool" where
  "ready st \<longleftrightarrow> st \<noteq> None"

definition metric_count :: "string \<Rightarrow> instant \<Rightarrow> instant \<Rightarrow> metric_tables \<Rightarrow> nat" where
  "metric_count name since until tb =
     (case map_of metric_specs name of None \<Rightarrow> 0 | Some spec \<Rightarrow> subcount spec since until tb)"

definition read_totals :: "pg \<Rightarrow> instant \<Rightarrow> instant \<Rightarrow> telemetry_store \<Rightarrow> telemetry_error + totals" where
  "read_totals pg since until st =
     (case st of
        None \<Rightarrow> Inl NoDatabase
      | Some tb \<Rightarrow>
          if \<not> pg 0 then Inl (QueryFailed ''telemetry.Totals'')
          else Inr \<lparr>to_consumed = metric_count metric_events_consumed since until tb,
                    to_matched = metric_count metric_triggers_matched since until tb,
                    to_routed = metric_count metric_events_routed since until tb,
                    to_errors = metric_count metric_routing_errors since until tb\<rparr>)"

record bucket =
  bk_start :: instant
  bk_count :: nat

text \<open>The number of whole steps from the start of the window to a row.\<close>

definition bucket_index :: "instant \<Rightarrow> duration \<Rightarrow> metric_row \<Rightarrow> int" where
  "bucket_index since step r = (rw_time r - since) div step"

definition series :: "pg \<Rightarrow> string \<Rightarrow> instant \<Rightarrow> instant \<Rightarrow> duration \<Rightarrow> telemetry_store \<Rightarrow> telemetry_error + bucket list" where
  "series pg metric since until step st =
     (case st of
        None \<Rightarrow> Inl NoDatabase
      | Some tb \<Rightarrow>
          (case map_of metric_specs metric of
             None \<Rightarrow> Inl (UnknownMetric metric)
           | Some spec \<Rightarrow>
               if step \<le> 0 then Inl (BadStep step)
               else if \<not> pg 0 then Inl (QueryFailed ''telemetry.Series'')
               else let rows = window_rows spec since until tb in
                 Inr (map (\<lambda>k. \<lparr>bk_start = since + k * step,
                            bk_count = count_expr spec (filter (\<lambda>r. bucket_index since step r = k) rows)\<rparr>)
                   (sort (remdups (map (bucket_index since step) rows))))))"

section \<open>The chart\<close>

definition max_bucket_drift :: duration where "max_bucket_drift = 10 ^ 6"

definition max_series_points :: int where "max_series_points = 2000"

definition point_count :: "instant \<Rightarrow> instant \<Rightarrow> duration \<Rightarrow> nat" where
  "point_count start until step =
     (let n = (until - start) div step in if n < 0 then 0 else if max_series_points < n then nat max_series_points else nat n)"

text \<open>
  \<^verbatim>\<open>math.Round\<close> of the quotient: to the nearest integer, halves away from zero. The quotient is computed
  in floating point, exactly enough for the windows and steps in use to round the same way.
\<close>

definition round_div :: "int \<Rightarrow> int \<Rightarrow> int" where
  "round_div d step = (if 0 \<le> d then (2 * d + step) div (2 * step) else - ((2 * - d + step) div (2 * step)))"

text \<open>The loop over the buckets; a bucket off the grid is an error.\<close>

fun file_buckets :: "instant \<Rightarrow> duration \<Rightarrow> bucket list \<Rightarrow> int list \<Rightarrow> duration + int list" where
  "file_buckets start step [] vals = Inr vals"
| "file_buckets start step (b # bs) vals =
     (let idx = round_div (bk_start b - start) step in
      if idx < 0 \<or> int (length vals) \<le> idx then file_buckets start step bs vals
      else let drift = bk_start b - start - idx * step in
        if max_bucket_drift < drift \<or> drift < - max_bucket_drift then Inl drift
        else file_buckets start step bs (vals[nat idx := vals ! nat idx + int (bk_count b)]))"

type_synonym point = "instant \<times> rat"

definition dense_buckets :: "bucket list \<Rightarrow> instant \<Rightarrow> instant \<Rightarrow> duration \<Rightarrow> duration + point list" where
  "dense_buckets rows start until step =
     (let n = point_count start until step in
      case file_buckets start step rows (replicate n 0) of
        Inl drift \<Rightarrow> Inl drift
      | Inr vals \<Rightarrow> Inr (map (\<lambda>i. (start + int i * step, of_int (vals ! i))) [0..<n]))"


definition points_from_records ::
  "pg \<Rightarrow> string \<Rightarrow> instant \<Rightarrow> instant \<Rightarrow> duration \<Rightarrow> telemetry_store \<Rightarrow> string + point list" where
  "points_from_records pg metric start until step st =
     (case series pg metric start until step st of
        Inl _ \<Rightarrow> Inl (''failed to read '' @ metric @ '' from the hub database'')
      | Inr rows \<Rightarrow>
          (case dense_buckets rows start until step of
             Inl _ \<Rightarrow> Inl ''the records store must bucket from the window start''
           | Inr ps \<Rightarrow> Inr ps))"

section \<open>The endpoints\<close>

record range_option =
  ro_duration :: duration
  ro_step :: duration
  ro_prom :: string

definition supported_ranges :: "(string \<times> range_option) list" where
  "supported_ranges =
     [(''1h'', \<lparr>ro_duration = hour, ro_step = 30 * 10 ^ 9, ro_prom = ''1m''\<rparr>),
      (''6h'', \<lparr>ro_duration = 6 * hour, ro_step = 180 * 10 ^ 9, ro_prom = ''5m''\<rparr>),
      (''24h'', \<lparr>ro_duration = 24 * hour, ro_step = 600 * 10 ^ 9, ro_prom = ''15m''\<rparr>),
      (''7d'', \<lparr>ro_duration = 7 * 24 * hour, ro_step = hour, ro_prom = ''1h''\<rparr>)]"

text \<open>What Prometheus answers: the sample values of an instant query, the series of a range query.\<close>

record prom_client =
  pm_query :: "string \<Rightarrow> string + rat list"
  pm_range :: "string \<Rightarrow> instant \<Rightarrow> instant \<Rightarrow> duration \<Rightarrow> string + point list list"

record hub_metric =
  hm_name :: string
  hm_counter :: string

definition hub_metrics :: "hub_metric list" where
  "hub_metrics =
     [\<lparr>hm_name = ''events_consumed'', hm_counter = ''hub_events_consumed_total''\<rparr>,
      \<lparr>hm_name = ''triggers_matched'', hm_counter = ''hub_triggers_matched_total''\<rparr>,
      \<lparr>hm_name = ''events_routed'', hm_counter = ''hub_events_routed_total''\<rparr>,
      \<lparr>hm_name = ''routing_errors'', hm_counter = ''hub_routing_errors_total''\<rparr>]"

definition find_hub_metric :: "string \<Rightarrow> hub_metric option" where
  "find_hub_metric name = List.find (\<lambda>m. hm_name m = name) hub_metrics"

text \<open>The three queries made of a counter name.\<close>

definition total_query :: "hub_metric \<Rightarrow> string" where
  "total_query m = ''sum('' @ hm_counter m @ '')''"

definition increase_query :: "hub_metric \<Rightarrow> string \<Rightarrow> string" where
  "increase_query m range_key = ''sum(increase('' @ hm_counter m @ ''['' @ range_key @ '']))''"

definition rate_query :: "hub_metric \<Rightarrow> string \<Rightarrow> string" where
  "rate_query m prom_range = ''sum(rate('' @ hm_counter m @ ''['' @ prom_range @ '']))''"

definition source_prometheus :: string where "source_prometheus = ''prometheus''"
definition source_postgres :: string where "source_postgres = ''postgres''"

text \<open>What the handlers are wired over; \<open>mx_source\<close> is the pinned backend.\<close>

record metrics_server =
  mx_source :: string
  mx_store :: telemetry_store
  mx_prom :: "prom_client option"
  mx_logs :: "log_db option"

text \<open>The chosen backend, or the reason there is none.\<close>

definition metrics_backend :: "metrics_server \<Rightarrow> string + string" where
  "metrics_backend s =
     (if mx_source s = source_prometheus
      then (if mx_prom s \<noteq> None then Inr source_prometheus
            else Inl ''prometheus not configured: set observability.prometheus.url'')
      else if ready (mx_store s) then Inr source_postgres
      else if mx_prom s \<noteq> None then Inr source_prometheus
      else Inl ''no metrics backend: give the hub a database to read its own records from, or set observability.prometheus.url'')"

record metrics_summary =
  sy_consumed :: rat
  sy_matched :: rat
  sy_routed :: rat
  sy_errors :: rat
  sy_updated :: instant
  sy_source :: string

definition all_time_start :: instant where "all_time_start = 0"

definition summary_from_records ::
  "pg \<Rightarrow> instant \<Rightarrow> range_option option \<Rightarrow> telemetry_store \<Rightarrow> string + metrics_summary" where
  "summary_from_records pg now rng st =
     (let start = (case rng of None \<Rightarrow> all_time_start | Some r \<Rightarrow> now - ro_duration r) in
      case read_totals pg start now st of
        Inl _ \<Rightarrow> Inl ''failed to read metrics from the hub database''
      | Inr t \<Rightarrow> Inr \<lparr>sy_consumed = of_nat (to_consumed t), sy_matched = of_nat (to_matched t),
          sy_routed = of_nat (to_routed t), sy_errors = of_nat (to_errors t), sy_updated = now, sy_source = source_postgres\<rparr>)"

text \<open>The first sample of an instant query, zero without one.\<close>

definition single_scalar :: "prom_client \<Rightarrow> string \<Rightarrow> string + rat" where
  "single_scalar p q = (case pm_query p q of Inl e \<Rightarrow> Inl e | Inr [] \<Rightarrow> Inr 0 | Inr (v # _) \<Rightarrow> Inr v)"

text \<open>\<^verbatim>\<open>math.Round\<close>: halves away from zero.\<close>

definition round_half :: "rat \<Rightarrow> rat" where
  "round_half v = (if 0 \<le> v then of_int \<lfloor>v + 1 / 2\<rfloor> else - of_int \<lfloor>- v + 1 / 2\<rfloor>)"

definition set_metric :: "string \<Rightarrow> rat \<Rightarrow> metrics_summary \<Rightarrow> metrics_summary" where
  "set_metric name v s =
     (if name = ''events_consumed'' then s\<lparr>sy_consumed := v\<rparr>
      else if name = ''triggers_matched'' then s\<lparr>sy_matched := v\<rparr>
      else if name = ''events_routed'' then s\<lparr>sy_routed := v\<rparr>
      else if name = ''routing_errors'' then s\<lparr>sy_errors := v\<rparr> else s)"

text \<open>
  One counter of the summary. With a range the errors are counted from the task logs, if there are any;
  \<open>ok\<close> says whether that statement is executed, \<open>t\<close> is its instant.
\<close>

definition prom_metric ::
  "bool \<Rightarrow> instant \<Rightarrow> prom_client \<Rightarrow> log_db option \<Rightarrow> (string \<times> range_option) option \<Rightarrow> hub_metric \<Rightarrow> string + rat" where
  "prom_metric ok t p logs rng m =
     (case (if hm_name m = ''routing_errors'' then rng else None, logs) of
        (Some (_, r), Some db) \<Rightarrow>
          (case count_by_level_since (\<lambda>_. ok) level_error (t - ro_duration r) db of
             Inl _ \<Rightarrow> Inl ''failed to count error task logs'' | Inr n \<Rightarrow> Inr (of_nat n))
      | _ \<Rightarrow>
          (case single_scalar p (case rng of None \<Rightarrow> total_query m | Some (key, _) \<Rightarrow> increase_query m key) of
             Inl e \<Rightarrow> Inl (''failed to query '' @ hm_name m @ '': '' @ e) | Inr v \<Rightarrow> Inr (round_half v)))"

fun prom_summary ::
  "(hub_metric \<Rightarrow> string + rat) \<Rightarrow> hub_metric list \<Rightarrow> metrics_summary \<Rightarrow> string + metrics_summary" where
  "prom_summary f [] s = Inr s"
| "prom_summary f (m # ms) s =
     (case f m of Inl e \<Rightarrow> Inl e | Inr v \<Rightarrow> prom_summary f ms (set_metric (hm_name m) v s))"

definition summary_from_prometheus ::
  "bool \<Rightarrow> instant \<Rightarrow> prom_client \<Rightarrow> log_db option \<Rightarrow> (string \<times> range_option) option \<Rightarrow> string + metrics_summary" where
  "summary_from_prometheus ok now p logs rng =
     prom_summary (prom_metric ok now p logs rng) hub_metrics
       \<lparr>sy_consumed = 0, sy_matched = 0, sy_routed = 0, sy_errors = 0, sy_updated = now, sy_source = source_prometheus\<rparr>"

definition points_from_prometheus ::
  "prom_client \<Rightarrow> hub_metric \<Rightarrow> range_option \<Rightarrow> instant \<Rightarrow> instant \<Rightarrow> string + point list" where
  "points_from_prometheus p m rng start until =
     (case pm_range p (rate_query m (ro_prom rng)) start until (ro_step rng) of
        Inl e \<Rightarrow> Inl (''failed to query metrics: '' @ e)
      | Inr [] \<Rightarrow> Inr []
      | Inr (s # _) \<Rightarrow> Inr s)"

record metrics_timeseries =
  tm_metric :: string
  tm_range :: string
  tm_step :: duration
  tm_points :: "point list"
  tm_source :: string

text \<open>The cache of replies: a value and the instant it expires.\<close>

datatype cached = CachedSummary metrics_summary | CachedSeries metrics_timeseries

type_synonym prom_cache = "(string \<times> cached \<times> instant) list"

definition observability_ttl :: duration where "observability_ttl = 30 * 10 ^ 9"

definition cache_get :: "instant \<Rightarrow> string \<Rightarrow> prom_cache \<Rightarrow> cached option \<times> prom_cache" where
  "cache_get now key c =
     (case map_of c key of
        None \<Rightarrow> (None, c)
      | Some (v, expires) \<Rightarrow> if expires < now then (None, adel key c) else (Some v, c))"

definition cache_set :: "instant \<Rightarrow> string \<Rightarrow> cached \<Rightarrow> prom_cache \<Rightarrow> prom_cache" where
  "cache_set now key v c = aput key (v, now + observability_ttl) c"

definition bad_range :: string where "bad_range = ''unsupported range; allowed values: 1h, 6h, 24h, 7d''"

text \<open>
  The surroundings of one request: whether its statement is executed, and the instants at which it
  looks into the cache, computes and stores the reply.
\<close>

record metrics_env =
  mv_ok :: bool
  mv_get :: instant
  mv_now :: instant
  mv_set :: instant

definition summary_key :: "string \<Rightarrow> string \<Rightarrow> string" where
  "summary_key source range_key = ''summary:'' @ source @ (if range_key \<noteq> [] then '':'' @ range_key else [])"

definition compute_summary ::
  "metrics_env \<Rightarrow> metrics_server \<Rightarrow> string \<Rightarrow> (string \<times> range_option) option \<Rightarrow> string + metrics_summary" where
  "compute_summary v s source rng =
     (if source = source_postgres then summary_from_records (\<lambda>_. mv_ok v) (mv_now v) (map_option snd rng) (mx_store s)
      else (case mx_prom s of None \<Rightarrow> Inl [] | Some p \<Rightarrow> summary_from_prometheus (mv_ok v) (mv_now v) p (mx_logs s) rng))"

definition get_metrics_summary ::
  "metrics_env \<Rightarrow> metrics_server \<Rightarrow> string \<Rightarrow> prom_cache \<Rightarrow> (refusal + cached) \<times> prom_cache" where
  "get_metrics_summary v s range_key c =
     (if range_key \<noteq> [] \<and> map_of supported_ranges range_key = None then (Inl (Refused 400 bad_range), c)
      else (case metrics_backend s of
              Inl reason \<Rightarrow> (Inl (Refused 503 reason), c)
            | Inr source \<Rightarrow>
                (case cache_get (mv_get v) (summary_key source range_key) c of
                   (Some r, c1) \<Rightarrow> (Inr r, c1)
                 | (None, c1) \<Rightarrow>
                     (case compute_summary v s source
                             (map_option (\<lambda>r. (range_key, r)) (if range_key = [] then None else map_of supported_ranges range_key)) of
                        Inl e \<Rightarrow> (Inl (Refused 502 e), c1)
                      | Inr r \<Rightarrow> (Inr (CachedSummary r), cache_set (mv_set v) (summary_key source range_key) (CachedSummary r) c1)))))"

definition series_key :: "string \<Rightarrow> string \<Rightarrow> string \<Rightarrow> string" where
  "series_key source metric range_key = ''ts:'' @ source @ '':'' @ metric @ '':'' @ range_key"

definition compute_points ::
  "metrics_env \<Rightarrow> metrics_server \<Rightarrow> string \<Rightarrow> hub_metric \<Rightarrow> range_option \<Rightarrow> string + point list" where
  "compute_points v s source m rng =
     (if source = source_postgres
      then points_from_records (\<lambda>_. mv_ok v) (hm_name m) (mv_now v - ro_duration rng) (mv_now v) (ro_step rng) (mx_store s)
      else (case mx_prom s of None \<Rightarrow> Inl []
            | Some p \<Rightarrow> points_from_prometheus p m rng (mv_now v - ro_duration rng) (mv_now v)))"

definition get_metrics_timeseries ::
  "metrics_env \<Rightarrow> metrics_server \<Rightarrow> string \<Rightarrow> string \<Rightarrow> prom_cache \<Rightarrow> (refusal + cached) \<times> prom_cache" where
  "get_metrics_timeseries v s metric_param range_param c =
     (let metric = (if metric_param = [] then ''events_consumed'' else metric_param);
          range_key = (if range_param = [] then ''1h'' else range_param) in
      case map_of supported_ranges range_key of
        None \<Rightarrow> (Inl (Refused 400 bad_range), c)
      | Some rng \<Rightarrow>
          (case find_hub_metric metric of
             None \<Rightarrow> (Inl (Refused 400 (''unknown metric '' @ metric)), c)
           | Some m \<Rightarrow>
               (case metrics_backend s of
                  Inl reason \<Rightarrow> (Inl (Refused 503 reason), c)
                | Inr source \<Rightarrow>
                    if source = source_postgres \<and> \<not> supports_metric (hm_name m)
                    then (Inl (Refused 400 (''metric '' @ hm_name m @ '' is not readable from the hub'' @ [CHR 0x27] @ ''s own records'')), c)
                    else (case cache_get (mv_get v) (series_key source (hm_name m) range_key) c of
                            (Some r, c1) \<Rightarrow> (Inr r, c1)
                          | (None, c1) \<Rightarrow>
                              (case compute_points v s source m rng of
                                 Inl e \<Rightarrow> (Inl (Refused 502 e), c1)
                               | Inr ps \<Rightarrow>
                                   let r = CachedSeries \<lparr>tm_metric = hm_name m, tm_range = range_key, tm_step = ro_step rng,
                                             tm_points = ps, tm_source = source\<rparr> in
                                   (Inr r, cache_set (mv_set v) (series_key source (hm_name m) range_key) r c1))))))"

section \<open>What the chart shows\<close>

lemma round_div_multiple: "0 < step \<Longrightarrow> 0 \<le> k \<Longrightarrow> round_div (k * step) step = k"
proof -
  assume a: "0 < step" "0 \<le> k"
  have "(2 * (k * step) + step) div (2 * step) = k + step div (2 * step)"
    using a(1) div_mult_self2 [of "2 * step" step k] by (simp add: algebra_simps)
  then show ?thesis using a by (simp add: round_div_def)
qed

lemma file_buckets_aligned:
  assumes "0 < step" "distinct ks" "\<forall>k \<in> set ks. 0 \<le> k \<and> k < int (length vals)"
  shows "file_buckets start step (map (\<lambda>k. \<lparr>bk_start = start + k * step, bk_count = c k\<rparr>) ks) vals =
    Inr (map (\<lambda>i. vals ! i + (if int i \<in> set ks then int (c (int i)) else 0)) [0..<length vals])"
  using assms(2,3)
proof (induction ks arbitrary: vals)
  case Nil
  then show ?case by (simp add: map_nth)
next
  case (Cons k ks)
  let ?v = "vals[nat k := vals ! nat k + int (c k)]"
  have k: "0 \<le> k" "k < int (length vals)" using Cons.prems by auto
  then have r: "round_div (k * step) step = k" using round_div_multiple assms(1) by simp
  have "file_buckets start step (map (\<lambda>k. \<lparr>bk_start = start + k * step, bk_count = c k\<rparr>) (k # ks)) vals =
      file_buckets start step (map (\<lambda>k. \<lparr>bk_start = start + k * step, bk_count = c k\<rparr>) ks) ?v"
    using k by (simp add: r Let_def max_bucket_drift_def)
  also have "\<dots> = Inr (map (\<lambda>i. ?v ! i + (if int i \<in> set ks then int (c (int i)) else 0)) [0..<length ?v])"
    using Cons.prems by (intro Cons.IH) auto
  also have "\<dots> = Inr (map (\<lambda>i. vals ! i + (if int i \<in> set (k # ks) then int (c (int i)) else 0)) [0..<length vals])"
    using Cons.prems k by (auto simp: nth_list_update)
  finally show ?case .
qed

lemma count_expr_Nil [simp]: "count_expr spec [] = 0"
  by (simp add: count_expr_def)

lemma bucket_window:
  assumes "0 < step" "0 \<le> k" "since + (k + 1) * step \<le> until"
  shows "filter (\<lambda>r. bucket_index since step r = k) (window_rows spec since until tb) =
    window_rows spec (since + k * step) (since + (k + 1) * step) tb"
proof -
  have "window_predicate spec since until r \<and> bucket_index since step r = k \<longleftrightarrow>
      window_predicate spec (since + k * step) (since + (k + 1) * step) r" for r
  proof -
    let ?d = "rw_time r - since"
    have "?d div step = k \<longleftrightarrow> k * step \<le> ?d \<and> ?d < (k + 1) * step"
    proof
      assume "?d div step = k"
      then have "?d = k * step + ?d mod step" by (metis div_mult_mod_eq)
      then show "k * step \<le> ?d \<and> ?d < (k + 1) * step"
        using pos_mod_bound [OF assms(1), of ?d] pos_mod_sign [OF assms(1), of ?d] by (simp add: algebra_simps)
    next
      assume "k * step \<le> ?d \<and> ?d < (k + 1) * step"
      then show "?d div step = k"
        using assms(1) by (intro int_div_pos_eq [where r = "?d - k * step"]) (auto simp: algebra_simps)
    qed
    moreover have "0 \<le> k * step" using assms by simp
    ultimately show ?thesis using assms(3) by (auto simp: window_predicate_def bucket_index_def)
  qed
  then show ?thesis by (simp add: window_rows_def conj_commute)
qed

lemma bucket_index_range:
  assumes "0 < step" "until = since + int n * step" "r \<in> set (window_rows spec since until tb)"
  shows "0 \<le> bucket_index since step r \<and> bucket_index since step r < int n"
proof -
  have r: "0 \<le> rw_time r - since" "rw_time r - since < int n * step"
    using assms by (auto simp: window_rows_def window_predicate_def)
  have "(rw_time r - since) div step < int n" 
    using r(2) assms(1) by (smt (verit) mult_right_less_imp_less minus_mod_eq_div_mult [symmetric] pos_mod_sign)
  then show ?thesis using r(1) assms(1) by (simp add: bucket_index_def pos_imp_zdiv_nonneg_iff)
qed

text \<open>
  On a window of whole steps the chart has one point per step, and a point is the count of its own
  slice of the window; no bucket is off the grid.
\<close>

lemma chart_points:
  assumes "0 < step" "until = since + int n * step" "n \<le> 2000" "map_of metric_specs metric = Some spec"
  shows "points_from_records all_ok metric since until step (Some tb) =
    Inr (map (\<lambda>i. (since + int i * step,
        of_nat (subcount spec (since + int i * step) (since + (int i + 1) * step) tb))) [0..<n])"
proof -
  let ?rows = "window_rows spec since until tb"
  let ?c = "\<lambda>k. count_expr spec (filter (\<lambda>r. bucket_index since step r = k) ?rows)"
  let ?ks = "sort (remdups (map (bucket_index since step) ?rows))"
  have s: "series all_ok metric since until step (Some tb) = Inr (map (\<lambda>k. \<lparr>bk_start = since + k * step, bk_count = ?c k\<rparr>) ?ks)"
    using assms(1,4) by (simp add: series_def Let_def)
  have n: "point_count since until step = n"
    using assms(1-3) by (simp add: point_count_def max_series_points_def Let_def)
  have "\<forall>k \<in> set ?ks. 0 \<le> k \<and> k < int (length (replicate n (0 :: int)))"
    using bucket_index_range [OF assms(1,2)] by auto
  then have f: "file_buckets since step (map (\<lambda>k. \<lparr>bk_start = since + k * step, bk_count = ?c k\<rparr>) ?ks) (replicate n 0) =
      Inr (map (\<lambda>i. replicate n 0 ! i + (if int i \<in> set ?ks then int (?c (int i)) else 0)) [0..<length (replicate n (0 :: int))])"
    using assms(1) by (intro file_buckets_aligned) auto
  have c: "(if int i \<in> set ?ks then int (?c (int i)) else 0) = int (?c (int i))" for i
  proof (cases "int i \<in> set ?ks")
    case False
    then have "filter (\<lambda>r. bucket_index since step r = int i) ?rows = []" by (force simp: filter_empty_conv)
    then show ?thesis using False by simp
  qed simp
  have w: "?c (int i) = subcount spec (since + int i * step) (since + (int i + 1) * step) tb" if "i < n" for i
  proof -
    have "(int i + 1) * step \<le> int n * step" using that assms(1) by (intro mult_right_mono) auto
    then show ?thesis using bucket_window [OF assms(1), of "int i" since until spec tb] assms(2) by (simp add: subcount_def)
  qed
  have "dense_buckets (map (\<lambda>k. \<lparr>bk_start = since + k * step, bk_count = ?c k\<rparr>) ?ks) since until step =
      Inr (map (\<lambda>i. (since + int i * step, of_int (int (?c (int i))))) [0..<n])"
    unfolding dense_buckets_def n Let_def f c by simp
  also have "\<dots> = Inr (map (\<lambda>i. (since + int i * step,
        of_nat (subcount spec (since + int i * step) (since + (int i + 1) * step) tb))) [0..<n])"
    using w by simp
  finally show ?thesis by (simp add: points_from_records_def s)
qed

text \<open>Slices of a window partition its rows; distinct events are counted once per slice.\<close>

lemma slices_add_up:
  assumes "0 < step" "until = since + int n * step"
  shows "sum_list (map (\<lambda>i. length (window_rows spec (since + int i * step) (since + (int i + 1) * step) tb)) [0..<n]) =
    length (window_rows spec since until tb)"
proof -
  let ?rows = "window_rows spec since until tb"
  let ?f = "\<lambda>r. nat (bucket_index since step r)"
  have R: "0 \<le> bucket_index since step r \<and> bucket_index since step r < int n" if "r \<in> set ?rows" for r
    using bucket_index_range [OF assms that] .
  have "length (filter (\<lambda>r. ?f r = i) ?rows) = length (window_rows spec (since + int i * step) (since + (int i + 1) * step) tb)"
    if "i < n" for i
  proof -
    have "(int i + 1) * step \<le> int n * step" using that assms(1) by (intro mult_right_mono) auto
    moreover have "filter (\<lambda>r. ?f r = i) ?rows = filter (\<lambda>r. bucket_index since step r = int i) ?rows"
      using R by (intro filter_cong refl) (metis int_nat_eq nat_int)
    ultimately show ?thesis using bucket_window [OF assms(1), of "int i" since until spec tb] assms(2) by simp
  qed
  then have "sum_list (map (\<lambda>i. length (window_rows spec (since + int i * step) (since + (int i + 1) * step) tb)) [0..<n]) =
      sum_list (map (\<lambda>i. length (filter (\<lambda>r. ?f r = i) ?rows)) [0..<n])"
    by (intro arg_cong [where f = sum_list] map_cong) auto
  also have "\<dots> = length ?rows"
    using R by (intro count_by_group) (auto simp: nat_less_iff)
  finally show ?thesis .
qed

lemma distinct_count_le:
  assumes "0 < step" "until = since + int n * step"
  shows "length (remdups (map rw_event (window_rows spec since until tb))) \<le>
    sum_list (map (\<lambda>i. length (remdups (map rw_event (window_rows spec (since + int i * step) (since + (int i + 1) * step) tb)))) [0..<n])"
proof -
  let ?rows = "window_rows spec since until tb"
  let ?w = "\<lambda>i. window_rows spec (since + int i * step) (since + (int i + 1) * step) tb"
  have "rw_event ` set ?rows \<subseteq> (\<Union>i < n. rw_event ` set (?w i))"
  proof
    fix x assume "x \<in> rw_event ` set ?rows"
    then obtain r where r: "r \<in> set ?rows" "x = rw_event r" by blast
    obtain i where i: "bucket_index since step r = int i" "i < n"
      using bucket_index_range [OF assms r(1)] by (metis nat_less_iff of_nat_eq_iff int_nat_eq)
    have "(int i + 1) * step \<le> int n * step" using i(2) assms(1) by (intro mult_right_mono) auto
    then have "r \<in> set (?w i)"
      using bucket_window [OF assms(1), of "int i" since until spec tb, symmetric] assms(2) i(1) r(1) by simp
    then show "x \<in> (\<Union>i < n. rw_event ` set (?w i))" using i(2) r(2) by blast
  qed
  then have "card (rw_event ` set ?rows) \<le> card (\<Union>i < n. rw_event ` set (?w i))" by (intro card_mono) auto
  also have "\<dots> \<le> (\<Sum>i < n. card (rw_event ` set (?w i)))" by (rule card_UN_le) simp
  also have "\<dots> = sum_list (map (\<lambda>i. card (rw_event ` set (?w i))) [0..<n])"
    by (simp add: sum_list_distinct_conv_sum_set atLeast0LessThan)
  finally show ?thesis by (simp add: length_remdups_card_conv)
qed

lemma of_nat_sum: "of_nat (sum_list ns) = sum_list (map of_nat ns :: 'b :: semiring_1 list)"
  by (induction ns) auto

lemma supported_range_grid:
  assumes "map_of supported_ranges key = Some rng"
  obtains n where "0 < ro_step rng" "ro_duration rng = int n * ro_step rng" "n \<le> 2000"
proof -
  have "rng \<in> {\<lparr>ro_duration = hour, ro_step = 30 * 10 ^ 9, ro_prom = ''1m''\<rparr>,
      \<lparr>ro_duration = 6 * hour, ro_step = 180 * 10 ^ 9, ro_prom = ''5m''\<rparr>,
      \<lparr>ro_duration = 24 * hour, ro_step = 600 * 10 ^ 9, ro_prom = ''15m''\<rparr>,
      \<lparr>ro_duration = 7 * 24 * hour, ro_step = hour, ro_prom = ''1h''\<rparr>}"
    using assms by (auto simp: supported_ranges_def split: if_splits)
  then consider "ro_step rng = 30 * 10 ^ 9" "ro_duration rng = hour" | "ro_step rng = 180 * 10 ^ 9" "ro_duration rng = 6 * hour"
    | "ro_step rng = 600 * 10 ^ 9" "ro_duration rng = 24 * hour" | "ro_step rng = hour" "ro_duration rng = 7 * 24 * hour"
    by auto
  then show ?thesis
    by cases (rule that [of 120], simp_all add: hour_def, rule that [of 120], simp_all add: hour_def,
      rule that [of 144], simp_all add: hour_def, rule that [of 168], simp_all add: hour_def)
qed

text \<open>
  The charts of the console agree with its cards: for every range the API accepts the chart read
  from the hub's records never fails on a bucket off its grid, has exactly the points of the grid,
  every point is the count of its own slice of the window, and the points add up to the figure of the
  card for the same window. The one metric that counts distinct events may add up to more,
  never to less.
\<close>

theorem chart_agrees_with_cards:
  assumes "map_of supported_ranges key = Some rng" "map_of metric_specs metric = Some spec"
  shows "\<exists>pts. points_from_records all_ok metric (now - ro_duration rng) now (ro_step rng) (Some tb) = Inr pts \<and>
    int (length pts) * ro_step rng = ro_duration rng \<and>
    pts = map (\<lambda>i. let t = now - ro_duration rng + int i * ro_step rng in (t, of_nat (subcount spec t (t + ro_step rng) tb))) [0..<length pts] \<and>
    (let card = of_nat (metric_count metric (now - ro_duration rng) now tb)
     in if metric = metric_events_routed then card \<le> sum_list (map snd pts) else sum_list (map snd pts) = card)"
proof -
  obtain n where n: "0 < ro_step rng" "ro_duration rng = int n * ro_step rng" "n \<le> 2000"
    using supported_range_grid [OF assms(1)] .
  let ?since = "now - ro_duration rng"
  let ?w = "\<lambda>i. window_rows spec (?since + int i * ro_step rng) (?since + (int i + 1) * ro_step rng) tb"
  let ?pts = "map (\<lambda>i. (?since + int i * ro_step rng, of_nat (count_expr spec (?w i)) :: rat)) [0..<n]"
  have u: "now = ?since + int n * ro_step rng" using n(2) by simp
  have p: "points_from_records all_ok metric ?since now (ro_step rng) (Some tb) = Inr ?pts"
    using chart_points [OF n(1) u n(3) assms(2), of tb] by (simp add: subcount_def)
  have s: "sum_list (map snd ?pts) = of_nat (sum_list (map (\<lambda>i. count_expr spec (?w i)) [0..<n]))"
    using of_nat_sum [of "map (\<lambda>i. count_expr spec (?w i)) [0..<n]", where ?'b = rat] by (simp add: o_def)
  have d: "sp_distinct spec \<longleftrightarrow> metric = metric_events_routed"
    using assms(2) by (auto simp: metric_specs_def metric_names split: if_splits)
  have c: "metric_count metric ?since now tb = count_expr spec (window_rows spec ?since now tb)"
    by (simp add: metric_count_def assms(2) subcount_def)
  have "if sp_distinct spec then metric_count metric ?since now tb \<le> sum_list (map (\<lambda>i. count_expr spec (?w i)) [0..<n])
      else sum_list (map (\<lambda>i. count_expr spec (?w i)) [0..<n]) = metric_count metric ?since now tb"
    using distinct_count_le [OF n(1) u, of spec tb] slices_add_up [OF n(1) u, of spec tb]
    unfolding c by (simp add: count_expr_def)
  then show ?thesis
    using p n(2) s d
    by (intro exI [of _ ?pts]) (simp add: Let_def subcount_def algebra_simps split: if_splits)
qed

definition sample_tables :: metric_tables where
  "sample_tables = (empty_queue\<lparr>q_events := map (\<lambda>(i, t). \<lparr>er_id = i, er_connector = ''git'', er_channel = None, er_headers = [],
     er_data = JNull, er_raw = [], er_received = t, er_routed = None\<rparr>) [(''a'', 3599 * 10 ^ 9), (''b'', 10), (''c'', 45 * 10 ^ 9)]\<rparr>, empty_logs)"

theorem chart_agrees_with_cards_witness:
  "\<exists>pts. points_from_records all_ok ''events_consumed'' 0 (3600 * 10 ^ 9) (30 * 10 ^ 9) (Some sample_tables) = Inr pts \<and>
     length pts = 120 \<and> sum_list (map snd pts) = 3"
proof -
  let ?rng = "\<lparr>ro_duration = hour, ro_step = 30 * 10 ^ 9, ro_prom = ''1m''\<rparr>"
  let ?spec = "\<lparr>sp_table = EventsTable, sp_distinct = False, sp_level = None\<rparr>"
  have r: "map_of supported_ranges ''1h'' = Some ?rng" by (simp add: supported_ranges_def)
  have m: "map_of metric_specs ''events_consumed'' = Some ?spec" by (simp add: metric_specs_def metric_names)
  have c: "metric_count ''events_consumed'' 0 (3600 * 10 ^ 9) sample_tables = 3"
    by (simp add: metric_count_def m subcount_def count_expr_def window_rows_def window_predicate_def sample_tables_def empty_queue_def)
  show ?thesis
    using chart_agrees_with_cards [OF r m, of "3600 * 10 ^ 9" sample_tables] c by (auto simp: hour_def metric_names Let_def)
qed

section \<open>What the cache serves\<close>

datatype metrics_request = SummaryRequest string | SeriesRequest string string

fun serve_metrics :: "metrics_env \<Rightarrow> metrics_server \<Rightarrow> metrics_request \<Rightarrow> prom_cache \<Rightarrow> (refusal + cached) \<times> prom_cache" where
  "serve_metrics v s (SummaryRequest range_key) c = get_metrics_summary v s range_key c"
| "serve_metrics v s (SeriesRequest metric range_key) c = get_metrics_timeseries v s metric range_key c"

text \<open>The hub may change between requests: its tables, its clients, even the pinned backend.\<close>

fun run_metrics :: "(metrics_env \<times> metrics_server \<times> metrics_request) list \<Rightarrow> prom_cache \<Rightarrow> prom_cache" where
  "run_metrics [] c = c"
| "run_metrics ((v, s, r) # rs) c = run_metrics rs (snd (serve_metrics v s r c))"

definition entry_ok :: "duration \<Rightarrow> string \<Rightarrow> cached \<Rightarrow> instant \<Rightarrow> bool" where
  "entry_ok d k x e = (case x of
     CachedSummary r \<Rightarrow> (\<exists>range_key. k = summary_key (sy_source r) range_key) \<and>
       sy_source r \<in> {source_prometheus, source_postgres} \<and> e \<le> sy_updated r + d + observability_ttl
   | CachedSeries r \<Rightarrow> k = series_key (tm_source r) (tm_metric r) (tm_range r))"

definition metrics_cache_ok :: "duration \<Rightarrow> prom_cache \<Rightarrow> bool" where
  "metrics_cache_ok d c \<longleftrightarrow> (\<forall>(k, x, e) \<in> set c. entry_ok d k x e)"

lemma metrics_cache_ok_adel: "metrics_cache_ok d c \<Longrightarrow> metrics_cache_ok d (adel k c)"
  by (auto simp: metrics_cache_ok_def adel_def)

lemma metrics_cache_ok_set:
  "metrics_cache_ok d c \<Longrightarrow> entry_ok d k x (t + observability_ttl) \<Longrightarrow> metrics_cache_ok d (cache_set t k x c)"
  by (auto simp: metrics_cache_ok_def cache_set_def aput_def)

lemma cache_get_ok:
  assumes "metrics_cache_ok d c" "cache_get t k c = (o1, c1)"
  shows "metrics_cache_ok d c1 \<and> (case o1 of None \<Rightarrow> True | Some x \<Rightarrow> \<exists>e. entry_ok d k x e \<and> t \<le> e)"
proof (cases "map_of c k")
  case None
  then show ?thesis using assms by (simp add: cache_get_def)
next
  case (Some p)
  obtain x e where p: "p = (x, e)" by (cases p)
  have "entry_ok d k x e" using assms(1) map_of_SomeD [OF Some] by (auto simp: metrics_cache_ok_def p)
  then show ?thesis using assms Some p metrics_cache_ok_adel [OF assms(1), of k]
    by (cases "e < t") (auto simp: cache_get_def intro!: exI [of _ e])
qed

lemma cache_get_keeps: "cache_get t k c = (o1, c1) \<Longrightarrow> metrics_cache_ok d c \<Longrightarrow> metrics_cache_ok d c1"
  using cache_get_ok by blast

lemma source_names: "source_prometheus = ''prometheus''" "source_postgres = ''postgres''"
  by (simp_all add: source_prometheus_def source_postgres_def)

lemma metrics_backend_source: "metrics_backend s = Inr src \<Longrightarrow> src \<in> {source_prometheus, source_postgres}"
  by (auto simp: metrics_backend_def split: if_splits)

lemma summary_entry:
  assumes "entry_ok d (summary_key src range_key) x e" "src \<in> {source_prometheus, source_postgres}"
  shows "\<exists>y. x = CachedSummary y \<and> src = sy_source y \<and> e \<le> sy_updated y + d + observability_ttl"
proof (cases x)
  case (CachedSummary y)
  have "src = src'" if "summary_key src range_key = summary_key src' range_key'" "src' \<in> {source_prometheus, source_postgres}" for src' range_key'
    using that assms(2) by (auto simp: summary_key_def source_names)
  then show ?thesis using assms(1) CachedSummary by (auto simp: entry_ok_def)
next
  case (CachedSeries y)
  then show ?thesis using assms(1) by (simp add: entry_ok_def summary_key_def series_key_def)
qed

lemma prom_summary_keeps:
  "prom_summary f ms s = Inr r \<Longrightarrow> sy_updated r = sy_updated s \<and> sy_source r = sy_source s"
proof (induction ms arbitrary: s)
  case (Cons m ms)
  then show ?case by (fastforce simp: set_metric_def split: sum.splits)
qed simp

lemma compute_summary_stamp:
  assumes "compute_summary v s src rng = Inr r" "src \<in> {source_prometheus, source_postgres}"
  shows "sy_updated r = mv_now v \<and> sy_source r = src"
  using assms
  by (auto simp: compute_summary_def summary_from_records_def Let_def summary_from_prometheus_def source_names
      split: sum.splits option.splits if_splits dest: prom_summary_keeps)

lemma summary_reply:
  assumes "metrics_cache_ok d c" "mv_get v \<le> mv_now v" "mv_set v \<le> mv_now v + d" "0 \<le> d"
    and "get_metrics_summary v s range_key c = (r, c')"
  shows "metrics_cache_ok d c' \<and> (case r of Inl _ \<Rightarrow> True | Inr x \<Rightarrow>
     \<exists>y. x = CachedSummary y \<and> metrics_backend s = Inr (sy_source y) \<and> mv_get v \<le> sy_updated y + d + observability_ttl)"
proof (cases "range_key \<noteq> [] \<and> map_of supported_ranges range_key = None")
  case True
  then show ?thesis using assms by (auto simp: get_metrics_summary_def)
next
  case valid: False
  show ?thesis
  proof (cases "metrics_backend s")
    case (Inl e)
    then show ?thesis using assms valid by (auto simp: get_metrics_summary_def)
  next
    case (Inr src)
    note src = metrics_backend_source [OF Inr]
    obtain o1 c1 where g: "cache_get (mv_get v) (summary_key src range_key) c = (o1, c1)" by fastforce
    note ok = cache_get_ok [OF assms(1) g]
    show ?thesis
    proof (cases o1)
      case (Some x)
      with ok obtain e where x: "entry_ok d (summary_key src range_key) x e" "mv_get v \<le> e" by auto
      obtain y where "x = CachedSummary y" "src = sy_source y" "e \<le> sy_updated y + d + observability_ttl"
        using summary_entry [OF x(1) src] by blast
      moreover have "r = Inr x" "c' = c1" using assms(5) valid Inr g Some by (auto simp: get_metrics_summary_def)
      ultimately show ?thesis using Inr ok x(2) by auto
    next
      case None
      let ?rng = "map_option (\<lambda>r. (range_key, r)) (if range_key = [] then None else map_of supported_ranges range_key)"
      show ?thesis
      proof (cases "compute_summary v s src ?rng")
        case (Inl e)
        then show ?thesis using assms(5) valid Inr g None ok by (auto simp: get_metrics_summary_def)
      next
        case y: (Inr y)
        note stamp = compute_summary_stamp [OF y src]
        have "entry_ok d (summary_key src range_key) (CachedSummary y) (mv_set v + observability_ttl)"
          using stamp src assms(3) by (auto simp: entry_ok_def)
        moreover have "r = Inr (CachedSummary y)" "c' = cache_set (mv_set v) (summary_key src range_key) (CachedSummary y) c1"
          using assms(5) valid Inr g None y by (auto simp: get_metrics_summary_def)
        ultimately show ?thesis
          using ok stamp Inr assms(2,4) by (auto simp: observability_ttl_def intro: metrics_cache_ok_set)
      qed
    qed
  qed
qed

lemma series_cache_ok:
  assumes "metrics_cache_ok d c"
  shows "metrics_cache_ok d (snd (get_metrics_timeseries v s metric range_key c))"
proof -
  define m where "m = (if metric = [] then ''events_consumed'' else metric)"
  define rk where "rk = (if range_key = [] then ''1h'' else range_key)"
  note def = get_metrics_timeseries_def [of v s metric range_key c, folded m_def rk_def, unfolded Let_def]
  show ?thesis
  proof (cases "map_of supported_ranges rk")
    case None
    then show ?thesis using assms by (simp add: def)
  next
    case rng: (Some rng)
    show ?thesis
    proof (cases "find_hub_metric m")
      case None
      then show ?thesis using assms rng by (simp add: def)
    next
      case hm: (Some hm)
      show ?thesis
      proof (cases "metrics_backend s")
        case (Inl e)
        then show ?thesis using assms rng hm by (simp add: def)
      next
        case src: (Inr src)
        obtain o1 c1 where g: "cache_get (mv_get v) (series_key src (hm_name hm) rk) c = (o1, c1)" by fastforce
        have ok: "metrics_cache_ok d c1" using cache_get_keeps [OF g assms] .
        show ?thesis
        proof (cases o1)
          case (Some x)
          then show ?thesis using assms ok rng hm src g by (simp add: def)
        next
          case None
          then show ?thesis using assms ok rng hm src g
            by (cases "compute_points v s src hm rng") (simp_all add: def metrics_cache_ok_set entry_ok_def)
        qed
      qed
    qed
  qed
qed

lemma run_metrics_ok:
  assumes "metrics_cache_ok d c" "0 \<le> d"
    and "\<forall>(v, s, r) \<in> set reqs. mv_get v \<le> mv_now v \<and> mv_set v \<le> mv_now v + d"
  shows "metrics_cache_ok d (run_metrics reqs c)"
  using assms(1,3)
proof (induction reqs arbitrary: c)
  case (Cons q reqs)
  obtain v s r where q: "q = (v, s, r)" by (cases q)
  have "metrics_cache_ok d (snd (serve_metrics v s r c))"
  proof (cases r)
    case (SummaryRequest range_key)
    then show ?thesis
      using summary_reply [OF Cons.prems(1) _ _ assms(2), of v s range_key] Cons.prems(2) q
      by (cases "get_metrics_summary v s range_key c") auto
  next
    case (SeriesRequest metric range_key)
    then show ?thesis using series_cache_ok [OF Cons.prems(1)] by simp
  qed
  then show ?case using Cons q by auto
qed simp

text \<open>
  The cards of the console are never older than the 30 seconds of the cache plus the time it took to
  compute them, and never labelled with a backend other than the one that is chosen now: whatever was asked
  before, of whatever tables and backends, a summary that is served names the current backend as its
  source.
\<close>

theorem served_summary_is_recent:
  assumes "\<forall>(v, s, r) \<in> set reqs. mv_get v \<le> mv_now v \<and> mv_set v \<le> mv_now v + d" "0 \<le> d"
    and "mv_get v \<le> mv_now v" "mv_set v \<le> mv_now v + d"
    and "get_metrics_summary v s range_key (run_metrics reqs []) = (Inr x, c')"
  shows "\<exists>y. x = CachedSummary y \<and> metrics_backend s = Inr (sy_source y) \<and> mv_get v \<le> sy_updated y + d + 30 * 10 ^ 9"
proof -
  have "metrics_cache_ok d (run_metrics reqs [])"
    using assms(1,2) by (intro run_metrics_ok) (auto simp: metrics_cache_ok_def)
  from summary_reply [OF this assms(3,4,2,5)] show ?thesis by (simp add: observability_ttl_def)
qed

definition sample_metrics :: metrics_server where
  "sample_metrics = \<lparr>mx_source = [], mx_store = Some sample_tables, mx_prom = None, mx_logs = None\<rparr>"

definition at_instant :: "instant \<Rightarrow> metrics_env" where
  "at_instant t = \<lparr>mv_ok = True, mv_get = t, mv_now = t, mv_set = t\<rparr>"

theorem served_summary_is_recent_witness:
  "\<exists>y. fst (get_metrics_summary (at_instant (20 * 10 ^ 9)) sample_metrics []
       (run_metrics [(at_instant 0, sample_metrics, SummaryRequest [])] [])) = Inr (CachedSummary y) \<and> - (10 * 10 ^ 9) \<le> sy_updated y"
proof -
  let ?reqs = "[(at_instant 0, sample_metrics, SummaryRequest [])]"
  obtain y c' where g: "get_metrics_summary (at_instant (20 * 10 ^ 9)) sample_metrics [] (run_metrics ?reqs []) = (Inr (CachedSummary y), c')"
    by (simp add: get_metrics_summary_def sample_metrics_def metrics_backend_def source_names ready_def cache_get_def cache_set_def
        compute_summary_def summary_from_records_def read_totals_def Let_def at_instant_def observability_ttl_def aput_def)
  show ?thesis
    using served_summary_is_recent [where d = 0, OF _ _ _ _ g] g by (auto simp: at_instant_def)
qed

end
