(* ===== verification/TaskApi.thy ===== *)
theory TaskApi
  imports Router TaskLogs Replies QueueMachine
begin

text \<open>
  The internal endpoints of the hub (\<^verbatim>\<open>services/hub/internal/api/handlers_eventqueue.go\<close>, the dispatch in
  \<^verbatim>\<open>handlers_agents.go\<close>): connectors post events, agents poll for their tasks, settle them and post their
  logs, all behind the shared internal token; and the reaper the hub runs beside them
  (\<^verbatim>\<open>services/hub/cmd/hub/main.go\<close>). A request body is what the JSON decoder makes of it, an error text or
  a value. Log lines and the WebSocket transport are left out; what is broadcast is kept.
\<close>

section \<open>State and requests\<close>

text \<open>What the server is wired over; a part that is not wired is \<^const>\<open>None\<close>.\<close>

record hub_api =
  ha_secret :: string
  ha_queue :: "queue option"
  ha_channels :: "chan_db option"
  ha_invocations :: "inv_table option"
  ha_logs :: "log_db option"
  ha_sent :: "broadcast list"

record api_request =
  rq_method :: string
  rq_path :: string
  rq_token :: string

datatype task_reply = Accepted | NoContent | TaskJson task

definition require_internal_token :: "string \<Rightarrow> api_request \<Rightarrow> refusal + unit" where
  "require_internal_token secret rq =
     (if secret = [] then Inl (Refused 503 ''internal endpoints disabled'')
      else if rq_token rq \<noteq> secret then Inl (Refused 401 ''invalid internal token'')
      else Inr ())"

text \<open>The three checks every handler opens with.\<close>

definition internal_gate :: "string \<Rightarrow> bool \<Rightarrow> string \<Rightarrow> api_request \<Rightarrow> hub_api \<Rightarrow> refusal + unit" where
  "internal_gate meth wired msg rq s =
     (case require_internal_token (ha_secret s) rq of
        Inl e \<Rightarrow> Inl e
      | Inr _ \<Rightarrow>
          if rq_method rq \<noteq> meth then Inl (Refused 405 ''method not allowed'')
          else if \<not> wired then Inl (Refused 503 msg) else Inr ())"

abbreviation queue_missing :: string where "queue_missing \<equiv> ''event queue not configured''"

section \<open>Ingest\<close>

text \<open>
  The surroundings of one ingest: the statements and the id of the channel that may have to be provisioned,
  the instant, the channels that exist, and whether the event is inserted.
\<close>

record ingest_env =
  ig_ensure :: pg
  ig_id :: string
  ig_now :: instant
  ig_fk :: "string \<Rightarrow> bool"
  ig_insert :: pg

text \<open>Without a channel service the event keeps the channel of the body.\<close>

definition stamp_birth :: "ingest_env \<Rightarrow> qevent \<Rightarrow> hub_api \<Rightarrow> qevent \<times> hub_api" where
  "stamp_birth v evt s =
     (case ha_channels s of
        None \<Rightarrow> (evt, s)
      | Some db \<Rightarrow>
          (case connector_channel_for (ig_ensure v) (ig_id v) (ig_now v) (qe_connector evt) db of
             (r, db') \<Rightarrow> (evt\<lparr>qe_channel := (case r of Inl _ \<Rightarrow> [] | Inr c \<Rightarrow> c)\<rparr>, s\<lparr>ha_channels := Some db'\<rparr>)))"

definition channel_exists :: "ingest_env \<Rightarrow> hub_api \<Rightarrow> string \<Rightarrow> bool" where
  "channel_exists v s c = (case ha_channels s of None \<Rightarrow> ig_fk v c | Some db \<Rightarrow> has_row cr_id c (cdb_channels db))"

definition handle_ingest_event ::
  "ingest_env \<Rightarrow> api_request \<Rightarrow> string + qevent \<Rightarrow> hub_api \<Rightarrow> (refusal + task_reply) \<times> hub_api" where
  "handle_ingest_event v rq body s =
     (case internal_gate ''POST'' (ha_queue s \<noteq> None) queue_missing rq s of
        Inl e \<Rightarrow> (Inl e, s)
      | Inr _ \<Rightarrow>
          (case body of
             Inl e \<Rightarrow> (Inl (Refused 400 (''invalid JSON body: '' @ e)), s)
           | Inr evt0 \<Rightarrow>
               if qe_id evt0 = [] \<or> qe_connector evt0 = [] then (Inl (Refused 400 ''id and connector are required''), s)
               else (case stamp_birth v evt0 s of
                       (evt, s1) \<Rightarrow>
                         (case insert_event (channel_exists v s1) (ig_insert v) (ig_now v) evt (the (ha_queue s1)) of
                            (Inl _, q) \<Rightarrow> (Inl (Refused 500 ''failed to store event''), s1\<lparr>ha_queue := Some q\<rparr>)
                          | (Inr _, q) \<Rightarrow> (Inr Accepted, s1\<lparr>ha_queue := Some q\<rparr>)))))"

section \<open>Polling\<close>

definition internal_prefix :: string where "internal_prefix = ''/api/internal/agents/''"
definition v1_prefix :: string where "v1_prefix = ''/api/v1/agents/''"

definition trim_prefix :: "string \<Rightarrow> string \<Rightarrow> string" where
  "trim_prefix s p = (if has_prefix s p then drop (length p) s else s)"

definition trim_suffix :: "string \<Rightarrow> string \<Rightarrow> string" where
  "trim_suffix s p = (if has_suffix s p then take (length s - length p) s else s)"

definition strip_agents_prefix :: "string \<Rightarrow> string" where
  "strip_agents_prefix path =
     (let s = trim_prefix path internal_prefix in if s \<noteq> path then s else trim_prefix path v1_prefix)"

definition second :: duration where "second = 10 ^ 9"

text \<open>
  The query parameter \<open>timeout\<close>, empty when it is absent: seconds, with or without the unit, at most a minute. The product is one of
  64-bit integers.
\<close>

definition poll_timeout :: "string \<Rightarrow> duration" where
  "poll_timeout v =
     (case (if v = [] then None else atoi (trim_suffix v ''s'')) of
        None \<Rightarrow> 30 * second
      | Some secs \<Rightarrow>
          if 0 < secs then (let t = wrap64 (secs * second) in if 60 * second < t then 60 * second else t)
          else 30 * second)"

text \<open>\<open>rounds t\<close> is what happens while the handler waits at most \<open>t\<close>.\<close>

definition handle_agent_next_task ::
  "pg \<Rightarrow> instant \<Rightarrow> (duration \<Rightarrow> poll_round list) \<Rightarrow> api_request \<Rightarrow> string \<Rightarrow> hub_api \<Rightarrow> (refusal + task_reply) \<times> hub_api" where
  "handle_agent_next_task pg now rounds rq timeout s =
     (case internal_gate ''GET'' (ha_queue s \<noteq> None) queue_missing rq s of
        Inl e \<Rightarrow> (Inl e, s)
      | Inr _ \<Rightarrow>
          (case cut_at (CHR ''/'') (strip_agents_prefix (rq_path rq)) of
             None \<Rightarrow> (Inl (Refused 404 ''not found''), s)
           | Some (agent, rest) \<Rightarrow>
               if agent = [] \<or> rest \<noteq> ''next-task'' then (Inl (Refused 404 ''not found''), s)
               else (case wait_for_task pg now agent (rounds (poll_timeout timeout)) (the (ha_queue s)) of
                       (Inl _, q) \<Rightarrow> (Inl (Refused 500 ''failed to poll task''), s\<lparr>ha_queue := Some q\<rparr>)
                     | (Inr None, q) \<Rightarrow> (Inr NoContent, s\<lparr>ha_queue := Some q\<rparr>)
                     | (Inr (Some t), q) \<Rightarrow> (Inr (TaskJson t), s\<lparr>ha_queue := Some q\<rparr>))))"

section \<open>Settling a task\<close>

definition parse_agent_task_path :: "string \<Rightarrow> (string \<times> int) option" where
  "parse_agent_task_path path =
     (case split_on (CHR ''/'') (strip_agents_prefix path) of
        [agent, kind, i, _] \<Rightarrow> if kind \<noteq> ''tasks'' then None else map_option (\<lambda>n. (agent, n)) (atoi i)
      | _ \<Rightarrow> None)"

text \<open>Ids of the table are positive, so a negative one of a path names no row.\<close>

definition find_task :: "pg \<Rightarrow> int \<Rightarrow> string \<Rightarrow> queue \<Rightarrow> string + task option" where
  "find_task pg i agent q =
     (if pg 0 \<and> i < 0 then Inr None else get_task pg (nat i) agent q)"

text \<open>
  The surroundings of settling one task: its three database calls, what other connections do to the queue
  between the lookup and the update, and the instant.
\<close>

record settle_env =
  se_get :: pg
  se_between :: "queue \<Rightarrow> queue"
  se_settle :: pg
  se_complete :: bool
  se_now :: instant

definition complete_invocation :: "settle_env \<Rightarrow> string \<Rightarrow> string \<Rightarrow> string \<Rightarrow> hub_api \<Rightarrow> hub_api" where
  "complete_invocation v i status msg s =
     s\<lparr>ha_invocations := map_option
         (\<lambda>rows. if i \<noteq> [] then snd (pg_complete (se_complete v) i status msg None (se_now v) rows) else rows) (ha_invocations s)\<rparr>"

text \<open>Parsing the path and finding the task that belongs to the agent of the path.\<close>

definition own_task :: "settle_env \<Rightarrow> api_request \<Rightarrow> queue \<Rightarrow> refusal + string \<times> int \<times> task" where
  "own_task v rq q =
     (case parse_agent_task_path (rq_path rq) of
        None \<Rightarrow> Inl (Refused 404 ''not found'')
      | Some (agent, i) \<Rightarrow>
          (case find_task (se_get v) i agent q of
             Inl _ \<Rightarrow> Inl (Refused 500 ''failed to get task'')
           | Inr None \<Rightarrow> Inl (Refused 404 ''task not found'')
           | Inr (Some t) \<Rightarrow> Inr (agent, i, t)))"

definition handle_agent_task_ack :: "settle_env \<Rightarrow> api_request \<Rightarrow> hub_api \<Rightarrow> (refusal + task_reply) \<times> hub_api" where
  "handle_agent_task_ack v rq s =
     (case internal_gate ''POST'' (ha_queue s \<noteq> None) queue_missing rq s of
        Inl e \<Rightarrow> (Inl e, s)
      | Inr _ \<Rightarrow>
          (case own_task v rq (the (ha_queue s)) of
             Inl e \<Rightarrow> (Inl e, s)
           | Inr (agent, i, t) \<Rightarrow>
               (case ack_task (se_settle v) (se_now v) (nat i) (se_between v (the (ha_queue s))) of
                  (Inl _, q) \<Rightarrow> (Inl (Refused 500 ''failed to ack task''), s\<lparr>ha_queue := Some q\<rparr>)
                | (Inr _, q) \<Rightarrow>
                    (Inr NoContent, (complete_invocation v (t_invocation t) status_success [] (s\<lparr>ha_queue := Some q\<rparr>))
                       \<lparr>ha_sent := ha_sent s @ [StatsSent]\<rparr>))))"

text \<open>The delay of a rejected task, in milliseconds of the body; the product is one of 64-bit integers.\<close>

definition nack_delay :: "int \<Rightarrow> duration" where
  "nack_delay ms = (if 0 < ms then wrap64 (ms * 10 ^ 6) else 60 * second)"

definition handle_agent_task_nack ::
  "settle_env \<Rightarrow> api_request \<Rightarrow> (string \<times> int) option \<Rightarrow> hub_api \<Rightarrow> (refusal + task_reply) \<times> hub_api" where
  "handle_agent_task_nack v rq body s =
     (case internal_gate ''POST'' (ha_queue s \<noteq> None) queue_missing rq s of
        Inl e \<Rightarrow> (Inl e, s)
      | Inr _ \<Rightarrow>
          (case own_task v rq (the (ha_queue s)) of
             Inl e \<Rightarrow> (Inl e, s)
           | Inr (agent, i, t) \<Rightarrow>
               (case body of
                  None \<Rightarrow> (Inl (Refused 400 ''invalid JSON body''), s)
                | Some (msg, ms) \<Rightarrow>
                    (case nak_task (se_settle v) (se_now v) (nat i) (nack_delay ms) msg (se_between v (the (ha_queue s))) of
                       (Inl _, q) \<Rightarrow> (Inl (Refused 500 ''failed to nack task''), s\<lparr>ha_queue := Some q\<rparr>)
                     | (Inr _, q) \<Rightarrow>
                         (Inr NoContent, (complete_invocation v (t_invocation t) status_failure msg (s\<lparr>ha_queue := Some q\<rparr>))
                            \<lparr>ha_sent := ha_sent s @
                               [ErrorSent ''error'' ''agent'' msg [(''agent'', agent), (''invocation_id'', t_invocation t)]]\<rparr>)))))"

section \<open>Logs\<close>

definition handle_ingest_task_log ::
  "pg \<Rightarrow> instant \<Rightarrow> api_request \<Rightarrow> string + log_entry \<Rightarrow> hub_api \<Rightarrow> (refusal + task_reply) \<times> hub_api" where
  "handle_ingest_task_log pg now rq body s =
     (case internal_gate ''POST'' (ha_logs s \<noteq> None) ''task log store not configured'' rq s of
        Inl e \<Rightarrow> (Inl e, s)
      | Inr _ \<Rightarrow>
          (case body of
             Inl e \<Rightarrow> (Inl (Refused 400 (''invalid JSON body: '' @ e)), s)
           | Inr entry \<Rightarrow>
               (case insert_log pg now entry (the (ha_logs s)) of
                  (Inl _, db) \<Rightarrow> (Inl (Refused 500 ''failed to store task log''), s\<lparr>ha_logs := Some db\<rparr>)
                | (Inr _, db) \<Rightarrow> (Inr Accepted, s\<lparr>ha_logs := Some db\<rparr>))))"

definition handle_ingest_task_message ::
  "pg \<Rightarrow> instant \<Rightarrow> api_request \<Rightarrow> string + conversation_message \<Rightarrow> hub_api \<Rightarrow> (refusal + task_reply) \<times> hub_api" where
  "handle_ingest_task_message pg now rq body s =
     (case internal_gate ''POST'' (ha_logs s \<noteq> None) ''task log store not configured'' rq s of
        Inl e \<Rightarrow> (Inl e, s)
      | Inr _ \<Rightarrow>
          (case body of
             Inl e \<Rightarrow> (Inl (Refused 400 (''invalid JSON body: '' @ e)), s)
           | Inr msg \<Rightarrow>
               (case insert_conversation pg now msg (the (ha_logs s)) of
                  (Inl _, db) \<Rightarrow> (Inl (Refused 500 ''failed to store task message''), s\<lparr>ha_logs := Some db\<rparr>)
                | (Inr _, db) \<Rightarrow> (Inr Accepted, s\<lparr>ha_logs := Some db\<rparr>))))"

section \<open>Dispatch\<close>

text \<open>What an agent's request carries beside its head, and the surroundings of each of its handlers.\<close>

record agent_call =
  ac_pg :: pg
  ac_rounds :: "duration \<Rightarrow> poll_round list"
  ac_timeout :: string
  ac_settle :: settle_env
  ac_body :: "(string \<times> int) option"

text \<open>The task routes below the name of an agent; \<^const>\<open>None\<close> is any other path.\<close>

definition task_route :: "agent_call \<Rightarrow> api_request \<Rightarrow> string \<Rightarrow> hub_api \<Rightarrow> ((refusal + task_reply) \<times> hub_api) option" where
  "task_route a rq name s =
     (if has_suffix name ''/next-task''
      then Some (handle_agent_next_task (ac_pg a) (se_now (ac_settle a)) (ac_rounds a) rq (ac_timeout a) s)
      else if contains_str name ''/tasks/'' \<and> has_suffix name ''/ack'' then Some (handle_agent_task_ack (ac_settle a) rq s)
      else if contains_str name ''/tasks/'' \<and> has_suffix name ''/nack''
      then Some (handle_agent_task_nack (ac_settle a) rq (ac_body a) s)
      else None)"

definition handle_internal_agent :: "agent_call \<Rightarrow> api_request \<Rightarrow> hub_api \<Rightarrow> (refusal + task_reply) \<times> hub_api" where
  "handle_internal_agent a rq s =
     (case require_internal_token (ha_secret s) rq of
        Inl e \<Rightarrow> (Inl e, s)
      | Inr _ \<Rightarrow>
          let name = trim_prefix (rq_path rq) internal_prefix in
          if name = [] then (Inl (Refused 400 ''missing agent name''), s)
          else (case task_route a rq name s of
                  None \<Rightarrow> (Inl (Refused 404 ''not found''), s)
                | Some r \<Rightarrow> r))"

text \<open>The same routes below \<^verbatim>\<open>/api/v1/agents/\<close>; \<^const>\<open>None\<close> goes on to the resource handlers.\<close>

definition handle_agent_tasks :: "agent_call \<Rightarrow> api_request \<Rightarrow> hub_api \<Rightarrow> ((refusal + task_reply) \<times> hub_api) option" where
  "handle_agent_tasks a rq s =
     (let name = trim_prefix (rq_path rq) v1_prefix in
      if name = [] then Some (Inl (Refused 400 ''missing agent name''), s) else task_route a rq name s)"

section \<open>The reaper\<close>

text \<open>One tick: every agent with a reaped task is notified once, in the order of their first task.\<close>

fun notify_reaped :: "(nat \<Rightarrow> bool) \<Rightarrow> nat \<Rightarrow> string list \<Rightarrow> string list \<Rightarrow> queue \<Rightarrow> queue" where
  "notify_reaped ok n notified [] q = q"
| "notify_reaped ok n notified (a # as) q =
     (if a \<in> set notified then notify_reaped ok n notified as q
      else notify_reaped ok (Suc n) (a # notified) as (snd (notify_agent (ok n) a q)))"

definition reap_tick :: "pg \<Rightarrow> (nat \<Rightarrow> bool) \<Rightarrow> instant \<Rightarrow> duration \<Rightarrow> hub_api \<Rightarrow> hub_api" where
  "reap_tick pg ok now timeout s =
     (case ha_queue s of
        None \<Rightarrow> s
      | Some q \<Rightarrow>
          (case reap_stale_claims pg now timeout q of
             (Inl _, q1) \<Rightarrow> s\<lparr>ha_queue := Some q1\<rparr>
           | (Inr reaped, q1) \<Rightarrow> s\<lparr>ha_queue := Some (notify_reaped ok 0 [] (map snd reaped) q1)\<rparr>))"

end
