(* ===== verification/TaskRules.thy ===== *)
theory TaskRules
  imports TaskApi
begin

text \<open>
  What the internal endpoints guarantee: the token is needed for everything, an agent settles its own
  tasks and the invocations behind them, an event is born in the channel of its connector; and where they
  fall short: delays that overflow, and invocations of tasks that time out.
\<close>

section \<open>Every internal endpoint\<close>

datatype internal_request =
    IngestEvent ingest_env "string + qevent"
  | AgentCall agent_call
  | IngestLog pg instant "string + log_entry"
  | IngestMessage pg instant "string + conversation_message"

fun serve_internal :: "internal_request \<Rightarrow> api_request \<Rightarrow> hub_api \<Rightarrow> (refusal + task_reply) \<times> hub_api" where
  "serve_internal (IngestEvent v body) rq s = handle_ingest_event v rq body s"
| "serve_internal (AgentCall a) rq s = handle_internal_agent a rq s"
| "serve_internal (IngestLog pg now body) rq s = handle_ingest_task_log pg now rq body s"
| "serve_internal (IngestMessage pg now body) rq s = handle_ingest_task_message pg now rq body s"

lemma no_token:
  assumes "ha_secret s = [] \<or> rq_token rq \<noteq> ha_secret s"
  obtains m where "require_internal_token (ha_secret s) rq = Inl (Refused (if ha_secret s = [] then 503 else 401) m)"
  using assms that by (cases "ha_secret s = []") (simp_all add: require_internal_token_def)

text \<open>
  Nothing on the internal surface happens without the shared token: as long as the hub has no
  token configured, or the request carries another one, every internal endpoint, and every task route of the public
  prefix, is refused with 503 or 401 and leaves the whole state of the hub as it was, whatever its
  path, method and body.
\<close>

theorem internal_token_required:
  assumes "ha_secret s = [] \<or> rq_token rq \<noteq> ha_secret s"
  shows "\<exists>m. serve_internal x rq s = (Inl (Refused (if ha_secret s = [] then 503 else 401) m), s) \<and>
    (case handle_agent_tasks a rq s of
       None \<Rightarrow> True
     | Some r \<Rightarrow> r = (Inl (Refused (if ha_secret s = [] then 503 else 401) m), s) \<or> rq_path rq = v1_prefix \<or> rq_path rq = [])"
proof -
  obtain m where m: "require_internal_token (ha_secret s) rq = Inl (Refused (if ha_secret s = [] then 503 else 401) m)"
    using no_token [OF assms] .
  have g: "internal_gate meth wired msg rq s = Inl (Refused (if ha_secret s = [] then 503 else 401) m)" for meth wired msg
    by (simp add: internal_gate_def m)
  have t: "task_route a rq name s = Some r \<Longrightarrow> r = (Inl (Refused (if ha_secret s = [] then 503 else 401) m), s)" for name r
    by (auto simp: task_route_def handle_agent_next_task_def handle_agent_task_ack_def handle_agent_task_nack_def g split: if_splits)
  have "rq_path rq = v1_prefix \<or> rq_path rq = []" if "trim_prefix (rq_path rq) v1_prefix = []"
  proof (cases "has_prefix (rq_path rq) v1_prefix")
    case True
    then have "length (rq_path rq) \<le> length v1_prefix" "take (length v1_prefix) (rq_path rq) = v1_prefix"
      using that by (simp_all add: trim_prefix_def has_prefix_def)
    then show ?thesis by simp
  next
    case False
    then show ?thesis using that by (simp add: trim_prefix_def)
  qed
  then have "case handle_agent_tasks a rq s of None \<Rightarrow> True
     | Some r \<Rightarrow> r = (Inl (Refused (if ha_secret s = [] then 503 else 401) m), s) \<or> rq_path rq = v1_prefix \<or> rq_path rq = []"
    using t by (cases "trim_prefix (rq_path rq) v1_prefix = []")
      (auto simp: handle_agent_tasks_def Let_def split: option.split)
  moreover have "serve_internal x rq s = (Inl (Refused (if ha_secret s = [] then 503 else 401) m), s)"
    by (cases x) (simp_all add: handle_ingest_event_def handle_internal_agent_def handle_ingest_task_log_def
        handle_ingest_task_message_def g m)
  ultimately show ?thesis by blast
qed

definition sample_api :: hub_api where
  "sample_api = \<lparr>ha_secret = ''s3'', ha_queue = Some sample_queue, ha_channels = None, ha_invocations = None,
     ha_logs = Some empty_logs, ha_sent = []\<rparr>"

definition request :: "string \<Rightarrow> string \<Rightarrow> string \<Rightarrow> api_request" where
  "request meth path token = \<lparr>rq_method = meth, rq_path = path, rq_token = token\<rparr>"

definition settling :: "instant \<Rightarrow> settle_env" where
  "settling t = \<lparr>se_get = all_ok, se_between = (\<lambda>q. q), se_settle = all_ok, se_complete = True, se_now = t\<rparr>"

definition calling :: "instant \<Rightarrow> agent_call" where
  "calling t = \<lparr>ac_pg = all_ok, ac_rounds = (\<lambda>_. []), ac_timeout = [], ac_settle = settling t, ac_body = None\<rparr>"

theorem internal_token_required_witness:
  "snd (serve_internal (AgentCall (calling 9)) (request ''GET'' ''/api/internal/agents/a/next-task'' ''guess'') sample_api) = sample_api"
  using internal_token_required [of sample_api "request ''GET'' ''/api/internal/agents/a/next-task'' ''guess''" "AgentCall (calling 9)" "calling 9"]
  by (auto simp: sample_api_def request_def)

section \<open>Settling tasks\<close>

lemma own_task_row:
  assumes "own_task v rq q = Inr (agent, i, t)"
  obtains row where "parse_agent_task_path (rq_path rq) = Some (agent, i)" "0 \<le> i" "row \<in> set (q_tasks q)"
    "tk_id row = nat i" "tk_agent row = agent" "t = scan_task row"
proof -
  have p: "parse_agent_task_path (rq_path rq) = Some (agent, i)" and f: "find_task (se_get v) i agent q = Inr (Some t)"
    using assms by (auto simp: own_task_def split: option.splits sum.splits)
  from f have i: "0 \<le> i" and "get_task (se_get v) (nat i) agent q = Inr (Some t)"
    by (auto simp: find_task_def get_task_def split: if_splits)
  then obtain row where "List.find (\<lambda>t. tk_id t = nat i \<and> tk_agent t = agent) (q_tasks q) = Some row" "t = scan_task row"
    by (auto simp: get_task_def split: if_splits)
  then show ?thesis using that [OF p i] find_Some_iff_first by fast
qed

lemma update_one:
  assumes "distinct (map tk_id ts)" "row \<in> set ts"
  shows "update_where (\<lambda>t. tk_id t = tk_id row) f ts = map (\<lambda>t. if t = row then f row else t) ts"
  using distinct_map_unique [OF assms(1) _ assms(2)] unfolding update_where_def by (intro map_cong refl) metis

definition finish_in :: "settle_env \<Rightarrow> task_row \<Rightarrow> string \<Rightarrow> string \<Rightarrow> inv_table option \<Rightarrow> inv_table option" where
  "finish_in v row status msg invs = map_option (\<lambda>rows. if tk_invocation row = [] \<or> \<not> se_complete v then rows
     else update_where (\<lambda>r. iv_id r = tk_invocation row) (pg_finish status msg (se_now v)) rows) invs"

lemma complete_invocation_finish:
  "ha_invocations (complete_invocation v (tk_invocation row) status msg s) = finish_in v row status msg (ha_invocations s)"
  by (auto simp: complete_invocation_def finish_in_def pg_complete_def end_or_now_def map_option_case split: option.split)

lemma complete_invocation_queue [simp]: "ha_queue (complete_invocation v i status msg s) = ha_queue s"
  by (simp add: complete_invocation_def)

lemma scan_task_invocation [simp]: "t_invocation (scan_task row) = tk_invocation row"
  by (simp add: scan_task_def)

lemma settle_shape:
  assumes "ha_queue s = Some q" "queue_wf q" "se_between v = (\<lambda>q. q)"
  shows "(case handle_agent_task_ack v rq s of
      (Inl e, s') \<Rightarrow> s' = s
    | (Inr _, s') \<Rightarrow> \<exists>row \<in> set (q_tasks q). parse_agent_task_path (rq_path rq) = Some (tk_agent row, int (tk_id row)) \<and>
        map_option q_tasks (ha_queue s') = Some (map (\<lambda>t. if t = row then ack_row (se_now v) row else t) (q_tasks q)) \<and>
        ha_invocations s' = finish_in v row status_success [] (ha_invocations s)) \<and>
    (case handle_agent_task_nack v rq body s of
      (Inl e, s') \<Rightarrow> s' = s
    | (Inr _, s') \<Rightarrow> \<exists>row \<in> set (q_tasks q). \<exists>msg ms. parse_agent_task_path (rq_path rq) = Some (tk_agent row, int (tk_id row)) \<and>
        body = Some (msg, ms) \<and>
        map_option q_tasks (ha_queue s') = Some (map (\<lambda>t. if t = row then release_row (se_now v + nack_delay ms) msg row else t) (q_tasks q)) \<and>
        ha_invocations s' = finish_in v row status_failure msg (ha_invocations s))"
proof (cases "own_task v rq q")
  case (Inl e)
  then show ?thesis
    using assms(1) by (auto simp: handle_agent_task_ack_def handle_agent_task_nack_def split: sum.split)
next
  case (Inr x)
  obtain agent i t where x: "x = (agent, i, t)" by (cases x)
  from own_task_row [OF Inr [unfolded x]] obtain row where row:
    "parse_agent_task_path (rq_path rq) = Some (agent, i)" "0 \<le> i" "row \<in> set (q_tasks q)" "tk_id row = nat i" "tk_agent row = agent" "t = scan_task row" .
  have one: "update_where (\<lambda>t. tk_id t = nat i) f (q_tasks q) = map (\<lambda>t. if t = row then f row else t) (q_tasks q)" for f
    using update_one [of "q_tasks q" row f] assms(2) row(3,4) by (simp add: queue_wf_def)
  have p: "parse_agent_task_path (rq_path rq) = Some (tk_agent row, int (tk_id row))" using row by simp
  have l: "lookup_row tk_id (nat i) (q_tasks q) = Some row"
    using lookup_row_distinct [of tk_id "q_tasks q" row] assms(2) row(3,4) by (simp add: queue_wf_def)
  have ack: "ack_task (se_settle v) (se_now v) (nat i) q =
      (if se_settle v 0 then (Inr (), observe (tk_agent row) (q\<lparr>q_tasks := map (\<lambda>t. if t = row then ack_row (se_now v) row else t) (q_tasks q)\<rparr>))
       else (Inl ''eventqueue: ack task'', q))"
    by (simp add: ack_task_def l one)
  have A: "case handle_agent_task_ack v rq s of
      (Inl e, s') \<Rightarrow> s' = s
    | (Inr _, s') \<Rightarrow> \<exists>row \<in> set (q_tasks q). parse_agent_task_path (rq_path rq) = Some (tk_agent row, int (tk_id row)) \<and>
        map_option q_tasks (ha_queue s') = Some (map (\<lambda>t. if t = row then ack_row (se_now v) row else t) (q_tasks q)) \<and>
        ha_invocations s' = finish_in v row status_success [] (ha_invocations s)"
    using assms(1,3) row(3) p
    by (auto simp: handle_agent_task_ack_def Inr x row(6) ack complete_invocation_finish intro!: bexI [of _ row] split: sum.split)
  have nak: "nak_task (se_settle v) (se_now v) (nat i) d msg q =
      (if se_settle v 0 then (Inr (), observe_agent_of_task (se_settle v 1) (nat i)
         (q\<lparr>q_tasks := map (\<lambda>t. if t = row then release_row (se_now v + d) msg row else t) (q_tasks q)\<rparr>))
       else (Inl ''eventqueue: nak task'', q))" for d msg
    by (simp add: nak_task_def one)
  have "case handle_agent_task_nack v rq body s of
      (Inl e, s') \<Rightarrow> s' = s
    | (Inr _, s') \<Rightarrow> \<exists>row \<in> set (q_tasks q). \<exists>msg ms. parse_agent_task_path (rq_path rq) = Some (tk_agent row, int (tk_id row)) \<and>
        body = Some (msg, ms) \<and>
        map_option q_tasks (ha_queue s') = Some (map (\<lambda>t. if t = row then release_row (se_now v + nack_delay ms) msg row else t) (q_tasks q)) \<and>
        ha_invocations s' = finish_in v row status_failure msg (ha_invocations s)"
    using assms(1,3) row(3) p
    by (cases body; cases "se_settle v 0")
      (auto simp: handle_agent_task_nack_def Inr x row(6) nak complete_invocation_finish intro!: bexI [of _ row] split: sum.split)
  with A show ?thesis by blast
qed

text \<open>
  C23. An agent settles exactly the task it names. An acknowledgement that is accepted was for a task of
  the agent of the path; it completes that task and no other, and records the success of the invocation behind it. A
  rejection releases that task to be retried after its delay, or fails it on the last attempt, and records
  the failure. Everything else in the queue and among the invocations stays, and a refused request
  changes neither.
\<close>

theorem settle_exact:
  assumes "ha_queue s = Some q" "queue_wf q" "se_between v = (\<lambda>q. q)"
  shows "(case handle_agent_task_ack v rq s of
      (Inl e, s') \<Rightarrow> s' = s
    | (Inr _, s') \<Rightarrow> \<exists>row \<in> set (q_tasks q). parse_agent_task_path (rq_path rq) = Some (tk_agent row, int (tk_id row)) \<and>
        map_option q_tasks (ha_queue s') = Some (map (\<lambda>t. if t = row then ack_row (se_now v) row else t) (q_tasks q)) \<and>
        ha_invocations s' = finish_in v row status_success [] (ha_invocations s)) \<and>
    (case handle_agent_task_nack v rq body s of
      (Inl e, s') \<Rightarrow> s' = s
    | (Inr _, s') \<Rightarrow> \<exists>row \<in> set (q_tasks q). \<exists>msg ms. parse_agent_task_path (rq_path rq) = Some (tk_agent row, int (tk_id row)) \<and>
        body = Some (msg, ms) \<and>
        map_option q_tasks (ha_queue s') = Some (map (\<lambda>t. if t = row then release_row (se_now v + nack_delay ms) msg row else t) (q_tasks q)) \<and>
        ha_invocations s' = finish_in v row status_failure msg (ha_invocations s))"
  using assms by (rule settle_shape)

definition ack_path :: string where "ack_path = ''/api/internal/agents/a/tasks/1/ack''"

lemma ack_path_parts: "parse_agent_task_path ack_path = Some (''a'', 1)"
  by code_simp

theorem settle_exact_witness:
  "map_option (map tk_status \<circ> q_tasks) (ha_queue (snd (handle_agent_task_ack (settling 9) (request ''POST'' ack_path ''s3'') sample_api))) =
     Some [Completed, Pending, Pending] \<and>
   snd (handle_agent_task_nack (settling 9) (request ''POST'' ack_path ''s3'') None sample_api) = sample_api"
proof -
  have q: "ha_queue sample_api = Some sample_queue" "se_between (settling 9) = (\<lambda>q. q)"
    by (simp_all add: sample_api_def settling_def)
  have ts: "map (\<lambda>t. (tk_id t, tk_agent t, tk_status t)) (q_tasks sample_queue) =
      [(1, ''a'', Pending), (2, ''b'', Pending), (3, ''a'', Pending)]" by code_simp
  have r: "fst (handle_agent_task_ack (settling 9) (request ''POST'' ack_path ''s3'') sample_api) = Inr NoContent"
    by code_simp
  have n: "fst (handle_agent_task_nack (settling 9) (request ''POST'' ack_path ''s3'') None sample_api) = Inl (Refused 400 ''invalid JSON body'')"
    by code_simp
  note E = settle_exact [OF q(1) sample_queue_wf q(2), of "request ''POST'' ack_path ''s3''" None]
  obtain s' where s': "handle_agent_task_ack (settling 9) (request ''POST'' ack_path ''s3'') sample_api = (Inr NoContent, s')"
    using r by (cases "handle_agent_task_ack (settling 9) (request ''POST'' ack_path ''s3'') sample_api") auto
  from E s' obtain row where row: "row \<in> set (q_tasks sample_queue)" "tk_id row = 1"
    "map_option q_tasks (ha_queue s') = Some (map (\<lambda>t. if t = row then ack_row 9 row else t) (q_tasks sample_queue))"
    by (auto simp: request_def ack_path_parts settling_def)
  have i: "t = row \<longleftrightarrow> tk_id t = 1" if "t \<in> set (q_tasks sample_queue)" for t
    using distinct_map_unique [of tk_id "q_tasks sample_queue" t row] that row(1,2) sample_queue_wf by (auto simp: queue_wf_def)
  have "map tk_status (map (\<lambda>t. if t = row then ack_row 9 row else t) (q_tasks sample_queue)) =
      map (\<lambda>(i, a, st). if i = 1 then Completed else st) (map (\<lambda>t. (tk_id t, tk_agent t, tk_status t)) (q_tasks sample_queue))"
    using i by (auto simp: ack_row_def)
  also have "\<dots> = [Completed, Pending, Pending]" by (simp add: ts)
  finally have "map_option (map tk_status \<circ> q_tasks) (ha_queue s') = Some [Completed, Pending, Pending]"
    using row(3) by (auto simp: map_option_case o_def split: option.splits)
  moreover have "snd (handle_agent_task_nack (settling 9) (request ''POST'' ack_path ''s3'') None sample_api) = sample_api"
    using E n by (cases "handle_agent_task_nack (settling 9) (request ''POST'' ack_path ''s3'') None sample_api") auto
  ultimately show ?thesis using s' by simp
qed

section \<open>Delays\<close>

lemma poll_timeout_bounded: "poll_timeout v \<le> 60 * second"
  by (auto simp: poll_timeout_def Let_def second_def split: option.split)

text \<open>
  A poll asks for at most a minute; a number of seconds whose nanoseconds leave the range of 64 bits is
  not capped but turns negative, and the poll does not wait at all.
\<close>

lemma poll_timeout_wraps: "poll_timeout ''9223372036'' = 60 * second" "poll_timeout ''9223372037'' < 0"
proof -
  have "trim_suffix ''9223372036'' ''s'' = ''9223372036''" "trim_suffix ''9223372037'' ''s'' = ''9223372037''" by code_simp+
  moreover have "atoi ''9223372036'' = Some 9223372036" "atoi ''9223372037'' = Some 9223372037" by code_simp+
  ultimately show "poll_timeout ''9223372036'' = 60 * second" "poll_timeout ''9223372037'' < 0"
    by (simp_all add: poll_timeout_def second_def wrap64_def)
qed

lemma nack_delay_exact: "0 < ms \<Longrightarrow> ms \<le> 9223372036854 \<Longrightarrow> nack_delay ms = ms * 10 ^ 6"
  by (simp add: nack_delay_def goint_def)

lemma nack_delay_negative:
  assumes "9223372036854 < ms" "ms \<le> 18446744073709"
  shows "nack_delay ms < 0"
  using assms wrap64_above [of "ms * 10 ^ 6"] by (simp add: nack_delay_def)

text \<open>
  A rejection delay beyond some 292 years, which the body of the request may well carry in
  milliseconds, overflows: the product is negative, and the task the agent wanted held back is
  claimable again at the very instant it was rejected, although its attempts are not used up. Every smaller delay is kept.
\<close>

theorem oversized_delay_redelivers_at_once:
  assumes "ha_queue s = Some q" "queue_wf q" "se_between v = (\<lambda>q. q)"
    and "handle_agent_task_nack v rq (Some (msg, ms)) s = (Inr r, s')" "0 < ms" "ms \<le> 18446744073709"
  shows "\<exists>row q'. row \<in> set (q_tasks q) \<and> parse_agent_task_path (rq_path rq) = Some (tk_agent row, int (tk_id row)) \<and>
    ha_queue s' = Some q' \<and> release_row (se_now v + nack_delay ms) msg row \<in> set (q_tasks q') \<and>
    (tk_attempts row < tk_max row \<longrightarrow>
      (claimable (se_now v) (tk_agent row) (release_row (se_now v + nack_delay ms) msg row) \<longleftrightarrow> 9223372036854 < ms))"
proof -
  from settle_shape [OF assms(1-3), of rq "Some (msg, ms)", THEN conjunct2] assms(4) obtain row where row: "row \<in> set (q_tasks q)"
    "parse_agent_task_path (rq_path rq) = Some (tk_agent row, int (tk_id row))"
    "map_option q_tasks (ha_queue s') = Some (map (\<lambda>t. if t = row then release_row (se_now v + nack_delay ms) msg row else t) (q_tasks q))"
    by auto
  then obtain q' where q': "ha_queue s' = Some q'"
    "q_tasks q' = map (\<lambda>t. if t = row then release_row (se_now v + nack_delay ms) msg row else t) (q_tasks q)" by auto
  have d: "nack_delay ms \<le> 0 \<longleftrightarrow> 9223372036854 < ms"
    using nack_delay_exact [OF assms(5)] nack_delay_negative [of ms] assms(5,6) by (cases "ms \<le> 9223372036854") auto
  show ?thesis
    using row(1,2) q' d by (intro exI [of _ row] exI [of _ q']) (auto simp: claimable_def release_row_def image_iff)
qed

theorem oversized_delay_redelivers_at_once_witness:
  "\<exists>row q'. ha_queue (snd (handle_agent_task_nack (settling 9) (request ''POST'' ack_path ''s3'') (Some (''busy'', 9223372036855)) sample_api)) =
     Some q' \<and> release_row (9 + nack_delay 9223372036855) ''busy'' row \<in> set (q_tasks q') \<and>
     row \<in> set (q_tasks sample_queue) \<and>
     (tk_attempts row < tk_max row \<longrightarrow> claimable 9 ''a'' (release_row (9 + nack_delay 9223372036855) ''busy'' row))"
proof -
  let ?h = "handle_agent_task_nack (settling 9) (request ''POST'' ack_path ''s3'') (Some (''busy'', 9223372036855)) sample_api"
  have q: "ha_queue sample_api = Some sample_queue" "se_between (settling 9) = (\<lambda>q. q)"
    by (simp_all add: sample_api_def settling_def)
  have "fst ?h = Inr NoContent" by code_simp
  then obtain s' where s': "?h = (Inr NoContent, s')" by (cases ?h) auto
  show ?thesis
    using oversized_delay_redelivers_at_once [OF q(1) sample_queue_wf q(2) s'] s'
    by (auto simp: request_def ack_path_parts settling_def)
qed

section \<open>Tasks that time out\<close>

lemma notify_reaped_tasks [simp]: "q_tasks (notify_reaped ok n seen as q) = q_tasks q"
  by (induction as arbitrary: n seen q) simp_all

lemma reap_tick_tasks:
  "ha_queue s = Some q \<Longrightarrow> pg 0 \<Longrightarrow> map_option q_tasks (ha_queue (reap_tick pg ok now timeout s)) =
    Some (update_where (stale_claim now timeout) (release_row (now + reap_retry_delay) reap_message) (q_tasks q))"
  by (simp add: reap_tick_def reap_stale_claims_def Let_def)

lemma reap_tick_invocations [simp]: "ha_invocations (reap_tick pg ok now timeout s) = ha_invocations s"
  by (auto simp: reap_tick_def split: option.split sum.split prod.split)

text \<open>The ticks of the reaper over time.\<close>

fun reap_ticks :: "(pg \<times> (nat \<Rightarrow> bool) \<times> instant \<times> duration) list \<Rightarrow> hub_api \<Rightarrow> hub_api" where
  "reap_ticks [] s = s"
| "reap_ticks ((pg, ok, now, timeout) # ticks) s = reap_ticks ticks (reap_tick pg ok now timeout s)"

lemma reap_ticks_invocations [simp]: "ha_invocations (reap_ticks ticks s) = ha_invocations s"
  by (induction ticks s rule: reap_ticks.induct) simp_all

lemma failed_stays_failed:
  assumes "ha_queue s = Some q" "r \<in> set (q_tasks q)" "tk_status r = Failed"
  shows "\<exists>q'. ha_queue (reap_ticks ticks s) = Some q' \<and> r \<in> set (q_tasks q')"
  using assms(1,2)
proof (induction ticks arbitrary: s q)
  case (Cons x ticks)
  obtain pg ok now timeout where x: "x = (pg, ok, now, timeout)" by (cases x) auto
  show ?case
  proof (cases "pg 0")
    case True
    then obtain q1 where q1: "ha_queue (reap_tick pg ok now timeout s) = Some q1"
      "q_tasks q1 = update_where (stale_claim now timeout) (release_row (now + reap_retry_delay) reap_message) (q_tasks q)"
      using reap_tick_tasks [OF Cons.prems(1), of pg ok now timeout] by auto
    have "r \<in> set (q_tasks q1)"
      using Cons.prems(2) assms(3) by (auto simp: q1(2) sql_simps stale_claim_def)
    then show ?thesis using Cons.IH [OF q1(1)] x by simp
  next
    case False
    then have "reap_tick pg ok now timeout s = s"
      using Cons.prems(1) by (simp add: reap_tick_def reap_stale_claims_def)
    then show ?thesis using Cons x by simp
  qed
qed simp

text \<open>
  A task whose last attempt times out fails without its invocation being told. The reaper marks the
  task as failed, no poll hands it out again, so no agent is left to acknowledge or reject it; the
  invocation recorded for it is still running after any number of further ticks.
\<close>

theorem expired_task_leaves_invocation_running:
  assumes "ha_queue s = Some q" "t \<in> set (q_tasks q)" "stale_claim now timeout t" "tk_max t \<le> tk_attempts t"
    and "ha_invocations s = Some rows" "ivn \<in> set rows" "iv_id ivn = tk_invocation t" "iv_status ivn = status_running"
  shows "let s' = reap_ticks ticks (reap_tick all_ok ok now timeout s);
             t' = release_row (now + reap_retry_delay) reap_message t in
    tk_id t' = tk_id t \<and> tk_status t' = Failed \<and> (\<exists>q'. ha_queue s' = Some q' \<and> t' \<in> set (q_tasks q') \<and>
      (\<forall>later agent. \<not> claimable later agent t')) \<and>
    (\<exists>rows'. ha_invocations s' = Some rows' \<and> ivn \<in> set rows')"
proof -
  let ?t = "release_row (now + reap_retry_delay) reap_message t"
  obtain q1 where q1: "ha_queue (reap_tick all_ok ok now timeout s) = Some q1"
    "q_tasks q1 = update_where (stale_claim now timeout) (release_row (now + reap_retry_delay) reap_message) (q_tasks q)"
    using reap_tick_tasks [OF assms(1), of all_ok ok now timeout] by auto
  have t: "?t \<in> set (q_tasks q1)" "tk_status ?t = Failed"
    using assms(2-4) by (auto simp: q1(2) sql_simps release_row_def)
  have "\<exists>q'. ha_queue (reap_ticks ticks (reap_tick all_ok ok now timeout s)) = Some q' \<and> ?t \<in> set (q_tasks q')"
    using failed_stays_failed [OF q1(1) t] .
  then show ?thesis using t(2) assms(5,6) by (auto simp: Let_def claimable_def)
qed

theorem expired_task_leaves_invocation_running_witness:
  "\<exists>q' t'. ha_queue (reap_ticks [(all_ok, \<lambda>_. True, 900, 50)] (reap_tick all_ok (\<lambda>_. True) 100 50
      (sample_api\<lparr>ha_queue := Some (empty_queue\<lparr>q_tasks := [(new_task_row 7 0 (sample_task ''e1'' ''a'') [] JNull)
         \<lparr>tk_status := Claimed, tk_claimed_at := Some 9, tk_attempts := 10\<rparr>]\<rparr>),
       ha_invocations := Some [(sample_invocation ''i'' ''a'')\<lparr>iv_status := status_running\<rparr>]\<rparr>))) = Some q' \<and>
     t' \<in> set (q_tasks q') \<and> tk_status t' = Failed"
proof -
  let ?t = "(new_task_row 7 0 (sample_task ''e1'' ''a'') [] JNull)\<lparr>tk_status := Claimed, tk_claimed_at := Some 9, tk_attempts := 10\<rparr>"
  let ?i = "(sample_invocation ''i'' ''a'')\<lparr>iv_status := status_running\<rparr>"
  let ?s = "sample_api\<lparr>ha_queue := Some (empty_queue\<lparr>q_tasks := [?t]\<rparr>), ha_invocations := Some [?i]\<rparr>"
  have "stale_claim 100 50 ?t" "tk_max ?t \<le> tk_attempts ?t" "iv_id ?i = tk_invocation ?t"
    by (simp_all add: stale_claim_def new_task_row_def default_max_attempts_def sample_invocation_def sample_task_def)
  then show ?thesis
    using expired_task_leaves_invocation_running [of ?s "empty_queue\<lparr>q_tasks := [?t]\<rparr>" ?t 100 50 "[?i]" ?i
        "[(all_ok, \<lambda>_. True, 900, 50)]" "\<lambda>_. True"]
    by (auto simp: Let_def)
qed

section \<open>Where an event is born\<close>

text \<open>
  With the channel service wired, an event is born in the channel of its connector and nowhere else: what the
  publisher puts into the body as the channel has no influence on the reply or on anything stored, and a
  new event that is accepted is stored as published and carries the channel provisioned for its connector label, or none when the registry could not
  be read.
\<close>

theorem event_born_in_connector_channel:
  assumes "ha_channels s \<noteq> None" "ha_queue s = Some q"
  shows "handle_ingest_event v rq (Inr (evt\<lparr>qe_channel := c\<rparr>)) s = handle_ingest_event v rq (Inr evt) s \<and>
    (case handle_ingest_event v rq (Inr evt) s of
       (Inl _, s') \<Rightarrow> map_option q_events (ha_queue s') = Some (q_events q)
     | (Inr _, s') \<Rightarrow> has_row er_id (qe_id evt) (q_events q) \<and> map_option q_events (ha_queue s') = Some (q_events q) \<or>
         (\<exists>q' e db. ha_queue s' = Some q' \<and> ha_channels s' = Some db \<and> q_events q' = q_events q @ [e] \<and>
            er_id e = qe_id evt \<and> er_connector e = qe_connector evt \<and> er_raw e = qe_raw evt \<and>
            Some (er_data e) = qe_data evt \<and> Some (er_headers e) = qe_headers evt \<and>
            (er_channel e = None \<or> (\<exists>r \<in> set (cdb_channels db).
               er_channel e = Some (cr_id r) \<and> owns_entity kind_connector (qe_connector evt) r))))"
proof -
  obtain db where db: "ha_channels s = Some db" using assms(1) by blast
  have same: "handle_ingest_event v rq (Inr (evt\<lparr>qe_channel := c\<rparr>)) s = handle_ingest_event v rq (Inr evt) s"
    by (simp add: handle_ingest_event_def stamp_birth_def db split: sum.split prod.split)
  obtain r db' where c: "connector_channel_for (ig_ensure v) (ig_id v) (ig_now v) (qe_connector evt) db = (r, db')" by fastforce
  let ?evt = "evt\<lparr>qe_channel := (case r of Inl _ \<Rightarrow> [] | Inr c \<Rightarrow> c)\<rparr>"
  let ?s = "s\<lparr>ha_channels := Some db'\<rparr>"
  have st: "stamp_birth v evt s = (?evt, ?s)" by (simp add: stamp_birth_def db c)
  have ch: "er_channel e = None \<or> (\<exists>r \<in> set (cdb_channels db'). er_channel e = Some (cr_id r) \<and> owns_entity kind_connector (qe_connector evt) r)"
    if "er_channel e = nil_if_empty (qe_channel ?evt)" for e
    using that c connector_channel_for_owner by (cases r) (fastforce simp: nil_if_empty_def split: if_splits)+
  show ?thesis
  proof (cases "internal_gate ''POST'' True queue_missing rq s")
    case (Inl e)
    then show ?thesis using same assms(2) by (simp add: handle_ingest_event_def)
  next
    case ok: (Inr u)
    obtain r2 q2 where i: "insert_event (channel_exists v ?s) (ig_insert v) (ig_now v) ?evt q = (r2, q2)" by fastforce
    show ?thesis
    proof (cases "qe_id evt = [] \<or> qe_connector evt = []")
      case True
      then show ?thesis using same ok assms(2) by (auto simp: handle_ingest_event_def)
    next
      case False
      then have h: "handle_ingest_event v rq (Inr evt) s =
          (case r2 of Inl _ \<Rightarrow> Inl (Refused 500 ''failed to store event'') | Inr _ \<Rightarrow> Inr Accepted, ?s\<lparr>ha_queue := Some q2\<rparr>)"
        using ok assms(2) st i by (auto simp: handle_ingest_event_def split: sum.split)
      show ?thesis
      proof (cases r2)
        case (Inl e)
        then have "q2 = q" using i by (auto simp: insert_event_def split: option.splits if_splits)
        then show ?thesis using same h Inl by simp
      next
        case (Inr u2)
        then have "has_row er_id (qe_id evt) (q_events q) \<and> q_events q2 = q_events q \<or> (\<exists>e. q_events q2 = q_events q @ [e] \<and> er_id e = qe_id evt \<and>
            er_connector e = qe_connector evt \<and> er_raw e = qe_raw evt \<and> Some (er_data e) = qe_data evt \<and>
            Some (er_headers e) = qe_headers evt \<and> er_channel e = nil_if_empty (qe_channel ?evt))"
          using i by (auto simp: insert_event_def split: option.splits if_splits)
        then show ?thesis using same h Inr ch by auto
      qed
    qed
  qed
qed

theorem event_born_in_connector_channel_witness:
  "handle_ingest_event \<lparr>ig_ensure = all_ok, ig_id = ''c9'', ig_now = 9, ig_fk = (\<lambda>_. True), ig_insert = all_ok\<rparr>
     (request ''POST'' ''/api/internal/events'' ''s3'') (Inr ((sample_event ''e9'')\<lparr>qe_channel := ''theirs''\<rparr>))
     (sample_api\<lparr>ha_channels := Some \<lparr>cdb_channels = [], cdb_bridges = []\<rparr>\<rparr>) =
   handle_ingest_event \<lparr>ig_ensure = all_ok, ig_id = ''c9'', ig_now = 9, ig_fk = (\<lambda>_. True), ig_insert = all_ok\<rparr>
     (request ''POST'' ''/api/internal/events'' ''s3'') (Inr (sample_event ''e9''))
     (sample_api\<lparr>ha_channels := Some \<lparr>cdb_channels = [], cdb_bridges = []\<rparr>\<rparr>)"
  using event_born_in_connector_channel [of "sample_api\<lparr>ha_channels := Some \<lparr>cdb_channels = [], cdb_bridges = []\<rparr>\<rparr>" sample_queue]
  by (simp add: sample_api_def)

end
