(* ===== verification/Webhook.thy ===== *)
theory Webhook
  imports TaskRules Scaling UserTokens
begin

text \<open>
  The webhook receiver of a connector (\<^verbatim>\<open>services/webhook-receiver/internal/webhook/handler.go\<close>, \<^verbatim>\<open>internal/publisher/publisher.go\<close>): it
  checks the signature of a delivery, unwraps form bodies and posts an event to the ingest endpoint of the
  hub. HMAC-SHA256, the JSON decoder, the media type of a content type and the fields of a form are parameters.
  The publisher's request is answered by the model of the hub's endpoint (\<^theory_text>\<open>TaskApi\<close>); a byte that is not UTF-8 would be replaced on the way, which
  the model leaves out, like log lines and durations.
\<close>

section \<open>Requests\<close>

text \<open>
  Headers come under their canonical name with their first value. \<open>wr_body\<close> is what the peer sends; \<open>wr_broken\<close> says that reading it fails.
\<close>

record web_request =
  wr_method :: string
  wr_path :: string
  wr_headers :: "(string \<times> string) list"
  wr_body :: string
  wr_broken :: bool

text \<open>\<^verbatim>\<open>textproto.CanonicalMIMEHeaderKey\<close>: a letter is upper case at the start and after a hyphen, and lower case elsewhere.\<close>

definition token_char :: "char \<Rightarrow> bool" where
  "token_char c \<longleftrightarrow>
     list_ex (\<lambda>(lo, hi). lo \<le> c \<and> c \<le> hi) [(CHR ''0'', CHR ''9''), (CHR ''A'', CHR ''Z''), (CHR ''a'', CHR ''z'')] \<or>
     c \<in> set (''!#$%&*+-.^_|~'' @ [CHR 0x27, CHR 0x60])"

definition to_upper_char :: "char \<Rightarrow> char" where
  "to_upper_char c = (if CHR ''a'' \<le> c \<and> c \<le> CHR ''z'' then char_of ((of_char c :: nat) - 32) else c)"

fun canonical_from :: "bool \<Rightarrow> string \<Rightarrow> string" where
  "canonical_from up [] = []"
| "canonical_from up (c # s) = (if up then to_upper_char c else to_lower_char c) # canonical_from (c = CHR ''-'') s"

definition canonical_header :: "string \<Rightarrow> string" where
  "canonical_header k = (if list_all token_char k then canonical_from True k else k)"

definition header_value :: "web_request \<Rightarrow> string \<Rightarrow> string" where
  "header_value rq k = (case map_of (wr_headers rq) (canonical_header k) of None \<Rightarrow> [] | Some v \<Rightarrow> v)"

section \<open>The receiver\<close>

text \<open>The handler with the settings of its process, and the outcomes its counter has counted.\<close>

record receiver =
  wh_connector :: string
  wh_secret :: string
  wh_header :: string
  wh_hub_token :: string
  wh_outcomes :: "string list"

record libraries =
  lb_hmac :: "string \<Rightarrow> string \<Rightarrow> string"
  lb_json :: "string \<Rightarrow> json option"
  lb_media :: "string \<Rightarrow> string option"
  lb_form :: "string \<Rightarrow> (string \<times> string) list option"

definition max_body_size :: nat where "max_body_size = 2 ^ 20"

definition sig_trunc_len :: nat where "sig_trunc_len = 16"

definition truncate_sig :: "string \<Rightarrow> string" where
  "truncate_sig sig = take sig_trunc_len sig"

definition valid_signature :: "libraries \<Rightarrow> receiver \<Rightarrow> string \<Rightarrow> string \<Rightarrow> bool" where
  "valid_signature L h body sig \<longleftrightarrow> hex_encode (lb_hmac L (wh_secret h) body) = trim_prefix sig ''sha256=''"

definition unwrap_form_payload :: "libraries \<Rightarrow> web_request \<Rightarrow> string \<Rightarrow> string + string" where
  "unwrap_form_payload L rq body =
     (let ct = header_value rq ''Content-Type'';
          media = (if ct = [] then [] else case lb_media L ct of None \<Rightarrow> [] | Some m \<Rightarrow> m)
      in if media \<noteq> ''application/x-www-form-urlencoded'' then Inr body
         else (case lb_form L body of
                 None \<Rightarrow> Inl ''invalid form body''
               | Some vs \<Rightarrow>
                   (case map_of vs ''payload'' of
                      None \<Rightarrow> Inl ''missing or invalid payload field''
                    | Some p \<Rightarrow> if p = [] \<or> lb_json L p = None then Inl ''missing or invalid payload field'' else Inr p)))"

section \<open>The publisher\<close>

text \<open>
  The surroundings of one publication: the clock, whether the request reaches the hub and its answer comes back,
  and the surroundings of the ingest.
\<close>

record publish_env =
  pb_nanos :: int
  pb_sent :: bool
  pb_answered :: bool
  pb_ingest :: ingest_env

definition event_id :: "string \<Rightarrow> int \<Rightarrow> string" where
  "event_id connector nanos = ''evt_'' @ connector @ ''_'' @ decimal nanos"

text \<open>
  The event as the hub decodes it. Empty headers and an empty body are omitted from its JSON; a body that is no JSON
  cannot be marshalled. The version and the time stamp are not read by the hub.
\<close>

definition published_event :: "libraries \<Rightarrow> string \<Rightarrow> int \<Rightarrow> (string \<times> string) list \<Rightarrow> string \<Rightarrow> qevent option" where
  "published_event L connector nanos headers body =
     (if body \<noteq> [] \<and> lb_json L body = None then None
      else Some \<lparr>qe_id = event_id connector nanos, qe_connector = connector, qe_channel = [],
             qe_headers = (if headers = [] then None else Some headers),
             qe_data = (if body = [] then None else lb_json L body), qe_raw = body, qe_received = None\<rparr>)"

definition hub_request :: "string \<Rightarrow> api_request" where
  "hub_request token = \<lparr>rq_method = ''POST'', rq_path = ''/api/internal/events'', rq_token = token\<rparr>"

definition publish_event ::
  "libraries \<Rightarrow> publish_env \<Rightarrow> receiver \<Rightarrow> (string \<times> string) list \<Rightarrow> string \<Rightarrow> hub_api \<Rightarrow> (string + unit) \<times> hub_api" where
  "publish_event L p h headers body hub =
     (case published_event L (wh_connector h) (pb_nanos p) headers body of
        None \<Rightarrow> (Inl ''marshal event'', hub)
      | Some evt \<Rightarrow>
          if \<not> pb_sent p then (Inl ''POST'', hub)
          else (case handle_ingest_event (pb_ingest p) (hub_request (wh_hub_token h)) (Inr evt) hub of
                  (x, hub') \<Rightarrow>
                    (if \<not> pb_answered p then Inl ''POST''
                     else case x of Inr Accepted \<Rightarrow> Inr () | _ \<Rightarrow> Inl ''hub returned an error (expected 202)'', hub')))"

section \<open>Deliveries\<close>

datatype web_reply = Status nat string

definition count_outcome :: "string \<Rightarrow> receiver \<Rightarrow> receiver" where
  "count_outcome what h = h\<lparr>wh_outcomes := wh_outcomes h @ [what]\<rparr>"

definition handle_publish ::
  "libraries \<Rightarrow> publish_env \<Rightarrow> web_request \<Rightarrow> receiver \<Rightarrow> hub_api \<Rightarrow> web_reply \<times> receiver \<times> hub_api" where
  "handle_publish L p rq h hub =
     (if wr_method rq \<noteq> ''POST'' then (Status 405 [], h, hub)
      else if wr_broken rq then (Status 500 ''failed to read body'', count_outcome ''publish_error'' h, hub)
      else let body = take max_body_size (wr_body rq) in
        if \<not> valid_signature L h body (header_value rq (wh_header h)) then (Status 401 [], count_outcome ''invalid_sig'' h, hub)
        else (case unwrap_form_payload L rq body of
                Inl e \<Rightarrow> (Status 400 e, h, hub)
              | Inr payload \<Rightarrow>
                  (case publish_event L p h (wr_headers rq) payload hub of
                     (Inl _, hub') \<Rightarrow> (Status 500 ''publish failed'', count_outcome ''publish_error'' h, hub')
                   | (Inr _, hub') \<Rightarrow> (Status 200 [], count_outcome ''ok'' h, hub'))))"

definition serve_http ::
  "libraries \<Rightarrow> publish_env \<Rightarrow> web_request \<Rightarrow> receiver \<Rightarrow> hub_api \<Rightarrow> web_reply \<times> receiver \<times> hub_api" where
  "serve_http L p rq h hub =
     (if wr_path rq = ''/healthz'' then (Status 200 ''ok'', h, hub)
      else if wr_path rq = ''/publish'' then handle_publish L p rq h hub
      else (Status 404 ''404 page not found'', h, hub))"

text \<open>
  The request id a delivery is answered with; \<open>fresh\<close> is the one that is minted.
\<close>

definition request_id :: "string \<Rightarrow> web_request \<Rightarrow> string" where
  "request_id fresh rq =
     (let a = header_value rq ''X-Request-Id''; b = header_value rq ''X-GitHub-Delivery''
      in if a \<noteq> [] then a else if b \<noteq> [] then b else fresh)"

end
