(* ===== verification/WebhookRules.thy ===== *)
theory WebhookRules
  imports Webhook
begin

text \<open>
  What the webhook receiver promises: only genuine deliveries reach the hub, an accepted one is stored with its
  payload, and what a retry of a provider does.
\<close>

section \<open>Event ids\<close>

lemma decimal_digits_value:
  "foldl (\<lambda>v c. 10 * v + ((of_char c :: nat) - 48)) 0 (decimal_digits n acc) =
   foldl (\<lambda>v c. 10 * v + ((of_char c :: nat) - 48)) n acc"
proof (induction n acc rule: decimal_digits.induct)
  case (1 n acc)
  then show ?case by (subst decimal_digits.simps) (auto simp: of_char_of)
qed

lemma decimal_digits_digits:
  "list_all (\<lambda>c. (48::nat) \<le> of_char c) acc \<Longrightarrow> list_all (\<lambda>c. (48::nat) \<le> of_char c) (decimal_digits n acc)"
proof (induction n acc rule: decimal_digits.induct)
  case (1 n acc)
  then show ?case by (subst decimal_digits.simps) (auto simp: of_char_of)
qed

lemma decimal_digits_inject: "decimal_digits m [] = decimal_digits n [] \<Longrightarrow> m = n"
  by (drule arg_cong [where f = "foldl (\<lambda>v c. 10 * v + ((of_char c :: nat) - 48)) 0"]) (simp only: decimal_digits_value foldl_Nil)

lemma decimal_digits_no_sign: "decimal_digits n [] \<noteq> CHR ''-'' # s"
proof
  assume e: "decimal_digits n [] = CHR ''-'' # s"
  have "list_all (\<lambda>c. (48::nat) \<le> of_char c) (decimal_digits n [])" by (rule decimal_digits_digits) simp
  then show False unfolding e by simp
qed

lemma decimal_inject:
  assumes "decimal j = decimal k"
  shows "j = k"
proof (cases "j < 0")
  case True
  then have "k < 0" using assms decimal_digits_no_sign [of "nat k" "decimal_digits (nat (- j)) []"] by (auto simp: decimal_def split: if_splits)
  then show ?thesis using True assms decimal_digits_inject [of "nat (- j)" "nat (- k)"] by (simp add: decimal_def)
next
  case False
  then have "\<not> k < 0" using assms decimal_digits_no_sign [of "nat j" "decimal_digits (nat (- k)) []"] by (auto simp: decimal_def split: if_splits)
  then show ?thesis using False assms decimal_digits_inject [of "nat j" "nat k"] by (simp add: decimal_def)
qed

lemma event_id_inject: "event_id c m = event_id c n \<longleftrightarrow> m = n"
  by (auto simp: event_id_def dest: decimal_inject)

lemma event_id_nonempty [simp]: "event_id c n \<noteq> []"
  by (simp add: event_id_def)

section \<open>One delivery\<close>

text \<open>A delivery of the connector: the checks the receiver makes before it parses anything.\<close>

definition genuine :: "libraries \<Rightarrow> receiver \<Rightarrow> web_request \<Rightarrow> bool" where
  "genuine L h rq \<longleftrightarrow> wr_method rq = ''POST'' \<and> \<not> wr_broken rq \<and>
     valid_signature L h (take max_body_size (wr_body rq)) (header_value rq (wh_header h))"

abbreviation payload_of :: "libraries \<Rightarrow> web_request \<Rightarrow> string + string" where
  "payload_of L rq \<equiv> unwrap_form_payload L rq (take max_body_size (wr_body rq))"

lemma not_genuine:
  "\<not> genuine L h rq \<Longrightarrow> \<exists>code msg h'. handle_publish L p rq h hub = (Status code msg, h', hub) \<and> code \<noteq> 200"
  by (auto simp: genuine_def handle_publish_def Let_def)

lemma genuine_publishes:
  "genuine L h rq \<Longrightarrow> handle_publish L p rq h hub =
     (case payload_of L rq of
        Inl e \<Rightarrow> (Status 400 e, h, hub)
      | Inr payload \<Rightarrow>
          (case publish_event L p h (wr_headers rq) payload hub of
             (Inl _, hub') \<Rightarrow> (Status 500 ''publish failed'', count_outcome ''publish_error'' h, hub')
           | (Inr _, hub') \<Rightarrow> (Status 200 [], count_outcome ''ok'' h, hub')))"
  by (simp add: genuine_def handle_publish_def Let_def)

text \<open>An event as the receiver publishes it: id, connector, headers and data that are there, no channel.\<close>

definition carries :: "libraries \<Rightarrow> publish_env \<Rightarrow> receiver \<Rightarrow> web_request \<Rightarrow> string \<Rightarrow> event_row \<Rightarrow> bool" where
  "carries L p h rq payload e \<longleftrightarrow>
     er_id e = event_id (wh_connector h) (pb_nanos p) \<and> er_connector e = wh_connector h \<and> er_raw e = payload \<and>
     lb_json L payload = Some (er_data e) \<and> er_headers e = wr_headers rq"

lemma published_event_fields:
  "published_event L c n hs body = Some evt \<Longrightarrow>
     qe_id evt = event_id c n \<and> qe_connector evt = c \<and> qe_raw evt = body \<and>
     (qe_data evt \<noteq> None \<longrightarrow> qe_data evt = lb_json L body) \<and> (qe_headers evt \<noteq> None \<longrightarrow> qe_headers evt = Some hs)"
  by (auto simp: published_event_def split: if_splits)

text \<open>What one publication does to the events of the hub: they stay, or the event of this delivery is appended.\<close>

lemma publish_event_stores:
  assumes "ha_channels hub \<noteq> None" "ha_queue hub = Some q" "publish_event L p h (wr_headers rq) payload hub = (r, hub')"
  shows "map_option q_events (ha_queue hub') = Some (q_events q) \<and>
      (pb_answered p \<and> r = Inr () \<longrightarrow> has_row er_id (event_id (wh_connector h) (pb_nanos p)) (q_events q)) \<or>
    (\<exists>q' e db. ha_queue hub' = Some q' \<and> ha_channels hub' = Some db \<and> q_events q' = q_events q @ [e] \<and> carries L p h rq payload e \<and>
       (er_channel e = None \<or> (\<exists>c \<in> set (cdb_channels db). er_channel e = Some (cr_id c) \<and> owns_entity kind_connector (wh_connector h) c)) \<and>
       (pb_answered p \<longrightarrow> r = Inr ()))"
proof (cases "published_event L (wh_connector h) (pb_nanos p) (wr_headers rq) payload")
  case None
  then show ?thesis using assms by (auto simp: publish_event_def)
next
  case (Some evt)
  show ?thesis
  proof (cases "pb_sent p")
    case False
    then show ?thesis using assms Some by (auto simp: publish_event_def)
  next
    case True
    obtain x s' where i: "handle_ingest_event (pb_ingest p) (hub_request (wh_hub_token h)) (Inr evt) hub = (x, s')" by fastforce
    have r: "hub' = s'" "r = (if \<not> pb_answered p then Inl ''POST'' else case x of Inr Accepted \<Rightarrow> Inr ()
        | _ \<Rightarrow> Inl ''hub returned an error (expected 202)'')"
      using assms(3) Some True i by (auto simp: publish_event_def)
    note born = event_born_in_connector_channel [OF assms(1,2), where v = "pb_ingest p" and rq = "hub_request (wh_hub_token h)" and evt = evt]
    show ?thesis
    proof (cases x)
      case (Inl e)
      then show ?thesis using born i r by auto
    next
      case (Inr a)
      then have a: "a = Accepted"
        using i by (auto simp: handle_ingest_event_def split: sum.splits prod.splits if_splits)
      then have ok: "pb_answered p \<Longrightarrow> r = Inr ()" using r Inr by simp
      have stored: "has_row er_id (qe_id evt) (q_events q) \<and> map_option q_events (ha_queue s') = Some (q_events q) \<or>
          (\<exists>q' e db. ha_queue s' = Some q' \<and> ha_channels s' = Some db \<and> q_events q' = q_events q @ [e] \<and>
            er_id e = qe_id evt \<and> er_connector e = qe_connector evt \<and> er_raw e = qe_raw evt \<and>
            Some (er_data e) = qe_data evt \<and> Some (er_headers e) = qe_headers evt \<and>
            (er_channel e = None \<or> (\<exists>c \<in> set (cdb_channels db).
               er_channel e = Some (cr_id c) \<and> owns_entity kind_connector (qe_connector evt) c)))"
        using born i Inr by auto
      then show ?thesis
        using ok r(1) published_event_fields [OF Some] by (auto simp: carries_def)
    qed
  qed
qed


section \<open>Samples\<close>

definition sample_libraries :: libraries where
  "sample_libraries = \<lparr>lb_hmac = (\<lambda>key body. key), lb_json = (\<lambda>s. if s = ''{}'' then Some (JObj []) else None),
     lb_media = (\<lambda>s. Some s), lb_form = (\<lambda>s. if s = ''payload=%7B%7D'' then Some [(''payload'', ''{}'')] else None)\<rparr>"

definition sample_receiver :: receiver where
  "sample_receiver = \<lparr>wh_connector = ''github'', wh_secret = ''k'', wh_header = ''X-Hub-Signature-256'', wh_hub_token = ''s3'', wh_outcomes = []\<rparr>"

definition sample_delivery :: "string \<Rightarrow> web_request" where
  "sample_delivery sig = \<lparr>wr_method = ''POST'', wr_path = ''/publish'',
     wr_headers = [(''X-Hub-Signature-256'', sig), (''Content-Type'', ''application/x-www-form-urlencoded''), (''X-Github-Delivery'', ''d1'')],
     wr_body = ''payload=%7B%7D'', wr_broken = False\<rparr>"

definition publishing :: "int \<Rightarrow> publish_env" where
  "publishing n = \<lparr>pb_nanos = n, pb_sent = True, pb_answered = True,
     pb_ingest = \<lparr>ig_ensure = all_ok, ig_id = ''c9'', ig_now = 9, ig_fk = (\<lambda>_. True), ig_insert = all_ok\<rparr>\<rparr>"

definition ingest_hub :: hub_api where
  "ingest_hub = sample_api\<lparr>ha_queue := Some empty_queue, ha_channels := Some \<lparr>cdb_channels = [], cdb_bridges = []\<rparr>\<rparr>"

lemma ingest_hub_parts: "ha_channels ingest_hub \<noteq> None" "ha_queue ingest_hub = Some empty_queue"
  by (simp_all add: ingest_hub_def)

lemma sample_genuine: "genuine sample_libraries (count_outcome x sample_receiver) (sample_delivery ''sha256=6b'')"
  "genuine sample_libraries sample_receiver (sample_delivery ''sha256=6b'')"
proof -
  have b: "take max_body_size (wr_body (sample_delivery s)) = wr_body (sample_delivery s)" for s
    by (simp add: max_body_size_def sample_delivery_def)
  have "valid_signature sample_libraries sample_receiver (wr_body (sample_delivery ''sha256=6b''))
      (header_value (sample_delivery ''sha256=6b'') (wh_header sample_receiver))" by code_simp
  then show "genuine sample_libraries sample_receiver (sample_delivery ''sha256=6b'')"
    unfolding genuine_def b by (simp add: sample_delivery_def)
  then show "genuine sample_libraries (count_outcome x sample_receiver) (sample_delivery ''sha256=6b'')"
    by (simp add: genuine_def valid_signature_def count_outcome_def)
qed

lemma sample_payload: "payload_of sample_libraries (sample_delivery s) = Inr ''{}''"
proof -
  have b: "take max_body_size (wr_body (sample_delivery s)) = ''payload=%7B%7D''"
    by (simp add: max_body_size_def sample_delivery_def)
  have c: "header_value (sample_delivery s) ''Content-Type'' = ''application/x-www-form-urlencoded''"
  proof -
    have "canonical_header ''Content-Type'' = ''Content-Type''" by code_simp
    then show ?thesis by (simp add: header_value_def sample_delivery_def)
  qed
  show ?thesis unfolding b by (simp add: unwrap_form_payload_def c sample_libraries_def)
qed

lemma sample_accepts:
  assumes "fst (publish_event sample_libraries p h (wr_headers (sample_delivery ''sha256=6b'')) ''{}'' hub) = Inr ()"
    and "genuine sample_libraries h (sample_delivery ''sha256=6b'')"
  shows "\<exists>h' hub'. handle_publish sample_libraries p (sample_delivery ''sha256=6b'') h hub = (Status 200 [], h', hub')"
  using assms(1) by (auto simp: genuine_publishes [OF assms(2)] sample_payload split: prod.split)

lemma sample_published:
  "fst (publish_event sample_libraries (publishing 7) sample_receiver (wr_headers (sample_delivery ''sha256=6b'')) ''{}'' ingest_hub) = Inr ()"
  by code_simp


section \<open>Retries\<close>

lemma publish_event_lost:
  "publish_event L p h hs body hub = (Inr u, hub') \<Longrightarrow>
   publish_event L (p\<lparr>pb_answered := False\<rparr>) h hs body hub = (Inl ''POST'', hub')"
  by (auto simp: publish_event_def split: option.splits if_splits prod.splits)

lemma handle_publish_lost:
  assumes "handle_publish L p rq h hub = (Status 200 m, h1, hub1)"
  shows "handle_publish L (p\<lparr>pb_answered := False\<rparr>) rq h hub = (Status 500 ''publish failed'', count_outcome ''publish_error'' h, hub1)"
proof -
  have g: "genuine L h rq" using not_genuine [of L h rq p hub] assms by auto
  show ?thesis
    using assms publish_event_lost [of L p h "wr_headers rq"]
    by (fastforce simp: genuine_publishes [OF g] split: sum.splits prod.splits)
qed

lemma accepted_stores:
  assumes "handle_publish L p rq h hub = (Status 200 m, h1, hub1)" "ha_channels hub \<noteq> None" "ha_queue hub = Some q"
    and "\<not> has_row er_id (event_id (wh_connector h) (pb_nanos p)) (q_events q)"
  obtains payload q' e where "payload_of L rq = Inr payload" "carries L p h rq payload e" "ha_channels hub1 \<noteq> None"
    "ha_queue hub1 = Some q'" "q_events q' = q_events q @ [e]"
proof -
  have g: "genuine L h rq" using not_genuine [of L h rq p hub] assms by auto
  then obtain payload where y: "payload_of L rq = Inr payload" "publish_event L p h (wr_headers rq) payload hub = (Inr (), hub1)"
    using assms(1) by (auto simp: genuine_publishes [OF g] split: sum.splits prod.splits)
  moreover have "pb_answered p" using y(2) by (auto simp: publish_event_def split: option.splits if_splits prod.splits)
  ultimately show ?thesis
    using publish_event_stores [OF assms(2,3) y(2)] assms(4) that by auto
qed

text \<open>
  The retry of a provider is a second event: when the hub stores the event of a delivery and its answer is lost, the provider is
  told 500, and the same delivery sent again and accepted stores its payload a second time, under another id, since the id is
  made of the connector and the clock and not of the delivery.
\<close>

theorem retry_is_stored_again:
  assumes "ha_channels hub \<noteq> None" "ha_queue hub = Some q"
    and "handle_publish L p rq h hub = (Status 200 m, h1, hub1)"
    and "handle_publish L (p\<lparr>pb_answered := False\<rparr>) rq h hub = (Status code m0, h0, hub0)"
    and "handle_publish L p' rq h0 hub0 = (Status 200 m', h2, hub2)"
    and "pb_nanos p' \<noteq> pb_nanos p"
    and "\<forall>e \<in> set (q_events q). er_id e \<noteq> event_id (wh_connector h) (pb_nanos p) \<and> er_id e \<noteq> event_id (wh_connector h) (pb_nanos p')"
  shows "code = 500 \<and> (\<exists>q2 e1 e2. ha_queue hub2 = Some q2 \<and> q_events q2 = q_events q @ [e1, e2] \<and>
    er_id e1 \<noteq> er_id e2 \<and> er_connector e1 = er_connector e2 \<and> er_raw e1 = er_raw e2 \<and> er_data e1 = er_data e2 \<and> er_headers e1 = er_headers e2)"
proof -
  have lost: "code = 500" "hub0 = hub1" "wh_connector h0 = wh_connector h"
    using handle_publish_lost [OF assms(3)] assms(4) by (simp_all add: count_outcome_def)
  have fresh1: "\<not> has_row er_id (event_id (wh_connector h) (pb_nanos p)) (q_events q)" using assms(7) unfolding has_row_def list_ex_iff by blast
  obtain payload q1 e1 where
    one: "payload_of L rq = Inr payload" "carries L p h rq payload e1" "ha_channels hub1 \<noteq> None" "ha_queue hub1 = Some q1"
      "q_events q1 = q_events q @ [e1]" by (rule accepted_stores [OF assms(3,1,2) fresh1])
  have new: "er_id e1 \<noteq> event_id (wh_connector h) (pb_nanos p')" using assms(6) one(2) by (simp add: carries_def event_id_inject)
  have fresh: "\<not> has_row er_id (event_id (wh_connector h0) (pb_nanos p')) (q_events q1)"
    unfolding lost(3) using assms(7) one(5) new by (auto simp: has_row_def list_ex_iff)
  have second: "handle_publish L p' rq h0 hub1 = (Status 200 m', h2, hub2)" using assms(5) lost(2) by simp
  obtain payload' q2 e2 where two: "payload_of L rq = Inr payload'" "carries L p' h0 rq payload' e2" "ha_channels hub2 \<noteq> None" "ha_queue hub2 = Some q2"
    "q_events q2 = q_events q1 @ [e2]"
    by (rule accepted_stores [OF second one(3,4) fresh])
  have "payload' = payload" using one(1) two(1) by simp
  then have e: "er_raw e1 = er_raw e2" "er_data e1 = er_data e2" "er_headers e1 = er_headers e2" "er_connector e1 = er_connector e2"
    "er_id e1 \<noteq> er_id e2"
    using one(2) two(2) lost(3) new by (simp_all add: carries_def)
  show ?thesis using lost(1) one(5) two(4,5) e by simp
qed

theorem retry_is_stored_again_witness:
  "\<exists>(hub2 :: hub_api) (q2 :: queue) (e1 :: event_row) (e2 :: event_row). ha_queue hub2 = Some q2 \<and> q_events q2 = [e1, e2] \<and> er_id e1 \<noteq> er_id e2 \<and> er_raw e1 = er_raw e2"
proof -
  let ?d = "sample_delivery ''sha256=6b''"
  let ?one = "handle_publish sample_libraries (publishing 7) ?d sample_receiver ingest_hub"
  obtain h1 hub1 where one: "?one = (Status 200 [], h1, hub1)" using sample_accepts [OF sample_published sample_genuine(2)] by blast
  note lost = handle_publish_lost [OF one]
  have "hub1 = snd (publish_event sample_libraries (publishing 7) sample_receiver (wr_headers ?d) ''{}'' ingest_hub)"
    using one by (simp add: genuine_publishes [OF sample_genuine(2)] sample_payload split: prod.splits sum.splits)
  moreover have "fst (publish_event sample_libraries (publishing 8) sample_receiver (wr_headers ?d) ''{}''
      (snd (publish_event sample_libraries (publishing 7) sample_receiver (wr_headers ?d) ''{}'' ingest_hub))) = Inr ()" by code_simp
  moreover have "publish_event L p (count_outcome x h) hs s hub = publish_event L p h hs s hub" for L p x h hs s hub
    by (simp add: publish_event_def count_outcome_def split: option.split)
  ultimately obtain h2 hub2 where two: "handle_publish sample_libraries (publishing 8) ?d (count_outcome ''publish_error'' sample_receiver) hub1 = (Status 200 [], h2, hub2)"
    using sample_accepts [OF _ sample_genuine(1)] by metis
  have n: "pb_nanos (publishing 8) \<noteq> pb_nanos (publishing 7)" by (simp add: publishing_def)
  obtain q2 e1 e2 where "ha_queue hub2 = Some q2" "q_events q2 = [e1, e2]" "er_id e1 \<noteq> er_id e2" "er_raw e1 = er_raw e2"
    using retry_is_stored_again [OF ingest_hub_parts one lost two n] by (auto simp: empty_queue_def)
  then show ?thesis by blast
qed

end
