(* ===== verification/Spec2Isabelle.thy ===== *)
theory Spec2Isabelle
  imports AgentWatch ChannelRules ChannelViews ChatRules GroupRules McpServerRules PersonaApiRules QueueSignal Telemetry WebhookRules
begin

text \<open>
  Ainsel, a platform that runs AI agents on Kubernetes: the hub routes events from connectors to agents
  through a queue in PostgreSQL, and an operator runs the agents. This library models the core of the Go code under \<^verbatim>\<open>services/hub\<close>,
  \<^verbatim>\<open>operators/agent\<close> and \<^verbatim>\<open>shared/api\<close> and proves what makes it correct, and where it falls short of what its comments and
  documents promise.

  \<^bold>\<open>How the parts interact.\<close>
  A webhook receiver checks a delivery (\<open>Webhook\<close>) and posts an event to the hub (\<open>TaskApi.handle_ingest_event\<close>), which stamps it with its birth channel and inserts it into
  the queue (\<open>EventQueue\<close>). The router polls unrouted events (\<open>Router.poll\<close>, \<open>Router.handle_event\<close>): it matches them against the
  in-memory index of triggers (\<open>TriggerIndex\<close>, with the filters of \<open>FilterEngine\<close>), enqueues one task per matching trigger, and
  walks the bridges of the channel graph from the event's birth channel (\<open>Channels\<close>, \<open>ChannelGraph\<close>), one task per agent inbox
  it reaches. The cron emitter (\<open>CronSchedule\<close>, \<open>CronEmitter\<close>) fires due schedules through the same steps. Agents poll for
  tasks, settle them and post logs (\<open>TaskApi\<close>, \<open>TaskLogs\<close>); a reaper returns the tasks of agents that died. Every delivery is
  an invocation in a history (\<open>Invocations\<close>). Changes of a queue mark its agent, the publisher writes queue depths into the
  Agent resource (\<open>QueueSignal\<close>), and the operator decides from them how many pods run (\<open>Scaling\<close>). The operator renders
  the pod of an agent from its resource and its image (\<open>AgentPod\<close>, \<open>ImageDigest\<close>) and reconciles deployment, secret,
  ConfigMap, service and status (\<open>AgentOperator\<close>). The console reads timelines, pages and charts (\<open>EventQuery\<close>, \<open>ChannelService\<close>,
  \<open>Telemetry\<close>, \<open>Paging\<close>) and changes triggers (\<open>TriggerStore\<close>, \<open>TriggerApi\<close>) behind accounts and groups (\<open>Authz\<close>,
  \<open>Accounts\<close>, \<open>UserTokens\<close>, \<open>PasswordHash\<close>).

  \<^bold>\<open>How the code is modelled.\<close>
  A Go struct is a record, a table of PostgreSQL the list of its rows in the order of insertion, a Go map an association list, an
  in-memory component the record of its fields. An operation takes the state and returns its result, \<open>error + value\<close>, with the new
  state; every early return, driver error and panic is a branch. An operation that sends SQL takes \<open>pg\<close>, and \<open>pg i\<close> says whether
  its \<open>i\<close>-th statement is executed; one that sends several takes what other connections do in between where that matters (the
  arguments named \<open>env\<close>). The current time, random bytes, generated ids and the order in which Go visits a map are
  arguments. A request body is what the JSON decoder makes of it, an error text or the fields. An HTTP handler returns
  a value or a \<open>Refused status message\<close> (\<open>Replies\<close>). Error texts that wrap another error keep their constant part only. Code that is not in the repository is a
  parameter, and what is relied on is a named hypothesis: argon2 and SHA-256, signed tokens, regular expressions, Prometheus, the Kubernetes API
  server (its answers are arguments, the requests to it a trace), container registries. Text order is byte order, case
  folding that of ASCII. Log lines are left out. Mutexes make the operations they guard atomic; where the code reads and writes
  under separate locks or in separate statements, so does the model.

  \<^bold>\<open>The theories.\<close>
  \<open>Prelude\<close>: strings, \<open>int\<close> of 64 bits, association lists and row updates, with the collections \<open>go_simps\<close> and \<open>sql_simps\<close>.
  \<open>GoText\<close>: quoting, and the sequencing of operations that may fail. \<open>Stores\<close>: store errors and the locale \<open>keyed_store\<close> (create, fetch, remove), interpreted
  on triggers, cron triggers, MCP servers and local users. \<open>GuardedWalk\<close>: the locale of recursive queries that enter no node twice, interpreted on the three
  bridge queries. \<open>Replies\<close>: refusals.

  Events and delivery. \<open>EventQueue\<close> (\<^verbatim>\<open>eventqueue/store.go\<close>) has the tables and the operations on events and tasks; \<open>QueueMachine\<close> the
  step relation over them with its invariant: a task is claimed at most as often as allowed, an enqueue happens once per delivery key, the oldest claimable task is
  claimed, exactly the stale claims are reaped. \<open>FilterEngine\<close> (\<^verbatim>\<open>shared/api/filter.go\<close>), \<open>TriggerIndex\<close> (\<^verbatim>\<open>trigger/index.go\<close>): matching equals its
  declarative reading. \<open>Router\<close> (\<^verbatim>\<open>router/router.go\<close>, \<^verbatim>\<open>channels/transfer.go\<close>), \<open>Routing\<close>: an event is marked routed after one task per match and inbox, with
  the locale \<open>fan_out_step\<close> for the steps. \<open>CronSchedule\<close> (\<^verbatim>\<open>shared/api/cron/schedule.go\<close>): the parsed masks mean their fields, the next fire time is the least, and
  the search ends. \<open>CronEmitter\<close> (\<^verbatim>\<open>cron/emitter.go\<close>, \<^verbatim>\<open>cmd/hub/sync.go\<close>): due entries fire and the entries mirror the database. \<open>TaskLogs\<close>
  (\<^verbatim>\<open>tasklogs\<close>), \<open>TaskApi\<close> (\<^verbatim>\<open>api/handlers_eventqueue.go\<close>), \<open>TaskRules\<close>: the internal surface is closed without the shared
  token, settling does what it says. \<open>Invocations\<close> (\<^verbatim>\<open>invocations\<close>): the ring buffer and the table, under one contract.

  \<open>Webhook\<close> (\<^verbatim>\<open>services/webhook-receiver\<close>), \<open>WebhookRules\<close>: genuine deliveries are stored as they were sent, and what a retry does.

  Channels. \<open>Channels\<close> (\<^verbatim>\<open>channels/store.go\<close>): the registry with its recursive queries. \<open>ChannelGraph\<close>: the invariant every operation keeps, and what the
  walk delivers. \<open>ChannelService\<close> (\<^verbatim>\<open>channels/service.go\<close>, \<^verbatim>\<open>reconcile.go\<close>), \<open>ChannelViews\<close>: the views, and the fixed point
  of the reconciler. \<open>EventQuery\<close>: the filters of the event lists. \<open>ChannelApi\<close> (\<^verbatim>\<open>handlers_channels.go\<close>), \<open>ChannelRules\<close>: channels change with permission only, and the
  lists show what may be read.

  Agents. \<open>QueueSignal\<close> (\<^verbatim>\<open>queuesignal\<close>) and \<open>Scaling\<close> (\<^verbatim>\<open>scaling.go\<close>): the replica count stays in its bounds and a waiting task brings an agent up.
  \<open>AgentPod\<close>, \<open>AgentOperator\<close> (\<^verbatim>\<open>agent_controller.go\<close>), \<open>ImageDigest\<close> (\<^verbatim>\<open>imagedigest.go\<close>): the runtime profile, the pod template and a pass. \<open>AgentRules\<close>: who decides a
  variable, which secrets a pod refers to. \<open>AgentRestart\<close>: which changes restart it. \<open>AgentWatch\<close>: the watches see them, the selector is stable, Ready means what it says.

  \<open>Personas\<close> (\<^verbatim>\<open>personas\<close>): the prompts of agents, versioned in a table and rendered into ConfigMaps; \<open>PersonaRules\<close>: their history is
  append-only, a rollback can be rolled back, and the ConfigMaps follow. \<open>AgentApi\<close> (\<^verbatim>\<open>handlers_agents.go\<close>, \<^verbatim>\<open>handlers_agent_persona.go\<close>) and \<open>PersonaApi\<close>
  (\<^verbatim>\<open>handlers_personas.go\<close>): the endpoints of agents, of their personas and of the library; \<open>AgentApiRules\<close>, \<open>PersonaApiRules\<close>: they change with permission only, what
  an agent shows can be sent back without losing a secret, a refused update keeps every agent, and how personas reach people who may not read them.

  People. \<open>Authz\<close> (\<^verbatim>\<open>authz\<close>): the store, the cache of roles and the checks; \<open>AccessRules\<close>: the checks are the policy up to the age of the cache. \<open>PasswordHash\<close>
  (\<^verbatim>\<open>localauth/hash.go\<close>), \<open>UserTokens\<close> (\<^verbatim>\<open>usertokens\<close>), \<open>Accounts\<close> (\<^verbatim>\<open>handlers_auth.go\<close>, \<^verbatim>\<open>handlers_users.go\<close>),
  \<open>AccountRules\<close>: login and tokens as round trips, back-off, and the last administrator. \<open>TriggerStore\<close> (\<^verbatim>\<open>triggers/store.go\<close>), \<open>TriggerApi\<close>
  (\<^verbatim>\<open>handlers_triggers.go\<close>, \<^verbatim>\<open>handlers_cron_triggers.go\<close>), \<open>TriggerRules\<close>: the endpoints permit what the guards allow. \<open>GuardedApi\<close>: what guarded endpoints share, with the locale
  \<open>guarded_endpoint\<close> (what nobody is permitted changes nothing), interpreted on the endpoints of triggers, cron triggers, channels, agents, personas, groups and MCP servers. \<open>GroupApi\<close> (\<^verbatim>\<open>handlers_groups.go\<close>, \<^verbatim>\<open>handlers_user_tokens.go\<close>),
  \<open>GroupRules\<close>: outsiders cannot touch a group, and an API token is its maker's. \<open>McpServers\<close> (\<^verbatim>\<open>mcpservers\<close>,
  \<^verbatim>\<open>handlers_mcp_servers.go\<close>), \<open>McpServerRules\<close>: the registry of MCP servers, of which managed ones and those in use stay. \<open>ActivityApi\<close>
  (\<^verbatim>\<open>telemetry_scope.go\<close>, \<^verbatim>\<open>handlers_events.go\<close>, \<^verbatim>\<open>handlers_invocations.go\<close>, \<^verbatim>\<open>handlers_observability_logs.go\<close>), \<open>ActivityRules\<close>: the records a caller is shown
  belong to what the caller may read. \<open>Paging\<close> (\<^verbatim>\<open>pagination.go\<close>, \<^verbatim>\<open>sorting.go\<close>):
  pages tile a list. \<open>Telemetry\<close> (\<^verbatim>\<open>telemetry/store.go\<close>, \<^verbatim>\<open>handlers_observability.go\<close>): the chart agrees with the totals.

  Chat. \<open>Chat\<close> (\<^verbatim>\<open>chat/store.go\<close>, \<^verbatim>\<open>handlers_chat.go\<close>): sessions of users with agents, whose messages are delivered through the event queue; \<open>ChatRules\<close>: conversations stay
  private, a message reaches its agent, and nobody asks whether the user may use it.

  \<^bold>\<open>Loops and bounds.\<close>
  No definition is partial. Loops over slices and maps are structural. The walk over bridges is bounded by \<open>max_walk_depth\<close> as in the code; the recursive reachability queries run
  for as many rounds as there are bridges, which is enough because no path enters a channel twice (\<open>guarded_walk\<close>). The search for the next fire time runs over
  the days of the horizon of the code. Integers are unbounded where the code cannot reach the limits, and of 64 (or 32) bits with their wrap-around where
  it can: cron steps, page numbers, poll timeouts, redelivery delays, queue depths.

  \<^bold>\<open>Not modelled.\<close>
  Generated code, process wiring and thin clients of other APIs (Prometheus, Forgejo, the MCP tools) hold no logic of their own. Not reached: agent images, skills and their
  git client, the connector endpoints and their operator, the WebSocket hub, the rate limit (floating point), and OIDC, whose core is
  the verification of foreign tokens. The manifest lists every part with its files.
\<close>

end
